(* ===== verification/Prelude.thy ===== *)
theory Prelude
  imports Main "HOL-Library.Char_ord" "HOL-Library.List_Lexorder" "HOL-Library.Sublist"
    "HOL-Library.Multiset"
begin

text \<open>
  Shared vocabulary of the development: results that can fail, the string functions of the Go
  standard library the program uses, counters kept in maps, fixed-width conversions, and the
  generic lemmas and collections the component theories build on.

  A Go string is a sequence of bytes, here a \<open>string\<close> (a list of 8-bit characters), ordered
  bytewise by the library's list order. A Go \<open>map[string]uint64\<close> used as a set of counters is a
  partial map into the naturals.
\<close>

named_theorems go_defs \<open>definitions unfolded when a concrete input is evaluated\<close>
named_theorems step_intros \<open>introduction rules of the step relations\<close>

subsection \<open>Results\<close>

type_synonym 'a res = "string + 'a"

abbreviation Err :: "string \<Rightarrow> 'a res" where "Err \<equiv> Inl"
abbreviation Ok :: "'a \<Rightarrow> 'a res" where "Ok \<equiv> Inr"

definition res_bind :: "'a res \<Rightarrow> ('a \<Rightarrow> 'b res) \<Rightarrow> 'b res" where
  "res_bind r k = case_sum Err k r"

lemma res_bind_simps [simp]: "res_bind (Err e) k = Err e" "res_bind (Ok x) k = k x"
  by (simp_all add: res_bind_def)

lemma res_bind_Ok: "res_bind r f = Ok y \<longleftrightarrow> (\<exists>x. r = Ok x \<and> f x = Ok y)"
  by (cases r) auto

lemma res_bind_Err: "res_bind r f = Err e \<longleftrightarrow> r = Err e \<or> (\<exists>x. r = Ok x \<and> f x = Err e)"
  by (cases r) auto

lemma res_bind_cong [fundef_cong]:
  "r = r' \<Longrightarrow> (\<And>x. r' = Ok x \<Longrightarrow> f x = g x) \<Longrightarrow> res_bind r f = res_bind r' g"
  by (cases r') auto

definition res_map :: "('a \<Rightarrow> 'b) \<Rightarrow> 'a res \<Rightarrow> 'b res" where
  "res_map f r = res_bind r (\<lambda>x. Ok (f x))"

lemma res_map_simps [simp]: "res_map f (Err m) = Err m" "res_map f (Ok x) = Ok (f x)"
  by (simp_all add: res_map_def)

fun res_ok :: "'a res \<Rightarrow> bool" where
  "res_ok (Inl _) = False"
| "res_ok (Inr _) = True"

subsection \<open>Fixed-width conversions\<close>

text \<open>\<open>int32(x)\<close> and \<open>int64(x)\<close> of Go: two's complement truncation.\<close>

definition to_i32 :: "int \<Rightarrow> int" where
  "to_i32 x = (x + 2 ^ 31) mod 2 ^ 32 - 2 ^ 31"

lemma to_i32_id [simp]: "- (2 ^ 31) \<le> x \<Longrightarrow> x < 2 ^ 31 \<Longrightarrow> to_i32 x = x"
  by (simp add: to_i32_def)

lemma to_i32_range: "- (2 ^ 31) \<le> to_i32 x \<and> to_i32 x < 2 ^ 31"
proof -
  have "0 \<le> (x + 2 ^ 31) mod 2 ^ 32" and "(x + 2 ^ 31) mod 2 ^ 32 < (2 ^ 32 :: int)"
    by simp_all
  then show ?thesis by (simp add: to_i32_def)
qed

definition to_i64 :: "int \<Rightarrow> int" where
  "to_i64 x = (x + 2 ^ 63) mod 2 ^ 64 - 2 ^ 63"

lemma to_i64_id [simp]: "- (2 ^ 63) \<le> x \<Longrightarrow> x < 2 ^ 63 \<Longrightarrow> to_i64 x = x"
  by (simp add: to_i64_def)

text \<open>Integer division of Go truncates towards zero.\<close>

definition go_div :: "int \<Rightarrow> int \<Rightarrow> int" where
  "go_div a b = (if (a < 0) = (b < 0) then \<bar>a\<bar> div \<bar>b\<bar> else - (\<bar>a\<bar> div \<bar>b\<bar>))"

lemma go_div_nonneg [simp]: "0 \<le> a \<Longrightarrow> 0 < b \<Longrightarrow> go_div a b = a div b"
  by (simp add: go_div_def)

subsection \<open>Strings\<close>

text \<open>White space as \<open>strings.TrimSpace\<close> sees it in ASCII text.\<close>

definition is_space :: "char \<Rightarrow> bool" where
  "is_space c \<longleftrightarrow> of_char c \<in> {9, 10, 11, 12, 13, 32 :: nat}"

definition trim_space :: "string \<Rightarrow> string" where
  "trim_space s = rev (dropWhile is_space (rev (dropWhile is_space s)))"

lemma trim_space_Nil [simp]: "trim_space [] = []"
  by (simp add: trim_space_def)

lemma dropWhile_rev_head:
  "dropWhile P (rev (dropWhile P xs)) = rev ys \<Longrightarrow> ys = [] \<or> \<not> P (hd ys)"
proof -
  assume eq: "dropWhile P (rev (dropWhile P xs)) = rev ys"
  have "suffix (rev ys) (rev (dropWhile P xs))"
    by (metis eq suffix_dropWhile)
  then have "prefix ys (dropWhile P xs)"
    by (simp add: suffix_to_prefix)
  then show ?thesis
    by (metis hd_append2 hd_dropWhile prefix_def append_is_Nil_conv)
qed

lemma trim_space_idem [simp]: "trim_space (trim_space s) = trim_space s"
proof -
  let ?t = "trim_space s"
  have eq: "rev ?t = dropWhile is_space (rev (dropWhile is_space s))"
    by (simp add: trim_space_def)
  then have "?t = [] \<or> \<not> is_space (hd ?t)"
    using dropWhile_rev_head [of is_space s ?t] by simp
  then have 1: "dropWhile is_space ?t = ?t"
    by (cases ?t) auto
  have "dropWhile is_space (rev ?t) = rev ?t"
    unfolding eq by simp
  with 1 show ?thesis
    by (simp add: trim_space_def [of ?t])
qed

text \<open>\<open>strings.ToLower\<close> on ASCII text.\<close>

definition lower_char :: "char \<Rightarrow> char" where
  "lower_char c = (let n = of_char c :: nat in if 65 \<le> n \<and> n \<le> 90 then char_of (n + 32) else c)"

definition to_lower :: "string \<Rightarrow> string" where
  "to_lower s = map lower_char s"

lemma lower_char_idem [simp]: "lower_char (lower_char c) = lower_char c"
  by (auto simp: lower_char_def Let_def)

lemma to_lower_idem [simp]: "to_lower (to_lower s) = to_lower s"
  by (simp add: to_lower_def)

lemma length_to_lower [simp]: "length (to_lower s) = length s"
  by (simp add: to_lower_def)

text \<open>Decimal digits: \<open>strconv.Itoa\<close> and the \<open>%d\<close> verb.\<close>

definition digit_char :: "nat \<Rightarrow> char" where
  "digit_char d = char_of (48 + d)"

fun nat_digits :: "nat \<Rightarrow> string" where
  "nat_digits n = (if n < 10 then [digit_char n] else nat_digits (n div 10) @ [digit_char (n mod 10)])"

declare nat_digits.simps [simp del]

definition itoa :: "int \<Rightarrow> string" where
  "itoa i = (if i < 0 then CHR ''-'' # nat_digits (nat (- i)) else nat_digits (nat i))"

fun split_on :: "char \<Rightarrow> string \<Rightarrow> string list" where
  "split_on c [] = [[]]"
| "split_on c (x # xs) =
     (if x = c then [] # split_on c xs
      else (case split_on c xs of [] \<Rightarrow> [[x]] | y # ys \<Rightarrow> (x # y) # ys))"

lemma split_on_ne [simp]: "split_on c s \<noteq> []"
  by (induction s) (auto split: list.splits)

fun join_with :: "string \<Rightarrow> string list \<Rightarrow> string" where
  "join_with sep [] = []"
| "join_with sep [x] = x"
| "join_with sep (x # y # ys) = x @ sep @ join_with sep (y # ys)"

lemma join_with_Cons: "ys \<noteq> [] \<Longrightarrow> join_with sep (x # ys) = x @ sep @ join_with sep ys"
  by (cases ys) auto

lemma join_split [simp]: "join_with [c] (split_on c s) = s"
proof (induction s)
  case (Cons x xs)
  show ?case
  proof (cases "split_on c xs")
    case Nil
    then show ?thesis by simp
  next
    case (Cons y ys)
    with Cons.IH show ?thesis
      by (cases ys) auto
  qed
qed simp

text \<open>\<open>strings.ReplaceAll\<close> of one character, and \<open>filepath.Base\<close>.\<close>

definition replace_char :: "char \<Rightarrow> string \<Rightarrow> string \<Rightarrow> string" where
  "replace_char c r s = concat (map (\<lambda>x. if x = c then r else [x]) s)"

definition path_base :: "string \<Rightarrow> string" where
  "path_base p =
     (if p = [] then ''.''
      else let q = rev (dropWhile (\<lambda>c. c = CHR ''/'') (rev p));
               r = rev (takeWhile (\<lambda>c. c \<noteq> CHR ''/'') (rev q))
        in if r = [] then ''/'' else r)"

subsection \<open>Counters and maps\<close>

text \<open>\<open>m[k]\<close> of a Go map with integer values: 0 when the key is missing.\<close>

type_synonym 'k counters = "'k \<rightharpoonup> nat"

definition cnt :: "'k counters \<Rightarrow> 'k \<Rightarrow> nat" where
  "cnt m k = (case m k of None \<Rightarrow> 0 | Some n \<Rightarrow> n)"

text \<open>\<open>m[k]++\<close>.\<close>

definition bump :: "'k counters \<Rightarrow> 'k \<Rightarrow> 'k counters" where
  "bump m k = m(k \<mapsto> Suc (cnt m k))"

lemma cnt_empty [simp]: "cnt Map.empty k = 0"
  by (simp add: cnt_def)

lemma cnt_upd [simp]: "cnt (m(k \<mapsto> n)) j = (if j = k then n else cnt m j)"
  by (simp add: cnt_def)

lemma cnt_bump [simp]: "cnt (bump m k) j = (if j = k then Suc (cnt m j) else cnt m j)"
  by (simp add: bump_def)

lemma dom_bump [simp]: "dom (bump m k) = insert k (dom m)"
  by (simp add: bump_def)

subsection \<open>Lists\<close>

lemma sorted_distinct_unique:
  "mset xs = mset ys \<Longrightarrow> sorted xs \<Longrightarrow> sorted ys \<Longrightarrow> xs = ys" for xs :: "'a::linorder list"
  using properties_for_sort by metis

lemma filter_prefix: "prefix xs ys \<Longrightarrow> prefix (filter P xs) (filter P ys)"
  by (auto simp: prefix_def)

definition has_prefix :: "string \<Rightarrow> string \<Rightarrow> bool" where
  "has_prefix p s \<longleftrightarrow> take (length p) s = p"

end
