(* ===== verification/GoValues.thy ===== *)
theory GoValues
  imports Prelude Complex_Main
begin

text \<open>
  The dynamic values the program moves around (Go's \<open>interface{}\<close>): scalars, the two map
  types, ordered BSON documents, the two array types, and the typed maps and slices that only
  reflection sees. A Go map is the list of its entries in some iteration order with distinct keys;
  the order is not part of the value, which is what \<open>same_value\<close> says.

  \<open>Canonical\<close> (\<open>internal/workloadrec/format.go\<close>) turns every map into a document with
  sorted keys, so an encoding does not depend on the iteration order.
\<close>

datatype gval =
    GNil
  | GBool bool
  | GInt int          \<comment> \<open>Go \<open>int\<close>\<close>
  | GInt32 int
  | GInt64 int
  | GFloat rat        \<comment> \<open>finite \<open>float64\<close> values\<close>
  | GStr string
  | GOid string       \<comment> \<open>\<open>bson.ObjectID\<close>, its 12 bytes\<close>
  | GBytes string     \<comment> \<open>\<open>[]byte\<close> and \<open>bson.Raw\<close>\<close>
  | GScalar string    \<comment> \<open>any other scalar (\<open>bson.DateTime\<close>, \<open>bson.Decimal128\<close>, ...)\<close>
  | GMap "(string \<times> gval) list"    \<comment> \<open>\<open>map[string]interface{}\<close>\<close>
  | GM "(string \<times> gval) list"      \<comment> \<open>\<open>bson.M\<close>\<close>
  | GTMap "(string \<times> gval) list"   \<comment> \<open>another map type with string keys\<close>
  | GDoc "(string \<times> gval) list"    \<comment> \<open>\<open>bson.D\<close>, ordered\<close>
  | GSlice "gval list"             \<comment> \<open>\<open>[]interface{}\<close>\<close>
  | GA "gval list"                 \<comment> \<open>\<open>bson.A\<close>\<close>
  | GTSlice "gval list"            \<comment> \<open>another slice or array type\<close>

lemma gval_entry_size [termination_simp]:
  "(k, v) \<in> set kvs \<Longrightarrow> size v < Suc (size_list (size_prod (\<lambda>_. 0) size) kvs)"
proof (induction kvs)
  case (Cons e kvs)
  then show ?case by (cases e) (auto simp: less_Suc_eq)
qed simp

subsection \<open>Canonical documents\<close>

definition sort_entries :: "(string \<times> 'a) list \<Rightarrow> (string \<times> 'a) list" where
  "sort_entries kvs = sort_key fst kvs"

lemma set_sort_entries [simp]: "set (sort_entries kvs) = set kvs"
  by (simp add: sort_entries_def)

lemma sort_mset_cong: "mset xs = mset ys \<Longrightarrow> sort xs = sort ys"
  by (simp add: properties_for_sort)

lemma keys_sort_entries: "map fst (sort_entries kvs) = sort (map fst kvs)"
proof -
  have "sorted (map fst (sort_entries kvs))"
    by (simp add: sort_entries_def)
  moreover have "mset (map fst (sort_entries kvs)) = mset (map fst kvs)"
    by (simp add: sort_entries_def)
  ultimately show ?thesis
    by (metis mset_sort sorted_distinct_unique sorted_sort)
qed

lemma sort_entries_map:
  fixes f :: "'a \<Rightarrow> 'b" and kvs :: "(string \<times> 'a) list"
  shows "sort_entries (map (\<lambda>(k, v). (k, f v)) kvs)
    = map (\<lambda>(k, v). (k, f v)) (sort_entries kvs)"
proof -
  have ins: "insort_key fst (k, f v) (map (\<lambda>(k, v). (k, f v)) ys)
      = map (\<lambda>(k, v). (k, f v)) (insort_key fst (k, v) ys)" for k v and ys :: "(string \<times> 'a) list"
    by (induction ys) auto
  show ?thesis
    unfolding sort_entries_def by (induction kvs) (auto simp: ins)
qed

lemma sort_entries_idem [simp]: "sort_entries (sort_entries kvs) = sort_entries kvs"
  by (simp add: sort_entries_def sort_key_id_if_sorted)

text \<open>Two orders of the same entries sort to the same list when the keys are distinct.\<close>

lemma sort_entries_unique:
  fixes xs ys :: "(string \<times> 'a) list"
  assumes "mset xs = mset ys" and "distinct (map fst xs)"
  shows "sort_entries xs = sort_entries ys"
proof -
  have inj: "inj_on fst (set (sort_entries xs))"
    using assms(2) by (simp add: distinct_map)
  have "mset (sort_entries xs) = mset (sort_entries ys)"
    using assms(1) by (simp add: sort_entries_def)
  then have sets: "set (sort_entries xs) = set (sort_entries ys)"
    by (rule mset_eq_setD)
  have "mset (map fst xs) = mset (map fst ys)"
    using assms(1) by simp
  then have keys: "map fst (sort_entries xs) = map fst (sort_entries ys)"
    by (simp add: keys_sort_entries sort_mset_cong)
  show ?thesis
    by (rule map_inj_on [OF keys]) (use inj sets in simp)
qed

function (sequential) Canonical :: "gval \<Rightarrow> gval" where
  "Canonical (GMap kvs) = GDoc (map (\<lambda>(k, v). (k, Canonical v)) (sort_entries kvs))"
| "Canonical (GM kvs) = GDoc (map (\<lambda>(k, v). (k, Canonical v)) (sort_entries kvs))"
| "Canonical (GTMap kvs) = GDoc (map (\<lambda>(k, v). (k, Canonical v)) (sort_entries kvs))"
| "Canonical (GDoc kvs) = GDoc (map (\<lambda>(k, v). (k, Canonical v)) kvs)"
| "Canonical (GSlice xs) = GA (map Canonical xs)"
| "Canonical (GA xs) = GA (map Canonical xs)"
| "Canonical (GTSlice xs) = GA (map Canonical xs)"
| "Canonical v = v"
  by pat_completeness auto
termination
  by (relation "measure size") (auto simp: gval_entry_size less_Suc_eq_le intro: size_list_estimation')

text \<open>Sorting before or after canonicalising the members is the same.\<close>

lemma Canonical_map_entries:
  "map (\<lambda>(k, v). (k, Canonical v)) (sort_entries kvs) = sort_entries (map (\<lambda>(k, v). (k, Canonical v)) kvs)"
  by (rule sort_entries_map [symmetric])

text \<open>No Go map is left: everything is a document, an array or a scalar.\<close>

fun map_free :: "gval \<Rightarrow> bool" where
  "map_free (GMap kvs) = False"
| "map_free (GM kvs) = False"
| "map_free (GTMap kvs) = False"
| "map_free (GDoc kvs) = (\<forall>e \<in> set kvs. map_free (snd e))"
| "map_free (GSlice xs) = False"
| "map_free (GA xs) = (\<forall>x \<in> set xs. map_free x)"
| "map_free (GTSlice xs) = False"
| "map_free v = True"

lemma Canonical_map_free: "map_free (Canonical v)"
  by (induction v rule: Canonical.induct) auto

lemma Canonical_id: "map_free v \<Longrightarrow> Canonical v = v"
  by (induction v rule: Canonical.induct) (auto intro!: map_idI)

subsection \<open>Values up to map iteration order\<close>

text \<open>
  Two runs of the program may iterate over the same Go map in two orders. \<open>same_value\<close> relates
  values that differ only in that, at any depth.
\<close>

inductive same_value :: "gval \<Rightarrow> gval \<Rightarrow> bool" where
  same_refl: "same_value v v"
| same_trans: "same_value u v \<Longrightarrow> same_value v w \<Longrightarrow> same_value u w"
| same_perm_Map: "mset kvs = mset kvs' \<Longrightarrow> distinct (map fst kvs) \<Longrightarrow> same_value (GMap kvs) (GMap kvs')"
| same_perm_M: "mset kvs = mset kvs' \<Longrightarrow> distinct (map fst kvs) \<Longrightarrow> same_value (GM kvs) (GM kvs')"
| same_perm_TMap: "mset kvs = mset kvs' \<Longrightarrow> distinct (map fst kvs) \<Longrightarrow> same_value (GTMap kvs) (GTMap kvs')"
| same_in_Map: "same_value v w \<Longrightarrow> same_value (GMap (xs @ (k, v) # ys)) (GMap (xs @ (k, w) # ys))"
| same_in_M: "same_value v w \<Longrightarrow> same_value (GM (xs @ (k, v) # ys)) (GM (xs @ (k, w) # ys))"
| same_in_TMap: "same_value v w \<Longrightarrow> same_value (GTMap (xs @ (k, v) # ys)) (GTMap (xs @ (k, w) # ys))"
| same_in_Doc: "same_value v w \<Longrightarrow> same_value (GDoc (xs @ (k, v) # ys)) (GDoc (xs @ (k, w) # ys))"
| same_in_Slice: "same_value v w \<Longrightarrow> same_value (GSlice (us @ v # vs)) (GSlice (us @ w # vs))"
| same_in_A: "same_value v w \<Longrightarrow> same_value (GA (us @ v # vs)) (GA (us @ w # vs))"
| same_in_TSlice: "same_value v w \<Longrightarrow> same_value (GTSlice (us @ v # vs)) (GTSlice (us @ w # vs))"

lemma Canonical_perm:
  assumes "mset kvs = mset kvs'" and "distinct (map fst kvs)"
  shows "map (\<lambda>(k, v). (k, Canonical v)) (sort_entries kvs) = map (\<lambda>(k, v). (k, Canonical v)) (sort_entries kvs')"
  using sort_entries_unique [OF assms] by simp

lemma Canonical_same_value: "same_value v w \<Longrightarrow> Canonical v = Canonical w"
proof (induction rule: same_value.induct)
  case (same_perm_Map kvs kvs')
  then show ?case by (simp add: Canonical_perm)
next
  case (same_perm_M kvs kvs')
  then show ?case by (simp add: Canonical_perm)
next
  case (same_perm_TMap kvs kvs')
  then show ?case by (simp add: Canonical_perm)
qed (simp_all add: Canonical_map_entries)

text \<open>the canonical form of a value does not depend on the order a Go map was iterated in,
  and canonicalising twice changes nothing: the encoding of a command is deterministic.\<close>

theorem Canonical_deterministic:
  assumes "same_value v w"
  shows "Canonical v = Canonical w \<and> Canonical (Canonical v) = Canonical v"
  using Canonical_same_value [OF assms] Canonical_id [OF Canonical_map_free] by simp

theorem Canonical_deterministic_witness:
  "Canonical (GMap [(''b'', GInt 1), (''a'', GM [(''d'', GNil), (''c'', GBool True)])]) =
     Canonical (GMap [(''a'', GM [(''d'', GNil), (''c'', GBool True)]), (''b'', GInt 1)])"
proof -
  have "same_value (GMap [(''b'', GInt 1), (''a'', GM [(''d'', GNil), (''c'', GBool True)])])
      (GMap [(''a'', GM [(''d'', GNil), (''c'', GBool True)]), (''b'', GInt 1)])"
    by (rule same_perm_Map) (simp_all add: add_mset_commute)
  from Canonical_deterministic [OF this] show ?thesis by blast
qed

lemma size_list_mset: "mset xs = mset ys \<Longrightarrow> size_list f xs = size_list f ys"
proof -
  have "size_list f xs = sum_mset (image_mset (\<lambda>x. Suc (f x)) (mset xs))" for xs
    by (induction xs) simp_all
  then show "mset xs = mset ys \<Longrightarrow> ?thesis" by simp
qed

lemma size_list_sort_entries [simp]: "size_list f (sort_entries kvs) = size_list f kvs"
  by (rule size_list_mset) (simp add: sort_entries_def)

end
