(* ===== verification/WorkloadFormat.thy ===== *)
theory WorkloadFormat
  imports GoValues
begin

text \<open>
  The data of a workload recording (\<open>internal/workloadrec\<close>): the header, operation and trailer
  lines of \<open>format.go\<close>, the outcome of \<open>outcome.go\<close> and the starting-data fingerprint of
  \<open>fingerprint.go\<close> with its comparison. Counters are naturals; the \<open>omitempty\<close> of a JSON member
  makes its zero value and its absence the same, so an optional member that is a pointer is an
  \<open>option\<close> and every other one has its zero value.
\<close>

subsection \<open>Starting-data fingerprint\<close>

record index_fingerprint =
  ix_name :: string
  ix_spec :: string

record collection_fingerprint =
  cf_ns :: string
  cf_count :: int
  cf_indexes :: "index_fingerprint list"
  cf_dbhash :: string
  cf_dbhash_error :: string

record data_fingerprint =
  fp_mode :: string
  fp_collections :: "collection_fingerprint list"

record fingerprint_check =
  fc_mode :: string
  fc_match :: bool
  fc_differences :: "string list"
  fc_notes :: "string list"

definition FingerprintDBHash :: string where "FingerprintDBHash = ''dbhash''"

text \<open>A Go map filled in a loop: the last entry of a key wins.\<close>

definition last_map :: "('k \<times> 'v) list \<Rightarrow> ('k \<rightharpoonup> 'v)" where
  "last_map kvs = map_of (rev kvs)"

definition key_list :: "('k \<times> 'v) list \<Rightarrow> 'k list" where
  "key_list kvs = remdups (map fst kvs)"

lemma set_key_list [simp]: "set (key_list kvs) = dom (last_map kvs)"
  by (auto simp: key_list_def last_map_def dom_map_of_conv_image_fst)

definition index_entries :: "index_fingerprint list \<Rightarrow> (string \<times> string) list" where
  "index_entries is = map (\<lambda>i. (ix_name i, ix_spec i)) is"

definition diff_parts :: "(string \<times> string list) list \<Rightarrow> string list" where
  "diff_parts ps = concat (map (\<lambda>(label, names). if names \<noteq> []
     then [label @ '': '' @ join_with '', '' (sort names)] else []) ps)"

definition indexDifference :: "index_fingerprint list \<Rightarrow> index_fingerprint list \<Rightarrow> string" where
  "indexDifference want got =
     (let w = last_map (index_entries want); g = last_map (index_entries got);
          onlyW = filter (\<lambda>n. g n = None) (key_list (index_entries want));
          changed = filter (\<lambda>n. g n \<noteq> None \<and> g n \<noteq> w n) (key_list (index_entries want));
          onlyG = filter (\<lambda>n. w n = None) (key_list (index_entries got))
      in join_with ''; '' (diff_parts
           [(''missing on this target'', onlyW), (''only on this target'', onlyG),
            (''different keys or options'', changed)]))"

definition compare_collection ::
    "string \<Rightarrow> (string \<rightharpoonup> collection_fingerprint) \<Rightarrow> collection_fingerprint \<Rightarrow> string list \<times> string list" where
  "compare_collection mode gotByNS w =
     (case gotByNS (cf_ns w) of
        None \<Rightarrow> ([cf_ns w @ '': not checked on this target''], [])
      | Some g \<Rightarrow>
         (let counts = (if cf_count w \<noteq> cf_count g
                then [cf_ns w @ '': '' @ itoa (cf_count w) @ '' documents recorded, '' @ itoa (cf_count g) @ '' on this target'']
                else []);
              d = indexDifference (cf_indexes w) (cf_indexes g);
              idx = (if d \<noteq> [] then [cf_ns w @ '': indexes differ ('' @ d @ '')''] else []);
              (hashD, notes) =
                (if mode \<noteq> FingerprintDBHash then ([], [])
                 else if cf_dbhash_error w \<noteq> [] then
                   ([], [cf_ns w @ '': dbHash not compared: it could not run when recording ('' @ cf_dbhash_error w @ '')''])
                 else if cf_dbhash_error g \<noteq> [] then
                   ([], [cf_ns w @ '': dbHash not compared: it could not run on this target ('' @ cf_dbhash_error g @ '')''])
                 else if cf_dbhash w \<noteq> cf_dbhash g then
                   ([cf_ns w @ '': dbHash differs (the stored documents are not byte-identical)''], [])
                 else ([], []))
          in (counts @ idx @ hashD, notes)))"

definition CompareDataFingerprints :: "data_fingerprint \<Rightarrow> data_fingerprint option \<Rightarrow> fingerprint_check" where
  "CompareDataFingerprints want got =
     (let gotByNS = (case got of None \<Rightarrow> Map.empty
            | Some g \<Rightarrow> last_map (map (\<lambda>c. (cf_ns c, c)) (fp_collections g)));
          rs = map (compare_collection (fp_mode want) gotByNS) (fp_collections want);
          ds = concat (map fst rs)
      in \<lparr>fc_mode = fp_mode want, fc_match = (length ds = 0), fc_differences = ds,
          fc_notes = concat (map snd rs)\<rparr>)"

lemma diff_parts_Nil: "diff_parts ps = [] \<longleftrightarrow> (\<forall>p \<in> set ps. snd p = [])"
  by (fastforce simp: diff_parts_def split: if_splits prod.splits)

lemma join_with_Nil: "sep \<noteq> [] \<Longrightarrow> join_with sep xs = [] \<longleftrightarrow> xs = [] \<or> xs = [[]]"
  by (induction sep xs rule: join_with.induct) auto

lemma diff_parts_nonempty: "[] \<notin> set (diff_parts ps)"
  by (auto simp: diff_parts_def split: if_splits)

lemma join_with_Nil_iff: "sep \<noteq> [] \<Longrightarrow> [] \<notin> set xs \<Longrightarrow> join_with sep xs = [] \<longleftrightarrow> xs = []"
  by (auto simp: join_with_Nil)

lemma maps_agree:
  "(\<forall>n \<in> dom w. \<exists>y. g n = Some y) \<and> (\<forall>n \<in> dom g. \<exists>y. w n = Some y) \<and>
   (\<forall>n \<in> dom w. g n = None \<or> g n = w n) \<longleftrightarrow> w = g"
proof
  assume a: "(\<forall>n \<in> dom w. \<exists>y. g n = Some y) \<and> (\<forall>n \<in> dom g. \<exists>y. w n = Some y) \<and>
    (\<forall>n \<in> dom w. g n = None \<or> g n = w n)"
  show "w = g"
  proof
    fix n
    show "w n = g n"
    proof (cases "n \<in> dom w")
      case True
      with a obtain y where "g n = Some y" by blast
      moreover from a True have "g n = None \<or> g n = w n" by blast
      ultimately show ?thesis by simp
    next
      case False
      with a have "n \<notin> dom g" by blast
      with False show ?thesis by (simp add: domIff)
    qed
  qed
qed auto

lemma indexDifference_Nil:
  "indexDifference want got = [] \<longleftrightarrow> last_map (index_entries want) = last_map (index_entries got)"
proof -
  let ?w = "last_map (index_entries want)" and ?g = "last_map (index_entries got)"
  have "indexDifference want got = [] \<longleftrightarrow>
      (\<forall>n \<in> dom ?w. \<exists>y. ?g n = Some y) \<and> (\<forall>n \<in> dom ?g. \<exists>y. ?w n = Some y) \<and>
      (\<forall>n \<in> dom ?w. ?g n = None \<or> ?g n = ?w n)"
    unfolding indexDifference_def Let_def
    by (simp add: join_with_Nil_iff diff_parts_nonempty diff_parts_Nil filter_empty_conv)
  also have "\<dots> \<longleftrightarrow> ?w = ?g"
    by (rule maps_agree)
  finally show ?thesis .
qed

text \<open>What a target must satisfy to match a recorded collection.\<close>

definition collection_matches :: "string \<Rightarrow> collection_fingerprint \<Rightarrow> collection_fingerprint \<Rightarrow> bool" where
  "collection_matches mode w g \<longleftrightarrow> cf_count w = cf_count g \<and>
     last_map (index_entries (cf_indexes w)) = last_map (index_entries (cf_indexes g)) \<and>
     (mode = FingerprintDBHash \<longrightarrow> cf_dbhash_error w \<noteq> [] \<or> cf_dbhash_error g \<noteq> [] \<or> cf_dbhash w = cf_dbhash g)"

lemma compare_collection_Nil:
  "fst (compare_collection mode m w) = [] \<longleftrightarrow>
     (\<exists>g. m (cf_ns w) = Some g \<and> collection_matches mode w g)"
  by (auto simp: compare_collection_def collection_matches_def Let_def indexDifference_Nil
      split: option.splits if_splits)

text \<open>a target matches a recorded fingerprint exactly when every recorded collection was read
  there with the same document count, the same index specifications by name and, in dbHash mode,
  the same hash unless one side could not compute it.\<close>

theorem CompareDataFingerprints_match:
  "fc_match (CompareDataFingerprints want (Some got)) \<longleftrightarrow>
     (\<forall>w \<in> set (fp_collections want). \<exists>g.
        last_map (map (\<lambda>c. (cf_ns c, c)) (fp_collections got)) (cf_ns w) = Some g \<and>
        collection_matches (fp_mode want) w g)"
  by (auto simp: CompareDataFingerprints_def Let_def compare_collection_Nil [symmetric])

definition sample_fingerprint :: "string \<Rightarrow> data_fingerprint" where
  "sample_fingerprint hash = \<lparr>fp_mode = FingerprintDBHash, fp_collections =
     [\<lparr>cf_ns = ''db.c'', cf_count = 5, cf_indexes = [\<lparr>ix_name = ''_id_'', ix_spec = ''k''\<rparr>],
       cf_dbhash = hash, cf_dbhash_error = []\<rparr>]\<rparr>"

theorem CompareDataFingerprints_match_witness:
  "fc_match (CompareDataFingerprints (sample_fingerprint ''h1'') (Some (sample_fingerprint ''h1''))) \<and>
   \<not> fc_match (CompareDataFingerprints (sample_fingerprint ''h1'') (Some (sample_fingerprint ''h2'')))"
  unfolding CompareDataFingerprints_match
  by (simp add: sample_fingerprint_def collection_matches_def last_map_def FingerprintDBHash_def)

subsection \<open>Lines of a recording\<close>

definition FormatVersion :: string where "FormatVersion = ''plgm-workload-record/1''"
definition LineHeader :: string where "LineHeader = ''header''"
definition LineOp :: string where "LineOp = ''op''"
definition LineTrailer :: string where "LineTrailer = ''trailer''"
definition StatusRecording :: string where "StatusRecording = ''recording''"
definition StatusComplete :: string where "StatusComplete = ''complete''"
definition StatusTruncated :: string where "StatusTruncated = ''truncated''"
definition StatusFailed :: string where "StatusFailed = ''failed''"
definition StatusIncomplete :: string where "StatusIncomplete = ''incomplete''"
definition PathFastInsertBatch :: string where "PathFastInsertBatch = ''fast_insert_batch''"
definition PathFastFind :: string where "PathFastFind = ''fast_find''"

lemmas line_types = LineHeader_def LineOp_def LineTrailer_def
lemmas statuses = StatusRecording_def StatusComplete_def StatusTruncated_def StatusFailed_def
  StatusIncomplete_def

definition knownOps :: "string list" where
  "knownOps = [''find'', ''aggregate'', ''updateOne'', ''updateMany'', ''deleteOne'', ''deleteMany'',
     ''insert'', ''insertMany'', ''transaction'']"

record config_summary =
  cs_concurrency :: int
  cs_duration :: string
  cs_documents_count :: int
  cs_operation_mix :: string
  cs_load_profile :: string
  cs_access_pattern :: string
  cs_think_time_ms :: int
  cs_think_jitter_ms :: int
  cs_find_batch_size :: int
  cs_find_limit :: int
  cs_insert_batch_size :: int
  cs_use_transactions :: bool

record import_info =
  im_sources :: "string list"
  im_files :: "string list"
  im_entries :: nat
  im_converted :: nat
  im_skipped :: nat
  im_skipped_by_reason :: "string \<rightharpoonup> nat"
  im_flagged :: "string \<rightharpoonup> nat"
  im_connections :: int
  im_first_timestamp :: string
  im_last_timestamp :: string
  im_note :: string

record header =
  h_type :: string
  h_format :: string
  h_plgm_version :: string
  h_created_at :: string
  h_server_version :: string
  h_topology :: string
  h_random_seed :: int
  h_workers :: int
  h_collections_hash :: string
  h_queries_hash :: string
  h_namespaces :: "string list"
  h_config :: config_summary
  h_failure_policy :: string
  h_max_bytes :: int
  h_backpressure :: string
  h_iterations :: int
  h_interval_delay :: string
  h_outcomes :: bool
  h_result_checksums :: bool
  h_data_fingerprint :: "data_fingerprint option"
  h_import :: "import_info option"

record query_ref =
  q_name :: string
  q_index :: int
  q_label :: string
  q_source :: string
  q_workload :: string
  q_file :: string
  q_id :: string

record shape_ref =
  s_key :: string
  s_summary :: string
  s_fields :: "string list"
  s_query_summary :: string
  s_pipeline_summary :: string

record outcome =
  oc_latencyUS :: int
  oc_ok :: bool
  oc_errorCode :: int
  oc_errorName :: string
  oc_returned :: "int option"
  oc_checksum :: string
  oc_inserted :: "int option"
  oc_matched :: "int option"
  oc_modified :: "int option"
  oc_upserted :: "int option"
  oc_deleted :: "int option"
  oc_transaction :: string

record op_line =
  ol_seq :: nat
  ol_worker :: int
  ol_worker_seq :: nat
  ol_offset_us :: int
  ol_iteration :: int
  ol_ns :: string
  ol_op :: string
  ol_path :: string
  ol_ok :: bool
  ol_existing :: bool
  ol_query :: "query_ref option"
  ol_shape :: "shape_ref option"
  ol_cmd :: string
  ol_outcome :: "outcome option"
  ol_flags :: "string list"

record trailer =
  tr_status :: string
  tr_reason :: string
  tr_ops :: nat
  tr_bytes :: nat
  tr_worker_ops :: "string \<rightharpoonup> nat"
  tr_worker_hashes :: "string \<rightharpoonup> string"
  tr_commands_hash :: string
  tr_iteration_ops :: "string \<rightharpoonup> nat"
  tr_waits :: nat
  tr_wait_total_us :: int
  tr_wait_max_us :: int

text \<open>\<open>OpLine.OpIteration\<close>: the 1-based iteration of an operation.\<close>

definition OpIteration :: "op_line \<Rightarrow> int" where
  "OpIteration op = (if ol_iteration op < 1 then 1 else ol_iteration op)"

lemma OpIteration_pos: "1 \<le> OpIteration op"
  by (simp add: OpIteration_def)

text \<open>\<open>CombineHashes\<close>: the workers' hashes in worker order, hashed by \<open>sha\<close> (SHA-256 with a
  hex digest, a parameter).\<close>

definition hash_lines :: "(int \<times> string) list \<Rightarrow> string" where
  "hash_lines ws = concat (map (\<lambda>(i, h). itoa i @ '':'' @ h @ [CHR 0x0A]) (sort_key fst ws))"

definition CombineHashes :: "(string \<Rightarrow> string) \<Rightarrow> (int \<times> string) list \<Rightarrow> string" where
  "CombineHashes sha ws = sha (hash_lines ws)"

text \<open>\<open>StreamHash\<close>: the bytes hashed so far; \<open>Add\<close> appends a command and a newline.\<close>

definition StreamHash_Add :: "string \<Rightarrow> string \<Rightarrow> string" where
  "StreamHash_Add s cmd = s @ cmd @ [CHR 0x0A]"

definition StreamHash_Sum :: "(string \<Rightarrow> string) \<Rightarrow> string \<Rightarrow> string" where
  "StreamHash_Sum sha s = sha s"

lemma StreamHash_fold: "fold (\<lambda>c s. StreamHash_Add s c) cmds s = s @ concat (map (\<lambda>c. c @ [CHR 0x0A]) cmds)"
  by (induction cmds arbitrary: s) (auto simp: StreamHash_Add_def)

end
