(* ===== verification/Reader.thy ===== *)
theory Reader
  imports WorkloadFormat
begin

text \<open>
  Reading a recording (\<open>internal/workloadrec/reader.go\<close>): the line reader, the line types, the
  header, one operation line, the full validating scan and the operation stream.

  A file is what its bytes decode to. A physical line is a record that holds, besides its length
  and whether it ends in a newline, what each decoder of the code finds in it: the literal prefix
  it starts with, whether it is valid JSON, its \<open>type\<close> member, and the result of
  \<open>json.Unmarshal\<close> into each line structure. Decompression and the buffer size of
  \<open>bufio.Reader\<close> do not show in it. A read error other than the end of the file is the file's
  \<open>f_end\<close>. The context of \<open>Stream\<close> is never done here.
\<close>

subsection \<open>Files as lines\<close>

datatype line_prefix = PrefixOp | PrefixHeader | PrefixTrailer
  | PrefixOutcomeHeader | PrefixOutcome | PrefixOutcomeTrailer | PrefixOther

record outcome_header =
  oh_format :: string
  oh_source :: string
  oh_plgm_version :: string
  oh_created_at :: string
  oh_server_version :: string
  oh_topology :: string
  oh_workers :: int
  oh_result_checksums :: bool
  oh_recording_file :: string
  oh_recording_header_hash :: string
  oh_collections_hash :: string
  oh_queries_hash :: string
  oh_random_seed :: int
  oh_operations_per_worker :: int
  oh_ops_filter :: string
  oh_target :: string

record outcome_line =
  ul_seq :: nat
  ul_worker :: int
  ul_worker_seq :: nat
  ul_iteration :: int
  ul_ns :: string
  ul_op :: string
  ul_shape :: string
  ul_outcome :: outcome

record outcome_trailer =
  ut_status :: string
  ut_reason :: string
  ut_ops :: nat
  ut_commands_hash :: string
  ut_traffic_fingerprint :: string
  ut_traffic_status :: string
  ut_waits :: nat
  ut_wait_total_us :: int
  ut_wait_max_us :: int

record raw_line =
  rl_prefix :: line_prefix
  rl_len :: nat          \<comment> \<open>bytes, the newline included\<close>
  rl_eol :: bool         \<comment> \<open>ends in a newline\<close>
  rl_valid :: bool       \<comment> \<open>\<open>json.Valid\<close>\<close>
  rl_blank :: bool
  rl_type :: "string res"
  rl_header :: "header res"
  rl_op :: "op_line res"
  rl_trailer :: "trailer res"
  rl_outcome_header :: "outcome_header res"
  rl_outcome :: "outcome_line res"
  rl_outcome_trailer :: "outcome_trailer res"
  rl_hash :: string      \<comment> \<open>\<open>HashBytes\<close> of the line\<close>

record rec_file =
  f_path :: string
  f_compression :: string
  f_lines :: "raw_line list"
  f_end :: "string option"

definition MaxLineBytes :: nat where "MaxLineBytes = 64 * 2 ^ 20"

definition go_quote :: "string \<Rightarrow> string" where
  "go_quote s = [CHR 0x22] @ s @ [CHR 0x22]"

definition at_line :: "nat \<Rightarrow> string \<Rightarrow> string" where
  "at_line n msg = ''line '' @ itoa (int n) @ '': '' @ msg"

text \<open>The lines \<open>json.Encoder\<close> writes: the encoding of a structure starts with its type member
  and decodes to the structure again.\<close>

definition plain_line :: "nat \<Rightarrow> string \<Rightarrow> raw_line" where
  "plain_line len hash = \<lparr>rl_prefix = PrefixOther, rl_len = len, rl_eol = True, rl_valid = True, rl_blank = False,
     rl_type = Ok [], rl_header = Err ''no header'', rl_op = Err ''no operation'', rl_trailer = Err ''no trailer'',
     rl_outcome_header = Err ''no outcome header'', rl_outcome = Err ''no outcome'',
     rl_outcome_trailer = Err ''no outcome trailer'', rl_hash = hash\<rparr>"

definition header_raw :: "nat \<Rightarrow> string \<Rightarrow> header \<Rightarrow> raw_line" where
  "header_raw len hash h = (plain_line len hash)\<lparr>rl_prefix := PrefixHeader, rl_type := Ok LineHeader, rl_header := Ok h\<rparr>"

definition op_raw :: "nat \<Rightarrow> string \<Rightarrow> op_line \<Rightarrow> raw_line" where
  "op_raw len hash op = (plain_line len hash)\<lparr>rl_prefix := PrefixOp, rl_type := Ok LineOp, rl_op := Ok op\<rparr>"

definition trailer_raw :: "nat \<Rightarrow> string \<Rightarrow> trailer \<Rightarrow> raw_line" where
  "trailer_raw len hash t = (plain_line len hash)\<lparr>rl_prefix := PrefixTrailer, rl_type := Ok LineTrailer, rl_trailer := Ok t\<rparr>"

lemmas raw_defs = plain_line_def header_raw_def op_raw_def trailer_raw_def

subsection \<open>The line reader\<close>

datatype next_result = NextEof | NextErr string | NextLine raw_line

text \<open>\<open>lineReader.next\<close>: the next line that is not blank, the line number after it and the rest.
  A last line without a newline that is not valid JSON was cut off: it reads as the end.\<close>

fun next_line :: "string option \<Rightarrow> nat \<Rightarrow> raw_line list \<Rightarrow> next_result \<times> nat \<times> raw_line list" where
  "next_line e n [] = (case e of None \<Rightarrow> (NextEof, n, []) | Some m \<Rightarrow> (NextErr m, n, []))"
| "next_line e n (l # ls) =
     (if MaxLineBytes < rl_len l then
        (NextErr (''line '' @ itoa (int (Suc n)) @ '' is longer than '' @ itoa (int MaxLineBytes) @ '' bytes''), n, ls)
      else if \<not> rl_eol l \<and> \<not> rl_valid l then (NextEof, n, [])
      else if rl_blank l then next_line e (Suc n) ls
      else (NextLine l, Suc n, ls))"

lemma next_line_shorter: "next_line e n ls = (NextLine l, n', ls') \<Longrightarrow> length ls' < length ls"
  by (induction e n ls rule: next_line.induct) (auto split: if_splits option.splits)

definition lineType :: "raw_line \<Rightarrow> string res" where
  "lineType l = (case rl_prefix l of
       PrefixOp \<Rightarrow> Ok LineOp
     | PrefixHeader \<Rightarrow> Ok LineHeader
     | PrefixTrailer \<Rightarrow> Ok LineTrailer
     | _ \<Rightarrow> rl_type l)"

definition readHeader :: "string option \<Rightarrow> raw_line list \<Rightarrow> (header \<times> string \<times> nat \<times> raw_line list) res" where
  "readHeader e ls =
     (case next_line e 0 ls of
        (NextEof, _, _) \<Rightarrow> Err ''workload recording is empty''
      | (NextErr m, _, _) \<Rightarrow> Err m
      | (NextLine l, n, rest) \<Rightarrow>
         (if lineType l \<noteq> Ok LineHeader then Err ''workload recording does not start with a header line''
          else (case rl_header l of
             Inl m \<Rightarrow> Err (''workload recording header: '' @ m)
           | Inr h \<Rightarrow>
              (if h_format h \<noteq> FormatVersion then
                 Err (''unsupported workload recording format '' @ go_quote (h_format h) @
                      '' (expected '' @ go_quote FormatVersion @ '')'')
               else Ok (h, rl_hash l, n, rest)))))"

definition parseOp :: "raw_line \<Rightarrow> nat \<Rightarrow> op_line res" where
  "parseOp l n =
     (case rl_op l of
        Inl m \<Rightarrow> Err (at_line n m)
      | Inr op \<Rightarrow>
         (if ol_worker op < 1 then Err (at_line n ''worker must be at least 1'')
          else if ol_op op \<notin> set knownOps then Err (at_line n (''unknown operation '' @ go_quote (ol_op op)))
          else if ol_ns op = [] then Err (at_line n ''namespace is missing'')
          else if ol_cmd op = [] \<or> hd (ol_cmd op) \<noteq> CHR 0x7B then Err (at_line n ''command is missing'')
          else if ol_path op \<noteq> [] \<and> ol_path op \<noteq> PathFastInsertBatch \<and> ol_path op \<noteq> PathFastFind
            then Err (at_line n (''unknown path '' @ go_quote (ol_path op)))
          else Ok op))"

definition DetectKind :: "rec_file \<Rightarrow> string res" where
  "DetectKind f =
     (case next_line (f_end f) 0 (f_lines f) of
        (NextEof, _, _) \<Rightarrow> Err ''the file is empty''
      | (NextErr m, _, _) \<Rightarrow> Err m
      | (NextLine l, _, _) \<Rightarrow>
         (if rl_prefix l = PrefixHeader then Ok ''recording''
          else if rl_prefix l = PrefixOutcomeHeader then Ok ''outcomes''
          else Err ''not a workload recording or outcome file (the first line is not a header)''))"

text \<open>What \<open>parseOp\<close> accepts.\<close>

definition op_wf :: "op_line \<Rightarrow> bool" where
  "op_wf op \<longleftrightarrow> 1 \<le> ol_worker op \<and> ol_op op \<in> set knownOps \<and> ol_ns op \<noteq> [] \<and>
     ol_cmd op \<noteq> [] \<and> hd (ol_cmd op) = CHR 0x7B \<and>
     (ol_path op = [] \<or> ol_path op = PathFastInsertBatch \<or> ol_path op = PathFastFind)"

lemma parseOp_Ok: "parseOp l n = Ok op \<longleftrightarrow> rl_op l = Ok op \<and> op_wf op"
  by (auto simp: parseOp_def op_wf_def split: sum.splits if_splits)

subsection \<open>The validating scan\<close>

record file_info =
  fi_path :: string
  fi_header :: header
  fi_header_hash :: string
  fi_trailer :: "trailer option"
  fi_status :: string
  fi_ops :: nat
  fi_worker_ops :: "int \<rightharpoonup> nat"
  fi_workers :: int
  fi_compression :: string
  fi_iterations :: int
  fi_iteration_ops :: "int \<rightharpoonup> nat"

definition scan_op :: "header \<Rightarrow> file_info \<Rightarrow> nat \<Rightarrow> op_line \<Rightarrow> file_info res" where
  "scan_op h info n op =
     (let want = cnt (fi_worker_ops info) (ol_worker op) + 1; it = OpIteration op in
      if ol_worker_seq op \<noteq> want then
        Err (at_line n (''worker '' @ itoa (ol_worker op) @ '' sequence '' @ itoa (int (ol_worker_seq op)) @
             '' out of order (expected '' @ itoa (int want) @ '')''))
      else if it < fi_iterations info then
        Err (at_line n (''iteration '' @ itoa it @ '' after iteration '' @ itoa (fi_iterations info)))
      else if h_iterations h > 0 \<and> it > h_iterations h then
        Err (at_line n (''iteration '' @ itoa it @ '' exceeds the recorded '' @ itoa (h_iterations h) @ '' iterations''))
      else Ok (info\<lparr>fi_iterations := it,
                 fi_iteration_ops := bump (fi_iteration_ops info) it,
                 fi_worker_ops := (fi_worker_ops info)(ol_worker op \<mapsto> ol_worker_seq op),
                 fi_ops := fi_ops info + 1,
                 fi_workers := max (fi_workers info) (ol_worker op)\<rparr>))"

definition scan_line :: "header \<Rightarrow> file_info \<Rightarrow> nat \<Rightarrow> raw_line \<Rightarrow> file_info res" where
  "scan_line h info n l =
     (if fi_trailer info \<noteq> None then Err (at_line n ''data after the trailer'')
      else (case lineType l of
        Inl m \<Rightarrow> Err (at_line n m)
      | Inr t \<Rightarrow>
         (if t = LineOp then res_bind (parseOp l n) (scan_op h info n)
          else if t = LineTrailer then
            (case rl_trailer l of
               Inl m \<Rightarrow> Err (at_line n (''trailer: '' @ m))
             | Inr tr \<Rightarrow> Ok (info\<lparr>fi_trailer := Some tr\<rparr>))
          else Err (at_line n (''unexpected '' @ go_quote t @ '' line'')))))"

function (sequential) scan_loop ::
    "header \<Rightarrow> string option \<Rightarrow> file_info \<Rightarrow> nat \<Rightarrow> raw_line list \<Rightarrow> file_info res" where
  "scan_loop h e info n ls =
     (case next_line e n ls of
        (NextEof, _, _) \<Rightarrow> Ok info
      | (NextErr m, _, _) \<Rightarrow> Err m
      | (NextLine l, n', ls') \<Rightarrow>
         (case scan_line h info n' l of
            Inl m \<Rightarrow> Err m
          | Inr info' \<Rightarrow> scan_loop h e info' n' ls'))"
  by pat_completeness auto
termination
  by (relation "measure (\<lambda>(h, e, info, n, ls). length ls)") (auto dest: next_line_shorter [OF sym])

declare scan_loop.simps [simp del]

definition scan_finish :: "file_info \<Rightarrow> file_info res" where
  "scan_finish info =
     (case fi_trailer info of
        None \<Rightarrow> Ok (info\<lparr>fi_status := StatusIncomplete\<rparr>)
      | Some tr \<Rightarrow>
         (if tr_ops tr \<noteq> fi_ops info then
            Err (''trailer counts '' @ itoa (int (tr_ops tr)) @ '' operations but the file has '' @ itoa (int (fi_ops info)))
          else Ok (info\<lparr>fi_status := tr_status tr\<rparr>)))"

definition scan_init :: "rec_file \<Rightarrow> header \<Rightarrow> string \<Rightarrow> file_info" where
  "scan_init f h hh = \<lparr>fi_path = f_path f, fi_header = h, fi_header_hash = hh, fi_trailer = None,
     fi_status = '''', fi_ops = 0, fi_worker_ops = Map.empty, fi_workers = h_workers h,
     fi_compression = f_compression f, fi_iterations = 0, fi_iteration_ops = Map.empty\<rparr>"

definition Scan :: "rec_file \<Rightarrow> file_info res" where
  "Scan f = res_bind (readHeader (f_end f) (f_lines f)) (\<lambda>(h, hh, n, ls).
     res_bind (scan_loop h (f_end f) (scan_init f h hh) n ls) scan_finish)"

subsection \<open>The operation stream\<close>

function (sequential) stream_loop ::
    "string option \<Rightarrow> ('s \<Rightarrow> op_line \<Rightarrow> 's res) \<Rightarrow> 's \<Rightarrow> nat \<Rightarrow> raw_line list \<Rightarrow> 's res" where
  "stream_loop e fn s n ls =
     (case next_line e n ls of
        (NextEof, _, _) \<Rightarrow> Ok s
      | (NextErr m, _, _) \<Rightarrow> Err m
      | (NextLine l, n', ls') \<Rightarrow>
         (case lineType l of
            Inl m \<Rightarrow> Err (at_line n' m)
          | Inr t \<Rightarrow>
             (if t \<noteq> LineOp then stream_loop e fn s n' ls'
              else (case parseOp l n' of
                 Inl m \<Rightarrow> Err m
               | Inr op \<Rightarrow> (case fn s op of Inl m \<Rightarrow> Err m | Inr s' \<Rightarrow> stream_loop e fn s' n' ls')))))"
  by pat_completeness auto
termination
  by (relation "measure (\<lambda>(e, fn, s, n, ls). length ls)") (auto dest: next_line_shorter [OF sym])

declare stream_loop.simps [simp del]

definition Stream :: "rec_file \<Rightarrow> ('s \<Rightarrow> op_line \<Rightarrow> 's res) \<Rightarrow> 's \<Rightarrow> 's res" where
  "Stream f fn s = res_bind (readHeader (f_end f) (f_lines f))
     (\<lambda>(h, hh, n, ls). stream_loop (f_end f) fn s n ls)"

text \<open>The operations of a file: what \<open>Stream\<close> hands to a callback that keeps them all.\<close>

definition stream_ops :: "rec_file \<Rightarrow> op_line list res" where
  "stream_ops f = Stream f (\<lambda>acc op. Ok (acc @ [op])) []"

subsection \<open>Streams as folds\<close>

text \<open>What a reader of a file promises to a caller whose callback cannot fail: it folds the callback
  over the items of the file, whatever the callback is, and returns the same result otherwise.\<close>

locale op_stream =
  fixes stream :: "'f \<Rightarrow> ('s \<Rightarrow> 'i \<Rightarrow> 's res) \<Rightarrow> 's \<Rightarrow> ('r \<times> 's) res"
    and items :: "'f \<Rightarrow> ('r \<times> 'i list) res"
  assumes stream_pure: "stream f (\<lambda>s i. Ok (g s i)) s = res_map (\<lambda>(r, xs). (r, foldl g s xs)) (items f)"
begin

lemma stream_pure_Ok:
  "stream f (\<lambda>s i. Ok (g s i)) s = Ok (r, s') \<longleftrightarrow> (\<exists>xs. items f = Ok (r, xs) \<and> s' = foldl g s xs)"
  by (cases "items f") (auto simp: stream_pure)

lemma stream_pure_Err: "stream f (\<lambda>s i. Ok (g s i)) s = Err m \<longleftrightarrow> items f = Err m"
  by (cases "items f") (auto simp: stream_pure)

lemma stream_pure_map:
  "stream f (\<lambda>s i. Ok (g s (h i))) s = res_map (\<lambda>(r, xs). (r, foldl g s (map h xs))) (items f)"
  using stream_pure [of f "\<lambda>s i. g s (h i)" s] by (simp add: foldl_map)

end

lemma stream_loop_pure:
  "stream_loop e (\<lambda>s i. Ok (g s i)) (foldl g s acc) n ls =
     res_map (foldl g s) (stream_loop e (\<lambda>acc op. Ok (acc @ [op])) acc n ls)"
proof (induction ls arbitrary: acc n rule: length_induct)
  case (1 ls)
  obtain r n' ls' where nx: "next_line e n ls = (r, n', ls')"
    by (cases "next_line e n ls")
  show ?case
  proof (cases r)
    case (NextLine l)
    with nx have "length ls' < length ls" by (auto dest: next_line_shorter)
    with 1 have IH: "stream_loop e (\<lambda>s i. Ok (g s i)) (foldl g s acc') n' ls' =
        res_map (foldl g s) (stream_loop e (\<lambda>acc op. Ok (acc @ [op])) acc' n' ls')" for acc'
      by blast
    show ?thesis
      using IH [of acc] IH [of "acc @ [_]"] nx NextLine
      by (simp add: stream_loop.simps [of e _ _ n ls] split: sum.splits)
  qed (simp_all add: stream_loop.simps [of e _ _ n ls] nx)
qed

interpretation rec_stream: op_stream "\<lambda>f fn s. res_map (Pair ()) (Stream f fn s)" "\<lambda>f. res_map (Pair ()) (stream_ops f)"
proof
  fix f and g :: "'b \<Rightarrow> op_line \<Rightarrow> 'b" and s
  show "res_map (Pair ()) (Stream f (\<lambda>s i. Ok (g s i)) s) =
      res_map (\<lambda>(r, xs). (r, foldl g s xs)) (res_map (Pair ()) (stream_ops f))"
  proof (cases "readHeader (f_end f) (f_lines f)")
    case (Inr x)
    then obtain h hh n ls where "readHeader (f_end f) (f_lines f) = Ok (h, hh, n, ls)" by (cases x) auto
    with stream_loop_pure [of "f_end f" g s "[]" n ls] show ?thesis
      by (cases "stream_loop (f_end f) (\<lambda>acc op. Ok (acc @ [op])) [] n ls") (simp_all add: Stream_def stream_ops_def)
  qed (simp add: Stream_def stream_ops_def)
qed

subsection \<open>What the scan guarantees\<close>

text \<open>The operations a scan has accepted so far agree with its counters.\<close>

definition worker_ops :: "int \<Rightarrow> op_line list \<Rightarrow> op_line list" where
  "worker_ops w ops = filter (\<lambda>op. ol_worker op = w) ops"

definition scanned :: "header \<Rightarrow> file_info \<Rightarrow> op_line list \<Rightarrow> bool" where
  "scanned h info ops \<longleftrightarrow>
     fi_ops info = length ops \<and>
     (\<forall>op \<in> set ops. op_wf op \<and> ol_worker op \<le> fi_workers info \<and> OpIteration op \<le> fi_iterations info \<and>
        (h_iterations h > 0 \<longrightarrow> OpIteration op \<le> h_iterations h)) \<and>
     sorted (map OpIteration ops) \<and>
     (\<forall>w. map ol_worker_seq (worker_ops w ops) = [1..<Suc (cnt (fi_worker_ops info) w)]) \<and>
     (\<forall>it. cnt (fi_iteration_ops info) it = length (filter (\<lambda>op. OpIteration op = it) ops))"

lemma scanned_init: "scanned h (scan_init f h hh) []"
  by (simp add: scanned_def scan_init_def worker_ops_def)

lemma scan_op_scanned:
  assumes "scan_op h info n op = Ok info'" and "op_wf op" and "scanned h info ops"
  shows "scanned h info' (ops @ [op])"
proof -
  from assms(1) have seq: "ol_worker_seq op = Suc (cnt (fi_worker_ops info) (ol_worker op))"
    and it: "fi_iterations info \<le> OpIteration op"
    and lim: "h_iterations h > 0 \<longrightarrow> OpIteration op \<le> h_iterations h"
    and info': "info' = info\<lparr>fi_iterations := OpIteration op,
      fi_iteration_ops := bump (fi_iteration_ops info) (OpIteration op),
      fi_worker_ops := (fi_worker_ops info)(ol_worker op \<mapsto> ol_worker_seq op),
      fi_ops := fi_ops info + 1, fi_workers := max (fi_workers info) (ol_worker op)\<rparr>"
    by (auto simp: scan_op_def Let_def split: if_splits)
  have "map ol_worker_seq (worker_ops w (ops @ [op])) = [1..<Suc (cnt (fi_worker_ops info') w)]" for w
    using assms(3) seq by (auto simp: scanned_def worker_ops_def info')
  then show ?thesis
    using assms(2,3) it lim
    by (auto simp: scanned_def info' sorted_append intro: order_trans max.coboundedI1)
qed

lemma scan_line_cases:
  assumes "scan_line h info n l = Ok info'"
  obtains (op) op where "lineType l = Ok LineOp" "parseOp l n = Ok op" "scan_op h info n op = Ok info'"
      "fi_trailer info = None"
    | (trailer) tr where "lineType l = Ok LineTrailer" "rl_trailer l = Ok tr"
      "info' = info\<lparr>fi_trailer := Some tr\<rparr>" "fi_trailer info = None"
  using assms
  by (auto simp: scan_line_def res_bind_Ok split: if_splits sum.splits)

lemma scan_op_trailer: "scan_op h info n op = Ok info' \<Longrightarrow> fi_trailer info' = fi_trailer info"
  by (auto simp: scan_op_def Let_def split: if_splits)

lemma LineTrailer_neq_LineOp [simp]: "LineTrailer \<noteq> LineOp" "LineHeader \<noteq> LineOp"
  by (simp_all add: line_types)

lemma scan_loop_stream:
  "scan_loop h e info n ls = Ok info' \<Longrightarrow> scanned h info ops \<Longrightarrow>
     \<exists>ops'. stream_loop e (\<lambda>acc op. Ok (acc @ [op])) ops n ls = Ok ops' \<and> scanned h info' ops'"
proof (induction h e info n ls arbitrary: ops rule: scan_loop.induct)
  case (1 h e info n ls)
  obtain r n' ls' where nx: "next_line e n ls = (r, n', ls')"
    by (cases "next_line e n ls")
  show ?case
  proof (cases r)
    case NextEof
    with "1.prems" nx show ?thesis
      by (simp add: scan_loop.simps [of h e info n ls] stream_loop.simps [of e _ ops n ls])
  next
    case (NextErr m)
    with "1.prems" nx show ?thesis
      by (simp add: scan_loop.simps [of h e info n ls])
  next
    case (NextLine l)
    with "1.prems" nx obtain mid where mid: "scan_line h info n' l = Ok mid"
        "scan_loop h e mid n' ls' = Ok info'"
      by (auto simp: scan_loop.simps [of h e info n ls] split: sum.splits)
    note IH = "1.IH" [OF nx [symmetric] NextLine refl mid(1) mid(2)]
    from mid(1) show ?thesis
    proof (cases rule: scan_line_cases)
      case (op op)
      then have "op_wf op" by (simp add: parseOp_Ok)
      from scan_op_scanned [OF op(3) this "1.prems"(2)]
      show ?thesis
        using IH op nx NextLine by (simp add: stream_loop.simps [of e _ ops n ls])
    next
      case (trailer tr)
      have "scanned h mid ops"
        using "1.prems"(2) by (simp add: trailer(3) scanned_def)
      then show ?thesis
        using IH trailer nx NextLine by (simp add: stream_loop.simps [of e _ ops n ls])
    qed
  qed
qed

text \<open>a file the scan accepts streams exactly the operations the scan counted: every one well
  formed, each worker's sequence numbers 1, 2, 3, ... without a gap, iterations in order, and the
  totals of the trailer right.\<close>

theorem Scan_stream:
  assumes "Scan f = Ok info"
  shows "\<exists>ops. stream_ops f = Ok ops \<and> length ops = fi_ops info \<and> (\<forall>op \<in> set ops. op_wf op) \<and>
     (\<forall>w. map ol_worker_seq (worker_ops w ops) = [1..<Suc (cnt (fi_worker_ops info) w)]) \<and>
     sorted (map OpIteration ops) \<and>
     (case fi_trailer info of None \<Rightarrow> fi_status info = StatusIncomplete
      | Some tr \<Rightarrow> tr_ops tr = length ops \<and> fi_status info = tr_status tr)"
proof -
  from assms obtain h hh n ls mid where rd: "readHeader (f_end f) (f_lines f) = Ok (h, hh, n, ls)"
    and loop: "scan_loop h (f_end f) (scan_init f h hh) n ls = Ok mid"
    and fin: "scan_finish mid = Ok info"
    by (auto simp: Scan_def res_bind_Ok)
  from scan_loop_stream [OF loop scanned_init] obtain ops
    where "stream_loop (f_end f) (\<lambda>acc op. Ok (acc @ [op])) [] n ls = Ok ops" and "scanned h mid ops"
    by blast
  moreover from fin have "fi_ops info = fi_ops mid" "fi_worker_ops info = fi_worker_ops mid"
    "case fi_trailer info of None \<Rightarrow> fi_status info = StatusIncomplete
      | Some tr \<Rightarrow> tr_ops tr = fi_ops mid \<and> fi_status info = tr_status tr"
    by (auto simp: scan_finish_def split: option.splits if_splits)
  ultimately show ?thesis
    by (auto simp: stream_ops_def Stream_def rd scanned_def split: option.splits)
qed

subsection \<open>A sample recording\<close>

definition sample_config :: config_summary where
  "sample_config = \<lparr>cs_concurrency = 1, cs_duration = [], cs_documents_count = 0, cs_operation_mix = [],
     cs_load_profile = [], cs_access_pattern = [], cs_think_time_ms = 0, cs_think_jitter_ms = 0,
     cs_find_batch_size = 0, cs_find_limit = 0, cs_insert_batch_size = 0, cs_use_transactions = False\<rparr>"

definition sample_header :: header where
  "sample_header = \<lparr>h_type = LineHeader, h_format = FormatVersion, h_plgm_version = [], h_created_at = ''now'',
     h_server_version = [], h_topology = [], h_random_seed = 0, h_workers = 1, h_collections_hash = [],
     h_queries_hash = [], h_namespaces = [], h_config = sample_config, h_failure_policy = [], h_max_bytes = 0,
     h_backpressure = [], h_iterations = 0, h_interval_delay = [], h_outcomes = False,
     h_result_checksums = False, h_data_fingerprint = None, h_import = None\<rparr>"

definition sample_op :: "int \<Rightarrow> nat \<Rightarrow> nat \<Rightarrow> op_line" where
  "sample_op w seq wseq = \<lparr>ol_seq = seq, ol_worker = w, ol_worker_seq = wseq, ol_offset_us = 0, ol_iteration = 0,
     ol_ns = ''db.c'', ol_op = ''find'', ol_path = [], ol_ok = True, ol_existing = False, ol_query = None,
     ol_shape = None, ol_cmd = [CHR 0x7B, CHR 0x7D], ol_outcome = None, ol_flags = []\<rparr>"

definition sample_trailer :: "nat \<Rightarrow> trailer" where
  "sample_trailer n = \<lparr>tr_status = StatusComplete, tr_reason = [], tr_ops = n, tr_bytes = 0,
     tr_worker_ops = Map.empty, tr_worker_hashes = Map.empty, tr_commands_hash = [],
     tr_iteration_ops = Map.empty, tr_waits = 0, tr_wait_total_us = 0, tr_wait_max_us = 0\<rparr>"

definition sample_file :: rec_file where
  "sample_file = \<lparr>f_path = ''r.ndjson'', f_compression = ''none'',
     f_lines = [header_raw 9 ''hh'' sample_header, op_raw 9 [] (sample_op 1 1 1), op_raw 9 [] (sample_op 2 2 1),
       op_raw 9 [] (sample_op 1 3 2), trailer_raw 9 [] (sample_trailer 3)], f_end = None\<rparr>"

lemmas sample_defs = sample_config_def sample_header_def sample_op_def sample_trailer_def sample_file_def

lemma Scan_sample: "\<exists>info. Scan sample_file = Ok info \<and> fi_ops info = 3"
  by (simp add: Scan_def readHeader_def scan_loop.simps scan_line_def scan_op_def scan_finish_def
      scan_init_def parseOp_def lineType_def sample_defs raw_defs MaxLineBytes_def line_types
      knownOps_def OpIteration_def)

theorem Scan_stream_witness: "\<exists>ops. stream_ops sample_file = Ok ops \<and> length ops = 3"
proof -
  from Scan_sample obtain info where "Scan sample_file = Ok info" "fi_ops info = 3" by blast
  with Scan_stream [of sample_file info] show ?thesis by auto
qed

end
