(* ===== verification/Recorder.thy ===== *)
theory Recorder
  imports Reader
begin

text \<open>
  Writing a recording (\<open>internal/workloadrec/writer.go\<close>): \<open>NewRecorder\<close>, \<open>Record\<close>, the writer
  goroutine (\<open>run\<close>, \<open>write\<close>), \<open>stop\<close>, \<open>SetIteration\<close>, \<open>Snapshot\<close> and \<open>Close\<close>.

  The workers and the writer goroutine interleave. Each atomic action of the code is a function on
  the recorder's state, and \<open>rec_step\<close> is the relation of all their interleavings: a worker enters
  \<open>Record\<close> (the state is loaded and the command encoded), its entry is sent or refused by the
  bounded queue, the writer takes an entry (and discards it once the recording has stopped) and
  writes it.

  Parameters: \<open>codec\<close> holds the extended-JSON encoder of the MongoDB driver, the JSON length of a
  line (or the error of its encoder), the hash of the header line, and the hex SHA-256.
\<close>

subsection \<open>State\<close>

definition DefaultQueueSize :: nat where "DefaultQueueSize = 2 ^ 16"

datatype rec_state = StateRecording | StateTruncated | StateFailed

definition reasonQueueFull :: string where
  "reasonQueueFull = ''writer_queue_full: the writer could not keep up with the workload''"
definition reasonMaxBytes :: string where
  "reasonMaxBytes = ''max_bytes_reached: the file reached workload_record_max_bytes''"

record codec =
  co_extjson :: "gval \<Rightarrow> string res"
  co_op :: "op_line \<Rightarrow> nat res"
  co_header :: "header \<Rightarrow> nat res"
  co_header_hash :: "header \<Rightarrow> string"
  co_trailer :: "trailer \<Rightarrow> nat res"
  co_sha :: "string \<Rightarrow> string"

record entry =
  en_worker :: int
  en_offset :: int        \<comment> \<open>nanoseconds\<close>
  en_ns :: string
  en_op :: string
  en_path :: string
  en_ok :: bool
  en_existing :: bool
  en_query :: "query_ref option"
  en_shape :: "shape_ref option"
  en_command :: gval
  en_outcome :: "outcome option"
  en_flags :: "string list"
  en_cmd :: string
  en_iteration :: int

record rec_options =
  op_max_bytes :: int
  op_queue_size :: int
  op_backpressure :: string
  op_compression :: string

record rec_config =
  rc_path :: string
  rc_max_bytes :: int
  rc_reserve :: int
  rc_block :: bool
  rc_multi :: bool
  rc_compression :: string
  rc_outcomes :: bool
  rc_checksums :: bool
  rc_queue_size :: nat

record recorder =
  r_state :: rec_state
  r_reason :: string
  r_queue :: "entry list"
  r_ops :: nat
  r_bytes :: nat
  r_iteration :: int
  r_waits :: nat
  r_wait_total :: int
  r_wait_max :: int
  r_last_iter_seen :: int
  r_seq :: nat
  r_worker_seq :: "int \<rightharpoonup> nat"
  r_hashes :: "(int \<times> string) list"
  r_iter_ops :: "int \<rightharpoonup> nat"
  r_lines :: "raw_line list"
  r_broken :: "string option"   \<comment> \<open>the sticky error of \<open>bufio.Writer\<close>\<close>

record rec_result =
  rr_path :: string
  rr_status :: string
  rr_reason :: string
  rr_ops :: nat
  rr_bytes :: nat
  rr_commands_hash :: string
  rr_compression :: string
  rr_backpressure :: string
  rr_iterations :: int
  rr_waits :: nat
  rr_wait_total :: int
  rr_wait_max :: int
  rr_outcomes :: bool
  rr_result_checksums :: bool

subsection \<open>Opening\<close>

text \<open>What is at the path before the recording starts.\<close>

datatype existing =
    Absent
  | LstatError string
  | NotRegular
  | Regular nat "string option" "line_prefix option"
      \<comment> \<open>size, error of \<open>os.Open\<close>, the prefix its decompressed content starts with\<close>

definition checkOverwriteOf :: "existing \<Rightarrow> string \<Rightarrow> line_prefix \<Rightarrow> string \<Rightarrow> unit res" where
  "checkOverwriteOf ex path p what =
     (case ex of
        Absent \<Rightarrow> Ok ()
      | LstatError m \<Rightarrow> Err (''open '' @ what @ '': '' @ m)
      | NotRegular \<Rightarrow> Err (what @ '' path '' @ path @ '' is not a regular file'')
      | Regular sz oerr q \<Rightarrow>
         (if sz = 0 then Ok ()
          else case oerr of
             Some m \<Rightarrow> Err (''open '' @ what @ '': '' @ m)
           | None \<Rightarrow>
              (if q \<noteq> Some p
               then Err (what @ '' path '' @ path @ '' exists and is not a '' @ what @ ''; refusing to overwrite it'')
               else Ok ())))"

definition checkOverwrite :: "existing \<Rightarrow> string \<Rightarrow> unit res" where
  "checkOverwrite ex path = checkOverwriteOf ex path PrefixHeader ''workload recording''"

definition CompressionNone :: string where "CompressionNone = ''none''"

definition ValidCompression :: "string \<Rightarrow> bool" where
  "ValidCompression c \<longleftrightarrow> c = CompressionNone \<or> c = ''zstd'' \<or> c = ''gzip''"

definition FailurePolicy :: string where
  "FailurePolicy = ''fail_on_backpressure: when the writer queue is full the recording stops and is marked failed; operations are never dropped silently, and the file keeps a prefix of every worker''
     @ [CHR 0x27] @ ''s stream''"
definition BlockPolicy :: string where
  "BlockPolicy = ''block_on_backpressure: when the writer queue is full workers wait for the writer, so every operation is recorded and throughput may drop; the trailer and run metadata report the total and maximum wait''"

definition Policy :: "string \<Rightarrow> string" where
  "Policy backpressure = (if backpressure = ''block'' then BlockPolicy else FailurePolicy)"

text \<open>The defaults of the options, and the errors for unknown ones.\<close>

definition normalize_options :: "rec_options \<Rightarrow> rec_options res" where
  "normalize_options o1 =
     (let o2 = (if op_queue_size o1 \<le> 0 then o1\<lparr>op_queue_size := int DefaultQueueSize\<rparr> else o1);
          o3 = (if op_max_bytes o2 < 0 then o2\<lparr>op_max_bytes := 0\<rparr> else o2);
          o4 = (if op_backpressure o3 = [] then o3\<lparr>op_backpressure := ''fail''\<rparr> else o3)
      in if op_backpressure o4 \<noteq> ''fail'' \<and> op_backpressure o4 \<noteq> ''block''
           then Err (''unknown workload recording backpressure '' @ go_quote (op_backpressure o4))
         else let o5 = (if op_compression o4 = [] then o4\<lparr>op_compression := CompressionNone\<rparr> else o4)
           in if \<not> ValidCompression (op_compression o5)
                then Err (''unknown workload recording compression '' @ go_quote (op_compression o5))
              else Ok o5)"

definition record_header :: "rec_options \<Rightarrow> string \<Rightarrow> header \<Rightarrow> header" where
  "record_header opts now h =
     (let h1 = h\<lparr>h_type := LineHeader, h_format := FormatVersion,
             h_failure_policy := Policy (op_backpressure opts), h_max_bytes := op_max_bytes opts,
             h_backpressure := (if op_backpressure opts = ''block'' then ''block'' else [])\<rparr>;
          h2 = (if h_iterations h1 \<le> 1 then h1\<lparr>h_iterations := 0, h_interval_delay := []\<rparr> else h1)
      in if h_created_at h2 = [] then h2\<lparr>h_created_at := now\<rparr> else h2)"

definition rec_config_of :: "string \<Rightarrow> rec_options \<Rightarrow> header \<Rightarrow> rec_config" where
  "rec_config_of path opts h =
     \<lparr>rc_path = path, rc_max_bytes = op_max_bytes opts,
      rc_reserve = 1024 + 200 * (h_workers h + 1) + 64 * h_iterations h,
      rc_block = (op_backpressure opts = ''block''), rc_multi = (1 < h_iterations h),
      rc_compression = op_compression opts, rc_outcomes = h_outcomes h,
      rc_checksums = h_result_checksums h, rc_queue_size = nat (op_queue_size opts)\<rparr>"

definition empty_recorder :: recorder where
  "empty_recorder = \<lparr>r_state = StateRecording, r_reason = [], r_queue = [], r_ops = 0, r_bytes = 0,
     r_iteration = 1, r_waits = 0, r_wait_total = 0, r_wait_max = 0, r_last_iter_seen = 0, r_seq = 0,
     r_worker_seq = Map.empty, r_hashes = [], r_iter_ops = Map.empty, r_lines = [], r_broken = None\<rparr>"

text \<open>\<open>NewRecorder\<close>; \<open>io\<close> is the error of opening, writing or flushing the file, if there is one.\<close>

definition NewRecorder ::
    "codec \<Rightarrow> existing \<Rightarrow> string option \<Rightarrow> string \<Rightarrow> string \<Rightarrow> rec_options \<Rightarrow> header \<Rightarrow> (rec_config \<times> recorder) res" where
  "NewRecorder co ex io now path opts0 h0 =
     res_bind (normalize_options opts0) (\<lambda>opts.
     res_bind (checkOverwrite ex path) (\<lambda>_.
       (case io of
          Some m \<Rightarrow> Err m
        | None \<Rightarrow>
           (let h = record_header opts now h0; cfg = rec_config_of path opts h in
            res_bind (co_header co h) (\<lambda>len.
              (let r = empty_recorder\<lparr>r_lines := [header_raw len (co_header_hash co h) h], r_bytes := len\<rparr> in
               if rc_max_bytes cfg > 0 \<and> int len > rc_max_bytes cfg
               then Err (''workload_record_max_bytes ('' @ itoa (rc_max_bytes cfg) @ '') is smaller than the header'')
               else Ok (cfg, r)))))))"

subsection \<open>Stopping, recording, writing\<close>

text \<open>\<open>stop\<close>: the first stop wins (a compare-and-swap from the recording state).\<close>

definition stop :: "rec_state \<Rightarrow> string \<Rightarrow> recorder \<Rightarrow> recorder" where
  "stop st reason r = (if r_state r \<noteq> StateRecording then r else r\<lparr>r_state := st, r_reason := reason\<rparr>)"

definition SetIteration :: "int \<Rightarrow> recorder \<Rightarrow> recorder" where
  "SetIteration n r = (if 1 \<le> n then r\<lparr>r_iteration := to_i32 n\<rparr> else r)"

definition Active :: "recorder \<Rightarrow> bool" where
  "Active r \<longleftrightarrow> r_state r = StateRecording"

text \<open>\<open>EncodeCommand\<close>: raw BSON as it is, everything else canonicalised first.\<close>

definition EncodeCommand :: "codec \<Rightarrow> gval \<Rightarrow> string res" where
  "EncodeCommand co cmd = (case cmd of GBytes b \<Rightarrow> co_extjson co (GBytes b) | _ \<Rightarrow> co_extjson co (Canonical cmd))"

text \<open>The first half of \<open>Record\<close>: the state check, the encoding and the iteration stamp. \<open>None\<close>:
  nothing will be queued.\<close>

definition Record_prepare :: "codec \<Rightarrow> rec_config \<Rightarrow> entry \<Rightarrow> recorder \<Rightarrow> entry option \<times> recorder" where
  "Record_prepare co cfg e r =
     (if r_state r \<noteq> StateRecording then (None, r)
      else (case EncodeCommand co (en_command e) of
          Inl m \<Rightarrow> (None, stop StateFailed (''encode_error: '' @ m) r)
        | Inr cmd \<Rightarrow>
           (let e1 = e\<lparr>en_cmd := cmd, en_command := GNil\<rparr>
            in (Some (if rc_multi cfg then e1\<lparr>en_iteration := r_iteration r\<rparr> else e1), r))))"

text \<open>The second half: send, or what the backpressure policy does when the queue is full. The
  result says whether the worker has left \<open>Record\<close>.\<close>

definition queue_full :: "rec_config \<Rightarrow> recorder \<Rightarrow> bool" where
  "queue_full cfg r \<longleftrightarrow> rc_queue_size cfg \<le> length (r_queue r)"

definition Record_send :: "rec_config \<Rightarrow> entry \<Rightarrow> recorder \<Rightarrow> bool \<times> recorder" where
  "Record_send cfg e r =
     (if \<not> queue_full cfg r then (True, r\<lparr>r_queue := r_queue r @ [e]\<rparr>)
      else if \<not> rc_block cfg then (True, stop StateFailed reasonQueueFull r)
      else (False, r))"

text \<open>\<open>addWait\<close>.\<close>

definition addWait :: "int \<Rightarrow> recorder \<Rightarrow> recorder" where
  "addWait d r = r\<lparr>r_waits := r_waits r + 1, r_wait_total := r_wait_total r + d,
     r_wait_max := (if d \<le> r_wait_max r then r_wait_max r else d)\<rparr>"

text \<open>The operation line of an entry.\<close>

definition entry_line :: "nat \<Rightarrow> nat \<Rightarrow> entry \<Rightarrow> op_line" where
  "entry_line seq wseq e = \<lparr>ol_seq = seq, ol_worker = en_worker e, ol_worker_seq = wseq,
     ol_offset_us = go_div (en_offset e) 1000, ol_iteration = en_iteration e, ol_ns = en_ns e, ol_op = en_op e,
     ol_path = en_path e, ol_ok = en_ok e, ol_existing = en_existing e, ol_query = en_query e,
     ol_shape = en_shape e, ol_cmd = en_cmd e, ol_outcome = en_outcome e, ol_flags = en_flags e\<rparr>"

definition hash_add :: "int \<Rightarrow> string \<Rightarrow> (int \<times> string) list \<Rightarrow> (int \<times> string) list" where
  "hash_add w cmd hs =
     (if w \<in> fst ` set hs then map (\<lambda>(i, s). (i, if i = w then StreamHash_Add s cmd else s)) hs
      else hs @ [(w, StreamHash_Add [] cmd)])"

text \<open>An error of the buffered writer sticks: every later write returns it.\<close>

definition writer_error :: "string option \<Rightarrow> recorder \<Rightarrow> string option" where
  "writer_error io r = (if r_broken r = None then io else r_broken r)"

text \<open>The bookkeeping after a successful write of an operation line.\<close>

definition write_commit :: "rec_config \<Rightarrow> nat \<Rightarrow> op_line \<Rightarrow> entry \<Rightarrow> recorder \<Rightarrow> recorder" where
  "write_commit cfg len line e r =
     (let r2 = r\<lparr>r_lines := r_lines r @ [op_raw len [] line], r_bytes := r_bytes r + len, r_ops := r_ops r + 1\<rparr>;
          r3 = (if rc_multi cfg then r2\<lparr>r_iter_ops := bump (r_iter_ops r2) (en_iteration e),
                  r_last_iter_seen := (if en_iteration e > r_last_iter_seen r2 then en_iteration e
                                       else r_last_iter_seen r2)\<rparr> else r2)
      in r3\<lparr>r_hashes := hash_add (en_worker e) (en_cmd e) (r_hashes r3)\<rparr>)"

text \<open>\<open>write\<close>, run by the writer goroutine; \<open>io\<close> is the error of the write, if there is one. The
  sequence numbers are taken back when the line is not written for an encoding error or the size
  limit.\<close>

definition write_entry :: "codec \<Rightarrow> rec_config \<Rightarrow> string option \<Rightarrow> entry \<Rightarrow> recorder \<Rightarrow> recorder" where
  "write_entry co cfg io e r =
     (let seq = r_seq r + 1; wseq = cnt (r_worker_seq r) (en_worker e) + 1;
          line = entry_line seq wseq e in
      case co_op co line of
        Inl m \<Rightarrow> stop StateFailed (''encode_error: '' @ m) r
      | Inr len \<Rightarrow>
         (if rc_max_bytes cfg > 0 \<and> int (r_bytes r) + int len + rc_reserve cfg > rc_max_bytes cfg
          then stop StateTruncated reasonMaxBytes r
          else let r1 = r\<lparr>r_seq := seq, r_worker_seq := (r_worker_seq r)(en_worker e \<mapsto> wseq)\<rparr> in
            (case writer_error io r1 of
               Some m \<Rightarrow> stop StateFailed (''write_error: '' @ m) (r1\<lparr>r_broken := Some m\<rparr>)
             | None \<Rightarrow> write_commit cfg len line e r1)))"

subsection \<open>State of a recording, closing\<close>

definition baseResult :: "rec_config \<Rightarrow> recorder \<Rightarrow> rec_result" where
  "baseResult cfg r = \<lparr>rr_path = rc_path cfg, rr_status = [], rr_reason = [], rr_ops = r_ops r, rr_bytes = r_bytes r,
     rr_commands_hash = [], rr_compression = rc_compression cfg,
     rr_backpressure = (if rc_block cfg then ''block'' else ''fail''), rr_iterations = 0,
     rr_waits = (if rc_block cfg then r_waits r else 0),
     rr_wait_total = (if rc_block cfg then r_wait_total r else 0),
     rr_wait_max = (if rc_block cfg then r_wait_max r else 0),
     rr_outcomes = rc_outcomes cfg, rr_result_checksums = rc_checksums cfg\<rparr>"

definition rec_status :: "recorder \<Rightarrow> string \<times> string" where
  "rec_status r = (case r_state r of
       StateTruncated \<Rightarrow> (StatusTruncated, r_reason r)
     | StateFailed \<Rightarrow> (StatusFailed, r_reason r)
     | StateRecording \<Rightarrow> (StatusRecording, []))"

definition Snapshot :: "rec_config \<Rightarrow> recorder \<Rightarrow> rec_result" where
  "Snapshot cfg r = (baseResult cfg r)\<lparr>rr_status := fst (rec_status r), rr_reason := snd (rec_status r)\<rparr>"

definition close_trailer :: "codec \<Rightarrow> rec_config \<Rightarrow> recorder \<Rightarrow> trailer" where
  "close_trailer co cfg r =
     (let (st, reason) = rec_status r;
          status = (if st = StatusRecording then StatusComplete else st);
          whs = map (\<lambda>(i, s). (i, StreamHash_Sum (co_sha co) s)) (r_hashes r)
      in \<lparr>tr_status = status, tr_reason = reason, tr_ops = r_ops r, tr_bytes = r_bytes r,
          tr_worker_ops = map_of (map (\<lambda>(i, s). (itoa i, cnt (r_worker_seq r) i)) whs),
          tr_worker_hashes = map_of (map (\<lambda>(i, s). (itoa i, s)) whs),
          tr_commands_hash = CombineHashes (co_sha co) whs,
          tr_iteration_ops = (if rc_multi cfg then
             map_of (map (\<lambda>it. (itoa it, cnt (r_iter_ops r) it))
               (filter (\<lambda>it. r_iter_ops r it \<noteq> None) [1..r_last_iter_seen r])) else Map.empty),
          tr_waits = (if rc_block cfg then r_waits r else 0),
          tr_wait_total_us = (if rc_block cfg then go_div (r_wait_total r) 1000 else 0),
          tr_wait_max_us = (if rc_block cfg then go_div (r_wait_max r) 1000 else 0)\<rparr>)"

text \<open>\<open>Close\<close> once the queue is drained; \<open>io\<close> is the error of writing the trailer, \<open>late\<close> the one of
  flushing, closing the compressor, syncing or closing the file, if there is one.\<close>

definition Close :: "codec \<Rightarrow> rec_config \<Rightarrow> string option \<Rightarrow> string option \<Rightarrow> recorder \<Rightarrow> rec_result \<times> recorder" where
  "Close co cfg io late r =
     (let t = close_trailer co cfg r;
          (werr, r1) = (case co_trailer co t of
                   Inl m \<Rightarrow> (Some m, r)
                 | Inr len \<Rightarrow> (case writer_error io r of
                      Some m \<Rightarrow> (Some m, r)
                    | None \<Rightarrow> (None, r\<lparr>r_lines := r_lines r @ [trailer_raw len [] t], r_bytes := r_bytes r + len\<rparr>)));
          err = (if werr = None then late else werr);
          (status, reason) = (case err of
                   Some m \<Rightarrow> (if tr_status t = StatusComplete then (StatusFailed, ''write_error: '' @ m)
                              else (tr_status t, tr_reason t))
                 | None \<Rightarrow> (tr_status t, tr_reason t))
      in ((baseResult cfg r)\<lparr>rr_status := status, rr_reason := reason, rr_ops := tr_ops t,
            rr_bytes := r_bytes r1, rr_commands_hash := tr_commands_hash t,
            rr_iterations := (if rc_multi cfg then r_last_iter_seen r else 0)\<rparr>, r1))"

end
