(* ===== verification/RecorderRun.thy ===== *)
theory RecorderRun
  imports Recorder
begin

text \<open>
  The recorder under concurrent workers: the step relation of \<open>Record\<close>, the writer goroutine,
  \<open>Fail\<close> and \<open>SetIteration\<close>, its invariants, and what they give: a recording keeps a prefix of every
  worker's stream (the whole stream when its status is complete), its size stays within
  \<open>workload_record_max_bytes\<close>, and the file it leaves passes the validating scan of \<open>Reader\<close>.
\<close>

subsection \<open>The step relation\<close>

text \<open>\<open>s_cur\<close> is the entry the writer has taken, \<open>s_pending\<close> the entry of a worker inside
  \<open>Record\<close>, \<open>s_waiting\<close> whether it is blocked in the send. \<open>s_sent\<close> is a ghost: per worker, one item
  for every call of \<open>Record\<close>, \<open>None\<close> where the call queued nothing.\<close>

record rsys =
  s_rec :: recorder
  s_cur :: "entry option"
  s_pending :: "int \<Rightarrow> entry option"
  s_waiting :: "int \<Rightarrow> bool"
  s_sent :: "int \<Rightarrow> op_line option list"

definition core :: "entry \<Rightarrow> op_line" where
  "core e = entry_line 0 0 e"

definition init_rsys :: "recorder \<Rightarrow> rsys" where
  "init_rsys r = \<lparr>s_rec = r, s_cur = None, s_pending = (\<lambda>_. None), s_waiting = (\<lambda>_. False), s_sent = (\<lambda>_. [])\<rparr>"

definition enqueue :: "entry \<Rightarrow> recorder \<Rightarrow> recorder" where
  "enqueue e r = r\<lparr>r_queue := r_queue r @ [e]\<rparr>"

text \<open>The callers' side of the contract: an entry names its worker and leaves the private iteration
  unset; \<open>SetIteration\<close> is called with growing iterations of the run, while no worker is in
  \<open>Record\<close>.\<close>

inductive rec_step :: "codec \<Rightarrow> rec_config \<Rightarrow> int \<Rightarrow> rsys \<Rightarrow> rsys \<Rightarrow> bool"
  for co :: codec and cfg :: rec_config and iterations :: int where
  enter: "s_pending s w = None \<Longrightarrow> en_worker e = w \<Longrightarrow> en_iteration e = 0 \<Longrightarrow>
    Record_prepare co cfg e (s_rec s) = (res, r') \<Longrightarrow>
    rec_step co cfg iterations s (s\<lparr>s_rec := r', s_pending := (s_pending s)(w := res),
      s_sent := (s_sent s)(w := s_sent s w @ [map_option core res])\<rparr>)"
| send: "s_pending s w = Some e \<Longrightarrow> \<not> s_waiting s w \<Longrightarrow> Record_send cfg e (s_rec s) = (True, r') \<Longrightarrow>
    rec_step co cfg iterations s (s\<lparr>s_rec := r', s_pending := (s_pending s)(w := None)\<rparr>)"
| block: "s_pending s w = Some e \<Longrightarrow> \<not> s_waiting s w \<Longrightarrow> Record_send cfg e (s_rec s) = (False, r') \<Longrightarrow>
    rec_step co cfg iterations s (s\<lparr>s_rec := r', s_waiting := (s_waiting s)(w := True)\<rparr>)"
| resume: "s_pending s w = Some e \<Longrightarrow> s_waiting s w \<Longrightarrow> \<not> queue_full cfg (s_rec s) \<Longrightarrow> 0 \<le> d \<Longrightarrow>
    rec_step co cfg iterations s (s\<lparr>s_rec := addWait d (enqueue e (s_rec s)),
      s_pending := (s_pending s)(w := None), s_waiting := (s_waiting s)(w := False)\<rparr>)"
| take: "s_cur s = None \<Longrightarrow> r_queue (s_rec s) = e # q \<Longrightarrow>
    rec_step co cfg iterations s (s\<lparr>s_rec := (s_rec s)\<lparr>r_queue := q\<rparr>,
      s_cur := (if Active (s_rec s) then Some e else None)\<rparr>)"
| put: "s_cur s = Some e \<Longrightarrow>
    rec_step co cfg iterations s (s\<lparr>s_rec := write_entry co cfg io e (s_rec s), s_cur := None\<rparr>)"
| fail: "rec_step co cfg iterations s (s\<lparr>s_rec := stop StateFailed reason (s_rec s)\<rparr>)"
| set_iteration: "(\<forall>w. s_pending s w = None) \<Longrightarrow> r_iteration (s_rec s) \<le> n \<Longrightarrow> n < 2 ^ 31 \<Longrightarrow>
    n \<le> max 1 iterations \<Longrightarrow>
    rec_step co cfg iterations s (s\<lparr>s_rec := SetIteration n (s_rec s)\<rparr>)"

inductive rec_reach :: "codec \<Rightarrow> rec_config \<Rightarrow> int \<Rightarrow> recorder \<Rightarrow> rsys \<Rightarrow> bool"
  for co :: codec and cfg :: rec_config and iterations :: int and r0 :: recorder where
  init: "rec_reach co cfg iterations r0 (init_rsys r0)"
| step: "rec_reach co cfg iterations r0 s \<Longrightarrow> rec_step co cfg iterations s t \<Longrightarrow> rec_reach co cfg iterations r0 t"

declare rec_step.intros [step_intros] rec_reach.intros [step_intros]

lemma rec_reach_induct_inv:
  assumes "rec_reach co cfg its r0 s" and "I (init_rsys r0)"
    and "\<And>s t. rec_step co cfg its s t \<Longrightarrow> I s \<Longrightarrow> I t"
  shows "I s"
  using assms(1) by (induction rule: rec_reach.induct) (auto intro: assms(2,3))

subsection \<open>What a write does\<close>

definition file_ops :: "raw_line list \<Rightarrow> op_line list" where
  "file_ops ls = concat (map (\<lambda>l. case rl_op l of Inl _ \<Rightarrow> [] | Inr op \<Rightarrow> [op]) ls)"

lemma file_ops_append [simp]: "file_ops (xs @ ys) = file_ops xs @ file_ops ys"
  by (simp add: file_ops_def)

lemma file_ops_other [simp]: "file_ops [] = []" "file_ops (header_raw n hs h # ls) = file_ops ls"
  "file_ops (trailer_raw n hs t # ls) = file_ops ls" "file_ops (op_raw n hs op # ls) = op # file_ops ls"
  by (simp_all add: file_ops_def header_raw_def trailer_raw_def op_raw_def plain_line_def)

lemma stop_fields [simp]:
  "r_queue (stop st m r) = r_queue r" "r_ops (stop st m r) = r_ops r" "r_bytes (stop st m r) = r_bytes r"
  "r_iteration (stop st m r) = r_iteration r" "r_seq (stop st m r) = r_seq r"
  "r_worker_seq (stop st m r) = r_worker_seq r" "r_lines (stop st m r) = r_lines r"
  "r_broken (stop st m r) = r_broken r" "r_hashes (stop st m r) = r_hashes r"
  "r_iter_ops (stop st m r) = r_iter_ops r" "r_last_iter_seen (stop st m r) = r_last_iter_seen r"
  by (simp_all add: stop_def)

lemma stop_not_recording [simp]: "st \<noteq> StateRecording \<Longrightarrow> r_state (stop st m r) \<noteq> StateRecording"
  by (simp add: stop_def)

lemma stop_inactive: "r_state r \<noteq> StateRecording \<Longrightarrow> stop st m r = r"
  by (simp add: stop_def)

lemma write_commit_fields [simp]:
  "r_lines (write_commit cfg len line e r) = r_lines r @ [op_raw len [] line]"
  "r_queue (write_commit cfg len line e r) = r_queue r"
  "r_ops (write_commit cfg len line e r) = Suc (r_ops r)"
  "r_bytes (write_commit cfg len line e r) = r_bytes r + len"
  "r_state (write_commit cfg len line e r) = r_state r"
  "r_iteration (write_commit cfg len line e r) = r_iteration r"
  "r_broken (write_commit cfg len line e r) = r_broken r"
  "r_seq (write_commit cfg len line e r) = r_seq r"
  "r_worker_seq (write_commit cfg len line e r) = r_worker_seq r"
  by (simp_all add: write_commit_def Let_def)

lemma write_entry_cases:
  obtains (stopped) st m where "write_entry co cfg io e r = stop st m r" "st \<noteq> StateRecording"
  | (io_error) m r1 where "write_entry co cfg io e r = stop StateFailed m r1" "r_lines r1 = r_lines r"
      "r_queue r1 = r_queue r" "r_ops r1 = r_ops r" "r_bytes r1 = r_bytes r" "r_state r1 = r_state r"
      "r_iteration r1 = r_iteration r"
  | (written) len wseq where "wseq = cnt (r_worker_seq r) (en_worker e) + 1"
      "write_entry co cfg io e r = write_commit cfg len (entry_line (r_seq r + 1) wseq e) e
         (r\<lparr>r_seq := r_seq r + 1, r_worker_seq := (r_worker_seq r)(en_worker e \<mapsto> wseq)\<rparr>)"
      "rc_max_bytes cfg > 0 \<Longrightarrow> int (r_bytes r) + int len + rc_reserve cfg \<le> rc_max_bytes cfg"
proof -
  let ?w = "cnt (r_worker_seq r) (en_worker e) + 1"
  let ?line = "entry_line (r_seq r + 1) ?w e"
  let ?r1 = "r\<lparr>r_seq := r_seq r + 1, r_worker_seq := (r_worker_seq r)(en_worker e \<mapsto> ?w)\<rparr>"
  show thesis
  proof (cases "co_op co ?line")
    case (Inl m)
    then show thesis
      by (intro stopped [of StateFailed]) (simp_all add: write_entry_def Let_def)
  next
    case (Inr len)
    show thesis
    proof (cases "rc_max_bytes cfg > 0 \<and> int (r_bytes r) + int len + rc_reserve cfg > rc_max_bytes cfg")
      case True
      with Inr show thesis
        by (intro stopped [of StateTruncated]) (simp_all add: write_entry_def Let_def)
    next
      case False
      show thesis
      proof (cases "writer_error io ?r1")
        case None
        with Inr False show thesis
          by (intro written [of ?w len]) (auto simp: write_entry_def Let_def)
      next
        case (Some m)
        with Inr False show thesis
          by (intro io_error [of "''write_error: '' @ m" "?r1\<lparr>r_broken := Some m\<rparr>"])
            (auto simp: write_entry_def Let_def)
      qed
    qed
  qed
qed

subsection \<open>The file is a prefix of every worker's stream\<close>

definition op_core :: "op_line \<Rightarrow> op_line" where
  "op_core op = op\<lparr>ol_seq := 0, ol_worker_seq := 0\<rparr>"

lemma op_core_entry_line [simp]: "op_core (entry_line n m e) = core e"
  by (simp add: op_core_def core_def entry_line_def)

lemma entry_line_sel [simp]:
  "ol_worker (entry_line n m e) = en_worker e" "ol_seq (entry_line n m e) = n"
  "ol_worker_seq (entry_line n m e) = m" "ol_iteration (entry_line n m e) = en_iteration e"
  by (simp_all add: entry_line_def)

text \<open>What worker \<open>w\<close> has in the file, with the writer, in the queue and in its hands.\<close>

definition in_file :: "int \<Rightarrow> recorder \<Rightarrow> op_line list" where
  "in_file w r = map op_core (worker_ops w (file_ops (r_lines r)))"

definition of_worker :: "int \<Rightarrow> entry list \<Rightarrow> op_line list" where
  "of_worker w es = map core (filter (\<lambda>e. en_worker e = w) es)"

definition opt_list :: "'a option \<Rightarrow> 'a list" where
  "opt_list x = (case x of None \<Rightarrow> [] | Some y \<Rightarrow> [y])"

lemma opt_list_simps [simp]: "opt_list None = []" "opt_list (Some x) = [x]"
  by (simp_all add: opt_list_def)

lemma of_worker_simps [simp]:
  "of_worker w [] = []" "of_worker w (xs @ ys) = of_worker w xs @ of_worker w ys"
  "of_worker w (e # es) = (if en_worker e = w then [core e] else []) @ of_worker w es"
  by (simp_all add: of_worker_def)

lemma in_file_stop [simp]: "in_file w (stop st m r) = in_file w r"
  by (simp add: in_file_def)

lemma in_file_commit [simp]:
  "in_file w (write_commit cfg len (entry_line n m e) e r) = in_file w r @ of_worker w [e]"
  by (simp add: in_file_def worker_ops_def)

definition order_inv :: "rsys \<Rightarrow> bool" where
  "order_inv s \<longleftrightarrow>
     (\<forall>w e. s_pending s w = Some e \<longrightarrow> en_worker e = w) \<and>
     (\<forall>w. prefix (map Some (in_file w (s_rec s) @ of_worker w (opt_list (s_cur s)))) (s_sent s w)) \<and>
     (r_state (s_rec s) = StateRecording \<longrightarrow>
        (\<forall>w. s_sent s w = map Some (in_file w (s_rec s) @ of_worker w (opt_list (s_cur s)) @
               of_worker w (r_queue (s_rec s)) @ map core (opt_list (s_pending s w)))))"

lemma order_inv_init: "file_ops (r_lines r) = [] \<Longrightarrow> r_queue r = [] \<Longrightarrow> order_inv (init_rsys r)"
  by (simp add: order_inv_def init_rsys_def in_file_def worker_ops_def)

lemma Record_prepare_cases:
  assumes "Record_prepare co cfg e r = (res, r')"
  obtains (skip) "res = None" "r' = r" "r_state r \<noteq> StateRecording"
    | (bad) m where "res = None" "r' = stop StateFailed m r" "r_state r = StateRecording"
    | (ready) cmd where "res = Some (e\<lparr>en_cmd := cmd, en_command := GNil,
         en_iteration := (if rc_multi cfg then r_iteration r else en_iteration e)\<rparr>)" "r' = r" "r_state r = StateRecording"
  using assms
  by (auto simp: Record_prepare_def Let_def split: if_splits sum.splits)

lemma Record_send_cases:
  assumes "Record_send cfg e r = (True, r')"
  obtains (queued) "r' = enqueue e r" | (refused) m where "r' = stop StateFailed m r" "queue_full cfg r" "\<not> rc_block cfg"
  using assms by (auto simp: Record_send_def enqueue_def split: if_splits)

lemma enqueue_fields [simp]:
  "r_state (enqueue e r) = r_state r" "r_lines (enqueue e r) = r_lines r" "r_queue (enqueue e r) = r_queue r @ [e]"
  "r_ops (enqueue e r) = r_ops r" "r_bytes (enqueue e r) = r_bytes r" "r_seq (enqueue e r) = r_seq r"
  "r_worker_seq (enqueue e r) = r_worker_seq r" "r_iteration (enqueue e r) = r_iteration r"
  "r_broken (enqueue e r) = r_broken r"
  by (simp_all add: enqueue_def)

lemma addWait_fields [simp]:
  "r_state (addWait d r) = r_state r" "r_lines (addWait d r) = r_lines r" "r_queue (addWait d r) = r_queue r"
  "r_ops (addWait d r) = r_ops r" "r_bytes (addWait d r) = r_bytes r" "r_seq (addWait d r) = r_seq r"
  "r_worker_seq (addWait d r) = r_worker_seq r" "r_iteration (addWait d r) = r_iteration r"
  "r_broken (addWait d r) = r_broken r"
  by (simp_all add: addWait_def)

lemma SetIteration_fields [simp]:
  "r_state (SetIteration n r) = r_state r" "r_lines (SetIteration n r) = r_lines r"
  "r_queue (SetIteration n r) = r_queue r" "r_ops (SetIteration n r) = r_ops r"
  "r_bytes (SetIteration n r) = r_bytes r" "r_seq (SetIteration n r) = r_seq r"
  "r_worker_seq (SetIteration n r) = r_worker_seq r" "r_broken (SetIteration n r) = r_broken r"
  by (simp_all add: SetIteration_def)

lemma in_file_same [simp]:
  "in_file w (enqueue e r) = in_file w r" "in_file w (addWait d r) = in_file w r"
  "in_file w (SetIteration n r) = in_file w r" "in_file w (r\<lparr>r_queue := q\<rparr>) = in_file w r"
  "in_file w (r\<lparr>r_seq := n', r_worker_seq := ws\<rparr>) = in_file w r"
  by (simp_all add: in_file_def)

lemma in_file_cong: "r_lines r' = r_lines r \<Longrightarrow> in_file w r' = in_file w r"
  by (simp add: in_file_def)

lemma prefix_snoc_left: "prefix xs ys \<Longrightarrow> prefix xs (ys @ zs)"
  by (auto simp: prefix_def)

lemma order_inv_step: "rec_step co cfg its s t \<Longrightarrow> order_inv s \<Longrightarrow> order_inv t"
proof (induction rule: rec_step.induct)
  case (enter s w e res r')
  from enter(4) show ?case
  proof (cases rule: Record_prepare_cases)
    case skip
    with enter.prems show ?thesis
      by (auto simp: order_inv_def prefix_snoc_left)
  next
    case (bad m)
    with enter.prems show ?thesis
      by (auto simp: order_inv_def prefix_snoc_left)
  next
    case (ready cmd)
    with ready enter show ?thesis
      by (auto simp: order_inv_def prefix_snoc_left)
  qed
next
  case (send s w e r')
  from send(3) show ?case
  proof (cases rule: Record_send_cases)
    case queued
    with send show ?thesis
      by (auto simp: order_inv_def)
  next
    case (refused m)
    with send show ?thesis
      by (auto simp: order_inv_def)
  qed
next
  case (block s w e r')
  then have "r' = s_rec s"
    by (auto simp: Record_send_def split: if_splits)
  with block show ?case by (simp add: order_inv_def)
next
  case (resume s w e d)
  then show ?case by (auto simp: order_inv_def)
next
  case (take s e q)
  then show ?case
    by (auto simp: order_inv_def Active_def prefix_def)
next
  case (put s e io)
  show ?case
  proof (cases rule: write_entry_cases [of co cfg io e "s_rec s"])
    case (stopped st m)
    with put show ?thesis
      by (auto simp: order_inv_def dest: append_prefixD)
  next
    case (io_error m r1)
    from io_error(2) have "in_file w r1 = in_file w (s_rec s)" for w
      by (rule in_file_cong)
    with io_error put show ?thesis
      by (auto simp: order_inv_def dest: append_prefixD)
  next
    case (written len wseq)
    then show ?thesis
      using put by (simp add: order_inv_def)
  qed
next
  case (fail s reason)
  then show ?case
    by (auto simp: order_inv_def)
next
  case (set_iteration s n)
  then show ?case by (simp add: order_inv_def)
qed

subsection \<open>Sequence numbers and size\<close>

text \<open>Every step either leaves the file alone or appends one operation line.\<close>

lemma rec_step_file:
  assumes "rec_step co cfg its s t"
  obtains (quiet) "r_lines (s_rec t) = r_lines (s_rec s)" "r_ops (s_rec t) = r_ops (s_rec s)"
      "r_bytes (s_rec t) = r_bytes (s_rec s)"
      "r_state (s_rec t) = StateRecording \<or> s_cur t \<noteq> None \<Longrightarrow>
         (r_state (s_rec s) = StateRecording \<or> s_cur s \<noteq> None) \<and> r_seq (s_rec t) = r_seq (s_rec s) \<and>
         r_worker_seq (s_rec t) = r_worker_seq (s_rec s)"
  | (appended) e len wseq where "s_cur s = Some e" "wseq = cnt (r_worker_seq (s_rec s)) (en_worker e) + 1"
      "s_rec t = write_commit cfg len (entry_line (r_seq (s_rec s) + 1) wseq e) e
         (s_rec s\<lparr>r_seq := r_seq (s_rec s) + 1, r_worker_seq := (r_worker_seq (s_rec s))(en_worker e \<mapsto> wseq)\<rparr>)"
      "rc_max_bytes cfg > 0 \<Longrightarrow> int (r_bytes (s_rec s)) + int len + rc_reserve cfg \<le> rc_max_bytes cfg"
  using assms
proof (cases rule: rec_step.cases)
  case (enter w e res r')
  from enter(5) show thesis
    by (cases rule: Record_prepare_cases) (use enter in \<open>auto intro!: quiet\<close>)
next
  case (send w e r')
  from send(4) show thesis
    by (cases rule: Record_send_cases) (use send in \<open>auto intro!: quiet\<close>)
next
  case (block w e r')
  then have "r' = s_rec s"
    by (auto simp: Record_send_def split: if_splits)
  with block show thesis by (auto intro!: quiet)
next
  case (resume w e d)
  then show thesis by (auto intro!: quiet)
next
  case (take e q)
  then show thesis by (auto simp: Active_def intro!: quiet split: if_splits)
next
  case (put e io)
  show thesis
  proof (cases rule: write_entry_cases [of co cfg io e "s_rec s"])
    case (stopped st m)
    with put show thesis by (auto intro!: quiet)
  next
    case (io_error m r1)
    with put show thesis by (auto intro!: quiet)
  next
    case (written len wseq)
    with put show thesis by (auto intro!: appended)
  qed
next
  case (fail reason)
  then show thesis by (auto simp: stop_def intro!: quiet split: if_splits)
next
  case (set_iteration n)
  then show thesis by (auto intro!: quiet)
qed

definition seq_inv :: "rsys \<Rightarrow> bool" where
  "seq_inv s \<longleftrightarrow> (let r = s_rec s; ops = file_ops (r_lines r) in
     r_ops r = length ops \<and> map ol_seq ops = [1..<Suc (length ops)] \<and>
     (\<forall>w. map ol_worker_seq (worker_ops w ops) = [1..<Suc (length (worker_ops w ops))]) \<and>
     (r_state r = StateRecording \<or> s_cur s \<noteq> None \<longrightarrow>
        r_seq r = length ops \<and> (\<forall>w. cnt (r_worker_seq r) w = length (worker_ops w ops))))"

lemma worker_ops_append [simp]: "worker_ops w (xs @ ys) = worker_ops w xs @ worker_ops w ys"
  "worker_ops w [] = []" "worker_ops w [op] = (if ol_worker op = w then [op] else [])"
  by (simp_all add: worker_ops_def)

lemma seq_inv_step: "rec_step co cfg its s t \<Longrightarrow> seq_inv s \<Longrightarrow> seq_inv t"
proof (elim rec_step_file)
  assume "seq_inv s" and "r_lines (s_rec t) = r_lines (s_rec s)" and "r_ops (s_rec t) = r_ops (s_rec s)"
    and "r_state (s_rec t) = StateRecording \<or> s_cur t \<noteq> None \<Longrightarrow>
         (r_state (s_rec s) = StateRecording \<or> s_cur s \<noteq> None) \<and> r_seq (s_rec t) = r_seq (s_rec s) \<and>
         r_worker_seq (s_rec t) = r_worker_seq (s_rec s)"
  then show "seq_inv t"
    by (auto simp: seq_inv_def Let_def)
next
  fix e len wseq
  assume inv: "seq_inv s" and cur: "s_cur s = Some e"
    and wseq: "wseq = cnt (r_worker_seq (s_rec s)) (en_worker e) + 1"
    and t: "s_rec t = write_commit cfg len (entry_line (r_seq (s_rec s) + 1) wseq e) e
         (s_rec s\<lparr>r_seq := r_seq (s_rec s) + 1, r_worker_seq := (r_worker_seq (s_rec s))(en_worker e \<mapsto> wseq)\<rparr>)"
  from inv cur have "r_seq (s_rec s) = length (file_ops (r_lines (s_rec s)))"
    and "cnt (r_worker_seq (s_rec s)) w = length (worker_ops w (file_ops (r_lines (s_rec s))))" for w
    by (simp_all add: seq_inv_def Let_def)
  with inv show "seq_inv t"
    by (simp add: seq_inv_def Let_def t wseq)
qed

text \<open>The file is the initial one followed by operation lines, and its bytes are counted.\<close>

definition lines_inv :: "rec_config \<Rightarrow> recorder \<Rightarrow> rsys \<Rightarrow> bool" where
  "lines_inv cfg r0 s \<longleftrightarrow> (let r = s_rec s in
     (\<exists>wl. r_lines r = r_lines r0 @ map (\<lambda>(n, op). op_raw n [] op) wl) \<and>
     r_bytes r = r_bytes r0 + sum_list (map rl_len (drop (length (r_lines r0)) (r_lines r))) \<and>
     (rc_max_bytes cfg > 0 \<longrightarrow> r_lines r = r_lines r0 \<or> int (r_bytes r) + rc_reserve cfg \<le> rc_max_bytes cfg))"

lemma lines_inv_init: "lines_inv cfg r0 (init_rsys r0)"
  by (auto simp: lines_inv_def init_rsys_def)

lemma lines_inv_step: "rec_step co cfg its s t \<Longrightarrow> lines_inv cfg r0 s \<Longrightarrow> lines_inv cfg r0 t"
proof (elim rec_step_file)
  assume inv: "lines_inv cfg r0 s" and l: "r_lines (s_rec t) = r_lines (s_rec s)"
    and b: "r_bytes (s_rec t) = r_bytes (s_rec s)"
  show "lines_inv cfg r0 t"
    using inv unfolding lines_inv_def Let_def l b .
next
  fix e len wseq
  assume inv: "lines_inv cfg r0 s"
    and t: "s_rec t = write_commit cfg len (entry_line (r_seq (s_rec s) + 1) wseq e) e
         (s_rec s\<lparr>r_seq := r_seq (s_rec s) + 1, r_worker_seq := (r_worker_seq (s_rec s))(en_worker e \<mapsto> wseq)\<rparr>)"
    and lim: "rc_max_bytes cfg > 0 \<Longrightarrow> int (r_bytes (s_rec s)) + int len + rc_reserve cfg \<le> rc_max_bytes cfg"
  from inv obtain wl where wl: "r_lines (s_rec s) = r_lines r0 @ map (\<lambda>(n, op). op_raw n [] op) wl"
    by (auto simp: lines_inv_def Let_def)
  let ?op = "entry_line (r_seq (s_rec s) + 1) wseq e"
  have l: "r_lines (s_rec t) = r_lines r0 @ map (\<lambda>(n, op). op_raw n [] op) (wl @ [(len, ?op)])"
    by (simp add: t wl)
  have len: "rl_len (op_raw len [] ?op) = len"
    by (simp add: raw_defs)
  have b: "r_bytes (s_rec t) = r_bytes r0 + sum_list (map rl_len (drop (length (r_lines r0)) (r_lines (s_rec t))))"
    using inv len by (simp add: lines_inv_def Let_def t wl)
  have m: "rc_max_bytes cfg > 0 \<longrightarrow> int (r_bytes (s_rec t)) + rc_reserve cfg \<le> rc_max_bytes cfg"
    using lim by (simp add: t)
  show "lines_inv cfg r0 t"
    unfolding lines_inv_def Let_def using l b m by blast
qed

text \<open>Iterations never go back: in the file, then with the writer, then in the queue.\<close>

definition iter_inv :: "rec_config \<Rightarrow> int \<Rightarrow> rsys \<Rightarrow> bool" where
  "iter_inv cfg its s \<longleftrightarrow> (let r = s_rec s; stamp = (if rc_multi cfg then r_iteration r else 0);
        path = map ol_iteration (file_ops (r_lines r)) @ map en_iteration (opt_list (s_cur s) @ r_queue r) in
     1 \<le> r_iteration r \<and> r_iteration r \<le> max 1 its \<and> r_iteration r < 2 ^ 31 \<and>
     sorted path \<and> (\<forall>i \<in> set path. i \<le> stamp) \<and>
     (\<forall>w e. s_pending s w = Some e \<longrightarrow> en_iteration e = stamp))"

lemma iter_inv_init: "file_ops (r_lines r) = [] \<Longrightarrow> r_queue r = [] \<Longrightarrow> r_iteration r = 1 \<Longrightarrow> iter_inv cfg its (init_rsys r)"
  by (simp add: iter_inv_def init_rsys_def)

lemma iter_inv_step: "rec_step co cfg its s t \<Longrightarrow> iter_inv cfg its s \<Longrightarrow> iter_inv cfg its t"
proof (induction rule: rec_step.induct)
  case (enter s w e res r')
  from enter(4) show ?case
    by (cases rule: Record_prepare_cases) (use enter in \<open>auto simp: iter_inv_def Let_def\<close>)
next
  case (send s w e r')
  from send(3) show ?case
    by (cases rule: Record_send_cases) (use send in \<open>auto simp: iter_inv_def Let_def sorted_append\<close>)
next
  case (block s w e r')
  then have "r' = s_rec s"
    by (auto simp: Record_send_def split: if_splits)
  with block show ?case by (simp add: iter_inv_def Let_def)
next
  case (resume s w e d)
  then show ?case by (auto simp: iter_inv_def Let_def sorted_append)
next
  case (take s e q)
  then show ?case by (auto simp: iter_inv_def Let_def sorted_append)
next
  case (put s e io)
  show ?case
  proof (cases rule: write_entry_cases [of co cfg io e "s_rec s"])
    case (stopped st m)
    with put show ?thesis by (auto simp: iter_inv_def Let_def sorted_append)
  next
    case (io_error m r1)
    with put show ?thesis by (auto simp: iter_inv_def Let_def sorted_append)
  next
    case (written len wseq)
    with put show ?thesis by (auto simp: iter_inv_def Let_def sorted_append)
  qed
next
  case (fail s reason)
  then show ?case by (auto simp: iter_inv_def Let_def)
next
  case (set_iteration s n)
  then show ?case
    by (auto simp: iter_inv_def Let_def SetIteration_def intro: order_trans [where y = "r_iteration (s_rec s)"])
qed

subsection \<open>Reachable recorders\<close>

lemma NewRecorder_Ok:
  assumes "NewRecorder co ex io now path opts0 h0 = Ok (cfg, r0)"
  obtains opts h len where "normalize_options opts0 = Ok opts" "h = record_header opts now h0"
    "co_header co h = Ok len" "cfg = rec_config_of path opts h"
    "r0 = empty_recorder\<lparr>r_lines := [header_raw len (co_header_hash co h) h], r_bytes := len\<rparr>"
    "rc_max_bytes cfg > 0 \<longrightarrow> int len \<le> rc_max_bytes cfg"
  using assms
  by (auto simp: NewRecorder_def res_bind_Ok Let_def split: option.splits if_splits)

definition recorder_inv :: "rec_config \<Rightarrow> int \<Rightarrow> recorder \<Rightarrow> rsys \<Rightarrow> bool" where
  "recorder_inv cfg its r0 s \<longleftrightarrow> order_inv s \<and> seq_inv s \<and> lines_inv cfg r0 s \<and> iter_inv cfg its s"

lemma recorder_inv_reach:
  assumes new: "NewRecorder co ex io now path opts0 h0 = Ok (cfg, r0)"
    and reach: "rec_reach co cfg its r0 s"
  shows "recorder_inv cfg its r0 s"
proof -
  from new have r0: "file_ops (r_lines r0) = []" "r_queue r0 = []" "r_iteration r0 = 1" "r_ops r0 = 0"
    "r_seq r0 = 0" "r_worker_seq r0 = Map.empty"
    by (auto elim!: NewRecorder_Ok simp: empty_recorder_def)
  have "recorder_inv cfg its r0 (init_rsys r0)"
    unfolding recorder_inv_def using r0
    by (simp add: order_inv_init lines_inv_init iter_inv_init) (simp add: seq_inv_def init_rsys_def worker_ops_def)
  then show ?thesis
    using rec_reach_induct_inv [OF reach, of "recorder_inv cfg its r0"]
    by (auto simp: recorder_inv_def dest: order_inv_step seq_inv_step lines_inv_step iter_inv_step)
qed

text \<open>Nobody is in \<open>Record\<close> and the writer has drained the queue: what \<open>Close\<close> requires.\<close>

definition quiescent :: "rsys \<Rightarrow> bool" where
  "quiescent s \<longleftrightarrow> s_cur s = None \<and> r_queue (s_rec s) = [] \<and> (\<forall>w. s_pending s w = None)"

text \<open>C2: whatever the interleaving of the workers, the writer and the stops, the file holds for
  every worker a prefix of the operations it sent, in order; if the recording never stopped, it holds
  all of them once the queue is drained.\<close>

theorem recording_keeps_prefix:
  assumes "NewRecorder co ex io now path opts0 h0 = Ok (cfg, r0)" and "rec_reach co cfg its r0 s"
  shows "prefix (map Some (in_file w (s_rec s))) (s_sent s w) \<and>
     (quiescent s \<and> r_state (s_rec s) = StateRecording \<longrightarrow> s_sent s w = map Some (in_file w (s_rec s)))"
proof -
  have inv: "order_inv s"
    using recorder_inv_reach [OF assms] by (simp add: recorder_inv_def)
  then have "prefix (map Some (in_file w (s_rec s)) @ map Some (of_worker w (opt_list (s_cur s)))) (s_sent s w)"
    by (simp add: order_inv_def)
  then have "prefix (map Some (in_file w (s_rec s))) (s_sent s w)"
    by (rule append_prefixD)
  with inv show ?thesis
    by (simp add: order_inv_def quiescent_def)
qed

subsection \<open>The file passes the scan\<close>

lemma scan_loop_ops:
  assumes "scanned h info pre" and "fi_trailer info = None"
    and "\<forall>op \<in> set (map snd wl). fi_iterations info \<le> OpIteration op"
    and "\<forall>(n, op) \<in> set wl. n \<le> MaxLineBytes \<and> op_wf op \<and> (h_iterations h > 0 \<longrightarrow> OpIteration op \<le> h_iterations h)"
    and "sorted (map (OpIteration \<circ> snd) wl)"
    and "\<forall>w. map ol_worker_seq (worker_ops w (pre @ map snd wl)) = [1..<Suc (length (worker_ops w (pre @ map snd wl)))]"
  shows "\<exists>info' n'. scan_loop h None info n (map (\<lambda>(n, op). op_raw n [] op) wl @ rest) = scan_loop h None info' n' rest \<and>
     scanned h info' (pre @ map snd wl) \<and> fi_trailer info' = None"
  using assms
proof (induction wl arbitrary: info pre n)
  case Nil
  then show ?case by auto
next
  case (Cons x wl)
  obtain len op where x: "x = (len, op)" by (cases x)
  have wf: "op_wf op" and len: "len \<le> MaxLineBytes"
    and lim: "h_iterations h > 0 \<longrightarrow> OpIteration op \<le> h_iterations h"
    using Cons.prems(4) x by auto
  let ?k = "length (worker_ops (ol_worker op) pre)"
  have "map ol_worker_seq (worker_ops (ol_worker op) (pre @ op # map snd wl)) =
      [1..<Suc (length (worker_ops (ol_worker op) (pre @ op # map snd wl)))]"
    using Cons.prems(6) x by simp
  from arg_cong [where f = "\<lambda>xs. xs ! ?k", OF this]
  have seq: "ol_worker_seq op = Suc ?k"
    by (simp add: worker_ops_def nth_append del: upt_Suc)
  have "map ol_worker_seq (worker_ops (ol_worker op) pre) = [1..<Suc (cnt (fi_worker_ops info) (ol_worker op))]"
    using Cons.prems(1) by (simp add: scanned_def)
  from arg_cong [where f = length, OF this] have k: "?k = cnt (fi_worker_ops info) (ol_worker op)"
    by simp
  have it: "fi_iterations info \<le> OpIteration op"
    using Cons.prems(3) x by simp
  define info1 where "info1 = info\<lparr>fi_iterations := OpIteration op,
      fi_iteration_ops := bump (fi_iteration_ops info) (OpIteration op),
      fi_worker_ops := (fi_worker_ops info)(ol_worker op \<mapsto> ol_worker_seq op),
      fi_ops := fi_ops info + 1, fi_workers := max (fi_workers info) (ol_worker op)\<rparr>"
  have sc: "scan_op h info (Suc n) op = Ok info1"
    using seq k it lim by (auto simp: scan_op_def Let_def info1_def)
  have line: "scan_line h info (Suc n) (op_raw len [] op) = Ok info1"
    using sc wf Cons.prems(2) by (simp add: scan_line_def lineType_def raw_defs parseOp_Ok [THEN iffD2])
  have step: "scan_loop h None info n (op_raw len [] op # ls) = scan_loop h None info1 (Suc n) ls" for ls
    using line len by (subst scan_loop.simps) (simp add: raw_defs not_less [symmetric])
  have 1: "scanned h info1 (pre @ [op])"
    using scan_op_scanned [OF sc wf Cons.prems(1)] .
  have 2: "fi_trailer info1 = None"
    using Cons.prems(2) by (simp add: info1_def)
  have 3: "\<forall>o' \<in> set (map snd wl). fi_iterations info1 \<le> OpIteration o'"
    using Cons.prems(5) x by (auto simp: info1_def)
  have 4: "\<forall>(n, op) \<in> set wl. n \<le> MaxLineBytes \<and> op_wf op \<and> (h_iterations h > 0 \<longrightarrow> OpIteration op \<le> h_iterations h)"
    using Cons.prems(4) by simp
  have 5: "sorted (map (OpIteration \<circ> snd) wl)"
    using Cons.prems(5) x by (simp add: comp_def)
  have 6: "\<forall>w. map ol_worker_seq (worker_ops w ((pre @ [op]) @ map snd wl)) =
      [1..<Suc (length (worker_ops w ((pre @ [op]) @ map snd wl)))]"
    using Cons.prems(6) x by (simp del: worker_ops_append upt_Suc)
  from Cons.IH [OF 1 2 3 4 5 6, of "Suc n"] show ?case
    by (simp add: x step)
qed

lemma OpIteration_mono: "ol_iteration a \<le> ol_iteration b \<Longrightarrow> OpIteration a \<le> OpIteration b"
  by (simp add: OpIteration_def)

lemma sorted_OpIteration: "sorted (map ol_iteration ops) \<Longrightarrow> sorted (map OpIteration ops)"
  by (induction ops) (auto intro: OpIteration_mono)

lemma iter_inv_le:
  assumes "iter_inv cfg its s" and "op \<in> set (file_ops (r_lines (s_rec s)))"
  shows "ol_iteration op \<le> max 1 its"
proof -
  have "ol_iteration op \<le> (if rc_multi cfg then r_iteration (s_rec s) else 0)"
    using assms by (simp add: iter_inv_def Let_def)
  also have "\<dots> \<le> max 1 its"
    using assms(1) by (simp add: iter_inv_def Let_def)
  finally show ?thesis .
qed

lemma file_ops_raw: "file_ops (map (\<lambda>(n, op). op_raw n [] op) wl) = map snd wl"
  by (induction wl) (auto simp: file_ops_def op_raw_def)

text \<open>\<open>Close\<close> without an I/O error.\<close>

lemma Close_ok:
  assumes "r_broken r = None" and "co_trailer co (close_trailer co cfg r) = Ok n"
  shows "Close co cfg None None r = ((baseResult cfg r)\<lparr>rr_status := tr_status (close_trailer co cfg r),
      rr_reason := tr_reason (close_trailer co cfg r), rr_ops := tr_ops (close_trailer co cfg r),
      rr_bytes := r_bytes r + n, rr_commands_hash := tr_commands_hash (close_trailer co cfg r),
      rr_iterations := (if rc_multi cfg then r_last_iter_seen r else 0)\<rparr>,
    r\<lparr>r_lines := r_lines r @ [trailer_raw n [] (close_trailer co cfg r)], r_bytes := r_bytes r + n\<rparr>)"
  using assms by (simp add: Close_def Let_def writer_error_def)

lemma close_trailer_fields [simp]:
  "tr_ops (close_trailer co cfg r) = r_ops r"
  "tr_status (close_trailer co cfg r) = (if r_state r = StateRecording then StatusComplete else fst (rec_status r))"
  by (auto simp: close_trailer_def Let_def rec_status_def statuses split: rec_state.splits)

definition saved :: "rec_config \<Rightarrow> recorder \<Rightarrow> rec_file" where
  "saved cfg r = \<lparr>f_path = rc_path cfg, f_compression = rc_compression cfg, f_lines = r_lines r, f_end = None\<rparr>"

lemma scan_ops_trailer:
  assumes "scan_loop h None info n (map (\<lambda>(n, op). op_raw n [] op) wl @ [trailer_raw tlen [] t]) =
      scan_loop h None info' n' [trailer_raw tlen [] t]"
    and "scanned h info' (map snd wl)" and "fi_trailer info' = None" and "tlen \<le> MaxLineBytes"
    and "tr_ops t = length wl"
  shows "\<exists>mid. scan_loop h None info n (map (\<lambda>(n, op). op_raw n [] op) wl @ [trailer_raw tlen [] t]) = Ok mid \<and>
      (\<exists>fin. scan_finish mid = Ok fin \<and> fi_status fin = tr_status t \<and> fi_ops fin = length wl)"
proof -
  have "scan_loop h None info' n' [trailer_raw tlen [] t] = Ok (info'\<lparr>fi_trailer := Some t\<rparr>)"
    using assms(3,4)
    by (simp add: scan_loop.simps [of h None _ _ "[_]"] scan_loop.simps [of h None _ _ "[]"] scan_line_def
        lineType_def raw_defs LineTrailer_neq_LineOp)
  with assms show ?thesis
    by (simp add: scan_finish_def scanned_def)
qed

lemma file_scans:
  assumes new: "NewRecorder co ex io now path opts0 h0 = Ok (cfg, r0)"
    and reach: "rec_reach co cfg (h_iterations h0) r0 s"
    and close: "Close co cfg None None (s_rec s) = (res, r1)"
    and ok: "r_broken (s_rec s) = None" "co_trailer co (close_trailer co cfg (s_rec s)) = Ok tlen"
    and wf: "\<forall>op \<in> set (file_ops (r_lines r1)). op_wf op" "\<forall>l \<in> set (r_lines r1). rl_len l \<le> MaxLineBytes"
  shows "\<exists>info. Scan (saved cfg r1) = Ok info \<and> fi_status info = rr_status res \<and> fi_ops info = rr_ops res"
proof -
  let ?t = "close_trailer co cfg (s_rec s)"
  obtain opts h len where h: "h = record_header opts now h0"
    and r0: "r_lines r0 = [header_raw len (co_header_hash co h) h]"
    by (rule NewRecorder_Ok [OF new]) (simp add: empty_recorder_def)
  have inv: "recorder_inv cfg (h_iterations h0) r0 s"
    using recorder_inv_reach [OF new reach] .
  then obtain wl where wl: "r_lines (s_rec s) = r_lines r0 @ map (\<lambda>(n, op). op_raw n [] op) wl"
    by (auto simp: recorder_inv_def lines_inv_def Let_def)
  from close Close_ok [OF ok] have r1: "r_lines r1 = r_lines (s_rec s) @ [trailer_raw tlen [] ?t]"
    and res: "rr_status res = tr_status ?t" "rr_ops res = r_ops (s_rec s)"
    by auto
  have ops: "file_ops (r_lines (s_rec s)) = map snd wl"
    by (simp add: wl r0 file_ops_raw)
  have format: "h_format h = FormatVersion"
    by (simp add: h record_header_def Let_def)
  have rd: "readHeader None (r_lines r1) =
      Ok (h, co_header_hash co h, 1, map (\<lambda>(n, op). op_raw n [] op) wl @ [trailer_raw tlen [] ?t])"
    using wf(2) format by (simp add: readHeader_def r1 wl r0 lineType_def raw_defs not_less [symmetric])
  have seqs: "\<forall>w. map ol_worker_seq (worker_ops w ([] @ map snd wl)) = [1..<Suc (length (worker_ops w ([] @ map snd wl)))]"
    and n: "r_ops (s_rec s) = length wl"
    using inv ops by (simp_all add: recorder_inv_def seq_inv_def Let_def)
  have its: "sorted (map ol_iteration (map snd wl))"
    using inv ops by (simp add: recorder_inv_def iter_inv_def Let_def sorted_append)
  have lim: "\<forall>op \<in> set (map snd wl). ol_iteration op \<le> max 1 (h_iterations h0)"
    using inv unfolding ops [symmetric] recorder_inv_def by (blast intro: iter_inv_le)
  have hits: "h_iterations h > 0 \<Longrightarrow> h_iterations h = h_iterations h0 \<and> 1 < h_iterations h0"
    by (simp add: h record_header_def Let_def split: if_splits)
  have each: "\<forall>(n, op) \<in> set wl. n \<le> MaxLineBytes \<and> op_wf op \<and> (h_iterations h > 0 \<longrightarrow> OpIteration op \<le> h_iterations h)"
  proof (clarify, intro conjI impI)
    fix n op
    assume in_wl: "(n, op) \<in> set wl"
    then have "op_raw n [] op \<in> set (r_lines r1)"
      unfolding r1 wl by force
    with wf(2) have "rl_len (op_raw n [] op) \<le> MaxLineBytes" by blast
    then show "n \<le> MaxLineBytes" by (simp add: raw_defs)
    have "op \<in> set (map snd wl)"
      using in_wl by force
    with wf(1) ops show "op_wf op" by (auto simp: r1)
    assume "0 < h_iterations h"
    with hits lim \<open>op \<in> set (map snd wl)\<close> show "OpIteration op \<le> h_iterations h"
      by (fastforce simp: OpIteration_def)
  qed
  have "sorted (map (OpIteration \<circ> snd) wl)"
    using sorted_OpIteration [OF its] by simp
  then obtain info' n' where "scan_loop h None (scan_init (saved cfg r1) h (co_header_hash co h)) 1
        (map (\<lambda>(n, op). op_raw n [] op) wl @ [trailer_raw tlen [] ?t]) = scan_loop h None info' n' [trailer_raw tlen [] ?t]"
      and "scanned h info' (map snd wl)" and "fi_trailer info' = None"
    using scan_loop_ops [OF scanned_init _ _ each _ seqs] OpIteration_pos
    by (force simp: scan_init_def intro: order_trans [OF zero_le_one])
  moreover have "tlen \<le> MaxLineBytes"
    using wf(2) by (simp add: r1 raw_defs)
  moreover have "tr_ops ?t = length wl"
    by (simp add: close_trailer_def Let_def n split: prod.splits)
  ultimately obtain mid fin where "scan_loop h None (scan_init (saved cfg r1) h (co_header_hash co h)) 1
        (map (\<lambda>(n, op). op_raw n [] op) wl @ [trailer_raw tlen [] ?t]) = Ok mid"
      "scan_finish mid = Ok fin" "fi_status fin = tr_status ?t" "fi_ops fin = length wl"
    using scan_ops_trailer by blast
  then show ?thesis
    using rd by (simp add: Scan_def saved_def res n)
qed

text \<open>C13: the file a recorder leaves is one the scan accepts: after any run of the workers, with
  well-formed operations and lines within the reader's limit, \<open>Close\<close> without an I/O error leaves a
  file that scans with the status and the operation count \<open>Close\<close> reported.\<close>

theorem recorder_file_scans:
  assumes new: "NewRecorder co ex io now path opts0 h0 = Ok (cfg, r0)"
    and reach: "rec_reach co cfg (h_iterations h0) r0 s"
    and close: "Close co cfg None None (s_rec s) = (res, r1)"
    and ok: "r_broken (s_rec s) = None" "co_trailer co (close_trailer co cfg (s_rec s)) = Ok tlen"
    and wf: "\<forall>op \<in> set (file_ops (r_lines r1)). op_wf op" "\<forall>l \<in> set (r_lines r1). rl_len l \<le> MaxLineBytes"
  shows "\<exists>info. Scan (saved cfg r1) = Ok info \<and> fi_status info = rr_status res \<and> fi_ops info = rr_ops res"
  by (rule file_scans [OF assms])

text \<open>the bytes of a finished recording stay within \<open>workload_record_max_bytes\<close> when at least one
  operation was written and the trailer fits the reserve kept for it.\<close>

theorem recording_max_bytes:
  assumes new: "NewRecorder co ex io now path opts0 h0 = Ok (cfg, r0)"
    and reach: "rec_reach co cfg its r0 s"
    and close: "Close co cfg io' late (s_rec s) = (res, r1)"
    and max: "0 < rc_max_bytes cfg" and some: "0 < r_ops (s_rec s)"
    and reserve: "\<And>n. co_trailer co (close_trailer co cfg (s_rec s)) = Ok n \<Longrightarrow> int n \<le> rc_reserve cfg"
      "0 \<le> rc_reserve cfg"
  shows "int (sum_list (map rl_len (r_lines r1))) \<le> rc_max_bytes cfg \<and> rr_bytes res = sum_list (map rl_len (r_lines r1))"
proof -
  let ?t = "close_trailer co cfg (s_rec s)"
  obtain h len where r0: "r_lines r0 = [header_raw len (co_header_hash co h) h]" "r_bytes r0 = len"
    by (rule NewRecorder_Ok [OF new]) (simp add: empty_recorder_def)
  have inv: "recorder_inv cfg its r0 s"
    using recorder_inv_reach [OF new reach] .
  then obtain wl where wl: "r_lines (s_rec s) = r_lines r0 @ map (\<lambda>(n, op). op_raw n [] op) wl"
    by (auto simp: recorder_inv_def lines_inv_def Let_def)
  from inv some wl r0 have "r_lines (s_rec s) \<noteq> r_lines r0"
    by (auto simp: recorder_inv_def seq_inv_def Let_def)
  then have b: "int (r_bytes (s_rec s)) + rc_reserve cfg \<le> rc_max_bytes cfg"
    and sum: "r_bytes (s_rec s) = sum_list (map rl_len (r_lines (s_rec s)))"
    using inv max r0 wl by (auto simp: recorder_inv_def lines_inv_def Let_def raw_defs)
  show ?thesis
  proof (cases "co_trailer co ?t")
    case (Inl m)
    then have "r_lines r1 = r_lines (s_rec s)" "rr_bytes res = r_bytes (s_rec s)"
      using close by (auto simp: Close_def Let_def split: prod.splits)
    with b sum reserve(2) show ?thesis by simp
  next
    case (Inr n)
    then have "r_lines r1 = r_lines (s_rec s) \<and> rr_bytes res = r_bytes (s_rec s) \<or>
        r_lines r1 = r_lines (s_rec s) @ [trailer_raw n [] ?t] \<and> rr_bytes res = r_bytes (s_rec s) + n"
      using close by (auto simp: Close_def Let_def split: prod.splits option.splits)
    with b sum reserve(1) [OF Inr] show ?thesis
      by (auto simp: raw_defs)
  qed
qed

subsection \<open>A sample run\<close>

definition sample_codec :: codec where
  "sample_codec = \<lparr>co_extjson = (\<lambda>_. Ok [CHR 0x7B, CHR 0x7D]), co_op = (\<lambda>_. Ok 100), co_header = (\<lambda>_. Ok 300),
     co_header_hash = (\<lambda>_. ''hh''), co_trailer = (\<lambda>_. Ok 200), co_sha = (\<lambda>s. s)\<rparr>"

definition sample_options :: rec_options where
  "sample_options = \<lparr>op_max_bytes = 4000, op_queue_size = 0, op_backpressure = [], op_compression = []\<rparr>"

definition sample_entry :: entry where
  "sample_entry = \<lparr>en_worker = 1, en_offset = 2500, en_ns = ''db.c'', en_op = ''find'', en_path = [], en_ok = True,
     en_existing = False, en_query = None, en_shape = None, en_command = GMap [], en_outcome = None, en_flags = [],
     en_cmd = [], en_iteration = 0\<rparr>"

definition sample_sent :: entry where
  "sample_sent = sample_entry\<lparr>en_cmd := [CHR 0x7B, CHR 0x7D], en_command := GNil\<rparr>"

definition sample_cfg :: rec_config where
  "sample_cfg = \<lparr>rc_path = ''p'', rc_max_bytes = 4000, rc_reserve = 1424, rc_block = False, rc_multi = False,
     rc_compression = ''none'', rc_outcomes = False, rc_checksums = False, rc_queue_size = 65536\<rparr>"

definition sample_rec :: recorder where
  "sample_rec = empty_recorder\<lparr>r_lines := [header_raw 300 ''hh'' (record_header
     (sample_options\<lparr>op_queue_size := 65536, op_backpressure := ''fail'', op_compression := ''none''\<rparr>) ''now'' sample_header)],
     r_bytes := 300\<rparr>"

lemma sample_new: "NewRecorder sample_codec Absent None ''now'' ''p'' sample_options sample_header = Ok (sample_cfg, sample_rec)"
  by (simp add: NewRecorder_def normalize_options_def sample_options_def DefaultQueueSize_def ValidCompression_def
      CompressionNone_def checkOverwrite_def checkOverwriteOf_def sample_codec_def sample_rec_def sample_cfg_def
      rec_config_of_def record_header_def Let_def sample_header_def)

definition sample_final :: rsys where
  "sample_final = (init_rsys sample_rec)\<lparr>
     s_rec := write_entry sample_codec sample_cfg None sample_sent sample_rec,
     s_sent := (\<lambda>_. [])(1 := [Some (core sample_sent)])\<rparr>"

lemma sample_reach: "rec_reach sample_codec sample_cfg (h_iterations sample_header) sample_rec sample_final"
proof -
  let ?R = "rec_reach sample_codec sample_cfg (h_iterations sample_header) sample_rec"
  let ?i = "init_rsys sample_rec"
  let ?sent = "(\<lambda>_. [])(1 := [Some (core sample_sent)])"
  have "?R (?i\<lparr>s_rec := sample_rec, s_pending := (s_pending ?i)(1 := Some sample_sent),
      s_sent := (s_sent ?i)(1 := s_sent ?i 1 @ [map_option core (Some sample_sent)])\<rparr>)"
    by (rule rec_reach.step [OF rec_reach.init], rule rec_step.enter [where e = sample_entry])
      (simp_all add: init_rsys_def sample_entry_def sample_sent_def sample_rec_def sample_codec_def sample_cfg_def
        empty_recorder_def Record_prepare_def EncodeCommand_def)
  then have "?R (?i\<lparr>s_pending := (\<lambda>_. None)(1 := Some sample_sent), s_sent := ?sent\<rparr>)"
    by (simp add: init_rsys_def)
  from rec_reach.step [OF this rec_step.send [where w = 1 and e = sample_sent and r' = "enqueue sample_sent sample_rec"]]
  have "?R (?i\<lparr>s_rec := enqueue sample_sent sample_rec, s_sent := ?sent\<rparr>)"
    by (simp add: init_rsys_def Record_send_def queue_full_def sample_cfg_def sample_rec_def empty_recorder_def enqueue_def)
  from rec_reach.step [OF this rec_step.take [where e = sample_sent and q = "[]"]]
  have "?R (?i\<lparr>s_rec := sample_rec, s_cur := Some sample_sent, s_sent := ?sent\<rparr>)"
    by (simp add: init_rsys_def sample_rec_def empty_recorder_def enqueue_def Active_def)
  from rec_reach.step [OF this rec_step.put [where e = sample_sent and io = None]]
  show ?thesis
    by (simp add: init_rsys_def sample_final_def)
qed

lemma sample_written: "s_rec sample_final = write_commit sample_cfg 100 (entry_line 1 1 sample_sent) sample_sent
    (sample_rec\<lparr>r_seq := 1, r_worker_seq := [1 \<mapsto> 1]\<rparr>)"
  by (simp add: sample_final_def write_entry_def sample_codec_def sample_cfg_def sample_rec_def empty_recorder_def
      sample_sent_def sample_entry_def writer_error_def Let_def)

lemma sample_rec_fields: "r_lines sample_rec = [header_raw 300 ''hh'' (record_header
     (sample_options\<lparr>op_queue_size := 65536, op_backpressure := ''fail'', op_compression := ''none''\<rparr>) ''now'' sample_header)]"
    "r_broken sample_rec = None" "r_queue sample_rec = []" "r_state sample_rec = StateRecording"
    "r_ops sample_rec = 0"
  by (simp_all add: sample_rec_def empty_recorder_def)

theorem recording_keeps_prefix_witness:
  "s_sent sample_final 1 = map Some (in_file 1 (s_rec sample_final)) \<and> s_sent sample_final 1 \<noteq> []"
proof -
  have "quiescent sample_final" "r_state (s_rec sample_final) = StateRecording"
    by (simp_all add: quiescent_def sample_written sample_rec_fields) (simp_all add: sample_final_def init_rsys_def)
  then have "s_sent sample_final 1 = map Some (in_file 1 (s_rec sample_final))"
    using recording_keeps_prefix [OF sample_new sample_reach, of 1] by blast
  moreover have "s_sent sample_final 1 \<noteq> []"
    by (simp add: sample_final_def)
  ultimately show ?thesis by blast
qed

lemma sample_close: "\<exists>res r1. Close sample_codec sample_cfg None None (s_rec sample_final) = (res, r1) \<and> rr_ops res = 1 \<and>
    r_lines r1 = r_lines (s_rec sample_final) @ [trailer_raw 200 [] (close_trailer sample_codec sample_cfg (s_rec sample_final))]"
proof -
  have "r_broken (s_rec sample_final) = None" "r_ops (s_rec sample_final) = 1"
    by (simp_all add: sample_written sample_rec_fields)
  then show ?thesis
    using Close_ok [of "s_rec sample_final" sample_codec sample_cfg 200] by (simp add: sample_codec_def)
qed

theorem recorder_file_scans_witness:
  "\<exists>r1 info. Scan (saved sample_cfg r1) = Ok info \<and> fi_ops info = 1"
proof -
  from sample_close obtain res r1 where c: "Close sample_codec sample_cfg None None (s_rec sample_final) = (res, r1)"
      "rr_ops res = 1" and l: "r_lines r1 = r_lines (s_rec sample_final) @
        [trailer_raw 200 [] (close_trailer sample_codec sample_cfg (s_rec sample_final))]"
    by blast
  have "\<forall>op \<in> set (file_ops (r_lines r1)). op_wf op"
    by (simp add: l sample_written sample_rec_fields op_wf_def entry_line_def sample_sent_def sample_entry_def knownOps_def)
  moreover have "\<forall>x \<in> set (r_lines r1). rl_len x \<le> MaxLineBytes"
    by (simp add: l sample_written sample_rec_fields raw_defs MaxLineBytes_def)
  ultimately show ?thesis
    using recorder_file_scans [OF sample_new sample_reach c(1), of 200] c(2)
    by (auto simp: sample_written sample_rec_fields sample_codec_def)
qed

theorem recording_max_bytes_witness:
  "\<exists>r1 :: recorder. r_lines r1 \<noteq> [] \<and> int (sum_list (map rl_len (r_lines r1))) \<le> 4000"
proof -
  from sample_close obtain res r1 where c: "Close sample_codec sample_cfg None None (s_rec sample_final) = (res, r1)"
      and l: "r_lines r1 = r_lines (s_rec sample_final) @
        [trailer_raw 200 [] (close_trailer sample_codec sample_cfg (s_rec sample_final))]"
    by blast
  have "int (sum_list (map rl_len (r_lines r1))) \<le> rc_max_bytes sample_cfg"
    using recording_max_bytes [OF sample_new sample_reach c]
    by (simp add: sample_cfg_def sample_written sample_rec_fields sample_codec_def)
  moreover have "r_lines r1 \<noteq> []" by (simp add: l)
  moreover have "rc_max_bytes sample_cfg = 4000" by (simp add: sample_cfg_def)
  ultimately show ?thesis by (intro exI [of _ r1]) simp
qed

text \<open>a limit that leaves no room for the trailer is not kept: with a limit of 350 bytes and a
  header of 300, every operation is refused and the trailer still takes the file past the limit.\<close>

theorem max_bytes_exceeded:
  "\<exists>cfg r0 res r1. NewRecorder sample_codec Absent None ''now'' ''p'' (sample_options\<lparr>op_max_bytes := 350\<rparr>) sample_header = Ok (cfg, r0) \<and>
     rec_reach sample_codec cfg its r0 (init_rsys r0) \<and>
     Close sample_codec cfg None None (s_rec (init_rsys r0)) = (res, r1) \<and> rr_status res = StatusComplete \<and>
     rc_max_bytes cfg < int (sum_list (map rl_len (r_lines r1)))"
proof -
  let ?o = "sample_options\<lparr>op_max_bytes := 350\<rparr>"
  obtain cfg r0 where new: "NewRecorder sample_codec Absent None ''now'' ''p'' ?o sample_header = Ok (cfg, r0)"
      and cfg: "rc_max_bytes cfg = 350" and r0: "r_broken r0 = None" "r_state r0 = StateRecording"
      "sum_list (map rl_len (r_lines r0)) = 300"
    by (simp add: NewRecorder_def normalize_options_def sample_options_def DefaultQueueSize_def ValidCompression_def
      CompressionNone_def checkOverwrite_def checkOverwriteOf_def sample_codec_def
      rec_config_of_def record_header_def Let_def sample_header_def empty_recorder_def raw_defs)
  have "Close sample_codec cfg None None r0 = ((baseResult cfg r0)\<lparr>rr_status := StatusComplete,
      rr_reason := tr_reason (close_trailer sample_codec cfg r0), rr_ops := r_ops r0,
      rr_bytes := r_bytes r0 + 200, rr_commands_hash := tr_commands_hash (close_trailer sample_codec cfg r0),
      rr_iterations := (if rc_multi cfg then r_last_iter_seen r0 else 0)\<rparr>,
    r0\<lparr>r_lines := r_lines r0 @ [trailer_raw 200 [] (close_trailer sample_codec cfg r0)], r_bytes := r_bytes r0 + 200\<rparr>)"
    using r0 by (subst Close_ok [of _ _ _ 200]) (simp_all add: sample_codec_def)
  with new cfg r0 show ?thesis
    by (fastforce simp: raw_defs init_rsys_def intro: rec_reach.init [unfolded init_rsys_def])
qed

end
