(* ===== verification/Outcomes.thy ===== *)
theory Outcomes
  imports Recorder
begin

text \<open>
  Outcome files (\<open>internal/workloadrec/outcome.go\<close>): what every executed operation returned, written
  by \<open>OutcomeWriter\<close> while the workers run and read back by \<open>StreamOutcomes\<close>.

  The writer never drops a line: \<open>Write\<close> waits when the bounded queue is full. \<open>out_step\<close> is the
  relation of all interleavings of the workers with the writer goroutine; \<open>outcomes_complete\<close> shows
  that the closed file gives every worker's lines back, all of them and in order. Taking a line from
  the queue and writing it is one step: only the writer goroutine reads or writes the file.

  Parameters: \<open>out_codec\<close> holds the JSON lengths of the lines (or the error of the encoder).
\<close>

subsection \<open>State\<close>

definition OutcomeFormatVersion :: string where "OutcomeFormatVersion = ''plgm-workload-outcomes/1''"
definition OutcomeSourceReplay :: string where "OutcomeSourceReplay = ''replay''"
definition OutcomeSourceDeterministic :: string where "OutcomeSourceDeterministic = ''deterministic''"

record out_codec =
  ou_header :: "outcome_header \<Rightarrow> nat res"
  ou_line :: "outcome_line \<Rightarrow> nat res"
  ou_trailer :: "outcome_trailer \<Rightarrow> nat res"

record outcome_result =
  or_path :: string
  or_status :: string
  or_reason :: string
  or_ops :: nat
  or_bytes :: nat
  or_waits :: nat
  or_wait_total :: int
  or_wait_max :: int

record outcome_writer =
  ow_path :: string
  ow_queue :: "outcome_line list"
  ow_ops :: nat
  ow_bytes :: nat
  ow_failed :: bool
  ow_reason :: string
  ow_waits :: nat
  ow_wait_total :: int
  ow_wait_max :: int
  ow_lines :: "raw_line list"
  ow_broken :: "string option"   \<comment> \<open>the sticky error of \<open>bufio.Writer\<close>\<close>

definition outcome_header_raw :: "nat \<Rightarrow> outcome_header \<Rightarrow> raw_line" where
  "outcome_header_raw len h = (plain_line len [])\<lparr>rl_prefix := PrefixOutcomeHeader,
     rl_type := Ok ''outcome_header'', rl_outcome_header := Ok h\<rparr>"

definition outcome_raw :: "nat \<Rightarrow> outcome_line \<Rightarrow> raw_line" where
  "outcome_raw len l = (plain_line len [])\<lparr>rl_prefix := PrefixOutcome, rl_type := Ok ''outcome'', rl_outcome := Ok l\<rparr>"

definition outcome_trailer_raw :: "nat \<Rightarrow> outcome_trailer \<Rightarrow> raw_line" where
  "outcome_trailer_raw len t = (plain_line len [])\<lparr>rl_prefix := PrefixOutcomeTrailer,
     rl_type := Ok ''outcome_trailer'', rl_outcome_trailer := Ok t\<rparr>"

lemmas outcome_raw_defs = outcome_header_raw_def outcome_raw_def outcome_trailer_raw_def plain_line_def

subsection \<open>Writing\<close>

text \<open>\<open>writeLine\<close>: the encoder's length and the raw line, or the error; the write error sticks.\<close>

definition out_writeLine :: "nat res \<Rightarrow> (nat \<Rightarrow> raw_line) \<Rightarrow> string option \<Rightarrow> outcome_writer \<Rightarrow> string option \<times> outcome_writer" where
  "out_writeLine enc mk io w =
     (case enc of
        Inl m \<Rightarrow> (Some m, w)
      | Inr len \<Rightarrow>
         (case (if ow_broken w = None then io else ow_broken w) of
            Some m \<Rightarrow> (Some m, w\<lparr>ow_broken := Some m\<rparr>)
          | None \<Rightarrow> (None, w\<lparr>ow_lines := ow_lines w @ [mk len], ow_bytes := ow_bytes w + len\<rparr>)))"

definition NewOutcomeWriter ::
    "out_codec \<Rightarrow> existing \<Rightarrow> string option \<Rightarrow> string \<Rightarrow> string \<Rightarrow> outcome_header \<Rightarrow> outcome_writer res" where
  "NewOutcomeWriter co ex io now path h0 =
     res_bind (checkOverwriteOf ex path PrefixOutcomeHeader ''workload outcome file'') (\<lambda>_.
       (let h1 = h0\<lparr>oh_format := OutcomeFormatVersion\<rparr>;
            h = (if oh_created_at h1 = [] then h1\<lparr>oh_created_at := now\<rparr> else h1);
            w = \<lparr>ow_path = path, ow_queue = [], ow_ops = 0, ow_bytes = 0, ow_failed = False, ow_reason = [],
                  ow_waits = 0, ow_wait_total = 0, ow_wait_max = 0, ow_lines = [], ow_broken = None\<rparr> in
        case out_writeLine (ou_header co h) (\<lambda>len. outcome_header_raw len h) io w of
          (Some m, _) \<Rightarrow> Err (''write workload outcome header: '' @ m)
        | (None, w') \<Rightarrow> Ok w'))"

text \<open>\<open>Write\<close>: the send that does not block, and the send after a wait of \<open>d\<close> nanoseconds.\<close>

definition Write_try :: "outcome_line \<Rightarrow> outcome_writer \<Rightarrow> bool \<times> outcome_writer" where
  "Write_try l w = (if length (ow_queue w) < DefaultQueueSize
     then (True, w\<lparr>ow_queue := ow_queue w @ [l]\<rparr>) else (False, w))"

definition Write_waited :: "int \<Rightarrow> outcome_line \<Rightarrow> outcome_writer \<Rightarrow> outcome_writer" where
  "Write_waited d l w = w\<lparr>ow_queue := ow_queue w @ [l], ow_waits := ow_waits w + 1,
     ow_wait_total := ow_wait_total w + d,
     ow_wait_max := (if d \<le> ow_wait_max w then ow_wait_max w else d)\<rparr>"

definition out_fail :: "string \<Rightarrow> outcome_writer \<Rightarrow> outcome_writer" where
  "out_fail reason w = (if ow_failed w then w else w\<lparr>ow_failed := True, ow_reason := reason\<rparr>)"

text \<open>One turn of the writer goroutine's loop.\<close>

definition run_take :: "out_codec \<Rightarrow> string option \<Rightarrow> outcome_line \<Rightarrow> outcome_line list \<Rightarrow> outcome_writer \<Rightarrow> outcome_writer" where
  "run_take co io l q w =
     (let w1 = w\<lparr>ow_queue := q\<rparr> in
      if ow_failed w1 then w1
      else case out_writeLine (ou_line co l) (\<lambda>len. outcome_raw len l) io w1 of
         (Some m, w2) \<Rightarrow> out_fail (''write_error: '' @ m) w2
       | (None, w2) \<Rightarrow> w2\<lparr>ow_ops := ow_ops w2 + 1\<rparr>)"

definition out_baseResult :: "outcome_writer \<Rightarrow> outcome_result" where
  "out_baseResult w = \<lparr>or_path = ow_path w, or_status = [], or_reason = [], or_ops = ow_ops w,
     or_bytes = ow_bytes w, or_waits = ow_waits w, or_wait_total = ow_wait_total w, or_wait_max = ow_wait_max w\<rparr>"

definition out_Snapshot :: "outcome_writer \<Rightarrow> outcome_result" where
  "out_Snapshot w = (let res = (out_baseResult w)\<lparr>or_status := StatusRecording\<rparr> in
     if ow_failed w then res\<lparr>or_status := StatusFailed, or_reason := ow_reason w\<rparr> else res)"

text \<open>\<open>Close\<close>, once the queue is drained; \<open>io\<close> is the error of writing the trailer, \<open>late\<close> the one of
  flushing, syncing or closing the file, if there is one.\<close>

definition out_close_trailer :: "outcome_writer \<Rightarrow> outcome_trailer \<Rightarrow> string \<Rightarrow> string \<Rightarrow> outcome_trailer" where
  "out_close_trailer w t status reason =
     (let (status', reason') = (if ow_failed w then (StatusFailed, ow_reason w) else (status, reason))
      in t\<lparr>ut_status := status', ut_reason := reason', ut_ops := ow_ops w, ut_waits := ow_waits w,
           ut_wait_total_us := go_div (ow_wait_total w) 1000, ut_wait_max_us := go_div (ow_wait_max w) 1000\<rparr>)"

definition out_Close ::
    "out_codec \<Rightarrow> string option \<Rightarrow> string option \<Rightarrow> outcome_trailer \<Rightarrow> string \<Rightarrow> string \<Rightarrow> outcome_writer \<Rightarrow> outcome_result \<times> outcome_writer" where
  "out_Close co io late t0 status reason w =
     (let t = out_close_trailer w t0 status reason;
          (werr, w1) = out_writeLine (ou_trailer co t) (\<lambda>len. outcome_trailer_raw len t) io w;
          err = (if werr = None then late else werr);
          (st, rs) = (case err of
              Some m \<Rightarrow> if ut_status t \<noteq> StatusFailed then (StatusFailed, ''write_error: '' @ m)
                       else (ut_status t, ut_reason t)
            | None \<Rightarrow> (ut_status t, ut_reason t))
      in ((out_baseResult w)\<lparr>or_status := st, or_reason := rs, or_bytes := ow_bytes w1\<rparr>, w1))"

subsection \<open>Reading\<close>

definition readOutcomeHeader :: "string option \<Rightarrow> raw_line list \<Rightarrow> (outcome_header \<times> nat \<times> raw_line list) res" where
  "readOutcomeHeader e ls =
     (case next_line e 0 ls of
        (NextEof, _, _) \<Rightarrow> Err ''workload outcome file is empty''
      | (NextErr m, _, _) \<Rightarrow> Err m
      | (NextLine l, n, rest) \<Rightarrow>
         (if rl_prefix l \<noteq> PrefixOutcomeHeader
          then Err ''workload outcome file does not start with an outcome header line''
          else (case rl_outcome_header l of
             Inl m \<Rightarrow> Err (''workload outcome header: '' @ m)
           | Inr h \<Rightarrow>
              (if oh_format h \<noteq> OutcomeFormatVersion then
                 Err (''unsupported workload outcome format '' @ go_quote (oh_format h) @
                      '' (expected '' @ go_quote OutcomeFormatVersion @ '')'')
               else Ok (h, n, rest)))))"

definition ReadOutcomeHeader :: "rec_file \<Rightarrow> outcome_header res" where
  "ReadOutcomeHeader f = res_bind (readOutcomeHeader (f_end f) (f_lines f)) (\<lambda>(h, _). Ok h)"

function (sequential) outcomes_loop ::
    "string option \<Rightarrow> ('s \<Rightarrow> outcome_line \<Rightarrow> 's res) \<Rightarrow> 's \<Rightarrow> outcome_trailer option \<Rightarrow> nat \<Rightarrow> raw_line list \<Rightarrow>
       (outcome_trailer option \<times> 's) res" where
  "outcomes_loop e fn s tr n ls =
     (case next_line e n ls of
        (NextEof, _, _) \<Rightarrow> Ok (tr, s)
      | (NextErr m, _, _) \<Rightarrow> Err m
      | (NextLine l, n', ls') \<Rightarrow>
         (if tr \<noteq> None then Err (at_line n' ''data after the trailer'')
          else (case rl_prefix l of
             PrefixOutcome \<Rightarrow>
               (case rl_outcome l of
                  Inl m \<Rightarrow> Err (at_line n' m)
                | Inr ol \<Rightarrow> (case fn s ol of Inl m \<Rightarrow> Err m | Inr s' \<Rightarrow> outcomes_loop e fn s' tr n' ls'))
           | PrefixOutcomeTrailer \<Rightarrow>
               (case rl_outcome_trailer l of
                  Inl m \<Rightarrow> Err (at_line n' (''trailer: '' @ m))
                | Inr t \<Rightarrow> outcomes_loop e fn s (Some t) n' ls')
           | _ \<Rightarrow> Err (at_line n' ''unexpected line in a workload outcome file''))))"
  by pat_completeness auto
termination
  by (relation "measure (\<lambda>(e, fn, s, tr, n, ls). length ls)") (auto dest: next_line_shorter [OF sym])

declare outcomes_loop.simps [simp del]

definition StreamOutcomes ::
    "rec_file \<Rightarrow> ('s \<Rightarrow> outcome_line \<Rightarrow> 's res) \<Rightarrow> 's \<Rightarrow> (outcome_header \<times> outcome_trailer option \<times> 's) res" where
  "StreamOutcomes f fn s = res_bind (readOutcomeHeader (f_end f) (f_lines f)) (\<lambda>(h, n, ls).
     res_bind (outcomes_loop (f_end f) fn s None n ls) (\<lambda>(tr, s'). Ok (h, tr, s')))"

text \<open>The lines of a file, and its trailer: what \<open>StreamOutcomes\<close> hands to a callback that keeps
  them all.\<close>

definition outcome_lines :: "rec_file \<Rightarrow> (outcome_trailer option \<times> outcome_line list) res" where
  "outcome_lines f = res_bind (StreamOutcomes f (\<lambda>acc l. Ok (acc @ [l])) []) (\<lambda>(_, tr, ls). Ok (tr, ls))"

lemma outcomes_loop_pure:
  "outcomes_loop e (\<lambda>s i. Ok (g s i)) (foldl g s acc) tr n ls =
     res_map (\<lambda>(tr, xs). (tr, foldl g s xs)) (outcomes_loop e (\<lambda>acc l. Ok (acc @ [l])) acc tr n ls)"
proof (induction ls arbitrary: acc tr n rule: length_induct)
  case (1 ls)
  obtain r n' ls' where nx: "next_line e n ls = (r, n', ls')"
    by (cases "next_line e n ls")
  show ?case
  proof (cases r)
    case (NextLine l)
    with nx have "length ls' < length ls" by (auto dest: next_line_shorter)
    with 1 have IH: "outcomes_loop e (\<lambda>s i. Ok (g s i)) (foldl g s acc') tr' n' ls' =
        res_map (\<lambda>(tr, xs). (tr, foldl g s xs)) (outcomes_loop e (\<lambda>acc l. Ok (acc @ [l])) acc' tr' n' ls')" for acc' tr'
      by blast
    show ?thesis
      using IH [of acc] IH [of "acc @ [_]"] nx NextLine
      by (simp add: outcomes_loop.simps [of e _ _ tr n ls] split: sum.splits line_prefix.splits)
  qed (simp_all add: outcomes_loop.simps [of e _ _ tr n ls] nx)
qed

interpretation out_stream: op_stream
  "\<lambda>f fn s. res_map (\<lambda>(h, tr, s'). ((h, tr), s')) (StreamOutcomes f fn s)"
  "\<lambda>f. res_map (\<lambda>(h, tr, ls). ((h, tr), ls)) (StreamOutcomes f (\<lambda>acc l. Ok (acc @ [l])) [])"
proof
  fix f and g :: "'b \<Rightarrow> outcome_line \<Rightarrow> 'b" and s
  show "res_map (\<lambda>(h, tr, s'). ((h, tr), s')) (StreamOutcomes f (\<lambda>s i. Ok (g s i)) s) =
      res_map (\<lambda>(r, xs). (r, foldl g s xs))
        (res_map (\<lambda>(h, tr, ls). ((h, tr), ls)) (StreamOutcomes f (\<lambda>acc l. Ok (acc @ [l])) []))"
  proof (cases "readOutcomeHeader (f_end f) (f_lines f)")
    case (Inr x)
    then obtain h n ls where "readOutcomeHeader (f_end f) (f_lines f) = Ok (h, n, ls)" by (cases x) auto
    with outcomes_loop_pure [of "f_end f" g s "[]" None n ls] show ?thesis
      by (cases "outcomes_loop (f_end f) (\<lambda>acc l. Ok (acc @ [l])) [] None n ls") (auto simp: StreamOutcomes_def)
  qed (simp add: StreamOutcomes_def)
qed

subsection \<open>The interleavings\<close>

text \<open>\<open>o_pending\<close> is the line of a worker that waits in \<open>Write\<close>; \<open>o_sent\<close> is a ghost: the lines each
  worker has handed to \<open>Write\<close>, in its order.\<close>

record osys =
  o_writer :: outcome_writer
  o_pending :: "int \<Rightarrow> outcome_line option"
  o_sent :: "int \<Rightarrow> outcome_line list"

definition init_osys :: "outcome_writer \<Rightarrow> osys" where
  "init_osys w = \<lparr>o_writer = w, o_pending = (\<lambda>_. None), o_sent = (\<lambda>_. [])\<rparr>"

inductive out_step :: "out_codec \<Rightarrow> osys \<Rightarrow> osys \<Rightarrow> bool" for co :: out_codec where
  sent: "o_pending s k = None \<Longrightarrow> ul_worker l = k \<Longrightarrow> Write_try l (o_writer s) = (True, w') \<Longrightarrow>
    out_step co s (s\<lparr>o_writer := w', o_sent := (o_sent s)(k := o_sent s k @ [l])\<rparr>)"
| waits: "o_pending s k = None \<Longrightarrow> ul_worker l = k \<Longrightarrow> Write_try l (o_writer s) = (False, w') \<Longrightarrow>
    out_step co s (s\<lparr>o_writer := w', o_pending := (o_pending s)(k \<mapsto> l), o_sent := (o_sent s)(k := o_sent s k @ [l])\<rparr>)"
| resumes: "o_pending s k = Some l \<Longrightarrow> length (ow_queue (o_writer s)) < DefaultQueueSize \<Longrightarrow>
    out_step co s (s\<lparr>o_writer := Write_waited d l (o_writer s), o_pending := (o_pending s)(k := None)\<rparr>)"
| takes: "ow_queue (o_writer s) = l # q \<Longrightarrow>
    out_step co s (s\<lparr>o_writer := run_take co io l q (o_writer s)\<rparr>)"

inductive out_reach :: "out_codec \<Rightarrow> outcome_writer \<Rightarrow> osys \<Rightarrow> bool"
  for co :: out_codec and w0 :: outcome_writer where
  init: "out_reach co w0 (init_osys w0)"
| step: "out_reach co w0 s \<Longrightarrow> out_step co s t \<Longrightarrow> out_reach co w0 t"

declare out_step.intros [step_intros] out_reach.intros [step_intros]

inductive_cases out_step_cases: "out_step co s t"

subsection \<open>The invariant\<close>

definition by_worker :: "int \<Rightarrow> outcome_line list \<Rightarrow> outcome_line list" where
  "by_worker k ls = filter (\<lambda>l. ul_worker l = k) ls"

lemma by_worker_simps [simp]:
  "by_worker k [] = []" "by_worker k (xs @ ys) = by_worker k xs @ by_worker k ys"
  "by_worker k (l # ls) = (if ul_worker l = k then l # by_worker k ls else by_worker k ls)"
  by (simp_all add: by_worker_def)

text \<open>The lines already written, with their lengths.\<close>

definition out_inv :: "outcome_writer \<Rightarrow> osys \<Rightarrow> bool" where
  "out_inv w0 s \<longleftrightarrow>
     (\<exists>wl. ow_lines (o_writer s) = ow_lines w0 @ map (\<lambda>(n, l). outcome_raw n l) wl \<and>
        ow_ops (o_writer s) = length wl \<and>
        (\<forall>k l. o_pending s k = Some l \<longrightarrow> ul_worker l = k) \<and>
        (\<forall>k. prefix (by_worker k (map snd wl)) (o_sent s k)) \<and>
        (\<not> ow_failed (o_writer s) \<longrightarrow>
           (\<forall>k. o_sent s k = by_worker k (map snd wl) @ by_worker k (ow_queue (o_writer s)) @
              (case o_pending s k of None \<Rightarrow> [] | Some l \<Rightarrow> [l]))))"

lemma out_inv_init: "ow_queue w0 = [] \<Longrightarrow> ow_ops w0 = 0 \<Longrightarrow> out_inv w0 (init_osys w0)"
  by (auto simp: out_inv_def init_osys_def intro: exI [of _ "[]"])

lemma run_take_fails:
  assumes "\<not> (\<not> ow_failed w \<and> ow_broken w = None \<and> io = None \<and> (\<exists>len. ou_line co l = Ok len))"
  shows "ow_lines (run_take co io l q w) = ow_lines w" and "ow_ops (run_take co io l q w) = ow_ops w"
    and "ow_failed (run_take co io l q w)"
  using assms
  by (auto simp: run_take_def out_writeLine_def out_fail_def Let_def split: sum.splits option.splits)

lemma run_take_writes:
  assumes "\<not> ow_failed w" "ow_broken w = None" "ou_line co l = Ok len"
  shows "run_take co None l q w = w\<lparr>ow_queue := q, ow_lines := ow_lines w @ [outcome_raw len l],
    ow_bytes := ow_bytes w + len, ow_ops := ow_ops w + 1\<rparr>"
  using assms by (simp add: run_take_def out_writeLine_def Let_def)

lemma out_inv_takes:
  assumes q: "ow_queue (o_writer s) = l # q" and inv: "out_inv w0 s"
  shows "out_inv w0 (s\<lparr>o_writer := run_take co io l q (o_writer s)\<rparr>)"
proof -
  from inv obtain wl where wl: "ow_lines (o_writer s) = ow_lines w0 @ map (\<lambda>(n, l). outcome_raw n l) wl"
      "ow_ops (o_writer s) = length wl" "\<forall>k l. o_pending s k = Some l \<longrightarrow> ul_worker l = k"
      "\<forall>k. prefix (by_worker k (map snd wl)) (o_sent s k)"
    and live: "\<not> ow_failed (o_writer s) \<Longrightarrow> o_sent s k = by_worker k (map snd wl) @ by_worker k (l # q) @
        (case o_pending s k of None \<Rightarrow> [] | Some l \<Rightarrow> [l])" for k
    unfolding out_inv_def by (auto simp: q)
  show ?thesis
  proof (cases "\<not> ow_failed (o_writer s) \<and> ow_broken (o_writer s) = None \<and> io = None \<and> (\<exists>len. ou_line co l = Ok len)")
    case True
    then obtain len where len: "ou_line co l = Ok len" by blast
    have pre: "prefix (by_worker k (map snd wl) @ (if ul_worker l = k then [l] else [])) (o_sent s k)" for k
      using live [of k] True by simp
    show ?thesis
      unfolding out_inv_def
      by (rule exI [of _ "wl @ [(len, l)]"])
        (use True len wl pre live in \<open>auto simp: run_take_writes split: if_splits\<close>)
  next
    case False
    then show ?thesis
      unfolding out_inv_def using wl
      by (intro exI [of _ wl]) (auto simp: run_take_fails [OF False])
  qed
qed

lemma out_inv_step: "out_step co s t \<Longrightarrow> out_inv w0 s \<Longrightarrow> out_inv w0 t"
proof (induction rule: out_step.induct)
  case (sent s k l w')
  then have w': "w' = (o_writer s)\<lparr>ow_queue := ow_queue (o_writer s) @ [l]\<rparr>"
    by (simp add: Write_try_def split: if_splits)
  from sent(4) show ?case
    unfolding out_inv_def
    by (elim exE, rule_tac x = wl in exI) (use sent(1,2) w' in \<open>auto intro: prefix_prefix\<close>)
next
  case (waits s k l w')
  then have w': "w' = o_writer s"
    by (simp add: Write_try_def split: if_splits)
  from waits(4) show ?case
    unfolding out_inv_def
    by (elim exE, rule_tac x = wl in exI) (use waits(1,2) w' in \<open>auto intro: prefix_prefix\<close>)
next
  case (resumes s k l d)
  then have "ul_worker l = k" by (auto simp: out_inv_def)
  from resumes(3) show ?case
    unfolding out_inv_def
    by (elim exE, rule_tac x = wl in exI) (use resumes(1) \<open>ul_worker l = k\<close> in \<open>auto simp: Write_waited_def\<close>)
next
  case (takes s l q io)
  then show ?case by (rule out_inv_takes)
qed

lemma NewOutcomeWriter_Ok:
  assumes "NewOutcomeWriter co ex io now path h0 = Ok w"
  obtains h len where "ow_lines w = [outcome_header_raw len h]" "oh_format h = OutcomeFormatVersion"
    "ow_queue w = []" "ow_ops w = 0" "\<not> ow_failed w" "ow_broken w = None"
  using assms
  by (auto simp: NewOutcomeWriter_def res_bind_Ok Let_def out_writeLine_def split: sum.splits option.splits)

lemma out_inv_reach:
  assumes "NewOutcomeWriter co ex io now path h0 = Ok w0" and "out_reach co w0 s"
  shows "out_inv w0 s"
proof -
  from assms(1) have "ow_queue w0 = []" "ow_ops w0 = 0"
    by (auto elim!: NewOutcomeWriter_Ok)
  from assms(2) show ?thesis
    by (induction rule: out_reach.induct) (auto intro: out_inv_init out_inv_step \<open>ow_queue w0 = []\<close> \<open>ow_ops w0 = 0\<close>)
qed

subsection \<open>The file gives back what was written\<close>

definition out_saved :: "outcome_writer \<Rightarrow> rec_file" where
  "out_saved w = \<lparr>f_path = ow_path w, f_compression = CompressionNone, f_lines = ow_lines w, f_end = None\<rparr>"

lemma outcomes_loop_outcome:
  "m \<le> MaxLineBytes \<Longrightarrow> outcomes_loop e fn s None n (outcome_raw m l # ls) =
     (case fn s l of Inl err \<Rightarrow> Err err | Inr s' \<Rightarrow> outcomes_loop e fn s' None (Suc n) ls)"
  by (subst outcomes_loop.simps) (simp add: outcome_raw_defs)

lemma outcomes_loop_trailer:
  "m \<le> MaxLineBytes \<Longrightarrow> outcomes_loop None fn s None n [outcome_trailer_raw m t] = Ok (Some t, s)"
  by (subst outcomes_loop.simps) (simp add: outcome_raw_defs outcomes_loop.simps [of None fn s "Some t" "Suc n" "[]"])

lemma outcomes_loop_lines:
  "\<forall>(m, l) \<in> set wl. m \<le> MaxLineBytes \<Longrightarrow>
   outcomes_loop e (\<lambda>acc l. Ok (acc @ [l])) acc None n (map (\<lambda>(m, l). outcome_raw m l) wl @ rest) =
   outcomes_loop e (\<lambda>acc l. Ok (acc @ [l])) (acc @ map snd wl) None (n + length wl) rest"
  by (induction wl arbitrary: acc n) (auto simp: outcomes_loop_outcome)

text \<open>C6: once the workers have left \<open>Write\<close> and the queue is drained, the closed file gives every
  worker's outcomes back, all of them and in the order it wrote them, unless the file failed; if it
  did, a prefix of them, and the trailer says failed.\<close>

theorem outcomes_complete:
  assumes new: "NewOutcomeWriter co ex io now path h0 = Ok w0" and reach: "out_reach co w0 s"
    and drained: "ow_queue (o_writer s) = []" "\<forall>k. o_pending s k = None"
    and close: "out_Close co None None t0 status reason (o_writer s) = (res, w1)" "ow_broken (o_writer s) = None"
      "ou_trailer co (out_close_trailer (o_writer s) t0 status reason) = Ok tlen"
    and len: "\<forall>l \<in> set (ow_lines w1). rl_len l \<le> MaxLineBytes"
  shows "\<exists>ls t. outcome_lines (out_saved w1) = Ok (Some t, ls) \<and> ut_ops t = length ls \<and>
     ut_status t = or_status res \<and>
     (\<forall>k. prefix (by_worker k ls) (o_sent s k)) \<and>
     (if ow_failed (o_writer s) then or_status res = StatusFailed
      else or_status res = status \<and> (\<forall>k. by_worker k ls = o_sent s k))"
proof -
  let ?w = "o_writer s" and ?t = "out_close_trailer (o_writer s) t0 status reason"
  obtain h hlen where h: "ow_lines w0 = [outcome_header_raw hlen h]" "oh_format h = OutcomeFormatVersion"
    using NewOutcomeWriter_Ok [OF new] by metis
  from out_inv_reach [OF new reach] obtain wl where wl:
      "ow_lines ?w = ow_lines w0 @ map (\<lambda>(n, l). outcome_raw n l) wl" "ow_ops ?w = length wl"
      "\<forall>k. prefix (by_worker k (map snd wl)) (o_sent s k)"
      "\<not> ow_failed ?w \<longrightarrow> (\<forall>k. o_sent s k = by_worker k (map snd wl))"
    unfolding out_inv_def by (auto simp: drained)
  from close have w1: "w1 = ?w\<lparr>ow_lines := ow_lines ?w @ [outcome_trailer_raw tlen ?t], ow_bytes := ow_bytes ?w + tlen\<rparr>"
    and res: "or_status res = ut_status ?t"
    by (auto simp: out_Close_def out_writeLine_def Let_def)
  have lens: "hlen \<le> MaxLineBytes" "tlen \<le> MaxLineBytes" "\<forall>(m, l) \<in> set wl. m \<le> MaxLineBytes"
    using len by (auto simp: w1 wl h outcome_raw_defs)
  have "outcome_lines (out_saved w1) = Ok (Some ?t, map snd wl)"
    using h(2) lens
    by (simp add: outcome_lines_def StreamOutcomes_def readOutcomeHeader_def out_saved_def w1 wl(1) h(1)
        outcome_header_raw_def plain_line_def outcomes_loop_lines outcomes_loop_trailer not_less)
  then show ?thesis
    using wl(2,3,4) res by (auto simp: out_close_trailer_def Let_def)
qed

subsection \<open>A sample outcome file\<close>

definition sample_out_codec :: out_codec where
  "sample_out_codec = \<lparr>ou_header = (\<lambda>_. Ok 50), ou_line = (\<lambda>_. Ok 80), ou_trailer = (\<lambda>_. Ok 40)\<rparr>"

definition sample_out_header :: outcome_header where
  "sample_out_header = \<lparr>oh_format = OutcomeFormatVersion, oh_source = OutcomeSourceReplay, oh_plgm_version = ''1'',
     oh_created_at = ''now'', oh_server_version = [], oh_topology = [], oh_workers = 1, oh_result_checksums = False,
     oh_recording_file = ''r.ndjson'', oh_recording_header_hash = ''hh'', oh_collections_hash = [], oh_queries_hash = [],
     oh_random_seed = 0, oh_operations_per_worker = 0, oh_ops_filter = [], oh_target = []\<rparr>"

definition sample_outcome :: "int \<Rightarrow> int \<Rightarrow> outcome" where
  "sample_outcome us n = \<lparr>oc_latencyUS = us, oc_ok = True, oc_errorCode = 0, oc_errorName = [],
     oc_returned = Some n, oc_checksum = [], oc_inserted = None, oc_matched = None, oc_modified = None,
     oc_upserted = None, oc_deleted = None, oc_transaction = []\<rparr>"

definition sample_out_line :: "nat \<Rightarrow> outcome_line" where
  "sample_out_line n = \<lparr>ul_seq = n, ul_worker = 1, ul_worker_seq = n, ul_iteration = 0, ul_ns = ''db.c'',
     ul_op = ''find'', ul_shape = ''find|a'', ul_outcome = sample_outcome 1500 (int n)\<rparr>"

definition sample_out_trailer :: outcome_trailer where
  "sample_out_trailer = \<lparr>ut_status = [], ut_reason = [], ut_ops = 0, ut_commands_hash = [],
     ut_traffic_fingerprint = [], ut_traffic_status = [], ut_waits = 0, ut_wait_total_us = 0, ut_wait_max_us = 0\<rparr>"

definition sample_out_writer :: "raw_line list \<Rightarrow> outcome_line list \<Rightarrow> nat \<Rightarrow> outcome_writer" where
  "sample_out_writer ls q n = \<lparr>ow_path = ''o'', ow_queue = q, ow_ops = n, ow_bytes = 50 + 80 * n, ow_failed = False,
     ow_reason = [], ow_waits = 0, ow_wait_total = 0, ow_wait_max = 0,
     ow_lines = outcome_header_raw 50 sample_out_header # ls, ow_broken = None\<rparr>"

lemmas sample_out_defs = sample_out_codec_def sample_out_writer_def

lemma sample_out_new:
  "NewOutcomeWriter sample_out_codec Absent None ''now'' ''o'' sample_out_header = Ok (sample_out_writer [] [] 0)"
  by (simp add: NewOutcomeWriter_def checkOverwriteOf_def sample_out_header_def out_writeLine_def sample_out_defs)

definition sample_out_final :: osys where
  "sample_out_final = \<lparr>o_writer = sample_out_writer [outcome_raw 80 (sample_out_line 1)] [] 1,
     o_pending = (\<lambda>_. None), o_sent = (\<lambda>_. [])(1 := [sample_out_line 1])\<rparr>"

lemma sample_out_reach: "out_reach sample_out_codec (sample_out_writer [] [] 0) sample_out_final"
proof -
  let ?co = sample_out_codec and ?w0 = "sample_out_writer [] [] 0" and ?l = "sample_out_line 1"
  let ?s1 = "(init_osys ?w0)\<lparr>o_writer := sample_out_writer [] [?l] 0, o_sent := (\<lambda>_. [])(1 := [?l])\<rparr>"
  have "out_step ?co (init_osys ?w0) ((init_osys ?w0)\<lparr>o_writer := sample_out_writer [] [?l] 0,
      o_sent := (o_sent (init_osys ?w0))(1 := o_sent (init_osys ?w0) 1 @ [?l])\<rparr>)"
    by (rule out_step.sent)
      (simp_all add: init_osys_def sample_out_line_def Write_try_def sample_out_writer_def DefaultQueueSize_def)
  then have s1: "out_reach ?co ?w0 ?s1"
    by (auto simp: init_osys_def intro: out_reach.step [OF out_reach.init])
  have "out_step ?co ?s1 (?s1\<lparr>o_writer := run_take ?co None ?l [] (o_writer ?s1)\<rparr>)"
    by (rule out_step.takes) (simp add: sample_out_writer_def)
  with s1 have "out_reach ?co ?w0 (?s1\<lparr>o_writer := run_take ?co None ?l [] (o_writer ?s1)\<rparr>)"
    by (rule out_reach.step)
  then show ?thesis
    by (simp add: run_take_writes [where len = 80] sample_out_defs init_osys_def sample_out_final_def)
qed

theorem outcomes_complete_witness:
  "\<exists>w1 ls t. outcome_lines (out_saved w1) = Ok (Some t, ls) \<and> ut_status t = StatusComplete \<and>
     ls = [sample_out_line 1]"
proof -
  obtain res w1 where c: "out_Close sample_out_codec None None sample_out_trailer StatusComplete [] (o_writer sample_out_final) = (res, w1)"
    by fastforce
  have w1: "ow_lines w1 = ow_lines (o_writer sample_out_final) @
      [outcome_trailer_raw 40 (out_close_trailer (o_writer sample_out_final) sample_out_trailer StatusComplete [])]"
    using c by (auto simp: out_Close_def out_writeLine_def Let_def sample_out_final_def sample_out_defs)
  have "\<exists>ls t. outcome_lines (out_saved w1) = Ok (Some t, ls) \<and> ut_ops t = length ls \<and>
     ut_status t = or_status res \<and>
     (\<forall>k. prefix (by_worker k ls) (o_sent sample_out_final k)) \<and>
     (if ow_failed (o_writer sample_out_final) then or_status res = StatusFailed
      else or_status res = StatusComplete \<and> (\<forall>k. by_worker k ls = o_sent sample_out_final k))"
    by (rule outcomes_complete [OF sample_out_new sample_out_reach _ _ c, where tlen = 40])
      (auto simp: w1, auto simp: sample_out_final_def sample_out_defs outcome_raw_defs MaxLineBytes_def)
  then obtain ls t where r: "outcome_lines (out_saved w1) = Ok (Some t, ls)" "ut_status t = StatusComplete"
      "\<forall>k. by_worker k ls = o_sent sample_out_final k"
    by (auto simp: sample_out_final_def sample_out_writer_def)
  have none: "by_worker k ls = []" if "k \<noteq> 1" for k
    using r(3) that by (simp add: sample_out_final_def)
  then have "\<forall>l \<in> set ls. ul_worker l = 1"
    by (auto simp: by_worker_def filter_empty_conv)
  then have "ls = by_worker 1 ls"
    by (simp add: by_worker_def)
  also have "\<dots> = [sample_out_line 1]"
    using r(3) by (simp add: sample_out_final_def)
  finally show ?thesis using r by blast
qed

end
