(* ===== verification/GoFloat.thy ===== *)
theory GoFloat
  imports Prelude Complex_Main "HOL-Library.Log_Nat"
begin

text \<open>
  The \<open>float64\<close> of Go as the rationals its finite values are. Every operation of the code is the
  exact operation followed by \<open>fl\<close>, rounding to 53 bits, ties to even. Overflow, subnormal numbers
  and the sign of zero are not represented: the quantities of the program (latencies, counts,
  ratios) stay far inside the normal range. \<open>math.Round\<close> (half away from zero) and the fixed-point
  formats \<open>%.nf\<close> (exact value, ties to even) are the standard library's.
\<close>

subsection \<open>Rounding to a float\<close>

definition round_half_even :: "rat \<Rightarrow> int" where
  "round_half_even x =
     (let f = \<lfloor>x\<rfloor>; r = x - of_int f in
      if r < 1/2 then f else if 1/2 < r then f + 1 else if even f then f else f + 1)"

definition pow2 :: "int \<Rightarrow> rat" where
  "pow2 k = (if 0 \<le> k then 2 ^ nat k else 1 / 2 ^ nat (- k))"

definition exponent :: "rat \<Rightarrow> int" where
  "exponent x =
     (let (n, d) = quotient_of \<bar>x\<bar>; k = bitlen n - bitlen d
      in if pow2 k \<le> \<bar>x\<bar> then k else k - 1)"

definition fl :: "rat \<Rightarrow> rat" where
  "fl x = (if x = 0 then 0 else let u = pow2 (exponent x - 52) in of_int (round_half_even (x / u)) * u)"

lemma fl_0 [simp]: "fl 0 = 0"
  by (simp add: fl_def)

lemma pow2_pos [simp]: "0 < pow2 k"
  by (simp add: pow2_def)

lemma pow2_add_nat: "pow2 (k + int n) = pow2 k * 2 ^ n"
proof (cases "0 \<le> k")
  case True
  then show ?thesis by (simp add: pow2_def nat_add_distrib power_add)
next
  case False
  show ?thesis
  proof (cases "0 \<le> k + int n")
    case True
    have "n = nat (k + int n) + nat (- k)"
      using True False by simp
    then have "(2 :: rat) ^ n = 2 ^ nat (k + int n) * 2 ^ nat (- k)"
      by (metis power_add)
    with True False show ?thesis by (simp add: pow2_def)
  next
    case False
    then have "nat (- k) = nat (- (k + int n)) + n"
      by simp
    then have "(2 :: rat) ^ nat (- k) = 2 ^ nat (- (k + int n)) * 2 ^ n"
      by (metis power_add)
    with False \<open>\<not> 0 \<le> k\<close> show ?thesis by (simp add: pow2_def)
  qed
qed

text \<open>The exponent is the one of the binade of the value.\<close>

lemma pow2_mono: "a \<le> b \<Longrightarrow> pow2 a \<le> pow2 b"
proof -
  assume "a \<le> b"
  then have "pow2 b = pow2 a * 2 ^ nat (b - a)"
    using pow2_add_nat [of a "nat (b - a)"] by simp
  then show ?thesis by simp
qed

lemma pow2_add: "pow2 (a + b) = pow2 a * pow2 b"
proof (cases "0 \<le> b")
  case True
  then show ?thesis using pow2_add_nat [of a "nat b"] by (simp add: pow2_def [of b])
next
  case False
  then show ?thesis using pow2_add_nat [of "a + b" "nat (- b)"] by (simp add: pow2_def [of b])
qed

lemma bitlen_binade:
  assumes "0 < (n :: int)"
  obtains a where "bitlen n = int a + 1" "2 ^ a \<le> (of_int n :: rat)" "(of_int n :: rat) < 2 * 2 ^ a"
proof -
  have "1 \<le> bitlen n"
    using bitlen_nonneg [of n] bitlen_eq_zero_iff [of n] assms by linarith
  then obtain a where a: "bitlen n = int a + 1"
    by (metis zle_iff_zadd add.commute)
  then have "nat (bitlen n - 1) = a" "nat (bitlen n) = Suc a" by simp_all
  with bitlen_bounds [OF assms] have "2 ^ a \<le> n" "n < 2 * 2 ^ a" by simp_all
  then have "of_int (2 ^ a) \<le> (of_int n :: rat)" "(of_int n :: rat) < of_int (2 * 2 ^ a)"
    by (simp_all only: of_int_le_iff of_int_less_iff)
  with a that show thesis by simp
qed

lemma exponent_bounds:
  assumes "x \<noteq> 0"
  shows "pow2 (exponent x) \<le> \<bar>x\<bar>" and "\<bar>x\<bar> < pow2 (exponent x + 1)"
proof -
  obtain n d where nd: "quotient_of \<bar>x\<bar> = (n, d)" by force
  have d: "0 < d" using quotient_of_denom_pos [OF nd] .
  have q: "\<bar>x\<bar> = of_int n / of_int d" using quotient_of_div [OF nd] .
  have "0 < \<bar>x\<bar>" using assms by simp
  with q d have n: "0 < n" by (simp add: zero_less_divide_iff)
  obtain a where a: "bitlen n = int a + 1" "2 ^ a \<le> (of_int n :: rat)" "(of_int n :: rat) < 2 * 2 ^ a"
    using bitlen_binade [OF n] .
  obtain b where b: "bitlen d = int b + 1" "2 ^ b \<le> (of_int d :: rat)" "(of_int d :: rat) < 2 * 2 ^ b"
    using bitlen_binade [OF d] .
  let ?p = "pow2 (int a - int b)"
  have p: "?p = 2 ^ a / 2 ^ b"
    using pow2_add [of "int a" "- int b"] by (simp add: pow2_def)
  have step: "pow2 (int a - int b + 1) = 2 * ?p" "2 * pow2 (int a - int b - 1) = ?p"
    using pow2_add_nat [of "int a - int b" 1] pow2_add_nat [of "int a - int b - 1" 1] by simp_all
  have "\<bar>x\<bar> < (2 * 2 ^ a) / 2 ^ b"
    unfolding q using a(3) b(2) n by (intro frac_less) simp_all
  moreover have "2 ^ a / (2 * 2 ^ b) < \<bar>x\<bar>"
    unfolding q using a(2) b(3) d by (intro frac_less2) simp_all
  ultimately have "\<bar>x\<bar> < 2 * ?p" "?p < 2 * \<bar>x\<bar>"
    by (simp_all add: p)
  with step show "pow2 (exponent x) \<le> \<bar>x\<bar>" and "\<bar>x\<bar> < pow2 (exponent x + 1)"
    by (auto simp: exponent_def nd a(1) b(1) Let_def)
qed

text \<open>Rounding keeps the sign: a value that is not negative stays so, and a positive one stays
  positive, since the unit it is rounded to is far below it.\<close>

lemma round_half_even_nonneg: "0 \<le> x \<Longrightarrow> 0 \<le> round_half_even x"
proof -
  assume "0 \<le> x"
  then have "0 \<le> \<lfloor>x\<rfloor>" by simp
  then show ?thesis by (auto simp: round_half_even_def Let_def)
qed

lemma fl_nonneg: "0 \<le> x \<Longrightarrow> 0 \<le> fl x"
  by (simp add: fl_def Let_def round_half_even_nonneg divide_nonneg_pos less_imp_le)

lemma round_half_even_of_int [simp]: "round_half_even (of_int n) = n"
  by (simp add: round_half_even_def)

text \<open>Rounding is monotone, and integers up to \<open>2 ^ 53\<close> bound what is rounded below them.\<close>

lemma round_half_even_mono: "x \<le> y \<Longrightarrow> round_half_even x \<le> round_half_even y"
proof -
  assume le: "x \<le> y"
  then have fl: "\<lfloor>x\<rfloor> \<le> \<lfloor>y\<rfloor>" by (rule floor_mono)
  show ?thesis
  proof (cases "\<lfloor>x\<rfloor> = \<lfloor>y\<rfloor>")
    case True
    with le show ?thesis by (auto simp: round_half_even_def Let_def)
  next
    case False
    with fl have "\<lfloor>x\<rfloor> + 1 \<le> \<lfloor>y\<rfloor>" by simp
    moreover have "round_half_even x \<le> \<lfloor>x\<rfloor> + 1" "\<lfloor>y\<rfloor> \<le> round_half_even y"
      by (simp_all add: round_half_even_def Let_def)
    ultimately show ?thesis by linarith
  qed
qed

lemma fl_upper:
  assumes "0 < x" and "x \<le> of_int m * pow2 (exponent x - 52)"
  shows "fl x \<le> of_int m * pow2 (exponent x - 52)"
proof -
  let ?u = "pow2 (exponent x - 52)"
  from assms(2) have "x / ?u \<le> of_int m"
    by (simp add: divide_le_eq)
  then have "round_half_even (x / ?u) \<le> m"
    using round_half_even_mono [of "x / ?u" "of_int m"] by simp
  then show ?thesis
    using assms(1) by (simp add: fl_def Let_def)
qed

lemma fl_lower:
  assumes "0 < x" and "of_int m * pow2 (exponent x - 52) \<le> x"
  shows "of_int m * pow2 (exponent x - 52) \<le> fl x"
proof -
  let ?u = "pow2 (exponent x - 52)"
  from assms(2) have "of_int m \<le> x / ?u"
    by (simp add: le_divide_eq)
  then have "m \<le> round_half_even (x / ?u)"
    using round_half_even_mono [of "of_int m" "x / ?u"] by simp
  then show ?thesis
    using assms(1) by (simp add: fl_def Let_def)
qed

lemma pow2_unit: "pow2 (k + int n) = of_int (2 ^ n) * pow2 k"
  by (simp add: pow2_add_nat)

lemma fl_mono:
  assumes "0 \<le> x" and "x \<le> y"
  shows "fl x \<le> fl y"
proof (cases "x = 0")
  case True
  with assms show ?thesis by (simp add: fl_nonneg)
next
  case False
  with assms have pos: "0 < x" "0 < y" by simp_all
  let ?e = "exponent x" and ?f = "exponent y"
  have bx: "pow2 ?e \<le> x" "x < pow2 (?e + 1)" and bdy: "pow2 ?f \<le> y" "y < pow2 (?f + 1)"
    using exponent_bounds [of x] exponent_bounds [of y] pos by simp_all
  have le: "?e \<le> ?f"
  proof (rule ccontr)
    assume "\<not> ?e \<le> ?f"
    then have "pow2 (?f + 1) \<le> pow2 ?e" by (intro pow2_mono) simp
    with bx bdy assms(2) show False by simp
  qed
  show ?thesis
  proof (cases "?e = ?f")
    case True
    have "round_half_even (x / pow2 (?f - 52)) \<le> round_half_even (y / pow2 (?f - 52))"
      by (intro round_half_even_mono divide_right_mono assms) (simp add: less_imp_le)
    with pos True show ?thesis by (simp add: fl_def Let_def)
  next
    case False
    have "fl x \<le> pow2 (?e + 1)"
      using fl_upper [of x "2 ^ 53"] pow2_unit [of "?e - 52" 53] bx(2) pos by (simp add: add.commute [of 1])
    also have "\<dots> \<le> pow2 ?f" using le False by (intro pow2_mono) simp
    also have "\<dots> \<le> fl y"
      using fl_lower [of y "2 ^ 52"] pow2_unit [of "?f - 52" 52] bdy(1) pos by simp
    finally show ?thesis .
  qed
qed

lemma fl_of_int:
  assumes "0 \<le> n" and "n \<le> 2 ^ 53"
  shows "fl (of_int n) = of_int n"
proof (cases "n = 0")
  case False
  let ?x = "of_int n :: rat" and ?e = "exponent (of_int n)"
  have b: "pow2 ?e \<le> ?x" "?x < pow2 (?e + 1)"
    using exponent_bounds [of ?x] False assms(1) by simp_all
  have "0 \<le> ?e"
  proof (rule ccontr)
    assume "\<not> 0 \<le> ?e"
    then have "pow2 (?e + 1) \<le> pow2 0" by (intro pow2_mono) simp
    with b(2) False assms(1) show False by (simp add: pow2_def)
  qed
  have m: "\<exists>m. ?x = of_int m * pow2 (?e - 52)"
  proof (cases "?e \<le> 52")
    case True
    then have "?x = of_int (n * 2 ^ nat (52 - ?e)) * pow2 (?e - 52)"
      using pow2_add_nat [of "?e - 52" "nat (52 - ?e)"] by (simp add: pow2_def [of 0] mult.commute)
    then show ?thesis by blast
  next
    case False
    then have "pow2 53 \<le> pow2 ?e" by (intro pow2_mono) simp
    with b(1) have "2 ^ 53 \<le> ?x" by (simp add: pow2_def [of 53])
    then have "(2 :: int) ^ 53 \<le> n" by (metis numeral_power_le_of_int_cancel_iff)
    with assms(2) have n: "n = 2 ^ 53" by simp
    have "?e < 54"
    proof (rule ccontr)
      assume "\<not> ?e < 54"
      then have "pow2 54 \<le> pow2 ?e" by (intro pow2_mono) simp
      with b(1) n show False by (simp add: pow2_def [of 54])
    qed
    with False have "?e = 53" by simp
    with n have "?x = of_int (2 ^ 52) * pow2 (?e - 52)" by (simp add: pow2_def)
    then show ?thesis by blast
  qed
  then obtain m where m: "?x = of_int m * pow2 (?e - 52)" by blast
  have "0 < ?x" using False assms(1) by simp
  with fl_upper [of ?x m] fl_lower [of ?x m] m show ?thesis by simp
qed simp

lemma fl_le_int:
  assumes "0 \<le> x" "x \<le> of_int n" "n \<le> 2 ^ 53"
  shows "fl x \<le> of_int n"
proof -
  have "0 \<le> n" using assms(1,2) by (metis of_int_0_le_iff order_trans)
  then show ?thesis
    using fl_mono [OF assms(1,2)] fl_of_int [of n] assms(3) by simp
qed

text \<open>The relative error of one rounding is at most \<open>2 ^ -53\<close>.\<close>

lemma round_half_even_near: "of_int (round_half_even x) \<le> x + 1/2" "x - 1/2 \<le> of_int (round_half_even x)"
proof -
  define f where "f = (of_int \<lfloor>x\<rfloor> :: rat)"
  have f: "f \<le> x" "x < f + 1" unfolding f_def by (simp, linarith)
  have "(of_int (round_half_even x) = f \<and> x - f \<le> 1/2) \<or> (of_int (round_half_even x) = f + 1 \<and> 1/2 \<le> x - f)"
    by (auto simp: round_half_even_def Let_def f_def)
  with f show "of_int (round_half_even x) \<le> x + 1/2" "x - 1/2 \<le> of_int (round_half_even x)" by linarith+
qed

lemma fl_error:
  assumes "0 \<le> x"
  shows "fl x \<le> x * (1 + 1 / 2 ^ 53)" "x * (1 - 1 / 2 ^ 53) \<le> fl x"
proof (atomize (full), cases "x = 0")
  case False
  let ?u = "pow2 (exponent x - 52)"
  have pos: "0 < ?u" by simp
  have "of_int (2 ^ 52) * ?u \<le> x"
    using exponent_bounds(1) [OF False] pow2_unit [of "exponent x - 52" 52] assms by simp
  then have u: "?u / 2 \<le> x / 2 ^ 53" by simp
  have "of_int (round_half_even (x / ?u)) * ?u \<le> (x / ?u + 1/2) * ?u"
    by (intro mult_right_mono round_half_even_near) (simp add: less_imp_le)
  also have "\<dots> = x + ?u / 2" using pos by (simp add: field_simps del: pow2_pos)
  finally have up: "fl x \<le> x + ?u / 2" using False by (simp add: fl_def Let_def)
  have "x - ?u / 2 = (x / ?u - 1/2) * ?u" using pos by (simp add: field_simps del: pow2_pos)
  also have "\<dots> \<le> of_int (round_half_even (x / ?u)) * ?u"
    by (intro mult_right_mono round_half_even_near) (simp add: less_imp_le)
  finally have "x - ?u / 2 \<le> fl x" using False by (simp add: fl_def Let_def)
  with up u show "fl x \<le> x * (1 + 1 / 2 ^ 53) \<and> x * (1 - 1 / 2 ^ 53) \<le> fl x" by (simp add: algebra_simps)
qed simp

subsection \<open>Rounding and formatting of the standard library\<close>

text \<open>\<open>math.Round\<close>.\<close>

definition math_round :: "rat \<Rightarrow> int" where
  "math_round x = (if x < 0 then - \<lfloor>- x + 1/2\<rfloor> else \<lfloor>x + 1/2\<rfloor>)"

lemma math_round_0 [simp]: "math_round 0 = 0"
  by (simp add: math_round_def floor_eq_iff)

lemma math_round_nonneg: "0 \<le> x \<Longrightarrow> 0 \<le> math_round x"
  by (simp add: math_round_def)

lemma math_round_mono: "0 \<le> x \<Longrightarrow> x \<le> y \<Longrightarrow> math_round x \<le> math_round y"
  by (simp add: math_round_def floor_mono)

lemma math_round_le:
  assumes "0 \<le> x" and "x \<le> of_int n"
  shows "math_round x \<le> n"
proof -
  have "x + 1/2 < of_int (n + 1)" using assms(2) by simp
  then have "\<lfloor>x + 1/2\<rfloor> < n + 1" by (simp only: floor_less_iff)
  then show ?thesis using assms(1) by (simp add: math_round_def)
qed

text \<open>\<open>%.nf\<close>, and \<open>%+.nf\<close>.\<close>

definition pad_digits :: "nat \<Rightarrow> nat \<Rightarrow> string" where
  "pad_digits n m = (let s = nat_digits m in replicate (n - length s) (CHR 0x30) @ s)"

definition fmt_fixed :: "nat \<Rightarrow> rat \<Rightarrow> string" where
  "fmt_fixed n x =
     (let m = nat (round_half_even (\<bar>x\<bar> * 10 ^ n)); sgn = (if x < 0 then ''-'' else []) in
      sgn @ nat_digits (m div 10 ^ n) @ (if n = 0 then [] else ''.'' @ pad_digits n (m mod 10 ^ n)))"

definition fmt_signed :: "nat \<Rightarrow> rat \<Rightarrow> string" where
  "fmt_signed n x = (if x < 0 then fmt_fixed n x else ''+'' @ fmt_fixed n x)"

lemma fmt_fixed_examples:
  "fmt_fixed 2 (1/8) = ''0.12''" "fmt_signed 0 (41/2) = ''+20''" "fmt_fixed 1 (- 3/2) = ''-1.5''"
  by code_simp+

subsection \<open>Shortest decimal form\<close>

text \<open>\<open>strconv.FormatFloat(x, 'g', -1, 64)\<close>, which is also \<open>%v\<close>: the fewest decimal digits that read
back as \<open>x\<close>, with an exponent below \<open>-4\<close> or from 6 on. \<open>dec_point x\<close> is the position of the
decimal point: \<open>10 ^ (dec_point x - 1) \<le> x < 10 ^ dec_point x\<close>.\<close>

definition pow10 :: "int \<Rightarrow> rat" where
  "pow10 k = (if 0 \<le> k then 10 ^ nat k else 1 / 10 ^ nat (- k))"

fun int_digits :: "int \<Rightarrow> string" where
  "int_digits n = (if n < 10 then [digit_char (nat n)] else int_digits (n div 10) @ [digit_char (nat (n mod 10))])"

declare int_digits.simps [simp del]

definition dec_point :: "rat \<Rightarrow> int" where
  "dec_point x = (let (n, d) = quotient_of x; e = int (length (int_digits n)) - int (length (int_digits d))
     in if x < pow10 e then e else e + 1)"

definition digits_at :: "rat \<Rightarrow> int \<Rightarrow> int" where
  "digits_at x n = round_half_even (x / pow10 (dec_point x - n))"

definition trim_zeros :: "string \<Rightarrow> string" where
  "trim_zeros s = rev (dropWhile (\<lambda>c. c = CHR ''0'') (rev s))"

text \<open>17 digits are always enough; the search starts at one.\<close>

primrec shortest_from :: "nat \<Rightarrow> rat \<Rightarrow> int \<Rightarrow> int" where
  "shortest_from 0 x n = n"
| "shortest_from (Suc k) x n =
     (if fl (of_int (digits_at x n) * pow10 (dec_point x - n)) = x then n else shortest_from k x (n + 1))"

definition shortest_digits :: "rat \<Rightarrow> string \<times> int" where
  "shortest_digits x = (let n = shortest_from 16 x 1; ds = int_digits (digits_at x n)
      in (trim_zeros ds, dec_point x + int (length ds) - n))"

definition format_g :: "rat \<Rightarrow> string" where
  "format_g x =
     (if x = 0 then ''0''
      else let (ds, dp) = shortest_digits \<bar>x\<bar>; e = dp - 1; n = int (length ds) in
        (if x < 0 then ''-'' else [])
        @ (if e < - 4 \<or> e \<ge> 6 then
             take 1 ds @ (if n > 1 then ''.'' @ drop 1 ds else []) @ ''e'' @ (if e < 0 then ''-'' else ''+'')
               @ pad_digits 2 (nat \<bar>e\<bar>)
           else if dp \<le> 0 then ''0.'' @ replicate (nat (- dp)) (CHR ''0'') @ ds
           else if n \<le> dp then ds @ replicate (nat (dp - n)) (CHR ''0'')
           else take (nat dp) ds @ ''.'' @ drop (nat dp) ds))"

lemma format_g_examples: "format_g 1 = ''1''" "format_g (- (3 / 2)) = ''-1.5''"
  by code_simp+

end
