(* ===== verification/CompareLatency.thy ===== *)
theory CompareLatency
  imports GoFloat
begin

text \<open>
  Latency summaries and verdicts of the replay comparison (\<open>internal/replaycompare/compare.go\<close>:
  \<open>latencyOf\<close>, \<open>material\<close>, \<open>deltaPct\<close>, \<open>compareLatency\<close>, \<open>verdictRank\<close>), with every float operation
  rounded by \<open>fl\<close>. Latencies are integral microseconds; the summaries are in milliseconds rounded to
  three decimals.
\<close>

definition VerdictSlower :: string where "VerdictSlower = ''slower''"
definition VerdictFaster :: string where "VerdictFaster = ''faster''"
definition VerdictNoChange :: string where "VerdictNoChange = ''no_material_change''"
definition VerdictInsufficient :: string where "VerdictInsufficient = ''insufficient_evidence''"

lemmas verdicts = VerdictSlower_def VerdictFaster_def VerdictNoChange_def VerdictInsufficient_def

definition TrendMinOperations :: nat where "TrendMinOperations = 30"
definition TrendLatencyMaterialAbsMs :: rat where "TrendLatencyMaterialAbsMs = 1"
definition TrendLatencyMaterialRelative :: rat where "TrendLatencyMaterialRelative = fl (20 / 100)"

record latency =
  la_ops :: nat
  la_avg :: rat
  la_p50 :: rat
  la_p95 :: rat
  la_p99 :: rat
  la_max :: rat

record latency_comparison =
  lc_a :: latency
  lc_b :: latency
  lc_avg_delta :: "rat option"
  lc_p50_delta :: "rat option"
  lc_p95_delta :: "rat option"
  lc_p99_delta :: "rat option"
  lc_verdict :: string
  lc_label :: string
  lc_reasons :: "string list"

definition no_latency :: latency where
  "no_latency = \<lparr>la_ops = 0, la_avg = 0, la_p50 = 0, la_p95 = 0, la_p99 = 0, la_max = 0\<rparr>"

definition round3 :: "rat \<Rightarrow> rat" where
  "round3 v = fl (of_int (math_round (fl (v * 1000))) / 1000)"

definition ms :: "int \<Rightarrow> rat" where
  "ms us = round3 (fl (fl (of_int us) / 1000))"

text \<open>The index of percentile \<open>p\<close> among \<open>n\<close> sorted samples.\<close>

definition pct_index :: "nat \<Rightarrow> rat \<Rightarrow> nat" where
  "pct_index n p = nat (math_round (fl (fl (p / 100) * fl (of_nat (n - 1)))))"

definition float_sum :: "int list \<Rightarrow> rat" where
  "float_sum us = foldl (\<lambda>acc v. fl (acc + fl (of_int v))) 0 us"

definition latencyOf :: "int list \<Rightarrow> latency" where
  "latencyOf us =
     (let n = length us in
      if n = 0 then no_latency
      else let s = sort us; pct = (\<lambda>p. ms (s ! pct_index n p))
        in \<lparr>la_ops = n, la_avg = round3 (fl (fl (float_sum s / fl (of_nat n)) / 1000)),
            la_p50 = pct 50, la_p95 = pct 95, la_p99 = pct 99, la_max = ms (s ! (n - 1))\<rparr>)"

definition deltaPct :: "rat \<Rightarrow> rat \<Rightarrow> rat option" where
  "deltaPct a b = (if a \<le> 0 then None
     else Some (fl (of_int (math_round (fl (fl (fl (b - a) / a) * 1000))) / 10)))"

definition material :: "rat \<Rightarrow> rat \<Rightarrow> bool \<times> rat \<times> rat" where
  "material a b =
     (let d = fl (b - a); rel = (if a > 0 then fl (d / a) else 0)
      in (\<bar>d\<bar> \<ge> TrendLatencyMaterialAbsMs \<and> \<bar>rel\<bar> \<ge> TrendLatencyMaterialRelative, d, rel))"

definition arrow :: string where "arrow = [CHR 0x20, CHR 0xE2, CHR 0x86, CHR 0x92, CHR 0x20]"

definition compareLatency :: "int list \<Rightarrow> int list \<Rightarrow> latency_comparison" where
  "compareLatency a b =
     (let la = latencyOf a; lb = latencyOf b; n = length a;
          c = \<lparr>lc_a = la, lc_b = lb, lc_avg_delta = deltaPct (la_avg la) (la_avg lb),
               lc_p50_delta = deltaPct (la_p50 la) (la_p50 lb), lc_p95_delta = deltaPct (la_p95 la) (la_p95 lb),
               lc_p99_delta = deltaPct (la_p99 la) (la_p99 lb), lc_verdict = [], lc_label = [], lc_reasons = []\<rparr>
      in if n < TrendMinOperations then
           c\<lparr>lc_verdict := VerdictInsufficient, lc_label := ''Insufficient evidence'',
             lc_reasons := [itoa (int n) @ '' operations succeeded on both sides (minimum '' @ itoa (int TrendMinOperations) @ '')'']\<rparr>
         else if la_avg la \<le> 0 then
           c\<lparr>lc_verdict := VerdictInsufficient, lc_label := ''Insufficient evidence'',
             lc_reasons := [''the average latency on A is zero'']\<rparr>
         else let (avgMat, d, rel) = material (la_avg la) (la_avg lb);
                  (p95Mat, pd, _) = material (la_p95 la) (la_p95 lb);
                  txt = ''avg '' @ fmt_fixed 2 (la_avg la) @ arrow @ fmt_fixed 2 (la_avg lb) @ '' ms ('' @ fmt_signed 2 d @
                    '' ms, '' @ fmt_signed 0 (fl (rel * 100)) @ ''%), p95 '' @ fmt_fixed 2 (la_p95 la) @ arrow @
                    fmt_fixed 2 (la_p95 lb) @ '' ms''
           in if avgMat \<and> p95Mat \<and> (d > 0) \<noteq> (pd > 0) then
                c\<lparr>lc_verdict := VerdictInsufficient, lc_label := ''Insufficient evidence'',
                  lc_reasons := [''the average and the p95 moved materially in opposite directions'']\<rparr>
              else if avgMat \<and> d > 0 then c\<lparr>lc_verdict := VerdictSlower, lc_label := ''Slower on B: '' @ txt\<rparr>
              else if avgMat then c\<lparr>lc_verdict := VerdictFaster, lc_label := ''Faster on B: '' @ txt\<rparr>
              else c\<lparr>lc_verdict := VerdictNoChange, lc_label := ''No material change: '' @ txt @
                     ''; a verdict needs at least '' @ fmt_fixed 0 TrendLatencyMaterialAbsMs @ '' ms and 20%''\<rparr>)"

definition verdictRank :: "string \<Rightarrow> nat" where
  "verdictRank v = (if v = VerdictSlower then 0 else if v = VerdictFaster then 1
     else if v = VerdictNoChange then 2 else 3)"

subsection \<open>Summaries\<close>

lemma round3_mono: "0 \<le> x \<Longrightarrow> x \<le> y \<Longrightarrow> round3 x \<le> round3 y"
  unfolding round3_def
  by (intro fl_mono divide_right_mono) (simp_all add: math_round_nonneg fl_nonneg math_round_mono fl_mono)

lemma ms_mono: "0 \<le> x \<Longrightarrow> x \<le> y \<Longrightarrow> ms x \<le> ms y"
  unfolding ms_def
  by (intro round3_mono fl_mono divide_right_mono) (simp_all add: fl_nonneg fl_mono)

text \<open>A percentile of the code is at most 100, so its index is one of the samples.\<close>

lemma pct_index_mono:
  "0 \<le> p \<Longrightarrow> p \<le> q \<Longrightarrow> pct_index n p \<le> pct_index n q"
  unfolding pct_index_def
  by (intro nat_mono math_round_mono fl_mono mult_right_mono divide_right_mono)
    (simp_all add: fl_nonneg fl_mono divide_right_mono)

lemma pct_index_less:
  assumes "0 \<le> p" "p \<le> 100" "0 < n" "int n \<le> 2 ^ 53"
  shows "pct_index n p < n"
proof -
  have n1: "fl (of_nat (n - 1)) = of_int (int (n - 1))"
    using fl_of_int [of "int (n - 1)"] assms(4) by simp
  have p: "0 \<le> fl (p / 100)" "fl (p / 100) \<le> 1"
    using assms(1,2) fl_le_int [of "p / 100" 1] by (simp_all add: fl_nonneg)
  have "fl (p / 100) * of_int (int (n - 1)) \<le> 1 * of_int (int (n - 1))"
    by (intro mult_right_mono p) simp
  then have "fl (fl (p / 100) * of_int (int (n - 1))) \<le> of_int (int (n - 1))"
    using p assms(4) by (intro fl_le_int) simp_all
  then have "math_round (fl (fl (p / 100) * of_int (int (n - 1)))) \<le> int (n - 1)"
    using p by (intro math_round_le) (simp_all add: fl_nonneg)
  with assms(3) show ?thesis unfolding pct_index_def n1 by linarith
qed

text \<open>on samples that are not negative the percentiles of a summary are samples (the index is
  never out of range) and they are in order.\<close>

theorem latencyOf_percentiles:
  assumes "us \<noteq> []" and "\<forall>u \<in> set us. 0 \<le> u" and "int (length us) \<le> 2 ^ 53"
  shows "la_p50 (latencyOf us) \<le> la_p95 (latencyOf us) \<and> la_p95 (latencyOf us) \<le> la_p99 (latencyOf us) \<and>
     la_p99 (latencyOf us) \<le> la_max (latencyOf us) \<and>
     {la_p50 (latencyOf us), la_p95 (latencyOf us), la_p99 (latencyOf us), la_max (latencyOf us)} \<subseteq> ms ` set us"
proof -
  let ?s = "sort us" and ?n = "length us"
  have n: "0 < ?n" using assms(1) by simp
  have pos: "0 \<le> ?s ! i" if "i < ?n" for i
    using assms(2) nth_mem [of i ?s] that by simp
  have idx: "pct_index ?n 50 \<le> pct_index ?n 95" "pct_index ?n 95 \<le> pct_index ?n 99" "pct_index ?n 99 < ?n"
    using n assms(3) by (simp_all add: pct_index_mono pct_index_less)
  have up: "ms (?s ! i) \<le> ms (?s ! j)" if "i \<le> j" "j < ?n" for i j
    using that pos [of i] by (intro ms_mono sorted_nth_mono) simp_all
  have mem: "ms (?s ! i) \<in> ms ` set us" if "i < ?n" for i
    using nth_mem [of i ?s] that by simp
  have "la_p50 (latencyOf us) = ms (?s ! pct_index ?n 50)" "la_p95 (latencyOf us) = ms (?s ! pct_index ?n 95)"
    "la_p99 (latencyOf us) = ms (?s ! pct_index ?n 99)" "la_max (latencyOf us) = ms (?s ! (?n - 1))"
    using assms(1) by (simp_all add: latencyOf_def Let_def)
  with idx n up mem show ?thesis by simp
qed

theorem latencyOf_percentiles_witness:
  "la_p50 (latencyOf [3000, 1000, 2000]) \<le> la_max (latencyOf [3000, 1000, 2000])"
  using latencyOf_percentiles [of "[3000, 1000, 2000]"] by simp

subsection \<open>Verdicts\<close>

lemma compareLatency_fields [simp]:
  "lc_a (compareLatency a b) = latencyOf a" "lc_b (compareLatency a b) = latencyOf b"
  by (simp_all add: compareLatency_def Let_def split: prod.split)

lemma verdict_distinct [simp]:
  "VerdictSlower \<noteq> VerdictFaster" "VerdictFaster \<noteq> VerdictSlower"
  "VerdictSlower \<noteq> VerdictNoChange" "VerdictNoChange \<noteq> VerdictSlower"
  "VerdictSlower \<noteq> VerdictInsufficient" "VerdictInsufficient \<noteq> VerdictSlower"
  "VerdictFaster \<noteq> VerdictNoChange" "VerdictNoChange \<noteq> VerdictFaster"
  "VerdictFaster \<noteq> VerdictInsufficient" "VerdictInsufficient \<noteq> VerdictFaster"
  "VerdictNoChange \<noteq> VerdictInsufficient" "VerdictInsufficient \<noteq> VerdictNoChange"
  by (simp_all add: verdicts)

text \<open>The verdict as a function of the summaries.\<close>

definition verdict_of :: "nat \<Rightarrow> latency \<Rightarrow> latency \<Rightarrow> string" where
  "verdict_of n a b =
     (if n < TrendMinOperations \<or> la_avg a \<le> 0 then VerdictInsufficient
      else let (avgMat, d, _) = material (la_avg a) (la_avg b); (p95Mat, pd, _) = material (la_p95 a) (la_p95 b) in
        if avgMat \<and> p95Mat \<and> (d > 0) \<noteq> (pd > 0) then VerdictInsufficient
        else if avgMat then (if d > 0 then VerdictSlower else VerdictFaster) else VerdictNoChange)"

lemma compareLatency_verdict:
  "lc_verdict (compareLatency a b) = verdict_of (length a) (latencyOf a) (latencyOf b)"
  by (simp add: compareLatency_def verdict_of_def Let_def split: prod.split)

text \<open>a slower or faster verdict is backed: at least 30 operations succeeded on both sides, the
  rounded average moved in that direction by at least 1 ms and 20 percent, and the p95 did not move
  materially the other way.\<close>

theorem verdict_backed:
  assumes "lc_verdict (compareLatency a b) \<in> {VerdictSlower, VerdictFaster}"
  shows "30 \<le> length a \<and> 0 < la_avg (latencyOf a) \<and>
     (let d = fl (la_avg (latencyOf b) - la_avg (latencyOf a)); (p95Mat, pd, _) = material (la_p95 (latencyOf a)) (la_p95 (latencyOf b))
      in (if lc_verdict (compareLatency a b) = VerdictSlower then 1 \<le> d else d \<le> - 1) \<and>
         fl (20 / 100) \<le> \<bar>fl (d / la_avg (latencyOf a))\<bar> \<and>
         \<not> (p95Mat \<and> (pd > 0) \<noteq> (d > 0)))"
  using assms
  unfolding compareLatency_verdict
  by (auto simp: verdict_of_def Let_def material_def TrendMinOperations_def TrendLatencyMaterialAbsMs_def
      TrendLatencyMaterialRelative_def split: if_splits)

text \<open>comparing a set of latencies with itself never gives a slower or faster verdict.\<close>

theorem verdict_same_side:
  "lc_verdict (compareLatency a a) = (if 30 \<le> length a \<and> 0 < la_avg (latencyOf a) then VerdictNoChange else VerdictInsufficient)"
  unfolding compareLatency_verdict
  by (auto simp: verdict_of_def Let_def material_def TrendMinOperations_def TrendLatencyMaterialAbsMs_def)

text \<open>Whole milliseconds are summarised exactly.\<close>

lemma math_round_of_int [simp]: "math_round (of_int n) = n"
proof -
  have "\<lfloor>(of_int n :: rat) + 1/2\<rfloor> = n" "\<lfloor>- (of_int n :: rat) + 1/2\<rfloor> = - n"
    by (simp_all add: floor_eq_iff)
  then show ?thesis by (simp add: math_round_def)
qed

lemma round3_of_int: "0 \<le> n \<Longrightarrow> 1000 * n \<le> 2 ^ 53 \<Longrightarrow> round3 (of_int n) = of_int n"
  using fl_of_int [of "n * 1000"] fl_of_int [of n]
  by (simp add: round3_def) (metis math_round_of_int nonzero_mult_div_cancel_right of_int_mult of_int_numeral zero_neq_numeral)

lemma ms_of_int: "0 \<le> n \<Longrightarrow> 1000 * n \<le> 2 ^ 53 \<Longrightarrow> ms (1000 * n) = of_int n"
  using fl_of_int [of "1000 * n"] fl_of_int [of n] by (simp add: ms_def round3_of_int)

lemma float_sum_exact:
  "\<forall>u \<in> set us. 0 \<le> u \<Longrightarrow> sum_list us \<le> 2 ^ 53 \<Longrightarrow> float_sum us = of_int (sum_list us)"
proof (induction us rule: rev_induct)
  case (snoc u us)
  then have pos: "0 \<le> u" "0 \<le> sum_list us" by (simp_all add: sum_list_nonneg)
  with snoc have IH: "float_sum us = of_int (sum_list us)" by simp
  have "fl (of_int u) = of_int u" "fl (of_int (sum_list us + u)) = of_int (sum_list us + u)"
    using pos snoc.prems(2) by (intro fl_of_int; simp)+
  then show ?case using IH by (simp add: float_sum_def)
qed (simp add: float_sum_def)

lemma latencyOf_replicate:
  assumes "0 < n" "0 \<le> c" "int n * (1000 * c) \<le> 2 ^ 53" "1000 * c \<le> 2 ^ 53" "int n \<le> 2 ^ 53"
  shows "la_avg (latencyOf (replicate n (1000 * c))) = of_int c"
    and "la_p95 (latencyOf (replicate n (1000 * c))) = of_int c"
proof -
  let ?us = "replicate n (1000 * c)"
  have s: "sort ?us = ?us" by (intro sort_key_id_if_sorted) (simp add: sorted_replicate)
  have sum: "float_sum ?us = of_int (int n * (1000 * c))"
    using assms by (subst float_sum_exact) (auto simp: sum_list_replicate)
  have "fl (of_int (int n)) = of_int (int n)" "fl (of_int (1000 * c)) = of_int (1000 * c)" "fl (of_int c) = of_int c"
    using assms by (intro fl_of_int; simp)+
  then have "round3 (fl (fl (float_sum ?us / fl (of_nat n)) / 1000)) = of_int c"
    using assms by (simp add: sum round3_of_int)
  then show "la_avg (latencyOf ?us) = of_int c"
    using assms(1) by (simp add: latencyOf_def s Let_def)
  show "la_p95 (latencyOf ?us) = of_int c"
    using assms pct_index_less [of 95 n] by (simp add: latencyOf_def s Let_def ms_of_int)
qed

definition sample_fast :: "int list" where "sample_fast = replicate 30 (1000 * 1)"
definition sample_slow :: "int list" where "sample_slow = replicate 30 (1000 * 3)"

lemma sample_latency:
  "la_avg (latencyOf sample_fast) = of_int 1" "la_p95 (latencyOf sample_fast) = of_int 1"
  "la_avg (latencyOf sample_slow) = of_int 3" "la_p95 (latencyOf sample_slow) = of_int 3" "length sample_fast = 30"
  unfolding sample_fast_def sample_slow_def by (rule latencyOf_replicate; simp)+ simp

theorem verdict_backed_witness:
  "lc_verdict (compareLatency sample_fast sample_slow) = VerdictSlower \<and>
   1 \<le> fl (la_avg (latencyOf sample_slow) - la_avg (latencyOf sample_fast))"
proof -
  have two: "fl 2 = 2" "fl (1 / 5) \<le> 2"
    using fl_of_int [of 2] fl_le_int [of "1 / 5" 2] by simp_all
  have v: "lc_verdict (compareLatency sample_fast sample_slow) = VerdictSlower"
    unfolding compareLatency_verdict verdict_of_def material_def sample_latency
    using two by (simp add: TrendMinOperations_def TrendLatencyMaterialAbsMs_def TrendLatencyMaterialRelative_def)
  with verdict_backed [of sample_fast sample_slow] show ?thesis
    by (simp add: Let_def split: prod.splits)
qed

end
