(* ===== verification/CompareOps.thy ===== *)
theory CompareOps
  imports Outcomes CompareLatency "HOL-Library.Word"
begin

text \<open>
  The operations of the replay comparison (\<open>internal/replaycompare/compare.go\<close>): the pointer-free
  \<open>result\<close> an outcome is held as and its way back, operation keys with their order, error labels and
  the shape key of a recorded operation.

  \<open>interner.get\<close> returns a string equal to its argument, so it does not show. A Go slice of bytes is
  a list of naturals below 256.
\<close>

unbundle bit_operations_syntax

subsection \<open>Operation keys\<close>

datatype opKey = OpKey (k_seq: nat) (k_iteration: int) (k_worker: int) (k_workerSeq: nat)

fun opKey_less :: "opKey \<Rightarrow> opKey \<Rightarrow> bool" where
  "opKey_less (OpKey s i w q) (OpKey s' i' w' q') =
     (if s \<noteq> s' then s < s' else if i \<noteq> i' then i < i' else if w \<noteq> w' then w < w' else q < q')"

instantiation opKey :: linorder
begin

definition less_opKey :: "opKey \<Rightarrow> opKey \<Rightarrow> bool" where
  "less_opKey a b = opKey_less a b"

definition less_eq_opKey :: "opKey \<Rightarrow> opKey \<Rightarrow> bool" where
  "less_eq_opKey a b \<longleftrightarrow> a = b \<or> opKey_less a b"

instance
proof
  fix x y z :: opKey
  show "x < y \<longleftrightarrow> x \<le> y \<and> \<not> y \<le> x"
    by (cases x; cases y) (auto simp: less_opKey_def less_eq_opKey_def split: if_splits)
  show "x \<le> x" by (simp add: less_eq_opKey_def)
  show "x \<le> y \<Longrightarrow> y \<le> z \<Longrightarrow> x \<le> z"
    by (cases x; cases y; cases z) (auto simp: less_eq_opKey_def split: if_splits)
  show "x \<le> y \<Longrightarrow> y \<le> x \<Longrightarrow> x = y"
    by (cases x; cases y) (auto simp: less_eq_opKey_def split: if_splits)
  show "x \<le> y \<or> y \<le> x"
    by (cases x; cases y) (auto simp: less_eq_opKey_def split: if_splits)
qed

end

subsection \<open>Hexadecimal\<close>

definition hex_digit :: "nat \<Rightarrow> char" where
  "hex_digit d = (if d < 10 then char_of (48 + d) else char_of (87 + d))"

definition fromHexChar :: "char \<Rightarrow> nat option" where
  "fromHexChar c = (let n = of_char c :: nat in
     if 48 \<le> n \<and> n \<le> 57 then Some (n - 48)
     else if 97 \<le> n \<and> n \<le> 102 then Some (n - 87)
     else if 65 \<le> n \<and> n \<le> 70 then Some (n - 55) else None)"

fun hex_decode :: "string \<Rightarrow> nat list option" where
  "hex_decode [] = Some []"
| "hex_decode [_] = None"
| "hex_decode (c # d # s) =
     (case (fromHexChar c, fromHexChar d, hex_decode s) of
        (Some h, Some l, Some bs) \<Rightarrow> Some ((16 * h + l) # bs)
      | _ \<Rightarrow> None)"

definition hex_encode :: "nat list \<Rightarrow> string" where
  "hex_encode bs = concat (map (\<lambda>b. [hex_digit (b div 16), hex_digit (b mod 16)]) bs)"

definition lower_hex :: "char \<Rightarrow> bool" where
  "lower_hex c = (let n = of_char c :: nat in (48 \<le> n \<and> n \<le> 57) \<or> (97 \<le> n \<and> n \<le> 102))"

lemma hex_digit_fromHexChar:
  "lower_hex c \<Longrightarrow> fromHexChar c = Some d \<Longrightarrow> hex_digit d = c \<and> d < 16"
  by (auto simp: lower_hex_def fromHexChar_def hex_digit_def Let_def split: if_splits)

lemma lower_hex_decodes: "lower_hex c \<Longrightarrow> \<exists>d. fromHexChar c = Some d"
  by (auto simp: lower_hex_def fromHexChar_def Let_def)

lemma hex_decode_encode:
  "even (length s) \<Longrightarrow> \<forall>c \<in> set s. lower_hex c \<Longrightarrow>
     \<exists>bs. hex_decode s = Some bs \<and> hex_encode bs = s \<and> 2 * length bs = length s"
proof (induction s rule: hex_decode.induct)
  case (3 c d s)
  then obtain h l where hl: "fromHexChar c = Some h" "fromHexChar d = Some l"
    using lower_hex_decodes by fastforce
  with 3 hex_digit_fromHexChar [of c h] hex_digit_fromHexChar [of d l] show ?case
    by (auto simp: hex_encode_def)
qed (simp_all add: hex_encode_def)

subsection \<open>Results\<close>

datatype sum_state = SumNone | SumOK | SumUnavailable

record op_result =
  rs_shape :: nat
  rs_worker :: int
  rs_iteration :: int
  rs_workerSeq :: nat
  rs_seq :: nat
  rs_latencyUS :: int
  rs_errCode :: int
  rs_errName :: string
  rs_ok :: bool
  rs_has :: "8 word"
  rs_counts :: "int list"
  rs_sumState :: sum_state
  rs_sum :: "nat list"
  rs_txn :: string

definition outcome_counts :: "outcome \<Rightarrow> int option list" where
  "outcome_counts o1 = [oc_returned o1, oc_inserted o1, oc_matched o1, oc_modified o1, oc_upserted o1, oc_deleted o1]"

text \<open>The loop over the count pointers: bit \<open>i\<close> of \<open>has\<close> and slot \<open>i\<close> of the counts.\<close>

fun set_counts :: "nat \<Rightarrow> int option list \<Rightarrow> 8 word \<times> int list \<Rightarrow> 8 word \<times> int list" where
  "set_counts i [] acc = acc"
| "set_counts i (p # ps) (has, cs) =
     set_counts (Suc i) ps
       (case p of None \<Rightarrow> (has, cs) | Some n \<Rightarrow> (has OR push_bit i 1, cs[i := n]))"

definition nCounts :: nat where "nCounts = 6"

definition toResult :: "outcome \<Rightarrow> op_result" where
  "toResult o1 =
     (let (has, cs) = set_counts 0 (outcome_counts o1) (0, replicate nCounts 0);
          (st, sm) = (if oc_checksum o1 = [] then (SumNone, replicate 32 0)
                      else if length (oc_checksum o1) = 64 then
                        (case hex_decode (oc_checksum o1) of
                           Some bs \<Rightarrow> (SumOK, bs)
                         | None \<Rightarrow> (SumUnavailable, replicate 32 0))
                      else (SumUnavailable, replicate 32 0))
      in \<lparr>rs_shape = 0, rs_worker = 0, rs_iteration = 0, rs_workerSeq = 0, rs_seq = 0,
          rs_latencyUS = oc_latencyUS o1, rs_errCode = to_i32 (oc_errorCode o1), rs_errName = oc_errorName o1,
          rs_ok = oc_ok o1, rs_has = has, rs_counts = cs, rs_sumState = st, rs_sum = sm,
          rs_txn = oc_transaction o1\<rparr>)"

definition count_ptr :: "op_result \<Rightarrow> nat \<Rightarrow> int option" where
  "count_ptr r i = (if rs_has r AND push_bit i 1 \<noteq> 0 then Some (rs_counts r ! i) else None)"

definition result_outcome :: "op_result \<Rightarrow> outcome" where
  "result_outcome r = \<lparr>oc_latencyUS = rs_latencyUS r, oc_ok = rs_ok r, oc_errorCode = rs_errCode r,
     oc_errorName = rs_errName r, oc_returned = count_ptr r 0,
     oc_checksum = (case rs_sumState r of SumOK \<Rightarrow> hex_encode (rs_sum r)
        | SumUnavailable \<Rightarrow> ''unavailable'' | SumNone \<Rightarrow> []),
     oc_inserted = count_ptr r 1, oc_matched = count_ptr r 2, oc_modified = count_ptr r 3,
     oc_upserted = count_ptr r 4, oc_deleted = count_ptr r 5, oc_transaction = rs_txn r\<rparr>"

definition errorLabel :: "op_result \<Rightarrow> string" where
  "errorLabel r =
     (if rs_errCode r \<noteq> 0 \<and> rs_errName r \<noteq> [] then itoa (rs_errCode r) @ '' '' @ rs_errName r
      else if rs_errCode r \<noteq> 0 then itoa (rs_errCode r)
      else if rs_errName r \<noteq> [] then rs_errName r
      else ''unknown_error'')"

text \<open>The outcomes a recording or an outcome file holds: a server error code is an \<open>int32\<close>, and a
  checksum is absent, a lower-case SHA-256, or \<open>unavailable\<close>.\<close>

definition recorded_outcome :: "outcome \<Rightarrow> bool" where
  "recorded_outcome o1 \<longleftrightarrow> - (2 ^ 31) \<le> oc_errorCode o1 \<and> oc_errorCode o1 < 2 ^ 31 \<and>
     (oc_checksum o1 = [] \<or> oc_checksum o1 = ''unavailable'' \<or>
      length (oc_checksum o1) = 64 \<and> (\<forall>c \<in> set (oc_checksum o1). lower_hex c))"

lemma bit_two_power [simp]: "bit (2 ^ i :: 8 word) j \<longleftrightarrow> i = j \<and> j < 8"
  using bit_push_bit_iff [of i "1 :: 8 word" j] by (auto simp: bit_1_iff)

lemma and_two_power: "i < 8 \<Longrightarrow> (w AND 2 ^ i \<noteq> 0) = bit (w :: 8 word) i"
proof
  assume i: "i < 8" and ne: "w AND 2 ^ i \<noteq> 0"
  show "bit w i"
  proof (rule ccontr)
    assume "\<not> bit w i"
    then have "w AND 2 ^ i = 0" by (intro bit_eqI) (auto simp: bit_and_iff)
    with ne show False ..
  qed
next
  assume "i < 8" "bit w i"
  then have "bit (w AND 2 ^ i) i" by (simp add: bit_and_iff)
  then show "w AND 2 ^ i \<noteq> 0" by (metis bit_0_eq bot_apply bot_bool_def)
qed

lemma set_counts_spec:
  "set_counts i ps (has, cs) = (has', cs') \<Longrightarrow> i + length ps \<le> length cs \<Longrightarrow> length cs \<le> 8 \<Longrightarrow>
   \<forall>j. i \<le> j \<longrightarrow> \<not> bit has j \<Longrightarrow>
   length cs' = length cs \<and> (\<forall>j < i. bit has' j = bit has j \<and> cs' ! j = cs ! j) \<and>
   (\<forall>j < length ps. bit has' (i + j) = (ps ! j \<noteq> None) \<and> (\<forall>n. ps ! j = Some n \<longrightarrow> cs' ! (i + j) = n))"
proof (induction ps arbitrary: i has cs)
  case Nil
  then show ?case by auto
next
  case (Cons p ps)
  define has1 where "has1 = (case p of None \<Rightarrow> has | Some n \<Rightarrow> has OR push_bit i 1)"
  define cs1 where "cs1 = (case p of None \<Rightarrow> cs | Some n \<Rightarrow> cs[i := n])"
  have run: "set_counts (Suc i) ps (has1, cs1) = (has', cs')"
    using Cons.prems(1) by (auto simp: has1_def cs1_def split: option.splits)
  have len: "length cs1 = length cs" by (auto simp: cs1_def split: option.splits)
  have bits: "bit has1 j = (bit has j \<or> (j = i \<and> j < 8 \<and> p \<noteq> None))" for j
    by (auto simp: has1_def bit_or_iff split: option.splits)
  from Cons.IH [OF run] Cons.prems(2,3,4) len bits
  have IH: "length cs' = length cs1" "\<forall>j < Suc i. bit has' j = bit has1 j \<and> cs' ! j = cs1 ! j"
    "\<forall>j < length ps. bit has' (Suc i + j) = (ps ! j \<noteq> None) \<and> (\<forall>n. ps ! j = Some n \<longrightarrow> cs' ! (Suc i + j) = n)"
    by auto
  show ?case
  proof (intro conjI allI impI)
    show "length cs' = length cs" using IH(1) len by simp
  next
    fix j assume "j < i"
    then show "bit has' j = bit has j" "cs' ! j = cs ! j"
      using IH(2) bits by (auto simp: cs1_def split: option.splits)
  next
    fix j assume j: "j < length (p # ps)"
    have at: "bit has' i = (p \<noteq> None)" "p = Some n \<Longrightarrow> cs' ! i = n" for n
      using IH(2) bits Cons.prems by (auto simp: cs1_def)
    show "bit has' (i + j) = ((p # ps) ! j \<noteq> None)"
      using at(1) IH(3) j by (cases j) auto
    fix n assume "(p # ps) ! j = Some n"
    then show "cs' ! (i + j) = n"
      using at(2) IH(3) j by (cases j) auto
  qed
qed

text \<open>holding an outcome without its pointers loses nothing: what the report shows for an
  operation is the outcome that was recorded.\<close>

theorem outcome_toResult:
  assumes "recorded_outcome o1"
  shows "result_outcome (toResult o1) = o1"
proof -
  let ?c = "oc_checksum o1"
  obtain has cs where sc: "set_counts 0 (outcome_counts o1) (0, replicate nCounts 0) = (has, cs)"
    by fastforce
  have spec: "bit has j = (outcome_counts o1 ! j \<noteq> None)" "outcome_counts o1 ! j = Some n \<Longrightarrow> cs ! j = n" if "j < 6" for j n
    using set_counts_spec [OF sc] that by (auto simp: outcome_counts_def nCounts_def)
  define st where "st = rs_sumState (toResult o1)"
  define sm where "sm = rs_sum (toResult o1)"
  have sum: "(case st of SumOK \<Rightarrow> hex_encode sm | SumUnavailable \<Rightarrow> ''unavailable'' | SumNone \<Rightarrow> []) = ?c"
  proof (cases "?c = [] \<or> ?c = ''unavailable''")
    case True
    then show ?thesis by (auto simp: st_def toResult_def Let_def split: prod.split)
  next
    case False
    with assms have c: "length ?c = 64" "\<forall>c \<in> set ?c. lower_hex c"
      by (auto simp: recorded_outcome_def)
    then obtain bs where "hex_decode ?c = Some bs" "hex_encode bs = ?c"
      using hex_decode_encode [of ?c] by auto
    with c False show ?thesis
      by (auto simp: st_def sm_def toResult_def Let_def split: prod.split)
  qed
  have fields: "rs_has (toResult o1) = has" "rs_counts (toResult o1) = cs"
    "rs_errCode (toResult o1) = oc_errorCode o1" "rs_latencyUS (toResult o1) = oc_latencyUS o1"
    "rs_ok (toResult o1) = oc_ok o1" "rs_errName (toResult o1) = oc_errorName o1" "rs_txn (toResult o1) = oc_transaction o1"
    using sc assms by (auto simp: toResult_def Let_def recorded_outcome_def split: prod.split)
  have ptr: "count_ptr (toResult o1) j = outcome_counts o1 ! j" if "j < 6" for j
    using spec [OF that] that by (cases "outcome_counts o1 ! j") (simp_all add: count_ptr_def fields and_two_power)
  show ?thesis
    using sum [unfolded sm_def] ptr [of 0] ptr [of 1] ptr [of 2] ptr [of 3] ptr [of 4] ptr [of 5]
    by (intro outcome.equality)
      (simp_all add: result_outcome_def fields st_def [symmetric] outcome_counts_def)
qed

theorem outcome_toResult_witness:
  "result_outcome (toResult (sample_outcome 1500 0)) = sample_outcome 1500 0"
  by (rule outcome_toResult) (simp add: recorded_outcome_def sample_outcome_def)

subsection \<open>Shapes of operations\<close>

definition recordingShapeKey :: "op_line \<Rightarrow> string" where
  "recordingShapeKey op =
     (case ol_shape op of
        Some s \<Rightarrow> s_key s
      | None \<Rightarrow>
          (if ol_path op = PathFastInsertBatch then ''insert|fast_batch''
           else if ol_op op = ''transaction'' then ''transaction|batch''
           else if ol_path op \<noteq> [] then ol_op op @ ''|'' @ ol_path op
           else ol_op op))"

text \<open>One operation of either file kind.\<close>

record opLine =
  l_seq :: nat
  l_iteration :: int
  l_worker :: int
  l_workerSeq :: nat
  l_ns :: string
  l_op :: string
  l_shape :: string
  l_summary :: string
  l_outcome :: "outcome option"

definition opLine_key :: "bool \<Rightarrow> opLine \<Rightarrow> opKey" where
  "opLine_key bySeq l =
     (if bySeq then OpKey (l_seq l) 0 0 0
      else let it = (if l_iteration l < 1 then 1 else l_iteration l)
        in OpKey 0 (to_i32 it) (to_i32 (l_worker l)) (l_workerSeq l))"

definition opLine_result :: "opLine \<Rightarrow> outcome \<Rightarrow> op_result" where
  "opLine_result l o1 = (toResult o1)\<lparr>rs_worker := to_i32 (l_worker l), rs_iteration := to_i32 (l_iteration l),
     rs_workerSeq := l_workerSeq l, rs_seq := l_seq l\<rparr>"

end
