(* ===== verification/ReplayCompare.thy ===== *)
theory ReplayCompare
  imports CompareOps
begin

text \<open>
  The comparer of \<open>internal/replaycompare/compare.go\<close>: the accumulators per query shape, pairing,
  the bounded list of differing operations, and the passes of \<open>Compare\<close> over the first file, the
  second file and what is left of the first.

  Go iterates the map of left-over operations in an arbitrary order: \<open>rng\<close>, any reordering of the
  keys, is an argument. The 64-bit counters are integers, because the code decrements one of them.
  The shape of an operation is an index into the list of accumulators.
\<close>

definition DiffResultCount :: string where "DiffResultCount = ''result_count_mismatch''"
definition DiffChecksum :: string where "DiffChecksum = ''checksum_mismatch''"
definition DiffErrorOnlyA :: string where "DiffErrorOnlyA = ''error_only_a''"
definition DiffErrorOnlyB :: string where "DiffErrorOnlyB = ''error_only_b''"
definition DiffErrorCode :: string where "DiffErrorCode = ''error_code_differs''"
definition DiffMissingInA :: string where "DiffMissingInA = ''missing_in_a''"
definition DiffMissingInB :: string where "DiffMissingInB = ''missing_in_b''"

lemmas diff_kinds = DiffResultCount_def DiffChecksum_def DiffErrorOnlyA_def DiffErrorOnlyB_def
  DiffErrorCode_def DiffMissingInA_def DiffMissingInB_def

subsection \<open>State\<close>

record totals =
  t_opsA :: int
  t_opsB :: int
  t_matched :: int
  t_differingOps :: int
  t_countMismatches :: int
  t_checksumMismatches :: int
  t_checksumsCompared :: int
  t_errorsOnlyA :: "string \<rightharpoonup> nat"
  t_errorsOnlyB :: "string \<rightharpoonup> nat"
  t_errorCodeDifferences :: int
  t_missingInA :: int
  t_missingInB :: int

record shapeRef =
  sr_ns :: string
  sr_op :: string
  sr_key :: string

record shapeAcc =
  sa_ref :: shapeRef
  sa_t :: totals
  sa_latA :: "int list"
  sa_latB :: "int list"

record opDiff =
  d_seq :: nat
  d_iteration :: int
  d_worker :: int
  d_workerSeq :: nat
  d_ref :: shapeRef
  d_kinds :: "string list"
  d_a :: "outcome option"
  d_b :: "outcome option"
  d_shapeSummary :: string
  d_command :: string
  d_commandNote :: string

record comparer =
  c_topN :: nat
  c_shapes :: "shapeAcc list"
  c_shapeIdx :: "shapeRef \<rightharpoonup> nat"
  c_summaries :: "string \<rightharpoonup> string"
  c_diffs :: "opDiff list"
  c_diffKeys :: "opKey list"

definition zero_totals :: totals where
  "zero_totals = \<lparr>t_opsA = 0, t_opsB = 0, t_matched = 0, t_differingOps = 0, t_countMismatches = 0,
     t_checksumMismatches = 0, t_checksumsCompared = 0, t_errorsOnlyA = Map.empty, t_errorsOnlyB = Map.empty,
     t_errorCodeDifferences = 0, t_missingInA = 0, t_missingInB = 0\<rparr>"

definition newShapeAcc :: "shapeRef \<Rightarrow> shapeAcc" where
  "newShapeAcc ref = \<lparr>sa_ref = ref, sa_t = zero_totals, sa_latA = [], sa_latB = []\<rparr>"

definition newComparer :: "nat \<Rightarrow> comparer" where
  "newComparer topN = \<lparr>c_topN = topN, c_shapes = [], c_shapeIdx = Map.empty, c_summaries = Map.empty,
     c_diffs = [], c_diffKeys = []\<rparr>"

definition comparer_shape :: "shapeRef \<Rightarrow> comparer \<Rightarrow> nat \<times> comparer" where
  "comparer_shape ref c =
     (case c_shapeIdx c ref of
        Some i \<Rightarrow> (i, c)
      | None \<Rightarrow> (let i = length (c_shapes c) in
          (i, c\<lparr>c_shapes := c_shapes c @ [newShapeAcc ref], c_shapeIdx := (c_shapeIdx c)(ref \<mapsto> i)\<rparr>)))"

text \<open>An update of the totals, or of the whole accumulator, of one shape.\<close>

definition upd_acc :: "nat \<Rightarrow> (shapeAcc \<Rightarrow> shapeAcc) \<Rightarrow> comparer \<Rightarrow> comparer" where
  "upd_acc i f c = c\<lparr>c_shapes := (c_shapes c)[i := f (c_shapes c ! i)]\<rparr>"

definition upd_totals :: "nat \<Rightarrow> (totals \<Rightarrow> totals) \<Rightarrow> comparer \<Rightarrow> comparer" where
  "upd_totals i f = upd_acc i (\<lambda>a. a\<lparr>sa_t := f (sa_t a)\<rparr>)"

subsection \<open>The list of differing operations\<close>

text \<open>\<open>trimDiffs\<close>: sort the indices by key, keep the first \<open>topN\<close>.\<close>

definition trimDiffs :: "comparer \<Rightarrow> comparer" where
  "trimDiffs c =
     (let idx = sort_key (\<lambda>i. c_diffKeys c ! i) [0..<length (c_diffs c)];
          idx' = (if length idx > c_topN c then take (c_topN c) idx else idx)
      in c\<lparr>c_diffs := map (\<lambda>j. c_diffs c ! j) idx', c_diffKeys := map (\<lambda>j. c_diffKeys c ! j) idx'\<rparr>)"

definition make_diff :: "comparer \<Rightarrow> op_result option \<Rightarrow> op_result option \<Rightarrow> string list \<Rightarrow> opDiff" where
  "make_diff c a b kinds =
     (let id = (case a of Some r \<Rightarrow> r | None \<Rightarrow> the b) in
      \<lparr>d_seq = rs_seq id, d_iteration = rs_iteration id, d_worker = rs_worker id, d_workerSeq = rs_workerSeq id,
       d_ref = sa_ref (c_shapes c ! rs_shape id), d_kinds = kinds,
       d_a = map_option result_outcome a, d_b = map_option result_outcome b,
       d_shapeSummary = [], d_command = [], d_commandNote = []\<rparr>)"

definition addDiff :: "opKey \<Rightarrow> op_result option \<Rightarrow> op_result option \<Rightarrow> string list \<Rightarrow> comparer \<Rightarrow> comparer" where
  "addDiff k a b kinds c =
     (let c1 = c\<lparr>c_diffs := c_diffs c @ [make_diff c a b kinds], c_diffKeys := c_diffKeys c @ [k]\<rparr>
      in if length (c_diffs c1) \<ge> 4 * c_topN c1 + 64 then trimDiffs c1 else c1)"

subsection \<open>Pairing\<close>

definition addCount :: "(string \<rightharpoonup> nat) \<Rightarrow> string \<Rightarrow> (string \<rightharpoonup> nat)" where
  "addCount m k = bump m k"

text \<open>The kinds of difference between two executions of one operation.\<close>

definition counts_differ :: "op_result \<Rightarrow> op_result \<Rightarrow> bool" where
  "counts_differ a b \<longleftrightarrow> rs_has a \<noteq> rs_has b \<or> rs_counts a \<noteq> rs_counts b \<or> rs_txn a \<noteq> rs_txn b"

definition sums_compared :: "op_result \<Rightarrow> op_result \<Rightarrow> bool" where
  "sums_compared a b \<longleftrightarrow> rs_sumState a = SumOK \<and> rs_sumState b = SumOK"

definition pair_kinds :: "op_result \<Rightarrow> op_result \<Rightarrow> string list" where
  "pair_kinds a b =
     (if rs_ok a \<and> \<not> rs_ok b then [DiffErrorOnlyB]
      else if \<not> rs_ok a \<and> rs_ok b then [DiffErrorOnlyA]
      else if \<not> rs_ok a \<and> \<not> rs_ok b then
        (if rs_errCode a \<noteq> rs_errCode b \<or> rs_errName a \<noteq> rs_errName b then [DiffErrorCode] else [])
      else (if counts_differ a b then [DiffResultCount] else []) @
        (if sums_compared a b \<and> rs_sum a \<noteq> rs_sum b then [DiffChecksum] else []))"

text \<open>The counters of \<open>pair\<close> on the accumulator of the shape.\<close>

definition pair_acc :: "op_result \<Rightarrow> op_result \<Rightarrow> shapeAcc \<Rightarrow> shapeAcc" where
  "pair_acc a b acc =
     (let t1 = (sa_t acc)\<lparr>t_matched := t_matched (sa_t acc) + 1\<rparr>;
          acc1 = (if rs_ok a \<and> \<not> rs_ok b then
              acc\<lparr>sa_t := t1\<lparr>t_errorsOnlyB := addCount (t_errorsOnlyB t1) (errorLabel b)\<rparr>\<rparr>
            else if \<not> rs_ok a \<and> rs_ok b then
              acc\<lparr>sa_t := t1\<lparr>t_errorsOnlyA := addCount (t_errorsOnlyA t1) (errorLabel a)\<rparr>\<rparr>
            else if \<not> rs_ok a \<and> \<not> rs_ok b then
              acc\<lparr>sa_t := (if rs_errCode a \<noteq> rs_errCode b \<or> rs_errName a \<noteq> rs_errName b
                then t1\<lparr>t_errorCodeDifferences := t_errorCodeDifferences t1 + 1\<rparr> else t1)\<rparr>
            else
              (let t2 = (if counts_differ a b then t1\<lparr>t_countMismatches := t_countMismatches t1 + 1\<rparr> else t1);
                   t3 = (if sums_compared a b then
                      (let t' = t2\<lparr>t_checksumsCompared := t_checksumsCompared t2 + 1\<rparr> in
                       if rs_sum a \<noteq> rs_sum b then t'\<lparr>t_checksumMismatches := t_checksumMismatches t' + 1\<rparr> else t')
                      else t2)
               in acc\<lparr>sa_t := t3, sa_latA := sa_latA acc @ [rs_latencyUS a], sa_latB := sa_latB acc @ [rs_latencyUS b]\<rparr>))
      in if pair_kinds a b \<noteq> [] then acc1\<lparr>sa_t := (sa_t acc1)\<lparr>t_differingOps := t_differingOps (sa_t acc1) + 1\<rparr>\<rparr>
         else acc1)"

definition pair :: "opKey \<Rightarrow> op_result \<Rightarrow> op_result \<Rightarrow> comparer \<Rightarrow> comparer" where
  "pair k a b c =
     (let c1 = upd_acc (rs_shape a) (pair_acc a b) c; kinds = pair_kinds a b
      in if kinds \<noteq> [] then addDiff k (Some a) (Some b) kinds c1 else c1)"

subsection \<open>The passes\<close>

definition line_ref :: "opLine \<Rightarrow> shapeRef" where
  "line_ref l = \<lparr>sr_ns = l_ns l, sr_op = l_op l, sr_key = l_shape l\<rparr>"

definition note_summary :: "opLine \<Rightarrow> comparer \<Rightarrow> comparer" where
  "note_summary l c = (if l_summary l \<noteq> [] then c\<lparr>c_summaries := (c_summaries c)(l_shape l \<mapsto> l_summary l)\<rparr> else c)"

text \<open>The first file: \<open>p_keys\<close> are the keys of the map \<open>p_ops\<close> in the order they were inserted.\<close>

record pass =
  p_c :: comparer
  p_ops :: "opKey \<rightharpoonup> op_result"
  p_keys :: "opKey list"
  p_seen :: "opKey set"
  p_dup :: nat
  p_noOutcome :: nat

definition init_pass :: "nat \<Rightarrow> pass" where
  "init_pass topN = \<lparr>p_c = newComparer topN, p_ops = Map.empty, p_keys = [], p_seen = {}, p_dup = 0, p_noOutcome = 0\<rparr>"

definition step_a :: "bool \<Rightarrow> pass \<Rightarrow> opLine \<Rightarrow> pass" where
  "step_a bySeq p l =
     (let p1 = p\<lparr>p_c := note_summary l (p_c p)\<rparr> in
      case l_outcome l of
        None \<Rightarrow> p1\<lparr>p_noOutcome := p_noOutcome p1 + 1\<rparr>
      | Some o1 \<Rightarrow>
         (let k = opLine_key bySeq l in
          if p_ops p1 k \<noteq> None then p1\<lparr>p_dup := p_dup p1 + 1\<rparr>
          else let (i, c) = comparer_shape (line_ref l) (p_c p1); r = (opLine_result l o1)\<lparr>rs_shape := i\<rparr>
            in p1\<lparr>p_c := upd_totals i (\<lambda>t. t\<lparr>t_opsA := t_opsA t + 1\<rparr>) c,
                  p_ops := (p_ops p1)(k \<mapsto> r), p_keys := p_keys p1 @ [k]\<rparr>))"

definition start_b :: "pass \<Rightarrow> pass" where
  "start_b p = p\<lparr>p_seen := {}, p_dup := 0\<rparr>"

text \<open>The body of the second file's loop for an operation seen for the first time.\<close>

definition meet_b :: "bool \<Rightarrow> opKey \<Rightarrow> opLine \<Rightarrow> outcome \<Rightarrow> pass \<Rightarrow> pass" where
  "meet_b preferB k l o1 p =
     (let (i, c) = comparer_shape (line_ref l) (p_c p);
          shape = (case p_ops p k of Some a \<Rightarrow> (if preferB then i else rs_shape a) | None \<Rightarrow> i);
          b = (opLine_result l o1)\<lparr>rs_shape := shape\<rparr>;
          c1 = upd_totals shape (\<lambda>t. t\<lparr>t_opsB := t_opsB t + 1\<rparr>) c
      in case p_ops p k of
           None \<Rightarrow>
             p\<lparr>p_c := addDiff k None (Some b) [DiffMissingInA]
               (upd_totals shape (\<lambda>t. t\<lparr>t_missingInA := t_missingInA t + 1, t_differingOps := t_differingOps t + 1\<rparr>) c1)\<rparr>
         | Some a \<Rightarrow>
             (let c2 = (if shape \<noteq> rs_shape a then
                  upd_totals shape (\<lambda>t. t\<lparr>t_opsA := t_opsA t + 1\<rparr>)
                    (upd_totals (rs_shape a) (\<lambda>t. t\<lparr>t_opsA := t_opsA t - 1\<rparr>) c1) else c1)
              in p\<lparr>p_ops := (p_ops p)(k := None), p_c := pair k (a\<lparr>rs_shape := shape\<rparr>) b c2\<rparr>))"

definition step_b :: "bool \<Rightarrow> bool \<Rightarrow> pass \<Rightarrow> opLine \<Rightarrow> pass" where
  "step_b bySeq preferB p l =
     (let p1 = p\<lparr>p_c := note_summary l (p_c p)\<rparr> in
      case l_outcome l of
        None \<Rightarrow> p1\<lparr>p_noOutcome := p_noOutcome p1 + 1\<rparr>
      | Some o1 \<Rightarrow>
         (let k = opLine_key bySeq l in
          if k \<in> p_seen p1 then p1\<lparr>p_dup := p_dup p1 + 1\<rparr>
          else meet_b preferB k l o1 (p1\<lparr>p_seen := insert k (p_seen p1)\<rparr>)))"

text \<open>What is left of the first file.\<close>

definition step_left :: "(opKey \<rightharpoonup> op_result) \<Rightarrow> comparer \<Rightarrow> opKey \<Rightarrow> comparer" where
  "step_left ops c k =
     (case ops k of
        None \<Rightarrow> c
      | Some a \<Rightarrow>
         addDiff k (Some a) None [DiffMissingInB]
           (upd_totals (rs_shape a) (\<lambda>t. t\<lparr>t_missingInB := t_missingInB t + 1, t_differingOps := t_differingOps t + 1\<rparr>) c))"

definition leftovers :: "pass \<Rightarrow> opKey list" where
  "leftovers p = filter (\<lambda>k. p_ops p k \<noteq> None) (p_keys p)"

definition pass_a :: "nat \<Rightarrow> bool \<Rightarrow> opLine list \<Rightarrow> pass" where
  "pass_a topN bySeq as = foldl (step_a bySeq) (init_pass topN) as"

definition pass_b :: "bool \<Rightarrow> bool \<Rightarrow> pass \<Rightarrow> opLine list \<Rightarrow> pass" where
  "pass_b bySeq preferB p bs = foldl (step_b bySeq preferB) (start_b p) bs"

definition compare_ops :: "(opKey list \<Rightarrow> opKey list) \<Rightarrow> nat \<Rightarrow> bool \<Rightarrow> bool \<Rightarrow> opLine list \<Rightarrow> opLine list \<Rightarrow> comparer" where
  "compare_ops rng topN bySeq preferB as bs =
     (let p = pass_b bySeq preferB (pass_a topN bySeq as) bs
      in trimDiffs (foldl (step_left (p_ops p)) (p_c p) (rng (leftovers p))))"

end
