(* ===== verification/CompareTop.thy ===== *)
theory CompareTop
  imports ReplayCompare
begin

text \<open>
  The bounded list of differing operations keeps the right ones: trimming to the \<open>topN\<close> lowest keys
  whenever the list has grown is the same as sorting everything that was ever added at the end.
\<close>

subsection \<open>The lowest elements of a list\<close>

definition lowest :: "nat \<Rightarrow> ('k::linorder \<times> 'v) list \<Rightarrow> ('k \<times> 'v) list" where
  "lowest n xs = take n (sort_key fst xs)"

lemma take_insort:
  "sorted (map f ys) \<Longrightarrow> n \<le> length (filter (\<lambda>y. f y < f x) ys) \<Longrightarrow> take n (insort_key f x ys) = take n ys"
proof (induction ys arbitrary: n)
  case (Cons y ys)
  show ?case
  proof (cases "f x \<le> f y")
    case True
    with Cons.prems(1) have "filter (\<lambda>z. f z < f x) (y # ys) = []"
      by (auto simp: filter_empty_conv not_less)
    with Cons.prems(2) show ?thesis by simp
  next
    case False
    then have "f y < f x" by simp
    with Cons show ?thesis by (cases n) simp_all
  qed
qed simp

lemma length_filter_sort [simp]: "length (filter P (sort_key f xs)) = length (filter P xs)"
  by (metis mset_filter mset_sort size_mset)

lemma take_sort_drop:
  "\<forall>x \<in> set ds. n \<le> length (filter (\<lambda>y. f y < f x) ys) \<Longrightarrow> take n (sort_key f (ds @ ys)) = take n (sort_key f ys)"
proof (induction ds)
  case (Cons d ds)
  have "length (filter (\<lambda>y. f y < f d) ys) \<le> length (filter (\<lambda>y. f y < f d) (sort_key f (ds @ ys)))"
    by simp
  with Cons.prems have "n \<le> length (filter (\<lambda>y. f y < f d) (sort_key f (ds @ ys)))"
    by (meson list.set_intros(1) le_trans)
  then have "take n (insort_key f d (sort_key f (ds @ ys))) = take n (sort_key f (ds @ ys))"
    by (intro take_insort) simp_all
  with Cons show ?case by simp
qed simp

lemma sort_key_agree: "\<forall>x \<in> set xs. f x = g x \<Longrightarrow> sort_key f xs = sort_key g xs"
proof (induction xs)
  case (Cons x xs)
  have "\<forall>y \<in> insert x (set ys). f y = g y \<Longrightarrow> insort_key f x ys = insort_key g x ys" for ys
    by (induction ys) auto
  with Cons show ?case by simp
qed simp

lemma distinct_fst_inj: "distinct (map fst xs) \<Longrightarrow> inj_on fst (set xs)"
  by (simp add: distinct_map)

lemma sort_fst_cong:
  "mset xs = mset ys \<Longrightarrow> distinct (map fst xs) \<Longrightarrow> sort_key fst xs = sort_key fst ys"
  by (rule sort_key_inj_key_eq) (simp_all add: distinct_fst_inj)

lemma lowest_cong: "set xs = set ys \<Longrightarrow> distinct (map fst xs) \<Longrightarrow> distinct (map fst ys) \<Longrightarrow> lowest n xs = lowest n ys"
  by (metis distinct_map set_eq_iff_mset_eq_distinct sort_fst_cong lowest_def)

lemma lowest_append:
  assumes "distinct (map fst (xs @ zs))"
  shows "lowest n (lowest n xs @ zs) = lowest n (xs @ zs)"
proof (cases "length xs \<le> n")
  case True
  then have "lowest n xs = sort_key fst xs" by (simp add: lowest_def)
  moreover have "sort_key fst (sort_key fst xs @ zs) = sort_key fst (xs @ zs)"
    using assms by (intro sort_fst_cong) (auto simp: distinct_map)
  ultimately show ?thesis by (simp add: lowest_def)
next
  case False
  let ?s = "sort_key fst xs"
  let ?t = "take n ?s" and ?d = "drop n ?s"
  have sorted: "sorted (map fst ?s)" by simp
  have dist: "distinct (map fst ?s)" using assms by (simp add: distinct_map)
  have below: "fst y < fst x" if "y \<in> set ?t" "x \<in> set ?d" for x y
  proof -
    have m: "map fst ?s = map fst ?t @ map fst ?d"
      by (metis append_take_drop_id map_append)
    from sorted m have "fst y \<le> fst x" using that by (auto simp: sorted_append)
    moreover from dist m have "fst y \<noteq> fst x" using that by auto
    ultimately show ?thesis by simp
  qed
  have "n \<le> length (filter (\<lambda>y. fst y < fst x) (?t @ zs))" if "x \<in> set ?d" for x
  proof -
    have "filter (\<lambda>y. fst y < fst x) ?t = ?t"
      using below [OF _ that] by (simp add: filter_id_conv)
    with False show ?thesis by simp
  qed
  then have "take n (sort_key fst (?d @ ?t @ zs)) = take n (sort_key fst (?t @ zs))"
    by (intro take_sort_drop) blast
  moreover have "mset (?d @ ?t @ zs) = mset (xs @ zs)"
    by (metis append_take_drop_id mset_append mset_sort union_assoc union_commute)
  then have "sort_key fst (?d @ ?t @ zs) = sort_key fst (xs @ zs)"
    using assms by (intro sym [OF sort_fst_cong]) simp_all
  ultimately show ?thesis by (simp add: lowest_def)
qed

lemma set_lowest: "set (lowest n xs) \<subseteq> set xs"
  unfolding lowest_def by (metis set_sort set_take_subset)

lemma distinct_lowest: "distinct (map fst xs) \<Longrightarrow> distinct (map fst (lowest n xs))"
  by (simp add: lowest_def take_map [symmetric] distinct_map)

lemma lowest_lowest [simp]: "lowest n (lowest n xs) = lowest n xs"
proof -
  have "sorted (map fst (lowest n xs))"
    by (simp add: lowest_def take_map [symmetric] sorted_wrt_take)
  then have "sort_key fst (lowest n xs) = lowest n xs"
    by (rule sort_key_id_if_sorted)
  then show ?thesis by (simp add: lowest_def [of n "lowest n xs"] lowest_def)
qed

lemma lowest_keys: "distinct (map fst xs) \<Longrightarrow> map fst (lowest n xs) = take n (sorted_list_of_set (fst ` set xs))"
proof -
  assume d: "distinct (map fst xs)"
  have "map fst (sort_key fst xs) = sort (map fst xs)"
    by (rule properties_for_sort [symmetric]) simp_all
  also have "\<dots> = sorted_list_of_set (fst ` set xs)"
    using d by (metis distinct_remdups_id list.set_map sorted_list_of_set_sort_remdups)
  finally show ?thesis by (simp add: lowest_def take_map [symmetric])
qed

subsection \<open>What the comparer holds\<close>

definition entries :: "comparer \<Rightarrow> (opKey \<times> opDiff) list" where
  "entries c = zip (c_diffKeys c) (c_diffs c)"

lemma sort_key_nth:
  "map (\<lambda>i. xs ! i) (sort_key (\<lambda>i. f (xs ! i)) [0..<length xs]) = sort_key f xs"
proof (rule properties_for_sort_key [symmetric])
  show "mset (map ((!) xs) (sort_key (\<lambda>i. f (xs ! i)) [0..<length xs])) = mset xs"
    by (metis map_nth mset_map mset_sort)
  show "sorted (map f (map ((!) xs) (sort_key (\<lambda>i. f (xs ! i)) [0..<length xs])))"
    using sorted_sort_key [of "\<lambda>i. f (xs ! i)" "[0..<length xs]"] by (simp add: comp_def)
  fix k
  let ?i = "sort_key (\<lambda>i. f (xs ! i)) [0..<length xs]"
  have "filter (\<lambda>x. f k = f x) (map ((!) xs) ?i) = map ((!) xs) (filter (\<lambda>i. f (xs ! i) = f k) ?i)"
    by (simp add: filter_map comp_def eq_commute [of "f k"])
  also have "\<dots> = map ((!) xs) (filter (\<lambda>i. f (xs ! i) = f k) [0..<length xs])"
    by (simp add: sort_key_stable)
  also have "\<dots> = filter (\<lambda>x. f k = f x) (map ((!) xs) [0..<length xs])"
    by (simp add: filter_map comp_def eq_commute [of "f k"])
  finally show "filter (\<lambda>x. f k = f x) (map ((!) xs) ?i) = filter (\<lambda>x. f k = f x) xs"
    by (simp add: map_nth)
qed

lemma entries_trimDiffs:
  assumes "length (c_diffKeys c) = length (c_diffs c)"
  shows "entries (trimDiffs c) = lowest (c_topN c) (entries c)"
proof -
  let ?n = "c_topN c" and ?e = "entries c"
  let ?idx = "sort_key (\<lambda>i. c_diffKeys c ! i) [0..<length (c_diffs c)]"
  have len: "length ?e = length (c_diffs c)" using assms by (simp add: entries_def)
  have keys: "c_diffKeys c ! i = fst (?e ! i)" "c_diffs c ! i = snd (?e ! i)" if "i < length (c_diffs c)" for i
    using that assms by (simp_all add: entries_def)
  have idx: "?idx = sort_key (\<lambda>i. fst (?e ! i)) [0..<length ?e]"
    unfolding len by (rule sort_key_agree) (simp add: keys)
  let ?t = "take ?n ?idx"
  have "(if length ?idx > ?n then take ?n ?idx else ?idx) = ?t" by simp
  then have "entries (trimDiffs c) = zip (map ((!) (c_diffKeys c)) ?t) (map ((!) (c_diffs c)) ?t)"
    by (simp add: trimDiffs_def entries_def Let_def)
  also have "\<dots> = map (\<lambda>i. ?e ! i) ?t"
  proof -
    have "\<forall>i \<in> set ?t. i < length (c_diffs c)"
      using set_take_subset [of ?n ?idx] by auto
    then show ?thesis by (simp add: zip_map1 zip_map2 zip_same_conv_map keys)
  qed
  also have "\<dots> = take ?n (map (\<lambda>i. ?e ! i) ?idx)" by (simp add: take_map)
  also have "\<dots> = lowest ?n ?e"
    unfolding idx lowest_def sort_key_nth ..
  finally show ?thesis .
qed

lemma trimDiffs_keeps [simp]:
  "c_topN (trimDiffs c) = c_topN c" "c_shapes (trimDiffs c) = c_shapes c"
  "c_shapeIdx (trimDiffs c) = c_shapeIdx c" "c_summaries (trimDiffs c) = c_summaries c"
  "length (c_diffKeys (trimDiffs c)) = length (c_diffs (trimDiffs c))"
  by (simp_all add: trimDiffs_def Let_def)

lemma addDiff_keeps [simp]:
  "c_topN (addDiff k a b ks c) = c_topN c" "c_shapes (addDiff k a b ks c) = c_shapes c"
  "c_shapeIdx (addDiff k a b ks c) = c_shapeIdx c" "c_summaries (addDiff k a b ks c) = c_summaries c"
  by (simp_all add: addDiff_def Let_def)

text \<open>\<open>holds c D\<close>: the list of the comparer is a trimmed version of the history \<open>D\<close> of all additions.\<close>

definition holds :: "comparer \<Rightarrow> (opKey \<times> opDiff) list \<Rightarrow> bool" where
  "holds c D \<longleftrightarrow> length (c_diffKeys c) = length (c_diffs c) \<and> distinct (map fst D) \<and>
     distinct (map fst (entries c)) \<and> set (entries c) \<subseteq> set D \<and> lowest (c_topN c) (entries c) = lowest (c_topN c) D"

lemma holds_addDiff:
  assumes h: "holds c D" and k: "k \<notin> fst ` set D"
  shows "holds (addDiff k a b ks c) (D @ [(k, make_diff c a b ks)])"
proof -
  let ?x = "(k, make_diff c a b ks)" and ?n = "c_topN c"
  define c1 where "c1 = c\<lparr>c_diffs := c_diffs c @ [make_diff c a b ks], c_diffKeys := c_diffKeys c @ [k]\<rparr>"
  from h have len: "length (c_diffKeys c) = length (c_diffs c)" by (simp add: holds_def)
  have e1: "entries c1 = entries c @ [?x]" and len1: "length (c_diffKeys c1) = length (c_diffs c1)"
    using len by (simp_all add: entries_def c1_def)
  have kc: "k \<notin> fst ` set (entries c)"
    using h k by (auto simp: holds_def)
  have dc: "distinct (map fst (entries c @ [?x]))" and dD: "distinct (map fst (D @ [?x]))"
    using h k kc by (auto simp: holds_def)
  have eq: "lowest ?n (entries c @ [?x]) = lowest ?n (D @ [?x])"
    using h lowest_append [OF dc, of ?n] lowest_append [OF dD, of ?n] by (simp add: holds_def)
  have h1: "holds c1 (D @ [?x])"
    using h eq dc dD len1 unfolding holds_def e1 by (auto simp: c1_def)
  have "holds (trimDiffs c1) (D @ [?x])"
    using h1 set_lowest [of "c_topN c1" "entries c1"]
    by (auto simp: holds_def entries_trimDiffs distinct_lowest)
  with h1 show ?thesis
    by (simp add: addDiff_def c1_def [symmetric] Let_def)
qed

lemma holds_trimDiffs: "holds c D \<Longrightarrow> entries (trimDiffs c) = lowest (c_topN c) D"
  by (simp add: holds_def entries_trimDiffs)

lemma holds_same_lists:
  "holds c D \<Longrightarrow> c_topN c' = c_topN c \<Longrightarrow> c_diffs c' = c_diffs c \<Longrightarrow> c_diffKeys c' = c_diffKeys c \<Longrightarrow> holds c' D"
  by (auto simp: holds_def entries_def)

end
