(* ===== verification/CompareProofs.thy ===== *)
theory CompareProofs
  imports CompareTop
begin

text \<open>
  What the passes of the replay comparison compute: every operation of either file is counted once
  and in one shape, and the differences are exactly those of the two files read as maps from
  operation keys to results (the first operation of a key counts).
\<close>

subsection \<open>The two files as maps\<close>

definition keyed :: "bool \<Rightarrow> opLine list \<Rightarrow> (opKey \<times> op_result) list" where
  "keyed bySeq ls = concat (map (\<lambda>l. case l_outcome l of None \<Rightarrow> []
     | Some o1 \<Rightarrow> [(opLine_key bySeq l, opLine_result l o1)]) ls)"

definition ops_of :: "bool \<Rightarrow> opLine list \<Rightarrow> (opKey \<rightharpoonup> op_result)" where
  "ops_of bySeq ls = map_of (keyed bySeq ls)"

lemma finite_ops_of [simp]: "finite (dom (ops_of bySeq ls))"
  by (simp add: ops_of_def finite_dom_map_of)

lemma ops_of_Nil [simp]: "ops_of bySeq [] = Map.empty"
  by (simp add: ops_of_def keyed_def)

lemma map_of_snoc: "map_of (xs @ [(k, v)]) = (if map_of xs k = None then (map_of xs)(k \<mapsto> v) else map_of xs)"
  by (auto simp: map_add_def fun_eq_iff split: option.split)

lemma ops_of_snoc:
  "ops_of bySeq (ls @ [l]) = (case l_outcome l of None \<Rightarrow> ops_of bySeq ls
     | Some o1 \<Rightarrow> if ops_of bySeq ls (opLine_key bySeq l) = None
         then (ops_of bySeq ls)(opLine_key bySeq l \<mapsto> opLine_result l o1) else ops_of bySeq ls)"
proof (cases "l_outcome l")
  case (Some o1)
  have "keyed bySeq (ls @ [l]) = keyed bySeq ls @ [(opLine_key bySeq l, opLine_result l o1)]"
    by (simp add: keyed_def Some)
  then show ?thesis
    unfolding ops_of_def by (simp only: map_of_snoc Some option.case)
qed (simp add: ops_of_def keyed_def)

text \<open>What is reported of a key, from what both files hold of it.\<close>

fun key_kinds :: "op_result option \<Rightarrow> op_result option \<Rightarrow> string list" where
  "key_kinds None None = []"
| "key_kinds (Some a) None = [DiffMissingInB]"
| "key_kinds None (Some b) = [DiffMissingInA]"
| "key_kinds (Some a) (Some b) = pair_kinds a b"

definition diff_view :: "opDiff \<Rightarrow> string list \<times> outcome option \<times> outcome option" where
  "diff_view d = (d_kinds d, d_a d, d_b d)"

definition key_view :: "op_result option \<Rightarrow> op_result option \<Rightarrow> string list \<times> outcome option \<times> outcome option" where
  "key_view a b = (key_kinds a b, map_option result_outcome a, map_option result_outcome b)"

subsection \<open>Shape indices do not matter to a pair\<close>

definition unshaped :: "op_result \<Rightarrow> op_result" where
  "unshaped r = r\<lparr>rs_shape := 0\<rparr>"

lemma unshaped_simps [simp]:
  "unshaped (r\<lparr>rs_shape := i\<rparr>) = unshaped r" "unshaped (opLine_result l o1) = opLine_result l o1"
  by (simp_all add: unshaped_def opLine_result_def toResult_def Let_def split: prod.split)

lemma unshaped_fields [simp]:
  "rs_ok (unshaped a) = rs_ok a" "rs_errCode (unshaped a) = rs_errCode a" "rs_errName (unshaped a) = rs_errName a"
  "rs_has (unshaped a) = rs_has a" "rs_counts (unshaped a) = rs_counts a" "rs_txn (unshaped a) = rs_txn a"
  "rs_sumState (unshaped a) = rs_sumState a" "rs_sum (unshaped a) = rs_sum a" "rs_latencyUS (unshaped a) = rs_latencyUS a"
  by (simp_all add: unshaped_def)

lemma pair_kinds_unshaped [simp]:
  "pair_kinds (unshaped a) b = pair_kinds a b" "pair_kinds a (unshaped b) = pair_kinds a b"
  by (simp_all add: pair_kinds_def counts_differ_def sums_compared_def)

lemma pair_kinds_shape [simp]:
  "pair_kinds (a\<lparr>rs_shape := i\<rparr>) b = pair_kinds a b" "pair_kinds a (b\<lparr>rs_shape := i\<rparr>) = pair_kinds a b"
  by (simp_all add: pair_kinds_def counts_differ_def sums_compared_def)

lemma count_ptr_shape [simp]: "count_ptr (a\<lparr>rs_shape := i\<rparr>) j = count_ptr a j"
  by (simp add: count_ptr_def)

lemma result_outcome_shape [simp]:
  "result_outcome (unshaped a) = result_outcome a" "result_outcome (a\<lparr>rs_shape := i\<rparr>) = result_outcome a"
  by (simp_all add: result_outcome_def unshaped_def split: sum_state.split)

subsection \<open>Accumulators\<close>

lemma upd_acc_keeps [simp]:
  "length (c_shapes (upd_acc i f c)) = length (c_shapes c)" "c_shapeIdx (upd_acc i f c) = c_shapeIdx c"
  "c_topN (upd_acc i f c) = c_topN c" "c_diffs (upd_acc i f c) = c_diffs c" "c_diffKeys (upd_acc i f c) = c_diffKeys c"
  "c_summaries (upd_acc i f c) = c_summaries c"
  by (simp_all add: upd_acc_def)

lemma upd_acc_nth:
  "j < length (c_shapes c) \<Longrightarrow> c_shapes (upd_acc i f c) ! j = (if i = j then f (c_shapes c ! j) else c_shapes c ! j)"
  by (simp add: upd_acc_def nth_list_update)

lemma note_summary_keeps [simp]:
  "c_shapes (note_summary l c) = c_shapes c" "c_shapeIdx (note_summary l c) = c_shapeIdx c"
  "c_topN (note_summary l c) = c_topN c" "c_diffs (note_summary l c) = c_diffs c"
  "c_diffKeys (note_summary l c) = c_diffKeys c"
  by (simp_all add: note_summary_def)

definition tsum :: "(totals \<Rightarrow> int) \<Rightarrow> comparer \<Rightarrow> int" where
  "tsum f c = sum_list (map (\<lambda>a. f (sa_t a)) (c_shapes c))"

lemma sum_list_upd: "i < length xs \<Longrightarrow> sum_list (xs[i := (y :: int)]) = sum_list xs + y - xs ! i"
  by (induction xs arbitrary: i) (auto split: nat.split)

lemma tsum_upd_acc:
  "i < length (c_shapes c) \<Longrightarrow>
     tsum f (upd_acc i g c) = tsum f c + f (sa_t (g (c_shapes c ! i))) - f (sa_t (c_shapes c ! i))"
  by (simp add: tsum_def upd_acc_def map_update sum_list_upd)

lemma tsum_upd_totals:
  "i < length (c_shapes c) \<Longrightarrow>
     tsum f (upd_totals i g c) = tsum f c + f (g (sa_t (c_shapes c ! i))) - f (sa_t (c_shapes c ! i))"
  by (simp add: upd_totals_def tsum_upd_acc)

lemma upd_totals_keeps [simp]:
  "length (c_shapes (upd_totals i f c)) = length (c_shapes c)" "c_shapeIdx (upd_totals i f c) = c_shapeIdx c"
  "c_topN (upd_totals i f c) = c_topN c" "c_diffs (upd_totals i f c) = c_diffs c"
  "c_diffKeys (upd_totals i f c) = c_diffKeys c"
  by (simp_all add: upd_totals_def)

lemma upd_totals_nth:
  "j < length (c_shapes c) \<Longrightarrow> c_shapes (upd_totals i f c) ! j =
     (if i = j then (c_shapes c ! j)\<lparr>sa_t := f (sa_t (c_shapes c ! j))\<rparr> else c_shapes c ! j)"
  by (simp add: upd_totals_def upd_acc_nth)

lemma tsum_keeps [simp]:
  "tsum f (addDiff k a b ks c) = tsum f c" "tsum f (trimDiffs c) = tsum f c" "tsum f (note_summary l c) = tsum f c"
  by (simp_all add: tsum_def)

text \<open>What \<open>pair\<close> adds to an accumulator.\<close>

lemma pair_acc_totals [simp]:
  "t_matched (sa_t (pair_acc a b acc)) = t_matched (sa_t acc) + 1"
  "t_opsA (sa_t (pair_acc a b acc)) = t_opsA (sa_t acc)"
  "t_opsB (sa_t (pair_acc a b acc)) = t_opsB (sa_t acc)"
  "t_missingInA (sa_t (pair_acc a b acc)) = t_missingInA (sa_t acc)"
  "t_missingInB (sa_t (pair_acc a b acc)) = t_missingInB (sa_t acc)"
  "t_differingOps (sa_t (pair_acc a b acc)) = t_differingOps (sa_t acc) + (if pair_kinds a b = [] then 0 else 1)"
  "sa_ref (pair_acc a b acc) = sa_ref acc"
  by (simp_all add: pair_acc_def Let_def)

lemma pair_acc_latencies:
  "length (sa_latA acc) = length (sa_latB acc) \<Longrightarrow>
     length (sa_latA (pair_acc a b acc)) = length (sa_latB (pair_acc a b acc))"
  "int (length (sa_latA acc)) \<le> t_matched (sa_t acc) \<Longrightarrow>
     int (length (sa_latA (pair_acc a b acc))) \<le> t_matched (sa_t acc) + 1"
  by (simp_all add: pair_acc_def Let_def)

lemma pair_keeps [simp]:
  "length (c_shapes (pair k a b c)) = length (c_shapes c)" "c_shapeIdx (pair k a b c) = c_shapeIdx c"
  "c_topN (pair k a b c) = c_topN c"
  by (simp_all add: pair_def Let_def)

lemma pair_shapes: "c_shapes (pair k a b c) = c_shapes (upd_acc (rs_shape a) (pair_acc a b) c)"
  by (simp add: pair_def Let_def)

lemma tsum_pair: "tsum f (pair k a b c) = tsum f (upd_acc (rs_shape a) (pair_acc a b) c)"
  by (simp add: tsum_def pair_shapes)

subsection \<open>Looking up a shape\<close>

definition shapes_ok :: "comparer \<Rightarrow> (opKey \<rightharpoonup> op_result) \<Rightarrow> bool" where
  "shapes_ok c ops \<longleftrightarrow> (\<forall>ref i. c_shapeIdx c ref = Some i \<longrightarrow> i < length (c_shapes c)) \<and>
     (\<forall>k a. ops k = Some a \<longrightarrow> rs_shape a < length (c_shapes c))"

lemma comparer_shape_cases:
  assumes "comparer_shape ref c = (i, c')" and "shapes_ok c ops"
  shows "i < length (c_shapes c')" "shapes_ok c' ops" "c_topN c' = c_topN c" "c_diffs c' = c_diffs c"
    "c_diffKeys c' = c_diffKeys c" "tsum t_differingOps c' = tsum t_differingOps c" "tsum t_matched c' = tsum t_matched c"
    "tsum t_missingInA c' = tsum t_missingInA c" "tsum t_missingInB c' = tsum t_missingInB c"
    "tsum t_opsA c' = tsum t_opsA c" "tsum t_opsB c' = tsum t_opsB c"
    "c_shapes c' = c_shapes c \<or> c_shapes c' = c_shapes c @ [newShapeAcc ref]"
  using assms
  by (auto simp: comparer_shape_def shapes_ok_def Let_def tsum_def newShapeAcc_def zero_totals_def
      split: option.splits if_splits) (blast intro: less_SucI)+

lemma shapes_ok_same:
  "shapes_ok c ops \<Longrightarrow> length (c_shapes c') = length (c_shapes c) \<Longrightarrow> c_shapeIdx c' = c_shapeIdx c \<Longrightarrow> shapes_ok c' ops"
  by (simp add: shapes_ok_def)

subsection \<open>Every operation is counted once, in one shape\<close>

definition holders :: "(opKey \<rightharpoonup> op_result) \<Rightarrow> nat \<Rightarrow> opKey set" where
  "holders ops i = {k. \<exists>a. ops k = Some a \<and> rs_shape a = i}"

lemma holders_insert:
  "ops k = None \<Longrightarrow> holders (ops(k \<mapsto> a)) i = (if rs_shape a = i then insert k (holders ops i) else holders ops i)"
  by (auto simp: holders_def)

lemma holders_delete:
  "ops k = Some a \<Longrightarrow> holders (ops(k := None)) i = (if rs_shape a = i then holders ops i - {k} else holders ops i)"
  by (auto simp: holders_def)

lemma holders_mem: "k \<in> holders ops i \<longleftrightarrow> (\<exists>a. ops k = Some a \<and> rs_shape a = i)"
  by (simp add: holders_def)

lemma finite_holders [simp]: "finite (dom ops) \<Longrightarrow> finite (holders ops i)"
  by (rule finite_subset [of _ "dom ops"]) (auto simp: holders_def)

text \<open>The balance of one accumulator, with \<open>n\<close> operations of the first file still to be met.\<close>

definition balanced :: "int \<Rightarrow> shapeAcc \<Rightarrow> bool" where
  "balanced n acc \<longleftrightarrow> t_opsA (sa_t acc) = t_matched (sa_t acc) + t_missingInB (sa_t acc) + n \<and>
     t_opsB (sa_t acc) = t_matched (sa_t acc) + t_missingInA (sa_t acc) \<and>
     length (sa_latA acc) = length (sa_latB acc) \<and> int (length (sa_latA acc)) \<le> t_matched (sa_t acc)"

definition bal :: "comparer \<Rightarrow> (opKey \<rightharpoonup> op_result) \<Rightarrow> bool" where
  "bal c ops \<longleftrightarrow> (\<forall>i < length (c_shapes c). balanced (int (card (holders ops i))) (c_shapes c ! i))"

lemma bal_same_shapes: "bal c ops \<Longrightarrow> c_shapes c' = c_shapes c \<Longrightarrow> bal c' ops"
  by (simp add: bal_def)

lemma bal_comparer_shape:
  assumes "comparer_shape ref c = (i, c')" and ok: "shapes_ok c ops" and "bal c ops"
  shows "bal c' ops"
proof -
  have none: "holders ops (length (c_shapes c)) = {}"
    using ok by (fastforce simp: holders_def shapes_ok_def)
  have new: "balanced 0 (newShapeAcc ref)"
    by (simp add: balanced_def newShapeAcc_def zero_totals_def)
  from comparer_shape_cases(12) [OF assms(1,2)] show ?thesis
    using assms(3) none new by (auto simp: bal_def nth_append less_Suc_eq)
qed

lemma card_holders_insert:
  "finite (dom ops) \<Longrightarrow> ops k = None \<Longrightarrow>
     int (card (holders (ops(k \<mapsto> a)) i)) = int (card (holders ops i)) + (if rs_shape a = i then 1 else 0)"
  using holders_mem [of k ops] by (simp add: holders_insert)

lemma card_holders_delete:
  assumes "finite (dom ops)" and "ops k = Some a"
  shows "int (card (holders (ops(k := None)) i)) = int (card (holders ops i)) - (if rs_shape a = i then 1 else 0)"
proof (cases "rs_shape a = i")
  case True
  then have "k \<in> holders ops i" using assms(2) by (simp add: holders_def)
  then have "0 < card (holders ops i)" "card (holders ops i - {k}) = card (holders ops i) - 1"
    using assms(1) by (auto simp: card_gt_0_iff)
  with True show ?thesis
    by (simp add: holders_delete [of ops k a, OF assms(2)] of_nat_diff Suc_leI)
qed (simp add: holders_delete [of ops k a, OF assms(2)])

lemma bal_met:
  assumes bal: "bal c ops" and fin: "finite (dom ops)" and k: "ops k = Some a"
    and s: "s < length (c_shapes c)" and ok: "shapes_ok c ops"
    and a': "rs_shape a' = s"
  defines "c1 \<equiv> upd_totals s (\<lambda>t. t\<lparr>t_opsB := t_opsB t + 1\<rparr>) c"
  defines "c2 \<equiv> (if s \<noteq> rs_shape a then upd_totals s (\<lambda>t. t\<lparr>t_opsA := t_opsA t + 1\<rparr>)
      (upd_totals (rs_shape a) (\<lambda>t. t\<lparr>t_opsA := t_opsA t - 1\<rparr>) c1) else c1)"
  shows "bal (pair k a' b c2) (ops(k := None))"
  unfolding bal_def
proof (intro allI impI)
  fix j assume "j < length (c_shapes (pair k a' b c2))"
  then have j: "j < length (c_shapes c)" by (simp add: c2_def c1_def split: if_splits)
  have old: "balanced (int (card (holders ops j))) (c_shapes c ! j)"
    using bal j by (simp add: bal_def)
  have new: "c_shapes (pair k a' b c2) ! j = (if s = j then pair_acc a' b (c_shapes c2 ! j) else c_shapes c2 ! j)"
    using j by (simp add: pair_shapes upd_acc_nth a' c2_def c1_def)
  show "balanced (int (card (holders (ops(k := None)) j))) (c_shapes (pair k a' b c2) ! j)"
    unfolding new card_holders_delete [of ops k a, OF fin k]
    using old j pair_acc_latencies [of "c_shapes c2 ! j" a' b]
    by (auto simp: balanced_def c2_def c1_def upd_totals_nth)
qed

lemma bal_unmet:
  assumes bal: "bal c ops" and s: "s < length (c_shapes c)"
  shows "bal (upd_totals s (\<lambda>t. t\<lparr>t_missingInA := t_missingInA t + 1, t_differingOps := t_differingOps t + 1\<rparr>)
      (upd_totals s (\<lambda>t. t\<lparr>t_opsB := t_opsB t + 1\<rparr>) c)) ops"
  using assms by (auto simp: bal_def balanced_def upd_totals_nth)

lemma bal_first:
  assumes bal: "bal c ops" and "finite (dom ops)" and "ops k = None" and "rs_shape r < length (c_shapes c)"
  shows "bal (upd_totals (rs_shape r) (\<lambda>t. t\<lparr>t_opsA := t_opsA t + 1\<rparr>) c) (ops(k \<mapsto> r))"
  using assms by (auto simp: bal_def balanced_def upd_totals_nth card_holders_insert)

subsection \<open>The first file\<close>

definition counted :: "comparer \<Rightarrow> (opKey \<rightharpoonup> op_result) \<Rightarrow> (opKey \<rightharpoonup> op_result) \<Rightarrow> nat \<Rightarrow> bool" where
  "counted c A B n \<longleftrightarrow> tsum t_opsA c = int (card (dom A)) \<and> tsum t_opsB c = int (card (dom B)) \<and>
     tsum t_matched c = int (card (dom A \<inter> dom B)) \<and> tsum t_missingInA c = int (card (dom B - dom A)) \<and>
     tsum t_missingInB c = 0 \<and> tsum t_differingOps c = int n"

definition pass_a_inv :: "nat \<Rightarrow> bool \<Rightarrow> opLine list \<Rightarrow> pass \<Rightarrow> bool" where
  "pass_a_inv topN bySeq as p \<longleftrightarrow>
     (\<forall>k. map_option unshaped (p_ops p k) = ops_of bySeq as k) \<and>
     distinct (p_keys p) \<and> set (p_keys p) = dom (p_ops p) \<and>
     shapes_ok (p_c p) (p_ops p) \<and> bal (p_c p) (p_ops p) \<and>
     c_diffs (p_c p) = [] \<and> c_diffKeys (p_c p) = [] \<and> c_topN (p_c p) = topN \<and>
     counted (p_c p) (ops_of bySeq as) Map.empty 0"

lemma dom_unshaped: "\<forall>k. map_option unshaped (ops k) = A k \<Longrightarrow> dom ops = dom A"
proof -
  assume a: "\<forall>k. map_option unshaped (ops k) = A k"
  have "ops k = None \<longleftrightarrow> A k = None" for k
    using spec [OF a, of k, symmetric] by (cases "ops k") simp_all
  then show "dom ops = dom A" unfolding dom_def by (simp del: not_None_eq)
qed

lemma pass_a_inv_step:
  assumes inv: "pass_a_inv topN bySeq as p"
  shows "pass_a_inv topN bySeq (as @ [l]) (step_a bySeq p l)"
proof -
  let ?c = "note_summary l (p_c p)" and ?k = "opLine_key bySeq l"
  have dom: "dom (p_ops p) = dom (ops_of bySeq as)"
    using inv by (intro dom_unshaped) (simp add: pass_a_inv_def)
  have noted: "pass_a_inv topN bySeq as (p\<lparr>p_c := ?c\<rparr>)"
    using inv by (auto simp: pass_a_inv_def shapes_ok_def bal_def counted_def)
  show ?thesis
  proof (cases "l_outcome l")
    case None
    with noted show ?thesis by (simp add: step_a_def ops_of_snoc pass_a_inv_def)
  next
    case (Some o1)
    show ?thesis
    proof (cases "p_ops p ?k = None")
      case False
      then have "ops_of bySeq as ?k \<noteq> None" using dom by (metis domIff)
      with noted Some False show ?thesis by (auto simp: step_a_def ops_of_snoc pass_a_inv_def Let_def)
    next
      case True
      then have new: "ops_of bySeq as ?k = None" using dom by (metis domIff)
      obtain i c where ic: "comparer_shape (line_ref l) ?c = (i, c)" by fastforce
      have ok: "shapes_ok ?c (p_ops p)" and bal: "bal ?c (p_ops p)"
        using noted by (simp_all add: pass_a_inv_def)
      note cs = comparer_shape_cases [OF ic ok]
      let ?r = "(opLine_result l o1)\<lparr>rs_shape := i\<rparr>"
      let ?c' = "upd_totals i (\<lambda>t. t\<lparr>t_opsA := t_opsA t + 1\<rparr>) c"
      have step: "step_a bySeq p l = p\<lparr>p_c := ?c', p_ops := (p_ops p)(?k \<mapsto> ?r), p_keys := p_keys p @ [?k]\<rparr>"
        using True Some ic by (simp add: step_a_def Let_def)
      have fin: "finite (dom (p_ops p))" using dom by simp
      have "bal ?c' ((p_ops p)(?k \<mapsto> ?r))"
        using bal_first [OF bal_comparer_shape [OF ic ok bal] fin True, of ?r] cs(1) by simp
      moreover have "shapes_ok ?c' ((p_ops p)(?k \<mapsto> ?r))"
        using cs(1,2) by (auto simp: shapes_ok_def)
      moreover have "counted ?c' ((ops_of bySeq as)(?k \<mapsto> opLine_result l o1)) Map.empty 0"
        using noted cs new by (auto simp: pass_a_inv_def counted_def tsum_upd_totals card_insert_if)
      ultimately show ?thesis
        using noted cs new True Some by (auto simp: pass_a_inv_def step ops_of_snoc)
    qed
  qed
qed

lemma pass_a_inv: "pass_a_inv topN bySeq as (pass_a topN bySeq as)"
proof (induction as rule: rev_induct)
  case Nil
  show ?case
    by (simp add: pass_a_def pass_a_inv_def init_pass_def newComparer_def shapes_ok_def bal_def counted_def tsum_def)
next
  case (snoc l as)
  then show ?case using pass_a_inv_step [of topN bySeq as "pass_a topN bySeq as" l] by (simp add: pass_a_def)
qed

subsection \<open>The second file\<close>

definition pass_b_inv ::
    "nat \<Rightarrow> bool \<Rightarrow> opLine list \<Rightarrow> opLine list \<Rightarrow> pass \<Rightarrow> (opKey \<times> opDiff) list \<Rightarrow> bool" where
  "pass_b_inv topN bySeq as bs p D \<longleftrightarrow>
     (\<forall>k. map_option unshaped (p_ops p k) = (if ops_of bySeq bs k = None then ops_of bySeq as k else None)) \<and>
     p_seen p = dom (ops_of bySeq bs) \<and> distinct (p_keys p) \<and> dom (p_ops p) \<subseteq> set (p_keys p) \<and>
     shapes_ok (p_c p) (p_ops p) \<and> bal (p_c p) (p_ops p) \<and> c_topN (p_c p) = topN \<and>
     holds (p_c p) D \<and> counted (p_c p) (ops_of bySeq as) (ops_of bySeq bs) (length D) \<and>
     fst ` set D = {k. ops_of bySeq bs k \<noteq> None \<and> key_kinds (ops_of bySeq as k) (ops_of bySeq bs k) \<noteq> []} \<and>
     (\<forall>(k, d) \<in> set D. diff_view d = key_view (ops_of bySeq as k) (ops_of bySeq bs k))"

lemma pass_b_inv_start: "pass_b_inv topN bySeq as [] (start_b (pass_a topN bySeq as)) []"
  using pass_a_inv [of topN bySeq as]
  by (auto simp: pass_a_inv_def pass_b_inv_def start_b_def holds_def entries_def)

lemma meet_b_unmet:
  assumes "p_ops p k = None" and "comparer_shape (line_ref l) (p_c p) = (i, c)"
  shows "meet_b preferB k l o1 p = p\<lparr>p_c := addDiff k None (Some ((opLine_result l o1)\<lparr>rs_shape := i\<rparr>)) [DiffMissingInA]
     (upd_totals i (\<lambda>t. t\<lparr>t_missingInA := t_missingInA t + 1, t_differingOps := t_differingOps t + 1\<rparr>)
       (upd_totals i (\<lambda>t. t\<lparr>t_opsB := t_opsB t + 1\<rparr>) c))\<rparr>"
  using assms by (simp add: meet_b_def Let_def)

lemma meet_b_met:
  assumes "p_ops p k = Some a" and "comparer_shape (line_ref l) (p_c p) = (i, c)"
    and s: "s = (if preferB then i else rs_shape a)"
  shows "meet_b preferB k l o1 p = p\<lparr>p_ops := (p_ops p)(k := None),
     p_c := pair k (a\<lparr>rs_shape := s\<rparr>) ((opLine_result l o1)\<lparr>rs_shape := s\<rparr>)
       (let c1 = upd_totals s (\<lambda>t. t\<lparr>t_opsB := t_opsB t + 1\<rparr>) c in
        if s \<noteq> rs_shape a then upd_totals s (\<lambda>t. t\<lparr>t_opsA := t_opsA t + 1\<rparr>)
          (upd_totals (rs_shape a) (\<lambda>t. t\<lparr>t_opsA := t_opsA t - 1\<rparr>) c1) else c1)\<rparr>"
  using assms by (simp add: meet_b_def Let_def)

lemma pass_b_invD:
  assumes "pass_b_inv topN bySeq as bs p D"
  shows "\<And>k. map_option unshaped (p_ops p k) = (if ops_of bySeq bs k = None then ops_of bySeq as k else None)"
    and "p_seen p = dom (ops_of bySeq bs)" and "distinct (p_keys p)" and "dom (p_ops p) \<subseteq> set (p_keys p)"
    and "shapes_ok (p_c p) (p_ops p)" and "bal (p_c p) (p_ops p)" and "c_topN (p_c p) = topN"
    and "holds (p_c p) D" and "counted (p_c p) (ops_of bySeq as) (ops_of bySeq bs) (length D)"
    and "fst ` set D = {k. ops_of bySeq bs k \<noteq> None \<and> key_kinds (ops_of bySeq as k) (ops_of bySeq bs k) \<noteq> []}"
    and "\<And>k d. (k, d) \<in> set D \<Longrightarrow> diff_view d = key_view (ops_of bySeq as k) (ops_of bySeq bs k)"
  using assms unfolding pass_b_inv_def by auto

lemma pass_b_invI:
  assumes "\<And>k. map_option unshaped (p_ops p k) = (if B k = None then A k else None)"
    and "p_seen p = dom B" "distinct (p_keys p)" "dom (p_ops p) \<subseteq> set (p_keys p)"
    and "shapes_ok (p_c p) (p_ops p)" "bal (p_c p) (p_ops p)" "c_topN (p_c p) = topN"
    and "holds (p_c p) D" "counted (p_c p) A B (length D)"
    and "fst ` set D = {k. B k \<noteq> None \<and> key_kinds (A k) (B k) \<noteq> []}"
    and "\<And>k d. (k, d) \<in> set D \<Longrightarrow> diff_view d = key_view (A k) (B k)"
    and "A = ops_of bySeq as" "B = ops_of bySeq bs"
  shows "pass_b_inv topN bySeq as bs p D"
  using assms unfolding pass_b_inv_def by auto

text \<open>The history grows by one entry for a new key of the second file, when it differs.\<close>

lemma history_grows:
  assumes "B k = None" and "fst ` set D = {j. B j \<noteq> None \<and> key_kinds (A j) (B j) \<noteq> []}"
    and "\<And>j d. (j, d) \<in> set D \<Longrightarrow> diff_view d = key_view (A j) (B j)"
    and "key_kinds (A k) (Some r) \<noteq> []" and "diff_view d = key_view (A k) (Some r)"
  shows "fst ` set (D @ [(k, d)]) = {j. (B(k \<mapsto> r)) j \<noteq> None \<and> key_kinds (A j) ((B(k \<mapsto> r)) j) \<noteq> []}"
    and "(j, d') \<in> set (D @ [(k, d)]) \<Longrightarrow> diff_view d' = key_view (A j) ((B(k \<mapsto> r)) j)"
proof -
  have k: "(k, d') \<notin> set D" for d'
  proof
    assume "(k, d') \<in> set D"
    then have "k \<in> fst ` set D" by force
    with assms(1,2) show False by simp
  qed
  show "fst ` set (D @ [(k, d)]) = {j. (B(k \<mapsto> r)) j \<noteq> None \<and> key_kinds (A j) ((B(k \<mapsto> r)) j) \<noteq> []}"
    using assms(1,2,4) by auto
  assume "(j, d') \<in> set (D @ [(k, d)])"
  with k assms(3,5) show "diff_view d' = key_view (A j) ((B(k \<mapsto> r)) j)"
    by auto
qed

lemma pass_b_inv_unmet:
  assumes inv: "pass_b_inv topN bySeq as bs p D" and k: "k = opLine_key bySeq l" and l: "l_outcome l = Some o1"
    and new: "ops_of bySeq bs k = None" and un: "p_ops p k = None"
  shows "\<exists>D'. pass_b_inv topN bySeq as (bs @ [l]) (meet_b preferB k l o1 (p\<lparr>p_seen := insert k (p_seen p)\<rparr>)) D'"
proof -
  define A where "A = ops_of bySeq as"
  define B where "B = ops_of bySeq bs"
  let ?r = "opLine_result l o1"
  note inv = pass_b_invD [OF inv, folded A_def B_def]
  have A: "A k = None" and Bk: "B k = None"
    using inv(1) [of k] un new by (simp_all add: B_def)
  have B': "B(k \<mapsto> ?r) = ops_of bySeq (bs @ [l])"
    using new by (simp add: ops_of_snoc l k B_def)
  obtain i c where ic: "comparer_shape (line_ref l) (p_c p) = (i, c)" by fastforce
  note cs = comparer_shape_cases [OF ic inv(5)]
  let ?b = "?r\<lparr>rs_shape := i\<rparr>"
  let ?c2 = "upd_totals i (\<lambda>t. t\<lparr>t_missingInA := t_missingInA t + 1, t_differingOps := t_differingOps t + 1\<rparr>)
       (upd_totals i (\<lambda>t. t\<lparr>t_opsB := t_opsB t + 1\<rparr>) c)"
  let ?c3 = "addDiff k None (Some ?b) [DiffMissingInA] ?c2"
  let ?d = "make_diff ?c2 None (Some ?b) [DiffMissingInA]"
  have step: "meet_b preferB k l o1 (p\<lparr>p_seen := insert k (p_seen p)\<rparr>) = p\<lparr>p_seen := insert k (p_seen p), p_c := ?c3\<rparr>"
    using un ic by (simp add: meet_b_unmet)
  have hc: "holds ?c2 D"
    by (rule holds_same_lists [OF inv(8)]) (simp_all add: cs(3,4,5))
  have kD: "k \<notin> fst ` set D"
    using Bk by (simp add: inv(10))
  have view: "diff_view ?d = key_view (A k) (Some ?r)" and ne: "key_kinds (A k) (Some ?r) \<noteq> []"
    by (simp_all add: diff_view_def key_view_def make_diff_def A)
  have cnt: "counted ?c3 A (B(k \<mapsto> ?r)) (length (D @ [(k, ?d)]))"
  proof -
    have "dom A \<inter> insert k (dom B) = dom A \<inter> dom B" "insert k (dom B) - dom A = insert k (dom B - dom A)"
      using A by auto
    moreover have "finite (dom B)" "k \<notin> dom B" using Bk by (auto simp: B_def)
    ultimately show ?thesis
      using inv(9) cs(1) by (simp add: counted_def tsum_upd_totals upd_totals_nth cs)
  qed
  have "pass_b_inv topN bySeq as (bs @ [l]) (p\<lparr>p_seen := insert k (p_seen p), p_c := ?c3\<rparr>) (D @ [(k, ?d)])"
  proof (rule pass_b_invI [of _ "B(k \<mapsto> ?r)" A])
    show "map_option unshaped (p_ops (p\<lparr>p_seen := insert k (p_seen p), p_c := ?c3\<rparr>) j) =
        (if (B(k \<mapsto> ?r)) j = None then A j else None)" for j
      using inv(1) [of j] un A by (cases "B j") auto
    show "holds (p_c (p\<lparr>p_seen := insert k (p_seen p), p_c := ?c3\<rparr>)) (D @ [(k, ?d)])"
      using holds_addDiff [OF hc kD] by simp
    show "shapes_ok (p_c (p\<lparr>p_seen := insert k (p_seen p), p_c := ?c3\<rparr>)) (p_ops (p\<lparr>p_seen := insert k (p_seen p), p_c := ?c3\<rparr>))"
      using shapes_ok_same [OF cs(2), of ?c3] by simp
    show "bal (p_c (p\<lparr>p_seen := insert k (p_seen p), p_c := ?c3\<rparr>)) (p_ops (p\<lparr>p_seen := insert k (p_seen p), p_c := ?c3\<rparr>))"
      using bal_same_shapes [OF bal_unmet [OF bal_comparer_shape [OF ic inv(5,6)] cs(1)], of ?c3] by simp
    show "A = ops_of bySeq as" by (simp add: A_def)
    show "B(k \<mapsto> ?r) = ops_of bySeq (bs @ [l])" by (rule B')
  qed (use inv cnt history_grows [where A = A, OF Bk inv(10,11) ne view] cs(3) in simp_all)
  then show ?thesis unfolding step by blast
qed

lemma pass_b_inv_met:
  assumes inv: "pass_b_inv topN bySeq as bs p D" and k: "k = opLine_key bySeq l" and l: "l_outcome l = Some o1"
    and new: "ops_of bySeq bs k = None" and met: "p_ops p k = Some a"
  shows "\<exists>D'. pass_b_inv topN bySeq as (bs @ [l]) (meet_b preferB k l o1 (p\<lparr>p_seen := insert k (p_seen p)\<rparr>)) D'"
proof -
  define A where "A = ops_of bySeq as"
  define B where "B = ops_of bySeq bs"
  let ?r = "opLine_result l o1"
  note inv = pass_b_invD [OF inv, folded A_def B_def]
  have A: "A k = Some (unshaped a)" and Bk: "B k = None"
    using inv(1) [of k] met new by (simp_all add: B_def)
  have B': "B(k \<mapsto> ?r) = ops_of bySeq (bs @ [l])"
    using new by (simp add: ops_of_snoc l k B_def)
  have fin: "finite (dom (p_ops p))"
    using finite_subset [OF inv(4)] by simp
  obtain i c where ic: "comparer_shape (line_ref l) (p_c p) = (i, c)" by fastforce
  note cs = comparer_shape_cases [OF ic inv(5)]
  define s where "s = (if preferB then i else rs_shape a)"
  have as: "rs_shape a < length (c_shapes c)" and s: "s < length (c_shapes c)"
    using cs(1,2) met by (auto simp: s_def shapes_ok_def)
  let ?a = "a\<lparr>rs_shape := s\<rparr>" and ?b = "?r\<lparr>rs_shape := s\<rparr>"
  let ?c1 = "upd_totals s (\<lambda>t. t\<lparr>t_opsB := t_opsB t + 1\<rparr>) c"
  define c2 where "c2 = (if s \<noteq> rs_shape a then upd_totals s (\<lambda>t. t\<lparr>t_opsA := t_opsA t + 1\<rparr>)
      (upd_totals (rs_shape a) (\<lambda>t. t\<lparr>t_opsA := t_opsA t - 1\<rparr>) ?c1) else ?c1)"
  have c2: "length (c_shapes c2) = length (c_shapes c)" "c_shapeIdx c2 = c_shapeIdx c" "c_topN c2 = c_topN c"
    "c_diffs c2 = c_diffs c" "c_diffKeys c2 = c_diffKeys c"
    by (simp_all add: c2_def)
  let ?c3 = "pair k ?a ?b c2"
  let ?p = "p\<lparr>p_seen := insert k (p_seen p), p_ops := (p_ops p)(k := None), p_c := ?c3\<rparr>"
  have step: "meet_b preferB k l o1 (p\<lparr>p_seen := insert k (p_seen p)\<rparr>) = ?p"
    using met ic by (simp add: meet_b_met [where s = s] s_def [symmetric] c2_def Let_def)
  let ?up = "upd_acc s (pair_acc ?a ?b) c2"
  let ?kinds = "pair_kinds a ?r"
  let ?d = "make_diff ?up (Some ?a) (Some ?b) ?kinds"
  let ?D = "if ?kinds = [] then D else D @ [(k, ?d)]"
  have hc: "holds ?up D"
    by (rule holds_same_lists [OF inv(8)]) (simp_all add: cs(3,4,5) c2)
  have kD: "k \<notin> fst ` set D"
    using Bk by (simp add: inv(10))
  have held: "holds ?c3 ?D"
    using hc holds_addDiff [OF hc kD] by (auto simp: pair_def Let_def)
  have view: "diff_view ?d = key_view (A k) (Some ?r)"
    by (simp add: diff_view_def key_view_def make_diff_def A)
  have cnt: "counted ?c3 A (B(k \<mapsto> ?r)) (length ?D)"
  proof -
    have "dom A \<inter> insert k (dom B) = insert k (dom A \<inter> dom B)" "insert k (dom B) - dom A = dom B - dom A"
      using A by auto
    moreover have "finite (dom B)" "k \<notin> dom B" using Bk by (auto simp: B_def)
    ultimately show ?thesis
      using inv(9) s as by (auto simp: counted_def tsum_pair tsum_upd_acc tsum_upd_totals upd_totals_nth cs c2 c2_def)
  qed
  have "pass_b_inv topN bySeq as (bs @ [l]) ?p ?D"
  proof (rule pass_b_invI [of _ "B(k \<mapsto> ?r)" A])
    show "map_option unshaped (p_ops ?p j) = (if (B(k \<mapsto> ?r)) j = None then A j else None)" for j
      using inv(1) [of j] by (cases "B j") auto
    show "bal (p_c ?p) (p_ops ?p)"
      using bal_met [OF bal_comparer_shape [OF ic inv(5,6)] fin met s cs(2), of ?a ?b] by (simp add: c2_def)
    show "shapes_ok (p_c ?p) (p_ops ?p)"
      using cs(2) by (auto simp: shapes_ok_def c2)
    show "holds (p_c ?p) ?D" using held by simp
    show "fst ` set ?D = {j. (B(k \<mapsto> ?r)) j \<noteq> None \<and> key_kinds (A j) ((B(k \<mapsto> ?r)) j) \<noteq> []}"
      using history_grows(1) [where A = A, OF Bk inv(10,11) _ view] inv(10) A Bk by auto
    show "diff_view d = key_view (A j) ((B(k \<mapsto> ?r)) j)" if "(j, d) \<in> set ?D" for j d
    proof (cases "?kinds = []")
      case True
      with that have "(j, d) \<in> set D" "j \<noteq> k" using kD by force+
      with inv(11) show ?thesis by simp
    next
      case False
      with that history_grows(2) [where A = A, OF Bk inv(10,11) _ view] A show ?thesis by simp
    qed
    show "A = ops_of bySeq as" by (simp add: A_def)
    show "B(k \<mapsto> ?r) = ops_of bySeq (bs @ [l])" by (rule B')
  qed (use inv cnt cs(3) c2 in auto)
  then show ?thesis unfolding step by blast
qed

lemma pass_b_inv_step:
  assumes inv: "pass_b_inv topN bySeq as bs p D"
  shows "\<exists>D'. pass_b_inv topN bySeq as (bs @ [l]) (step_b bySeq preferB p l) D'"
proof -
  let ?p = "p\<lparr>p_c := note_summary l (p_c p)\<rparr>" and ?k = "opLine_key bySeq l"
  note i = pass_b_invD [OF inv]
  have noted: "pass_b_inv topN bySeq as bs ?p D"
    using i by (intro pass_b_invI [OF _ _ _ _ _ _ _ _ _ _ _ refl refl])
      (auto simp: shapes_ok_def bal_def counted_def holds_def entries_def)
  show ?thesis
  proof (cases "l_outcome l")
    case None
    with pass_b_invD [OF noted] have "pass_b_inv topN bySeq as (bs @ [l]) (?p\<lparr>p_noOutcome := p_noOutcome ?p + 1\<rparr>) D"
      by (intro pass_b_invI [OF _ _ _ _ _ _ _ _ _ _ _ refl refl]) (simp_all add: ops_of_snoc)
    with None show ?thesis by (auto simp: step_b_def Let_def)
  next
    case (Some o1)
    show ?thesis
    proof (cases "?k \<in> p_seen p")
      case True
      then have seen: "ops_of bySeq bs ?k \<noteq> None" using i(2) by auto
      then have "ops_of bySeq (bs @ [l]) = ops_of bySeq bs" by (simp add: ops_of_snoc Some del: not_None_eq)
      with pass_b_invD [OF noted] have "pass_b_inv topN bySeq as (bs @ [l]) (?p\<lparr>p_dup := p_dup ?p + 1\<rparr>) D"
        by (intro pass_b_invI [OF _ _ _ _ _ _ _ _ _ _ _ refl refl]) simp_all
      with Some True show ?thesis by (auto simp: step_b_def Let_def)
    next
      case False
      then have new: "ops_of bySeq bs ?k = None" using i(2) by auto
      have "step_b bySeq preferB p l = meet_b preferB ?k l o1 (?p\<lparr>p_seen := insert ?k (p_seen ?p)\<rparr>)"
        using False Some by (simp add: step_b_def Let_def)
      then show ?thesis
        using pass_b_inv_unmet [OF noted refl Some new] pass_b_inv_met [OF noted refl Some new]
        by (cases "p_ops ?p ?k") simp_all
    qed
  qed
qed

lemma pass_b_inv:
  "\<exists>D. pass_b_inv topN bySeq as bs (pass_b bySeq preferB (pass_a topN bySeq as) bs) D"
proof (induction bs rule: rev_induct)
  case Nil
  show ?case using pass_b_inv_start [of topN bySeq as] by (auto simp: pass_b_def)
next
  case (snoc l bs)
  then show ?case using pass_b_inv_step [of topN bySeq as bs] by (auto simp: pass_b_def)
qed

end
