(* ===== verification/CompareSpec.thy ===== *)
theory CompareSpec
  imports CompareProofs
begin

text \<open>
  The theorems of the replay comparison: conservation of operations, the differences as those of two
  keyed maps, the list of the lowest differing keys, independence of the map's iteration order, and
  the comparison of a file with itself.
\<close>

subsection \<open>The left-over operations of the first file\<close>

text \<open>The order in which Go ranges over a map: any permutation of the keys.\<close>

definition go_range :: "(opKey list \<Rightarrow> opKey list) \<Rightarrow> bool" where
  "go_range rng \<longleftrightarrow> (\<forall>ks. distinct ks \<longrightarrow> distinct (rng ks) \<and> set (rng ks) = set ks)"

definition left_totals :: "nat \<Rightarrow> shapeAcc \<Rightarrow> shapeAcc" where
  "left_totals n acc = acc\<lparr>sa_t := (sa_t acc)\<lparr>t_missingInB := t_missingInB (sa_t acc) + int n,
     t_differingOps := t_differingOps (sa_t acc) + int n\<rparr>\<rparr>"

definition left_entry :: "(opKey \<rightharpoonup> op_result) \<Rightarrow> comparer \<Rightarrow> opKey \<Rightarrow> opKey \<times> opDiff" where
  "left_entry ops c k = (k, make_diff c (ops k) None [DiffMissingInB])"

lemma make_diff_same_refs:
  "length (c_shapes c') = length (c_shapes c) \<Longrightarrow> rs_shape a < length (c_shapes c) \<Longrightarrow>
   (\<And>i. i < length (c_shapes c) \<Longrightarrow> sa_ref (c_shapes c' ! i) = sa_ref (c_shapes c ! i)) \<Longrightarrow>
   make_diff c' (Some a) b ks = make_diff c (Some a) b ks"
  by (simp add: make_diff_def)

lemma left_totals_simps [simp]:
  "left_totals 0 acc = acc" "left_totals m (left_totals n acc) = left_totals (n + m) acc"
  "sa_ref (left_totals n acc) = sa_ref acc"
  by (simp_all add: left_totals_def)

lemma step_left_Some:
  "ops k = Some a \<Longrightarrow> step_left ops c k = addDiff k (Some a) None [DiffMissingInB] (upd_acc (rs_shape a) (left_totals 1) c)"
  by (simp add: step_left_def upd_totals_def left_totals_def [abs_def])

lemma left_fold:
  assumes "holds c D" and "distinct ks" and "\<forall>k \<in> set ks. k \<notin> fst ` set D \<and> ops k \<noteq> None"
    and "shapes_ok c ops"
  shows "holds (foldl (step_left ops) c ks) (D @ map (left_entry ops c) ks) \<and>
    length (c_shapes (foldl (step_left ops) c ks)) = length (c_shapes c) \<and>
    (\<forall>i < length (c_shapes c). c_shapes (foldl (step_left ops) c ks) ! i =
       left_totals (length (filter (\<lambda>k. k \<in> holders ops i) ks)) (c_shapes c ! i)) \<and>
    c_topN (foldl (step_left ops) c ks) = c_topN c \<and> c_shapeIdx (foldl (step_left ops) c ks) = c_shapeIdx c \<and>
    c_summaries (foldl (step_left ops) c ks) = c_summaries c"
  using assms
proof (induction ks arbitrary: c D)
  case (Cons k ks)
  then obtain a where a: "ops k = Some a" by auto
  have as: "rs_shape a < length (c_shapes c)"
    using Cons.prems(4) a by (auto simp: shapes_ok_def)
  define c1 where "c1 = upd_acc (rs_shape a) (left_totals 1) c"
  define c2 where "c2 = addDiff k (Some a) None [DiffMissingInB] c1"
  have step: "step_left ops c k = c2"
    by (simp add: step_left_Some [of ops k a, OF a] c2_def c1_def)
  have refs: "sa_ref (c_shapes c1 ! i) = sa_ref (c_shapes c ! i)" if "i < length (c_shapes c)" for i
    using that by (simp add: c1_def upd_acc_nth)
  have len: "length (c_shapes c1) = length (c_shapes c)" by (simp add: c1_def)
  have "make_diff c1 (Some a) None [DiffMissingInB] = make_diff c (Some a) None [DiffMissingInB]"
    by (rule make_diff_same_refs [OF len as refs])
  moreover have "holds c1 D"
    by (rule holds_same_lists [OF Cons.prems(1)]) (simp_all add: c1_def)
  ultimately have h2: "holds c2 (D @ [left_entry ops c k])"
    using holds_addDiff [of c1 D k "Some a" None "[DiffMissingInB]"] Cons.prems(3)
    by (simp add: c2_def left_entry_def a)
  have same: "left_entry ops c2 j = left_entry ops c j" if "j \<in> set ks" for j
  proof -
    from Cons.prems(3) that obtain b where b: "ops j = Some b" by auto
    then have "rs_shape b < length (c_shapes c)" using Cons.prems(4) by (auto simp: shapes_ok_def)
    then show ?thesis
      using make_diff_same_refs [of c2 c b None] refs len by (simp add: left_entry_def b c2_def)
  qed
  have map: "map (left_entry ops c2) ks = map (left_entry ops c) ks"
    by (rule map_cong [OF refl same])
  have ok2: "shapes_ok c2 ops"
    using Cons.prems(4) by (rule shapes_ok_same) (simp_all add: c2_def c1_def)
  have pre: "\<forall>j \<in> set ks. j \<notin> fst ` set (D @ [left_entry ops c k]) \<and> ops j \<noteq> None"
    using Cons.prems(2,3) by (auto simp: left_entry_def)
  have IH: "holds (foldl (step_left ops) c2 ks) (D @ map (left_entry ops c) (k # ks)) \<and>
    length (c_shapes (foldl (step_left ops) c2 ks)) = length (c_shapes c2) \<and>
    (\<forall>i < length (c_shapes c2). c_shapes (foldl (step_left ops) c2 ks) ! i =
       left_totals (length (filter (\<lambda>k. k \<in> holders ops i) ks)) (c_shapes c2 ! i)) \<and>
    c_topN (foldl (step_left ops) c2 ks) = c_topN c2 \<and> c_shapeIdx (foldl (step_left ops) c2 ks) = c_shapeIdx c2 \<and>
    c_summaries (foldl (step_left ops) c2 ks) = c_summaries c2"
    using Cons.IH [OF h2 _ pre ok2] Cons.prems(2) map by simp
  have "left_totals (length (filter (\<lambda>k. k \<in> holders ops i) ks)) (c_shapes c2 ! i) =
      left_totals (length (filter (\<lambda>k. k \<in> holders ops i) (k # ks))) (c_shapes c ! i)"
    if "i < length (c_shapes c)" for i
    using that a by (simp add: c2_def c1_def upd_acc_nth holders_mem)
  with IH show ?case
    unfolding foldl_Cons step by (simp add: c2_def c1_def)
qed (simp add: holds_def)

lemma length_filter_distinct: "distinct ks \<Longrightarrow> length (filter P ks) = card {k \<in> set ks. P k}"
  by (metis distinct_card distinct_filter set_filter)

subsection \<open>The whole comparison\<close>

definition all_diffs :: "bool \<Rightarrow> opLine list \<Rightarrow> opLine list \<Rightarrow> opKey set" where
  "all_diffs bySeq as bs = {k. key_kinds (ops_of bySeq as k) (ops_of bySeq bs k) \<noteq> []}"

lemma leftovers_keys:
  assumes "pass_b_inv topN bySeq as bs p D"
  shows "distinct (leftovers p)" "set (leftovers p) = dom (p_ops p)"
    "dom (p_ops p) = dom (ops_of bySeq as) - dom (ops_of bySeq bs)"
proof -
  note i = pass_b_invD [OF assms]
  show "distinct (leftovers p)" using i(3) by (simp add: leftovers_def)
  show "set (leftovers p) = dom (p_ops p)" using i(4) by (auto simp: leftovers_def)
  have "p_ops p k = None \<longleftrightarrow> k \<notin> dom (ops_of bySeq as) - dom (ops_of bySeq bs)" for k
    using i(1) [of k, symmetric] by (cases "p_ops p k") (auto split: if_splits)
  then show "dom (p_ops p) = dom (ops_of bySeq as) - dom (ops_of bySeq bs)"
    by (intro set_eqI) (metis domIff)
qed

text \<open>Everything the comparison computes, from one run of the passes.\<close>

lemma compare_ops_run:
  assumes rng: "go_range rng" and inv: "pass_b_inv topN bySeq as bs p D"
    and p: "p = pass_b bySeq preferB (pass_a topN bySeq as) bs"
  defines "E \<equiv> map (left_entry (p_ops p) (p_c p)) (rng (leftovers p))"
  defines "c \<equiv> compare_ops rng topN bySeq preferB as bs"
  shows "entries c = lowest topN (D @ E)" and "distinct (map fst (D @ E))"
    and "length (c_diffKeys c) = length (c_diffs c)"
    and "fst ` set (D @ E) = all_diffs bySeq as bs"
    and "\<And>k d. (k, d) \<in> set (D @ E) \<Longrightarrow> diff_view d = key_view (ops_of bySeq as k) (ops_of bySeq bs k)"
    and "c_shapes c = map (\<lambda>i. left_totals (card (holders (p_ops p) i)) (c_shapes (p_c p) ! i)) [0..<length (c_shapes (p_c p))]"
    and "c_topN c = topN" "c_shapeIdx c = c_shapeIdx (p_c p)" "c_summaries c = c_summaries (p_c p)"
proof -
  let ?A = "ops_of bySeq as" and ?B = "ops_of bySeq bs" and ?ks = "rng (leftovers p)"
  note i = pass_b_invD [OF inv] and lo = leftovers_keys [OF inv]
  have ks: "distinct ?ks" "set ?ks = dom (p_ops p)"
    using rng lo by (simp_all add: go_range_def)
  have disj: "\<forall>k \<in> set ?ks. k \<notin> fst ` set D \<and> p_ops p k \<noteq> None"
  proof
    fix k assume "k \<in> set ?ks"
    then have "k \<in> dom (p_ops p)" "k \<notin> dom ?B" using ks(2) lo(3) by auto
    then show "k \<notin> fst ` set D \<and> p_ops p k \<noteq> None" unfolding i(10) by (simp add: domIff)
  qed
  let ?f = "foldl (step_left (p_ops p)) (p_c p) ?ks"
  have c: "c = trimDiffs ?f"
    by (simp add: c_def compare_ops_def p Let_def)
  have fold: "holds ?f (D @ E)" "length (c_shapes ?f) = length (c_shapes (p_c p))"
    "\<forall>i < length (c_shapes (p_c p)). c_shapes ?f ! i =
       left_totals (length (filter (\<lambda>k. k \<in> holders (p_ops p) i) ?ks)) (c_shapes (p_c p) ! i)"
    "c_topN ?f = topN" "c_shapeIdx ?f = c_shapeIdx (p_c p)" "c_summaries ?f = c_summaries (p_c p)"
    using left_fold [OF i(8) ks(1) disj i(5)] i(7) by (simp_all add: E_def)
  show "entries c = lowest topN (D @ E)" using holds_trimDiffs [OF fold(1)] by (simp add: c fold(4))
  show "distinct (map fst (D @ E))" using fold(1) by (simp add: holds_def)
  show "length (c_diffKeys c) = length (c_diffs c)" by (simp add: c)
  show "c_topN c = topN" "c_shapeIdx c = c_shapeIdx (p_c p)" "c_summaries c = c_summaries (p_c p)"
    by (simp_all add: c fold)
  have E: "fst ` set E = dom ?A - dom ?B"
    unfolding E_def lo(3) [symmetric] ks(2) [symmetric] by (simp add: image_image left_entry_def)
  show "fst ` set (D @ E) = all_diffs bySeq as bs"
  proof -
    have "k \<in> all_diffs bySeq as bs \<longleftrightarrow> k \<in> fst ` set D \<or> k \<in> dom ?A - dom ?B" for k
      unfolding i(10) all_diffs_def by (cases "?A k"; cases "?B k") auto
    then show ?thesis unfolding set_append image_Un E by blast
  qed
  show "diff_view d = key_view (?A k) (?B k)" if "(k, d) \<in> set (D @ E)" for k d
  proof (cases "(k, d) \<in> set D")
    case True
    then show ?thesis by (rule i(11))
  next
    case False
    with that have k: "k \<in> dom (p_ops p)" "d = make_diff (p_c p) (p_ops p k) None [DiffMissingInB]"
      using ks(2) by (auto simp: E_def left_entry_def)
    then obtain a where a: "p_ops p k = Some a" by auto
    have B: "?B k = None" using k(1) lo(3) by auto
    have "?A k = Some (unshaped a)" using i(1) [of k] a B by simp
    with a B k(2) show ?thesis by (simp add: diff_view_def key_view_def make_diff_def)
  qed
  show "c_shapes c = map (\<lambda>i. left_totals (card (holders (p_ops p) i)) (c_shapes (p_c p) ! i)) [0..<length (c_shapes (p_c p))]"
  proof (rule nth_equalityI)
    fix j assume "j < length (c_shapes c)"
    then have j: "j < length (c_shapes (p_c p))" by (simp add: c fold(2))
    have "{k \<in> set ?ks. k \<in> holders (p_ops p) j} = holders (p_ops p) j"
      unfolding ks(2) by (auto simp: holders_def)
    with fold(3) j show "c_shapes c ! j = map (\<lambda>i. left_totals (card (holders (p_ops p) i)) (c_shapes (p_c p) ! i))
        [0..<length (c_shapes (p_c p))] ! j"
      by (simp add: c length_filter_distinct [OF ks(1)])
  qed (simp add: c fold(2))
qed

lemma comparer_eqI:
  assumes "entries c = entries c'" "length (c_diffKeys c) = length (c_diffs c)" "length (c_diffKeys c') = length (c_diffs c')"
    and "c_shapes c = c_shapes c'" "c_topN c = c_topN c'" "c_shapeIdx c = c_shapeIdx c'" "c_summaries c = c_summaries c'"
  shows "c = (c' :: comparer)"
proof -
  have "c_diffKeys c = map fst (entries c)" "c_diffs c = map snd (entries c)"
    "c_diffKeys c' = map fst (entries c')" "c_diffs c' = map snd (entries c')"
    using assms(2,3) by (simp_all add: entries_def)
  with assms show ?thesis by (intro comparer.equality) simp_all
qed

text \<open>the result does not depend on the order in which the map of left-over operations is
  iterated.\<close>

theorem compare_range_order:
  assumes "go_range rng" and "go_range rng'"
  shows "compare_ops rng topN bySeq preferB as bs = compare_ops rng' topN bySeq preferB as bs"
proof -
  define p where "p = pass_b bySeq preferB (pass_a topN bySeq as) bs"
  obtain D where inv: "pass_b_inv topN bySeq as bs p D"
    using pass_b_inv [of topN bySeq as bs preferB] by (auto simp: p_def)
  note r = compare_ops_run [OF assms(1) inv p_def] and r' = compare_ops_run [OF assms(2) inv p_def]
  have "set (rng (leftovers p)) = set (rng' (leftovers p))"
    using assms leftovers_keys(1) [OF inv] by (simp add: go_range_def)
  then have same: "lowest topN (D @ map (left_entry (p_ops p) (p_c p)) (rng (leftovers p))) =
      lowest topN (D @ map (left_entry (p_ops p) (p_c p)) (rng' (leftovers p)))"
    using r(2) r'(2) by (intro lowest_cong) auto
  show ?thesis
    by (rule comparer_eqI) (simp_all only: r(1) r'(1) same r(3) r'(3) r(6-9) r'(6-9))
qed

definition conserved :: "shapeAcc \<Rightarrow> bool" where
  "conserved acc \<longleftrightarrow> t_opsA (sa_t acc) = t_matched (sa_t acc) + t_missingInB (sa_t acc) \<and>
     t_opsB (sa_t acc) = t_matched (sa_t acc) + t_missingInA (sa_t acc) \<and>
     length (sa_latA acc) = length (sa_latB acc) \<and> int (length (sa_latA acc)) \<le> t_matched (sa_t acc)"

text \<open>in every shape, an operation of the first file is either matched or missing in the second,
  and one of the second is either matched or missing in the first; both latency samples have the
  same size, at most that of the matched operations.\<close>

theorem compare_conserves:
  assumes "go_range rng"
  shows "list_all conserved (c_shapes (compare_ops rng topN bySeq preferB as bs))"
proof -
  define p where "p = pass_b bySeq preferB (pass_a topN bySeq as) bs"
  obtain D where inv: "pass_b_inv topN bySeq as bs p D"
    using pass_b_inv [of topN bySeq as bs preferB] by (auto simp: p_def)
  have "conserved (left_totals (card (holders (p_ops p) i)) (c_shapes (p_c p) ! i))" if "i < length (c_shapes (p_c p))" for i
    using pass_b_invD(6) [OF inv] that by (auto simp: bal_def balanced_def conserved_def left_totals_def)
  then show ?thesis
    unfolding compare_ops_run(6) [OF assms inv p_def] by (simp add: list_all_iff)
qed

text \<open>The totals over all shapes.\<close>

lemma sum_holders:
  assumes "finite (dom ops)" and "\<forall>k a. ops k = Some a \<longrightarrow> rs_shape a < n"
  shows "(\<Sum>i<n. int (card (holders ops i))) = int (card (dom ops))"
proof -
  have "card (\<Union>i<n. holders ops i) = (\<Sum>i<n. card (holders ops i))"
    using assms(1) by (intro card_UN_disjoint) (auto simp: holders_mem)
  moreover have "(\<Union>i<n. holders ops i) = dom ops"
    using assms(2) by (auto simp: holders_def)
  ultimately show ?thesis by simp
qed

lemma tsum_nth: "tsum f c = (\<Sum>i<length (c_shapes c). f (sa_t (c_shapes c ! i)))"
  by (simp add: tsum_def sum_list_sum_nth atLeast0LessThan)

text \<open>C1: the comparison computes the difference of the two files as maps from operation keys to
  results: the operations listed as differing are those with the \<open>topN\<close> lowest differing keys, in
  key order and with the kinds and outcomes of that key, and over all shapes the counters are the
  sizes of the matched, missing and differing key sets.\<close>

theorem compare_differences:
  assumes "go_range rng"
  shows "let A = ops_of bySeq as; B = ops_of bySeq bs; c = compare_ops rng topN bySeq preferB as bs in
     c_diffKeys c = take topN (sorted_list_of_set (all_diffs bySeq as bs)) \<and>
     list_all2 (\<lambda>k d. diff_view d = key_view (A k) (B k)) (c_diffKeys c) (c_diffs c) \<and>
     tsum t_matched c = int (card (dom A \<inter> dom B)) \<and> tsum t_missingInA c = int (card (dom B - dom A)) \<and>
     tsum t_missingInB c = int (card (dom A - dom B)) \<and>
     tsum t_differingOps c = int (card (all_diffs bySeq as bs))"
proof -
  let ?A = "ops_of bySeq as" and ?B = "ops_of bySeq bs" and ?c = "compare_ops rng topN bySeq preferB as bs"
  define p where "p = pass_b bySeq preferB (pass_a topN bySeq as) bs"
  obtain D where inv: "pass_b_inv topN bySeq as bs p D"
    using pass_b_inv [of topN bySeq as bs preferB] by (auto simp: p_def)
  note r = compare_ops_run [OF assms inv p_def] and i = pass_b_invD [OF inv] and lo = leftovers_keys [OF inv]
  let ?E = "map (left_entry (p_ops p) (p_c p)) (rng (leftovers p))"
  have "c_diffKeys ?c = map fst (entries ?c)" using r(3) by (simp add: entries_def)
  then have keys: "c_diffKeys ?c = take topN (sorted_list_of_set (all_diffs bySeq as bs))"
    unfolding r(1) using lowest_keys [OF r(2)] r(4) by simp
  have "diff_view (snd e) = key_view (?A (fst e)) (?B (fst e))" if "e \<in> set (entries ?c)" for e
    using that set_lowest [of topN "D @ ?E"] r(5) [of "fst e" "snd e"] unfolding r(1) by auto
  then have views: "list_all2 (\<lambda>k d. diff_view d = key_view (?A k) (?B k)) (c_diffKeys ?c) (c_diffs ?c)"
    using r(3) by (auto simp: list_all2_iff entries_def)
  have n: "length (c_shapes ?c) = length (c_shapes (p_c p))" by (simp add: r(6))
  have nth: "c_shapes ?c ! j = left_totals (card (holders (p_ops p) j)) (c_shapes (p_c p) ! j)"
    if "j < length (c_shapes (p_c p))" for j using that by (simp add: r(6))
  have fin: "finite (dom (p_ops p))" by (simp add: lo(3))
  have sum: "(\<Sum>j<length (c_shapes (p_c p)). int (card (holders (p_ops p) j))) = int (card (dom ?A - dom ?B))"
    using sum_holders [OF fin] i(5) lo(3) by (simp add: shapes_ok_def)
  have "tsum t_matched ?c = tsum t_matched (p_c p)" "tsum t_missingInA ?c = tsum t_missingInA (p_c p)"
    "tsum t_missingInB ?c = tsum t_missingInB (p_c p) + int (card (dom ?A - dom ?B))"
    "tsum t_differingOps ?c = tsum t_differingOps (p_c p) + int (card (dom ?A - dom ?B))"
    unfolding sum [symmetric] tsum_nth n by (simp_all add: nth left_totals_def sum.distrib)
  moreover have "int (length D) + int (card (dom ?A - dom ?B)) = int (card (all_diffs bySeq as bs))"
  proof -
    have "length (D @ ?E) = card (fst ` set (D @ ?E))"
      using distinct_card [OF r(2)] unfolding set_map length_map by (rule sym)
    moreover have "length ?E = card (dom ?A - dom ?B)"
      using assms lo distinct_card [of "rng (leftovers p)"] by (simp add: go_range_def)
    ultimately show ?thesis unfolding r(4) by simp
  qed
  ultimately show ?thesis
    using keys views i(9) by (simp add: Let_def counted_def)
qed

lemma pair_kinds_refl [simp]: "pair_kinds a a = []"
  by (simp add: pair_kinds_def counts_differ_def)

lemma all_diffs_refl: "all_diffs bySeq as as = {}"
proof -
  have "key_kinds (ops_of bySeq as k) (ops_of bySeq as k) = []" for k
    by (cases "ops_of bySeq as k") simp_all
  then show ?thesis by (simp add: all_diffs_def)
qed

text \<open>a file compared with itself has no difference: every operation is matched.\<close>

theorem compare_self:
  assumes "go_range rng"
  shows "let c = compare_ops rng topN bySeq preferB as as in
     c_diffs c = [] \<and> tsum t_differingOps c = 0 \<and> tsum t_missingInA c = 0 \<and> tsum t_missingInB c = 0 \<and>
     tsum t_matched c = int (card (dom (ops_of bySeq as)))"
  using compare_differences [OF assms, of bySeq as as topN preferB]
  by (auto simp: all_diffs_refl Let_def list_all2_iff)

text \<open>Two small files: a read whose count differs, an operation only the first ran, and a duplicate.\<close>

definition sample_line :: "nat \<Rightarrow> int \<Rightarrow> opLine" where
  "sample_line s n = \<lparr>l_seq = s, l_iteration = 0, l_worker = 1, l_workerSeq = s, l_ns = ''db.c'', l_op = ''find'',
     l_shape = ''find|a'', l_summary = [], l_outcome = Some (sample_outcome 1500 n)\<rparr>"

definition sample_a :: "opLine list" where "sample_a = [sample_line 1 5, sample_line 2 7, sample_line 2 8]"
definition sample_b :: "opLine list" where "sample_b = [sample_line 1 6]"

lemma go_range_id: "go_range (\<lambda>ks. ks)" "go_range rev"
  by (simp_all add: go_range_def)

theorem compare_range_order_witness:
  "compare_ops (\<lambda>ks. ks) 20 True False sample_a sample_b = compare_ops rev 20 True False sample_a sample_b"
  by (rule compare_range_order [OF go_range_id])

lemma sample_diffs: "all_diffs True sample_a sample_b = {OpKey 1 0 0 0, OpKey 2 0 0 0}"
proof -
  have a: "ops_of True sample_a = [OpKey 1 0 0 0 \<mapsto> opLine_result (sample_line 1 5) (sample_outcome 1500 5),
      OpKey 2 0 0 0 \<mapsto> opLine_result (sample_line 2 7) (sample_outcome 1500 7)]"
    by (auto simp: ops_of_def keyed_def sample_a_def sample_line_def opLine_key_def fun_eq_iff)
  have b: "ops_of True sample_b = [OpKey 1 0 0 0 \<mapsto> opLine_result (sample_line 1 6) (sample_outcome 1500 6)]"
    by (auto simp: ops_of_def keyed_def sample_b_def sample_line_def opLine_key_def fun_eq_iff)
  show ?thesis
    by (auto simp: all_diffs_def a b pair_kinds_def counts_differ_def opLine_result_def toResult_def
        sample_outcome_def outcome_counts_def nCounts_def Let_def eval_nat_numeral split: if_splits)
qed

theorem compare_differences_witness:
  "c_diffKeys (compare_ops rev 20 True False sample_a sample_b) = [OpKey 1 0 0 0, OpKey 2 0 0 0] \<and>
   tsum t_differingOps (compare_ops rev 20 True False sample_a sample_b) = 2"
proof -
  have "OpKey 1 0 0 0 < OpKey 2 0 0 0" by (simp add: less_opKey_def)
  then have "sorted_list_of_set {OpKey 1 0 0 0, OpKey 2 0 0 0} = [OpKey 1 0 0 0, OpKey 2 0 0 0]"
    by (auto simp: sorted_list_of_set_insert_remove less_imp_le)
  then show ?thesis
    using compare_differences [OF go_range_id(2), of True sample_a sample_b 20 False]
    by (simp add: sample_diffs Let_def)
qed

theorem compare_self_witness: "tsum t_differingOps (compare_ops rev 20 True False sample_a sample_a) = 0"
  using compare_self [OF go_range_id(2), of 20 True False sample_a] by (simp add: Let_def)

theorem compare_conserves_witness:
  "list_all conserved (c_shapes (compare_ops rev 20 True False sample_a sample_b))"
  by (rule compare_conserves [OF go_range_id(2)])

end
