(* ===== verification/CompareReport.thy ===== *)
theory CompareReport
  imports CompareSpec "HOL-Library.Product_Lexorder"
begin

text \<open>
  The report of a replay comparison (\<open>internal/replaycompare/compare.go\<close> and \<open>plans.go\<close>): opening the
  two sides, their identity, \<open>Compare\<close> with its warnings and refusals, the commands of the differing
  operations, the totals over all shapes and the order of the shapes.

  The files are read from an environment \<open>fs\<close> that gives the content of a path or the error of
  opening it; the clock is the string \<open>now\<close>. Not modelled: the constant notes of a report, the trend
  run a side's plans came from, and the context, which is never done. \<open>cleanTotals\<close> replaces an empty map by
  a nil one, which is the same partial map here.
\<close>

subsection \<open>Shape ids\<close>

text \<open>\<open>stats.StableShapeID\<close>: \<open>hash/fnv\<close>, 64-bit FNV-1a, in hexadecimal.\<close>

definition fnv64a :: "string \<Rightarrow> 64 word" where
  "fnv64a s = foldl (\<lambda>h c. (h XOR of_nat (of_char c)) * 1099511628211) 14695981039346656037 s"

fun nat_hex :: "nat \<Rightarrow> string" where
  "nat_hex n = (if n < 16 then [hex_digit n] else nat_hex (n div 16) @ [hex_digit (n mod 16)])"

declare nat_hex.simps [simp del]

definition StableShapeID :: "string \<Rightarrow> string \<Rightarrow> string \<Rightarrow> string" where
  "StableShapeID operation collection shapeKey =
     ''shape_'' @ nat_hex (unat (fnv64a (operation @ ''|'' @ collection @ ''|'' @ shapeKey)))"

definition shapeID :: "shapeRef \<Rightarrow> string" where
  "shapeID ref = (let coll = (case dropWhile (\<lambda>c. c \<noteq> CHR ''.'') (sr_ns ref) of [] \<Rightarrow> sr_ns ref | _ # rest \<Rightarrow> rest)
     in StableShapeID (sr_op ref) coll (sr_key ref))"

subsection \<open>The two sides\<close>

definition SideRecording :: string where "SideRecording = ''recording''"
definition IdentityRecording :: string where "IdentityRecording = ''recording_header_hash''"
definition IdentityTraffic :: string where "IdentityTraffic = ''traffic_fingerprint''"

record side =
  sd_label :: string
  sd_file :: string
  sd_kind :: string
  sd_status :: string
  sd_ops :: nat
  sd_serverVersion :: string
  sd_topology :: string
  sd_plgmVersion :: string
  sd_createdAt :: string
  sd_workers :: int
  sd_resultChecksums :: bool
  sd_recordingHeaderHash :: string
  sd_trafficFingerprint :: string
  sd_opsFilter :: string
  sd_target :: string

record sideFile =
  sf_path :: string
  sf_side :: side
  sf_recording :: "file_info option"
  sf_seqKeyed :: bool

definition new_side :: "string \<Rightarrow> string \<Rightarrow> side" where
  "new_side label file = \<lparr>sd_label = label, sd_file = file, sd_kind = [], sd_status = [], sd_ops = 0,
     sd_serverVersion = [], sd_topology = [], sd_plgmVersion = [], sd_createdAt = [], sd_workers = 0,
     sd_resultChecksums = False, sd_recordingHeaderHash = [], sd_trafficFingerprint = [], sd_opsFilter = [],
     sd_target = []\<rparr>"

definition add_prefix :: "string \<Rightarrow> 'a res \<Rightarrow> 'a res" where
  "add_prefix s r = (case r of Inl m \<Rightarrow> Err (s @ '': '' @ m) | Inr x \<Rightarrow> Ok x)"

definition openSide :: "(string \<Rightarrow> rec_file res) \<Rightarrow> string \<Rightarrow> string \<Rightarrow> sideFile res" where
  "openSide fs path label =
     (let base = path_base path; sd = new_side label base in
      res_bind (add_prefix base (res_bind (fs path) DetectKind)) (\<lambda>kind.
        if kind = ''recording'' then
          res_bind (add_prefix base (res_bind (fs path) Scan)) (\<lambda>info.
            let h = fi_header info in
            if \<not> h_outcomes h then
              Err (base @ '' is a recording without outcomes: record with workload_record_outcomes on, or compare the outcome files of two replays'')
            else Ok \<lparr>sf_path = path, sf_side = sd\<lparr>sd_kind := SideRecording, sd_status := fi_status info, sd_ops := fi_ops info,
                sd_serverVersion := h_server_version h, sd_topology := h_topology h, sd_plgmVersion := h_plgm_version h,
                sd_createdAt := h_created_at h, sd_workers := fi_workers info, sd_resultChecksums := h_result_checksums h,
                sd_recordingHeaderHash := fi_header_hash info\<rparr>, sf_recording = Some info, sf_seqKeyed = True\<rparr>)
        else
          res_bind (add_prefix base (res_bind (fs path) ReadOutcomeHeader)) (\<lambda>h.
            if oh_source h \<noteq> OutcomeSourceReplay \<and> oh_source h \<noteq> OutcomeSourceDeterministic then
              Err (base @ '': unknown outcome source '' @ go_quote (oh_source h))
            else Ok \<lparr>sf_path = path, sf_side = sd\<lparr>sd_kind := oh_source h, sd_status := StatusIncomplete,
                sd_serverVersion := oh_server_version h, sd_topology := oh_topology h, sd_plgmVersion := oh_plgm_version h,
                sd_createdAt := oh_created_at h, sd_workers := oh_workers h, sd_resultChecksums := oh_result_checksums h,
                sd_recordingHeaderHash := oh_recording_header_hash h, sd_opsFilter := oh_ops_filter h,
                sd_target := oh_target h\<rparr>, sf_recording = None, sf_seqKeyed = (oh_source h = OutcomeSourceReplay)\<rparr>)))"

definition side_identity :: "sideFile \<Rightarrow> string \<times> string" where
  "side_identity sf = (if sf_seqKeyed sf then (IdentityRecording, sd_recordingHeaderHash (sf_side sf))
     else (IdentityTraffic, sd_trafficFingerprint (sf_side sf)))"

definition recorded_line :: "op_line \<Rightarrow> opLine" where
  "recorded_line op = \<lparr>l_seq = ol_seq op, l_iteration = ol_iteration op, l_worker = ol_worker op,
     l_workerSeq = ol_worker_seq op, l_ns = ol_ns op, l_op = ol_op op, l_shape = recordingShapeKey op,
     l_summary = (case ol_shape op of Some s \<Rightarrow> s_summary s | None \<Rightarrow> []), l_outcome = ol_outcome op\<rparr>"

definition replayed_line :: "outcome_line \<Rightarrow> opLine" where
  "replayed_line u = \<lparr>l_seq = ul_seq u, l_iteration = ul_iteration u, l_worker = ul_worker u,
     l_workerSeq = ul_worker_seq u, l_ns = ul_ns u, l_op = ul_op u, l_shape = ul_shape u, l_summary = [],
     l_outcome = Some (ul_outcome u)\<rparr>"

text \<open>\<open>each\<close>, with a callback that cannot fail.\<close>

definition each :: "(string \<Rightarrow> rec_file res) \<Rightarrow> ('s \<Rightarrow> opLine \<Rightarrow> 's) \<Rightarrow> 's \<Rightarrow> sideFile \<Rightarrow> (sideFile \<times> 's) res" where
  "each fs fn s sf =
     (case sf_recording sf of
        Some _ \<Rightarrow> res_bind (fs (sf_path sf)) (\<lambda>f.
          res_bind (Stream f (\<lambda>s op. Ok (fn s (recorded_line op))) s) (\<lambda>s'. Ok (sf, s')))
      | None \<Rightarrow>
          res_bind (add_prefix (sd_file (sf_side sf)) (res_bind (fs (sf_path sf)) (\<lambda>f.
              StreamOutcomes f (\<lambda>(n, s) u. Ok (n + 1, fn s (replayed_line u))) (0 :: nat, s))))
            (\<lambda>(_, tr, n, s').
              let sd = (sf_side sf)\<lparr>sd_ops := n\<rparr>;
                  sd' = (case tr of None \<Rightarrow> sd
                    | Some t \<Rightarrow> sd\<lparr>sd_status := ut_status t, sd_trafficFingerprint := ut_traffic_fingerprint t\<rparr>)
              in Ok (sf\<lparr>sf_side := sd'\<rparr>, s')))"

subsection \<open>Plans\<close>

record planInfo =
  pi_planSignatures :: "string list"
  pi_indexesUsed :: "string list"

record planChange =
  pc_a :: planInfo
  pc_b :: planInfo
  pc_changed :: bool
  pc_note :: string

definition no_plan :: planInfo where
  "no_plan = \<lparr>pi_planSignatures = [], pi_indexesUsed = []\<rparr>"

text \<open>\<open>sameSet\<close> compares the sorted lists joined with a NUL byte.\<close>

definition sameSet :: "string list \<Rightarrow> string list \<Rightarrow> bool" where
  "sameSet a b \<longleftrightarrow> join_with [CHR 0x00] (sort a) = join_with [CHR 0x00] (sort b)"

definition plan_change :: "planInfo \<Rightarrow> planInfo \<Rightarrow> bool \<Rightarrow> planChange option" where
  "plan_change a b have_both =
     (if \<not> have_both \<or> (pi_planSignatures a = [] \<and> pi_planSignatures b = []) then None
      else Some (if pi_planSignatures a = [] \<or> pi_planSignatures b = [] then
           \<lparr>pc_a = a, pc_b = b, pc_changed = False, pc_note = ''explain evidence on one side only; plans not compared''\<rparr>
         else if \<not> sameSet (pi_planSignatures a) (pi_planSignatures b) then
           \<lparr>pc_a = a, pc_b = b, pc_changed = True,
            pc_note = ''the winning plan differs between the two runs (annotation only; not evidence of cause)''\<rparr>
         else \<lparr>pc_a = a, pc_b = b, pc_changed = False, pc_note = ''same winning plan on both runs''\<rparr>))"

subsection \<open>The report\<close>

record shapeComparison =
  sc_shapeID :: string
  sc_ref :: shapeRef
  sc_summary :: string
  sc_totals :: totals
  sc_latency :: latency_comparison
  sc_plan :: "planChange option"

record report =
  rp_generatedAt :: string
  rp_A :: side
  rp_B :: side
  rp_matchedBy :: string
  rp_identityKind :: string
  rp_identity :: string
  rp_identityMatch :: bool
  rp_warnings :: "string list"
  rp_overall :: totals
  rp_overallLatency :: latency_comparison
  rp_shapeVerdicts :: "string \<rightharpoonup> nat"
  rp_shapes :: "shapeComparison list"
  rp_differingOps :: "opDiff list"
  rp_topN :: nat
  rp_containsLiteralValues :: bool
  rp_notes :: "string list"

record cmp_options =
  co_labelA :: string
  co_labelB :: string
  co_allowMismatch :: bool
  co_topN :: int
  co_recordingPath :: string
  co_plansA :: "(string \<rightharpoonup> planInfo) option"
  co_plansB :: "(string \<rightharpoonup> planInfo) option"
  co_notes :: "string list"

definition DefaultTopN :: int where "DefaultTopN = 20"
definition MaxTopN :: int where "MaxTopN = 1000"

definition top_n :: "cmp_options \<Rightarrow> nat" where
  "top_n opts = (let n = (if co_topN opts \<le> 0 then DefaultTopN else co_topN opts)
     in nat (if n > MaxTopN then MaxTopN else n))"

definition emptyFallback :: "string \<Rightarrow> string \<Rightarrow> string" where
  "emptyFallback s d = (if trim_space s = [] then d else s)"

definition short :: "string \<Rightarrow> string" where
  "short h = (if length h > 12 then take 12 h else h)"

definition missingSide :: "string \<Rightarrow> string \<Rightarrow> string" where
  "missingSide a b = (if a = [] \<and> b = [] then ''both sides'' else if a = [] then ''A'' else ''B'')"

definition MatchBySeq :: string where "MatchBySeq = ''seq''"
definition MatchByWorkerSeq :: string where "MatchByWorkerSeq = ''iteration_worker_seq''"

text \<open>\<open>checkIdentity\<close>: the mismatches, or the kind and value of the common identity.\<close>

definition checkIdentity :: "sideFile \<Rightarrow> sideFile \<Rightarrow> string list \<times> (string \<times> string) option" where
  "checkIdentity sa sb =
     (let (ka, ia) = side_identity sa; (kb, ib) = side_identity sb; what = replace_char (CHR ''_'') '' '' ka in
      if ka \<noteq> kb then ([''A is a '' @ sd_kind (sf_side sa) @ '' file and B a '' @ sd_kind (sf_side sb) @
          '' file: a replay or recording is not the same operations as a deterministic run''], None)
      else if ia = [] \<or> ib = [] then
        ([''the '' @ what @ '' is missing on '' @ missingSide ia ib @ '' (the file did not finish)''], None)
      else if ia \<noteq> ib then ([''the '' @ what @ '' differs: A '' @ short ia @ '', B '' @ short ib], None)
      else ([], Some (ka, ia)))"

definition refuse :: "string list \<Rightarrow> string" where
  "refuse mismatches = ''the files are not executions of the same operations: '' @ join_with ''; '' mismatches @
     '' (allow a mismatch to compare anyway)''"

definition compare_warnings :: "string list \<Rightarrow> string \<Rightarrow> side \<Rightarrow> side \<Rightarrow> nat \<Rightarrow> nat \<Rightarrow> nat \<Rightarrow> string list" where
  "compare_warnings mismatches matchedBy a b dupA dupB noOutcome =
     map (\<lambda>m. ''Mismatch allowed: '' @ m @ ''; operations are matched by '' @ replace_char (CHR ''_'') '', '' matchedBy @
       '' and the comparison may be meaningless'') mismatches @
     concat (map (\<lambda>s. if sd_status s \<noteq> StatusComplete then [sd_label s @ '' ('' @ sd_file s @ '') status is '' @ sd_status s @
       '', not complete: operations it did not run are reported as missing''] else []) [a, b]) @
     (if sd_opsFilter a \<noteq> sd_opsFilter b then
        concat (map (\<lambda>s. if sd_opsFilter s \<noteq> [] then [sd_label s @ '' ('' @ sd_file s @ '') replayed '' @
          replace_char (CHR ''_'') '' '' (sd_opsFilter s) @
          '' (workload_replay_ops): the writes it skipped are reported as missing on that side''] else []) [a, b])
      else []) @
     (if sd_resultChecksums a \<noteq> sd_resultChecksums b then
        [''only one side has result checksums (workload_record_result_checksums); results are compared by counts only''] else []) @
     (if dupA + dupB > 0 then [''duplicate operation keys ignored: '' @ itoa (int dupA) @ '' in A, '' @ itoa (int dupB) @ '' in B'']
      else []) @
     (if noOutcome > 0 then [itoa (int noOutcome) @ '' recorded operations have no outcome and were skipped''] else [])"

subsection \<open>Commands of the differing operations\<close>

text \<open>Which file holds the commands: a path, or a note and a warning why none is shown.\<close>

definition command_source ::
    "(string \<Rightarrow> rec_file res) \<Rightarrow> sideFile \<Rightarrow> sideFile \<Rightarrow> string \<Rightarrow> bool \<Rightarrow> (string \<times> string \<times> string list) res" where
  "command_source fs sa sb recordingPath bySeq =
     (if sf_recording sa \<noteq> None then Ok (sf_path sa, [], [])
      else if sf_recording sb \<noteq> None then Ok (sf_path sb, [], [])
      else if \<not> bySeq then Ok ([], ''not stored: deterministic runs regenerate their commands from the seed; record the run (workload_record_enabled) to keep them'', [])
      else if recordingPath = [] then Ok ([], ''not shown: give the recording file to show the commands'', [])
      else res_bind (add_prefix (''recording '' @ path_base recordingPath) (res_bind (fs recordingPath) Scan)) (\<lambda>info.
        if fi_header_hash info \<noteq> sd_recordingHeaderHash (sf_side sa) \<and>
           fi_header_hash info \<noteq> sd_recordingHeaderHash (sf_side sb)
        then Ok ([], ''not shown: the given recording does not match'',
          [''the recording '' @ path_base recordingPath @ '' (header hash '' @ short (fi_header_hash info) @
           '') is not the one these files replayed; commands are not shown''])
        else Ok (recordingPath, [], [])))"

definition attach_op ::
    "(opKey \<rightharpoonup> nat) \<Rightarrow> bool \<Rightarrow> opDiff list \<times> (string \<rightharpoonup> string) \<Rightarrow> op_line \<Rightarrow> opDiff list \<times> (string \<rightharpoonup> string)" where
  "attach_op want bySeq st op =
     (let (ds, sm) = st;
          sm' = (case ol_shape op of Some s \<Rightarrow> (if s_summary s \<noteq> [] then sm(s_key s \<mapsto> s_summary s) else sm) | None \<Rightarrow> sm)
      in case want (opLine_key bySeq (recorded_line op)) of
           Some i \<Rightarrow> (ds[i := (ds ! i)\<lparr>d_command := ol_cmd op\<rparr>], sm')
         | None \<Rightarrow> (ds, sm'))"

definition attachCommands ::
    "(string \<Rightarrow> rec_file res) \<Rightarrow> sideFile \<Rightarrow> sideFile \<Rightarrow> string \<Rightarrow> bool \<Rightarrow> opKey list \<Rightarrow>
     string list \<times> opDiff list \<times> (string \<rightharpoonup> string) \<Rightarrow> (string list \<times> opDiff list \<times> (string \<rightharpoonup> string)) res" where
  "attachCommands fs sa sb recordingPath bySeq keys st =
     (let (ws, ds, sm) = st in
      if ds = [] \<and> (sf_recording sa \<noteq> None \<or> sf_recording sb \<noteq> None \<or> recordingPath = []) then Ok st
      else res_bind (command_source fs sa sb recordingPath bySeq) (\<lambda>(path, note, ws').
        if path = [] then Ok (ws @ ws', map (\<lambda>d. d\<lparr>d_commandNote := note\<rparr>) ds, sm)
        else let want = map_of (rev (zip keys [0..<length keys])) in
          res_bind (add_prefix (''read commands from '' @ path_base path)
            (res_bind (fs path) (\<lambda>f. Stream f (\<lambda>s op. Ok (attach_op want bySeq s op)) (ds, sm)))) (\<lambda>(ds', sm').
            Ok (ws @ ws', map (\<lambda>d. d\<lparr>d_commandNote := (if d_command d = [] then ''not in the recording''
                else ''recorded command, sent unchanged on both sides'')\<rparr>) ds', sm'))))"

subsection \<open>Totals and shapes\<close>

definition merge_counts :: "(string \<rightharpoonup> nat) \<Rightarrow> (string \<rightharpoonup> nat) \<Rightarrow> (string \<rightharpoonup> nat)" where
  "merge_counts dst src = (\<lambda>k. case src k of None \<Rightarrow> dst k | Some n \<Rightarrow> Some (cnt dst k + n))"

definition mergeTotals :: "totals \<Rightarrow> totals \<Rightarrow> totals" where
  "mergeTotals dst src = \<lparr>t_opsA = t_opsA dst + t_opsA src, t_opsB = t_opsB dst + t_opsB src,
     t_matched = t_matched dst + t_matched src, t_differingOps = t_differingOps dst + t_differingOps src,
     t_countMismatches = t_countMismatches dst + t_countMismatches src,
     t_checksumMismatches = t_checksumMismatches dst + t_checksumMismatches src,
     t_checksumsCompared = t_checksumsCompared dst + t_checksumsCompared src,
     t_errorsOnlyA = merge_counts (t_errorsOnlyA dst) (t_errorsOnlyA src),
     t_errorsOnlyB = merge_counts (t_errorsOnlyB dst) (t_errorsOnlyB src),
     t_errorCodeDifferences = t_errorCodeDifferences dst + t_errorCodeDifferences src,
     t_missingInA = t_missingInA dst + t_missingInA src, t_missingInB = t_missingInB dst + t_missingInB src\<rparr>"

definition or_empty :: "(string \<rightharpoonup> string) \<Rightarrow> string \<Rightarrow> string" where
  "or_empty m k = (case m k of None \<Rightarrow> [] | Some v \<Rightarrow> v)"

definition plan_of :: "(string \<rightharpoonup> planInfo) option \<Rightarrow> string \<Rightarrow> planInfo" where
  "plan_of m k = (case m of None \<Rightarrow> no_plan | Some f \<Rightarrow> (case f k of None \<Rightarrow> no_plan | Some i \<Rightarrow> i))"

definition shape_comparison :: "cmp_options \<Rightarrow> (string \<rightharpoonup> string) \<Rightarrow> shapeAcc \<Rightarrow> shapeComparison" where
  "shape_comparison opts sm acc =
     (let i = shapeID (sa_ref acc) in
      \<lparr>sc_shapeID = i, sc_ref = sa_ref acc, sc_summary = or_empty sm (sr_key (sa_ref acc)), sc_totals = sa_t acc,
       sc_latency = compareLatency (sa_latA acc) (sa_latB acc),
       sc_plan = plan_change (plan_of (co_plansA opts) i) (plan_of (co_plansB opts) i)
         (co_plansA opts \<noteq> None \<and> co_plansB opts \<noteq> None)\<rparr>)"

definition shape_rank :: "shapeComparison \<Rightarrow> int \<times> nat \<times> string \<times> string \<times> string" where
  "shape_rank s = (- t_differingOps (sc_totals s), verdictRank (lc_verdict (sc_latency s)),
     sr_ns (sc_ref s), sr_op (sc_ref s), sr_key (sc_ref s))"

definition overall_totals :: "shapeAcc list \<Rightarrow> totals" where
  "overall_totals accs = foldl (\<lambda>t acc. mergeTotals t (sa_t acc)) zero_totals accs"

definition finish_diff :: "(string \<rightharpoonup> string) \<Rightarrow> opDiff \<Rightarrow> opDiff" where
  "finish_diff sm d = d\<lparr>d_shapeSummary := or_empty sm (sr_key (d_ref d))\<rparr>"

text \<open>The report from the comparer, the sides and the attached commands.\<close>

definition build_report ::
    "cmp_options \<Rightarrow> string \<Rightarrow> bool \<Rightarrow> (string \<times> string) option \<Rightarrow> side \<Rightarrow> side \<Rightarrow> comparer \<Rightarrow>
     string list \<times> opDiff list \<times> (string \<rightharpoonup> string) \<Rightarrow> report" where
  "build_report opts now bySeq ident a b c st =
     (let (ws, ds, sm) = st; shapes = map (shape_comparison opts sm) (c_shapes c) in
      \<lparr>rp_generatedAt = now, rp_A = a, rp_B = b, rp_matchedBy = (if bySeq then MatchBySeq else MatchByWorkerSeq),
       rp_identityKind = (case ident of Some (k, _) \<Rightarrow> k | None \<Rightarrow> []),
       rp_identity = (case ident of Some (_, i) \<Rightarrow> i | None \<Rightarrow> []), rp_identityMatch = (ident \<noteq> None),
       rp_warnings = ws, rp_overall = overall_totals (c_shapes c),
       rp_overallLatency = compareLatency (concat (map sa_latA (c_shapes c))) (concat (map sa_latB (c_shapes c))),
       rp_shapeVerdicts = foldl (\<lambda>m s. bump m (lc_verdict (sc_latency s))) Map.empty shapes,
       rp_shapes = sort_key shape_rank shapes, rp_differingOps = map (finish_diff sm) ds, rp_topN = top_n opts,
       rp_containsLiteralValues = (\<exists>d \<in> set ds. d_command d \<noteq> []), rp_notes = co_notes opts\<rparr>)"

text \<open>What follows the passes: the identity of runs without a sequence is known only now.\<close>

definition compare_finish ::
    "(string \<Rightarrow> rec_file res) \<Rightarrow> (opKey list \<Rightarrow> opKey list) \<Rightarrow> string \<Rightarrow> cmp_options \<Rightarrow> bool \<Rightarrow>
     string list \<times> (string \<times> string) option \<Rightarrow> sideFile \<Rightarrow> sideFile \<Rightarrow> pass \<Rightarrow> pass \<Rightarrow> report res" where
  "compare_finish fs rng now opts bySeq early sa sb pa pb =
     (let mi = (if bySeq then early else checkIdentity sa sb) in
      if \<not> bySeq \<and> fst mi \<noteq> [] \<and> \<not> co_allowMismatch opts then Err (refuse (fst mi))
      else
        let c = trimDiffs (foldl (step_left (p_ops pb)) (p_c pb) (rng (leftovers pb)));
            ws = compare_warnings (fst mi) (if bySeq then MatchBySeq else MatchByWorkerSeq) (sf_side sa) (sf_side sb)
                   (p_dup pa) (p_dup pb) (p_noOutcome pb)
        in res_bind (attachCommands fs sa sb (co_recordingPath opts) bySeq (c_diffKeys c) (ws, c_diffs c, c_summaries c)) (\<lambda>st.
             Ok (build_report opts now bySeq (snd mi) (sf_side sa) (sf_side sb) c st)))"

definition refused_early :: "sideFile \<Rightarrow> sideFile \<Rightarrow> bool" where
  "refused_early sa sb =
     (if sf_seqKeyed sa \<and> sf_seqKeyed sb then fst (checkIdentity sa sb) \<noteq> [] else sf_seqKeyed sa \<noteq> sf_seqKeyed sb)"

definition Compare ::
    "(string \<Rightarrow> rec_file res) \<Rightarrow> (opKey list \<Rightarrow> opKey list) \<Rightarrow> string \<Rightarrow> string \<Rightarrow> string \<Rightarrow> cmp_options \<Rightarrow> report res" where
  "Compare fs rng now pathA pathB opts =
     res_bind (openSide fs pathA (emptyFallback (co_labelA opts) ''A'')) (\<lambda>sa.
     res_bind (openSide fs pathB (emptyFallback (co_labelB opts) ''B'')) (\<lambda>sb.
       let bySeq = (sf_seqKeyed sa \<and> sf_seqKeyed sb)
       in if refused_early sa sb \<and> \<not> co_allowMismatch opts then Err (refuse (fst (checkIdentity sa sb)))
       else
         res_bind (each fs (step_a bySeq) (init_pass (top_n opts)) sa) (\<lambda>(sa1, pa).
         res_bind (each fs (step_b bySeq (sf_recording sa1 \<noteq> None \<and> sf_recording sb = None)) (start_b pa) sb) (\<lambda>(sb1, pb).
           compare_finish fs rng now opts bySeq (checkIdentity sa sb) sa1 sb1 pa pb))))"

end
