(* ===== verification/CompareCorrect.thy ===== *)
theory CompareCorrect
  imports CompareReport
begin

text \<open>
  \<open>Compare\<close> end to end: a report without \<open>AllowMismatch\<close> is one of two executions with the same
  identity; what it lists are the differences of the two files' operations; its totals add up and its
  shapes are in the documented order.
\<close>

subsection \<open>The operations of a side\<close>

definition side_ops :: "(string \<Rightarrow> rec_file res) \<Rightarrow> sideFile \<Rightarrow> (outcome_trailer option \<times> opLine list) res" where
  "side_ops fs sf = (case sf_recording sf of
       Some _ \<Rightarrow> res_map (\<lambda>ops. (None, map recorded_line ops)) (res_bind (fs (sf_path sf)) stream_ops)
     | None \<Rightarrow> res_map (\<lambda>(tr, ls). (tr, map replayed_line ls)) (res_bind (fs (sf_path sf)) outcome_lines))"

definition side_after :: "sideFile \<Rightarrow> outcome_trailer option \<Rightarrow> opLine list \<Rightarrow> sideFile" where
  "side_after sf tr ls = (if sf_recording sf \<noteq> None then sf
     else sf\<lparr>sf_side := (let sd = (sf_side sf)\<lparr>sd_ops := length ls\<rparr> in
       case tr of None \<Rightarrow> sd | Some t \<Rightarrow> sd\<lparr>sd_status := ut_status t, sd_trafficFingerprint := ut_traffic_fingerprint t\<rparr>)\<rparr>)"

lemma side_after_keeps [simp]:
  "sf_recording (side_after sf tr ls) = sf_recording sf" "sf_seqKeyed (side_after sf tr ls) = sf_seqKeyed sf"
  "sf_path (side_after sf tr ls) = sf_path sf"
  by (simp_all add: side_after_def)

lemma res_map_Ok: "res_map f r = Ok y \<longleftrightarrow> (\<exists>x. r = Ok x \<and> y = f x)"
  by (cases r) auto

lemma add_prefix_Ok [simp]: "add_prefix s r = Ok x \<longleftrightarrow> r = Ok x"
  by (cases r) (simp_all add: add_prefix_def)

lemma Stream_pure_Ok:
  "Stream f (\<lambda>s op. Ok (g s (recorded_line op))) s = Ok s' \<longleftrightarrow>
     (\<exists>ops. stream_ops f = Ok ops \<and> s' = foldl g s (map recorded_line ops))"
  using rec_stream.stream_pure_Ok [of f "\<lambda>s op. g s (recorded_line op)" s "()" s']
  by (auto simp: res_map_Ok foldl_map)

lemma StreamOutcomes_pure_Ok:
  "(\<exists>h. StreamOutcomes f (\<lambda>s u. Ok (g s u)) s = Ok (h, tr, s')) \<longleftrightarrow>
     (\<exists>ls. outcome_lines f = Ok (tr, ls) \<and> s' = foldl g s ls)"
  using out_stream.stream_pure_Ok [of f g s "(_, tr)" s']
  by (auto simp: res_map_Ok outcome_lines_def res_bind_Ok)

lemma foldl_count: "foldl (\<lambda>(n, s) u. (n + 1, fn s (h u))) (m, s) us = (m + length us, foldl fn s (map h us))"
  for m :: nat
  by (induction us arbitrary: m s) auto

lemma each_Ok:
  assumes "each fs fn s sf = Ok (sf', s')"
  obtains tr ls where "side_ops fs sf = Ok (tr, ls)" "s' = foldl fn s ls" "sf' = side_after sf tr ls"
proof (cases "sf_recording sf")
  case (Some i)
  with assms obtain f where f: "fs (sf_path sf) = Ok f" "sf' = sf" "Stream f (\<lambda>s op. Ok (fn s (recorded_line op))) s = Ok s'"
    by (auto simp: each_def res_bind_Ok)
  then obtain ops where "stream_ops f = Ok ops" "s' = foldl fn s (map recorded_line ops)"
    by (auto simp: Stream_pure_Ok)
  with Some f that [of None "map recorded_line ops"] show thesis
    by (simp add: side_ops_def side_after_def)
next
  case None
  with assms obtain f h tr n where f: "fs (sf_path sf) = Ok f"
      "StreamOutcomes f (\<lambda>(n, s) u. Ok (n + 1, fn s (replayed_line u))) (0 :: nat, s) = Ok (h, tr, n, s')"
      "sf' = sf\<lparr>sf_side := (let sd = (sf_side sf)\<lparr>sd_ops := n\<rparr> in
         case tr of None \<Rightarrow> sd | Some t \<Rightarrow> sd\<lparr>sd_status := ut_status t, sd_trafficFingerprint := ut_traffic_fingerprint t\<rparr>)\<rparr>"
    by (auto simp: each_def res_bind_Ok Let_def)
  have fn: "(\<lambda>(n, s) u. Ok (n + 1, fn s (replayed_line u))) = (\<lambda>s u. Ok ((\<lambda>(n :: nat, s) u. (n + 1, fn s (replayed_line u))) s u))"
    by (auto simp: fun_eq_iff)
  from f(2) have "\<exists>ls. outcome_lines f = Ok (tr, ls) \<and>
      (n, s') = foldl (\<lambda>(n, s) u. (n + 1, fn s (replayed_line u))) (0 :: nat, s) ls"
    unfolding fn StreamOutcomes_pure_Ok [symmetric] by blast
  then obtain ls where "outcome_lines f = Ok (tr, ls)" "n = length ls" "s' = foldl fn s (map replayed_line ls)"
    using foldl_count [of fn replayed_line 0 s] by fastforce
  with None f that [of tr "map replayed_line ls"] show thesis
    by (simp add: side_ops_def side_after_def)
qed

subsection \<open>Attaching commands changes nothing else\<close>

definition diff_core :: "opDiff \<Rightarrow> opDiff" where
  "diff_core d = d\<lparr>d_shapeSummary := [], d_command := [], d_commandNote := []\<rparr>"

lemma diff_core_simps [simp]:
  "diff_core (d\<lparr>d_command := x\<rparr>) = diff_core d" "diff_core (d\<lparr>d_commandNote := x\<rparr>) = diff_core d"
  "diff_core (d\<lparr>d_shapeSummary := x\<rparr>) = diff_core d" "diff_core (finish_diff sm d) = diff_core d"
  "d_kinds (diff_core d) = d_kinds d"
  by (simp_all add: diff_core_def finish_diff_def)

lemma attach_op_core: "map diff_core (fst (attach_op want bySeq st op)) = map diff_core (fst st)"
proof (cases st)
  case (Pair ds sm)
  have "map diff_core (ds[i := (ds ! i)\<lparr>d_command := x\<rparr>]) = map diff_core ds" for i x
    by (cases "i < length ds") (simp_all add: map_update list_update_same_conv list_update_beyond)
  with Pair show ?thesis by (simp add: attach_op_def split: option.split)
qed

lemma attach_ops_core: "map diff_core (fst (foldl (attach_op want bySeq) st ops)) = map diff_core (fst st)"
  by (induction ops arbitrary: st) (simp_all add: attach_op_core)

lemma attachCommands_core:
  assumes "attachCommands fs sa sb path bySeq keys (ws, ds, sm) = Ok (ws', ds', sm')"
  shows "map diff_core ds' = map diff_core ds"
proof (cases "ds = [] \<and> (sf_recording sa \<noteq> None \<or> sf_recording sb \<noteq> None \<or> path = [])")
  case True
  with assms show ?thesis by (auto simp: attachCommands_def)
next
  case False
  with assms obtain p note1 ws1 where src: "command_source fs sa sb path bySeq = Ok (p, note1, ws1)"
    by (auto simp: attachCommands_def res_bind_Ok)
  show ?thesis
  proof (cases "p = []")
    case True
    with assms False src show ?thesis by (auto simp: attachCommands_def comp_def)
  next
    case p: False
    let ?want = "map_of (rev (zip keys [0..<length keys]))"
    from assms False src p obtain f ds1 where
        st: "Stream f (\<lambda>s op. Ok (attach_op ?want bySeq s op)) (ds, sm) = Ok (ds1, sm')"
        and ds': "map diff_core ds' = map diff_core ds1"
      by (auto simp: attachCommands_def res_bind_Ok Let_def comp_def)
    from st rec_stream.stream_pure_Ok [of f "attach_op ?want bySeq" "(ds, sm)" "()" "(ds1, sm')"]
    obtain ops where "(ds1, sm') = foldl (attach_op ?want bySeq) (ds, sm) ops"
      by (auto simp: res_map_Ok)
    with ds' attach_ops_core [of ?want bySeq "(ds, sm)" ops] show ?thesis
      by (metis fst_conv)
  qed
qed

subsection \<open>Totals\<close>

lemma foldl_mergeTotals:
  assumes "\<And>d s. f (mergeTotals d s) = f d + (f s :: int)"
  shows "f (foldl (\<lambda>t acc. mergeTotals t (sa_t acc)) t0 accs) = f t0 + sum_list (map (\<lambda>a. f (sa_t a)) accs)"
  by (induction accs arbitrary: t0) (simp_all add: assms)

lemma overall_totals_sum:
  "t_opsA (overall_totals accs) = sum_list (map (\<lambda>a. t_opsA (sa_t a)) accs)"
  "t_opsB (overall_totals accs) = sum_list (map (\<lambda>a. t_opsB (sa_t a)) accs)"
  "t_matched (overall_totals accs) = sum_list (map (\<lambda>a. t_matched (sa_t a)) accs)"
  "t_missingInA (overall_totals accs) = sum_list (map (\<lambda>a. t_missingInA (sa_t a)) accs)"
  "t_missingInB (overall_totals accs) = sum_list (map (\<lambda>a. t_missingInB (sa_t a)) accs)"
  "t_differingOps (overall_totals accs) = sum_list (map (\<lambda>a. t_differingOps (sa_t a)) accs)"
  unfolding overall_totals_def
  by (subst foldl_mergeTotals; simp add: mergeTotals_def zero_totals_def)+

lemma sum_list_conserved:
  "\<forall>acc \<in> set accs. conserved acc \<Longrightarrow>
     sum_list (map (\<lambda>a. t_opsA (sa_t a)) accs) = sum_list (map (\<lambda>a. t_matched (sa_t a)) accs) + sum_list (map (\<lambda>a. t_missingInB (sa_t a)) accs) \<and>
     sum_list (map (\<lambda>a. t_opsB (sa_t a)) accs) = sum_list (map (\<lambda>a. t_matched (sa_t a)) accs) + sum_list (map (\<lambda>a. t_missingInA (sa_t a)) accs)"
proof (induction accs)
  case (Cons a accs)
  then have "conserved a" and "\<forall>acc \<in> set accs. conserved acc" by simp_all
  with Cons.IH show ?case by (simp add: conserved_def [of a])
qed simp

subsection \<open>The whole of Compare\<close>

lemma checkIdentity_cong:
  "side_identity sa' = side_identity sa \<Longrightarrow> side_identity sb' = side_identity sb \<Longrightarrow>
   sd_kind (sf_side sa') = sd_kind (sf_side sa) \<Longrightarrow> sd_kind (sf_side sb') = sd_kind (sf_side sb) \<Longrightarrow>
   checkIdentity sa' sb' = checkIdentity sa sb"
  unfolding checkIdentity_def by (simp only:)

lemma Compare_Ok:
  assumes "Compare fs rng now pathA pathB opts = Ok rep"
  obtains sa sb tra trb as bs st bySeq c where
    "openSide fs pathA (emptyFallback (co_labelA opts) ''A'') = Ok sa"
    "openSide fs pathB (emptyFallback (co_labelB opts) ''B'') = Ok sb"
    "bySeq = (sf_seqKeyed sa \<and> sf_seqKeyed sb)"
    "side_ops fs sa = Ok (tra, as)" "side_ops fs sb = Ok (trb, bs)"
    "c = compare_ops rng (top_n opts) bySeq (sf_recording sa \<noteq> None \<and> sf_recording sb = None) as bs"
    "map diff_core (fst (snd st)) = map diff_core (c_diffs c)"
    "rep = build_report opts now bySeq (snd (checkIdentity (side_after sa tra as) (side_after sb trb bs)))
       (sf_side (side_after sa tra as)) (sf_side (side_after sb trb bs)) c st"
    "co_allowMismatch opts \<or> fst (checkIdentity (side_after sa tra as) (side_after sb trb bs)) = []"
proof -
  from assms obtain sa sb where op: "openSide fs pathA (emptyFallback (co_labelA opts) ''A'') = Ok sa"
      "openSide fs pathB (emptyFallback (co_labelB opts) ''B'') = Ok sb"
    unfolding Compare_def res_bind_Ok by blast
  define bySeq where "bySeq = (sf_seqKeyed sa \<and> sf_seqKeyed sb)"
  let ?pref = "sf_recording sa \<noteq> None \<and> sf_recording sb = None"
  from assms op have early: "\<not> (refused_early sa sb \<and> \<not> co_allowMismatch opts)"
    and rest: "res_bind (each fs (step_a bySeq) (init_pass (top_n opts)) sa) (\<lambda>(sa1, pa).
         res_bind (each fs (step_b bySeq (sf_recording sa1 \<noteq> None \<and> sf_recording sb = None)) (start_b pa) sb) (\<lambda>(sb1, pb).
           compare_finish fs rng now opts bySeq (checkIdentity sa sb) sa1 sb1 pa pb)) = Ok rep"
    by (simp_all add: Compare_def bySeq_def Let_def split: if_splits)
  from rest obtain sa1 pa where ea: "each fs (step_a bySeq) (init_pass (top_n opts)) sa = Ok (sa1, pa)"
    and rest2: "res_bind (each fs (step_b bySeq (sf_recording sa1 \<noteq> None \<and> sf_recording sb = None)) (start_b pa) sb) (\<lambda>(sb1, pb).
           compare_finish fs rng now opts bySeq (checkIdentity sa sb) sa1 sb1 pa pb) = Ok rep"
    by (auto simp only: res_bind_Ok split_paired_Ex prod.case)
  from each_Ok [OF ea] obtain tra as where a: "side_ops fs sa = Ok (tra, as)"
      "pa = pass_a (top_n opts) bySeq as" "sa1 = side_after sa tra as"
    by (metis pass_a_def)
  from rest2 obtain sb1 pb where eb: "each fs (step_b bySeq ?pref) (start_b pa) sb = Ok (sb1, pb)"
    and fin: "compare_finish fs rng now opts bySeq (checkIdentity sa sb) sa1 sb1 pa pb = Ok rep"
    unfolding a(3) side_after_keeps by (auto simp only: res_bind_Ok split_paired_Ex prod.case)
  from each_Ok [OF eb] obtain trb bs where b: "side_ops fs sb = Ok (trb, bs)"
      "pb = pass_b bySeq ?pref pa bs" "sb1 = side_after sb trb bs"
    by (metis pass_b_def)
  let ?c = "compare_ops rng (top_n opts) bySeq ?pref as bs"
  have c: "trimDiffs (foldl (step_left (p_ops pb)) (p_c pb) (rng (leftovers pb))) = ?c"
    by (simp add: compare_ops_def a(2) b(2) Let_def)
  have same: "checkIdentity sa1 sb1 = checkIdentity sa sb" if bySeq
  proof -
    have "side_identity (side_after sf tr ls) = side_identity sf" if "sf_seqKeyed sf" for sf tr ls
      using that by (simp add: side_identity_def side_after_def Let_def split: option.split)
    moreover have "sd_kind (sf_side (side_after sf tr ls)) = sd_kind (sf_side sf)" for sf tr ls
      by (simp add: side_after_def Let_def split: option.split)
    ultimately show ?thesis
      using that unfolding a(3) b(3) bySeq_def by (intro checkIdentity_cong) simp_all
  qed
  then have mi: "(if bySeq then checkIdentity sa sb else checkIdentity sa1 sb1) = checkIdentity sa1 sb1"
    by simp
  note fin = fin [unfolded compare_finish_def mi c Let_def]
  from fin have late: "\<not> (\<not> bySeq \<and> fst (checkIdentity sa1 sb1) \<noteq> [] \<and> \<not> co_allowMismatch opts)"
    by (metis sum.distinct(1))
  from fin late obtain ws st where
      att: "attachCommands fs sa1 sb1 (co_recordingPath opts) bySeq (c_diffKeys ?c) (ws, c_diffs ?c, c_summaries ?c) = Ok st"
      and rep: "rep = build_report opts now bySeq (snd (checkIdentity sa1 sb1)) (sf_side sa1) (sf_side sb1) ?c st"
    by (auto simp only: res_bind_Ok if_False)
  have ok: "co_allowMismatch opts \<or> fst (checkIdentity sa1 sb1) = []"
    using early late same by (auto simp: refused_early_def bySeq_def)
  obtain w d s where "st = (w, d, s)" by (cases st)
  with attachCommands_core [of fs sa1 sb1] att have "map diff_core (fst (snd st)) = map diff_core (c_diffs ?c)"
    by (metis fst_conv snd_conv)
  with that [OF op bySeq_def a(1) b(1) refl] rep ok show thesis
    unfolding a(3) b(3) by blast
qed

text \<open>C12: without \<open>AllowMismatch\<close> a report exists only when both files identify the same operations:
  the same recording (header hash) or the same generated traffic (fingerprint), and the report
  states that identity.\<close>

theorem Compare_identity:
  assumes "Compare fs rng now pathA pathB opts = Ok rep" and "\<not> co_allowMismatch opts"
  shows "rp_identityMatch rep \<and> rp_identity rep \<noteq> [] \<and>
     (rp_identityKind rep = IdentityRecording \<and> sd_recordingHeaderHash (rp_A rep) = rp_identity rep \<and>
        sd_recordingHeaderHash (rp_B rep) = rp_identity rep \<or>
      rp_identityKind rep = IdentityTraffic \<and> sd_trafficFingerprint (rp_A rep) = rp_identity rep \<and>
        sd_trafficFingerprint (rp_B rep) = rp_identity rep)"
proof -
  obtain sa sb tra trb as bs st bySeq c where
    rep: "rep = build_report opts now bySeq (snd (checkIdentity (side_after sa tra as) (side_after sb trb bs)))
       (sf_side (side_after sa tra as)) (sf_side (side_after sb trb bs)) c st"
    and none: "fst (checkIdentity (side_after sa tra as) (side_after sb trb bs)) = []"
    using Compare_Ok [OF assms(1)] assms(2) by metis
  let ?a = "side_after sa tra as" and ?b = "side_after sb trb bs"
  obtain k i where ki: "side_identity ?a = (k, i)" "side_identity ?b = (k, i)" "i \<noteq> []"
      "snd (checkIdentity ?a ?b) = Some (k, i)"
    using none by (auto simp: checkIdentity_def Let_def split: prod.splits if_splits)
  then have "rp_identityMatch rep" "rp_identity rep = i" "rp_identityKind rep = k"
    "rp_A rep = sf_side ?a" "rp_B rep = sf_side ?b"
    by (simp_all add: rep build_report_def Let_def split: prod.split)
  moreover have "IdentityRecording \<noteq> IdentityTraffic" "IdentityTraffic \<noteq> IdentityRecording"
    by (simp_all add: IdentityRecording_def IdentityTraffic_def)
  ultimately show ?thesis
    using ki(1-3) by (auto simp: side_identity_def split: if_splits)
qed

text \<open>C5: a report lists exactly the differences of the operations of the two files: those with the
  lowest keys, with their kinds and both outcomes, in key order; its totals conserve the operations
  of both files, and its shapes are sorted by differing operations, then verdict, then name.\<close>

theorem Compare_report:
  assumes "Compare fs rng now pathA pathB opts = Ok rep" and "go_range rng"
  shows "\<exists>sa sb tra trb as bs bySeq.
     openSide fs pathA (emptyFallback (co_labelA opts) ''A'') = Ok sa \<and>
     openSide fs pathB (emptyFallback (co_labelB opts) ''B'') = Ok sb \<and>
     side_ops fs sa = Ok (tra, as) \<and> side_ops fs sb = Ok (trb, bs) \<and> bySeq = (sf_seqKeyed sa \<and> sf_seqKeyed sb) \<and>
     list_all2 (\<lambda>k d. diff_view d = key_view (ops_of bySeq as k) (ops_of bySeq bs k))
       (take (top_n opts) (sorted_list_of_set (all_diffs bySeq as bs))) (rp_differingOps rep) \<and>
     t_differingOps (rp_overall rep) = int (card (all_diffs bySeq as bs)) \<and>
     t_opsA (rp_overall rep) = t_matched (rp_overall rep) + t_missingInB (rp_overall rep) \<and>
     t_opsB (rp_overall rep) = t_matched (rp_overall rep) + t_missingInA (rp_overall rep) \<and>
     t_matched (rp_overall rep) = int (card (dom (ops_of bySeq as) \<inter> dom (ops_of bySeq bs))) \<and>
     sorted (map shape_rank (rp_shapes rep))"
proof -
  from Compare_Ok [OF assms(1)] obtain sa sb tra trb as bs st bySeq c where
    op: "openSide fs pathA (emptyFallback (co_labelA opts) ''A'') = Ok sa"
    "openSide fs pathB (emptyFallback (co_labelB opts) ''B'') = Ok sb"
    and bySeq: "bySeq = (sf_seqKeyed sa \<and> sf_seqKeyed sb)"
    and lines: "side_ops fs sa = Ok (tra, as)" "side_ops fs sb = Ok (trb, bs)"
    and c: "c = compare_ops rng (top_n opts) bySeq (sf_recording sa \<noteq> None \<and> sf_recording sb = None) as bs"
    and core: "map diff_core (fst (snd st)) = map diff_core (c_diffs c)"
    and rep: "rep = build_report opts now bySeq (snd (checkIdentity (side_after sa tra as) (side_after sb trb bs)))
       (sf_side (side_after sa tra as)) (sf_side (side_after sb trb bs)) c st"
    by metis
  note spec = compare_differences [OF assms(2), of bySeq as bs "top_n opts" "sf_recording sa \<noteq> None \<and> sf_recording sb = None",
      unfolded Let_def, folded c]
  have view: "diff_view (diff_core d) = diff_view d" for d
    by (simp add: diff_view_def diff_core_def)
  have "map diff_core (rp_differingOps rep) = map diff_core (c_diffs c)"
    using core by (cases st) (simp add: rep build_report_def Let_def comp_def)
  then have "map diff_view (rp_differingOps rep) = map diff_view (c_diffs c)"
    by (metis (no_types, lifting) list.map_comp map_eq_conv comp_apply view)
  moreover have keys: "c_diffKeys c = take (top_n opts) (sorted_list_of_set (all_diffs bySeq as bs))"
    and "list_all2 (\<lambda>k d. diff_view d = key_view (ops_of bySeq as k) (ops_of bySeq bs k)) (c_diffKeys c) (c_diffs c)"
    using spec by blast+
  then have "list_all2 (\<lambda>k v. v = key_view (ops_of bySeq as k) (ops_of bySeq bs k)) (c_diffKeys c) (map diff_view (c_diffs c))"
    by (simp only: list_all2_map2)
  ultimately have "list_all2 (\<lambda>k v. v = key_view (ops_of bySeq as k) (ops_of bySeq bs k))
      (take (top_n opts) (sorted_list_of_set (all_diffs bySeq as bs))) (map diff_view (rp_differingOps rep))"
    by (simp only: keys)
  then have diffs: "list_all2 (\<lambda>k d. diff_view d = key_view (ops_of bySeq as k) (ops_of bySeq bs k))
      (take (top_n opts) (sorted_list_of_set (all_diffs bySeq as bs))) (rp_differingOps rep)"
    by (simp only: list_all2_map2)
  have all: "\<forall>acc \<in> set (c_shapes c). conserved acc"
    using compare_conserves [OF assms(2)] by (simp add: c list_all_iff)
  have overall: "rp_overall rep = overall_totals (c_shapes c)" "sorted (map shape_rank (rp_shapes rep))"
    by (simp_all add: rep build_report_def Let_def split: prod.split)
  have "t_opsA (rp_overall rep) = t_matched (rp_overall rep) + t_missingInB (rp_overall rep)"
    "t_opsB (rp_overall rep) = t_matched (rp_overall rep) + t_missingInA (rp_overall rep)"
    using sum_list_conserved [OF all] by (simp_all add: overall(1) overall_totals_sum)
  moreover have "t_differingOps (rp_overall rep) = int (card (all_diffs bySeq as bs))"
    "t_matched (rp_overall rep) = int (card (dom (ops_of bySeq as) \<inter> dom (ops_of bySeq bs)))"
    using spec by (simp_all add: overall(1) overall_totals_sum tsum_def)
  ultimately show ?thesis
    using op bySeq lines diffs overall(2) by blast
qed

subsection \<open>Two replays of one recording\<close>

text \<open>The files of two replays: one operation returned another count, one ran on the first side only.\<close>

definition sample_outcome_file :: "outcome_line list \<Rightarrow> rec_file" where
  "sample_outcome_file ls = \<lparr>f_path = ''o'', f_compression = ''none'',
     f_lines = [outcome_header_raw 50 sample_out_header] @ map (outcome_raw 80) ls @
       [outcome_trailer_raw 40 (sample_out_trailer\<lparr>ut_status := StatusComplete\<rparr>)], f_end = None\<rparr>"

definition sample_files :: "string \<Rightarrow> rec_file res" where
  "sample_files p = (if p = ''a'' then Ok (sample_outcome_file [sample_out_line 1, sample_out_line 2])
     else if p = ''b'' then Ok (sample_outcome_file [(sample_out_line 1)\<lparr>ul_outcome := sample_outcome 900 9\<rparr>])
     else Err ''no such file'')"

definition sample_cmp_options :: cmp_options where
  "sample_cmp_options = \<lparr>co_labelA = [], co_labelB = [], co_allowMismatch = False, co_topN = 0, co_recordingPath = [],
     co_plansA = None, co_plansB = None, co_notes = []\<rparr>"

definition sample_side :: "string \<Rightarrow> string \<Rightarrow> sideFile" where
  "sample_side p label = \<lparr>sf_path = p, sf_side = (new_side label (path_base p))\<lparr>sd_kind := OutcomeSourceReplay,
     sd_status := StatusIncomplete, sd_plgmVersion := ''1'', sd_createdAt := ''now'', sd_workers := 1,
     sd_recordingHeaderHash := ''hh''\<rparr>, sf_recording = None, sf_seqKeyed = True\<rparr>"

lemma sample_outcome_file_reads:
  "DetectKind (sample_outcome_file ls) = Ok ''outcomes''"
  "ReadOutcomeHeader (sample_outcome_file ls) = Ok sample_out_header"
  "outcome_lines (sample_outcome_file ls) = Ok (Some (sample_out_trailer\<lparr>ut_status := StatusComplete\<rparr>), ls)"
proof -
  have m: "map (outcome_raw 80) ls = map (\<lambda>(n, l). outcome_raw n l) (map (Pair 80) ls)" by simp
  show "DetectKind (sample_outcome_file ls) = Ok ''outcomes''"
    "ReadOutcomeHeader (sample_outcome_file ls) = Ok sample_out_header"
    by (simp_all add: DetectKind_def ReadOutcomeHeader_def readOutcomeHeader_def sample_outcome_file_def
        outcome_header_raw_def plain_line_def MaxLineBytes_def sample_out_header_def)
  show "outcome_lines (sample_outcome_file ls) = Ok (Some (sample_out_trailer\<lparr>ut_status := StatusComplete\<rparr>), ls)"
    unfolding sample_outcome_file_def m
    by (simp add: outcome_lines_def StreamOutcomes_def readOutcomeHeader_def outcome_header_raw_def plain_line_def
        MaxLineBytes_def sample_out_header_def outcomes_loop_lines outcomes_loop_trailer comp_def
        del: map_map) (simp add: comp_def)
qed

lemma sample_openSide: "sample_files p = Ok (sample_outcome_file ls) \<Longrightarrow> openSide sample_files p label = Ok (sample_side p label)"
  by (simp add: openSide_def Let_def sample_outcome_file_reads add_prefix_def)
    (simp add: sample_out_header_def sample_side_def new_side_def)

lemma each_outcomes:
  assumes "sf_recording sf = None" and "fs (sf_path sf) = Ok f" and "outcome_lines f = Ok (tr, ls)"
  shows "each fs fn s sf = Ok (side_after sf tr (map replayed_line ls), foldl fn s (map replayed_line ls))"
proof -
  define g where "g = (\<lambda>(n :: nat, s) u. (n + 1, fn s (replayed_line u)))"
  have fn: "(\<lambda>(n, s) u. Ok (n + 1, fn s (replayed_line u))) = (\<lambda>s u. Ok (g s u))"
    by (auto simp: fun_eq_iff g_def)
  have "foldl g (0, s) ls = (length ls, foldl fn s (map replayed_line ls))"
    unfolding g_def using foldl_count [of fn replayed_line 0 s ls] by simp
  with assms(3) have "\<exists>h. StreamOutcomes f (\<lambda>s u. Ok (g s u)) (0, s) = Ok (h, tr, length ls, foldl fn s (map replayed_line ls))"
    unfolding StreamOutcomes_pure_Ok by auto
  then obtain h where "StreamOutcomes f (\<lambda>(n, s) u. Ok (n + 1, fn s (replayed_line u))) (0 :: nat, s) =
      Ok (h, tr, length ls, foldl fn s (map replayed_line ls))"
    unfolding fn by blast
  with assms show ?thesis
    by (simp add: each_def add_prefix_def side_after_def Let_def split: option.split)
qed

lemma sample_compare: "\<exists>rep. Compare sample_files rev ''now'' ''a'' ''b'' sample_cmp_options = Ok rep"
proof -
  let ?la = "[sample_out_line 1, sample_out_line 2]" and ?lb = "[(sample_out_line 1)\<lparr>ul_outcome := sample_outcome 900 9\<rparr>]"
  let ?a = "sample_side ''a'' ''A''" and ?b = "sample_side ''b'' ''B''"
  let ?t = "Some (sample_out_trailer\<lparr>ut_status := StatusComplete\<rparr>)"
  have files: "sample_files ''a'' = Ok (sample_outcome_file ?la)" "sample_files ''b'' = Ok (sample_outcome_file ?lb)"
    by (simp_all add: sample_files_def)
  have op: "openSide sample_files ''a'' ''A'' = Ok ?a" "openSide sample_files ''b'' ''B'' = Ok ?b"
    using files by (simp_all add: sample_openSide)
  have side: "sf_recording (sample_side p l) = None" "sf_seqKeyed (sample_side p l)" "sf_path (sample_side p l) = p"
    "side_identity (sample_side p l) = (IdentityRecording, ''hh'')" for p l
    by (simp_all add: sample_side_def side_identity_def)
  have ident: "checkIdentity ?a ?b = ([], Some (IdentityRecording, ''hh''))"
    by (simp add: checkIdentity_def side)
  have ea: "\<exists>s'. each sample_files fn s ?a = Ok (side_after ?a ?t (map replayed_line ?la), s')" for fn :: "pass \<Rightarrow> opLine \<Rightarrow> pass" and s
    using each_outcomes [OF side(1) _ sample_outcome_file_reads(3), of sample_files "''a''" "''A''" ?la fn s] files side(3) by auto
  have eb: "\<exists>s'. each sample_files fn s ?b = Ok (side_after ?b ?t (map replayed_line ?lb), s')" for fn :: "pass \<Rightarrow> opLine \<Rightarrow> pass" and s
    using each_outcomes [OF side(1) _ sample_outcome_file_reads(3), of sample_files "''b''" "''B''" ?lb fn s] files side(3) by auto
  have att: "\<exists>st. attachCommands sample_files sa sb [] True keys st0 = Ok st" if "sf_recording sa = None" "sf_recording sb = None"
    for sa sb keys st0
    using that by (cases st0) (simp add: attachCommands_def command_source_def)
  have fin: "\<exists>rep. compare_finish sample_files rev ''now'' sample_cmp_options True ([], Some (IdentityRecording, ''hh'')) sa sb pa pb = Ok rep"
    if "sf_recording sa = None" "sf_recording sb = None" for sa sb pa pb
    using att [OF that] by (auto simp: compare_finish_def Let_def sample_cmp_options_def res_bind_Ok)
  have fb: "emptyFallback (co_labelA sample_cmp_options) ''A'' = ''A''" "emptyFallback (co_labelB sample_cmp_options) ''B'' = ''B''"
    by (simp_all add: emptyFallback_def sample_cmp_options_def trim_space_def)
  obtain pa where pa: "each sample_files (step_a True) (init_pass (top_n sample_cmp_options)) ?a =
      Ok (side_after ?a ?t (map replayed_line ?la), pa)"
    using ea by blast
  obtain pb where "each sample_files (step_b True False) (start_b pa) ?b = Ok (side_after ?b ?t (map replayed_line ?lb), pb)"
    using eb by blast
  with pa fin show ?thesis
    by (simp add: Compare_def fb op side refused_early_def ident Let_def)
qed

theorem Compare_identity_witness:
  "\<exists>rep. Compare sample_files rev ''now'' ''a'' ''b'' sample_cmp_options = Ok rep \<and> rp_identityMatch rep"
proof -
  from sample_compare obtain rep where r: "Compare sample_files rev ''now'' ''a'' ''b'' sample_cmp_options = Ok rep" by blast
  with Compare_identity [OF r] show ?thesis by (simp add: sample_cmp_options_def)
qed

theorem Compare_report_witness:
  "\<exists>rep. Compare sample_files rev ''now'' ''a'' ''b'' sample_cmp_options = Ok rep \<and>
     t_opsA (rp_overall rep) = t_matched (rp_overall rep) + t_missingInB (rp_overall rep)"
proof -
  from sample_compare obtain rep where r: "Compare sample_files rev ''now'' ''a'' ''b'' sample_cmp_options = Ok rep" by blast
  with Compare_report [OF r go_range_id(2)] show ?thesis by blast
qed

end
