(* ===== verification/SplitMix.thy ===== *)
theory SplitMix
  imports GoFloat "HOL-Library.Word"
begin

text \<open>
  The random streams of deterministic traffic (\<open>internal/mongo/workload_deterministic.go\<close>): the
  SplitMix64 source every worker re-seeds for each operation, the seed of an operation, the ids of
  generated documents, and the bounded draws of \<open>math/rand\<close> on top of the source. Machine integers
  are 64-bit words, so every sum and product wraps as it does in Go.

  The draws of the standard library reject and draw again. They are \<open>partial_function (option)\<close>s, with
  \<open>None\<close> for a call that never returns or panics; the lemmas show that they return on every state,
  because the source runs through all states and one of them yields 0.
\<close>

unbundle bit_operations_syntax

type_synonym u64 = "64 word"

subsection \<open>The mixing function\<close>

definition golden_gamma :: u64 where "golden_gamma = 0x9e3779b97f4a7c15"

definition mix64 :: "u64 \<Rightarrow> u64" where
  "mix64 z0 =
     (let z1 = (z0 XOR drop_bit 30 z0) * 0xbf58476d1ce4e5b9;
          z2 = (z1 XOR drop_bit 27 z1) * 0x94d049bb133111eb
      in z2 XOR drop_bit 31 z2)"

text \<open>Each of its steps can be undone, so no two inputs share an output.\<close>

definition unshift :: "nat \<Rightarrow> u64 \<Rightarrow> u64" where
  "unshift k y = y XOR drop_bit k y XOR drop_bit (2 * k) y"

lemma unshift_xor: "22 \<le> k \<Longrightarrow> unshift k (z XOR drop_bit k z) = z"
proof (rule bit_eqI)
  fix n :: nat
  assume k: "22 \<le> k"
  have "\<not> bit z (n + 3 * k)"
    using k bit_imp_le_length [of z "n + 3 * k"] by auto
  then have far: "\<not> bit z (k + (2 * k + n))"
    by (simp add: algebra_simps)
  show "bit (unshift k (z XOR drop_bit k z)) n = bit z n"
    using far by (auto simp: unshift_def bit_simps add.assoc [symmetric] mult_2)
qed

lemma unshift_xor_steps:
  "unshift 30 (z XOR drop_bit 30 z) = z" "unshift 27 (z XOR drop_bit 27 z) = z"
  "unshift 31 (z XOR drop_bit 31 z) = z"
  by (simp_all add: unshift_xor)

definition unmix64 :: "u64 \<Rightarrow> u64" where
  "unmix64 y =
     (let z2 = unshift 31 y * 0x319642b2d24d8ec3;
          z1 = unshift 27 z2 * 0x96de1b173f119089
      in unshift 30 z1)"

lemma odd_inverses:
  "(0xbf58476d1ce4e5b9 * 0x96de1b173f119089 :: u64) = 1"
  "(0x94d049bb133111eb * 0x319642b2d24d8ec3 :: u64) = 1"
  "(0x9e3779b97f4a7c15 * 0xf1de83e19937733d :: u64) = 1"
  by simp_all

lemma unmix64_mix64 [simp]: "unmix64 (mix64 z) = z"
  by (simp only: mix64_def unmix64_def Let_def unshift_xor_steps mult.assoc odd_inverses mult_1_right)

lemma mix64_inj: "mix64 a = mix64 b \<longleftrightarrow> a = b"
  using unmix64_mix64 by metis

lemma mix64_0 [simp]: "mix64 0 = 0"
  by (simp add: mix64_def)

subsection \<open>The source\<close>

text \<open>
  \<open>splitMix64\<close> is its 64-bit state. \<open>Uint64\<close> advances it and mixes; \<open>Int63\<close> drops the low bit.
\<close>

definition Seed :: "u64 \<Rightarrow> u64" where
  "Seed seed = seed"

definition Uint64 :: "u64 \<Rightarrow> u64 \<times> u64" where
  "Uint64 s = (let s' = s + golden_gamma in (mix64 s', s'))"

definition Int63 :: "u64 \<Rightarrow> int \<times> u64" where
  "Int63 s = (let (v, s') = Uint64 s in (uint (drop_bit 1 v), s'))"

lemma Int63_range: "0 \<le> fst (Int63 s)" "fst (Int63 s) < 2 ^ 63"
proof -
  show "0 \<le> fst (Int63 s)" by (simp add: Int63_def Uint64_def Let_def)
  have "uint (mix64 (s + golden_gamma)) < 2 ^ 64"
    using uint_lt2p [of "mix64 (s + golden_gamma)"] by simp
  then show "fst (Int63 s) < 2 ^ 63"
    by (simp add: Int63_def Uint64_def Let_def unsigned_drop_bit_eq drop_bit_eq_div uint_div)
qed

lemma Int63_state [simp]: "snd (Int63 s) = s + golden_gamma"
  by (simp add: Int63_def Uint64_def Let_def)

text \<open>The state after \<open>k\<close> draws; the source reaches the state 0, whose draw is 0.\<close>

lemma reaches_zero: "\<exists>k. s + of_nat k * golden_gamma = (0 :: u64)"
proof -
  let ?k = "unat (- s * 0xf1de83e19937733d)"
  have "of_nat ?k = - s * 0xf1de83e19937733d" by simp
  then have "of_nat ?k * golden_gamma = - s * (0x9e3779b97f4a7c15 * 0xf1de83e19937733d)"
    by (simp only: golden_gamma_def mult_ac)
  also have "\<dots> = - s" by (simp only: odd_inverses mult_1_right)
  finally show ?thesis by (intro exI [of _ ?k]) (simp only: add.right_inverse)
qed

lemma Int63_at_zero: "s + golden_gamma = 0 \<Longrightarrow> fst (Int63 s) = 0"
  by (simp add: Int63_def Uint64_def Let_def)

subsection \<open>Bounded draws\<close>

text \<open>
  The loop \<open>for v > max { v = next() }\<close> of \<open>math/rand\<close>, over a draw \<open>nx\<close>.
\<close>

partial_function (option) reject :: "(u64 \<Rightarrow> int \<times> u64) \<Rightarrow> int \<Rightarrow> u64 \<Rightarrow> (int \<times> u64) option" where
  "reject nx m s = (let (v, s') = nx s in if v > m then reject nx m s' else Some (v, s'))"

definition is_draw :: "(u64 \<Rightarrow> int \<times> u64) \<Rightarrow> bool" where
  "is_draw nx \<longleftrightarrow> (\<forall>s. snd (nx s) = s + golden_gamma \<and> 0 \<le> fst (nx s)
     \<and> (s + golden_gamma = 0 \<longrightarrow> fst (nx s) = 0))"

lemma is_drawD:
  assumes "is_draw nx"
  shows "snd (nx s) = s + golden_gamma" "0 \<le> fst (nx s)"
    "s + golden_gamma = 0 \<Longrightarrow> fst (nx s) = 0"
  using assms by (simp_all add: is_draw_def)

lemma reject_from:
  assumes nx: "is_draw nx" and m: "0 \<le> m"
  shows "s + of_nat (Suc k) * golden_gamma = 0 \<Longrightarrow>
    \<exists>v s'. reject nx m s = Some (v, s') \<and> 0 \<le> v \<and> v \<le> m"
proof (induction k arbitrary: s)
  case 0
  then have "fst (nx s) = 0" by (intro is_drawD [OF nx]) simp
  with m show ?case
    by (subst reject.simps) (auto split: prod.split)
next
  case (Suc k)
  show ?case
  proof (cases "fst (nx s) > m")
    case True
    have "snd (nx s) + of_nat (Suc k) * golden_gamma = 0"
      using Suc.prems by (simp add: is_drawD [OF nx] algebra_simps)
    from Suc.IH [OF this] True show ?thesis
      by (subst reject.simps) (auto split: prod.splits)
  next
    case False
    with is_drawD(2) [OF nx, of s] show ?thesis
      by (subst reject.simps) (auto split: prod.split)
  qed
qed

lemma reject_returns:
  assumes "is_draw nx" and "0 \<le> m"
  obtains v s' where "reject nx m s = Some (v, s')" "0 \<le> v" "v \<le> m"
proof -
  obtain k where "(s + golden_gamma) + of_nat k * golden_gamma = 0"
    using reaches_zero by blast
  then have "s + of_nat (Suc k) * golden_gamma = 0" by (simp add: algebra_simps)
  from reject_from [OF assms this] that show thesis by blast
qed

definition Int31 :: "u64 \<Rightarrow> int \<times> u64" where
  "Int31 s = (let (v, s') = Int63 s in (v div 2 ^ 32, s'))"

lemma is_draw_Int63: "is_draw Int63"
  by (simp add: is_draw_def Int63_range Int63_at_zero)

lemma is_draw_Int31: "is_draw Int31"
  using Int63_range(1) Int63_at_zero Int63_state
  by (simp add: is_draw_def Int31_def split_beta pos_imp_zdiv_nonneg_iff)

text \<open>
  The draw both bounded functions share: a power of two is a mask, any other bound is reached by
  rejection below the largest multiple of \<open>n\<close> under \<open>2 ^ w\<close>.
\<close>

definition bounded_draw :: "nat \<Rightarrow> (u64 \<Rightarrow> int \<times> u64) \<Rightarrow> int \<Rightarrow> u64 \<Rightarrow> (int \<times> u64) option" where
  "bounded_draw w nx n s =
     (if n \<le> 0 then None
      else if n AND (n - 1) = 0 then (let (v, s') = nx s in Some (v AND (n - 1), s'))
      else map_option (\<lambda>(v, s'). (v mod n, s')) (reject nx (2 ^ w - 1 - 2 ^ w mod n) s))"

definition Int63n :: "int \<Rightarrow> u64 \<Rightarrow> (int \<times> u64) option" where
  "Int63n n s = bounded_draw 63 Int63 n s"

definition Int31n :: "int \<Rightarrow> u64 \<Rightarrow> (int \<times> u64) option" where
  "Int31n n s = bounded_draw 31 Int31 n s"

definition Intn :: "int \<Rightarrow> u64 \<Rightarrow> (int \<times> u64) option" where
  "Intn n s = (if n \<le> 0 then None else if n \<le> 2 ^ 31 - 1 then Int31n n s else Int63n n s)"

lemma bounded_draw_returns:
  assumes nx: "is_draw nx" and n: "0 < n" "n < 2 ^ w"
  obtains v s' where "bounded_draw w nx n s = Some (v, s')" "0 \<le> v" "v < n"
proof (cases "n AND (n - 1) = 0")
  case True
  have "0 \<le> fst (nx s) AND (n - 1)" and "fst (nx s) AND (n - 1) \<le> n - 1"
    using n AND_upper2 [of "n - 1" "fst (nx s)"] by (simp_all add: is_drawD [OF nx])
  with True n that show thesis
    by (cases "nx s") (fastforce simp: bounded_draw_def)
next
  case False
  have "2 ^ w mod n < n" using n by simp
  with n have "0 \<le> 2 ^ w - 1 - 2 ^ w mod n" by linarith
  then obtain v s' where "reject nx (2 ^ w - 1 - 2 ^ w mod n) s = Some (v, s')"
    using reject_returns [OF nx] by metis
  with False n that [of "v mod n" s'] show thesis
    by (simp add: bounded_draw_def)
qed

lemma Intn_returns:
  assumes "0 < n" and "n < 2 ^ 63"
  shows "\<exists>v s'. Intn n s = Some (v, s') \<and> 0 \<le> v \<and> v < n"
proof (cases "n \<le> 2 ^ 31 - 1")
  case True
  with assms show ?thesis
    by (auto simp: Intn_def Int31n_def intro: bounded_draw_returns [OF is_draw_Int31, of n 31 s])
next
  case False
  with assms show ?thesis
    by (auto simp: Intn_def Int63n_def intro: bounded_draw_returns [OF is_draw_Int63, of n 63 s])
qed

lemma Int63n_returns:
  assumes "0 < n" and "n < 2 ^ 63"
  shows "\<exists>v s'. Int63n n s = Some (v, s') \<and> 0 \<le> v \<and> v < n"
  using assms
  by (auto simp: Int63n_def intro: bounded_draw_returns [OF is_draw_Int63, of n 63 s])

lemma Intn_panics: "n \<le> 0 \<Longrightarrow> Intn n s = None"
  by (simp add: Intn_def)

text \<open>
  \<open>Float64\<close>: 53 random bits over \<open>2 ^ 53\<close>, exact in binary64, drawn again when the quotient is 1.
\<close>

partial_function (option) Float64 :: "u64 \<Rightarrow> (rat \<times> u64) option" where
  "Float64 s = Option.bind (Int63n (2 ^ 53) s)
     (\<lambda>(v, s'). let f = of_int v / 2 ^ 53 in if f = 1 then Float64 s' else Some (f, s'))"

lemma Float64_returns: "\<exists>f s'. Float64 s = Some (f, s') \<and> 0 \<le> f \<and> f < 1"
proof -
  obtain v s' where v: "Int63n (2 ^ 53) s = Some (v, s')" "0 \<le> v" "v < 2 ^ 53"
    using Int63n_returns [of "2 ^ 53" s] by auto
  then have "(of_int v :: rat) < 2 ^ 53" by (metis of_int_less_iff of_int_numeral of_int_power)
  with v show ?thesis
    by (subst Float64.simps)
       (auto simp: Let_def intro!: exI [of _ "of_int v / 9007199254740992"])
qed

subsection \<open>Seeds and document ids\<close>

text \<open>
  Signed arguments are converted as \<open>uint64(x)\<close> converts them, by two's complement.
\<close>

definition deriveOpSeed :: "int \<Rightarrow> int \<Rightarrow> int \<Rightarrow> u64 \<Rightarrow> u64" where
  "deriveOpSeed seed iteration worker sq =
     (let h = mix64 (word_of_int seed + 0x9e3779b97f4a7c15);
          h = mix64 (h XOR (word_of_int iteration + 0x632be59bd9b4e019));
          h = mix64 (h XOR (word_of_int worker + 0x85157af5d2a3e6b1))
      in mix64 (h XOR (sq + 0xd6e8feb86659fd93)))"

lemma xor_right_cancel: "(a :: u64) XOR b = a XOR c \<longleftrightarrow> b = c"
proof
  assume "a XOR b = a XOR c"
  then have "a XOR (a XOR b) = a XOR (a XOR c)" by simp
  then show "b = c" by (simp add: xor.assoc [symmetric])
qed simp

lemma xor_left_cancel: "(a :: u64) XOR c = b XOR c \<longleftrightarrow> a = b"
  by (simp only: xor.commute [of _ c] xor_right_cancel)

lemmas mix_cancel = mix64_inj xor_right_cancel xor_left_cancel add_right_cancel

lemma deriveOpSeed_seq_iff:
  "deriveOpSeed seed it w a = deriveOpSeed seed it w b \<longleftrightarrow> a = b"
  by (simp add: deriveOpSeed_def Let_def mix_cancel)

lemma deriveOpSeed_worker_iff:
  "deriveOpSeed seed it v a = deriveOpSeed seed it w a \<longleftrightarrow> (word_of_int v :: u64) = word_of_int w"
  by (simp add: deriveOpSeed_def Let_def mix_cancel)

lemma deriveOpSeed_iteration_iff:
  "deriveOpSeed seed it w a = deriveOpSeed seed jt w a \<longleftrightarrow> (word_of_int it :: u64) = word_of_int jt"
  by (simp add: deriveOpSeed_def Let_def mix_cancel)

text \<open>
  \<open>binary.BigEndian.PutUint64\<close> and \<open>PutUint32\<close>, and the id of a generated document: the reference
  time and a mixed 64-bit value.
\<close>

definition be_bytes :: "nat \<Rightarrow> u64 \<Rightarrow> 8 word list" where
  "be_bytes n w = map (\<lambda>i. ucast (drop_bit (8 * (n - 1 - i)) w)) [0..<n]"

definition SeededReferenceTime :: u64 where
  "SeededReferenceTime = 1735689600"

definition deterministicDocumentID :: "int \<Rightarrow> int \<Rightarrow> int \<Rightarrow> u64 \<Rightarrow> int \<Rightarrow> 8 word list" where
  "deterministicDocumentID seed iteration worker sq j =
     be_bytes 4 SeededReferenceTime
       @ be_bytes 8 (mix64 (deriveOpSeed seed iteration worker sq
           XOR (word_of_int (j + 1) * 0x9e3779b97f4a7c15)))"

lemma be_bytes_8_inj:
  assumes "be_bytes 8 a = be_bytes 8 b"
  shows "a = b"
proof (rule bit_eqI)
  fix k :: nat
  assume "possible_bit TYPE(u64) k"
  then have k: "k < 64" by simp
  let ?i = "7 - k div 8"
  have i: "?i < 8" "7 - ?i = k div 8" using k by auto
  have "be_bytes 8 a ! ?i = be_bytes 8 b ! ?i" using assms by simp
  then have "(ucast (drop_bit (8 * (k div 8)) a) :: 8 word) = ucast (drop_bit (8 * (k div 8)) b)"
    using i by (simp add: be_bytes_def)
  then have "bit (ucast (drop_bit (8 * (k div 8)) a) :: 8 word) (k mod 8)
      = bit (ucast (drop_bit (8 * (k div 8)) b) :: 8 word) (k mod 8)"
    by simp
  then show "bit a k = bit b k"
    by (simp add: bit_simps)
qed

lemma gamma_cancel: "(a :: u64) * 0x9e3779b97f4a7c15 = b * 0x9e3779b97f4a7c15 \<longleftrightarrow> a = b"
proof
  assume "a * 0x9e3779b97f4a7c15 = b * 0x9e3779b97f4a7c15"
  then have "a * (0x9e3779b97f4a7c15 * 0xf1de83e19937733d)
      = b * (0x9e3779b97f4a7c15 * 0xf1de83e19937733d)"
    by (simp only: mult.assoc [symmetric])
  then show "a = b" by (simp only: odd_inverses mult_1_right)
qed simp

lemma deterministicDocumentID_eq:
  "deterministicDocumentID seed it w sq i = deterministicDocumentID seed jt v sq' j \<longleftrightarrow>
     deriveOpSeed seed it w sq XOR (word_of_int (i + 1) * 0x9e3779b97f4a7c15)
       = deriveOpSeed seed jt v sq' XOR (word_of_int (j + 1) * 0x9e3779b97f4a7c15)"
  by (auto simp: deterministicDocumentID_def mix64_inj dest!: be_bytes_8_inj)

text \<open>
  The \<open>_id\<close> a seeded document gets (\<open>setup.go\<close>): reference time, 32-bit FNV-1a hash of the seed and
  the namespace, and the index.
\<close>

fun fnv32a :: "32 word \<Rightarrow> 8 word list \<Rightarrow> 32 word" where
  "fnv32a h [] = h"
| "fnv32a h (b # bs) = fnv32a ((h XOR ucast b) * 16777619) bs"

definition seededDocumentID :: "int \<Rightarrow> 8 word list \<Rightarrow> int \<Rightarrow> 8 word list" where
  "seededDocumentID seed ns index =
     be_bytes 4 SeededReferenceTime
       @ be_bytes 4 (ucast (fnv32a 0x811c9dc5 (be_bytes 8 (word_of_int seed) @ ns)))
       @ be_bytes 4 (word_of_int index)"

lemma length_be_bytes [simp]: "length (be_bytes n w) = n"
  by (simp add: be_bytes_def)

lemma be_bytes_4_bits:
  assumes "be_bytes 4 a = be_bytes 4 b" and k: "k < 32"
  shows "bit a k = bit b k"
proof -
  let ?i = "3 - k div 8"
  have i: "?i < 4" "3 - ?i = k div 8" using k by auto
  have "be_bytes 4 a ! ?i = be_bytes 4 b ! ?i" using assms by simp
  then have "(ucast (drop_bit (8 * (k div 8)) a) :: 8 word) = ucast (drop_bit (8 * (k div 8)) b)"
    using i by (simp add: be_bytes_def)
  then have "bit (ucast (drop_bit (8 * (k div 8)) a) :: 8 word) (k mod 8)
      = bit (ucast (drop_bit (8 * (k div 8)) b) :: 8 word) (k mod 8)"
    by simp
  then show ?thesis by (simp add: bit_simps)
qed

lemma seededDocumentID_index:
  assumes "seededDocumentID seed ns i = seededDocumentID seed ns j"
    and "0 \<le> i" "i < 2 ^ 32" "0 \<le> j" "j < 2 ^ 32"
  shows "i = j"
proof (rule bit_eqI)
  fix k :: nat
  have eq: "be_bytes 4 (word_of_int i) = be_bytes 4 (word_of_int j)"
    using assms(1) by (simp add: seededDocumentID_def)
  have high: "\<not> bit x k" if "32 \<le> k" "0 \<le> x" "x < 2 ^ 32" for x :: int
  proof -
    have "x < 2 ^ k" using that power_increasing [of 32 k "2 :: int"] by simp
    with that show ?thesis by (simp add: bit_iff_odd)
  qed
  show "bit i k = bit j k"
    using be_bytes_4_bits [OF eq, of k] high [of i] high [of j] assms
    by (cases "k < 32") (simp_all add: bit_simps)
qed

text \<open>the values of generated operations come from streams that do not repeat. Within one
operation all document ids differ; and for two operations of one worker, or of one operation number
on two workers or in two iterations, the seeds differ, and so do the ids at equal positions. (Numbers
are taken below \<open>2 ^ 63\<close>, the range of Go's \<open>int\<close>.)\<close>

theorem generated_ids_distinct:
  assumes "0 \<le> i" "i < 2 ^ 63 - 1" "0 \<le> j" "j < 2 ^ 63 - 1"
    and "0 \<le> v" "v < 2 ^ 63" "0 \<le> w" "w < 2 ^ 63"
    and "0 \<le> it" "it < 2 ^ 63" "0 \<le> jt" "jt < 2 ^ 63"
  shows "(deterministicDocumentID seed it w a i = deterministicDocumentID seed it w a j \<longleftrightarrow> i = j)
    \<and> (deterministicDocumentID seed it w a i = deterministicDocumentID seed it w b i \<longleftrightarrow> a = b)
    \<and> (deterministicDocumentID seed it v a i = deterministicDocumentID seed it w a i \<longleftrightarrow> v = w)
    \<and> (deterministicDocumentID seed it w a i = deterministicDocumentID seed jt w a i \<longleftrightarrow> it = jt)"
proof (intro conjI)
  have word_eq: "(word_of_int x :: u64) = word_of_int y \<longleftrightarrow> x = y"
    if "0 \<le> x" "x < 2 ^ 63" "0 \<le> y" "y < 2 ^ 63" for x y :: int
    using that by (simp add: word_of_int_eq_iff take_bit_int_eq_self)
  show "deterministicDocumentID seed it w a i = deterministicDocumentID seed it w a j \<longleftrightarrow> i = j"
    using assms word_eq [of "i + 1" "j + 1"]
    by (simp only: deterministicDocumentID_eq xor_right_cancel gamma_cancel) simp
  show "deterministicDocumentID seed it w a i = deterministicDocumentID seed it w b i \<longleftrightarrow> a = b"
    by (simp only: deterministicDocumentID_eq xor_left_cancel deriveOpSeed_seq_iff)
  show "deterministicDocumentID seed it v a i = deterministicDocumentID seed it w a i \<longleftrightarrow> v = w"
    using assms by (simp only: deterministicDocumentID_eq xor_left_cancel deriveOpSeed_worker_iff word_eq)
  show "deterministicDocumentID seed it w a i = deterministicDocumentID seed jt w a i \<longleftrightarrow> it = jt"
    using assms by (simp only: deterministicDocumentID_eq xor_left_cancel deriveOpSeed_iteration_iff word_eq)
qed

theorem generated_ids_distinct_witness:
  "deterministicDocumentID 7 1 2 3 0 \<noteq> deterministicDocumentID 7 1 2 3 1
   \<and> deterministicDocumentID 7 1 2 3 0 \<noteq> deterministicDocumentID 7 1 2 4 0"
  using generated_ids_distinct [of 0 1 2 2 1 1 7 3 4] by simp

end
