(* ===== verification/AccessPattern.thy ===== *)
theory AccessPattern
  imports SplitMix
begin

text \<open>
  How an operation chooses which existing record it targets (\<open>internal/accesspattern\<close>): the
  configuration, its compilation into a selector, and the three selectors.

  A \<open>*rand.Rand\<close> is a state of any type with the operations of \<open>rng_ops\<close>; a draw returns its value
  and the next state, or \<open>None\<close> when it panics. The locale \<open>rng_source\<close> states what \<open>math/rand\<close>
  promises of them, and is interpreted on the SplitMix64 source of deterministic runs. \<open>math.Pow\<close> is a
  parameter: the selectors clamp what it yields.
\<close>

record 'g rng_ops =
  rng_Intn :: "int \<Rightarrow> 'g \<Rightarrow> (int \<times> 'g) option"
  rng_Float64 :: "'g \<Rightarrow> (rat \<times> 'g) option"

locale rng_source =
  fixes R :: "'g rng_ops"
  assumes Intn_law: "0 < n \<Longrightarrow> n < 2 ^ 63 \<Longrightarrow> \<exists>v g'. rng_Intn R n g = Some (v, g') \<and> 0 \<le> v \<and> v < n"
    and Float64_law: "\<exists>f g'. rng_Float64 R g = Some (f, g')"

definition splitmix_rng :: "u64 rng_ops" where
  "splitmix_rng = \<lparr>rng_Intn = Intn, rng_Float64 = Float64\<rparr>"

interpretation sm: rng_source splitmix_rng
  using Intn_returns Float64_returns
  by unfold_locales (auto simp: splitmix_rng_def, metis)

subsection \<open>Configuration\<close>

record ap_config =
  Kind :: string
  ZipfianExponent :: rat
  HotspotPercent :: int
  HotspotTrafficPercent :: int

definition KindUniform :: string where "KindUniform = ''uniform''"
definition KindZipfian :: string where "KindZipfian = ''zipfian''"
definition KindHotspot :: string where "KindHotspot = ''hotspot''"

definition defaultZipfianExponent :: rat where "defaultZipfianExponent = 12 / 10"
definition defaultHotspotPercent :: int where "defaultHotspotPercent = 20"
definition defaultHotspotTrafficShare :: int where "defaultHotspotTrafficShare = 80"

datatype selector = uniformSelector | zipfianSelector rat | hotspotSelector int int

datatype ap_error =
    low_exponent rat
  | hot_range int
  | traffic_range int
  | unknown_kind string

definition NormalizedKind :: "ap_config \<Rightarrow> string" where
  "NormalizedKind c = (let k = to_lower (trim_space (Kind c)) in if k = [] then KindUniform else k)"

definition Compile :: "ap_config \<Rightarrow> ap_error + selector" where
  "Compile c =
     (let k = NormalizedKind c in
      if k = KindUniform then Inr uniformSelector
      else if k = KindZipfian then
        (let e = (if ZipfianExponent c = 0 then fl defaultZipfianExponent else ZipfianExponent c)
         in if e < 1 then Inl (low_exponent e) else Inr (zipfianSelector e))
      else if k = KindHotspot then
        (let hot = (if HotspotPercent c = 0 then defaultHotspotPercent else HotspotPercent c);
             traffic = (if HotspotTrafficPercent c = 0 then defaultHotspotTrafficShare
                        else HotspotTrafficPercent c)
         in if hot < 1 \<or> hot > 99 then Inl (hot_range hot)
            else if traffic < 1 \<or> traffic > 100 then Inl (traffic_range traffic)
            else Inr (hotspotSelector hot traffic))
      else Inl (unknown_kind (Kind c)))"

fun selector_Kind :: "selector \<Rightarrow> string" where
  "selector_Kind uniformSelector = KindUniform"
| "selector_Kind (zipfianSelector _) = KindZipfian"
| "selector_Kind (hotspotSelector _ _) = KindHotspot"

fun Summary :: "selector \<Rightarrow> string" where
  "Summary uniformSelector = ''uniform access''"
| "Summary (zipfianSelector e) = ''zipfian (exponent '' @ fmt_fixed 2 e @ '')''"
| "Summary (hotspotSelector h t) =
     ''hotspot ('' @ itoa h @ ''% of records take '' @ itoa t @ ''% of traffic)''"

subsection \<open>Selection\<close>

text \<open>\<open>int(x)\<close> of a \<open>float64\<close> truncates towards zero.\<close>

definition float_to_int :: "rat \<Rightarrow> int" where
  "float_to_int x = (if 0 \<le> x then \<lfloor>x\<rfloor> else \<lceil>x\<rceil>)"

text \<open>The size of the hot set of \<open>n\<close> records: at least one record, and never all of them.\<close>

definition hot_size :: "int \<Rightarrow> int \<Rightarrow> int" where
  "hot_size h n =
     (let a = go_div (to_i64 (n * h)) 100; b = (if a < 1 then 1 else a) in if b \<ge> n then n - 1 else b)"

lemma hot_size_range: "1 < n \<Longrightarrow> 1 \<le> hot_size h n \<and> hot_size h n < n"
  by (auto simp: hot_size_def Let_def)

text \<open>
  \<open>Index\<close> with a generator, or \<open>None\<close> for a nil one. The generator comes back in the state the
  draws left it in.
\<close>

fun Index :: "'g rng_ops \<Rightarrow> (rat \<Rightarrow> rat \<Rightarrow> rat) \<Rightarrow> selector \<Rightarrow> int \<Rightarrow> 'g option \<Rightarrow> (int \<times> 'g option) option" where
  "Index R pow sel n None = Some (0, None)"
| "Index R pow uniformSelector n (Some g) =
     (if n \<le> 0 then Some (0, Some g)
      else map_option (\<lambda>(i, g'). (i, Some g')) (rng_Intn R n g))"
| "Index R pow (zipfianSelector e) n (Some g) =
     (if n \<le> 0 then Some (0, Some g)
      else if n = 1 then Some (0, Some g)
      else Option.bind (rng_Float64 R g) (\<lambda>(u, g').
        let i = float_to_int (fl (fl (of_int n) * pow u e));
            i = (if i < 0 then 0 else i);
            i = (if i \<ge> n then n - 1 else i)
        in Some (i, Some g')))"
| "Index R pow (hotspotSelector h t) n (Some g) =
     (if n \<le> 0 then Some (0, Some g)
      else if n = 1 then Some (0, Some g)
      else let hotN = hot_size h n in
        Option.bind (rng_Intn R 100 g) (\<lambda>(d, g1).
          if d < t then map_option (\<lambda>(i, g'). (i, Some g')) (rng_Intn R hotN g1)
          else let coldN = n - hotN in
            if coldN \<le> 0 then map_option (\<lambda>(i, g'). (i, Some g')) (rng_Intn R hotN g1)
            else map_option (\<lambda>(i, g'). (hotN + i, Some g')) (rng_Intn R coldN g1)))"

text \<open>What a client of a selector relies on.\<close>

locale index_selector =
  fixes ix :: "int \<Rightarrow> 'g option \<Rightarrow> (int \<times> 'g option) option"
  assumes ix_range: "0 < n \<Longrightarrow> n < 2 ^ 63 \<Longrightarrow> \<exists>i g'. ix n (Some g) = Some (i, Some g') \<and> 0 \<le> i \<and> i < n"
begin

lemma ix_pick:
  assumes "xs \<noteq> []" and "int (length xs) < 2 ^ 63"
  obtains i g' where "ix (int (length xs)) (Some g) = Some (i, Some g')"
    and "0 \<le> i" "i < int (length xs)" "xs ! nat i \<in> set xs"
proof -
  obtain i g' where "ix (int (length xs)) (Some g) = Some (i, Some g')" "0 \<le> i" "i < int (length xs)"
    using ix_range [of "int (length xs)" g] assms by auto
  with that show thesis by (simp add: nat_less_iff)
qed

end

context rng_source begin

lemma Intn_obtain:
  assumes "0 < n" "n < 2 ^ 63"
  obtains v g' where "rng_Intn R n g = Some (v, g')" "0 \<le> v" "v < n"
  using Intn_law [OF assms] by blast

lemma hotspot_index:
  assumes n: "1 < n" "n < 2 ^ 63"
  shows "\<exists>d i g' g1. rng_Intn R 100 g = Some (d, g1)
    \<and> Index R pow (hotspotSelector h t) n (Some g) = Some (i, Some g')
    \<and> 0 \<le> i \<and> i < n \<and> (i < hot_size h n \<longleftrightarrow> d < t)"
proof -
  let ?k = "hot_size h n"
  obtain d g1 where d: "rng_Intn R 100 g = Some (d, g1)"
    by (rule Intn_obtain [of 100 g]) auto
  obtain i g2 where i: "rng_Intn R ?k g1 = Some (i, g2)" "0 \<le> i" "i < ?k"
    by (rule Intn_obtain [of ?k g1]) (use hot_size_range [OF n(1), of h] n in auto)
  obtain j g3 where j: "rng_Intn R (n - ?k) g1 = Some (j, g3)" "0 \<le> j" "j < n - ?k"
    by (rule Intn_obtain [of "n - ?k" g1]) (use hot_size_range [OF n(1), of h] n in auto)
  show ?thesis
    using d i j n hot_size_range [OF n(1), of h] by (cases "d < t") (auto simp: Let_def)
qed

lemma Index_range:
  assumes n: "0 < n" "n < 2 ^ 63"
  shows "\<exists>i g'. Index R pow sel n (Some g) = Some (i, Some g') \<and> 0 \<le> i \<and> i < n"
proof (cases sel)
  case uniformSelector
  with n show ?thesis by (auto intro: Intn_obtain [of n g])
next
  case (zipfianSelector e)
  obtain u g' where "rng_Float64 R g = Some (u, g')" using Float64_law by blast
  with zipfianSelector n show ?thesis by (auto simp: Let_def)
next
  case (hotspotSelector h t)
  with n hotspot_index [of n g pow h t] show ?thesis by (cases "n = 1") auto
qed

end

text \<open>
  The selectors over the SplitMix64 source are what deterministic runs use. Every selector keeps the
  client's contract, whatever the power function yields.
\<close>

interpretation sel: index_selector "Index splitmix_rng pow s" for pow s
  by unfold_locales (rule sm.Index_range)

subsection \<open>Properties\<close>

text \<open>a compiled configuration always selects an existing record. Over the deterministic source,
for a non-empty pool, every selector \<open>Compile\<close> accepts returns (the rejection loops of \<open>math/rand\<close>
end) with an index in \<open>[0, n)\<close>; for an empty pool it returns 0.\<close>

theorem Compile_selects:
  assumes "Compile c = Inr sel" and "n < 2 ^ 63"
  shows "\<exists>i g'. Index splitmix_rng pow sel n (Some g) = Some (i, Some g')
    \<and> (if 0 < n then 0 \<le> i \<and> i < n else i = 0)"
proof (cases "0 < n")
  case True
  with sel.ix_range [of n pow sel g] assms(2) show ?thesis by simp
next
  case False
  then show ?thesis by (cases sel) simp_all
qed

lemma Compile_examples:
  "Compile \<lparr>Kind = '' Hotspot '', ZipfianExponent = 0, HotspotPercent = 0, HotspotTrafficPercent = 0\<rparr>
     = Inr (hotspotSelector 20 80)"
  "Compile \<lparr>Kind = ''hotspot'', ZipfianExponent = 0, HotspotPercent = 10, HotspotTrafficPercent = 90\<rparr>
     = Inr (hotspotSelector 10 90)"
  "Compile \<lparr>Kind = ''hotspot'', ZipfianExponent = 0, HotspotPercent = 100, HotspotTrafficPercent = 0\<rparr>
     = Inl (hot_range 100)"
  by code_simp+

theorem Compile_selects_witness:
  "\<exists>i g'. Index splitmix_rng (\<lambda>x e. x) (hotspotSelector 20 80) 10 (Some 5) = Some (i, Some g')
    \<and> 0 \<le> i \<and> i < 10"
  using Compile_selects [OF Compile_examples(1), of 10 "\<lambda>x e. x" 5]
  by (simp del: Index.simps)

text \<open>the hotspot pattern sends exactly the configured share of draws to the hot set: the first draw
is below \<open>hotspot_traffic_percent\<close> iff the chosen record is one of the hot ones, the hot set and the
cold set are both non-empty, and the accepted percentages are 1..99 and 1..100.\<close>

theorem hotspot_split:
  assumes "Compile c = Inr (hotspotSelector h t)" and "1 < n" "n < 2 ^ 63"
  shows "1 \<le> h \<and> h \<le> 99 \<and> 1 \<le> t \<and> t \<le> 100 \<and> 1 \<le> hot_size h n \<and> hot_size h n < n
    \<and> (\<exists>d i g' g1. Intn 100 g = Some (d, g1)
      \<and> Index splitmix_rng pow (hotspotSelector h t) n (Some g) = Some (i, Some g')
      \<and> 0 \<le> i \<and> i < n \<and> (i < hot_size h n \<longleftrightarrow> d < t))"
proof -
  have "1 \<le> h \<and> h \<le> 99 \<and> 1 \<le> t \<and> t \<le> 100"
    using assms(1) by (auto simp: Compile_def Let_def split: if_splits)
  moreover have "rng_Intn splitmix_rng = Intn" by (simp add: splitmix_rng_def)
  ultimately show ?thesis
    using sm.hotspot_index [OF assms(2,3), of g pow h t] hot_size_range [OF assms(2), of h] by simp
qed

theorem hotspot_split_witness:
  "\<exists>d i g' g1. Intn 100 9 = Some (d, g1)
      \<and> Index splitmix_rng (\<lambda>x e. x) (hotspotSelector 10 90) 50 (Some 9) = Some (i, Some g')
      \<and> 0 \<le> i \<and> i < 50 \<and> (i < 5 \<longleftrightarrow> d < 90)"
  using hotspot_split [OF Compile_examples(2), of 50 9 "\<lambda>x e. x"]
  by (simp add: hot_size_def del: Index.simps)

end
