(* ===== verification/RecordPool.thy ===== *)
theory RecordPool
  imports AccessPattern GoValues
begin

text \<open>
  The pool of documents known to exist per namespace (\<open>internal/mongo/recordpool.go\<close>): adding with
  eviction of the oldest, choosing by the access pattern, and removing what a delete matched.

  A document is its entries; a nil document is \<open>None\<close>, and so is a nil pool or a nil generator. The
  text \<open>fmt.Sprintf("%v", x)\<close> prints for a value goes through the driver's \<open>String\<close> methods and is
  the parameter \<open>fmt_v\<close>.
\<close>

type_synonym document = "(string \<times> gval) list"

definition namespace_of :: "string option \<Rightarrow> string \<Rightarrow> string \<Rightarrow> string" where
  "namespace_of db col_db col_name =
     (let n1 = trim_space col_db;
          n2 = (if n1 = [] then (case db of Some d \<Rightarrow> d | None \<Rightarrow> n1) else n1);
          n3 = (if n2 = [] then ''unknown'' else n2)
      in n3 @ ''.'' @ col_name)"

subsection \<open>Matching\<close>

definition toFloat64 :: "gval \<Rightarrow> rat" where
  "toFloat64 v = (case v of GInt i \<Rightarrow> fl (of_int i) | GInt32 i \<Rightarrow> fl (of_int i)
     | GInt64 i \<Rightarrow> fl (of_int i) | GFloat x \<Rightarrow> x | _ \<Rightarrow> 0)"

text \<open>\<open>ObjectID.Hex\<close>.\<close>

definition hex_digit :: "nat \<Rightarrow> char" where
  "hex_digit d = (if d < 10 then char_of (48 + d) else char_of (87 + d))"

definition oid_hex :: "string \<Rightarrow> string" where
  "oid_hex bs = concat (map (\<lambda>b. [hex_digit (of_char b div 16), hex_digit (of_char b mod 16)]) bs)"

text \<open>The integer a value of one of the three integer types holds.\<close>

fun int_of :: "gval \<Rightarrow> int option" where
  "int_of (GInt i) = Some i"
| "int_of (GInt32 i) = Some i"
| "int_of (GInt64 i) = Some i"
| "int_of _ = None"

text \<open>
  \<open>valuesEqual\<close> switches on the type of the first value. The nine integer cases compare the
  integers (the conversions between the widths widen); the rest are written out.
\<close>

definition valuesEqual :: "(gval \<Rightarrow> string) \<Rightarrow> gval \<Rightarrow> gval \<Rightarrow> bool" where
  "valuesEqual fmt_v a b =
     (let other = (fmt_v a = fmt_v b) in
      case int_of a of
        Some i \<Rightarrow>
          (case int_of b of Some j \<Rightarrow> i = j
           | None \<Rightarrow> (case b of GFloat y \<Rightarrow> fl (of_int i) = y | _ \<Rightarrow> other))
      | None \<Rightarrow>
          (case a of
             GFloat x \<Rightarrow>
               (case b of GFloat y \<Rightarrow> x = y
                | _ \<Rightarrow> (case int_of b of Some _ \<Rightarrow> x = toFloat64 b | None \<Rightarrow> other))
           | GStr s \<Rightarrow> (case b of GStr t \<Rightarrow> s = t | _ \<Rightarrow> other)
           | GBool p \<Rightarrow> (case b of GBool q \<Rightarrow> p = q | _ \<Rightarrow> other)
           | GOid o1 \<Rightarrow> (case b of GOid o2 \<Rightarrow> o1 = o2 | GStr t \<Rightarrow> oid_hex o1 = t | _ \<Rightarrow> other)
           | _ \<Rightarrow> other))"

lemma valuesEqual_refl [simp]: "valuesEqual fmt_v v v"
  by (cases v) (simp_all add: valuesEqual_def)

text \<open>Integers of every width and floats compare by value, in either order.\<close>

lemma valuesEqual_ints:
  "int_of a = Some i \<Longrightarrow> int_of b = Some j \<Longrightarrow> valuesEqual fmt_v a b \<longleftrightarrow> i = j"
  by (simp add: valuesEqual_def)

lemma valuesEqual_int_float:
  "int_of a = Some i \<Longrightarrow> valuesEqual fmt_v a (GFloat y) \<longleftrightarrow> fl (of_int i) = y"
  "int_of a = Some i \<Longrightarrow> valuesEqual fmt_v (GFloat y) a \<longleftrightarrow> y = fl (of_int i)"
  by (cases a; simp add: valuesEqual_def toFloat64_def)+

definition is_operator :: "string \<Rightarrow> bool" where
  "is_operator k \<longleftrightarrow> (case k of [] \<Rightarrow> False | c # _ \<Rightarrow> c = CHR ''$'')"

definition recordMatchesFilter :: "(gval \<Rightarrow> string) \<Rightarrow> document \<Rightarrow> document \<Rightarrow> bool" where
  "recordMatchesFilter fmt_v record filt =
     list_all (\<lambda>(k, expected). is_operator k \<or>
       (case map_of record k of None \<Rightarrow> False | Some actual \<Rightarrow> valuesEqual fmt_v actual expected)) filt"

text \<open>The order a Go map is iterated in makes no difference to a match.\<close>

lemma recordMatchesFilter_perm:
  assumes "mset f = mset f'" and "mset r = mset r'" and "distinct (map fst r)"
  shows "recordMatchesFilter fmt_v r f = recordMatchesFilter fmt_v r' f'"
proof -
  have "distinct (map fst r')"
    using assms(2,3) by (metis mset_eq_imp_distinct_iff mset_map)
  with assms(2,3) have "map_of r = map_of r'"
    by (metis map_of_inject_set mset_eq_setD)
  moreover have "set f = set f'" using assms(1) by (rule mset_eq_setD)
  ultimately show ?thesis by (simp add: recordMatchesFilter_def list_all_iff)
qed

lemma recordMatchesFilter_self:
  "distinct (map fst r) \<Longrightarrow> recordMatchesFilter fmt_v r r"
  by (auto simp: recordMatchesFilter_def list_all_iff)

subsection \<open>The pool\<close>

record record_pool =
  maxSize :: int
  pools :: "string \<rightharpoonup> document list"
  pool_selector :: "selector option"

definition NewRecordPool :: "int \<Rightarrow> record_pool" where
  "NewRecordPool n =
     \<lparr>maxSize = (if n \<le> 0 then 10000 else n), pools = Map.empty, pool_selector = Some uniformSelector\<rparr>"

definition SetSelector :: "selector option \<Rightarrow> record_pool option \<Rightarrow> record_pool option" where
  "SetSelector sel rp = (case rp of None \<Rightarrow> None
     | Some p \<Rightarrow> Some (p\<lparr>pool_selector := (case sel of None \<Rightarrow> Some uniformSelector | Some s \<Rightarrow> Some s)\<rparr>))"

text \<open>\<open>rp.pools[ns]\<close>, empty for a missing namespace.\<close>

definition pool_of :: "record_pool \<Rightarrow> string \<Rightarrow> document list" where
  "pool_of p ns = (case pools p ns of None \<Rightarrow> [] | Some rs \<Rightarrow> rs)"

definition pool_Add :: "string \<Rightarrow> document option \<Rightarrow> record_pool \<Rightarrow> record_pool" where
  "pool_Add ns doc p =
     (case doc of None \<Rightarrow> p
      | Some snap \<Rightarrow>
          if ns = [] then p
          else let rs = pool_of p ns @ [snap];
                   rs = (if int (length rs) > maxSize p
                         then drop (nat (int (length rs) - maxSize p)) rs else rs)
               in p\<lparr>pools := (pools p)(ns \<mapsto> rs)\<rparr>)"

definition pool_Len :: "record_pool option \<Rightarrow> string \<Rightarrow> nat" where
  "pool_Len rp ns = (case rp of None \<Rightarrow> 0 | Some p \<Rightarrow> length (pool_of p ns))"

definition RemoveMatching :: "(gval \<Rightarrow> string) \<Rightarrow> string \<Rightarrow> document \<Rightarrow> record_pool option \<Rightarrow> record_pool option" where
  "RemoveMatching fmt_v ns filt rp =
     (case rp of None \<Rightarrow> None
      | Some p \<Rightarrow>
          if ns = [] \<or> filt = [] then Some p
          else if pool_of p ns = [] then Some p
          else Some (p\<lparr>pools := (pools p)(ns \<mapsto>
                 filter (\<lambda>r. \<not> recordMatchesFilter fmt_v r filt) (pool_of p ns))\<rparr>))"

text \<open>
  \<open>Random\<close>: the outer option is the call returning; the inner one its \<open>(doc, ok)\<close>. An index outside
  the pool is replaced by a uniform draw.
\<close>

definition pool_Random :: "'g rng_ops \<Rightarrow> (rat \<Rightarrow> rat \<Rightarrow> rat) \<Rightarrow> record_pool option \<Rightarrow> string \<Rightarrow> 'g option \<Rightarrow>
    (document option \<times> 'g option) option" where
  "pool_Random R pow rp ns rng =
     (case (rp, rng) of
        (Some p, Some g) \<Rightarrow>
          (if ns = [] then Some (None, rng)
           else let rs = pool_of p ns; n = int (length rs);
                    uniform = (\<lambda>g. map_option (\<lambda>(i, g'). (Some (rs ! nat i), Some g')) (rng_Intn R n g))
                in if rs = [] then Some (None, rng)
                   else (case pool_selector p of
                     None \<Rightarrow> uniform g
                   | Some s \<Rightarrow> Option.bind (Index R pow s n (Some g)) (\<lambda>(i, rng').
                       if i < 0 \<or> i \<ge> n then Option.bind rng' uniform
                       else Some (Some (rs ! nat i), rng'))))
      | _ \<Rightarrow> Some (None, rng))"

subsection \<open>Choosing\<close>

text \<open>A choice from a non-empty pool returns one of its documents, for any contract-keeping generator.\<close>

lemma pool_of_upd [simp]:
  "pool_of (p\<lparr>pools := (pools p)(ns \<mapsto> rs)\<rparr>) m = (if m = ns then rs else pool_of p m)"
  by (simp add: pool_of_def)

context rng_source begin

lemma Random_member:
  assumes "ns \<noteq> []" and ne: "pool_of p ns \<noteq> []" and len: "int (length (pool_of p ns)) < 2 ^ 63"
  shows "\<exists>d g'. pool_Random R pow (Some p) ns (Some g) = Some (Some d, Some g') \<and> d \<in> set (pool_of p ns)"
proof -
  let ?n = "int (length (pool_of p ns))"
  have n: "0 < ?n" using ne by simp
  show ?thesis
  proof (cases "pool_selector p")
    case None
    from Intn_law [OF n len] obtain i g' where "rng_Intn R ?n g = Some (i, g')" "0 \<le> i" "i < ?n"
      by blast
    with None assms show ?thesis by (simp add: pool_Random_def Let_def nat_less_iff)
  next
    case (Some s)
    from Index_range [OF n len] obtain i g'
      where "Index R pow s ?n (Some g) = Some (i, Some g')" "0 \<le> i" "i < ?n" by blast
    with Some assms show ?thesis by (simp add: pool_Random_def Let_def nat_less_iff)
  qed
qed

end

subsection \<open>Histories\<close>

text \<open>
  The pool's mutex makes its operations atomic, so what the workers do to it is one sequence of
  operations, in the order they got the lock.
\<close>

datatype pool_op =
    op_Add string "document option"
  | op_Remove string document
  | op_Select "selector option"

fun pool_step :: "(gval \<Rightarrow> string) \<Rightarrow> pool_op \<Rightarrow> record_pool \<Rightarrow> record_pool" where
  "pool_step fmt_v (op_Add ns d) p = pool_Add ns d p"
| "pool_step fmt_v (op_Remove ns f) p = the (RemoveMatching fmt_v ns f (Some p))"
| "pool_step fmt_v (op_Select s) p = the (SetSelector s (Some p))"

definition pool_run :: "(gval \<Rightarrow> string) \<Rightarrow> int \<Rightarrow> pool_op list \<Rightarrow> record_pool" where
  "pool_run fmt_v n ops = fold (pool_step fmt_v) ops (NewRecordPool n)"

lemma pool_run_Nil [simp]: "pool_run fmt_v n [] = NewRecordPool n"
  by (simp add: pool_run_def)

lemma pool_run_snoc: "pool_run fmt_v n (ops @ [a]) = pool_step fmt_v a (pool_run fmt_v n ops)"
  by (simp add: pool_run_def)

lemma RemoveMatching_Some:
  "the (RemoveMatching fmt_v ns f (Some p)) =
     (if ns = [] \<or> f = [] \<or> pool_of p ns = [] then p
      else p\<lparr>pools := (pools p)(ns \<mapsto>
             filter (\<lambda>r. \<not> recordMatchesFilter fmt_v r f) (pool_of p ns))\<rparr>)"
  by (simp add: RemoveMatching_def)

definition keep_last :: "int \<Rightarrow> 'a list \<Rightarrow> 'a list" where
  "keep_last m xs = (if int (length xs) > m then drop (nat (int (length xs) - m)) xs else xs)"

lemma keep_last_length: "0 \<le> m \<Longrightarrow> int (length (keep_last m xs)) \<le> m"
  by (auto simp: keep_last_def)

lemma keep_last_suffix: "suffix (keep_last m xs) xs"
  by (auto simp: keep_last_def suffix_drop)

lemma keep_last_append:
  "0 < m \<Longrightarrow> keep_last m (keep_last m xs @ ys) = keep_last m (xs @ ys)"
  by (auto simp: keep_last_def nat_diff_distrib' nat_int_add intro!: arg_cong2 [of _ _ xs xs drop])

lemma pool_of_Add:
  "pool_of (pool_Add ns doc p) m =
     (case doc of None \<Rightarrow> pool_of p m
      | Some d \<Rightarrow> if ns \<noteq> [] \<and> m = ns then keep_last (maxSize p) (pool_of p ns @ [d]) else pool_of p m)"
  by (simp add: pool_Add_def keep_last_def Let_def split: option.split)

lemma pool_of_Remove:
  "pool_of (the (RemoveMatching fmt_v ns f (Some p))) m =
     (if ns \<noteq> [] \<and> f \<noteq> [] \<and> m = ns
      then filter (\<lambda>r. \<not> recordMatchesFilter fmt_v r f) (pool_of p ns) else pool_of p m)"
  by (auto simp: RemoveMatching_Some)

lemma pool_of_Select [simp]: "pool_of (the (SetSelector s (Some p))) m = pool_of p m"
  by (simp add: SetSelector_def pool_of_def)

lemma maxSize_step [simp]: "maxSize (pool_step fmt_v a p) = maxSize p"
  by (cases a) (simp_all add: pool_Add_def RemoveMatching_Some SetSelector_def Let_def split: option.split)

lemma maxSize_run [simp]: "maxSize (pool_run fmt_v n ops) = maxSize (NewRecordPool n)"
  by (induction ops rule: rev_induct) (simp_all add: pool_run_snoc)

lemma maxSize_New: "maxSize (NewRecordPool n) = (if n \<le> 0 then 10000 else n)"
  by (simp add: NewRecordPool_def)

lemma maxSize_New_pos [simp]: "0 < maxSize (NewRecordPool n)"
  by (simp add: maxSize_New)

text \<open>Every pooled document was added, and nothing since has removed it.\<close>

definition alive :: "(gval \<Rightarrow> string) \<Rightarrow> pool_op list \<Rightarrow> string \<Rightarrow> document \<Rightarrow> bool" where
  "alive fmt_v ops ns d \<longleftrightarrow> ns \<noteq> [] \<and> (\<exists>xs ys. ops = xs @ op_Add ns (Some d) # ys \<and>
     (\<forall>f. op_Remove ns f \<in> set ys \<longrightarrow> f \<noteq> [] \<longrightarrow> \<not> recordMatchesFilter fmt_v d f))"

lemma alive_snoc:
  assumes "alive fmt_v ops ns d"
    and "\<And>f. a = op_Remove ns f \<Longrightarrow> f \<noteq> [] \<Longrightarrow> \<not> recordMatchesFilter fmt_v d f"
  shows "alive fmt_v (ops @ [a]) ns d"
proof -
  from assms(1) obtain xs ys where ops: "ops = xs @ op_Add ns (Some d) # ys"
    and keep: "\<And>f. op_Remove ns f \<in> set ys \<Longrightarrow> f \<noteq> [] \<Longrightarrow> \<not> recordMatchesFilter fmt_v d f"
    and ns: "ns \<noteq> []"
    by (auto simp: alive_def)
  have "ops @ [a] = xs @ op_Add ns (Some d) # (ys @ [a])" by (simp add: ops)
  moreover have "\<not> recordMatchesFilter fmt_v d f" if "op_Remove ns f \<in> set (ys @ [a])" "f \<noteq> []" for f
    using that keep [of f] assms(2) [of f] by auto
  ultimately show ?thesis
    using ns unfolding alive_def by blast
qed

lemma alive_added: "ns \<noteq> [] \<Longrightarrow> alive fmt_v (ops @ [op_Add ns (Some d)]) ns d"
  unfolding alive_def by fastforce

lemma pool_run_alive: "d \<in> set (pool_of (pool_run fmt_v n ops) ns) \<Longrightarrow> alive fmt_v ops ns d"
proof (induction ops arbitrary: d ns rule: rev_induct)
  case Nil
  then show ?case by (simp add: NewRecordPool_def pool_of_def)
next
  case (snoc a ops)
  show ?case
  proof (cases a)
    case (op_Add m doc)
    show ?thesis
    proof (cases "doc = Some d \<and> m = ns \<and> ns \<noteq> []")
      case True
      with op_Add show ?thesis by (auto intro: alive_added)
    next
      case False
      with snoc.prems op_Add have "d \<in> set (pool_of (pool_run fmt_v n ops) ns)"
        by (auto simp: pool_run_snoc pool_of_Add split: option.splits if_splits
            dest!: set_mono_suffix [OF keep_last_suffix, THEN subsetD])
      from snoc.IH [OF this] op_Add show ?thesis by (auto intro: alive_snoc)
    qed
  next
    case (op_Remove m f)
    with snoc.prems have "d \<in> set (pool_of (pool_run fmt_v n ops) ns)"
      and "m = ns \<Longrightarrow> f \<noteq> [] \<Longrightarrow> \<not> recordMatchesFilter fmt_v d f"
      by (auto simp: pool_run_snoc pool_of_Remove split: if_splits)
        (metis (no_types, lifting) alive_def append_self_conv2 list.set_intros(1) snoc.IH)+
    with snoc.IH op_Remove show ?thesis by (auto intro: alive_snoc)
  next
    case (op_Select s)
    with snoc show ?thesis by (auto simp: pool_run_snoc intro: alive_snoc)
  qed
qed

lemma pool_run_length: "int (length (pool_of (pool_run fmt_v n ops) ns)) \<le> maxSize (NewRecordPool n)"
proof (induction ops arbitrary: ns rule: rev_induct)
  case Nil
  show ?case by (simp add: NewRecordPool_def pool_of_def)
next
  case (snoc a ops)
  note IH = snoc [of ns]
  show ?case
  proof (cases a)
    case (op_Add m doc)
    with IH show ?thesis
      by (auto simp: pool_run_snoc pool_of_Add keep_last_length less_imp_le split: option.splits)
  next
    case (op_Remove m f)
    then have "length (pool_of (pool_run fmt_v n (ops @ [a])) ns) \<le> length (pool_of (pool_run fmt_v n ops) ns)"
      by (simp add: pool_run_snoc pool_of_Remove)
    with IH show ?thesis by linarith
  next
    case (op_Select s)
    with IH show ?thesis by (simp add: pool_run_snoc)
  qed
qed

lemma pool_run_adds:
  assumes "m \<noteq> []"
  shows "pool_of (pool_run fmt_v n (map (\<lambda>(ns, d). op_Add ns (Some d)) adds)) m
    = keep_last (maxSize (NewRecordPool n)) (map snd (filter (\<lambda>(ns, d). ns = m) adds))"
proof (induction adds rule: rev_induct)
  case Nil
  show ?case by (simp add: NewRecordPool_def pool_of_def keep_last_def)
next
  case (snoc a adds)
  obtain ns d where "a = (ns, d)" by (cases a)
  with snoc assms show ?case
    by (cases "ns = m") (simp_all add: pool_run_snoc pool_of_Add keep_last_append)
qed

subsection \<open>Properties\<close>

text \<open>C15: what the pool hands out is a document known to exist. After any sequence of adds, deletes and
selector changes, in any interleaving, a namespace holds at most \<open>maxSize\<close> documents, and each was
added to it and matched by no delete recorded since. When the namespace has documents, \<open>Random\<close>
returns one of them; when it has none, it reports that there is none.\<close>

theorem pool_hands_out_live_documents:
  assumes "ns \<noteq> []" and "n < 2 ^ 63"
  shows "int (pool_Len (Some (pool_run fmt_v n ops)) ns) \<le> maxSize (NewRecordPool n)
    \<and> (\<exists>r g'. pool_Random splitmix_rng pow (Some (pool_run fmt_v n ops)) ns (Some g) = Some (r, Some g')
        \<and> (case r of None \<Rightarrow> pool_of (pool_run fmt_v n ops) ns = []
            | Some d \<Rightarrow> alive fmt_v ops ns d))"
proof -
  let ?p = "pool_run fmt_v n ops"
  have len: "int (length (pool_of ?p ns)) \<le> maxSize (NewRecordPool n)"
    by (rule pool_run_length)
  moreover have "\<exists>r g'. pool_Random splitmix_rng pow (Some ?p) ns (Some g) = Some (r, Some g')
        \<and> (case r of None \<Rightarrow> pool_of ?p ns = [] | Some d \<Rightarrow> alive fmt_v ops ns d)"
  proof (cases "pool_of ?p ns = []")
    case True
    with assms(1) show ?thesis by (simp add: pool_Random_def Let_def)
  next
    case False
    have "int (length (pool_of ?p ns)) < 2 ^ 63"
      using len assms(2) by (auto simp: maxSize_New split: if_splits)
    from sm.Random_member [OF assms(1) False this, of pow g] obtain d g'
      where "pool_Random splitmix_rng pow (Some ?p) ns (Some g) = Some (Some d, Some g')"
        and "d \<in> set (pool_of ?p ns)" by blast
    then show ?thesis by (auto dest: pool_run_alive)
  qed
  ultimately show ?thesis by (simp add: pool_Len_def)
qed

theorem pool_hands_out_live_documents_witness:
  "\<exists>r g'. pool_Random splitmix_rng (\<lambda>x e. x)
      (Some (pool_run (\<lambda>_. []) 2 [op_Add ''d.c'' (Some [(''_id'', GInt 1)]),
         op_Add ''d.c'' (Some [(''_id'', GInt 2)]), op_Remove ''d.c'' [(''_id'', GInt64 1)]]))
      ''d.c'' (Some 3) = Some (r, Some g')"
  using pool_hands_out_live_documents [of "''d.c''" 2 "\<lambda>_. []"
      "[op_Add ''d.c'' (Some [(''_id'', GInt 1)]), op_Add ''d.c'' (Some [(''_id'', GInt 2)]),
        op_Remove ''d.c'' [(''_id'', GInt64 1)]]" "\<lambda>x e. x" 3]
  by auto

text \<open>the pool is bounded by forgetting the oldest: after any sequence of inserts, a namespace holds
exactly the last \<open>maxSize\<close> documents inserted into it, in insertion order.\<close>

theorem pool_keeps_newest:
  assumes "m \<noteq> []"
  shows "pool_of (pool_run fmt_v n (map (\<lambda>(ns, d). op_Add ns (Some d)) adds)) m
    = keep_last (maxSize (NewRecordPool n)) (map snd (filter (\<lambda>(ns, d). ns = m) adds))"
  using assms by (rule pool_run_adds)

theorem pool_keeps_newest_witness:
  "pool_of (pool_run (\<lambda>_. []) 2 (map (\<lambda>(ns, d). op_Add ns (Some d))
      [(''a'', [(''x'', GInt 1)]), (''a'', [(''x'', GInt 2)]), (''b'', []), (''a'', [(''x'', GInt 3)])])) ''a''
    = [[(''x'', GInt 2)], [(''x'', GInt 3)]]"
  by (subst pool_keeps_newest) (simp_all add: keep_last_def maxSize_New)

end
