(* ===== verification/TrafficFingerprint.thy ===== *)
theory TrafficFingerprint
  imports RecordPool WorkloadFormat
begin

text \<open>
  The fingerprint of deterministic traffic (\<open>internal/mongo/workload_deterministic.go\<close>): one hash
  per worker over the operations of its first pass, combined with a header, and its status across the
  iterations of a run.

  The worker is a step function. A step is one turn of the inner loop: it generates one operation,
  waits, and sends it. What the worker can observe of its context, and when, is the argument of a
  step, so a run is any sequence of observations. Generating an operation is a function of the
  operation's number and of the worker's own state; sending it changes neither.
\<close>

definition trafficFormat :: string where "trafficFormat = ''plgm-generated-traffic/1''"
definition trafficStatusComplete :: string where "trafficStatusComplete = ''complete''"
definition trafficStatusIncomplete :: string where "trafficStatusIncomplete = ''incomplete''"

record traffic_stream =
  ts_hash :: string
  ts_generated :: nat
  ts_sent :: nat
  ts_completed :: bool

record traffic_header =
  th_format :: string
  th_version :: string
  th_collections :: string
  th_queries :: string
  th_seed :: int
  th_workers :: int
  th_ops :: int
  th_iterations :: int

record traffic_fp =
  fp_header :: traffic_header
  fp_streams :: "(int \<times> traffic_stream) list"
  fp_timeout :: string
  fp_status :: string
  fp_reason :: string

definition new_stream :: traffic_stream where
  "new_stream = \<lparr>ts_hash = [], ts_generated = 0, ts_sent = 0, ts_completed = False\<rparr>"

text \<open>
  The two definition hashes are computed by \<open>workloadrec.DefinitionHash\<close>, which can fail; \<open>version\<close>
  is \<open>config.BuildVersion\<close>.
\<close>

definition newTrafficFingerprint ::
    "string res \<Rightarrow> string res \<Rightarrow> string \<Rightarrow> int \<Rightarrow> int \<Rightarrow> string \<Rightarrow> int \<Rightarrow> traffic_fp res" where
  "newTrafficFingerprint colHash queryHash version seed opsPerWorker duration workers =
     (case colHash of
        Inl e \<Rightarrow> Err (''hash collection definitions: '' @ e)
      | Inr ch \<Rightarrow>
         (case queryHash of
            Inl e \<Rightarrow> Err (''hash query definitions: '' @ e)
          | Inr qh \<Rightarrow> Ok
              \<lparr>fp_header = \<lparr>th_format = trafficFormat, th_version = version, th_collections = ch,
                 th_queries = qh, th_seed = seed, th_workers = workers, th_ops = opsPerWorker,
                 th_iterations = 0\<rparr>,
               fp_streams = map (\<lambda>id. (id, new_stream)) [1..workers],
               fp_timeout = duration, fp_status = trafficStatusComplete, fp_reason = []\<rparr>))"

record traffic_info =
  ti_status :: string
  ti_reason :: string
  ti_header :: traffic_header
  ti_planned :: int
  ti_generated :: nat
  ti_sent :: nat
  ti_worker_hashes :: "(string \<times> string) list"
  ti_commands_hash :: string
  ti_fingerprint :: string
  ti_timeout :: string

text \<open>
  \<open>info\<close>. \<open>sha\<close> is SHA-256 with its hex digest and \<open>enc\<close> the JSON encoding of the header; counts are
  unbounded (the code's are \<open>uint64\<close>).
\<close>

definition traffic_info_of :: "(string \<Rightarrow> string) \<Rightarrow> (traffic_header \<Rightarrow> string) \<Rightarrow> traffic_fp \<Rightarrow> traffic_info" where
  "traffic_info_of sha enc t =
     (let hs = map (\<lambda>(i, s). (i, StreamHash_Sum sha (ts_hash s))) (fp_streams t);
          ch = CombineHashes sha hs;
          h = fp_header t
      in \<lparr>ti_status = fp_status t, ti_reason = fp_reason t, ti_header = h,
          ti_planned = th_workers h * th_ops h * th_iterations h,
          ti_generated = sum_list (map (ts_generated \<circ> snd) (fp_streams t)),
          ti_sent = sum_list (map (ts_sent \<circ> snd) (fp_streams t)),
          ti_worker_hashes = map (\<lambda>(i, s). (itoa i, s)) hs,
          ti_commands_hash = ch, ti_fingerprint = sha (enc h @ [CHR 0x0A] @ ch),
          ti_timeout = fp_timeout t\<rparr>)"

definition incomplete_reason :: "bool \<Rightarrow> string \<Rightarrow> string" where
  "incomplete_reason timedOut timeout =
     (if timedOut
      then ''the safety timeout (duration='' @ timeout @ '') was reached before every worker sent its operations_per_worker operations''
      else ''the run was stopped before every worker sent its operations_per_worker operations'')"

definition finish_stream :: "bool \<Rightarrow> int \<times> traffic_stream \<Rightarrow> traffic_fp \<Rightarrow> traffic_fp" where
  "finish_stream timedOut e t =
     (let t' = (if \<not> ts_completed (snd e) \<and> fp_status t = trafficStatusComplete
                then t\<lparr>fp_status := trafficStatusIncomplete,
                       fp_reason := incomplete_reason timedOut (fp_timeout t)\<rparr>
                else t)
      in t'\<lparr>fp_streams := map (\<lambda>(i, s). if i = fst e then (i, s\<lparr>ts_completed := False\<rparr>) else (i, s)) (fp_streams t')\<rparr>)"

definition finishIteration :: "bool \<Rightarrow> traffic_fp \<Rightarrow> traffic_fp" where
  "finishIteration timedOut t = fold (finish_stream timedOut) (fp_streams t) t"

subsection \<open>The worker\<close>

datatype det_kind = detStandard | detFastInsert | detFastFind | detTransaction | detSkip

record det_op =
  op_seq :: u64
  op_kind :: det_kind
  op_pause :: int
  op_hashLine :: string

record 'w det_worker =
  dw_state :: 'w
  dw_stream :: traffic_stream
  dw_passed :: nat
  dw_seq :: nat
  dw_sent_ops :: "det_op list"   \<comment> \<open>the operations handed to \<open>deterministicExecFn\<close>, in order\<close>
  dw_firstPass :: bool           \<comment> \<open>it added itself to \<open>firstPasses\<close>\<close>

text \<open>What the worker sees of its context during one turn.\<close>

record ctx_obs =
  done_at_pass :: bool    \<comment> \<open>before the first operation of a pass\<close>
  done_at_op :: bool
  done_in_pause :: bool
  done_before_send :: bool

datatype 'w turn = Stopped 'w | Running 'w

definition end_of_op :: "nat \<Rightarrow> 'w det_worker \<Rightarrow> 'w det_worker" where
  "end_of_op budget w =
     (if dw_seq w < budget then w\<lparr>dw_seq := Suc (dw_seq w)\<rparr>
      else w\<lparr>dw_stream := (dw_stream w)\<lparr>ts_completed := True\<rparr>,
             dw_firstPass := dw_firstPass w \<or> dw_passed w = 0,
             dw_passed := Suc (dw_passed w), dw_seq := 1\<rparr>)"

definition send_op :: "det_op \<Rightarrow> 'w det_worker \<Rightarrow> 'w det_worker" where
  "send_op op w =
     w\<lparr>dw_stream := (dw_stream w)\<lparr>
         ts_hash := (if dw_passed w = 0 then StreamHash_Add (ts_hash (dw_stream w)) (op_hashLine op)
                     else ts_hash (dw_stream w)),
         ts_sent := Suc (ts_sent (dw_stream w))\<rparr>,
       dw_sent_ops := dw_sent_ops w @ [op]\<rparr>"

definition gen_next :: "(u64 \<Rightarrow> 'w \<Rightarrow> det_op \<times> 'w) \<Rightarrow> nat \<Rightarrow> 'w det_worker \<Rightarrow> det_op \<times> 'w det_worker" where
  "gen_next gen budget w =
     (let (op, s') = gen (of_nat (dw_passed w * budget + dw_seq w)) (dw_state w)
      in (op, w\<lparr>dw_state := s',
               dw_stream := (dw_stream w)\<lparr>ts_generated := Suc (ts_generated (dw_stream w))\<rparr>\<rparr>))"

definition det_turn :: "(u64 \<Rightarrow> 'w \<Rightarrow> det_op \<times> 'w) \<Rightarrow> nat \<Rightarrow> ctx_obs \<Rightarrow> 'w det_worker \<Rightarrow> 'w det_worker turn" where
  "det_turn gen budget obs w =
     (if dw_seq w = 1 \<and> done_at_pass obs then Stopped w
      else if done_at_op obs then Stopped w
      else let (op, w1) = gen_next gen budget w in
        if op_pause op > 0 \<and> done_in_pause obs then Stopped w1
        else if op_kind op = detSkip then Running (end_of_op budget w1)
        else if done_before_send obs then Stopped w1
        else Running (end_of_op budget (send_op op w1)))"

fun det_run :: "(u64 \<Rightarrow> 'w \<Rightarrow> det_op \<times> 'w) \<Rightarrow> nat \<Rightarrow> ctx_obs list \<Rightarrow> 'w det_worker \<Rightarrow> 'w det_worker turn" where
  "det_run gen budget [] w = Running w"
| "det_run gen budget (o1 # os) w =
     (case det_turn gen budget o1 w of Stopped w' \<Rightarrow> Stopped w' | Running w' \<Rightarrow> det_run gen budget os w')"

fun turn_state :: "'w turn \<Rightarrow> 'w" where
  "turn_state (Stopped w) = w"
| "turn_state (Running w) = w"

text \<open>\<open>deterministicWorker\<close>: nothing with a budget of 0.\<close>

definition start_worker :: "'w \<Rightarrow> traffic_stream \<Rightarrow> 'w det_worker" where
  "start_worker s ts = \<lparr>dw_state = s, dw_stream = ts, dw_passed = 0, dw_seq = 1, dw_sent_ops = [],
     dw_firstPass = False\<rparr>"

definition deterministicWorker :: "(u64 \<Rightarrow> 'w \<Rightarrow> det_op \<times> 'w) \<Rightarrow> int \<Rightarrow> ctx_obs list \<Rightarrow> 'w \<Rightarrow> traffic_stream \<Rightarrow> 'w det_worker turn" where
  "deterministicWorker gen budget os s ts =
     (let b = unat (word_of_int budget :: u64)
      in if b = 0 then Stopped (start_worker s ts) else det_run gen b os (start_worker s ts))"

subsection \<open>What a worker hashes\<close>

text \<open>The worker's workload: operations 1, 2, ... of its generator, which depends on nothing else.\<close>

fun gens :: "(u64 \<Rightarrow> 'w \<Rightarrow> det_op \<times> 'w) \<Rightarrow> nat \<Rightarrow> 'w \<Rightarrow> det_op list \<times> 'w" where
  "gens gen 0 s = ([], s)"
| "gens gen (Suc n) s =
     (let (ops, s1) = gens gen n s; (op, s2) = gen (of_nat (Suc n)) s1 in (ops @ [op], s2))"

lemma length_gens [simp]: "length (fst (gens gen n s)) = n"
  by (induction n) (auto simp: split_beta Let_def)

lemma gens_take: "k \<le> n \<Longrightarrow> take k (fst (gens gen n s)) = fst (gens gen k s)"
  by (induction n) (auto simp: split_beta Let_def le_Suc_eq)

definition sendable :: "det_op list \<Rightarrow> det_op list" where
  "sendable ops = filter (\<lambda>op. op_kind op \<noteq> detSkip) ops"

definition hash_ops :: "string \<Rightarrow> det_op list \<Rightarrow> string" where
  "hash_ops h ops = fold (\<lambda>op h. StreamHash_Add h (op_hashLine op)) (sendable ops) h"

lemma sendable_snoc [simp]:
  "sendable (ops @ [op]) = (if op_kind op = detSkip then sendable ops else sendable ops @ [op])"
  by (simp add: sendable_def)

lemma hash_ops_snoc [simp]:
  "hash_ops h (ops @ [op]) =
     (if op_kind op = detSkip then hash_ops h ops else StreamHash_Add (hash_ops h ops) (op_hashLine op))"
  by (simp add: hash_ops_def)

text \<open>
  Between two turns the worker has generated the first \<open>g\<close> operations of its workload, sent those
  that are not skipped, and hashed those of them that belong to the first pass.
\<close>

definition worker_ok :: "(u64 \<Rightarrow> 'w \<Rightarrow> det_op \<times> 'w) \<Rightarrow> nat \<Rightarrow> 'w \<Rightarrow> traffic_stream \<Rightarrow> nat \<Rightarrow> 'w det_worker \<Rightarrow> bool" where
  "worker_ok gen b s ts g w \<longleftrightarrow>
     1 \<le> dw_seq w \<and> dw_seq w \<le> b \<and> g = dw_passed w * b + (dw_seq w - 1) \<and>
     dw_state w = snd (gens gen g s) \<and> dw_sent_ops w = sendable (fst (gens gen g s)) \<and>
     ts_generated (dw_stream w) = ts_generated ts + g \<and>
     ts_sent (dw_stream w) = ts_sent ts + length (sendable (fst (gens gen g s))) \<and>
     ts_hash (dw_stream w) = hash_ops (ts_hash ts) (take b (fst (gens gen g s))) \<and>
     (ts_completed (dw_stream w) \<longleftrightarrow> ts_completed ts \<or> 0 < dw_passed w) \<and>
     (dw_firstPass w \<longleftrightarrow> 0 < dw_passed w)"

lemma worker_ok_start: "0 < b \<Longrightarrow> worker_ok gen b s ts 0 (start_worker s ts)"
  by (simp add: worker_ok_def start_worker_def sendable_def hash_ops_def)

lemma gen_next_ok:
  assumes "worker_ok gen b s ts g w"
  obtains op s' where "gen (of_nat (Suc g)) (snd (gens gen g s)) = (op, s')"
    and "gens gen (Suc g) s = (fst (gens gen g s) @ [op], s')"
    and "gen_next gen b w = (op, w\<lparr>dw_state := s',
           dw_stream := (dw_stream w)\<lparr>ts_generated := Suc (ts_generated (dw_stream w))\<rparr>\<rparr>)"
proof -
  obtain op s' where gen: "gen (of_nat (Suc g)) (snd (gens gen g s)) = (op, s')"
    by fastforce
  have num: "dw_passed w * b + dw_seq w = Suc g" and st: "dw_state w = snd (gens gen g s)"
    using assms by (auto simp: worker_ok_def)
  have "gen_next gen b w = (op, w\<lparr>dw_state := s',
           dw_stream := (dw_stream w)\<lparr>ts_generated := Suc (ts_generated (dw_stream w))\<rparr>\<rparr>)"
    unfolding gen_next_def num st gen by simp
  with gen show thesis by (intro that) (simp_all add: split_beta)
qed

lemma take_first_pass:
  assumes "worker_ok gen b s ts g w"
  shows "take b (fst (gens gen g s) @ [op]) =
    (if dw_passed w = 0 then fst (gens gen g s) @ [op] else take b (fst (gens gen g s)))"
proof (cases "dw_passed w")
  case 0
  then show ?thesis using assms by (auto simp: worker_ok_def)
next
  case (Suc p)
  then have "b \<le> g" using assms by (auto simp: worker_ok_def)
  with Suc show ?thesis by simp
qed

lemma first_pass_all: "worker_ok gen b s ts g w \<Longrightarrow> dw_passed w = 0 \<Longrightarrow> g < b"
  by (auto simp: worker_ok_def)

lemma end_of_op_ok:
  assumes ok: "worker_ok gen b s ts g w" and op: "gens gen (Suc g) s = (fst (gens gen g s) @ [op], s')"
  defines "w1 \<equiv> w\<lparr>dw_state := s', dw_stream := (dw_stream w)\<lparr>ts_generated := Suc (ts_generated (dw_stream w))\<rparr>\<rparr>"
  shows "op_kind op = detSkip \<Longrightarrow> worker_ok gen b s ts (Suc g) (end_of_op b w1)"
    and "op_kind op \<noteq> detSkip \<Longrightarrow> worker_ok gen b s ts (Suc g) (end_of_op b (send_op op w1))"
proof -
  note take = take_first_pass [OF ok, of op]
  have ft: "fst (gens gen g s) = take b (fst (gens gen g s))" if "dw_passed w = 0"
    using first_pass_all [OF ok that] by simp
  show "op_kind op = detSkip \<Longrightarrow> worker_ok gen b s ts (Suc g) (end_of_op b w1)"
    using ok op take ft
    by (auto simp: worker_ok_def end_of_op_def w1_def algebra_simps simp del: gens.simps)
  show "op_kind op \<noteq> detSkip \<Longrightarrow> worker_ok gen b s ts (Suc g) (end_of_op b (send_op op w1))"
    using ok op take ft
    by (auto simp: worker_ok_def end_of_op_def send_op_def w1_def algebra_simps simp del: gens.simps)
qed

lemma det_turn_ok:
  assumes "worker_ok gen b s ts g w"
  shows "case det_turn gen b obs w of
      Running w' \<Rightarrow> worker_ok gen b s ts (Suc g) w'
    | Stopped w' \<Rightarrow> w' = w \<or> w' = snd (gen_next gen b w)"
proof -
  obtain op s' where op: "gens gen (Suc g) s = (fst (gens gen g s) @ [op], s')"
    and gn: "gen_next gen b w = (op, w\<lparr>dw_state := s',
           dw_stream := (dw_stream w)\<lparr>ts_generated := Suc (ts_generated (dw_stream w))\<rparr>\<rparr>)"
    by (rule gen_next_ok [OF assms])
  from end_of_op_ok [OF assms op] gn show ?thesis
    by (auto simp: det_turn_def)
qed

lemma det_run_ok:
  "worker_ok gen b s ts g w \<Longrightarrow>
     \<exists>g' w'. g \<le> g' \<and> worker_ok gen b s ts g' w' \<and>
       (det_run gen b os w = Running w' \<or> det_run gen b os w = Stopped w'
        \<or> det_run gen b os w = Stopped (snd (gen_next gen b w')))"
proof (induction os arbitrary: g w)
  case Nil
  then show ?case by auto
next
  case (Cons o1 os)
  note turn = det_turn_ok [OF Cons.prems, of o1]
  show ?case
  proof (cases "det_turn gen b o1 w")
    case (Stopped w')
    with turn Cons.prems show ?thesis by auto
  next
    case (Running w')
    with turn have "worker_ok gen b s ts (Suc g) w'" by simp
    from Cons.IH [OF this] Running show ?thesis by (auto dest: Suc_leD)
  qed
qed

lemma deterministicWorker_ok:
  assumes "0 < budget" "budget < 2 ^ 63"
  shows "\<exists>g w'. worker_ok gen (nat budget) s ts g w' \<and>
    (turn_state (deterministicWorker gen budget os s ts) = w' \<or>
     turn_state (deterministicWorker gen budget os s ts) = snd (gen_next gen (nat budget) w'))"
proof -
  have b: "unat (word_of_int budget :: u64) = nat budget"
    using assms by (simp add: unat_eq_nat_uint uint_word_of_int)
  have "0 < nat budget" using assms by simp
  from det_run_ok [OF worker_ok_start [OF this], of gen s ts os] obtain g w'
    where "worker_ok gen (nat budget) s ts g w'"
      and "det_run gen (nat budget) os (start_worker s ts) = Running w'
        \<or> det_run gen (nat budget) os (start_worker s ts) = Stopped w'
        \<or> det_run gen (nat budget) os (start_worker s ts) = Stopped (snd (gen_next gen (nat budget) w'))"
    by blast
  with assms show ?thesis
    unfolding deterministicWorker_def b Let_def by (intro exI [of _ g] exI [of _ w']) auto
qed

lemma gen_next_frame:
  "dw_sent_ops (snd (gen_next gen b w)) = dw_sent_ops w"
  "ts_hash (dw_stream (snd (gen_next gen b w))) = ts_hash (dw_stream w)"
  "ts_sent (dw_stream (snd (gen_next gen b w))) = ts_sent (dw_stream w)"
  "ts_completed (dw_stream (snd (gen_next gen b w))) = ts_completed (dw_stream w)"
  by (simp_all add: gen_next_def split_beta)

text \<open>Whatever the timing, the worker has hashed a prefix of its plan, and all of it once completed.\<close>

lemma deterministicWorker_prefix:
  fixes gen :: "u64 \<Rightarrow> 'w \<Rightarrow> det_op \<times> 'w" and os s ts
  assumes "0 < budget" "budget < 2 ^ 63" and fresh: "\<not> ts_completed ts"
  defines "w \<equiv> turn_state (deterministicWorker gen budget os s ts)"
  shows "\<exists>g. dw_sent_ops w = sendable (fst (gens gen g s))
    \<and> ts_sent (dw_stream w) = ts_sent ts + length (dw_sent_ops w)
    \<and> ts_hash (dw_stream w) = hash_ops (ts_hash ts) (take (min g (nat budget)) (fst (gens gen (nat budget) s)))
    \<and> (ts_completed (dw_stream w) \<longleftrightarrow> nat budget \<le> g)"
proof -
  let ?b = "nat budget"
  obtain g w' where ok: "worker_ok gen ?b s ts g w'" and w: "w = w' \<or> w = snd (gen_next gen ?b w')"
    using deterministicWorker_ok [OF assms(1,2), of gen s ts os] w_def by blast
  have "take ?b (fst (gens gen g s)) = take (min g ?b) (fst (gens gen ?b s))"
    by (cases "g \<le> ?b") (simp_all add: gens_take)
  moreover have "0 < dw_passed w' \<longleftrightarrow> ?b \<le> g"
  proof (cases "dw_passed w'")
    case 0
    with first_pass_all [OF ok] show ?thesis by simp
  next
    case (Suc p)
    have "g = dw_passed w' * ?b + (dw_seq w' - 1)" using ok by (simp add: worker_ok_def)
    with Suc show ?thesis by simp
  qed
  moreover have "dw_sent_ops w = dw_sent_ops w'" "ts_hash (dw_stream w) = ts_hash (dw_stream w')"
    "ts_sent (dw_stream w) = ts_sent (dw_stream w')"
    "ts_completed (dw_stream w) = ts_completed (dw_stream w')"
    using w by (auto simp: gen_next_frame)
  ultimately show ?thesis
    using ok fresh unfolding worker_ok_def by (intro exI [of _ g]) simp
qed

subsection \<open>The fingerprint of a run\<close>

text \<open>Clearing the completion mark of the streams whose worker is in \<open>A\<close>.\<close>

definition unmark :: "int set \<Rightarrow> int \<times> traffic_stream \<Rightarrow> int \<times> traffic_stream" where
  "unmark A e = (fst e, if fst e \<in> A then (snd e)\<lparr>ts_completed := False\<rparr> else snd e)"

lemma unmark_unmark: "unmark A (unmark B e) = unmark (A \<union> B) e"
  by (simp add: unmark_def)

lemma finish_stream_streams:
  "fp_streams (finish_stream timedOut e t) = map (unmark {fst e}) (fp_streams t)"
  by (auto simp: finish_stream_def Let_def unmark_def)

lemma finish_streams_fold:
  "fp_streams (fold (finish_stream timedOut) es t) = map (unmark (fst ` set es)) (fp_streams t)"
proof (induction es arbitrary: t)
  case Nil
  show ?case by (simp add: unmark_def)
next
  case (Cons e es)
  show ?case by (simp add: Cons.IH finish_stream_streams unmark_unmark)
qed

lemma finish_header_fold [simp]: "fp_header (fold (finish_stream timedOut) es t) = fp_header t"
  by (induction es arbitrary: t) (simp_all add: finish_stream_def Let_def)

lemma traffic_status_ne [simp]:
  "trafficStatusComplete \<noteq> trafficStatusIncomplete" "trafficStatusIncomplete \<noteq> trafficStatusComplete"
  by (simp_all add: trafficStatusComplete_def trafficStatusIncomplete_def)

lemma finish_stream_status:
  "fp_status (finish_stream timedOut e t) =
     (if \<not> ts_completed (snd e) \<and> fp_status t = trafficStatusComplete then trafficStatusIncomplete
      else fp_status t)"
  by (simp add: finish_stream_def Let_def)

lemma finish_status_fold:
  "fp_status (fold (finish_stream timedOut) es t) =
     (if fp_status t = trafficStatusComplete \<and> (\<exists>e \<in> set es. \<not> ts_completed (snd e))
      then trafficStatusIncomplete else fp_status t)"
proof (induction es arbitrary: t)
  case (Cons e es)
  show ?case
    unfolding fold_Cons o_apply Cons.IH finish_stream_status
    by (cases "ts_completed (snd e)"; cases "fp_status t = trafficStatusComplete") simp_all
qed simp

lemma finishIteration_streams:
  "fp_streams (finishIteration timedOut t) = map (\<lambda>e. (fst e, (snd e)\<lparr>ts_completed := False\<rparr>)) (fp_streams t)"
  unfolding finishIteration_def finish_streams_fold by (simp add: unmark_def)

text \<open>
  One iteration: every worker runs on its own stream, with its own observations and its own
  generator for this iteration; then \<open>finishIteration\<close>.
\<close>

definition run_iteration ::
    "(int \<Rightarrow> int \<Rightarrow> u64 \<Rightarrow> 'w \<Rightarrow> det_op \<times> 'w) \<Rightarrow> (int \<Rightarrow> int \<Rightarrow> 'w) \<Rightarrow> int \<Rightarrow> (int \<Rightarrow> int \<Rightarrow> ctx_obs list) \<Rightarrow>
     (int \<Rightarrow> bool) \<Rightarrow> int \<Rightarrow> traffic_fp \<Rightarrow> traffic_fp" where
  "run_iteration gen s0 budget obs timedOut it t =
     finishIteration (timedOut it)
       (t\<lparr>fp_header := (fp_header t)\<lparr>th_iterations := it\<rparr>,
          fp_streams := map (\<lambda>(i, s). (i, dw_stream (turn_state
            (deterministicWorker (gen it i) budget (obs it i) (s0 it i) s)))) (fp_streams t)\<rparr>)"

fun run_iterations where
  "run_iterations gen s0 budget obs timedOut 0 t = t"
| "run_iterations gen s0 budget obs timedOut (Suc n) t =
     run_iteration gen s0 budget obs timedOut (int (Suc n)) (run_iterations gen s0 budget obs timedOut n t)"

text \<open>What a worker's hash is once every iteration completed: its plans, one after the other.\<close>

fun plan_hash :: "(int \<Rightarrow> int \<Rightarrow> u64 \<Rightarrow> 'w \<Rightarrow> det_op \<times> 'w) \<Rightarrow> (int \<Rightarrow> int \<Rightarrow> 'w) \<Rightarrow> int \<Rightarrow> nat \<Rightarrow> int \<Rightarrow> string" where
  "plan_hash gen s0 budget 0 i = []"
| "plan_hash gen s0 budget (Suc n) i =
     hash_ops (plan_hash gen s0 budget n i)
       (fst (gens (gen (int (Suc n)) i) (nat budget) (s0 (int (Suc n)) i)))"

lemma run_iterations_streams:
  assumes b: "0 < budget" "budget < 2 ^ 63"
    and t: "\<And>i s. (i, s) \<in> set (fp_streams t) \<Longrightarrow> s = new_stream"
    and complete: "fp_status (run_iterations gen s0 budget obs timedOut n t) = trafficStatusComplete"
  shows "map (\<lambda>(i, s). (i, ts_hash s)) (fp_streams (run_iterations gen s0 budget obs timedOut n t))
      = map (\<lambda>(i, s). (i, plan_hash gen s0 budget n i)) (fp_streams t)
    \<and> (\<forall>e \<in> set (fp_streams (run_iterations gen s0 budget obs timedOut n t)). \<not> ts_completed (snd e))"
  using complete
proof (induction n)
  case 0
  show ?case by (auto simp: new_stream_def dest!: t)
next
  case (Suc n)
  define u where "u = run_iterations gen s0 budget obs timedOut n t"
  define it where "it = int (Suc n)"
  let ?w = "\<lambda>i s. dw_stream (turn_state (deterministicWorker (gen it i) budget (obs it i) (s0 it i) s))"
  have run: "run_iterations gen s0 budget obs timedOut (Suc n) t = run_iteration gen s0 budget obs timedOut it u"
    by (simp add: u_def it_def)
  have st: "fp_status u = trafficStatusComplete" and all: "\<And>i s. (i, s) \<in> set (fp_streams u) \<Longrightarrow> ts_completed (?w i s)"
    using Suc.prems unfolding run run_iteration_def finishIteration_def finish_status_fold
    by (auto split: if_splits)
  note IH = Suc.IH [folded u_def, OF st]
  have hash: "ts_hash (?w i s) = hash_ops (ts_hash s) (fst (gens (gen it i) (nat budget) (s0 it i)))"
    if "(i, s) \<in> set (fp_streams u)" for i s
  proof -
    have "\<not> ts_completed s" using IH that by fastforce
    from deterministicWorker_prefix [OF b this, of "gen it i" "obs it i" "s0 it i"] all [OF that]
    obtain g where "ts_hash (?w i s)
        = hash_ops (ts_hash s) (take (min g (nat budget)) (fst (gens (gen it i) (nat budget) (s0 it i))))"
      and "nat budget \<le> g" by blast
    then show ?thesis by (simp add: min_absorb2)
  qed
  have "map (\<lambda>(i, s). (i, ts_hash s)) (fp_streams (run_iteration gen s0 budget obs timedOut it u))
      = map (\<lambda>(i, s). (i, hash_ops (ts_hash s) (fst (gens (gen it i) (nat budget) (s0 it i))))) (fp_streams u)"
    by (auto simp: run_iteration_def finishIteration_streams hash)
  also have "\<dots> = map (\<lambda>(i, h). (i, hash_ops h (fst (gens (gen it i) (nat budget) (s0 it i)))))
      (map (\<lambda>(i, s). (i, ts_hash s)) (fp_streams u))"
    by (simp add: split_beta)
  also have "\<dots> = map (\<lambda>(i, s). (i, plan_hash gen s0 budget (Suc n) i)) (fp_streams t)"
    unfolding IH [THEN conjunct1] by (simp add: it_def split_beta comp_def)
  finally show ?case
    unfolding run by (auto simp: run_iteration_def finishIteration_streams)
qed

lemma run_iterations_header:
  "fp_header (run_iterations gen s0 budget obs timedOut n t) =
     (if n = 0 then fp_header t else (fp_header t)\<lparr>th_iterations := int n\<rparr>)"
  by (induction n) (simp_all add: run_iteration_def finishIteration_def)

text \<open>C8: the traffic fingerprint identifies the workload, not the run. For a run of any number of
iterations whose fingerprint ends \<open>complete\<close>, the commands hash and the fingerprint depend only on the
header and on what the generators produce for the first pass of each worker in each iteration: not on
timing, on when later passes stopped, or on what the server answered.\<close>

theorem traffic_fingerprint_reproducible:
  assumes "newTrafficFingerprint colHash queryHash version seed ops duration workers = Ok t"
    and "0 < budget" "budget < 2 ^ 63"
    and "fp_status (run_iterations gen s0 budget obs timedOut n t) = trafficStatusComplete"
  shows "let inf = traffic_info_of sha enc (run_iterations gen s0 budget obs timedOut n t);
             ch = CombineHashes sha (map (\<lambda>i. (i, sha (plan_hash gen s0 budget n i))) [1..workers])
         in ti_commands_hash inf = ch
          \<and> ti_fingerprint inf = sha (enc ((fp_header t)\<lparr>th_iterations := int n\<rparr>) @ [CHR 0x0A] @ ch)"
proof -
  let ?u = "run_iterations gen s0 budget obs timedOut n t"
  have streams: "fp_streams t = map (\<lambda>i. (i, new_stream)) [1..workers]" and it: "th_iterations (fp_header t) = 0"
    using assms(1) by (auto simp: newTrafficFingerprint_def split: sum.splits)
  have fresh: "s = new_stream" if "(i, s) \<in> set (fp_streams t)" for i s
    using that by (auto simp: streams)
  have "map (\<lambda>(i, s). (i, ts_hash s)) (fp_streams ?u) = map (\<lambda>i. (i, plan_hash gen s0 budget n i)) [1..workers]"
    using run_iterations_streams [OF assms(2,3) fresh assms(4)] by (simp add: streams comp_def)
  then have "map (\<lambda>(i, h). (i, sha h)) (map (\<lambda>(i, s). (i, ts_hash s)) (fp_streams ?u))
      = map (\<lambda>i. (i, sha (plan_hash gen s0 budget n i))) [1..workers]"
    by simp
  then have hs: "map (\<lambda>(i, s). (i, StreamHash_Sum sha (ts_hash s))) (fp_streams ?u)
      = map (\<lambda>i. (i, sha (plan_hash gen s0 budget n i))) [1..workers]"
    by (simp add: StreamHash_Sum_def split_beta comp_def case_prod_unfold)
  have "fp_header ?u = (fp_header t)\<lparr>th_iterations := int n\<rparr>"
    using it by (simp add: run_iterations_header)
  then show ?thesis
    by (simp add: traffic_info_of_def Let_def hs)
qed

definition quiet :: ctx_obs where
  "quiet = \<lparr>done_at_pass = False, done_at_op = False, done_in_pause = False, done_before_send = False\<rparr>"

definition sample_gen :: "int \<Rightarrow> int \<Rightarrow> u64 \<Rightarrow> unit \<Rightarrow> det_op \<times> unit" where
  "sample_gen it i n u = (\<lparr>op_seq = n, op_kind = (if n = 2 then detSkip else detStandard), op_pause = 0,
     op_hashLine = ''op''\<rparr>, u)"

definition sample_fp :: traffic_fp where
  "sample_fp = \<lparr>fp_header = \<lparr>th_format = trafficFormat, th_version = ''v'', th_collections = ''c'',
      th_queries = ''q'', th_seed = 5, th_workers = 1, th_ops = 2, th_iterations = 0\<rparr>,
    fp_streams = [(1, new_stream)], fp_timeout = ''1m'', fp_status = trafficStatusComplete, fp_reason = []\<rparr>"

lemma sample_fp_new: "newTrafficFingerprint (Ok ''c'') (Ok ''q'') ''v'' 5 2 ''1m'' 1 = Ok sample_fp"
  by (simp add: newTrafficFingerprint_def sample_fp_def)

lemma sample_run:
  "fp_status (run_iterations sample_gen (\<lambda>_ _. ()) 2 (\<lambda>_ _. [quiet, quiet, quiet]) (\<lambda>_. False) 1 sample_fp)
     = trafficStatusComplete"
  by (simp add: run_iteration_def finishIteration_def finish_stream_status sample_fp_def
      deterministicWorker_def start_worker_def det_turn_def quiet_def gen_next_def
      sample_gen_def end_of_op_def send_op_def new_stream_def)

theorem traffic_fingerprint_reproducible_witness:
  "ti_commands_hash (traffic_info_of (\<lambda>x. x) (\<lambda>_. [])
     (run_iterations sample_gen (\<lambda>_ _. ()) 2 (\<lambda>_ _. [quiet, quiet, quiet]) (\<lambda>_. False) 1 sample_fp))
   = CombineHashes (\<lambda>x. x) [(1, ''op'' @ [CHR 0x0A])]"
  using traffic_fingerprint_reproducible [OF sample_fp_new _ _ sample_run, of "\<lambda>x. x" "\<lambda>_. []"]
  by (simp add: Let_def numeral_2_eq_2 sample_gen_def hash_ops_def sendable_def StreamHash_Add_def
      del: run_iterations.simps)

text \<open>C14: a deterministic worker sends its own plan and nothing else. Whatever it observes, the operations
handed to the server are those among operations 1 to \<open>g\<close> of its generator that are not skipped, in
order and each once, over as many passes as there was time for; the stream's hash covers exactly those
of the first \<open>operations_per_worker\<close>, and the worker counts as completed iff it got through them.\<close>

theorem deterministic_worker_sends_plan:
  assumes "0 < budget" "budget < 2 ^ 63"
    and "w = turn_state (deterministicWorker gen budget os s new_stream)"
  shows "\<exists>g. dw_sent_ops w = sendable (fst (gens gen g s))
    \<and> ts_sent (dw_stream w) = length (dw_sent_ops w)
    \<and> ts_hash (dw_stream w) = hash_ops [] (take (min g (nat budget)) (fst (gens gen (nat budget) s)))
    \<and> (ts_completed (dw_stream w) \<longleftrightarrow> nat budget \<le> g)"
  using deterministicWorker_prefix [OF assms(1,2), of new_stream gen os s]
  by (simp add: assms(3) new_stream_def)

theorem deterministic_worker_sends_plan_witness:
  "\<exists>g. dw_sent_ops (turn_state (deterministicWorker (sample_gen 1 1) 2 [quiet, quiet, quiet] () new_stream))
      = sendable (fst (gens (sample_gen 1 1) g ()))"
  using deterministic_worker_sends_plan [of 2 _ "sample_gen 1 1" "[quiet, quiet, quiet]" "()"] by auto

text \<open>a fingerprint is \<open>complete\<close> only while every worker completes every iteration: after
\<open>finishIteration\<close> its status is \<open>complete\<close> iff it was before and every stream had completed, and the
streams are ready for the next iteration.\<close>

theorem finishIteration_status:
  "(fp_status (finishIteration timedOut t) = trafficStatusComplete \<longleftrightarrow>
      fp_status t = trafficStatusComplete \<and> list_all (\<lambda>e. ts_completed (snd e)) (fp_streams t))
   \<and> map (\<lambda>(i, s). (i, ts_hash s, ts_sent s, ts_completed s)) (fp_streams (finishIteration timedOut t))
     = map (\<lambda>(i, s). (i, ts_hash s, ts_sent s, False)) (fp_streams t)"
proof
  show "fp_status (finishIteration timedOut t) = trafficStatusComplete \<longleftrightarrow>
      fp_status t = trafficStatusComplete \<and> list_all (\<lambda>e. ts_completed (snd e)) (fp_streams t)"
    by (auto simp: finishIteration_def finish_status_fold list_all_iff)
  show "map (\<lambda>(i, s). (i, ts_hash s, ts_sent s, ts_completed s)) (fp_streams (finishIteration timedOut t))
     = map (\<lambda>(i, s). (i, ts_hash s, ts_sent s, False)) (fp_streams t)"
    by (simp add: finishIteration_streams split_beta)
qed

end
