(* ===== verification/Commands.thy ===== *)
theory Commands
  imports RecordPool WorkloadFormat
begin

text \<open>
  The commands a worker sends, the form they are recorded in, and reading them back
  (\<open>internal/mongo/workload_exec.go\<close>, \<open>workload_replay.go\<close>, \<open>workload_targets.go\<close>).

  \<open>wire\<close> is what decoding yields of an encoded value: \<open>Canonical\<close>, with a Go \<open>int\<close> as the BSON integer
  the encoder writes for it. A recorded command comes back as the wire form of what was sent. A nil map
  and an untyped nil are both \<open>GNil\<close>, as \<open>isNilDoc\<close> treats them.
\<close>

subsection \<open>The wire form\<close>

definition wire_int :: "int \<Rightarrow> gval" where
  "wire_int i = (if - (2 ^ 31) \<le> i \<and> i < 2 ^ 31 then GInt32 i else GInt64 i)"

fun narrow :: "gval \<Rightarrow> gval" where
  "narrow (GInt i) = wire_int i"
| "narrow (GDoc kvs) = GDoc (map (\<lambda>(k, v). (k, narrow v)) kvs)"
| "narrow (GA xs) = GA (map narrow xs)"
| "narrow v = v"

definition wire :: "gval \<Rightarrow> gval" where
  "wire v = narrow (Canonical v)"

definition wire_doc :: "document \<Rightarrow> document" where
  "wire_doc d = map (\<lambda>(k, v). (k, wire v)) d"

lemma map_free_narrow: "map_free v \<Longrightarrow> map_free (narrow v)"
  by (induction v rule: narrow.induct) (auto simp: wire_int_def)

lemma narrow_idem [simp]: "narrow (narrow v) = narrow v"
  by (induction v rule: narrow.induct) (auto simp: wire_int_def)

lemma wire_idem [simp]: "wire (wire v) = wire v"
  by (simp add: wire_def Canonical_id map_free_narrow Canonical_map_free)

lemma wire_simps [simp]:
  "wire GNil = GNil" "wire (GBool b) = GBool b" "wire (GStr s) = GStr s"
  "wire (GInt32 i) = GInt32 i" "wire (GInt64 i) = GInt64 i" "wire (GInt i) = wire_int i"
  "wire (GDoc kvs) = GDoc (wire_doc kvs)" "wire (GA xs) = GA (map wire xs)"
  "wire (GSlice xs) = GA (map wire xs)" "wire (GTSlice xs) = GA (map wire xs)"
  by (simp_all add: wire_def wire_doc_def comp_def split_beta)

lemma wire_nil_iff [simp]: "wire v = GNil \<longleftrightarrow> v = GNil"
  by (cases v) (simp_all add: wire_def wire_int_def)

lemma wire_doc_simps [simp]:
  "wire_doc [] = []" "wire_doc ((k, v) # d) = (k, wire v) # wire_doc d"
  "wire_doc (d @ e) = wire_doc d @ wire_doc e"
  by (simp_all add: wire_doc_def)

lemma wire_doc_idem [simp]: "wire_doc (wire_doc d) = wire_doc d"
  by (induction d) auto

lemma wire_bool [simp]: "wire v = GBool b \<longleftrightarrow> v = GBool b"
  by (cases v) (simp_all add: wire_def wire_int_def)

subsection \<open>Reading documents\<close>

definition docValue :: "document \<Rightarrow> string \<Rightarrow> gval" where
  "docValue d k = (case map_of d k of None \<Rightarrow> GNil | Some v \<Rightarrow> v)"

definition hasKey :: "document \<Rightarrow> string \<Rightarrow> bool" where
  "hasKey d k \<longleftrightarrow> map_of d k \<noteq> None"

lemma docValue_simps [simp]:
  "docValue [] k = GNil" "docValue ((j, v) # d) k = (if j = k then v else docValue d k)"
  by (simp_all add: docValue_def)

lemma hasKey_simps [simp]:
  "\<not> hasKey [] k" "hasKey ((j, v) # d) k \<longleftrightarrow> j = k \<or> hasKey d k"
  by (auto simp: hasKey_def)

lemma docValue_append [simp]:
  "docValue (d @ e) k = (if hasKey d k then docValue d k else docValue e k)"
  by (auto simp: docValue_def hasKey_def map_add_def split: option.splits)

lemma hasKey_append [simp]: "hasKey (d @ e) k \<longleftrightarrow> hasKey d k \<or> hasKey e k"
  by (auto simp: hasKey_def map_add_def split: option.splits)

lemma docValue_wire [simp]: "docValue (wire_doc d) k = wire (docValue d k)"
  by (induction d) auto

lemma hasKey_wire [simp]: "hasKey (wire_doc d) k = hasKey d k"
  by (induction d) auto

text \<open>\<open>intValue\<close>: a float is accepted when it holds an integer (finite \<open>float64\<close> below \<open>2 ^ 63\<close>).\<close>

definition intValue :: "gval \<Rightarrow> int option" where
  "intValue v = (case int_of v of Some i \<Rightarrow> Some i
     | None \<Rightarrow> (case v of GFloat x \<Rightarrow>
         (if x = fl (of_int (float_to_int x)) then Some (float_to_int x) else None) | _ \<Rightarrow> None))"

lemma intValue_ints [simp]:
  "intValue (GInt i) = Some i" "intValue (GInt32 i) = Some i" "intValue (GInt64 i) = Some i"
  "intValue GNil = None" "intValue (wire_int i) = Some i"
  by (simp_all add: intValue_def wire_int_def)

datatype decode_error =
    missing string         \<comment> \<open>a required value is missing\<close>
  | malformed string
  | unsupported string     \<comment> \<open>an operation that is not replayed\<close>
  | undecodable string     \<comment> \<open>the error of \<open>DecodeCommand\<close>\<close>

definition docsValue :: "gval \<Rightarrow> decode_error + gval list" where
  "docsValue v = (case v of GA xs \<Rightarrow> Inr xs | _ \<Rightarrow> Inl (malformed ''documents''))"

subsection \<open>Collections\<close>

record collection_ref =
  c_db :: string
  c_name :: string

definition collectionNamespace :: "string option \<Rightarrow> collection_ref \<Rightarrow> string" where
  "collectionNamespace db c = namespace_of db (c_db c) (c_name c)"

text \<open>\<open>strings.Cut(s, ".")\<close>.\<close>

definition cut_dot :: "string \<Rightarrow> string \<times> string" where
  "cut_dot s = (takeWhile (\<lambda>c. c \<noteq> CHR ''.'') s, drop 1 (dropWhile (\<lambda>c. c \<noteq> CHR ''.'') s))"

type_synonym replay_collections = "string \<rightharpoonup> collection_ref"

definition newReplayCollections :: "string option \<Rightarrow> collection_ref list \<Rightarrow> replay_collections" where
  "newReplayCollections db cs = fold (\<lambda>c m. m(collectionNamespace db c \<mapsto> c)) cs Map.empty"

definition lookup_ns :: "replay_collections \<Rightarrow> string \<Rightarrow> collection_ref" where
  "lookup_ns m ns = (case m ns of Some c \<Rightarrow> c
     | None \<Rightarrow> (let (d, n) = cut_dot ns in \<lparr>c_db = d, c_name = n\<rparr>))"

lemma newReplayCollections_ns:
  "newReplayCollections db cs ns = Some c \<Longrightarrow> collectionNamespace db c = ns"
proof (induction cs rule: rev_induct)
  case (snoc x cs)
  then show ?case
    by (cases "collectionNamespace db x = ns") (simp_all add: newReplayCollections_def)
qed (simp add: newReplayCollections_def)

lemma takeWhile_to_dot: "CHR ''.'' \<notin> set d \<Longrightarrow> takeWhile (\<lambda>c. c \<noteq> CHR ''.'') (d @ CHR ''.'' # n) = d"
  and dropWhile_to_dot: "CHR ''.'' \<notin> set d \<Longrightarrow> dropWhile (\<lambda>c. c \<noteq> CHR ''.'') (d @ CHR ''.'' # n) = CHR ''.'' # n"
  by (induction d) auto

lemma cut_dot_append: "CHR ''.'' \<notin> set d \<Longrightarrow> cut_dot (d @ CHR ''.'' # n) = (d, n)"
  by (simp add: cut_dot_def takeWhile_to_dot dropWhile_to_dot)

text \<open>
  A recorded namespace finds a collection with the same namespace again: the configured one, or, when
  it is not configured, one made of its two parts, since a database name has no dot and no blanks
  around it.
\<close>

definition plain_db :: "string \<Rightarrow> bool" where
  "plain_db d \<longleftrightarrow> d \<noteq> [] \<and> CHR ''.'' \<notin> set d \<and> trim_space d = d"

lemma lookup_ns_same:
  assumes "plain_db (takeWhile (\<lambda>c. c \<noteq> CHR ''.'') (collectionNamespace db c))"
  shows "collectionNamespace db (lookup_ns (newReplayCollections db cs) (collectionNamespace db c))
    = collectionNamespace db c"
proof (cases "newReplayCollections db cs (collectionNamespace db c)")
  case (Some c')
  then show ?thesis by (simp add: lookup_ns_def newReplayCollections_ns)
next
  case None
  let ?ns = "collectionNamespace db c"
  obtain d n where ns: "?ns = d @ CHR ''.'' # n" "CHR ''.'' \<notin> set d"
    using split_list_first [of "CHR ''.''" ?ns]
    by (auto simp: collectionNamespace_def namespace_of_def Let_def)
  then have "takeWhile (\<lambda>c. c \<noteq> CHR ''.'') ?ns = d"
    by (simp add: takeWhile_to_dot)
  with assms have "plain_db d" by simp
  with None ns show ?thesis
    by (simp add: lookup_ns_def cut_dot_append) (simp add: collectionNamespace_def namespace_of_def plain_db_def)
qed

subsection \<open>Requests\<close>

record op_request =
  rq_opType :: string
  rq_col :: collection_ref
  rq_filter :: gval
  rq_pipeline :: gval
  rq_update :: gval
  rq_projection :: gval
  rq_upsert :: bool
  rq_doc :: gval
  rq_docs :: "gval list"
  rq_findLimit :: int
  rq_findBatch :: int
  rq_usedExisting :: bool
  rq_findSort :: gval
  rq_findSkip :: int
  rq_hint :: gval

definition empty_request :: "string \<Rightarrow> collection_ref \<Rightarrow> bool \<Rightarrow> op_request" where
  "empty_request opType col existing = \<lparr>rq_opType = opType, rq_col = col, rq_filter = GNil,
     rq_pipeline = GNil, rq_update = GNil, rq_projection = GNil, rq_upsert = False, rq_doc = GNil,
     rq_docs = [], rq_findLimit = 0, rq_findBatch = 0, rq_usedExisting = existing,
     rq_findSort = GNil, rq_findSkip = 0, rq_hint = GNil\<rparr>"

definition emptyDocIfNil :: "gval \<Rightarrow> gval" where
  "emptyDocIfNil v = (if v = GNil then GDoc [] else v)"

definition optional :: "bool \<Rightarrow> string \<Rightarrow> gval \<Rightarrow> document" where
  "optional b k v = (if b then [(k, v)] else [])"

definition update_args :: "gval \<Rightarrow> gval \<Rightarrow> bool \<Rightarrow> document" where
  "update_args f u ups = [(''filter'', emptyDocIfNil f), (''update'', u), (''upsert'', GBool ups)]"

definition is_update :: "string \<Rightarrow> bool" where
  "is_update t \<longleftrightarrow> t = ''updateOne'' \<or> t = ''updateMany''"

definition is_delete :: "string \<Rightarrow> bool" where
  "is_delete t \<longleftrightarrow> t = ''deleteOne'' \<or> t = ''deleteMany''"

definition standardCommand :: "op_request \<Rightarrow> document" where
  "standardCommand r =
     (let t = rq_opType r in
      if t = ''find'' then
        [(''filter'', emptyDocIfNil (rq_filter r))]
        @ optional (rq_projection r \<noteq> GNil) ''projection'' (rq_projection r)
        @ optional (rq_findSort r \<noteq> GNil) ''sort'' (rq_findSort r)
        @ optional (rq_findSkip r > 0) ''skip'' (GInt64 (rq_findSkip r))
        @ optional (rq_hint r \<noteq> GNil) ''hint'' (rq_hint r)
        @ [(''limit'', GInt64 (rq_findLimit r)), (''batchSize'', GInt32 (rq_findBatch r))]
      else if t = ''aggregate'' then
        [(''pipeline'', if rq_pipeline r = GNil then GA [] else rq_pipeline r)]
        @ optional (rq_hint r \<noteq> GNil) ''hint'' (rq_hint r)
      else if is_update t then update_args (rq_filter r) (rq_update r) (rq_upsert r)
      else if is_delete t then [(''filter'', emptyDocIfNil (rq_filter r))]
      else if t = ''insert'' then [(''document'', rq_doc r)]
      else if t = ''insertMany'' then [(''documents'', GSlice (rq_docs r))]
      else [])"

definition bool_of :: "gval \<Rightarrow> bool" where
  "bool_of v \<longleftrightarrow> v = GBool True"

definition decodeFind :: "document \<Rightarrow> op_request \<Rightarrow> decode_error + op_request" where
  "decodeFind cmd r =
     (case intValue (docValue cmd ''limit'') of
        None \<Rightarrow> Inl (missing ''find limit'')
      | Some limit \<Rightarrow>
         (case intValue (docValue cmd ''batchSize'') of
            None \<Rightarrow> Inl (missing ''find batchSize'')
          | Some batch \<Rightarrow>
             (let r' = r\<lparr>rq_filter := docValue cmd ''filter'',
                         rq_projection := (if hasKey cmd ''projection'' then docValue cmd ''projection'' else GNil),
                         rq_findLimit := limit, rq_findBatch := to_i32 batch,
                         rq_findSort := docValue cmd ''sort'', rq_hint := docValue cmd ''hint''\<rparr>
              in if hasKey cmd ''skip'' then
                   (case intValue (docValue cmd ''skip'') of
                      None \<Rightarrow> Inl (malformed ''find skip'')
                    | Some skip \<Rightarrow> if skip < 0 then Inl (malformed ''find skip'') else Inr (r'\<lparr>rq_findSkip := skip\<rparr>))
                 else Inr r')))"

definition decodeStandard :: "string \<Rightarrow> bool \<Rightarrow> document \<Rightarrow> collection_ref \<Rightarrow> decode_error + op_request" where
  "decodeStandard t existing cmd col =
     (let r = empty_request t col existing in
      if t = ''find'' then decodeFind cmd r
      else if t = ''aggregate'' then
        (case docValue cmd ''pipeline'' of
           GA p \<Rightarrow> Inr (r\<lparr>rq_pipeline := GA p, rq_hint := docValue cmd ''hint''\<rparr>)
         | _ \<Rightarrow> Inl (missing ''aggregate pipeline''))
      else if is_update t then
        Inr (r\<lparr>rq_filter := docValue cmd ''filter'', rq_update := docValue cmd ''update'',
              rq_upsert := bool_of (docValue cmd ''upsert'')\<rparr>)
      else if is_delete t then Inr (r\<lparr>rq_filter := docValue cmd ''filter''\<rparr>)
      else if t = ''insert'' then
        (if docValue cmd ''document'' = GNil then Inl (missing ''insert document'')
         else Inr (r\<lparr>rq_doc := docValue cmd ''document''\<rparr>))
      else if t = ''insertMany'' then
        (case docsValue (docValue cmd ''documents'') of
           Inl e \<Rightarrow> Inl e | Inr ds \<Rightarrow> Inr (r\<lparr>rq_docs := ds\<rparr>))
      else Inl (unsupported t))"

lemma op_names [simp]:
  "\<not> is_update ''find''" "\<not> is_update ''aggregate''" "is_update ''updateOne''" "is_update ''updateMany''"
  "\<not> is_update ''deleteOne''" "\<not> is_update ''deleteMany''" "\<not> is_update ''insert''" "\<not> is_update ''insertMany''"
  "is_delete ''deleteOne''" "is_delete ''deleteMany''" "\<not> is_delete ''insert''" "\<not> is_delete ''insertMany''"
  "\<not> is_delete ''find''" "\<not> is_delete ''aggregate''"
  by (simp_all add: is_update_def is_delete_def)

lemma is_updateE: "is_update t \<Longrightarrow> (t = ''updateOne'' \<Longrightarrow> P) \<Longrightarrow> (t = ''updateMany'' \<Longrightarrow> P) \<Longrightarrow> P"
  and is_deleteE: "is_delete t \<Longrightarrow> (t = ''deleteOne'' \<Longrightarrow> P) \<Longrightarrow> (t = ''deleteMany'' \<Longrightarrow> P) \<Longrightarrow> P"
  by (auto simp: is_update_def is_delete_def)

text \<open>The requests the program records: a supported operation, values of the types it sends.\<close>

definition is_array :: "gval \<Rightarrow> bool" where
  "is_array v \<longleftrightarrow> (case v of GA _ \<Rightarrow> True | GSlice _ \<Rightarrow> True | GTSlice _ \<Rightarrow> True | _ \<Rightarrow> False)"

definition wf_request :: "op_request \<Rightarrow> bool" where
  "wf_request r \<longleftrightarrow>
     (rq_opType r = ''find'' \<and> - (2 ^ 31) \<le> rq_findBatch r \<and> rq_findBatch r < 2 ^ 31)
     \<or> (rq_opType r = ''aggregate'' \<and> (rq_pipeline r = GNil \<or> is_array (rq_pipeline r)))
     \<or> is_update (rq_opType r) \<or> is_delete (rq_opType r)
     \<or> (rq_opType r = ''insert'' \<and> rq_doc r \<noteq> GNil) \<or> rq_opType r = ''insertMany''"

lemma optional_simps [simp]:
  "docValue (optional b k v) j = (if b \<and> j = k then v else GNil)"
  "hasKey (optional b k v) j \<longleftrightarrow> b \<and> j = k"
  "wire_doc (optional b k v) = optional b k (wire v)"
  by (auto simp: optional_def)

lemma emptyDocIfNil_wire [simp]:
  "emptyDocIfNil (wire (emptyDocIfNil v)) = wire (emptyDocIfNil v)"
  by (simp add: emptyDocIfNil_def)

lemma is_array_wire: "is_array v \<Longrightarrow> \<exists>xs. wire v = GA xs"
  by (auto simp: is_array_def split: gval.splits)

text \<open>Decoding a recorded request rebuilds a request that is recorded the same way.\<close>

lemma decodeStandard_find:
  assumes "rq_opType r = ''find''" "- (2 ^ 31) \<le> rq_findBatch r" "rq_findBatch r < 2 ^ 31"
  shows "\<exists>r'. decodeStandard ''find'' ex (wire_doc (standardCommand r)) col = Inr r'
    \<and> rq_opType r' = ''find'' \<and> rq_col r' = col
    \<and> standardCommand r' = wire_doc (standardCommand r)"
  using assms
  by (cases "rq_findSkip r > 0")
     (auto simp: decodeStandard_def decodeFind_def standardCommand_def empty_request_def optional_def Let_def)

lemma decodeStandard_aggregate:
  assumes "rq_opType r = ''aggregate''" "rq_pipeline r = GNil \<or> is_array (rq_pipeline r)"
  shows "\<exists>r'. decodeStandard ''aggregate'' ex (wire_doc (standardCommand r)) col = Inr r'
    \<and> rq_opType r' = ''aggregate'' \<and> rq_col r' = col
    \<and> standardCommand r' = wire_doc (standardCommand r)"
proof -
  obtain xs where "wire (if rq_pipeline r = GNil then GA [] else rq_pipeline r) = GA xs"
    using assms(2) is_array_wire by (cases "rq_pipeline r = GNil") auto
  with assms(1) show ?thesis
    by (auto simp: decodeStandard_def standardCommand_def empty_request_def Let_def)
qed

lemma decodeStandard_rest:
  assumes "is_update (rq_opType r) \<or> is_delete (rq_opType r)
    \<or> (rq_opType r = ''insert'' \<and> rq_doc r \<noteq> GNil) \<or> rq_opType r = ''insertMany''"
  shows "\<exists>r'. decodeStandard (rq_opType r) ex (wire_doc (standardCommand r)) col = Inr r'
    \<and> rq_opType r' = rq_opType r \<and> rq_col r' = col
    \<and> wire_doc (standardCommand r') = wire_doc (standardCommand r)"
proof -
  consider "is_update (rq_opType r)" | "is_delete (rq_opType r)"
    | "rq_opType r = ''insert''" "rq_doc r \<noteq> GNil" | "rq_opType r = ''insertMany''"
    using assms by blast
  then show ?thesis
  proof cases
    case 1
    then show ?thesis
      by (elim is_updateE)
         (simp_all add: decodeStandard_def standardCommand_def update_args_def empty_request_def bool_of_def)
  next
    case 2
    then show ?thesis
      by (elim is_deleteE) (simp_all add: decodeStandard_def standardCommand_def empty_request_def)
  next
    case 3
    then show ?thesis by (simp add: decodeStandard_def standardCommand_def empty_request_def)
  next
    case 4
    then show ?thesis
      by (simp add: decodeStandard_def standardCommand_def empty_request_def docsValue_def comp_def)
  qed
qed

lemma standardCommand_roundtrip:
  assumes "wf_request r"
  shows "\<exists>r'. decodeStandard (rq_opType r) ex (wire_doc (standardCommand r)) col = Inr r'
    \<and> rq_opType r' = rq_opType r \<and> rq_col r' = col
    \<and> wire_doc (standardCommand r') = wire_doc (standardCommand r)"
proof -
  consider (find) "rq_opType r = ''find''" "- (2 ^ 31) \<le> rq_findBatch r" "rq_findBatch r < 2 ^ 31"
    | (agg) "rq_opType r = ''aggregate''" "rq_pipeline r = GNil \<or> is_array (rq_pipeline r)"
    | (rest) "is_update (rq_opType r) \<or> is_delete (rq_opType r)
        \<or> (rq_opType r = ''insert'' \<and> rq_doc r \<noteq> GNil) \<or> rq_opType r = ''insertMany''"
    using assms unfolding wf_request_def by blast
  then show ?thesis
  proof cases
    case find
    with decodeStandard_find [OF find, of ex col] show ?thesis by auto
  next
    case agg
    with decodeStandard_aggregate [OF agg, of ex col] show ?thesis by auto
  next
    case rest
    then show ?thesis by (rule decodeStandard_rest)
  qed
qed

subsection \<open>Fast finds\<close>

definition fastFindRecord :: "collection_ref \<Rightarrow> string \<Rightarrow> int list \<Rightarrow> int \<Rightarrow> document" where
  "fastFindRecord col patchKey ids batchSize =
     [(''find'', GStr (c_name col)),
      (''filter'', GDoc [(patchKey, GDoc [(''$in'', GTSlice (map GInt64 ids))])]),
      (''limit'', GInt batchSize)]"

fun int64_ids :: "gval list \<Rightarrow> decode_error + int list" where
  "int64_ids [] = Inr []"
| "int64_ids (v # vs) =
     (case v of GInt64 i \<Rightarrow> (case int64_ids vs of Inl e \<Rightarrow> Inl e | Inr is \<Rightarrow> Inr (i # is))
      | _ \<Rightarrow> Inl (malformed ''fast find id''))"

definition decodeFastFind :: "document \<Rightarrow> decode_error + (string \<times> int list \<times> int)" where
  "decodeFastFind cmd =
     (case docValue cmd ''filter'' of
        GDoc [(key, inner)] \<Rightarrow>
          (case inner of
             GDoc d \<Rightarrow>
               (case docValue d ''$in'' of
                  GA arr \<Rightarrow>
                    (case int64_ids arr of
                       Inl e \<Rightarrow> Inl e
                     | Inr ids \<Rightarrow>
                         (case intValue (docValue cmd ''limit'') of
                            None \<Rightarrow> Inl (missing ''fast find limit'')
                          | Some n \<Rightarrow> Inr (key, ids, n)))
                | _ \<Rightarrow> Inl (malformed ''fast find $in''))
           | _ \<Rightarrow> Inl (malformed ''fast find $in''))
      | _ \<Rightarrow> Inl (malformed ''fast find filter''))"

lemma int64_ids_map [simp]: "int64_ids (map GInt64 ids) = Inr ids"
  by (induction ids) auto

lemma fastFind_roundtrip:
  "decodeFastFind (wire_doc (fastFindRecord col k ids n)) = Inr (k, ids, n)"
  by (simp add: decodeFastFind_def fastFindRecord_def comp_def)

subsection \<open>Transactions\<close>

record tx_op =
  tx_opType :: string
  tx_col :: collection_ref
  tx_filter :: gval
  tx_update :: gval
  tx_upsert :: bool
  tx_doc :: gval
  tx_docs :: "gval list"

definition empty_tx :: "string \<Rightarrow> collection_ref \<Rightarrow> tx_op" where
  "empty_tx t col = \<lparr>tx_opType = t, tx_col = col, tx_filter = GNil, tx_update = GNil,
     tx_upsert = False, tx_doc = GNil, tx_docs = []\<rparr>"

definition tx_args :: "tx_op \<Rightarrow> document" where
  "tx_args t =
     (if tx_opType t = ''find'' \<or> is_delete (tx_opType t) then [(''filter'', emptyDocIfNil (tx_filter t))]
      else if is_update (tx_opType t) then update_args (tx_filter t) (tx_update t) (tx_upsert t)
      else if tx_opType t = ''insert'' then [(''document'', tx_doc t)]
      else if tx_opType t = ''insertMany'' then [(''documents'', GSlice (tx_docs t))]
      else [])"

definition txInnerCommand :: "string option \<Rightarrow> tx_op \<Rightarrow> gval" where
  "txInnerCommand db t =
     GDoc [(''op'', GStr (tx_opType t)), (''ns'', GStr (collectionNamespace db (tx_col t))),
           (''args'', GDoc (tx_args t))]"

definition str_of :: "gval \<Rightarrow> string" where
  "str_of v = (case v of GStr s \<Rightarrow> s | _ \<Rightarrow> [])"

definition doc_of :: "gval \<Rightarrow> document" where
  "doc_of v = (case v of GDoc d \<Rightarrow> d | _ \<Rightarrow> [])"

definition decodeTxOp :: "replay_collections \<Rightarrow> document \<Rightarrow> decode_error + tx_op" where
  "decodeTxOp cols d =
     (let t = str_of (docValue d ''op''); args = doc_of (docValue d ''args'');
          op = empty_tx t (lookup_ns cols (str_of (docValue d ''ns''))) in
      if t = ''find'' \<or> is_delete t then Inr (op\<lparr>tx_filter := docValue args ''filter''\<rparr>)
      else if is_update t then
        Inr (op\<lparr>tx_filter := docValue args ''filter'', tx_update := docValue args ''update'',
               tx_upsert := bool_of (docValue args ''upsert'')\<rparr>)
      else if t = ''insert'' then Inr (op\<lparr>tx_doc := docValue args ''document''\<rparr>)
      else if t = ''insertMany'' then
        (case docsValue (docValue args ''documents'') of Inl e \<Rightarrow> Inl e | Inr ds \<Rightarrow> Inr (op\<lparr>tx_docs := ds\<rparr>))
      else Inl (unsupported t))"

fun decodeTxList :: "replay_collections \<Rightarrow> gval list \<Rightarrow> decode_error + tx_op list" where
  "decodeTxList cols [] = Inr []"
| "decodeTxList cols (x # xs) =
     (case x of
        GDoc d \<Rightarrow>
          (case decodeTxOp cols d of
             Inl e \<Rightarrow> Inl e
           | Inr op \<Rightarrow> (case decodeTxList cols xs of Inl e \<Rightarrow> Inl e | Inr ops \<Rightarrow> Inr (op # ops)))
      | _ \<Rightarrow> Inl (malformed ''transaction op''))"

definition decodeTxOps :: "document \<Rightarrow> replay_collections \<Rightarrow> decode_error + tx_op list" where
  "decodeTxOps cmd cols =
     (case docValue cmd ''ops'' of GA xs \<Rightarrow> decodeTxList cols xs | _ \<Rightarrow> Inl (missing ''transaction ops''))"

definition txCommand :: "string option \<Rightarrow> tx_op list \<Rightarrow> document" where
  "txCommand db ops = [(''ops'', GA (map (txInnerCommand db) ops))]"

definition wf_tx :: "string option \<Rightarrow> tx_op \<Rightarrow> bool" where
  "wf_tx db t \<longleftrightarrow>
     (tx_opType t = ''find'' \<or> is_delete (tx_opType t) \<or> is_update (tx_opType t)
      \<or> tx_opType t = ''insert'' \<or> tx_opType t = ''insertMany'')
     \<and> plain_db (takeWhile (\<lambda>c. c \<noteq> CHR ''.'') (collectionNamespace db (tx_col t)))"

lemma txInner_roundtrip:
  assumes "wf_tx db t"
  shows "\<exists>d t'. wire (txInnerCommand db t) = GDoc d
    \<and> decodeTxOp (newReplayCollections db cs) d = Inr t'
    \<and> wire (txInnerCommand db t') = wire (txInnerCommand db t)"
proof -
  note ns = lookup_ns_same [of db "tx_col t" cs]
  have pd: "plain_db (takeWhile (\<lambda>c. c \<noteq> CHR ''.'') (collectionNamespace db (tx_col t)))"
    and ty: "tx_opType t = ''find'' \<or> is_delete (tx_opType t) \<or> is_update (tx_opType t)
      \<or> tx_opType t = ''insert'' \<or> tx_opType t = ''insertMany''"
    using assms by (simp_all add: wf_tx_def)
  from ty ns [OF pd] show ?thesis
    by (elim disjE is_deleteE is_updateE)
       (simp_all add: txInnerCommand_def decodeTxOp_def str_of_def doc_of_def tx_args_def empty_tx_def
         update_args_def docsValue_def bool_of_def comp_def)
qed

lemma decodeTxList_roundtrip:
  "list_all (wf_tx db) ops \<Longrightarrow>
     \<exists>ops'. decodeTxList (newReplayCollections db cs) (map (\<lambda>t. wire (txInnerCommand db t)) ops) = Inr ops'
       \<and> map (\<lambda>t. wire (txInnerCommand db t)) ops' = map (\<lambda>t. wire (txInnerCommand db t)) ops"
proof (induction ops)
  case (Cons t ops)
  from Cons.prems txInner_roundtrip [of db t cs] obtain d t'
    where t: "wire (txInnerCommand db t) = GDoc d"
      "decodeTxOp (newReplayCollections db cs) d = Inr t'"
      "wire (txInnerCommand db t') = wire (txInnerCommand db t)" by auto
  from Cons obtain ops' where "decodeTxList (newReplayCollections db cs) (map (\<lambda>t. wire (txInnerCommand db t)) ops) = Inr ops'"
    "map (\<lambda>t. wire (txInnerCommand db t)) ops' = map (\<lambda>t. wire (txInnerCommand db t)) ops" by auto
  with t show ?case by simp
qed simp

lemma txCommand_roundtrip:
  assumes "list_all (wf_tx db) ops"
  shows "\<exists>ops'. decodeTxOps (wire_doc (txCommand db ops)) (newReplayCollections db cs) = Inr ops'
    \<and> wire_doc (txCommand db ops') = wire_doc (txCommand db ops)"
  using decodeTxList_roundtrip [OF assms, of cs]
  by (auto simp: decodeTxOps_def txCommand_def comp_def)

subsection \<open>Replaying one operation\<close>

text \<open>What \<open>executeReplayOp\<close> hands to the execute functions, and the command it reports as sent.\<close>

datatype replay_action =
    Send_fast_insert document
  | Send_fast_find collection_ref string "int list" int
  | Send_tx "tx_op list"
  | Send_standard op_request

definition replay_action :: "replay_collections \<Rightarrow> string \<Rightarrow> string \<Rightarrow> string \<Rightarrow> bool \<Rightarrow> document \<Rightarrow>
    decode_error + replay_action" where
  "replay_action cols path op ns existing cmd =
     (let col = lookup_ns cols ns in
      if path = PathFastInsertBatch then Inr (Send_fast_insert cmd)
      else if path = PathFastFind then
        (case decodeFastFind cmd of Inl e \<Rightarrow> Inl e | Inr (k, ids, n) \<Rightarrow> Inr (Send_fast_find col k ids n))
      else if op = ''transaction'' then
        (case decodeTxOps cmd cols of Inl e \<Rightarrow> Inl e | Inr ops \<Rightarrow> Inr (Send_tx ops))
      else (case decodeStandard op existing cmd col of Inl e \<Rightarrow> Inl e | Inr r \<Rightarrow> Inr (Send_standard r)))"

fun sent_command :: "string option \<Rightarrow> replay_action \<Rightarrow> document" where
  "sent_command db (Send_fast_insert cmd) = cmd"
| "sent_command db (Send_fast_find col k ids n) = fastFindRecord col k ids n"
| "sent_command db (Send_tx ops) = txCommand db ops"
| "sent_command db (Send_standard r) = standardCommand r"

definition executeReplayOp :: "(string \<Rightarrow> decode_error + document) \<Rightarrow> (document \<Rightarrow> string) \<Rightarrow> string option \<Rightarrow>
    replay_collections \<Rightarrow> op_line \<Rightarrow> decode_error + replay_action \<times> string" where
  "executeReplayOp dec enc db cols op =
     (case dec (ol_cmd op) of
        Inl e \<Rightarrow> Inl e
      | Inr cmd \<Rightarrow>
         (case replay_action cols (ol_path op) (ol_op op) (ol_ns op) (ol_existing op) cmd of
            Inl e \<Rightarrow> Inl e
          | Inr a \<Rightarrow> Inr (a, enc (sent_command db a))))"

text \<open>What a worker records for an operation it sent: its path, operation and command.\<close>

datatype recorded =
    Rec_fast_insert document
  | Rec_fast_find collection_ref string "int list" int
  | Rec_tx "tx_op list"
  | Rec_standard op_request

fun recorded_path :: "recorded \<Rightarrow> string" where
  "recorded_path (Rec_fast_insert _) = PathFastInsertBatch"
| "recorded_path (Rec_fast_find _ _ _ _) = PathFastFind"
| "recorded_path _ = []"

fun recorded_op :: "recorded \<Rightarrow> string" where
  "recorded_op (Rec_fast_insert _) = ''insertMany''"
| "recorded_op (Rec_fast_find _ _ _ _) = ''find''"
| "recorded_op (Rec_tx _) = ''transaction''"
| "recorded_op (Rec_standard r) = rq_opType r"

fun recorded_command :: "string option \<Rightarrow> recorded \<Rightarrow> document" where
  "recorded_command db (Rec_fast_insert cmd) = cmd"
| "recorded_command db (Rec_fast_find col k ids n) = fastFindRecord col k ids n"
| "recorded_command db (Rec_tx ops) = txCommand db ops"
| "recorded_command db (Rec_standard r) = standardCommand r"

fun wf_recorded :: "string option \<Rightarrow> replay_collections \<Rightarrow> string \<Rightarrow> recorded \<Rightarrow> bool" where
  "wf_recorded db cols ns (Rec_fast_insert _) = True"
| "wf_recorded db cols ns (Rec_fast_find col _ _ _) = (c_name (lookup_ns cols ns) = c_name col)"
| "wf_recorded db cols ns (Rec_tx ops) = list_all (wf_tx db) ops"
| "wf_recorded db cols ns (Rec_standard r) = wf_request r"

lemma not_fast [simp]: "[] \<noteq> PathFastInsertBatch" "[] \<noteq> PathFastFind" "PathFastFind \<noteq> PathFastInsertBatch"
  by (simp_all add: PathFastInsertBatch_def PathFastFind_def)

lemma wf_request_not_tx: "wf_request r \<Longrightarrow> rq_opType r \<noteq> ''transaction''"
  by (auto simp: wf_request_def is_update_def is_delete_def)

lemma replay_action_recorded:
  assumes "wf_recorded db (newReplayCollections db cs) ns r"
  shows "\<exists>a. replay_action (newReplayCollections db cs) (recorded_path r) (recorded_op r) ns ex
      (wire_doc (recorded_command db r)) = Inr a
    \<and> wire_doc (sent_command db a) = wire_doc (recorded_command db r)"
proof (cases r)
  case (Rec_fast_insert cmd)
  then show ?thesis by (simp add: replay_action_def)
next
  case (Rec_fast_find col k ids n)
  with assms show ?thesis
    by (simp add: replay_action_def fastFind_roundtrip Let_def) (simp add: fastFindRecord_def)
next
  case (Rec_tx ops)
  with assms txCommand_roundtrip [of db ops cs] show ?thesis
    by (auto simp: replay_action_def Let_def)
next
  case (Rec_standard q)
  with assms standardCommand_roundtrip [of q ex "lookup_ns (newReplayCollections db cs) ns"]
  show ?thesis by (auto simp: replay_action_def Let_def dest: wf_request_not_tx)
qed

text \<open>C4: replaying a recorded operation sends the command that was recorded. For every kind of
operation a run records (fast insert and fast find batches, transactions, and the eight standard
operations, with any filter, projection, sort, skip, hint or documents), decoding the recorded line
succeeds, and the command of the request it rebuilds has the same wire form, so its encoding enters
the replay's commands hash with the bytes of the recording. \<open>dec\<close> and \<open>enc\<close> are the driver's
Extended JSON decoder and encoder: decoding an encoded command yields its wire form, and the encoding
depends on the wire form only.\<close>

theorem replay_sends_recorded_command:
  assumes dec: "dec (ol_cmd op) = Inr (wire_doc (recorded_command db r))"
    and enc: "\<And>c d. wire_doc c = wire_doc d \<Longrightarrow> enc c = enc d"
    and wf: "wf_recorded db (newReplayCollections db cs) (ol_ns op) r"
    and op: "ol_path op = recorded_path r" "ol_op op = recorded_op r"
      "ol_cmd op = enc (recorded_command db r)"
  shows "\<exists>a. executeReplayOp dec enc db (newReplayCollections db cs) op = Inr (a, ol_cmd op)"
proof -
  obtain a where "replay_action (newReplayCollections db cs) (recorded_path r) (recorded_op r) (ol_ns op)
      (ol_existing op) (wire_doc (recorded_command db r)) = Inr a"
    and "wire_doc (sent_command db a) = wire_doc (recorded_command db r)"
    using replay_action_recorded [OF wf, of "ol_existing op"] by blast
  moreover from this(2) have "enc (sent_command db a) = ol_cmd op"
    unfolding op(3) by (rule enc)
  ultimately show ?thesis by (simp add: executeReplayOp_def dec op(1,2))
qed

definition sample_tx :: "tx_op list" where
  "sample_tx =
     [(empty_tx ''updateOne'' \<lparr>c_db = ''shop'', c_name = ''orders''\<rparr>)
        \<lparr>tx_filter := GMap [(''b'', GInt 7), (''a'', GStr ''x'')], tx_update := GNil, tx_upsert := True\<rparr>,
      (empty_tx ''insertMany'' \<lparr>c_db = ''shop'', c_name = ''items''\<rparr>)\<lparr>tx_docs := [GMap [(''_id'', GInt 1)]]\<rparr>]"

definition sample_tx_line :: op_line where
  "sample_tx_line = \<lparr>ol_seq = 1, ol_worker = 1, ol_worker_seq = 1, ol_offset_us = 0, ol_iteration = 1,
     ol_ns = ''shop.(multiple)'', ol_op = ''transaction'', ol_path = [], ol_ok = True, ol_existing = False,
     ol_query = None, ol_shape = None, ol_cmd = ''tx'', ol_outcome = None, ol_flags = []\<rparr>"

lemma sample_tx_wf: "list_all (wf_tx None) sample_tx"
  by (simp add: sample_tx_def empty_tx_def wf_tx_def collectionNamespace_def namespace_of_def plain_db_def
      trim_space_def is_space_def)

theorem replay_sends_recorded_command_witness:
  "\<exists>a. executeReplayOp (\<lambda>_. Inr (wire_doc (txCommand None sample_tx)))
      (\<lambda>c. if wire_doc c = wire_doc (txCommand None sample_tx) then ''tx'' else [])
      None (newReplayCollections None []) sample_tx_line = Inr (a, ''tx'')"
  using replay_sends_recorded_command [of "\<lambda>_. Inr (wire_doc (txCommand None sample_tx))" sample_tx_line
      None "Rec_tx sample_tx" "\<lambda>c. if wire_doc c = wire_doc (txCommand None sample_tx) then ''tx'' else []" "[]"]
  by (simp add: sample_tx_wf sample_tx_line_def)

subsection \<open>Reads and writes\<close>

fun contains :: "string \<Rightarrow> string \<Rightarrow> bool" where
  "contains sub [] = (sub = [])"
| "contains sub (c # s) = (prefix sub (c # s) \<or> contains sub s)"

definition writing_stage :: "gval \<Rightarrow> bool" where
  "writing_stage st = (case st of GDoc d \<Rightarrow> hasKey d ''$out'' \<or> hasKey d ''$merge'' | _ \<Rightarrow> False)"

definition array_of :: "gval \<Rightarrow> gval list" where
  "array_of v = (case v of GA xs \<Rightarrow> xs | _ \<Rightarrow> [])"

definition quoted :: "string \<Rightarrow> string" where
  "quoted s = CHR 0x22 # s @ [CHR 0x22]"

definition isReplayWrite :: "(string \<Rightarrow> decode_error + document) \<Rightarrow> op_line \<Rightarrow> bool" where
  "isReplayWrite dec op =
     (if ol_path op = PathFastInsertBatch then True
      else if ol_op op = ''find'' then False
      else if ol_op op = ''aggregate'' then
        (if \<not> contains (quoted ''$out'') (ol_cmd op) \<and> \<not> contains (quoted ''$merge'') (ol_cmd op) then False
         else (case dec (ol_cmd op) of Inl _ \<Rightarrow> True
               | Inr cmd \<Rightarrow> list_ex writing_stage (array_of (docValue cmd ''pipeline''))))
      else if ol_op op = ''transaction'' then
        (case dec (ol_cmd op) of Inl _ \<Rightarrow> True
         | Inr cmd \<Rightarrow> list_ex (\<lambda>x. str_of (docValue (doc_of x) ''op'') \<noteq> ''find'') (array_of (docValue cmd ''ops'')))
      else True)"

text \<open>Whether an action changes data on the server.\<close>

fun action_writes :: "replay_action \<Rightarrow> bool" where
  "action_writes (Send_fast_insert _) = True"
| "action_writes (Send_fast_find _ _ _ _) = False"
| "action_writes (Send_tx ops) = list_ex (\<lambda>t. tx_opType t \<noteq> ''find'') ops"
| "action_writes (Send_standard r) =
     (\<not> (rq_opType r = ''find''
         \<or> rq_opType r = ''aggregate'' \<and> \<not> list_ex writing_stage (array_of (rq_pipeline r))))"

lemma doc_of_GDoc [simp]: "doc_of (GDoc d) = d"
  by (simp add: doc_of_def)

lemma decodeTxOp_type:
  "decodeTxOp cols d = Inr t \<Longrightarrow> tx_opType t = str_of (docValue d ''op'')"
  by (auto simp: decodeTxOp_def Let_def empty_tx_def split: if_splits sum.splits)

lemma decodeTxList_types:
  "decodeTxList cols xs = Inr ops \<Longrightarrow> list_ex (\<lambda>t. tx_opType t \<noteq> ''find'') ops
     \<longleftrightarrow> list_ex (\<lambda>x. str_of (docValue (doc_of x) ''op'') \<noteq> ''find'') xs"
proof (induction xs arbitrary: ops)
  case (Cons x xs)
  then show ?case by (cases x) (auto simp: decodeTxOp_type split: sum.splits)
qed simp

lemma decodeStandard_type:
  "decodeStandard t ex cmd col = Inr r \<Longrightarrow> rq_opType r = t"
  by (auto simp: decodeStandard_def decodeFind_def empty_request_def Let_def docsValue_def
      split: if_splits option.splits sum.splits gval.splits)

lemma decodeStandard_pipeline:
  "decodeStandard ''aggregate'' ex cmd col = Inr r \<Longrightarrow> rq_pipeline r = docValue cmd ''pipeline''"
  by (auto simp: decodeStandard_def empty_request_def Let_def split: gval.splits)


definition sample_agg :: op_line where
  "sample_agg = sample_tx_line\<lparr>ol_op := ''aggregate'', ol_ns := ''d.c'', ol_cmd := ''agg''\<rparr>"


end
