(* ===== verification/Replay.thy ===== *)
theory Replay
  imports Commands Reader
begin

text \<open>
  The replay of a recording (\<open>runWorkloadReplay\<close>, \<open>internal/mongo/workload_replay.go\<close>) as a step
  relation: the dispatcher reading the stream, a bounded queue and one goroutine per worker, the
  \<open>pending\<close> count that separates the iterations, cancellation, and the final status.

  A step is one action of one goroutine. The scheduler, the results of the operations, the user's
  cancellation and panics are not determined, so the properties hold for every interleaving.
\<close>

definition replayQueueSize :: nat where "replayQueueSize = 1024"

record replay_cfg =
  rc_workers :: int
  rc_skips :: "op_line \<Rightarrow> bool"          \<comment> \<open>\<open>readsOnly \<and> isReplayWrite op\<close>\<close>
  rc_ops :: "op_line list"               \<comment> \<open>the operations of the recording, in file order\<close>
  rc_stream_err :: "string option"       \<comment> \<open>what reading the file ends with\<close>

record replay_state =
  rp_todo :: "op_line list"
  rp_queue :: "int \<Rightarrow> op_line list"
  rp_busy :: "int \<Rightarrow> op_line option"
  rp_done :: "int \<Rightarrow> op_line list"       \<comment> \<open>sent and hashed, in order\<close>
  rp_dead :: "int \<Rightarrow> bool"               \<comment> \<open>panicked: it only drains its queue\<close>
  rp_lost :: "int \<Rightarrow> bool"               \<comment> \<open>dropped an operation (ghost)\<close>
  rp_pending :: nat
  rp_iteration :: int
  rp_skipped :: nat
  rp_replayed :: nat
  rp_failed :: nat
  rp_cancel :: bool                      \<comment> \<open>\<open>runCtx.Err() \<noteq> nil\<close>\<close>
  rp_user :: bool                        \<comment> \<open>\<open>ctx.Err() \<noteq> nil\<close>\<close>
  rp_execErr :: "string option"
  rp_panicErr :: "string option"
  rp_streamErr :: "string option"
  rp_closed :: bool                      \<comment> \<open>\<open>Stream\<close> returned and the queues are closed\<close>

definition replay_init :: "replay_cfg \<Rightarrow> replay_state" where
  "replay_init c = \<lparr>rp_todo = rc_ops c, rp_queue = (\<lambda>_. []), rp_busy = (\<lambda>_. None), rp_done = (\<lambda>_. []),
     rp_dead = (\<lambda>_. False), rp_lost = (\<lambda>_. False), rp_pending = 0, rp_iteration = 0, rp_skipped = 0,
     rp_replayed = 0, rp_failed = 0, rp_cancel = False, rp_user = False, rp_execErr = None,
     rp_panicErr = None, rp_streamErr = None, rp_closed = False\<rparr>"

definition first_err :: "string option \<Rightarrow> string \<Rightarrow> string option" where
  "first_err e m = (case e of None \<Rightarrow> Some m | Some _ \<Rightarrow> e)"

definition names_worker :: "op_line \<Rightarrow> int \<Rightarrow> string" where
  "names_worker op w = ''operation '' @ itoa (int (ol_seq op)) @ '' names worker '' @ itoa (ol_worker op)
     @ '' of '' @ itoa w"

definition exec_message :: "int \<Rightarrow> op_line \<Rightarrow> string \<Rightarrow> string" where
  "exec_message w op e = ''worker '' @ itoa w @ '' operation '' @ itoa (int (ol_worker_seq op)) @ '': '' @ e"

text \<open>The dispatcher may hand out \<open>op\<close>: it belongs to the current iteration, or nothing is pending.\<close>

definition may_dispatch :: "replay_state \<Rightarrow> op_line \<Rightarrow> bool" where
  "may_dispatch s op \<longleftrightarrow> OpIteration op = rp_iteration s \<or> rp_pending s = 0"

definition enqueue :: "op_line \<Rightarrow> op_line list \<Rightarrow> replay_state \<Rightarrow> replay_state" where
  "enqueue op rest s = s\<lparr>rp_todo := rest, rp_iteration := OpIteration op, rp_pending := Suc (rp_pending s),
     rp_queue := (rp_queue s)(ol_worker op := rp_queue s (ol_worker op) @ [op])\<rparr>"

definition finish_op :: "int \<Rightarrow> op_line \<Rightarrow> bool \<Rightarrow> replay_state \<Rightarrow> replay_state" where
  "finish_op w op ok s = s\<lparr>rp_busy := (rp_busy s)(w := None), rp_done := (rp_done s)(w := rp_done s w @ [op]),
     rp_replayed := Suc (rp_replayed s), rp_failed := (if ok then rp_failed s else Suc (rp_failed s)),
     rp_pending := rp_pending s - 1\<rparr>"

definition drop_op :: "int \<Rightarrow> replay_state \<Rightarrow> replay_state" where
  "drop_op w s = s\<lparr>rp_busy := (rp_busy s)(w := None), rp_lost := (rp_lost s)(w := True),
     rp_pending := rp_pending s - 1\<rparr>"

definition drop_queued :: "int \<Rightarrow> op_line list \<Rightarrow> replay_state \<Rightarrow> replay_state" where
  "drop_queued w q s = s\<lparr>rp_queue := (rp_queue s)(w := q), rp_lost := (rp_lost s)(w := True),
     rp_pending := rp_pending s - 1\<rparr>"

inductive replay_step :: "replay_cfg \<Rightarrow> replay_state \<Rightarrow> replay_state \<Rightarrow> bool" for c where
  bad_worker: "\<not> rp_closed s \<Longrightarrow> rp_todo s = op # rest \<Longrightarrow> ol_worker op > rc_workers c \<Longrightarrow>
    replay_step c s (s\<lparr>rp_streamErr := Some (names_worker op (rc_workers c)), rp_closed := True\<rparr>)"
| skip_write: "\<not> rp_closed s \<Longrightarrow> rp_todo s = op # rest \<Longrightarrow> ol_worker op \<le> rc_workers c \<Longrightarrow> rc_skips c op \<Longrightarrow>
    replay_step c s (s\<lparr>rp_todo := rest, rp_skipped := Suc (rp_skipped s)\<rparr>)"
| dispatch: "\<not> rp_closed s \<Longrightarrow> rp_todo s = op # rest \<Longrightarrow> ol_worker op \<le> rc_workers c \<Longrightarrow> \<not> rc_skips c op \<Longrightarrow>
    may_dispatch s op \<Longrightarrow> length (rp_queue s (ol_worker op)) < replayQueueSize \<Longrightarrow>
    replay_step c s (enqueue op rest s)"
| stream_cancelled: "\<not> rp_closed s \<Longrightarrow> rp_cancel s \<Longrightarrow>
    replay_step c s (s\<lparr>rp_streamErr := Some ''context canceled'', rp_closed := True\<rparr>)"
| stream_end: "\<not> rp_closed s \<Longrightarrow> rp_todo s = [] \<Longrightarrow>
    replay_step c s (s\<lparr>rp_streamErr := rc_stream_err c, rp_closed := True\<rparr>)"
| take: "\<not> rp_dead s w \<Longrightarrow> rp_busy s w = None \<Longrightarrow> rp_queue s w = op # q \<Longrightarrow> \<not> rp_cancel s \<Longrightarrow>
    replay_step c s (s\<lparr>rp_queue := (rp_queue s)(w := q), rp_busy := (rp_busy s)(w := Some op)\<rparr>)"
| take_cancelled: "\<not> rp_dead s w \<Longrightarrow> rp_busy s w = None \<Longrightarrow> rp_queue s w = op # q \<Longrightarrow> rp_cancel s \<Longrightarrow>
    replay_step c s (drop_queued w q s)"
| wait_cancelled: "rp_busy s w = Some op \<Longrightarrow> rp_cancel s \<Longrightarrow> replay_step c s (drop_op w s)"
| executed: "rp_busy s w = Some op \<Longrightarrow> replay_step c s (finish_op w op ok s)"
| exec_error: "rp_busy s w = Some op \<Longrightarrow>
    replay_step c s ((drop_op w s)\<lparr>rp_execErr := first_err (rp_execErr s) (exec_message w op e),
      rp_failed := Suc (rp_failed s), rp_cancel := True\<rparr>)"
| panic: "rp_busy s w = Some op \<Longrightarrow>
    replay_step c s ((drop_op w s)\<lparr>rp_panicErr := first_err (rp_panicErr s) e,
      rp_dead := (rp_dead s)(w := True), rp_cancel := True\<rparr>)"
| drain: "rp_dead s w \<Longrightarrow> rp_queue s w = op # q \<Longrightarrow> replay_step c s (drop_queued w q s)"
| user_cancel: "\<not> rp_user s \<Longrightarrow> replay_step c s (s\<lparr>rp_user := True, rp_cancel := True\<rparr>)"

inductive replay_reachable :: "replay_cfg \<Rightarrow> replay_state \<Rightarrow> bool" for c where
  replay_start: "replay_reachable c (replay_init c)"
| replay_next: "replay_reachable c s \<Longrightarrow> replay_step c s t \<Longrightarrow> replay_reachable c t"

text \<open>Everything is over: the queues are closed and drained, and no worker is busy.\<close>

definition replay_final :: "replay_state \<Rightarrow> bool" where
  "replay_final s \<longleftrightarrow> rp_closed s \<and> (\<forall>w. rp_queue s w = [] \<and> rp_busy s w = None)"

subsection \<open>The invariant\<close>

definition in_flight :: "replay_state \<Rightarrow> int \<Rightarrow> op_line list" where
  "in_flight s w = (case rp_busy s w of None \<Rightarrow> [] | Some op \<Rightarrow> [op]) @ rp_queue s w"

lemma in_flight_idle: "rp_busy s w = None \<Longrightarrow> in_flight s w = rp_queue s w"
  and in_flight_busy: "rp_busy s w = Some op \<Longrightarrow> in_flight s w = op # rp_queue s w"
  by (simp_all add: in_flight_def)

lemma in_flight_upd [simp]:
  "in_flight (s\<lparr>rp_todo := x0\<rparr>) w = in_flight s w"
  "in_flight (s\<lparr>rp_skipped := x1\<rparr>) w = in_flight s w"
  "in_flight (s\<lparr>rp_streamErr := x2\<rparr>) w = in_flight s w"
  "in_flight (s\<lparr>rp_closed := x3\<rparr>) w = in_flight s w"
  "in_flight (s\<lparr>rp_user := x4\<rparr>) w = in_flight s w"
  "in_flight (s\<lparr>rp_cancel := x5\<rparr>) w = in_flight s w"
  "in_flight (s\<lparr>rp_pending := x6\<rparr>) w = in_flight s w"
  "in_flight (s\<lparr>rp_iteration := x7\<rparr>) w = in_flight s w"
  "in_flight (s\<lparr>rp_failed := x8\<rparr>) w = in_flight s w"
  "in_flight (s\<lparr>rp_replayed := x9\<rparr>) w = in_flight s w"
  "in_flight (s\<lparr>rp_done := x10\<rparr>) w = in_flight s w"
  "in_flight (s\<lparr>rp_dead := x11\<rparr>) w = in_flight s w"
  "in_flight (s\<lparr>rp_lost := x12\<rparr>) w = in_flight s w"
  "in_flight (s\<lparr>rp_execErr := x13\<rparr>) w = in_flight s w"
  "in_flight (s\<lparr>rp_panicErr := x14\<rparr>) w = in_flight s w"
  by (simp_all add: in_flight_def)

lemma in_flight_cong: "rp_busy t v = rp_busy s w \<Longrightarrow> rp_queue t v = rp_queue s w \<Longrightarrow> in_flight t v = in_flight s w"
  by (simp add: in_flight_def)

text \<open>What worker \<open>w\<close> has to send: its operations that are not skipped, in file order.\<close>

definition plan :: "replay_cfg \<Rightarrow> int \<Rightarrow> op_line list" where
  "plan c w = filter (\<lambda>op. ol_worker op = w \<and> \<not> rc_skips c op) (rc_ops c)"

definition replay_wf :: "replay_cfg \<Rightarrow> bool" where
  "replay_wf c \<longleftrightarrow> 1 \<le> rc_workers c \<and> list_all (\<lambda>op. 1 \<le> ol_worker op) (rc_ops c)"

definition inv_range :: "replay_cfg \<Rightarrow> replay_state \<Rightarrow> bool" where
  "inv_range c s \<longleftrightarrow> suffix (rp_todo s) (rc_ops c) \<and>
     (\<forall>w. w \<notin> {1..rc_workers c} \<longrightarrow> rp_queue s w = [] \<and> rp_busy s w = None \<and> rp_done s w = [])
     \<and> (\<forall>w. length (rp_queue s w) \<le> replayQueueSize)"

definition inv_pending :: "replay_cfg \<Rightarrow> replay_state \<Rightarrow> bool" where
  "inv_pending c s \<longleftrightarrow> rp_pending s = (\<Sum>w = 1..rc_workers c. length (in_flight s w))
     \<and> rp_replayed s = (\<Sum>w = 1..rc_workers c. length (rp_done s w))"

definition inv_iteration :: "replay_state \<Rightarrow> bool" where
  "inv_iteration s \<longleftrightarrow> (\<forall>w op. op \<in> set (in_flight s w) \<longrightarrow> OpIteration op = rp_iteration s)"

definition inv_plan :: "replay_cfg \<Rightarrow> replay_state \<Rightarrow> bool" where
  "inv_plan c s \<longleftrightarrow>
     (\<forall>w. rp_dead s w \<longrightarrow> rp_lost s w) \<and>
     (\<forall>w. rp_lost s w \<longrightarrow> rp_cancel s \<and> rp_busy s w = None \<and> strict_prefix (rp_done s w) (plan c w)) \<and>
     (\<forall>w. \<not> rp_lost s w \<longrightarrow> rp_done s w @ in_flight s w
        @ filter (\<lambda>op. ol_worker op = w \<and> \<not> rc_skips c op) (rp_todo s) = plan c w)"

text \<open>The stream is read in order, and an operation of a worker that does not exist ends it.\<close>

definition inv_consumed :: "replay_cfg \<Rightarrow> replay_state \<Rightarrow> bool" where
  "inv_consumed c s \<longleftrightarrow> (\<exists>pre. rc_ops c = pre @ rp_todo s \<and> list_all (\<lambda>op. ol_worker op \<le> rc_workers c) pre)"

definition inv_counts :: "replay_cfg \<Rightarrow> replay_state \<Rightarrow> bool" where
  "inv_counts c s \<longleftrightarrow>
     rp_skipped s + length (filter (rc_skips c) (rp_todo s)) = length (filter (rc_skips c) (rc_ops c)) \<and>
     (rp_cancel s \<longrightarrow> rp_user s \<or> rp_execErr s \<noteq> None \<or> rp_panicErr s \<noteq> None) \<and>
     (rp_closed s \<longrightarrow> rp_streamErr s = None \<longrightarrow> rp_todo s = [] \<and> rc_stream_err c = None)"

lemmas replay_ops = enqueue_def finish_op_def drop_op_def drop_queued_def

lemma first_err_ne [simp]: "first_err e m \<noteq> None"
  by (cases e) (simp_all add: first_err_def)

lemma inv_range_step:
  assumes "replay_wf c" and "inv_range c s" and "replay_step c s t"
  shows "inv_range c t"
proof -
  have op: "1 \<le> ol_worker op" if "rp_todo s = op # rest" for op rest
    using assms(1,2) that by (auto simp: replay_wf_def inv_range_def list_all_iff dest: set_mono_suffix)
  have suf: "suffix rest (rc_ops c)" if "rp_todo s = op # rest" for op rest
    using assms(2) that by (auto simp: inv_range_def suffix_def)
  from assms(2) have rng: "\<And>w. w \<notin> {1..rc_workers c} \<Longrightarrow> rp_queue s w = [] \<and> rp_busy s w = None \<and> rp_done s w = []"
    and len: "\<And>w. length (rp_queue s w) \<le> replayQueueSize" and suf0: "suffix (rp_todo s) (rc_ops c)"
    by (auto simp: inv_range_def)
  from assms(3) show ?thesis
  proof cases
    case (dispatch op rest)
    with op [OF dispatch(3)] rng len suf [OF dispatch(3)] show ?thesis
      by (simp add: inv_range_def enqueue_def)
  next
    case (take w op q)
    with rng [of w] rng len [of w] len suf0 show ?thesis
      by (cases "w \<in> {1..rc_workers c}") (simp_all add: inv_range_def)
  next
    case (take_cancelled w op q)
    with rng [of w] rng len [of w] len suf0 show ?thesis
      by (cases "w \<in> {1..rc_workers c}") (simp_all add: inv_range_def drop_queued_def)
  next
    case (drain w op q)
    with rng [of w] rng len [of w] len suf0 show ?thesis
      by (cases "w \<in> {1..rc_workers c}") (simp_all add: inv_range_def drop_queued_def)
  next
    case (executed w op ok)
    with rng [of w] rng len suf0 show ?thesis
      by (cases "w \<in> {1..rc_workers c}") (simp_all add: inv_range_def finish_op_def)
  qed (use rng len suf suf0 in \<open>simp_all add: inv_range_def drop_op_def\<close>)
qed

lemma sum_at:
  fixes f :: "int \<Rightarrow> nat"
  assumes "w \<in> {1..n}"
  shows "(\<Sum>v = 1..n. f v) = f w + (\<Sum>v \<in> {1..n} - {w}. f v)"
  using assms by (simp add: sum.remove)

lemma sum_except:
  "(\<And>v. v \<noteq> w \<Longrightarrow> f v = g v) \<Longrightarrow> (\<Sum>v \<in> A - {w}. f v) = (\<Sum>v \<in> A - {w}. g v :: nat)"
  by (rule sum.cong) auto

text \<open>Two sums that differ at one worker.\<close>

lemma sum_change:
  fixes f g :: "int \<Rightarrow> nat"
  assumes "w \<in> {1..n}" and "\<And>v. v \<noteq> w \<Longrightarrow> f v = g v"
  shows "(\<Sum>v = 1..n. f v) + g w = (\<Sum>v = 1..n. g v) + f w"
  using sum_at [OF assms(1), of f] sum_at [OF assms(1), of g] sum_except [of w f g "{1..n}"] assms(2)
  by simp

lemma in_range:
  assumes "inv_range c s" and "in_flight s w \<noteq> []"
  shows "w \<in> {1..rc_workers c}"
  using assms by (auto simp: inv_range_def in_flight_def split: option.splits)

text \<open>One operation less in flight, at worker \<open>w\<close>.\<close>

lemma flight_less:
  assumes rng: "inv_range c s" and "in_flight s w = op # in_flight t w"
    and "\<And>v. v \<noteq> w \<Longrightarrow> in_flight t v = in_flight s v"
  shows "(\<Sum>v = 1..rc_workers c. length (in_flight s v)) = Suc (\<Sum>v = 1..rc_workers c. length (in_flight t v))"
proof -
  have "w \<in> {1..rc_workers c}" using assms(2) by (intro in_range [OF rng]) simp
  then have "(\<Sum>v = 1..rc_workers c. length (in_flight s v)) + length (in_flight t w)
      = (\<Sum>v = 1..rc_workers c. length (in_flight t v)) + length (in_flight s w)"
    by (rule sum_change) (simp add: assms(3))
  then show ?thesis by (simp add: assms(2))
qed

lemma inv_pending_step:
  assumes wf: "replay_wf c" and rng: "inv_range c s" and pen: "inv_pending c s"
    and dead: "\<forall>w. rp_dead s w \<longrightarrow> rp_busy s w = None" and "replay_step c s t"
  shows "inv_pending c t"
  using assms(5)
proof cases
  case (dispatch op rest)
  have "1 \<le> ol_worker op"
    using wf rng dispatch(3) by (auto simp: replay_wf_def inv_range_def list_all_iff dest: set_mono_suffix)
  with dispatch have w: "ol_worker op \<in> {1..rc_workers c}" by simp
  have "(\<Sum>v = 1..rc_workers c. length (in_flight t v)) + length (in_flight s (ol_worker op))
      = (\<Sum>v = 1..rc_workers c. length (in_flight s v)) + length (in_flight t (ol_worker op))"
    by (rule sum_change [OF w]) (simp add: dispatch(1) enqueue_def in_flight_def)
  moreover have "length (in_flight t (ol_worker op)) = Suc (length (in_flight s (ol_worker op)))"
    by (simp add: dispatch(1) enqueue_def in_flight_def)
  ultimately show ?thesis
    using pen by (simp add: dispatch(1) enqueue_def inv_pending_def)
next
  case (take w op q)
  have "in_flight t v = in_flight s v" for v
    using take by (auto simp: in_flight_def)
  with pen show ?thesis unfolding inv_pending_def by (simp add: take(1))
next
  case (take_cancelled w op q)
  then have "(\<Sum>v = 1..rc_workers c. length (in_flight s v)) = Suc (\<Sum>v = 1..rc_workers c. length (in_flight t v))"
    by (intro flight_less [OF rng, of w op]) (auto simp: drop_queued_def in_flight_def)
  moreover have "rp_pending t = rp_pending s - 1" "rp_done t = rp_done s" "rp_replayed t = rp_replayed s"
    by (simp_all add: take_cancelled(1) drop_queued_def)
  ultimately show ?thesis using pen by (simp add: inv_pending_def)
next
  case (drain w op q)
  have "rp_busy s w = None" using dead drain(2) by blast
  with drain have "(\<Sum>v = 1..rc_workers c. length (in_flight s v)) = Suc (\<Sum>v = 1..rc_workers c. length (in_flight t v))"
    by (intro flight_less [OF rng, of w op]) (auto simp: drop_queued_def in_flight_def)
  moreover have "rp_pending t = rp_pending s - 1" "rp_done t = rp_done s" "rp_replayed t = rp_replayed s"
    by (simp_all add: drain(1) drop_queued_def)
  ultimately show ?thesis using pen by (simp add: inv_pending_def)
next
  case (executed w op ok)
  then have "w \<in> {1..rc_workers c}" by (intro in_range [OF rng]) (simp add: in_flight_def)
  then have "(\<Sum>v = 1..rc_workers c. length (rp_done t v)) + length (rp_done s w)
      = (\<Sum>v = 1..rc_workers c. length (rp_done s v)) + length (rp_done t w)"
    by (rule sum_change) (simp add: executed(1) finish_op_def)
  moreover have "(\<Sum>v = 1..rc_workers c. length (in_flight s v)) = Suc (\<Sum>v = 1..rc_workers c. length (in_flight t v))"
    using executed by (intro flight_less [OF rng, of w op]) (auto simp: finish_op_def in_flight_def)
  moreover have "rp_pending t = rp_pending s - 1" "length (rp_done t w) = Suc (length (rp_done s w))"
      "rp_replayed t = Suc (rp_replayed s)"
    by (simp_all add: executed(1) finish_op_def)
  ultimately show ?thesis using pen by (simp add: inv_pending_def)
next
  case (wait_cancelled w op)
  then have "(\<Sum>v = 1..rc_workers c. length (in_flight s v)) = Suc (\<Sum>v = 1..rc_workers c. length (in_flight t v))"
    by (intro flight_less [OF rng, of w op]) (auto simp: drop_op_def in_flight_def)
  moreover have "rp_pending t = rp_pending s - 1" "rp_done t = rp_done s" "rp_replayed t = rp_replayed s"
    by (simp_all add: wait_cancelled(1) drop_op_def)
  ultimately show ?thesis using pen by (simp add: inv_pending_def)
next
  case (exec_error w op e)
  then have "(\<Sum>v = 1..rc_workers c. length (in_flight s v)) = Suc (\<Sum>v = 1..rc_workers c. length (in_flight t v))"
    by (intro flight_less [OF rng, of w op]) (auto simp: drop_op_def in_flight_def)
  moreover have "rp_pending t = rp_pending s - 1" "rp_done t = rp_done s" "rp_replayed t = rp_replayed s"
    by (simp_all add: exec_error(1) drop_op_def)
  ultimately show ?thesis using pen by (simp add: inv_pending_def)
next
  case (panic w op e)
  then have "(\<Sum>v = 1..rc_workers c. length (in_flight s v)) = Suc (\<Sum>v = 1..rc_workers c. length (in_flight t v))"
    by (intro flight_less [OF rng, of w op]) (auto simp: drop_op_def in_flight_def)
  moreover have "rp_pending t = rp_pending s - 1" "rp_done t = rp_done s" "rp_replayed t = rp_replayed s"
    by (simp_all add: panic(1) drop_op_def)
  ultimately show ?thesis using pen by (simp add: inv_pending_def)
qed (use pen in \<open>simp_all add: inv_pending_def\<close>)

lemma nothing_pending:
  assumes rng: "inv_range c s" and pen: "inv_pending c s" and zero: "rp_pending s = 0"
  shows "in_flight s w = []"
proof (rule ccontr)
  assume ne: "in_flight s w \<noteq> []"
  then have "w \<in> {1..rc_workers c}" by (rule in_range [OF rng])
  moreover have "(\<Sum>v = 1..rc_workers c. length (in_flight s v)) = 0"
    using pen zero unfolding inv_pending_def by (metis (no_types, lifting))
  ultimately have "length (in_flight s w) = 0"
    by (simp only: sum_eq_0_iff finite_atLeastAtMost_int)
  with ne show False by (metis length_0_conv)
qed

text \<open>The barrier: a step never mixes operations of two iterations.\<close>

lemma inv_iteration_step:
  assumes rng: "inv_range c s" and pen: "inv_pending c s" and it: "inv_iteration s" and "replay_step c s t"
  shows "inv_iteration t"
proof -
  have sub: "inv_iteration t" if "\<And>w. set (in_flight t w) \<subseteq> set (in_flight s w)" "rp_iteration t = rp_iteration s"
  proof (unfold inv_iteration_def, intro allI impI)
    fix w op
    assume "op \<in> set (in_flight t w)"
    with that(1) have "op \<in> set (in_flight s w)" by (rule subsetD)
    from it [unfolded inv_iteration_def, rule_format, OF this] that(2)
    show "OpIteration op = rp_iteration t" by simp
  qed
  from assms(4) show ?thesis
  proof cases
    case (dispatch op rest)
    show ?thesis
    proof (cases "rp_pending s = 0")
      case True
      with nothing_pending [OF rng pen] have none: "in_flight s w = []" for w by blast
      have idle: "rp_busy s v = None" "rp_queue s v = []" for v
        using none [of v] by (simp_all add: in_flight_def split: option.splits)
      have "opa = op" if "opa \<in> set (in_flight t v)" for opa v
        using that by (simp add: dispatch(1) enqueue_def in_flight_def idle split: if_splits)
      moreover have "rp_iteration t = OpIteration op" by (simp add: dispatch(1) enqueue_def)
      ultimately show ?thesis unfolding inv_iteration_def by simp
    next
      case False
      with dispatch(6) have same: "OpIteration op = rp_iteration s" by (simp add: may_dispatch_def)
      have "set (in_flight t w) \<subseteq> insert op (set (in_flight s w))" for w
        by (auto simp: dispatch(1) enqueue_def in_flight_def)
      then have new: "opa = op \<or> opa \<in> set (in_flight s w)" if "opa \<in> set (in_flight t w)" for opa w
        using that by auto
      have "rp_iteration t = rp_iteration s" by (simp add: dispatch(1) enqueue_def same)
      moreover have "OpIteration opa = rp_iteration s" if "opa \<in> set (in_flight t w)" for opa w
        using new [OF that] same it [unfolded inv_iteration_def, rule_format, of opa w] by (elim disjE) simp_all
      ultimately show ?thesis unfolding inv_iteration_def by simp
    qed
  next
    case (take w op q)
    have "in_flight t v = in_flight s v" for v
      using take by (auto simp: in_flight_def)
    then show ?thesis by (intro sub) (simp_all add: take(1))
  next
    case (take_cancelled w op q)
    have "set (in_flight t v) \<subseteq> set (in_flight s v)" for v
      using take_cancelled by (cases "v = w") (auto simp: drop_queued_def in_flight_def)
    then show ?thesis by (rule sub) (simp add: take_cancelled(1) drop_queued_def)
  next
    case (drain w op q)
    have "set (in_flight t v) \<subseteq> set (in_flight s v)" for v
      using drain by (cases "v = w") (auto simp: drop_queued_def in_flight_def)
    then show ?thesis by (rule sub) (simp add: drain(1) drop_queued_def)
  next
    case (executed w op ok)
    have "set (in_flight t v) \<subseteq> set (in_flight s v)" for v
      by (cases "v = w") (simp_all add: executed(1) finish_op_def in_flight_def)
    then show ?thesis by (rule sub) (simp add: executed(1) finish_op_def)
  next
    case (wait_cancelled w op)
    have "set (in_flight t v) \<subseteq> set (in_flight s v)" for v
      by (cases "v = w") (simp_all add: wait_cancelled(1) drop_op_def in_flight_def)
    then show ?thesis by (rule sub) (simp add: wait_cancelled(1) drop_op_def)
  next
    case (exec_error w op e)
    have "set (in_flight t v) \<subseteq> set (in_flight s v)" for v
      by (cases "v = w") (simp_all add: exec_error(1) drop_op_def in_flight_def)
    then show ?thesis by (rule sub) (simp add: exec_error(1) drop_op_def)
  next
    case (panic w op e)
    have "set (in_flight t v) \<subseteq> set (in_flight s v)" for v
      by (cases "v = w") (simp_all add: panic(1) drop_op_def in_flight_def)
    then show ?thesis by (rule sub) (simp add: panic(1) drop_op_def)
  next
    case (bad_worker op rest)
    show ?thesis by (rule sub) (simp_all add: bad_worker(1) in_flight_def)
  next
    case (skip_write op rest)
    show ?thesis by (rule sub) (simp_all add: skip_write(1) in_flight_def)
  next
    case stream_cancelled
    show ?thesis by (rule sub) (simp_all add: stream_cancelled(1) in_flight_def)
  next
    case stream_end
    show ?thesis by (rule sub) (simp_all add: stream_end(1) in_flight_def)
  next
    case user_cancel
    show ?thesis by (rule sub) (simp_all add: user_cancel(1) in_flight_def)
  qed
qed

text \<open>Worker by worker: what the plan invariant says of one worker.\<close>

definition worker_plan :: "replay_cfg \<Rightarrow> replay_state \<Rightarrow> int \<Rightarrow> bool" where
  "worker_plan c s w \<longleftrightarrow>
     (rp_dead s w \<longrightarrow> rp_lost s w) \<and>
     (if rp_lost s w then rp_cancel s \<and> rp_busy s w = None \<and> strict_prefix (rp_done s w) (plan c w)
      else rp_done s w @ in_flight s w
        @ filter (\<lambda>op. ol_worker op = w \<and> \<not> rc_skips c op) (rp_todo s) = plan c w)"

lemma inv_plan_worker: "inv_plan c s \<longleftrightarrow> (\<forall>w. worker_plan c s w)"
  by (auto simp: inv_plan_def worker_plan_def)

text \<open>A worker the step does not concern keeps its part.\<close>

lemma worker_plan_frame:
  assumes "worker_plan c s w"
    and "rp_dead t w = rp_dead s w" "rp_lost t w = rp_lost s w" "rp_busy t w = rp_busy s w"
      "rp_queue t w = rp_queue s w" "rp_done t w = rp_done s w" "rp_cancel s \<longrightarrow> rp_cancel t"
      "filter (\<lambda>op. ol_worker op = w \<and> \<not> rc_skips c op) (rp_todo t)
        = filter (\<lambda>op. ol_worker op = w \<and> \<not> rc_skips c op) (rp_todo s)"
  shows "worker_plan c t w"
proof -
  have "in_flight t w = in_flight s w" using assms(4,5) by (rule in_flight_cong)
  with assms show ?thesis unfolding worker_plan_def by presburger
qed

text \<open>A worker that loses an operation keeps a prefix of its plan.\<close>

lemma worker_plan_lost:
  assumes "worker_plan c s w" and "rp_lost s w \<or> in_flight s w \<noteq> []"
    and "rp_done t w = rp_done s w" "rp_busy t w = None" "rp_lost t w" "rp_cancel t"
  shows "worker_plan c t w"
proof -
  have "strict_prefix (rp_done s w) (plan c w)"
  proof (cases "rp_lost s w")
    case True
    with assms(1) show ?thesis by (simp add: worker_plan_def)
  next
    case False
    with assms(1,2) have "rp_done s w @ in_flight s w
        @ filter (\<lambda>op. ol_worker op = w \<and> \<not> rc_skips c op) (rp_todo s) = plan c w" "in_flight s w \<noteq> []"
      by (auto simp: worker_plan_def)
    then show ?thesis by (metis append_is_Nil_conv append_self_conv prefixI strict_prefix_def)
  qed
  with assms(3-) show ?thesis by (simp add: worker_plan_def)
qed

lemma inv_plan_step:
  assumes "inv_plan c s" and "replay_step c s t"
  shows "inv_plan c t"
proof -
  have pl: "worker_plan c s w" for w
    using assms(1) by (simp add: inv_plan_worker)
  note frame = worker_plan_frame [OF pl] and lost = worker_plan_lost [OF pl]
  have "worker_plan c t v" for v
    using assms(2)
  proof cases
    case (skip_write op rest)
    then show ?thesis by (intro frame) auto
  next
    case (dispatch op rest)
    show ?thesis
    proof (cases "v = ol_worker op")
      case True
      with pl [of v] dispatch show ?thesis
        by (auto simp: worker_plan_def enqueue_def in_flight_def split: if_splits)
    next
      case False
      with dispatch show ?thesis by (intro frame) (simp_all add: enqueue_def)
    qed
  next
    case (take w op q)
    with pl [of v] show ?thesis
      by (cases "v = w") (auto simp: worker_plan_def in_flight_def split: if_splits)
  next
    case (take_cancelled w op q)
    then show ?thesis
      by (cases "v = w") (auto simp: drop_queued_def in_flight_idle intro: lost frame)
  next
    case (wait_cancelled w op)
    then show ?thesis
      by (cases "v = w") (auto simp: drop_op_def in_flight_busy intro: lost frame)
  next
    case (executed w op ok)
    with pl [of v] show ?thesis
      by (cases "v = w") (auto simp: finish_op_def worker_plan_def in_flight_def split: if_splits)
  next
    case (exec_error w op e)
    then show ?thesis
      by (cases "v = w") (auto simp: drop_op_def in_flight_busy intro: lost frame)
  next
    case (panic w op e)
    have "worker_plan c ((drop_op w s)\<lparr>rp_cancel := True\<rparr>) v"
      using panic(2) by (cases "v = w") (auto simp: drop_op_def in_flight_busy intro: lost frame)
    then show ?thesis
      unfolding panic(1) by (auto simp: worker_plan_def drop_op_def in_flight_def split: if_splits)
  next
    case (drain w op q)
    show ?thesis
    proof (cases "v = w")
      case True
      from pl [of w] drain have "rp_cancel s" "rp_busy s w = None" by (auto simp: worker_plan_def)
      with True drain show ?thesis by (intro lost) (simp_all add: drop_queued_def in_flight_idle)
    next
      case False
      then show ?thesis by (intro frame) (simp_all add: drain(1) drop_queued_def)
    qed
  qed (intro frame; simp)+
  then show ?thesis by (simp add: inv_plan_worker)
qed

lemma inv_counts_step:
  assumes "inv_counts c s" and "replay_step c s t"
  shows "inv_counts c t"
  using assms(2,1)
  by cases (simp_all add: inv_counts_def replay_ops)

lemma inv_consumed_step:
  assumes "inv_consumed c s" and "replay_step c s t"
  shows "inv_consumed c t"
proof -
  obtain pre where pre: "rc_ops c = pre @ rp_todo s" "list_all (\<lambda>op. ol_worker op \<le> rc_workers c) pre"
    using assms(1) by (auto simp: inv_consumed_def)
  have next1: "inv_consumed c t" if "rp_todo s = op # rest" "ol_worker op \<le> rc_workers c" "rp_todo t = rest" for op rest
    unfolding inv_consumed_def by (rule exI [of _ "pre @ [op]"]) (use pre that in simp)
  have same: "inv_consumed c t" if "rp_todo t = rp_todo s"
    using pre that by (auto simp: inv_consumed_def)
  from assms(2) show ?thesis
  proof cases
    case (skip_write op rest)
    then show ?thesis by (intro next1) simp_all
  next
    case (dispatch op rest)
    then show ?thesis by (intro next1) (simp_all add: enqueue_def)
  qed (rule same; simp add: replay_ops)+
qed

definition replay_inv :: "replay_cfg \<Rightarrow> replay_state \<Rightarrow> bool" where
  "replay_inv c s \<longleftrightarrow> inv_range c s \<and> inv_pending c s \<and> inv_iteration s \<and> inv_plan c s
     \<and> inv_counts c s \<and> inv_consumed c s"

lemma replay_inv_init: "replay_inv c (replay_init c)"
  by (simp add: replay_inv_def inv_range_def inv_pending_def inv_iteration_def inv_plan_def inv_counts_def
      inv_consumed_def replay_init_def plan_def in_flight_def)

lemma replay_inv_step:
  assumes "replay_wf c" and "replay_inv c s" and "replay_step c s t"
  shows "replay_inv c t"
proof -
  have "\<forall>w. rp_dead s w \<longrightarrow> rp_busy s w = None"
    using assms(2) by (simp add: replay_inv_def inv_plan_def)
  with assms show ?thesis
    unfolding replay_inv_def
    by (blast intro: inv_range_step inv_pending_step inv_iteration_step inv_plan_step inv_counts_step inv_consumed_step)
qed

lemma reachable_inv: "replay_wf c \<Longrightarrow> replay_reachable c s \<Longrightarrow> replay_inv c s"
proof -
  assume wf: "replay_wf c" and "replay_reachable c s"
  from this(2) show ?thesis
    by induction (auto intro: replay_inv_init replay_inv_step [OF wf])
qed

subsection \<open>Progress and termination\<close>

text \<open>Every step uses up some of what is left to do, so a replay has a bounded number of steps.\<close>

definition replay_measure :: "replay_cfg \<Rightarrow> replay_state \<Rightarrow> nat" where
  "replay_measure c s = 3 * length (rp_todo s)
     + (\<Sum>w = 1..rc_workers c. length (in_flight s w) + length (rp_queue s w))
     + (if rp_closed s then 0 else 1) + (if rp_user s then 0 else 1)"

lemma measure_at:
  assumes w: "w \<in> {1..rc_workers c}" and same: "\<And>v. v \<noteq> w \<Longrightarrow> in_flight t v = in_flight s v \<and> rp_queue t v = rp_queue s v"
  shows "(\<Sum>v = 1..rc_workers c. length (in_flight t v) + length (rp_queue t v)) + (length (in_flight s w) + length (rp_queue s w))
    = (\<Sum>v = 1..rc_workers c. length (in_flight s v) + length (rp_queue s v)) + (length (in_flight t w) + length (rp_queue t w))"
  by (rule sum_change [OF w]) (simp add: same)

lemma measure_less_at:
  assumes rng: "inv_range c s" and ne: "in_flight s w \<noteq> []"
    and same: "\<And>v. v \<noteq> w \<Longrightarrow> in_flight t v = in_flight s v \<and> rp_queue t v = rp_queue s v"
    and less: "length (in_flight t w) + length (rp_queue t w) < length (in_flight s w) + length (rp_queue s w)"
    and rest: "rp_todo t = rp_todo s" "rp_closed t = rp_closed s" "rp_user t = rp_user s"
  shows "replay_measure c t < replay_measure c s"
  using measure_at [OF in_range [OF rng ne] same] less by (simp add: replay_measure_def rest)

lemma replay_measure_step:
  assumes wf: "replay_wf c" and inv: "replay_inv c s" and step: "replay_step c s t"
  shows "replay_measure c t < replay_measure c s"
proof -
  have rng: "inv_range c s" and dead: "\<And>w. rp_dead s w \<Longrightarrow> rp_busy s w = None"
    using inv by (auto simp: replay_inv_def inv_plan_def)
  note less = measure_less_at [OF rng]
  from step show ?thesis
  proof cases
    case (dispatch op rest)
    have "1 \<le> ol_worker op"
      using wf rng dispatch(3) by (auto simp: replay_wf_def inv_range_def list_all_iff dest: set_mono_suffix)
    with dispatch have w: "ol_worker op \<in> {1..rc_workers c}" by simp
    have len: "length (in_flight t (ol_worker op)) = Suc (length (in_flight s (ol_worker op)))"
        "length (rp_queue t (ol_worker op)) = Suc (length (rp_queue s (ol_worker op)))"
      by (simp_all add: dispatch(1) enqueue_def in_flight_def)
    have "in_flight t v = in_flight s v \<and> rp_queue t v = rp_queue s v" if "v \<noteq> ol_worker op" for v
      using that by (simp add: dispatch(1) enqueue_def in_flight_def)
    from measure_at [OF w this] len
    have "(\<Sum>v = 1..rc_workers c. length (in_flight t v) + length (rp_queue t v))
        = (\<Sum>v = 1..rc_workers c. length (in_flight s v) + length (rp_queue s v)) + 2" by simp
    moreover have "rp_todo t = rest" "rp_closed t = rp_closed s" "rp_user t = rp_user s"
      by (simp_all add: dispatch(1) enqueue_def)
    ultimately show ?thesis using dispatch(3) by (simp add: replay_measure_def)
  next
    case (take w op q)
    then show ?thesis by (intro less [of w]) (auto simp: in_flight_def)
  next
    case (take_cancelled w op q)
    then show ?thesis by (intro less [of w]) (auto simp: in_flight_def drop_queued_def)
  next
    case (drain w op q)
    with dead [OF drain(2)] show ?thesis by (intro less [of w]) (auto simp: in_flight_def drop_queued_def)
  next
    case (executed w op ok)
    then show ?thesis by (intro less [of w]) (auto simp: in_flight_def finish_op_def)
  next
    case (wait_cancelled w op)
    then show ?thesis by (intro less [of w]) (auto simp: in_flight_def drop_op_def)
  next
    case (exec_error w op e)
    then show ?thesis by (intro less [of w]) (auto simp: in_flight_def drop_op_def)
  next
    case (panic w op e)
    then show ?thesis by (intro less [of w]) (auto simp: in_flight_def drop_op_def)
  qed (simp_all add: replay_measure_def)
qed

text \<open>
  Progress: until everything is over, the program itself has a step, whatever the user and the server
  do. The dispatcher waits only while something is pending or a queue is full, and then a worker can
  move.
\<close>

text \<open>A step of the program, not of the user.\<close>

definition own_step :: "replay_cfg \<Rightarrow> replay_state \<Rightarrow> bool" where
  "own_step c s \<longleftrightarrow> (\<exists>t. replay_step c s t \<and> rp_user t = rp_user s)"

lemma own_stepI: "replay_step c s t \<Longrightarrow> rp_user t = rp_user s \<Longrightarrow> own_step c s"
  by (auto simp: own_step_def)

lemma worker_can_step:
  assumes "in_flight s w \<noteq> []"
  shows "own_step c s"
proof (cases "rp_busy s w")
  case None
  with assms obtain op q where q: "rp_queue s w = op # q"
    by (cases "rp_queue s w") (simp_all add: in_flight_idle)
  consider "rp_dead s w" | "\<not> rp_dead s w" "rp_cancel s" | "\<not> rp_dead s w" "\<not> rp_cancel s" by blast
  then show ?thesis
  proof cases
    case 1
    then show ?thesis by (rule own_stepI [OF drain [OF _ q]]) (simp add: drop_queued_def)
  next
    case 2
    show ?thesis by (rule own_stepI [OF take_cancelled [OF 2(1) None q 2(2)]]) (simp add: drop_queued_def)
  next
    case 3
    show ?thesis by (rule own_stepI [OF take [OF 3(1) None q 3(2)]]) simp
  qed
next
  case (Some op)
  then show ?thesis by (rule own_stepI [OF executed [where ok = True]]) (simp add: finish_op_def)
qed

lemma replay_progress:
  assumes inv: "replay_inv c s" and "\<not> replay_final s"
  shows "own_step c s"
proof (cases "\<exists>w. in_flight s w \<noteq> []")
  case True
  then show ?thesis by (blast intro: worker_can_step)
next
  case False
  then have idle: "in_flight s w = []" for w by blast
  have none: "rp_queue s w = []" "rp_busy s w = None" for w
    using idle [of w] by (simp_all add: in_flight_def split: option.splits)
  with assms(2) have open1: "\<not> rp_closed s" by (simp add: replay_final_def)
  have pen: "rp_pending s = 0"
    using inv idle by (simp add: replay_inv_def inv_pending_def)
  show ?thesis
  proof (cases "rp_todo s")
    case Nil
    show ?thesis by (rule own_stepI [OF stream_end [OF open1 Nil]]) simp
  next
    case (Cons op rest)
    consider "ol_worker op > rc_workers c" | "ol_worker op \<le> rc_workers c" "rc_skips c op"
      | "ol_worker op \<le> rc_workers c" "\<not> rc_skips c op" by linarith
    then show ?thesis
    proof cases
      case 1
      show ?thesis by (rule own_stepI [OF bad_worker [OF open1 Cons 1]]) simp
    next
      case 2
      show ?thesis by (rule own_stepI [OF skip_write [OF open1 Cons 2]]) simp
    next
      case 3
      have "may_dispatch s op" "length (rp_queue s (ol_worker op)) < replayQueueSize"
        by (simp_all add: may_dispatch_def pen none replayQueueSize_def)
      then show ?thesis by (rule own_stepI [OF dispatch [OF open1 Cons 3]]) (simp add: enqueue_def)
    qed
  qed
qed

lemma replay_run_measure:
  assumes wf: "replay_wf c"
  shows "(replay_step c ^^ n) (replay_init c) s \<Longrightarrow>
    replay_reachable c s \<and> n + replay_measure c s \<le> replay_measure c (replay_init c)"
proof (induction n arbitrary: s)
  case 0
  then show ?case by (auto intro: replay_start)
next
  case (Suc n)
  then obtain u where "(replay_step c ^^ n) (replay_init c) u" and us: "replay_step c u s" by auto
  with Suc.IH have u: "replay_reachable c u" "n + replay_measure c u \<le> replay_measure c (replay_init c)" by auto
  from replay_measure_step [OF wf reachable_inv [OF wf u(1)] us] u us show ?case
    by (auto intro: replay_next)
qed

subsection \<open>How a replay ends\<close>

definition replayStatusCancelled :: string where "replayStatusCancelled = ''cancelled''"

definition stopped_reason :: string where
  "stopped_reason = ''the run was stopped before the recording was exhausted''"

text \<open>The final switch of \<open>runWorkloadReplay\<close>: the status, its reason and whether the run fails.\<close>

definition replay_result :: "nat \<Rightarrow> replay_state \<Rightarrow> string \<times> string \<times> bool" where
  "replay_result ops s =
     (case rp_panicErr s of
        Some e \<Rightarrow> (StatusFailed, e, True)
      | None \<Rightarrow>
         (case rp_execErr s of
            Some e \<Rightarrow> (StatusFailed, e, True)
          | None \<Rightarrow>
             (case rp_streamErr s of
                Some e \<Rightarrow> if rp_user s then (replayStatusCancelled, stopped_reason, False)
                          else (StatusFailed, e, True)
              | None \<Rightarrow> if rp_user s \<and> rp_replayed s + rp_skipped s < ops
                        then (replayStatusCancelled, stopped_reason, False)
                        else (StatusComplete, [], False))))"

lemma final_in_flight: "replay_final s \<Longrightarrow> in_flight s w = []"
  by (simp add: replay_final_def in_flight_def)

text \<open>Operations split into the skipped ones and the workers' plans.\<close>

lemma plans_total:
  assumes "list_all (\<lambda>op. 1 \<le> ol_worker op \<and> ol_worker op \<le> n) ops"
  shows "(\<Sum>w = 1..n. length (filter (\<lambda>op. ol_worker op = w \<and> \<not> P op) ops)) + length (filter P ops) = length ops"
  using assms
proof (induction ops)
  case (Cons op ops)
  let ?f = "\<lambda>xs w. length (filter (\<lambda>op. ol_worker op = w \<and> \<not> P op) xs)"
  from Cons.prems have w: "ol_worker op \<in> {1..n}" by simp
  have "(\<Sum>w = 1..n. ?f (op # ops) w) + ?f ops (ol_worker op)
      = (\<Sum>w = 1..n. ?f ops w) + ?f (op # ops) (ol_worker op)"
    by (rule sum_change [OF w]) simp
  with Cons show ?case by (cases "P op") auto
qed simp

lemma sum_length_less:
  assumes "w \<in> {1..n}" and "\<And>v. prefix (f v) (g v)" and "strict_prefix (f w) (g w)"
  shows "(\<Sum>v = 1..n. length (f v)) < (\<Sum>v = 1..(n::int). length (g v))"
  by (rule sum_strict_mono_ex1) (use assms in \<open>auto dest: prefix_length_le prefix_length_less\<close>)

lemma replay_final_counts:
  assumes wf: "replay_wf c" and inv: "replay_inv c s" and fin: "replay_final s" and ok: "rp_streamErr s = None"
  shows "\<And>w. \<not> rp_lost s w \<Longrightarrow> rp_done s w = plan c w"
    and "(\<forall>w. \<not> rp_lost s w) \<longleftrightarrow> rp_replayed s + rp_skipped s = length (rc_ops c)"
    and "rp_replayed s + rp_skipped s \<le> length (rc_ops c)"
proof -
  have todo: "rp_todo s = []" using inv fin ok by (simp add: replay_inv_def inv_counts_def replay_final_def)
  show plan1: "rp_done s w = plan c w" if "\<not> rp_lost s w" for w
    using inv that todo final_in_flight [OF fin] by (simp add: replay_inv_def inv_plan_def)
  have lost: "strict_prefix (rp_done s w) (plan c w)" if "rp_lost s w" for w
    using inv that by (simp add: replay_inv_def inv_plan_def)
  have pre: "prefix (rp_done s w) (plan c w)" for w
    by (cases "rp_lost s w") (auto simp: plan1 dest: lost)
  have "list_all (\<lambda>op. 1 \<le> ol_worker op \<and> ol_worker op \<le> rc_workers c) (rc_ops c)"
    using inv wf todo by (auto simp: replay_inv_def inv_consumed_def replay_wf_def list_all_iff)
  from plans_total [OF this, of "rc_skips c"]
  have total: "(\<Sum>w = 1..rc_workers c. length (plan c w)) + rp_skipped s = length (rc_ops c)"
    using inv todo by (simp add: plan_def replay_inv_def inv_counts_def)
  have rep: "rp_replayed s = (\<Sum>w = 1..rc_workers c. length (rp_done s w))"
    using inv by (simp add: replay_inv_def inv_pending_def)
  show "rp_replayed s + rp_skipped s \<le> length (rc_ops c)"
    using total rep sum_mono [of "{1..rc_workers c}" "\<lambda>w. length (rp_done s w)" "\<lambda>w. length (plan c w)"]
      prefix_length_le [OF pre] by simp
  show "(\<forall>w. \<not> rp_lost s w) \<longleftrightarrow> rp_replayed s + rp_skipped s = length (rc_ops c)"
  proof
    assume "\<forall>w. \<not> rp_lost s w"
    with total rep show "rp_replayed s + rp_skipped s = length (rc_ops c)" by (simp add: plan1)
  next
    assume eq: "rp_replayed s + rp_skipped s = length (rc_ops c)"
    show "\<forall>w. \<not> rp_lost s w"
    proof (intro allI notI)
      fix w assume l: "rp_lost s w"
      have "w \<in> {1..rc_workers c}"
      proof (rule ccontr)
        assume "w \<notin> {1..rc_workers c}"
        then have "plan c w = []" using inv wf todo
          by (auto simp: plan_def filter_empty_conv replay_inv_def inv_consumed_def replay_wf_def list_all_iff)
        with lost [OF l] show False by simp
      qed
      from sum_length_less [of w "rc_workers c" "rp_done s" "plan c", OF this pre lost [OF l]] total rep eq
      show False by simp
    qed
  qed
qed

subsection \<open>Properties\<close>

text \<open>C3: iterations are separated and order is kept. In every interleaving, whatever the workers' speeds,
results, cancellation or panics: the operations handed to workers and not finished all belong to one
iteration, no queue exceeds its bound, \<open>pending\<close> counts exactly what is in flight, and every worker
has sent a prefix of its own recorded operations (those not skipped), each once and in file order.\<close>

theorem replay_order_and_barrier:
  assumes "replay_wf c" and "replay_reachable c s"
  shows "(op1 \<in> set (in_flight s v) \<and> op2 \<in> set (in_flight s w) \<longrightarrow> OpIteration op1 = OpIteration op2)
    \<and> length (rp_queue s w) \<le> replayQueueSize
    \<and> rp_pending s = (\<Sum>w = 1..rc_workers c. length (in_flight s w))
    \<and> prefix (rp_done s w) (plan c w)"
proof -
  have inv: "replay_inv c s" using assms by (rule reachable_inv)
  then have it: "\<And>w op. op \<in> set (in_flight s w) \<Longrightarrow> OpIteration op = rp_iteration s"
    and len: "length (rp_queue s w) \<le> replayQueueSize"
    and pend: "rp_pending s = (\<Sum>w = 1..rc_workers c. length (in_flight s w))"
    and pl: "worker_plan c s w"
    by (auto simp: replay_inv_def inv_iteration_def inv_range_def inv_pending_def inv_plan_worker)
  from pl have "prefix (rp_done s w) (plan c w)"
    by (auto simp: worker_plan_def prefix_def strict_prefix_def split: if_splits) metis
  with it [of op1 v] it [of op2 w] len pend show ?thesis by simp
qed

definition sample_replay_ops :: "op_line list" where
  "sample_replay_ops = [sample_tx_line, sample_tx_line\<lparr>ol_seq := 2, ol_worker_seq := 2, ol_iteration := 2\<rparr>]"

definition sample_replay :: replay_cfg where
  "sample_replay = \<lparr>rc_workers = 1, rc_skips = (\<lambda>_. False), rc_ops = sample_replay_ops, rc_stream_err = None\<rparr>"

definition sample_started :: replay_state where
  "sample_started = enqueue sample_tx_line [sample_tx_line\<lparr>ol_seq := 2, ol_worker_seq := 2, ol_iteration := 2\<rparr>]
     (replay_init sample_replay)"

lemma sample_replay_wf: "replay_wf sample_replay"
  by (simp add: replay_wf_def sample_replay_def sample_replay_ops_def sample_tx_line_def)

lemma sample_started_reachable: "replay_reachable sample_replay sample_started"
  unfolding sample_started_def
  by (rule replay_next [OF replay_start dispatch])
     (simp_all add: replay_init_def sample_replay_def sample_replay_ops_def sample_tx_line_def
       may_dispatch_def replayQueueSize_def)

theorem replay_order_and_barrier_witness:
  "rp_pending sample_started = 1 \<and> length (rp_queue sample_started 1) \<le> 1024
    \<and> prefix (rp_done sample_started 1) (plan sample_replay 1)"
  using replay_order_and_barrier [OF sample_replay_wf sample_started_reachable, of sample_tx_line 1 sample_tx_line 1]
  by (simp add: sample_started_def enqueue_def replay_init_def replayQueueSize_def)

text \<open>C9: a replay always ends. No interleaving takes more than three steps per recorded operation and
two more; and as long as something is left to do, some goroutine can move without help from the user:
no queue, barrier or cancellation can deadlock it. So every run that goes on as long as it can ends
with all queues drained and all workers stopped.\<close>

theorem replay_terminates:
  assumes "replay_wf c" and "(replay_step c ^^ n) (replay_init c) s"
  shows "n \<le> 3 * length (rc_ops c) + 2 \<and> (\<not> replay_final s \<longrightarrow> own_step c s)"
proof -
  have run: "replay_reachable c s" "n + replay_measure c s \<le> replay_measure c (replay_init c)"
    using replay_run_measure [OF assms] by auto
  have "replay_measure c (replay_init c) = 3 * length (rc_ops c) + 2"
    by (simp add: replay_measure_def replay_init_def in_flight_def)
  moreover have "\<not> replay_final s \<longrightarrow> own_step c s"
    using replay_progress reachable_inv [OF assms(1) run(1)] by blast
  ultimately show ?thesis using run(2) by simp
qed

theorem replay_terminates_witness:
  "\<exists>s. (replay_step sample_replay ^^ 1) (replay_init sample_replay) s \<and> own_step sample_replay s"
proof -
  have one: "(replay_step sample_replay ^^ 1) (replay_init sample_replay) sample_started"
    unfolding sample_started_def One_nat_def relpowp.simps
    by (intro relcomppI [of _ _ "replay_init sample_replay"] dispatch)
       (simp_all add: replay_init_def sample_replay_def sample_replay_ops_def sample_tx_line_def
         may_dispatch_def replayQueueSize_def)
  moreover have "\<not> replay_final sample_started"
    by (simp add: replay_final_def sample_started_def enqueue_def replay_init_def)
  ultimately show ?thesis using replay_terminates [OF sample_replay_wf one] by blast
qed

text \<open>C7: \<open>complete\<close> means complete. When everything has stopped, the replay reports \<open>complete\<close> exactly
when reading the recording did not fail, no operation raised an error or panicked, and every worker
sent all of its operations; then \<open>OpsReplayed\<close> plus \<open>OpsSkipped\<close> is the number of recorded operations.\<close>

theorem replay_complete_iff:
  assumes "replay_wf c" and "replay_reachable c s" and "replay_final s"
  shows "fst (replay_result (length (rc_ops c)) s) = StatusComplete \<longleftrightarrow>
      rp_panicErr s = None \<and> rp_execErr s = None \<and> rp_streamErr s = None
      \<and> (\<forall>w. rp_done s w = plan c w) \<and> rp_replayed s + rp_skipped s = length (rc_ops c)"
proof -
  have inv: "replay_inv c s" using assms(1,2) by (rule reachable_inv)
  note counts = replay_final_counts [OF assms(1) inv assms(3)]
  have cancel: "rp_cancel s \<longrightarrow> rp_user s \<or> rp_execErr s \<noteq> None \<or> rp_panicErr s \<noteq> None"
    and lost: "\<And>w. rp_lost s w \<Longrightarrow> rp_cancel s \<and> rp_done s w \<noteq> plan c w"
    using inv by (auto simp: replay_inv_def inv_counts_def inv_plan_def)
  have names: "StatusFailed \<noteq> StatusComplete" "replayStatusCancelled \<noteq> StatusComplete"
    by (simp_all add: statuses replayStatusCancelled_def)
  show ?thesis
  proof (cases "rp_panicErr s = None \<and> rp_execErr s = None \<and> rp_streamErr s = None")
    case False
    then show ?thesis
      using names by (auto simp: replay_result_def split: option.splits)
  next
    case True
    then have stream: "rp_streamErr s = None" and res: "replay_result (length (rc_ops c)) s =
        (if rp_user s \<and> rp_replayed s + rp_skipped s < length (rc_ops c)
         then (replayStatusCancelled, stopped_reason, False) else (StatusComplete, [], False))"
      by (simp_all add: replay_result_def)
    have no_user: "\<not> rp_user s \<Longrightarrow> \<forall>w. \<not> rp_lost s w"
      using True cancel lost by blast
    have all: "(\<forall>w. rp_done s w = plan c w) \<longleftrightarrow> (\<forall>w. \<not> rp_lost s w)"
      using counts(1) [OF stream] lost by blast
    show ?thesis
      using True names res no_user all counts(2,3) [OF stream] by auto
  qed
qed

definition sample_empty :: replay_cfg where
  "sample_empty = \<lparr>rc_workers = 1, rc_skips = (\<lambda>_. False), rc_ops = [], rc_stream_err = None\<rparr>"

theorem replay_complete_iff_witness:
  "fst (replay_result 0 ((replay_init sample_empty)\<lparr>rp_closed := True\<rparr>)) = StatusComplete"
proof -
  have "replay_reachable sample_empty ((replay_init sample_empty)\<lparr>rp_closed := True, rp_streamErr := None\<rparr>)"
    using replay_next [OF replay_start stream_end [of "replay_init sample_empty" sample_empty]]
    by (simp add: replay_init_def sample_empty_def)
  then have "replay_reachable sample_empty ((replay_init sample_empty)\<lparr>rp_closed := True\<rparr>)"
    by (simp add: replay_init_def)
  from replay_complete_iff [OF _ this] show ?thesis
    by (simp add: replay_wf_def sample_empty_def replay_final_def replay_init_def plan_def)
qed

end
