(* ===== verification/Shapes.thy ===== *)
theory Shapes
  imports Commands GoFloat
begin

text \<open>
  The shape of an operation (\<open>internal/mongo/runner.go\<close>, lines 757 to 1201, and the identity of
  \<open>internal/mongo/workload_exec.go\<close>): the key under which the statistics, the outcome files and the
  replay comparison group operations. Literal values are redacted; sort directions, projections,
  limits and field paths are part of the key.

  Go's type switches are the constructor patterns here: \<open>map[string]interface{}\<close> is \<open>GMap\<close>,
  \<open>[]interface{}\<close> is \<open>GSlice\<close>, \<open>bson.D\<close> is \<open>GDoc\<close>; the other map and slice types fall into the default.
  A map is visited in sorted key order.
\<close>

subsection \<open>Sort positions\<close>

definition sortByOwners :: "string list" where
  "sortByOwners = [''$setWindowFields'', ''$fill'', ''$top'', ''$bottom'', ''$topN'', ''$bottomN'', ''$sortArray'']"

definition IsSortPosition :: "string \<Rightarrow> string \<Rightarrow> bool" where
  "IsSortPosition owner key \<longleftrightarrow> key = ''$sort'' \<or> (key = ''sortBy'' \<and> owner \<in> set sortByOwners)"

text \<open>\<open>runtimeValue\<close>: decoded recorded values in the form generated operations use. Assigning the
entries of a document to a map keeps the last value of a repeated key.\<close>

definition map_of_entries :: "(string \<times> 'a) list \<Rightarrow> (string \<times> 'a) list" where
  "map_of_entries kvs = foldl (\<lambda>m e. if fst e \<in> set (map fst m) then map (\<lambda>x. if fst x = fst e then e else x) m else m @ [e]) [] kvs"

function (sequential) runtimeValue :: "gval \<Rightarrow> bool \<Rightarrow> string \<Rightarrow> gval" where
  "runtimeValue (GDoc kvs) sortPos owner =
     (if sortPos then GDoc (map (\<lambda>(k, v). (k, runtimeValue v False k)) kvs)
      else GMap (map_of_entries (map (\<lambda>(k, v). (k, runtimeValue v (IsSortPosition owner k) k)) kvs)))"
| "runtimeValue (GA xs) sortPos owner = GSlice (map (\<lambda>x. runtimeValue x False []) xs)"
| "runtimeValue (GSlice xs) sortPos owner = GSlice (map (\<lambda>x. runtimeValue x False []) xs)"
| "runtimeValue v sortPos owner = v"
  by pat_completeness auto
termination
  by (relation "measure (\<lambda>(v, _, _). size v)")
     (auto simp: gval_entry_size less_Suc_eq_le intro: size_list_estimation')

subsection \<open>Copies\<close>

function (sequential) deepClone :: "gval \<Rightarrow> gval" where
  "deepClone (GMap kvs) = GMap (map (\<lambda>(k, v). (k, deepClone v)) kvs)"
| "deepClone (GSlice xs) = GSlice (map deepClone xs)"
| "deepClone (GDoc kvs) = GDoc (map (\<lambda>(k, v). (k, deepClone v)) kvs)"
| "deepClone v = v"
  by pat_completeness auto
termination
  by (relation "measure size") (auto simp: gval_entry_size less_Suc_eq_le intro: size_list_estimation')

lemma deepClone_id [simp]: "deepClone v = v"
  by (induction v rule: deepClone.induct) (auto intro!: map_idI)

text \<open>\<open>cloneMap\<close> makes a map of a nil one.\<close>

definition cloneMap :: "document option \<Rightarrow> document" where
  "cloneMap m = (case deepClone (GMap (case m of None \<Rightarrow> [] | Some kvs \<Rightarrow> kvs)) of GMap kvs \<Rightarrow> kvs | _ \<Rightarrow> [])"

lemma cloneMap_Some [simp]: "cloneMap (Some m) = m" by (simp add: cloneMap_def)

definition sortUniqueStrings :: "string list \<Rightarrow> string list" where
  "sortUniqueStrings xs = sort (foldl (\<lambda>out s. if s = [] \<or> s \<in> set out then out else out @ [s]) [] xs)"

subsection \<open>Rendering\<close>

definition braces :: "string list \<Rightarrow> string" where "braces ps = ''{'' @ join_with '','' ps @ ''}''"
definition brackets :: "string list \<Rightarrow> string" where "brackets ps = ''['' @ join_with '','' ps @ '']''"

function (sequential) renderShape :: "gval \<Rightarrow> string" where
  "renderShape (GMap kvs) = braces (map (\<lambda>(k, v). k @ '':'' @ renderShape v) (sort_entries kvs))"
| "renderShape (GDoc kvs) = braces (map (\<lambda>(k, v). k @ '':'' @ renderShape v) kvs)"
| "renderShape (GSlice xs) = brackets (map renderShape xs)"
| "renderShape (GStr s) = (if s = ''<int>'' \<or> s = ''<string>'' then s else ''<str>'')"
| "renderShape (GInt n) = ''<num>''"
| "renderShape (GInt32 n) = ''<num>''"
| "renderShape (GInt64 n) = ''<num>''"
| "renderShape (GFloat x) = ''<num>''"
| "renderShape (GBool b) = ''<bool>''"
| "renderShape GNil = ''<nil>''"
| "renderShape v = ''<val>''"
  by pat_completeness auto
termination
  by (relation "measure size") (auto simp: gval_entry_size less_Suc_eq_le intro: size_list_estimation')

fun renderSpecScalar :: "gval \<Rightarrow> string" where
  "renderSpecScalar (GBool b) = (if b then ''true'' else ''false'')"
| "renderSpecScalar (GInt n) = itoa n"
| "renderSpecScalar (GInt32 n) = itoa n"
| "renderSpecScalar (GInt64 n) = itoa n"
| "renderSpecScalar (GFloat x) = format_g x"
| "renderSpecScalar (GStr s) = (if has_prefix ''$'' s then s else renderShape (GStr s))"
| "renderSpecScalar v = renderShape v"

fun is_composite :: "gval \<Rightarrow> bool" where
  "is_composite (GMap _) = True"
| "is_composite (GSlice _) = True"
| "is_composite (GDoc _) = True"
| "is_composite _ = False"

text \<open>The pipeline renderers call each other: \<open>renderPipelineShape\<close> on a list of stages,
\<open>renderStageShape\<close>, \<open>renderSpecShape\<close>, \<open>renderOwnedExprShape\<close> and \<open>renderExprField\<close> on one value.
\<open>renderExprShape v\<close> is \<open>renderOwnedExprShape v []\<close>; \<open>renderSpecValue\<close> is inlined.\<close>

function (sequential) renderPipelineShape :: "gval list \<Rightarrow> string"
  and renderStageShape :: "string \<Rightarrow> gval \<Rightarrow> string"
  and renderSpecShape :: "gval \<Rightarrow> string"
  and renderOwnedExprShape :: "gval \<Rightarrow> string \<Rightarrow> string"
  and renderExprField :: "string \<Rightarrow> string \<Rightarrow> gval \<Rightarrow> string" where
  "renderPipelineShape stages = brackets (map (\<lambda>raw.
     case raw of GMap stage \<Rightarrow> braces (map (\<lambda>(k, v). k @ '':'' @ renderStageShape k v) (sort_entries stage))
     | _ \<Rightarrow> renderShape raw) stages)"
| "renderStageShape name v =
     (if name = ''$match'' then renderShape v
      else if name \<in> {''$sort'', ''$limit'', ''$skip'', ''$sample'', ''$project''} then renderSpecShape v
      else if name = ''$facet'' then
        (case v of GMap m \<Rightarrow> braces (map (\<lambda>(k, w). k @ '':'' @
            (case w of GSlice sub \<Rightarrow> renderPipelineShape sub | _ \<Rightarrow> renderOwnedExprShape w [])) (sort_entries m))
         | _ \<Rightarrow> renderOwnedExprShape v name)
      else renderOwnedExprShape v name)"
| "renderSpecShape v =
     (case v of
        GMap kvs \<Rightarrow> braces (map (\<lambda>(k, w). k @ '':'' @
          (if is_composite w then renderOwnedExprShape w [] else renderSpecScalar w)) (sort_entries kvs))
      | GDoc kvs \<Rightarrow> braces (map (\<lambda>(k, w). k @ '':'' @
          (if is_composite w then renderOwnedExprShape w [] else renderSpecScalar w)) kvs)
      | GSlice xs \<Rightarrow> renderOwnedExprShape v []
      | _ \<Rightarrow> renderSpecScalar v)"
| "renderOwnedExprShape v owner =
     (case v of
        GMap kvs \<Rightarrow> braces (map (\<lambda>(k, w). k @ '':'' @ renderExprField owner k w) (sort_entries kvs))
      | GDoc kvs \<Rightarrow> braces (map (\<lambda>(k, w). k @ '':'' @ renderExprField owner k w) kvs)
      | GSlice xs \<Rightarrow> brackets (map (\<lambda>x. renderOwnedExprShape x []) xs)
      | GStr s \<Rightarrow> if has_prefix ''$'' s then s else renderShape v
      | _ \<Rightarrow> renderShape v)"
| "renderExprField owner k v =
     (if k = ''$literal'' then renderShape v
      else if k = ''pipeline'' then
        (case v of GSlice sub \<Rightarrow> renderPipelineShape sub | _ \<Rightarrow> renderOwnedExprShape v k)
      else if k = ''sortBy'' then
        (if (case v of GDoc _ \<Rightarrow> True | _ \<Rightarrow> False) \<or> owner = ''$sortArray'' then renderSpecShape v
         else renderOwnedExprShape v k)
      else renderOwnedExprShape v k)"
  by pat_completeness auto

definition render_size ::
    "(gval list + string \<times> gval) + (gval + (gval \<times> string) + (string \<times> string \<times> gval)) \<Rightarrow> nat \<times> nat" where
  "render_size = case_sum (case_sum (\<lambda>stages. (size_list size stages, 0)) (\<lambda>(_, v). (size v, 2)))
     (case_sum (\<lambda>v. (size v, 1)) (case_sum (\<lambda>(v, _). (size v, 0)) (\<lambda>(_, _, v). (size v, 2))))"

lemma entry_size_Map: "(k, v) \<in> set kvs \<Longrightarrow> size v < size (GMap kvs)"
  and entry_size_Doc: "(k, v) \<in> set kvs \<Longrightarrow> size v < size (GDoc kvs)"
  by (simp_all add: gval_entry_size)

lemma member_size_Slice: "x \<in> set xs \<Longrightarrow> size x < size (GSlice xs)"
  by (auto simp: less_Suc_eq_le intro: size_list_estimation')

lemma stage_size: "GMap stage \<in> set stages \<Longrightarrow> (k, v) \<in> set stage \<Longrightarrow> size v < size_list size stages"
  using size_list_estimation [of "GMap stage" stages "size v" size] entry_size_Map by blast

termination renderPipelineShape
proof (relation "inv_image (less_than <*lex*> less_than) render_size", goal_cases)
  case 1
  then show ?case by auto
qed (auto simp: render_size_def stage_size dest: entry_size_Map entry_size_Doc member_size_Slice)

declare renderPipelineShape.simps [simp del] renderStageShape.simps [simp del] renderSpecShape.simps [simp del]
  renderOwnedExprShape.simps [simp del] renderExprField.simps [simp del]

subsection \<open>Fields\<close>

text \<open>\<open>collectFilterFields v prefix out\<close> appends to \<open>out\<close>; here it returns what it appends.\<close>

function (sequential) collectFilterFields :: "gval \<Rightarrow> string \<Rightarrow> string list" where
  "collectFilterFields (GMap kvs) pre = concat (map (\<lambda>(k, v).
     if has_prefix ''$'' k then collectFilterFields v pre
     else (let next = (if pre \<noteq> [] then pre @ ''.'' @ k else k) in next # collectFilterFields v next))
     (sort_entries kvs))"
| "collectFilterFields (GSlice xs) pre = concat (map (\<lambda>x. collectFilterFields x pre) xs)"
| "collectFilterFields v pre = []"
  by pat_completeness auto
termination
  by (relation "measure (\<lambda>(v, _). size v)")
     (auto simp: gval_entry_size less_Suc_eq_le intro: size_list_estimation')

definition collectPipelineFields :: "gval list \<Rightarrow> string list" where
  "collectPipelineFields stages = sortUniqueStrings (concat (map (\<lambda>raw.
     case raw of GMap stage \<Rightarrow>
       (case map_of stage ''$match'' of Some m \<Rightarrow> collectFilterFields m [] | None \<Rightarrow> [])
     | _ \<Rightarrow> []) stages))"

subsection \<open>Shapes\<close>

record shape_options =
  so_projection :: "document option"
  so_limit :: int
  so_upsert :: bool

definition some_map :: "document option \<Rightarrow> document" where
  "some_map m = (case m of None \<Rightarrow> [] | Some kvs \<Rightarrow> kvs)"

definition some_list :: "'a list option \<Rightarrow> 'a list" where
  "some_list m = (case m of None \<Rightarrow> [] | Some xs \<Rightarrow> xs)"

definition identitySuffix :: "shape_options \<Rightarrow> string \<Rightarrow> string" where
  "identitySuffix opts opType =
     (if opType = ''find'' then
        (if some_map (so_projection opts) \<noteq> [] then ''|projection:'' @ renderSpecShape (GMap (some_map (so_projection opts))) else [])
        @ (if so_limit opts > 0 then ''|limit:'' @ itoa (so_limit opts) else [])
      else if opType = ''updateOne'' \<or> opType = ''updateMany'' then (if so_upsert opts then ''|upsert'' else [])
      else [])"

definition truncated :: string where "truncated = ''...(truncated)''"

definition trim_to :: "nat \<Rightarrow> string \<Rightarrow> string" where
  "trim_to n v = (if length v \<le> n then v else take n v @ truncated)"

definition filter_op :: "string \<Rightarrow> bool" where
  "filter_op t \<longleftrightarrow> t \<in> {''find'', ''updateOne'', ''updateMany'', ''deleteOne'', ''deleteMany''}"

definition buildOperationShape ::
    "string \<Rightarrow> document option \<Rightarrow> gval list option \<Rightarrow> shape_options \<Rightarrow> string \<times> string \<times> string list" where
  "buildOperationShape opType filt pipeline opts =
     (if filter_op opType then
        (let suffix = trim_to 512 (identitySuffix opts opType) in
         if some_map filt = [] then (opType @ ''|{}'' @ suffix, opType @ '' empty filter'', [])
         else
           (let fields = sortUniqueStrings (collectFilterFields (GMap (some_map filt)) []);
                shape = trim_to 512 (renderShape (GMap (some_map filt)))
            in (trim_to 512 (opType @ ''|'' @ shape) @ suffix,
                trim_to 512 (opType @ '' on fields: '' @ join_with '', '' fields), fields)))
      else if opType = ''aggregate'' then
        (if some_list pipeline = [] then (''aggregate|[]'', ''aggregate empty pipeline'', [])
         else
           (let fields = collectPipelineFields (some_list pipeline);
                shape = trim_to 512 (renderPipelineShape (some_list pipeline))
            in (trim_to 512 (''aggregate|'' @ shape),
                trim_to 512 (''aggregate match fields: '' @ join_with '', '' fields), fields)))
      else if opType = ''insert'' then (''insert|generated_doc'', ''insert generated document'', [])
      else if opType = ''insertMany'' then (''insertMany|generated_docs'', ''insertMany generated documents'', [])
      else if opType = ''transaction'' then (''transaction|batch'', ''transaction batch'', [])
      else (opType @ ''|(unknown)'', opType, []))"

definition summarizeQueryPreview :: "document option \<Rightarrow> nat \<Rightarrow> string" where
  "summarizeQueryPreview filt n = (if some_map filt = [] then [] else trim_to n (renderShape (GMap (some_map filt))))"

definition summarizePipelinePreview :: "gval list option \<Rightarrow> nat \<Rightarrow> string" where
  "summarizePipelinePreview p n = (if some_list p = [] then [] else trim_to n (renderShape (GSlice (some_list p))))"

subsection \<open>Definitions and identities\<close>

record query_def =
  qd_database :: string
  qd_collection :: string
  qd_operation :: string
  qd_id :: string
  qd_name :: string
  qd_label :: string
  qd_filter :: "document option"
  qd_pipeline :: "gval list option"
  qd_projection :: "document option"
  qd_limit :: int
  qd_update :: "document option"
  qd_upsert :: bool
  qd_sourceFile :: string
  qd_sourceType :: string
  qd_workloadName :: string
  qd_index :: int

definition empty_query :: query_def where
  "empty_query = \<lparr>qd_database = [], qd_collection = [], qd_operation = [], qd_id = [], qd_name = [], qd_label = [],
     qd_filter = None, qd_pipeline = None, qd_projection = None, qd_limit = 0, qd_update = None, qd_upsert = False,
     qd_sourceFile = [], qd_sourceType = [], qd_workloadName = [], qd_index = 0\<rparr>"

record op_identity =
  id_shapeKey :: string
  id_shapeSummary :: string
  id_fields :: "string list"
  id_queryLabel :: string
  id_querySource :: string
  id_workloadName :: string
  id_queryFile :: string
  id_queryDefID :: string
  id_querySummary :: string
  id_pipelineSummary :: string
  id_queryDefIndex :: int

definition or_else :: "string \<Rightarrow> string \<Rightarrow> string" where
  "or_else s d = (if s = [] then d else s)"

text \<open>\<open>buildQueryReferenceFromDefinition\<close>, filling the query part of an identity.\<close>

definition buildQueryReference :: "query_def \<Rightarrow> string \<Rightarrow> document option \<Rightarrow> gval list option \<Rightarrow> op_identity \<Rightarrow> op_identity" where
  "buildQueryReference q opType filt pipeline i =
     (let label0 = or_else (trim_space (qd_label q)) (trim_space (qd_name q));
          label = or_else label0 (if qd_index q \<ge> 0 then opType @ '' query #'' @ itoa (qd_index q + 1) else opType @ '' query'');
          file = or_else (trim_space (qd_sourceFile q)) ''runtime'';
          did = trim_space (qd_id q)
      in i\<lparr>id_queryLabel := label,
           id_querySource := or_else (trim_space (qd_sourceType q)) ''query_definition'',
           id_workloadName := or_else (trim_space (qd_workloadName q)) ''custom_workload'',
           id_queryFile := file,
           id_queryDefID := (if did = [] \<and> qd_index q \<ge> 0 then file @ '':'' @ itoa (qd_index q + 1) else did),
           id_querySummary := summarizeQueryPreview filt 256,
           id_pipelineSummary := summarizePipelinePreview pipeline 256,
           id_queryDefIndex := qd_index q\<rparr>)"

text \<open>A request with what generated and replayed operations add to it.\<close>

record exec_request = op_request +
  xr_q :: query_def
  xr_filterMap :: "document option"
  xr_pipelineIn :: "gval list option"
  xr_poolDoc :: "document option"
  xr_poolDocs :: "gval list"
  xr_line :: "op_line option"

definition as_map :: "gval \<Rightarrow> document option" where
  "as_map v = (case v of GMap kvs \<Rightarrow> Some kvs | _ \<Rightarrow> None)"

definition as_slice :: "gval \<Rightarrow> gval list option" where
  "as_slice v = (case v of GSlice xs \<Rightarrow> Some xs | _ \<Rightarrow> None)"

definition runtimeFilter :: "exec_request \<Rightarrow> document option" where
  "runtimeFilter r = as_map (runtimeValue (rq_filter r) False [])"

definition runtimeProjection :: "exec_request \<Rightarrow> document option" where
  "runtimeProjection r = as_map (runtimeValue (rq_projection r) False [])"

definition runtimePipeline :: "exec_request \<Rightarrow> gval list option" where
  "runtimePipeline r = as_slice (runtimeValue (rq_pipeline r) False [])"

definition shape_identity :: "string \<Rightarrow> document option \<Rightarrow> gval list option \<Rightarrow> int \<Rightarrow> query_def \<Rightarrow> op_identity" where
  "shape_identity opType filt pipeline limit q =
     (let (key, summary, fields) = buildOperationShape opType filt pipeline
            \<lparr>so_projection = qd_projection q, so_limit = limit, so_upsert = qd_upsert q\<rparr>
      in buildQueryReference q opType filt pipeline
          \<lparr>id_shapeKey = key, id_shapeSummary = summary, id_fields = fields, id_queryLabel = [], id_querySource = [],
           id_workloadName = [], id_queryFile = [], id_queryDefID = [], id_querySummary = [],
           id_pipelineSummary = [], id_queryDefIndex = 0\<rparr>)"

definition identity :: "exec_request \<Rightarrow> op_identity" where
  "identity r =
     (case xr_line r of
        None \<Rightarrow> shape_identity (rq_opType r) (xr_filterMap r) (xr_pipelineIn r) (rq_findLimit r) (xr_q r)
      | Some line \<Rightarrow>
         (case ol_shape line of
            Some sh \<Rightarrow>
              (let i = \<lparr>id_shapeKey = s_key sh, id_shapeSummary = s_summary sh, id_fields = s_fields sh,
                 id_queryLabel = [], id_querySource = [], id_workloadName = [], id_queryFile = [], id_queryDefID = [],
                 id_querySummary = s_query_summary sh, id_pipelineSummary = s_pipeline_summary sh, id_queryDefIndex = -1\<rparr>
               in (case ol_query line of None \<Rightarrow> i
                   | Some qr \<Rightarrow> i\<lparr>id_queryLabel := q_label qr, id_querySource := q_source qr,
                       id_workloadName := q_workload qr, id_queryFile := q_file qr, id_queryDefID := q_id qr,
                       id_queryDefIndex := q_index qr\<rparr>))
          | None \<Rightarrow>
              (let q0 = empty_query\<lparr>qd_projection := runtimeProjection r, qd_upsert := rq_upsert r, qd_index := -1\<rparr>;
                   q = (case ol_query line of None \<Rightarrow> q0
                        | Some qr \<Rightarrow> q0\<lparr>qd_name := q_name qr, qd_label := q_label qr, qd_sourceType := q_source qr,
                            qd_workloadName := q_workload qr, qd_sourceFile := q_file qr, qd_id := q_id qr,
                            qd_index := q_index qr\<rparr>)
               in shape_identity (rq_opType r) (runtimeFilter r) (runtimePipeline r) (rq_findLimit r) q)))"

definition recordQueryRef :: "query_def \<Rightarrow> op_identity \<Rightarrow> query_ref" where
  "recordQueryRef q i = \<lparr>q_name = qd_name q, q_index = id_queryDefIndex i, q_label = id_queryLabel i,
     q_source = id_querySource i, q_workload = id_workloadName i, q_file = id_queryFile i, q_id = id_queryDefID i\<rparr>"

definition recordShapeRef :: "op_identity \<Rightarrow> shape_ref" where
  "recordShapeRef i = \<lparr>s_key = id_shapeKey i, s_summary = id_shapeSummary i, s_fields = id_fields i,
     s_query_summary = id_querySummary i, s_pipeline_summary = id_pipelineSummary i\<rparr>"

subsection \<open>Map iteration order\<close>

text \<open>A map rendered entry by entry in sorted key order.\<close>

definition entry_strings :: "(string \<Rightarrow> gval \<Rightarrow> 'a) \<Rightarrow> document \<Rightarrow> 'a list" where
  "entry_strings g kvs = map (\<lambda>(k, v). g k v) (sort_entries kvs)"

lemma entry_strings_keyed: "entry_strings g kvs = map snd (sort_entries (map (\<lambda>(k, v). (k, g k v)) kvs))"
proof -
  have ins: "insort_key fst (k, g k v) (map (\<lambda>(k, v). (k, g k v)) ys)
      = map (\<lambda>(k, v). (k, g k v)) (insort_key fst (k, v) ys)" for k v ys
    by (induction ys) auto
  have "sort_entries (map (\<lambda>(k, v). (k, g k v)) kvs) = map (\<lambda>(k, v). (k, g k v)) (sort_entries kvs)"
    unfolding sort_entries_def by (induction kvs) (auto simp: ins)
  then show ?thesis by (simp add: entry_strings_def comp_def split_beta)
qed

lemma entry_strings_perm:
  "mset kvs = mset kvs' \<Longrightarrow> distinct (map fst kvs) \<Longrightarrow> entry_strings g kvs = entry_strings g kvs'"
  by (simp add: entry_strings_def sort_entries_unique)

lemma entry_strings_in:
  "(\<And>k. g k v = g k w) \<Longrightarrow> entry_strings g (xs @ (k, v) # ys) = entry_strings g (xs @ (k, w) # ys)"
  by (simp add: entry_strings_keyed)

lemma doc_strings_in:
  "(\<And>k. g k v = g k w) \<Longrightarrow> map (\<lambda>(k, v). g k v) (xs @ (k, v) # ys) = map (\<lambda>(k, v). g k v) (xs @ (k, w) # ys)"
  by simp

lemma renderShape_entries:
  "renderShape (GMap kvs) = braces (entry_strings (\<lambda>k v. k @ '':'' @ renderShape v) kvs)"
  by (simp add: entry_strings_def)

lemma renderShape_same: "same_value v w \<Longrightarrow> renderShape v = renderShape w"
proof (induction rule: same_value.induct)
  case (same_perm_Map kvs kvs')
  show ?case unfolding renderShape_entries entry_strings_perm [OF same_perm_Map] ..
next
  case (same_in_Map v w xs k ys)
  have "entry_strings (\<lambda>k v. k @ '':'' @ renderShape v) (xs @ (k, v) # ys)
      = entry_strings (\<lambda>k v. k @ '':'' @ renderShape v) (xs @ (k, w) # ys)"
    by (rule entry_strings_in) (simp only: same_in_Map.IH)
  then show ?case by (simp only: renderShape_entries)
next
  case (same_trans u v w)
  then show ?case by simp
qed simp_all

lemma is_composite_same: "same_value v w \<Longrightarrow> is_composite v = is_composite w"
  by (induction rule: same_value.induct) simp_all

fun is_container :: "gval \<Rightarrow> bool" where
  "is_container (GMap _) = True"
| "is_container (GM _) = True"
| "is_container (GTMap _) = True"
| "is_container (GDoc _) = True"
| "is_container (GSlice _) = True"
| "is_container (GA _) = True"
| "is_container (GTSlice _) = True"
| "is_container _ = False"

lemma same_value_leaf: "same_value v w \<Longrightarrow> v = w \<or> is_container v \<and> is_container w"
  by (induction rule: same_value.induct) auto

lemma renderSpecScalar_container: "is_container v \<Longrightarrow> renderSpecScalar v = renderShape v"
  by (cases v) simp_all

lemma renderSpecScalar_same: "same_value v w \<Longrightarrow> renderSpecScalar v = renderSpecScalar w"
  using same_value_leaf [of v w] renderShape_same [of v w] by (auto simp: renderSpecScalar_container)

text \<open>One entry of a specification, of a facet, and one stage.\<close>

definition spec_value :: "gval \<Rightarrow> string" where
  "spec_value w = (if is_composite w then renderOwnedExprShape w [] else renderSpecScalar w)"

definition facet_value :: "gval \<Rightarrow> string" where
  "facet_value w = (case w of GSlice sub \<Rightarrow> renderPipelineShape sub | _ \<Rightarrow> renderOwnedExprShape w [])"

definition pipe_value :: "gval \<Rightarrow> string \<Rightarrow> string" where
  "pipe_value v k = (case v of GSlice sub \<Rightarrow> renderPipelineShape sub | _ \<Rightarrow> renderOwnedExprShape v k)"

definition is_GDoc :: "gval \<Rightarrow> bool" where
  "is_GDoc v \<longleftrightarrow> (case v of GDoc _ \<Rightarrow> True | _ \<Rightarrow> False)"

definition stage_string :: "gval \<Rightarrow> string" where
  "stage_string raw = (case raw of
     GMap stage \<Rightarrow> braces (entry_strings (\<lambda>k v. k @ '':'' @ renderStageShape k v) stage)
   | _ \<Rightarrow> renderShape raw)"

lemma pipeline_strings: "renderPipelineShape stages = brackets (map stage_string stages)"
  by (simp add: renderPipelineShape.simps stage_string_def [abs_def] entry_strings_def cong: gval.case_cong)

lemma owned_strings:
  "renderOwnedExprShape (GMap kvs) o' = braces (entry_strings (\<lambda>k w. k @ '':'' @ renderExprField o' k w) kvs)"
  "renderOwnedExprShape (GDoc kvs) o' = braces (map (\<lambda>(k, w). k @ '':'' @ renderExprField o' k w) kvs)"
  "renderOwnedExprShape (GSlice xs) o' = brackets (map (\<lambda>x. renderOwnedExprShape x []) xs)"
  by (simp_all add: renderOwnedExprShape.simps [of "GMap kvs"] renderOwnedExprShape.simps [of "GDoc kvs"]
      renderOwnedExprShape.simps [of "GSlice xs"] entry_strings_def)

lemma owned_other: "\<not> is_composite v \<Longrightarrow> renderOwnedExprShape v o' = renderOwnedExprShape v []"
  using renderOwnedExprShape.simps [of v o'] renderOwnedExprShape.simps [of v "[]"] by (cases v) simp_all

lemma spec_strings:
  "renderSpecShape (GMap kvs) = braces (entry_strings (\<lambda>k w. k @ '':'' @ spec_value w) kvs)"
  "renderSpecShape (GDoc kvs) = braces (map (\<lambda>(k, w). k @ '':'' @ spec_value w) kvs)"
  "renderSpecShape (GSlice xs) = renderOwnedExprShape (GSlice xs) []"
  "\<not> is_composite v \<Longrightarrow> renderSpecShape v = renderSpecScalar v"
  by (simp_all add: renderSpecShape.simps [of "GMap kvs"] renderSpecShape.simps [of "GDoc kvs"]
      renderSpecShape.simps [of "GSlice xs"] entry_strings_def spec_value_def) (cases v; simp add: renderSpecShape.simps)

lemma field_strings: "renderExprField o' k v =
   (if k = ''$literal'' then renderShape v else if k = ''pipeline'' then pipe_value v k
    else if k = ''sortBy'' then (if is_GDoc v \<or> o' = ''$sortArray'' then renderSpecShape v else renderOwnedExprShape v k)
    else renderOwnedExprShape v k)"
  by (cases "k = ''pipeline''") (simp_all add: renderExprField.simps pipe_value_def is_GDoc_def)

definition facet_string :: "gval \<Rightarrow> string" where
  "facet_string v = (case v of GMap m \<Rightarrow> braces (entry_strings (\<lambda>k w. k @ '':'' @ facet_value w) m)
     | _ \<Rightarrow> renderOwnedExprShape v ''$facet'')"

lemma stage_strings: "renderStageShape name v =
   (if name = ''$match'' then renderShape v
    else if name \<in> {''$sort'', ''$limit'', ''$skip'', ''$sample'', ''$project''} then renderSpecShape v
    else if name = ''$facet'' then facet_string v else renderOwnedExprShape v name)"
  by (simp add: renderStageShape.simps facet_string_def facet_value_def entry_strings_def cong: gval.case_cong)

definition same_render :: "gval \<Rightarrow> gval \<Rightarrow> bool" where
  "same_render v w \<longleftrightarrow>
     (\<forall>o'. renderOwnedExprShape v o' = renderOwnedExprShape w o')
     \<and> renderSpecShape v = renderSpecShape w \<and> spec_value v = spec_value w
     \<and> (\<forall>k. pipe_value v k = pipe_value w k) \<and> facet_value v = facet_value w
     \<and> stage_string v = stage_string w
     \<and> (\<forall>n. renderStageShape n v = renderStageShape n w)
     \<and> (\<forall>o' k. renderExprField o' k v = renderExprField o' k w)"

lemma is_GDoc_same: "same_value v w \<Longrightarrow> is_GDoc v = is_GDoc w"
  by (induction rule: same_value.induct) (simp_all add: is_GDoc_def)

lemma same_renderI:
  assumes "same_value v w" "\<And>o'. renderOwnedExprShape v o' = renderOwnedExprShape w o'"
    and "renderSpecShape v = renderSpecShape w" "facet_string v = facet_string w" "stage_string v = stage_string w"
    and "facet_value v = facet_value w" "\<And>k. pipe_value v k = pipe_value w k"
  shows "same_render v w"
proof -
  note shape = renderShape_same [OF assms(1)]
  have "spec_value v = spec_value w"
    unfolding spec_value_def assms(2) is_composite_same [OF assms(1)] renderSpecScalar_same [OF assms(1)] ..
  moreover have "renderStageShape n v = renderStageShape n w" for n
    unfolding stage_strings shape assms(2-4) ..
  moreover have "renderExprField o' k v = renderExprField o' k w" for o' k
    unfolding field_strings shape assms(2,3,7) is_GDoc_same [OF assms(1)] ..
  ultimately show ?thesis
    unfolding same_render_def by (intro conjI allI assms(2-))
qed

text \<open>Values no renderer looks into.\<close>

lemma same_render_opaque:
  assumes "same_value v w" "is_container v" "is_container w" "\<not> is_composite v" "\<not> is_composite w"
  shows "same_render v w"
proof -
  have ow: "renderOwnedExprShape x o' = ''<val>''" if "is_container x" "\<not> is_composite x" for x o'
    using that renderOwnedExprShape.simps [of x o'] by (cases x) simp_all
  have sp: "renderSpecShape x = ''<val>''" if "is_container x" "\<not> is_composite x" for x
    using that renderSpecShape.simps [of x] by (cases x) simp_all
  have st: "facet_string x = renderOwnedExprShape x ''$facet''" "stage_string x = renderShape x"
    "facet_value x = renderOwnedExprShape x []" "pipe_value x k = renderOwnedExprShape x k"
    if "\<not> is_composite x" for x k
    using that by (cases x; simp add: facet_string_def stage_string_def facet_value_def pipe_value_def)+
  show ?thesis
    using assms(1) by (rule same_renderI) (simp_all add: ow sp st assms(2-) renderShape_same [OF assms(1)])
qed

lemmas value_of_Map = facet_string_def [of "GMap kvs" for kvs, simplified] stage_string_def [of "GMap kvs" for kvs, simplified]
  facet_value_def [of "GMap kvs" for kvs, simplified] pipe_value_def [of "GMap kvs" for kvs, simplified]

lemma same_render_Map:
  assumes "same_value (GMap kvs) (GMap kvs')"
    and "\<And>g :: string \<Rightarrow> gval \<Rightarrow> string. g \<in> {\<lambda>k v. k @ '':'' @ spec_value v, \<lambda>k v. k @ '':'' @ facet_value v,
        \<lambda>k v. k @ '':'' @ renderStageShape k v} \<union> range (\<lambda>o' k v. k @ '':'' @ renderExprField o' k v)
      \<Longrightarrow> entry_strings g kvs = entry_strings g kvs'"
  shows "same_render (GMap kvs) (GMap kvs')"
  using assms(1) by (rule same_renderI) (simp_all add: owned_strings spec_strings value_of_Map assms(2))

lemma same_render_trans: "same_render u v \<Longrightarrow> same_render v w \<Longrightarrow> same_render u w"
  by (simp add: same_render_def)

lemma same_value_render: "same_value v w \<Longrightarrow> same_render v w"
proof (induction rule: same_value.induct)
  case (same_refl v)
  then show ?case by (simp add: same_render_def)
next
  case (same_trans u v w)
  then show ?case by (blast intro: same_render_trans)
next
  case (same_perm_Map kvs kvs')
  show ?case
    using same_value.same_perm_Map [OF same_perm_Map] entry_strings_perm [OF same_perm_Map]
    by (rule same_render_Map)
next
  case (same_in_Map v w xs k ys)
  show ?case
  proof (rule same_render_Map [OF same_value.same_in_Map [OF same_in_Map.hyps]])
    fix g :: "string \<Rightarrow> gval \<Rightarrow> string"
    assume "g \<in> {\<lambda>k v. k @ '':'' @ spec_value v, \<lambda>k v. k @ '':'' @ facet_value v,
        \<lambda>k v. k @ '':'' @ renderStageShape k v} \<union> range (\<lambda>o' k v. k @ '':'' @ renderExprField o' k v)"
    then have "g j v = g j w" for j
      using same_in_Map.IH by (auto simp: same_render_def)
    then show "entry_strings g (xs @ (k, v) # ys) = entry_strings g (xs @ (k, w) # ys)"
      by (rule entry_strings_in)
  qed
next
  case (same_in_Doc v w xs k ys)
  have "same_value (GDoc (xs @ (k, v) # ys)) (GDoc (xs @ (k, w) # ys))"
    using same_in_Doc.hyps by (rule same_value.same_in_Doc)
  then show ?case
    using renderShape_same [OF same_in_Doc.hyps] same_in_Doc.IH
    by (intro same_renderI)
       (simp_all add: owned_strings spec_strings facet_string_def stage_string_def facet_value_def pipe_value_def same_render_def)
next
  case (same_in_Slice v w us vs)
  have "same_value (GSlice (us @ v # vs)) (GSlice (us @ w # vs))"
    using same_in_Slice.hyps by (rule same_value.same_in_Slice)
  then show ?case
    using renderShape_same [OF same_in_Slice.hyps] same_in_Slice.IH
    by (intro same_renderI)
       (simp_all add: owned_strings spec_strings facet_string_def stage_string_def facet_value_def pipe_value_def
          same_render_def pipeline_strings)
qed (rule same_render_opaque; (erule same_value.intros)?; simp)+

lemma collectFilterFields_entries:
  "collectFilterFields (GMap kvs) p = concat (entry_strings (\<lambda>k v.
     if has_prefix ''$'' k then collectFilterFields v p
     else (let next = (if p \<noteq> [] then p @ ''.'' @ k else k) in next # collectFilterFields v next)) kvs)"
  by (simp add: entry_strings_def)

lemma collectFilterFields_same: "same_value v w \<Longrightarrow> collectFilterFields v p = collectFilterFields w p"
proof (induction arbitrary: p rule: same_value.induct)
  case (same_perm_Map kvs kvs')
  show ?case unfolding collectFilterFields_entries entry_strings_perm [OF same_perm_Map] ..
next
  case (same_in_Map v w xs k ys)
  show ?case unfolding collectFilterFields_entries
    by (rule arg_cong [where f = concat], rule entry_strings_in) (simp only: same_in_Map.IH)
next
  case (same_trans u v w)
  show ?case unfolding same_trans.IH ..
qed simp_all

definition stage_fields :: "gval \<Rightarrow> string list" where
  "stage_fields raw = (case raw of GMap stage \<Rightarrow>
     (case map_of stage ''$match'' of Some m \<Rightarrow> collectFilterFields m [] | None \<Rightarrow> []) | _ \<Rightarrow> [])"

lemma collectPipelineFields_stages: "collectPipelineFields stages = sortUniqueStrings (concat (map stage_fields stages))"
  by (simp add: collectPipelineFields_def stage_fields_def [abs_def])

lemma map_of_perm:
  assumes "mset kvs = mset kvs'" "distinct (map fst kvs)"
  shows "map_of kvs = map_of kvs'"
proof -
  have "mset (map fst kvs) = mset (map fst kvs')" using assms(1) by simp
  then have "distinct (map fst kvs')" using assms(2) mset_eq_imp_distinct_iff by blast
  then show ?thesis
    using assms mset_eq_setD [OF assms(1)] by (metis map_of_inject_set)
qed

lemma stage_fields_same: "same_value v w \<Longrightarrow> stage_fields v = stage_fields w"
proof (induction rule: same_value.induct)
  case (same_perm_Map kvs kvs')
  show ?case by (simp add: stage_fields_def map_of_perm [OF same_perm_Map])
next
  case (same_in_Map v w xs k ys)
  then show ?case
    using collectFilterFields_same [OF same_in_Map.hyps]
    by (auto simp: stage_fields_def map_add_def split: option.split)
qed (simp_all add: stage_fields_def)

lemma pipeline_same:
  assumes "list_all2 same_value p p'"
  shows "renderPipelineShape p = renderPipelineShape p' \<and> collectPipelineFields p = collectPipelineFields p'
    \<and> renderShape (GSlice p) = renderShape (GSlice p') \<and> (p = [] \<longleftrightarrow> p' = [])"
proof -
  have "map stage_string p = map stage_string p' \<and> map stage_fields p = map stage_fields p'
      \<and> map renderShape p = map renderShape p'"
    using assms
  proof (induction rule: list_all2_induct)
    case (Cons v p w p')
    then show ?case
      using same_value_render [OF Cons.hyps(1)] stage_fields_same [OF Cons.hyps(1)] renderShape_same [OF Cons.hyps(1)]
      by (simp add: same_render_def)
  qed simp
  with assms show ?thesis
    by (auto simp: pipeline_strings collectPipelineFields_stages)
qed

lemma same_map_empty: "same_value (GMap f) (GMap f') \<Longrightarrow> f = [] \<longleftrightarrow> f' = []"
proof -
  have "same_value v w \<Longrightarrow> (v = GMap [] \<longleftrightarrow> w = GMap [])" for v w
    by (induction rule: same_value.induct) auto
  from this [of "GMap f" "GMap f'"] show "same_value (GMap f) (GMap f') \<Longrightarrow> ?thesis" by simp
qed

text \<open>Optional maps and pipelines that differ only in iteration order.\<close>

definition same_map :: "document option \<Rightarrow> document option \<Rightarrow> bool" where
  "same_map f f' \<longleftrightarrow> same_value (GMap (some_map f)) (GMap (some_map f'))"

definition same_pipeline :: "gval list option \<Rightarrow> gval list option \<Rightarrow> bool" where
  "same_pipeline p p' \<longleftrightarrow> list_all2 same_value (some_list p) (some_list p')"

lemma same_map_cong:
  assumes "same_map f f'"
  shows "renderShape (GMap (some_map f)) = renderShape (GMap (some_map f'))"
    and "renderSpecShape (GMap (some_map f)) = renderSpecShape (GMap (some_map f'))"
    and "collectFilterFields (GMap (some_map f)) [] = collectFilterFields (GMap (some_map f')) []"
    and "some_map f = [] \<longleftrightarrow> some_map f' = []"
  using assms renderShape_same same_value_render collectFilterFields_same same_map_empty
  unfolding same_map_def same_render_def by blast+

subsection \<open>Redaction\<close>

text \<open>The value without its literals: only keys, the kinds of scalars and the two placeholders
\<open>renderShape\<close> keeps.\<close>

function (sequential) redact :: "gval \<Rightarrow> gval" where
  "redact (GMap kvs) = GMap (map (\<lambda>(k, v). (k, redact v)) kvs)"
| "redact (GDoc kvs) = GDoc (map (\<lambda>(k, v). (k, redact v)) kvs)"
| "redact (GSlice xs) = GSlice (map redact xs)"
| "redact (GStr s) = GStr (if s = ''<int>'' \<or> s = ''<string>'' then s else [])"
| "redact (GInt _) = GInt 0"
| "redact (GInt32 _) = GInt 0"
| "redact (GInt64 _) = GInt 0"
| "redact (GFloat _) = GInt 0"
| "redact (GBool _) = GBool False"
| "redact GNil = GNil"
| "redact _ = GScalar []"
  by pat_completeness auto
termination
  by (relation "measure size") (auto simp: gval_entry_size less_Suc_eq_le intro: size_list_estimation')

lemma redact_entries: "entry_strings g (map (\<lambda>(k, v). (k, redact v)) kvs) = entry_strings (\<lambda>k v. g k (redact v)) kvs"
proof -
  have "map (\<lambda>(k, v). (k, g k v)) (map (\<lambda>(k, v). (k, redact v)) kvs) = map (\<lambda>(k, v). (k, g k (redact v))) kvs"
    by (simp add: split_beta)
  then show ?thesis by (simp only: entry_strings_keyed)
qed

lemma entry_strings_cong:
  "(\<And>k v. (k, v) \<in> set kvs \<Longrightarrow> g k v = h k v) \<Longrightarrow> entry_strings g kvs = entry_strings h kvs"
  by (auto simp: entry_strings_def intro!: map_cong)

lemma renderShape_redact: "renderShape (redact v) = renderShape v"
proof (induction v rule: redact.induct)
  case (1 kvs)
  have "entry_strings (\<lambda>k v. k @ '':'' @ renderShape (redact v)) kvs = entry_strings (\<lambda>k v. k @ '':'' @ renderShape v) kvs"
    by (rule entry_strings_cong) (simp add: 1)
  then show ?case by (simp only: redact.simps renderShape_entries redact_entries)
next
  case (2 kvs)
  then show ?case by (auto simp: comp_def intro!: arg_cong [where f = braces] map_cong)
next
  case (3 xs)
  then show ?case by (simp cong: map_cong)
qed simp_all

lemma collectFilterFields_redact: "collectFilterFields (redact v) p = collectFilterFields v p"
proof (induction v arbitrary: p rule: redact.induct)
  case (1 kvs)
  show ?case unfolding redact.simps collectFilterFields_entries redact_entries
    by (rule arg_cong [where f = concat], rule entry_strings_cong) (simp add: 1 Let_def)
next
  case (3 xs)
  then show ?case by (simp add: comp_def cong: map_cong)
qed simp_all

subsection \<open>Properties\<close>

text \<open>C17: a shape does not depend on the iteration order of Go maps. Two runs that build the same
operation, with its filter, pipeline, projection and the maps nested anywhere in them visited in any
order, report the same key, summary, fields, previews and query reference: the statistics of two runs
group the same operations.\<close>

theorem shape_ignores_map_order:
  assumes "same_map f f'" and "same_pipeline p p'" and "same_map (qd_projection q) j"
  shows "shape_identity opType f' p' limit (q\<lparr>qd_projection := j\<rparr>) = shape_identity opType f p limit q"
proof -
  note pipes = pipeline_same [OF assms(2) [unfolded same_pipeline_def]]
  note filt = same_map_cong [OF assms(1)] and proj = same_map_cong [OF assms(3)]
  have empty: "some_list p = [] \<longleftrightarrow> some_list p' = []" using pipes by blast
  have shape: "buildOperationShape opType f' p' \<lparr>so_projection = j, so_limit = limit, so_upsert = qd_upsert q\<rparr>
      = buildOperationShape opType f p \<lparr>so_projection = qd_projection q, so_limit = limit, so_upsert = qd_upsert q\<rparr>"
    unfolding buildOperationShape_def identitySuffix_def shape_options.simps
      filt proj pipes [THEN conjunct1] pipes [THEN conjunct2, THEN conjunct1] empty ..
  have previews: "summarizeQueryPreview f' n = summarizeQueryPreview f n"
    "summarizePipelinePreview p' n = summarizePipelinePreview p n" for n
    unfolding summarizeQueryPreview_def summarizePipelinePreview_def filt empty
      pipes [THEN conjunct2, THEN conjunct2, THEN conjunct1] by (rule refl)+
  let ?q = "q\<lparr>qd_projection := j\<rparr>"
  have sels: "qd_projection ?q = j" "qd_upsert ?q = qd_upsert q" "qd_label ?q = qd_label q" "qd_name ?q = qd_name q"
    "qd_index ?q = qd_index q" "qd_sourceFile ?q = qd_sourceFile q" "qd_id ?q = qd_id q"
    "qd_sourceType ?q = qd_sourceType q" "qd_workloadName ?q = qd_workloadName q"
    by simp_all
  show ?thesis
    unfolding shape_identity_def buildQueryReference_def sels shape previews ..
qed

theorem shape_ignores_map_order_witness:
  "shape_identity ''find'' (Some [(''b'', GInt 1), (''a'', GStr ''x'')]) None 5 empty_query
   = shape_identity ''find'' (Some [(''a'', GStr ''x''), (''b'', GInt 1)]) None 5 empty_query"
proof -
  have f: "same_map (Some [(''a'', GStr ''x''), (''b'', GInt 1)]) (Some [(''b'', GInt 1), (''a'', GStr ''x'')])"
    unfolding same_map_def some_map_def by (simp add: add_mset_commute same_perm_Map)
  have p: "same_pipeline None None" and j: "same_map (qd_projection empty_query) None"
    by (simp_all add: same_pipeline_def some_list_def same_map_def empty_query_def same_refl)
  have "empty_query\<lparr>qd_projection := None\<rparr> = empty_query" by (simp add: empty_query_def)
  with shape_ignores_map_order [OF f p j, of "''find''" 5] show ?thesis by (simp only:)
qed

text \<open>C18: a shape never shows a literal of a filter. Everything an operation on a filter reports about
itself (key, summary, fields, previews, query reference) is the same for two filters that differ only
in their literal values, so no value of the data can be read off the statistics or the outcome files.\<close>

theorem shape_redacts_literals:
  assumes "redact (GMap (some_map f)) = redact (GMap (some_map f'))"
  shows "shape_identity opType f p limit q = shape_identity opType f' p limit q"
proof -
  have shape: "renderShape (GMap (some_map f)) = renderShape (GMap (some_map f'))"
    using arg_cong [OF assms, of renderShape] by (simp only: renderShape_redact)
  have fields: "collectFilterFields (GMap (some_map f)) [] = collectFilterFields (GMap (some_map f')) []"
    using arg_cong [OF assms, of "\<lambda>v. collectFilterFields v []"] by (simp only: collectFilterFields_redact)
  have "length (some_map f) = length (some_map f')"
    using arg_cong [OF assms, of "\<lambda>v. case v of GMap kvs \<Rightarrow> length kvs | _ \<Rightarrow> 0"] by simp
  then have empty: "some_map f = [] \<longleftrightarrow> some_map f' = []" by (metis length_0_conv)
  show ?thesis
    unfolding shape_identity_def buildOperationShape_def buildQueryReference_def summarizeQueryPreview_def
      shape fields empty ..
qed

theorem shape_redacts_literals_witness:
  "shape_identity ''deleteOne'' (Some [(''ssn'', GStr ''078-05-1120''), (''age'', GMap [(''$gt'', GInt 40)])]) None 0 empty_query
   = shape_identity ''deleteOne'' (Some [(''ssn'', GStr ''<redacted>''), (''age'', GMap [(''$gt'', GFloat 7)])]) None 0 empty_query"
  by (rule shape_redacts_literals) (simp add: some_map_def)

text \<open>a replay reports what the recorded run reported. The shape and query reference stored with a
recorded operation restore the whole identity of the request, field by field, when the line is replayed,
whatever request the replay decoded from it.\<close>

theorem replay_reports_recorded_identity:
  assumes "i = identity r" and "ol_shape line = Some (recordShapeRef i)"
    and "ol_query line = Some (recordQueryRef (xr_q r) i)" and "xr_line r' = Some line"
  shows "identity r' = i"
proof -
  have "identity r' = \<lparr>id_shapeKey = id_shapeKey i, id_shapeSummary = id_shapeSummary i, id_fields = id_fields i,
      id_queryLabel = id_queryLabel i, id_querySource = id_querySource i, id_workloadName = id_workloadName i,
      id_queryFile = id_queryFile i, id_queryDefID = id_queryDefID i, id_querySummary = id_querySummary i,
      id_pipelineSummary = id_pipelineSummary i, id_queryDefIndex = id_queryDefIndex i\<rparr>"
    using assms(2-) by (simp add: identity_def [of r'] recordShapeRef_def recordQueryRef_def Let_def)
  then show ?thesis by simp
qed

definition sample_request :: exec_request where
  "sample_request = op_request.extend (empty_request ''find'' \<lparr>c_db = ''shop'', c_name = ''orders''\<rparr> False)
     \<lparr>xr_q = empty_query\<lparr>qd_label := ''by customer''\<rparr>, xr_filterMap = Some [(''customer'', GInt 7)], xr_pipelineIn = None,
      xr_poolDoc = None, xr_poolDocs = [], xr_line = None\<rparr>"

theorem replay_reports_recorded_identity_witness:
  "identity (sample_request\<lparr>xr_line := Some (sample_tx_line\<lparr>ol_shape := Some (recordShapeRef (identity sample_request)),
      ol_query := Some (recordQueryRef (xr_q sample_request) (identity sample_request))\<rparr>)\<rparr>) = identity sample_request"
  by (rule replay_reports_recorded_identity [OF refl]) simp_all

end
