(* ===== verification/OutcomeCapture.thy ===== *)
theory OutcomeCapture
  imports Outcomes RecordPool
begin

text \<open>
  What an executed operation reports (\<open>internal/mongo/workload_outcome.go\<close> and \<open>ResultHash\<close> of
  \<open>internal/workloadrec/outcome.go\<close>): the code and name of an error, the documents a cursor returned
  with their order-sensitive checksum, and the outcome of fast inserts and transactions.

  A driver error is what the driver's predicates say of it (\<open>errors.As\<close> for its three exception types,
  \<open>errors.Is\<close>, \<open>IsTimeout\<close>, \<open>IsNetworkError\<close>). A raw document is its bytes; \<open>parse\<close> is the BSON
  parser of the driver, \<open>ext\<close> its Extended JSON encoder and \<open>sha\<close> SHA-256 in hexadecimal.
\<close>

subsection \<open>Errors\<close>

record driver_error =
  er_command :: "(int \<times> string) option"                                  \<comment> \<open>\<open>CommandError\<close>: code and name\<close>
  er_write :: "(int list \<times> (int \<times> string) option) option"             \<comment> \<open>\<open>WriteException\<close>\<close>
  er_bulk :: "((int \<times> int) list \<times> (int \<times> string) option) option"     \<comment> \<open>\<open>BulkWriteException\<close>: index and code\<close>
  er_canceled :: bool
  er_deadline :: bool
  er_timeout :: bool
  er_network :: bool

definition writeErrorNames :: "(int \<times> string) list" where
  "writeErrorNames =
    [(2, ''BadValue''), (11, ''UserNotFound''), (13, ''Unauthorized''), (26, ''NamespaceNotFound''),
     (50, ''MaxTimeMSExpired''), (52, ''DollarPrefixedFieldName''), (55, ''InvalidDBRef''), (56, ''EmptyFieldName''),
     (57, ''DottedFieldName''), (61, ''ShardKeyNotFound''), (66, ''ImmutableField''), (112, ''WriteConflict''),
     (121, ''DocumentValidationFailure''), (251, ''NoSuchTransaction''), (10334, ''BSONObjectTooLarge''),
     (11000, ''DuplicateKey''), (17419, ''DocumentTooLarge'')]"

definition codeName :: "int \<Rightarrow> string \<Rightarrow> string" where
  "codeName code name = (if name \<noteq> [] then name else case map_of writeErrorNames code of None \<Rightarrow> [] | Some n \<Rightarrow> n)"

definition client_category :: "driver_error \<Rightarrow> string" where
  "client_category e =
     (if er_canceled e then ''cancelled''
      else if er_deadline e \<or> er_timeout e then ''client_timeout''
      else if er_network e then ''network_error''
      else ''client_error'')"

definition concern :: "(int \<times> string) option \<Rightarrow> (int \<times> string) option" where
  "concern c = map_option (\<lambda>(code, name). (code, codeName code name)) c"

definition first_code :: "int list \<Rightarrow> (int \<times> string) option" where
  "first_code codes = (case codes of [] \<Rightarrow> None | c # _ \<Rightarrow> Some (c, codeName c []))"

definition first_some :: "'a option \<Rightarrow> 'a option \<Rightarrow> 'a option" where
  "first_some x y = (if x = None then y else x)"

definition errorCodeName :: "driver_error \<Rightarrow> int \<times> string" where
  "errorCodeName e =
     (case er_command e of
        Some (code, name) \<Rightarrow> (code, codeName code name)
      | None \<Rightarrow>
         (case (case er_write e of None \<Rightarrow> None | Some (codes, c) \<Rightarrow> first_some (first_code codes) (concern c)) of
            Some r \<Rightarrow> r
          | None \<Rightarrow>
             (case (case er_bulk e of None \<Rightarrow> None | Some (ws, c) \<Rightarrow> first_some (first_code (map snd ws)) (concern c)) of
                Some r \<Rightarrow> r
              | None \<Rightarrow> (0, client_category e))))"

subsection \<open>Outcomes\<close>

definition empty_outcome :: outcome where
  "empty_outcome = \<lparr>oc_latencyUS = 0, oc_ok = False, oc_errorCode = 0, oc_errorName = [], oc_returned = None,
     oc_checksum = [], oc_inserted = None, oc_matched = None, oc_modified = None, oc_upserted = None,
     oc_deleted = None, oc_transaction = []\<rparr>"

definition newOutcome :: "bool \<Rightarrow> outcome option" where
  "newOutcome outcomes = (if outcomes then Some empty_outcome else None)"

definition finishOutcome :: "int \<Rightarrow> driver_error option \<Rightarrow> outcome \<Rightarrow> outcome" where
  "finishOutcome dur err out =
     (let (code, name) = (case err of None \<Rightarrow> (0, []) | Some e \<Rightarrow> errorCodeName e)
      in out\<lparr>oc_latencyUS := go_div dur 1000, oc_ok := err = None, oc_errorCode := code, oc_errorName := name\<rparr>)"

definition insertedCount :: "int \<Rightarrow> driver_error option \<Rightarrow> int" where
  "insertedCount n err =
     (case err of None \<Rightarrow> n
      | Some e \<Rightarrow> (case er_bulk e of Some (w # _, _) \<Rightarrow> fst w | _ \<Rightarrow> 0))"

record fast_reply =
  fr_n :: int
  fr_writeErrors :: "int list"
  fr_concern :: "(int \<times> string) option"

definition fastInsertOutcome :: "int \<Rightarrow> fast_reply \<Rightarrow> driver_error option \<Rightarrow> outcome \<Rightarrow> outcome" where
  "fastInsertOutcome dur reply err out =
     (let o1 = finishOutcome dur err out in
      if err \<noteq> None then o1\<lparr>oc_inserted := Some 0\<rparr>
      else let o2 = o1\<lparr>oc_inserted := Some (fr_n reply)\<rparr> in
        case first_some (first_code (fr_writeErrors reply)) (concern (fr_concern reply)) of
          Some (code, name) \<Rightarrow> o2\<lparr>oc_ok := False, oc_errorCode := code, oc_errorName := name\<rparr>
        | None \<Rightarrow> o2)"

definition transactionOutcome :: "int \<Rightarrow> driver_error option \<Rightarrow> outcome \<Rightarrow> outcome" where
  "transactionOutcome dur err out =
     (finishOutcome dur err out)\<lparr>oc_transaction := (if err = None then ''commit'' else ''abort'')\<rparr>"

definition fastInsertShapeKey :: string where "fastInsertShapeKey = ''insert|fast_batch''"
definition transactionShapeKey :: string where "transactionShapeKey = ''transaction|batch''"

definition fastFindShapeKey :: "int \<Rightarrow> string" where
  "fastFindShapeKey n = ''find|fast_in_patch_key|limit:'' @ itoa n"

subsection \<open>Result checksums\<close>

text \<open>The elements of a raw document: scalars are opaque, \<open>Raw_bad\<close> is a value whose bytes do not parse.\<close>

datatype raw_val =
    Raw_scalar string
  | Raw_doc "(string \<times> raw_val) list"
  | Raw_array "raw_val list"
  | Raw_bad string

text \<open>\<open>sortedDocument\<close> and \<open>sortedValue\<close>: the first error in reading order, or the value with the keys
  of every document sorted (stably).\<close>

fun res_list :: "'a res list \<Rightarrow> 'a list res" where
  "res_list [] = Ok []"
| "res_list (r # rs) = res_bind r (\<lambda>x. res_bind (res_list rs) (\<lambda>xs. Ok (x # xs)))"

fun sortedValue :: "raw_val \<Rightarrow> raw_val res" where
  "sortedValue (Raw_doc es) =
     res_bind (res_list (map (\<lambda>(k, v). res_bind (sortedValue v) (\<lambda>v'. Ok (k, v'))) es)) (\<lambda>xs. Ok (Raw_doc (sort_entries xs)))"
| "sortedValue (Raw_array xs) = res_bind (res_list (map sortedValue xs)) (\<lambda>ys. Ok (Raw_array ys))"
| "sortedValue (Raw_scalar s) = Ok (Raw_scalar s)"
| "sortedValue (Raw_bad e) = Err e"

definition ResultHash_Add :: "(string \<Rightarrow> raw_val) \<Rightarrow> (raw_val \<Rightarrow> string res) \<Rightarrow> string \<Rightarrow> string \<Rightarrow> string res" where
  "ResultHash_Add parse ext doc h =
     res_bind (sortedValue (parse doc)) (\<lambda>d. res_bind (ext d) (\<lambda>b. Ok (h @ b @ [CHR 0x0A])))"

record result_reader =
  rr_checksums :: bool
  rr_n :: nat
  rr_buf :: string
  rr_ends :: "nat list"

definition newResultReader :: "outcome option \<Rightarrow> bool \<Rightarrow> result_reader option" where
  "newResultReader out checksums =
     (if out = None then None else Some \<lparr>rr_checksums = checksums, rr_n = 0, rr_buf = [], rr_ends = []\<rparr>)"

definition rr_add :: "string \<Rightarrow> result_reader option \<Rightarrow> result_reader option" where
  "rr_add doc r = (case r of None \<Rightarrow> None
     | Some r \<Rightarrow> Some (let r1 = r\<lparr>rr_n := Suc (rr_n r)\<rparr> in
         if rr_checksums r1 then
           (let buf = rr_buf r1 @ doc in r1\<lparr>rr_buf := buf, rr_ends := rr_ends r1 @ [length buf]\<rparr>)
         else r1))"

text \<open>The loop of \<open>finish\<close> over the recorded ends: hash the bytes from the last end to the next.\<close>

fun hash_ends :: "(string \<Rightarrow> raw_val) \<Rightarrow> (raw_val \<Rightarrow> string res) \<Rightarrow> string \<Rightarrow> nat \<Rightarrow> nat list \<Rightarrow> string \<Rightarrow> string res" where
  "hash_ends parse ext buf start [] h = Ok h"
| "hash_ends parse ext buf start (e # es) h =
     res_bind (ResultHash_Add parse ext (take (e - start) (drop start buf)) h) (hash_ends parse ext buf e es)"

definition rr_finish ::
    "(string \<Rightarrow> raw_val) \<Rightarrow> (raw_val \<Rightarrow> string res) \<Rightarrow> (string \<Rightarrow> string) \<Rightarrow> result_reader option \<Rightarrow> outcome option \<Rightarrow> outcome option" where
  "rr_finish parse ext sha r out =
     (case (r, out) of
        (Some r, Some out) \<Rightarrow>
          (let o1 = out\<lparr>oc_returned := Some (int (rr_n r))\<rparr> in
           if \<not> rr_checksums r then Some o1
           else case hash_ends parse ext (rr_buf r) 0 (rr_ends r) [] of
             Err _ \<Rightarrow> Some (o1\<lparr>oc_checksum := ''unavailable''\<rparr>)
           | Ok h \<Rightarrow> Some (o1\<lparr>oc_checksum := sha h\<rparr>))
      | _ \<Rightarrow> out)"

text \<open>\<open>drainCursor\<close>: the documents a cursor yields before it ends, and the error it ends with.\<close>

definition drainCursor :: "string list \<Rightarrow> driver_error option \<Rightarrow> result_reader option \<Rightarrow> int \<times> driver_error option \<times> result_reader option" where
  "drainCursor docs err rr = (int (length docs), err, fold rr_add docs rr)"

lemma rr_add_fold:
  assumes "rr_checksums r"
  shows "fold rr_add docs (Some r) = Some (r\<lparr>rr_n := rr_n r + length docs, rr_buf := rr_buf r @ concat docs,
    rr_ends := rr_ends r @ map (\<lambda>i. length (rr_buf r) + length (concat (take (Suc i) docs))) [0..<length docs]\<rparr>)"
  using assms
proof (induction docs arbitrary: r)
  case (Cons d docs)
  have "rr_checksums (r\<lparr>rr_n := Suc (rr_n r), rr_buf := rr_buf r @ d,
      rr_ends := rr_ends r @ [length (rr_buf r @ d)]\<rparr>)"
    using Cons.prems by simp
  moreover have "rr_add d (Some r) = Some (r\<lparr>rr_n := Suc (rr_n r), rr_buf := rr_buf r @ d,
      rr_ends := rr_ends r @ [length (rr_buf r @ d)]\<rparr>)"
    using Cons.prems by (simp add: rr_add_def Let_def)
  ultimately show ?case
    using Cons.IH by (simp add: upt_conv_Cons map_Suc_upt [symmetric] comp_def add.assoc del: upt_Suc)
qed simp

lemma rr_add_counts: "\<not> rr_checksums r \<Longrightarrow> fold rr_add docs (Some r) = Some (r\<lparr>rr_n := rr_n r + length docs\<rparr>)"
  by (induction docs arbitrary: r) (simp_all add: rr_add_def Let_def)

text \<open>Cutting the buffer at the recorded ends gives the documents back.\<close>

definition hash_docs :: "(string \<Rightarrow> raw_val) \<Rightarrow> (raw_val \<Rightarrow> string res) \<Rightarrow> string list \<Rightarrow> string \<Rightarrow> string res" where
  "hash_docs parse ext docs h = foldl (\<lambda>a d. res_bind a (ResultHash_Add parse ext d)) (Ok h) docs"

lemma foldl_res_bind_Err: "foldl (\<lambda>a d. res_bind a (f d)) (Err e) docs = Err e"
  by (induction docs) simp_all

lemma hash_docs_Cons:
  "hash_docs parse ext (d # docs) h = res_bind (ResultHash_Add parse ext d h) (hash_docs parse ext docs)"
  by (cases "ResultHash_Add parse ext d h") (simp_all add: hash_docs_def foldl_res_bind_Err)

lemma hash_ends_docs:
  "hash_ends parse ext (pre @ concat docs) (length pre)
     (map (\<lambda>i. length pre + length (concat (take (Suc i) docs))) [0..<length docs]) h = hash_docs parse ext docs h"
proof (induction docs arbitrary: pre h)
  case Nil
  then show ?case by (simp add: hash_docs_def)
next
  case (Cons d docs)
  have ends: "map (\<lambda>i. length pre + length (concat (take (Suc i) (d # docs)))) [0..<length (d # docs)]
      = length (pre @ d) # map (\<lambda>i. length (pre @ d) + length (concat (take (Suc i) docs))) [0..<length docs]"
    by (simp add: upt_conv_Cons map_Suc_upt [symmetric] comp_def add.assoc del: upt_Suc)
  have "hash_ends parse ext ((pre @ d) @ concat docs) (length (pre @ d))
      (map (\<lambda>i. length (pre @ d) + length (concat (take (Suc i) docs))) [0..<length docs]) h'
    = hash_docs parse ext docs h'" for h'
    by (rule Cons.IH)
  then have rest: "hash_ends parse ext (pre @ concat (d # docs)) (length (pre @ d))
      (map (\<lambda>i. length (pre @ d) + length (concat (take (Suc i) docs))) [0..<length docs])
    = hash_docs parse ext docs"
    by (intro ext) (simp only: concat.simps append_assoc)
  have "take (length (pre @ d) - length pre) (drop (length pre) (pre @ concat (d # docs))) = d" by simp
  then show ?case
    unfolding ends hash_ends.simps hash_docs_Cons rest by simp
qed

subsection \<open>Field order\<close>

text \<open>The value with sorted keys, if every part of it parses.\<close>

definition sorted_of :: "raw_val \<Rightarrow> raw_val option" where
  "sorted_of v = (case sortedValue v of Err _ \<Rightarrow> None | Ok x \<Rightarrow> Some x)"

lemma res_list_Ok: "(case res_list rs of Err _ \<Rightarrow> None | Ok xs \<Rightarrow> Some xs)
    = (if \<forall>r \<in> set rs. \<exists>x. r = Ok x then Some (map projr rs) else None)"
proof (induction rs)
  case (Cons r rs)
  then show ?case by (cases r; cases "res_list rs") (auto split: if_splits)
qed simp

lemma sorted_of_ok: "(\<exists>x. sortedValue v = Ok x) \<longleftrightarrow> sorted_of v \<noteq> None"
  by (cases "sortedValue v") (simp_all add: sorted_of_def)

lemma sorted_of_projr: "sorted_of v \<noteq> None \<Longrightarrow> sortedValue v = Ok (the (sorted_of v))"
  by (cases "sortedValue v") (simp_all add: sorted_of_def)

lemma sorted_of_doc:
  "sorted_of (Raw_doc es) = (if \<forall>e \<in> set es. sorted_of (snd e) \<noteq> None
     then Some (Raw_doc (sort_entries (map (\<lambda>(k, v). (k, the (sorted_of v))) es))) else None)"
proof -
  let ?f = "\<lambda>(k, v). res_bind (sortedValue v) (\<lambda>v'. Ok (k, v'))"
  have all: "(\<forall>r \<in> set (map ?f es). \<exists>x. r = Ok x) \<longleftrightarrow> (\<forall>e \<in> set es. sorted_of (snd e) \<noteq> None)"
  proof -
    have "(\<exists>x. ?f e = Ok x) \<longleftrightarrow> sorted_of (snd e) \<noteq> None" for e :: "string \<times> raw_val"
      by (cases "sortedValue (snd e)") (auto simp: sorted_of_def split_beta)
    then show ?thesis by (simp only: set_map ball_simps)
  qed
  have part: "projr (?f e) = (\<lambda>(k, v). (k, the (sorted_of v))) e" if "sorted_of (snd e) \<noteq> None" for e
    using sorted_of_projr [OF that] by (simp add: split_beta)
  have "sorted_of (Raw_doc es) = map_option (\<lambda>xs. Raw_doc (sort_entries xs))
      (case res_list (map ?f es) of Err _ \<Rightarrow> None | Ok xs \<Rightarrow> Some xs)"
    by (cases "res_list (map ?f es)") (simp_all add: sorted_of_def)
  also have "\<dots> = map_option (\<lambda>xs. Raw_doc (sort_entries xs))
      (if \<forall>e \<in> set es. sorted_of (snd e) \<noteq> None then Some (map projr (map ?f es)) else None)"
    by (simp only: res_list_Ok all)
  also have "\<dots> = (if \<forall>e \<in> set es. sorted_of (snd e) \<noteq> None
     then Some (Raw_doc (sort_entries (map (\<lambda>(k, v). (k, the (sorted_of v))) es))) else None)"
  proof (cases "\<forall>e \<in> set es. sorted_of (snd e) \<noteq> None")
    case True
    then have "map (\<lambda>e. projr (?f e)) es = map (\<lambda>(k, v). (k, the (sorted_of v))) es"
      by (intro map_cong refl part) simp
    with True show ?thesis by (simp only: map_map comp_def if_True option.map cong: if_cong) simp
  next
    case False
    then show ?thesis by (simp only: if_False option.map cong: if_cong)
  qed
  finally show ?thesis .
qed

lemma sorted_of_array:
  "sorted_of (Raw_array xs) = (if \<forall>x \<in> set xs. sorted_of x \<noteq> None
     then Some (Raw_array (map (\<lambda>x. the (sorted_of x)) xs)) else None)"
proof -
  have all: "(\<forall>r \<in> set (map sortedValue xs). \<exists>x. r = Ok x) \<longleftrightarrow> (\<forall>x \<in> set xs. sorted_of x \<noteq> None)"
    by (simp add: sorted_of_ok)
  have part: "projr (sortedValue x) = the (sorted_of x)" if "sorted_of x \<noteq> None" for x
    using sorted_of_projr [OF that] by simp
  have "sorted_of (Raw_array xs) = map_option Raw_array
      (case res_list (map sortedValue xs) of Err _ \<Rightarrow> None | Ok ys \<Rightarrow> Some ys)"
    by (cases "res_list (map sortedValue xs)") (simp_all add: sorted_of_def)
  also have "\<dots> = map_option Raw_array (if \<forall>x \<in> set xs. sorted_of x \<noteq> None then Some (map projr (map sortedValue xs)) else None)"
    by (simp only: res_list_Ok all)
  finally show ?thesis using part by auto
qed

text \<open>Values that differ only in the order of the fields of documents, at any depth.\<close>

inductive same_fields :: "raw_val \<Rightarrow> raw_val \<Rightarrow> bool" where
  sf_refl: "same_fields v v"
| sf_trans: "same_fields u v \<Longrightarrow> same_fields v w \<Longrightarrow> same_fields u w"
| sf_perm: "mset es = mset es' \<Longrightarrow> distinct (map fst es) \<Longrightarrow> same_fields (Raw_doc es) (Raw_doc es')"
| sf_in_doc: "same_fields v w \<Longrightarrow> same_fields (Raw_doc (xs @ (k, v) # ys)) (Raw_doc (xs @ (k, w) # ys))"
| sf_in_array: "same_fields v w \<Longrightarrow> same_fields (Raw_array (us @ v # vs)) (Raw_array (us @ w # vs))"

lemma sorted_of_same_fields: "same_fields v w \<Longrightarrow> sorted_of v = sorted_of w"
proof (induction rule: same_fields.induct)
  case (sf_perm es es')
  let ?g = "\<lambda>(k, v). (k, the (sorted_of v))"
  have "mset (map ?g es) = mset (map ?g es')" using sf_perm(1) by simp
  moreover have "distinct (map fst (map ?g es))" using sf_perm(2) by (simp add: comp_def split_beta)
  ultimately have "sort_entries (map ?g es) = sort_entries (map ?g es')"
    by (intro sort_entries_unique)
  moreover have "set es = set es'" using sf_perm(1) by (rule mset_eq_setD)
  ultimately show ?case by (simp add: sorted_of_doc)
qed (simp_all add: sorted_of_doc sorted_of_array)

lemma sortedValue_sorted_of:
  "sorted_of v = Some x \<longleftrightarrow> sortedValue v = Ok x" "sorted_of v = None \<longleftrightarrow> (\<exists>e. sortedValue v = Err e)"
  by (auto simp: sorted_of_def split: sum.splits)

text \<open>Two results agree when both are the same bytes or both are errors.\<close>

definition hash_agree :: "string res \<Rightarrow> string res \<Rightarrow> bool" where
  "hash_agree x y \<longleftrightarrow> x = y \<or> (\<exists>e e'. x = Err e \<and> y = Err e')"

lemma ResultHash_Add_same_fields:
  assumes "same_fields (parse d) (parse d')"
  shows "hash_agree (ResultHash_Add parse ext d h) (ResultHash_Add parse ext d' h)"
  using sorted_of_same_fields [OF assms]
  by (cases "sortedValue (parse d)"; cases "sortedValue (parse d')")
     (simp_all add: sorted_of_def ResultHash_Add_def hash_agree_def)

lemma hash_docs_same_fields:
  assumes "list_all2 (\<lambda>d d'. same_fields (parse d) (parse d')) docs docs'"
  shows "hash_agree (hash_docs parse ext docs h) (hash_docs parse ext docs' h)"
  using assms
proof (induction arbitrary: h rule: list_all2_induct)
  case (Cons d ds d' ds')
  have "hash_agree (ResultHash_Add parse ext d h) (ResultHash_Add parse ext d' h)"
    using Cons.hyps(1) by (rule ResultHash_Add_same_fields)
  then show ?case
    using Cons.IH [of "projr (ResultHash_Add parse ext d h)"]
    by (cases "ResultHash_Add parse ext d h"; cases "ResultHash_Add parse ext d' h")
       (auto simp: hash_docs_Cons hash_agree_def)
qed (simp add: hash_agree_def)

subsection \<open>Properties\<close>

text \<open>the checksum of a result. Whatever the documents, an outcome that reads a cursor with checksums
reports how many documents it yielded, and the SHA-256 of the Extended JSON of each with sorted keys,
one per line in the order of the cursor, or \<open>unavailable\<close> when one of them cannot be encoded: copying
the bytes into one buffer and cutting it later loses nothing. Servers that store the fields of the same
documents in different orders get the same outcome.\<close>

theorem result_checksum:
  assumes "list_all2 (\<lambda>d d'. same_fields (parse d) (parse d')) docs docs'"
  shows "(let run = (\<lambda>ds. rr_finish parse ext sha (snd (snd (drainCursor ds err (newResultReader (Some out) True)))) (Some out))
     in run docs' = run docs
      \<and> run docs = Some (out\<lparr>oc_returned := Some (int (length docs)),
          oc_checksum := (case hash_docs parse ext docs [] of Err _ \<Rightarrow> ''unavailable'' | Ok h \<Rightarrow> sha h)\<rparr>))"
proof -
  have run: "rr_finish parse ext sha (snd (snd (drainCursor ds err (newResultReader (Some out) True)))) (Some out)
    = Some (out\<lparr>oc_returned := Some (int (length ds)),
          oc_checksum := (case hash_docs parse ext ds [] of Err _ \<Rightarrow> ''unavailable'' | Ok h \<Rightarrow> sha h)\<rparr>)" for ds
    using hash_ends_docs [of parse ext "[]" ds "[]"]
    by (simp add: rr_finish_def drainCursor_def newResultReader_def rr_add_fold Let_def split: sum.split)
  have "hash_agree (hash_docs parse ext docs []) (hash_docs parse ext docs' [])"
    using assms by (rule hash_docs_same_fields)
  then show ?thesis using list_all2_lengthD [OF assms] by (auto simp: run hash_agree_def)
qed

definition sample_parse :: "string \<Rightarrow> raw_val" where
  "sample_parse s = (if s = ''1'' then Raw_doc [(''_id'', Raw_scalar ''7''), (''a'', Raw_scalar ''x'')]
     else if s = ''2'' then Raw_doc [(''a'', Raw_scalar ''x''), (''_id'', Raw_scalar ''7'')] else Raw_bad s)"

theorem result_checksum_witness:
  "rr_finish sample_parse (\<lambda>_. Ok ''d'') (\<lambda>h. ''sha:'' @ h)
      (snd (snd (drainCursor [''2''] None (newResultReader (Some empty_outcome) True)))) (Some empty_outcome)
   = rr_finish sample_parse (\<lambda>_. Ok ''d'') (\<lambda>h. ''sha:'' @ h)
      (snd (snd (drainCursor [''1''] None (newResultReader (Some empty_outcome) True)))) (Some empty_outcome)"
proof -
  have "list_all2 (\<lambda>d d'. same_fields (sample_parse d) (sample_parse d')) [''1''] [''2'']"
    by (simp add: sample_parse_def sf_perm add_mset_commute)
  from result_checksum [OF this] show ?thesis by (simp only: Let_def)
qed

text \<open>A fast insert is ok exactly when the command succeeded and its reply reports no error.\<close>

lemma fastInsert_ok_iff:
  "oc_ok (fastInsertOutcome dur reply err out)
    \<longleftrightarrow> err = None \<and> fr_writeErrors reply = [] \<and> fr_concern reply = None"
proof -
  have "first_some (first_code (fr_writeErrors reply)) (concern (fr_concern reply)) = None
      \<longleftrightarrow> fr_writeErrors reply = [] \<and> fr_concern reply = None"
    by (cases "fr_writeErrors reply") (auto simp: first_some_def first_code_def concern_def)
  then show ?thesis
    by (cases err; cases "first_some (first_code (fr_writeErrors reply)) (concern (fr_concern reply))")
       (auto simp: fastInsertOutcome_def finishOutcome_def split_beta)
qed

lemma finishOutcome_ok_iff [simp]: "oc_ok (finishOutcome dur err out) \<longleftrightarrow> err = None"
  by (simp add: finishOutcome_def split_beta)

lemma transactionOutcome_ok_iff [simp]: "oc_ok (transactionOutcome dur err out) \<longleftrightarrow> err = None"
  by (simp add: transactionOutcome_def)

end
