(* ===== verification/Execute.thy ===== *)
theory Execute
  imports Shapes OutcomeCapture
begin

text \<open>
  Sending an operation (\<open>internal/mongo/workload_exec.go\<close>, \<open>runTransaction\<close> of
  \<open>internal/mongo/runner.go\<close> and \<open>executeDeterministicOp\<close>): the call made to the driver, what the
  server's reply does to the record pool, to the statistics and to the outcome, and the entry handed to
  the recorder. Generated and replayed operations go through the same functions.

  The reply of the server is a parameter (\<open>reply\<close>), as are the durations. Statistics are the calls made
  to the collector, in order (\<open>stat_event\<close>); the target of every call is the collection of the request.
\<close>

subsection \<open>Driver calls\<close>

datatype driver_call =
    Call_find (cf_filter: gval) (cf_projection: gval) (cf_limit: int) (cf_batch: "int option")
      (cf_sort: "gval option") (cf_skip: "int option") (cf_hint: "gval option")
  | Call_aggregate gval "gval option"
  | Call_update (cu_many: bool) gval gval bool
  | Call_delete (cd_many: bool) gval
  | Call_insertOne gval
  | Call_insertMany "gval list"

definition given :: "gval \<Rightarrow> gval option" where
  "given v = (if v = GNil then None else Some v)"

definition driver_call :: "op_request \<Rightarrow> driver_call option" where
  "driver_call r =
     (let t = rq_opType r in
      if t = ''find'' then
        Some (Call_find (rq_filter r) (rq_projection r) (rq_findLimit r)
          (if rq_findBatch r > 0 then Some (rq_findBatch r) else None) (given (rq_findSort r))
          (if rq_findSkip r > 0 then Some (rq_findSkip r) else None) (given (rq_hint r)))
      else if t = ''aggregate'' then Some (Call_aggregate (rq_pipeline r) (given (rq_hint r)))
      else if is_update t then Some (Call_update (t = ''updateMany'') (rq_filter r) (rq_update r) (rq_upsert r))
      else if is_delete t then Some (Call_delete (t = ''deleteMany'') (rq_filter r))
      else if t = ''insert'' then Some (Call_insertOne (rq_doc r))
      else if t = ''insertMany'' then Some (Call_insertMany (rq_docs r))
      else None)"

text \<open>The call with every value in the form it has on the wire.\<close>

definition wire_call :: "driver_call \<Rightarrow> driver_call" where
  "wire_call c = (case c of
     Call_find f p l b s k h \<Rightarrow> Call_find (wire f) (wire p) l b (map_option wire s) k (map_option wire h)
   | Call_aggregate p h \<Rightarrow> Call_aggregate (wire p) (map_option wire h)
   | Call_update m f u b \<Rightarrow> Call_update m (wire f) (wire u) b
   | Call_delete m f \<Rightarrow> Call_delete m (wire f)
   | Call_insertOne d \<Rightarrow> Call_insertOne (wire d)
   | Call_insertMany ds \<Rightarrow> Call_insertMany (map wire ds))"

subsection \<open>Statistics\<close>

record exec_query =
  eq_database :: string
  eq_filter :: "document option"
  eq_projection :: "document option"
  eq_update :: "document option"
  eq_upsert :: bool
  eq_pipeline :: "gval list option"
  eq_limit :: int

definition empty_exec_query :: exec_query where
  "empty_exec_query = \<lparr>eq_database = [], eq_filter = None, eq_projection = None, eq_update = None, eq_upsert = False,
     eq_pipeline = None, eq_limit = 0\<rparr>"

definition buildExecutableQuery ::
    "string \<Rightarrow> string \<Rightarrow> query_def \<Rightarrow> document option \<Rightarrow> gval list option \<Rightarrow> int \<Rightarrow> exec_query option" where
  "buildExecutableQuery opType db q filt pipeline limit =
     (let e = empty_exec_query\<lparr>eq_database := db\<rparr> in
      if opType = ''find'' then Some (e\<lparr>eq_filter := filt, eq_projection := qd_projection q, eq_limit := limit\<rparr>)
      else if is_update opType then Some (e\<lparr>eq_filter := filt, eq_update := qd_update q, eq_upsert := qd_upsert q\<rparr>)
      else if is_delete opType then Some (e\<lparr>eq_filter := filt\<rparr>)
      else if opType = ''aggregate'' then Some (e\<lparr>eq_pipeline := pipeline\<rparr>)
      else None)"

definition executableQuery :: "exec_request \<Rightarrow> exec_query option" where
  "executableQuery r =
     (if xr_line r = None then
        buildExecutableQuery (rq_opType r) (c_db (rq_col r)) (xr_q r) (xr_filterMap r) (xr_pipelineIn r) (rq_findLimit r)
      else
        buildExecutableQuery (rq_opType r) (c_db (rq_col r))
          (empty_query\<lparr>qd_projection := runtimeProjection r,
             qd_update := as_map (runtimeValue (rq_update r) False []), qd_upsert := rq_upsert r\<rparr>)
          (runtimeFilter r) (runtimePipeline r) (rq_findLimit r))"

datatype stat_event =
    RecordTargeting bool
  | RecordFindResult int
  | RecordUpdateResult int int
  | RecordDeleteResult int
  | Track string int
  | AddOps string int int
  | RecordOperationEvent string collection_ref op_identity int bool "exec_query option"

text \<open>What the functions share: the database name, the capture switches, the driver's parser and
encoder, SHA-256, and \<open>%v\<close> for the pool's comparisons.\<close>

record exec_env =
  ev_db :: "string option"
  ev_checksums :: bool
  ev_captures :: bool
  ev_parse :: "string \<Rightarrow> raw_val"
  ev_ext :: "raw_val \<Rightarrow> string res"
  ev_sha :: "string \<Rightarrow> string"
  ev_fmt :: "gval \<Rightarrow> string"

record exec_state =
  es_pool :: "record_pool option"
  es_stats :: "stat_event list"

definition stat :: "stat_event \<Rightarrow> exec_state \<Rightarrow> exec_state" where
  "stat e s = s\<lparr>es_stats := es_stats s @ [e]\<rparr>"

subsection \<open>Standard operations\<close>

record reply =
  rep_err :: "driver_error option"
  rep_docs :: "string list"
  rep_cursorErr :: "driver_error option"
  rep_matched :: int
  rep_modified :: int
  rep_upserted :: int
  rep_deleted :: int

definition registerInsertedDocument :: "string option \<Rightarrow> collection_ref \<Rightarrow> document option \<Rightarrow> record_pool option \<Rightarrow> record_pool option" where
  "registerInsertedDocument db col doc pool =
     (case pool of None \<Rightarrow> None
      | Some p \<Rightarrow> if doc = None then Some p else Some (pool_Add (collectionNamespace db col) doc p))"

definition registerInsertedDocuments :: "string option \<Rightarrow> collection_ref \<Rightarrow> gval list \<Rightarrow> record_pool option \<Rightarrow> record_pool option" where
  "registerInsertedDocuments db col docs pool =
     map_option (\<lambda>p. fold (\<lambda>v. case v of GMap d \<Rightarrow> pool_Add (collectionNamespace db col) (Some d) | _ \<Rightarrow> id) docs p) pool"

text \<open>A nil filter map leaves the pool alone, as an empty one does.\<close>

definition forget :: "exec_env \<Rightarrow> exec_request \<Rightarrow> record_pool option \<Rightarrow> record_pool option" where
  "forget ev r pool = RemoveMatching (ev_fmt ev) (collectionNamespace (ev_db ev) (rq_col r)) (some_map (xr_filterMap r)) pool"

definition set_update :: "reply \<Rightarrow> outcome \<Rightarrow> outcome" where
  "set_update rep o' = o'\<lparr>oc_matched := Some (rep_matched rep), oc_modified := Some (rep_modified rep), oc_upserted := Some (rep_upserted rep)\<rparr>"

text \<open>The switch over the operation: success, the error of the outcome, the result reader, the outcome
and the state.\<close>

definition exec_switch ::
    "exec_env \<Rightarrow> exec_request \<Rightarrow> reply \<Rightarrow> outcome option \<Rightarrow> exec_state
      \<Rightarrow> bool \<times> driver_error option \<times> result_reader option \<times> outcome option \<times> exec_state" where
  "exec_switch ev r rep out s =
     (let t = rq_opType r in
      if t = ''find'' then
        (let rr = newResultReader out (ev_checksums ev) in
         if rep_err rep \<noteq> None then (False, rep_err rep, rr, out, s)
         else let (n, cerr, rr') = drainCursor (rep_docs rep) (rep_cursorErr rep) rr
              in (True, cerr, rr', out, stat (RecordFindResult n) s))
      else if t = ''aggregate'' then
        (let rr = newResultReader out (ev_checksums ev) in
         if rep_err rep \<noteq> None then (False, rep_err rep, rr, out, s)
         else let (n, cerr, rr') = drainCursor (rep_docs rep) (rep_cursorErr rep) rr in (True, cerr, rr', out, s))
      else if is_update t then
        (if rep_err rep \<noteq> None then (False, rep_err rep, None, out, s)
         else (True, None, None, map_option (set_update rep) out,
               stat (RecordUpdateResult (rep_matched rep) (rep_modified rep)) s))
      else if is_delete t then
        (if rep_err rep \<noteq> None then (False, rep_err rep, None, out, s)
         else (True, None, None, map_option (\<lambda>o'. o'\<lparr>oc_deleted := Some (rep_deleted rep)\<rparr>) out,
               stat (RecordDeleteResult (rep_deleted rep)) (s\<lparr>es_pool := forget ev r (es_pool s)\<rparr>)))
      else if t = ''insert'' then
        (rep_err rep = None, rep_err rep, None,
         map_option (\<lambda>o'. o'\<lparr>oc_inserted := Some (insertedCount 1 (rep_err rep))\<rparr>) out,
         if rep_err rep = None
         then s\<lparr>es_pool := registerInsertedDocument (ev_db ev) (rq_col r) (xr_poolDoc r) (es_pool s)\<rparr> else s)
      else if t = ''insertMany'' then
        (rep_err rep = None, rep_err rep, None,
         map_option (\<lambda>o'. o'\<lparr>oc_inserted := Some (insertedCount (int (length (rq_docs r))) (rep_err rep))\<rparr>) out,
         if rep_err rep = None
         then s\<lparr>es_pool := registerInsertedDocuments (ev_db ev) (rq_col r) (xr_poolDocs r) (es_pool s)\<rparr> else s)
      else (True, None, None, out, s))"

definition executeStandard ::
    "exec_env \<Rightarrow> int \<Rightarrow> exec_request \<Rightarrow> reply \<Rightarrow> outcome option \<Rightarrow> exec_state
      \<Rightarrow> bool \<times> op_identity \<times> outcome option \<times> exec_state" where
  "executeStandard ev dur r rep out s =
     (let t = rq_opType r;
          s1 = (if filter_op t \<or> t = ''aggregate'' then stat (RecordTargeting (rq_usedExisting r)) s else s);
          (success, err, rr, out1, s2) = exec_switch ev r rep out s1;
          out2 = (case out1 of None \<Rightarrow> None
                  | Some o' \<Rightarrow> rr_finish (ev_parse ev) (ev_ext ev) (ev_sha ev) rr (Some (finishOutcome dur err o')));
          i = identity r;
          s3 = stat (RecordOperationEvent t (rq_col r) i dur success
                 (if ev_captures ev then executableQuery r else None)) (stat (Track t dur) s2)
      in (success, i, out2, s3))"

subsection \<open>Optimized paths\<close>

definition path_identity :: "string \<Rightarrow> string \<Rightarrow> string list \<Rightarrow> string \<Rightarrow> string \<Rightarrow> string \<Rightarrow> string \<Rightarrow> op_identity" where
  "path_identity key summary fs source workload did querySummary =
     \<lparr>id_shapeKey = key, id_shapeSummary = summary, id_fields = fs, id_queryLabel = summary, id_querySource = source,
      id_workloadName = workload, id_queryFile = ''runtime'', id_queryDefID = did,
      id_querySummary = querySummary, id_pipelineSummary = [], id_queryDefIndex = -1\<rparr>"

definition fast_insert_identity :: op_identity where
  "fast_insert_identity = path_identity fastInsertShapeKey ''fast insert batch'' [] ''optimized_path'' ''generated_workload''
     ''fast_insert_batch'' []"

text \<open>\<open>onSuccess\<close> registers the ids of a generated batch in the pool; a replay has none.\<close>

definition executeFastInsert ::
    "int \<Rightarrow> collection_ref \<Rightarrow> int \<Rightarrow> (record_pool option \<Rightarrow> record_pool option) \<Rightarrow> fast_reply \<Rightarrow> driver_error option
      \<Rightarrow> outcome option \<Rightarrow> exec_state \<Rightarrow> bool \<times> outcome option \<times> exec_state" where
  "executeFastInsert dur col count0 onSuccess reply err out s =
     (let count = (if count0 < 1 then 1 else count0);
          event = (\<lambda>ok. RecordOperationEvent ''insert'' col fast_insert_identity dur ok None)
      in if err \<noteq> None then
           (False, map_option (fastInsertOutcome dur reply err) out, stat (event False) (stat (AddOps ''insert'' 1 dur) s))
         else
           (True, map_option (fastInsertOutcome dur reply None) out,
            stat (event True) (stat (AddOps ''insert'' count (go_div dur count)) (s\<lparr>es_pool := onSuccess (es_pool s)\<rparr>))))"

definition fast_find_identity :: "string \<Rightarrow> int \<Rightarrow> op_identity" where
  "fast_find_identity patchKey batchSize =
     path_identity (fastFindShapeKey batchSize) (''fast find on '' @ patchKey) [patchKey] ''optimized_path''
       ''generated_workload'' ''fast_find_patch_key''
       (''{'' @ patchKey @ '':{'' @ quoted ''$in'' @ '':'' @ quoted ''<batch>'' @ ''}}'')"

text \<open>The command a fast find sends, its ids as the raw array \<open>buildRawInt64Array\<close> encodes.\<close>

definition fastFindCommand :: "(int list \<Rightarrow> gval) \<Rightarrow> collection_ref \<Rightarrow> string \<Rightarrow> int list \<Rightarrow> int \<Rightarrow> document" where
  "fastFindCommand raw col patchKey ids batchSize =
     [(''find'', GStr (c_name col)), (''filter'', GDoc [(patchKey, GDoc [(''$in'', raw ids)])]), (''limit'', GInt batchSize)]"

definition executeFastFind ::
    "exec_env \<Rightarrow> int \<Rightarrow> collection_ref \<Rightarrow> string \<Rightarrow> int list \<Rightarrow> int \<Rightarrow> bool \<Rightarrow> string list \<Rightarrow> driver_error option
      \<Rightarrow> outcome option \<Rightarrow> exec_state \<Rightarrow> bool \<times> outcome option \<times> exec_state" where
  "executeFastFind ev dur col patchKey ids batchSize pooled firstBatch err out s =
     (let s1 = stat (RecordTargeting pooled) s;
          s2 = (if err = None then stat (RecordFindResult (int (length firstBatch))) s1 else s1);
          q = (if ev_captures ev then Some (empty_exec_query\<lparr>eq_database := (case ev_db ev of None \<Rightarrow> [] | Some d \<Rightarrow> d),
                 eq_filter := Some [(patchKey, GMap [(''$in'', GTSlice (map GInt64 ids))])], eq_limit := batchSize\<rparr>) else None);
          out1 = (case out of None \<Rightarrow> None
            | Some o' \<Rightarrow> let o1 = finishOutcome dur err o' in
                if err = None
                then rr_finish (ev_parse ev) (ev_ext ev) (ev_sha ev)
                       (fold rr_add firstBatch (newResultReader (Some o1) (ev_checksums ev))) (Some o1)
                else Some o1);
          s3 = stat (RecordOperationEvent ''find'' col (fast_find_identity patchKey batchSize) dur (err = None) q)
                 (stat (AddOps ''find'' 1 dur) s2)
      in (err = None, out1, s3))"

subsection \<open>Transactions\<close>

record exec_tx = tx_op +
  xt_filterMap :: "document option"
  xt_poolDoc :: "document option"
  xt_poolDocs :: "gval list"

text \<open>One operation inside a transaction; \<open>ok\<close> is whether the driver returned no error. The result of
the operation itself is not reported.\<close>

definition executeTxInnerOp :: "exec_env \<Rightarrow> exec_tx \<Rightarrow> bool \<Rightarrow> exec_state \<Rightarrow> exec_state" where
  "executeTxInnerOp ev op ok s =
     (let t = tx_opType op; ns = collectionNamespace (ev_db ev) (tx_col op) in
      if \<not> ok then s
      else if is_delete t then s\<lparr>es_pool := RemoveMatching (ev_fmt ev) ns (some_map (xt_filterMap op)) (es_pool s)\<rparr>
      else if t = ''insert'' then s\<lparr>es_pool := registerInsertedDocument (ev_db ev) (tx_col op) (xt_poolDoc op) (es_pool s)\<rparr>
      else if t = ''insertMany'' then s\<lparr>es_pool := registerInsertedDocuments (ev_db ev) (tx_col op) (xt_poolDocs op) (es_pool s)\<rparr>
      else s)"

text \<open>The operations of one attempt and whether each succeeded.\<close>

type_synonym attempt = "nat \<Rightarrow> bool"

primrec exec_tx_ops :: "exec_env \<Rightarrow> attempt \<Rightarrow> nat \<Rightarrow> exec_tx list \<Rightarrow> exec_state \<Rightarrow> exec_state" where
  "exec_tx_ops ev oks i [] s = s"
| "exec_tx_ops ev oks i (op # ops) s = exec_tx_ops ev oks (Suc i) ops (executeTxInnerOp ev op (oks i) s)"

text \<open>How a generated run draws a transaction: \<open>tg_num\<close> is \<open>rng.Intn(MaxTransactionOps) + 1\<close>, which
panics without a generator or for a maximum below 1; \<open>tg_one\<close> draws one operation from the generator and
the pool, or skips it.\<close>

record 'g tx_gen =
  tg_num :: "'g \<Rightarrow> (nat \<times> 'g) option"
  tg_one :: "record_pool option \<Rightarrow> 'g \<Rightarrow> exec_tx option \<times> 'g"

primrec gen_tx_ops :: "exec_env \<Rightarrow> 'g tx_gen \<Rightarrow> attempt \<Rightarrow> nat \<Rightarrow> exec_tx list \<Rightarrow> 'g \<Rightarrow> exec_state \<Rightarrow> exec_tx list \<times> 'g \<times> exec_state" where
  "gen_tx_ops ev tg oks 0 sent g s = (sent, g, s)"
| "gen_tx_ops ev tg oks (Suc n) sent g s =
     (case tg_one tg (es_pool s) g of
        (None, g') \<Rightarrow> gen_tx_ops ev tg oks n sent g' s
      | (Some op, g') \<Rightarrow> gen_tx_ops ev tg oks n (sent @ [op]) g' (executeTxInnerOp ev op (oks (length sent)) s))"

text \<open>The callback of \<open>WithTransaction\<close>; None is a panic.\<close>

definition tx_attempt ::
    "exec_env \<Rightarrow> 'g tx_gen \<Rightarrow> exec_tx list option \<Rightarrow> attempt \<Rightarrow> 'g option \<Rightarrow> exec_state
      \<Rightarrow> (exec_tx list \<times> 'g option \<times> exec_state) option" where
  "tx_attempt ev tg replayOps oks rng s =
     (case replayOps of
        Some ops \<Rightarrow> Some (ops, rng, exec_tx_ops ev oks 0 ops s)
      | None \<Rightarrow>
         (case rng of None \<Rightarrow> None
          | Some g \<Rightarrow>
             (case tg_num tg g of None \<Rightarrow> None
              | Some (n, g1) \<Rightarrow> (let (sent, g2, s') = gen_tx_ops ev tg oks n [] g1 s in Some (sent, Some g2, s')))))"

primrec tx_attempts ::
    "exec_env \<Rightarrow> 'g tx_gen \<Rightarrow> exec_tx list option \<Rightarrow> attempt list \<Rightarrow> exec_tx list \<times> 'g option \<times> exec_state
      \<Rightarrow> (exec_tx list \<times> 'g option \<times> exec_state) option" where
  "tx_attempts ev tg replayOps [] st = Some st"
| "tx_attempts ev tg replayOps (a # as) st =
     (case st of (_, rng, s) \<Rightarrow> Option.bind (tx_attempt ev tg replayOps a rng s) (tx_attempts ev tg replayOps as))"

definition transaction_identity :: op_identity where
  "transaction_identity = path_identity transactionShapeKey ''transaction batch'' [] ''runtime_transaction''
     ''transaction_workload'' ''transaction_batch'' []"

definition tx_ns :: "string option \<Rightarrow> string" where
  "tx_ns db = (case db of None \<Rightarrow> [] | Some d \<Rightarrow> d) @ ''.(multiple)''"

definition tx_collection :: "string option \<Rightarrow> collection_ref" where
  "tx_collection db = \<lparr>c_db = (case db of None \<Rightarrow> [] | Some d \<Rightarrow> d), c_name = ''(multiple)''\<rparr>"

definition tx_entry :: "int \<Rightarrow> int \<Rightarrow> string option \<Rightarrow> exec_tx list \<Rightarrow> bool \<Rightarrow> outcome option \<Rightarrow> entry" where
  "tx_entry worker offset db ops ok out =
     \<lparr>en_worker = worker, en_offset = offset, en_ns = tx_ns db, en_op = ''transaction'', en_path = [], en_ok = ok,
      en_existing = False, en_query = None, en_shape = None,
      en_command = GDoc [(''ops'', GA (map (\<lambda>x. txInnerCommand db (tx_op.truncate x)) ops))],
      en_outcome = out, en_flags = [], en_cmd = [], en_iteration = 0\<rparr>"

text \<open>\<open>runTransaction\<close>: \<open>session\<close> is whether a session could be started, \<open>attempts\<close> the calls of the
callback, \<open>err\<close> what \<open>WithTransaction\<close> returned. The result is whether it committed, the entry for the
recorder, the outcome and the state; None is a panic.\<close>

definition runTransaction ::
    "exec_env \<Rightarrow> 'g tx_gen \<Rightarrow> int \<Rightarrow> int \<Rightarrow> int \<Rightarrow> bool \<Rightarrow> bool \<Rightarrow> exec_tx list option \<Rightarrow> attempt list \<Rightarrow> driver_error option
      \<Rightarrow> outcome option \<Rightarrow> 'g option \<times> exec_state
      \<Rightarrow> (bool \<times> entry option \<times> outcome option \<times> 'g option \<times> exec_state) option" where
  "runTransaction ev tg worker offset dur session recording replayOps attempts err out st =
     (case st of (rng, s) \<Rightarrow>
       if \<not> session then Some (False, None, out, rng, s)
       else
         Option.bind (tx_attempts ev tg replayOps attempts (some_list replayOps, rng, s)) (\<lambda>(ops, rng', s1).
           (let out1 = map_option (transactionOutcome dur err) out;
                e = (if recording then Some (tx_entry worker offset (ev_db ev) ops (err = None) out1) else None);
                s2 = (if err = None then stat (RecordOperationEvent ''transaction'' (tx_collection (ev_db ev)) transaction_identity dur True None)
                        (stat (Track ''transaction'' dur) s1) else s1)
            in Some (err = None, e, out1, rng', s2))))"

subsection \<open>The call a replay makes\<close>

text \<open>Requests the workers build: a filter or a pipeline is always there where the operation has one.\<close>

definition sends_docs :: "op_request \<Rightarrow> bool" where
  "sends_docs r \<longleftrightarrow>
     (if rq_opType r = ''aggregate'' then is_array (rq_pipeline r)
      else filter_op (rq_opType r) \<longrightarrow> rq_filter r \<noteq> GNil)"

lemma decode_find_call:
  assumes "rq_opType r = ''find''" "rq_filter r \<noteq> GNil" "- (2 ^ 31) \<le> rq_findBatch r" "rq_findBatch r < 2 ^ 31"
  shows "\<exists>r'. decodeStandard ''find'' ex (wire_doc (standardCommand r)) col = Inr r'
    \<and> rq_opType r' = ''find'' \<and> rq_col r' = col
    \<and> map_option wire_call (driver_call r') = map_option wire_call (driver_call r)"
  using assms
  by (cases "rq_findSkip r > 0")
     (auto simp: decodeStandard_def decodeFind_def standardCommand_def empty_request_def optional_def Let_def
       driver_call_def given_def wire_call_def emptyDocIfNil_def)

lemma decode_aggregate_call:
  assumes "rq_opType r = ''aggregate''" "is_array (rq_pipeline r)"
  shows "\<exists>r'. decodeStandard ''aggregate'' ex (wire_doc (standardCommand r)) col = Inr r'
    \<and> rq_opType r' = ''aggregate'' \<and> rq_col r' = col
    \<and> map_option wire_call (driver_call r') = map_option wire_call (driver_call r)"
proof -
  obtain xs where xs: "wire (rq_pipeline r) = GA xs" using is_array_wire [OF assms(2)] by blast
  moreover have "rq_pipeline r \<noteq> GNil" using assms(2) by (auto simp: is_array_def)
  moreover have "wire (GA xs) = GA xs" using xs wire_idem by metis
  ultimately show ?thesis
    using assms(1)
    by (auto simp: decodeStandard_def standardCommand_def empty_request_def Let_def driver_call_def wire_call_def given_def)
qed

lemma decode_rest_call:
  assumes "(is_update (rq_opType r) \<or> is_delete (rq_opType r)) \<and> rq_filter r \<noteq> GNil
    \<or> (rq_opType r = ''insert'' \<and> rq_doc r \<noteq> GNil) \<or> rq_opType r = ''insertMany''"
  shows "\<exists>r'. decodeStandard (rq_opType r) ex (wire_doc (standardCommand r)) col = Inr r'
    \<and> rq_opType r' = rq_opType r \<and> rq_col r' = col
    \<and> map_option wire_call (driver_call r') = map_option wire_call (driver_call r)"
proof -
  consider "is_update (rq_opType r)" "rq_filter r \<noteq> GNil" | "is_delete (rq_opType r)" "rq_filter r \<noteq> GNil"
    | "rq_opType r = ''insert''" "rq_doc r \<noteq> GNil" | "rq_opType r = ''insertMany''"
    using assms by blast
  then show ?thesis
  proof cases
    case 1
    then show ?thesis
      by (elim is_updateE) (simp_all add: decodeStandard_def standardCommand_def update_args_def empty_request_def
          bool_of_def driver_call_def wire_call_def emptyDocIfNil_def)
  next
    case 2
    then show ?thesis
      by (elim is_deleteE) (simp_all add: decodeStandard_def standardCommand_def empty_request_def
          driver_call_def wire_call_def emptyDocIfNil_def)
  next
    case 3
    then show ?thesis
      by (simp add: decodeStandard_def standardCommand_def empty_request_def driver_call_def wire_call_def)
  next
    case 4
    then show ?thesis
      by (simp add: decodeStandard_def standardCommand_def empty_request_def docsValue_def comp_def driver_call_def wire_call_def)
  qed
qed

text \<open>C11: a replay makes the call that was recorded. For every standard operation the workers send, the
request decoded from its recorded command makes the same driver call: the same method, with a filter,
projection, update, pipeline, documents, sort and hint of the same wire form, and the same limit, skip,
batch size and upsert flag.\<close>

theorem replay_makes_recorded_call:
  assumes "wf_request r" and "sends_docs r"
  shows "\<exists>r'. decodeStandard (rq_opType r) ex (wire_doc (standardCommand r)) col = Inr r'
    \<and> rq_opType r' = rq_opType r \<and> rq_col r' = col
    \<and> map_option wire_call (driver_call r') = map_option wire_call (driver_call r)"
proof -
  have t: "\<not> is_update ''find''" "\<not> is_delete ''find''" "\<not> is_update ''aggregate''" "\<not> is_delete ''aggregate''" by simp_all
  consider (find) "rq_opType r = ''find''" "- (2 ^ 31) \<le> rq_findBatch r" "rq_findBatch r < 2 ^ 31"
    | (agg) "rq_opType r = ''aggregate''"
    | (rest) "is_update (rq_opType r) \<or> is_delete (rq_opType r)
        \<or> (rq_opType r = ''insert'' \<and> rq_doc r \<noteq> GNil) \<or> rq_opType r = ''insertMany''"
    using assms(1) unfolding wf_request_def by blast
  then show ?thesis
  proof cases
    case find
    then have "rq_filter r \<noteq> GNil" using assms(2) by (simp add: sends_docs_def filter_op_def)
    from decode_find_call [OF find(1) this find(2,3), of ex col] show ?thesis unfolding find(1) .
  next
    case agg
    then have "is_array (rq_pipeline r)" using assms(2) by (simp add: sends_docs_def)
    from decode_aggregate_call [OF agg this, of ex col] show ?thesis unfolding agg .
  next
    case rest
    have "rq_filter r \<noteq> GNil" if "is_update (rq_opType r) \<or> is_delete (rq_opType r)"
      using assms(2) that t by (auto simp: sends_docs_def filter_op_def is_update_def is_delete_def)
    with rest show ?thesis by (intro decode_rest_call) blast
  qed
qed

definition sample_find :: op_request where
  "sample_find = (empty_request ''find'' \<lparr>c_db = ''shop'', c_name = ''orders''\<rparr> False)
     \<lparr>rq_filter := GMap [(''b'', GInt 7), (''a'', GSlice [GBool True])], rq_findLimit := 10, rq_findBatch := 10,
      rq_findSkip := 1, rq_findSort := GDoc [(''a'', GInt (- 1))]\<rparr>"

theorem replay_makes_recorded_call_witness:
  "\<exists>r'. decodeStandard ''find'' False (wire_doc (standardCommand sample_find)) (rq_col sample_find) = Inr r'
    \<and> map_option wire_call (driver_call r') = map_option wire_call (driver_call sample_find)"
proof -
  have sample: "wf_request sample_find" "sends_docs sample_find" "rq_opType sample_find = ''find''"
    by (simp_all add: sample_find_def empty_request_def wf_request_def sends_docs_def)
  from replay_makes_recorded_call [OF sample(1,2), of False "rq_col sample_find"] show ?thesis unfolding sample(3) by blast
qed

subsection \<open>Outcomes and statistics agree\<close>

lemma rr_finish_Some:
  "\<exists>o2. rr_finish parse ext sha rr (Some o1) = Some o2 \<and> oc_ok o2 = oc_ok o1 \<and> oc_errorCode o2 = oc_errorCode o1
    \<and> oc_latencyUS o2 = oc_latencyUS o1"
  by (auto simp: rr_finish_def Let_def split: option.split sum.split)

definition reads :: "string \<Rightarrow> bool" where
  "reads t \<longleftrightarrow> t = ''find'' \<or> t = ''aggregate''"

text \<open>The operations \<open>executeStandard\<close> sends.\<close>

definition standard_op :: "string \<Rightarrow> bool" where
  "standard_op t \<longleftrightarrow> reads t \<or> is_update t \<or> is_delete t \<or> t = ''insert'' \<or> t = ''insertMany''"

lemma exec_switch_spec:
  assumes "standard_op (rq_opType r)" and "exec_switch ev r rep out s = (ok, err, rr, out1, s1)"
  shows "(ok \<longleftrightarrow> rep_err rep = None)
    \<and> err = (if ok then if reads (rq_opType r) then rep_cursorErr rep else None else rep_err rep)
    \<and> (out1 = None \<longleftrightarrow> out = None)
    \<and> (if ok then \<exists>res. es_stats s1 = es_stats s @ res \<and> length res \<le> 1 else s1 = s)"
proof -
  consider "rq_opType r = ''find''" | "rq_opType r = ''aggregate''" | "is_update (rq_opType r)" | "is_delete (rq_opType r)"
    | "rq_opType r = ''insert''" | "rq_opType r = ''insertMany''"
    using assms(1) by (auto simp: standard_op_def reads_def)
  then show ?thesis
  proof cases
    case 1
    with assms(2) show ?thesis
      by (cases "rep_err rep = None") (auto simp: exec_switch_def reads_def stat_def drainCursor_def)
  next
    case 2
    with assms(2) show ?thesis
      by (cases "rep_err rep = None") (auto simp: exec_switch_def reads_def stat_def drainCursor_def)
  next
    case 3
    with assms(2) show ?thesis
      by (elim is_updateE; cases "rep_err rep = None") (auto simp: exec_switch_def reads_def stat_def)
  next
    case 4
    with assms(2) show ?thesis
      by (elim is_deleteE; cases "rep_err rep = None") (auto simp: exec_switch_def reads_def stat_def)
  next
    case 5
    with assms(2) show ?thesis
      by (cases "rep_err rep = None") (auto simp: exec_switch_def reads_def stat_def)
  next
    case 6
    with assms(2) show ?thesis
      by (cases "rep_err rep = None") (auto simp: exec_switch_def reads_def stat_def)
  qed
qed

text \<open>C10: the statistics, the outcome and the record pool tell one story. For every standard operation
and every reply: the operation counts as a success exactly when the driver call returned no error; the
outcome is ok exactly when in addition the cursor of a read ended without one; a failed operation leaves
the record pool alone; and the collector sees the targeting event, at most one result (none after a
failure), one latency sample and one operation event, in this order, with the success that is returned.\<close>

theorem exec_outcome_consistent:
  assumes "standard_op (rq_opType r)"
    and "executeStandard ev dur r rep (Some out) s = (ok, i, out', s')"
  shows "(ok \<longleftrightarrow> rep_err rep = None)
    \<and> (\<exists>o'. out' = Some o' \<and> (oc_ok o' \<longleftrightarrow> ok \<and> (reads (rq_opType r) \<longrightarrow> rep_cursorErr rep = None))
          \<and> oc_latencyUS o' = go_div dur 1000)
    \<and> (\<not> ok \<longrightarrow> es_pool s' = es_pool s)
    \<and> (\<exists>target res q. es_stats s' = es_stats s @ target @ res
          @ [Track (rq_opType r) dur, RecordOperationEvent (rq_opType r) (rq_col r) (identity r) dur ok q]
        \<and> set target \<subseteq> {RecordTargeting (rq_usedExisting r)} \<and> length res \<le> 1 \<and> (\<not> ok \<longrightarrow> res = []))"
proof -
  define t where "t = (if filter_op (rq_opType r) \<or> rq_opType r = ''aggregate'' then [RecordTargeting (rq_usedExisting r)] else [])"
  define s1 where "s1 = s\<lparr>es_stats := es_stats s @ t\<rparr>"
  obtain err rr out1 s2 where sw: "exec_switch ev r rep (Some out) s1 = (ok, err, rr, out1, s2)"
    and out': "out' = (case out1 of None \<Rightarrow> None
                  | Some o' \<Rightarrow> rr_finish (ev_parse ev) (ev_ext ev) (ev_sha ev) rr (Some (finishOutcome dur err o')))"
    and s': "s' = stat (RecordOperationEvent (rq_opType r) (rq_col r) (identity r) dur ok
                 (if ev_captures ev then executableQuery r else None)) (stat (Track (rq_opType r) dur) s2)"
  proof -
    have "s1 = (if filter_op (rq_opType r) \<or> rq_opType r = ''aggregate'' then stat (RecordTargeting (rq_usedExisting r)) s else s)"
      by (simp add: s1_def t_def stat_def)
    with assms(2) that show thesis
      by (cases "exec_switch ev r rep (Some out) s1") (auto simp: executeStandard_def Let_def)
  qed
  note spec = exec_switch_spec [OF assms(1) sw]
  then obtain o1 where o1: "out1 = Some o1" by (cases out1) auto
  obtain o2 where o2: "out' = Some o2" "oc_ok o2 = oc_ok (finishOutcome dur err o1)"
    "oc_latencyUS o2 = oc_latencyUS (finishOutcome dur err o1)"
    using rr_finish_Some out' o1 by fastforce
  have "oc_ok o2 \<longleftrightarrow> ok \<and> (reads (rq_opType r) \<longrightarrow> rep_cursorErr rep = None)"
    using o2(2) spec by auto
  moreover have "oc_latencyUS o2 = go_div dur 1000" by (simp add: o2(3) finishOutcome_def split_beta)
  moreover have "es_pool s' = es_pool s" if "\<not> ok"
    using spec that by (simp add: s' stat_def s1_def)
  moreover have "\<exists>res q. es_stats s' = es_stats s @ t @ res
        @ [Track (rq_opType r) dur, RecordOperationEvent (rq_opType r) (rq_col r) (identity r) dur ok q]
      \<and> length res \<le> 1 \<and> (\<not> ok \<longrightarrow> res = [])"
  proof (cases ok)
    case True
    with spec obtain res where "es_stats s2 = es_stats s1 @ res" "length res \<le> 1" by auto
    with True show ?thesis by (auto simp: s' stat_def s1_def)
  next
    case False
    with spec have "s2 = s1" by auto
    with False show ?thesis by (auto simp: s' stat_def s1_def)
  qed
  moreover have "set t \<subseteq> {RecordTargeting (rq_usedExisting r)}" by (auto simp: t_def)
  ultimately show ?thesis using spec o2(1) by blast
qed

definition sample_env :: exec_env where
  "sample_env = \<lparr>ev_db = Some ''shop'', ev_checksums = False, ev_captures = False, ev_parse = (\<lambda>_. Raw_bad []),
     ev_ext = (\<lambda>_. Ok []), ev_sha = (\<lambda>x. x), ev_fmt = (\<lambda>_. [])\<rparr>"

definition ok_reply :: reply where
  "ok_reply = \<lparr>rep_err = None, rep_docs = [''doc''], rep_cursorErr = None, rep_matched = 0, rep_modified = 0,
     rep_upserted = 0, rep_deleted = 0\<rparr>"

theorem exec_outcome_consistent_witness:
  "\<exists>o' s' i. executeStandard sample_env 1500 sample_request ok_reply (Some empty_outcome)
      \<lparr>es_pool = None, es_stats = []\<rparr> = (True, i, Some o', s') \<and> oc_ok o' \<and> oc_latencyUS o' = 1"
proof -
  obtain ok i out' s' where run: "executeStandard sample_env 1500 sample_request ok_reply (Some empty_outcome)
      \<lparr>es_pool = None, es_stats = []\<rparr> = (ok, i, out', s')"
    by (cases "executeStandard sample_env 1500 sample_request ok_reply (Some empty_outcome) \<lparr>es_pool = None, es_stats = []\<rparr>")
  have "standard_op (rq_opType sample_request)"
    by (simp add: standard_op_def reads_def sample_request_def op_request.extend_def empty_request_def)
  from exec_outcome_consistent [OF this run] have "ok"
    and "\<exists>o'. out' = Some o' \<and> oc_ok o' \<and> oc_latencyUS o' = 1"
    by (auto simp: ok_reply_def)
  with run show ?thesis by auto
qed

subsection \<open>Transactions\<close>

lemma tx_attempts_last:
  "tx_attempts ev tg replayOps (as @ [a]) st = Some (ops, rng', s')
    \<Longrightarrow> \<exists>rng1 s1. tx_attempt ev tg replayOps a rng1 s1 = Some (ops, rng', s')"
proof (induction as arbitrary: st)
  case Nil
  then show ?case by (cases st) (auto simp: bind_eq_Some_conv)
next
  case (Cons b as)
  then show ?case by (cases st) (auto simp: bind_eq_Some_conv)
qed

text \<open>a recorded transaction is the one the server saw last. However often the driver retries it,
the recorded entry holds exactly the operations sent by the last attempt, in order, with the commit
result; a replayed or deterministic transaction (\<open>replayOps\<close>) sends its given operations on every attempt
and so records them whatever happened. With neither operations nor a generator the first attempt
panics.\<close>

theorem transaction_records_last_attempt:
  assumes "attempts = as @ [a]"
  shows "(case runTransaction ev tg worker offset dur True True replayOps attempts err out (rng, s) of
      None \<Rightarrow> replayOps = None
    | Some (ok, e, out', rng', s') \<Rightarrow>
        (\<exists>ops rng1 s1 s2. tx_attempt ev tg replayOps a rng1 s1 = Some (ops, rng', s2)
          \<and> e = Some (tx_entry worker offset (ev_db ev) ops (err = None) (map_option (transactionOutcome dur err) out))
          \<and> ok = (err = None) \<and> es_pool s' = es_pool s2
          \<and> (case replayOps of None \<Rightarrow> True | Some l \<Rightarrow> ops = l)))
    \<and> (replayOps = None \<and> rng = None \<longrightarrow>
        runTransaction ev tg worker offset dur True True replayOps attempts err out (rng, s) = None)"
proof (intro conjI impI)
  let ?run = "tx_attempts ev tg replayOps (as @ [a]) (some_list replayOps, rng, s)"
  have replay: "\<exists>r. tx_attempts ev tg (Some g) bs st = Some r" for g bs st
    by (induction bs arbitrary: st) (auto simp: tx_attempt_def split: prod.split)
  show "case runTransaction ev tg worker offset dur True True replayOps attempts err out (rng, s) of
      None \<Rightarrow> replayOps = None
    | Some (ok, e, out', rng', s') \<Rightarrow>
        (\<exists>ops rng1 s1 s2. tx_attempt ev tg replayOps a rng1 s1 = Some (ops, rng', s2)
          \<and> e = Some (tx_entry worker offset (ev_db ev) ops (err = None) (map_option (transactionOutcome dur err) out))
          \<and> ok = (err = None) \<and> es_pool s' = es_pool s2
          \<and> (case replayOps of None \<Rightarrow> True | Some l \<Rightarrow> ops = l))"
  proof (cases ?run)
    case None
    then have "replayOps = None"
      using replay [of "the replayOps" "as @ [a]" "(some_list replayOps, rng, s)"] by (cases replayOps) auto
    with None show ?thesis by (simp add: runTransaction_def assms)
  next
    case (Some res)
    obtain ops rng' s2 where res: "res = (ops, rng', s2)" by (cases res)
    from tx_attempts_last [OF Some [unfolded res]] obtain rng1 s1
      where att: "tx_attempt ev tg replayOps a rng1 s1 = Some (ops, rng', s2)" by blast
    then have "case replayOps of None \<Rightarrow> True | Some l \<Rightarrow> ops = l"
      by (cases replayOps) (auto simp: tx_attempt_def)
    with att Some show ?thesis by (auto simp: runTransaction_def assms res Let_def stat_def)
  qed
next
  assume "replayOps = None \<and> rng = None"
  then show "runTransaction ev tg worker offset dur True True replayOps attempts err out (rng, s) = None"
    unfolding assms by (cases as) (simp_all add: runTransaction_def tx_attempt_def)
qed

definition no_gen :: "unit tx_gen" where
  "no_gen = \<lparr>tg_num = (\<lambda>_. None), tg_one = (\<lambda>_ _. (None, ()))\<rparr>"

theorem transaction_records_last_attempt_witness:
  "runTransaction sample_env no_gen 1 0 5 True True None [\<lambda>_. True] None None (None, \<lparr>es_pool = None, es_stats = []\<rparr>) = None"
  using transaction_records_last_attempt [where attempts = "[\<lambda>_. True]" and as = "[]" and a = "\<lambda>_. True"
      and ev = sample_env and tg = no_gen and worker = 1 and offset = 0 and dur = 5 and replayOps = None and err = None
      and out = None and rng = None and s = "\<lparr>es_pool = None, es_stats = []\<rparr>"] by simp

end
