(* ===== verification/Placeholders.thy ===== *)
theory Placeholders
  imports Shapes
begin

text \<open>
  Filling the placeholders of a query (\<open>internal/mongo/placeholders.go\<close>): every string value like
  \<open><int>\<close> in a filter or a pipeline is replaced by a field of an existing record, when one was chosen and
  its type fits, or by a random value. The source changes the maps in place; here the changed value is
  returned. Deterministic runs visit the keys of every map in sorted order (\<open>srt\<close>).

  The random generator is \<open>rng_ops\<close>; the outer option is the call returning (\<open>Intn\<close> is a rejection loop).
\<close>

definition has_suffix :: "string \<Rightarrow> string \<Rightarrow> bool" where
  "has_suffix p s \<longleftrightarrow> length p \<le> length s \<and> drop (length s - length p) s = p"

definition typed_placeholders :: "string list" where
  "typed_placeholders = [''<int>'', ''<string>'', ''<boolean>'', ''<bool>'', ''<array>'', ''<object>'', ''<null>'']"

definition isDatatypePlaceholder :: "string \<Rightarrow> bool" where
  "isDatatypePlaceholder s \<longleftrightarrow> s \<in> set typed_placeholders \<or> has_prefix ''<'' s \<and> has_suffix ''>'' s"

definition draw :: "'g rng_ops \<Rightarrow> int \<Rightarrow> (int \<Rightarrow> gval) \<Rightarrow> 'g \<Rightarrow> (gval \<times> 'g) option" where
  "draw R n f g = map_option (\<lambda>(i, g'). (f i, g')) (rng_Intn R n g)"

definition val_string :: "int \<Rightarrow> gval" where
  "val_string i = GStr (''val-'' @ itoa i)"

definition randomPlaceholder :: "'g rng_ops \<Rightarrow> string \<Rightarrow> 'g \<Rightarrow> (gval \<times> 'g) option" where
  "randomPlaceholder R p g =
     (if p = ''<int>'' then draw R 1000 GInt g
      else if p = ''<string>'' then draw R 1000 val_string g
      else if p = ''<boolean>'' \<or> p = ''<bool>'' then draw R 2 (\<lambda>i. GBool (i = 0)) g
      else if p = ''<null>'' then Some (GNil, g)
      else if p = ''<array>'' then draw R 1000 (\<lambda>i. GSlice [GInt i]) g
      else if p = ''<object>'' then draw R 1000 (\<lambda>i. GMap [(''k'', GInt i)]) g
      else if has_prefix ''<'' p \<and> has_suffix ''>'' p then draw R 1000 val_string g
      else Some (GStr p, g))"

text \<open>\<open>map[string]interface{}\<close> or \<open>map[string]int\<close>. The model's \<open>GTMap\<close> does not keep the element type,
so a typed map without entries counts as the latter.\<close>

fun is_object :: "gval \<Rightarrow> bool" where
  "is_object (GMap _) = True"
| "is_object (GTMap kvs) = list_all (\<lambda>(_, x). case x of GInt _ \<Rightarrow> True | _ \<Rightarrow> False) kvs"
| "is_object _ = False"

definition placeholderCompatible :: "string \<Rightarrow> gval \<Rightarrow> bool" where
  "placeholderCompatible p v =
     (if p = ''<int>'' then (case v of GInt _ \<Rightarrow> True | GInt32 _ \<Rightarrow> True | GInt64 _ \<Rightarrow> True | GFloat _ \<Rightarrow> True | _ \<Rightarrow> False)
      else if p = ''<string>'' then (case v of GStr _ \<Rightarrow> True | _ \<Rightarrow> False)
      else if p = ''<boolean>'' \<or> p = ''<bool>'' then (case v of GBool _ \<Rightarrow> True | _ \<Rightarrow> False)
      else if p = ''<null>'' then v = GNil
      else if p = ''<array>'' then (case v of GSlice _ \<Rightarrow> True | _ \<Rightarrow> False)
      else if p = ''<object>'' then is_object v
      else False)"

text \<open>\<open>lookupField\<close> follows a dotted path through nested maps.\<close>

primrec lookup_path :: "string list \<Rightarrow> gval \<Rightarrow> gval option" where
  "lookup_path [] v = Some v"
| "lookup_path (p # ps) v = (case v of GMap kvs \<Rightarrow> Option.bind (map_of kvs p) (lookup_path ps) | _ \<Rightarrow> None)"

definition lookupField :: "document \<Rightarrow> string \<Rightarrow> gval option" where
  "lookupField rec path = (if path = [] then None else lookup_path (split_on (CHR ''.'') path) (GMap rec))"

definition fits :: "string \<Rightarrow> gval option \<Rightarrow> gval option" where
  "fits p v = (case v of Some x \<Rightarrow> if placeholderCompatible p x then Some x else None | None \<Rightarrow> None)"

definition replacePlaceholder :: "'g rng_ops \<Rightarrow> document option \<Rightarrow> string \<Rightarrow> string \<Rightarrow> 'g \<Rightarrow> (gval \<times> 'g) option" where
  "replacePlaceholder R existing path p g =
     (case existing of
        None \<Rightarrow> randomPlaceholder R p g
      | Some rec \<Rightarrow>
         (case fits p (lookupField rec path) of
            Some v \<Rightarrow> Some (v, g)
          | None \<Rightarrow> (case fits p (map_of rec path) of Some v \<Rightarrow> Some (v, g) | None \<Rightarrow> randomPlaceholder R p g)))"

subsection \<open>Walking a value\<close>

definition key_path :: "string \<Rightarrow> string \<Rightarrow> string" where
  "key_path path k = (if path \<noteq> [] then path @ ''.'' @ k else k)"

function (sequential) processFilterPlaceholders ::
    "'g rng_ops \<Rightarrow> bool \<Rightarrow> document option \<Rightarrow> gval \<Rightarrow> string \<Rightarrow> 'g \<Rightarrow> (gval \<times> 'g) option"
  and process_entries :: "'g rng_ops \<Rightarrow> bool \<Rightarrow> document option \<Rightarrow> document \<Rightarrow> string \<Rightarrow> 'g \<Rightarrow> (document \<times> 'g) option"
  and process_values :: "'g rng_ops \<Rightarrow> bool \<Rightarrow> document option \<Rightarrow> gval list \<Rightarrow> string \<Rightarrow> 'g \<Rightarrow> (gval list \<times> 'g) option" where
  "processFilterPlaceholders R srt ex (GMap kvs) path g =
     map_option (\<lambda>(kvs', g'). (GMap kvs', g'))
       (process_entries R srt ex (if srt then sort_entries kvs else kvs) path g)"
| "processFilterPlaceholders R srt ex (GSlice xs) path g =
     map_option (\<lambda>(xs', g'). (GSlice xs', g')) (process_values R srt ex xs path g)"
| "processFilterPlaceholders R srt ex v path g = Some (v, g)"
| "process_entries R srt ex [] path g = Some ([], g)"
| "process_entries R srt ex ((k, v) # es) path g =
     Option.bind
       (case v of GStr s \<Rightarrow> if isDatatypePlaceholder s then replacePlaceholder R ex (key_path path k) s g else Some (v, g)
        | _ \<Rightarrow> processFilterPlaceholders R srt ex v (if has_prefix ''$'' k then path else key_path path k) g)
       (\<lambda>(v', g1). map_option (\<lambda>(es', g2). ((k, v') # es', g2)) (process_entries R srt ex es path g1))"
| "process_values R srt ex [] path g = Some ([], g)"
| "process_values R srt ex (x # xs) path g =
     Option.bind (processFilterPlaceholders R srt ex x path g)
       (\<lambda>(x', g1). map_option (\<lambda>(xs', g2). (x' # xs', g2)) (process_values R srt ex xs path g1))"
  by pat_completeness auto
termination
  by (relation "measure (case_sum (\<lambda>(_, _, _, v, _). size v)
      (case_sum (\<lambda>(_, _, _, es, _). size_list (size_prod (\<lambda>_. 0) size) es) (\<lambda>(_, _, _, xs, _). size_list size xs)))")
     auto

text \<open>\<open>newPlaceholderOptions\<close>: the existing record, when this operation uses one. A nil pool or generator,
a hit rate of zero and an empty namespace never do; \<open>None\<close> is a call that does not return.\<close>

definition newPlaceholderOptions ::
    "'g rng_ops \<Rightarrow> (rat \<Rightarrow> rat \<Rightarrow> rat) \<Rightarrow> 'g option \<Rightarrow> record_pool option \<Rightarrow> string \<Rightarrow> int
      \<Rightarrow> (document option \<times> 'g option) option" where
  "newPlaceholderOptions R pow rng pool ns hitRate =
     (case (pool, rng) of
        (Some p, Some g) \<Rightarrow>
          (if hitRate \<le> 0 \<or> ns = [] then Some (None, rng)
           else Option.bind (rng_Intn R 100 g) (\<lambda>(d, g1).
             if d \<ge> hitRate then Some (None, Some g1) else pool_Random R pow (Some p) ns (Some g1)))
      | _ \<Rightarrow> Some (None, rng))"

text \<open>\<open>processRecursiveWithPool\<close> returns the filled value and whether an existing record was used.\<close>

definition processRecursiveWithPool ::
    "'g rng_ops \<Rightarrow> (rat \<Rightarrow> rat \<Rightarrow> rat) \<Rightarrow> gval \<Rightarrow> 'g \<Rightarrow> record_pool option \<Rightarrow> string \<Rightarrow> int \<Rightarrow> (gval \<times> bool \<times> 'g) option" where
  "processRecursiveWithPool R pow v g pool ns hitRate =
     Option.bind (newPlaceholderOptions R pow (Some g) pool ns hitRate) (\<lambda>(ex, rng).
       Option.bind rng (\<lambda>g1.
         map_option (\<lambda>(v', g2). (v', ex \<noteq> None, g2)) (processFilterPlaceholders R False ex v [] g1)))"

subsection \<open>What filling changes\<close>

definition is_placeholder :: "gval \<Rightarrow> bool" where
  "is_placeholder v \<longleftrightarrow> (case v of GStr s \<Rightarrow> isDatatypePlaceholder s | _ \<Rightarrow> False)"

text \<open>A value that may stand for a placeholder: a value of the type it names, or one of the thousand
random strings for a placeholder of another name.\<close>

definition is_number :: "gval \<Rightarrow> bool" where
  "is_number v \<longleftrightarrow> (\<exists>i. v = GInt i) \<or> (\<exists>i. v = GInt32 i) \<or> (\<exists>i. v = GInt64 i) \<or> (\<exists>x. v = GFloat x)"

definition stands_for :: "string \<Rightarrow> gval \<Rightarrow> bool" where
  "stands_for s v \<longleftrightarrow>
     s = ''<int>'' \<and> is_number v
     \<or> s = ''<string>'' \<and> (\<exists>t. v = GStr t)
     \<or> s \<in> {''<boolean>'', ''<bool>''} \<and> (\<exists>b. v = GBool b)
     \<or> s = ''<null>'' \<and> v = GNil
     \<or> s = ''<array>'' \<and> (\<exists>xs. v = GSlice xs)
     \<or> s = ''<object>'' \<and> is_object v
     \<or> s \<notin> set typed_placeholders \<and> (\<exists>i. 0 \<le> i \<and> i < 1000 \<and> v = val_string i)"

lemma compatible_stands_for: "placeholderCompatible s v \<Longrightarrow> stands_for s v"
  by (auto simp: placeholderCompatible_def stands_for_def is_number_def split: if_splits gval.splits)

text \<open>\<open>filled v w\<close>: \<open>w\<close> is \<open>v\<close> with every placeholder that is the value of a key of a map replaced, and
nothing else changed but the order of the entries of maps.\<close>

inductive filled :: "gval \<Rightarrow> gval \<Rightarrow> bool"
  and filled_entries :: "document \<Rightarrow> document \<Rightarrow> bool"
  and filled_values :: "gval list \<Rightarrow> gval list \<Rightarrow> bool" where
  fill_map: "mset kvs = mset es \<Longrightarrow> filled_entries es es' \<Longrightarrow> filled (GMap kvs) (GMap es')"
| fill_slice: "filled_values xs ys \<Longrightarrow> filled (GSlice xs) (GSlice ys)"
| fill_other: "\<not> (\<exists>kvs. v = GMap kvs) \<Longrightarrow> \<not> (\<exists>xs. v = GSlice xs) \<Longrightarrow> filled v v"
| fill_nil: "filled_entries [] []"
| fill_placeholder: "isDatatypePlaceholder s \<Longrightarrow> stands_for s v' \<Longrightarrow> filled_entries es es'
    \<Longrightarrow> filled_entries ((k, GStr s) # es) ((k, v') # es')"
| fill_entry: "\<not> is_placeholder v \<Longrightarrow> filled v v' \<Longrightarrow> filled_entries es es'
    \<Longrightarrow> filled_entries ((k, v) # es) ((k, v') # es')"
| fill_no_values: "filled_values [] []"
| fill_value: "filled x y \<Longrightarrow> filled_values xs ys \<Longrightarrow> filled_values (x # xs) (y # ys)"

lemma typed_placeholder_names:
  "''<int>'' \<in> set typed_placeholders" "''<string>'' \<in> set typed_placeholders" "''<boolean>'' \<in> set typed_placeholders"
  "''<bool>'' \<in> set typed_placeholders" "''<array>'' \<in> set typed_placeholders" "''<object>'' \<in> set typed_placeholders"
  "''<null>'' \<in> set typed_placeholders"
  by (simp_all add: typed_placeholders_def)

context rng_source begin

lemma draw_returns: "0 < n \<Longrightarrow> n < 2 ^ 63 \<Longrightarrow> \<exists>i g'. draw R n f g = Some (f i, g') \<and> 0 \<le> i \<and> i < n"
  by (metis Intn_obtain draw_def option.map(2) case_prod_conv)

lemma randomPlaceholder_returns:
  assumes "isDatatypePlaceholder s"
  shows "\<exists>v g'. randomPlaceholder R s g = Some (v, g') \<and> stands_for s v"
proof (cases "s \<in> set typed_placeholders")
  case True
  obtain i g1 where i: "rng_Intn R 1000 g = Some (i, g1)" by (rule Intn_obtain [of 1000 g]) auto
  obtain j g2 where j: "rng_Intn R 2 g = Some (j, g2)" by (rule Intn_obtain [of 2 g]) auto
  from True show ?thesis
    by (auto simp: typed_placeholders_def randomPlaceholder_def stands_for_def is_number_def draw_def
        val_string_def i j)
next
  case False
  then have "has_prefix ''<'' s \<and> has_suffix ''>'' s" using assms by (simp add: isDatatypePlaceholder_def)
  moreover have "s \<notin> {''<int>'', ''<string>'', ''<boolean>'', ''<bool>'', ''<array>'', ''<object>'', ''<null>''}"
    using False by (auto simp: typed_placeholders_def)
  ultimately have "randomPlaceholder R s g = draw R 1000 val_string g" by (auto simp: randomPlaceholder_def)
  with False draw_returns [of 1000 val_string g] show ?thesis by (auto simp: stands_for_def)
qed

lemma replacePlaceholder_returns:
  assumes "isDatatypePlaceholder s"
  shows "\<exists>v g'. replacePlaceholder R ex path s g = Some (v, g') \<and> stands_for s v"
proof -
  have fit: "fits s x = Some v \<Longrightarrow> stands_for s v" for x v
    by (auto simp: fits_def compatible_stands_for split: option.splits if_splits)
  show ?thesis
    using randomPlaceholder_returns [OF assms, of g]
    by (auto simp: replacePlaceholder_def fit split: option.split)
qed

end

lemma process_entry_filled:
  assumes "rng_source R" and "\<not> is_placeholder v \<Longrightarrow> \<exists>v' g'. processFilterPlaceholders R srt ex v p g = Some (v', g') \<and> filled v v'"
    and "\<And>g. \<exists>es' g'. process_entries R srt ex es path g = Some (es', g') \<and> filled_entries es es'"
    and "p = (if has_prefix ''$'' k then path else key_path path k)"
  shows "\<exists>es' g'. process_entries R srt ex ((k, v) # es) path g = Some (es', g') \<and> filled_entries ((k, v) # es) es'"
proof (cases "is_placeholder v")
  case True
  then obtain s where s: "v = GStr s" "isDatatypePlaceholder s"
    by (auto simp: is_placeholder_def split: gval.splits)
  obtain w g1 where w: "replacePlaceholder R ex (key_path path k) s g = Some (w, g1)" "stands_for s w"
    using rng_source.replacePlaceholder_returns [OF assms(1) s(2)] by blast
  with assms(3) [of g1] show ?thesis by (auto simp: s intro!: filled_filled_entries_filled_values.fill_placeholder)
next
  case False
  then obtain w g1 where w: "processFilterPlaceholders R srt ex v p g = Some (w, g1)" "filled v w"
    using assms(2) by blast
  have "(case v of GStr s \<Rightarrow> if isDatatypePlaceholder s then replacePlaceholder R ex (key_path path k) s g else Some (v, g)
        | _ \<Rightarrow> processFilterPlaceholders R srt ex v (if has_prefix ''$'' k then path else key_path path k) g) = Some (w, g1)"
    using False w(1) by (auto simp: assms(4) is_placeholder_def split: gval.splits)
  with assms(3) [of g1] False w(2) show ?thesis
    by (auto intro!: filled_filled_entries_filled_values.fill_entry)
qed

lemma process_entries_filled:
  assumes "rng_source R"
    and "\<And>k w p g. (k, w) \<in> set es \<Longrightarrow> \<exists>v' g'. processFilterPlaceholders R srt ex w p g = Some (v', g') \<and> filled w v'"
  shows "\<exists>es' g'. process_entries R srt ex es path g = Some (es', g') \<and> filled_entries es es'"
  using assms(2)
proof (induction es arbitrary: g)
  case Nil
  then show ?case by (auto intro: filled_filled_entries_filled_values.fill_nil)
next
  case (Cons e es)
  obtain k w where e: "e = (k, w)" by (cases e)
  show ?case unfolding e
  proof (rule process_entry_filled [OF assms(1) _ _ refl])
    show "\<exists>v' g'. processFilterPlaceholders R srt ex w (if has_prefix ''$'' k then path else key_path path k) g = Some (v', g') \<and> filled w v'"
      by (rule Cons.prems [of k]) (simp add: e)
    show "\<exists>es' g'. process_entries R srt ex es path g = Some (es', g') \<and> filled_entries es es'" for g
      using Cons.prems by (intro Cons.IH) (meson list.set_intros(2))
  qed
qed

lemma process_values_filled:
  assumes "\<And>w g. w \<in> set xs \<Longrightarrow> \<exists>v' g'. processFilterPlaceholders R srt ex w path g = Some (v', g') \<and> filled w v'"
  shows "\<exists>xs' g'. process_values R srt ex xs path g = Some (xs', g') \<and> filled_values xs xs'"
  using assms
proof (induction xs arbitrary: g)
  case Nil
  then show ?case by (auto intro: filled_filled_entries_filled_values.fill_no_values)
next
  case (Cons x xs)
  obtain y g1 where y: "processFilterPlaceholders R srt ex x path g = Some (y, g1)" "filled x y"
    using Cons.prems [of x g] by auto
  obtain ys g2 where "process_values R srt ex xs path g1 = Some (ys, g2)" "filled_values xs ys"
    using Cons.IH [of g1] Cons.prems by auto
  with y show ?case by (auto intro: filled_filled_entries_filled_values.fill_value)
qed

lemma process_filled:
  assumes "rng_source R"
  shows "\<exists>v' g'. processFilterPlaceholders R srt ex v path g = Some (v', g') \<and> filled v v'"
proof (induction v arbitrary: path g rule: measure_induct_rule [of size])
  case (less v)
  consider (map) kvs where "v = GMap kvs" | (slice) xs where "v = GSlice xs"
    | (other) "\<not> (\<exists>kvs. v = GMap kvs)" "\<not> (\<exists>xs. v = GSlice xs)" by blast
  then show ?case
  proof cases
    case map
    let ?es = "if srt then sort_entries kvs else kvs"
    have "\<exists>es' g'. process_entries R srt ex ?es path g = Some (es', g') \<and> filled_entries ?es es'"
    proof (rule process_entries_filled [OF assms])
      fix k w p g assume "(k, w) \<in> set ?es"
      then have "size w < size v" using entry_size_Map [of k w kvs] by (simp add: map split: if_splits)
      then show "\<exists>v' g'. processFilterPlaceholders R srt ex w p g = Some (v', g') \<and> filled w v'" by (rule less.IH)
    qed
    moreover have "mset kvs = mset ?es" by (simp add: sort_entries_def)
    ultimately show ?thesis by (auto simp: map intro: filled_filled_entries_filled_values.fill_map)
  next
    case slice
    have "\<exists>xs' g'. process_values R srt ex xs path g = Some (xs', g') \<and> filled_values xs xs'"
    proof (rule process_values_filled)
      fix w g assume "w \<in> set xs"
      then have "size w < size v" using member_size_Slice [of w xs] by (simp add: slice)
      then show "\<exists>v' g'. processFilterPlaceholders R srt ex w path g = Some (v', g') \<and> filled w v'" by (rule less.IH)
    qed
    then show ?thesis by (auto simp: slice intro: filled_filled_entries_filled_values.fill_slice)
  next
    case other
    then have "processFilterPlaceholders R srt ex v path g = Some (v, g)" by (cases v) auto
    with other show ?thesis by (auto intro: filled_filled_entries_filled_values.fill_other)
  qed
qed

subsection \<open>Order of the draws\<close>

text \<open>Results of two walks that agree: neither returns, or the values differ only in the iteration order
of maps and the generator is in the same state.\<close>

definition same_result :: "('a \<Rightarrow> 'a \<Rightarrow> bool) \<Rightarrow> ('a \<times> 'g) option \<Rightarrow> ('a \<times> 'g) option \<Rightarrow> bool" where
  "same_result Q x y \<longleftrightarrow> rel_option (rel_prod Q (=)) x y"

lemma same_result_refl: "(\<And>v. Q v v) \<Longrightarrow> same_result Q x x"
  by (auto simp: same_result_def option.rel_refl rel_prod.simps intro!: option.rel_refl)

lemma sort_entries_split:
  "\<exists>us vs. \<forall>v :: 'a. sort_entries (xs @ (k, v) # ys) = us @ (k, v) # vs"
proof -
  have ins: "\<exists>us' vs'. \<forall>v. insort_key fst e (us @ (k, v) # vs) = us' @ (k, v) # vs'" for e us vs
  proof (induction us)
    case Nil
    show ?case
    proof (cases "fst e \<le> k")
      case True
      then have "\<forall>v. insort_key fst e ([] @ (k, v) # vs) = [e] @ (k, v) # vs" by simp
      then show ?thesis by blast
    next
      case False
      then have "\<forall>v. insort_key fst e ([] @ (k, v) # vs) = [] @ (k, v) # insort_key fst e vs" by simp
      then show ?thesis by blast
    qed
  next
    case (Cons u us)
    then obtain us' vs' where "\<forall>v. insort_key fst e (us @ (k, v) # vs) = us' @ (k, v) # vs'" by blast
    then have "\<forall>v. insort_key fst e ((u # us) @ (k, v) # vs)
        = (if fst e \<le> fst u then e # u # us else u # us') @ (k, v) # (if fst e \<le> fst u then vs else vs')" by simp
    then show ?case by blast
  qed
  show ?thesis
  proof (induction xs)
    case Nil
    have "\<forall>v. insort_key fst (k, v) zs = takeWhile (\<lambda>e. fst e < k) zs @ (k, v) # dropWhile (\<lambda>e. fst e < k) zs"
      for zs :: "(string \<times> 'a) list"
      by (induction zs) auto
    then have "\<forall>v. sort_entries ([] @ (k, v) # ys)
        = takeWhile (\<lambda>e. fst e < k) (sort_entries ys) @ (k, v) # dropWhile (\<lambda>e. fst e < k) (sort_entries ys)"
      by (simp add: sort_entries_def)
    then show ?case by blast
  next
    case (Cons x xs)
    then obtain us vs where "\<forall>v. sort_entries (xs @ (k, v) # ys) = us @ (k, v) # vs" by blast
    then have "\<forall>v. sort_entries ((x # xs) @ (k, v) # ys) = insort_key fst x (us @ (k, v) # vs)"
      by (simp add: sort_entries_def)
    with ins [of x us vs] show ?case by simp
  qed
qed

definition same_entries :: "document \<Rightarrow> document \<Rightarrow> bool" where
  "same_entries es es' \<longleftrightarrow> list_all2 (\<lambda>e e'. fst e = fst e' \<and> same_value (snd e) (snd e')) es es'"

lemma same_value_entries: "same_entries es es' \<Longrightarrow> same_value (GMap (pre @ es)) (GMap (pre @ es'))"
  unfolding same_entries_def
proof (induction arbitrary: pre rule: list_all2_induct)
  case Nil
  then show ?case by (simp add: same_refl)
next
  case (Cons e es e' es')
  obtain k v w where e: "e = (k, v)" "e' = (k, w)" "same_value v w"
    using Cons.hyps(1) by (cases e; cases e') auto
  have "same_value (GMap (pre @ e # es)) (GMap (pre @ e' # es))"
    using same_in_Map [OF e(3), of pre k es] by (simp add: e)
  also have "same_value (GMap (pre @ e' # es)) (GMap (pre @ e' # es'))"
    using Cons.IH [of "pre @ [e']"] by simp
  finally (same_trans) show ?case .
qed

lemma same_value_members: "list_all2 same_value xs ys \<Longrightarrow> same_value (GSlice (pre @ xs)) (GSlice (pre @ ys))"
proof (induction arbitrary: pre rule: list_all2_induct)
  case Nil
  then show ?case by (simp add: same_refl)
next
  case (Cons x xs y ys)
  have "same_value (GSlice (pre @ x # xs)) (GSlice (pre @ y # xs))"
    using Cons.hyps(1) by (rule same_in_Slice)
  also have "same_value (GSlice (pre @ y # xs)) (GSlice (pre @ y # ys))"
    using Cons.IH [of "pre @ [y]"] by simp
  finally (same_trans) show ?case .
qed

lemma process_entries_same:
  assumes "same_value v w"
    and "\<And>path g. same_result same_value (processFilterPlaceholders R True ex v path g) (processFilterPlaceholders R True ex w path g)"
  shows "same_result same_entries (process_entries R True ex (us @ (k, v) # vs) path g) (process_entries R True ex (us @ (k, w) # vs) path g)"
proof (induction us arbitrary: g)
  case Nil
  have *: "same_result same_entries
     (Option.bind x (\<lambda>(v', g1). map_option (\<lambda>(es', g2). ((k, v') # es', g2)) (process_entries R True ex vs path g1)))
     (Option.bind y (\<lambda>(v', g1). map_option (\<lambda>(es', g2). ((k, v') # es', g2)) (process_entries R True ex vs path g1)))"
    if "same_result same_value x y" for x y
    using that
    by (cases x; cases y) (auto simp: same_result_def same_entries_def list_all2_refl same_refl
        option.rel_map rel_fun_def intro!: option.rel_refl)
  show ?case
  proof (cases "v = w")
    case True
    then show ?thesis by (auto intro!: same_result_refl simp: same_entries_def list_all2_refl same_refl)
  next
    case False
    then have "is_container v" "is_container w" using same_value_leaf [OF assms(1)] by auto
    then have "\<not> (\<exists>s. v = GStr s)" "\<not> (\<exists>s. w = GStr s)" by auto
    then show ?thesis using * [OF assms(2)] by (cases v; cases w) simp_all
  qed
next
  case (Cons u us)
  obtain l x where u: "u = (l, x)" by (cases u)
  let ?step = "\<lambda>es. \<lambda>(v', g1). map_option (\<lambda>(es', g2). ((l, v') # es', g2)) (process_entries R True ex es path g1)"
  have "same_result same_entries (Option.bind z (?step (us @ (k, v) # vs))) (Option.bind z (?step (us @ (k, w) # vs)))" for z
  proof (cases z)
    case (Some a)
    show ?thesis using Cons.IH [of "snd a"]
      by (auto simp: Some same_result_def same_entries_def option.rel_map rel_prod.simps same_refl
          split_beta elim!: option.rel_mono_strong)
  qed (simp add: same_result_def)
  then show ?case by (simp add: u)
qed

lemma process_values_same:
  assumes "\<And>path g. same_result same_value (processFilterPlaceholders R True ex v path g) (processFilterPlaceholders R True ex w path g)"
  shows "same_result (list_all2 same_value) (process_values R True ex (us @ v # vs) path g) (process_values R True ex (us @ w # vs) path g)"
proof (induction us arbitrary: g)
  case Nil
  have *: "same_result (list_all2 same_value)
     (Option.bind x (\<lambda>(v', g1). map_option (\<lambda>(es', g2). (v' # es', g2)) (process_values R True ex vs path g1)))
     (Option.bind y (\<lambda>(v', g1). map_option (\<lambda>(es', g2). (v' # es', g2)) (process_values R True ex vs path g1)))"
    if "same_result same_value x y" for x y
    using that
    by (cases x; cases y) (auto simp: same_result_def list_all2_refl same_refl option.rel_map intro!: option.rel_refl)
  show ?case using * [OF assms] by simp
next
  case (Cons u us)
  let ?step = "\<lambda>es. \<lambda>(v', g1). map_option (\<lambda>(es', g2). (v' # es', g2)) (process_values R True ex es path g1)"
  have "same_result (list_all2 same_value) (Option.bind z (?step (us @ v # vs))) (Option.bind z (?step (us @ w # vs)))" for z
  proof (cases z)
    case (Some a)
    show ?thesis using Cons.IH [of "snd a"]
      by (auto simp: Some same_result_def option.rel_map rel_prod.simps same_refl
          split_beta elim!: option.rel_mono_strong)
  qed (simp add: same_result_def)
  then show ?case by simp
qed

lemma same_result_map:
  "same_result Q x y \<Longrightarrow> (\<And>a b. Q a b \<Longrightarrow> Q' (f a) (f' b))
    \<Longrightarrow> same_result Q' (map_option (\<lambda>(a, g). (f a, g)) x) (map_option (\<lambda>(a, g). (f' a, g)) y)"
  by (cases x; cases y) (auto simp: same_result_def)

lemma same_result_trans:
  "same_result same_value x y \<Longrightarrow> same_result same_value y z \<Longrightarrow> same_result same_value x z"
  by (cases x; cases y; cases z) (auto simp: same_result_def intro: same_trans)

text \<open>The values drawn by a deterministic run do not depend on the order in which Go iterates over the maps
of a query: two values that differ in that order only, filled with the keys sorted from the same state of the
generator, give values that differ in that order only and leave the generator in the same state.\<close>

theorem sorted_filling_ignores_map_order:
  assumes "same_value v w"
  shows "same_result same_value (processFilterPlaceholders R True ex v path g) (processFilterPlaceholders R True ex w path g)"
  using assms
proof (induction arbitrary: path g rule: same_value.induct)
  case (same_refl v)
  show ?case by (rule same_result_refl) (rule same_value.same_refl)
next
  case (same_trans u v w)
  then show ?case using same_result_trans by blast
next
  case (same_perm_Map kvs kvs')
  then have "sort_entries kvs = sort_entries kvs'" by (rule sort_entries_unique)
  then show ?case by (auto intro!: same_result_refl simp: same_value.same_refl)
next
  case (same_in_Map v w xs k ys)
  obtain us vs where us: "\<forall>v. sort_entries (xs @ (k, v) # ys) = us @ (k, v) # vs"
    using sort_entries_split by blast
  have "same_result same_entries (process_entries R True ex (us @ (k, v) # vs) path g) (process_entries R True ex (us @ (k, w) # vs) path g)"
    using same_in_Map.hyps same_in_Map.IH by (rule process_entries_same)
  then show ?case unfolding processFilterPlaceholders.simps us [rule_format] if_True
    by (rule same_result_map) (use same_value_entries [of _ _ "[]"] in simp)
next
  case (same_in_Slice v w us vs)
  have "same_result (list_all2 same_value) (process_values R True ex (us @ v # vs) path g) (process_values R True ex (us @ w # vs) path g)"
    using same_in_Slice.IH by (rule process_values_same)
  then show ?case unfolding processFilterPlaceholders.simps
    by (rule same_result_map) (use same_value_members [of _ _ "[]"] in simp)
qed (auto simp: same_result_def intro: same_value.intros)

theorem sorted_filling_ignores_map_order_witness:
  "same_result same_value
     (processFilterPlaceholders splitmix_rng True None (GMap [(''b'', GStr ''<int>''), (''a'', GMap [(''$in'', GSlice [GStr ''<string>'']), (''x'', GStr ''<bool>'')])]) [] (7 :: u64))
     (processFilterPlaceholders splitmix_rng True None (GMap [(''a'', GMap [(''$in'', GSlice [GStr ''<string>'']), (''x'', GStr ''<bool>'')]), (''b'', GStr ''<int>'')]) [] (7 :: u64))"
proof -
  have "same_value (GMap [(''b'', GStr ''<int>''), (''a'', GMap [(''$in'', GSlice [GStr ''<string>'']), (''x'', GStr ''<bool>'')])])
      (GMap [(''a'', GMap [(''$in'', GSlice [GStr ''<string>'']), (''x'', GStr ''<bool>'')]), (''b'', GStr ''<int>'')])"
    by (rule same_perm_Map) (simp_all add: add_mset_commute)
  then show ?thesis by (rule sorted_filling_ignores_map_order)
qed


end
