(* ===== verification/Durations.thy ===== *)
theory Durations
  imports GoFloat RecordPool
begin

text \<open>
  Durations as the standard library's \<open>time\<close> package reads and writes them: \<open>time.ParseDuration\<close>, used by
  every duration setting, and \<open>Duration.String\<close>. A duration is an \<open>int64\<close> of nanoseconds, a string its bytes.
\<close>

definition Nanosecond :: int where "Nanosecond = 1"
definition Second :: int where "Second = 1000000000"

definition max_i64 :: int where "max_i64 = 2 ^ 63 - 1"

definition is_digit :: "char \<Rightarrow> bool" where
  "is_digit c \<longleftrightarrow> (let n = of_char c :: nat in 48 \<le> n \<and> n \<le> 57)"

definition digit_val :: "char \<Rightarrow> int" where
  "digit_val c = int (of_char c - 48)"

datatype duration_error = invalid_duration | missing_unit | unknown_unit string

text \<open>\<open>leadingInt\<close>: the digits at the front, or \<open>None\<close> when the value exceeds \<open>2 ^ 63\<close>.\<close>

fun leading_int :: "int \<Rightarrow> string \<Rightarrow> (int \<times> string) option" where
  "leading_int x [] = Some (x, [])"
| "leading_int x (c # s) =
     (if \<not> is_digit c then Some (x, c # s)
      else if x > 2 ^ 63 div 10 then None
      else let y = x * 10 + digit_val c in if y > 2 ^ 63 then None else leading_int y s)"

text \<open>\<open>leadingFraction\<close>: the digits that fit, the power of ten they are divided by, and the rest; digits
beyond \<open>2 ^ 63\<close> are read and ignored.\<close>

fun leading_fraction :: "int \<Rightarrow> int \<Rightarrow> bool \<Rightarrow> string \<Rightarrow> int \<times> int \<times> string" where
  "leading_fraction x scale over [] = (x, scale, [])"
| "leading_fraction x scale over (c # s) =
     (if \<not> is_digit c then (x, scale, c # s)
      else if over \<or> x > max_i64 div 10 then leading_fraction x scale True s
      else let y = x * 10 + digit_val c in
        if y > 2 ^ 63 then leading_fraction x scale True s else leading_fraction y (scale * 10) False s)"

definition unit_of :: "string \<Rightarrow> int option" where
  "unit_of u = map_of
     [(''ns'', 1), (''us'', 1000), ([CHR 0xC2, CHR 0xB5, CHR ''s''], 1000), ([CHR 0xCE, CHR 0xBC, CHR ''s''], 1000),
      (''ms'', 1000000), (''s'', 1000000000), (''m'', 60000000000), (''h'', 3600000000000)] u"

definition is_unit_char :: "char \<Rightarrow> bool" where
  "is_unit_char c \<longleftrightarrow> c \<noteq> CHR ''.'' \<and> \<not> is_digit c"

lemma leading_int_length: "leading_int x s = Some (v, r) \<Longrightarrow> length r \<le> length s"
  by (induction x s rule: leading_int.induct) (auto simp: Let_def split: if_splits)

lemma leading_fraction_length: "leading_fraction x sc ov s = (v, sc', r) \<Longrightarrow> length r \<le> length s"
  by (induction x sc ov s rule: leading_fraction.induct) (auto simp: Let_def split: if_splits)

text \<open>The optional fraction: its digits, their scale, the rest, and whether it has a digit.\<close>

definition fraction_part :: "string \<Rightarrow> int \<times> int \<times> string \<times> bool" where
  "fraction_part s =
     (if s \<noteq> [] \<and> hd s = CHR ''.'' then
        (let (f, scale, r) = leading_fraction 0 1 False (tl s) in (f, scale, r, length (tl s) \<noteq> length r))
      else (0, 1, s, False))"

lemma fraction_part_length: "fraction_part s = (f, scale, r, post) \<Longrightarrow> length r \<le> length s"
  by (auto simp: fraction_part_def split: if_splits prod.splits dest: leading_fraction_length)

text \<open>The value of a term with the whole number \<open>v\<close> and the fraction \<open>f / scale\<close> of a unit \<open>w\<close>.\<close>

definition term_value :: "int \<Rightarrow> int \<Rightarrow> int \<Rightarrow> int \<Rightarrow> int option" where
  "term_value v f scale w =
     (if v > 2 ^ 63 div w then None
      else if f > 0 then
        (let x = v * w + float_to_int (fl (fl (of_int f) * fl (of_int w / of_int scale)))
         in if x > 2 ^ 63 then None else Some x)
      else Some (v * w))"

text \<open>One term of the sum, \<open>[0-9]*(\.[0-9]*)?unit\<close>: its value and the rest.\<close>

definition duration_term :: "string \<Rightarrow> duration_error + int \<times> string" where
  "duration_term s =
     (if s = [] \<or> \<not> (hd s = CHR ''.'' \<or> is_digit (hd s)) then Inl invalid_duration
      else case leading_int 0 s of None \<Rightarrow> Inl invalid_duration
      | Some (v, s1) \<Rightarrow> (case fraction_part s1 of (f, scale, s2, post) \<Rightarrow>
          if length s = length s1 \<and> \<not> post then Inl invalid_duration
          else if takeWhile is_unit_char s2 = [] then Inl missing_unit
          else case unit_of (takeWhile is_unit_char s2) of None \<Rightarrow> Inl (unknown_unit (takeWhile is_unit_char s2))
          | Some w \<Rightarrow> (case term_value v f scale w of None \<Rightarrow> Inl invalid_duration
              | Some x \<Rightarrow> Inr (x, dropWhile is_unit_char s2))))"

lemma length_dropWhile_less: "takeWhile P t \<noteq> [] \<Longrightarrow> length (dropWhile P t) < length t"
  using arg_cong [OF takeWhile_dropWhile_id [of P t], of length] by (cases "takeWhile P t") auto

lemma duration_term_length: "duration_term s = Inr (v, r) \<Longrightarrow> length r < length s"
  unfolding duration_term_def
  by (auto split: if_splits option.splits prod.splits
      dest!: leading_int_length fraction_part_length length_dropWhile_less)

function duration_sum :: "int \<Rightarrow> string \<Rightarrow> duration_error + int" where
  "duration_sum d s =
     (if s = [] then Inr d
      else case duration_term s of Inl e \<Rightarrow> Inl e
      | Inr (v, r) \<Rightarrow> if d + v > 2 ^ 63 then Inl invalid_duration else duration_sum (d + v) r)"
  by pat_completeness auto
termination
  by (relation "measure (\<lambda>(_, s). length s)") (auto dest: duration_term_length)

declare duration_sum.simps [simp del]

definition ParseDuration :: "string \<Rightarrow> duration_error + int" where
  "ParseDuration s =
     (let neg = (s \<noteq> [] \<and> hd s = CHR ''-''); t = (if s \<noteq> [] \<and> (hd s = CHR ''-'' \<or> hd s = CHR ''+'') then tl s else s) in
      if t = ''0'' then Inr 0
      else if t = [] then Inl invalid_duration
      else case duration_sum 0 t of Inl e \<Rightarrow> Inl e
      | Inr d \<Rightarrow> if neg then Inr (- d) else if d > max_i64 then Inl invalid_duration else Inr d)"

lemma duration_sum_cases:
  assumes "duration_sum d s = Inr e"
  obtains "s = []" "e = d"
  | v r where "duration_term s = Inr (v, r)" "d + v \<le> 2 ^ 63" "duration_sum (d + v) r = Inr e" "s \<noteq> []"
  using assms by (subst (asm) duration_sum.simps) (auto split: if_splits sum.splits)

lemma duration_sum_bound: "duration_sum d s = Inr e \<Longrightarrow> d \<le> 2 ^ 63 \<Longrightarrow> e \<le> 2 ^ 63"
proof (induction s arbitrary: d rule: measure_induct_rule [of length])
  case (less s)
  from less.prems(1) show ?case
  proof (cases rule: duration_sum_cases)
    case (2 v r)
    then show ?thesis using less.IH duration_term_length by blast
  qed (use less.prems in simp)
qed

lemma leading_int_nonneg: "leading_int x s = Some (v, r) \<Longrightarrow> 0 \<le> x \<Longrightarrow> 0 \<le> v"
  by (induction x s rule: leading_int.induct) (auto simp: Let_def digit_val_def is_digit_def split: if_splits)

lemma unit_of_pos: "unit_of u = Some w \<Longrightarrow> 0 < w"
  by (auto simp: unit_of_def split: if_splits)

lemma leading_fraction_scale: "leading_fraction x sc ov s = (f, sc', r) \<Longrightarrow> 0 < sc \<Longrightarrow> 0 < sc'"
  by (induction x sc ov s rule: leading_fraction.induct) (auto simp: Let_def split: if_splits)

lemma fraction_part_scale: "fraction_part s = (f, scale, r, post) \<Longrightarrow> 0 < scale"
  by (auto simp: fraction_part_def split: if_splits prod.splits dest: leading_fraction_scale)

lemma term_value_nonneg: "term_value v f scale w = Some x \<Longrightarrow> 0 \<le> v \<Longrightarrow> 0 < w \<Longrightarrow> 0 < scale \<Longrightarrow> 0 \<le> x"
  by (auto simp: term_value_def Let_def float_to_int_def fl_nonneg split: if_splits)

lemma duration_term_nonneg: "duration_term s = Inr (x, r) \<Longrightarrow> 0 \<le> x"
  unfolding duration_term_def
  by (auto split: if_splits option.splits prod.splits
      dest!: leading_int_nonneg unit_of_pos fraction_part_scale intro: term_value_nonneg)

lemma duration_sum_nonneg: "duration_sum d s = Inr e \<Longrightarrow> 0 \<le> d \<Longrightarrow> 0 \<le> e"
proof (induction s arbitrary: d rule: measure_induct_rule [of length])
  case (less s)
  from less.prems(1) show ?case
  proof (cases rule: duration_sum_cases)
    case (2 v r)
    then have "0 \<le> d + v" using less.prems(2) duration_term_nonneg by fastforce
    with 2 show ?thesis using less.IH duration_term_length by blast
  qed (use less.prems in simp)
qed

text \<open>A parsed duration is an \<open>int64\<close>, and negative only with a sign.\<close>

lemma ParseDuration_range:
  assumes "ParseDuration s = Inr d"
  shows "- (2 ^ 63) \<le> d" "d < 2 ^ 63" "hd s \<noteq> CHR ''-'' \<Longrightarrow> 0 \<le> d"
  using assms
  by (auto simp: ParseDuration_def Let_def max_i64_def split: if_splits sum.splits
      dest: duration_sum_nonneg duration_sum_bound)

subsection \<open>Writing a duration\<close>

text \<open>\<open>fmtFrac(v, prec)\<close>: \<open>v\<close> over a power of ten, without trailing zeros or a trailing point.\<close>

definition fmt_frac :: "nat \<Rightarrow> int \<Rightarrow> string" where
  "fmt_frac prec v =
     (let d = pad_digits prec (nat (v mod 10 ^ prec)); f = rev (dropWhile (\<lambda>c. c = CHR ''0'') (rev d))
      in itoa (v div 10 ^ prec) @ (if f = [] then [] else CHR ''.'' # f))"

definition Duration_String :: "int \<Rightarrow> string" where
  "Duration_String d =
     (let u = \<bar>d\<bar>;
          body =
            (if u = 0 then ''0s''
             else if u < 1000 then itoa u @ ''ns''
             else if u < 1000000 then fmt_frac 3 u @ [CHR 0xC2, CHR 0xB5, CHR ''s'']
             else if u < Second then fmt_frac 6 u @ ''ms''
             else let sec = u div Second; s = fmt_frac 9 (u mod (60 * Second)) @ ''s''; mins = sec div 60
               in if mins = 0 then s
                  else if mins div 60 = 0 then itoa mins @ ''m'' @ s
                  else itoa (mins div 60) @ ''h'' @ itoa (mins mod 60) @ ''m'' @ s)
      in if d < 0 then CHR ''-'' # body else body)"

lemma duration_examples:
  "ParseDuration ''1m30s'' = Inr 90000000000" "ParseDuration ''5'' = Inl missing_unit"
  "ParseDuration ''-2ms'' = Inr (- 2000000)" "ParseDuration ''2x'' = Inl (unknown_unit ''x'')"
  by code_simp+

end
