(* ===== verification/LoadProfile.thy ===== *)
theory LoadProfile
  imports Durations
begin

text \<open>
  Load profiles (\<open>internal/loadprofile/loadprofile.go\<close>): how many workers are active at each moment of a run.
  \<open>compile_profile\<close> is \<open>Compile\<close>, the closures of the source are the constructors of \<open>target_fn\<close>. Durations are
  \<open>int64\<close> nanoseconds; \<open>math.Sin\<close> is the parameter \<open>sn\<close>.
\<close>

record stage =
  st_workers :: int
  st_duration :: string

record lp_config =
  lp_Kind :: string
  lp_Workers :: int
  lp_Start :: int
  lp_End :: int
  lp_RampOver :: string
  lp_Steps :: "stage list"
  lp_Base :: int
  lp_Peak :: int
  lp_SpikeAt :: string
  lp_SpikeFor :: string
  lp_Min :: int
  lp_Max :: int
  lp_Period :: string

datatype lp_error =
    field_required string
  | field_invalid string string duration_error
  | field_not_positive string string
  | field_negative string string
  | unknown_profile string
  | fixed_workers int
  | ramp_negative int int
  | ramp_zero
  | step_empty
  | step_negative int int
  | step_zero
  | spike_negative int int
  | spike_peak int
  | sine_negative int int
  | sine_max int
  | sine_order int int

text \<open>The closure of a schedule: a constant, a ramp (start, end, duration), stages with the time each ends,
a spike (base, peak, from, until), or a sine (minimum, maximum, period).\<close>

datatype target_fn =
    constant_fn int
  | ramp_fn int int int
  | step_fn "(int \<times> int) list" int
  | spike_fn int int int int
  | sine_fn int int int

record schedule =
  sd_kind :: string
  sd_peak :: int
  sd_summary :: string
  sd_fn :: "target_fn option"

definition zero_schedule :: schedule where
  "zero_schedule = \<lparr>sd_kind = [], sd_peak = 0, sd_summary = [], sd_fn = None\<rparr>"

definition profile_kind :: "lp_config \<Rightarrow> string" where
  "profile_kind c = (let k = to_lower (trim_space (lp_Kind c)) in if k = [] then ''fixed'' else k)"

definition schedule_Kind :: "schedule \<Rightarrow> string" where
  "schedule_Kind s = (if sd_kind s = [] then ''fixed'' else sd_kind s)"

definition schedule_Summary :: "schedule \<Rightarrow> string" where
  "schedule_Summary s = (if sd_summary s = [] then schedule_Kind s else sd_summary s)"

definition IsZero :: "schedule \<Rightarrow> bool" where
  "IsZero s \<longleftrightarrow> sd_fn s = None \<and> sd_peak s = 0"

subsection \<open>The target at a moment\<close>

text \<open>\<open>Duration.Seconds\<close>, and \<open>math.Pi\<close> as the source of the standard library gives it.\<close>

definition Duration_Seconds :: "int \<Rightarrow> rat" where
  "Duration_Seconds d = fl (of_int (go_div d Second) + fl (of_int (d - Second * go_div d Second) / 1000000000))"

definition math_Pi :: rat where
  "math_Pi = 314159265358979323846264338327950288419716939937510582097494459 / 10 ^ 62"

definition ramp_target :: "int \<Rightarrow> int \<Rightarrow> int \<Rightarrow> int \<Rightarrow> int" where
  "ramp_target start end_w over elapsed =
     (if elapsed \<ge> over then end_w
      else let frac = fl (fl (of_int elapsed) / fl (of_int over)) in
        math_round (fl (fl (of_int start) + fl (fl (fl (of_int end_w) - fl (of_int start)) * frac))))"

primrec step_target :: "(int \<times> int) list \<Rightarrow> int \<Rightarrow> int \<Rightarrow> int" where
  "step_target [] last_w elapsed = last_w"
| "step_target (b # bs) last_w elapsed = (if elapsed < fst b then snd b else step_target bs last_w elapsed)"

definition spike_target :: "int \<Rightarrow> int \<Rightarrow> int \<Rightarrow> int \<Rightarrow> int \<Rightarrow> int" where
  "spike_target base peak from until elapsed = (if elapsed \<ge> from \<and> elapsed < until then peak else base)"

definition sine_target :: "(rat \<Rightarrow> rat) \<Rightarrow> int \<Rightarrow> int \<Rightarrow> int \<Rightarrow> int \<Rightarrow> int" where
  "sine_target sn lo hi period elapsed =
     (let a = fl (of_int lo); b = fl (of_int hi); mid = fl (fl (a + b) / 2); amp = fl (fl (b - a) / 2);
          phase = fl (fl (fl (fl (2 * math_Pi) * Duration_Seconds elapsed) / Duration_Seconds period) - fl (math_Pi / 2))
      in math_round (fl (mid + fl (amp * sn phase))))"

primrec run_target :: "(rat \<Rightarrow> rat) \<Rightarrow> target_fn \<Rightarrow> int \<Rightarrow> int" where
  "run_target sn (constant_fn w) e = w"
| "run_target sn (ramp_fn a b over) e = ramp_target a b over e"
| "run_target sn (step_fn bs w) e = step_target bs w e"
| "run_target sn (spike_fn base peak from until) e = spike_target base peak from until e"
| "run_target sn (sine_fn lo hi period) e = sine_target sn lo hi period e"

definition TargetAt :: "(rat \<Rightarrow> rat) \<Rightarrow> schedule \<Rightarrow> int \<Rightarrow> int" where
  "TargetAt sn s elapsed =
     (case sd_fn s of None \<Rightarrow> sd_peak s
      | Some f \<Rightarrow>
          (let t = run_target sn f (if elapsed < 0 then 0 else elapsed); t1 = (if t < 0 then 0 else t)
           in if t1 > sd_peak s then sd_peak s else t1))"

subsection \<open>Compiling a configuration\<close>

definition parseDurationField :: "string \<Rightarrow> string \<Rightarrow> lp_error + int" where
  "parseDurationField field raw0 =
     (let raw = trim_space raw0 in
      if raw = [] then Inl (field_required field)
      else case ParseDuration raw of Inl e \<Rightarrow> Inl (field_invalid field raw e) | Inr d \<Rightarrow> Inr d)"

definition parsePositiveDuration :: "string \<Rightarrow> string \<Rightarrow> lp_error + int" where
  "parsePositiveDuration field raw =
     (case parseDurationField field raw of Inl e \<Rightarrow> Inl e
      | Inr d \<Rightarrow> if d \<le> 0 then Inl (field_not_positive field raw) else Inr d)"

definition parseNonNegativeDuration :: "string \<Rightarrow> string \<Rightarrow> lp_error + int" where
  "parseNonNegativeDuration field raw =
     (if trim_space raw = [] then Inr 0
      else case parseDurationField field raw of Inl e \<Rightarrow> Inl e
      | Inr d \<Rightarrow> if d < 0 then Inl (field_negative field raw) else Inr d)"

definition compileFixed :: "lp_config \<Rightarrow> int \<Rightarrow> lp_error + schedule" where
  "compileFixed c fallback =
     (let w = (if lp_Workers c = 0 then fallback else lp_Workers c) in
      if w < 1 then Inl (fixed_workers w)
      else Inr \<lparr>sd_kind = ''fixed'', sd_peak = w, sd_summary = ''fixed '' @ itoa w @ '' workers'',
                sd_fn = Some (constant_fn w)\<rparr>)"

definition compileRamp :: "lp_config \<Rightarrow> lp_error + schedule" where
  "compileRamp c =
     (let a = lp_Start c; b = lp_End c in
      if a < 0 \<or> b < 0 then Inl (ramp_negative a b)
      else if a = 0 \<and> b = 0 then Inl ramp_zero
      else case parsePositiveDuration ''ramp_over'' (lp_RampOver c) of Inl e \<Rightarrow> Inl e
      | Inr over \<Rightarrow> Inr \<lparr>sd_kind = ''ramp'', sd_peak = max a b,
          sd_summary = ''ramp '' @ itoa a @ '' -> '' @ itoa b @ '' over '' @ Duration_String over,
          sd_fn = Some (ramp_fn a b over)\<rparr>)"

text \<open>The loop over the stages, from stage \<open>i\<close> on: the boundaries built so far, their end and the peak.\<close>

primrec compile_stages :: "stage list \<Rightarrow> int \<Rightarrow> (int \<times> int) list \<Rightarrow> int \<Rightarrow> int \<Rightarrow> lp_error + (int \<times> int) list \<times> int" where
  "compile_stages [] i bs cumulative peak = Inr (bs, peak)"
| "compile_stages (st # sts) i bs cumulative peak =
     (if st_workers st < 0 then Inl (step_negative i (st_workers st))
      else case parsePositiveDuration (''steps['' @ itoa i @ ''].duration'') (st_duration st) of Inl e \<Rightarrow> Inl e
      | Inr d \<Rightarrow> (let c = to_i64 (cumulative + d) in
          compile_stages sts (i + 1) (bs @ [(c, st_workers st)]) c (max peak (st_workers st))))"

definition compileStep :: "lp_config \<Rightarrow> lp_error + schedule" where
  "compileStep c =
     (if lp_Steps c = [] then Inl step_empty
      else case compile_stages (lp_Steps c) 1 [] 0 0 of Inl e \<Rightarrow> Inl e
      | Inr (bs, peak) \<Rightarrow>
          if peak < 1 then Inl step_zero
          else Inr \<lparr>sd_kind = ''step'', sd_peak = peak,
            sd_summary = ''step profile with '' @ itoa (int (length bs)) @ '' stages (peak '' @ itoa peak @ '')'',
            sd_fn = Some (step_fn bs (snd (last bs)))\<rparr>)"

definition compileSpike :: "lp_config \<Rightarrow> lp_error + schedule" where
  "compileSpike c =
     (let base = lp_Base c; peak = lp_Peak c in
      if base < 0 \<or> peak < 0 then Inl (spike_negative base peak)
      else if peak < 1 then Inl (spike_peak peak)
      else case parseNonNegativeDuration ''spike_at'' (lp_SpikeAt c) of Inl e \<Rightarrow> Inl e
      | Inr start \<Rightarrow> (case parsePositiveDuration ''spike_for'' (lp_SpikeFor c) of Inl e \<Rightarrow> Inl e
        | Inr dur \<Rightarrow> Inr \<lparr>sd_kind = ''spike'', sd_peak = max base peak,
            sd_summary = ''spike '' @ itoa base @ '' -> '' @ itoa peak @ '' for '' @ Duration_String dur @ '' at ''
              @ Duration_String start,
            sd_fn = Some (spike_fn base peak start (to_i64 (start + dur)))\<rparr>))"

definition compileSine :: "lp_config \<Rightarrow> lp_error + schedule" where
  "compileSine c =
     (let lo = lp_Min c; hi = lp_Max c in
      if lo < 0 \<or> hi < 0 then Inl (sine_negative lo hi)
      else if hi < 1 then Inl (sine_max hi)
      else if lo > hi then Inl (sine_order lo hi)
      else case parsePositiveDuration ''period'' (lp_Period c) of Inl e \<Rightarrow> Inl e
      | Inr period \<Rightarrow> Inr \<lparr>sd_kind = ''sine'', sd_peak = hi,
          sd_summary = ''sine '' @ itoa lo @ ''..'' @ itoa hi @ '' over '' @ Duration_String period,
          sd_fn = Some (sine_fn lo hi period)\<rparr>)"

definition compile_profile :: "lp_config \<Rightarrow> int \<Rightarrow> lp_error + schedule" where
  "compile_profile c fallback =
     (let fb = (if fallback < 1 then 1 else fallback); k = profile_kind c in
      if k = ''fixed'' then compileFixed c fb
      else if k = ''ramp'' then compileRamp c
      else if k = ''step'' then compileStep c
      else if k = ''spike'' then compileSpike c
      else if k = ''sine'' then compileSine c
      else Inl (unknown_profile (lp_Kind c)))"


subsection \<open>Bounds and shape of the targets\<close>

lemma compile_stages_peak:
  "compile_stages sts i bs cum pk = Inr (bs', pk') \<Longrightarrow> pk \<le> pk'"
  by (induction sts arbitrary: i bs cum pk) (fastforce simp: Let_def split: if_splits sum.splits)+

lemma compile_peak: "compile_profile c fb = Inr s \<Longrightarrow> 1 \<le> sd_peak s \<and> sd_fn s \<noteq> None"
  by (auto simp: compile_profile_def compileFixed_def compileRamp_def compileStep_def compileSpike_def compileSine_def
      Let_def split: if_splits sum.splits)

lemma TargetAt_range: "0 \<le> sd_peak s \<Longrightarrow> 0 \<le> TargetAt sn s t \<and> TargetAt sn s t \<le> sd_peak s"
  by (auto simp: TargetAt_def Let_def split: option.split)

text \<open>A step profile gives the workers of the stage the moment falls in, and those of the last stage after it.\<close>

lemma step_target_stage:
  assumes "i < length bs" and "t < fst (bs ! i)" and "\<And>j. j < i \<Longrightarrow> fst (bs ! j) \<le> t"
  shows "step_target bs w t = snd (bs ! i)"
  using assms
proof (induction bs arbitrary: i)
  case (Cons b bs)
  show ?case
  proof (cases i)
    case (Suc k)
    have "fst (bs ! j) \<le> t" if "j < k" for j using Cons.prems(3) [of "Suc j"] that by (simp add: Suc)
    moreover have "\<not> t < fst b" using Cons.prems(3) [of 0] by (simp add: Suc)
    ultimately show ?thesis using Cons.IH [of k] Cons.prems(1,2) by (simp add: Suc)
  qed (use Cons.prems in simp)
qed simp

lemma step_target_after: "(\<And>b. b \<in> set bs \<Longrightarrow> fst b \<le> t) \<Longrightarrow> step_target bs w t = w"
proof (induction bs)
  case (Cons b bs)
  have "fst b \<le> t" using Cons.prems by simp
  then show ?case using Cons.IH Cons.prems by (simp add: leD)
qed simp

lemma round_half_even_minus: "round_half_even (- x) = - round_half_even x"
proof (cases "x = of_int \<lfloor>x\<rfloor>")
  case True
  then show ?thesis by (metis of_int_minus round_half_even_of_int)
next
  case False
  then have f: "\<lfloor>- x\<rfloor> = - \<lfloor>x\<rfloor> - 1" by linarith
  have e: "even (\<lfloor>x\<rfloor> + 1) = (\<not> even \<lfloor>x\<rfloor>)" by simp
  have "- x - of_int \<lfloor>- x\<rfloor> = 1 - (x - of_int \<lfloor>x\<rfloor>)" by (simp add: f)
  then show ?thesis unfolding round_half_even_def Let_def f by (auto simp: e)
qed

lemma fl_minus: "fl (- x) = - fl x"
  by (simp add: fl_def Let_def exponent_def round_half_even_minus)

lemma math_round_int: "0 \<le> n \<Longrightarrow> math_round (of_int n) = n"
  unfolding math_round_def by (simp, linarith)

definition ramp_frac :: "int \<Rightarrow> int \<Rightarrow> rat" where
  "ramp_frac over t = fl (fl (of_int t) / fl (of_int over))"

lemma ramp_frac:
  assumes "0 \<le> t" "t \<le> t'" "t' < over"
  shows "0 \<le> ramp_frac over t" "ramp_frac over t \<le> ramp_frac over t'" "ramp_frac over t' \<le> 1"
proof -
  have o: "0 \<le> fl (of_int t)" "fl (of_int t) \<le> fl (of_int t')" "fl (of_int t') \<le> fl (of_int over)"
    using assms by (auto intro!: fl_mono fl_nonneg)
  show "0 \<le> ramp_frac over t" using o by (auto simp: ramp_frac_def intro!: fl_nonneg)
  show "ramp_frac over t \<le> ramp_frac over t'"
    unfolding ramp_frac_def
  proof (rule fl_mono)
    show "0 \<le> fl (of_int t) / fl (of_int over)" using o by simp
    show "fl (of_int t) / fl (of_int over) \<le> fl (of_int t') / fl (of_int over)"
      using o by (intro divide_right_mono) linarith+
  qed
  have "fl (of_int t') / fl (of_int over) \<le> of_int 1"
    using o by (cases "fl (of_int over) = 0") (auto simp: divide_le_eq_1)
  then show "ramp_frac over t' \<le> 1"
    using fl_le_int [of "fl (of_int t') / fl (of_int over)" 1] o unfolding ramp_frac_def by simp
qed

text \<open>The rounded product of a whole number of workers and a fraction.\<close>

lemma fl_part:
  assumes "0 \<le> n" "n \<le> 2 ^ 53" "0 \<le> x" "x \<le> y" "y \<le> 1"
  shows "0 \<le> fl (of_int n * x)" "fl (of_int n * x) \<le> fl (of_int n * y)" "fl (of_int n * y) \<le> of_int n"
  using assms mult_left_le [of y "of_int n :: rat"]
  by (auto intro!: fl_nonneg fl_mono fl_le_int mult_left_mono)

lemma ramp_up:
  assumes "0 \<le> a" "a \<le> b" "b \<le> 2 ^ 53" "0 \<le> t" "t \<le> t'" "t' < over"
  shows "a \<le> ramp_target a b over t" "ramp_target a b over t \<le> ramp_target a b over t'"
    "ramp_target a b over t' \<le> b"
proof -
  define P where "P x = fl (of_int (b - a) * ramp_frac over x)" for x
  have r: "ramp_target a b over x = math_round (fl (of_int a + P x))" if "x < over" for x
    using that assms(1-3) fl_of_int [of "b - a"] fl_of_int [of a] fl_of_int [of b]
    by (simp add: ramp_target_def Let_def P_def ramp_frac_def)
  have p: "0 \<le> P t" "P t \<le> P t'" "P t' \<le> of_int (b - a)"
    using fl_part [of "b - a"] ramp_frac [OF assms(4-6)] assms(1-3) unfolding P_def by auto
  have a: "of_int a = fl (of_int a)" using fl_of_int [of a] assms by simp
  have s: "0 \<le> (of_int a :: rat)" using assms(1) by simp
  have lo: "of_int a \<le> fl (of_int a + P t)" using fl_mono [of "of_int a" "of_int a + P t"] p(1) s a by simp
  have mid: "fl (of_int a + P t) \<le> fl (of_int a + P t')" using p s by (intro fl_mono) linarith+
  have hi: "fl (of_int a + P t') \<le> of_int b" using p s assms(3) by (intro fl_le_int) (auto simp: of_int_diff)
  show "a \<le> ramp_target a b over t" using math_round_mono [OF s lo] r [of t] assms math_round_int by simp
  show "ramp_target a b over t \<le> ramp_target a b over t'"
    using math_round_mono [OF _ mid] s lo r [of t] r [of t'] assms by simp
  show "ramp_target a b over t' \<le> b" using math_round_le [OF _ hi] s lo mid r [of t'] assms by simp
qed

lemma ramp_down:
  assumes "0 \<le> b" "b \<le> a" "a \<le> 2 ^ 53" "0 \<le> t" "t \<le> t'" "t' < over"
  shows "ramp_target a b over t \<le> a" "ramp_target a b over t' \<le> ramp_target a b over t"
    "b \<le> ramp_target a b over t'"
proof -
  define P where "P x = fl (of_int (a - b) * ramp_frac over x)" for x
  have d: "fl (of_int b - of_int a) = - of_int (a - b)"
    using fl_minus [of "of_int (a - b)"] fl_of_int [of "a - b"] assms(1-3) by simp
  have m: "fl ((of_int b - of_int a) * y) = - fl (of_int (a - b) * y)" for y
  proof -
    have "(of_int b - of_int a) * y = - (of_int (a - b) * y)" by (simp add: algebra_simps)
    then show ?thesis by (simp only: fl_minus)
  qed
  have r: "ramp_target a b over x = math_round (fl (of_int a - P x))" if "x < over" for x
    using that assms(1-3) d m [of "ramp_frac over x"] fl_of_int [of a] fl_of_int [of b]
    by (simp add: ramp_target_def Let_def P_def ramp_frac_def)
  have p: "0 \<le> P t" "P t \<le> P t'" "P t' \<le> of_int (a - b)"
    using fl_part [of "a - b"] ramp_frac [OF assms(4-6)] assms(1-3) unfolding P_def by auto
  have s: "0 \<le> (of_int b :: rat)" using assms(1) by simp
  have bb: "of_int b = fl (of_int b)" using fl_of_int [of b] assms by simp
  have lo: "of_int b \<le> fl (of_int a - P t')"
    using fl_mono [of "of_int b" "of_int a - P t'"] p(3) s bb by simp
  have mid: "fl (of_int a - P t') \<le> fl (of_int a - P t)" using p s by (intro fl_mono) (simp_all)
  have hi: "fl (of_int a - P t) \<le> of_int a" using p s assms(3) by (intro fl_le_int) auto
  show "b \<le> ramp_target a b over t'" using math_round_mono [OF s lo] r [of t'] assms math_round_int by simp
  show "ramp_target a b over t' \<le> ramp_target a b over t"
    using math_round_mono [OF _ mid] s lo r [of t] r [of t'] assms by simp
  show "ramp_target a b over t \<le> a" using math_round_le [OF _ hi] s lo mid r [of t] assms by simp
qed


lemma ramp_target_0: "0 < over \<Longrightarrow> 0 \<le> a \<Longrightarrow> a \<le> 2 ^ 53 \<Longrightarrow> ramp_target a b over 0 = a"
  using fl_of_int [of a] by (simp add: ramp_target_def math_round_int)

lemma ramp_target_after: "over \<le> t \<Longrightarrow> ramp_target a b over t = b"
  by (simp add: ramp_target_def)

lemma ramp_always_up:
  assumes "0 \<le> a" "a \<le> b" "b \<le> 2 ^ 53" "0 \<le> t" "t \<le> t'"
  shows "a \<le> ramp_target a b over t \<and> ramp_target a b over t \<le> ramp_target a b over t' \<and> ramp_target a b over t' \<le> b"
proof (cases "t' < over")
  case True
  then show ?thesis using ramp_up [OF assms] by blast
next
  case False
  then show ?thesis
    using ramp_up [OF assms(1-4), of t over] assms(2) by (cases "t < over") (simp_all add: ramp_target_after not_less)
qed

lemma ramp_always_down:
  assumes "0 \<le> b" "b \<le> a" "a \<le> 2 ^ 53" "0 \<le> t" "t \<le> t'"
  shows "b \<le> ramp_target a b over t' \<and> ramp_target a b over t' \<le> ramp_target a b over t \<and> ramp_target a b over t \<le> a"
proof (cases "t' < over")
  case True
  then show ?thesis using ramp_down [OF assms] by blast
next
  case False
  then show ?thesis
    using ramp_down [OF assms(1-4), of t over] assms(2) by (cases "t < over") (simp_all add: ramp_target_after not_less)
qed

lemma compileRamp_fn:
  assumes "compile_profile c fb = Inr s" and "profile_kind c = ''ramp''"
  obtains over where "sd_fn s = Some (ramp_fn (lp_Start c) (lp_End c) over)" "0 < over"
    "ParseDuration (trim_space (lp_RampOver c)) = Inr over"
    "sd_peak s = max (lp_Start c) (lp_End c)" "0 \<le> lp_Start c" "0 \<le> lp_End c"
  using assms
  by (auto simp: compile_profile_def compileRamp_def parsePositiveDuration_def parseDurationField_def Let_def
      split: if_splits sum.splits)

text \<open>A ramp profile starts at \<open>start_workers\<close>, moves towards \<open>end_workers\<close> without ever turning back or
leaving the range between the two, and stays at \<open>end_workers\<close> from \<open>ramp_over\<close> on, although the workers are
computed with rounded floats (up to \<open>2 ^ 53\<close> workers).\<close>

theorem ramp_targets:
  assumes c: "compile_profile c fb = Inr s" "profile_kind c = ''ramp''"
    and w: "lp_Start c \<le> 2 ^ 53" "lp_End c \<le> 2 ^ 53" and t: "0 \<le> t" "t \<le> t'"
  shows "TargetAt sn s 0 = lp_Start c
    \<and> (lp_Start c \<le> lp_End c \<longrightarrow> lp_Start c \<le> TargetAt sn s t \<and> TargetAt sn s t \<le> TargetAt sn s t' \<and> TargetAt sn s t' \<le> lp_End c)
    \<and> (lp_End c \<le> lp_Start c \<longrightarrow> lp_End c \<le> TargetAt sn s t' \<and> TargetAt sn s t' \<le> TargetAt sn s t \<and> TargetAt sn s t \<le> lp_Start c)
    \<and> (\<exists>over. ParseDuration (trim_space (lp_RampOver c)) = Inr over \<and> (over \<le> t \<longrightarrow> TargetAt sn s t = lp_End c))"
proof -
  let ?a = "lp_Start c" and ?b = "lp_End c"
  obtain over where f: "sd_fn s = Some (ramp_fn ?a ?b over)" "0 < over"
    "ParseDuration (trim_space (lp_RampOver c)) = Inr over" "sd_peak s = max ?a ?b" "0 \<le> ?a" "0 \<le> ?b"
    using c by (rule compileRamp_fn)
  note up = ramp_always_up [OF f(5) _ w(2), of _ _ over] and down = ramp_always_down [OF f(6) _ w(1), of _ _ over]
  have T: "TargetAt sn s x = ramp_target ?a ?b over x" if "0 \<le> x" for x
    using up [of x x] down [of x x] f(4-6) that by (cases "?a \<le> ?b") (auto simp: TargetAt_def Let_def f(1))
  show ?thesis
    unfolding T [OF t(1)] T [OF order_trans [OF t]] T [OF order_refl]
    using up [OF _ t] down [OF _ t] ramp_target_0 [OF f(2,5) w(1)] f(3) by (auto simp: ramp_target_def)
qed

definition sample_ramp :: lp_config where
  "sample_ramp = \<lparr>lp_Kind = ''Ramp'', lp_Workers = 0, lp_Start = 2, lp_End = 10, lp_RampOver = '' 8s '', lp_Steps = [],
     lp_Base = 0, lp_Peak = 0, lp_SpikeAt = [], lp_SpikeFor = [], lp_Min = 0, lp_Max = 0, lp_Period = []\<rparr>"

lemma sample_ramp_compiles: "\<exists>s. compile_profile sample_ramp 4 = Inr s \<and> sd_peak s = 10"
proof -
  have "ParseDuration (trim_space '' 8s '') = Inr 8000000000" "profile_kind sample_ramp = ''ramp''" "trim_space '' 8s '' \<noteq> []"
    by code_simp+
  then show ?thesis by (simp add: compile_profile_def compileRamp_def parsePositiveDuration_def parseDurationField_def
        Let_def sample_ramp_def)
qed

theorem ramp_targets_witness:
  "\<exists>s. compile_profile sample_ramp 4 = Inr s \<and> TargetAt (\<lambda>_. 0) s 0 = 2 \<and> TargetAt (\<lambda>_. 0) s 3000000000 \<le> 10
    \<and> TargetAt (\<lambda>_. 0) s 2000000000 \<le> TargetAt (\<lambda>_. 0) s 3000000000"
proof -
  have k: "profile_kind sample_ramp = ''ramp''" by code_simp
  obtain s where s: "compile_profile sample_ramp 4 = Inr s" using sample_ramp_compiles by blast
  have w: "lp_Start sample_ramp \<le> 2 ^ 53" "lp_End sample_ramp \<le> 2 ^ 53" by (simp_all add: sample_ramp_def)
  from ramp_targets [OF s k w, of 2000000000 3000000000 "\<lambda>_. 0"] s
  show ?thesis by (simp add: sample_ramp_def)
qed

end
