(* ===== verification/Collections.thy ===== *)
theory Collections
  imports Commands
begin

text \<open>
  Collection and index definitions (\<open>internal/config/collections.go\<close>, \<open>internal/config/indexes.go\<close>): the
  definitions, the decoding of key patterns in declared order, and their validation, which also writes the
  normalized key values back. Maps are entry lists in the order Go iterates over them.

  Parameters: \<open>fmtv\<close> is the verb \<open>%v\<close> on a key value, \<open>pf\<close> the driver's \<open>bson.UnmarshalExtJSON\<close>, \<open>parse\<close>
  \<open>encoding/json\<close> on a whole file. JSON values are \<open>json\<close> trees: objects as written, duplicate names
  included, numbers as their text with the \<open>float64\<close> they denote (\<open>None\<close> out of range).
\<close>

datatype json =
    JNull
  | JBool bool
  | JNum string "rat option"
  | JStr string
  | JArr "json list"
  | JObj "(string \<times> json) list"

subsection \<open>Key patterns\<close>

type_synonym index_keys = "(string \<times> gval) list"

definition indexKeyTypes :: "string list" where
  "indexKeyTypes = [''hashed'', ''text'', ''2dsphere'', ''2d'']"

datatype key_error =
    key_type string               \<comment> \<open>unsupported index type\<close>
  | key_number string             \<comment> \<open>a number that is no \<open>float64\<close>\<close>
  | key_value gval                \<comment> \<open>unsupported key value\<close>
  | key_json json
  | key_direction rat             \<comment> \<open>unsupported direction\<close>

definition direction :: "rat \<Rightarrow> key_error + gval" where
  "direction f = (if f = 1 then Inr (GInt32 1) else if f = - 1 then Inr (GInt32 (- 1)) else Inl (key_direction f))"

definition normalizeIndexKeyValue :: "gval \<Rightarrow> key_error + gval" where
  "normalizeIndexKeyValue v =
     (case v of
        GStr n \<Rightarrow> if n \<in> set indexKeyTypes then Inr v else Inl (key_type n)
      | GFloat f \<Rightarrow> direction f
      | GInt i \<Rightarrow> direction (fl (of_int i))
      | GInt32 i \<Rightarrow> direction (fl (of_int i))
      | GInt64 i \<Rightarrow> direction (fl (of_int i))
      | _ \<Rightarrow> Inl (key_value v))"

text \<open>The same on a decoded JSON value, where a number is a \<open>json.Number\<close>.\<close>

definition normalize_json_key :: "json \<Rightarrow> key_error + gval" where
  "normalize_json_key v =
     (case v of
        JStr n \<Rightarrow> normalizeIndexKeyValue (GStr n)
      | JNum s None \<Rightarrow> Inl (key_number s)
      | JNum s (Some f) \<Rightarrow> direction f
      | _ \<Rightarrow> Inl (key_json v))"

definition index_BSON :: "index_keys \<Rightarrow> document" where
  "index_BSON k = map (\<lambda>(f, v). (f, case normalizeIndexKeyValue v of Inr n \<Rightarrow> n | Inl _ \<Rightarrow> v)) k"

definition key_fields :: "index_keys \<Rightarrow> string list" where
  "key_fields k = map fst k"

definition Signature :: "(gval \<Rightarrow> string) \<Rightarrow> index_keys \<Rightarrow> string" where
  "Signature fmtv k = join_with '','' (map (\<lambda>(f, v). f @ '':'' @ fmtv v) k)"

definition GeneratedName :: "(gval \<Rightarrow> string) \<Rightarrow> index_keys \<Rightarrow> string" where
  "GeneratedName fmtv k = join_with ''_'' (concat (map (\<lambda>(f, v). [f, fmtv v]) k))"

subsection \<open>Decoding key patterns\<close>

datatype keys_error =
    keys_value string key_error     \<comment> \<open>of a field\<close>
  | keys_twice string
  | keys_single nat                 \<comment> \<open>entries of an array must hold one field\<close>
  | keys_entry
  | keys_form

text \<open>\<open>decodeKeyObject\<close> on the fields of an object; \<open>single\<close> demands exactly one.\<close>

primrec decode_key_fields :: "(string \<times> json) list \<Rightarrow> index_keys \<Rightarrow> keys_error + index_keys" where
  "decode_key_fields [] out = Inr out"
| "decode_key_fields (e # es) out =
     (case normalize_json_key (snd e) of Inl m \<Rightarrow> Inl (keys_value (fst e) m)
      | Inr v \<Rightarrow> if fst e \<in> set (map fst out) then Inl (keys_twice (fst e))
          else decode_key_fields es (out @ [(fst e, v)]))"

definition decodeKeyObject :: "(string \<times> json) list \<Rightarrow> index_keys \<Rightarrow> bool \<Rightarrow> keys_error + index_keys" where
  "decodeKeyObject es out single =
     (case decode_key_fields es out of Inl m \<Rightarrow> Inl m
      | Inr out' \<Rightarrow> if single \<and> length es \<noteq> 1 then Inl (keys_single (length es)) else Inr out')"

primrec decode_key_array :: "json list \<Rightarrow> index_keys \<Rightarrow> keys_error + index_keys" where
  "decode_key_array [] out = Inr out"
| "decode_key_array (x # xs) out =
     (case x of JObj es \<Rightarrow> (case decodeKeyObject es out True of Inl m \<Rightarrow> Inl m | Inr out' \<Rightarrow> decode_key_array xs out')
      | _ \<Rightarrow> Inl keys_entry)"

definition UnmarshalKeys :: "json \<Rightarrow> keys_error + index_keys" where
  "UnmarshalKeys j =
     (case j of JObj es \<Rightarrow> decodeKeyObject es [] False | JArr xs \<Rightarrow> decode_key_array xs [] | _ \<Rightarrow> Inl keys_form)"

text \<open>\<open>MarshalJSON\<close>: an object with the keys in order. Key values are \<open>int32\<close> or strings.\<close>

definition MarshalKeys :: "index_keys \<Rightarrow> json" where
  "MarshalKeys k = JObj (map (\<lambda>(f, v). (f, case v of GStr s \<Rightarrow> JStr s | GInt32 i \<Rightarrow> JNum (itoa i) (Some (of_int i)) | _ \<Rightarrow> JNull)) k)"

subsection \<open>Definitions\<close>

datatype field_def = FieldDef
  (fd_type: string) (fd_provider: string) (fd_maxLength: int) (fd_minLength: int) (fd_min: "int option")
  (fd_max: "int option") (fd_enum: "gval list") (fd_template: string) (fd_items: "field_def option")
  (fd_fields: "(string \<times> field_def) list") (fd_arraySize: int)

record index_def =
  ix_keys :: index_keys
  ix_name :: string
  ix_unique :: bool
  ix_sparse :: bool
  ix_hidden :: bool
  ix_expire :: "int option"
  ix_partial :: string

record shard_config =
  sh_key :: index_keys
  sh_unique :: bool

record collection_def = collection_ref +
  cd_fields :: "(string \<times> field_def) list"
  cd_indexes :: "index_def list"
  cd_shard :: "shard_config option"

definition EffectiveName :: "(gval \<Rightarrow> string) \<Rightarrow> index_def \<Rightarrow> string" where
  "EffectiveName fmtv d = (if trim_space (ix_name d) \<noteq> [] then ix_name d else GeneratedName fmtv (ix_keys d))"

datatype filter_error = filter_json string | filter_empty

definition PartialFilterDoc :: "(string \<Rightarrow> document res) \<Rightarrow> index_def \<Rightarrow> filter_error + document option" where
  "PartialFilterDoc pf d =
     (if trim_space (ix_partial d) = [] then Inr None
      else case pf (ix_partial d) of Inl m \<Rightarrow> Inl (filter_json m)
      | Inr doc \<Rightarrow> if doc = [] then Inl filter_empty else Inr (Some doc))"

subsection \<open>Validation\<close>

datatype index_error =
    no_keys
  | empty_field nat
  | dollar_field string
  | field_twice string
  | bad_value string key_error
  | negative_expire nat
  | bad_filter nat filter_error
  | same_keys nat string nat
  | same_name nat string nat
  | at_index nat index_error
  | shard_value string gval
  | two_hashed

definition dollar :: "string \<Rightarrow> bool" where
  "dollar f \<longleftrightarrow> f \<noteq> [] \<and> hd f = CHR ''$''"

text \<open>\<open>validateIndexKeys\<close> from position \<open>i\<close> on; the result is the normalized pattern.\<close>

primrec validate_keys :: "index_keys \<Rightarrow> nat \<Rightarrow> string set \<Rightarrow> index_error + index_keys" where
  "validate_keys [] i seen = Inr []"
| "validate_keys (e # es) i seen =
     (if trim_space (fst e) = [] then Inl (empty_field i)
      else if dollar (fst e) \<and> fst e \<noteq> ''$**'' then Inl (dollar_field (fst e))
      else if fst e \<in> seen then Inl (field_twice (fst e))
      else case normalizeIndexKeyValue (snd e) of Inl m \<Rightarrow> Inl (bad_value (fst e) m)
      | Inr v \<Rightarrow> map_sum id (Cons (fst e, v)) (validate_keys es (i + 1) (insert (fst e) seen)))"

definition validateIndexKeys :: "index_keys \<Rightarrow> index_error + index_keys" where
  "validateIndexKeys k = (if k = [] then Inl no_keys else validate_keys k 0 {})"

primrec validate_indexes ::
    "(gval \<Rightarrow> string) \<Rightarrow> (string \<Rightarrow> document res) \<Rightarrow> index_def list \<Rightarrow> nat \<Rightarrow> (string \<rightharpoonup> nat) \<Rightarrow> (string \<rightharpoonup> nat)
      \<Rightarrow> index_error + index_def list" where
  "validate_indexes fmtv pf [] i byKeys byName = Inr []"
| "validate_indexes fmtv pf (d # ds) i byKeys byName =
     (case validateIndexKeys (ix_keys d) of Inl m \<Rightarrow> Inl (at_index i m)
      | Inr k \<Rightarrow>
         (let d' = d\<lparr>ix_keys := k\<rparr>; sig = Signature fmtv k; name = EffectiveName fmtv d' in
          if (case ix_expire d of Some x \<Rightarrow> x < 0 | None \<Rightarrow> False) then Inl (negative_expire i)
          else case PartialFilterDoc pf d of Inl m \<Rightarrow> Inl (bad_filter i m)
          | Inr _ \<Rightarrow>
             (case byKeys sig of Some prev \<Rightarrow> Inl (same_keys i sig prev)
              | None \<Rightarrow> (case byName name of Some prev \<Rightarrow> Inl (same_name i name prev)
                | None \<Rightarrow> map_sum id (Cons d')
                    (validate_indexes fmtv pf ds (i + 1) (byKeys(sig \<mapsto> i)) (byName(name \<mapsto> i)))))))"

definition validateIndexes :: "(gval \<Rightarrow> string) \<Rightarrow> (string \<Rightarrow> document res) \<Rightarrow> index_def list \<Rightarrow> index_error + index_def list" where
  "validateIndexes fmtv pf ds = validate_indexes fmtv pf ds 0 Map.empty Map.empty"

text \<open>\<open>validateShardKey\<close> counts the hashed fields after checking every value.\<close>

definition validateShardKey :: "index_keys \<Rightarrow> index_error + index_keys" where
  "validateShardKey k =
     (case validateIndexKeys k of Inl m \<Rightarrow> Inl m
      | Inr k' \<Rightarrow>
          (case find (\<lambda>e. snd e \<noteq> GInt32 1 \<and> snd e \<noteq> GStr ''hashed'') k' of
             Some e \<Rightarrow> Inl (shard_value (fst e) (snd e))
           | None \<Rightarrow> if length (filter (\<lambda>e. snd e = GStr ''hashed'') k') > 1 then Inl two_hashed else Inr k'))"

datatype field_error =
    min_max string int int
  | length_order string int int

text \<open>\<open>validateFieldConstraints\<close>: the first error in iteration order, if any.\<close>

definition field_path :: "string \<Rightarrow> string \<Rightarrow> string" where
  "field_path pre n = (if pre \<noteq> [] then pre @ ''.'' @ n else n)"

definition own_constraints :: "string \<Rightarrow> field_def \<Rightarrow> field_error option" where
  "own_constraints path f =
     (case (fd_min f, fd_max f) of
        (Some lo, Some hi) \<Rightarrow> if lo > hi then Some (min_max path lo hi)
          else if fd_minLength f > 0 \<and> fd_maxLength f > 0 \<and> fd_minLength f > fd_maxLength f
          then Some (length_order path (fd_minLength f) (fd_maxLength f)) else None
      | _ \<Rightarrow> if fd_minLength f > 0 \<and> fd_maxLength f > 0 \<and> fd_minLength f > fd_maxLength f
          then Some (length_order path (fd_minLength f) (fd_maxLength f)) else None)"

definition or_opt :: "'a option \<Rightarrow> 'a option \<Rightarrow> 'a option" where
  "or_opt a b = (case a of Some _ \<Rightarrow> a | None \<Rightarrow> b)"

function (sequential) validate_field :: "string \<Rightarrow> field_def \<Rightarrow> field_error option"
  and validateFieldConstraints :: "(string \<times> field_def) list \<Rightarrow> string \<Rightarrow> field_error option" where
  "validate_field path f =
     or_opt (own_constraints path f)
       (or_opt (validateFieldConstraints (fd_fields f) path)
         (case fd_items f of None \<Rightarrow> None | Some g \<Rightarrow> validate_field (field_path path ''[]'') g))"
| "validateFieldConstraints [] pre = None"
| "validateFieldConstraints (e # es) pre =
     or_opt (validate_field (field_path pre (fst e)) (snd e)) (validateFieldConstraints es pre)"
  by pat_completeness auto

lemma field_size: "size_list (size_prod (\<lambda>_. 0) size) (fd_fields f) < size f"
  by (cases f) simp

lemma items_size: "fd_items f = Some g \<Longrightarrow> size g < size f"
  by (cases f) auto

termination validate_field
proof (relation "measure (case_sum (\<lambda>(_, f). 2 * size f) (\<lambda>(es, _). 2 * size_list (size_prod (\<lambda>_. 0) size) es + 1))", goal_cases)
  case 1
  then show ?case by simp
next
  case (2 path f)
  then show ?case using field_size [of f] by simp
next
  case (3 path f g)
  then show ?case using items_size [of f g] by simp
next
  case (4 e es pre)
  then show ?case by (cases e) simp
qed simp

declare validate_field.simps [simp del]

datatype coll_error =
    empty_names nat
  | dup_namespace string nat nat
  | coll_index string index_error
  | coll_shard string index_error
  | coll_field string field_error

definition namespaceKey :: "string \<Rightarrow> string \<Rightarrow> string" where
  "namespaceKey d n = to_lower (trim_space d) @ ''.'' @ to_lower (trim_space n)"

text \<open>One collection; the result is the collection with the normalized keys.\<close>

definition validate_collection ::
    "(gval \<Rightarrow> string) \<Rightarrow> (string \<Rightarrow> document res) \<Rightarrow> collection_def \<Rightarrow> coll_error + collection_def" where
  "validate_collection fmtv pf c =
     (let ns = c_db c @ ''.'' @ c_name c in
      case validateIndexes fmtv pf (cd_indexes c) of Inl m \<Rightarrow> Inl (coll_index ns m)
      | Inr ixs \<Rightarrow>
          (case (case cd_shard c of None \<Rightarrow> Inr None
             | Some s \<Rightarrow> if sh_key s = [] then Inr (Some s)
                 else map_sum id (\<lambda>k. Some (s\<lparr>sh_key := k\<rparr>)) (validateShardKey (sh_key s))) of
             Inl m \<Rightarrow> Inl (coll_shard ns m)
           | Inr sh \<Rightarrow>
               (case validateFieldConstraints (cd_fields c) [] of Some m \<Rightarrow> Inl (coll_field ns m)
                | None \<Rightarrow> Inr (c\<lparr>cd_indexes := ixs, cd_shard := sh\<rparr>))))"

primrec validate_collections ::
    "(gval \<Rightarrow> string) \<Rightarrow> (string \<Rightarrow> document res) \<Rightarrow> collection_def list \<Rightarrow> nat \<Rightarrow> (string \<rightharpoonup> nat)
      \<Rightarrow> coll_error + collection_def list" where
  "validate_collections fmtv pf [] i seen = Inr []"
| "validate_collections fmtv pf (c # cs) i seen =
     (if trim_space (c_db c) = [] \<or> trim_space (c_name c) = [] then Inl (empty_names i)
      else (let k = namespaceKey (c_db c) (c_name c) in
        case seen k of Some prev \<Rightarrow> Inl (dup_namespace (c_db c @ ''.'' @ c_name c) i prev)
        | None \<Rightarrow> (case validate_collection fmtv pf c of Inl m \<Rightarrow> Inl m
            | Inr c' \<Rightarrow> map_sum id (Cons c') (validate_collections fmtv pf cs (i + 1) (seen(k \<mapsto> i))))))"

definition ValidateCollectionDefinitions ::
    "(gval \<Rightarrow> string) \<Rightarrow> (string \<Rightarrow> document res) \<Rightarrow> collection_def list \<Rightarrow> coll_error + collection_def list" where
  "ValidateCollectionDefinitions fmtv pf cs = validate_collections fmtv pf cs 0 Map.empty"

subsection \<open>Files\<close>

text \<open>What \<open>os.Stat\<close> finds at a path, and which entries of a directory are read: the JSON files, either
only or all but \<open>default.json\<close>.\<close>

datatype 'a path_info = no_path | path_error string | plain_file "'a res" | directory "(string \<times> bool \<times> 'a res) list"

definition has_suffix_ci :: "string \<Rightarrow> string \<Rightarrow> bool" where
  "has_suffix_ci suf n = (let t = to_lower n in length suf \<le> length t \<and> drop (length t - length suf) t = suf)"

definition wanted_entry :: "bool \<Rightarrow> string \<Rightarrow> bool \<Rightarrow> bool" where
  "wanted_entry loadDefault n is_dir \<longleftrightarrow>
     \<not> is_dir \<and> has_suffix_ci ''.json'' n \<and> (to_lower n = ''default.json'' \<longleftrightarrow> loadDefault)"

datatype load_error =
    load_stat string
  | load_file string string
  | load_invalid coll_error

primrec load_entries :: "bool \<Rightarrow> (string \<times> bool \<times> 'a list res) list \<Rightarrow> load_error + 'a list" where
  "load_entries d [] = Inr []"
| "load_entries d (e # es) =
     (case e of (n, is_dir, r) \<Rightarrow>
        if \<not> wanted_entry d n is_dir then load_entries d es
        else case r of Inl m \<Rightarrow> Inl (load_file n m) | Inr cs \<Rightarrow> map_sum id (append cs) (load_entries d es))"

text \<open>\<open>LoadCollections\<close>: an empty path loads nothing, a missing one the embedded default file.\<close>

definition LoadCollections ::
    "(gval \<Rightarrow> string) \<Rightarrow> (string \<Rightarrow> document res) \<Rightarrow> collection_def list res \<Rightarrow> (string \<Rightarrow> collection_def list path_info)
      \<Rightarrow> string \<Rightarrow> bool \<Rightarrow> load_error + collection_def list" where
  "LoadCollections fmtv pf embedded fs path loadDefault =
     (let check = (\<lambda>r. case r of Inl m \<Rightarrow> Inl m
        | Inr cs \<Rightarrow> map_sum load_invalid id (ValidateCollectionDefinitions fmtv pf cs)) in
      if path = [] then Inr []
      else case fs path of
        no_path \<Rightarrow> map_sum (load_file ''collections/default.json'') id embedded
      | path_error m \<Rightarrow> Inl (load_stat m)
      | plain_file r \<Rightarrow> check (map_sum (load_file path) id r)
      | directory es \<Rightarrow> check (load_entries loadDefault es))"

text \<open>\<open>parseCollectionsBytes\<close>: the object or the array form, neither of them empty.\<close>

definition parseCollectionsBytes ::
    "(string \<Rightarrow> collection_def list res) \<Rightarrow> (string \<Rightarrow> collection_def list res) \<Rightarrow> string \<Rightarrow> collection_def list res" where
  "parseCollectionsBytes wrapped arr b =
     (let t = trim_space b; bad = ''invalid collections format'';
          check = (\<lambda>r. case r of Inl m \<Rightarrow> Err (bad @ '': '' @ m) | Inr cs \<Rightarrow> if cs = [] then Err bad else Ok cs) in
      if t \<noteq> [] \<and> hd t = CHR ''{'' then check (wrapped t)
      else if t \<noteq> [] \<and> hd t = CHR ''['' then check (arr t)
      else Err bad)"

subsection \<open>What validation accepts\<close>

definition key_ok :: "string \<times> gval \<Rightarrow> bool" where
  "key_ok e \<longleftrightarrow> trim_space (fst e) \<noteq> [] \<and> (dollar (fst e) \<longrightarrow> fst e = ''$**'') \<and> (\<exists>v. normalizeIndexKeyValue (snd e) = Inr v)"

definition keys_ok :: "index_keys \<Rightarrow> bool" where
  "keys_ok k \<longleftrightarrow> k \<noteq> [] \<and> distinct (map fst k) \<and> (\<forall>e \<in> set k. key_ok e)"

lemma map_sum_Inr: "map_sum f g x = Inr y \<longleftrightarrow> (\<exists>z. x = Inr z \<and> y = g z)"
  by (cases x) auto

lemma upd_None: "(m(k \<mapsto> v)) x = None \<longleftrightarrow> x \<noteq> k \<and> m x = None"
  by simp

lemma validate_keys_iff:
  "validate_keys k i seen = Inr k' \<longleftrightarrow>
     distinct (map fst k) \<and> set (map fst k) \<inter> seen = {} \<and> (\<forall>e \<in> set k. key_ok e) \<and> k' = index_BSON k"
proof (induction k arbitrary: i seen k')
  case Nil
  then show ?case by (auto simp: index_BSON_def)
next
  case (Cons e k)
  show ?case
    by (cases "normalizeIndexKeyValue (snd e)")
       (auto simp: map_sum_Inr Cons.IH key_ok_def index_BSON_def split_beta)
qed

lemma validateIndexKeys_iff: "validateIndexKeys k = Inr k' \<longleftrightarrow> keys_ok k \<and> k' = index_BSON k"
  by (auto simp: validateIndexKeys_def validate_keys_iff keys_ok_def)

definition index_ok :: "(string \<Rightarrow> document res) \<Rightarrow> index_def \<Rightarrow> bool" where
  "index_ok pf d \<longleftrightarrow> keys_ok (ix_keys d) \<and> (\<forall>x. ix_expire d = Some x \<longrightarrow> 0 \<le> x)
     \<and> (trim_space (ix_partial d) = [] \<or> (\<exists>doc. pf (ix_partial d) = Inr doc \<and> doc \<noteq> []))"

definition normal_index :: "index_def \<Rightarrow> index_def" where
  "normal_index d = d\<lparr>ix_keys := index_BSON (ix_keys d)\<rparr>"

lemma partial_iff:
  "(\<exists>r. PartialFilterDoc pf d = Inr r) \<longleftrightarrow>
     (trim_space (ix_partial d) = [] \<or> (\<exists>doc. pf (ix_partial d) = Inr doc \<and> doc \<noteq> []))"
  by (auto simp: PartialFilterDoc_def split: sum.splits)

text \<open>The loops that look for duplicates: \<open>xs\<close> has no two elements with the same key, and no element whose key
was seen before.\<close>

definition fresh :: "('a \<Rightarrow> 'k) \<Rightarrow> ('k \<rightharpoonup> 'v) \<Rightarrow> 'a list \<Rightarrow> bool" where
  "fresh K seen xs \<longleftrightarrow> distinct (map K xs) \<and> (\<forall>x \<in> set xs. seen (K x) = None)"

lemma fresh_Nil: "fresh K seen []"
  by (simp add: fresh_def)

lemma fresh_Cons: "fresh K seen (x # xs) \<longleftrightarrow> seen (K x) = None \<and> fresh K (seen(K x \<mapsto> i)) xs"
proof -
  have "K x \<notin> K ` set xs \<longleftrightarrow> (\<forall>y \<in> set xs. K y \<noteq> K x)" by (metis imageE image_eqI)
  then show ?thesis unfolding fresh_def upd_None by auto
qed

lemma fresh_empty: "fresh K Map.empty xs \<longleftrightarrow> distinct (map K xs)"
  by (simp add: fresh_def)

lemma validate_indexes_iff:
  "validate_indexes fmtv pf ds i byKeys byName = Inr ds' \<longleftrightarrow>
     (\<forall>d \<in> set ds. index_ok pf d) \<and> ds' = map normal_index ds
     \<and> fresh (Signature fmtv \<circ> ix_keys \<circ> normal_index) byKeys ds \<and> fresh (EffectiveName fmtv \<circ> normal_index) byName ds"
proof (induction ds arbitrary: i byKeys byName ds')
  case Nil
  then show ?case by (auto simp: fresh_Nil)
next
  case (Cons d ds)
  let ?d = "normal_index d"
  show ?case
  proof (cases "index_ok pf d")
    case False
    have "validate_indexes fmtv pf (d # ds) i byKeys byName \<noteq> Inr ds'"
    proof (cases "validateIndexKeys (ix_keys d)")
      case (Inr k)
      then have "keys_ok (ix_keys d)" using validateIndexKeys_iff by blast
      show ?thesis
      proof (cases "case ix_expire d of Some x \<Rightarrow> x < 0 | None \<Rightarrow> False")
        case False
        then have "\<forall>x. ix_expire d = Some x \<longrightarrow> 0 \<le> x" by (auto split: option.splits)
        with \<open>keys_ok (ix_keys d)\<close> \<open>\<not> index_ok pf d\<close> obtain m where "PartialFilterDoc pf d = Inl m"
          using partial_iff [of pf d] by (cases "PartialFilterDoc pf d") (auto simp: index_ok_def)
        with False Inr show ?thesis by (simp add: Let_def)
      qed (simp add: Inr Let_def)
    qed simp
    with False show ?thesis by simp
  next
    case True
    then have k: "validateIndexKeys (ix_keys d) = Inr (index_BSON (ix_keys d))"
      by (simp add: validateIndexKeys_iff index_ok_def)
    obtain r where r: "PartialFilterDoc pf d = Inr r" using True partial_iff [of pf d] by (auto simp: index_ok_def)
    have e: "\<not> (case ix_expire d of Some x \<Rightarrow> x < 0 | None \<Rightarrow> False)" using True by (auto simp: index_ok_def split: option.split)
    have "validate_indexes fmtv pf (d # ds) i byKeys byName = Inr ds' \<longleftrightarrow>
        byKeys (Signature fmtv (ix_keys ?d)) = None \<and> byName (EffectiveName fmtv ?d) = None
        \<and> (\<exists>z. validate_indexes fmtv pf ds (i + 1) (byKeys(Signature fmtv (ix_keys ?d) \<mapsto> i)) (byName(EffectiveName fmtv ?d \<mapsto> i)) = Inr z
             \<and> ds' = ?d # z)"
      using e by (simp add: k r Let_def map_sum_Inr normal_index_def split: option.split)
    then show ?thesis
      unfolding Cons.IH fresh_Cons [where i = i] o_apply list.set(2) list.map(2) using True by blast
  qed
qed

inductive well_constrained :: "field_def \<Rightarrow> bool" where
  "\<lbrakk>\<forall>lo hi. fd_min f = Some lo \<longrightarrow> fd_max f = Some hi \<longrightarrow> lo \<le> hi;
    \<not> (0 < fd_minLength f \<and> 0 < fd_maxLength f \<and> fd_maxLength f < fd_minLength f);
    \<And>n g. (n, g) \<in> set (fd_fields f) \<Longrightarrow> well_constrained g;
    \<And>g. fd_items f = Some g \<Longrightarrow> well_constrained g\<rbrakk> \<Longrightarrow> well_constrained f"

inductive_cases well_constrainedE: "well_constrained f"

lemma or_opt_None: "or_opt a b = None \<longleftrightarrow> a = None \<and> b = None"
  by (cases a) (auto simp: or_opt_def)

lemma own_constraints_None:
  "own_constraints path f = None \<longleftrightarrow> (\<forall>lo hi. fd_min f = Some lo \<longrightarrow> fd_max f = Some hi \<longrightarrow> lo \<le> hi)
     \<and> \<not> (0 < fd_minLength f \<and> 0 < fd_maxLength f \<and> fd_maxLength f < fd_minLength f)"
  by (auto simp: own_constraints_def split: option.split)

lemma validate_field_iff:
  "validate_field path f = None \<longleftrightarrow> well_constrained f"
  "validateFieldConstraints es pre = None \<longleftrightarrow> (\<forall>(n, g) \<in> set es. well_constrained g)"
proof (induction path f and es pre rule: validate_field_validateFieldConstraints.induct)
  case (1 path f)
  have items: "(case fd_items f of None \<Rightarrow> None | Some g \<Rightarrow> validate_field (field_path path ''[]'') g) = None
      \<longleftrightarrow> (\<forall>g. fd_items f = Some g \<longrightarrow> well_constrained g)"
    using 1 by (cases "fd_items f") auto
  have "well_constrained f \<longleftrightarrow> (\<forall>lo hi. fd_min f = Some lo \<longrightarrow> fd_max f = Some hi \<longrightarrow> lo \<le> hi)
     \<and> \<not> (0 < fd_minLength f \<and> 0 < fd_maxLength f \<and> fd_maxLength f < fd_minLength f)
     \<and> (\<forall>(n, g) \<in> set (fd_fields f). well_constrained g) \<and> (\<forall>g. fd_items f = Some g \<longrightarrow> well_constrained g)"
    by (subst well_constrained.simps) blast
  then show ?case
    unfolding validate_field.simps [of path f] or_opt_None own_constraints_None 1(1) items by blast
next
  case (3 e es pre)
  then show ?case by (cases e) (simp add: or_opt_None)
qed simp_all

definition shard_ok :: "index_keys \<Rightarrow> bool" where
  "shard_ok k \<longleftrightarrow> keys_ok k \<and> (\<forall>e \<in> set (index_BSON k). snd e = GInt32 1 \<or> snd e = GStr ''hashed'')
     \<and> length (filter (\<lambda>e. snd e = GStr ''hashed'') (index_BSON k)) \<le> 1"

lemma validateShardKey_iff: "validateShardKey k = Inr k' \<longleftrightarrow> shard_ok k \<and> k' = index_BSON k"
proof (cases "keys_ok k")
  case True
  then have "validateIndexKeys k = Inr (index_BSON k)" by (simp add: validateIndexKeys_iff)
  let ?P = "\<lambda>e. snd e \<noteq> GInt32 1 \<and> snd e \<noteq> GStr ''hashed''"
  show ?thesis
  proof (cases "find ?P (index_BSON k)")
    case None
    then have "\<forall>e \<in> set (index_BSON k). snd e = GInt32 1 \<or> snd e = GStr ''hashed''" 
      using find_None_iff [of ?P "index_BSON k"] by blast
    then show ?thesis using True None \<open>validateIndexKeys k = _\<close>
      by (simp add: validateShardKey_def shard_ok_def not_less eq_commute)
  next
    case (Some e)
    then have "e \<in> set (index_BSON k)" "?P e" by (auto simp: find_Some_iff)
    then have "\<not> shard_ok k" by (auto simp: shard_ok_def)
    then show ?thesis using Some \<open>validateIndexKeys k = _\<close> by (simp add: validateShardKey_def)
  qed
next
  case False
  then obtain m where "validateIndexKeys k = Inl m" by (cases "validateIndexKeys k") (auto simp: validateIndexKeys_iff)
  with False show ?thesis by (simp add: validateShardKey_def shard_ok_def)
qed

definition collection_ok :: "(gval \<Rightarrow> string) \<Rightarrow> (string \<Rightarrow> document res) \<Rightarrow> collection_def \<Rightarrow> bool" where
  "collection_ok fmtv pf c \<longleftrightarrow>
     (\<forall>d \<in> set (cd_indexes c). index_ok pf d)
     \<and> distinct (map (Signature fmtv \<circ> ix_keys \<circ> normal_index) (cd_indexes c))
     \<and> distinct (map (EffectiveName fmtv \<circ> normal_index) (cd_indexes c))
     \<and> (\<forall>s. cd_shard c = Some s \<longrightarrow> sh_key s \<noteq> [] \<longrightarrow> shard_ok (sh_key s))
     \<and> (\<forall>(n, f) \<in> set (cd_fields c). well_constrained f)"

definition normal_shard :: "shard_config \<Rightarrow> shard_config" where
  "normal_shard s = s\<lparr>sh_key := index_BSON (sh_key s)\<rparr>"

definition normal_collection :: "collection_def \<Rightarrow> collection_def" where
  "normal_collection c = c\<lparr>cd_indexes := map normal_index (cd_indexes c), cd_shard := map_option normal_shard (cd_shard c)\<rparr>"

lemma validateIndexes_iff:
  "validateIndexes fmtv pf ds = Inr ds' \<longleftrightarrow> (\<forall>d \<in> set ds. index_ok pf d) \<and> ds' = map normal_index ds
     \<and> distinct (map (Signature fmtv \<circ> ix_keys \<circ> normal_index) ds) \<and> distinct (map (EffectiveName fmtv \<circ> normal_index) ds)"
  by (simp add: validateIndexes_def validate_indexes_iff fresh_empty)

lemma shard_step_iff:
  "(case sh of None \<Rightarrow> Inr None | Some s \<Rightarrow> if sh_key s = [] then Inr (Some s)
      else map_sum id (\<lambda>k. Some (s\<lparr>sh_key := k\<rparr>)) (validateShardKey (sh_key s))) = Inr sh'
    \<longleftrightarrow> (\<forall>s. sh = Some s \<longrightarrow> sh_key s \<noteq> [] \<longrightarrow> shard_ok (sh_key s)) \<and> sh' = map_option normal_shard sh"
proof (cases sh)
  case (Some s)
  then show ?thesis
    by (cases "sh_key s = []") (auto simp: map_sum_Inr validateShardKey_iff normal_shard_def index_BSON_def)
qed auto

lemma validate_collection_iff:
  "validate_collection fmtv pf c = Inr c' \<longleftrightarrow> collection_ok fmtv pf c \<and> c' = normal_collection c"
proof -
  have "validate_collection fmtv pf c = Inr c' \<longleftrightarrow>
      (\<exists>ixs sh. validateIndexes fmtv pf (cd_indexes c) = Inr ixs
        \<and> (case cd_shard c of None \<Rightarrow> Inr None | Some s \<Rightarrow> if sh_key s = [] then Inr (Some s)
            else map_sum id (\<lambda>k. Some (s\<lparr>sh_key := k\<rparr>)) (validateShardKey (sh_key s))) = Inr sh
        \<and> validateFieldConstraints (cd_fields c) [] = None \<and> c' = c\<lparr>cd_indexes := ixs, cd_shard := sh\<rparr>)"
    unfolding validate_collection_def Let_def by (auto split: sum.splits option.splits)
  then show ?thesis
    unfolding validateIndexes_iff shard_step_iff validate_field_iff collection_ok_def normal_collection_def by blast
qed

lemma validate_collections_iff:
  "validate_collections fmtv pf cs i seen = Inr cs' \<longleftrightarrow>
     (\<forall>c \<in> set cs. trim_space (c_db c) \<noteq> [] \<and> trim_space (c_name c) \<noteq> [] \<and> collection_ok fmtv pf c)
     \<and> fresh (\<lambda>c. namespaceKey (c_db c) (c_name c)) seen cs \<and> cs' = map normal_collection cs"
proof (induction cs arbitrary: i seen cs')
  case Nil
  then show ?case by (auto simp: fresh_Nil)
next
  case (Cons c cs)
  let ?k = "namespaceKey (c_db c) (c_name c)"
  have "validate_collections fmtv pf (c # cs) i seen = Inr cs' \<longleftrightarrow>
      trim_space (c_db c) \<noteq> [] \<and> trim_space (c_name c) \<noteq> [] \<and> seen ?k = None
      \<and> (\<exists>c' z. validate_collection fmtv pf c = Inr c' \<and> validate_collections fmtv pf cs (i + 1) (seen(?k \<mapsto> i)) = Inr z
           \<and> cs' = c' # z)"
    by (cases "seen ?k"; cases "validate_collection fmtv pf c") (simp_all add: Let_def map_sum_Inr)
  then show ?case
    unfolding Cons.IH validate_collection_iff fresh_Cons [where i = i] list.set(2) list.map(2) by blast
qed

text \<open>C20: The definitions a run starts from are accepted exactly when every collection has a database and a
name, no two of them name the same namespace up to case and surrounding space, every index key pattern and shard key
is well formed, no two indexes of a collection have the same keys or the same name, partial filters parse and
are not empty, and no field has a minimum above its maximum. They are returned with the index key values
normalized and nothing else changed.\<close>

theorem collections_validated:
  "ValidateCollectionDefinitions fmtv pf cs = Inr cs' \<longleftrightarrow>
     (\<forall>c \<in> set cs. trim_space (c_db c) \<noteq> [] \<and> trim_space (c_name c) \<noteq> [] \<and> collection_ok fmtv pf c)
     \<and> distinct (map (\<lambda>c. namespaceKey (c_db c) (c_name c)) cs) \<and> cs' = map normal_collection cs"
  by (simp add: ValidateCollectionDefinitions_def validate_collections_iff fresh_empty)

definition sample_collection :: collection_def where
  "sample_collection = \<lparr>c_db = ''shop'', c_name = ''orders'',
     cd_fields = [(''n'', FieldDef ''int'' [] 0 0 (Some 1) (Some 9) [] [] None [] 0)],
     cd_indexes = [\<lparr>ix_keys = [(''n'', GFloat 1)], ix_name = [], ix_unique = False, ix_sparse = False, ix_hidden = False,
       ix_expire = None, ix_partial = []\<rparr>],
     cd_shard = Some \<lparr>sh_key = [(''n'', GStr ''hashed'')], sh_unique = False\<rparr>\<rparr>"

theorem collections_validated_witness:
  "ValidateCollectionDefinitions (\<lambda>_. ''1'') (\<lambda>_. Inr []) [sample_collection] = Inr [normal_collection sample_collection]"
proof -
  have "well_constrained (FieldDef ''int'' [] 0 0 (Some 1) (Some 9) [] [] None [] 0)"
    by (rule well_constrained.intros) simp_all
  then have "collection_ok (\<lambda>_. ''1'') (\<lambda>_. Inr []) sample_collection"
    by (simp add: collection_ok_def sample_collection_def index_ok_def keys_ok_def key_ok_def shard_ok_def dollar_def
        normalizeIndexKeyValue_def direction_def indexKeyTypes_def index_BSON_def trim_space_def is_space_def)
  then show ?thesis
    by (subst collections_validated) (simp add: sample_collection_def trim_space_def is_space_def)
qed

text \<open>Validated definitions validate again to themselves.\<close>

lemma direction_Inr: "direction f = Inr v \<Longrightarrow> v = GInt32 1 \<or> v = GInt32 (- 1)"
  by (auto simp: direction_def split: if_splits)

lemma normalizeIndexKeyValue_Inr:
  "normalizeIndexKeyValue v = Inr w \<Longrightarrow> w = GInt32 1 \<or> w = GInt32 (- 1) \<or> (\<exists>s \<in> set indexKeyTypes. w = GStr s)"
  by (auto simp: normalizeIndexKeyValue_def split: gval.splits if_splits dest: direction_Inr)

lemma fl_minus_one: "fl (- 1) = - 1"
  by (simp add: fl_def exponent_def pow2_def round_half_even_def) 

lemma normalize_idem: "normalizeIndexKeyValue v = Inr w \<Longrightarrow> normalizeIndexKeyValue w = Inr w"
proof -
  have d: "direction (fl 1) = Inr (GInt32 1)" "direction (fl (- 1)) = Inr (GInt32 (- 1))"
    using fl_of_int [of 1] by (simp_all add: direction_def fl_minus_one)
  assume "normalizeIndexKeyValue v = Inr w"
  then have "w = GInt32 1 \<or> w = GInt32 (- 1) \<or> (\<exists>s \<in> set indexKeyTypes. w = GStr s)" by (rule normalizeIndexKeyValue_Inr)
  then show ?thesis by (auto simp: normalizeIndexKeyValue_def d)
qed

text \<open>A key pattern written as JSON reads back as itself, in the same order.\<close>

lemma decode_key_fields_pattern:
  assumes "\<forall>e \<in> set k. \<exists>v. normalizeIndexKeyValue v = Inr (snd e)" "distinct (map fst out @ map fst k)"
  shows "decode_key_fields (map (\<lambda>(f, v). (f, case v of GStr s \<Rightarrow> JStr s | GInt32 i \<Rightarrow> JNum (itoa i) (Some (of_int i)) | _ \<Rightarrow> JNull)) k) out
    = Inr (out @ k)"
  using assms
proof (induction k arbitrary: out)
  case (Cons e k)
  obtain f v where e: "e = (f, v)" by (cases e)
  then obtain u where u: "normalizeIndexKeyValue u = Inr v" using Cons.prems(1) by auto
  have n: "normalize_json_key (case v of GStr s \<Rightarrow> JStr s | GInt32 i \<Rightarrow> JNum (itoa i) (Some (of_int i)) | _ \<Rightarrow> JNull) = Inr v"
    using normalizeIndexKeyValue_Inr [OF u]
    by (auto simp: normalize_json_key_def normalizeIndexKeyValue_def direction_def)
  show ?case using Cons.IH [of "out @ [e]"] Cons.prems n by (auto simp: e)
qed simp

lemma keys_roundtrip:
  assumes "keys_ok k"
  shows "UnmarshalKeys (MarshalKeys (index_BSON k)) = Inr (index_BSON k)"
proof -
  have "\<exists>v. normalizeIndexKeyValue v = Inr (snd e)" if "e \<in> set (index_BSON k)" for e
    using that assms by (fastforce simp: index_BSON_def keys_ok_def key_ok_def)
  moreover have "map fst (index_BSON k) = map fst k" by (simp add: index_BSON_def split_beta comp_def)
  ultimately show ?thesis
    using decode_key_fields_pattern [of "index_BSON k" "[]"] assms
    by (simp add: UnmarshalKeys_def MarshalKeys_def decodeKeyObject_def keys_ok_def)
qed

end
