(* ===== verification/SortSpecs.thy ===== *)
theory SortSpecs
  imports Shapes Collections
begin

text \<open>
  Sort specifications (\<open>internal/config/sort.go\<close>): reading a query so that the objects at sort positions keep
  their declared order, normalizing them, writing them back and listing those with several keys. A sort
  position is \<open>Shapes.IsSortPosition\<close>. Text becomes a \<open>json\<close> tree by \<open>encoding/json\<close>'s decoder, which is the
  standard library's; \<open>num\<close> is its number format.
\<close>

datatype sort_error =
    twice_in_text string
  | bad_number string
  | unordered_map string nat
  | not_a_spec string gval
  | spec_empty string
  | spec_empty_key string
  | spec_dollar string string
  | spec_twice string string
  | spec_value string string gval

subsection \<open>Reading\<close>

text \<open>\<open>decodeOrderedValue\<close>: \<open>owner\<close> is the key the value belongs to, \<open>pos\<close> whether it is at a sort position.
A later occurrence of a key of an ordinary object replaces the earlier one (\<open>map_of_entries\<close>).\<close>

function (sequential) decodeOrderedValue :: "json \<Rightarrow> string \<Rightarrow> bool \<Rightarrow> sort_error + gval"
  and decode_members :: "(string \<times> json) list \<Rightarrow> string \<Rightarrow> sort_error + document"
  and decodeSortObject :: "(string \<times> json) list \<Rightarrow> document \<Rightarrow> sort_error + document"
  and decode_values :: "json list \<Rightarrow> sort_error + gval list" where
  "decodeOrderedValue JNull owner pos = Inr GNil"
| "decodeOrderedValue (JBool b) owner pos = Inr (GBool b)"
| "decodeOrderedValue (JNum s x) owner pos = (case x of Some f \<Rightarrow> Inr (GFloat f) | None \<Rightarrow> Inl (bad_number s))"
| "decodeOrderedValue (JStr s) owner pos = Inr (GStr s)"
| "decodeOrderedValue (JArr xs) owner pos = map_sum id GSlice (decode_values xs)"
| "decodeOrderedValue (JObj es) owner pos =
     (if pos then map_sum id GDoc (decodeSortObject es [])
      else map_sum id (\<lambda>kvs. GMap (map_of_entries kvs)) (decode_members es owner))"
| "decode_members [] owner = Inr []"
| "decode_members (e # es) owner =
     (case decodeOrderedValue (snd e) (fst e) (IsSortPosition owner (fst e)) of Inl m \<Rightarrow> Inl m
      | Inr v \<Rightarrow> map_sum id (Cons (fst e, v)) (decode_members es owner))"
| "decodeSortObject [] d = Inr d"
| "decodeSortObject (e # es) d =
     (if fst e \<in> set (map fst d) then Inl (twice_in_text (fst e))
      else case decodeOrderedValue (snd e) (fst e) False of Inl m \<Rightarrow> Inl m
      | Inr v \<Rightarrow> decodeSortObject es (d @ [(fst e, v)]))"
| "decode_values [] = Inr []"
| "decode_values (x # xs) =
     (case decodeOrderedValue x [] False of Inl m \<Rightarrow> Inl m
      | Inr v \<Rightarrow> map_sum id (Cons v) (decode_values xs))"
  by pat_completeness auto
termination decodeOrderedValue
  by (relation "measure (case_sum
    (case_sum (\<lambda>(j, _). size j) (\<lambda>(es, _). size_list (size_prod (\<lambda>_. 0) size) es))
    (case_sum (\<lambda>(es, _). size_list (size_prod (\<lambda>_. 0) size) es) (size_list size)))")
    (auto simp: less_Suc_eq_le)

definition decodeOrderedJSON :: "json \<Rightarrow> sort_error + gval" where
  "decodeOrderedJSON j = decodeOrderedValue j [] False"

subsection \<open>Normalizing\<close>

definition sortDirection :: "gval \<Rightarrow> gval option" where
  "sortDirection v =
     (let of_float = (\<lambda>f. if f = 1 then Some (GInt32 1) else if f = - 1 then Some (GInt32 (- 1)) else None) in
      case v of GFloat f \<Rightarrow> of_float f
      | GInt i \<Rightarrow> of_float (fl (of_int i)) | GInt32 i \<Rightarrow> of_float (fl (of_int i)) | GInt64 i \<Rightarrow> of_float (fl (of_int i))
      | _ \<Rightarrow> None)"

definition sortMetaValues :: "string list" where
  "sortMetaValues = [''textScore'', ''searchScore'']"

definition normalizeSortValue :: "gval \<Rightarrow> gval option" where
  "normalizeSortValue v =
     (case sortDirection v of Some d \<Rightarrow> Some d
      | None \<Rightarrow>
         (case (case v of GMap [(k, w)] \<Rightarrow> if k = ''$meta'' then w else GNil
                | GDoc [(k, w)] \<Rightarrow> if k = ''$meta'' then w else GNil | _ \<Rightarrow> GNil) of
            GStr s \<Rightarrow> if s \<in> set sortMetaValues then Some (GDoc [(''$meta'', GStr s)]) else None
          | _ \<Rightarrow> None))"

primrec validate_spec :: "document \<Rightarrow> string \<Rightarrow> string set \<Rightarrow> sort_error + document" where
  "validate_spec [] path seen = Inr []"
| "validate_spec (e # es) path seen =
     (if trim_space (fst e) = [] then Inl (spec_empty_key path)
      else if has_prefix ''$'' (fst e) then Inl (spec_dollar path (fst e))
      else if fst e \<in> seen then Inl (spec_twice path (fst e))
      else case normalizeSortValue (snd e) of None \<Rightarrow> Inl (spec_value path (fst e) (snd e))
      | Some v \<Rightarrow> map_sum id (Cons (fst e, v)) (validate_spec es path (insert (fst e) seen)))"

definition validateSortSpec :: "document \<Rightarrow> string \<Rightarrow> sort_error + gval" where
  "validateSortSpec d path = (if d = [] then Inl (spec_empty path) else map_sum id GDoc (validate_spec d path {}))"

definition scalarSortAllowed :: "string \<Rightarrow> string \<Rightarrow> bool" where
  "scalarSortAllowed owner key \<longleftrightarrow> key = ''$sort'' \<and> owner \<noteq> [] \<or> key = ''sortBy'' \<and> owner = ''$sortArray''"

definition normalizeSortSpec :: "gval \<Rightarrow> bool \<Rightarrow> string \<Rightarrow> sort_error + gval" where
  "normalizeSortSpec v allow path =
     (let of_map = (\<lambda>kvs. if length kvs > 1 then Inl (unordered_map path (length kvs)) else validateSortSpec kvs path) in
      case v of
        GDoc d \<Rightarrow> validateSortSpec d path
      | GMap kvs \<Rightarrow> of_map kvs
      | GM kvs \<Rightarrow> of_map kvs
      | _ \<Rightarrow> (case sortDirection v of Some d \<Rightarrow> if allow then Inr d else Inl (not_a_spec path v)
              | None \<Rightarrow> Inl (not_a_spec path v)))"

definition joinSortPath :: "string \<Rightarrow> string \<Rightarrow> string" where
  "joinSortPath path k = (if path = [] then k else path @ ''.'' @ k)"

definition at_position :: "string \<Rightarrow> nat \<Rightarrow> string" where
  "at_position path i = path @ ''['' @ itoa (int i) @ '']''"

text \<open>\<open>normalizeSortSpecs\<close> changes the value in place; here it returns the changed value. The keys of a map are
visited in sorted order, so the error reported does not depend on the iteration order.\<close>

function (sequential) normalizeSortSpecs :: "gval \<Rightarrow> string \<Rightarrow> string \<Rightarrow> sort_error + gval"
  and normalize_members :: "document \<Rightarrow> string \<Rightarrow> string \<Rightarrow> sort_error + document"
  and normalize_values :: "gval list \<Rightarrow> nat \<Rightarrow> string \<Rightarrow> sort_error + gval list" where
  "normalizeSortSpecs (GMap kvs) owner path = map_sum id GMap (normalize_members (sort_entries kvs) owner path)"
| "normalizeSortSpecs (GM kvs) owner path = map_sum id GM (normalize_members (sort_entries kvs) owner path)"
| "normalizeSortSpecs (GDoc kvs) owner path = map_sum id GDoc (normalize_members kvs owner path)"
| "normalizeSortSpecs (GSlice xs) owner path = map_sum id GSlice (normalize_values xs 0 path)"
| "normalizeSortSpecs v owner path = Inr v"
| "normalize_members [] owner path = Inr []"
| "normalize_members (e # es) owner path =
     (case (if IsSortPosition owner (fst e)
            then normalizeSortSpec (snd e) (scalarSortAllowed owner (fst e)) (joinSortPath path (fst e))
            else normalizeSortSpecs (snd e) (fst e) (joinSortPath path (fst e))) of Inl m \<Rightarrow> Inl m
      | Inr v \<Rightarrow> map_sum id (Cons (fst e, v)) (normalize_members es owner path))"
| "normalize_values [] i path = Inr []"
| "normalize_values (x # xs) i path =
     (case normalizeSortSpecs x [] (at_position path i) of Inl m \<Rightarrow> Inl m
      | Inr v \<Rightarrow> map_sum id (Cons v) (normalize_values xs (i + 1) path))"
  by pat_completeness auto

termination normalizeSortSpecs
  by (relation "measure (case_sum (\<lambda>(v, _). size v)
      (case_sum (\<lambda>(es, _). size_list (size_prod (\<lambda>_. 0) size) es) (\<lambda>(xs, _). size_list size xs)))")
     (auto simp: size_list_sort_entries less_Suc_eq_le)


subsection \<open>Writing\<close>

text \<open>\<open>orderedForJSON\<close> and the encoder: maps with their keys sorted, documents in their order.\<close>

function (sequential) orderedForJSON :: "(gval \<Rightarrow> json) \<Rightarrow> gval \<Rightarrow> json" where
  "orderedForJSON num (GMap kvs) = JObj (map (\<lambda>(k, v). (k, orderedForJSON num v)) (sort_entries kvs))"
| "orderedForJSON num (GSlice xs) = JArr (map (orderedForJSON num) xs)"
| "orderedForJSON num (GDoc kvs) = JObj (map (\<lambda>(k, v). (k, orderedForJSON num v)) kvs)"
| "orderedForJSON num GNil = JNull"
| "orderedForJSON num (GBool b) = JBool b"
| "orderedForJSON num (GStr s) = JStr s"
| "orderedForJSON num v = num v"
  by pat_completeness auto
termination
  by (relation "measure (\<lambda>(_, v). size v)")
     (auto simp: size_list_sort_entries gval_entry_size less_Suc_eq_le intro: size_list_estimation')

subsection \<open>Sorts with several keys\<close>

record sort_location =
  sl_path :: string
  sl_keys :: "string list"
  sl_spec :: json

definition spec_keys :: "gval \<Rightarrow> string list" where
  "spec_keys v = (case v of GDoc d \<Rightarrow> map fst d | GMap kvs \<Rightarrow> map fst (sort_entries kvs)
     | GM kvs \<Rightarrow> map fst (sort_entries kvs) | _ \<Rightarrow> [])"

function (sequential) collectMultiKeySorts :: "(gval \<Rightarrow> json) \<Rightarrow> gval \<Rightarrow> string \<Rightarrow> string \<Rightarrow> sort_location list"
  and visit_members :: "(gval \<Rightarrow> json) \<Rightarrow> document \<Rightarrow> string \<Rightarrow> string \<Rightarrow> sort_location list"
  and visit_values :: "(gval \<Rightarrow> json) \<Rightarrow> gval list \<Rightarrow> nat \<Rightarrow> string \<Rightarrow> sort_location list" where
  "collectMultiKeySorts num (GMap kvs) owner path = visit_members num (sort_entries kvs) owner path"
| "collectMultiKeySorts num (GM kvs) owner path = visit_members num (sort_entries kvs) owner path"
| "collectMultiKeySorts num (GDoc kvs) owner path = visit_members num kvs owner path"
| "collectMultiKeySorts num (GSlice xs) owner path = visit_values num xs 0 path"
| "collectMultiKeySorts num v owner path = []"
| "visit_members num [] owner path = []"
| "visit_members num (e # es) owner path =
     (if IsSortPosition owner (fst e) \<and> length (spec_keys (snd e)) > 1
      then [\<lparr>sl_path = joinSortPath path (fst e), sl_keys = spec_keys (snd e), sl_spec = orderedForJSON num (snd e)\<rparr>] else [])
     @ collectMultiKeySorts num (snd e) (fst e) (joinSortPath path (fst e))
     @ visit_members num es owner path"
| "visit_values num [] i path = []"
| "visit_values num (x # xs) i path =
     collectMultiKeySorts num x [] (at_position path i) @ visit_values num xs (i + 1) path"
  by pat_completeness auto
termination collectMultiKeySorts
  by (relation "measure (case_sum (\<lambda>(_, v, _). size v)
      (case_sum (\<lambda>(_, es, _). size_list (size_prod (\<lambda>_. 0) size) es) (\<lambda>(_, xs, _). size_list size xs)))")
     (auto simp: size_list_sort_entries less_Suc_eq_le)

definition MultiKeySortSpecs :: "(gval \<Rightarrow> json) \<Rightarrow> gval \<Rightarrow> string \<Rightarrow> sort_location list" where
  "MultiKeySortSpecs num v path = collectMultiKeySorts num v [] path"

definition HasMultiKeySortSpec :: "(gval \<Rightarrow> json) \<Rightarrow> gval \<Rightarrow> bool" where
  "HasMultiKeySortSpec num v \<longleftrightarrow> MultiKeySortSpecs num v [] \<noteq> []"

subsection \<open>Order is kept\<close>

text \<open>Values as \<open>decodeOrderedValue\<close> returns them: maps without repeated keys (listed in sorted order), documents
exactly at the sort positions, and nothing JSON has no form for.\<close>

inductive decoded :: "string \<Rightarrow> bool \<Rightarrow> gval \<Rightarrow> bool" where
  dec_nil: "decoded owner pos GNil"
| dec_bool: "decoded owner pos (GBool b)"
| dec_float: "decoded owner pos (GFloat f)"
| dec_str: "decoded owner pos (GStr s)"
| dec_slice: "(\<And>x. x \<in> set xs \<Longrightarrow> decoded [] False x) \<Longrightarrow> decoded owner pos (GSlice xs)"
| dec_map: "sorted (map fst kvs) \<Longrightarrow> distinct (map fst kvs)
    \<Longrightarrow> (\<And>k v. (k, v) \<in> set kvs \<Longrightarrow> decoded k (IsSortPosition owner k) v) \<Longrightarrow> decoded owner False (GMap kvs)"
| dec_doc: "distinct (map fst kvs) \<Longrightarrow> (\<And>k v. (k, v) \<in> set kvs \<Longrightarrow> decoded k False v) \<Longrightarrow> decoded owner True (GDoc kvs)"

lemma map_of_entries_distinct: "distinct (map fst kvs) \<Longrightarrow> map_of_entries kvs = kvs"
proof -
  have "distinct (map fst (acc @ kvs)) \<Longrightarrow>
    foldl (\<lambda>m e. if fst e \<in> set (map fst m) then map (\<lambda>x. if fst x = fst e then e else x) m else m @ [e]) acc kvs = acc @ kvs"
    for acc :: "(string \<times> 'a) list"
    by (induction kvs arbitrary: acc) auto
  from this [of "[]"] show "distinct (map fst kvs) \<Longrightarrow> ?thesis" by (simp add: map_of_entries_def)
qed

lemma sort_entries_sorted: "sorted (map fst kvs) \<Longrightarrow> sort_entries kvs = kvs"
  by (simp add: sort_entries_def sorted_sort_id sort_key_id_if_sorted)

lemma decode_members_map:
  "(\<And>k v. (k, v) \<in> set kvs \<Longrightarrow> decodeOrderedValue (orderedForJSON num v) k (IsSortPosition owner k) = Inr v)
    \<Longrightarrow> decode_members (map (\<lambda>(k, v). (k, orderedForJSON num v)) kvs) owner = Inr kvs"
  by (induction kvs) (auto simp: split_beta)

lemma decodeSortObject_map:
  "(\<And>k v. (k, v) \<in> set kvs \<Longrightarrow> decodeOrderedValue (orderedForJSON num v) k False = Inr v)
    \<Longrightarrow> distinct (map fst (d @ kvs)) \<Longrightarrow> decodeSortObject (map (\<lambda>(k, v). (k, orderedForJSON num v)) kvs) d = Inr (d @ kvs)"
  by (induction kvs arbitrary: d) (auto simp: split_beta)

lemma decode_values_map:
  "(\<And>x. x \<in> set xs \<Longrightarrow> decodeOrderedValue (orderedForJSON num x) [] False = Inr x)
    \<Longrightarrow> decode_values (map (orderedForJSON num) xs) = Inr xs"
  by (induction xs) auto

text \<open>A pipeline or update document written to a query file reads back as it was: every sort specification,
at any depth, is read as a document with its keys in the order they were written in, and every other object as a map.
The encoder is assumed to write a float so that it reads back as the same float.\<close>

theorem ordered_roundtrip:
  assumes "\<And>f. num (GFloat f) = JNum (fmt f) (Some f)" and "decoded owner pos v"
  shows "decodeOrderedValue (orderedForJSON num v) owner pos = Inr v"
  using assms(2)
proof (induction rule: decoded.induct)
  case (dec_float owner pos f)
  then show ?case by (simp add: assms(1))
next
  case (dec_slice xs owner pos)
  then show ?case by (simp add: decode_values_map)
next
  case (dec_map kvs owner)
  then show ?case by (simp add: sort_entries_sorted decode_members_map map_of_entries_distinct)
next
  case (dec_doc kvs owner)
  then show ?case by (simp add: decodeSortObject_map)
qed simp_all

definition json_num :: "gval \<Rightarrow> json" where
  "json_num v = (case v of GFloat f \<Rightarrow> JNum (format_g f) (Some f) | _ \<Rightarrow> JNull)"

definition sample_pipeline :: gval where
  "sample_pipeline = GSlice [GMap [(''$sort'', GDoc [(''b'', GFloat (- 1)), (''a'', GFloat 1)])], GMap [(''$limit'', GFloat 5)]]"

theorem ordered_roundtrip_witness:
  "decodeOrderedJSON (orderedForJSON json_num sample_pipeline) = Inr sample_pipeline"
proof -
  have sort: "decoded ''$sort'' True (GDoc [(''b'', GFloat (- 1)), (''a'', GFloat 1)])"
    by (rule dec_doc) (auto intro: decoded.intros)
  have "decoded [] False (GMap [(''$sort'', GDoc [(''b'', GFloat (- 1)), (''a'', GFloat 1)])])"
    by (rule dec_map) (use sort in \<open>auto simp: IsSortPosition_def\<close>)
  moreover have "decoded [] False (GMap [(''$limit'', GFloat 5)])"
    by (rule dec_map) (auto intro: decoded.intros)
  ultimately have "decoded [] False sample_pipeline"
    unfolding sample_pipeline_def by (intro dec_slice) auto
  then show ?thesis unfolding decodeOrderedJSON_def
    by (rule ordered_roundtrip [where fmt = format_g, rotated]) (simp add: json_num_def)
qed

subsection \<open>Normal form\<close>

definition direction_value :: "gval \<Rightarrow> bool" where
  "direction_value v \<longleftrightarrow> v = GInt32 1 \<or> v = GInt32 (- 1)"

definition spec_entry :: "string \<times> gval \<Rightarrow> bool" where
  "spec_entry e \<longleftrightarrow> trim_space (fst e) \<noteq> [] \<and> \<not> has_prefix ''$'' (fst e)
     \<and> (direction_value (snd e) \<or> (\<exists>s \<in> set sortMetaValues. snd e = GDoc [(''$meta'', GStr s)]))"

definition spec_ok :: "document \<Rightarrow> bool" where
  "spec_ok d \<longleftrightarrow> d \<noteq> [] \<and> distinct (map fst d) \<and> (\<forall>e \<in> set d. spec_entry e)"

definition normal_spec :: "string \<Rightarrow> string \<Rightarrow> gval \<Rightarrow> bool" where
  "normal_spec owner k v \<longleftrightarrow> (\<exists>d. v = GDoc d \<and> spec_ok d) \<or> scalarSortAllowed owner k \<and> direction_value v"

text \<open>Every sort position holds a specification (or a direction, where one is allowed); maps are listed in
sorted order.\<close>

inductive normal :: "string \<Rightarrow> gval \<Rightarrow> bool"
  and normal_entries :: "string \<Rightarrow> document \<Rightarrow> bool" where
  norm_map: "sorted (map fst kvs) \<Longrightarrow> normal_entries owner kvs \<Longrightarrow> normal owner (GMap kvs)"
| norm_M: "sorted (map fst kvs) \<Longrightarrow> normal_entries owner kvs \<Longrightarrow> normal owner (GM kvs)"
| norm_doc: "normal_entries owner kvs \<Longrightarrow> normal owner (GDoc kvs)"
| norm_slice: "(\<And>x. x \<in> set xs \<Longrightarrow> normal [] x) \<Longrightarrow> normal owner (GSlice xs)"
| norm_other: "\<not> (\<exists>kvs. v = GMap kvs \<or> v = GM kvs \<or> v = GDoc kvs) \<Longrightarrow> \<not> (\<exists>xs. v = GSlice xs) \<Longrightarrow> normal owner v"
| norm_entries: "(\<And>k v. (k, v) \<in> set es \<Longrightarrow> IsSortPosition owner k \<Longrightarrow> normal_spec owner k v)
    \<Longrightarrow> (\<And>k v. (k, v) \<in> set es \<Longrightarrow> \<not> IsSortPosition owner k \<Longrightarrow> normal k v) \<Longrightarrow> normal_entries owner es"

lemma normal_entriesD:
  "normal_entries owner es \<Longrightarrow> (k, v) \<in> set es \<Longrightarrow> IsSortPosition owner k \<Longrightarrow> normal_spec owner k v"
  "normal_entries owner es \<Longrightarrow> (k, v) \<in> set es \<Longrightarrow> \<not> IsSortPosition owner k \<Longrightarrow> normal k v"
  by (erule normal_entries.cases; blast)+

lemma sortDirection_Some: "sortDirection v = Some d \<Longrightarrow> direction_value d"
  by (auto simp: sortDirection_def direction_value_def Let_def split: gval.splits if_splits)

lemma sortDirection_fixed: "direction_value d \<Longrightarrow> sortDirection d = Some d"
  using fl_of_int [of 1] by (auto simp: sortDirection_def direction_value_def fl_minus_one)

lemma normalizeSortValue_Some:
  "normalizeSortValue v = Some w \<Longrightarrow> direction_value w \<or> (\<exists>s \<in> set sortMetaValues. w = GDoc [(''$meta'', GStr s)])"
  by (auto simp: normalizeSortValue_def sortDirection_Some split: option.splits gval.splits if_splits)

lemma normalizeSortValue_fixed:
  "direction_value w \<or> (\<exists>s \<in> set sortMetaValues. w = GDoc [(''$meta'', GStr s)]) \<Longrightarrow> normalizeSortValue w = Some w"
  by (auto simp: normalizeSortValue_def sortDirection_fixed) (auto simp: sortDirection_def)

lemma validate_spec_Inr:
  "validate_spec d path seen = Inr d' \<Longrightarrow> map fst d' = map fst d \<and> distinct (map fst d) \<and> set (map fst d) \<inter> seen = {}
     \<and> (\<forall>e \<in> set d'. spec_entry e)"
proof (induction d arbitrary: seen d')
  case (Cons e d)
  then obtain v d1 where v: "trim_space (fst e) \<noteq> []" "\<not> has_prefix ''$'' (fst e)" "fst e \<notin> seen"
    "normalizeSortValue (snd e) = Some v" "validate_spec d path (insert (fst e) seen) = Inr d1" "d' = (fst e, v) # d1"
    by (auto simp: map_sum_Inr split: if_splits option.splits)
  have "spec_entry (fst e, v)" using v(1,2) normalizeSortValue_Some [OF v(4)] by (simp add: spec_entry_def)
  with Cons.IH [OF v(5)] v(3) show ?case by (simp add: v(6))
qed simp

lemma validate_spec_fixed:
  "distinct (map fst d) \<Longrightarrow> set (map fst d) \<inter> seen = {} \<Longrightarrow> \<forall>e \<in> set d. spec_entry e \<Longrightarrow> validate_spec d path seen = Inr d"
proof (induction d arbitrary: seen)
  case (Cons e d)
  have "normalizeSortValue (snd e) = Some (snd e)"
    using Cons.prems(3) by (intro normalizeSortValue_fixed) (simp add: spec_entry_def)
  then show ?case using Cons by (simp add: spec_entry_def)
qed simp

lemma validateSortSpec_Inr: "validateSortSpec d path = Inr w \<Longrightarrow> \<exists>d'. w = GDoc d' \<and> spec_ok d'"
  by (auto simp: validateSortSpec_def map_sum_Inr spec_ok_def split: if_splits dest!: validate_spec_Inr)

lemma validateSortSpec_fixed: "spec_ok d \<Longrightarrow> validateSortSpec d path = Inr (GDoc d)"
  by (simp add: validateSortSpec_def spec_ok_def validate_spec_fixed)

lemma normalizeSortSpec_Inr: "normalizeSortSpec v (scalarSortAllowed owner k) path = Inr w \<Longrightarrow> normal_spec owner k w"
  by (auto simp: normalizeSortSpec_def normal_spec_def Let_def sortDirection_Some validateSortSpec_Inr
      split: gval.splits if_splits option.splits)

lemma normalizeSortSpec_fixed: "normal_spec owner k w \<Longrightarrow> normalizeSortSpec w (scalarSortAllowed owner k) path = Inr w"
proof -
  assume "normal_spec owner k w"
  then consider d where "w = GDoc d" "spec_ok d" | "scalarSortAllowed owner k" "direction_value w" by (auto simp: normal_spec_def)
  then show ?thesis
  proof cases
    case 2
    then show ?thesis using sortDirection_fixed [of w]
      by (auto simp: normalizeSortSpec_def Let_def direction_value_def)
  qed (simp add: normalizeSortSpec_def validateSortSpec_fixed Let_def)
qed

lemma normalize_members_fst: "normalize_members es owner path = Inr es' \<Longrightarrow> map fst es' = map fst es"
  by (induction es arbitrary: es') (auto simp: map_sum_Inr split: sum.splits)

lemma sorted_sort_entries: "sorted (map fst (sort_entries kvs))"
  by (simp add: sort_entries_def)

lemma normalized:
  "normalizeSortSpecs v owner path = Inr w \<Longrightarrow> normal owner w"
  "normalize_members es owner path = Inr es' \<Longrightarrow> normal_entries owner es'"
  "normalize_values xs i path = Inr ys \<Longrightarrow> (\<forall>y \<in> set ys. normal [] y)"
proof (induction v owner path and es owner path and xs i path arbitrary: w and es' and ys
    rule: normalizeSortSpecs_normalize_members_normalize_values.induct)
  case (1 kvs owner path)
  then show ?case
    by (auto simp: map_sum_Inr normalize_members_fst sorted_sort_entries intro!: norm_map)
next
  case (2 kvs owner path)
  then show ?case
    by (auto simp: map_sum_Inr normalize_members_fst sorted_sort_entries intro!: norm_M)
next
  case (3 kvs owner path)
  then show ?case by (auto simp: map_sum_Inr intro: norm_doc)
next
  case (4 xs owner path)
  then show ?case by (auto simp: map_sum_Inr intro: norm_slice)
next
  case (7 e es owner path)
  obtain v es1 where v: "(if IsSortPosition owner (fst e)
       then normalizeSortSpec (snd e) (scalarSortAllowed owner (fst e)) (joinSortPath path (fst e))
       else normalizeSortSpecs (snd e) (fst e) (joinSortPath path (fst e))) = Inr v"
     "normalize_members es owner path = Inr es1" "es' = (fst e, v) # es1"
    using 7(3) by (auto simp: map_sum_Inr split: sum.splits)
  have "normal_entries owner es1" using 7(2) v by simp
  moreover have "IsSortPosition owner (fst e) \<Longrightarrow> normal_spec owner (fst e) v" using v(1) normalizeSortSpec_Inr by simp
  moreover have "\<not> IsSortPosition owner (fst e) \<Longrightarrow> normal (fst e) v" using v(1) 7(1) by simp
  ultimately show ?case unfolding v(3) by (auto intro!: norm_entries dest: normal_entriesD)
next
  case (9 x xs i path)
  then show ?case by (auto simp: map_sum_Inr split: sum.splits)
qed (auto intro: norm_other norm_entries)

lemma normalize_members_fixed:
  "(\<And>k v p. (k, v) \<in> set es \<Longrightarrow> IsSortPosition owner k \<Longrightarrow> normal_spec owner k v)
    \<Longrightarrow> (\<And>k v p. (k, v) \<in> set es \<Longrightarrow> \<not> IsSortPosition owner k \<Longrightarrow> normalizeSortSpecs v k p = Inr v)
    \<Longrightarrow> normalize_members es owner path = Inr es"
proof (induction es)
  case (Cons e es)
  have "(if IsSortPosition owner (fst e)
       then normalizeSortSpec (snd e) (scalarSortAllowed owner (fst e)) (joinSortPath path (fst e))
       else normalizeSortSpecs (snd e) (fst e) (joinSortPath path (fst e))) = Inr (snd e)"
    using Cons.prems(1) [of "fst e" "snd e"] Cons.prems(2) [of "fst e" "snd e"] by (simp add: normalizeSortSpec_fixed)
  moreover have "normalize_members es owner path = Inr es" using Cons.prems by (intro Cons.IH) simp_all
  ultimately show ?case by (simp only: normalize_members.simps sum.case map_sum.simps prod.collapse)
qed simp

lemma normalize_values_fixed:
  "(\<And>x p. x \<in> set xs \<Longrightarrow> normalizeSortSpecs x [] p = Inr x) \<Longrightarrow> normalize_values xs i path = Inr xs"
  by (induction xs arbitrary: i) simp_all

lemma normal_fixed:
  "normal owner w \<Longrightarrow> normalizeSortSpecs w owner path = Inr w"
  "normal_entries owner es \<Longrightarrow> normalize_members es owner path = Inr es"
proof (induction arbitrary: path and path rule: normal_normal_entries.inducts)
  case (norm_slice xs owner)
  then show ?case by (simp add: normalize_values_fixed)
next
  case (norm_other v owner)
  then show ?case by (cases v) auto
next
  case (norm_entries es owner)
  then show ?case by (intro normalize_members_fixed) blast+
qed (simp_all add: sort_entries_sorted)

text \<open>Normalizing the sort specifications of a query, when it succeeds, leaves at every sort position, at any
depth of the pipeline or update document, an ordered specification whose keys are distinct, not empty and not
operators and whose values are directions or text-score markers (or a bare direction where the operator allows one);
normalizing again changes nothing.\<close>

theorem sort_specs_normalized:
  assumes "normalizeSortSpecs v owner path = Inr w"
  shows "normal owner w \<and> normalizeSortSpecs w owner p = Inr w"
  using normalized(1) [OF assms] normal_fixed(1) by blast

theorem sort_specs_normalized_witness:
  "normal [] (GMap [(''$sort'', GDoc [(''b'', GInt32 (- 1)), (''a'', GInt32 1)])])"
proof -
  have f: "fl 1 = 1" using fl_of_int [of 1] by simp
  have "normalizeSortSpecs (GMap [(''$sort'', GDoc [(''b'', GFloat (- 1)), (''a'', GInt 1)])]) [] ''pipeline[0]''
      = Inr (GMap [(''$sort'', GDoc [(''b'', GInt32 (- 1)), (''a'', GInt32 1)])])"
    by (simp add: sort_entries_def IsSortPosition_def normalizeSortSpec_def validateSortSpec_def normalizeSortValue_def
        sortDirection_def trim_space_def is_space_def has_prefix_def f Let_def)
  from sort_specs_normalized [OF this] show ?thesis by blast
qed

end
