(* ===== verification/Queries.thy ===== *)
theory Queries
  imports SortSpecs
begin

text \<open>
  Query definitions (\<open>internal/config/queries.go\<close>): decoding, normalization and validation, and binding to the
  collections of the run. \<open>encoding/json\<close> decodes the plain fields (the given \<open>query_def\<close>) and hands over the
  raw pipeline and update as \<open>json\<close> trees. Names of the form \<open>%q\<close> in errors are the strings themselves.
\<close>

datatype query_error =
    query_pipeline string sort_error    \<comment> \<open>of the query with this name\<close>
  | query_update string sort_error
  | pipeline_form string
  | update_form string
  | bad_operation nat string
  | no_collection nat
  | no_filter nat string
  | no_update nat string
  | no_pipeline nat string
  | bad_sort nat string sort_error
  | unknown_in_db string nat string string
  | unknown_collection string nat string
  | ambiguous_collection string nat string

subsection \<open>Decoding\<close>

definition decodeQueryName :: "query_def \<Rightarrow> string" where
  "decodeQueryName q =
     (case filter (\<lambda>s. trim_space s \<noteq> []) [qd_name q, qd_label q, qd_id q] of [] \<Rightarrow> ''(unnamed)'' | s # _ \<Rightarrow> s)"

text \<open>A missing field, or JSON \<open>null\<close>, leaves the query's own field alone.\<close>

definition isJSONValue :: "json option \<Rightarrow> bool" where
  "isJSONValue j \<longleftrightarrow> (case j of None \<Rightarrow> False | Some v \<Rightarrow> v \<noteq> JNull)"

definition UnmarshalQuery :: "query_def \<Rightarrow> json option \<Rightarrow> json option \<Rightarrow> query_error + query_def" where
  "UnmarshalQuery base pipeline update =
     (case (if isJSONValue pipeline then
              (case decodeOrderedJSON (the pipeline) of Inl m \<Rightarrow> Inl (query_pipeline (decodeQueryName base) m)
               | Inr (GSlice p) \<Rightarrow> Inr (base\<lparr>qd_pipeline := Some p\<rparr>)
               | Inr _ \<Rightarrow> Inl (pipeline_form (decodeQueryName base)))
            else Inr base) of
        Inl m \<Rightarrow> Inl m
      | Inr q \<Rightarrow>
          (if isJSONValue update then
             (case decodeOrderedJSON (the update) of Inl m \<Rightarrow> Inl (query_update (decodeQueryName q) m)
              | Inr (GMap u) \<Rightarrow> Inr (q\<lparr>qd_update := Some u\<rparr>)
              | Inr _ \<Rightarrow> Inl (update_form (decodeQueryName q)))
           else Inr q))"

text \<open>\<open>MarshalJSON\<close>: the pipeline and the update it writes, when there are any.\<close>

definition MarshalQuery :: "(gval \<Rightarrow> json) \<Rightarrow> query_def \<Rightarrow> json option \<times> json option" where
  "MarshalQuery num q =
     ((case qd_pipeline q of Some (x # xs) \<Rightarrow> Some (orderedForJSON num (GSlice (x # xs))) | _ \<Rightarrow> None),
      (case qd_update q of Some (u # us) \<Rightarrow> Some (orderedForJSON num (GMap (u # us))) | _ \<Rightarrow> None))"

subsection \<open>Normalization\<close>

definition normalizeQueryOperation :: "string \<Rightarrow> string" where
  "normalizeQueryOperation op =
     (case map_of [(''find'', ''find''), (''aggregate'', ''aggregate''), (''update'', ''updateOne''), (''updateone'', ''updateOne''),
        (''updatemany'', ''updateMany''), (''delete'', ''deleteOne''), (''deleteone'', ''deleteOne''),
        (''deletemany'', ''deleteMany''), (''insert'', ''insert''), (''insertmany'', ''insertMany'')] (to_lower (trim_space op)) of
        Some t \<Rightarrow> t | None \<Rightarrow> [])"

definition sanitizeQueryNamePart :: "string \<Rightarrow> string" where
  "sanitizeQueryNamePart v =
     (let s = trim_space (to_lower v) in if s = [] then ''query'' else map (\<lambda>c. if c = CHR '' '' then CHR ''_'' else c) s)"

definition displayQueryName :: "query_def \<Rightarrow> nat \<Rightarrow> string" where
  "displayQueryName q i =
     (if trim_space (qd_name q) \<noteq> [] then qd_name q
      else if trim_space (qd_label q) \<noteq> [] then qd_label q
      else ''query_'' @ itoa (int i + 1))"

definition normal_pipeline :: "gval list option \<Rightarrow> sort_error + gval list option" where
  "normal_pipeline p =
     (case p of None \<Rightarrow> Inr None | Some xs \<Rightarrow> map_sum id Some (normalize_values xs 0 ''pipeline''))"

definition normal_update :: "document option \<Rightarrow> sort_error + document option" where
  "normal_update u =
     (case u of None \<Rightarrow> Inr None | Some kvs \<Rightarrow> map_sum id Some (normalize_members (sort_entries kvs) [] ''update''))"

text \<open>One query of \<open>NormalizeAndValidateQueries\<close>, at index \<open>i\<close>.\<close>

definition normalize_query :: "nat \<Rightarrow> query_def \<Rightarrow> query_error + query_def" where
  "normalize_query i q =
     (let op = normalizeQueryOperation (qd_operation q) in
      if op = [] then Inl (bad_operation i (qd_operation q))
      else if trim_space (qd_collection q) = [] then Inl (no_collection i)
      else if filter_op op \<and> qd_filter q = None then Inl (no_filter i op)
      else if is_update op \<and> some_map (qd_update q) = [] then Inl (no_update i op)
      else if op = ''aggregate'' \<and> some_list (qd_pipeline q) = [] then Inl (no_pipeline i op)
      else case normal_pipeline (qd_pipeline q) of Inl m \<Rightarrow> Inl (bad_sort i op m)
      | Inr p \<Rightarrow> (case normal_update (qd_update q) of Inl m \<Rightarrow> Inl (bad_sort i op m)
        | Inr u \<Rightarrow>
            (let name = (if trim_space (qd_name q) = [] then op @ ''_'' @ sanitizeQueryNamePart (qd_collection q) @ ''_'' @ itoa (int i + 1)
                         else qd_name q)
             in Inr (q\<lparr>qd_operation := op, qd_pipeline := p, qd_update := u, qd_name := name,
                  qd_label := (if trim_space (qd_label q) = [] then name else qd_label q)\<rparr>))))"

primrec normalize_queries :: "nat \<Rightarrow> query_def list \<Rightarrow> query_error + query_def list" where
  "normalize_queries i [] = Inr []"
| "normalize_queries i (q # qs) =
     (case normalize_query i q of Inl m \<Rightarrow> Inl m
      | Inr q' \<Rightarrow> map_sum id (Cons q') (normalize_queries (i + 1) qs))"

definition NormalizeAndValidateQueries :: "query_def list \<Rightarrow> query_error + query_def list" where
  "NormalizeAndValidateQueries qs = normalize_queries 0 qs"

subsection \<open>Binding to collections\<close>

definition named :: "string \<Rightarrow> collection_def list \<Rightarrow> collection_def list" where
  "named n cols = filter (\<lambda>c. to_lower (trim_space (c_name c)) = to_lower (trim_space n)) cols"

definition bind_query :: "collection_def list \<Rightarrow> nat \<Rightarrow> query_def \<Rightarrow> query_error + query_def" where
  "bind_query cols i q =
     (if trim_space (qd_database q) \<noteq> [] then
        (if namespaceKey (qd_database q) (qd_collection q) \<in> set (map (\<lambda>c. namespaceKey (c_db c) (c_name c)) cols) then Inr q
         else Inl (unknown_in_db (displayQueryName q i) i (qd_collection q) (qd_database q)))
      else (case named (qd_collection q) cols of
          [] \<Rightarrow> Inl (unknown_collection (displayQueryName q i) i (qd_collection q))
        | [c] \<Rightarrow> Inr (q\<lparr>qd_database := c_db c\<rparr>)
        | _ \<Rightarrow> Inl (ambiguous_collection (displayQueryName q i) i (qd_collection q))))"

primrec bind_queries :: "collection_def list \<Rightarrow> nat \<Rightarrow> query_def list \<Rightarrow> query_error + query_def list" where
  "bind_queries cols i [] = Inr []"
| "bind_queries cols i (q # qs) =
     (case bind_query cols i q of Inl m \<Rightarrow> Inl m
      | Inr q' \<Rightarrow> map_sum id (Cons q') (bind_queries cols (i + 1) qs))"

definition ValidateAndBindQueriesToCollections :: "query_def list \<Rightarrow> collection_def list \<Rightarrow> query_error + query_def list" where
  "ValidateAndBindQueriesToCollections qs cols = bind_queries cols 0 qs"

text \<open>\<open>queryMatchesCollection\<close> of the runner.\<close>

definition queryMatchesCollection :: "query_def \<Rightarrow> collection_ref \<Rightarrow> bool" where
  "queryMatchesCollection q c \<longleftrightarrow>
     to_lower (trim_space (qd_collection q)) = to_lower (trim_space (c_name c))
     \<and> (trim_space (qd_database q) = [] \<or> to_lower (trim_space (qd_database q)) = to_lower (trim_space (c_db c)))"

subsection \<open>Files\<close>

definition annotate :: "string \<Rightarrow> string \<Rightarrow> string \<Rightarrow> query_def list \<Rightarrow> query_def list" where
  "annotate sourceType sourceFile workload qs =
     map (\<lambda>(i, q). q\<lparr>qd_sourceType := sourceType, qd_sourceFile := sourceFile, qd_workloadName := workload, qd_index := int i\<rparr>)
       (enumerate 0 qs)"

definition workload_name :: "bool \<Rightarrow> string" where
  "workload_name loadDefault = (if loadDefault then ''default_workload'' else ''custom_workload'')"

text \<open>\<open>loadQueriesFromFile\<close> on the queries \<open>parseQueriesBytes\<close> found, and \<open>LoadQueries\<close>.\<close>

datatype load_query_error =
    lq_stat string
  | lq_read string string
  | lq_invalid string query_error

definition loadQueriesFromFile :: "string \<Rightarrow> query_def list res \<Rightarrow> load_query_error + query_def list" where
  "loadQueriesFromFile n r =
     (case r of Inl m \<Rightarrow> Inl (lq_read n m) | Inr qs \<Rightarrow> map_sum (lq_invalid n) id (NormalizeAndValidateQueries qs))"

primrec load_query_entries :: "bool \<Rightarrow> (string \<times> bool \<times> query_def list res) list \<Rightarrow> load_query_error + query_def list" where
  "load_query_entries d [] = Inr []"
| "load_query_entries d (e # es) =
     (case e of (n, is_dir, r) \<Rightarrow>
        if \<not> wanted_entry d n is_dir then load_query_entries d es
        else case loadQueriesFromFile n r of Inl m \<Rightarrow> Inl m
        | Inr qs \<Rightarrow> map_sum id (append (annotate ''file'' n (workload_name d) qs)) (load_query_entries d es))"

definition LoadQueries ::
    "query_def list res \<Rightarrow> (string \<Rightarrow> query_def list path_info) \<Rightarrow> string \<Rightarrow> bool \<Rightarrow> load_query_error + query_def list" where
  "LoadQueries embedded fs path loadDefault =
     (if path = [] then Inr []
      else case fs path of
        no_path \<Rightarrow>
          (case embedded of Inl m \<Rightarrow> Inl (lq_read ''queries/default.json'' m)
           | Inr qs \<Rightarrow> map_sum (lq_invalid ''queries/default.json'') id
               (NormalizeAndValidateQueries (annotate ''embedded_default'' ''queries/default.json'' ''default_workload'' qs)))
      | path_error m \<Rightarrow> Inl (lq_stat m)
      | plain_file r \<Rightarrow>
          map_sum id (annotate ''file'' (path_base path) (workload_name loadDefault)) (loadQueriesFromFile path r)
      | directory es \<Rightarrow> load_query_entries loadDefault es)"

subsection \<open>Bound queries\<close>

lemma bind_queries_Inr:
  "bind_queries cols i qs = Inr qs' \<Longrightarrow> length qs' = length qs
     \<and> (\<forall>j < length qs. bind_query cols (i + j) (qs ! j) = Inr (qs' ! j))"
proof (induction qs arbitrary: i qs')
  case (Cons q qs)
  then obtain q' z where "bind_query cols i q = Inr q'" "bind_queries cols (i + 1) qs = Inr z" "qs' = q' # z"
    by (auto simp: map_sum_Inr split: sum.splits)
  with Cons.IH [of "i + 1" z] show ?case by (auto simp: nth_Cons split: nat.split)
qed simp

lemma lower_char_code: "(of_char (lower_char c) :: nat) = (if 65 \<le> (of_char c :: nat) \<and> (of_char c :: nat) \<le> 90 then of_char c + 32 else of_char c)"
  by (simp add: lower_char_def Let_def)

lemma lower_char_dot: "lower_char c = CHR ''.'' \<longleftrightarrow> c = CHR ''.''"
proof -
  have dot: "x = CHR ''.'' \<longleftrightarrow> (of_char x :: nat) = 46" for x
    using of_char_eq_iff [of x "CHR ''.''", where ?'a = nat] by simp
  show ?thesis unfolding dot lower_char_code by auto
qed

lemma set_trim_space: "set (trim_space s) \<subseteq> set s"
proof
  fix c assume "c \<in> set (trim_space s)"
  then have "c \<in> set (rev (dropWhile is_space s))" by (auto simp: trim_space_def dest: set_dropWhileD)
  then show "c \<in> set s" by (auto dest: set_dropWhileD)
qed

lemma namespaceKey_cases:
  assumes "namespaceKey d n = namespaceKey e m" and "CHR ''.'' \<notin> set d" "CHR ''.'' \<notin> set e"
  shows "to_lower (trim_space d) = to_lower (trim_space e) \<and> to_lower (trim_space n) = to_lower (trim_space m)"
proof -
  have "CHR ''.'' \<notin> set (to_lower (trim_space x))" if "CHR ''.'' \<notin> set x" for x
    using that set_trim_space [of x] by (auto simp: to_lower_def) (metis lower_char_dot subsetD)
  then have t: "takeWhile (\<lambda>c. c \<noteq> CHR ''.'') (namespaceKey x y) = to_lower (trim_space x)" if "CHR ''.'' \<notin> set x" for x y
    using that by (simp add: namespaceKey_def takeWhile_to_dot)
  have "to_lower (trim_space d) = to_lower (trim_space e)" using t [of d n] t [of e m] assms by simp
  with assms(1) show ?thesis by (simp add: namespaceKey_def)
qed

lemma normalize_queries_Inr:
  "normalize_queries i qs = Inr qs' \<Longrightarrow> length qs' = length qs
     \<and> (\<forall>j < length qs. normalize_query (i + j) (qs ! j) = Inr (qs' ! j))"
proof (induction qs arbitrary: i qs')
  case (Cons q qs)
  then obtain q' z where "normalize_query i q = Inr q'" "normalize_queries (i + 1) qs = Inr z" "qs' = q' # z"
    by (auto simp: map_sum_Inr split: sum.splits)
  with Cons.IH [of "i + 1" z] show ?case by (auto simp: nth_Cons split: nat.split)
qed simp

text \<open>What a query must hold to be sent as its operation.\<close>

definition runnable :: "query_def \<Rightarrow> bool" where
  "runnable q \<longleftrightarrow>
     qd_operation q \<in> {''find'', ''aggregate'', ''updateOne'', ''updateMany'', ''deleteOne'', ''deleteMany'', ''insert'', ''insertMany''}
     \<and> (filter_op (qd_operation q) \<longrightarrow> qd_filter q \<noteq> None)
     \<and> (is_update (qd_operation q) \<longrightarrow> some_map (qd_update q) \<noteq> [])
     \<and> (qd_operation q = ''aggregate'' \<longrightarrow> some_list (qd_pipeline q) \<noteq> [])
     \<and> (\<forall>p. qd_pipeline q = Some p \<longrightarrow> (\<forall>st \<in> set p. normal [] st))
     \<and> (\<forall>u. qd_update q = Some u \<longrightarrow> normal_entries [] u)
     \<and> trim_space (qd_collection q) \<noteq> []"

lemma normalizeQueryOperation_cases:
  "normalizeQueryOperation op \<in>
     {[], ''find'', ''aggregate'', ''updateOne'', ''updateMany'', ''deleteOne'', ''deleteMany'', ''insert'', ''insertMany''}"
  by (simp add: normalizeQueryOperation_def split: option.split)

lemma normalize_values_length: "normalize_values xs i path = Inr ys \<Longrightarrow> length ys = length xs"
  by (induction xs arbitrary: i ys) (auto simp: map_sum_Inr split: sum.splits)

lemma length_sort_entries: "length (sort_entries kvs) = length kvs"
  by (simp add: sort_entries_def)

lemma normalize_query_runnable:
  assumes "normalize_query i q = Inr q'"
  shows "runnable q' \<and> qd_collection q' = qd_collection q \<and> qd_database q' = qd_database q"
proof -
  let ?op = "normalizeQueryOperation (qd_operation q)"
  have c: "?op \<noteq> []" "trim_space (qd_collection q) \<noteq> []" "filter_op ?op \<longrightarrow> qd_filter q \<noteq> None"
    "is_update ?op \<longrightarrow> some_map (qd_update q) \<noteq> []" "?op = ''aggregate'' \<longrightarrow> some_list (qd_pipeline q) \<noteq> []"
    using assms by (auto simp: normalize_query_def Let_def split: if_splits)
  then obtain p u where p: "normal_pipeline (qd_pipeline q) = Inr p" "normal_update (qd_update q) = Inr u"
    and q': "q' = q\<lparr>qd_operation := ?op, qd_pipeline := p, qd_update := u, qd_name := qd_name q', qd_label := qd_label q'\<rparr>"
    using assms by (auto simp: normalize_query_def Let_def split: sum.splits if_splits)
  have pipe: "(qd_pipeline q = None \<longleftrightarrow> p = None) \<and> (\<forall>xs. p = Some xs \<longrightarrow> (\<forall>st \<in> set xs. normal [] st)) \<and> length (some_list p) = length (some_list (qd_pipeline q))"
    using p(1) normalized(3) normalize_values_length
    by (cases "qd_pipeline q") (fastforce simp: normal_pipeline_def map_sum_Inr some_list_def)+
  have upd: "(\<forall>kvs. u = Some kvs \<longrightarrow> normal_entries [] kvs) \<and> length (some_map u) = length (some_map (qd_update q))"
  proof (cases "qd_update q")
    case (Some kvs)
    then obtain es where "u = Some es" "normalize_members (sort_entries kvs) [] ''update'' = Inr es"
      using p(2) by (auto simp: normal_update_def map_sum_Inr)
    then show ?thesis
      using normalized(2) normalize_members_fst [of "sort_entries kvs" "[]" "''update''" es] Some
      by (auto simp: some_map_def dest!: arg_cong [where f = length] simp: length_sort_entries)
  qed (use p(2) in \<open>simp add: normal_update_def some_map_def\<close>)
  have sel: "qd_operation q' = ?op" "qd_pipeline q' = p" "qd_update q' = u" "qd_filter q' = qd_filter q"
    "qd_collection q' = qd_collection q" "qd_database q' = qd_database q"
    by (subst q', simp)+
  have ne: "some_list p = [] \<longleftrightarrow> some_list (qd_pipeline q) = []" "some_map u = [] \<longleftrightarrow> some_map (qd_update q) = []"
    using pipe upd by (metis length_0_conv)+
  have op: "?op \<in> {''find'', ''aggregate'', ''updateOne'', ''updateMany'', ''deleteOne'', ''deleteMany'', ''insert'', ''insertMany''}"
    using normalizeQueryOperation_cases [of "qd_operation q"] c(1) by blast
  have "runnable q'"
    unfolding runnable_def sel ne using op c(2-5) pipe upd by blast
  with sel show ?thesis by simp
qed

lemma matches_truncate: "queryMatchesCollection q (collection_ref.truncate c) \<longleftrightarrow>
    to_lower (trim_space (qd_collection q)) = to_lower (trim_space (c_name c))
     \<and> (trim_space (qd_database q) = [] \<or> to_lower (trim_space (qd_database q)) = to_lower (trim_space (c_db c)))"
  by (simp add: queryMatchesCollection_def collection_ref.truncate_def)

lemma bound_query_matches:
  assumes "normalize_query i q = Inr q1" "bind_query cols i q1 = Inr q2"
    and "CHR ''.'' \<notin> set (qd_database q)" "\<forall>c \<in> set cols. CHR ''.'' \<notin> set (c_db c)"
  shows "runnable q2 \<and> qd_collection q2 = qd_collection q
    \<and> (trim_space (qd_database q) \<noteq> [] \<longrightarrow> qd_database q2 = qd_database q)
    \<and> (\<exists>c \<in> set cols. queryMatchesCollection q2 (collection_ref.truncate c)
         \<and> (trim_space (qd_database q) = [] \<longrightarrow> named (qd_collection q) cols = [c]))"
proof -
  have q1: "runnable q1" "qd_collection q1 = qd_collection q" "qd_database q1 = qd_database q"
    using normalize_query_runnable [OF assms(1)] by auto
  show ?thesis
  proof (cases "trim_space (qd_database q) = []")
    case False
    then have q2: "q2 = q1" and "namespaceKey (qd_database q) (qd_collection q) \<in> set (map (\<lambda>c. namespaceKey (c_db c) (c_name c)) cols)"
      using assms(2) q1 by (auto simp: bind_query_def split: if_splits)
    then obtain c where c: "c \<in> set cols" "namespaceKey (qd_database q) (qd_collection q) = namespaceKey (c_db c) (c_name c)" by auto
    then have "to_lower (trim_space (qd_database q)) = to_lower (trim_space (c_db c))
        \<and> to_lower (trim_space (qd_collection q)) = to_lower (trim_space (c_name c))"
      using assms(3,4) by (intro namespaceKey_cases) auto
    with False q1 c(1) show ?thesis unfolding q2 matches_truncate by auto
  next
    case True
    then obtain c where c: "named (qd_collection q) cols = [c]" "q2 = q1\<lparr>qd_database := c_db c\<rparr>"
      using assms(2) q1 by (auto simp: bind_query_def split: list.splits if_splits)
    then have "c \<in> set (named (qd_collection q) cols)" by simp
    then have "c \<in> set cols" "to_lower (trim_space (c_name c)) = to_lower (trim_space (qd_collection q))"
      by (simp_all add: named_def)
    with True q1 c show ?thesis unfolding matches_truncate by (auto simp: runnable_def)
  qed
qed

text \<open>Queries that pass normalization and binding can be run: each has a supported operation with the filter, update
or pipeline it needs, its sort specifications are in normal form, and it matches a collection of the run, in the
database it names or, when it names none, in the one database that has a collection of that name (names are compared
without case and surrounding space; database names hold no dot).\<close>

theorem bound_queries_match:
  assumes "NormalizeAndValidateQueries qs = Inr ns" and "ValidateAndBindQueriesToCollections ns cols = Inr qs'"
    and "\<forall>q \<in> set qs. CHR ''.'' \<notin> set (qd_database q)" and "\<forall>c \<in> set cols. CHR ''.'' \<notin> set (c_db c)"
  shows "length qs' = length qs \<and> (\<forall>i < length qs. runnable (qs' ! i) \<and> qd_collection (qs' ! i) = qd_collection (qs ! i)
    \<and> (trim_space (qd_database (qs ! i)) \<noteq> [] \<longrightarrow> qd_database (qs' ! i) = qd_database (qs ! i))
    \<and> (\<exists>c \<in> set cols. queryMatchesCollection (qs' ! i) (collection_ref.truncate c)
         \<and> (trim_space (qd_database (qs ! i)) = [] \<longrightarrow> named (qd_collection (qs ! i)) cols = [c])))"
proof -
  have n: "length ns = length qs" "\<And>i. i < length qs \<Longrightarrow> normalize_query i (qs ! i) = Inr (ns ! i)"
    using normalize_queries_Inr [OF assms(1) [unfolded NormalizeAndValidateQueries_def]] by auto
  have b: "length qs' = length ns" "\<And>i. i < length ns \<Longrightarrow> bind_query cols i (ns ! i) = Inr (qs' ! i)"
    using bind_queries_Inr [OF assms(2) [unfolded ValidateAndBindQueriesToCollections_def]] by auto
  have "runnable (qs' ! i) \<and> qd_collection (qs' ! i) = qd_collection (qs ! i)
    \<and> (trim_space (qd_database (qs ! i)) \<noteq> [] \<longrightarrow> qd_database (qs' ! i) = qd_database (qs ! i))
    \<and> (\<exists>c \<in> set cols. queryMatchesCollection (qs' ! i) (collection_ref.truncate c)
         \<and> (trim_space (qd_database (qs ! i)) = [] \<longrightarrow> named (qd_collection (qs ! i)) cols = [c]))" if i: "i < length qs" for i
    using i n(2) [OF i] b(2) [of i] n(1) assms(3,4) bound_query_matches [of i "qs ! i" "ns ! i" cols "qs' ! i"] by simp
  with b(1) n(1) show ?thesis by simp
qed

definition sample_query :: query_def where
  "sample_query = empty_query\<lparr>qd_collection := '' Orders'', qd_operation := ''UPDATE'', qd_filter := Some [],
     qd_update := Some [(''$set'', GMap [(''n'', GInt 1)])]\<rparr>"

theorem bound_queries_match_witness:
  "\<exists>q. runnable q \<and> queryMatchesCollection q (collection_ref.truncate sample_collection)"
proof -
  have t: "trim_space '' Orders'' = ''Orders''" "trim_space ''$set'' = ''$set''" by (simp_all add: trim_space_def is_space_def)
  have op: "normalizeQueryOperation ''UPDATE'' = ''updateOne''"
    by code_simp
  obtain q1 where q1: "NormalizeAndValidateQueries [sample_query] = Inr [q1]" "qd_collection q1 = '' Orders''" "qd_database q1 = []"
    by (simp add: NormalizeAndValidateQueries_def normalize_query_def sample_query_def empty_query_def op t filter_op_def
        some_map_def normal_pipeline_def normal_update_def sort_entries_def IsSortPosition_def Let_def)
  have o: "to_lower ''Orders'' = ''orders''" "to_lower ''orders'' = ''orders''" by code_simp+
  have no: "trim_space ''orders'' = ''orders''" by (simp add: trim_space_def is_space_def)
  have b: "ValidateAndBindQueriesToCollections [q1] [sample_collection] = Inr [q1\<lparr>qd_database := ''shop''\<rparr>]"
    by (simp add: ValidateAndBindQueriesToCollections_def bind_query_def q1 named_def sample_collection_def t o no)
  from bound_queries_match [OF q1(1) b] show ?thesis
    by (auto simp: sample_query_def empty_query_def sample_collection_def)
qed

end
