(* ===== verification/Percentages.thy ===== *)
theory Percentages
  imports AccessPattern
begin

text \<open>
  The operation mix (\<open>normalizePercentages\<close> of \<open>internal/config/config.go\<close>): the shares of the seven kinds of operation are
  scaled to 100 in double precision, pinned shares (those set by the environment) first, and what truncation leaves
  goes to the find share.
\<close>

text \<open>The seven shares of the operation mix, by their key.\<close>

datatype pct = PFind | PUpdate | PDelete | PInsert | PAggregate | PTransaction | PBulk

definition all_pct :: "pct list" where
  "all_pct = [PFind, PUpdate, PDelete, PInsert, PAggregate, PTransaction, PBulk]"

type_synonym shares = "pct \<Rightarrow> int"

definition psum :: "shares \<Rightarrow> int" where
  "psum p = sum_list (map p all_pct)"

definition scale_share :: "int \<Rightarrow> rat \<Rightarrow> int" where
  "scale_share n factor = float_to_int (fl (fl (of_int n) * factor))"

definition balance :: "(pct \<Rightarrow> bool) \<Rightarrow> shares \<Rightarrow> shares" where
  "balance pin p =
     (let pinnedTotal = psum (\<lambda>k. if pin k then p k else 0) in
      if pinnedTotal \<ge> 100 then
        (let q = (\<lambda>k. if pin k then p k else 0) in
         if pinnedTotal > 100 then
           (let factor = fl (100 / fl (of_int pinnedTotal)) in (\<lambda>k. if pin k then scale_share (q k) factor else q k))
         else q)
      else
        (let remaining = 100 - pinnedTotal; unpinned = psum (\<lambda>k. if pin k then 0 else p k) in
         if unpinned > 0 then
           (let factor = fl (fl (of_int remaining) / fl (of_int unpinned))
            in (\<lambda>k. if pin k then p k else scale_share (p k) factor))
         else p(PFind := p PFind + remaining)))"

definition normalizePercentages :: "bool \<Rightarrow> (pct \<Rightarrow> bool) \<Rightarrow> shares \<Rightarrow> shares" where
  "normalizePercentages useTx pinned p =
     (let p0 = (if useTx then p else p(PTransaction := 0));
          pin = (if useTx then pinned else pinned(PTransaction := False));
          q = balance pin p0; total = psum q
      in if total \<noteq> 100 then q(PFind := q PFind + (100 - total)) else q)"

subsection \<open>Truncation never goes over\<close>

lemma round_half_even_le: "of_int (round_half_even x) \<le> x + 1 / 2"
proof -
  have "of_int \<lfloor>x\<rfloor> \<le> x" by simp
  moreover from this have "of_int \<lfloor>x\<rfloor> \<le> x + 1 / 2" by linarith
  ultimately show ?thesis by (simp add: round_half_even_def Let_def)
qed

lemma fl_relative:
  assumes "0 \<le> x"
  shows "fl x \<le> x * (1 + 1 / 2 ^ 53)"
proof (cases "x = 0")
  case False
  define u where "u = pow2 (exponent x - 52)"
  have u: "0 < u" by (simp add: u_def)
  have "pow2 (exponent x) = u * 2 ^ 52"
    using pow2_add_nat [of "exponent x - 52" 52] by (simp add: u_def)
  with exponent_bounds(1) [OF False] assms have le: "u * 2 ^ 52 \<le> x" by simp
  have "fl x = of_int (round_half_even (x / u)) * u" by (simp add: fl_def False u_def Let_def)
  also have "\<dots> \<le> (x / u + 1 / 2) * u" by (rule mult_right_mono) (use round_half_even_le u in auto)
  also have "\<dots> = x + u / 2" using u by (simp add: field_simps)
  also have "\<dots> \<le> x * (1 + 1 / 2 ^ 53)" using le by (simp add: field_simps)
  finally show ?thesis .
qed simp

text \<open>A share \<open>n\<close> of the total \<open>t\<close> scaled to \<open>r\<close> is at most its exact part of \<open>r\<close>.\<close>

lemma scale_share_le:
  assumes "0 \<le> n" "n \<le> t" "0 < t" "t \<le> 2 ^ 40" "0 \<le> r" "r \<le> 100"
  shows "scale_share n (fl (fl (of_int r) / fl (of_int t))) * t \<le> n * r"
    and "0 \<le> scale_share n (fl (fl (of_int r) / fl (of_int t)))"
proof -
  define e where "e = (1 :: rat) / 2 ^ 53"
  define q where "q = (of_int r / of_int t :: rat)"
  define y where "y = fl (of_int n * fl q)"
  have [simp]: "fl (of_int n) = of_int n" "fl (of_int r) = of_int r" "fl (of_int t) = of_int t"
    using assms by (simp_all add: fl_of_int)
  have q: "0 \<le> q" using assms by (simp add: q_def)
  have y0: "0 \<le> y" unfolding y_def using assms fl_nonneg [OF q] by (intro fl_nonneg) simp
  have s: "scale_share n (fl (fl (of_int r) / fl (of_int t))) = \<lfloor>y\<rfloor>"
    using y0 by (simp add: scale_share_def float_to_int_def y_def q_def)
  show "0 \<le> scale_share n (fl (fl (of_int r) / fl (of_int t)))" using s y0 by simp
  have nq: "of_int n * q \<le> 100"
  proof -
    have "of_int n * q \<le> of_int t * q" using assms q by (intro mult_right_mono) auto
    also have "\<dots> = of_int r" using assms by (simp add: q_def)
    finally show ?thesis using assms by linarith
  qed
  have "y \<le> of_int n * fl q * (1 + e)"
    unfolding y_def e_def using assms fl_nonneg [OF q] by (intro fl_relative) simp
  also have "\<dots> \<le> of_int n * (q * (1 + e)) * (1 + e)"
    using fl_relative [OF q] assms by (intro mult_right_mono mult_left_mono) (auto simp: e_def)
  also have "\<dots> = (of_int n * q) + (of_int n * q) * (2 * e + e * e)" by (simp add: algebra_simps)
  also have "\<dots> \<le> (of_int n * q) + 100 * (2 * e + e * e)"
    using nq by (intro add_left_mono mult_right_mono) (auto simp: e_def)
  finally have y: "y \<le> of_int n * q + 100 * (2 * e + e * e)" .
  have small: "of_int t * (100 * (2 * e + e * e)) < 1"
  proof -
    have "of_int t \<le> (of_int (2 ^ 40) :: rat)" using assms(4) by (simp only: of_int_le_iff)
    then have "of_int t * (100 * (2 * e + e * e)) \<le> 2 ^ 40 * (100 * (2 * e + e * e))"
      by (intro mult_right_mono) (auto simp: e_def)
    also have "\<dots> < 1" by (simp add: e_def)
    finally show ?thesis .
  qed
  have "of_int (\<lfloor>y\<rfloor> * t) \<le> y * of_int t" using assms by (simp add: mult_right_mono)
  also have "\<dots> \<le> (of_int n * q + 100 * (2 * e + e * e)) * of_int t"
    using y assms by (intro mult_right_mono) auto
  also have "\<dots> = of_int (n * r) + of_int t * (100 * (2 * e + e * e))"
    using assms by (simp add: q_def algebra_simps)
  also have "\<dots> < of_int (n * r) + 1" using small by simp
  finally have "\<lfloor>y\<rfloor> * t < n * r + 1" by (metis of_int_1 of_int_add of_int_less_iff)
  then show "scale_share n (fl (fl (of_int r) / fl (of_int t))) * t \<le> n * r" using s by simp
qed

lemma psum_expand: "psum p = p PFind + p PUpdate + p PDelete + p PInsert + p PAggregate + p PTransaction + p PBulk"
  by (simp add: psum_def all_pct_def)

lemma psum_mono: "(\<And>k. p k \<le> q k) \<Longrightarrow> psum p \<le> psum q"
  unfolding psum_expand by (intro add_mono)

lemma psum_nonneg: "(\<And>k. 0 \<le> p k) \<Longrightarrow> 0 \<le> psum p"
  by (simp add: psum_expand)

lemma psum_ge: "(\<And>k. 0 \<le> p k) \<Longrightarrow> p k \<le> psum p"
  by (cases k) (simp_all add: psum_expand)

lemma psum_split: "psum (\<lambda>k. if pin k then p k else q k) =
    psum (\<lambda>k. if pin k then p k else 0) + psum (\<lambda>k. if pin k then 0 else q k)"
  by (simp add: psum_expand)

lemma psum_find: "psum (p(PFind := p PFind + d)) = psum p + d"
  by (simp add: psum_expand)

text \<open>Scaling the shares a total is made of never exceeds the new total.\<close>

lemma psum_scaled:
  assumes nonneg: "\<And>k. 0 \<le> p k" and t: "0 < psum p" "psum p \<le> 2 ^ 40" and r: "0 \<le> r" "r \<le> 100"
  shows "psum (\<lambda>k. scale_share (p k) (fl (fl (of_int r) / fl (of_int (psum p))))) \<le> r"
    and "0 \<le> scale_share (p k) (fl (fl (of_int r) / fl (of_int (psum p))))"
proof -
  let ?s = "\<lambda>k. scale_share (p k) (fl (fl (of_int r) / fl (of_int (psum p))))"
  note le = scale_share_le [OF nonneg psum_ge [OF nonneg] t r]
  have "psum ?s * psum p = psum (\<lambda>k. ?s k * psum p)" by (simp add: psum_expand algebra_simps)
  also have "\<dots> \<le> psum (\<lambda>k. p k * r)" by (rule psum_mono) (rule le(1))
  also have "\<dots> = r * psum p" by (simp add: psum_expand algebra_simps)
  finally show "psum ?s \<le> r" using t by simp
  show "0 \<le> ?s k" by (rule le(2))
qed

lemma scale_share_0 [simp]: "scale_share 0 f = 0"
  by (simp add: scale_share_def float_to_int_def)

text \<open>What \<open>balance\<close> leaves: shares that are not negative and never more than 100 together.\<close>

lemma balance_shares:
  assumes nonneg: "\<And>k. 0 \<le> p k" and small: "psum p \<le> 2 ^ 40"
  shows "(\<forall>k. 0 \<le> balance pin p k) \<and> psum (balance pin p) \<le> 100"
proof -
  define a where "a = (\<lambda>k. if pin k then p k else 0)"
  define b where "b = (\<lambda>k. if pin k then 0 else p k)"
  have a: "0 \<le> a k" and b: "0 \<le> b k" for k using nonneg by (simp_all add: a_def b_def)
  have ab: "psum p = psum a + psum b" using psum_split [of pin p p] by (simp add: a_def b_def)
  have a0: "0 \<le> psum a" and b0: "0 \<le> psum b" using a b by (auto intro: psum_nonneg)
  consider (over) "psum a > 100" | (full) "psum a = 100" | (scaled) "psum a < 100" "psum b > 0" | (none) "psum a < 100" "psum b = 0"
    using b0 by linarith
  then show ?thesis
  proof cases
    case over
    have "balance pin p = (\<lambda>k. scale_share (a k) (fl (fl (of_int 100) / fl (of_int (psum a)))))"
      using over fl_of_int [of 100] by (auto simp: balance_def a_def [symmetric] Let_def) (auto simp: a_def)
    then show ?thesis using psum_scaled [of a 100] a over ab b0 small by auto
  next
    case full
    then have "balance pin p = a" by (simp add: balance_def a_def)
    then show ?thesis using a full by simp
  next
    case scaled
    define f where "f = fl (fl (of_int (100 - psum a)) / fl (of_int (psum b)))"
    have eq: "balance pin p = (\<lambda>k. if pin k then a k else scale_share (b k) f)"
      using scaled by (auto simp: balance_def a_def b_def f_def Let_def)
    have s: "psum (\<lambda>k. scale_share (b k) f) \<le> 100 - psum a" "\<And>k. 0 \<le> scale_share (b k) f"
      unfolding f_def using psum_scaled [of b "100 - psum a"] b scaled ab a0 small by auto
    have "psum (balance pin p) = psum a + psum (\<lambda>k. scale_share (b k) f)"
      unfolding eq using psum_split [of pin a "\<lambda>k. scale_share (b k) f"]
      by (simp add: psum_expand a_def b_def)
    then show ?thesis using s a eq by simp
  next
    case none
    then have eq: "balance pin p = p(PFind := p PFind + (100 - psum a))"
      by (simp add: balance_def a_def b_def Let_def)
    show ?thesis unfolding eq psum_find using none nonneg ab by auto
  qed
qed

lemma normalizePercentages_eq:
  "normalizePercentages useTx pinned p =
     (let q = balance (if useTx then pinned else pinned(PTransaction := False)) (if useTx then p else p(PTransaction := 0))
      in q(PFind := q PFind + (100 - psum q)))"
  by (simp add: normalizePercentages_def Let_def)

lemma psum_normalized: "psum (normalizePercentages useTx pinned p) = 100"
  by (simp add: normalizePercentages_eq Let_def del: fun_upd_apply) (simp add: psum_find)

lemma balance_no_transaction: "p PTransaction = 0 \<Longrightarrow> balance pin p PTransaction = 0"
  by (simp add: balance_def Let_def)

lemma balance_pinned:
  "psum (\<lambda>k. if pin k then p k else 0) \<le> 100 \<Longrightarrow> pin k \<Longrightarrow> k \<noteq> PFind \<Longrightarrow> balance pin p k = p k"
  by (simp add: balance_def Let_def)

lemma normalized_shares:
  assumes nonneg: "\<And>k. 0 \<le> p k" and small: "psum p \<le> 2 ^ 40"
  shows "0 \<le> normalizePercentages useTx pinned p k"
proof -
  define p0 where "p0 = (if useTx then p else p(PTransaction := 0))"
  have p0: "0 \<le> p0 k" for k using nonneg by (simp add: p0_def)
  have "psum p0 \<le> psum p" unfolding p0_def using nonneg by (intro psum_mono) simp
  with small have "(\<forall>k. 0 \<le> balance pin p0 k) \<and> psum (balance pin p0) \<le> 100" for pin
    by (intro balance_shares p0) auto
  then show ?thesis by (auto simp: normalizePercentages_eq p0_def [symmetric] Let_def)
qed

text \<open>The normalized mix is a distribution: no share is negative, together they are 100, there are no transactions
unless they are enabled, and pinned shares that fit are kept (the find share takes what truncation leaves).\<close>

theorem mix_normalized:
  assumes nonneg: "\<And>k. 0 \<le> p k" and small: "psum p \<le> 2 ^ 40"
  shows "(\<forall>k. 0 \<le> normalizePercentages useTx pinned p k) \<and> psum (normalizePercentages useTx pinned p) = 100 \<and>
    (\<not> useTx \<longrightarrow> normalizePercentages useTx pinned p PTransaction = 0) \<and>
    (psum (\<lambda>k. if pinned k then p k else 0) \<le> 100 \<longrightarrow>
      (\<forall>k. pinned k \<longrightarrow> k \<noteq> PFind \<longrightarrow> k \<noteq> PTransaction \<longrightarrow> normalizePercentages useTx pinned p k = p k))"
proof -
  define p0 where "p0 = (if useTx then p else p(PTransaction := 0))"
  define pin where "pin = (if useTx then pinned else pinned(PTransaction := False))"
  have eq: "normalizePercentages useTx pinned p = (balance pin p0)(PFind := balance pin p0 PFind + (100 - psum (balance pin p0)))"
    by (simp add: normalizePercentages_eq p0_def pin_def Let_def)
  have le: "psum (\<lambda>k. if pin k then p0 k else 0) \<le> psum (\<lambda>k. if pinned k then p k else 0)"
    using nonneg by (intro psum_mono) (simp add: pin_def p0_def)
  have keep: "normalizePercentages useTx pinned p k = p k"
    if "psum (\<lambda>k. if pinned k then p k else 0) \<le> 100" "pinned k" "k \<noteq> PFind" "k \<noteq> PTransaction" for k
  proof -
    have "balance pin p0 k = p0 k" using that le by (intro balance_pinned) (auto simp: pin_def)
    with that show ?thesis by (simp add: eq p0_def)
  qed
  have "normalizePercentages useTx pinned p PTransaction = 0" if "\<not> useTx"
  proof -
    have "balance pin p0 PTransaction = 0" using that by (intro balance_no_transaction) (simp add: p0_def)
    then show ?thesis by (simp add: eq)
  qed
  then show ?thesis using normalized_shares [OF assms] psum_normalized keep by blast
qed

lemma mix_normalized_witness:
  "let p = normalizePercentages False (\<lambda>k. k = PInsert) (\<lambda>k. 30)
   in (\<forall>k. 0 \<le> p k) \<and> psum p = 100 \<and> p PTransaction = 0 \<and> p PInsert = 30"
  using mix_normalized [of "\<lambda>_. 30" False "\<lambda>k. k = PInsert"] by (simp add: psum_expand Let_def)

end
