(* ===== verification/Config.thy ===== *)
theory Config
  imports LoadProfile Percentages
begin

text \<open>
  The application configuration (\<open>internal/config/config.go\<close>). The fields of \<open>AppConfig\<close> are grouped into records by
  subject. Environment variables are a function \<open>env\<close> (\<open>None\<close>: not set); \<open>strconv.ParseFloat\<close> is the parameter
  \<open>pfloat\<close> (finite results), \<open>net/url\<close>'s parser the parameter of the credential functions.
\<close>

subsection \<open>Settings\<close>

record run_settings =
  rs_URI :: string
  rs_DefaultWorkload :: bool
  rs_PprofEnabled :: bool
  rs_CollectionsPath :: string
  rs_QueriesPath :: string
  rs_DropCollections :: bool
  rs_SkipSeed :: bool
  rs_DocumentsCount :: int
  rs_Concurrency :: int
  rs_Iterations :: int
  rs_IntervalDelay :: string
  rs_Duration :: string
  rs_UseTransactions :: bool
  rs_MaxTransactionOps :: int
  rs_DebugMode :: bool
  rs_RandomSeed :: int
  rs_ThinkTimeMs :: int
  rs_ThinkJitterMs :: int
  rs_ShardingMode :: string
  rs_ShardingSkip :: bool

record tuning_settings =
  ts_InsertBatchSize :: int
  ts_SeedBatchSize :: int
  ts_SeedConcurrency :: int
  ts_FindBatchSize :: int
  ts_FindLimit :: int
  ts_InsertCacheSize :: int
  ts_StatusRefreshRateSec :: int
  ts_OpTimeoutMs :: int
  ts_RetryAttempts :: int
  ts_RetryBackoffMs :: int
  ts_HitRate :: int
  ts_PoolMaxSize :: int
  ts_PoolSample :: int

record mix =
  mx_find :: int
  mx_update :: int
  mx_delete :: int
  mx_insert :: int
  mx_aggregate :: int
  mx_transaction :: int
  mx_bulk :: int

record connection_params =
  cp_Username :: string
  cp_Password :: string
  cp_AuthSource :: string
  cp_DirectConnection :: bool
  cp_ConnectionTimeout :: int
  cp_ServerSelectionTimeout :: int
  cp_MaxPoolSize :: int
  cp_MinPoolSize :: int
  cp_MaxIdleTime :: int
  cp_ReplicaSetName :: string
  cp_ReadPreference :: string
  cp_TLSCAFile :: string
  cp_TLSCertKeyFile :: string

record web_ui =
  wu_Enabled :: bool
  wu_Port :: int
  wu_TLSEnabled :: bool
  wu_TLSCertFile :: string
  wu_TLSKeyFile :: string

record raw_injector =
  ri_Enabled :: bool
  ri_Type :: string
  ri_DocumentSize :: int
  ri_DBName :: string
  ri_CollectionName :: string
  ri_MaxDocs :: int
  ri_BatchSize :: int
  ri_DropCollection :: bool

record insights_settings =
  is_Enabled :: bool
  is_SamplingRate :: rat
  is_SlowThresholdMs :: int
  is_MaxEvents :: int
  is_MaxGroups :: int
  is_ExplainEnabled :: bool
  is_TopN :: int
  is_MaxTimeMS :: int
  is_Verbosity :: string
  is_SeverityMode :: string
  is_EfficiencyMode :: string
  is_Workers :: int
  is_Retries :: int
  is_BackoffMS :: int
  is_TargetAvgMs :: rat
  is_TargetP95Ms :: rat
  is_TargetP99Ms :: rat
  is_StoreQueryValues :: bool
  is_CSVEnabled :: bool
  is_CSVAppend :: bool
  is_CSVPath :: string

record trend_settings =
  tr_HistoryRuns :: int
  tr_MaxAgeDays :: "int option"
  tr_BaselineStore :: string
  tr_DefaultComparison :: string
  tr_RunLabel :: string

record replay_target =
  rt_Label :: string
  rt_URI :: string

record record_settings =
  rc_RecordEnabled :: bool
  rc_RecordPath :: string
  rc_MaxBytes :: int
  rc_Backpressure :: string
  rc_Compression :: string
  rc_ReplayEnabled :: bool
  rc_ReplayPath :: string
  rc_ReplayMode :: string
  rc_AllowMismatch :: bool
  rc_Deterministic :: bool
  rc_OpsPerWorker :: int
  rc_Outcomes :: bool
  rc_Checksums :: bool
  rc_ReplayOutcomesPath :: string
  rc_DetOutcomesPath :: string
  rc_Targets :: "replay_target list"
  rc_TargetsMode :: string
  rc_ReplayOps :: string
  rc_Fingerprint :: string

record app_config =
  ac_run :: run_settings
  ac_tune :: tuning_settings
  ac_mix :: mix
  ac_conn :: connection_params
  ac_web :: web_ui
  ac_inj :: raw_injector
  ac_ins :: insights_settings
  ac_trend :: trend_settings
  ac_rec :: record_settings
  ac_load :: lp_config
  ac_access :: ap_config

abbreviation on_run :: "(run_settings \<Rightarrow> run_settings) \<Rightarrow> app_config \<Rightarrow> app_config" where "on_run \<equiv> ac_run_update"
abbreviation on_tune :: "(tuning_settings \<Rightarrow> tuning_settings) \<Rightarrow> app_config \<Rightarrow> app_config" where "on_tune \<equiv> ac_tune_update"
abbreviation on_conn :: "(connection_params \<Rightarrow> connection_params) \<Rightarrow> app_config \<Rightarrow> app_config" where "on_conn \<equiv> ac_conn_update"
abbreviation on_rec :: "(record_settings \<Rightarrow> record_settings) \<Rightarrow> app_config \<Rightarrow> app_config" where "on_rec \<equiv> ac_rec_update"

subsection \<open>Small normalizations\<close>

definition NormalizeExplainEfficiencyMode :: "string \<Rightarrow> string" where
  "NormalizeExplainEfficiencyMode m = (if to_lower (trim_space m) = ''off'' then ''off'' else ''impact_and_latency_tiers'')"

definition NormalizeTrendComparison :: "string \<Rightarrow> string" where
  "NormalizeTrendComparison m = (if to_lower (trim_space m) = ''pinned'' then ''pinned'' else ''previous'')"

definition NormalizeShardingMode :: "string \<Rightarrow> string" where
  "NormalizeShardingMode m =
     (let t = to_lower (trim_space m) in if t = ''force_on'' then ''force_on'' else if t = ''force_off'' then ''force_off'' else ''auto'')"

definition MaxTrendRunLabelBytes :: nat where "MaxTrendRunLabelBytes = 64"
definition MaxTrendBaselineStorePath :: nat where "MaxTrendBaselineStorePath = 1024"

definition byte_of :: "char \<Rightarrow> nat" where "byte_of c = of_char c"

text \<open>The cut moves back over UTF-8 continuation bytes (\<open>10xxxxxx\<close>).\<close>

fun utf8_cut :: "string \<Rightarrow> nat \<Rightarrow> nat" where
  "utf8_cut s 0 = 0"
| "utf8_cut s (Suc n) = (if byte_of (s ! Suc n) div 64 = 2 then utf8_cut s n else Suc n)"

definition SanitizeTrendRunLabel :: "string \<Rightarrow> string" where
  "SanitizeTrendRunLabel l =
     (let s = filter (\<lambda>c. \<not> (byte_of c < 32 \<or> byte_of c = 127)) (trim_space l) in
      if length s \<le> MaxTrendRunLabelBytes then trim_space s
      else trim_space (take (utf8_cut s MaxTrendRunLabelBytes) s))"

definition contains_any :: "string \<Rightarrow> string \<Rightarrow> bool" where
  "contains_any s cs \<longleftrightarrow> set s \<inter> set cs \<noteq> {}"

definition line_breaks :: string where "line_breaks = [CHR 0x00, CHR 0x0D, CHR 0x0A]"

definition NormalizeTrendSettings :: "trend_settings \<Rightarrow> trend_settings" where
  "NormalizeTrendSettings t =
     (let store = trim_space (tr_BaselineStore t) in
      \<lparr>tr_HistoryRuns = (if tr_HistoryRuns t < 1 then 5 else if tr_HistoryRuns t > 50 then 50 else tr_HistoryRuns t),
       tr_MaxAgeDays = Some (case tr_MaxAgeDays t of Some d \<Rightarrow> if d \<ge> 0 then (if d > 3650 then 3650 else d) else 30 | None \<Rightarrow> 30),
       tr_BaselineStore = (if length store > MaxTrendBaselineStorePath \<or> contains_any store line_breaks then [] else store),
       tr_DefaultComparison = NormalizeTrendComparison (tr_DefaultComparison t),
       tr_RunLabel = SanitizeTrendRunLabel (tr_RunLabel t)\<rparr>)"

subsection \<open>Normalizing the recording and replay settings (\<open>workload_record.go\<close>, \<open>workload_targets.go\<close>)\<close>

definition lower_trim :: "string \<Rightarrow> string" where "lower_trim s = to_lower (trim_space s)"

definition or_default :: "string \<Rightarrow> string \<Rightarrow> string" where
  "or_default d s = (if s = [] then d else s)"

definition DefaultWorkloadRecordPath :: string where "DefaultWorkloadRecordPath = ''plgm_workload_record.ndjson''"
definition DefaultWorkloadRecordMaxBytes :: int where "DefaultWorkloadRecordMaxBytes = 512 * 2 ^ 20"
definition MaxWorkloadRecordPathBytes :: nat where "MaxWorkloadRecordPathBytes = 1024"

definition normalizeWorkloadTargets :: "record_settings \<Rightarrow> record_settings" where
  "normalizeWorkloadTargets r =
     r\<lparr>rc_Targets := map (\<lambda>t. \<lparr>rt_Label = trim_space (rt_Label t), rt_URI = trim_space (rt_URI t)\<rparr>) (rc_Targets r),
       rc_TargetsMode := or_default ''sequential'' (lower_trim (rc_TargetsMode r)),
       rc_ReplayOps := or_default ''all'' (lower_trim (rc_ReplayOps r)),
       rc_Fingerprint := or_default ''off'' (lower_trim (rc_Fingerprint r))\<rparr>"

definition NormalizeWorkloadRecordReplay :: "record_settings \<Rightarrow> record_settings" where
  "NormalizeWorkloadRecordReplay r =
     normalizeWorkloadTargets
       (r\<lparr>rc_RecordPath := (let p = trim_space (rc_RecordPath r) in
            if rc_RecordEnabled r \<and> p = [] then DefaultWorkloadRecordPath else p),
          rc_ReplayPath := trim_space (rc_ReplayPath r),
          rc_ReplayOutcomesPath := trim_space (rc_ReplayOutcomesPath r),
          rc_DetOutcomesPath := trim_space (rc_DetOutcomesPath r),
          rc_MaxBytes := (if rc_MaxBytes r < 0 then DefaultWorkloadRecordMaxBytes else rc_MaxBytes r),
          rc_Backpressure := or_default ''fail'' (lower_trim (rc_Backpressure r)),
          rc_Compression := or_default ''none'' (lower_trim (rc_Compression r)),
          rc_ReplayMode := or_default ''per_worker'' (lower_trim (rc_ReplayMode r))\<rparr>)"

subsection \<open>Replay targets\<close>

text \<open>\<open>ParseReplayTargets\<close>: entries separated by semicolons or line breaks, split at the first \<open>=\<close>.\<close>

definition is_separator :: "char \<Rightarrow> bool" where
  "is_separator c \<longleftrightarrow> c = CHR '';'' \<or> byte_of c = 10 \<or> byte_of c = 13"

fun split_fields :: "(char \<Rightarrow> bool) \<Rightarrow> string \<Rightarrow> string list" where
  "split_fields p [] = [[]]"
| "split_fields p (x # xs) =
     (if p x then [] # split_fields p xs
      else (case split_fields p xs of [] \<Rightarrow> [[x]] | y # ys \<Rightarrow> (x # y) # ys))"

definition parse_target :: "string \<Rightarrow> replay_target" where
  "parse_target part =
     (let l = takeWhile (\<lambda>c. c \<noteq> CHR ''='') part in
      if CHR ''='' \<in> set part then \<lparr>rt_Label = trim_space l, rt_URI = trim_space (drop (length l + 1) part)\<rparr>
      else \<lparr>rt_Label = [], rt_URI = trim_space part\<rparr>)"

definition ParseReplayTargets :: "string \<Rightarrow> replay_target list" where
  "ParseReplayTargets s =
     map parse_target (filter (\<lambda>p. p \<noteq> []) (map trim_space (filter (\<lambda>p. p \<noteq> []) (split_fields is_separator s))))"

subsection \<open>Environment variables\<close>

text \<open>\<open>strconv.Atoi\<close> and \<open>ParseInt(s, 10, 64)\<close>, and \<open>strconv.ParseBool\<close>.\<close>

definition parse_int :: "string \<Rightarrow> int option" where
  "parse_int s =
     (let neg = (s \<noteq> [] \<and> hd s = CHR ''-''); ds = (if s \<noteq> [] \<and> (hd s = CHR ''-'' \<or> hd s = CHR ''+'') then tl s else s);
          n = foldl (\<lambda>x c. x * 10 + digit_val c) 0 ds; v = (if neg then - n else n)
      in if ds = [] \<or> \<not> list_all is_digit ds then None
         else if v < - (2 ^ 63) \<or> v > max_i64 then None else Some v)"

definition parse_bool :: "string \<Rightarrow> bool option" where
  "parse_bool s =
     (if s \<in> {''1'', ''t'', ''T'', ''TRUE'', ''true'', ''True''} then Some True
      else if s \<in> {''0'', ''f'', ''F'', ''FALSE'', ''false'', ''False''} then Some False else None)"

text \<open>One \<open>if\<close> of \<open>applyEnvOverrides\<close>: a variable and the field it sets. An empty or malformed value, or one out of
the accepted range, leaves the field; \<open>e_set\<close> is \<open>LookupEnv\<close>, which also takes an empty value.\<close>

datatype env_row =
    e_str string "string \<Rightarrow> app_config \<Rightarrow> app_config"
  | e_set string "string \<Rightarrow> app_config \<Rightarrow> app_config"
  | e_bool string "bool \<Rightarrow> app_config \<Rightarrow> app_config"
  | e_int string "int \<Rightarrow> bool" "int \<Rightarrow> app_config \<Rightarrow> app_config"
  | e_float string "rat \<Rightarrow> bool" "rat \<Rightarrow> app_config \<Rightarrow> app_config"

type_synonym environment = "string \<Rightarrow> string option"

definition getenv :: "environment \<Rightarrow> string \<Rightarrow> string" where
  "getenv env n = (case env n of Some v \<Rightarrow> v | None \<Rightarrow> [])"

definition when_set :: "'a option \<Rightarrow> ('a \<Rightarrow> bool) \<Rightarrow> ('a \<Rightarrow> app_config \<Rightarrow> app_config) \<Rightarrow> app_config \<Rightarrow> app_config" where
  "when_set v ok f c = (case v of Some x \<Rightarrow> if ok x then f x c else c | None \<Rightarrow> c)"

primrec apply_row :: "(string \<Rightarrow> rat option) \<Rightarrow> environment \<Rightarrow> env_row \<Rightarrow> app_config \<Rightarrow> app_config" where
  "apply_row pfloat env (e_str n f) c = (if getenv env n \<noteq> [] then f (getenv env n) c else c)"
| "apply_row pfloat env (e_set n f) c = when_set (env n) (\<lambda>_. True) f c"
| "apply_row pfloat env (e_bool n f) c = when_set (parse_bool (getenv env n)) (\<lambda>_. True) f c"
| "apply_row pfloat env (e_int n ok f) c = when_set (parse_int (getenv env n)) ok f c"
| "apply_row pfloat env (e_float n ok f) c = (if getenv env n \<noteq> [] then when_set (pfloat (getenv env n)) ok f c else c)"

definition apply_rows :: "(string \<Rightarrow> rat option) \<Rightarrow> environment \<Rightarrow> env_row list \<Rightarrow> app_config \<Rightarrow> app_config" where
  "apply_rows pfloat env rows c = fold (apply_row pfloat env) rows c"

text \<open>Variables of the credentials.\<close>

definition basic_rows :: "env_row list" where
  "basic_rows = [
     e_str ''PLGM_USERNAME'' (\<lambda>x. ac_conn_update (cp_Username_update (\<lambda>_. x))),
     e_str ''PLGM_PASSWORD'' (\<lambda>x. ac_conn_update (cp_Password_update (\<lambda>_. x)))]"

text \<open>Variables of debugging and the connection.\<close>

definition connection_rows :: "env_row list" where
  "connection_rows = [
     e_bool ''PLGM_DEBUG_MODE'' (\<lambda>x. ac_run_update (rs_DebugMode_update (\<lambda>_. x))),
     e_bool ''PLGM_PPROF_ENABLED'' (\<lambda>x. ac_run_update (rs_PprofEnabled_update (\<lambda>_. x))),
     e_str ''PLGM_URI'' (\<lambda>x. ac_run_update (rs_URI_update (\<lambda>_. x))),
     e_bool ''PLGM_DIRECT_CONNECTION'' (\<lambda>x. ac_conn_update (cp_DirectConnection_update (\<lambda>_. x))),
     e_set ''PLGM_REPLICASET_NAME'' (\<lambda>x. ac_conn_update (cp_ReplicaSetName_update (\<lambda>_. x))),
     e_set ''PLGM_READ_PREFERENCE'' (\<lambda>x. ac_conn_update (cp_ReadPreference_update (\<lambda>_. x))),
     e_str ''PLGM_TLS_CA_FILE'' (\<lambda>x. ac_conn_update (cp_TLSCAFile_update (\<lambda>_. x))),
     e_str ''PLGM_TLS_CERTIFICATE_KEY_FILE'' (\<lambda>x. ac_conn_update (cp_TLSCertKeyFile_update (\<lambda>_. x)))]"

text \<open>Variables of the run.\<close>

definition run_rows :: "env_row list" where
  "run_rows = [
     e_bool ''PLGM_DROP_COLLECTIONS'' (\<lambda>x. ac_run_update (rs_DropCollections_update (\<lambda>_. x))),
     e_bool ''PLGM_SKIP_SEED'' (\<lambda>x. ac_run_update (rs_SkipSeed_update (\<lambda>_. x))),
     e_bool ''PLGM_USE_TRANSACTIONS'' (\<lambda>x. ac_run_update (rs_UseTransactions_update (\<lambda>_. x))),
     e_int ''PLGM_MAX_TRANSACTION_OPS'' (\<lambda>n. n > 0) (\<lambda>x. ac_run_update (rs_MaxTransactionOps_update (\<lambda>_. x))),
     e_int ''PLGM_DOCUMENTS_COUNT'' (\<lambda>n. n \<ge> 0) (\<lambda>x. ac_run_update (rs_DocumentsCount_update (\<lambda>_. x))),
     e_int ''PLGM_CONCURRENCY'' (\<lambda>n. n > 0) (\<lambda>x. ac_run_update (rs_Concurrency_update (\<lambda>_. x))),
     e_str ''PLGM_DURATION'' (\<lambda>x. ac_run_update (rs_Duration_update (\<lambda>_. x))),
     e_int ''PLGM_ITERATIONS'' (\<lambda>n. n > 0) (\<lambda>x. ac_run_update (rs_Iterations_update (\<lambda>_. x))),
     e_str ''PLGM_INTERVAL_DELAY'' (\<lambda>x. ac_run_update (rs_IntervalDelay_update (\<lambda>_. x)))]"

text \<open>Variables of tuning.\<close>

definition tuning_rows :: "env_row list" where
  "tuning_rows = [
     e_int ''PLGM_FIND_BATCH_SIZE'' (\<lambda>n. n > 0) (\<lambda>x. ac_tune_update (ts_FindBatchSize_update (\<lambda>_. x))),
     e_int ''PLGM_FIND_LIMIT'' (\<lambda>n. n > 0) (\<lambda>x. ac_tune_update (ts_FindLimit_update (\<lambda>_. x))),
     e_int ''PLGM_INSERT_CACHE_SIZE'' (\<lambda>n. n > 0) (\<lambda>x. ac_tune_update (ts_InsertCacheSize_update (\<lambda>_. x))),
     e_int ''PLGM_OP_TIMEOUT_MS'' (\<lambda>n. n > 0) (\<lambda>x. ac_tune_update (ts_OpTimeoutMs_update (\<lambda>_. x))),
     e_int ''PLGM_RETRY_ATTEMPTS'' (\<lambda>n. n \<ge> 0) (\<lambda>x. ac_tune_update (ts_RetryAttempts_update (\<lambda>_. x))),
     e_int ''PLGM_RETRY_BACKOFF_MS'' (\<lambda>n. n \<ge> 0) (\<lambda>x. ac_tune_update (ts_RetryBackoffMs_update (\<lambda>_. x))),
     e_int ''PLGM_STATUS_REFRESH_RATE_SEC'' (\<lambda>n. n > 0) (\<lambda>x. ac_tune_update (ts_StatusRefreshRateSec_update (\<lambda>_. x))),
     e_int ''PLGM_INSERT_BATCH_SIZE'' (\<lambda>n. n > 0) (\<lambda>x. ac_tune_update (ts_InsertBatchSize_update (\<lambda>_. x))),
     e_int ''PLGM_SEED_CONCURRENCY'' (\<lambda>n. n > 0) (\<lambda>x. ac_tune_update (ts_SeedConcurrency_update (\<lambda>_. x))),
     e_int ''PLGM_SEED_BATCH_SIZE'' (\<lambda>n. n > 0) (\<lambda>x. ac_tune_update (ts_SeedBatchSize_update (\<lambda>_. x))),
     e_int ''PLGM_EXISTING_RECORD_HIT_RATE'' (\<lambda>n. n \<ge> 0 \<and> n \<le> 100) (\<lambda>x. ac_tune_update (ts_HitRate_update (\<lambda>_. x))),
     e_int ''PLGM_RECORD_POOL_MAX_SIZE'' (\<lambda>n. n > 0) (\<lambda>x. ac_tune_update (ts_PoolMaxSize_update (\<lambda>_. x))),
     e_int ''PLGM_RECORD_POOL_BOOTSTRAP_SAMPLE'' (\<lambda>n. n \<ge> 0) (\<lambda>x. ac_tune_update (ts_PoolSample_update (\<lambda>_. x)))]"

text \<open>Variables of random seed, pacing, access pattern and load profile.\<close>

definition pacing_rows :: "env_row list" where
  "pacing_rows = [
     e_int ''PLGM_RANDOM_SEED'' (\<lambda>_. True) (\<lambda>x. ac_run_update (rs_RandomSeed_update (\<lambda>_. x))),
     e_int ''PLGM_THINK_TIME_MS'' (\<lambda>n. n \<ge> 0) (\<lambda>x. ac_run_update (rs_ThinkTimeMs_update (\<lambda>_. x))),
     e_int ''PLGM_THINK_JITTER_MS'' (\<lambda>n. n \<ge> 0) (\<lambda>x. ac_run_update (rs_ThinkJitterMs_update (\<lambda>_. x))),
     e_str ''PLGM_ACCESS_PATTERN_KIND'' (\<lambda>x. ac_access_update (Kind_update (\<lambda>_. x))),
     e_float ''PLGM_ACCESS_PATTERN_ZIPFIAN_EXPONENT'' (\<lambda>_. True) (\<lambda>x. ac_access_update (ZipfianExponent_update (\<lambda>_. x))),
     e_int ''PLGM_ACCESS_PATTERN_HOTSPOT_PERCENT'' (\<lambda>_. True) (\<lambda>x. ac_access_update (HotspotPercent_update (\<lambda>_. x))),
     e_int ''PLGM_ACCESS_PATTERN_HOTSPOT_TRAFFIC_PERCENT'' (\<lambda>_. True) (\<lambda>x. ac_access_update (HotspotTrafficPercent_update (\<lambda>_. x))),
     e_str ''PLGM_LOAD_PROFILE_KIND'' (\<lambda>x. ac_load_update (lp_Kind_update (\<lambda>_. x))),
     e_int ''PLGM_LOAD_PROFILE_WORKERS'' (\<lambda>n. n > 0) (\<lambda>x. ac_load_update (lp_Workers_update (\<lambda>_. x)))]"

text \<open>Variables of the raw injector.\<close>

definition injector_rows :: "env_row list" where
  "injector_rows = [
     e_bool ''PLGM_INJECTOR'' (\<lambda>x. ac_inj_update (ri_Enabled_update (\<lambda>_. x))),
     e_str ''PLGM_INJECTOR_TYPE'' (\<lambda>x. ac_inj_update (ri_Type_update (\<lambda>_. x))),
     e_int ''PLGM_INJECTOR_SIZE'' (\<lambda>n. n > 0) (\<lambda>x. ac_inj_update (ri_DocumentSize_update (\<lambda>_. x))),
     e_str ''PLGM_INJECTOR_DB'' (\<lambda>x. ac_inj_update (ri_DBName_update (\<lambda>_. x))),
     e_str ''PLGM_INJECTOR_COLLECTION'' (\<lambda>x. ac_inj_update (ri_CollectionName_update (\<lambda>_. x))),
     e_int ''PLGM_INJECTOR_MAX_DOCS'' (\<lambda>n. n > 0) (\<lambda>x. ac_inj_update (ri_MaxDocs_update (\<lambda>_. x))),
     e_int ''PLGM_INJECTOR_BATCH_SIZE'' (\<lambda>n. n > 0) (\<lambda>x. ac_inj_update (ri_BatchSize_update (\<lambda>_. x))),
     e_bool ''PLGM_INJECTOR_DROP'' (\<lambda>x. ac_inj_update (ri_DropCollection_update (\<lambda>_. x)))]"

text \<open>Variables of the web interface.\<close>

definition web_rows :: "env_row list" where
  "web_rows = [
     e_bool ''PLGM_WEBUI_ENABLED'' (\<lambda>x. ac_web_update (wu_Enabled_update (\<lambda>_. x))),
     e_int ''PLGM_WEBUI_PORT'' (\<lambda>n. n > 0) (\<lambda>x. ac_web_update (wu_Port_update (\<lambda>_. x))),
     e_bool ''PLGM_WEBUI_TLS'' (\<lambda>x. ac_web_update (wu_TLSEnabled_update (\<lambda>_. x))),
     e_str ''PLGM_WEBUI_TLS_CERT'' (\<lambda>x. ac_web_update (wu_TLSCertFile_update (\<lambda>_. x))),
     e_str ''PLGM_WEBUI_TLS_KEY'' (\<lambda>x. ac_web_update (wu_TLSKeyFile_update (\<lambda>_. x)))]"

text \<open>Variables of insights.\<close>

definition insight_rows :: "env_row list" where
  "insight_rows = [
     e_bool ''PLGM_INSIGHTS_ENABLED'' (\<lambda>x. ac_ins_update (is_Enabled_update (\<lambda>_. x))),
     e_float ''PLGM_INSIGHTS_SAMPLING_RATE'' (\<lambda>f. f > 0 \<and> f \<le> 1) (\<lambda>x. ac_ins_update (is_SamplingRate_update (\<lambda>_. x))),
     e_int ''PLGM_INSIGHTS_SLOW_THRESHOLD_MS'' (\<lambda>n. n > 0) (\<lambda>x. ac_ins_update (is_SlowThresholdMs_update (\<lambda>_. x))),
     e_int ''PLGM_INSIGHTS_MAX_EVENTS'' (\<lambda>n. n > 0) (\<lambda>x. ac_ins_update (is_MaxEvents_update (\<lambda>_. x))),
     e_int ''PLGM_INSIGHTS_MAX_GROUPS'' (\<lambda>n. n > 0) (\<lambda>x. ac_ins_update (is_MaxGroups_update (\<lambda>_. x))),
     e_bool ''PLGM_INSIGHTS_EXPLAIN_ENABLED'' (\<lambda>x. ac_ins_update (is_ExplainEnabled_update (\<lambda>_. x))),
     e_int ''PLGM_INSIGHTS_EXPLAIN_TOP_N'' (\<lambda>n. n > 0) (\<lambda>x. ac_ins_update (is_TopN_update (\<lambda>_. x))),
     e_int ''PLGM_INSIGHTS_EXPLAIN_MAX_TIME_MS'' (\<lambda>n. n > 0) (\<lambda>x. ac_ins_update (is_MaxTimeMS_update (\<lambda>_. x))),
     e_str ''PLGM_INSIGHTS_EXPLAIN_VERBOSITY'' (\<lambda>x. ac_ins_update (is_Verbosity_update (\<lambda>_. x))),
     e_str ''PLGM_INSIGHTS_EXPLAIN_SEVERITY_MODE'' (\<lambda>x. ac_ins_update (is_SeverityMode_update (\<lambda>_. x))),
     e_str ''PLGM_INSIGHTS_EXPLAIN_EFFICIENCY_MODE'' (\<lambda>x. ac_ins_update (is_EfficiencyMode_update (\<lambda>_. x))),
     e_int ''PLGM_INSIGHTS_EXPLAIN_WORKERS'' (\<lambda>n. n > 0) (\<lambda>x. ac_ins_update (is_Workers_update (\<lambda>_. x))),
     e_int ''PLGM_INSIGHTS_EXPLAIN_RETRIES'' (\<lambda>n. n \<ge> 0) (\<lambda>x. ac_ins_update (is_Retries_update (\<lambda>_. x))),
     e_int ''PLGM_INSIGHTS_EXPLAIN_BACKOFF_MS'' (\<lambda>n. n \<ge> 0) (\<lambda>x. ac_ins_update (is_BackoffMS_update (\<lambda>_. x)))]"

text \<open>Variables of trend history.\<close>

definition trend_rows :: "env_row list" where
  "trend_rows = [
     e_int ''PLGM_TREND_HISTORY_RUNS'' (\<lambda>n. n \<ge> 1) (\<lambda>x. ac_trend_update (tr_HistoryRuns_update (\<lambda>_. x))),
     e_int ''PLGM_TREND_MAX_AGE_DAYS'' (\<lambda>n. n \<ge> 0) (\<lambda>x. ac_trend_update (tr_MaxAgeDays_update (\<lambda>_. Some x))),
     e_str ''PLGM_TREND_BASELINE_STORE'' (\<lambda>x. ac_trend_update (tr_BaselineStore_update (\<lambda>_. x))),
     e_str ''PLGM_TREND_DEFAULT_COMPARISON'' (\<lambda>x. ac_trend_update (tr_DefaultComparison_update (\<lambda>_. x))),
     e_str ''PLGM_TREND_RUN_LABEL'' (\<lambda>x. ac_trend_update (tr_RunLabel_update (\<lambda>_. x))),
     e_bool ''PLGM_INSIGHTS_TREND_STORE_QUERY_VALUES'' (\<lambda>x. ac_ins_update (is_StoreQueryValues_update (\<lambda>_. x)))]"

text \<open>Variables of recording, replay and sharding.\<close>

definition record_rows :: "env_row list" where
  "record_rows = [
     e_bool ''PLGM_WORKLOAD_RECORD_ENABLED'' (\<lambda>x. ac_rec_update (rc_RecordEnabled_update (\<lambda>_. x))),
     e_str ''PLGM_WORKLOAD_RECORD_PATH'' (\<lambda>x. ac_rec_update (rc_RecordPath_update (\<lambda>_. x))),
     e_int ''PLGM_WORKLOAD_RECORD_MAX_BYTES'' (\<lambda>n. n \<ge> 0) (\<lambda>x. ac_rec_update (rc_MaxBytes_update (\<lambda>_. x))),
     e_str ''PLGM_WORKLOAD_RECORD_BACKPRESSURE'' (\<lambda>x. ac_rec_update (rc_Backpressure_update (\<lambda>_. x))),
     e_str ''PLGM_WORKLOAD_RECORD_COMPRESSION'' (\<lambda>x. ac_rec_update (rc_Compression_update (\<lambda>_. x))),
     e_bool ''PLGM_WORKLOAD_REPLAY_ENABLED'' (\<lambda>x. ac_rec_update (rc_ReplayEnabled_update (\<lambda>_. x))),
     e_str ''PLGM_WORKLOAD_REPLAY_PATH'' (\<lambda>x. ac_rec_update (rc_ReplayPath_update (\<lambda>_. x))),
     e_str ''PLGM_WORKLOAD_REPLAY_MODE'' (\<lambda>x. ac_rec_update (rc_ReplayMode_update (\<lambda>_. x))),
     e_bool ''PLGM_WORKLOAD_REPLAY_ALLOW_MISMATCH'' (\<lambda>x. ac_rec_update (rc_AllowMismatch_update (\<lambda>_. x))),
     e_bool ''PLGM_WORKLOAD_DETERMINISTIC'' (\<lambda>x. ac_rec_update (rc_Deterministic_update (\<lambda>_. x))),
     e_int ''PLGM_OPERATIONS_PER_WORKER'' (\<lambda>n. n \<ge> 0) (\<lambda>x. ac_rec_update (rc_OpsPerWorker_update (\<lambda>_. x))),
     e_bool ''PLGM_WORKLOAD_RECORD_OUTCOMES'' (\<lambda>x. ac_rec_update (rc_Outcomes_update (\<lambda>_. x))),
     e_bool ''PLGM_WORKLOAD_RECORD_RESULT_CHECKSUMS'' (\<lambda>x. ac_rec_update (rc_Checksums_update (\<lambda>_. x))),
     e_str ''PLGM_WORKLOAD_REPLAY_OUTCOMES_PATH'' (\<lambda>x. ac_rec_update (rc_ReplayOutcomesPath_update (\<lambda>_. x))),
     e_str ''PLGM_WORKLOAD_DETERMINISTIC_OUTCOMES_PATH'' (\<lambda>x. ac_rec_update (rc_DetOutcomesPath_update (\<lambda>_. x))),
     e_str ''PLGM_WORKLOAD_REPLAY_TARGETS'' (\<lambda>x. ac_rec_update (rc_Targets_update (\<lambda>_. ParseReplayTargets x))),
     e_str ''PLGM_WORKLOAD_REPLAY_TARGETS_MODE'' (\<lambda>x. ac_rec_update (rc_TargetsMode_update (\<lambda>_. x))),
     e_str ''PLGM_WORKLOAD_REPLAY_OPS'' (\<lambda>x. ac_rec_update (rc_ReplayOps_update (\<lambda>_. x))),
     e_str ''PLGM_WORKLOAD_DATA_FINGERPRINT'' (\<lambda>x. ac_rec_update (rc_Fingerprint_update (\<lambda>_. x))),
     e_str ''PLGM_SHARDING_MODE'' (\<lambda>x. ac_run_update (rs_ShardingMode_update (\<lambda>_. x))),
     e_bool ''PLGM_SHARDING_SKIP_GENERIC_WITHOUT_CONFIG'' (\<lambda>x. ac_run_update (rs_ShardingSkip_update (\<lambda>_. x)))]"

definition target_rows :: "env_row list" where
  "target_rows = [
     e_float ''PLGM_INSIGHTS_LATENCY_TARGET_AVG_MS'' (\<lambda>f. f \<ge> 0) (\<lambda>x. ac_ins_update (is_TargetAvgMs_update (\<lambda>_. x))),
     e_float ''PLGM_INSIGHTS_LATENCY_TARGET_P95_MS'' (\<lambda>f. f \<ge> 0) (\<lambda>x. ac_ins_update (is_TargetP95Ms_update (\<lambda>_. x))),
     e_float ''PLGM_INSIGHTS_LATENCY_TARGET_P99_MS'' (\<lambda>f. f \<ge> 0) (\<lambda>x. ac_ins_update (is_TargetP99Ms_update (\<lambda>_. x)))]"

text \<open>The workload and path variables: an explicit \<open>PLGM_DEFAULT_WORKLOAD\<close> wins; without it, custom paths for both
collections and queries turn the default workload off.\<close>

definition path_overrides :: "environment \<Rightarrow> app_config \<Rightarrow> app_config" where
  "path_overrides env c =
     (let d = parse_bool (getenv env ''PLGM_DEFAULT_WORKLOAD'');
          cp = getenv env ''PLGM_COLLECTIONS_PATH''; qp = getenv env ''PLGM_QUERIES_PATH'';
          c1 = (case d of Some b \<Rightarrow> on_run (rs_DefaultWorkload_update (\<lambda>_. b)) c | None \<Rightarrow> c);
          c2 = (if cp \<noteq> [] then on_run (rs_CollectionsPath_update (\<lambda>_. cp)) c1 else c1);
          c3 = (if qp \<noteq> [] then on_run (rs_QueriesPath_update (\<lambda>_. qp)) c2 else c2)
      in if d = None \<and> cp \<noteq> [] \<and> qp \<noteq> [] then on_run (rs_DefaultWorkload_update (\<lambda>_. False)) c3 else c3)"

subsection \<open>Percentages\<close>

primrec mix_get :: "pct \<Rightarrow> mix \<Rightarrow> int" where
  "mix_get PFind m = mx_find m"
| "mix_get PUpdate m = mx_update m"
| "mix_get PDelete m = mx_delete m"
| "mix_get PInsert m = mx_insert m"
| "mix_get PAggregate m = mx_aggregate m"
| "mix_get PTransaction m = mx_transaction m"
| "mix_get PBulk m = mx_bulk m"

definition mix_of :: "shares \<Rightarrow> mix" where
  "mix_of p = \<lparr>mx_find = p PFind, mx_update = p PUpdate, mx_delete = p PDelete, mx_insert = p PInsert,
     mx_aggregate = p PAggregate, mx_transaction = p PTransaction, mx_bulk = p PBulk\<rparr>"

primrec pct_env :: "pct \<Rightarrow> string" where
  "pct_env PFind = ''PLGM_FIND_PERCENT''"
| "pct_env PUpdate = ''PLGM_UPDATE_PERCENT''"
| "pct_env PDelete = ''PLGM_DELETE_PERCENT''"
| "pct_env PInsert = ''PLGM_INSERT_PERCENT''"
| "pct_env PAggregate = ''PLGM_AGGREGATE_PERCENT''"
| "pct_env PTransaction = ''PLGM_TRANSACTION_PERCENT''"
| "pct_env PBulk = ''PLGM_BULK_INSERT_PERCENT''"

definition env_share :: "environment \<Rightarrow> pct \<Rightarrow> int option" where
  "env_share env k = (case parse_int (getenv env (pct_env k)) of Some n \<Rightarrow> if n \<ge> 0 then Some n else None | None \<Rightarrow> None)"

text \<open>A share set by the environment is pinned.\<close>

definition percent_overrides :: "environment \<Rightarrow> app_config \<Rightarrow> app_config" where
  "percent_overrides env c =
     c\<lparr>ac_mix := mix_of (\<lambda>k. case env_share env k of Some n \<Rightarrow> n | None \<Rightarrow> mix_get k (ac_mix c))\<rparr>"

definition applyEnvOverrides :: "(string \<Rightarrow> rat option) \<Rightarrow> environment \<Rightarrow> app_config \<Rightarrow> app_config \<times> (pct \<Rightarrow> bool)" where
  "applyEnvOverrides pfloat env c =
     (let ap = apply_rows pfloat env;
          c1 = path_overrides env (ap connection_rows (ap basic_rows c));
          c2 = ap tuning_rows (percent_overrides env (ap run_rows c1));
          c3 = ap target_rows (ap insight_rows (ap web_rows (ap injector_rows (ap pacing_rows c2))));
          c4 = ap record_rows (ap trend_rows c3)
      in (c4, \<lambda>k. env_share env k \<noteq> None))"


subsection \<open>Defaults\<close>

text \<open>\<open>applyUIDefaults\<close>: the settings of the web interface when there is no configuration file.\<close>

definition applyUIDefaults :: "app_config \<Rightarrow> app_config" where
  "applyUIDefaults c =
     c\<lparr>ac_run := (ac_run c)\<lparr>rs_URI := ''mongodb://localhost:27017'', rs_Concurrency := 4, rs_Duration := ''20s'',
          rs_DefaultWorkload := True, rs_SkipSeed := True, rs_DocumentsCount := 100000, rs_Iterations := 1,
          rs_IntervalDelay := ''0s'', rs_ShardingMode := ''auto'', rs_ShardingSkip := True\<rparr>,
       ac_conn := (ac_conn c)\<lparr>cp_Username := ''plgm'', cp_AuthSource := ''admin'', cp_ReadPreference := ''nearest''\<rparr>,
       ac_mix := \<lparr>mx_find = 60, mx_update = 20, mx_delete = 10, mx_insert = 5, mx_aggregate = 0, mx_transaction = 0, mx_bulk = 5\<rparr>,
       ac_ins := (ac_ins c)\<lparr>is_CSVEnabled := False, is_CSVAppend := False, is_CSVPath := ''plgm_metrics_export.csv'',
          is_Enabled := True, is_SamplingRate := fl (1 / 10), is_SlowThresholdMs := 200, is_MaxEvents := 5000,
          is_MaxGroups := 300, is_ExplainEnabled := True, is_TopN := 5, is_MaxTimeMS := 1000,
          is_Verbosity := ''executionStats'', is_SeverityMode := ''high_only'',
          is_EfficiencyMode := ''impact_and_latency_tiers'', is_Workers := 1, is_Retries := 1, is_BackoffMS := 150\<rparr>\<rparr>"

definition dflt :: "int \<Rightarrow> int \<Rightarrow> int" where "dflt d x = (if x \<le> 0 then d else x)"
definition at_least_0 :: "int \<Rightarrow> int" where "at_least_0 x = (if x < 0 then 0 else x)"

definition default_insights :: "insights_settings \<Rightarrow> insights_settings" where
  "default_insights i =
     i\<lparr>is_CSVPath := (if is_CSVEnabled i \<and> is_CSVPath i = [] then ''plgm_metrics_export.csv'' else is_CSVPath i),
       is_SamplingRate := (if is_SamplingRate i \<le> 0 \<or> is_SamplingRate i > 1 then fl (1 / 10) else is_SamplingRate i),
       is_SlowThresholdMs := dflt 200 (is_SlowThresholdMs i), is_MaxEvents := dflt 5000 (is_MaxEvents i),
       is_MaxGroups := dflt 300 (is_MaxGroups i), is_TopN := dflt 5 (is_TopN i), is_MaxTimeMS := dflt 1000 (is_MaxTimeMS i),
       is_Verbosity := (if is_Verbosity i \<in> {''queryPlanner'', ''executionStats''} then is_Verbosity i else ''executionStats''),
       is_SeverityMode := (if is_SeverityMode i \<in> {''high_and_low'', ''medium_only'', ''critical_only'', ''high_only''}
         then is_SeverityMode i else ''high_only''),
       is_EfficiencyMode := NormalizeExplainEfficiencyMode (is_EfficiencyMode i),
       is_Workers := dflt 1 (is_Workers i), is_Retries := at_least_0 (is_Retries i), is_BackoffMS := at_least_0 (is_BackoffMS i),
       is_TargetAvgMs := max 0 (is_TargetAvgMs i), is_TargetP95Ms := max 0 (is_TargetP95Ms i),
       is_TargetP99Ms := max 0 (is_TargetP99Ms i)\<rparr>"

definition default_connection :: "connection_params \<Rightarrow> connection_params" where
  "default_connection p =
     p\<lparr>cp_MaxPoolSize := dflt 200 (cp_MaxPoolSize p), cp_MinPoolSize := dflt 10 (cp_MinPoolSize p),
       cp_MaxIdleTime := dflt 30 (cp_MaxIdleTime p), cp_ConnectionTimeout := dflt 30 (cp_ConnectionTimeout p),
       cp_ServerSelectionTimeout := dflt 15 (cp_ServerSelectionTimeout p)\<rparr>"

definition default_tuning :: "tuning_settings \<Rightarrow> tuning_settings" where
  "default_tuning t =
     t\<lparr>ts_FindBatchSize := dflt 10 (ts_FindBatchSize t), ts_FindLimit := dflt 5 (ts_FindLimit t),
       ts_InsertBatchSize := dflt 10 (ts_InsertBatchSize t), ts_SeedBatchSize := dflt 1000 (ts_SeedBatchSize t),
       ts_SeedConcurrency := dflt 1 (ts_SeedConcurrency t), ts_InsertCacheSize := dflt 1000 (ts_InsertCacheSize t),
       ts_OpTimeoutMs := dflt 500 (ts_OpTimeoutMs t), ts_RetryAttempts := dflt 2 (ts_RetryAttempts t),
       ts_RetryBackoffMs := dflt 5 (ts_RetryBackoffMs t), ts_HitRate := min 100 (max 0 (ts_HitRate t)),
       ts_PoolMaxSize := dflt 10000 (ts_PoolMaxSize t), ts_PoolSample := at_least_0 (ts_PoolSample t)\<rparr>"

definition default_injector :: "raw_injector \<Rightarrow> raw_injector" where
  "default_injector r =
     r\<lparr>ri_Type := or_default ''mixed'' (ri_Type r), ri_DocumentSize := dflt 1024 (ri_DocumentSize r),
       ri_DBName := or_default ''plgm_injector'' (ri_DBName r),
       ri_CollectionName := or_default ''injector_data'' (ri_CollectionName r),
       ri_MaxDocs := dflt 10000000 (ri_MaxDocs r), ri_BatchSize := dflt 1000 (ri_BatchSize r)\<rparr>"

definition default_run :: "run_settings \<Rightarrow> run_settings" where
  "default_run r =
     r\<lparr>rs_CollectionsPath := or_default ''resources/collections'' (rs_CollectionsPath r),
       rs_QueriesPath := or_default ''resources/queries'' (rs_QueriesPath r),
       rs_ShardingMode := NormalizeShardingMode (rs_ShardingMode r),
       rs_MaxTransactionOps := dflt 3 (rs_MaxTransactionOps r), rs_ThinkTimeMs := at_least_0 (rs_ThinkTimeMs r),
       rs_ThinkJitterMs := at_least_0 (rs_ThinkJitterMs r)\<rparr>"

definition applyBaseDefaults :: "app_config \<Rightarrow> app_config" where
  "applyBaseDefaults c =
     c\<lparr>ac_run := default_run (ac_run c), ac_tune := default_tuning (ac_tune c), ac_conn := default_connection (ac_conn c),
       ac_web := (ac_web c)\<lparr>wu_Port := dflt 9999 (wu_Port (ac_web c))\<rparr>, ac_inj := default_injector (ac_inj c),
       ac_ins := default_insights (ac_ins c), ac_trend := NormalizeTrendSettings (ac_trend c),
       ac_rec := NormalizeWorkloadRecordReplay (ac_rec c)\<rparr>"

subsection \<open>Validation\<close>

datatype config_error =
    cfg_read string
  | cfg_yaml string
  | cfg_stat string
  | cfg_sharding
  | cfg_load lp_error
  | cfg_access ap_error
  | cfg_tls
  | rr_both
  | rr_injector
  | rr_path_empty string
  | rr_path_bad string
  | rr_backpressure string
  | rr_compression string
  | rr_max_bytes
  | rr_duration string
  | rr_no_replay_path
  | rr_mode string
  | det_seed
  | det_ops
  | det_replay
  | det_injector
  | det_profile string
  | det_fresh
  | det_duration string
  | out_checksums
  | out_replay_path_off
  | out_det_path_off
  | out_replay_off
  | out_det_off
  | out_replay_needs_path
  | out_det_needs_path
  | out_needs_target
  | out_path_bad string
  | out_path_recording string string
  | tg_mode string
  | tg_ops string
  | tg_reads_only
  | tg_fingerprint_off string
  | tg_fingerprint string
  | tg_count nat
  | tg_run
  | tg_recording
  | tg_label nat string
  | tg_label_twice string
  | tg_scheme string
  | tg_uri_bad string
  | tg_uri_twice string
  | tg_outcomes string


definition ValidateShardingConfig :: "app_config \<Rightarrow> config_error option" where
  "ValidateShardingConfig c =
     (if rs_ShardingMode (ac_run c) = ''force_on'' \<and> rs_ShardingSkip (ac_run c) then Some cfg_sharding else None)"

definition ValidateLoadProfile :: "app_config \<Rightarrow> config_error option" where
  "ValidateLoadProfile c =
     (let fb = (if rs_Concurrency (ac_run c) < 1 then 1 else rs_Concurrency (ac_run c)) in
      case compile_profile (ac_load c) fb of Inl e \<Rightarrow> Some (cfg_load e) | Inr _ \<Rightarrow> None)"

definition ValidateAccessPattern :: "app_config \<Rightarrow> config_error option" where
  "ValidateAccessPattern c = (case Compile (ac_access c) of Inl e \<Rightarrow> Some (cfg_access e) | Inr _ \<Rightarrow> None)"

definition ValidateConnectionParams :: "app_config \<Rightarrow> config_error option" where
  "ValidateConnectionParams c =
     (if (trim_space (cp_TLSCAFile (ac_conn c)) \<noteq> []) \<noteq> (trim_space (cp_TLSCertKeyFile (ac_conn c)) \<noteq> []) then Some cfg_tls else None)"

definition valid_path :: "string \<Rightarrow> bool" where
  "valid_path p \<longleftrightarrow> length p \<le> MaxWorkloadRecordPathBytes \<and> \<not> contains_any p line_breaks"

definition checkWorkloadPath :: "string \<Rightarrow> string \<Rightarrow> config_error option" where
  "checkWorkloadPath n p =
     (if trim_space p = [] then Some (rr_path_empty n) else if \<not> valid_path p then Some (rr_path_bad n) else None)"

text \<open>Whether a duration setting parses to a duration that is not positive.\<close>

definition not_positive :: "string \<Rightarrow> bool" where
  "not_positive s = (case ParseDuration (trim_space s) of Inr d \<Rightarrow> d \<le> 0 | Inl _ \<Rightarrow> False)"

definition ValidateWorkloadRecordReplay :: "app_config \<Rightarrow> config_error option" where
  "ValidateWorkloadRecordReplay c =
     (let r = ac_rec c in
      if \<not> rc_RecordEnabled r \<and> \<not> rc_ReplayEnabled r then None
      else if rc_RecordEnabled r \<and> rc_ReplayEnabled r then Some rr_both
      else if ri_Enabled (ac_inj c) then Some rr_injector
      else if rc_RecordEnabled r then
        (case checkWorkloadPath ''workload_record_path'' (rc_RecordPath r) of Some e \<Rightarrow> Some e
         | None \<Rightarrow>
             if lower_trim (rc_Backpressure r) \<notin> {[], ''fail'', ''block''} then Some (rr_backpressure (rc_Backpressure r))
             else if lower_trim (rc_Compression r) \<notin> {[], ''none'', ''zstd'', ''gzip''} then Some (rr_compression (rc_Compression r))
             else if rc_MaxBytes r < 0 then Some rr_max_bytes
             else if not_positive (rs_Duration (ac_run c)) then Some (rr_duration (rs_Duration (ac_run c)))
             else None)
      else if trim_space (rc_ReplayPath r) = [] then Some rr_no_replay_path
      else case checkWorkloadPath ''workload_replay_path'' (rc_ReplayPath r) of Some e \<Rightarrow> Some e
      | None \<Rightarrow> if lower_trim (rc_ReplayMode r) \<notin> {[], ''per_worker'', ''timed''} then Some (rr_mode (rc_ReplayMode r)) else None)"

definition changing_profile :: "app_config \<Rightarrow> bool" where
  "changing_profile c \<longleftrightarrow> lower_trim (lp_Kind (ac_load c)) \<notin> {[], ''fixed''}"

definition ValidateWorkloadDeterministic :: "app_config \<Rightarrow> config_error option" where
  "ValidateWorkloadDeterministic c =
     (let r = ac_rec c; u = ac_run c in
      if \<not> rc_Deterministic r then None
      else if rs_RandomSeed u = 0 then Some det_seed
      else if rc_OpsPerWorker r \<le> 0 then Some det_ops
      else if rc_ReplayEnabled r then Some det_replay
      else if ri_Enabled (ac_inj c) then Some det_injector
      else if changing_profile c then Some (det_profile (lp_Kind (ac_load c)))
      else if \<not> rs_DropCollections u \<or> rs_SkipSeed u then Some det_fresh
      else if not_positive (rs_Duration u) then Some (det_duration (rs_Duration u))
      else None)"

text \<open>The outcome file must not be one of the recording files; \<open>clean\<close> is \<open>filepath.Clean\<close>.\<close>

definition check_outcome_path :: "(string \<Rightarrow> string) \<Rightarrow> record_settings \<Rightarrow> string \<Rightarrow> string \<Rightarrow> config_error option" where
  "check_outcome_path clean r n p =
     (if p = [] then None
      else if \<not> valid_path p then Some (out_path_bad n)
      else if list_ex (\<lambda>q. q \<noteq> [] \<and> clean (trim_space q) = clean p) [rc_ReplayPath r, rc_RecordPath r] then Some (out_path_recording n p)
      else None)"

definition ValidateWorkloadOutcomes :: "(string \<Rightarrow> string) \<Rightarrow> app_config \<Rightarrow> config_error option" where
  "ValidateWorkloadOutcomes clean c =
     (let r = ac_rec c; rp = trim_space (rc_ReplayOutcomesPath r); dp = trim_space (rc_DetOutcomesPath r) in
      if \<not> rc_Outcomes r then
        (if rc_Checksums r then Some out_checksums
         else if rp \<noteq> [] then Some out_replay_path_off
         else if dp \<noteq> [] then Some out_det_path_off else None)
      else if rp \<noteq> [] \<and> \<not> rc_ReplayEnabled r then Some out_replay_off
      else if dp \<noteq> [] \<and> \<not> rc_Deterministic r then Some out_det_off
      else if rc_ReplayEnabled r \<and> rp = [] then Some out_replay_needs_path
      else if \<not> rc_ReplayEnabled r \<and> rc_Deterministic r \<and> dp = [] \<and> \<not> rc_RecordEnabled r then Some out_det_needs_path
      else if \<not> rc_ReplayEnabled r \<and> \<not> rc_Deterministic r \<and> \<not> rc_RecordEnabled r then Some out_needs_target
      else case check_outcome_path clean r ''workload_replay_outcomes_path'' rp of Some e \<Rightarrow> Some e
      | None \<Rightarrow> check_outcome_path clean r ''workload_deterministic_outcomes_path'' dp)"

subsection \<open>Targets\<close>

definition TargetPath :: "string \<Rightarrow> string \<Rightarrow> string" where
  "TargetPath path label =
     (if path = [] then []
      else let base = rev (takeWhile (\<lambda>c. c \<noteq> CHR ''/'') (rev path)); dir = take (length path - length base) path;
               ext = (if CHR ''.'' \<in> set base then rev (takeWhile (\<lambda>c. c \<noteq> CHR ''.'') (rev base)) else []);
               e = (if CHR ''.'' \<in> set base then CHR ''.'' # ext else [])
        in take (length path - length e) path @ ''.'' @ label @ e)"

definition DataFingerprintMode :: "app_config \<Rightarrow> string" where
  "DataFingerprintMode c = or_default ''off'' (lower_trim (rc_Fingerprint (ac_rec c)))"

definition ReplayReadsOnly :: "app_config \<Rightarrow> bool" where
  "ReplayReadsOnly c \<longleftrightarrow> rc_ReplayEnabled (ac_rec c) \<and> lower_trim (rc_ReplayOps (ac_rec c)) = ''reads_only''"

definition ConcurrentTargets :: "app_config \<Rightarrow> bool" where
  "ConcurrentTargets c \<longleftrightarrow> lower_trim (rc_TargetsMode (ac_rec c)) = ''concurrent''"

definition is_alnum :: "char \<Rightarrow> bool" where
  "is_alnum c \<longleftrightarrow> (let n = byte_of c in 48 \<le> n \<and> n \<le> 57 \<or> 65 \<le> n \<and> n \<le> 90 \<or> 97 \<le> n \<and> n \<le> 122)"

text \<open>The pattern \<open>^[A-Za-z0-9][A-Za-z0-9._-]{0,31}$\<close>.\<close>

definition valid_label :: "string \<Rightarrow> bool" where
  "valid_label l \<longleftrightarrow> l \<noteq> [] \<and> length l \<le> 32 \<and> is_alnum (hd l)
     \<and> list_all (\<lambda>c. is_alnum c \<or> c = CHR ''.'' \<or> c = CHR ''_'' \<or> c = CHR ''-'') l"

primrec check_targets :: "replay_target list \<Rightarrow> nat \<Rightarrow> string set \<Rightarrow> string set \<Rightarrow> config_error option" where
  "check_targets [] i labels uris = None"
| "check_targets (t # ts) i labels uris =
     (let l = trim_space (rt_Label t); u = trim_space (rt_URI t) in
      if \<not> valid_label l then Some (tg_label (i + 1) l)
      else if to_lower l \<in> labels then Some (tg_label_twice l)
      else if \<not> has_prefix ''mongodb://'' u \<and> \<not> has_prefix ''mongodb+srv://'' u then Some (tg_scheme l)
      else if contains_any u line_breaks then Some (tg_uri_bad l)
      else if u \<in> uris then Some (tg_uri_twice l)
      else check_targets ts (i + 1) (insert (to_lower l) labels) (insert u uris))"

definition target_outcomes :: "record_settings \<Rightarrow> string \<times> string" where
  "target_outcomes r =
     (if rc_ReplayEnabled r then (''workload_replay_outcomes_path'', trim_space (rc_ReplayOutcomesPath r))
      else (''workload_deterministic_outcomes_path'', trim_space (rc_DetOutcomesPath r)))"

definition ValidateWorkloadTargets :: "app_config \<Rightarrow> config_error option" where
  "ValidateWorkloadTargets c =
     (let r = ac_rec c; m = DataFingerprintMode c; ops = lower_trim (rc_ReplayOps r); n = length (rc_Targets r) in
      if lower_trim (rc_TargetsMode r) \<notin> {[], ''sequential'', ''concurrent''} then Some (tg_mode (rc_TargetsMode r))
      else if ops \<notin> {[], ''all'', ''reads_only''} then Some (tg_ops (rc_ReplayOps r))
      else if ops = ''reads_only'' \<and> \<not> rc_ReplayEnabled r then Some tg_reads_only
      else if m \<notin> {''off'', ''counts'', ''dbhash''} then Some (tg_fingerprint (rc_Fingerprint r))
      else if m \<noteq> ''off'' \<and> \<not> rc_RecordEnabled r \<and> \<not> rc_ReplayEnabled r then Some (tg_fingerprint_off m)
      else if n = 0 then None
      else if n < 2 \<or> n > 8 then Some (tg_count n)
      else if \<not> rc_ReplayEnabled r \<and> \<not> rc_Deterministic r then Some tg_run
      else if rc_RecordEnabled r then Some tg_recording
      else case check_targets (rc_Targets r) 0 {} {} of Some e \<Rightarrow> Some e
      | None \<Rightarrow> if \<not> rc_Outcomes r \<or> snd (target_outcomes r) = [] then Some (tg_outcomes (fst (target_outcomes r))) else None)"

subsection \<open>Loading\<close>

definition first_error :: "config_error option list \<Rightarrow> config_error option" where
  "first_error es = (case filter (\<lambda>e. e \<noteq> None) es of [] \<Rightarrow> None | e # _ \<Rightarrow> e)"

text \<open>The configuration file: missing, unreadable, or what \<open>yaml.Unmarshal\<close> makes of the initial configuration.\<close>

datatype config_file = file_missing | file_error string | file_unreadable string | file_yaml "string + app_config"

definition validate_config :: "(string \<Rightarrow> string) \<Rightarrow> app_config \<Rightarrow> config_error option" where
  "validate_config clean c = first_error
     [ValidateShardingConfig c, ValidateLoadProfile c, ValidateAccessPattern c, ValidateConnectionParams c,
      ValidateWorkloadRecordReplay c, ValidateWorkloadDeterministic c, ValidateWorkloadOutcomes clean c,
      ValidateWorkloadTargets c]"

text \<open>Defaults, validation and the mix, after the environment.\<close>

definition finish_config :: "(string \<Rightarrow> string) \<Rightarrow> bool \<Rightarrow> app_config \<times> (pct \<Rightarrow> bool) \<Rightarrow> config_error + app_config" where
  "finish_config clean ui_defaults loaded =
     (let c = applyBaseDefaults (if ui_defaults then applyUIDefaults (fst loaded) else fst loaded) in
      case validate_config clean c of Some e \<Rightarrow> Inl e
      | None \<Rightarrow> Inr (c\<lparr>ac_mix := mix_of (normalizePercentages (rs_UseTransactions (ac_run c)) (snd loaded)
            (\<lambda>k. mix_get k (ac_mix c)))\<rparr>))"

definition LoadAppConfig ::
    "(string \<Rightarrow> rat option) \<Rightarrow> (string \<Rightarrow> string) \<Rightarrow> app_config \<Rightarrow> config_file \<Rightarrow> environment \<Rightarrow> bool
      \<Rightarrow> config_error + app_config" where
  "LoadAppConfig pfloat clean start file env isWebUI =
     (case file of
        file_missing \<Rightarrow> finish_config clean isWebUI (applyEnvOverrides pfloat env start)
      | file_error m \<Rightarrow> Inl (cfg_stat m)
      | file_unreadable m \<Rightarrow> Inl (cfg_read m)
      | file_yaml (Inl m) \<Rightarrow> Inl (cfg_yaml m)
      | file_yaml (Inr c) \<Rightarrow> finish_config clean False (applyEnvOverrides pfloat env c))"

end
