(* ===== verification/ConfigUse.thy ===== *)
theory ConfigUse
  imports Config
begin

text \<open>
  What a loaded configuration guarantees, and the questions the program asks it: which connections need separate
  credentials and which settings a replay ignores (\<open>internal/config/config.go\<close>, \<open>workload_record.go\<close>). \<open>parse_uri\<close> is
  \<open>net/url\<close>'s parser: the username of the URI and whether it has a password, or \<open>None\<close> for an error or no user.
\<close>

subsection \<open>Credentials\<close>

type_synonym uri_parser = "string \<Rightarrow> (string \<times> bool) option"

definition URICredentials :: "uri_parser \<Rightarrow> string \<Rightarrow> string \<times> bool" where
  "URICredentials parse_uri uri =
     (case parse_uri (trim_space uri) of None \<Rightarrow> ([], False)
      | Some (user, pw) \<Rightarrow> if user = [] then ([], False) else (user, pw))"

definition ConnectionURIs :: "app_config \<Rightarrow> string list" where
  "ConnectionURIs c = (if rc_Targets (ac_rec c) = [] then [rs_URI (ac_run c)] else map rt_URI (rc_Targets (ac_rec c)))"

definition SeparateCredentialsNeeded :: "uri_parser \<Rightarrow> app_config \<Rightarrow> bool \<times> bool" where
  "SeparateCredentialsNeeded parse_uri c =
     (let creds = map (URICredentials parse_uri) (ConnectionURIs c)
      in (list_ex (\<lambda>(u, _). u = []) creds, list_ex (\<lambda>(_, pw). \<not> pw) creds))"

definition overridden :: "uri_parser \<Rightarrow> string \<Rightarrow> string \<Rightarrow> string \<Rightarrow> bool" where
  "overridden parse_uri sepUser sepPassword uri =
     (case URICredentials parse_uri uri of (user, pw) \<Rightarrow>
        user \<noteq> [] \<and> pw \<and> \<not> (sepPassword = [] \<and> sepUser = user))"

definition CredentialsOverriddenByURI :: "uri_parser \<Rightarrow> app_config \<Rightarrow> string list" where
  "CredentialsOverriddenByURI parse_uri c =
     (let su = cp_Username (ac_conn c); sp = cp_Password (ac_conn c); ts = rc_Targets (ac_rec c) in
      if su = [] \<and> sp = [] then []
      else if ts = [] then (if overridden parse_uri su sp (rs_URI (ac_run c)) then [''MongoDB URI''] else [])
      else map rt_Label (filter (\<lambda>t. overridden parse_uri su sp (rt_URI t)) ts))"

subsection \<open>Replays\<close>

datatype replay_warning = ignored_load_profile string | ignored_access_pattern string | ignored_think_time | ignored_iterations int

definition WorkloadReplayWarnings :: "app_config \<Rightarrow> replay_warning list" where
  "WorkloadReplayWarnings c =
     (if \<not> rc_ReplayEnabled (ac_rec c) then []
      else (let k = lp_Kind (ac_load c); a = Kind (ac_access c); r = ac_run c in
        (if lower_trim k \<notin> {[], ''fixed''} then [ignored_load_profile k] else []) @
        (if lower_trim a \<notin> {[], ''uniform''} then [ignored_access_pattern a] else []) @
        (if rs_ThinkTimeMs r > 0 \<or> rs_ThinkJitterMs r > 0 then [ignored_think_time] else []) @
        (if rs_Iterations r > 1 then [ignored_iterations (rs_Iterations r)] else [])))"

definition RunIterations :: "app_config \<Rightarrow> int" where
  "RunIterations c = (if rs_Iterations (ac_run c) < 1 then 1 else if rc_ReplayEnabled (ac_rec c) then 1 else rs_Iterations (ac_run c))"

subsection \<open>Loaded configurations\<close>

lemma mix_get_of [simp]: "mix_get k (mix_of p) = p k"
  by (cases k) (simp_all add: mix_of_def)

lemma first_error_None: "first_error es = None \<longleftrightarrow> list_all (\<lambda>e. e = None) es"
  by (induction es) (auto simp: first_error_def)

lemma mix_frame:
  "ac_run (c\<lparr>ac_mix := m\<rparr>) = ac_run c" "ac_conn (c\<lparr>ac_mix := m\<rparr>) = ac_conn c" "ac_inj (c\<lparr>ac_mix := m\<rparr>) = ac_inj c"
  "ac_rec (c\<lparr>ac_mix := m\<rparr>) = ac_rec c" "ac_load (c\<lparr>ac_mix := m\<rparr>) = ac_load c" "ac_access (c\<lparr>ac_mix := m\<rparr>) = ac_access c"
  by simp_all

lemma validators_mix:
  "ValidateShardingConfig (c\<lparr>ac_mix := m\<rparr>) = ValidateShardingConfig c"
  "ValidateLoadProfile (c\<lparr>ac_mix := m\<rparr>) = ValidateLoadProfile c"
  "ValidateAccessPattern (c\<lparr>ac_mix := m\<rparr>) = ValidateAccessPattern c"
  "ValidateConnectionParams (c\<lparr>ac_mix := m\<rparr>) = ValidateConnectionParams c"
  "ValidateWorkloadRecordReplay (c\<lparr>ac_mix := m\<rparr>) = ValidateWorkloadRecordReplay c"
  "ValidateWorkloadDeterministic (c\<lparr>ac_mix := m\<rparr>) = ValidateWorkloadDeterministic c"
  "ValidateWorkloadOutcomes clean (c\<lparr>ac_mix := m\<rparr>) = ValidateWorkloadOutcomes clean c"
  "ValidateWorkloadTargets (c\<lparr>ac_mix := m\<rparr>) = ValidateWorkloadTargets c"
  by (simp_all only: ValidateShardingConfig_def ValidateLoadProfile_def ValidateAccessPattern_def changing_profile_def
      ValidateConnectionParams_def ValidateWorkloadRecordReplay_def ValidateWorkloadDeterministic_def
      ValidateWorkloadOutcomes_def ValidateWorkloadTargets_def DataFingerprintMode_def mix_frame)

lemma validate_config_mix: "validate_config clean (c\<lparr>ac_mix := m\<rparr>) = validate_config clean c"
  by (simp only: validate_config_def validators_mix)

lemma finish_config_Inr:
  assumes "finish_config clean ui l = Inr c"
  obtains c1 where "validate_config clean (applyBaseDefaults c1) = None"
    "c = (applyBaseDefaults c1)\<lparr>ac_mix := mix_of (normalizePercentages (rs_UseTransactions (ac_run (applyBaseDefaults c1)))
       (snd l) (\<lambda>k. mix_get k (ac_mix (applyBaseDefaults c1))))\<rparr>"
    "ui \<longrightarrow> c1 = applyUIDefaults (fst l)"
  using assms unfolding finish_config_def Let_def by (cases ui) (auto split: option.splits)

lemma LoadAppConfig_finished:
  "LoadAppConfig pfloat clean start file env ui = Inr c \<Longrightarrow> \<exists>d l. finish_config clean d l = Inr c"
  unfolding LoadAppConfig_def by (auto simp del: split_paired_Ex split: config_file.splits sum.splits)

lemma validate_config_record_replay:
  "validate_config clean c = None \<Longrightarrow> \<not> (rc_RecordEnabled (ac_rec c) \<and> rc_ReplayEnabled (ac_rec c))"
  by (auto simp: validate_config_def first_error_None ValidateWorkloadRecordReplay_def Let_def split: if_splits)

text \<open>A configuration that loads has passed every validation, never records and replays at once, and its operation mix
adds up to 100.\<close>

theorem config_loaded:
  assumes "LoadAppConfig pfloat clean start file env ui = Inr c"
  shows "validate_config clean c = None \<and> \<not> (rc_RecordEnabled (ac_rec c) \<and> rc_ReplayEnabled (ac_rec c)) \<and>
    psum (\<lambda>k. mix_get k (ac_mix c)) = 100"
proof -
  obtain d l where "finish_config clean d l = Inr c" using LoadAppConfig_finished [OF assms] by blast
  then obtain c1 m where ok: "validate_config clean (applyBaseDefaults c1) = None"
      and c: "c = (applyBaseDefaults c1)\<lparr>ac_mix := mix_of m\<rparr>" and m: "psum m = 100"
    by (rule finish_config_Inr) (blast intro: psum_normalized)
  have "validate_config clean c = None" using ok unfolding c by (simp only: validate_config_mix)
  moreover have "psum (\<lambda>k. mix_get k (ac_mix c)) = 100" using m by (simp add: c)
  ultimately show ?thesis using validate_config_record_replay by blast
qed

text \<open>Without a configuration file the web interface's defaults replace what the environment set.\<close>

theorem ui_defaults_hide_environment:
  assumes "LoadAppConfig pfloat clean start file_missing env True = Inr c"
  shows "rs_URI (ac_run c) = ''mongodb://localhost:27017'' \<and> rs_Concurrency (ac_run c) = 4"
proof -
  have "finish_config clean True (applyEnvOverrides pfloat env start) = Inr c" using assms by (simp add: LoadAppConfig_def)
  then show ?thesis
    by (rule finish_config_Inr) (simp add: applyBaseDefaults_def default_run_def applyUIDefaults_def)
qed

end
