(* ===== verification/LoadGate.thy ===== *)
theory LoadGate
  imports LoadProfile
begin

text \<open>
  The gate of the load profile (\<open>independentWorker\<close> and the controller of \<open>runContinuousWorkload\<close> in
  \<open>internal/mongo/runner.go\<close>): the controller publishes the target of the schedule, every worker compares it with its
  own number before each operation and parks or resumes, and the shared gauge counts the workers that run. The
  accesses of the shared values are atomic; a step below is a worker's whole check, since only the gauge is shared and
  only by additions.
\<close>

datatype worker_state = Parked | Active | Gone

record gate =
  gt_target :: int
  gt_active :: int                       \<comment> \<open>\<open>activeCount\<close>\<close>
  gt_worker :: "nat \<Rightarrow> worker_state"   \<comment> \<open>workers 1 to n\<close>

text \<open>The size of the worker pool: \<open>MaxWorkers\<close>, at least 1.\<close>

definition pool_workers :: "schedule \<Rightarrow> nat" where
  "pool_workers s = nat (max 1 (sd_peak s))"

definition gate_init :: "(rat \<Rightarrow> rat) \<Rightarrow> schedule \<Rightarrow> gate" where
  "gate_init sn s = \<lparr>gt_target = TargetAt sn s 0, gt_active = 0, gt_worker = (\<lambda>_. Parked)\<rparr>"

definition gate_publish :: "(rat \<Rightarrow> rat) \<Rightarrow> schedule \<Rightarrow> int \<Rightarrow> gate \<Rightarrow> gate" where
  "gate_publish sn s t g = g\<lparr>gt_target := TargetAt sn s t\<rparr>"

definition gate_check :: "nat \<Rightarrow> gate \<Rightarrow> gate" where
  "gate_check w g =
     (if gt_worker g w = Gone then g
      else if int w \<le> gt_target g then
        (if gt_worker g w = Parked then g\<lparr>gt_active := gt_active g + 1, gt_worker := (gt_worker g)(w := Active)\<rparr> else g)
      else (if gt_worker g w = Active then g\<lparr>gt_active := gt_active g - 1, gt_worker := (gt_worker g)(w := Parked)\<rparr> else g))"

text \<open>The deferred release of a worker that returns.\<close>

definition gate_exit :: "nat \<Rightarrow> gate \<Rightarrow> gate" where
  "gate_exit w g =
     (if gt_worker g w = Active then g\<lparr>gt_active := gt_active g - 1, gt_worker := (gt_worker g)(w := Gone)\<rparr>
      else g\<lparr>gt_worker := (gt_worker g)(w := Gone)\<rparr>)"

inductive gate_step :: "(rat \<Rightarrow> rat) \<Rightarrow> schedule \<Rightarrow> gate \<Rightarrow> gate \<Rightarrow> bool" for sn s where
  publish: "gate_step sn s g (gate_publish sn s t g)"
| check: "1 \<le> w \<Longrightarrow> w \<le> pool_workers s \<Longrightarrow> gate_step sn s g (gate_check w g)"
| leave: "1 \<le> w \<Longrightarrow> w \<le> pool_workers s \<Longrightarrow> gate_step sn s g (gate_exit w g)"

inductive gate_reach :: "(rat \<Rightarrow> rat) \<Rightarrow> schedule \<Rightarrow> gate \<Rightarrow> bool" for sn s where
  start: "gate_reach sn s (gate_init sn s)"
| step: "gate_reach sn s g \<Longrightarrow> gate_step sn s g g' \<Longrightarrow> gate_reach sn s g'"

subsection \<open>The gauge\<close>

definition running :: "schedule \<Rightarrow> gate \<Rightarrow> nat set" where
  "running s g = {w. 1 \<le> w \<and> w \<le> pool_workers s \<and> gt_worker g w = Active}"

lemma finite_running [simp]: "finite (running s g)"
  by (rule finite_subset [of _ "{..pool_workers s}"]) (auto simp: running_def)

lemma running_simps [simp]:
  "running s (gate_publish sn s' t g) = running s g"
  "running s (g\<lparr>gt_active := a\<rparr>) = running s g"
  by (simp_all add: running_def gate_publish_def)

lemma running_on:
  "1 \<le> w \<Longrightarrow> w \<le> pool_workers s \<Longrightarrow> running s (g\<lparr>gt_active := a, gt_worker := (gt_worker g)(w := Active)\<rparr>) = insert w (running s g)"
  by (auto simp: running_def)

lemma running_off:
  "x \<noteq> Active \<Longrightarrow> running s (g\<lparr>gt_active := a, gt_worker := (gt_worker g)(w := x)\<rparr>) = running s g - {w}"
  "x \<noteq> Active \<Longrightarrow> running s (g\<lparr>gt_worker := (gt_worker g)(w := x)\<rparr>) = running s g - {w}"
  by (auto simp: running_def)

definition counted :: "schedule \<Rightarrow> gate \<Rightarrow> bool" where
  "counted s g \<longleftrightarrow> gt_active g = int (card (running s g))"

lemma counted_off:
  assumes "counted s g" "1 \<le> w" "w \<le> pool_workers s" "gt_worker g w = Active" "x \<noteq> Active"
  shows "counted s (g\<lparr>gt_active := gt_active g - 1, gt_worker := (gt_worker g)(w := x)\<rparr>)"
proof -
  have "w \<in> running s g" using assms by (simp add: running_def)
  then have "card (running s g) = Suc (card (running s g - {w}))" by (intro card.remove [of _ w]) simp_all
  then show ?thesis using assms by (simp add: counted_def running_off)
qed

lemma counted_check:
  assumes "counted s g" "1 \<le> w" "w \<le> pool_workers s"
  shows "counted s (gate_check w g)"
proof (cases "gt_worker g w = Parked \<and> int w \<le> gt_target g")
  case True
  then have "w \<notin> running s g" by (simp add: running_def)
  then show ?thesis using True assms by (simp add: gate_check_def counted_def running_on)
next
  case False
  then show ?thesis using assms counted_off [OF assms, of Parked] by (auto simp: gate_check_def)
qed

lemma counted_reach: "gate_reach sn s g \<Longrightarrow> counted s g"
proof (induction rule: gate_reach.induct)
  case start
  show ?case by (simp add: counted_def gate_init_def running_def)
next
  case (step g g')
  from step.hyps(2) step.IH show ?case
  proof cases
    case (publish t)
    then show ?thesis using step.IH by (simp add: counted_def) (simp add: gate_publish_def)
  next
    case (check w)
    then show ?thesis using step.IH by (simp add: counted_check)
  next
    case (leave w)
    show ?thesis
    proof (cases "gt_worker g w = Active")
      case True
      then show ?thesis using leave step.IH counted_off [of s g w Gone] by (simp add: gate_exit_def)
    next
      case False
      then have "running s g - {w} = running s g" by (auto simp: running_def)
      then show ?thesis using False leave step.IH by (simp add: gate_exit_def counted_def running_off)
    qed
  qed
qed

subsection \<open>The target is reached\<close>

lemma check_target [simp]: "gt_target (gate_check w g) = gt_target g"
  by (simp add: gate_check_def)

lemma check_worker: "gt_worker (gate_check w g) v =
    (if v = w \<and> gt_worker g w \<noteq> Gone then (if int w \<le> gt_target g then Active else Parked) else gt_worker g v)"
  by (cases "gt_worker g w") (auto simp: gate_check_def)

lemma checks_target [simp]: "gt_target (fold gate_check ws g) = gt_target g"
  by (induction ws arbitrary: g) simp_all

lemma checks_worker: "gt_worker (fold gate_check ws g) v =
    (if v \<in> set ws \<and> gt_worker g v \<noteq> Gone then (if int v \<le> gt_target g then Active else Parked) else gt_worker g v)"
  by (induction ws arbitrary: g) (auto simp: check_worker)

lemma checks_counted:
  "counted s g \<Longrightarrow> (\<And>w. w \<in> set ws \<Longrightarrow> 1 \<le> w \<and> w \<le> pool_workers s) \<Longrightarrow> counted s (fold gate_check ws g)"
  by (induction ws arbitrary: g) (simp_all add: counted_check)

text \<open>C21: The gauge always counts the running workers; and once the target of a moment is published and every worker has
checked it, in any order, exactly that many workers run.\<close>

theorem load_follows_profile:
  assumes "gate_reach sn s g" and "set ws = {1..pool_workers s}" and "\<And>w. gt_worker g w \<noteq> Gone" and "1 \<le> sd_peak s"
  shows "gt_active g = int (card (running s g)) \<and> gt_active (fold gate_check ws (gate_publish sn s t g)) = TargetAt sn s t"
proof -
  define g1 where "g1 = gate_publish sn s t g"
  have c: "counted s g" using assms(1) by (rule counted_reach)
  then have c1: "counted s g1" by (simp add: g1_def counted_def) (simp add: gate_publish_def)
  have tgt: "gt_target g1 = TargetAt sn s t" and live: "gt_worker g1 w \<noteq> Gone" for w
    using assms(3) by (simp_all add: g1_def gate_publish_def)
  have "counted s (fold gate_check ws g1)" using c1 assms(2) by (intro checks_counted) auto
  moreover have "running s (fold gate_check ws g1) = {1..nat (TargetAt sn s t)}"
  proof -
    have r: "TargetAt sn s t \<le> int (pool_workers s)" using TargetAt_range [of s sn t] assms(4) by (simp add: pool_workers_def)
    have "running s (fold gate_check ws g1) = {w. 1 \<le> w \<and> w \<le> pool_workers s \<and> int w \<le> TargetAt sn s t}"
    proof -
      have "gt_worker (fold gate_check ws g1) w = Active \<longleftrightarrow> int w \<le> TargetAt sn s t"
        if "1 \<le> w" "w \<le> pool_workers s" for w
        using that assms(2) live [of w] by (simp add: checks_worker tgt)
      then show ?thesis unfolding running_def by blast
    qed
    also have "\<dots> = {1..nat (TargetAt sn s t)}" using r by (auto simp: le_nat_iff)
    finally show ?thesis .
  qed
  ultimately have "gt_active (fold gate_check ws g1) = TargetAt sn s t"
    using TargetAt_range [of s sn t] assms(4) by (simp add: counted_def)
  then show ?thesis using c by (simp add: counted_def g1_def)
qed

lemma load_follows_profile_witness:
  "\<exists>s. compile_profile sample_ramp 4 = Inr s \<and> sd_peak s = 10 \<and>
    gt_active (fold gate_check (rev [1..<11]) (gate_publish (\<lambda>_. 0) s 2000000000 (gate_init (\<lambda>_. 0) s))) = TargetAt (\<lambda>_. 0) s 2000000000"
proof -
  obtain s where s: "compile_profile sample_ramp 4 = Inr s" and peak: "sd_peak s = 10" using sample_ramp_compiles by blast
  have "pool_workers s = 10" by (simp add: pool_workers_def peak)
  then have ws: "set (rev [1..<11]) = {1..pool_workers s}" by auto
  show ?thesis
    using load_follows_profile [OF gate_reach.start ws] s peak by (auto simp: gate_init_def)
qed

end
