(* ===== verification/Rand.thy ===== *)
theory Rand
  imports AccessPattern
begin

text \<open>
  The rest of \<open>math/rand\<close> the generators use, beside the draws of \<open>rng_ops\<close>: 63- and 64-bit values, bounded 63-bit
  values, permutations and shuffles. \<open>rand_source\<close> is what a client relies on; it is interpreted on the SplitMix64
  source of deterministic runs, with the standard library's algorithms.
\<close>

record 'g rand_ops =
  rd_base :: "'g rng_ops"
  rd_Int63 :: "'g \<Rightarrow> int \<times> 'g"
  rd_Uint64 :: "'g \<Rightarrow> u64 \<times> 'g"
  rd_Int63n :: "int \<Rightarrow> 'g \<Rightarrow> (int \<times> 'g) option"
  rd_int31n :: "int \<Rightarrow> 'g \<Rightarrow> (int \<times> 'g) option"   \<comment> \<open>the draw of \<open>Shuffle\<close>\<close>

abbreviation rd_Intn :: "'g rand_ops \<Rightarrow> int \<Rightarrow> 'g \<Rightarrow> (int \<times> 'g) option" where
  "rd_Intn D \<equiv> rng_Intn (rd_base D)"

locale rand_source = rng_source "rd_base D" for D :: "'g rand_ops" +
  assumes Int63_law: "0 \<le> fst (rd_Int63 D g) \<and> fst (rd_Int63 D g) < 2 ^ 63"
    and Int63n_law: "0 < n \<Longrightarrow> n < 2 ^ 63 \<Longrightarrow> \<exists>v g'. rd_Int63n D n g = Some (v, g') \<and> 0 \<le> v \<and> v < n"
    and int31n_law: "0 < n \<Longrightarrow> n < 2 ^ 31 \<Longrightarrow> \<exists>v g'. rd_int31n D n g = Some (v, g') \<and> 0 \<le> v \<and> v < n"

subsection \<open>The draw of a shuffle\<close>

text \<open>A loop that draws until the value is accepted.\<close>

partial_function (option) draw_until :: "(u64 \<Rightarrow> 'a \<times> u64) \<Rightarrow> ('a \<Rightarrow> bool) \<Rightarrow> u64 \<Rightarrow> ('a \<times> u64) option" where
  "draw_until nx ok s = (let (v, s') = nx s in if ok v then Some (v, s') else draw_until nx ok s')"

lemma reaches: "\<exists>k. s + of_nat k * golden_gamma = t"
proof -
  obtain k where "(s - t) + of_nat k * golden_gamma = 0" using reaches_zero by blast
  then show ?thesis by (intro exI [of _ k]) (simp add: algebra_simps)
qed

lemma draw_until_from:
  assumes step: "\<And>s. snd (nx s) = s + golden_gamma" and hit: "ok (fst (nx t))"
  shows "s + of_nat k * golden_gamma = t \<Longrightarrow> \<exists>v s'. draw_until nx ok s = Some (v, s') \<and> ok v"
proof (induction k arbitrary: s)
  case 0
  then show ?case using hit by (subst draw_until.simps) (auto split: prod.split)
next
  case (Suc k)
  have "snd (nx s) + of_nat k * golden_gamma = t" using Suc.prems by (simp add: step algebra_simps)
  from Suc.IH [OF this] show ?case by (subst draw_until.simps) (auto split: prod.splits)
qed

lemma draw_until_returns:
  assumes "\<And>s. snd (nx s) = s + golden_gamma" and "ok (fst (nx t))"
  obtains v s' where "draw_until nx ok s = Some (v, s')" "ok v"
  using draw_until_from [of nx ok t, OF assms] reaches [of s t] by blast

definition Uint32 :: "u64 \<Rightarrow> int \<times> u64" where
  "Uint32 s = (let (v, s') = Uint64 s in (uint (drop_bit 32 v), s'))"

text \<open>\<open>int31n\<close>: the high half of \<open>v * n\<close>, where the low half is not below \<open>-n mod n\<close>.\<close>

definition int31n :: "int \<Rightarrow> u64 \<Rightarrow> (int \<times> u64) option" where
  "int31n n s = map_option (\<lambda>(v, s'). (v * n div 2 ^ 32, s'))
     (draw_until Uint32 (\<lambda>v. 0 \<le> v \<and> v < 2 ^ 32 \<and> \<not> v * n mod 2 ^ 32 < (2 ^ 32 - n) mod n) s)"

lemma mix64_surj: "\<exists>z. mix64 z = y"
  using finite_UNIV_inj_surj [of mix64] mix64_inj by (metis (no_types) finite inj_def surjD)

lemma int31n_returns:
  assumes "0 < n" "n < 2 ^ 31"
  shows "\<exists>v s'. int31n n s = Some (v, s') \<and> 0 \<le> v \<and> v < n"
proof -
  let ?ok = "\<lambda>v. 0 \<le> v \<and> v < 2 ^ 32 \<and> \<not> v * n mod 2 ^ 32 < (2 ^ 32 - n) mod n"
  obtain z where z: "mix64 z = - 1" using mix64_surj by blast
  define t where "t = z - golden_gamma"
  have "fst (Uint32 t) = 2 ^ 32 - 1" by (simp add: Uint32_def Uint64_def t_def Let_def z mask_eq_exp_minus_1)
  moreover have "(2 ^ 32 - 1) * n mod 2 ^ 32 = 2 ^ 32 - n"
  proof -
    have "(2 ^ 32 - 1) * n = (2 ^ 32 - n) + (n - 1) * 2 ^ 32" by (simp add: algebra_simps)
    moreover have "(2 ^ 32 - n) mod 2 ^ 32 = 2 ^ 32 - n" using assms by (intro mod_pos_pos_trivial) auto
    ultimately show ?thesis by (simp only: mod_mult_self1)
  qed
  moreover have "n \<le> 2 ^ 32 - n" using assms by simp
  ultimately have hit: "?ok (fst (Uint32 t))"
    by simp (use pos_mod_bound [OF assms(1), of 4294967296] in linarith)
  have step: "snd (Uint32 s) = s + golden_gamma" for s by (simp add: Uint32_def Uint64_def Let_def)
  obtain v s' where v: "draw_until Uint32 ?ok s = Some (v, s')" "?ok v"
    by (rule draw_until_returns [of Uint32 ?ok t s, OF step hit])
  have "v * n < 2 ^ 32 * n" using v(2) assms by simp
  then have "v * n div 2 ^ 32 < n" by (simp add: div_less_iff_less_mult mult.commute)
  moreover have "0 \<le> v * n div 2 ^ 32" using v(2) assms by (intro pos_imp_zdiv_nonneg_iff [THEN iffD2]) auto
  ultimately show ?thesis using v assms by (auto simp: int31n_def)
qed

definition splitmix_rand :: "u64 rand_ops" where
  "splitmix_rand = \<lparr>rd_base = splitmix_rng, rd_Int63 = Int63, rd_Uint64 = Uint64, rd_Int63n = Int63n, rd_int31n = int31n\<rparr>"

interpretation smr: rand_source splitmix_rand
  by unfold_locales
     (use sm.Intn_law sm.Float64_law Int63_range Int63n_returns int31n_returns in \<open>auto simp: splitmix_rand_def\<close>)

subsection \<open>Permutations\<close>

text \<open>\<open>Perm\<close>: the inside-out shuffle, \<open>m[i] = m[j]; m[j] = i\<close>.\<close>

primrec perm_from :: "'g rand_ops \<Rightarrow> nat \<Rightarrow> nat list \<Rightarrow> 'g \<Rightarrow> (nat list \<times> 'g) option" where
  "perm_from D 0 m g = Some (m, g)"
| "perm_from D (Suc k) m g =
     Option.bind (rd_Intn D (int (Suc (length m))) g)
       (\<lambda>(j, g'). perm_from D k (let m' = m @ [(m @ [0]) ! nat j] in m'[nat j := length m]) g')"

definition Perm :: "'g rand_ops \<Rightarrow> nat \<Rightarrow> 'g \<Rightarrow> (nat list \<times> 'g) option" where
  "Perm D n g = perm_from D n [] g"

text \<open>\<open>Shuffle\<close> of a list of fewer than \<open>2 ^ 31\<close> elements: swap each element, from the last, with one not after it.\<close>

definition swap_at :: "nat \<Rightarrow> nat \<Rightarrow> 'a list \<Rightarrow> 'a list" where
  "swap_at i j xs = xs[i := xs ! j, j := xs ! i]"

primrec shuffle_from :: "'g rand_ops \<Rightarrow> nat \<Rightarrow> 'a list \<Rightarrow> 'g \<Rightarrow> ('a list \<times> 'g) option" where
  "shuffle_from D 0 xs g = Some (xs, g)"
| "shuffle_from D (Suc i) xs g =
     Option.bind (rd_int31n D (int (Suc i) + 1) g) (\<lambda>(j, g'). shuffle_from D i (swap_at (Suc i) (nat j) xs) g')"

definition Shuffle :: "'g rand_ops \<Rightarrow> 'a list \<Rightarrow> 'g \<Rightarrow> ('a list \<times> 'g) option" where
  "Shuffle D xs g = (if xs = [] then Some (xs, g) else shuffle_from D (length xs - 1) xs g)"

lemma mset_swap_at: "i < length xs \<Longrightarrow> j < length xs \<Longrightarrow> mset (swap_at i j xs) = mset xs"
  unfolding swap_at_def by (rule mset_swap)

lemma length_swap_at [simp]: "length (swap_at i j xs) = length xs"
  by (simp add: swap_at_def)

context rand_source
begin

lemma shuffle_from_perm:
  "i < length xs \<Longrightarrow> length xs < 2 ^ 31 \<Longrightarrow> \<exists>ys g'. shuffle_from D i xs g = Some (ys, g') \<and> mset ys = mset xs"
proof (induction i arbitrary: xs g)
  case (Suc i)
  have "int (length xs) < 2 ^ 31" using Suc.prems(2) by (metis of_nat_less_iff of_nat_numeral of_nat_power)
  then obtain j g1 where j: "rd_int31n D (int (Suc i) + 1) g = Some (j, g1)" "0 \<le> j" "j < int (Suc i) + 1"
    using int31n_law [of "int (Suc i) + 1" g] Suc.prems by force
  then have "nat j < length xs" using Suc.prems by linarith
  then have same: "mset (swap_at (Suc i) (nat j) xs) = mset xs" using Suc.prems by (simp add: mset_swap_at)
  then show ?case using Suc.IH [of "swap_at (Suc i) (nat j) xs" g1] Suc.prems j by auto
qed simp

lemma Shuffle_perm: "length xs < 2 ^ 31 \<Longrightarrow> \<exists>ys g'. Shuffle D xs g = Some (ys, g') \<and> mset ys = mset xs"
  using shuffle_from_perm [of "length xs - 1" xs] by (cases xs) (auto simp: Shuffle_def)

lemma perm_from_range:
  "length m + k < 2 ^ 62 \<Longrightarrow> set m \<subseteq> {..<length m} \<Longrightarrow>
    \<exists>p g'. perm_from D k m g = Some (p, g') \<and> length p = length m + k \<and> set p \<subseteq> {..<length p}"
proof (induction k arbitrary: m g)
  case (Suc k)
  have "int (Suc (length m)) < 2 ^ 63" using Suc.prems(1) by simp
  then obtain j g1 where j: "rd_Intn D (int (Suc (length m))) g = Some (j, g1)" "0 \<le> j" "j < int (Suc (length m))"
    using Intn_law [of "int (Suc (length m))" g] by auto
  define m' where "m' = (m @ [(m @ [0]) ! nat j])[nat j := length m]"
  have n: "nat j < Suc (length m)" using j by linarith
  have "(m @ [0]) ! nat j < Suc (length m)"
  proof (cases "nat j < length m")
    case True
    then have "m ! nat j \<in> {..<length m}" by (intro subsetD [OF Suc.prems(2)] nth_mem)
    with True show ?thesis by (simp add: nth_append)
  next
    case False
    then have "nat j = length m" using n by simp
    then show ?thesis by simp
  qed
  then have "set m' \<subseteq> {..<length m'}"
    using Suc.prems(2) by (auto simp: m'_def less_Suc_eq dest!: subsetD [OF set_update_subset_insert])
  then show ?case using Suc.IH [of m' g1] Suc.prems(1) j by (simp add: m'_def Let_def)
qed auto

end

end
