(* ===== verification/OpSelect.thy ===== *)
theory OpSelect
  imports Queries Placeholders Percentages Rand
begin

text \<open>
  How a worker chooses its next operation (\<open>internal/mongo/runner.go\<close>): the kind by the operation mix, the query among
  the ones defined for the kind and the collection or a generated fallback, the pause before it, and the gate of the
  load profile that parks workers above the current target.
\<close>

subsection \<open>The kind of operation\<close>

definition operationTypes :: "string list" where
  "operationTypes = [''find'', ''update'', ''delete'', ''insert'', ''insertMany'', ''aggregate'', ''transaction'']"

type_synonym op_mix = "string \<Rightarrow> int"   \<comment> \<open>0 for a kind that is not in the map\<close>

primrec choose_type :: "op_mix \<Rightarrow> int \<Rightarrow> int \<Rightarrow> string list \<Rightarrow> string" where
  "choose_type pct r cum [] = ''find''"
| "choose_type pct r cum (op # ops) = (if r < cum + pct op then op else choose_type pct r (cum + pct op) ops)"

definition one_or_many :: "'g rng_ops \<Rightarrow> string \<Rightarrow> string \<Rightarrow> 'g \<Rightarrow> (string \<times> 'g) option" where
  "one_or_many R one many g = map_option (\<lambda>(d, g'). (if d < 90 then one else many, g')) (rng_Intn R 100 g)"

definition selectOperation :: "'g rng_ops \<Rightarrow> op_mix option \<Rightarrow> 'g \<Rightarrow> (string \<times> 'g) option" where
  "selectOperation R percentages g =
     (case percentages of None \<Rightarrow> Some (''find'', g)
      | Some pct \<Rightarrow> Option.bind (rng_Intn R 100 g) (\<lambda>(r, g1).
          let t = choose_type pct r 0 operationTypes in
          if t = ''update'' then one_or_many R ''updateOne'' ''updateMany'' g1
          else if t = ''delete'' then one_or_many R ''deleteOne'' ''deleteMany'' g1
          else Some (t, g1)))"

text \<open>The mix \<open>RunWorkload\<close> builds from the configured shares.\<close>

primrec pct_op :: "pct \<Rightarrow> string" where
  "pct_op PFind = ''find''"
| "pct_op PUpdate = ''update''"
| "pct_op PDelete = ''delete''"
| "pct_op PInsert = ''insert''"
| "pct_op PBulk = ''insertMany''"
| "pct_op PAggregate = ''aggregate''"
| "pct_op PTransaction = ''transaction''"

definition mix_percentages :: "shares \<Rightarrow> op_mix" where
  "mix_percentages p op = (case map_of (map (\<lambda>k. (pct_op k, p k)) all_pct) op of Some n \<Rightarrow> n | None \<Rightarrow> 0)"

lemma mix_percentages_op [simp]: "mix_percentages p (pct_op k) = p k"
  by (cases k) (simp_all add: mix_percentages_def all_pct_def)

lemma operationTypes_pct:
  "operationTypes = map pct_op [PFind, PUpdate, PDelete, PInsert, PBulk, PAggregate, PTransaction]"
  by (simp add: operationTypes_def)

lemma pct_op_inj: "pct_op a = pct_op b \<longleftrightarrow> a = b"
  by (cases a; cases b) simp_all

text \<open>With shares that are not negative and make 100, each kind is chosen for exactly as many of the 100 draws as its
share says.\<close>

lemma choose_type_interval:
  assumes "0 \<le> cum" "\<And>op. 0 \<le> pct op" "distinct ops" "r < cum + sum_list (map pct ops)" "cum \<le> r" "op \<in> set ops"
  shows "choose_type pct r cum ops = op \<longleftrightarrow>
    cum + sum_list (map pct (takeWhile (\<lambda>x. x \<noteq> op) ops)) \<le> r \<and>
    r < cum + sum_list (map pct (takeWhile (\<lambda>x. x \<noteq> op) ops)) + pct op"
  using assms
proof (induction ops arbitrary: cum)
  case (Cons a ops)
  show ?case
  proof (cases "r < cum + pct a")
    case True
    have "0 \<le> sum_list (map pct xs)" for xs using Cons.prems(2) by (induction xs) auto
    then have "0 \<le> sum_list (map pct (takeWhile (\<lambda>x. x \<noteq> op) ops))" .
    then show ?thesis using True Cons.prems by auto
  next
    case False
    have ne: "r < cum + pct a + sum_list (map pct ops)" "cum + pct a \<le> r" using False Cons.prems by auto
    show ?thesis
    proof (cases "a = op")
      case True
      have "choose_type pct r (cum + pct a) ops \<noteq> op"
      proof -
        have "choose_type pct r c xs \<in> set xs" if "r < c + sum_list (map pct xs)" "c \<le> r" for c xs
          using that by (induction xs arbitrary: c) (auto simp: add.assoc)
        then have "choose_type pct r (cum + pct a) ops \<in> set ops" using ne .
        then show ?thesis using True Cons.prems(3) by auto
      qed
      then show ?thesis using False True by auto
    next
      case other: False
      then show ?thesis
        using False Cons.IH [of "cum + pct a"] Cons.prems ne by (auto simp: add.assoc)
    qed
  qed
qed simp

lemma card_int_interval: "card {r :: int. a \<le> r \<and> r < a + n} = nat n"
proof -
  have "{r. a \<le> r \<and> r < a + n} = {a..<a + n}" by auto
  then show ?thesis by simp
qed

lemma interval_inside:
  assumes "\<And>op. 0 \<le> (pct op :: int)" "op \<in> set ops"
  shows "0 \<le> sum_list (map pct (takeWhile (\<lambda>x. x \<noteq> op) ops))"
    and "sum_list (map pct (takeWhile (\<lambda>x. x \<noteq> op) ops)) + pct op \<le> sum_list (map pct ops)"
proof -
  have nonneg: "0 \<le> sum_list (map pct xs)" for xs using assms(1) by (induction xs) auto
  then show "0 \<le> sum_list (map pct (takeWhile (\<lambda>x. x \<noteq> op) ops))" .
  show "sum_list (map pct (takeWhile (\<lambda>x. x \<noteq> op) ops)) + pct op \<le> sum_list (map pct ops)"
    using assms(2) nonneg by (induction ops) (auto simp: add.assoc)
qed

lemma choose_type_count:
  assumes nonneg: "\<And>op. 0 \<le> pct op" and "distinct ops" "sum_list (map pct ops) = 100" "op \<in> set ops"
  shows "card {r. 0 \<le> r \<and> r < 100 \<and> choose_type pct r 0 ops = op} = nat (pct op)"
proof -
  let ?a = "sum_list (map pct (takeWhile (\<lambda>x. x \<noteq> op) ops))"
  have inside: "0 \<le> ?a" "?a + pct op \<le> 100"
    using interval_inside [of pct op ops, OF nonneg assms(4)] assms(3) by simp_all
  have "{r. 0 \<le> r \<and> r < 100 \<and> choose_type pct r 0 ops = op} = {r. ?a \<le> r \<and> r < ?a + pct op}"
    using choose_type_interval [of 0 pct ops _ op] inside assms by auto
  then show ?thesis by (simp add: card_int_interval)
qed

text \<open>From the configured shares to the operations: of the 100 equally likely draws of \<open>selectOperation\<close>, exactly as many
choose a kind as its share of the normalized mix.\<close>

theorem selection_follows_mix:
  assumes "\<And>k. 0 \<le> p k" "psum p \<le> 2 ^ 40"
  shows "card {r. 0 \<le> r \<and> r < 100 \<and>
      choose_type (mix_percentages (normalizePercentages useTx pinned p)) r 0 operationTypes = pct_op k}
    = nat (normalizePercentages useTx pinned p k)"
proof -
  define q where "q = normalizePercentages useTx pinned p"
  have q: "(\<forall>k. 0 \<le> q k) \<and> psum q = 100"
    unfolding q_def using normalized_shares [OF assms(1,2)] psum_normalized by blast
  have nonneg: "0 \<le> mix_percentages q op" for op
    using q by (auto simp: mix_percentages_def all_pct_def split: option.split)
  have "sum_list (map (mix_percentages q) operationTypes) = 100"
    using q by (simp add: operationTypes_pct psum_expand del: pct_op.simps)
  moreover have "distinct operationTypes" by (simp add: operationTypes_def)
  moreover have "pct_op k \<in> set operationTypes" by (cases k) (simp_all add: operationTypes_def)
  ultimately show ?thesis using choose_type_count [of "mix_percentages q" operationTypes "pct_op k", OF nonneg] by (simp add: q_def)
qed

lemma selection_follows_mix_witness:
  "card {r. 0 \<le> r \<and> r < 100 \<and> choose_type (mix_percentages (normalizePercentages False (\<lambda>_. False) (\<lambda>_. 30))) r 0 operationTypes
     = pct_op PUpdate} = nat (normalizePercentages False (\<lambda>_. False) (\<lambda>_. 30) PUpdate)"
  by (rule selection_follows_mix) (simp_all add: psum_expand)

subsection \<open>The query of an operation\<close>

type_synonym query_map = "string \<Rightarrow> query_def list"

text \<open>\<open>qMap\<close> of \<open>RunWorkload\<close>: the queries by operation, in their order.\<close>

definition query_map_of :: "query_def list \<Rightarrow> query_map" where
  "query_map_of qs op = filter (\<lambda>q. qd_operation q = op) qs"

type_synonym 'g update_gen = "collection_def \<Rightarrow> 'g \<Rightarrow> (document \<times> 'g) option"

definition fallback_ops :: "string list" where
  "fallback_ops = [''find'', ''updateOne'', ''updateMany'', ''deleteOne'', ''deleteMany'']"

definition fallback_type :: "collection_def \<Rightarrow> string \<Rightarrow> string" where
  "fallback_type col filterField =
     (case map_of (cd_fields col) filterField of Some d \<Rightarrow> fd_type d
      | None \<Rightarrow> if filterField = ''_id'' then ''string'' else ''int'')"

definition generated_query :: "collection_def \<Rightarrow> string \<Rightarrow> string \<Rightarrow> string \<Rightarrow> query_def" where
  "generated_query col opType source label = empty_query\<lparr>qd_collection := c_name col, qd_operation := opType,
     qd_sourceType := source, qd_sourceFile := ''runtime_generated'', qd_workloadName := ''generated_workload'',
     qd_index := - 1, qd_label := label\<rparr>"

definition fallback_base :: "string \<Rightarrow> collection_def \<Rightarrow> string \<Rightarrow> query_def" where
  "fallback_base opType col filterField =
     (generated_query col opType ''generated_fallback'' (''fallback '' @ opType @ '' query on '' @ filterField))
       \<lparr>qd_filter := Some [(filterField, GStr (''<'' @ fallback_type col filterField @ ''>''))]\<rparr>"

definition generateFallbackQueryWith ::
    "string \<Rightarrow> collection_def \<Rightarrow> string \<Rightarrow> 'g update_gen \<Rightarrow> 'g \<Rightarrow> (query_def option \<times> 'g) option" where
  "generateFallbackQueryWith opType col filterField genUpdate g =
     (if opType = ''updateOne'' \<or> opType = ''updateMany'' then
        map_option (\<lambda>(u, g'). (Some ((fallback_base opType col filterField)\<lparr>qd_update := Some u\<rparr>), g')) (genUpdate col g)
      else if opType = ''deleteOne'' \<or> opType = ''deleteMany'' then Some (Some (fallback_base opType col filterField), g)
      else Some (None, g))"

definition selectQueryByTypeWith ::
    "'g rng_ops \<Rightarrow> string \<Rightarrow> query_map \<Rightarrow> collection_def \<Rightarrow> string \<Rightarrow> 'g update_gen \<Rightarrow> 'g
      \<Rightarrow> (query_def option \<times> 'g) option" where
  "selectQueryByTypeWith R opType qm col filterField genUpdate g =
     (let matched = filter (\<lambda>q. queryMatchesCollection q (collection_ref.truncate col)) (qm opType) in
      if matched = [] then
        (if opType \<in> set fallback_ops then generateFallbackQueryWith opType col filterField genUpdate g
         else Some (None, g))
      else map_option (\<lambda>(i, g'). (Some (matched ! nat i), g')) (rng_Intn R (int (length matched)) g))"

text \<open>A selected query is defined for the operation and its collection, or is generated for it: then it is an update or
a delete by the filter field, never a find.\<close>

definition fallback_query :: "collection_def \<Rightarrow> string \<Rightarrow> string \<Rightarrow> query_def \<Rightarrow> bool" where
  "fallback_query col filterField opType q \<longleftrightarrow>
     opType \<in> {''updateOne'', ''updateMany'', ''deleteOne'', ''deleteMany''} \<and> qd_operation q = opType \<and>
     qd_collection q = c_name col \<and> qd_filter q = Some [(filterField, GStr (''<'' @ fallback_type col filterField @ ''>''))]"

lemma generated_query_collection [simp]: "qd_collection (generated_query col opType src label) = c_name col"
  by (simp add: generated_query_def)

lemma fallback_base_fields:
  "qd_operation (fallback_base opType col f) = opType" "qd_collection (fallback_base opType col f) = c_name col"
  "qd_filter (fallback_base opType col f) = Some [(f, GStr (''<'' @ fallback_type col f @ ''>''))]"
  by (simp_all only: fallback_base_def generated_query_def query_def.simps query_def.update_convs empty_query_def)

lemma fallback_sound:
  assumes "generateFallbackQueryWith opType col f genUpdate g = Some (Some q, g')"
  shows "fallback_query col f opType q"
proof (cases "opType = ''updateOne'' \<or> opType = ''updateMany''")
  case True
  then obtain u where "q = (fallback_base opType col f)\<lparr>qd_update := Some u\<rparr>"
    using assms by (auto simp only: generateFallbackQueryWith_def if_True map_option_eq_Some split: prod.splits)
  then have "qd_operation q = qd_operation (fallback_base opType col f)" "qd_collection q = qd_collection (fallback_base opType col f)"
    "qd_filter q = qd_filter (fallback_base opType col f)" by simp_all
  then show ?thesis using True unfolding fallback_query_def fallback_base_fields by blast
next
  case False
  then have "opType = ''deleteOne'' \<or> opType = ''deleteMany''" "q = fallback_base opType col f"
    using assms by (simp_all add: generateFallbackQueryWith_def split: if_splits)
  then show ?thesis unfolding fallback_query_def by (simp only: fallback_base_fields) blast
qed

context rng_source
begin

lemma query_selected:
  assumes sel: "selectQueryByTypeWith R opType (query_map_of qs) col f genUpdate g = Some (Some q, g')"
    and len: "length qs < 2 ^ 62"
  shows "q \<in> set qs \<and> qd_operation q = opType \<and> queryMatchesCollection q (collection_ref.truncate col)
    \<or> fallback_query col f opType q"
proof -
  define matched where "matched = filter (\<lambda>q. queryMatchesCollection q (collection_ref.truncate col)) (query_map_of qs opType)"
  show ?thesis
  proof (cases "matched = []")
    case True
    then have "generateFallbackQueryWith opType col f genUpdate g = Some (Some q, g')" using sel
      by (simp add: selectQueryByTypeWith_def matched_def [symmetric] Let_def split: if_splits)
    then show ?thesis by (intro disjI2 fallback_sound)
  next
    case False
    have "length matched \<le> length qs"
      unfolding matched_def query_map_of_def by (metis length_filter_le order_trans)
    then have "int (length matched) < 2 ^ 63" using len by simp
    moreover have "0 < int (length matched)" using False by simp
    ultimately obtain i g1 where i: "rng_Intn R (int (length matched)) g = Some (i, g1)" "0 \<le> i" "i < int (length matched)"
      using Intn_law by blast
    then have "q = matched ! nat i" using sel False
      by (auto simp: selectQueryByTypeWith_def matched_def [symmetric] Let_def)
    then have "q \<in> set matched" using i by (auto intro: nth_mem)
    then show ?thesis by (auto simp: matched_def query_map_of_def)
  qed
qed

end

text \<open>No generated find: where no query matches, a find of this path is skipped.\<close>

lemma no_fallback_find:
  "(\<And>q. q \<in> set (qm ''find'') \<Longrightarrow> \<not> queryMatchesCollection q (collection_ref.truncate col)) \<Longrightarrow>
    selectQueryByTypeWith R ''find'' qm col f genUpdate g = Some (None, g)"
  by (simp add: selectQueryByTypeWith_def fallback_ops_def generateFallbackQueryWith_def filter_empty_conv)

subsection \<open>Pacing\<close>

text \<open>The delay of \<open>applyPacing\<close>, in nanoseconds.\<close>

definition applyPacing :: "'g rand_ops \<Rightarrow> int \<Rightarrow> int \<Rightarrow> 'g \<Rightarrow> (int \<times> 'g) option" where
  "applyPacing D thinkTime jitter g =
     (if thinkTime \<le> 0 \<and> jitter \<le> 0 then Some (0, g)
      else map_option (\<lambda>(d, g'). (max 0 d, g'))
        (if jitter > 0 then map_option (\<lambda>(v, g'). (thinkTime + v, g')) (rd_Int63n D (jitter + 1) g) else Some (thinkTime, g)))"

context rand_source
begin

lemma applyPacing_bounds:
  assumes "0 \<le> thinkTime" "0 \<le> jitter" "jitter < 2 ^ 62"
  shows "\<exists>d g'. applyPacing D thinkTime jitter g = Some (d, g') \<and> thinkTime \<le> d \<and> d \<le> thinkTime + jitter"
proof (cases "jitter > 0")
  case True
  then obtain v g' where "rd_Int63n D (jitter + 1) g = Some (v, g')" "0 \<le> v" "v < jitter + 1"
    using Int63n_law [of "jitter + 1" g] assms by auto
  then show ?thesis using True assms by (simp add: applyPacing_def)
qed (use assms in \<open>auto simp: applyPacing_def\<close>)

end

subsection \<open>Generated inserts\<close>

text \<open>
  \<open>InsertDocumentCache\<close> is one channel for the whole program: the producers of every collection send their documents to
  it and \<open>generateInsertQuery\<close> takes the oldest one. \<open>gendoc\<close> generates a document for a collection.
\<close>

type_synonym insert_cache = "document list"

definition insertDocumentProducer :: "nat \<Rightarrow> document \<Rightarrow> insert_cache \<Rightarrow> insert_cache option" where
  "insertDocumentProducer capacity doc cache = (if length cache < capacity then Some (cache @ [doc]) else None)"

definition take_document :: "document \<Rightarrow> insert_cache \<Rightarrow> document \<times> insert_cache" where
  "take_document spare cache = (case cache of [] \<Rightarrow> (spare, []) | d # ds \<Rightarrow> (d, ds))"

definition generateInsertQuery :: "collection_def \<Rightarrow> document \<Rightarrow> insert_cache \<Rightarrow> query_def \<times> insert_cache" where
  "generateInsertQuery col spare cache =
     (case take_document spare cache of (doc, rest) \<Rightarrow>
        ((generated_query col ''insert'' ''generated_insert'' ''generated insert document'')\<lparr>qd_filter := Some doc\<rparr>, rest))"

primrec generateInsertManyQuery :: "document list \<Rightarrow> insert_cache \<Rightarrow> document list \<times> insert_cache" where
  "generateInsertManyQuery [] cache = ([], cache)"
| "generateInsertManyQuery (spare # fs) cache =
     (case take_document spare cache of (doc, rest) \<Rightarrow>
        case generateInsertManyQuery fs rest of (docs, rest') \<Rightarrow> (doc # docs, rest'))"

text \<open>The producer of one collection can hand its document to the insert of another.\<close>

lemma insert_takes_other_collections_document:
  "\<exists>c. insertDocumentProducer 1 doc_of_a [] = Some c \<and>
     qd_filter (fst (generateInsertQuery b doc_of_b c)) = Some doc_of_a \<and> qd_collection (fst (generateInsertQuery b doc_of_b c)) = c_name b"
  by (simp add: insertDocumentProducer_def generateInsertQuery_def take_document_def)

end
