(* ===== verification/BatchBytes.thy ===== *)
theory BatchBytes
  imports OpSelect "HOL-Library.AList"
begin

unbundle bit_operations_syntax

text \<open>
  The prebuilt insert batches and the raw arrays of the fast path (\<open>internal/mongo/runner.go\<close>, \<open>placeholders.go\<close>,
  \<open>workload_exec.go\<close>), byte by byte. The BSON encoder of the driver is the parameter \<open>marshal\<close>; a document is generated
  by \<open>gen\<close>, with the marker in its patch field, and encoded.
\<close>

type_synonym bytes = "8 word list"

definition le_bytes :: "nat \<Rightarrow> u64 \<Rightarrow> bytes" where
  "le_bytes n w = map (\<lambda>i. ucast (drop_bit (8 * i) w)) [0..<n]"

primrec of_le :: "bytes \<Rightarrow> u64" where
  "of_le [] = 0"
| "of_le (b # bs) = ucast b OR push_bit 8 (of_le bs)"

definition put_u64 :: "nat \<Rightarrow> u64 \<Rightarrow> bytes \<Rightarrow> bytes" where
  "put_u64 off w bs = take off bs @ le_bytes 8 w @ drop (off + 8) bs"

definition get_u64 :: "nat \<Rightarrow> bytes \<Rightarrow> u64" where
  "get_u64 off bs = of_le (take 8 (drop off bs))"

lemma length_le_bytes [simp]: "length (le_bytes n w) = n"
  by (simp add: le_bytes_def)

lemma le_bytes_Suc: "le_bytes (Suc n) w = ucast w # le_bytes n (drop_bit 8 w)"
proof -
  have "[0..<Suc n] = 0 # map Suc [0..<n]" by (simp add: upt_conv_Cons map_Suc_upt)
  then show ?thesis by (simp add: le_bytes_def add.commute)
qed

lemma of_le_le_bytes: "of_le (le_bytes n w) = take_bit (8 * n) w"
proof (induction n arbitrary: w)
  case (Suc n)
  show ?case
    unfolding le_bytes_Suc of_le.simps Suc.IH
    by (rule bit_eqI) (auto simp: bit_simps)
qed (simp add: le_bytes_def)

lemma of_le_8 [simp]: "of_le (le_bytes 8 w) = w"
  using take_bit_length_eq [of w] by (simp add: of_le_le_bytes)

lemma length_put [simp]: "off + 8 \<le> length bs \<Longrightarrow> length (put_u64 off w bs) = length bs"
  by (simp add: put_u64_def)

lemma get_put: "off + 8 \<le> length bs \<Longrightarrow> get_u64 off (put_u64 off w bs) = w"
  by (simp add: get_u64_def put_u64_def)

lemma put_outside:
  "off + 8 \<le> length bs \<Longrightarrow> i < off \<or> off + 8 \<le> i \<Longrightarrow> put_u64 off w bs ! i = bs ! i"
  by (auto simp: put_u64_def nth_append)

lemma get_cong:
  assumes "length bs = length cs" "\<And>i. off \<le> i \<Longrightarrow> i < off + 8 \<Longrightarrow> bs ! i = cs ! i" "off + 8 \<le> length bs"
  shows "get_u64 off bs = get_u64 off cs"
proof -
  have "take 8 (drop off bs) = take 8 (drop off cs)" using assms by (intro nth_equalityI) auto
  then show ?thesis by (simp add: get_u64_def)
qed

lemma length_prefix: "n < 2 ^ 31 \<Longrightarrow> unat (of_le (le_bytes 4 (of_nat n))) = n"
proof -
  assume n: "n < 2 ^ 31"
  then have "unat (of_nat n :: u64) = n" by (simp add: unat_of_nat take_bit_nat_eq_self)
  then show ?thesis using n by (simp add: of_le_le_bytes unsigned_take_bit_eq take_bit_nat_eq_self)
qed

subsection \<open>Raw arrays\<close>

definition ascii :: "string \<Rightarrow> bytes" where
  "ascii s = map of_char s"

text \<open>The header of element \<open>i\<close>: its type, its key and the terminator.\<close>

definition element :: "8 word \<Rightarrow> nat \<Rightarrow> bytes" where
  "element t i = t # ascii (itoa (int i)) @ [0]"

definition TypeInt64 :: "8 word" where "TypeInt64 = 0x12"
definition TypeEmbeddedDocument :: "8 word" where "TypeEmbeddedDocument = 0x03"

definition put_length :: "bytes \<Rightarrow> bytes" where
  "put_length body = le_bytes 4 (of_nat (length body + 4)) @ body"

primrec int64_elements :: "nat \<Rightarrow> int list \<Rightarrow> bytes" where
  "int64_elements i [] = []"
| "int64_elements i (v # vs) = element TypeInt64 i @ le_bytes 8 (word_of_int v) @ int64_elements (Suc i) vs"

definition buildRawInt64Array :: "int list \<Rightarrow> bytes" where
  "buildRawInt64Array ids = put_length (int64_elements 0 ids @ [0])"

text \<open>A reader of BSON arrays of 64-bit integers, as the specification of the format: the length, then elements with
their type, their key up to the first zero byte and 8 bytes, then a zero byte.\<close>

definition skip_key :: "bytes \<Rightarrow> bytes" where
  "skip_key bs = drop 1 (dropWhile (\<lambda>b. b \<noteq> 0) bs)"

primrec read_elements :: "nat \<Rightarrow> bytes \<Rightarrow> int list option" where
  "read_elements 0 bs = None"
| "read_elements (Suc n) bs =
     (case bs of [] \<Rightarrow> None
      | b # rest \<Rightarrow>
          if b = 0 then (if rest = [] then Some [] else None)
          else if b = TypeInt64 \<and> 8 \<le> length (skip_key rest) then
            map_option (Cons (sint (of_le (take 8 (skip_key rest))))) (read_elements n (drop 8 (skip_key rest)))
          else None)"

definition read_array :: "bytes \<Rightarrow> int list option" where
  "read_array bs =
     (if length bs < 4 \<or> unat (of_le (take 4 bs)) \<noteq> length bs then None else read_elements (length bs) (drop 4 bs))"

lemma digit_byte: "n < 10 \<Longrightarrow> (of_char (digit_char n) :: 8 word) \<noteq> 0"
proof -
  assume "n < 10"
  then have "n \<in> {0, 1, 2, 3, 4, 5, 6, 7, 8, 9}" by auto
  then show ?thesis by (auto simp: digit_char_def of_nat_of_char [where 'a = "8 word", symmetric])
qed

lemma digits_bytes: "0 \<notin> set (ascii (nat_digits n))"
proof (induction n rule: nat_digits.induct)
  case (1 n)
  show ?case
  proof (cases "n < 10")
    case True
    then show ?thesis using digit_byte [of n] by (subst nat_digits.simps) (auto simp: ascii_def)
  next
    case False
    have "n mod 10 < 10" by simp
    then show ?thesis using False 1 digit_byte [of "n mod 10"] by (subst nat_digits.simps) (auto simp: ascii_def)
  qed
qed

lemma key_bytes: "0 \<notin> set (ascii (itoa (int i)))"
  using digits_bytes by (simp add: itoa_def)

lemma skip_key_element: "skip_key (ascii (itoa (int i)) @ 0 # rest) = rest"
proof -
  have "dropWhile (\<lambda>b. b \<noteq> 0) (xs @ 0 # rest) = 0 # rest" if "0 \<notin> set xs" for xs :: bytes
    using that by (induction xs) auto
  then show ?thesis using key_bytes [of i] by (simp add: skip_key_def)
qed

lemma read_int64_elements:
  "length ids < n \<Longrightarrow> list_all (\<lambda>v. - (2 ^ 63) \<le> v \<and> v < 2 ^ 63) ids \<Longrightarrow>
    read_elements n (int64_elements i ids @ [0]) = Some ids"
proof (induction ids arbitrary: n i)
  case Nil
  then show ?case by (cases n) simp_all
next
  case (Cons v ids)
  then obtain m where n: "n = Suc m" by (cases n) auto
  have "sint (word_of_int v :: u64) = v" using Cons.prems(2) by (simp add: int_word_sint)
  then show ?case using Cons n
    by (simp add: element_def TypeInt64_def skip_key_element)
qed

text \<open>The array of ids a fast find sends reads back as these ids.\<close>

theorem raw_array_roundtrip:
  assumes "list_all (\<lambda>v. - (2 ^ 63) \<le> v \<and> v < 2 ^ 63) ids" and "length (buildRawInt64Array ids) < 2 ^ 31"
  shows "read_array (buildRawInt64Array ids) = Some ids"
proof -
  let ?body = "int64_elements 0 ids @ [0]"
  have elems: "length xs \<le> length (int64_elements i xs)" for xs i
  proof (induction xs arbitrary: i)
    case (Cons x xs)
    have "length xs \<le> length (int64_elements (Suc i) xs)" by (rule Cons.IH)
    then show ?case by (simp add: element_def)
  qed simp
  have len: "length (buildRawInt64Array ids) = length ?body + 4" by (simp add: buildRawInt64Array_def put_length_def)
  have "unat (of_le (le_bytes 4 (of_nat (length ?body + 4)))) = length ?body + 4"
    using assms(2) len by (intro length_prefix) simp
  moreover have "take 4 (buildRawInt64Array ids) = le_bytes 4 (of_nat (length ?body + 4))"
    "drop 4 (buildRawInt64Array ids) = ?body"
    by (simp_all add: buildRawInt64Array_def put_length_def)
  moreover have "read_elements (length (buildRawInt64Array ids)) ?body = Some ids"
    using assms(1) elems [of ids 0] len by (intro read_int64_elements) auto
  ultimately show ?thesis using len by (simp add: read_array_def)
qed

lemma raw_array_roundtrip_witness: "read_array (buildRawInt64Array [7, - 1, 100000000]) = Some [7, - 1, 100000000]"
proof (rule raw_array_roundtrip)
  show "length (buildRawInt64Array [7, - 1, 100000000]) < 2 ^ 31"
    by (simp add: buildRawInt64Array_def put_length_def element_def itoa_def nat_digits.simps ascii_def)
qed simp

subsection \<open>Prebuilt batches\<close>

text \<open>\<open>bytes.Index\<close>: where the pattern first occurs.\<close>

primrec index_of :: "bytes \<Rightarrow> bytes \<Rightarrow> nat option" where
  "index_of pat [] = (if pat = [] then Some 0 else None)"
| "index_of pat (b # bs) =
     (if take (length pat) (b # bs) = pat then Some 0 else map_option Suc (index_of pat bs))"

lemma index_of_Some:
  "index_of pat bs = Some k \<Longrightarrow> take (length pat) (drop k bs) = pat \<and> k + length pat \<le> length bs"
proof (induction bs arbitrary: k)
  case (Cons b bs)
  show ?case
  proof (cases "take (length pat) (b # bs) = pat")
    case True
    then have "length pat \<le> length (b # bs)" by (metis length_take min.cobounded1)
    then show ?thesis using True Cons.prems by simp
  next
    case False
    then show ?thesis using Cons by auto
  qed
qed (auto split: if_splits)

lemma index_of_embedded: "\<exists>k. index_of pat (pre @ pat @ post) = Some k"
proof (induction pre)
  case Nil
  have "take (length pat) (pat @ post) = pat" by simp
  then show ?case by (cases "pat @ post") auto
next
  case (Cons b pre)
  then show ?case by auto
qed

definition magic :: u64 where "magic = 0x1122334455667788"

datatype batch_error = no_patch_key | marshal_failed string | marker_missing nat

text \<open>The documents of a batch, each generated, given the marker and encoded: the buffer so far (without its length) and
the offsets of the markers in it.\<close>

primrec batch_elements ::
    "(document \<Rightarrow> string + bytes) \<Rightarrow> string \<Rightarrow> nat \<Rightarrow> document list \<Rightarrow> bytes \<Rightarrow> batch_error + (bytes \<times> nat list)" where
  "batch_elements marshal key i [] buf = Inr (buf, [])"
| "batch_elements marshal key i (d # ds) buf =
     (case marshal (AList.update key (GInt64 (uint magic)) d) of Inl m \<Rightarrow> Inl (marshal_failed m)
      | Inr raw \<Rightarrow>
          (case index_of (le_bytes 8 magic) raw of None \<Rightarrow> Inl (marker_missing i)
           | Some k \<Rightarrow>
               (let buf' = buf @ element TypeEmbeddedDocument i in
                case batch_elements marshal key (Suc i) ds (buf' @ raw) of Inl e \<Rightarrow> Inl e
                | Inr (out, offs) \<Rightarrow> Inr (out, (length buf' + k) # offs))))"

record prebuilt_batch =
  pb_cmdRaw :: bytes
  pb_offsets :: "nat list"

text \<open>\<open>marshal_cmd\<close> encodes the insert command around the array of documents, in which it appears as it is.\<close>

definition build_batch ::
    "(document \<Rightarrow> string + bytes) \<Rightarrow> (bytes \<Rightarrow> bytes) \<Rightarrow> string \<Rightarrow> document list \<Rightarrow> batch_error + prebuilt_batch" where
  "build_batch marshal marshal_cmd key docs =
     (case batch_elements marshal key 0 docs (replicate 4 0) of Inl e \<Rightarrow> Inl e
      | Inr (buf, offs) \<Rightarrow>
          (let arr = put_length (drop 4 (buf @ [0])); cmd = marshal_cmd arr;
               start = (case index_of arr cmd of Some k \<Rightarrow> int k | None \<Rightarrow> - 1)
           in Inr \<lparr>pb_cmdRaw = cmd, pb_offsets = map (\<lambda>o1. nat (start + int o1)) offs\<rparr>))"

text \<open>\<open>identifyPatchKey\<close> ranges over the fields in the order \<open>order\<close> of the map iteration.\<close>

definition substring :: "string \<Rightarrow> string \<Rightarrow> bool" where
  "substring s sub \<longleftrightarrow> list_ex (\<lambda>i. take (length sub) (drop i s) = sub) [0..<Suc (length s)]"

definition is_int_type :: "field_def \<Rightarrow> bool" where
  "is_int_type f \<longleftrightarrow> fd_type f = ''int'' \<or> fd_type f = ''long''"

definition int_field_key :: "collection_def \<Rightarrow> (string \<times> field_def) list \<Rightarrow> string" where
  "int_field_key col order =
     (if case map_of (cd_fields col) ''_id'' of Some f \<Rightarrow> is_int_type f | None \<Rightarrow> False then ''_id''
      else case filter (\<lambda>e. is_int_type (snd e) \<and> substring (to_lower (fst e)) ''id'') order of
        [] \<Rightarrow> [] | e # _ \<Rightarrow> fst e)"

definition identifyPatchKey :: "collection_def \<Rightarrow> (string \<times> field_def) list \<Rightarrow> string" where
  "identifyPatchKey col order =
     (case cd_shard col of
        Some sh \<Rightarrow> if sh_key sh \<noteq> [] then fst (hd (sh_key sh)) else int_field_key col order
      | None \<Rightarrow> int_field_key col order)"

text \<open>The patch of a batch: consecutive sequence numbers at the offsets (\<open>PutUint64\<close> panics past the end: None).\<close>

primrec patch_ids :: "nat list \<Rightarrow> int \<Rightarrow> bytes \<Rightarrow> bytes option" where
  "patch_ids [] sq raw = Some raw"
| "patch_ids (off # offs) sq raw =
     (if off + 8 \<le> length raw then patch_ids offs (to_i64 (sq + 1)) (put_u64 off (word_of_int sq) raw) else None)"

text \<open>\<open>registerFastBatchIDs\<close>: what it reads back at the offsets.\<close>

definition batch_ids :: "bytes \<Rightarrow> nat list \<Rightarrow> int list" where
  "batch_ids raw offs = map (\<lambda>off. sint (get_u64 off raw)) (filter (\<lambda>off. off + 8 \<le> length raw) offs)"

definition registerFastBatchIDs :: "string \<Rightarrow> string \<Rightarrow> bytes \<Rightarrow> nat list \<Rightarrow> record_pool option \<Rightarrow> record_pool option" where
  "registerFastBatchIDs ns patchKey raw offs pool =
     (if patchKey = [] then pool
      else map_option (\<lambda>p. fold (\<lambda>i. pool_Add ns (Some [(patchKey, GInt64 i)])) (batch_ids raw offs) p) pool)"

subsection \<open>Sent ids are registered\<close>

text \<open>Offsets of markers that do not overlap, inside \<open>n\<close> bytes.\<close>

fun apart :: "nat \<Rightarrow> nat list \<Rightarrow> nat \<Rightarrow> bool" where
  "apart from [] n = True"
| "apart from (off # offs) n = (from \<le> off \<and> off + 8 \<le> n \<and> apart (off + 8) offs n)"

lemma apart_mono: "apart a offs n \<Longrightarrow> b \<le> a \<Longrightarrow> n \<le> m \<Longrightarrow> apart b offs m"
  by (induction offs arbitrary: a b) auto

lemma apart_ge: "apart a offs n \<Longrightarrow> off \<in> set offs \<Longrightarrow> a \<le> off \<and> off + 8 \<le> n"
  by (induction offs arbitrary: a) fastforce+

lemma apart_shift: "apart a offs n \<Longrightarrow> apart (k + a) (map ((+) k) offs) (k + n)"
  by (induction offs arbitrary: a) (auto simp: add.assoc)

lemma patch_ids_reads:
  assumes "apart a offs (length raw)" "- (2 ^ 63) \<le> sq" "sq + int (length offs) < 2 ^ 63"
  shows "\<exists>raw'. patch_ids offs sq raw = Some raw' \<and> length raw' = length raw \<and>
    map (\<lambda>off. sint (get_u64 off raw')) offs = map (\<lambda>j. sq + int j) [0..<length offs] \<and>
    (\<forall>i < length raw. (\<forall>off \<in> set offs. i < off \<or> off + 8 \<le> i) \<longrightarrow> raw' ! i = raw ! i)"
  using assms
proof (induction offs arbitrary: a sq raw)
  case (Cons off offs)
  define raw1 where "raw1 = put_u64 off (word_of_int sq) raw"
  have off: "off + 8 \<le> length raw" and rest: "apart (off + 8) offs (length raw)" using Cons.prems by auto
  have len: "length raw1 = length raw" using off by (simp add: raw1_def)
  have next_sq: "to_i64 (sq + 1) = sq + 1" using Cons.prems by (intro to_i64_id) auto
  obtain raw' where raw': "patch_ids offs (sq + 1) raw1 = Some raw'" "length raw' = length raw1"
      "map (\<lambda>off. sint (get_u64 off raw')) offs = map (\<lambda>j. sq + 1 + int j) [0..<length offs]"
      "\<forall>i < length raw1. (\<forall>off \<in> set offs. i < off \<or> off + 8 \<le> i) \<longrightarrow> raw' ! i = raw1 ! i"
    using Cons.IH [of "off + 8" raw1 "sq + 1"] Cons.prems rest len by auto
  have "raw' ! i = raw1 ! i" if "off \<le> i" "i < off + 8" for i
  proof (rule raw'(4) [rule_format])
    show "i < length raw1" using that off len by simp
    show "i < o1 \<or> o1 + 8 \<le> i" if "o1 \<in> set offs" for o1 using apart_ge [OF rest that] \<open>i < off + 8\<close> by simp
  qed
  then have "get_u64 off raw' = get_u64 off raw1" using raw'(2) off len by (intro get_cong) simp_all
  then have first: "sint (get_u64 off raw') = sq"
    using off Cons.prems by (simp add: raw1_def get_put int_word_sint)
  have ids: "map (\<lambda>off. sint (get_u64 off raw')) (off # offs) = map (\<lambda>j. sq + int j) [0..<length (off # offs)]"
    using first raw'(3) by (simp add: upt_conv_Cons map_Suc_upt [symmetric] del: upt_Suc)
  have "raw' ! i = raw ! i" if "i < length raw" "\<forall>o' \<in> set (off # offs). i < o' \<or> o' + 8 \<le> i" for i
    using raw'(4) that len put_outside [OF off, of i] by (simp add: raw1_def)
  then show ?case using raw' len ids off next_sq by (auto simp: raw1_def)
qed simp

lemma batch_elements_apart:
  "batch_elements marshal key i ds buf = Inr (out, offs) \<Longrightarrow>
    apart (length buf) offs (length out) \<and> length offs = length ds \<and> length buf \<le> length out \<and> take (length buf) out = buf"
proof (induction ds arbitrary: i buf offs)
  case (Cons d ds)
  obtain raw where raw: "marshal (AList.update key (GInt64 (uint magic)) d) = Inr raw"
    using Cons.prems by (cases "marshal (AList.update key (GInt64 (uint magic)) d)") auto
  obtain k where k: "index_of (le_bytes 8 magic) raw = Some k" using Cons.prems raw by (cases "index_of (le_bytes 8 magic) raw") auto
  define buf' where "buf' = buf @ element TypeEmbeddedDocument i"
  obtain offs' where o': "batch_elements marshal key (Suc i) ds (buf' @ raw) = Inr (out, offs')" "offs = (length buf' + k) # offs'"
    using Cons.prems raw k by (auto simp: buf'_def Let_def split: sum.splits)
  have inside: "k + 8 \<le> length raw" using index_of_Some [OF k] by simp
  note IH = Cons.IH [OF o'(1)]
  have "apart (length buf' + k + 8) offs' (length out)"
    using inside by (intro apart_mono [OF conjunct1 [OF IH]]) auto
  moreover have "take (length buf) out = buf"
  proof -
    have "take (length buf) (take (length (buf' @ raw)) out) = take (length buf) (buf' @ raw)" using IH by simp
    then show ?thesis by (simp add: buf'_def)
  qed
  ultimately show ?case using IH inside by (auto simp: o'(2) buf'_def)
qed simp

lemma build_batch_apart:
  assumes b: "build_batch marshal marshal_cmd key docs = Inr b"
    and embeds: "\<And>arr. \<exists>pre post. marshal_cmd arr = pre @ arr @ post"
  shows "\<exists>a. apart a (pb_offsets b) (length (pb_cmdRaw b)) \<and> length (pb_offsets b) = length docs"
proof -
  obtain buf offs where e: "batch_elements marshal key 0 docs (replicate 4 0) = Inr (buf, offs)"
    using b by (auto simp: build_batch_def split: sum.splits)
  note out = batch_elements_apart [OF e]
  define arr where "arr = put_length (drop 4 (buf @ [0]))"
  have len: "length arr = length buf + 1" using out by (simp add: arr_def put_length_def)
  obtain pre post where cmd: "marshal_cmd arr = pre @ arr @ post" using embeds by blast
  obtain k where k: "index_of arr (marshal_cmd arr) = Some k" using index_of_embedded [of arr pre post] by (auto simp: cmd)
  have "apart (k + 4) (map ((+) k) offs) (k + length buf)" using apart_shift [OF conjunct1 [OF out], of k] by simp
  then have "apart (k + 4) (map ((+) k) offs) (length (marshal_cmd arr))"
    by (rule apart_mono) (use index_of_Some [OF k] len in auto)
  moreover have "pb_offsets b = map ((+) k) offs" "pb_cmdRaw b = marshal_cmd arr"
  proof -
    have "build_batch marshal marshal_cmd key docs =
        Inr \<lparr>pb_cmdRaw = marshal_cmd arr, pb_offsets = map (\<lambda>o1. nat (int k + int o1)) offs\<rparr>"
      by (simp only: build_batch_def e sum.case prod.case Let_def arr_def [symmetric] k option.case)
    then show "pb_offsets b = map ((+) k) offs" "pb_cmdRaw b = marshal_cmd arr"
      using b by (auto simp flip: of_nat_add)
  qed
  ultimately show ?thesis using out by auto
qed


definition toy_marshal :: "document \<Rightarrow> string + bytes" where
  "toy_marshal d = (case map_of d ''id'' of Some (GInt64 i) \<Rightarrow> Inr ([0x12] @ ascii ''id'' @ [0] @ le_bytes 8 (word_of_int i) @ [0])
     | _ \<Rightarrow> Inl ''no id'')"


subsection \<open>The pool of batches\<close>

text \<open>\<open>prepareGenericBatchPoolWith\<close>: one batch per list of generated documents.\<close>

primrec build_batches ::
    "(document \<Rightarrow> string + bytes) \<Rightarrow> (bytes \<Rightarrow> bytes) \<Rightarrow> string \<Rightarrow> document list list \<Rightarrow> batch_error + prebuilt_batch list" where
  "build_batches marshal marshal_cmd key [] = Inr []"
| "build_batches marshal marshal_cmd key (docs # rest) =
     (case build_batch marshal marshal_cmd key docs of Inl e \<Rightarrow> Inl e
      | Inr b \<Rightarrow> (case build_batches marshal marshal_cmd key rest of Inl e \<Rightarrow> Inl e | Inr bs \<Rightarrow> Inr (b # bs)))"

definition prepareGenericBatchPoolWith ::
    "(document \<Rightarrow> string + bytes) \<Rightarrow> (bytes \<Rightarrow> bytes) \<Rightarrow> collection_def \<Rightarrow> (string \<times> field_def) list \<Rightarrow> document list list
      \<Rightarrow> batch_error + (prebuilt_batch list \<times> string)" where
  "prepareGenericBatchPoolWith marshal marshal_cmd col order docs =
     (let key = identifyPatchKey col order in
      if key = [] then Inl no_patch_key
      else case build_batches marshal marshal_cmd key docs of Inl e \<Rightarrow> Inl e | Inr bs \<Rightarrow> Inr (bs, key))"

lemma build_batches_all:
  "build_batches marshal marshal_cmd key ds = Inr bs \<Longrightarrow>
    list_all2 (\<lambda>docs b. build_batch marshal marshal_cmd key docs = Inr b) ds bs"
  by (induction ds arbitrary: bs) (auto split: sum.splits)

text \<open>With several integer id fields and no shard key, the patch field depends on the order of the map iteration.\<close>

lemma patch_key_depends_on_map_order:
  assumes "cd_shard col = None" "cd_fields col = [(''order_id'', f), (''user_id'', f)]" "is_int_type f"
  shows "identifyPatchKey col (cd_fields col) = ''order_id'' \<and> identifyPatchKey col (rev (cd_fields col)) = ''user_id''"
proof -
  have "substring (to_lower ''order_id'') ''id''" "substring (to_lower ''user_id'') ''id''" by code_simp+
  then show ?thesis using assms by (simp add: identifyPatchKey_def int_field_key_def)
qed

text \<open>A shard key is the patch field whatever its type, so its values are replaced by 64-bit integers.\<close>

lemma patch_key_of_shard_key:
  "cd_shard col = Some sh \<Longrightarrow> sh_key sh = (f, v) # rest \<Longrightarrow> identifyPatchKey col order = f"
  by (simp add: identifyPatchKey_def)

subsection \<open>Document ids in a batch\<close>

datatype batch_id_error = id_unmarshal string | id_not_array | id_not_document

definition has_id :: "document \<Rightarrow> bool" where
  "has_id d \<longleftrightarrow> list_ex (\<lambda>e. fst e = ''_id'') d"

definition with_id :: "(nat \<Rightarrow> gval) \<Rightarrow> nat \<Rightarrow> document \<Rightarrow> document" where
  "with_id newID j d = (if has_id d then d else (''_id'', newID j) # d)"

primrec add_ids :: "(nat \<Rightarrow> gval) \<Rightarrow> nat \<Rightarrow> gval list \<Rightarrow> batch_id_error + gval list" where
  "add_ids newID j [] = Inr []"
| "add_ids newID j (v # vs) =
     (case v of GDoc d \<Rightarrow>
        map_sum id (Cons (GDoc (with_id newID j d))) (add_ids newID (Suc j) vs)
      | _ \<Rightarrow> Inl id_not_document)"

primrec ids_in_command :: "(nat \<Rightarrow> gval) \<Rightarrow> document \<Rightarrow> batch_id_error + document" where
  "ids_in_command newID [] = Inr []"
| "ids_in_command newID (e # es) =
     (if fst e \<noteq> ''documents'' then map_sum id (Cons e) (ids_in_command newID es)
      else case snd e of GA docs \<Rightarrow>
          (case add_ids newID 0 docs of Inl m \<Rightarrow> Inl m
           | Inr docs' \<Rightarrow> map_sum id (Cons (fst e, GA docs')) (ids_in_command newID es))
        | _ \<Rightarrow> Inl id_not_array)"

definition withBatchIDsFrom ::
    "(bytes \<Rightarrow> document res) \<Rightarrow> (document \<Rightarrow> bytes res) \<Rightarrow> (nat \<Rightarrow> gval) \<Rightarrow> bytes \<Rightarrow> batch_id_error + bytes res" where
  "withBatchIDsFrom unmarshal marshal newID raw =
     (case unmarshal raw of Inl m \<Rightarrow> Inl (id_unmarshal m)
      | Inr cmd \<Rightarrow> map_sum id marshal (ids_in_command newID cmd))"

text \<open>Every document of the sent command has an id, its own where it had one, and is otherwise unchanged.\<close>

lemma has_id_with_id [simp]: "has_id (with_id newID j d)"
  by (simp add: with_id_def has_id_def)

lemma add_ids_all:
  "add_ids newID j vs = Inr vs' \<Longrightarrow>
    \<exists>ds. vs = map GDoc ds \<and> vs' = map (\<lambda>(k, d). GDoc (with_id newID k d)) (enumerate j ds)"
proof (induction vs arbitrary: j vs')
  case (Cons v vs)
  obtain d where d: "v = GDoc d" using Cons.prems by (cases v) auto
  obtain ws where ws: "add_ids newID (Suc j) vs = Inr ws" "vs' = GDoc (with_id newID j d) # ws"
    using Cons.prems d by (cases "add_ids newID (Suc j) vs") auto
  obtain ds where "vs = map GDoc ds" "ws = map (\<lambda>(k, d). GDoc (with_id newID k d)) (enumerate (Suc j) ds)"
    using Cons.IH [OF ws(1)] by blast
  then show ?case using d ws(2) by (intro exI [of _ "d # ds"]) simp
qed simp

end
