(* ===== verification/Worker.thy ===== *)
theory Worker
  imports BatchBytes Execute "HOL-Library.Monad_Syntax"
begin

text \<open>
  What a worker does next (\<open>independentWorker\<close> of \<open>internal/mongo/runner.go\<close>): one turn of its loop from the draws of
  its generator to the operation it hands to the execute functions (Execute.thy). The outer option of every function
  is its return: \<open>None\<close> is a panic or a draw that never ends. Sequence numbers and prebuilt batches are the worker's
  own state; the record pool and the insert cache are shared.
\<close>

text \<open>The settings of the run a worker reads, \<open>workloadConfig\<close>.\<close>

record worker_env =
  we_cols :: "collection_def list"
  we_db :: "string option"
  we_mix :: op_mix
  we_queries :: query_map
  we_filterField :: string
  we_useTx :: bool
  we_maxTxOps :: int
  we_hitRate :: int
  we_insertBatch :: int
  we_findBatchSize :: int      \<comment> \<open>\<open>appConfig.FindBatchSize\<close>\<close>
  we_findBatch :: int
  we_findLimit :: int
  we_concurrency :: int
  we_think :: int
  we_jitter :: int

subsection \<open>Ids of a fast find\<close>

text \<open>\<open>appendPooledIntIDs\<close>: at most \<open>draws\<close> more draws; \<open>opn n\<close> is whether the context is still open with \<open>n\<close> draws left.\<close>

definition int_value :: "gval option \<Rightarrow> int option" where
  "int_value v = (case v of Some (GInt i) \<Rightarrow> Some i | Some (GInt32 i) \<Rightarrow> Some i | Some (GInt64 i) \<Rightarrow> Some i | _ \<Rightarrow> None)"

primrec pooled_ids ::
    "'g rng_ops \<Rightarrow> (rat \<Rightarrow> rat \<Rightarrow> rat) \<Rightarrow> record_pool option \<Rightarrow> string \<Rightarrow> string \<Rightarrow> (nat \<Rightarrow> bool) \<Rightarrow> nat \<Rightarrow> nat \<Rightarrow> int list \<Rightarrow> 'g option
      \<Rightarrow> (int list \<times> 'g option) option" where
  "pooled_ids R pow pool ns key opn want 0 ids g = Some (ids, g)"
| "pooled_ids R pow pool ns key opn want (Suc draws) ids g =
     (if length ids < want \<and> opn (Suc draws) then
        Option.bind (pool_Random R pow pool ns g) (\<lambda>(rec, g').
          case rec of None \<Rightarrow> Some (ids, g')
          | Some d \<Rightarrow> pooled_ids R pow pool ns key opn want draws
              (case int_value (map_of d key) of Some i \<Rightarrow> ids @ [i] | None \<Rightarrow> ids) g')
      else Some (ids, g))"

definition appendPooledIntIDs ::
    "'g rng_ops \<Rightarrow> (rat \<Rightarrow> rat \<Rightarrow> rat) \<Rightarrow> record_pool option \<Rightarrow> string \<Rightarrow> string \<Rightarrow> (nat \<Rightarrow> bool) \<Rightarrow> nat \<Rightarrow> 'g option
      \<Rightarrow> (int list \<times> 'g option) option" where
  "appendPooledIntIDs R pow pool ns key opn want g = pooled_ids R pow pool ns key opn want (4 * want) [] g"

text \<open>The rest of the ids: a worker number below the concurrency and a position below ten million.\<close>

primrec random_ids :: "'g rand_ops \<Rightarrow> int \<Rightarrow> nat \<Rightarrow> 'g \<Rightarrow> (int list \<times> 'g) option" where
  "random_ids D workers 0 g = Some ([], g)"
| "random_ids D workers (Suc n) g = do {
     (w, g1) \<leftarrow> rd_Intn D workers g;
     (p, g2) \<leftarrow> rd_Int63n D 10000000 g1;
     (ids, g3) \<leftarrow> random_ids D workers n g2;
     Some (to_i64 (w * 100000000 + p) # ids, g3)
   }"

definition fast_batch_size :: "int \<Rightarrow> int" where
  "fast_batch_size n = (if n \<le> 1 then 10 else n)"

subsection \<open>Standard operations\<close>

definition or_positive :: "int \<Rightarrow> int \<Rightarrow> int" where
  "or_positive n d = (if n \<le> 0 then d else n)"

definition map_gval :: "document option \<Rightarrow> gval" where
  "map_gval m = (case m of Some kvs \<Rightarrow> GMap kvs | None \<Rightarrow> GNil)"

text \<open>The request of a generated operation: the filled filter or pipeline and what the query says.\<close>

definition standard_request ::
    "worker_env \<Rightarrow> string \<Rightarrow> collection_def \<Rightarrow> query_def \<Rightarrow> document option \<Rightarrow> gval list option \<Rightarrow> bool \<Rightarrow> exec_request" where
  "standard_request we opType col q filt pipeline existing =
     op_request.extend
       \<lparr>rq_opType = opType, rq_col = collection_ref.truncate col, rq_filter = map_gval filt,
        rq_pipeline = (case pipeline of Some xs \<Rightarrow> GSlice xs | None \<Rightarrow> GNil), rq_update = map_gval (qd_update q),
        rq_projection = map_gval (qd_projection q), rq_upsert = qd_upsert q, rq_doc = GNil, rq_docs = [],
        rq_findLimit = or_positive (qd_limit q) (we_findLimit we), rq_findBatch = or_positive (we_findBatch we) 10,
        rq_usedExisting = existing, rq_findSort = GNil, rq_findSkip = 0, rq_hint = GNil\<rparr>
       \<lparr>xr_q = q, xr_filterMap = filt, xr_pipelineIn = pipeline, xr_poolDoc = None, xr_poolDocs = [], xr_line = None\<rparr>"

text \<open>\<open>withDocumentID\<close>: a document recorded as inserted has an id, \<open>oid\<close> when it had none.\<close>

definition withDocumentID :: "gval \<Rightarrow> document \<Rightarrow> document" where
  "withDocumentID oid doc = (if map_of doc ''_id'' \<noteq> None then doc else AList.update ''_id'' oid doc)"

definition insert_request :: "bool \<Rightarrow> gval \<Rightarrow> document \<Rightarrow> exec_request \<Rightarrow> exec_request" where
  "insert_request recording oid doc r =
     r\<lparr>rq_doc := GMap (if recording then withDocumentID oid doc else doc), xr_poolDoc := Some doc\<rparr>"

definition insertMany_request :: "bool \<Rightarrow> (nat \<Rightarrow> gval) \<Rightarrow> document list \<Rightarrow> exec_request \<Rightarrow> exec_request" where
  "insertMany_request recording oids docs r =
     r\<lparr>rq_docs := map (\<lambda>(i, d). GMap (if recording then withDocumentID (oids i) d else d)) (enumerate 0 docs),
       xr_poolDocs := map GMap docs\<rparr>"

definition query_ops :: "string list" where
  "query_ops = fallback_ops @ [''aggregate'']"

text \<open>What surrounds the turn: the generators of fresh documents, ids for recorded inserts and fallback updates, the
pool, whether a recording is active.\<close>

record 'g turn_env =
  te_D :: "'g rand_ops"
  te_pow :: "rat \<Rightarrow> rat \<Rightarrow> rat"
  te_update :: "'g update_gen"
  te_spare :: "collection_def \<Rightarrow> document"   \<comment> \<open>\<open>workloads.GenerateDocument\<close>, used when the cache is empty\<close>
  te_spares :: "collection_def \<Rightarrow> document list"
  te_oids :: "nat \<Rightarrow> gval"
  te_alive :: "nat \<Rightarrow> bool"
  te_recording :: bool
  te_pool :: "record_pool option"

record 'g worker_state1 =
  ws_rng :: 'g
  ws_seq :: int
  ws_batches :: "prebuilt_batch list"
  ws_cache :: insert_cache

datatype plan =
    plan_skip
  | plan_transaction
  | plan_fast_insert collection_def bytes "nat list"
  | plan_fast_find collection_def "int list" int bool   \<comment> \<open>ids, batch size, whether some came from the pool\<close>
  | plan_standard exec_request

subsection \<open>One turn\<close>

definition is_fast :: "worker_env \<Rightarrow> bool \<Rightarrow> collection_def \<Rightarrow> bool" where
  "is_fast we optimized col \<longleftrightarrow> optimized \<and> we_cols we \<noteq> [] \<and> c_name col = c_name (hd (we_cols we))"

text \<open>The fast insert patches the drawn batch where it lies: the worker keeps the patched bytes.\<close>

definition turn_fast_insert ::
    "'g turn_env \<Rightarrow> collection_def \<Rightarrow> 'g worker_state1 \<Rightarrow> (plan \<times> 'g worker_state1) option" where
  "turn_fast_insert te col s = do {
     (i, g) \<leftarrow> rd_Intn (te_D te) (int (length (ws_batches s))) (ws_rng s);
     let b = ws_batches s ! nat i;
     raw \<leftarrow> patch_ids (pb_offsets b) (ws_seq s) (pb_cmdRaw b);
     Some (plan_fast_insert col raw (pb_offsets b),
       s\<lparr>ws_rng := g, ws_seq := to_i64 (ws_seq s + int (length (pb_offsets b))),
         ws_batches := (ws_batches s)[nat i := b\<lparr>pb_cmdRaw := raw\<rparr>]\<rparr>)
   }"

definition turn_fast_find ::
    "worker_env \<Rightarrow> 'g turn_env \<Rightarrow> string \<Rightarrow> collection_def \<Rightarrow> 'g worker_state1 \<Rightarrow> (plan \<times> 'g worker_state1) option" where
  "turn_fast_find we te key col s = do {
     let sz = fast_batch_size (we_findBatchSize we);
     let ns = collectionNamespace (we_db we) (collection_ref.truncate col);
     (hit, g1) \<leftarrow> (if pool_Len (te_pool te) ns > 0
        then map_option (\<lambda>(d, g'). (d < we_hitRate we, g')) (rd_Intn (te_D te) 100 (ws_rng s)) else Some (False, ws_rng s));
     (pooled, g2) \<leftarrow> (if hit
        then Option.bind (appendPooledIntIDs (rd_base (te_D te)) (te_pow te) (te_pool te) ns key (te_alive te) (nat sz) (Some g1))
               (\<lambda>(ids, g'). map_option (Pair ids) g')
        else Some ([], g1));
     (rest, g3) \<leftarrow> random_ids (te_D te) (we_concurrency we) (nat sz - length pooled) g2;
     Some (plan_fast_find col (pooled @ rest) sz (pooled \<noteq> []), s\<lparr>ws_rng := g3\<rparr>)
   }"

text \<open>Values for the placeholders of a filter or a pipeline.\<close>

definition fill_filter ::
    "worker_env \<Rightarrow> 'g turn_env \<Rightarrow> collection_def \<Rightarrow> gval \<Rightarrow> 'g \<Rightarrow> (gval \<times> bool \<times> 'g) option" where
  "fill_filter we te col v g =
     processRecursiveWithPool (rd_base (te_D te)) (te_pow te) v g (te_pool te)
       (collectionNamespace (we_db we) (collection_ref.truncate col)) (we_hitRate we)"

definition turn_query ::
    "worker_env \<Rightarrow> 'g turn_env \<Rightarrow> string \<Rightarrow> collection_def \<Rightarrow> query_def \<Rightarrow> 'g \<Rightarrow> (exec_request \<times> 'g) option" where
  "turn_query we te opType col q g =
     (if opType = ''aggregate'' then do {
        (v, existing, g1) \<leftarrow> fill_filter we te col (GSlice (some_list (qd_pipeline q))) g;
        Some (standard_request we opType col q None (as_slice v) existing, g1)
      }
      else do {
        (v, existing, g1) \<leftarrow> fill_filter we te col (GMap (some_map (qd_filter q))) g;
        Some (standard_request we opType col q (as_map v) None existing, g1)
      })"

definition turn_standard ::
    "worker_env \<Rightarrow> 'g turn_env \<Rightarrow> string \<Rightarrow> collection_def \<Rightarrow> 'g worker_state1 \<Rightarrow> (plan \<times> 'g worker_state1) option" where
  "turn_standard we te opType col s =
     (if opType = ''insert'' then
        (case generateInsertQuery col (te_spare te col) (ws_cache s) of (q, cache) \<Rightarrow> do {
           (r, g) \<leftarrow> turn_query we te opType col q (ws_rng s);
           Some (plan_standard (insert_request (te_recording te) (te_oids te 0) (some_map (qd_filter q)) r),
             s\<lparr>ws_rng := g, ws_cache := cache\<rparr>)
         })
      else if opType = ''insertMany'' then
        (case generateInsertManyQuery (take (nat (we_insertBatch we)) (te_spares te col)) (ws_cache s) of (docs, cache) \<Rightarrow>
           Some (plan_standard (insertMany_request (te_recording te) (te_oids te) docs
                   (standard_request we opType col empty_query None None False)), s\<lparr>ws_cache := cache\<rparr>))
      else if opType \<in> set query_ops then do {
        (q, g) \<leftarrow> selectQueryByTypeWith (rd_base (te_D te)) opType (we_queries we) col (we_filterField we) (te_update te) (ws_rng s);
        (case q of None \<Rightarrow> Some (plan_skip, s\<lparr>ws_rng := g\<rparr>)
         | Some q1 \<Rightarrow> do {
             (r, g2) \<leftarrow> turn_query we te opType col q1 g;
             Some (plan_standard r, s\<lparr>ws_rng := g2\<rparr>)
           })
      }
      else Some (plan_skip, s))"

definition worker_turn ::
    "worker_env \<Rightarrow> 'g turn_env \<Rightarrow> string option \<Rightarrow> 'g worker_state1 \<Rightarrow> (plan \<times> 'g worker_state1) option" where
  "worker_turn we te patchKey s = do {
     (_, g1) \<leftarrow> applyPacing (te_D te) (we_think we) (we_jitter we) (ws_rng s);
     (i, g2) \<leftarrow> rd_Intn (te_D te) (int (length (we_cols we))) g1;
     let col = we_cols we ! nat i;
     (t, g3) \<leftarrow> selectOperation (rd_base (te_D te)) (Some (we_mix we)) g2;
     let s3 = s\<lparr>ws_rng := g3\<rparr>;
     if t = ''transaction'' \<and> we_useTx we then Some (plan_transaction, s3)
     else (let opType = (if t = ''transaction'' then ''find'' else t) in
       if is_fast we (patchKey \<noteq> None) col \<and> (opType = ''insert'' \<or> opType = ''insertMany'') then turn_fast_insert te col s3
       else if is_fast we (patchKey \<noteq> None) col \<and> opType = ''find'' then turn_fast_find we te (the patchKey) col s3
       else turn_standard we te opType col s3)
   }"

subsection \<open>Every turn returns\<close>

definition op_kinds :: "string list" where
  "op_kinds = query_ops @ [''insert'', ''insertMany'', ''transaction'']"

definition pool_small :: "record_pool option \<Rightarrow> bool" where
  "pool_small rp \<longleftrightarrow> (case rp of None \<Rightarrow> True | Some p \<Rightarrow> \<forall>ns. int (length (pool_of p ns)) < 2 ^ 63)"

context rng_source
begin

lemma pool_Random_returns:
  assumes "pool_small rp"
  shows "\<exists>r g'. pool_Random R pow rp ns (Some g) = Some (r, Some g')"
proof (cases rp)
  case (Some p)
  show ?thesis
  proof (cases "ns = [] \<or> pool_of p ns = []")
    case False
    then show ?thesis using Random_member [of ns p pow g] assms Some by (auto simp: pool_small_def)
  qed (auto simp: pool_Random_def Some)
qed (simp add: pool_Random_def)

lemma pooled_ids_returns:
  assumes "pool_small rp"
  shows "length ids \<le> want \<Longrightarrow>
    \<exists>ids' g'. pooled_ids R pow rp ns key opn want n ids (Some g) = Some (ids', Some g') \<and> length ids' \<le> want"
proof (induction n arbitrary: ids g)
  case (Suc n)
  obtain r g1 where r: "pool_Random R pow rp ns (Some g) = Some (r, Some g1)" using pool_Random_returns [OF assms] by blast
  show ?case
  proof (cases "length ids < want \<and> opn (Suc n)")
    case True
    then have "length (case int_value (map_of d key) of Some i \<Rightarrow> ids @ [i] | None \<Rightarrow> ids) \<le> want" for d
      by (auto split: option.split)
    from Suc.IH [OF this] show ?thesis using True r Suc.prems by (cases r) auto
  qed (use Suc.prems in auto)
qed simp

lemma processRecursive_returns:
  assumes "pool_small rp"
  shows "\<exists>v' b g'. processRecursiveWithPool R pow v g rp ns hit = Some (v', b, g') \<and> filled v v'"
proof -
  have "\<exists>ex g1. newPlaceholderOptions R pow (Some g) rp ns hit = Some (ex, Some g1)"
  proof -
    obtain d g1 where d: "rng_Intn R 100 g = Some (d, g1)" by (rule Intn_obtain [of 100 g]) auto
    obtain r g2 where "pool_Random R pow rp ns (Some g1) = Some (r, Some g2)" using pool_Random_returns [OF assms] by blast
    then show ?thesis using d by (auto simp: newPlaceholderOptions_def split: option.split)
  qed
  then obtain ex g1 where o: "newPlaceholderOptions R pow (Some g) rp ns hit = Some (ex, Some g1)" by blast
  obtain v' g2 where "processFilterPlaceholders R False ex v [] g1 = Some (v', g2)" "filled v v'"
    using process_filled [OF rng_source_axioms, of False ex v "[]" g1] by blast
  then show ?thesis using o by (simp add: processRecursiveWithPool_def)
qed

end

lemma op_kinds_split: "set op_kinds = set query_ops \<union> {''insert'', ''insertMany'', ''transaction''}"
  by (simp add: op_kinds_def)

lemma choose_type_member: "choose_type pct r cum ops \<in> insert ''find'' (set ops)"
  by (induction ops arbitrary: cum) auto

definition total_updates :: "collection_def list \<Rightarrow> 'g update_gen \<Rightarrow> bool" where
  "total_updates cols upd \<longleftrightarrow> (\<forall>col \<in> set cols. \<forall>g. upd col g \<noteq> None)"

context rng_source
begin

lemma selectOperation_returns: "\<exists>t g'. selectOperation R (Some pct) g = Some (t, g') \<and> t \<in> set op_kinds"
proof -
  obtain r g1 where r: "rng_Intn R 100 g = Some (r, g1)" by (rule Intn_obtain [of 100 g]) auto
  obtain d g2 where d: "rng_Intn R 100 g1 = Some (d, g2)" by (rule Intn_obtain [of 100 g1]) auto
  have "choose_type pct r 0 operationTypes \<in> insert ''find'' (set operationTypes)" by (rule choose_type_member)
  then show ?thesis using r d
    by (auto simp: selectOperation_def one_or_many_def operationTypes_def op_kinds_def query_ops_def fallback_ops_def Let_def)
qed

lemma selectQuery_returns:
  assumes "upd col g \<noteq> None" and "length (qm op) < 2 ^ 62"
  shows "\<exists>q g'. selectQueryByTypeWith R op qm col f upd g = Some (q, g')"
proof -
  let ?m = "filter (\<lambda>q. queryMatchesCollection q (collection_ref.truncate col)) (qm op)"
  obtain u g1 where u: "upd col g = Some (u, g1)" using assms(1) by auto
  show ?thesis
  proof (cases "?m = []")
    case True
    then show ?thesis using u by (simp add: selectQueryByTypeWith_def generateFallbackQueryWith_def)
  next
    case False
    have "length ?m < 2 ^ 62" using assms(2) by (rule le_less_trans [OF length_filter_le])
    then have "int (length ?m) < 2 ^ 63" by simp
    then obtain i g1 where "rng_Intn R (int (length ?m)) g = Some (i, g1)"
      using False by (metis Intn_obtain length_greater_0_conv of_nat_0_less_iff)
    then show ?thesis using False by (simp add: selectQueryByTypeWith_def Let_def)
  qed
qed

end

text \<open>The env of a run: collections, workers, queries and the pool are within the machine's sizes, and generating a
fallback update returns.\<close>

definition env_ok :: "worker_env \<Rightarrow> 'g turn_env \<Rightarrow> bool" where
  "env_ok we te \<longleftrightarrow> we_cols we \<noteq> [] \<and> length (we_cols we) < 2 ^ 62 \<and> 1 \<le> we_concurrency we \<and> we_concurrency we < 2 ^ 30 \<and>
     we_jitter we < 2 ^ 62 \<and> (\<forall>op. length (we_queries we op) < 2 ^ 62) \<and> total_updates (we_cols we) (te_update te) \<and> pool_small (te_pool te)"

definition batches_ok :: "prebuilt_batch list \<Rightarrow> bool" where
  "batches_ok bs \<longleftrightarrow> length bs < 2 ^ 62 \<and> (\<forall>b \<in> set bs. \<exists>a. apart a (pb_offsets b) (length (pb_cmdRaw b)))"

definition state_ok :: "bool \<Rightarrow> 'g worker_state1 \<Rightarrow> bool" where
  "state_ok optimized s \<longleftrightarrow> (optimized \<longrightarrow> ws_batches s \<noteq> []) \<and> batches_ok (ws_batches s) \<and> 0 \<le> ws_seq s \<and>
     (\<forall>b \<in> set (ws_batches s). ws_seq s + int (length (pb_offsets b)) < 2 ^ 63)"

text \<open>What a turn hands on: a command for a collection of the run.\<close>

definition plan_ok :: "worker_env \<Rightarrow> int \<Rightarrow> plan \<Rightarrow> bool" where
  "plan_ok we sq p = (case p of
     plan_skip \<Rightarrow> True
   | plan_transaction \<Rightarrow> we_useTx we
   | plan_fast_insert col raw offs \<Rightarrow> col \<in> set (we_cols we) \<and> batch_ids raw offs = map (\<lambda>j. sq + int j) [0..<length offs]
   | plan_fast_find col ids n pooled \<Rightarrow> col \<in> set (we_cols we) \<and> int (length ids) = n \<and>
       (\<not> pooled \<longrightarrow> list_all (\<lambda>i. 0 \<le> i \<and> i < we_concurrency we * 100000000) ids)
   | plan_standard r \<Rightarrow> rq_opType r \<in> set op_kinds \<and> rq_opType r \<noteq> ''transaction'' \<and>
       (\<exists>col \<in> set (we_cols we). rq_col r = collection_ref.truncate col))"

context rand_source
begin

lemma random_ids_returns:
  assumes "1 \<le> workers" "workers < 2 ^ 30"
  shows "\<exists>ids g'. random_ids D workers n g = Some (ids, g') \<and> length ids = n \<and>
    list_all (\<lambda>i. 0 \<le> i \<and> i < workers * 100000000) ids"
proof (induction n arbitrary: g)
  case (Suc n)
  obtain w g1 where w: "rd_Intn D workers g = Some (w, g1)" "0 \<le> w" "w < workers"
    by (rule Intn_obtain [of workers g]) (use assms in auto)
  obtain p g2 where p: "rd_Int63n D 10000000 g1 = Some (p, g2)" "0 \<le> p" "p < 10000000"
    using Int63n_law [of 10000000 g1] by auto
  obtain ids g3 where ids: "random_ids D workers n g2 = Some (ids, g3)" "length ids = n"
      "list_all (\<lambda>i. 0 \<le> i \<and> i < workers * 100000000) ids" using Suc.IH [of g2] by blast
  have "w * 100000000 + p < workers * 100000000" using w p by auto
  moreover have "to_i64 (w * 100000000 + p) = w * 100000000 + p" using w p assms by (intro to_i64_id) auto
  ultimately show ?case using w p ids by simp
qed simp

lemma turn_fast_find_returns:
  assumes "env_ok we te" "te_D te = D" "col \<in> set (we_cols we)"
  shows "\<exists>p s'. turn_fast_find we te key col s = Some (p, s') \<and> plan_ok we sq p \<and>
    ws_batches s' = ws_batches s \<and> ws_seq s' = ws_seq s"
proof -
  define ns where "ns = collectionNamespace (we_db we) (collection_ref.truncate col)"
  define sz where "sz = fast_batch_size (we_findBatchSize we)"
  have size: "1 \<le> sz" by (simp add: sz_def fast_batch_size_def)
  have w: "1 \<le> we_concurrency we" "we_concurrency we < 2 ^ 30" and small: "pool_small (te_pool te)"
    using assms(1) by (simp_all add: env_ok_def)
  obtain hit g1 where hit: "(if pool_Len (te_pool te) ns > 0
      then map_option (\<lambda>(d, g'). (d < we_hitRate we, g')) (rd_Intn D 100 (ws_rng s)) else Some (False, ws_rng s)) = Some (hit, g1)"
  proof -
    obtain d g' where "rd_Intn D 100 (ws_rng s) = Some (d, g')" by (rule Intn_obtain [of 100 "ws_rng s"]) auto
    then show thesis using that by (cases "pool_Len (te_pool te) ns > 0") auto
  qed
  obtain pooled g2 where pooled: "(if hit
      then Option.bind (appendPooledIntIDs (rd_base D) (te_pow te) (te_pool te) ns key (te_alive te) (nat sz) (Some g1))
             (\<lambda>(ids, g'). map_option (Pair ids) g')
      else Some ([], g1)) = Some (pooled, g2)" "length pooled \<le> nat sz"
    using pooled_ids_returns [OF small, of "[]" "nat sz" "te_pow te" ns key "te_alive te" "4 * nat sz" g1]
    by (cases hit) (auto simp: appendPooledIntIDs_def)
  obtain rest g3 where rest: "random_ids D (we_concurrency we) (nat sz - length pooled) g2 = Some (rest, g3)"
      "length rest = nat sz - length pooled" "list_all (\<lambda>i. 0 \<le> i \<and> i < we_concurrency we * 100000000) rest"
    using random_ids_returns [OF w] by blast
  have "turn_fast_find we te key col s = Some (plan_fast_find col (pooled @ rest) sz (pooled \<noteq> []), s\<lparr>ws_rng := g3\<rparr>)"
    by (simp only: turn_fast_find_def Let_def assms(2) ns_def [symmetric] sz_def [symmetric] hit pooled(1) rest(1)
        Option.bind.bind_lunit prod.case)
  moreover have "plan_ok we sq (plan_fast_find col (pooled @ rest) sz (pooled \<noteq> []))"
    using rest(2,3) pooled(2) size assms(3) by (auto simp: plan_ok_def)
  ultimately show ?thesis by simp
qed

lemma turn_query_returns:
  assumes "env_ok we te" "te_D te = D" "col \<in> set (we_cols we)"
  shows "\<exists>r g'. turn_query we te opType col q g = Some (r, g') \<and> rq_opType r = opType \<and> rq_col r = collection_ref.truncate col"
proof -
  have small: "pool_small (te_pool te)" using assms(1) by (simp add: env_ok_def)
  have fill: "\<exists>v' b g'. fill_filter we te col v g = Some (v', b, g')" for v
    using processRecursive_returns [OF small, of "te_pow te" v g "collectionNamespace (we_db we) (collection_ref.truncate col)" "we_hitRate we"]
    unfolding fill_filter_def assms(2) by blast
  obtain v b g1 where 1: "fill_filter we te col (GSlice (some_list (qd_pipeline q))) g = Some (v, b, g1)" using fill by blast
  obtain v' b' g1' where 2: "fill_filter we te col (GMap (some_map (qd_filter q))) g = Some (v', b', g1')" using fill by blast
  have "rq_opType (standard_request we opType col q f p x) = opType \<and>
      rq_col (standard_request we opType col q f p x) = collection_ref.truncate col" for f p x
    by (simp add: standard_request_def op_request.extend_def)
  then show ?thesis using 1 2 by (cases "opType = ''aggregate''") (simp_all add: turn_query_def)
qed

lemma turn_standard_returns:
  assumes "env_ok we te" "te_D te = D" "col \<in> set (we_cols we)" "opType \<in> set op_kinds" "opType \<noteq> ''transaction''"
  shows "\<exists>p s'. turn_standard we te opType col s = Some (p, s') \<and> plan_ok we sq p \<and>
    ws_batches s' = ws_batches s \<and> ws_seq s' = ws_seq s"
proof -
  have ok: "plan_ok we sq (plan_standard r)" if "rq_opType r = opType" "rq_col r = collection_ref.truncate col" for r
    using that assms(3-5) by (auto simp: plan_ok_def)
  consider "opType = ''insert''" | "opType = ''insertMany''" | "opType \<in> set query_ops" "opType \<noteq> ''insert''" "opType \<noteq> ''insertMany''"
    using assms(4,5) unfolding op_kinds_split by blast
  then show ?thesis
  proof cases
    case 1
    obtain q cache where q: "generateInsertQuery col (te_spare te col) (ws_cache s) = (q, cache)" by fastforce
    obtain r g1 where r: "turn_query we te opType col q (ws_rng s) = Some (r, g1)" "rq_opType r = opType"
        "rq_col r = collection_ref.truncate col" using turn_query_returns [OF assms(1-3)] by blast
    then show ?thesis using 1 q ok [of "insert_request (te_recording te) (te_oids te 0) (some_map (qd_filter q)) r"]
      by (simp add: turn_standard_def insert_request_def)
  next
    case 2
    obtain docs cache where d: "generateInsertManyQuery (take (nat (we_insertBatch we)) (te_spares te col)) (ws_cache s) = (docs, cache)"
      by fastforce
    show ?thesis using 2 d
        ok [of "insertMany_request (te_recording te) (te_oids te) docs (standard_request we opType col empty_query None None False)"]
      by (simp add: turn_standard_def insertMany_request_def standard_request_def op_request.extend_def)
  next
    case 3
    obtain q g1 where q: "selectQueryByTypeWith (rd_base D) opType (we_queries we) col (we_filterField we) (te_update te) (ws_rng s) = Some (q, g1)"
    proof -
      have "te_update te col (ws_rng s) \<noteq> None" "length (we_queries we opType) < 2 ^ 62"
        using assms(1,3) unfolding env_ok_def total_updates_def by blast+
      then show thesis using selectQuery_returns that by blast
    qed
    show ?thesis
    proof (cases q)
      case None
      then show ?thesis using 3 q by (simp add: turn_standard_def assms(2) plan_ok_def)
    next
      case (Some q1)
      obtain r g2 where r: "turn_query we te opType col q1 g1 = Some (r, g2)" "rq_opType r = opType"
          "rq_col r = collection_ref.truncate col" using turn_query_returns [OF assms(1-3)] by blast
      then show ?thesis using 3 q Some ok [of r] by (simp add: turn_standard_def assms(2))
    qed
  qed
qed

lemma turn_fast_insert_returns:
  assumes "te_D te = D" "col \<in> set (we_cols we)" "state_ok True s"
  shows "\<exists>p s'. turn_fast_insert te col s = Some (p, s') \<and> plan_ok we (ws_seq s) p \<and> batches_ok (ws_batches s') \<and>
    map pb_offsets (ws_batches s') = map pb_offsets (ws_batches s)"
proof -
  have ne: "ws_batches s \<noteq> []" and bs: "batches_ok (ws_batches s)" using assms(3) by (simp_all add: state_ok_def)
  obtain i g1 where i: "rd_Intn D (int (length (ws_batches s))) (ws_rng s) = Some (i, g1)" "0 \<le> i" "i < int (length (ws_batches s))"
    by (rule Intn_obtain [of "int (length (ws_batches s))" "ws_rng s"]) (use ne bs in \<open>auto simp: batches_ok_def\<close>)
  define b where "b = ws_batches s ! nat i"
  have b: "b \<in> set (ws_batches s)" using i by (auto simp: b_def intro: nth_mem)
  then obtain a where a: "apart a (pb_offsets b) (length (pb_cmdRaw b))" using bs by (auto simp: batches_ok_def)
  obtain raw where raw: "patch_ids (pb_offsets b) (ws_seq s) (pb_cmdRaw b) = Some raw" "length raw = length (pb_cmdRaw b)"
      "map (\<lambda>off. sint (get_u64 off raw)) (pb_offsets b) = map (\<lambda>j. ws_seq s + int j) [0..<length (pb_offsets b)]"
    using patch_ids_reads [OF a, of "ws_seq s"] assms(3) b by (auto simp: state_ok_def)
  have "filter (\<lambda>off. off + 8 \<le> length raw) (pb_offsets b) = pb_offsets b"
    using apart_ge [OF a] raw(2) by (simp add: filter_id_conv)
  then have ids: "batch_ids raw (pb_offsets b) = map (\<lambda>j. ws_seq s + int j) [0..<length (pb_offsets b)]"
    using raw(3) by (simp add: batch_ids_def)
  have "batches_ok ((ws_batches s)[nat i := b\<lparr>pb_cmdRaw := raw\<rparr>])"
    using bs a raw(2) by (auto simp: batches_ok_def dest!: subsetD [OF set_update_subset_insert])
  moreover have "map pb_offsets ((ws_batches s)[nat i := b\<lparr>pb_cmdRaw := raw\<rparr>]) = map pb_offsets (ws_batches s)"
    using i by (simp add: map_update b_def list_update_same_conv)
  ultimately show ?thesis using i(1) raw(1) ids assms(2)
    by (simp add: turn_fast_insert_def assms(1) b_def [symmetric] Let_def plan_ok_def)
qed

text \<open>The whole turn: it returns and plans an operation of the run.\<close>

lemma worker_turn_returns:
  assumes env: "env_ok we te" "te_D te = D" and st: "state_ok (patchKey \<noteq> None) s"
  shows "\<exists>p s'. worker_turn we te patchKey s = Some (p, s') \<and> plan_ok we (ws_seq s) p \<and> batches_ok (ws_batches s') \<and>
    map pb_offsets (ws_batches s') = map pb_offsets (ws_batches s)"
proof -
  have bs: "batches_ok (ws_batches s)" using st by (simp add: state_ok_def)
  have "\<exists>d g1. applyPacing D (we_think we) (we_jitter we) (ws_rng s) = Some (d, g1)"
    using Int63n_law [of "we_jitter we + 1" "ws_rng s"] env(1) by (auto simp: applyPacing_def env_ok_def)
  then obtain d g1 where d: "applyPacing D (we_think we) (we_jitter we) (ws_rng s) = Some (d, g1)" by blast
  obtain i g2 where i: "rd_Intn D (int (length (we_cols we))) g1 = Some (i, g2)" "0 \<le> i" "i < int (length (we_cols we))"
    by (rule Intn_obtain [of "int (length (we_cols we))" g1]) (use env(1) in \<open>auto simp: env_ok_def\<close>)
  define col where "col = we_cols we ! nat i"
  have col: "col \<in> set (we_cols we)" using i by (auto simp: col_def intro: nth_mem)
  obtain t g3 where t: "selectOperation (rd_base D) (Some (we_mix we)) g2 = Some (t, g3)" "t \<in> set op_kinds"
    using selectOperation_returns by blast
  define s3 where "s3 = s\<lparr>ws_rng := g3\<rparr>"
  have s3: "ws_batches s3 = ws_batches s" "ws_seq s3 = ws_seq s" by (simp_all add: s3_def)
  have eq: "worker_turn we te patchKey s =
     (if t = ''transaction'' \<and> we_useTx we then Some (plan_transaction, s3)
      else (let opType = (if t = ''transaction'' then ''find'' else t) in
       if is_fast we (patchKey \<noteq> None) col \<and> (opType = ''insert'' \<or> opType = ''insertMany'') then turn_fast_insert te col s3
       else if is_fast we (patchKey \<noteq> None) col \<and> opType = ''find'' then turn_fast_find we te (the patchKey) col s3
       else turn_standard we te opType col s3))"
    by (simp only: worker_turn_def env(2) d i(1) t(1) Let_def col_def [symmetric] s3_def [symmetric] Option.bind.bind_lunit prod.case)
  show ?thesis
  proof (cases "t = ''transaction'' \<and> we_useTx we")
    case True
    then show ?thesis using eq bs by (simp add: s3 plan_ok_def)
  next
    case False
    define opType where "opType = (if t = ''transaction'' then ''find'' else t)"
    have kind: "opType \<in> set op_kinds" "opType \<noteq> ''transaction''" using t(2) by (auto simp: opType_def op_kinds_def query_ops_def fallback_ops_def)
    have st3: "state_ok True s3" if "patchKey \<noteq> None" using st that by (simp add: state_ok_def s3)
    show ?thesis
    proof (cases "is_fast we (patchKey \<noteq> None) col \<and> (opType = ''insert'' \<or> opType = ''insertMany'')")
      case True
      then have "worker_turn we te patchKey s = turn_fast_insert te col s3" "patchKey \<noteq> None"
        using eq False by (simp_all add: opType_def [symmetric] Let_def is_fast_def)
      then show ?thesis using turn_fast_insert_returns [OF env(2) col st3] by (simp add: s3)
    next
      case no_insert: False
      show ?thesis
      proof (cases "is_fast we (patchKey \<noteq> None) col \<and> opType = ''find''")
        case True
        then have "worker_turn we te patchKey s = turn_fast_find we te (the patchKey) col s3"
          using eq False no_insert by (simp add: opType_def [symmetric] Let_def)
        moreover obtain p s' where "turn_fast_find we te (the patchKey) col s3 = Some (p, s')" "plan_ok we (ws_seq s) p"
            "ws_batches s' = ws_batches s3" using turn_fast_find_returns [OF env col] by blast
        ultimately show ?thesis using bs by (simp add: s3)
      next
        case no_find: False
        then have "worker_turn we te patchKey s = turn_standard we te opType col s3"
          using eq False no_insert by (simp only: opType_def [symmetric] Let_def if_False)
        moreover obtain p s' where "turn_standard we te opType col s3 = Some (p, s')" "plan_ok we (ws_seq s) p"
            "ws_batches s' = ws_batches s3" using turn_standard_returns [OF env col kind] by blast
        ultimately show ?thesis using bs by (simp add: s3)
      qed
    qed
  qed
qed

end

text \<open>C23: A turn of a worker never panics and never hangs on its generator: it returns, and what it hands on is a command of
the run for one of its collections, with the ids of the batch it patched or as many ids as a fast find asks for.\<close>

theorem worker_turn_plans:
  assumes "rand_source (te_D te)" "env_ok we te" "state_ok (patchKey \<noteq> None) s"
  shows "\<exists>p s'. worker_turn we te patchKey s = Some (p, s') \<and> plan_ok we (ws_seq s) p \<and> batches_ok (ws_batches s') \<and>
    map pb_offsets (ws_batches s') = map pb_offsets (ws_batches s)"
  by (rule rand_source.worker_turn_returns [OF assms(1,2) refl assms(3)])

definition sample_we :: worker_env where
  "sample_we = \<lparr>we_cols = [sample_collection], we_db = None, we_mix = mix_percentages (\<lambda>k. if k = PInsert then 100 else 0),
     we_queries = query_map_of [], we_filterField = ''_id'', we_useTx = False, we_maxTxOps = 3, we_hitRate = 90,
     we_insertBatch = 2, we_findBatchSize = 10, we_findBatch = 10, we_findLimit = 5, we_concurrency = 4, we_think = 0, we_jitter = 0\<rparr>"

definition sample_te :: "u64 turn_env" where
  "sample_te = \<lparr>te_D = splitmix_rand, te_pow = (\<lambda>x e. x), te_update = (\<lambda>_ g. Some ([], g)), te_spare = (\<lambda>_. []), te_spares = (\<lambda>_. []),
     te_oids = (\<lambda>_. GNil), te_alive = (\<lambda>_. True), te_recording = False, te_pool = None\<rparr>"

lemma worker_turn_plans_witness:
  "\<exists>p s'. worker_turn sample_we sample_te (Some ''id'')
      \<lparr>ws_rng = 7, ws_seq = 100000000, ws_batches = [\<lparr>pb_cmdRaw = replicate 20 0, pb_offsets = [2, 10]\<rparr>], ws_cache = []\<rparr> = Some (p, s')
    \<and> plan_ok sample_we 100000000 p"
proof -
  let ?s = "\<lparr>ws_rng = 7, ws_seq = 100000000, ws_batches = [\<lparr>pb_cmdRaw = replicate 20 0, pb_offsets = [2, 10]\<rparr>], ws_cache = []\<rparr>"
  have "rand_source (te_D sample_te)" by (simp add: sample_te_def smr.rand_source_axioms)
  moreover have "env_ok sample_we sample_te"
    by (simp add: env_ok_def sample_we_def sample_te_def query_map_of_def total_updates_def pool_small_def)
  moreover have "state_ok (Some ''id'' \<noteq> None) ?s"
    by (simp add: state_ok_def batches_ok_def exI [of _ 0])
  ultimately show ?thesis using worker_turn_plans [of sample_te sample_we "Some ''id''" ?s] by auto
qed

text \<open>The random ids of a fast find are below the ids of the last worker, whose documents it never asks for: workers are
numbered from 1, the drawn worker from 0.\<close>

lemma fast_find_misses_last_worker:
  assumes "plan_ok we sq (plan_fast_find col ids n False)" and "k \<ge> 0"
  shows "we_concurrency we * 100000000 + k \<notin> set ids"
  using assms by (auto simp: plan_ok_def list_all_iff)

end
