(* ===== verification/DataGen.thy ===== *)
theory DataGen
  imports Collections Rand "HOL-Library.AList"
begin

text \<open>
  Generated values and documents (\<open>internal/datagen\<close>, \<open>internal/workloads\<close>). A \<open>*gofakeit.Faker\<close> is the generator
  state with the methods the source calls, parameters of the model; \<open>MethodByName\<close> is \<open>fk_method\<close>. Whether a seed is
  configured and the reference time are fixed during a run. Strings are ASCII where the source works on runes.
\<close>

datatype 'g faker_method = no_args "'g \<Rightarrow> gval \<times> 'g" | int_arg "int \<Rightarrow> 'g \<Rightarrow> gval \<times> 'g" | other_args

record 'g faker =
  fk_rand :: "'g rand_ops"
  fk_method :: "string \<Rightarrow> 'g faker_method option"
  fk_City :: "'g \<Rightarrow> string \<times> 'g"
  fk_FirstName :: "'g \<Rightarrow> string \<times> 'g"
  fk_LastName :: "'g \<Rightarrow> string \<times> 'g"
  fk_UUID :: "'g \<Rightarrow> string \<times> 'g"
  fk_SSN :: "'g \<Rightarrow> string \<times> 'g"
  fk_seeded :: bool
  fk_now :: int     \<comment> \<open>\<open>referenceNow\<close>, in seconds\<close>
  fk_oid :: string  \<comment> \<open>\<open>bson.NewObjectID()\<close>, without a seed\<close>

abbreviation fk_Intn :: "'g faker \<Rightarrow> int \<Rightarrow> 'g \<Rightarrow> (int \<times> 'g) option" where
  "fk_Intn F \<equiv> rd_Intn (fk_rand F)"

subsection \<open>Seeds\<close>

text \<open>The seed base and counter of \<open>ConfigureSeed\<close> and \<open>NextSeed\<close>; without a seed the clock decides.\<close>

record seed_state =
  seed_configured :: bool
  seed_base :: int
  seed_counter :: int

definition ConfigureSeed :: "int \<Rightarrow> seed_state \<Rightarrow> seed_state" where
  "ConfigureSeed seed s = (if seed = 0 then s\<lparr>seed_configured := False\<rparr> else \<lparr>seed_configured = True, seed_base = seed, seed_counter = 0\<rparr>)"

definition NextSeed :: "int \<Rightarrow> seed_state \<Rightarrow> int \<times> seed_state" where
  "NextSeed clock s =
     (if seed_configured s then (let c = to_i64 (seed_counter s + 1) in (to_i64 (seed_base s + c), s\<lparr>seed_counter := c\<rparr>))
      else (clock, s))"

text \<open>\<open>FieldNames\<close>: sorted with a seed, else in the order of the map iteration.\<close>

definition FieldNames :: "bool \<Rightarrow> (string \<times> field_def) list \<Rightarrow> (string \<times> field_def) list" where
  "FieldNames seeded fs = (if seeded then sort_entries fs else fs)"

subsection \<open>Domain values\<close>

definition AirlineCodes :: "string list" where
  "AirlineCodes = [''AA'', ''DL'', ''UA'', ''WN'', ''AS'', ''B6'', ''NK'', ''F9'', ''HA'', ''G4'']"

definition AirportCodes :: "string list" where
  "AirportCodes = [''ATL'', ''LAX'', ''ORD'', ''DFW'', ''DEN'', ''JFK'', ''SFO'', ''SEA'', ''LAS'', ''MCO'',
     ''EWR'', ''MIA'', ''PHX'', ''IAH'', ''BOS'', ''MSP'', ''DTW'', ''FLL'', ''PHL'', ''LGA'',
     ''CLT'', ''BWI'', ''SLC'', ''SAN'', ''DCA'', ''TPA'', ''PDX'', ''STL'', ''HNL'', ''AUS'']"

definition planeSeatCapacity :: "(string \<times> int) list" where
  "planeSeatCapacity = [(''Boeing 737-800'', 162), (''Airbus A320'', 150), (''Embraer E190'', 100), (''Bombardier CRJ900'', 76),
     (''Boeing 777-300ER'', 396), (''Airbus A350-900'', 325), (''Boeing 787-9'', 290), (''Airbus A321neo'', 194)]"

definition PlaneTypes :: "string list" where
  "PlaneTypes = map fst planeSeatCapacity"

definition Amenities :: "string list" where
  "Amenities = [''WiFi'', ''Seatback TV'', ''Power outlets'', ''Hot meals'', ''Priority boarding'', ''Extra legroom'', ''USB charging'']"

definition maxDetailedPassengers :: int where "maxDetailedPassengers = 25"

definition PlaneSeatCapacity :: "string \<Rightarrow> int" where
  "PlaneSeatCapacity t = (case map_of planeSeatCapacity t of Some c \<Rightarrow> c | None \<Rightarrow> 150)"

text \<open>One of a list.\<close>

definition choose_from :: "'g faker \<Rightarrow> 'a list \<Rightarrow> 'g \<Rightarrow> ('a \<times> 'g) option" where
  "choose_from F xs g = map_option (\<lambda>(i, g'). (xs ! nat i, g')) (fk_Intn F (int (length xs)) g)"

definition RandomFlightCode :: "'g faker \<Rightarrow> 'g \<Rightarrow> (string \<times> 'g) option" where
  "RandomFlightCode F g = Option.bind (choose_from F AirlineCodes g) (\<lambda>(carrier, g1).
     map_option (\<lambda>(n, g2). (carrier @ itoa (n + 100), g2)) (fk_Intn F 900 g1))"

definition RandomGate :: "'g faker \<Rightarrow> 'g \<Rightarrow> (string \<times> 'g) option" where
  "RandomGate F g = Option.bind (fk_Intn F 6 g) (\<lambda>(l, g1).
     map_option (\<lambda>(n, g2). (char_of (65 + nat l) # itoa (n + 1), g2)) (fk_Intn F 50 g1))"

definition RandomAirportCode :: "'g faker \<Rightarrow> 'g \<Rightarrow> (string \<times> 'g) option" where
  "RandomAirportCode F g = choose_from F AirportCodes g"

text \<open>An integer in the configured range or the default one; a range that overflows gives its start.\<close>

definition int_range :: "field_def \<Rightarrow> int \<Rightarrow> int \<Rightarrow> int \<times> int" where
  "int_range d lo0 hi0 =
     (let lo = (case fd_min d of Some m \<Rightarrow> m | None \<Rightarrow> lo0); hi = (case fd_max d of Some m \<Rightarrow> m | None \<Rightarrow> hi0)
      in if hi < lo then (hi, lo) else (lo, hi))"

definition draw_range :: "'g faker \<Rightarrow> int \<times> int \<Rightarrow> 'g \<Rightarrow> (int \<times> 'g) option" where
  "draw_range F r g =
     (let span = to_i64 (snd r - fst r + 1) in
      if span \<le> 0 then Some (fst r, g) else map_option (\<lambda>(v, g'). (to_i64 (v + fst r), g')) (fk_Intn F span g))"

definition boundedInt :: "'g faker \<Rightarrow> field_def \<Rightarrow> int \<Rightarrow> int \<Rightarrow> 'g \<Rightarrow> (int \<times> 'g) option" where
  "boundedInt F d defMin defMax g = draw_range F (int_range d defMin defMax) g"

definition RandomEquipment :: "'g faker \<Rightarrow> 'g \<Rightarrow> ((gval \<times> int) \<times> 'g) option" where
  "RandomEquipment F g =
     Option.bind (choose_from F PlaneTypes g) (\<lambda>(t, g1).
     Option.bind (fk_Intn F 4 g1) (\<lambda>(n, g2).
     map_option (\<lambda>(perm, g3).
         ((GMap [(''plane_type'', GStr t), (''total_seats'', GInt (PlaneSeatCapacity t)),
                 (''amenities'', GTSlice (map (\<lambda>i. GStr (Amenities ! i)) (take (nat (n + 2)) perm)))], PlaneSeatCapacity t), g3))
       (Perm (fk_rand F) (length Amenities) g2)))"

text \<open>The deck of seats: rows from 1, columns A to F.\<close>

definition seat_name :: "nat \<Rightarrow> string" where
  "seat_name i = itoa (int (i div 6) + 1) @ [char_of (65 + i mod 6)]"

definition seat_deck :: "int \<Rightarrow> string list" where
  "seat_deck n = map seat_name [0..<nat n]"

definition pad8 :: "int \<Rightarrow> string" where
  "pad8 n = (let s = itoa n in replicate (8 - length s) (CHR ''0'') @ s)"

primrec passenger_docs :: "'g faker \<Rightarrow> nat \<Rightarrow> string list \<Rightarrow> 'g \<Rightarrow> (document list \<times> 'g) option" where
  "passenger_docs F i [] g = Some ([], g)"
| "passenger_docs F i (seat # seats) g =
     (let (nm1, g1) = fk_FirstName F g; (nm2, g2) = fk_LastName F g1 in
      Option.bind (fk_Intn F 99999999 g2) (\<lambda>(n, g3).
        map_option (\<lambda>(ds, g4).
          ([(''passenger_id'', GInt (int i + 1)), (''name'', GStr (nm1 @ '' '' @ nm2)),
            (''ticket_number'', GStr (''TCK-'' @ pad8 (n + 1))), (''seat_number'', GStr seat)] # ds, g4))
          (passenger_docs F (Suc i) seats g3)))"

definition passenger_count :: "int \<Rightarrow> int \<Rightarrow> int" where
  "passenger_count totalSeats seatsAvailable =
     (let b = to_i64 (totalSeats - seatsAvailable); b1 = (if b < 1 then 1 else b); b2 = (if b1 > totalSeats then totalSeats else b1)
      in if b2 > maxDetailedPassengers then maxDetailedPassengers else b2)"

definition RandomPassengers :: "'g faker \<Rightarrow> int \<Rightarrow> int \<Rightarrow> 'g \<Rightarrow> (document list \<times> 'g) option" where
  "RandomPassengers F totalSeats0 seatsAvailable g =
     (let totalSeats = (if totalSeats0 \<le> 0 then 150 else totalSeats0) in
      Option.bind (Shuffle (fk_rand F) (seat_deck totalSeats) g) (\<lambda>(seats, g1).
        passenger_docs F 0 (take (nat (passenger_count totalSeats seatsAvailable)) seats) g1))"

subsection \<open>Providers\<close>

definition str_value :: "(string \<times> 'g) option \<Rightarrow> (gval \<times> 'g) option" where
  "str_value = map_option (\<lambda>(s, g). (GStr s, g))"

definition int_gval :: "(int \<times> 'g) option \<Rightarrow> (gval \<times> 'g) option" where
  "int_gval = map_option (\<lambda>(n, g). (GInt n, g))"

definition passengers_value :: "document list \<Rightarrow> gval" where
  "passengers_value ds = GTSlice (map GMap ds)"

definition passengersProvider :: "'g faker \<Rightarrow> 'g \<Rightarrow> (gval \<times> 'g) option" where
  "passengersProvider F g =
     Option.bind (RandomEquipment F g) (\<lambda>((_, tot), g1).
     Option.bind (fk_Intn F (tot + 1) g1) (\<lambda>(available, g2).
     map_option (\<lambda>(ds, g3). (passengers_value ds, g3)) (RandomPassengers F tot available g2)))"

definition domainProviders :: "(string \<times> ('g faker \<Rightarrow> field_def \<Rightarrow> 'g \<Rightarrow> (gval \<times> 'g) option)) list" where
  "domainProviders =
     [(''flight_code'', \<lambda>F _ g. str_value (RandomFlightCode F g)), (''gate'', \<lambda>F _ g. str_value (RandomGate F g)),
      (''airport_code'', \<lambda>F _ g. str_value (RandomAirportCode F g)), (''airport'', \<lambda>F _ g. str_value (RandomAirportCode F g)),
      (''airline'', \<lambda>F _ g. str_value (choose_from F AirlineCodes g)),
      (''airline_code'', \<lambda>F _ g. str_value (choose_from F AirlineCodes g)),
      (''aircraft'', \<lambda>F _ g. str_value (choose_from F PlaneTypes g)),
      (''plane_type'', \<lambda>F _ g. str_value (choose_from F PlaneTypes g)),
      (''aircraft_model'', \<lambda>F _ g. str_value (choose_from F PlaneTypes g)),
      (''seats_available'', \<lambda>F d g. int_gval (boundedInt F d 0 400 g)),
      (''duration_minutes'', \<lambda>F d g. int_gval (boundedInt F d 30 900 g)),
      (''passenger_count'', \<lambda>F d g. int_gval (boundedInt F d 0 400 g)),
      (''equip'', \<lambda>F _ g. map_option (\<lambda>((e, _), g'). (e, g')) (RandomEquipment F g)),
      (''equipment'', \<lambda>F _ g. map_option (\<lambda>((e, _), g'). (e, g')) (RandomEquipment F g)),
      (''passengers'', \<lambda>F _ g. passengersProvider F g)]"

definition domainProvider :: "string \<Rightarrow> ('g faker \<Rightarrow> field_def \<Rightarrow> 'g \<Rightarrow> (gval \<times> 'g) option) option" where
  "domainProvider name = map_of domainProviders name"

definition capitalize :: "string \<Rightarrow> string" where
  "capitalize s = (case s of [] \<Rightarrow> []
     | c # cs \<Rightarrow> (let n = (of_char c :: nat) in if 97 \<le> n \<and> n \<le> 122 then char_of (n - 32) else c) # cs)"

definition toCamelCase :: "string \<Rightarrow> string" where
  "toCamelCase s = concat (map capitalize (split_on (CHR ''_'') s))"

primrec expandTemplate :: "'g faker \<Rightarrow> string \<Rightarrow> 'g \<Rightarrow> (string \<times> 'g) option" where
  "expandTemplate F [] g = Some ([], g)"
| "expandTemplate F (c # cs) g =
     Option.bind
       (if c = CHR ''#'' then map_option (\<lambda>(n, g'). (char_of (48 + nat n), g')) (fk_Intn F 10 g)
        else if c = CHR ''?'' then map_option (\<lambda>(n, g'). (char_of (65 + nat n), g')) (fk_Intn F 26 g)
        else if c = CHR ''^'' then map_option (\<lambda>(n, g'). (char_of (97 + nat n), g')) (fk_Intn F 26 g)
        else Some (c, g))
       (\<lambda>(d, g1). map_option (\<lambda>(ds, g2). (d # ds, g2)) (expandTemplate F cs g1))"

text \<open>The value of a provider, or None when no generator has its name and the type decides: the outer option is the call
returning.\<close>

definition provider_value :: "'g faker \<Rightarrow> field_def \<Rightarrow> 'g \<Rightarrow> (gval \<times> 'g) option option" where
  "provider_value F d g =
     (let p = fd_provider d; lp = to_lower p;
          fallback = (if lp = ''uuid'' then (let (s, g') = fk_UUID F g in Some (Some (GStr s, g')))
                      else if lp = ''ssn'' then (let (s, g') = fk_SSN F g in Some (Some (GStr s, g'))) else Some None)
      in if p = [] then Some None
         else case domainProvider lp of Some f \<Rightarrow> map_option Some (f F d g)
         | None \<Rightarrow> (case fk_method F (toCamelCase p) of
               Some (no_args f) \<Rightarrow> Some (Some (f g))
             | Some (int_arg f) \<Rightarrow>
                 Some (Some (f (if fd_maxLength d > 0 then fd_maxLength d else if fd_arraySize d > 0 then fd_arraySize d else 5) g))
             | _ \<Rightarrow> fallback))"

subsection \<open>Values\<close>

text \<open>Dates and other scalars: the reference time minus hours, a timestamp, a decimal.\<close>

definition date_value :: "int \<Rightarrow> gval" where "date_value seconds = GScalar (''date '' @ itoa seconds)"
definition timestamp_value :: "int \<Rightarrow> int \<Rightarrow> gval" where "timestamp_value t i = GScalar (''timestamp '' @ itoa t @ '' '' @ itoa i)"
definition decimal_value :: "string \<Rightarrow> gval" where "decimal_value s = GScalar (''decimal '' @ s)"

definition objectid_bytes :: "u64 \<Rightarrow> string" where
  "objectid_bytes v = map (\<lambda>b. char_of (unat b)) (be_bytes 4 SeededReferenceTime @ be_bytes 8 v)"

text \<open>The types without structure; None for \<open>object\<close> and \<open>array\<close>.\<close>

definition scalar_value :: "'g faker \<Rightarrow> field_def \<Rightarrow> string \<Rightarrow> 'g \<Rightarrow> (gval \<times> 'g) option" where
  "scalar_value F d t g =
     (if t \<in> {''int'', ''integer'', ''int32''} then
        map_option (\<lambda>(n, g'). (GInt32 (to_i32 n), g')) (draw_range F (int_range d 0 2147483647) g)
      else if t \<in> {''long'', ''int64''} then (let (v, g') = rd_Int63 (fk_rand F) g in Some (GInt64 v, g'))
      else if t \<in> {''double'', ''float''} then
        (let lo = (case fd_min d of Some m \<Rightarrow> fl (of_int m) | None \<Rightarrow> 0); hi = (case fd_max d of Some m \<Rightarrow> fl (of_int m) | None \<Rightarrow> 1000) in
         map_option (\<lambda>(u, g'). (GFloat (fl (lo + fl (u * fl (hi - lo)))), g')) (rng_Float64 (rd_base (fk_rand F)) g))
      else if t \<in> {''decimal'', ''decimal128''} then
        Option.bind (fk_Intn F 1000 g) (\<lambda>(a, g1). map_option (\<lambda>(b, g2). (decimal_value (itoa a @ ''.'' @ itoa b), g2)) (fk_Intn F 100 g1))
      else if t = ''string'' then
        (if fd_provider d = [] then map_option (\<lambda>(n, g'). (GStr (''str-'' @ itoa n), g')) (fk_Intn F 100000 g) else Some (GStr ''val'', g))
      else if t \<in> {''bool'', ''boolean''} then map_option (\<lambda>(n, g'). (GBool (n = 0), g')) (fk_Intn F 2 g)
      else if t \<in> {''date'', ''datetime''} then
        map_option (\<lambda>(n, g'). (date_value (fk_now F - n * 3600), g')) (fk_Intn F (365 * 24) g)
      else if t = ''timestamp'' then map_option (\<lambda>(n, g'). (timestamp_value (fk_now F) n, g')) (fk_Intn F 100 g)
      else if t = ''objectid'' then
        (if fk_seeded F then (let (v, g') = rd_Uint64 (fk_rand F) g in Some (GOid (objectid_bytes v), g')) else Some (GOid (fk_oid F), g))
      else Some (GStr (''unknown-'' @ fd_type d), g))"

text \<open>A value chosen before its type is looked at: an enumeration, a template, a provider.\<close>

definition chosen_value :: "'g faker \<Rightarrow> field_def \<Rightarrow> 'g \<Rightarrow> (gval \<times> 'g) option option" where
  "chosen_value F d g =
     (if fd_enum d \<noteq> [] then map_option Some (choose_from F (fd_enum d) g)
      else if fd_template d \<noteq> [] then map_option Some (str_value (expandTemplate F (fd_template d) g))
      else provider_value F d g)"

definition array_size :: "'g faker \<Rightarrow> field_def \<Rightarrow> 'g \<Rightarrow> (nat \<times> 'g) option" where
  "array_size F d g =
     (if fd_arraySize d > 0 then Some (nat (fd_arraySize d), g)
      else map_option (\<lambda>(n, g'). (nat (n + 1), g')) (fk_Intn F 5 g))"

primrec random_ints :: "'g faker \<Rightarrow> nat \<Rightarrow> 'g \<Rightarrow> (gval list \<times> 'g) option" where
  "random_ints F 0 g = Some ([], g)"
| "random_ints F (Suc n) g = Option.bind (fk_Intn F 1000 g) (\<lambda>(v, g1). map_option (\<lambda>(vs, g2). (GInt v # vs, g2)) (random_ints F n g1))"

lemma field_def_sizes:
  "size_list (size_prod (\<lambda>_. 0) size) (fd_fields f) < size f"
  "size_list (size_prod (\<lambda>_. 0) size) (sort_entries (fd_fields f)) < size f"
  "fd_items f = Some h \<Longrightarrow> size h < size f"
  by (cases f; simp)+

function (sequential) RandomValueWithFaker :: "'g faker \<Rightarrow> field_def \<Rightarrow> 'g \<Rightarrow> (gval \<times> 'g) option"
  and random_fields :: "'g faker \<Rightarrow> (string \<times> field_def) list \<Rightarrow> 'g \<Rightarrow> (document \<times> 'g) option"
  and random_items :: "'g faker \<Rightarrow> nat \<Rightarrow> field_def \<Rightarrow> 'g \<Rightarrow> (gval list \<times> 'g) option" where
  "RandomValueWithFaker F d g =
     Option.bind (chosen_value F d g) (\<lambda>v. case v of Some r \<Rightarrow> Some r
       | None \<Rightarrow>
          (let t = to_lower (fd_type d) in
           if t = ''object'' \<or> t = ''document'' then
             (if fd_fields d = [] then map_option (\<lambda>(n, g'). (GDoc [(''nested_random'', GInt n)], g')) (fk_Intn F 100 g)
              else map_option (\<lambda>(doc, g'). (GDoc doc, g')) (random_fields F (FieldNames (fk_seeded F) (fd_fields d)) g))
           else if t = ''array'' then
             Option.bind (array_size F d g) (\<lambda>(n, g1).
               map_option (\<lambda>(vs, g2). (GA vs, g2))
                 (case fd_items d of Some item \<Rightarrow> random_items F n item g1 | None \<Rightarrow> random_ints F n g1))
           else scalar_value F d t g))"
| "random_fields F [] g = Some ([], g)"
| "random_fields F ((k, d) # ds) g =
     Option.bind (RandomValueWithFaker F d g) (\<lambda>(v, g1). map_option (\<lambda>(vs, g2). ((k, v) # vs, g2)) (random_fields F ds g1))"
| "random_items F 0 d g = Some ([], g)"
| "random_items F (Suc n) d g =
     Option.bind (RandomValueWithFaker F d g) (\<lambda>(v, g1). map_option (\<lambda>(vs, g2). (v # vs, g2)) (random_items F n d g1))"
  by pat_completeness auto
termination
  by (relation "inv_image (less_than <*lex*> less_than)
      (case_sum (\<lambda>(_, d, _). (size d, 0)) (case_sum (\<lambda>(_, ds, _). (size_list (size_prod (\<lambda>_. 0) size) ds, 0)) (\<lambda>(_, n, d, _). (size d, Suc n))))")
     (auto simp: FieldNames_def field_def_sizes)

subsection \<open>Documents\<close>

definition flightFieldSignals :: "string list" where
  "flightFieldSignals = [''passengers'', ''equipment'', ''seats_available'', ''flight_code'', ''gate'']"

definition isFlightSchema :: "collection_def \<Rightarrow> bool" where
  "isFlightSchema col \<longleftrightarrow> c_name col = ''flights'' \<and>
     list_ex (\<lambda>(name, d). name \<in> set flightFieldSignals \<or> fd_provider d \<in> set flightFieldSignals) (cd_fields col)"

text \<open>The loop over the fields of a flight: the document so far, the seats of its aircraft, and whether the number of free
seats is asked for. The free seats and the passengers come last.\<close>

primrec flight_fields ::
    "'g faker \<Rightarrow> (string \<times> field_def) list \<Rightarrow> document \<Rightarrow> int \<Rightarrow> bool \<Rightarrow> 'g \<Rightarrow> ((document \<times> int \<times> bool) \<times> 'g) option" where
  "flight_fields F [] doc tot seats g = Some ((doc, tot, seats), g)"
| "flight_fields F (e # es) doc tot seats g =
     (if fst e = ''equipment'' then
        Option.bind (RandomEquipment F g) (\<lambda>((eq, cap), g1). flight_fields F es (doc @ [(fst e, eq)]) cap seats g1)
      else if fst e = ''seats_available'' then flight_fields F es doc tot True g
      else if fst e = ''passengers'' then flight_fields F es doc tot seats g
      else Option.bind (RandomValueWithFaker F (snd e) g) (\<lambda>(v, g1). flight_fields F es (doc @ [(fst e, v)]) tot seats g1))"

text \<open>Another city until it differs.\<close>

partial_function (option) other_city :: "'g faker \<Rightarrow> string \<Rightarrow> string \<Rightarrow> 'g \<Rightarrow> (string \<times> 'g) option" where
  "other_city F origin dest g =
     (if origin = dest then (let (c, g') = fk_City F g in other_city F origin c g') else Some (dest, g))"

definition fix_destination :: "'g faker \<Rightarrow> document \<Rightarrow> 'g \<Rightarrow> (document \<times> 'g) option" where
  "fix_destination F doc g =
     (case (map_of doc ''origin'', map_of doc ''destination'') of
        (Some (GStr origin), Some (GStr dest)) \<Rightarrow>
          map_option (\<lambda>(d, g'). (AList.update ''destination'' (GStr d) doc, g')) (other_city F origin dest g)
      | _ \<Rightarrow> Some (doc, g))"

definition flight_seats :: "'g faker \<Rightarrow> int \<Rightarrow> bool \<Rightarrow> document \<Rightarrow> 'g \<Rightarrow> ((document \<times> int) \<times> 'g) option" where
  "flight_seats F tot seats doc g =
     (if seats then map_option (\<lambda>(n, g'). ((AList.update ''seats_available'' (GInt n) doc, n), g')) (fk_Intn F (tot + 1) g)
      else Some ((doc, 0), g))"

definition schema_flight :: "'g faker \<Rightarrow> collection_def \<Rightarrow> 'g \<Rightarrow> (document \<times> 'g) option" where
  "schema_flight F col g =
     Option.bind (flight_fields F (FieldNames (fk_seeded F) (cd_fields col)) [] 0 False g) (\<lambda>((doc, total0, seats), g1).
     Option.bind (if total0 \<le> 0 then map_option (\<lambda>((_, cap), g'). (cap, g')) (RandomEquipment F g1) else Some (total0, g1)) (\<lambda>(tot, g2).
     Option.bind (flight_seats F tot seats doc g2) (\<lambda>((doc1, available), g3).
     Option.bind (fix_destination F doc1 g3) (\<lambda>(doc2, g4).
       if map_of (cd_fields col) ''passengers'' \<noteq> None
       then map_option (\<lambda>(ds, g'). (AList.update ''passengers'' (passengers_value ds) doc2, g')) (RandomPassengers F tot available g4)
       else Some (doc2, g4)))))"

definition default_flight :: "'g faker \<Rightarrow> 'g \<Rightarrow> (document \<times> 'g) option" where
  "default_flight F g =
     Option.bind (RandomEquipment F g) (\<lambda>((equip, tot), g1).
     Option.bind (fk_Intn F 900000 g1) (\<lambda>(n, g2).
     Option.bind (RandomFlightCode F g2) (\<lambda>(code, g3).
       (let (origin, g4) = fk_City F g3; (dest0, g5) = fk_City F g4 in
     Option.bind (other_city F origin dest0 g5) (\<lambda>(dest, g6).
     Option.bind (RandomGate F g6) (\<lambda>(gate, g7).
     Option.bind (fk_Intn F 871 g7) (\<lambda>(dur, g8).
     Option.bind (fk_Intn F (tot + 1) g8) (\<lambda>(available, g9).
     map_option (\<lambda>(ds, g10).
        ([(''flight_id'', GInt (n + 100000)), (''flight_code'', GStr code), (''origin'', GStr origin), (''destination'', GStr dest),
          (''gate'', GStr gate), (''duration_minutes'', GInt (dur + 30)), (''seats_available'', GInt available),
          (''equipment'', equip), (''passengers'', passengers_value ds)], g10))
       (RandomPassengers F tot available g9))))))))) "

definition generateDefaultDocument :: "'g faker \<Rightarrow> collection_def \<Rightarrow> 'g \<Rightarrow> (document \<times> 'g) option" where
  "generateDefaultDocument F col g = (if cd_fields col \<noteq> [] then schema_flight F col g else default_flight F g)"

definition generateGenericDocument :: "'g faker \<Rightarrow> collection_def \<Rightarrow> 'g \<Rightarrow> (document \<times> 'g) option" where
  "generateGenericDocument F col g = random_fields F (FieldNames (fk_seeded F) (cd_fields col)) g"

definition GenerateDocumentWithFaker :: "'g faker \<Rightarrow> collection_def \<Rightarrow> 'g \<Rightarrow> (document \<times> 'g) option" where
  "GenerateDocumentWithFaker F col g = (if isFlightSchema col then generateDefaultDocument F col g else generateGenericDocument F col g)"

subsection \<open>Fallback updates\<close>

definition set_one :: "string \<Rightarrow> string \<Rightarrow> gval \<Rightarrow> document" where
  "set_one op k v = [(op, GMap [(k, v)])]"

definition GenerateDefaultUpdate :: "'g faker \<Rightarrow> 'g \<Rightarrow> (document \<times> 'g) option" where
  "GenerateDefaultUpdate F g =
     Option.bind (fk_Intn F 2 g) (\<lambda>(c, g1).
       if c = 0 then map_option (\<lambda>(n, g'). (set_one ''$inc'' ''seats_available'' (GInt (n + 1)), g')) (fk_Intn F 5 g1)
       else map_option (\<lambda>(n, g'). (set_one ''$set'' ''duration_minutes'' (GInt (n + 30)), g')) (fk_Intn F 871 g1))"

text \<open>The update of a collection with a field drawn among \<open>fs\<close>; \<open>value\<close> draws its value.\<close>

definition generic_update ::
    "'g faker \<Rightarrow> (string \<times> field_def) list \<Rightarrow> (field_def \<Rightarrow> 'g \<Rightarrow> (gval \<times> 'g) option) \<Rightarrow> 'g \<Rightarrow> (document \<times> 'g) option" where
  "generic_update F fs vl g =
     (if fs = [] then (let (v, g') = rd_Int63 (fk_rand F) g in Some (set_one ''$set'' ''updated_at'' (GInt64 v), g'))
      else Option.bind (choose_from F fs g) (\<lambda>(e, g1).
        map_option (\<lambda>(v, g2). (set_one ''$set'' (fst e) v, g2)) (vl (snd e) g1)))"

definition GenerateFallbackUpdateWithFaker :: "'g faker \<Rightarrow> collection_def \<Rightarrow> 'g \<Rightarrow> (document \<times> 'g) option" where
  "GenerateFallbackUpdateWithFaker F col g =
     (if isFlightSchema col then GenerateDefaultUpdate F g
      else generic_update F (sort_entries (cd_fields col)) (RandomValueWithFaker F) g)"

text \<open>\<open>GenerateFallbackUpdate\<close> draws the field, in map order, from the worker's generator and the value from a new faker,
whose value is \<open>fresh_value\<close>.\<close>

definition GenerateFallbackUpdate :: "'g faker \<Rightarrow> (field_def \<Rightarrow> gval) \<Rightarrow> collection_def \<Rightarrow> 'g \<Rightarrow> (document \<times> 'g) option" where
  "GenerateFallbackUpdate F fresh_value col g =
     (if isFlightSchema col then GenerateDefaultUpdate F g
      else generic_update F (cd_fields col) (\<lambda>d g. Some (fresh_value d, g)) g)"

end
