(* ===== verification/DataGenProofs.thy ===== *)
theory DataGenProofs
  imports DataGen
begin

text \<open>
  What generated values look like: every value fits its field definition, generation returns for every generator that
  keeps the contract of \<open>math/rand\<close>, and flights are consistent.
\<close>

declare RandomValueWithFaker.simps [simp del]

subsection \<open>Values that fit a field\<close>

fun template_char :: "char \<Rightarrow> char \<Rightarrow> bool" where
  "template_char c d =
     (if c = CHR ''#'' then \<exists>n < (10 :: nat). d = char_of (48 + n)
      else if c = CHR ''?'' then \<exists>n < (26 :: nat). d = char_of (65 + n)
      else if c = CHR ''^'' then \<exists>n < (26 :: nat). d = char_of (97 + n)
      else d = c)"

definition scalar_fits :: "field_def \<Rightarrow> string \<Rightarrow> gval \<Rightarrow> bool" where
  "scalar_fits d t v \<longleftrightarrow>
     (if t \<in> {''int'', ''integer'', ''int32''} then \<exists>i. v = GInt32 i \<and>
        (- (2 ^ 31) \<le> fst (int_range d 0 2147483647) \<and> snd (int_range d 0 2147483647) < 2 ^ 31
          \<longrightarrow> fst (int_range d 0 2147483647) \<le> i \<and> i \<le> snd (int_range d 0 2147483647))
      else if t \<in> {''long'', ''int64''} then \<exists>i. v = GInt64 i \<and> 0 \<le> i \<and> i < 2 ^ 63
      else if t \<in> {''double'', ''float''} then \<exists>x. v = GFloat x
      else if t \<in> {''decimal'', ''decimal128''} then \<exists>s. v = GScalar s
      else if t = ''string'' then \<exists>s. v = GStr s
      else if t \<in> {''bool'', ''boolean''} then \<exists>b. v = GBool b
      else if t \<in> {''date'', ''datetime''} then \<exists>s. v = GScalar s
      else if t = ''timestamp'' then \<exists>s. v = GScalar s
      else if t = ''objectid'' then \<exists>s. v = GOid s
      else v = GStr (''unknown-'' @ fd_type d))"

definition plain :: "field_def \<Rightarrow> bool" where
  "plain d \<longleftrightarrow> fd_enum d = [] \<and> fd_template d = [] \<and> fd_provider d = []"

inductive fits_field :: "bool \<Rightarrow> field_def \<Rightarrow> gval \<Rightarrow> bool" for seeded where
  enum: "fd_enum d \<noteq> [] \<Longrightarrow> v \<in> set (fd_enum d) \<Longrightarrow> fits_field seeded d v"
| template: "fd_enum d = [] \<Longrightarrow> fd_template d \<noteq> [] \<Longrightarrow> list_all2 template_char (fd_template d) s \<Longrightarrow> fits_field seeded d (GStr s)"
| provider: "fd_enum d = [] \<Longrightarrow> fd_template d = [] \<Longrightarrow> fd_provider d \<noteq> [] \<Longrightarrow> fits_field seeded d v"
| object: "plain d \<Longrightarrow> to_lower (fd_type d) \<in> {''object'', ''document''} \<Longrightarrow> fd_fields d \<noteq> [] \<Longrightarrow>
    map fst doc = map fst (FieldNames seeded (fd_fields d)) \<Longrightarrow>
    (\<And>i. i < length doc \<Longrightarrow> fits_field seeded (snd (FieldNames seeded (fd_fields d) ! i)) (snd (doc ! i))) \<Longrightarrow> fits_field seeded d (GDoc doc)"
| object_any: "plain d \<Longrightarrow> to_lower (fd_type d) \<in> {''object'', ''document''} \<Longrightarrow> fd_fields d = [] \<Longrightarrow>
    fits_field seeded d (GDoc [(''nested_random'', GInt n)])"
| array: "plain d \<Longrightarrow> to_lower (fd_type d) = ''array'' \<Longrightarrow>
    (if fd_arraySize d > 0 then int (length vs) = fd_arraySize d else 1 \<le> length vs \<and> length vs \<le> 5) \<Longrightarrow>
    (\<And>item v. fd_items d = Some item \<Longrightarrow> v \<in> set vs \<Longrightarrow> fits_field seeded item v) \<Longrightarrow> fits_field seeded d (GA vs)"
| scalar: "plain d \<Longrightarrow> to_lower (fd_type d) \<notin> {''object'', ''document'', ''array''} \<Longrightarrow>
    scalar_fits d (to_lower (fd_type d)) v \<Longrightarrow> fits_field seeded d v"

text \<open>Enumerations of a length a slice can have, in every nested definition.\<close>

inductive enums_fit :: "field_def \<Rightarrow> bool" where
  "length (fd_enum d) < 2 ^ 62 \<Longrightarrow> (\<And>e. e \<in> set (fd_fields d) \<Longrightarrow> enums_fit (snd e)) \<Longrightarrow>
    (\<And>item. fd_items d = Some item \<Longrightarrow> enums_fit item) \<Longrightarrow> enums_fit d"

text \<open>A consistent flight: the free seats are at most those of the aircraft, the passengers sit in different seats, at
most 25 of them are listed, and the route ends somewhere else. \<open>cities_vary\<close>: the cities do not repeat one for ever.\<close>

definition seats_ok :: "document \<Rightarrow> bool" where
  "seats_ok doc \<longleftrightarrow> (\<forall>v. map_of doc ''seats_available'' = Some v \<longrightarrow> (\<exists>n cap. v = GInt n \<and> 0 \<le> n \<and> n \<le> cap \<and> cap \<le> 396 \<and>
     (\<forall>e. map_of doc ''equipment'' = Some e \<longrightarrow> (\<exists>kvs. e = GMap kvs \<and> map_of kvs ''total_seats'' = Some (GInt cap)))))"

definition seat_numbers :: "document list \<Rightarrow> gval option list" where
  "seat_numbers ds = map (\<lambda>d. map_of d ''seat_number'') ds"

definition equipment_ok :: "document \<Rightarrow> int \<Rightarrow> bool" where
  "equipment_ok doc cap \<longleftrightarrow> cap \<le> 396 \<and> (case map_of doc ''equipment'' of None \<Rightarrow> cap = 0
     | Some e \<Rightarrow> 1 \<le> cap \<and> (\<exists>kvs. e = GMap kvs \<and> map_of kvs ''total_seats'' = Some (GInt cap)))"

definition passengers_ok :: "gval \<Rightarrow> bool" where
  "passengers_ok v \<longleftrightarrow> (\<exists>ds. v = GTSlice (map GMap ds) \<and> length ds \<le> 25 \<and> distinct (seat_numbers ds))"

definition route_ok :: "document \<Rightarrow> bool" where
  "route_ok doc \<longleftrightarrow> (\<forall>a b. map_of doc ''origin'' = Some (GStr a) \<and> map_of doc ''destination'' = Some (GStr b) \<longrightarrow> a \<noteq> b)"

definition flight_ok :: "document \<Rightarrow> bool" where
  "flight_ok doc \<longleftrightarrow> seats_ok doc \<and> route_ok doc \<and> (\<forall>v. map_of doc ''passengers'' = Some v \<longrightarrow> passengers_ok v)"

definition cities_vary :: "'g faker \<Rightarrow> bool" where
  "cities_vary F \<longleftrightarrow> (\<forall>c g. \<exists>n. fst (fk_City F (((\<lambda>g. snd (fk_City F g)) ^^ n) g)) \<noteq> c)"

subsection \<open>Draws\<close>

lemma to_i64_less: "to_i64 x < 2 ^ 63"
proof -
  have "(x + 2 ^ 63) mod 2 ^ 64 < (2 ^ 64 :: int)" by simp
  then show ?thesis by (simp add: to_i64_def)
qed

text \<open>Seat names are different for different seats.\<close>

definition digits_value :: "string \<Rightarrow> nat" where
  "digits_value s = foldl (\<lambda>a c. a * 10 + (of_char c - 48)) 0 s"

lemma digit_value: "n < 10 \<Longrightarrow> of_char (digit_char n) - 48 = n"
  by (simp add: digit_char_def)

lemma digits_value_nat_digits: "digits_value (nat_digits n) = n"
proof (induction n rule: nat_digits.induct)
  case (1 n)
  show ?case
  proof (cases "n < 10")
    case True
    then show ?thesis by (subst nat_digits.simps) (simp add: digits_value_def digit_value)
  next
    case False
    have "of_char (digit_char (n mod 10)) - 48 = n mod 10" by (rule digit_value) simp
    then show ?thesis using False 1 by (subst nat_digits.simps) (simp add: digits_value_def)
  qed
qed

lemma itoa_inj: "itoa (int a) = itoa (int b) \<Longrightarrow> a = b"
  by (simp add: itoa_def) (metis digits_value_nat_digits)

lemma seat_name_inj: "seat_name i = seat_name j \<Longrightarrow> i = j"
proof -
  assume eq: "seat_name i = seat_name j"
  then have rows: "itoa (int (Suc (i div 6))) = itoa (int (Suc (j div 6)))" and cols: "char_of (65 + i mod 6) = (char_of (65 + j mod 6) :: char)"
    by (simp_all add: seat_name_def add.commute)
  have "of_char (char_of (65 + i mod 6) :: char) = 65 + i mod 6" for i :: nat by simp
  then have "i mod 6 = j mod 6" using cols by (metis add_left_cancel)
  moreover have "i div 6 = j div 6" using itoa_inj [OF rows] by simp
  ultimately show "i = j" by (metis div_mult_mod_eq)
qed

lemma seat_deck_distinct: "distinct (seat_deck n)"
  by (auto simp: seat_deck_def distinct_map intro!: inj_onI seat_name_inj)

locale faker_source = rand_source "fk_rand F" for F :: "'g faker"
begin

lemma choose_from_returns:
  assumes "xs \<noteq> []" "length xs < 2 ^ 62"
  shows "\<exists>x g'. choose_from F xs g = Some (x, g') \<and> x \<in> set xs"
proof -
  obtain i g' where "fk_Intn F (int (length xs)) g = Some (i, g')" "0 \<le> i" "i < int (length xs)"
    by (rule Intn_obtain [of "int (length xs)" g]) (use assms in auto)
  then show ?thesis by (auto simp: choose_from_def nat_less_iff intro!: nth_mem)
qed

lemma draw_range_returns:
  assumes "fst r \<le> snd r"
  shows "\<exists>v g'. draw_range F r g = Some (v, g') \<and> (- (2 ^ 31) \<le> fst r \<and> snd r < 2 ^ 31 \<longrightarrow> fst r \<le> v \<and> v \<le> snd r)"
proof (cases "to_i64 (snd r - fst r + 1) \<le> 0")
  case True
  then show ?thesis using assms by (simp add: draw_range_def)
next
  case False
  have "to_i64 x < 2 ^ 63" for x :: int by (rule to_i64_less)
  then obtain v g' where v: "fk_Intn F (to_i64 (snd r - fst r + 1)) g = Some (v, g')" "0 \<le> v" "v < to_i64 (snd r - fst r + 1)"
    using False by (meson Intn_obtain linorder_not_le)
  have "fst r \<le> to_i64 (v + fst r) \<and> to_i64 (v + fst r) \<le> snd r" if "- (2 ^ 31) \<le> fst r" "snd r < 2 ^ 31"
  proof -
    have "to_i64 (snd r - fst r + 1) = snd r - fst r + 1" using that assms by (intro to_i64_id) auto
    with v that show ?thesis by (subst (1 2) to_i64_id) auto
  qed
  then show ?thesis using False v(1) by (simp add: draw_range_def Let_def)
qed

lemma int_range_le: "fst (int_range d a b) \<le> snd (int_range d a b)"
  by (simp add: int_range_def Let_def)

lemma expandTemplate_returns: "\<exists>s g'. expandTemplate F cs g = Some (s, g') \<and> list_all2 template_char cs s"
proof (induction cs arbitrary: g)
  case (Cons c cs)
  obtain n10 h10 where n10: "fk_Intn F 10 g = Some (n10, h10)" "0 \<le> n10" "n10 < 10" by (rule Intn_obtain [of 10 g]) auto
  obtain n26 h26 where n26: "fk_Intn F 26 g = Some (n26, h26)" "0 \<le> n26" "n26 < 26" by (rule Intn_obtain [of 26 g]) auto
  have "nat n10 < 10" "nat n26 < 26" using n10 n26 by auto
  then have "\<exists>d h. (if c = CHR ''#'' then map_option (\<lambda>(n, g'). (char_of (48 + nat n), g')) (fk_Intn F 10 g)
        else if c = CHR ''?'' then map_option (\<lambda>(n, g'). (char_of (65 + nat n), g')) (fk_Intn F 26 g)
        else if c = CHR ''^'' then map_option (\<lambda>(n, g'). (char_of (97 + nat n), g')) (fk_Intn F 26 g)
        else Some (c, g)) = Some (d, h) \<and> template_char c d"
    using n10(1) n26(1) by auto
  then obtain d h where d: "(if c = CHR ''#'' then map_option (\<lambda>(n, g'). (char_of (48 + nat n), g')) (fk_Intn F 10 g)
        else if c = CHR ''?'' then map_option (\<lambda>(n, g'). (char_of (65 + nat n), g')) (fk_Intn F 26 g)
        else if c = CHR ''^'' then map_option (\<lambda>(n, g'). (char_of (97 + nat n), g')) (fk_Intn F 26 g)
        else Some (c, g)) = Some (d, h)" "template_char c d" by blast
  obtain ds h2 where "expandTemplate F cs h = Some (ds, h2)" "list_all2 template_char cs ds" using Cons.IH by blast
  then show ?case using d by (simp del: template_char.simps)
qed simp

lemma str_drawn: "\<exists>s g'. RandomFlightCode F g = Some (s, g')" "\<exists>s g'. RandomGate F g = Some (s, g')"
  "\<exists>s g'. RandomAirportCode F g = Some (s, g')"
proof -
  obtain c g1 where c: "choose_from F AirlineCodes g = Some (c, g1)"
    using choose_from_returns [of AirlineCodes g] by (auto simp: AirlineCodes_def)
  obtain n g2 where n: "fk_Intn F 900 g1 = Some (n, g2)" by (rule Intn_obtain [of 900 g1]) auto
  show "\<exists>s g'. RandomFlightCode F g = Some (s, g')" using c n by (simp add: RandomFlightCode_def)
  obtain l g3 where l: "fk_Intn F 6 g = Some (l, g3)" by (rule Intn_obtain [of 6 g]) auto
  obtain m g4 where m: "fk_Intn F 50 g3 = Some (m, g4)" by (rule Intn_obtain [of 50 g3]) auto
  show "\<exists>s g'. RandomGate F g = Some (s, g')" using l m by (simp add: RandomGate_def)
  show "\<exists>s g'. RandomAirportCode F g = Some (s, g')"
    using choose_from_returns [of AirportCodes g] by (auto simp: RandomAirportCode_def AirportCodes_def)
qed

lemma capacity_range: "1 \<le> PlaneSeatCapacity t \<and> PlaneSeatCapacity t \<le> 396"
  by (simp add: PlaneSeatCapacity_def planeSeatCapacity_def)

lemma RandomEquipment_returns: "\<exists>e cap g'. RandomEquipment F g = Some ((e, cap), g') \<and> 1 \<le> cap \<and> cap \<le> 396 \<and>
    (\<exists>kvs. e = GMap kvs \<and> map_of kvs ''total_seats'' = Some (GInt cap))"
proof -
  obtain t g1 where t: "choose_from F PlaneTypes g = Some (t, g1)"
    using choose_from_returns [of PlaneTypes g] by (auto simp: PlaneTypes_def planeSeatCapacity_def)
  obtain n g2 where n: "fk_Intn F 4 g1 = Some (n, g2)" by (rule Intn_obtain [of 4 g1]) auto
  obtain p g3 where "Perm (fk_rand F) (length Amenities) g2 = Some (p, g3)"
    using perm_from_range [of "[]" "length Amenities" g2] by (auto simp: Perm_def Amenities_def)
  then show ?thesis using t n capacity_range [of t] by (simp add: RandomEquipment_def)
qed

lemma passenger_docs_returns:
  "\<exists>ds g'. passenger_docs F i seats g = Some (ds, g') \<and> seat_numbers ds = map (\<lambda>s. Some (GStr s)) seats \<and>
     map (\<lambda>d. map_of d ''passenger_id'') ds = map (\<lambda>k. Some (GInt (int k + 1))) [i..<i + length seats]"
proof (induction seats arbitrary: i g)
  case (Cons seat seats)
  obtain nm1 g1 where f: "fk_FirstName F g = (nm1, g1)" by fastforce
  obtain nm2 g2 where l: "fk_LastName F g1 = (nm2, g2)" by fastforce
  obtain n g3 where n: "fk_Intn F 99999999 g2 = Some (n, g3)" by (rule Intn_obtain [of 99999999 g2]) auto
  obtain ds g4 where "passenger_docs F (Suc i) seats g3 = Some (ds, g4)" "seat_numbers ds = map (\<lambda>s. Some (GStr s)) seats"
      "map (\<lambda>d. map_of d ''passenger_id'') ds = map (\<lambda>k. Some (GInt (int k + 1))) [Suc i..<Suc i + length seats]"
    using Cons.IH by blast
  moreover have "[i..<i + length (seat # seats)] = i # [Suc i..<Suc i + length seats]" by (simp add: upt_conv_Cons del: upt_Suc)
  ultimately show ?case using f l n by (simp add: seat_numbers_def del: upt_Suc)
qed (simp add: seat_numbers_def)

lemma RandomPassengers_returns:
  assumes "tot < 2 ^ 31" "available \<le> tot" "0 \<le> available"
  shows "\<exists>ds g'. RandomPassengers F tot available g = Some (ds, g') \<and> distinct (seat_numbers ds) \<and>
    int (length ds) = passenger_count (if tot \<le> 0 then 150 else tot) available \<and> length ds \<le> 25 \<and>
    map (\<lambda>d. map_of d ''passenger_id'') ds = map (\<lambda>k. Some (GInt (int k + 1))) [0..<length ds]"
proof -
  define n where "n = (if tot \<le> 0 then 150 else tot)"
  have n: "0 < n" "n < 2 ^ 31" using assms by (auto simp: n_def)
  have len: "length (seat_deck n) = nat n" by (simp add: seat_deck_def)
  have small: "length (seat_deck n) < 2 ^ 31" using n len by simp
  obtain seats g1 where s: "Shuffle (fk_rand F) (seat_deck n) g = Some (seats, g1)" "mset seats = mset (seat_deck n)"
    using Shuffle_perm [OF small, of g] by blast
  have d: "distinct seats" using s(2) seat_deck_distinct mset_eq_imp_distinct_iff by blast
  have ls: "length seats = nat n" using s(2) len by (metis mset_eq_length)
  define c where "c = passenger_count n available"
  have c: "1 \<le> c" "c \<le> n" "c \<le> 25"
    using n by (auto simp: c_def passenger_count_def maxDetailedPassengers_def Let_def)
  define used where "used = take (nat c) seats"
  have lu: "length used = nat c" using c ls by (simp add: used_def)
  obtain ds g2 where ds: "passenger_docs F 0 used g1 = Some (ds, g2)" "seat_numbers ds = map (\<lambda>s. Some (GStr s)) used"
      "map (\<lambda>d. map_of d ''passenger_id'') ds = map (\<lambda>k. Some (GInt (int k + 1))) [0..<0 + length used]"
    using passenger_docs_returns by blast
  have "length ds = length used" using ds(2) by (metis length_map seat_numbers_def)
  moreover have "distinct (seat_numbers ds)"
    unfolding ds(2) using d by (auto simp: distinct_map used_def intro!: inj_onI)
  moreover have "RandomPassengers F tot available g = Some (ds, g2)"
    using s(1) ds(1) by (simp add: RandomPassengers_def n_def [symmetric] c_def [symmetric] used_def [symmetric] Let_def)
  ultimately show ?thesis using ds(3) lu c by (simp add: n_def [symmetric] c_def [symmetric])
qed

lemma passengersProvider_returns: "\<exists>v g'. passengersProvider F g = Some (v, g')"
proof -
  obtain e cap g1 where e: "RandomEquipment F g = Some ((e, cap), g1)" "1 \<le> cap" "cap \<le> 396" using RandomEquipment_returns by blast
  obtain a g2 where a: "fk_Intn F (cap + 1) g1 = Some (a, g2)" "0 \<le> a" "a < cap + 1"
    by (rule Intn_obtain [of "cap + 1" g1]) (use e in auto)
  obtain ds g3 where "RandomPassengers F cap a g2 = Some (ds, g3)" using RandomPassengers_returns [of cap a g2] a e by auto
  then show ?thesis using e(1) a(1) by (simp add: passengersProvider_def)
qed


lemma value_ok [intro]:
  "\<exists>s g'. f = Some (s, g') \<Longrightarrow> \<exists>v g'. str_value f = Some (v, g')"
  "\<exists>n g'. f' = Some (n, g') \<Longrightarrow> \<exists>v g'. int_gval f' = Some (v, g')"
  by (auto simp: str_value_def int_gval_def)

lemma constant_choice: "xs \<in> {AirlineCodes, PlaneTypes} \<Longrightarrow> \<exists>s g'. choose_from F xs g = Some (s, g')"
proof -
  assume "xs \<in> {AirlineCodes, PlaneTypes}"
  then have "xs \<noteq> [] \<and> length xs < 2 ^ 62" by (auto simp: AirlineCodes_def PlaneTypes_def planeSeatCapacity_def)
  then show ?thesis using choose_from_returns [of xs g] by blast
qed

lemma boundedInt_returns: "\<exists>n g'. boundedInt F d a b g = Some (n, g')"
  unfolding boundedInt_def using draw_range_returns [OF int_range_le, of d a b g] by blast

lemma equipment_value: "\<exists>v g'. map_option (\<lambda>((e, _), g'). (e, g')) (RandomEquipment F g) = Some (v, g')"
  using RandomEquipment_returns [of g] by auto

lemma domainProvider_returns: "domainProvider p = Some f \<Longrightarrow> \<exists>v g'. f F d g = Some (v, g')"
proof -
  assume "domainProvider p = Some f"
  then have "f \<in> snd ` set domainProviders" by (auto simp: domainProvider_def dest!: map_of_SomeD intro: rev_image_eqI)
  moreover have "list_all (\<lambda>f. \<exists>v g'. f F d g = Some (v, g')) (map snd domainProviders)"
    unfolding domainProviders_def list.map snd_conv list.pred_inject
    by (intro conjI TrueI value_ok str_drawn constant_choice boundedInt_returns equipment_value passengersProvider_returns) simp_all
  ultimately show ?thesis by (auto simp: list_all_iff)
qed

lemma provider_value_returns:
  "\<exists>r. provider_value F d g = Some r \<and> (fd_provider d = [] \<longrightarrow> r = None)"
proof (cases "domainProvider (to_lower (fd_provider d)) :: ('g faker \<Rightarrow> field_def \<Rightarrow> 'g \<Rightarrow> (gval \<times> 'g) option) option")
  case (Some f)
  then show ?thesis using domainProvider_returns [OF Some, of d g] by (auto simp: provider_value_def Let_def)
qed (auto simp: provider_value_def Let_def split: option.split faker_method.split prod.split)

lemma chosen_value_returns:
  assumes "length (fd_enum d) < 2 ^ 62"
  shows "chosen_value F d g = Some None \<and> fd_enum d = [] \<and> fd_template d = [] \<or>
     (\<exists>v g'. chosen_value F d g = Some (Some (v, g')) \<and> fits_field (fk_seeded F) d v)"
proof -
  consider (enum) "fd_enum d \<noteq> []" | (template) "fd_enum d = []" "fd_template d \<noteq> []" | (other) "fd_enum d = []" "fd_template d = []"
    by blast
  then show ?thesis
  proof cases
    case enum
    then show ?thesis using choose_from_returns [OF enum assms, of g] by (auto simp: chosen_value_def intro: fits_field.enum)
  next
    case template
    then show ?thesis using expandTemplate_returns [of "fd_template d" g]
      by (auto simp: chosen_value_def str_value_def intro: fits_field.template)
  next
    case other
    obtain r where r: "provider_value F d g = Some r" "fd_provider d = [] \<longrightarrow> r = None" using provider_value_returns by blast
    show ?thesis
    proof (cases r)
      case None
      then show ?thesis using other r by (simp add: chosen_value_def)
    next
      case (Some x)
      then have "fd_provider d \<noteq> []" using r(2) by auto
      with other have "fits_field (fk_seeded F) d v" for v by (rule fits_field.provider)
      then show ?thesis using other r Some by (cases x) (simp add: chosen_value_def)
    qed
  qed
qed


lemma drawn: "0 < n \<Longrightarrow> n < 2 ^ 63 \<Longrightarrow> \<exists>v g'. map_option (\<lambda>(n, g'). (f n, g')) (fk_Intn F n g) = Some (v, g') \<and> (\<exists>i. v = f i)"
  using Intn_law [of n g] by fastforce

lemma decimal_drawn: "\<exists>v g'. Option.bind (fk_Intn F 1000 g) (\<lambda>(a, g1).
    map_option (\<lambda>(b, g2). (decimal_value (itoa a @ ''.'' @ itoa b), g2)) (fk_Intn F 100 g1)) = Some (v, g') \<and> (\<exists>s. v = GScalar s)"
proof -
  obtain a g1 where a: "fk_Intn F 1000 g = Some (a, g1)" by (rule Intn_obtain [of 1000 g]) auto
  obtain b g2 where "fk_Intn F 100 g1 = Some (b, g2)" by (rule Intn_obtain [of 100 g1]) auto
  with a show ?thesis by (simp add: decimal_value_def)
qed

lemma int32_drawn: "\<exists>v g'. map_option (\<lambda>(n, g'). (GInt32 (to_i32 n), g')) (draw_range F (int_range d 0 2147483647) g) = Some (v, g') \<and>
    (\<exists>i. v = GInt32 i \<and> (- (2 ^ 31) \<le> fst (int_range d 0 2147483647) \<and> snd (int_range d 0 2147483647) < 2 ^ 31
        \<longrightarrow> fst (int_range d 0 2147483647) \<le> i \<and> i \<le> snd (int_range d 0 2147483647)))"
proof -
  obtain n g' where n: "draw_range F (int_range d 0 2147483647) g = Some (n, g')"
     "- (2 ^ 31) \<le> fst (int_range d 0 2147483647) \<and> snd (int_range d 0 2147483647) < 2 ^ 31 \<longrightarrow>
       fst (int_range d 0 2147483647) \<le> n \<and> n \<le> snd (int_range d 0 2147483647)"
    using draw_range_returns [OF int_range_le, of d 0 2147483647 g] by blast
  have "to_i32 n = n" if "- (2 ^ 31) \<le> fst (int_range d 0 2147483647)" "snd (int_range d 0 2147483647) < 2 ^ 31"
    using that n(2) by (intro to_i32_id) auto
  with n show ?thesis by auto
qed

lemma float_drawn: "\<exists>v g'. map_option (\<lambda>(u, g'). (GFloat (f u), g')) (rng_Float64 (rd_base (fk_rand F)) g) = Some (v, g') \<and> (\<exists>x. v = GFloat x)"
  using Float64_law [of g] by auto

lemma drawn_if: "(b \<Longrightarrow> \<exists>v g'. x = Some (v, g') \<and> P v) \<Longrightarrow> (\<not> b \<Longrightarrow> \<exists>v g'. y = Some (v, g') \<and> Q v) \<Longrightarrow>
    \<exists>v g'. (if b then x else y) = Some (v, g') \<and> (if b then P v else Q v)"
  by simp

lemma scalar_value_returns: "\<exists>v g'. scalar_value F d t g = Some (v, g') \<and> scalar_fits d t v"
  unfolding scalar_value_def scalar_fits_def Let_def
proof (intro drawn_if)
  show "\<exists>v g'. (case rd_Int63 (fk_rand F) g of (v, g') \<Rightarrow> Some (GInt64 v, g')) = Some (v, g') \<and> (\<exists>i. v = GInt64 i \<and> 0 \<le> i \<and> i < 2 ^ 63)"
    using Int63_law [of g] by (auto split: prod.split)
  show "\<exists>v g'. (if fd_provider d = [] then map_option (\<lambda>(n, g'). (GStr (''str-'' @ itoa n), g')) (fk_Intn F 100000 g)
      else Some (GStr ''val'', g)) = Some (v, g') \<and> (\<exists>s. v = GStr s)"
    using drawn [of 100000 "\<lambda>n. GStr (''str-'' @ itoa n)" g] by auto
  show "\<exists>v g'. map_option (\<lambda>(n, g'). (GBool (n = 0), g')) (fk_Intn F 2 g) = Some (v, g') \<and> (\<exists>b. v = GBool b)"
    using drawn [of 2 "\<lambda>n. GBool (n = 0)" g] by auto
  show "\<exists>v g'. map_option (\<lambda>(n, g'). (date_value (fk_now F - n * 3600), g')) (fk_Intn F (365 * 24) g) = Some (v, g') \<and> (\<exists>s. v = GScalar s)"
    using drawn [of "365 * 24" "\<lambda>n. date_value (fk_now F - n * 3600)" g] by (auto simp: date_value_def)
  show "\<exists>v g'. map_option (\<lambda>(n, g'). (timestamp_value (fk_now F) n, g')) (fk_Intn F 100 g) = Some (v, g') \<and> (\<exists>s. v = GScalar s)"
    using drawn [of 100 "\<lambda>n. timestamp_value (fk_now F) n" g] by (auto simp: timestamp_value_def)
qed (rule int32_drawn float_drawn decimal_drawn | simp split: prod.split)+


lemma random_fields_returns:
  assumes "\<And>e g. e \<in> set ds \<Longrightarrow> \<exists>v g'. RandomValueWithFaker F (snd e) g = Some (v, g') \<and> P (snd e) v"
  shows "\<exists>doc g'. random_fields F ds g = Some (doc, g') \<and> list_all2 (\<lambda>e x. fst x = fst e \<and> P (snd e) (snd x)) ds doc"
  using assms
proof (induction ds arbitrary: g)
  case (Cons e ds)
  obtain v g1 where v: "RandomValueWithFaker F (snd e) g = Some (v, g1)" "P (snd e) v" using Cons.prems by (meson list.set_intros(1))
  have "\<exists>doc g'. random_fields F ds g1 = Some (doc, g') \<and> list_all2 (\<lambda>e x. fst x = fst e \<and> P (snd e) (snd x)) ds doc"
    by (rule Cons.IH) (meson Cons.prems list.set_intros(2))
  with v show ?case by (cases e) auto
qed simp

lemma random_items_returns:
  assumes "\<And>g. \<exists>v g'. RandomValueWithFaker F d g = Some (v, g') \<and> P v"
  shows "\<exists>vs g'. random_items F n d g = Some (vs, g') \<and> length vs = n \<and> (\<forall>v\<in>set vs. P v)"
proof (induction n arbitrary: g)
  case (Suc n)
  obtain v g1 where "RandomValueWithFaker F d g = Some (v, g1)" "P v" using assms by meson
  with Suc.IH [of g1] show ?case by auto
qed simp

lemma random_ints_returns: "\<exists>vs g'. random_ints F n g = Some (vs, g') \<and> length vs = n"
proof (induction n arbitrary: g)
  case (Suc n)
  obtain v g1 where "fk_Intn F 1000 g = Some (v, g1)" by (rule Intn_obtain [of 1000 g]) auto
  with Suc.IH [of g1] show ?case by auto
qed simp

lemma array_size_returns: "\<exists>n g'. array_size F d g = Some (n, g') \<and>
    (if fd_arraySize d > 0 then int n = fd_arraySize d else 1 \<le> n \<and> n \<le> 5)"
proof -
  obtain n g' where "fk_Intn F 5 g = Some (n, g')" "0 \<le> n" "n < 5" by (rule Intn_obtain [of 5 g]) auto
  then show ?thesis by (auto simp: array_size_def)
qed

lemma items_returns:
  assumes "\<And>item g. fd_items d = Some item \<Longrightarrow> \<exists>v g'. RandomValueWithFaker F item g = Some (v, g') \<and> P item v"
  shows "\<exists>vs g'. (case fd_items d of Some item \<Rightarrow> random_items F n item g | None \<Rightarrow> random_ints F n g) = Some (vs, g') \<and>
    length vs = n \<and> (\<forall>item v. fd_items d = Some item \<longrightarrow> v \<in> set vs \<longrightarrow> P item v)"
proof (cases "fd_items d")
  case None
  then show ?thesis using random_ints_returns [of n g] by simp
next
  case (Some i)
  have "\<exists>v g'. RandomValueWithFaker F i g = Some (v, g') \<and> P i v" for g by (rule assms) (rule Some)
  from random_items_returns [of i "P i" n g, OF this] Some show ?thesis by (simp add: Ball_def)
qed

lemma RandomValueWithFaker_fits:
  "enums_fit d \<Longrightarrow> \<exists>v g'. RandomValueWithFaker F d g = Some (v, g') \<and> fits_field (fk_seeded F) d v"
proof (induction d arbitrary: g rule: enums_fit.induct)
  case (1 d)
  note [simp] = RandomValueWithFaker.simps [of F d g]
  let ?fits = "fits_field (fk_seeded F)" and ?t = "to_lower (fd_type d)"
  show ?case
  proof (cases "\<exists>v g'. chosen_value F d g = Some (Some (v, g')) \<and> ?fits d v")
    case True
    then show ?thesis by auto
  next
    case False
    then have c: "chosen_value F d g = Some None" "fd_enum d = []" "fd_template d = []"
      using chosen_value_returns [OF 1(1), of g] by auto
    then have fit: "?fits d v" if "plain d \<Longrightarrow> ?fits d v" for v using that by (cases "fd_provider d = []") (auto simp: plain_def intro: fits_field.provider)
    consider (obj) "?t = ''object'' \<or> ?t = ''document''" | (arr) "?t = ''array''" | (other) "?t \<notin> {''object'', ''document'', ''array''}" by auto
    then show ?thesis
    proof cases
      case obj
      show ?thesis
      proof (cases "fd_fields d = []")
        case True
        obtain n g' where "fk_Intn F 100 g = Some (n, g')" by (rule Intn_obtain [of 100 g]) auto
        then show ?thesis using obj c(1) True fit fits_field.object_any by auto
      next
        case False
        have names: "set (FieldNames (fk_seeded F) (fd_fields d)) = set (fd_fields d)" by (simp add: FieldNames_def)
        obtain doc g' where doc: "random_fields F (FieldNames (fk_seeded F) (fd_fields d)) g = Some (doc, g')"
            "list_all2 (\<lambda>e x. fst x = fst e \<and> ?fits (snd e) (snd x)) (FieldNames (fk_seeded F) (fd_fields d)) doc"
          using random_fields_returns [of "FieldNames (fk_seeded F) (fd_fields d)" ?fits g, unfolded names, OF 1(4)] by blast
        have "?fits d (GDoc doc)"
        proof (rule fit, rule fits_field.object)
          show "map fst doc = map fst (FieldNames (fk_seeded F) (fd_fields d))"
            using doc(2) by (auto simp: list_all2_conv_all_nth intro!: nth_equalityI)
          show "?fits (snd (FieldNames (fk_seeded F) (fd_fields d) ! i)) (snd (doc ! i))" if "i < length doc" for i
            using doc(2) that by (auto simp: list_all2_conv_all_nth)
        qed (use obj False in simp_all)
        then show ?thesis using obj c(1) False doc(1) by auto
      qed
    next
      case arr
      obtain n g1 where n: "array_size F d g = Some (n, g1)" "if fd_arraySize d > 0 then int n = fd_arraySize d else 1 \<le> n \<and> n \<le> 5"
        using array_size_returns by blast
      obtain vs g2 where vs: "(case fd_items d of Some item \<Rightarrow> random_items F n item g1 | None \<Rightarrow> random_ints F n g1) = Some (vs, g2)"
          "length vs = n" "\<And>item v. fd_items d = Some item \<Longrightarrow> v \<in> set vs \<Longrightarrow> ?fits item v"
        using items_returns [of d ?fits n g1, OF 1(5)] by blast
      have "?fits d (GA vs)" by (rule fit, rule fits_field.array) (use arr n vs in auto)
      then show ?thesis using arr c(1) n(1) vs(1) by auto
    next
      case other
      obtain v g' where v: "scalar_value F d ?t g = Some (v, g')" "scalar_fits d ?t v" using scalar_value_returns by blast
      have "?fits d v" by (rule fit, rule fits_field.scalar) (use other v in auto)
      then show ?thesis using other c(1) v(1) by simp
    qed
  qed
qed


subsection \<open>Flights\<close>

lemma other_city_done: "origin \<noteq> dest \<Longrightarrow> other_city F origin dest g = Some (dest, g)"
  by (subst other_city.simps) simp

lemma other_city_next: "other_city F c c g = other_city F c (fst (fk_City F g)) (snd (fk_City F g))"
  by (subst other_city.simps) (simp add: case_prod_beta Let_def)

lemma other_city_returns: "cities_vary F \<Longrightarrow> \<exists>d g'. other_city F origin dest g = Some (d, g') \<and> origin \<noteq> d"
proof -
  assume "cities_vary F"
  then obtain n where "fst (fk_City F (((\<lambda>g. snd (fk_City F g)) ^^ n) g)) \<noteq> origin" unfolding cities_vary_def by blast
  then show ?thesis
  proof (induction n arbitrary: dest g)
    case 0
    then show ?case by (cases "origin = dest"; cases "fk_City F g") (auto simp: other_city_next other_city_done)
  next
    case (Suc n)
    then have "fst (fk_City F (((\<lambda>g. snd (fk_City F g)) ^^ n) (snd (fk_City F g)))) \<noteq> origin" unfolding funpow_Suc_right by simp
    from Suc.IH [OF this] show ?case by (cases "origin = dest") (auto simp: other_city_next other_city_done)
  qed
qed

lemma fix_destination_returns:
  assumes "cities_vary F"
  shows "\<exists>doc' g'. fix_destination F doc g = Some (doc', g') \<and> fst ` set doc' = fst ` set doc \<and>
    (\<forall>k. k \<noteq> ''destination'' \<longrightarrow> map_of doc' k = map_of doc k) \<and> route_ok doc'"
proof (cases "\<exists>org dest. map_of doc ''origin'' = Some (GStr org) \<and> map_of doc ''destination'' = Some (GStr dest)")
  case True
  then obtain org dest where od: "map_of doc ''origin'' = Some (GStr org)" "map_of doc ''destination'' = Some (GStr dest)" by blast
  obtain d g' where d: "other_city F org dest g = Some (d, g')" "org \<noteq> d" using other_city_returns [OF assms] by blast
  have "''destination'' \<in> fst ` set doc" using od(2) by (force dest: map_of_SomeD)
  then have "fst ` set (AList.update ''destination'' (GStr d) doc) = fst ` set doc"
    by (simp add: AList.dom_update insert_absorb)
  then show ?thesis using od d by (simp add: fix_destination_def route_ok_def AList.update_conv')
next
  case False
  then have "fix_destination F doc g = Some (doc, g)" by (auto simp: fix_destination_def split: option.split gval.split)
  moreover have "route_ok doc" using False by (auto simp: route_ok_def)
  ultimately show ?thesis by simp
qed

lemma RandomPassengers_value:
  assumes "0 \<le> available" "available \<le> cap" "1 \<le> cap" "cap \<le> 396"
  shows "\<exists>ds g'. RandomPassengers F cap available g = Some (ds, g') \<and> passengers_ok (passengers_value ds)"
proof -
  obtain ds g' where "RandomPassengers F cap available g = Some (ds, g')" "distinct (seat_numbers ds)" "length ds \<le> 25"
    using RandomPassengers_returns [of cap available g] assms by auto
  then show ?thesis unfolding passengers_ok_def passengers_value_def by blast
qed


text \<open>The fields of a flight: what \<open>flight_fields\<close> adds, and what it knows of the aircraft.\<close>

lemma flight_fields_returns:
  assumes "\<And>e. e \<in> set es \<Longrightarrow> enums_fit (snd e)"
    and "distinct (map fst es)" "fst ` set doc \<inter> fst ` set es = {}"
    and "''seats_available'' \<notin> fst ` set doc" "''passengers'' \<notin> fst ` set doc"
    and "equipment_ok doc cap0"
  shows "\<exists>doc' cap seats' g'. flight_fields F es doc cap0 seats g = Some ((doc', cap, seats'), g') \<and>
     fst ` set doc' = fst ` set doc \<union> (fst ` set es - {''seats_available'', ''passengers''}) \<and>
     seats' = (seats \<or> ''seats_available'' \<in> fst ` set es) \<and> equipment_ok doc' cap"
  using assms
proof (induction es arbitrary: doc cap0 seats g)
  case (Cons e es)
  have rest: "\<And>e. e \<in> set es \<Longrightarrow> enums_fit (snd e)" "distinct (map fst es)" "fst e \<notin> fst ` set es" "fst e \<notin> fst ` set doc"
    "fst ` set doc \<inter> fst ` set es = {}"
    using Cons.prems by auto
  consider (eq) "fst e = ''equipment''" | (sa) "fst e = ''seats_available''" | (pa) "fst e = ''passengers''"
    | (other) "fst e \<noteq> ''equipment''" "fst e \<noteq> ''seats_available''" "fst e \<noteq> ''passengers''" by blast
  then show ?case
  proof cases
    case eq
    obtain q cap g1 where q: "RandomEquipment F g = Some ((q, cap), g1)" "1 \<le> cap" "cap \<le> 396"
        "\<exists>kvs. q = GMap kvs \<and> map_of kvs ''total_seats'' = Some (GInt cap)"
      using RandomEquipment_returns by blast
    have "map_of doc ''equipment'' = None" using eq rest(4) by (simp add: map_of_eq_None_iff)
    then have "equipment_ok (doc @ [(fst e, q)]) cap" using q eq by (auto simp: equipment_ok_def map_add_def)
    then have "\<exists>doc' cap' seats' g'. flight_fields F es (doc @ [(fst e, q)]) cap seats g1 = Some ((doc', cap', seats'), g') \<and>
       fst ` set doc' = fst ` set (doc @ [(fst e, q)]) \<union> (fst ` set es - {''seats_available'', ''passengers''}) \<and>
       seats' = (seats \<or> ''seats_available'' \<in> fst ` set es) \<and> equipment_ok doc' cap'"
      by (intro Cons.IH) (use rest eq Cons.prems in auto)
    then show ?thesis using q(1) eq by auto
  next
    case sa
    then show ?thesis using Cons.IH [OF rest(1,2,5) Cons.prems(4-6), of True g] by auto
  next
    case pa
    then show ?thesis using Cons.IH [OF rest(1,2,5) Cons.prems(4-6), of seats g] by auto
  next
    case other
    obtain v g1 where v: "RandomValueWithFaker F (snd e) g = Some (v, g1)"
      using RandomValueWithFaker_fits Cons.prems(1) [of e] by (meson list.set_intros(1))
    have "equipment_ok (doc @ [(fst e, v)]) cap0" using other Cons.prems(6) by (auto simp: equipment_ok_def map_add_def split: option.splits)
    then have "\<exists>doc' cap' seats' g'. flight_fields F es (doc @ [(fst e, v)]) cap0 seats g1 = Some ((doc', cap', seats'), g') \<and>
       fst ` set doc' = fst ` set (doc @ [(fst e, v)]) \<union> (fst ` set es - {''seats_available'', ''passengers''}) \<and>
       seats' = (seats \<or> ''seats_available'' \<in> fst ` set es) \<and> equipment_ok doc' cap'"
      by (intro Cons.IH) (use rest other Cons.prems in auto)
    then show ?thesis using v other by auto
  qed
qed auto


lemma flight_total:
  assumes "equipment_ok doc total0"
  shows "\<exists>cap g'. (if total0 \<le> 0 then map_option (\<lambda>((_, cap), g'). (cap, g')) (RandomEquipment F g) else Some (total0, g)) = Some (cap, g') \<and>
    1 \<le> cap \<and> cap \<le> 396 \<and> (map_of doc ''equipment'' = None \<or> equipment_ok doc cap)"
proof (cases "total0 \<le> 0")
  case True
  then show ?thesis using RandomEquipment_returns [of g] assms by (force simp: equipment_ok_def split: option.splits)
qed (use assms in \<open>auto simp: equipment_ok_def\<close>)

lemma flight_seats_returns:
  assumes "1 \<le> cap" "cap \<le> 396" "map_of doc ''equipment'' = None \<or> equipment_ok doc cap" "''seats_available'' \<notin> fst ` set doc"
  shows "\<exists>doc' n g'. flight_seats F cap seats doc g = Some ((doc', n), g') \<and> 0 \<le> n \<and> n \<le> cap \<and> seats_ok doc' \<and>
    fst ` set doc' = fst ` set doc \<union> (if seats then {''seats_available''} else {})"
proof (cases seats)
  case True
  obtain n g' where n: "fk_Intn F (cap + 1) g = Some (n, g')" "0 \<le> n" "n < cap + 1"
    by (rule Intn_obtain [of "cap + 1" g]) (use assms in auto)
  have "seats_ok (AList.update ''seats_available'' (GInt n) doc)"
    using assms n by (auto simp: seats_ok_def AList.update_conv' equipment_ok_def)
  then show ?thesis using True n by (simp add: flight_seats_def AList.dom_update)
next
  case False
  have "map_of doc ''seats_available'' = None" using assms(4) by (simp add: map_of_eq_None_iff)
  then show ?thesis using False assms by (simp add: flight_seats_def seats_ok_def)
qed

lemma seats_ok_cong:
  "map_of doc' ''seats_available'' = map_of doc ''seats_available'' \<Longrightarrow> map_of doc' ''equipment'' = map_of doc ''equipment'' \<Longrightarrow>
    seats_ok doc' = seats_ok doc"
  by (simp add: seats_ok_def)

lemma route_ok_cong:
  "map_of doc' ''origin'' = map_of doc ''origin'' \<Longrightarrow> map_of doc' ''destination'' = map_of doc ''destination'' \<Longrightarrow> route_ok doc' = route_ok doc"
  by (simp add: route_ok_def)

lemma schema_flight_returns:
  assumes "cities_vary F" "\<And>e. e \<in> set (cd_fields col) \<Longrightarrow> enums_fit (snd e)" "distinct (map fst (cd_fields col))"
  shows "\<exists>doc g'. schema_flight F col g = Some (doc, g') \<and> flight_ok doc \<and> fst ` set doc = fst ` set (cd_fields col)"
proof -
  define es where "es = FieldNames (fk_seeded F) (cd_fields col)"
  have "mset es = mset (cd_fields col)" by (simp add: es_def FieldNames_def sort_entries_def)
  then have es: "set es = set (cd_fields col)" "distinct (map fst es)"
    using assms(3) by (metis mset_eq_setD, metis mset_eq_imp_distinct_iff mset_map)
  obtain doc0 tot0 seats g1 where f: "flight_fields F es [] 0 False g = Some ((doc0, tot0, seats), g1)"
      "fst ` set doc0 = fst ` set es - {''seats_available'', ''passengers''}" "seats = (''seats_available'' \<in> fst ` set es)" "equipment_ok doc0 tot0"
    using flight_fields_returns [of es "[]" 0 False g] assms(2) es by (auto simp: equipment_ok_def)
  obtain cap g2 where c: "(if tot0 \<le> 0 then map_option (\<lambda>((_, cap), g'). (cap, g')) (RandomEquipment F g1) else Some (tot0, g1)) = Some (cap, g2)"
      "1 \<le> cap" "cap \<le> 396" "map_of doc0 ''equipment'' = None \<or> equipment_ok doc0 cap"
    using flight_total [OF f(4), of g1] by blast
  have "''seats_available'' \<notin> fst ` set doc0" using f(2) by simp
  then obtain doc1 n g3 where s: "flight_seats F cap seats doc0 g2 = Some ((doc1, n), g3)" "0 \<le> n" "n \<le> cap" "seats_ok doc1"
      "fst ` set doc1 = fst ` set doc0 \<union> (if seats then {''seats_available''} else {})"
    using flight_seats_returns [OF c(2,3,4), of seats g2] by blast
  obtain doc2 g4 where d: "fix_destination F doc1 g3 = Some (doc2, g4)" "fst ` set doc2 = fst ` set doc1"
      "\<And>k. k \<noteq> ''destination'' \<Longrightarrow> map_of doc2 k = map_of doc1 k" "route_ok doc2"
    using fix_destination_returns [OF assms(1), of doc1 g3]
    by (elim exE conjE) (rule that, assumption, assumption, drule spec, erule (1) mp, assumption)
  have so: "seats_ok doc2" using s(4) by (subst seats_ok_cong [of doc2 doc1]) (simp_all add: d(3))
  have keys: "fst ` set doc2 = fst ` set es - {''passengers''}" unfolding d(2) s(5) f(2)
  proof -
    have "''seats_available'' \<noteq> ''passengers''" by simp
    then show "fst ` set es - {''seats_available'', ''passengers''} \<union> (if seats then {''seats_available''} else {}) = fst ` set es - {''passengers''}"
      using f(3) by (cases seats) (simp only: if_True if_False, blast)+
  qed
  have P: "map_of (cd_fields col) ''passengers'' \<noteq> None \<longleftrightarrow> ''passengers'' \<in> fst ` set es" by (simp add: map_of_eq_None_iff es(1))
  have run: "schema_flight F col g = (if ''passengers'' \<in> fst ` set es
       then map_option (\<lambda>(ds, g'). (AList.update ''passengers'' (passengers_value ds) doc2, g')) (RandomPassengers F cap n g4) else Some (doc2, g4))"
    unfolding schema_flight_def es_def [symmetric] f(1) Option.bind.bind_lunit prod.case c(1) s(1) d(1) P ..
  show ?thesis
  proof (cases "''passengers'' \<in> fst ` set es")
    case True
    obtain ds g5 where p: "RandomPassengers F cap n g4 = Some (ds, g5)" "passengers_ok (passengers_value ds)"
      using RandomPassengers_value [OF s(2,3) c(2,3)] by blast
    define doc3 where "doc3 = AList.update ''passengers'' (passengers_value ds) doc2"
    have "seats_ok doc3" "route_ok doc3"
      using so d(4) by (subst seats_ok_cong [of doc3 doc2] route_ok_cong [of doc3 doc2]; simp add: doc3_def AList.update_conv')+
    moreover have "map_of doc3 ''passengers'' = Some (passengers_value ds)" by (simp add: doc3_def AList.update_conv')
    moreover have "fst ` set doc3 = fst ` set (cd_fields col)" using True keys es(1) by (auto simp: doc3_def AList.dom_update)
    ultimately show ?thesis using run True p by (simp add: flight_ok_def doc3_def)
  next
    case False
    then have "map_of doc2 ''passengers'' = None" using keys by (simp add: map_of_eq_None_iff)
    then show ?thesis using run False so d(4) keys es(1) by (auto simp: flight_ok_def)
  qed
qed


lemma default_flight_returns:
  assumes "cities_vary F"
  shows "\<exists>doc g'. default_flight F g = Some (doc, g') \<and> flight_ok doc"
proof -
  obtain q cap g1 where q: "RandomEquipment F g = Some ((q, cap), g1)" "1 \<le> cap" "cap \<le> 396"
      "\<exists>kvs. q = GMap kvs \<and> map_of kvs ''total_seats'' = Some (GInt cap)"
    using RandomEquipment_returns by blast
  obtain i g2 where i: "fk_Intn F 900000 g1 = Some (i, g2)" by (rule Intn_obtain [of 900000 g1]) auto
  obtain code g3 where code: "RandomFlightCode F g2 = Some (code, g3)" using str_drawn(1) by blast
  obtain org g4 where org: "fk_City F g3 = (org, g4)" by fastforce
  obtain d0 g5 where d0: "fk_City F g4 = (d0, g5)" by fastforce
  obtain dest g6 where dest: "other_city F org d0 g5 = Some (dest, g6)" "org \<noteq> dest" using other_city_returns [OF assms] by blast
  obtain gate g7 where gate: "RandomGate F g6 = Some (gate, g7)" using str_drawn(2) by blast
  obtain dur g8 where dur: "fk_Intn F 871 g7 = Some (dur, g8)" by (rule Intn_obtain [of 871 g7]) auto
  obtain n g9 where n: "fk_Intn F (cap + 1) g8 = Some (n, g9)" "0 \<le> n" "n < cap + 1"
    by (rule Intn_obtain [of "cap + 1" g8]) (use q in auto)
  obtain ds g10 where ds: "RandomPassengers F cap n g9 = Some (ds, g10)" "passengers_ok (passengers_value ds)"
    using RandomPassengers_value [of n cap g9] n q by auto
  have "flight_ok [(''flight_id'', GInt (i + 100000)), (''flight_code'', GStr code), (''origin'', GStr org), (''destination'', GStr dest),
          (''gate'', GStr gate), (''duration_minutes'', GInt (dur + 30)), (''seats_available'', GInt n),
          (''equipment'', q), (''passengers'', passengers_value ds)]"
    using n ds(2) dest(2) q(3,4) by (simp add: flight_ok_def seats_ok_def route_ok_def) (intro exI [of _ cap], simp)
  then show ?thesis
    by (simp add: default_flight_def q(1) i code org d0 dest(1) gate dur n(1) ds(1))
qed

lemma generateDefaultDocument_returns:
  assumes "cities_vary F" "\<And>e. e \<in> set (cd_fields col) \<Longrightarrow> enums_fit (snd e)" "distinct (map fst (cd_fields col))"
  shows "\<exists>doc g'. generateDefaultDocument F col g = Some (doc, g') \<and> flight_ok doc \<and>
    (cd_fields col \<noteq> [] \<longrightarrow> fst ` set doc = fst ` set (cd_fields col))"
  using schema_flight_returns [OF assms, of g] default_flight_returns [OF assms(1), of g]
  by (auto simp: generateDefaultDocument_def)

lemma generateGenericDocument_returns:
  assumes "\<And>e. e \<in> set (cd_fields col) \<Longrightarrow> enums_fit (snd e)"
  shows "\<exists>doc g'. generateGenericDocument F col g = Some (doc, g') \<and>
    list_all2 (\<lambda>e x. fst x = fst e \<and> fits_field (fk_seeded F) (snd e) (snd x)) (FieldNames (fk_seeded F) (cd_fields col)) doc"
  unfolding generateGenericDocument_def
  by (rule random_fields_returns, rule RandomValueWithFaker_fits, rule assms) (simp add: FieldNames_def split: if_splits)

end

subsection \<open>The fakers of deterministic runs\<close>

text \<open>\<open>&gofakeit.Faker{Rand: w.rng}\<close>: any faker over the SplitMix64 source.\<close>

definition over_splitmix :: "u64 faker \<Rightarrow> u64 faker" where
  "over_splitmix F = F\<lparr>fk_rand := splitmix_rand\<rparr>"

interpretation smf: faker_source "over_splitmix F" for F
  by unfold_locales (use smr.Intn_law smr.Float64_law smr.Int63_law smr.Int63n_law smr.int31n_law in \<open>auto simp: over_splitmix_def\<close>)


definition sample_faker :: "u64 faker" where
  "sample_faker = \<lparr>fk_rand = splitmix_rand, fk_method = (\<lambda>_. None), fk_City = (\<lambda>g. (if even g then ''Rome'' else ''Oslo'', g + 1)),
     fk_FirstName = (\<lambda>g. (''Ada'', g)), fk_LastName = (\<lambda>g. (''Byron'', g)), fk_UUID = (\<lambda>g. (''u'', g)), fk_SSN = (\<lambda>g. (''s'', g)),
     fk_seeded = True, fk_now = 0, fk_oid = []\<rparr>"

definition sample_age :: field_def where
  "sample_age = FieldDef ''int'' [] 0 0 (Some 3) (Some 9) [] [] None [] 0"

lemma sample_age_fits: "enums_fit sample_age"
  by (rule enums_fit.intros) (auto simp: sample_age_def)


text \<open>A generated flight is consistent: the free seats are at most those of its aircraft, the listed passengers sit in
different seats and are at most 25, the destination is not the origin, and the fields are those of the schema.\<close>

theorem flights_consistent:
  assumes "cities_vary F" "list_all (\<lambda>e. enums_fit (snd e)) (cd_fields col)" "distinct (map fst (cd_fields col))" "isFlightSchema col"
  shows "\<exists>doc g'. GenerateDocumentWithFaker (over_splitmix F) col g = Some (doc, g') \<and> flight_ok doc \<and>
    fst ` set doc = fst ` set (cd_fields col)"
proof -
  have "cities_vary (over_splitmix F)" using assms(1) by (simp add: cities_vary_def over_splitmix_def)
  moreover have "cd_fields col \<noteq> []" using assms(4) by (auto simp: isFlightSchema_def)
  ultimately show ?thesis
    using smf.generateDefaultDocument_returns [of F col g] assms by (auto simp: GenerateDocumentWithFaker_def list_all_iff)
qed

definition sample_flights :: collection_def where
  "sample_flights = \<lparr>c_db = ''air'', c_name = ''flights'',
     cd_fields = [(''gate'', FieldDef ''string'' ''gate'' 0 0 None None [] [] None [] 0), (''age'', sample_age)],
     cd_indexes = [], cd_shard = None\<rparr>"

lemma sample_cities_vary: "cities_vary sample_faker"
proof -
  have "\<exists>n. fst (fk_City sample_faker (((\<lambda>g. snd (fk_City sample_faker g)) ^^ n) g)) \<noteq> c" for c g
  proof (cases "fst (fk_City sample_faker g) = c")
    case True
    have "even (g + 1) = odd g" by simp
    then have "fst (fk_City sample_faker (((\<lambda>g. snd (fk_City sample_faker g)) ^^ 1) g)) \<noteq> c" using True by (auto simp: sample_faker_def)
    then show ?thesis by blast
  next
    case False
    then have "fst (fk_City sample_faker (((\<lambda>g. snd (fk_City sample_faker g)) ^^ 0) g)) \<noteq> c" by simp
    then show ?thesis by blast
  qed
  then show ?thesis by (simp add: cities_vary_def)
qed

theorem flights_consistent_witness:
  "\<exists>doc g'. GenerateDocumentWithFaker (over_splitmix sample_faker) sample_flights 7 = Some (doc, g') \<and> flight_ok doc \<and>
    fst ` set doc = {''gate'', ''age''}"
proof -
  have "enums_fit (FieldDef ''string'' ''gate'' 0 0 None None [] [] None [] 0)" by (rule enums_fit.intros) auto
  then show ?thesis
    using flights_consistent [OF sample_cities_vary, of sample_flights 7] sample_age_fits
    by (simp add: sample_flights_def isFlightSchema_def flightFieldSignals_def)
qed

end
