(* ===== verification/DetGen.thy ===== *)
theory DetGen
  imports Worker DataGenProofs TrafficFingerprint
begin

text \<open>
  The operations of a deterministic worker (\<open>internal/mongo/workload_deterministic.go\<close>). Operation \<open>seq\<close> is built from a
  random stream derived from the seed, the iteration, the worker and \<open>seq\<close>. Values of existing records come from the
  seeded documents, which are generated again when needed and cached, and from the worker's own earlier inserts. A state
  of the worker is its generator, its own inserts and the cache; the outer option of a function is its return.
\<close>

definition seededDocCacheMax :: nat where "seededDocCacheMax = 4096"

definition oid_value :: "8 word list \<Rightarrow> gval" where
  "oid_value bs = GOid (map (\<lambda>b. char_of (unat b)) bs)"

text \<open>A run (\<open>deterministicRun\<close>) with what the worker reads of its configuration. \<open>dr_newFaker\<close> is \<open>gofakeit.New\<close>, a
faker and its initial state for a seed; \<open>dr_faker\<close> is the faker over the worker's own generator.\<close>

record 's det_run =
  dr_seed :: int
  dr_iteration :: int
  dr_budget :: int
  dr_seeded :: nat
  dr_seededIDs :: bool
  dr_selector :: selector
  dr_maxOwn :: nat
  dr_we :: worker_env
  dr_faker :: "u64 faker"
  dr_newFaker :: "int \<Rightarrow> 's faker \<times> 's"
  dr_pow :: "rat \<Rightarrow> rat \<Rightarrow> rat"

text \<open>What a worker is: its number and its prebuilt batches with their patch field (\<open>optimized\<close>).\<close>

record det_self =
  sf_id :: int
  sf_fast :: "(prebuilt_batch list \<times> string) option"

record det_state =
  ds_src :: u64
  ds_own :: "string \<Rightarrow> document list"
  ds_cache :: "(string \<times> document) list"

definition reseed :: "'s det_run \<Rightarrow> int \<Rightarrow> u64 \<Rightarrow> det_state \<Rightarrow> det_state" where
  "reseed run worker sq s = s\<lparr>ds_src := deriveOpSeed (dr_seed run) (dr_iteration run) worker sq\<rparr>"

text \<open>A draw from the worker's generator.\<close>

definition with_src :: "(u64 \<Rightarrow> ('a \<times> u64) option) \<Rightarrow> det_state \<Rightarrow> ('a \<times> det_state) option" where
  "with_src f s = map_option (\<lambda>(x, g). (x, s\<lparr>ds_src := g\<rparr>)) (f (ds_src s))"

definition draw_n :: "int \<Rightarrow> det_state \<Rightarrow> (int \<times> det_state) option" where
  "draw_n n = with_src (rd_Intn splitmix_rand n)"

subsection \<open>Existing records\<close>

definition seed_ns :: "collection_def \<Rightarrow> string" where
  "seed_ns col = c_db col @ ''.'' @ c_name col"

definition seed_key :: "collection_def \<Rightarrow> nat \<Rightarrow> string" where
  "seed_key col k = seed_ns col @ [CHR 0x00] @ itoa (int k)"

text \<open>The \<open>k\<close>-th seeded document, generated again from its own seed.\<close>

definition seeded_document :: "'s det_run \<Rightarrow> collection_def \<Rightarrow> nat \<Rightarrow> document option" where
  "seeded_document run col k =
     (case dr_newFaker run (to_i64 (dr_seed run + int k + 1)) of (F, st) \<Rightarrow>
        map_option (\<lambda>(doc, _).
            if dr_seededIDs run \<and> map_of doc ''_id'' = None
            then AList.update ''_id'' (oid_value (seededDocumentID (dr_seed run) (ascii (seed_ns col)) (int k))) doc else doc)
          (GenerateDocumentWithFaker F col st))"

definition seededDoc :: "'s det_run \<Rightarrow> collection_def \<Rightarrow> nat \<Rightarrow> det_state \<Rightarrow> (document \<times> det_state) option" where
  "seededDoc run col k s =
     (case map_of (ds_cache s) (seed_key col k) of
        Some d \<Rightarrow> Some (d, s)
      | None \<Rightarrow> map_option (\<lambda>doc. (doc, s\<lparr>ds_cache :=
            (seed_key col k, doc) # (if length (ds_cache s) \<ge> seededDocCacheMax then [] else ds_cache s)\<rparr>))
          (seeded_document run col k))"

definition pickExisting :: "'s det_run \<Rightarrow> collection_def \<Rightarrow> string \<Rightarrow> det_state \<Rightarrow> (document option \<times> det_state) option" where
  "pickExisting run col ns s =
     (let own = ds_own s ns; n = dr_seeded run + length own in
      if n = 0 then Some (None, s)
      else do {
        (i, s1) \<leftarrow> with_src (\<lambda>g. Option.bind (Index splitmix_rng (dr_pow run) (dr_selector run) (int n) (Some g))
                       (\<lambda>(i, g'). map_option (Pair i) g')) s;
        (idx, s2) \<leftarrow> (if i < 0 \<or> i \<ge> int n then draw_n (int n) s1 else Some (i, s1));
        if nat idx < dr_seeded run then map_option (\<lambda>(d, s3). (Some d, s3)) (seededDoc run col (nat idx) s2)
        else Some (Some (own ! (nat idx - dr_seeded run)), s2)
      })"

definition addOwn :: "'s det_run \<Rightarrow> string \<Rightarrow> document \<Rightarrow> det_state \<Rightarrow> det_state" where
  "addOwn run ns doc s =
     (let l = ds_own s ns @ [doc] in s\<lparr>ds_own := (ds_own s)(ns := drop (length l - dr_maxOwn run) l)\<rparr>)"

definition fillPlaceholders ::
    "'s det_run \<Rightarrow> gval \<Rightarrow> collection_def \<Rightarrow> string \<Rightarrow> det_state \<Rightarrow> ((gval \<times> bool) \<times> det_state) option" where
  "fillPlaceholders run v col ns s =
     (let hit = we_hitRate (dr_we run) in do {
        (use, s1) \<leftarrow> (if hit > 0 then map_option (\<lambda>(d, s'). (d < hit, s')) (draw_n 100 s) else Some (False, s));
        (ex, s2) \<leftarrow> (if use then pickExisting run col ns s1 else Some (None, s1));
        (v', s3) \<leftarrow> with_src (processFilterPlaceholders splitmix_rng True ex v []) s2;
        Some ((v', ex \<noteq> None), s3)
      })"

definition hasField :: "collection_def \<Rightarrow> string \<Rightarrow> bool" where
  "hasField col k \<longleftrightarrow> map_of (cd_fields col) k \<noteq> None"

definition newDocument :: "'s det_run \<Rightarrow> int \<Rightarrow> collection_def \<Rightarrow> u64 \<Rightarrow> nat \<Rightarrow> det_state \<Rightarrow> (document \<times> det_state) option" where
  "newDocument run worker col sq j s = do {
     (doc, s1) \<leftarrow> with_src (GenerateDocumentWithFaker (dr_faker run) col) s;
     Some (if hasField col ''_id'' then doc
           else AList.update ''_id'' (oid_value (deterministicDocumentID (dr_seed run) (dr_iteration run) worker sq (int j))) doc, s1)
   }"

text \<open>The documents of an \<open>insertMany\<close>, numbered from \<open>j\<close>; each becomes one of the worker's own.\<close>

primrec newDocuments ::
    "'s det_run \<Rightarrow> int \<Rightarrow> collection_def \<Rightarrow> string \<Rightarrow> u64 \<Rightarrow> nat \<Rightarrow> nat \<Rightarrow> det_state \<Rightarrow> (document list \<times> det_state) option" where
  "newDocuments run worker col ns sq j 0 s = Some ([], s)"
| "newDocuments run worker col ns sq j (Suc n) s = do {
     (doc, s1) \<leftarrow> newDocument run worker col sq j s;
     (docs, s2) \<leftarrow> newDocuments run worker col ns sq (Suc j) n (addOwn run ns doc s1);
     Some (doc # docs, s2)
   }"

subsection \<open>Operations\<close>

datatype det_payload =
    pay_none
  | pay_standard exec_request
  | pay_fast_insert bytes int
  | pay_fast_find "int list" int bool
  | pay_transaction "exec_tx list"

text \<open>\<open>detOp\<close>: the part the worker loop reads is the record of TrafficFingerprint.thy.\<close>

record full_op = det_op +
  fo_opType :: string
  fo_col :: "collection_def option"
  fo_ns :: string
  fo_payload :: det_payload
  fo_command :: gval

definition canonicalValue :: "gval \<Rightarrow> gval" where
  "canonicalValue v = (if v = GNil then GNil else Canonical v)"

text \<open>\<open>finish\<close>: \<open>enc\<close> is \<open>workloadrec.EncodeCommand\<close>.\<close>

definition finish :: "(gval \<Rightarrow> string res) \<Rightarrow> full_op \<Rightarrow> full_op" where
  "finish enc op =
     op\<lparr>op_hashLine := fo_ns op @ [CHR 0x09] @ fo_opType op @ [CHR 0x09] @
       (case enc (fo_command op) of Inr cmd \<Rightarrow> cmd | Inl e \<Rightarrow> ''encode_error: '' @ e)\<rparr>"

definition det_collections :: "'s det_run \<Rightarrow> collection_def list" where
  "det_collections run = we_cols (dr_we run)"

definition op_namespace :: "'s det_run \<Rightarrow> collection_def \<Rightarrow> string" where
  "op_namespace run col = collectionNamespace (we_db (dr_we run)) (collection_ref.truncate col)"

definition new_op :: "u64 \<Rightarrow> int \<Rightarrow> full_op" where
  "new_op sq pause = det_op.extend \<lparr>op_seq = sq, op_kind = detSkip, op_pause = pause, op_hashLine = []\<rparr>
     \<lparr>fo_opType = [], fo_col = None, fo_ns = [], fo_payload = pay_none, fo_command = GNil\<rparr>"

definition det_pause :: "'s det_run \<Rightarrow> det_state \<Rightarrow> (int \<times> det_state) option" where
  "det_pause run s =
     (let think = we_think (dr_we run); jitter = we_jitter (dr_we run) in
      if jitter > 0 then map_option (\<lambda>(v, s'). (to_i64 (think + v), s')) (with_src (rd_Int63n splitmix_rand (jitter + 1)) s)
      else Some (if think > 0 then think else 0, s))"

definition det_update :: "'s det_run \<Rightarrow> u64 update_gen" where
  "det_update run col g = GenerateFallbackUpdateWithFaker (dr_faker run) col g"

definition det_query :: "'s det_run \<Rightarrow> string \<Rightarrow> collection_def \<Rightarrow> det_state \<Rightarrow> (query_def option \<times> det_state) option" where
  "det_query run opType col =
     with_src (selectQueryByTypeWith splitmix_rng opType (we_queries (dr_we run)) col (we_filterField (dr_we run)) (det_update run))"

text \<open>The request with everything in canonical form.\<close>

definition canonical_request :: "exec_request \<Rightarrow> exec_request" where
  "canonical_request r =
     r\<lparr>rq_filter := canonicalValue (rq_filter r), rq_update := canonicalValue (rq_update r),
       rq_projection := canonicalValue (rq_projection r),
       rq_pipeline := (if xr_pipelineIn r = None then GNil else Canonical (rq_pipeline r))\<rparr>"

definition standard_op1 :: "full_op \<Rightarrow> exec_request \<Rightarrow> full_op" where
  "standard_op1 op r = op\<lparr>op_kind := detStandard, fo_payload := pay_standard r,
     fo_command := GDoc (standardCommand (op_request.truncate r))\<rparr>"

definition generateStandard ::
    "'s det_run \<Rightarrow> int \<Rightarrow> full_op \<Rightarrow> string \<Rightarrow> collection_def \<Rightarrow> det_state \<Rightarrow> (full_op \<times> det_state) option" where
  "generateStandard run worker op opType col s =
     (let we = dr_we run; ns = op_namespace run col in
      if opType = ''insert'' then do {
        (docs, s1) \<leftarrow> newDocuments run worker col ns (op_seq op) 0 1 s;
        let q = fst (generateInsertQuery col (hd docs) []);
        let r = canonical_request (standard_request we opType col q None None False);
        Some (standard_op1 op (r\<lparr>rq_doc := Canonical (GMap (hd docs))\<rparr>), s1)
      }
      else if opType = ''insertMany'' then do {
        (docs, s1) \<leftarrow> newDocuments run worker col ns (op_seq op) 0 (nat (we_insertBatch we)) s;
        let r = canonical_request (standard_request we opType col empty_query None None False);
        Some (standard_op1 op (r\<lparr>rq_docs := map (\<lambda>d. Canonical (GMap d)) docs\<rparr>), s1)
      }
      else if opType \<in> set query_ops then do {
        (q, s1) \<leftarrow> det_query run opType col s;
        (case q of None \<Rightarrow> Some (op, s1)
         | Some q1 \<Rightarrow>
            if opType = ''aggregate'' then do {
              ((v, ex), s2) \<leftarrow> fillPlaceholders run (GSlice (some_list (qd_pipeline q1))) col ns s1;
              Some (standard_op1 op (canonical_request (standard_request we opType col q1 None (as_slice v) ex)), s2)
            }
            else do {
              ((v, ex), s2) \<leftarrow> fillPlaceholders run (GMap (some_map (qd_filter q1))) col ns s1;
              Some (standard_op1 op (canonical_request (standard_request we opType col q1 (as_map v) None ex)), s2)
            })
      }
      else Some (op, s))"

text \<open>The fast insert: the first id of the batch, the patched copy, the own documents it stands for. \<open>ids\<close> adds document
ids to the batch (\<open>withBatchIDsFrom\<close>), None when it cannot.\<close>

definition fast_insert_base :: "'s det_run \<Rightarrow> int \<Rightarrow> u64 \<Rightarrow> nat \<Rightarrow> int" where
  "fast_insert_base run worker sq n =
     to_i64 (worker * 100000000 + (dr_iteration run - 1) * dr_budget run * int n + sint (sq - 1) * int n)"

definition add_own_ids :: "'s det_run \<Rightarrow> string \<Rightarrow> string \<Rightarrow> int \<Rightarrow> nat \<Rightarrow> det_state \<Rightarrow> det_state" where
  "add_own_ids run ns key base n s = fold (\<lambda>j. addOwn run ns [(key, GInt64 (to_i64 (base + int j)))]) [0..<n] s"

definition generateFastInsert ::
    "'s det_run \<Rightarrow> det_self \<Rightarrow> ((nat \<Rightarrow> gval) \<Rightarrow> bytes \<Rightarrow> bytes option) \<Rightarrow> prebuilt_batch list \<Rightarrow> string \<Rightarrow> full_op \<Rightarrow> collection_def
      \<Rightarrow> det_state \<Rightarrow> (full_op \<times> det_state) option" where
  "generateFastInsert run self ids pool key op col s = do {
     (i, s1) \<leftarrow> draw_n (int (length pool)) s;
     let b = pool ! nat i;
     let n = length (pb_offsets b);
     let base = fast_insert_base run (sf_id self) (op_seq op) n;
     let newID = (\<lambda>j. oid_value (deterministicDocumentID (dr_seed run) (dr_iteration run) (sf_id self) (op_seq op) (int j)));
     raw \<leftarrow> patch_ids (pb_offsets b) base (pb_cmdRaw b);
     let raw1 = (if key \<noteq> ''_id'' \<and> \<not> hasField col ''_id'' then (case ids newID raw of Some r \<Rightarrow> r | None \<Rightarrow> raw) else raw);
     Some (op\<lparr>op_kind := detFastInsert, fo_opType := ''insertMany'',
             fo_payload := pay_fast_insert raw1 (we_insertBatch (dr_we run)),
             fo_command := GBytes (map (\<lambda>b. char_of (unat b)) raw1)\<rparr>,
           add_own_ids run (op_namespace run col) key base n s1)
   }"

primrec existing_ids ::
    "'s det_run \<Rightarrow> collection_def \<Rightarrow> string \<Rightarrow> string \<Rightarrow> nat \<Rightarrow> nat \<Rightarrow> int list \<Rightarrow> det_state \<Rightarrow> (int list \<times> det_state) option" where
  "existing_ids run col ns key want 0 ids s = Some (ids, s)"
| "existing_ids run col ns key want (Suc tries) ids s =
     (if length ids < want then do {
        (rec, s1) \<leftarrow> pickExisting run col ns s;
        (case rec of None \<Rightarrow> Some (ids, s1)
         | Some d \<Rightarrow> existing_ids run col ns key want tries
             (case int_value (map_of d key) of Some i \<Rightarrow> ids @ [i] | None \<Rightarrow> ids) s1)
      } else Some (ids, s))"

definition generateFastFind ::
    "'s det_run \<Rightarrow> string \<Rightarrow> full_op \<Rightarrow> collection_def \<Rightarrow> det_state \<Rightarrow> (full_op \<times> det_state) option" where
  "generateFastFind run key op col s =
     (let we = dr_we run; sz = fast_batch_size (we_findBatchSize we); ns = op_namespace run col in do {
        (hit, s1) \<leftarrow> (if dr_seeded run + length (ds_own s ns) > 0
           then map_option (\<lambda>(d, s'). (d < we_hitRate we, s')) (draw_n 100 s) else Some (False, s));
        (pooled, s2) \<leftarrow> (if hit then existing_ids run col ns key (nat sz) (2 * nat sz) [] s1 else Some ([], s1));
        (rest, s3) \<leftarrow> with_src (random_ids splitmix_rand (we_concurrency we) (nat sz - length pooled)) s2;
        Some (op\<lparr>op_kind := detFastFind, fo_payload := pay_fast_find (pooled @ rest) sz (pooled \<noteq> []),
                fo_command := GDoc (fastFindRecord (collection_ref.truncate col) key (pooled @ rest) sz)\<rparr>, s3)
      })"

subsection \<open>Transactions\<close>

definition det_tx :: "string \<Rightarrow> collection_def \<Rightarrow> exec_tx" where
  "det_tx opType col = tx_op.extend (empty_tx opType (collection_ref.truncate col))
     \<lparr>xt_filterMap = None, xt_poolDoc = None, xt_poolDocs = []\<rparr>"

text \<open>One operation of a transaction, None when it is skipped; \<open>j\<close> numbers the inserted documents.\<close>

definition generateTxOp ::
    "'s det_run \<Rightarrow> int \<Rightarrow> u64 \<Rightarrow> nat \<Rightarrow> det_state \<Rightarrow> ((exec_tx option \<times> nat) \<times> det_state) option" where
  "generateTxOp run worker sq j s =
     (let we = dr_we run in do {
        (c, s1) \<leftarrow> draw_n (int (length (we_cols we))) s;
        let col = we_cols we ! nat c;
        (t, s2) \<leftarrow> with_src (selectOperation splitmix_rng (Some (we_mix we))) s1;
        let opType = (if t = ''aggregate'' \<or> t = ''transaction'' then ''find'' else t);
        let ns = op_namespace run col;
        let tx = det_tx opType col;
        if opType = ''insert'' then do {
          (docs, s3) \<leftarrow> newDocuments run worker col ns sq j 1 s2;
          Some ((Some (tx\<lparr>tx_doc := Canonical (GMap (hd docs))\<rparr>), Suc j), s3)
        }
        else if opType = ''insertMany'' then do {
          (docs, s3) \<leftarrow> newDocuments run worker col ns sq j (nat (we_insertBatch we)) s2;
          Some ((Some (tx\<lparr>tx_docs := map (\<lambda>d. Canonical (GMap d)) docs\<rparr>), j + nat (we_insertBatch we)), s3)
        }
        else do {
          (q, s3) \<leftarrow> det_query run opType col s2;
          (case q of None \<Rightarrow> Some ((None, j), s3)
           | Some q1 \<Rightarrow> do {
               ((v, ex), s4) \<leftarrow> fillPlaceholders run (GMap (some_map (qd_filter q1))) col ns s3;
               Some ((Some (tx\<lparr>tx_filter := canonicalValue v, tx_update := canonicalValue (map_gval (qd_update q1)),
                   tx_upsert := qd_upsert q1, xt_filterMap := as_map v\<rparr>), j), s4)
             })
        }
      })"

primrec generateTxOps ::
    "'s det_run \<Rightarrow> int \<Rightarrow> u64 \<Rightarrow> nat \<Rightarrow> nat \<Rightarrow> det_state \<Rightarrow> (exec_tx list \<times> det_state) option" where
  "generateTxOps run worker sq 0 j s = Some ([], s)"
| "generateTxOps run worker sq (Suc n) j s = do {
     ((tx, j1), s1) \<leftarrow> generateTxOp run worker sq j s;
     (txs, s2) \<leftarrow> generateTxOps run worker sq n j1 s1;
     Some ((case tx of Some t \<Rightarrow> t # txs | None \<Rightarrow> txs), s2)
   }"

definition dbName :: "worker_env \<Rightarrow> string" where
  "dbName we = (case we_db we of Some d \<Rightarrow> d | None \<Rightarrow> (case we_cols we of c # _ \<Rightarrow> c_db c | [] \<Rightarrow> ''unknown''))"

definition generateTransaction :: "'s det_run \<Rightarrow> int \<Rightarrow> full_op \<Rightarrow> det_state \<Rightarrow> (full_op \<times> det_state) option" where
  "generateTransaction run worker op s = do {
     (n, s1) \<leftarrow> draw_n (max (we_maxTxOps (dr_we run)) 1) s;
     (txs, s2) \<leftarrow> generateTxOps run worker (op_seq op) (nat (n + 1)) 0 s1;
     Some (op\<lparr>op_kind := detTransaction, fo_opType := ''transaction'', fo_ns := dbName (dr_we run) @ ''.(multiple)'',
             fo_payload := pay_transaction txs,
             fo_command := GDoc [(''ops'', GA (map (\<lambda>x. txInnerCommand (we_db (dr_we run)) (tx_op.truncate x)) txs))]\<rparr>, s2)
   }"

subsection \<open>One operation\<close>

definition finished :: "(gval \<Rightarrow> string res) \<Rightarrow> (full_op \<times> det_state) option \<Rightarrow> (full_op \<times> det_state) option" where
  "finished enc = map_option (\<lambda>(op, s). (if op_kind op = detSkip then op else finish enc op, s))"

definition generate ::
    "'s det_run \<Rightarrow> det_self \<Rightarrow> ((nat \<Rightarrow> gval) \<Rightarrow> bytes \<Rightarrow> bytes option) \<Rightarrow> (gval \<Rightarrow> string res) \<Rightarrow> u64 \<Rightarrow> det_state
      \<Rightarrow> (full_op \<times> det_state) option" where
  "generate run self ids enc sq s0 =
     (let we = dr_we run in do {
        (pause, s1) \<leftarrow> det_pause run (reseed run (sf_id self) sq s0);
        (c, s2) \<leftarrow> draw_n (int (length (we_cols we))) s1;
        let col = we_cols we ! nat c;
        let op0 = new_op sq pause;
        (t, s3) \<leftarrow> with_src (selectOperation splitmix_rng (Some (we_mix we))) s2;
        if t = ''transaction'' \<and> we_useTx we then finished enc (generateTransaction run (sf_id self) op0 s3)
        else
          (let opType = (if t = ''transaction'' then ''find'' else t);
               op = op0\<lparr>fo_opType := opType, fo_col := Some col, fo_ns := op_namespace run col\<rparr>;
               fast = is_fast we (sf_fast self \<noteq> None) col
           in case sf_fast self of
                Some (pool, key) \<Rightarrow>
                  (if fast \<and> (opType = ''insert'' \<or> opType = ''insertMany'')
                   then finished enc (generateFastInsert run self ids pool key op col s3)
                   else if fast \<and> opType = ''find'' then finished enc (generateFastFind run key op col s3)
                   else finished enc (generateStandard run (sf_id self) op opType col s3))
              | None \<Rightarrow> finished enc (generateStandard run (sf_id self) op opType col s3))
      })"

text \<open>\<open>newDetWorker\<close>: nothing inserted and nothing cached; the batches of the first collection are generated from
the stream of operation 0, the worker's setup. \<open>marshal\<close> encodes a canonical document.\<close>

primrec gen_batch :: "u64 faker \<Rightarrow> collection_def \<Rightarrow> nat \<Rightarrow> u64 \<Rightarrow> (document list \<times> u64) option" where
  "gen_batch F col 0 g = Some ([], g)"
| "gen_batch F col (Suc n) g = do {
     (d, g1) \<leftarrow> GenerateDocumentWithFaker F col g;
     (ds, g2) \<leftarrow> gen_batch F col n g1;
     Some (d # ds, g2)
   }"

primrec gen_batches :: "u64 faker \<Rightarrow> collection_def \<Rightarrow> nat \<Rightarrow> nat \<Rightarrow> u64 \<Rightarrow> (document list list \<times> u64) option" where
  "gen_batches F col size1 0 g = Some ([], g)"
| "gen_batches F col size1 (Suc n) g = do {
     (d, g1) \<leftarrow> gen_batch F col size1 g;
     (ds, g2) \<leftarrow> gen_batches F col size1 n g1;
     Some (d # ds, g2)
   }"

definition newDetWorker ::
    "'s det_run \<Rightarrow> (document \<Rightarrow> string + bytes) \<Rightarrow> (bytes \<Rightarrow> bytes) \<Rightarrow> (string \<times> field_def) list \<Rightarrow> int \<Rightarrow> (det_self \<times> det_state) option" where
  "newDetWorker run marshal marshal_cmd order worker =
     (let s0 = \<lparr>ds_src = 0, ds_own = (\<lambda>_. []), ds_cache = []\<rparr> in
      case det_collections run of [] \<Rightarrow> Some (\<lparr>sf_id = worker, sf_fast = None\<rparr>, s0)
      | col # _ \<Rightarrow>
          if identifyPatchKey col order = [] then Some (\<lparr>sf_id = worker, sf_fast = None\<rparr>, s0)
          else map_option (\<lambda>(docs, _).
              (\<lparr>sf_id = worker, sf_fast = (case prepareGenericBatchPoolWith marshal marshal_cmd col order docs of
                  Inr pool \<Rightarrow> Some pool | Inl _ \<Rightarrow> None)\<rparr>, s0))
            (gen_batches (dr_faker run) col (nat (we_insertBatch (dr_we run))) 20
              (deriveOpSeed (dr_seed run) (dr_iteration run) worker 0)))"

subsection \<open>A run\<close>

record det_config =
  dc_seed :: int
  dc_budget :: int
  dc_drop :: bool
  dc_access :: ap_config
  dc_poolMax :: int
  dc_skipSeed :: bool
  dc_documents :: int
  dc_iterations :: int

text \<open>The part of the recording session that spans the iterations.\<close>

record det_session =
  sn_traffic :: "traffic_fp option"
  sn_iteration :: int

definition count_iteration :: "int \<Rightarrow> traffic_fp \<Rightarrow> traffic_fp" where
  "count_iteration it t = t\<lparr>fp_header := (fp_header t)\<lparr>th_iterations := it\<rparr>\<rparr>"

definition det_iteration :: "det_config \<Rightarrow> det_session option \<Rightarrow> string + int" where
  "det_iteration cfg sess =
     (case sess of
        None \<Rightarrow> if dc_iterations cfg > 1
          then Inl (''a deterministic run of '' @ itoa (dc_iterations cfg) @ '' iterations needs one traffic fingerprint for the whole run (WithWorkloadRecordingSession)'')
          else Inr 1
      | Some ss \<Rightarrow> Inr (sn_iteration ss + 1))"

definition det_selector :: "det_config \<Rightarrow> selector" where
  "det_selector cfg = (case Compile (dc_access cfg) of Inr s \<Rightarrow> s | Inl _ \<Rightarrow> uniformSelector)"

text \<open>\<open>newDeterministicRun\<close>: \<open>fp\<close> is the result of \<open>newTrafficFingerprint\<close>. The result is the run with its
fingerprint, or an error, and the session, which shares the fingerprint.\<close>

definition newDeterministicRun ::
    "det_config \<Rightarrow> traffic_fp res \<Rightarrow> worker_env \<Rightarrow> u64 faker \<Rightarrow> (int \<Rightarrow> 's faker \<times> 's) \<Rightarrow> (rat \<Rightarrow> rat \<Rightarrow> rat) \<Rightarrow> det_session option
      \<Rightarrow> (string + ('s det_run \<times> traffic_fp)) \<times> det_session option" where
  "newDeterministicRun cfg fp we F newF pow sess =
     (case det_iteration cfg sess of Inl e \<Rightarrow> (Inl e, sess)
      | Inr it \<Rightarrow>
         (let sess1 = map_option (\<lambda>ss. ss\<lparr>sn_iteration := it\<rparr>) sess;
              old = Option.bind sess sn_traffic
          in case (case old of Some t \<Rightarrow> Inr t | None \<Rightarrow> fp) of
               Inl e \<Rightarrow> (Inl e, sess1)
             | Inr t0 \<Rightarrow>
                (let t = count_iteration it t0;
                     run = \<lparr>dr_seed = dc_seed cfg, dr_iteration = it, dr_budget = dc_budget cfg,
                        dr_seeded = (if \<not> dc_skipSeed cfg \<and> dc_documents cfg > 0 then nat (dc_documents cfg) else 0),
                        dr_seededIDs = dc_drop cfg, dr_selector = det_selector cfg,
                        dr_maxOwn = (if dc_poolMax cfg \<le> 0 then 10000 else nat (dc_poolMax cfg)),
                        dr_we = we, dr_faker = over_splitmix F, dr_newFaker = newF, dr_pow = pow\<rparr>
                 in (Inr (run, t), map_option (\<lambda>ss. ss\<lparr>sn_traffic := Some t\<rparr>) sess1))))"

end
