(* ===== verification/DetGenProofs.thy ===== *)
theory DetGenProofs
  imports DetGen
begin

text \<open>
  What deterministic operations depend on: generating an operation returns and gives the same operation from any two
  states with the same own inserts, whatever the generator drew before and whatever the cache of seeded documents holds.
  Also where the ids of fast inserts are distinct, and where they are not.
\<close>

subsection \<open>Two workers that agree\<close>

definition cache_ok :: "'s det_run \<Rightarrow> (string \<times> document) list \<Rightarrow> bool" where
  "cache_ok run c \<longleftrightarrow> (\<forall>col \<in> set (det_collections run). \<forall>k d. map_of c (seed_key col k) = Some d \<longrightarrow> seeded_document run col k = Some d)"

definition sim :: "'s det_run \<Rightarrow> det_state \<Rightarrow> det_state \<Rightarrow> bool" where
  "sim run s t \<longleftrightarrow> ds_src s = ds_src t \<and> ds_own s = ds_own t \<and> cache_ok run (ds_cache s) \<and> cache_ok run (ds_cache t) \<and>
     (\<forall>ns. length (ds_own s ns) \<le> dr_maxOwn run)"

definition run_ok :: "'s det_run \<Rightarrow> bool" where
  "run_ok run \<longleftrightarrow> det_collections run \<noteq> [] \<and> length (det_collections run) < 2 ^ 62 \<and> inj_on seed_ns (set (det_collections run)) \<and>
     (\<forall>op. length (we_queries (dr_we run) op) < 2 ^ 62) \<and> we_jitter (dr_we run) < 2 ^ 62 \<and> we_maxTxOps (dr_we run) < 2 ^ 62 \<and>
     1 \<le> we_concurrency (dr_we run) \<and> we_concurrency (dr_we run) < 2 ^ 30 \<and> dr_seeded run + dr_maxOwn run < 2 ^ 62 \<and>
     (\<forall>col \<in> set (det_collections run). \<forall>g. GenerateDocumentWithFaker (dr_faker run) col g \<noteq> None) \<and>
     (\<forall>col \<in> set (det_collections run). \<forall>k. seeded_document run col k \<noteq> None) \<and> total_updates (det_collections run) (det_update run)"

definition self_ok :: "det_self \<Rightarrow> bool" where
  "self_ok self \<longleftrightarrow> (case sf_fast self of None \<Rightarrow> True | Some (pool, key) \<Rightarrow> pool \<noteq> [] \<and> batches_ok pool)"

text \<open>Both calls return, with the same result, in states that agree.\<close>

definition both :: "'s det_run \<Rightarrow> ('a \<Rightarrow> bool) \<Rightarrow> ('a \<times> det_state) option \<Rightarrow> ('a \<times> det_state) option \<Rightarrow> bool" where
  "both run P r r' \<longleftrightarrow> (\<exists>x s t. r = Some (x, s) \<and> r' = Some (x, t) \<and> P x \<and> sim run s t)"

lemma both_Some [intro]: "P x \<Longrightarrow> sim run s t \<Longrightarrow> both run P (Some (x, s)) (Some (x, t))"
  by (simp add: both_def)

lemma both_bind:
  assumes "both run P a b" and "\<And>x s t. P x \<Longrightarrow> sim run s t \<Longrightarrow> both run Q (f x s) (f' x t)"
  shows "both run Q (Option.bind a (\<lambda>(x, s). f x s)) (Option.bind b (\<lambda>(x, s). f' x s))"
  using assms by (fastforce simp: both_def)

lemma if_both: "(b \<Longrightarrow> both run P x x') \<Longrightarrow> (\<not> b \<Longrightarrow> both run P y y') \<Longrightarrow> both run P (if b then x else y) (if b then x' else y')"
  by simp

lemma both_map:
  assumes "both run P a b" and "\<And>x. P x \<Longrightarrow> Q (f x)"
  shows "both run Q (map_option (\<lambda>(x, s). (f x, s)) a) (map_option (\<lambda>(x, s). (f x, s)) b)"
  using assms by (auto simp: both_def)

lemma both_weaken: "both run P a b \<Longrightarrow> (\<And>x. P x \<Longrightarrow> Q x) \<Longrightarrow> both run Q a b"
  by (auto simp: both_def)

lemma both_with_src:
  assumes "sim run s t" "\<And>g. \<exists>x g'. f g = Some (x, g') \<and> P x"
  shows "both run P (with_src f s) (with_src f t)"
proof -
  obtain x g' where "f (ds_src s) = Some (x, g')" "P x" using assms(2) by blast
  then show ?thesis using assms(1) by (auto simp: both_def with_src_def sim_def)
qed

lemma splitmix_Intn: "rd_Intn splitmix_rand = rng_Intn splitmix_rng" "rd_base splitmix_rand = splitmix_rng"
  by (simp_all add: splitmix_rand_def)

lemma both_draw:
  assumes "sim run s t" "0 < n" "n < 2 ^ 63"
  shows "both run (\<lambda>i. 0 \<le> i \<and> i < n) (draw_n n s) (draw_n n t)"
  unfolding draw_n_def
proof (rule both_with_src [OF assms(1)])
  fix g show "\<exists>i g'. rd_Intn splitmix_rand n g = Some (i, g') \<and> 0 \<le> i \<and> i < n"
    using smr.Intn_law [OF assms(2,3), of g] by (simp add: splitmix_Intn)
qed

subsection \<open>Seeded documents\<close>

lemma itoa_no_nul: "CHR 0x00 \<notin> set (itoa (int k))"
proof -
  have "CHR 0x00 \<notin> set (nat_digits k)"
  proof (induction k rule: nat_digits.induct)
    case (1 n)
    have "digit_char m \<noteq> CHR 0x00" if "m < 10" for m
    proof
      assume "digit_char m = CHR 0x00"
      then have "(of_char (digit_char m) :: nat) = of_char (CHR 0x00)" by simp
      then show False using that by (simp add: digit_char_def)
    qed
    from this [of n] this [of "n mod 10"] 1 show ?case by (cases "n < 10") (auto simp: nat_digits.simps [of n])
  qed
  then show ?thesis by (simp add: itoa_def)
qed

lemma seed_key_inj: "seed_key col k = seed_key col' k' \<Longrightarrow> seed_ns col = seed_ns col' \<and> k = k'"
proof -
  assume eq: "seed_key col k = seed_key col' k'"
  have digits: "takeWhile (\<lambda>c. c \<noteq> CHR 0x00) (rev (seed_key c n)) = rev (itoa (int n))" for c n
    using itoa_no_nul [of n] by (simp add: seed_key_def takeWhile_append)
  then have "itoa (int k) = itoa (int k')" using eq by (metis rev_rev_ident)
  then have "k = k'" by (rule itoa_inj)
  with eq show ?thesis by (simp add: seed_key_def)
qed

lemma seeded_key_document:
  assumes "run_ok run" "col \<in> set (det_collections run)" "col' \<in> set (det_collections run)" "seed_key col k = seed_key col' k'"
  shows "seeded_document run col k = seeded_document run col' k'"
  using assms seed_key_inj [OF assms(4)] by (auto simp: run_ok_def dest: inj_onD)

lemma cache_ok_Cons:
  assumes "run_ok run" "col \<in> set (det_collections run)" "seeded_document run col k = Some d" "cache_ok run c"
  shows "cache_ok run ((seed_key col k, d) # c)"
proof -
  have "seeded_document run col' k' = Some d" if "col' \<in> set (det_collections run)" "seed_key col' k' = seed_key col k" for col' k'
    using seeded_key_document [OF assms(1,2) that(1) that(2) [symmetric]] assms(3) by simp
  with assms(4) show ?thesis by (auto simp: cache_ok_def)
qed

lemma both_seededDoc:
  assumes ok: "run_ok run" "col \<in> set (det_collections run)" and s: "sim run s t"
  shows "both run (\<lambda>_. True) (seededDoc run col k s) (seededDoc run col k t)"
proof -
  obtain d where d: "seeded_document run col k = Some d" using ok by (meson option.exhaust run_ok_def)
  have one: "\<exists>s'. seededDoc run col k s = Some (d, s') \<and> ds_src s' = ds_src s \<and> ds_own s' = ds_own s \<and> cache_ok run (ds_cache s')"
    if "cache_ok run (ds_cache s)" for s
  proof (cases "map_of (ds_cache s) (seed_key col k)")
    case None
    have "cache_ok run []" by (simp add: cache_ok_def)
    with None d that show ?thesis by (simp add: seededDoc_def cache_ok_Cons [OF ok d])
  next
    case (Some x)
    then have "x = d" using that ok(2) d by (auto simp: cache_ok_def)
    with Some that show ?thesis by (simp add: seededDoc_def)
  qed
  obtain s' where s': "seededDoc run col k s = Some (d, s')" "ds_src s' = ds_src s" "ds_own s' = ds_own s" "cache_ok run (ds_cache s')"
    using one [of s] s by (auto simp: sim_def)
  obtain t' where t': "seededDoc run col k t = Some (d, t')" "ds_src t' = ds_src t" "ds_own t' = ds_own t" "cache_ok run (ds_cache t')"
    using one [of t] s by (auto simp: sim_def)
  have "sim run s' t'" using s s' t' by (auto simp: sim_def)
  then show ?thesis using s'(1) t'(1) by (simp add: both_def)
qed

lemma sim_addOwn: "sim run s t \<Longrightarrow> sim run (addOwn run ns d s) (addOwn run ns d t)"
  by (auto simp: sim_def addOwn_def Let_def)

subsection \<open>The steps of a generation\<close>

lemma both_index:
  assumes "sim run s t" "0 < n" "n < 2 ^ 63"
  shows "both run (\<lambda>i. 0 \<le> i \<and> i < n)
    (with_src (\<lambda>g. Option.bind (Index splitmix_rng pow sl n (Some g)) (\<lambda>(i, g'). map_option (Pair i) g')) s)
    (with_src (\<lambda>g. Option.bind (Index splitmix_rng pow sl n (Some g)) (\<lambda>(i, g'). map_option (Pair i) g')) t)"
proof (rule both_with_src [OF assms(1)])
  fix g
  obtain i g' where "Index splitmix_rng pow sl n (Some g) = Some (i, Some g')" "0 \<le> i" "i < n"
    using sm.Index_range [OF assms(2,3), of pow sl g] by blast
  then show "\<exists>i g'. Option.bind (Index splitmix_rng pow sl n (Some g)) (\<lambda>(i, g'). map_option (Pair i) g') = Some (i, g') \<and> 0 \<le> i \<and> i < n"
    by simp
qed

lemma both_pickExisting:
  assumes ok: "run_ok run" "col \<in> set (det_collections run)" and s: "sim run s t"
  shows "both run (\<lambda>_. True) (pickExisting run col ns s) (pickExisting run col ns t)"
proof -
  define own where "own = ds_own s ns"
  define n where "n = dr_seeded run + length own"
  have t: "ds_own t ns = own" using s by (simp add: own_def sim_def)
  have "length own \<le> dr_maxOwn run" using s unfolding sim_def own_def by blast
  then have n: "int n < 2 ^ 63" using ok by (simp add: n_def run_ok_def)
  show ?thesis
  proof (cases "n = 0")
    case True
    then show ?thesis using s unfolding pickExisting_def own_def [symmetric] t Let_def n_def [symmetric] by (simp add: both_def)
  next
    case False
    have "both run (\<lambda>_. True)
       (if nat i < dr_seeded run then map_option (\<lambda>(d, s3). (Some d, s3)) (seededDoc run col (nat i) s2) else Some (Some (own ! (nat i - dr_seeded run)), s2))
       (if nat i < dr_seeded run then map_option (\<lambda>(d, s3). (Some d, s3)) (seededDoc run col (nat i) t2) else Some (Some (own ! (nat i - dr_seeded run)), t2))"
      if "sim run s2 t2" for i s2 t2
      using that by (auto intro: both_map [OF both_seededDoc [OF ok]])
    moreover have "both run (\<lambda>_. True) (if i < 0 \<or> i \<ge> int n then draw_n (int n) s1 else Some (i, s1))
       (if i < 0 \<or> i \<ge> int n then draw_n (int n) t1 else Some (i, t1))" if "sim run s1 t1" for i s1 t1
      using that both_draw [OF that, of "int n"] False n by (auto intro: both_weaken)
    moreover have "both run (\<lambda>i. 0 \<le> i \<and> i < int n)
        (with_src (\<lambda>g. Option.bind (Index splitmix_rng (dr_pow run) (dr_selector run) (int n) (Some g)) (\<lambda>(i, g'). map_option (Pair i) g')) s)
        (with_src (\<lambda>g. Option.bind (Index splitmix_rng (dr_pow run) (dr_selector run) (int n) (Some g)) (\<lambda>(i, g'). map_option (Pair i) g')) t)"
      by (rule both_index [OF s]) (use False n in auto)
    ultimately show ?thesis
      using False unfolding pickExisting_def own_def [symmetric] t Let_def n_def [symmetric] if_not_P [OF False]
      by (blast intro: both_bind)
  qed
qed

lemma both_fill:
  assumes ok: "run_ok run" "col \<in> set (det_collections run)" and s: "sim run s t"
  shows "both run (\<lambda>_. True) (fillPlaceholders run v col ns s) (fillPlaceholders run v col ns t)"
proof -
  let ?hit = "we_hitRate (dr_we run)"
  have 1: "both run (\<lambda>_. True) (if ?hit > 0 then map_option (\<lambda>(d, s'). (d < ?hit, s')) (draw_n 100 s) else Some (False, s))
     (if ?hit > 0 then map_option (\<lambda>(d, s'). (d < ?hit, s')) (draw_n 100 t) else Some (False, t))"
    by (rule if_both, rule both_map [OF both_draw [OF s, of 100]]) (use s in auto)
  have 2: "both run (\<lambda>_. True) (if use then pickExisting run col ns s1 else Some (None, s1)) (if use then pickExisting run col ns t1 else Some (None, t1))"
    if "sim run s1 t1" for use s1 t1 using both_pickExisting [OF ok that] that by auto
  have 3: "both run (\<lambda>_. True) (with_src (processFilterPlaceholders splitmix_rng True ex v []) s2) (with_src (processFilterPlaceholders splitmix_rng True ex v []) t2)"
    if "sim run s2 t2" for ex s2 t2
    using process_filled [OF sm.rng_source_axioms, of True ex v "[]"] by (intro both_with_src [OF that]) blast
  show ?thesis unfolding fillPlaceholders_def Let_def by (rule both_bind [OF 1], rule both_bind [OF 2], assumption, rule both_bind [OF 3], assumption) auto
qed

lemma both_newDocument:
  assumes ok: "run_ok run" "col \<in> set (det_collections run)" and s: "sim run s t"
  shows "both run (\<lambda>_. True) (newDocument run worker col sq j s) (newDocument run worker col sq j t)"
proof -
  have "both run (\<lambda>_. True) (with_src (GenerateDocumentWithFaker (dr_faker run) col) s) (with_src (GenerateDocumentWithFaker (dr_faker run) col) t)"
    by (rule both_with_src [OF s]) (use ok in \<open>auto simp: run_ok_def\<close>)
  then show ?thesis unfolding newDocument_def by (rule both_bind) auto
qed

lemma both_newDocuments:
  assumes ok: "run_ok run" "col \<in> set (det_collections run)" and s: "sim run s t"
  shows "both run (\<lambda>ds. length ds = n) (newDocuments run worker col ns sq j n s) (newDocuments run worker col ns sq j n t)"
  using s
proof (induction n arbitrary: s t j)
  case (Suc n)
  show ?case unfolding newDocuments.simps
    by (rule both_bind [OF both_newDocument [OF ok Suc.prems]], rule both_bind [OF Suc.IH], rule sim_addOwn, assumption) auto
qed auto

lemma both_query:
  assumes "run_ok run" "col \<in> set (det_collections run)" "sim run s t"
  shows "both run (\<lambda>_. True) (det_query run opType col s) (det_query run opType col t)"
  unfolding det_query_def
proof (rule both_with_src [OF assms(3)])
  fix g
  have "det_update run col g \<noteq> None" "length (we_queries (dr_we run) opType) < 2 ^ 62"
    using assms(1,2) unfolding run_ok_def total_updates_def by blast+
  then show "\<exists>q g'. selectQueryByTypeWith splitmix_rng opType (we_queries (dr_we run)) col (we_filterField (dr_we run)) (det_update run) g = Some (q, g') \<and> True"
    using sm.selectQuery_returns by blast
qed

lemma both_standard:
  assumes ok: "run_ok run" "col \<in> set (det_collections run)" and s: "sim run s t"
  shows "both run (\<lambda>_. True) (generateStandard run worker op opType col s) (generateStandard run worker op opType col t)"
proof -
  have ins: "both run (\<lambda>ds. length ds = n) (newDocuments run worker col ns sq j n s) (newDocuments run worker col ns sq j n t)" for n ns sq j
    by (rule both_newDocuments [OF ok s])
  have fill: "both run (\<lambda>_. True)
      (Option.bind (fillPlaceholders run v col ns s) (\<lambda>((v, ex), s2). Some (f v ex, s2)))
      (Option.bind (fillPlaceholders run v col ns t) (\<lambda>((v, ex), s2). Some (f v ex, s2)))" if "sim run s t"
    for v ns s t and f :: "gval \<Rightarrow> bool \<Rightarrow> full_op"
    using both_fill [OF ok that, of v ns] by (auto simp: both_def)
  have qry: "both run (\<lambda>_. True) (case q of None \<Rightarrow> Some (op, s1) | Some q1 \<Rightarrow> h q1 s1) (case q of None \<Rightarrow> Some (op, t1) | Some q1 \<Rightarrow> h q1 t1)"
    if "sim run s1 t1" "\<And>q1. both run (\<lambda>_. True) (h q1 s1) (h q1 t1)" for q s1 t1 and h :: "query_def \<Rightarrow> det_state \<Rightarrow> (full_op \<times> det_state) option"
    using that by (auto split: option.split)
  show ?thesis
    unfolding generateStandard_def Let_def
    by (intro if_both) (rule both_bind [OF ins] both_bind [OF both_query [OF ok s]] | intro qry if_both fill | auto simp: s)+
qed

lemma sim_add_own_ids: "sim run s t \<Longrightarrow> sim run (add_own_ids run ns key base n s) (add_own_ids run ns key base n t)"
proof -
  assume s: "sim run s t"
  have "sim run (fold (\<lambda>j. addOwn run ns (f j)) js s) (fold (\<lambda>j. addOwn run ns (f j)) js t)" for js :: "nat list" and f
    using s by (induction js arbitrary: s t) (simp_all add: sim_addOwn)
  then show ?thesis by (simp add: add_own_ids_def)
qed

lemma patch_ids_returns: "\<forall>off \<in> set offs. off + 8 \<le> length raw \<Longrightarrow> \<exists>raw'. patch_ids offs sq raw = Some raw'"
proof (induction offs arbitrary: sq raw)
  case (Cons off offs)
  have "length (put_u64 off w raw) = length raw" for w using Cons.prems by (simp add: put_u64_def)
  with Cons show ?case by simp
qed simp

lemma both_fastInsert:
  assumes "pool \<noteq> []" "batches_ok pool" and s: "sim run s t"
  shows "both run (\<lambda>_. True) (generateFastInsert run self ids pool key op col s) (generateFastInsert run self ids pool key op col t)"
proof -
  have n: "0 < int (length pool)" "int (length pool) < 2 ^ 63" using assms(1,2) by (auto simp: batches_ok_def)
  have patch: "\<exists>raw. patch_ids (pb_offsets (pool ! nat i)) base (pb_cmdRaw (pool ! nat i)) = Some raw" if "0 \<le> i \<and> i < int (length pool)" for i base
  proof -
    have "pool ! nat i \<in> set pool" using that by (auto intro: nth_mem)
    then obtain a where "apart a (pb_offsets (pool ! nat i)) (length (pb_cmdRaw (pool ! nat i)))" using assms(2) by (auto simp: batches_ok_def)
    then show ?thesis by (intro patch_ids_returns) (use apart_ge in blast)
  qed
  show ?thesis unfolding generateFastInsert_def Let_def
  proof (rule both_bind [OF both_draw [OF s n]])
    fix i s1 t1 assume i: "0 \<le> i \<and> i < int (length pool)" and s1: "sim run s1 t1"
    define base where "base = fast_insert_base run (sf_id self) (op_seq op) (length (pb_offsets (pool ! nat i)))"
    obtain raw where "patch_ids (pb_offsets (pool ! nat i)) base (pb_cmdRaw (pool ! nat i)) = Some raw" using patch [OF i] by blast
    then show "both run (\<lambda>_. True)
       (do {
          raw \<leftarrow> patch_ids (pb_offsets (pool ! nat i)) (fast_insert_base run (sf_id self) (op_seq op) (length (pb_offsets (pool ! nat i)))) (pb_cmdRaw (pool ! nat i));
          Some (f raw, add_own_ids run (op_namespace run col) key (fast_insert_base run (sf_id self) (op_seq op) (length (pb_offsets (pool ! nat i))))
            (length (pb_offsets (pool ! nat i))) s1)
        })
       (do {
          raw \<leftarrow> patch_ids (pb_offsets (pool ! nat i)) (fast_insert_base run (sf_id self) (op_seq op) (length (pb_offsets (pool ! nat i)))) (pb_cmdRaw (pool ! nat i));
          Some (f raw, add_own_ids run (op_namespace run col) key (fast_insert_base run (sf_id self) (op_seq op) (length (pb_offsets (pool ! nat i))))
            (length (pb_offsets (pool ! nat i))) t1)
        })" for f :: "bytes \<Rightarrow> full_op"
      using sim_add_own_ids [OF s1] by (auto simp: base_def)
  qed
qed

lemma both_existing_ids:
  assumes ok: "run_ok run" "col \<in> set (det_collections run)"
  shows "sim run s t \<Longrightarrow> length ids \<le> want \<Longrightarrow>
    both run (\<lambda>l. length l \<le> want) (existing_ids run col ns key want n ids s) (existing_ids run col ns key want n ids t)"
proof (induction n arbitrary: ids s t)
  case (Suc n)
  show ?case unfolding existing_ids.simps
  proof (rule if_both)
    assume "length ids < want"
    then have len: "length (case int_value (map_of d key) of Some i \<Rightarrow> ids @ [i] | None \<Rightarrow> ids) \<le> want" for d
      by (auto split: option.split)
    show "both run (\<lambda>l. length l \<le> want)
       (do { (rec, s1) \<leftarrow> pickExisting run col ns s; case rec of None \<Rightarrow> Some (ids, s1)
          | Some d \<Rightarrow> existing_ids run col ns key want n (case int_value (map_of d key) of Some i \<Rightarrow> ids @ [i] | None \<Rightarrow> ids) s1 })
       (do { (rec, s1) \<leftarrow> pickExisting run col ns t; case rec of None \<Rightarrow> Some (ids, s1)
          | Some d \<Rightarrow> existing_ids run col ns key want n (case int_value (map_of d key) of Some i \<Rightarrow> ids @ [i] | None \<Rightarrow> ids) s1 })"
      using Suc.IH [OF _ len] Suc.prems(2) by (intro both_bind [OF both_pickExisting [OF ok Suc.prems(1)]]) (auto split: option.split)
  qed (use Suc.prems in auto)
qed auto

lemma both_fastFind:
  assumes ok: "run_ok run" "col \<in> set (det_collections run)" and s: "sim run s t"
  shows "both run (\<lambda>_. True) (generateFastFind run key op col s) (generateFastFind run key op col t)"
proof -
  let ?sz = "fast_batch_size (we_findBatchSize (dr_we run))"
  have own: "ds_own t ns = ds_own s ns" for ns using s by (simp add: sim_def)
  have 1: "both run (\<lambda>_. True)
      (if b then map_option (\<lambda>(d, s'). (d < we_hitRate (dr_we run), s')) (draw_n 100 s) else Some (False, s))
      (if b then map_option (\<lambda>(d, s'). (d < we_hitRate (dr_we run), s')) (draw_n 100 t) else Some (False, t))" for b
    by (rule if_both, rule both_map [OF both_draw [OF s, of 100]]) (use s in auto)
  have 2: "both run (\<lambda>l. length l \<le> nat ?sz)
      (if hit then existing_ids run col ns key (nat ?sz) (2 * nat ?sz) [] s1 else Some ([], s1))
      (if hit then existing_ids run col ns key (nat ?sz) (2 * nat ?sz) [] t1 else Some ([], t1))" if "sim run s1 t1" for hit ns s1 t1
    by (rule if_both, rule both_existing_ids [OF ok that]) (use that in auto)
  have 3: "both run (\<lambda>_. True) (with_src (random_ids splitmix_rand (we_concurrency (dr_we run)) n) s2)
      (with_src (random_ids splitmix_rand (we_concurrency (dr_we run)) n) t2)" if "sim run s2 t2" for n s2 t2
  proof (rule both_with_src [OF that])
    have "1 \<le> we_concurrency (dr_we run)" "we_concurrency (dr_we run) < 2 ^ 30" using ok by (simp_all add: run_ok_def)
    from smr.random_ids_returns [OF this]
    show "\<exists>ids g'. random_ids splitmix_rand (we_concurrency (dr_we run)) n g = Some (ids, g') \<and> True" for g by blast
  qed
  show ?thesis unfolding generateFastFind_def Let_def own
    by (rule both_bind [OF 1], rule both_bind [OF 2], assumption, rule both_bind [OF 3], assumption) auto
qed

lemma both_collection:
  assumes "run_ok run" "sim run s t"
  shows "both run (\<lambda>c. we_cols (dr_we run) ! nat c \<in> set (det_collections run))
     (draw_n (int (length (we_cols (dr_we run)))) s) (draw_n (int (length (we_cols (dr_we run)))) t)"
proof -
  have "we_cols (dr_we run) \<noteq> []" "length (we_cols (dr_we run)) < 2 ^ 62" using assms(1) by (auto simp: run_ok_def det_collections_def)
  then have n: "0 < int (length (we_cols (dr_we run)))" "int (length (we_cols (dr_we run))) < 2 ^ 63" by auto
  show ?thesis by (rule both_weaken [OF both_draw [OF assms(2) n]]) (auto simp: det_collections_def intro: nth_mem)
qed

lemma both_kind:
  assumes "sim run s t"
  shows "both run (\<lambda>k. k \<in> set op_kinds) (with_src (selectOperation splitmix_rng (Some mix)) s) (with_src (selectOperation splitmix_rng (Some mix)) t)"
  by (rule both_with_src [OF assms]) (use sm.selectOperation_returns in blast)

lemma both_txOp:
  assumes ok: "run_ok run" and s: "sim run s t"
  shows "both run (\<lambda>_. True) (generateTxOp run worker sq j s) (generateTxOp run worker sq j t)"
proof -
  have ins: "both run (\<lambda>ds. length ds = n) (newDocuments run worker col ns sq j n s) (newDocuments run worker col ns sq j n t)"
    if "col \<in> set (det_collections run)" "sim run s t" for n ns sq j s t col
    by (rule both_newDocuments [OF ok that])
  have fill: "both run (\<lambda>_. True)
      (Option.bind (fillPlaceholders run v col ns s) (\<lambda>((v, ex), s2). Some (f v ex, s2)))
      (Option.bind (fillPlaceholders run v col ns t) (\<lambda>((v, ex), s2). Some (f v ex, s2)))"
    if "col \<in> set (det_collections run)" "sim run s t" for v ns s t col and f :: "gval \<Rightarrow> bool \<Rightarrow> exec_tx option \<times> nat"
    using both_fill [OF ok that, of v ns] by (auto simp: both_def)
  have qry: "both run (\<lambda>_. True) (case q of None \<Rightarrow> Some (x, s1) | Some q1 \<Rightarrow> h q1 s1) (case q of None \<Rightarrow> Some (x, t1) | Some q1 \<Rightarrow> h q1 t1)"
    if "sim run s1 t1" "\<And>q1. both run (\<lambda>_. True) (h q1 s1) (h q1 t1)" for q s1 t1 x and h :: "query_def \<Rightarrow> det_state \<Rightarrow> ((exec_tx option \<times> nat) \<times> det_state) option"
    using that by (auto split: option.split)
  show ?thesis
    unfolding generateTxOp_def Let_def
    by (rule both_bind [OF both_collection [OF ok s]], rule both_bind [OF both_kind], assumption, intro if_both)
       ((rule both_bind [OF ins], assumption, assumption) | (rule both_bind [OF both_query [OF ok]], assumption, assumption) |
         intro qry fill | assumption | auto)+
qed

lemma both_txOps:
  assumes ok: "run_ok run"
  shows "sim run s t \<Longrightarrow> both run (\<lambda>_. True) (generateTxOps run worker sq n j s) (generateTxOps run worker sq n j t)"
proof (induction n arbitrary: j s t)
  case (Suc n)
  have "both run (\<lambda>_. True)
     (do { (txs, s2) \<leftarrow> generateTxOps run worker sq n j1 s1; Some (case tx of Some t \<Rightarrow> t # txs | None \<Rightarrow> txs, s2) })
     (do { (txs, s2) \<leftarrow> generateTxOps run worker sq n j1 t1; Some (case tx of Some t \<Rightarrow> t # txs | None \<Rightarrow> txs, s2) })"
    if "sim run s1 t1" for tx j1 s1 t1 by (rule both_bind [OF Suc.IH [OF that]]) auto
  then show ?case using both_txOp [OF ok Suc.prems, of worker sq j] unfolding generateTxOps.simps
    by (auto simp: both_def split: prod.splits) 
qed auto

lemma both_transaction:
  assumes ok: "run_ok run" and s: "sim run s t"
  shows "both run (\<lambda>_. True) (generateTransaction run worker op s) (generateTransaction run worker op t)"
proof -
  have n: "0 < max (we_maxTxOps (dr_we run)) 1" "max (we_maxTxOps (dr_we run)) 1 < 2 ^ 63" using ok by (auto simp: run_ok_def)
  show ?thesis unfolding generateTransaction_def
    by (rule both_bind [OF both_draw [OF s n]], rule both_bind [OF both_txOps [OF ok]], assumption) auto
qed

lemma both_pause:
  assumes ok: "run_ok run" and s: "sim run s t"
  shows "both run (\<lambda>_. True) (det_pause run s) (det_pause run t)"
  unfolding det_pause_def Let_def
proof (intro if_both)
  assume j: "we_jitter (dr_we run) > 0"
  have "both run (\<lambda>_. True) (with_src (rd_Int63n splitmix_rand (we_jitter (dr_we run) + 1)) s) (with_src (rd_Int63n splitmix_rand (we_jitter (dr_we run) + 1)) t)"
    by (rule both_with_src [OF s]) (use smr.Int63n_law [of "we_jitter (dr_we run) + 1"] j ok in \<open>force simp: run_ok_def\<close>)
  then show "both run (\<lambda>_. True)
     (map_option (\<lambda>(v, s'). (to_i64 (we_think (dr_we run) + v), s')) (with_src (rd_Int63n splitmix_rand (we_jitter (dr_we run) + 1)) s))
     (map_option (\<lambda>(v, s'). (to_i64 (we_think (dr_we run) + v), s')) (with_src (rd_Int63n splitmix_rand (we_jitter (dr_we run) + 1)) t))"
    by (rule both_map) simp
qed (use s in auto)

lemma both_finished: "both run (\<lambda>_. True) a b \<Longrightarrow> both run (\<lambda>_. True) (finished enc a) (finished enc b)"
  unfolding finished_def by (rule both_map) simp_all

lemma both_generate:
  assumes ok: "run_ok run" and self: "self_ok self" and s: "sim run (reseed run (sf_id self) sq s) (reseed run (sf_id self) sq t)"
  shows "both run (\<lambda>_. True) (generate run self ids enc sq s) (generate run self ids enc sq t)"
proof -
  have fast: "both run (\<lambda>_. True)
     (case sf_fast self of Some (pool, key) \<Rightarrow> if b1 then finished enc (generateFastInsert run self ids pool key op col s)
         else if b2 then finished enc (generateFastFind run key op col s) else finished enc (generateStandard run w op ty col s)
       | None \<Rightarrow> finished enc (generateStandard run w op ty col s))
     (case sf_fast self of Some (pool, key) \<Rightarrow> if b1 then finished enc (generateFastInsert run self ids pool key op col t)
         else if b2 then finished enc (generateFastFind run key op col t) else finished enc (generateStandard run w op ty col t)
       | None \<Rightarrow> finished enc (generateStandard run w op ty col t))"
    if "sim run s t" "col \<in> set (det_collections run)" for s t col b1 b2 op w ty
  proof (cases "sf_fast self")
    case None
    then show ?thesis using both_finished [OF both_standard [OF ok that(2,1)]] by simp
  next
    case (Some p)
    obtain pool key where p: "p = (pool, key)" by fastforce
    then have "pool \<noteq> []" "batches_ok pool" using self Some by (simp_all add: self_ok_def)
    then show ?thesis unfolding Some p option.case prod.case
      by (intro if_both both_finished both_fastInsert both_fastFind [OF ok that(2,1)] both_standard [OF ok that(2,1)] that(1))
  qed
  show ?thesis unfolding generate_def Let_def
    by (rule both_bind [OF both_pause [OF ok s]], rule both_bind [OF both_collection [OF ok]], assumption,
        rule both_bind [OF both_kind], assumption, intro if_both)
       ((rule both_finished, rule both_transaction [OF ok], assumption) | (rule fast, assumption, assumption))+
qed

subsection \<open>The plan of a worker\<close>

text \<open>The generator of the worker loop of TrafficFingerprint.thy; a generation always returns, as the theorem says.\<close>

definition det_gen ::
    "'s det_run \<Rightarrow> det_self \<Rightarrow> ((nat \<Rightarrow> gval) \<Rightarrow> bytes \<Rightarrow> bytes option) \<Rightarrow> (gval \<Rightarrow> string res) \<Rightarrow> u64 \<Rightarrow> det_state \<Rightarrow> det_op \<times> det_state" where
  "det_gen run self ids enc sq s = (case generate run self ids enc sq s of
     Some (op, s') \<Rightarrow> (det_op.truncate op, s') | None \<Rightarrow> (det_op.truncate (new_op sq 0), s))"

lemma sim_reseed: "sim run s t \<Longrightarrow> sim run (reseed run w sq s) (reseed run w sq t)"
  by (auto simp: sim_def reseed_def)

lemma gens_agree:
  assumes "run_ok run" "self_ok self"
  shows "sim run s t \<Longrightarrow> fst (gens (det_gen run self ids enc) n s) = fst (gens (det_gen run self ids enc) n t) \<and>
    sim run (snd (gens (det_gen run self ids enc) n s)) (snd (gens (det_gen run self ids enc) n t))"
proof (induction n)
  case (Suc n)
  let ?s = "snd (gens (det_gen run self ids enc) n s)" and ?t = "snd (gens (det_gen run self ids enc) n t)"
  have "both run (\<lambda>_. True) (generate run self ids enc (of_nat (Suc n)) ?s) (generate run self ids enc (of_nat (Suc n)) ?t)"
    using both_generate [OF assms sim_reseed] Suc by blast
  then have "fst (det_gen run self ids enc (of_nat (Suc n)) ?s) = fst (det_gen run self ids enc (of_nat (Suc n)) ?t)"
    "sim run (snd (det_gen run self ids enc (of_nat (Suc n)) ?s)) (snd (det_gen run self ids enc (of_nat (Suc n)) ?t))"
    by (auto simp: det_gen_def both_def)
  with Suc show ?case by (simp add: split_beta Let_def del: of_nat_Suc)
qed simp

text \<open>C25: Generating a deterministic operation always returns, and the whole plan of a worker depends only on the run, the
worker and its own inserts: not on what its generator drew before, and not on what its cache of seeded documents holds.\<close>

theorem plan_is_deterministic:
  assumes "run_ok run" "self_ok self" "cache_ok run (ds_cache s)" "\<forall>ns. length (ds_own s ns) \<le> dr_maxOwn run"
  shows "generate run self ids enc sq s \<noteq> None \<and>
    fst (gens (det_gen run self ids enc) n (reseed run (sf_id self) 1 s)) =
      fst (gens (det_gen run self ids enc) n (reseed run (sf_id self) 1 (s\<lparr>ds_cache := []\<rparr>))) \<and>
    map_option fst (generate run self ids enc sq s) = map_option fst (generate run self ids enc sq (s\<lparr>ds_src := g, ds_cache := []\<rparr>))"
proof -
  have "cache_ok run []" by (simp add: cache_ok_def)
  then have sim: "sim run (reseed run (sf_id self) q s) (reseed run (sf_id self) q (s\<lparr>ds_src := g, ds_cache := []\<rparr>))"
    "sim run (reseed run (sf_id self) q s) (reseed run (sf_id self) q (s\<lparr>ds_cache := []\<rparr>))" for q
    using assms(3,4) by (simp_all add: sim_def reseed_def)
  have "both run (\<lambda>_. True) (generate run self ids enc sq s) (generate run self ids enc sq (s\<lparr>ds_src := g, ds_cache := []\<rparr>))"
    by (rule both_generate [OF assms(1,2) sim(1)])
  then show ?thesis using gens_agree [OF assms(1,2) sim(2), of ids enc n 1] unfolding both_def by force
qed

subsection \<open>Ids of fast inserts\<close>

lemma sint_pred: "1 \<le> m \<Longrightarrow> m < 2 ^ 63 \<Longrightarrow> sint (of_nat m - 1 :: u64) = int m - 1"
proof -
  assume m: "1 \<le> m" "m < 2 ^ 63"
  then have "(of_nat m - 1 :: u64) = word_of_int (int m - 1)" by simp
  with m show ?thesis by (simp only: int_word_sint) (simp add: mod_pos_pos_trivial)
qed

lemma fast_insert_base_exact:
  assumes "0 \<le> w" "w < 2 ^ 30" "1 \<le> dr_iteration run" "0 \<le> dr_budget run" "1 \<le> k" "int k \<le> dr_budget run"
    "dr_iteration run * dr_budget run * int n \<le> 100000000"
  shows "fast_insert_base run w (of_nat k) n = w * 100000000 + ((dr_iteration run - 1) * dr_budget run + int (k - 1)) * int n \<and>
    ((dr_iteration run - 1) * dr_budget run + int (k - 1)) * int n + int n \<le> 100000000 \<and>
    0 \<le> ((dr_iteration run - 1) * dr_budget run + int (k - 1)) * int n"
proof (cases "n = 0")
  case True
  then show ?thesis using assms by (simp add: fast_insert_base_def to_i64_def)
next
  case False
  let ?x = "(dr_iteration run - 1) * dr_budget run + int (k - 1)"
  have "?x + 1 \<le> dr_iteration run * dr_budget run" using assms(5,6) by (simp add: algebra_simps)
  then have "(?x + 1) * int n \<le> dr_iteration run * dr_budget run * int n" by (rule mult_right_mono) simp
  then have up: "?x * int n + int n \<le> 100000000" using assms(7) by (simp add: algebra_simps)
  have low: "0 \<le> ?x * int n" using assms by simp
  have "dr_budget run \<le> dr_iteration run * dr_budget run" using mult_right_mono [OF assms(3,4)] by simp
  also have "\<dots> \<le> dr_iteration run * dr_budget run * int n"
    using mult_left_mono [of 1 "int n" "dr_iteration run * dr_budget run"] False assms(3,4) by simp
  finally have "dr_budget run \<le> dr_iteration run * dr_budget run * int n" .
  then have k: "k < 2 ^ 63" using assms(6,7) by simp
  have "sint (of_nat k - 1 :: u64) = int (k - 1)" using sint_pred [OF assms(5) k] assms(5) by simp
  moreover have "to_i64 (w * 100000000 + ?x * int n) = w * 100000000 + ?x * int n"
    using low up assms(1,2) by (intro to_i64_id) auto
  ultimately show ?thesis using low up by (simp add: fast_insert_base_def algebra_simps)
qed

text \<open>With room for them (the documents of all iterations of a worker are at most the hundred million ids it has), the ids of
the fast inserts of the first passes are distinct: equal ids come from the same worker, iteration, operation and
position. The second pass of an iteration uses the ids of the next iteration again.\<close>

theorem fast_insert_ids_distinct:
  assumes "0 \<le> w" "w < 2 ^ 30" "1 \<le> dr_iteration run" "0 \<le> dr_budget run" "1 \<le> k" "int k \<le> dr_budget run"
      "dr_iteration run * dr_budget run * int n \<le> 100000000" "j < n"
    and "0 \<le> w'" "w' < 2 ^ 30" "1 \<le> dr_iteration run'" "dr_budget run' = dr_budget run" "1 \<le> k'" "int k' \<le> dr_budget run"
      "dr_iteration run' * dr_budget run * int n \<le> 100000000" "j' < n"
  shows "(fast_insert_base run w (of_nat k) n + int j = fast_insert_base run' w' (of_nat k') n + int j' \<longleftrightarrow>
      w = w' \<and> dr_iteration run = dr_iteration run' \<and> k = k' \<and> j = j') \<and>
    fast_insert_base (run\<lparr>dr_iteration := 1\<rparr>) w (of_nat (nat (dr_budget run) + k)) n =
      fast_insert_base (run\<lparr>dr_iteration := 2\<rparr>) w (of_nat k) n"
proof
  let ?B = "dr_budget run"
  let ?x = "(dr_iteration run - 1) * ?B + int (k - 1)" and ?y = "(dr_iteration run' - 1) * ?B + int (k' - 1)"
  note a = fast_insert_base_exact [OF assms(1-7)] and b = fast_insert_base_exact [of w' run' k' n, unfolded assms(12), OF assms(9-11,4,13-15)]
  have inj: "u = u' \<and> p = p'" if "u * m + p = u' * m + p'" "0 \<le> p" "p < m" "0 \<le> p'" "p' < m" for u u' p p' m :: int
  proof -
    have "(u * m + p) div m = u" "(u' * m + p') div m = u'" using that(2-5) by simp_all
    with that(1) have "u = u'" by metis
    with that(1) show ?thesis by simp
  qed
  show "fast_insert_base run w (of_nat k) n + int j = fast_insert_base run' w' (of_nat k') n + int j' \<longleftrightarrow>
      w = w' \<and> dr_iteration run = dr_iteration run' \<and> k = k' \<and> j = j'"
  proof
    assume "fast_insert_base run w (of_nat k) n + int j = fast_insert_base run' w' (of_nat k') n + int j'"
    then have "w * 100000000 + (?x * int n + int j) = w' * 100000000 + (?y * int n + int j')" using a b by simp
    then have 1: "w = w'" "?x * int n + int j = ?y * int n + int j'" using inj [of w 100000000 "?x * int n + int j" w' "?y * int n + int j'"] a b assms(8,16) by auto
    then have 2: "?x = ?y" "int j = int j'" using inj [of ?x "int n" "int j" ?y "int j'"] assms(8,16) by auto
    have "int (k - 1) < ?B" "int (k' - 1) < ?B" using assms(5,6,13,14) by auto
    then have "dr_iteration run - 1 = dr_iteration run' - 1 \<and> int (k - 1) = int (k' - 1)" using inj [OF 2(1)] by simp
    with 1 2 show "w = w' \<and> dr_iteration run = dr_iteration run' \<and> k = k' \<and> j = j'" using assms(5,13) by auto
  next
    assume "w = w' \<and> dr_iteration run = dr_iteration run' \<and> k = k' \<and> j = j'"
    then show "fast_insert_base run w (of_nat k) n + int j = fast_insert_base run' w' (of_nat k') n + int j'"
      using assms(12) by (simp add: fast_insert_base_def)
  qed
  have "n > 0" using assms(8) by simp
  then have "?B * 1 \<le> dr_iteration run * ?B * int n"
    using mult_right_mono [OF assms(3,4)] mult_mono [of ?B "dr_iteration run * ?B" 1 "int n"] assms(3,4) by simp
  then have B: "?B \<le> 100000000" using assms(7) by simp
  have "sint (of_nat (nat ?B + k) - 1 :: u64) = ?B + (int k - 1)" "sint (of_nat k - 1 :: u64) = int k - 1"
    using sint_pred [of "nat ?B + k"] sint_pred [of k] assms(4-6) B by auto
  then show "fast_insert_base (run\<lparr>dr_iteration := 1\<rparr>) w (of_nat (nat ?B + k)) n = fast_insert_base (run\<lparr>dr_iteration := 2\<rparr>) w (of_nat k) n"
    by (simp add: fast_insert_base_def del: of_nat_add) (simp add: algebra_simps)
qed

subsection \<open>Runs whose documents can be generated\<close>

context faker_source
begin

lemma GenerateDocument_returns:
  assumes "cities_vary F" "\<And>e. e \<in> set (cd_fields col) \<Longrightarrow> enums_fit (snd e)" "distinct (map fst (cd_fields col))"
  shows "GenerateDocumentWithFaker F col g \<noteq> None"
  using generateDefaultDocument_returns [OF assms, where g = g] generateGenericDocument_returns [of col, OF assms(2), where g = g]
  by (auto simp: GenerateDocumentWithFaker_def)

lemma GenerateFallbackUpdate_returns:
  assumes "\<And>e. e \<in> set (cd_fields col) \<Longrightarrow> enums_fit (snd e)" "length (cd_fields col) < 2 ^ 62"
  shows "GenerateFallbackUpdateWithFaker F col g \<noteq> None"
proof (cases "isFlightSchema col")
  case True
  obtain c g1 where c: "fk_Intn F 2 g = Some (c, g1)" by (rule Intn_obtain [of 2 g]) auto
  obtain a g2 where a: "fk_Intn F 5 g1 = Some (a, g2)" by (rule Intn_obtain [of 5 g1]) auto
  obtain b g3 where b: "fk_Intn F 871 g1 = Some (b, g3)" by (rule Intn_obtain [of 871 g1]) auto
  show ?thesis using True a b c by (simp add: GenerateFallbackUpdateWithFaker_def GenerateDefaultUpdate_def)
next
  case False
  show ?thesis
  proof (cases "cd_fields col = []")
    case True
    then show ?thesis using False by (simp add: GenerateFallbackUpdateWithFaker_def generic_update_def sort_entries_def split: prod.split)
  next
    case fields: False
    have l: "length (sort_entries (cd_fields col)) = length (cd_fields col)" by (simp add: sort_entries_def)
    then have "sort_entries (cd_fields col) \<noteq> []" "length (sort_entries (cd_fields col)) < 2 ^ 62" using fields assms(2) by auto
    then obtain e g1 where e: "choose_from F (sort_entries (cd_fields col)) g = Some (e, g1)" "e \<in> set (cd_fields col)"
      using choose_from_returns [of "sort_entries (cd_fields col)" g] by auto
    then obtain v g2 where "RandomValueWithFaker F (snd e) g1 = Some (v, g2)" using RandomValueWithFaker_fits assms(1) by meson
    with e \<open>sort_entries (cd_fields col) \<noteq> []\<close> False show ?thesis
      by (simp add: GenerateFallbackUpdateWithFaker_def generic_update_def)
  qed
qed

end

definition sample_run :: "u64 det_run" where
  "sample_run = \<lparr>dr_seed = 7, dr_iteration = 1, dr_budget = 2, dr_seeded = 3, dr_seededIDs = True, dr_selector = uniformSelector,
     dr_maxOwn = 4, dr_we = sample_we, dr_faker = over_splitmix sample_faker,
     dr_newFaker = (\<lambda>seed. (over_splitmix sample_faker, word_of_int seed)), dr_pow = (\<lambda>x e. x)\<rparr>"

lemma sample_run_ok: "run_ok sample_run"
proof -
  have fit: "enums_fit (snd e)" if "e \<in> set (cd_fields sample_collection)" for e
    using that by (simp add: sample_collection_def) (rule enums_fit.intros; simp)
  have vary: "cities_vary (over_splitmix sample_faker)" using sample_cities_vary by (simp add: cities_vary_def over_splitmix_def)
  have dis: "distinct (map fst (cd_fields sample_collection))" "length (cd_fields sample_collection) < 2 ^ 62"
    by (simp_all add: sample_collection_def)
  have gen: "GenerateDocumentWithFaker (over_splitmix sample_faker) sample_collection g \<noteq> None" for g
    using smf.GenerateDocument_returns [OF vary] fit dis(1) by blast
  moreover have "seeded_document sample_run sample_collection k \<noteq> None" for k
    using gen by (simp add: seeded_document_def sample_run_def)
  moreover have "det_update sample_run sample_collection g \<noteq> None" for g
    using smf.GenerateFallbackUpdate_returns [OF _ dis(2), of sample_faker g] fit by (simp add: det_update_def sample_run_def)
  moreover have "det_collections sample_run = [sample_collection]" by (simp add: det_collections_def sample_run_def sample_we_def)
  ultimately show ?thesis
    by (simp add: run_ok_def total_updates_def) (simp add: sample_run_def sample_we_def query_map_of_def)
qed

definition sample_det_state :: det_state where
  "sample_det_state = \<lparr>ds_src = 5, ds_own = (\<lambda>_. []),
     ds_cache = [(seed_key sample_collection 0, the (seeded_document sample_run sample_collection 0))]\<rparr>"

lemma sample_cache_ok: "cache_ok sample_run (ds_cache sample_det_state)"
proof -
  have col: "sample_collection \<in> set (det_collections sample_run)" by (simp add: det_collections_def sample_run_def sample_we_def)
  then obtain d where d: "seeded_document sample_run sample_collection 0 = Some d" using sample_run_ok by (meson option.exhaust run_ok_def)
  have "cache_ok sample_run []" by (simp add: cache_ok_def)
  then show ?thesis using cache_ok_Cons [OF sample_run_ok col d] d by (simp add: sample_det_state_def)
qed

theorem plan_is_deterministic_witness:
  "generate sample_run \<lparr>sf_id = 1, sf_fast = None\<rparr> (\<lambda>_ _. None) (\<lambda>_. Inr []) 1 sample_det_state \<noteq> None \<and>
   map_option fst (generate sample_run \<lparr>sf_id = 1, sf_fast = None\<rparr> (\<lambda>_ _. None) (\<lambda>_. Inr []) 1 sample_det_state) =
     map_option fst (generate sample_run \<lparr>sf_id = 1, sf_fast = None\<rparr> (\<lambda>_ _. None) (\<lambda>_. Inr []) 1 (sample_det_state\<lparr>ds_src := 9, ds_cache := []\<rparr>))"
proof -
  have "self_ok \<lparr>sf_id = 1, sf_fast = None\<rparr>" by (simp add: self_ok_def)
  moreover have "\<forall>ns. length (ds_own sample_det_state ns) \<le> dr_maxOwn sample_run" by (simp add: sample_det_state_def)
  ultimately show ?thesis using plan_is_deterministic [OF sample_run_ok _ sample_cache_ok] by blast
qed

theorem fast_insert_ids_distinct_witness:
  "fast_insert_base sample_run 1 1 3 + 2 \<noteq> fast_insert_base sample_run 1 2 3 + 0"
  using fast_insert_ids_distinct [of 1 sample_run 1 3 2 1 sample_run 2 0] by (simp add: sample_run_def)

subsection \<open>A transaction whose operations are all skipped\<close>

text \<open>The operations handed to \<open>runTransaction\<close>: no operation is the nil slice, which stands for no replay.\<close>

definition replay_ops :: "exec_tx list \<Rightarrow> exec_tx list option" where
  "replay_ops txs = (if txs = [] then None else Some txs)"

lemma skipped_transaction_panics:
  "runTransaction ev tg worker offset dur True True (replay_ops []) (a # as) err out (None, s) = None"
  by (simp add: replay_ops_def runTransaction_def tx_attempt_def)

text \<open>Finds without a find query are all skipped.\<close>

lemma finds_are_skipped:
  assumes "run_ok run" "we_queries (dr_we run) ''find'' = []"
    and "\<And>g. \<exists>g'. selectOperation splitmix_rng (Some (we_mix (dr_we run))) g = Some (''find'', g')"
  shows "sim run s s \<Longrightarrow> \<exists>s'. generateTxOps run worker sq n j s = Some ([], s') \<and> sim run s' s'"
proof (induction n arbitrary: s)
  case (Suc n)
  obtain c s1 where c: "draw_n (int (length (we_cols (dr_we run)))) s = Some (c, s1)" "sim run s1 s1"
    using both_collection [OF assms(1) Suc.prems] by (auto simp: both_def)
  obtain g' where g': "selectOperation splitmix_rng (Some (we_mix (dr_we run))) (ds_src s1) = Some (''find'', g')" using assms(3) by blast
  have "det_query run ''find'' col s2 = Some (None, s2)" for col s2
    using assms(2) by (simp add: det_query_def with_src_def selectQueryByTypeWith_def fallback_ops_def generateFallbackQueryWith_def)
  then have "generateTxOp run worker sq j s = Some ((None, j), s1\<lparr>ds_src := g'\<rparr>)"
    using c(1) g' by (simp add: generateTxOp_def Let_def with_src_def)
  moreover have "sim run (s1\<lparr>ds_src := g'\<rparr>) (s1\<lparr>ds_src := g'\<rparr>)" using c(2) by (auto simp: sim_def)
  ultimately show ?case using Suc.IH by simp
qed simp

end
