(* ===== verification/SchemaInfer.thy ===== *)
theory SchemaInfer
  imports Queries "HOL-Library.Product_Lexorder" "HOL-Library.Multiset"
begin

text \<open>
  Inferring a workload from query logs (\<open>internal/schemainfer/schemainfer.go\<close>): the entries of a log, what an entry says
  of its collection and operation, the accumulators, and the suggested mix and queries. \<open>encoding/json\<close> is a parameter:
  \<open>js\<close> decodes one object (None for an error and for \<open>null\<close>), \<open>arr\<close> the elements of a top-level array. A Go map
  is the list of its entries in the order of its iteration; a set of names is a list of which only the members count.
\<close>

subsection \<open>Entries of a text\<close>

text \<open>\<open>bufio.Scanner\<close> with a limit: lines without their end, until one that does not fit.\<close>

definition chomp :: "string \<Rightarrow> string" where
  "chomp s = (if s \<noteq> [] \<and> last s = CHR 0x0D then butlast s else s)"

definition text_lines :: "string \<Rightarrow> string list" where
  "text_lines t = (let ls = split_on (CHR 0x0A) t in if last ls = [] then butlast ls else ls)"

definition scan_lines :: "nat \<Rightarrow> string \<Rightarrow> string list" where
  "scan_lines limit t = map chomp (takeWhile (\<lambda>l. length l < limit) (text_lines t))"

definition infer_line_limit :: nat where "infer_line_limit = 8 * 1024 * 1024"

definition splitEntries :: "(string \<Rightarrow> string list option) \<Rightarrow> string \<Rightarrow> string list" where
  "splitEntries arr text1 =
     (case (if has_prefix ''['' (trim_space text1) then arr (trim_space text1) else None) of
        Some xs \<Rightarrow> xs | None \<Rightarrow> scan_lines infer_line_limit text1)"

subsection \<open>One entry\<close>

record log_entry =
  le_ns :: string
  le_db :: string
  le_coll :: string
  le_op :: string
  le_filter :: "document option"
  le_sort :: "string list"
  le_projection :: "document option"
  le_update :: "document option"

definition empty_entry :: log_entry where
  "empty_entry = \<lparr>le_ns = [], le_db = [], le_coll = [], le_op = [], le_filter = None, le_sort = [], le_projection = None, le_update = None\<rparr>"

definition getMap :: "gval option \<Rightarrow> document option" where
  "getMap v = (case v of Some (GMap m) \<Rightarrow> Some m | _ \<Rightarrow> None)"

definition getArray :: "gval option \<Rightarrow> gval list option" where
  "getArray v = (case v of Some (GSlice xs) \<Rightarrow> Some xs | _ \<Rightarrow> None)"

definition getString :: "gval option \<Rightarrow> string" where
  "getString v = (case v of Some (GStr s) \<Rightarrow> s | _ \<Rightarrow> [])"

definition mapKeys :: "document \<Rightarrow> string list" where
  "mapKeys m = map fst m"

definition normalizeOp :: "string \<Rightarrow> string" where
  "normalizeOp raw =
     (case map_of [(''find'', ''find''), (''query'', ''find''), (''getmore'', ''find''), (''count'', ''find''), (''distinct'', ''find''),
        (''insert'', ''insert''), (''update'', ''update''), (''findandmodify'', ''update''), (''delete'', ''delete''),
        (''remove'', ''delete''), (''aggregate'', ''aggregate''), (''command'', ''aggregate'')] (to_lower raw) of
        Some op \<Rightarrow> op | None \<Rightarrow> [])"

definition command_verbs :: "string list" where
  "command_verbs = [''find'', ''insert'', ''update'', ''delete'', ''aggregate'', ''count'', ''distinct'', ''findAndModify'',
     ''findandmodify'', ''getMore'']"

definition classifyCommand :: "document \<Rightarrow> string \<times> string" where
  "classifyCommand cmd =
     (case filter (\<lambda>k. map_of cmd k \<noteq> None) command_verbs of
        [] \<Rightarrow> ([], []) | k # _ \<Rightarrow> (normalizeOp k, getString (map_of cmd k)))"

definition setNamespace :: "string \<Rightarrow> log_entry \<Rightarrow> log_entry" where
  "setNamespace ns e =
     (if CHR ''.'' \<in> set ns
      then e\<lparr>le_ns := ns, le_db := takeWhile (\<lambda>c. c \<noteq> CHR ''.'') ns, le_coll := tl (dropWhile (\<lambda>c. c \<noteq> CHR ''.'') ns)\<rparr>
      else e\<lparr>le_ns := ns, le_coll := ns\<rparr>)"

text \<open>\<open>fieldsFromPipeline\<close>: the first \<open>$match\<close>, and the keys of every \<open>$sort\<close>.\<close>

primrec fieldsFromPipeline :: "gval list \<Rightarrow> document option \<Rightarrow> string list \<Rightarrow> document option \<times> string list" where
  "fieldsFromPipeline [] f ss = (f, ss)"
| "fieldsFromPipeline (stage # stages) f ss =
     (case getMap (Some stage) of
        None \<Rightarrow> fieldsFromPipeline stages f ss
      | Some sm \<Rightarrow> fieldsFromPipeline stages
          (case getMap (map_of sm ''$match'') of Some m \<Rightarrow> if f = None then Some m else f | None \<Rightarrow> f)
          (ss @ (case getMap (map_of sm ''$sort'') of Some s \<Rightarrow> mapKeys s | None \<Rightarrow> [])))"

text \<open>The first that is a map.\<close>

definition first_map :: "document \<Rightarrow> string list \<Rightarrow> document option" where
  "first_map d ks = (case filter (\<lambda>k. getMap (map_of d k) \<noteq> None) ks of [] \<Rightarrow> None | k # _ \<Rightarrow> getMap (map_of d k))"

text \<open>The statement of a write command: the first element of its array, when there is one.\<close>

definition first_statement :: "document \<Rightarrow> string \<Rightarrow> document option option" where
  "first_statement cmd k = (case getArray (map_of cmd k) of Some (x # _) \<Rightarrow> Some (getMap (Some x)) | _ \<Rightarrow> None)"

definition command_fields :: "string \<Rightarrow> document \<Rightarrow> log_entry \<Rightarrow> log_entry" where
  "command_fields op cmd e =
     (if op = ''find'' then
        e\<lparr>le_filter := first_map cmd [''filter'', ''query''],
          le_sort := (case getMap (map_of cmd ''sort'') of Some s \<Rightarrow> mapKeys s | None \<Rightarrow> []),
          le_projection := getMap (map_of cmd ''projection'')\<rparr>
      else if op = ''aggregate'' then
        (case getArray (map_of cmd ''pipeline'') of None \<Rightarrow> e
         | Some pipe \<Rightarrow> (case fieldsFromPipeline pipe None [] of (f, ss) \<Rightarrow> e\<lparr>le_filter := f, le_sort := ss\<rparr>))
      else if op = ''update'' then
        (case first_statement cmd ''updates'' of
           Some (Some u) \<Rightarrow> e\<lparr>le_filter := getMap (map_of u ''q''), le_update := getMap (map_of u ''u'')\<rparr>
         | Some None \<Rightarrow> e
         | None \<Rightarrow> e\<lparr>le_filter := getMap (map_of cmd ''query''), le_update := getMap (map_of cmd ''update'')\<rparr>)
      else if op = ''delete'' then
        (case first_statement cmd ''deletes'' of
           Some (Some d) \<Rightarrow> e\<lparr>le_filter := getMap (map_of d ''q'')\<rparr>
         | Some None \<Rightarrow> e
         | None \<Rightarrow> e\<lparr>le_filter := getMap (map_of cmd ''query'')\<rparr>)
      else if op = ''insert'' then
        (case first_statement cmd ''documents'' of Some (Some d) \<Rightarrow> e\<lparr>le_update := Some d\<rparr> | _ \<Rightarrow> e)
      else e)"

definition entryFromCommand :: "string \<Rightarrow> document \<Rightarrow> log_entry option" where
  "entryFromCommand ns0 cmd =
     (case classifyCommand cmd of (op, coll) \<Rightarrow>
        if op = [] then None
        else
          (let db = getString (map_of cmd ''$db'');
               ns = (if ns0 = [] \<and> db \<noteq> [] \<and> coll \<noteq> [] then db @ ''.'' @ coll else ns0);
               e0 = empty_entry\<lparr>le_op := op\<rparr>;
               e1 = (if ns \<noteq> [] then setNamespace ns e0 else if coll \<noteq> [] then e0\<lparr>le_coll := coll, le_ns := coll\<rparr> else e0)
           in Some (command_fields op cmd e1)))"

definition attr_command :: "document \<Rightarrow> (string \<times> document) option" where
  "attr_command obj =
     (case getMap (map_of obj ''attr'') of None \<Rightarrow> None
      | Some attr \<Rightarrow> map_option (Pair (getString (map_of attr ''ns''))) (first_map attr [''command'', ''originatingCommand'']))"

definition extractEntry :: "document \<Rightarrow> log_entry option" where
  "extractEntry obj =
     (case attr_command obj of Some (ns, cmd) \<Rightarrow> entryFromCommand ns cmd
      | None \<Rightarrow>
         (let ns = getString (map_of obj ''ns''); op = getString (map_of obj ''op'') in
          if ns \<noteq> [] \<and> getMap (map_of obj ''command'') \<noteq> None then entryFromCommand ns (the (getMap (map_of obj ''command'')))
          else if ns \<noteq> [] \<and> op \<noteq> [] then
            (if normalizeOp op = [] then None
             else Some ((setNamespace ns empty_entry)\<lparr>le_op := normalizeOp op, le_filter := getMap (map_of obj ''query'')\<rparr>))
          else entryFromCommand [] obj))"

subsection \<open>Fields\<close>

definition logical_ops :: "string list" where "logical_ops = [''$and'', ''$or'', ''$nor'']"

function (sequential) collectFilterFields1 :: "document \<Rightarrow> string \<Rightarrow> string list"
  and collect_subs :: "gval list \<Rightarrow> string \<Rightarrow> string list" where
  "collectFilterFields1 [] pfx = []"
| "collectFilterFields1 ((k, v) # es) pfx =
     (if has_prefix ''$'' k then
        (if k \<in> set logical_ops then (case v of GSlice xs \<Rightarrow> collect_subs xs pfx | _ \<Rightarrow> []) else [])
      else [if pfx \<noteq> [] then pfx @ ''.'' @ k else k]) @ collectFilterFields1 es pfx"
| "collect_subs [] pfx = []"
| "collect_subs (x # xs) pfx = (case x of GMap m \<Rightarrow> collectFilterFields1 m pfx | _ \<Rightarrow> []) @ collect_subs xs pfx"
  by pat_completeness auto
termination
  by (relation "measure (case_sum (\<lambda>(es, _). size_list (size_prod (\<lambda>_. 0) size) es) (\<lambda>(xs, _). size_list size xs))") auto

definition collectUpdateFields :: "document \<Rightarrow> string list" where
  "collectUpdateFields u =
     concat (map (\<lambda>(k, v). if has_prefix ''$'' k then (case v of GMap m \<Rightarrow> mapKeys m | _ \<Rightarrow> []) else [k]) u)"

definition filter_fields :: "log_entry \<Rightarrow> string list" where
  "filter_fields e = (case le_filter e of Some f \<Rightarrow> collectFilterFields1 f [] | None \<Rightarrow> [])"

definition projection_fields :: "log_entry \<Rightarrow> string list" where
  "projection_fields e = (case le_projection e of Some p \<Rightarrow> mapKeys p | None \<Rightarrow> [])"

definition update_fields :: "log_entry \<Rightarrow> string list" where
  "update_fields e = (case le_update e of Some u \<Rightarrow> collectUpdateFields u | None \<Rightarrow> [])"

definition entry_fields :: "log_entry \<Rightarrow> string list" where
  "entry_fields e = filter_fields e @ le_sort e @ projection_fields e @ update_fields e"

subsection \<open>Accumulators\<close>

record coll_accum =
  ca_db :: string
  ca_coll :: string
  ca_ops :: "string \<Rightarrow> nat"    \<comment> \<open>0 for an operation that is not in the map\<close>
  ca_fields :: "string list"

record op_accum =
  oa_ns :: string
  oa_db :: string
  oa_coll :: string
  oa_op :: string
  oa_count :: nat
  oa_filter :: "string list"
  oa_sort :: "string list"
  oa_projection :: "string list"
  oa_update :: "string list"
  oa_sample :: "document option"

text \<open>An entry of a map of accumulators, created when it is missing.\<close>

primrec upsert :: "string \<Rightarrow> 'v \<Rightarrow> ('v \<Rightarrow> 'v) \<Rightarrow> (string \<times> 'v) list \<Rightarrow> (string \<times> 'v) list" where
  "upsert k d f [] = [(k, f d)]"
| "upsert k d f (e # es) = (if fst e = k then (k, f (snd e)) # es else e # upsert k d f es)"

definition op_key :: "string \<Rightarrow> string \<Rightarrow> string" where
  "op_key ns op = ns @ ''|'' @ op"

definition new_coll :: "log_entry \<Rightarrow> coll_accum" where
  "new_coll e = \<lparr>ca_db = le_db e, ca_coll = le_coll e, ca_ops = (\<lambda>_. 0), ca_fields = []\<rparr>"

definition add_coll :: "log_entry \<Rightarrow> coll_accum \<Rightarrow> coll_accum" where
  "add_coll e a = a\<lparr>ca_ops := (ca_ops a)(le_op e := Suc (ca_ops a (le_op e))), ca_fields := ca_fields a @ entry_fields e\<rparr>"

definition new_opacc :: "log_entry \<Rightarrow> op_accum" where
  "new_opacc e = \<lparr>oa_ns = le_ns e, oa_db = le_db e, oa_coll = le_coll e, oa_op = le_op e, oa_count = 0,
     oa_filter = [], oa_sort = [], oa_projection = [], oa_update = [], oa_sample = None\<rparr>"

definition add_opacc :: "log_entry \<Rightarrow> op_accum \<Rightarrow> op_accum" where
  "add_opacc e a = a\<lparr>oa_count := Suc (oa_count a), oa_filter := oa_filter a @ filter_fields e, oa_sort := oa_sort a @ le_sort e,
     oa_projection := oa_projection a @ projection_fields e, oa_update := oa_update a @ update_fields e,
     oa_sample := (if oa_sample a = None \<and> some_map (le_filter e) \<noteq> [] then le_filter e else oa_sample a)\<rparr>"

type_synonym aggregates = "(string \<times> coll_accum) list \<times> (string \<times> op_accum) list"

definition accumulate :: "log_entry \<Rightarrow> aggregates \<Rightarrow> aggregates" where
  "accumulate e agg = (upsert (le_ns e) (new_coll e) (add_coll e) (fst agg),
     upsert (op_key (le_ns e) (le_op e)) (new_opacc e) (add_opacc e) (snd agg))"

subsection \<open>Results\<close>

definition sortedKeys :: "string list \<Rightarrow> string list" where
  "sortedKeys ks = sort (remdups ks)"

record coll_summary =
  cs_ns :: string
  cs_db :: string
  cs_coll :: string
  cs_ops :: "string \<Rightarrow> nat"
  cs_fields :: "string list"

record op_summary =
  os_ns :: string
  os_db :: string
  os_coll :: string
  os_op :: string
  os_count :: nat
  os_filter :: "string list"
  os_sort :: "string list"
  os_projection :: "string list"
  os_update :: "string list"
  os_sample :: "document option"

definition finalizeCollections :: "(string \<times> coll_accum) list \<Rightarrow> coll_summary list" where
  "finalizeCollections agg = sort_key cs_ns
     (map (\<lambda>(ns, a). \<lparr>cs_ns = ns, cs_db = ca_db a, cs_coll = ca_coll a, cs_ops = ca_ops a, cs_fields = sortedKeys (ca_fields a)\<rparr>) agg)"

definition summary_of :: "op_accum \<Rightarrow> op_summary" where
  "summary_of a = \<lparr>os_ns = oa_ns a, os_db = oa_db a, os_coll = oa_coll a, os_op = oa_op a, os_count = oa_count a,
     os_filter = sortedKeys (oa_filter a), os_sort = sortedKeys (oa_sort a), os_projection = sortedKeys (oa_projection a),
     os_update = sortedKeys (oa_update a), os_sample = oa_sample a\<rparr>"

text \<open>By descending count, then namespace and operation.\<close>

definition op_rank :: "op_summary \<Rightarrow> int \<times> string \<times> string" where
  "op_rank o1 = (- int (os_count o1), os_ns o1, os_op o1)"

definition finalizeOperations :: "(string \<times> op_accum) list \<Rightarrow> op_summary list" where
  "finalizeOperations agg = sort_key op_rank (map (summary_of \<circ> snd) agg)"

definition mix_order :: "string list" where
  "mix_order = [''find'', ''insert'', ''update'', ''delete'', ''aggregate'']"

definition op_total :: "op_summary list \<Rightarrow> string \<Rightarrow> nat" where
  "op_total ops k = sum_list (map os_count (filter (\<lambda>o1. os_op o1 = k) ops))"

text \<open>The share of a kind in percent, cut to an integer.\<close>

definition percent :: "nat \<Rightarrow> nat \<Rightarrow> int" where
  "percent c n = \<lfloor>fl (fl (fl (of_nat c) / fl (of_nat n)) * 100)\<rfloor>"

text \<open>\<open>OperationMix\<close>, by kind. The rest goes to the largest kind.\<close>

definition suggestMix :: "op_summary list \<Rightarrow> string \<Rightarrow> int" where
  "suggestMix ops =
     (let n = sum_list (map os_count ops); counts = op_total ops in
      if n = 0 then (\<lambda>_. 0)
      else
        (let pct = (\<lambda>k. if k \<in> set mix_order then percent (counts k) n else 0);
             rest = 100 - sum_list (map pct mix_order);
             largest = fold (\<lambda>k l. if counts k > counts l then k else l) mix_order ''find'';
             p = pct largest + rest
         in if rest = 0 then pct else pct(largest := (if p < 0 then 0 else p))))"

definition maxSuggestedQueries :: nat where "maxSuggestedQueries = 100"

definition suggested_query :: "op_summary \<Rightarrow> query_def" where
  "suggested_query o1 = empty_query\<lparr>qd_database := os_db o1, qd_collection := os_coll o1, qd_operation := os_op o1,
     qd_name := os_op o1 @ ''_'' @ os_coll o1,
     qd_filter := Some (if some_map (os_sample o1) \<noteq> [] then some_map (os_sample o1) else [])\<rparr>"

definition suggestQueries :: "op_summary list \<Rightarrow> query_def list" where
  "suggestQueries ops = map suggested_query (take maxSuggestedQueries (filter (\<lambda>o1. os_coll o1 \<noteq> []) ops))"

record infer_result =
  ir_total :: nat
  ir_parsed :: nat
  ir_skipped :: nat
  ir_warnings :: "string list"
  ir_collections :: "coll_summary list"
  ir_operations :: "op_summary list"
  ir_mix :: "string \<Rightarrow> int"
  ir_queries :: "query_def list"

definition entry_of :: "(string \<Rightarrow> document option) \<Rightarrow> string \<Rightarrow> log_entry option" where
  "entry_of js line = Option.bind (js (trim_space line)) extractEntry"

definition nonblank :: "string list \<Rightarrow> string list" where
  "nonblank ls = filter (\<lambda>l. trim_space l \<noteq> []) ls"

definition parsed_entries :: "(string \<Rightarrow> document option) \<Rightarrow> string list \<Rightarrow> log_entry list" where
  "parsed_entries js ls = List.map_filter (entry_of js) (nonblank ls)"

text \<open>The loop of \<open>Infer\<close>: the numbers of parsed and skipped entries and the accumulators.\<close>

definition infer_line :: "(string \<Rightarrow> document option) \<Rightarrow> string \<Rightarrow> nat \<times> nat \<times> aggregates \<Rightarrow> nat \<times> nat \<times> aggregates" where
  "infer_line js l st =
     (case st of (p, k, agg) \<Rightarrow>
        if trim_space l = [] then st
        else case entry_of js l of None \<Rightarrow> (p, Suc k, agg) | Some e \<Rightarrow> (Suc p, k, accumulate e agg))"

definition no_entries_warning :: string where
  "no_entries_warning = ''No recognizable MongoDB query-log entries were found. Provide mongod JSON slow-query logs, system.profile documents, or raw command documents.''"

definition Infer :: "(string \<Rightarrow> document option) \<Rightarrow> (string \<Rightarrow> string list option) \<Rightarrow> string \<Rightarrow> infer_result" where
  "Infer js arr logText =
     (let ls = splitEntries arr logText in
      case fold (infer_line js) ls (0, 0, ([], [])) of (p, k, (colls, ops)) \<Rightarrow>
        (let os = finalizeOperations ops in
         \<lparr>ir_total = length ls, ir_parsed = p, ir_skipped = k,
          ir_warnings = (if p = 0 \<and> length ls > 0 then [no_entries_warning] else []),
          ir_collections = finalizeCollections colls, ir_operations = os, ir_mix = suggestMix os, ir_queries = suggestQueries os\<rparr>))"

end
