(* ===== verification/SchemaInferProofs.thy ===== *)
theory SchemaInferProofs
  imports SchemaInfer
begin

text \<open>
  What inference computes: the accumulators against a reference that looks at the whole list of entries, the counts, the
  mix, and which suggested queries a run would accept.
\<close>

subsection \<open>Grouping\<close>

fun appearance :: "string list \<Rightarrow> string list \<Rightarrow> string list" where
  "appearance seen [] = seen"
| "appearance seen (k # ks) = appearance (if k \<in> set seen then seen else seen @ [k]) ks"

lemma appearance_set: "set (appearance seen ks) = set seen \<union> set ks"
  by (induction ks arbitrary: seen) auto

lemma appearance_distinct: "distinct seen \<Longrightarrow> distinct (appearance seen ks)"
  by (induction ks arbitrary: seen) auto

lemma appearance_snoc: "appearance seen (ks @ [k]) = (if k \<in> set (appearance seen ks) then appearance seen ks else appearance seen ks @ [k])"
  by (induction ks arbitrary: seen) auto

definition with_key :: "('e \<Rightarrow> string) \<Rightarrow> 'e list \<Rightarrow> string \<Rightarrow> 'e list" where
  "with_key key es k = filter (\<lambda>e. key e = k) es"

definition groups :: "('e \<Rightarrow> string) \<Rightarrow> ('e \<Rightarrow> 'v) \<Rightarrow> ('e \<Rightarrow> 'v \<Rightarrow> 'v) \<Rightarrow> 'e list \<Rightarrow> (string \<times> 'v) list" where
  "groups key new add es = map (\<lambda>k. (k, fold add (with_key key es k) (new (hd (with_key key es k))))) (appearance [] (map key es))"

lemma upsert_map:
  "distinct ks \<Longrightarrow> upsert k d f (map (\<lambda>k. (k, h k)) ks) =
    (if k \<in> set ks then map (\<lambda>k'. (k', if k' = k then f (h k) else h k')) ks else map (\<lambda>k. (k, h k)) ks @ [(k, f d)])"
  by (induction ks) auto

lemma upsert_groups: "fold (\<lambda>e. upsert (key e) (new e) (add e)) es [] = groups key new add es"
proof (induction es rule: rev_induct)
  case (snoc e es)
  let ?h = "\<lambda>es k. fold add (with_key key es k) (new (hd (with_key key es k)))" and ?ks = "appearance [] (map key es)"
  have d: "distinct ?ks" by (rule appearance_distinct) simp
  have mem: "k \<in> set ?ks \<longleftrightarrow> with_key key es k \<noteq> []" for k by (auto simp: appearance_set with_key_def filter_empty_conv)
  have same: "with_key key (es @ [e]) k = (if k = key e then with_key key es k @ [e] else with_key key es k)" for k
    by (simp add: with_key_def)
  have "fold (\<lambda>e. upsert (key e) (new e) (add e)) (es @ [e]) [] = upsert (key e) (new e) (add e) (map (\<lambda>k. (k, ?h es k)) ?ks)"
    using snoc by (simp add: groups_def)
  also have "\<dots> = groups key new add (es @ [e])"
  proof (cases "key e \<in> set ?ks")
    case True
    then have ne: "with_key key es (key e) \<noteq> []" by (simp add: mem)
    have "map (\<lambda>k'. (k', if k' = key e then add e (?h es (key e)) else ?h es k')) ?ks = map (\<lambda>k. (k, ?h (es @ [e]) k)) ?ks"
      by (rule map_cong) (use ne in \<open>auto simp: same\<close>)
    then show ?thesis using True unfolding groups_def upsert_map [OF d] by (simp add: appearance_snoc)
  next
    case False
    then have ne: "with_key key es (key e) = []" by (simp add: mem)
    have "map (\<lambda>k. (k, ?h es k)) ?ks = map (\<lambda>k. (k, ?h (es @ [e]) k)) ?ks"
      by (rule map_cong) (use False in \<open>auto simp: same\<close>)
    then show ?thesis using False ne unfolding groups_def upsert_map [OF d] by (simp add: appearance_snoc same)
  qed
  finally show ?case .
qed (simp add: groups_def)

lemma accumulate_groups:
  "fold accumulate es ([], []) = (groups le_ns new_coll add_coll es, groups (\<lambda>e. op_key (le_ns e) (le_op e)) new_opacc add_opacc es)"
proof -
  have "fold accumulate es (a, b) = (fold (\<lambda>e. upsert (le_ns e) (new_coll e) (add_coll e)) es a,
     fold (\<lambda>e. upsert (op_key (le_ns e) (le_op e)) (new_opacc e) (add_opacc e)) es b)" for a b
    by (induction es arbitrary: a b) (simp_all add: accumulate_def)
  then show ?thesis by (simp add: upsert_groups)
qed

subsection \<open>The reference\<close>

definition kinds_of :: "log_entry list \<Rightarrow> string \<Rightarrow> nat" where
  "kinds_of es op = length (filter (\<lambda>e. le_op e = op) es)"

definition members :: "(log_entry \<Rightarrow> string list) \<Rightarrow> log_entry list \<Rightarrow> string list" where
  "members f es = sorted_list_of_set (\<Union>e \<in> set es. set (f e))"

definition coll_ref :: "log_entry list \<Rightarrow> string \<Rightarrow> coll_summary" where
  "coll_ref es ns =
     (let g = filter (\<lambda>e. le_ns e = ns) es in
      \<lparr>cs_ns = ns, cs_db = le_db (hd g), cs_coll = le_coll (hd g), cs_ops = kinds_of g, cs_fields = members entry_fields g\<rparr>)"

definition first_filter :: "log_entry list \<Rightarrow> document option" where
  "first_filter es = (case filter (\<lambda>f. some_map f \<noteq> []) (map le_filter es) of [] \<Rightarrow> None | f # _ \<Rightarrow> f)"

definition op_ref :: "log_entry list \<Rightarrow> string \<times> string \<Rightarrow> op_summary" where
  "op_ref es k =
     (let g = filter (\<lambda>e. le_ns e = fst k \<and> le_op e = snd k) es in
      \<lparr>os_ns = fst k, os_db = le_db (hd g), os_coll = le_coll (hd g), os_op = snd k, os_count = length g,
       os_filter = members filter_fields g, os_sort = members le_sort g, os_projection = members projection_fields g,
       os_update = members update_fields g, os_sample = first_filter g\<rparr>)"

lemma sortedKeys_set: "sortedKeys ks = sorted_list_of_set (set ks)"
  by (simp add: sortedKeys_def sorted_list_of_set_sort_remdups)

lemma fold_add_coll:
  "fold add_coll g a = a\<lparr>ca_ops := (\<lambda>op. ca_ops a op + kinds_of g op), ca_fields := ca_fields a @ concat (map entry_fields g)\<rparr>"
  by (induction g arbitrary: a) (auto simp: add_coll_def kinds_of_def fun_eq_iff)

lemma first_filter_Cons: "first_filter (e # g) = (if some_map (le_filter e) \<noteq> [] then le_filter e else first_filter g)"
  by (simp add: first_filter_def)

lemma some_map_NoneD: "some_map f \<noteq> [] \<Longrightarrow> f \<noteq> None"
  by (cases f) (simp_all add: some_map_def)

lemma add_opacc_sel:
  "oa_ns (add_opacc e a) = oa_ns a" "oa_db (add_opacc e a) = oa_db a" "oa_coll (add_opacc e a) = oa_coll a" "oa_op (add_opacc e a) = oa_op a"
  "oa_count (add_opacc e a) = Suc (oa_count a)" "oa_filter (add_opacc e a) = oa_filter a @ filter_fields e"
  "oa_sort (add_opacc e a) = oa_sort a @ le_sort e" "oa_projection (add_opacc e a) = oa_projection a @ projection_fields e"
  "oa_update (add_opacc e a) = oa_update a @ update_fields e"
  "oa_sample (add_opacc e a) = (if oa_sample a = None \<and> some_map (le_filter e) \<noteq> [] then le_filter e else oa_sample a)"
  by (simp_all add: add_opacc_def)

lemma fold_add_opacc:
  "fold add_opacc g a = a\<lparr>oa_count := oa_count a + length g, oa_filter := oa_filter a @ concat (map filter_fields g),
     oa_sort := oa_sort a @ concat (map le_sort g), oa_projection := oa_projection a @ concat (map projection_fields g),
     oa_update := oa_update a @ concat (map update_fields g),
     oa_sample := (if oa_sample a = None then first_filter g else oa_sample a)\<rparr>"
proof (induction g arbitrary: a)
  case Nil
  then show ?case by (cases a) (simp add: first_filter_def)
next
  case (Cons e g)
  show ?case unfolding fold_simps Cons.IH
    by (rule op_accum.equality) (auto simp add: add_opacc_sel first_filter_Cons dest: some_map_NoneD)
qed

lemma members_concat: "sorted_list_of_set (set (concat (map f g))) = members f g"
  by (simp add: members_def)

lemma finalize_collections: "finalizeCollections (groups le_ns new_coll add_coll es) = map (coll_ref es) (sorted_list_of_set (le_ns ` set es))"
proof -
  let ?ks = "appearance [] (map le_ns es)"
  have ks: "set ?ks = le_ns ` set es" "distinct ?ks" by (simp_all add: appearance_set appearance_distinct)
  have "map (\<lambda>(ns, a). \<lparr>cs_ns = ns, cs_db = ca_db a, cs_coll = ca_coll a, cs_ops = ca_ops a, cs_fields = sortedKeys (ca_fields a)\<rparr>)
      (groups le_ns new_coll add_coll es) = map (coll_ref es) ?ks"
    by (simp add: groups_def coll_ref_def Let_def with_key_def fold_add_coll new_coll_def sortedKeys_set members_def)
  moreover have "sort_key cs_ns (map (coll_ref es) ?ks) = map (coll_ref es) (sort ?ks)"
  proof (rule sort_key_inj_key_eq)
    show "inj_on cs_ns (set (map (coll_ref es) ?ks))" by (auto simp: inj_on_def coll_ref_def Let_def)
    show "sorted (map cs_ns (map (coll_ref es) (sort ?ks)))" by (simp add: comp_def coll_ref_def Let_def)
  qed simp
  moreover have "sort ?ks = sorted_list_of_set (le_ns ` set es)"
    using ks sorted_list_of_set_sort_remdups [of ?ks] by (simp add: distinct_remdups_id)
  ultimately show ?thesis by (simp add: finalizeCollections_def)
qed

subsection \<open>Operations\<close>

lemma map_of_range: "map_of t x = Some y \<Longrightarrow> list_all (\<lambda>e. snd e \<in> S) t \<Longrightarrow> y \<in> S"
  by (auto simp: list_all_iff dest!: map_of_SomeD)

lemma normalizeOp_range: "normalizeOp s \<noteq> [] \<Longrightarrow> normalizeOp s \<in> set mix_order"
  unfolding normalizeOp_def by (auto split: option.splits elim!: map_of_range) (simp_all add: mix_order_def)

lemma command_fields_keeps: "le_op (command_fields op cmd e) = le_op e" "le_ns (command_fields op cmd e) = le_ns e"
  by (auto simp: command_fields_def split: option.split prod.split)

lemma setNamespace_op [simp]: "le_op (setNamespace ns e) = le_op e"
  by (simp add: setNamespace_def)

lemma entryFromCommand_op: "entryFromCommand ns cmd = Some e \<Longrightarrow> le_op e \<in> set mix_order"
proof -
  assume e: "entryFromCommand ns cmd = Some e"
  obtain op coll where c: "classifyCommand cmd = (op, coll)" by fastforce
  have "op = [] \<or> op \<in> set mix_order" using c normalizeOp_range by (auto simp: classifyCommand_def split: list.splits)
  with e c show ?thesis by (auto simp: entryFromCommand_def command_fields_keeps Let_def split: if_splits)
qed

lemma extractEntry_op: "extractEntry obj = Some e \<Longrightarrow> le_op e \<in> set mix_order"
  by (auto simp: extractEntry_def Let_def dest: entryFromCommand_op normalizeOp_range split: option.splits if_splits)

lemma parsed_op: "e \<in> set (parsed_entries js ls) \<Longrightarrow> le_op e \<in> set mix_order"
proof -
  assume "e \<in> set (parsed_entries js ls)"
  then obtain l where "entry_of js l = Some e" by (auto simp: parsed_entries_def List.map_filter_def)
  then show ?thesis unfolding entry_of_def by (metis bind_eq_Some_conv extractEntry_op)
qed

lemma op_key_inj: "op_key ns op = op_key ns' op' \<Longrightarrow> op \<in> set mix_order \<Longrightarrow> op' \<in> set mix_order \<Longrightarrow> ns = ns' \<and> op = op'"
proof -
  assume eq: "op_key ns op = op_key ns' op'" and op: "op \<in> set mix_order" "op' \<in> set mix_order"
  have "list_all (\<lambda>op. CHR ''|'' \<notin> set op) mix_order" by code_simp
  then have bar: "CHR ''|'' \<notin> set op" if "op \<in> set mix_order" for op using that by (simp add: list_all_iff)
  have strip: "takeWhile (\<lambda>c. c \<noteq> CHR ''|'') (rev (op_key n x)) = rev x" if "x \<in> set mix_order" for n x
  proof -
    have "\<forall>c \<in> set (rev x). c \<noteq> CHR ''|''" using bar [OF that] by auto
    then show ?thesis by (simp add: op_key_def takeWhile_append2 del: set_rev)
  qed
  have "op = op'" using eq strip [OF op(1), of ns] strip [OF op(2), of ns'] by simp
  with eq show ?thesis by (simp add: op_key_def)
qed

definition entry_key :: "log_entry \<Rightarrow> string \<times> string" where
  "entry_key e = (le_ns e, le_op e)"

lemma with_op_key:
  assumes "\<And>e. e \<in> set es \<Longrightarrow> le_op e \<in> set mix_order" "e \<in> set es"
  shows "with_key (\<lambda>e. op_key (le_ns e) (le_op e)) es (op_key (le_ns e) (le_op e)) =
    filter (\<lambda>x. le_ns x = le_ns e \<and> le_op x = le_op e) es"
  unfolding with_key_def
proof (rule filter_cong [OF refl])
  fix x assume "x \<in> set es"
  then show "(op_key (le_ns x) (le_op x) = op_key (le_ns e) (le_op e)) = (le_ns x = le_ns e \<and> le_op x = le_op e)"
    using op_key_inj [of "le_ns x" "le_op x" "le_ns e" "le_op e"] assms(1) [of x] assms(1) [OF assms(2)] by metis
qed

lemma group_summary:
  assumes "\<And>e. e \<in> set es \<Longrightarrow> le_op e \<in> set mix_order" "e \<in> set es"
  shows "(let g = with_key (\<lambda>e. op_key (le_ns e) (le_op e)) es (op_key (le_ns e) (le_op e)) in summary_of (fold add_opacc g (new_opacc (hd g)))) =
    op_ref es (entry_key e)"
proof -
  define g where "g = filter (\<lambda>x. le_ns x = le_ns e \<and> le_op x = le_op e) es"
  have w: "with_key (\<lambda>e. op_key (le_ns e) (le_op e)) es (op_key (le_ns e) (le_op e)) = g"
    unfolding g_def by (rule with_op_key [OF assms])
  have "g \<noteq> []" using assms(2) by (auto simp: g_def filter_empty_conv)
  then have "hd g \<in> set g" by (rule hd_in_set)
  then have "le_ns (hd g) = le_ns e" "le_op (hd g) = le_op e" by (auto simp: g_def)
  moreover have "op_ref es (entry_key e) = \<lparr>os_ns = le_ns e, os_db = le_db (hd g), os_coll = le_coll (hd g), os_op = le_op e, os_count = length g,
       os_filter = members filter_fields g, os_sort = members le_sort g, os_projection = members projection_fields g,
       os_update = members update_fields g, os_sample = first_filter g\<rparr>"
    by (simp add: op_ref_def entry_key_def g_def Let_def)
  ultimately show ?thesis
    unfolding w Let_def by (simp add: fold_add_opacc new_opacc_def summary_of_def sortedKeys_set members_def)
qed

lemma finalize_operations:
  assumes "\<And>e. e \<in> set es \<Longrightarrow> le_op e \<in> set mix_order"
  shows "mset (finalizeOperations (groups (\<lambda>e. op_key (le_ns e) (le_op e)) new_opacc add_opacc es)) =
      mset_set (op_ref es ` entry_key ` set es) \<and>
    sorted (map op_rank (finalizeOperations (groups (\<lambda>e. op_key (le_ns e) (le_op e)) new_opacc add_opacc es)))"
proof -
  let ?key = "\<lambda>e. op_key (le_ns e) (le_op e)"
  let ?ks = "appearance [] (map ?key es)"
  define h where "h k = (let g = with_key ?key es k in summary_of (fold add_opacc g (new_opacc (hd g))))" for k
  have h: "h (?key e) = op_ref es (entry_key e)" if "e \<in> set es" for e
    unfolding h_def by (rule group_summary [OF assms that])
  have ks: "set ?ks = ?key ` set es" "distinct ?ks" by (simp_all add: appearance_set appearance_distinct)
  have names: "(os_ns (op_ref es k), os_op (op_ref es k)) = k" for k by (simp add: op_ref_def Let_def)
  have "inj_on h (?key ` set es)"
  proof (rule inj_onI)
    fix k k' assume "k \<in> ?key ` set es" "k' \<in> ?key ` set es" and eq: "h k = h k'"
    then obtain e e' where e: "e \<in> set es" "e' \<in> set es" "k = ?key e" "k' = ?key e'" by blast
    then have "op_ref es (entry_key e) = op_ref es (entry_key e')" using eq h by simp
    then have "entry_key e = entry_key e'" by (metis names)
    with e show "k = k'" by (simp add: entry_key_def)
  qed
  then have "distinct (map h ?ks)" using ks by (simp add: distinct_map)
  moreover have "set (map h ?ks) = op_ref es ` entry_key ` set es" using ks(1) h by (auto simp: image_image)
  ultimately have m: "mset (map h ?ks) = mset_set (op_ref es ` entry_key ` set es)" by (metis mset_set_set)
  have "map (summary_of \<circ> snd) (groups ?key new_opacc add_opacc es) = map h ?ks" by (simp add: groups_def h_def Let_def)
  then show ?thesis unfolding finalizeOperations_def using m by simp
qed

lemma count_partition:
  "finite K \<Longrightarrow> f ` set es \<subseteq> K \<Longrightarrow> (\<Sum>k \<in> K. length (filter (\<lambda>e. f e = k) es)) = length es"
proof (induction es)
  case (Cons e es)
  have "(\<Sum>k \<in> K. length (filter (\<lambda>x. f x = k) (e # es))) = (\<Sum>k \<in> K. (if f e = k then 1 else 0) + length (filter (\<lambda>x. f x = k) es))"
    by (rule sum.cong) auto
  also have "\<dots> = length (e # es)" using Cons by (simp add: sum.distrib)
  finally show ?case .
qed simp

lemma counts_total:
  assumes "mset ops = mset_set (op_ref es ` entry_key ` set es)"
  shows "sum_list (map os_count ops) = length es"
proof -
  have "inj_on (op_ref es) (entry_key ` set es)" by (auto simp: inj_on_def op_ref_def Let_def prod_eq_iff)
  have "sum_list (map os_count ops) = sum_mset (image_mset os_count (mset ops))" by (simp flip: sum_mset_sum_list)
  also have "\<dots> = sum os_count (op_ref es ` entry_key ` set es)" by (simp add: assms sum_unfold_sum_mset)
  also have "\<dots> = sum (os_count \<circ> op_ref es) (entry_key ` set es)" by (rule sum.reindex) fact
  also have "\<dots> = (\<Sum>k \<in> entry_key ` set es. length (filter (\<lambda>e. entry_key e = k) es))"
  proof (rule sum.cong)
    fix k assume "k \<in> entry_key ` set es"
    have "(\<lambda>e. entry_key e = k) = (\<lambda>e. le_ns e = fst k \<and> le_op e = snd k)" by (cases k) (simp add: entry_key_def fun_eq_iff)
    then show "(os_count \<circ> op_ref es) k = length (filter (\<lambda>e. entry_key e = k) es)" by (simp add: op_ref_def Let_def)
  qed simp
  also have "\<dots> = length es" by (rule count_partition) simp_all
  finally show ?thesis .
qed

subsection \<open>The mix\<close>

lemma fl_close: "0 \<le> x \<Longrightarrow> fl x \<le> 1001/1000 * x" "0 \<le> x \<Longrightarrow> 999/1000 * x \<le> fl x"
proof -
  assume x: "0 \<le> x"
  have "x * (1 + 1 / 2 ^ 53) \<le> 1001/1000 * x" "999/1000 * x \<le> x * (1 - 1 / 2 ^ 53)" using x by (simp_all add: field_simps)
  with fl_error [OF x] show "fl x \<le> 1001/1000 * x" "999/1000 * x \<le> fl x" by linarith+
qed

lemma percent_bounds:
  assumes "0 < n"
  shows "0 \<le> percent c n" "of_int (percent c n) * of_nat n \<le> (201/2 :: rat) * of_nat c"
proof -
  define a b where "a = fl (of_nat c)" and "b = fl (of_nat n)"
  have a: "0 \<le> a" "a \<le> 1001/1000 * of_nat c" unfolding a_def by (rule fl_nonneg fl_close; simp)+
  have b: "999/1000 * of_nat n \<le> b" "0 < b"
    using fl_close(2) [of "of_nat n"] assms by (simp_all add: b_def less_le_trans [rotated])
  let ?q = "fl (a / b)"
  have q: "0 \<le> ?q" "?q \<le> 1001/1000 * (a / b)" by (rule fl_nonneg fl_close; use a(1) b(2) in simp)+
  have r: "0 \<le> fl (?q * 100)" "fl (?q * 100) \<le> 1001/1000 * (?q * 100)" by (rule fl_nonneg fl_close; use q(1) in simp)+
  show "0 \<le> percent c n" using r(1) by (simp add: percent_def a_def b_def)
  have "of_int (percent c n) \<le> fl (?q * 100)" by (simp add: percent_def a_def b_def)
  also have "\<dots> \<le> 1001/1000 * 100 * (1001/1000 * (a / b))" using r(2) q(2) by simp
  finally have "of_int (percent c n) * b \<le> 1001/1000 * 100 * (1001/1000) * a" using b(2) by (simp add: field_simps)
  moreover have "of_int (percent c n) * (999/1000 * of_nat n) \<le> of_int (percent c n) * b"
    using b(1) \<open>0 \<le> percent c n\<close> by (intro mult_left_mono) simp_all
  ultimately have "of_int (percent c n) * of_nat n * (999/1000 :: rat) \<le> 1001/1000 * 100 * (1001/1000) * (1001/1000) * of_nat c"
    using a(2) by (simp add: algebra_simps)
  moreover have "(0 :: rat) \<le> of_nat c" by simp
  ultimately show "of_int (percent c n) * of_nat n \<le> (201/2 :: rat) * of_nat c" by linarith
qed

lemma op_total_sum: "list_all (\<lambda>o1. os_op o1 \<in> set mix_order) ops \<Longrightarrow> sum_list (map (op_total ops) mix_order) = sum_list (map os_count ops)"
proof (induction ops)
  case (Cons o1 ops)
  have "op_total (o1 # ops) = (\<lambda>k. (if os_op o1 = k then os_count o1 else 0) + op_total ops k)" by (simp add: op_total_def fun_eq_iff)
  then have "sum_list (map (op_total (o1 # ops)) mix_order) =
      sum_list (map (\<lambda>k. if os_op o1 = k then os_count o1 else 0) mix_order) + sum_list (map (op_total ops) mix_order)"
    by (simp only: sum_list_addf)
  moreover have "sum_list (map (\<lambda>k. if os_op o1 = k then os_count o1 else 0) mix_order) = os_count o1"
    using Cons.prems by (auto simp: mix_order_def)
  ultimately show ?case using Cons by simp
qed (simp add: op_total_def)

lemma sum_list_scale: "(\<And>x. x \<in> set xs \<Longrightarrow> f x * n \<le> (a :: rat) * g x) \<Longrightarrow> sum_list (map f xs) * n \<le> a * sum_list (map g xs)"
  by (induction xs) (auto simp: algebra_simps intro: add_mono)

lemma of_int_sum_list: "of_int (sum_list (map f xs)) = sum_list (map (\<lambda>x. of_int (f x)) xs)"
  by (induction xs) simp_all

lemma of_nat_sum_list: "of_nat (sum_list (map f xs)) = sum_list (map (\<lambda>x. of_nat (f x)) xs)"
  by (induction xs) simp_all

lemma fold_choice: "fold (\<lambda>k l. if P k l then k else l) xs a \<in> insert a (set xs)"
proof (induction xs arbitrary: a)
  case (Cons x xs)
  show ?case using Cons.IH [of "if P x a then x else a"] by (auto split: if_splits)
qed simp

lemma sum_list_change: "distinct xs \<Longrightarrow> k \<in> set xs \<Longrightarrow> sum_list (map (f(k := v)) xs) = sum_list (map f xs) - f k + (v :: int)"
proof (induction xs)
  case (Cons x xs)
  have "map (f(k := v)) xs = map f xs" if "k \<notin> set xs" using that by (intro map_cong) auto
  with Cons show ?case by (cases "k = x") (auto simp del: fun_upd_apply simp: fun_upd_same fun_upd_other)
qed simp

lemma sum_list_member:
  assumes "\<And>x. 0 \<le> f x" "k \<in> set xs"
  shows "f k \<le> (sum_list (map f xs) :: int)"
proof -
  have nn: "0 \<le> sum_list (map f ys)" for ys by (rule sum_list_nonneg) (use assms(1) in auto)
  obtain a b where "xs = a @ k # b" using assms(2) by (meson split_list)
  then show ?thesis using nn [of a] nn [of b] by simp
qed

lemma mix_order_distinct: "distinct mix_order" by code_simp

lemma suggestMix_shares:
  assumes ops: "list_all (\<lambda>o1. os_op o1 \<in> set mix_order) ops"
  shows "sum_list (map (suggestMix ops) mix_order) = (if sum_list (map os_count ops) = 0 then 0 else 100) \<and>
    0 \<le> suggestMix ops k \<and> suggestMix ops k \<le> 100"
proof (cases "sum_list (map os_count ops) = 0")
  case True
  then show ?thesis by (simp add: suggestMix_def)
next
  case False
  define n where "n = sum_list (map os_count ops)"
  define pct where "pct k = (if k \<in> set mix_order then percent (op_total ops k) n else 0)" for k
  define largest where "largest = fold (\<lambda>k l. if op_total ops k > op_total ops l then k else l) mix_order ''find''"
  define rest where "rest = 100 - sum_list (map pct mix_order)"
  have n: "0 < n" using False unfolding n_def by (rule neq0_conv [THEN iffD1])
  have nn: "0 \<le> pct k" for k by (simp add: pct_def percent_bounds n)
  have "sum_list (map (\<lambda>k. of_int (pct k)) mix_order) * of_nat n \<le> (201/2 :: rat) * sum_list (map (\<lambda>k. of_nat (op_total ops k)) mix_order)"
  proof (rule sum_list_scale)
    fix k assume "k \<in> set mix_order"
    then show "of_int (pct k) * of_nat n \<le> (201/2 :: rat) * of_nat (op_total ops k)"
      using percent_bounds(2) [OF n, of "op_total ops k"] by (simp only: pct_def if_True)
  qed
  then have "of_int (sum_list (map pct mix_order)) * of_nat n \<le> (201/2 :: rat) * of_nat n"
    using op_total_sum [OF ops] by (simp only: of_int_sum_list n_def flip: of_nat_sum_list)
  then have "of_int (sum_list (map pct mix_order)) \<le> (201/2 :: rat)" using n by (simp only: mult_le_cancel_right of_nat_0_less_iff)
  then have rest: "0 \<le> rest" by (simp add: rest_def)
  have l: "largest \<in> set mix_order" using fold_choice [of _ mix_order "''find''"] by (auto simp: largest_def mix_order_def)
  have m: "suggestMix ops = (if rest = 0 then pct else pct(largest := pct largest + rest))"
    using rest nn [of largest] False unfolding suggestMix_def Let_def n_def [symmetric] pct_def [symmetric, abs_def] largest_def [symmetric]
    by (simp add: rest_def [symmetric] n_def [symmetric])
  have total: "sum_list (map (suggestMix ops) mix_order) = 100"
    using sum_list_change [OF mix_order_distinct l, of pct] by (simp add: m rest_def)
  have pos: "0 \<le> suggestMix ops k" for k using nn [of k] nn [of largest] rest by (simp add: m)
  have "suggestMix ops k \<le> 100"
  proof (cases "k \<in> set mix_order")
    case True
    then show ?thesis using sum_list_member [of "suggestMix ops", OF pos True] total by simp
  next
    case False
    then have "suggestMix ops k = 0" using l by (auto simp: m pct_def)
    then show ?thesis by simp
  qed
  with total pos False show ?thesis by simp
qed

subsection \<open>A whole log\<close>

lemma entries_Cons:
  "parsed_entries js (l # ls) =
    (if trim_space l = [] then parsed_entries js ls
     else case entry_of js l of None \<Rightarrow> parsed_entries js ls | Some e \<Rightarrow> e # parsed_entries js ls)"
  "nonblank (l # ls) = (if trim_space l = [] then nonblank ls else l # nonblank ls)"
  "parsed_entries js [] = []" "nonblank [] = []"
  by (simp_all add: parsed_entries_def nonblank_def List.map_filter_def split: option.split)

lemma parsed_le: "length (parsed_entries js ls) \<le> length (nonblank ls)"
  by (induction ls) (auto simp: entries_Cons le_SucI split: option.split)

lemma infer_fold:
  "fold (infer_line js) ls (p, k, agg) =
    (p + length (parsed_entries js ls), k + (length (nonblank ls) - length (parsed_entries js ls)), fold accumulate (parsed_entries js ls) agg)"
proof (induction ls arbitrary: p k agg)
  case (Cons l ls)
  have step: "infer_line js l (p, k, agg) = (if trim_space l = [] then (p, k, agg)
     else case entry_of js l of None \<Rightarrow> (p, Suc k, agg) | Some e \<Rightarrow> (Suc p, k, accumulate e agg))" by (simp add: infer_line_def)
  show ?case unfolding fold_simps step
    by (cases "trim_space l = []"; cases "entry_of js l") (simp_all add: Cons.IH entries_Cons Suc_diff_le parsed_le)
qed (simp add: entries_Cons)

lemma op_ref_op: "os_op (op_ref es (entry_key e)) = le_op e"
  by (simp add: op_ref_def entry_key_def Let_def)

lemma Infer_parts:
  fixes js arr t
  defines "r \<equiv> Infer js arr t" and "es \<equiv> parsed_entries js (splitEntries arr t)"
  shows "ir_total r = length (splitEntries arr t)" "ir_parsed r = length es"
    "ir_parsed r + ir_skipped r = length (nonblank (splitEntries arr t))"
    "ir_collections r = map (coll_ref es) (sorted_list_of_set (le_ns ` set es))"
    "mset (ir_operations r) = mset_set (op_ref es ` entry_key ` set es)" "sorted (map op_rank (ir_operations r))"
    "ir_mix r = suggestMix (ir_operations r)" "list_all (\<lambda>o1. os_op o1 \<in> set mix_order) (ir_operations r)"
proof -
  let ?ls = "splitEntries arr t"
  have es: "\<And>e. e \<in> set es \<Longrightarrow> le_op e \<in> set mix_order" unfolding es_def by (rule parsed_op)
  note f = infer_fold [of js ?ls 0 0 "([], [])", folded es_def] and a = accumulate_groups [of es]
  note ops = finalize_operations [OF es]
  have o1: "ir_operations r = finalizeOperations (groups (\<lambda>e. op_key (le_ns e) (le_op e)) new_opacc add_opacc es)"
    using f by (simp add: r_def Infer_def Let_def a)
  show "ir_total r = length ?ls" "ir_parsed r = length es" "ir_parsed r + ir_skipped r = length (nonblank ?ls)"
    "ir_collections r = map (coll_ref es) (sorted_list_of_set (le_ns ` set es))" "ir_mix r = suggestMix (ir_operations r)"
    using f parsed_le [of js ?ls, folded es_def] by (simp_all add: r_def Infer_def Let_def a finalize_collections)
  show m: "mset (ir_operations r) = mset_set (op_ref es ` entry_key ` set es)" "sorted (map op_rank (ir_operations r))"
    unfolding o1 using ops by blast+
  have "set (ir_operations r) = op_ref es ` entry_key ` set es" using arg_cong [OF m(1), of set_mset] by simp
  then show "list_all (\<lambda>o1. os_op o1 \<in> set mix_order) (ir_operations r)" using es op_ref_op by (simp add: list_all_iff)
qed


text \<open>The suggested mix adds up to 100 percent when there is anything to suggest, whatever the rounding of the shares
was, and no share is negative or above 100.\<close>

theorem suggested_mix_adds_up:
  "let r = Infer js arr t in
   sum_list (map (ir_mix r) mix_order) = (if ir_parsed r = 0 then 0 else 100) \<and> 0 \<le> ir_mix r k \<and> ir_mix r k \<le> 100"
  using suggestMix_shares [OF Infer_parts(8) [of js arr t], of k] counts_total [OF Infer_parts(5) [of js arr t]]
  by (simp add: Let_def Infer_parts)

subsection \<open>Suggested queries\<close>

text \<open>The suggested query of an update or an aggregation is one that loading refuses: it has neither an update document nor
a pipeline.\<close>

lemma suggested_update_refused:
  assumes "trim_space (os_coll o1) \<noteq> []"
  shows "os_op o1 = ''update'' \<Longrightarrow> normalize_query i (suggested_query o1) = Inl (no_update i ''updateOne'')"
    and "os_op o1 = ''aggregate'' \<Longrightarrow> normalize_query i (suggested_query o1) = Inl (no_pipeline i ''aggregate'')"
proof -
  have "normalizeQueryOperation ''update'' = ''updateOne''" "normalizeQueryOperation ''aggregate'' = ''aggregate''" by code_simp+
  moreover have "is_update ''updateOne''" "\<not> is_update ''aggregate''" by code_simp+
  ultimately show "os_op o1 = ''update'' \<Longrightarrow> normalize_query i (suggested_query o1) = Inl (no_update i ''updateOne'')"
    "os_op o1 = ''aggregate'' \<Longrightarrow> normalize_query i (suggested_query o1) = Inl (no_pipeline i ''aggregate'')"
    using assms by (simp_all add: normalize_query_def suggested_query_def empty_query_def Let_def some_map_def some_list_def)
qed

text \<open>A findAndModify with an update is taken for the update its field names, and loses its collection: its verb is looked for after
the others.\<close>

lemma find_and_modify_loses_collection:
  "classifyCommand [(''findAndModify'', GStr c), (''query'', q), (''update'', GMap u), (''$db'', GStr d)] = (''update'', [])"
proof -
  have "normalizeOp ''update'' = ''update''" by code_simp
  then show ?thesis by (simp add: classifyCommand_def command_verbs_def getString_def)
qed

end
