(* ===== verification/TrafficImport.thy ===== *)
theory TrafficImport
  imports SchemaInferProofs Shapes CompareOps RecorderRun
begin

text \<open>
  Importing captured traffic (\<open>internal/trafficimport/trafficimport.go\<close>): the entries of a log
  (\<open>schemainfer.ForEachEntry\<close>), the operations they stand for, and the recording they become. Relaxed extended JSON, BSON
  encoding, the normalization of an operation (\<open>mongo.ImportedOperation\<close>) and the formatting of times are parameters.
\<close>

subsection \<open>Parameters\<close>

record import_env =
  ie_array :: "string \<Rightarrow> string list \<times> string option"
    \<comment> \<open>the elements of a top-level array, and the error the decoder stops with\<close>
  ie_parse :: "string \<Rightarrow> document option"          \<comment> \<open>\<open>bson.UnmarshalExtJSON\<close>\<close>
  ie_micros :: "gval \<Rightarrow> int option"               \<comment> \<open>of a \<open>bson.DateTime\<close>\<close>
  ie_binary :: "gval \<Rightarrow> nat list option"          \<comment> \<open>the bytes of a \<open>bson.Binary\<close>\<close>
  ie_normalize :: "string \<Rightarrow> string \<Rightarrow> document \<Rightarrow> (document \<times> shape_ref option) res"
  ie_marshal :: "document \<Rightarrow> string res"
  ie_rfc3339 :: "int \<Rightarrow> string"

record import_opts =
  io_workers :: int
  io_database :: string
  io_compression :: string
  io_skipGenerated :: bool

subsection \<open>Entries\<close>

definition MaxEntryBytes :: nat where "MaxEntryBytes = 64 * 2 ^ 20"

text \<open>\<open>unicode.IsSpace\<close> of a single byte.\<close>

definition space_byte :: "char \<Rightarrow> bool" where
  "space_byte c \<longleftrightarrow> is_space c \<or> of_char c \<in> {0x85, 0xA0 :: nat}"

primrec numbered :: "nat \<Rightarrow> string list \<Rightarrow> (string \<times> nat) list" where
  "numbered n [] = []"
| "numbered n (l # ls) = (if trim_space l = [] then [] else [(trim_space l, n)]) @ numbered (Suc n) ls"

text \<open>The entries handed to the callback, with their numbers, and the error it ends with; \<open>io\<close> is the error of the reader.\<close>

definition ForEachEntry :: "import_env \<Rightarrow> string option \<Rightarrow> string \<Rightarrow> (string \<times> nat) list \<times> string option" where
  "ForEachEntry env io text1 =
     (let skipped = length (filter (\<lambda>c. c = CHR 0x0A) (takeWhile space_byte text1)); rest = dropWhile space_byte text1 in
      if rest = [] then ([], io)
      else if hd rest = CHR ''['' then
        (case ie_array env rest of (xs, err) \<Rightarrow> (zip xs [1..<Suc (length xs)],
           map_option (\<lambda>m. ''array element '' @ itoa (int (length xs) + 1) @ '': '' @ m) err))
      else
        (numbered (skipped + 1) (scan_lines MaxEntryBytes rest),
         map_option (\<lambda>m. ''read entries: '' @ m)
           (if list_all (\<lambda>l. length l < MaxEntryBytes) (text_lines rest) then io else Some ''bufio.Scanner: token too long'')))"

subsection \<open>Reading documents\<close>

definition as_doc :: "gval \<Rightarrow> document option" where
  "as_doc v = (case v of GDoc d \<Rightarrow> Some d | _ \<Rightarrow> None)"

definition as_str :: "gval \<Rightarrow> string" where
  "as_str v = (case v of GStr s \<Rightarrow> s | _ \<Rightarrow> [])"

definition docOr :: "gval \<Rightarrow> gval" where
  "docOr v = (if v = GNil then GDoc [] else v)"

definition isArray :: "gval \<Rightarrow> bool" where
  "isArray v \<longleftrightarrow> (case v of GA _ \<Rightarrow> True | _ \<Rightarrow> False)"

text \<open>A float is cut to an integer (below \<open>2 ^ 63\<close>).\<close>

definition number :: "gval \<Rightarrow> int option" where
  "number v = (case v of GInt32 n \<Rightarrow> Some n | GInt64 n \<Rightarrow> Some n | GFloat x \<Rightarrow> Some (float_to_int x) | _ \<Rightarrow> None)"

definition number_or_0 :: "gval \<Rightarrow> int" where
  "number_or_0 v = (case number v of Some n \<Rightarrow> n | None \<Rightarrow> 0)"

definition isZero :: "gval \<Rightarrow> bool" where
  "isZero v \<longleftrightarrow> number v = Some 0"

definition isSystemNamespace :: "string \<Rightarrow> bool" where
  "isSystemNamespace ns \<longleftrightarrow>
     fst (cut_dot ns) \<in> {''admin'', ''local'', ''config''} \<or> has_prefix ''system.'' (snd (cut_dot ns))"

fun containsKey :: "gval \<Rightarrow> string \<Rightarrow> bool" where
  "containsKey (GDoc d) key = (\<exists>e \<in> set d. fst e = key \<or> containsKey (snd e) key)"
| "containsKey (GA xs) key = (\<exists>x \<in> set xs. containsKey x key)"
| "containsKey v key = False"

fun usesServerValues :: "gval \<Rightarrow> bool" where
  "usesServerValues (GDoc d) =
     (\<exists>e \<in> set d. fst e \<in> {''$currentDate'', ''$rand'', ''$sample'', ''$sampleRate''} \<or> usesServerValues (snd e))"
| "usesServerValues (GA xs) = (\<exists>x \<in> set xs. usesServerValues x)"
| "usesServerValues (GStr s) = (s = ''$$NOW'' \<or> s = ''$$CLUSTER_TIME'')"
| "usesServerValues v = False"

text \<open>When an operation started: its logged time minus its duration, in microseconds.\<close>

definition startTime :: "import_env \<Rightarrow> gval \<Rightarrow> gval \<Rightarrow> int option" where
  "startTime env t durMs =
     map_option (\<lambda>us. case number durMs of Some d \<Rightarrow> if d > 0 then to_i64 (us - to_i64 (d * 1000)) else us | None \<Rightarrow> us) (ie_micros env t)"

definition sessionID :: "import_env \<Rightarrow> document \<Rightarrow> string" where
  "sessionID env d =
     (case as_doc (docValue d ''lsid'') of None \<Rightarrow> []
      | Some lsid \<Rightarrow> (case ie_binary env (docValue lsid ''id'') of Some bs \<Rightarrow> ''lsid:'' @ hex_encode bs | None \<Rightarrow> []))"

definition profileConn :: "import_env \<Rightarrow> document \<Rightarrow> document \<Rightarrow> string" where
  "profileConn env d cmd =
     (if sessionID env d \<noteq> [] then sessionID env d
      else if sessionID env cmd \<noteq> [] then sessionID env cmd
      else ''client:'' @ as_str (docValue d ''client'') @ ''|'' @ as_str (docValue d ''appName'') @ ''|'' @ as_str (docValue d ''user''))"

definition knownVerbs :: "string list" where
  "knownVerbs = [''find'', ''aggregate'', ''insert'', ''update'', ''delete'', ''getMore'', ''count'', ''distinct'',
     ''findAndModify'', ''findandmodify'', ''mapReduce'', ''explain'', ''bulkWrite'']"

definition envelopeKeys :: "string list" where
  "envelopeKeys = [''$db'', ''lsid'', ''$clusterTime'', ''txnNumber'', ''autocommit'', ''startTransaction'',
     ''readConcern'', ''writeConcern'', ''$readPreference'', ''comment'', ''maxTimeMS'',
     ''apiVersion'', ''apiStrict'', ''apiDeprecationErrors'', ''$audit'', ''$client'',
     ''mayBypassWriteBlocking'', ''ordered'', ''bypassDocumentValidation'', ''cursor'',
     ''singleBatch'', ''noCursorTimeout'', ''allowPartialResults'', ''$configTime'',
     ''$topologyTime'', ''shardVersion'', ''databaseVersion'', ''clientOperationKey'',
     ''$configServerState'', ''$replData'', ''$gleStats'', ''$oplogQueryData'',
     ''fromMongos'', ''needsMerge'', ''$queryOptions'', ''$timeseries'']"

subsection \<open>The recorded form of an operation\<close>

text \<open>\<open>ImportedOperation\<close> (\<open>internal/mongo/traffic_import.go\<close>); \<open>trip\<close> encodes a command and decodes it again.\<close>

definition import_line :: "string \<Rightarrow> string \<Rightarrow> op_line" where
  "import_line ns op = \<lparr>ol_seq = 0, ol_worker = 0, ol_worker_seq = 0, ol_offset_us = 0, ol_iteration = 0, ol_ns = ns, ol_op = op,
     ol_path = [], ol_ok = False, ol_existing = False, ol_query = None, ol_shape = None, ol_cmd = [], ol_outcome = None, ol_flags = []\<rparr>"

definition of_line :: "op_line \<Rightarrow> op_request \<Rightarrow> exec_request" where
  "of_line line r = op_request.extend r
     \<lparr>xr_q = empty_query, xr_filterMap = None, xr_pipelineIn = None, xr_poolDoc = None, xr_poolDocs = [], xr_line = Some line\<rparr>"

definition ImportedOperation :: "(document \<Rightarrow> decode_error + document) \<Rightarrow> string \<Rightarrow> string \<Rightarrow> document \<Rightarrow>
    decode_error + document \<times> shape_ref option" where
  "ImportedOperation trip ns op args =
     (let col = \<lparr>c_db = fst (cut_dot ns), c_name = snd (cut_dot ns)\<rparr> in
      case decodeStandard op False args col of Inl e \<Rightarrow> Inl e
      | Inr r \<Rightarrow>
         (case trip (standardCommand r) of Inl e \<Rightarrow> Inl e
          | Inr d' \<Rightarrow>
             (case decodeStandard op False d' col of Inl e \<Rightarrow> Inl e
              | Inr r' \<Rightarrow> Inr (standardCommand r, Some (recordShapeRef (identity (of_line (import_line ns op) r')))))))"

text \<open>\<open>importedReplayWarnings\<close>.\<close>

definition importedReplayWarnings :: "import_info \<Rightarrow> bool \<Rightarrow> bool \<Rightarrow> int \<Rightarrow> string list" where
  "importedReplayWarnings imp drops skipSeed docs =
     [''the recording was imported from captured traffic ('' @ join_with '', '' (im_sources imp) @ ''): collection and query definitions are not compared, and every operation runs on the namespace it was captured on'']
     @ (if drops \<or> (\<not> skipSeed \<and> docs > 0) then [''drop_collections or seeding was on: the configured collections were reset before the imported traffic ran; captured traffic expects each target to hold a copy of the captured data (turn drop_collections off and skip_seed on)''] else [])
     @ (if cnt (im_flagged imp) ''server_generated_values'' > 0 then [''some imported operations use server-generated values (for example inserts without _id, $currentDate, $$NOW, $rand); their results can differ between targets''] else [])"

subsection \<open>The converter's state\<close>

definition SkipUnparseable :: string where "SkipUnparseable = ''unparseable''"
definition SkipTruncated :: string where "SkipTruncated = ''truncated''"
definition SkipGetMore :: string where "SkipGetMore = ''getmore''"
definition SkipUnsupported :: string where "SkipUnsupported = ''unsupported_command''"
definition SkipDuplicateWrite :: string where "SkipDuplicateWrite = ''duplicate_write_statement''"
definition SkipSystemNamespace :: string where "SkipSystemNamespace = ''system_namespace''"
definition SkipNoNamespace :: string where "SkipNoNamespace = ''no_namespace''"
definition SkipMalformed :: string where "SkipMalformed = ''malformed_command''"
definition SkipServerGenerated :: string where "SkipServerGenerated = ''server_generated_values''"

definition FlagServerGenerated :: string where "FlagServerGenerated = ''server_generated_values''"
definition FlagDroppedOptions :: string where "FlagDroppedOptions = ''dropped_options''"
definition FlagInTransaction :: string where "FlagInTransaction = ''in_transaction''"
definition FlagSplitStatement :: string where "FlagSplitStatement = ''split_statement''"
definition FlagFailedOnSource :: string where "FlagFailedOnSource = ''failed_on_source''"
definition FlagNoTimestamp :: string where "FlagNoTimestamp = ''no_timestamp''"

definition SourceMongodLog :: string where "SourceMongodLog = ''mongod_log''"
definition SourceProfile :: string where "SourceProfile = ''system_profile''"
definition SourceCommand :: string where "SourceCommand = ''command''"

definition MaxWorkers :: nat where "MaxWorkers = 1024"
definition maxWarnings :: nat where "maxWarnings = 20"

record pending_op =
  pd_start :: int      \<comment> \<open>microseconds\<close>
  pd_hasTS :: bool
  pd_conn :: string
  pd_ns :: string
  pd_op :: string
  pd_ok :: bool
  pd_flags :: "string list"
  pd_cmd :: string
  pd_shape :: "shape_ref option"

record converter =
  cv_entries :: nat
  cv_nonops :: nat
  cv_skipped :: nat
  cv_reasons :: "string counters"
  cv_unsupported :: "string counters"
  cv_flagged :: "string counters"
  cv_dropped :: "string counters"
  cv_warnings :: "string list"
  cv_ops :: "pending_op list"
  cv_sources :: "string list"    \<comment> \<open>of which only the members count\<close>
  cv_lastTS :: int

record captured =
  cp_ns :: string
  cp_conn :: string
  cp_ts :: "int option"
  cp_failed :: bool

definition empty_converter :: converter where
  "empty_converter = \<lparr>cv_entries = 0, cv_nonops = 0, cv_skipped = 0, cv_reasons = Map.empty, cv_unsupported = Map.empty,
     cv_flagged = Map.empty, cv_dropped = Map.empty, cv_warnings = [], cv_ops = [], cv_sources = [], cv_lastTS = 0\<rparr>"

definition add_warning :: "string \<Rightarrow> string list \<Rightarrow> string list" where
  "add_warning m ws =
     (if length ws < maxWarnings then ws @ [m] else if length ws = maxWarnings then ws @ [''more warnings not shown''] else ws)"

definition warn :: "string \<Rightarrow> converter \<Rightarrow> converter" where
  "warn m c = c\<lparr>cv_warnings := add_warning m (cv_warnings c)\<rparr>"

definition skip_entry :: "string \<Rightarrow> converter \<Rightarrow> converter" where
  "skip_entry reason c = c\<lparr>cv_skipped := Suc (cv_skipped c), cv_reasons := bump (cv_reasons c) reason\<rparr>"

definition unsupported_command :: "string \<Rightarrow> converter \<Rightarrow> converter" where
  "unsupported_command what c =
     (skip_entry SkipUnsupported c)\<lparr>cv_unsupported := bump (cv_unsupported c) what\<rparr>"

definition from_source :: "string \<Rightarrow> converter \<Rightarrow> converter" where
  "from_source s c = c\<lparr>cv_sources := s # cv_sources c\<rparr>"

definition not_operation :: "converter \<Rightarrow> converter" where
  "not_operation c = c\<lparr>cv_nonops := Suc (cv_nonops c)\<rparr>"

subsection \<open>One operation\<close>

text \<open>The options a replay does not send: neither kept, nor the command's name, nor the envelope.\<close>

definition extraOptions :: "document \<Rightarrow> string \<Rightarrow> string list \<Rightarrow> string list" where
  "extraOptions cmd verb keep =
     (let rest = (case cmd of e # es \<Rightarrow> if fst e = verb then es else cmd | [] \<Rightarrow> [])
      in filter (\<lambda>k. k \<notin> set envelopeKeys \<and> k \<notin> set keep) (map fst rest))"

definition op_flags :: "bool \<Rightarrow> bool \<Rightarrow> bool \<Rightarrow> bool \<Rightarrow> bool \<Rightarrow> bool \<Rightarrow> string list" where
  "op_flags gen dropped inTx split failed noTS =
     map snd (filter fst [(gen, FlagServerGenerated), (dropped, FlagDroppedOptions), (inTx, FlagInTransaction),
       (split, FlagSplitStatement), (failed, FlagFailedOnSource), (noTS, FlagNoTimestamp)])"

definition addOp :: "import_env \<Rightarrow> import_opts \<Rightarrow> captured \<Rightarrow> string \<Rightarrow> document \<Rightarrow> string list \<Rightarrow> bool \<Rightarrow> bool \<Rightarrow> bool \<Rightarrow>
    converter \<Rightarrow> converter" where
  "addOp env opts src op args dropped inTx gen0 split c =
     (if isSystemNamespace (cp_ns src) then skip_entry SkipSystemNamespace c
      else let gen = (gen0 \<or> usesServerValues (GDoc args)) in
        if gen \<and> io_skipGenerated opts then skip_entry SkipServerGenerated c
        else case ie_normalize env (cp_ns src) op args of
          Inl m \<Rightarrow> warn (''an operation on '' @ cp_ns src @ '' could not be converted ('' @ m @ '')'') (skip_entry SkipMalformed c)
        | Inr (cmd, shape) \<Rightarrow>
           (case ie_marshal env cmd of
              Inl m \<Rightarrow> skip_entry SkipMalformed c
            | Inr raw \<Rightarrow>
               (let flags = op_flags gen (dropped \<noteq> []) inTx split (cp_failed src) (cp_ts src = None);
                    ts = (case cp_ts src of Some t \<Rightarrow> t | None \<Rightarrow> cv_lastTS c)
                in c\<lparr>cv_flagged := fold (\<lambda>f m. bump m f) flags (cv_flagged c),
                     cv_dropped := fold (\<lambda>k m. bump m k) dropped (cv_dropped c),
                     cv_lastTS := ts,
                     cv_ops := cv_ops c @ [\<lparr>pd_start = ts, pd_hasTS = (cp_ts src \<noteq> None), pd_conn = cp_conn src,
                       pd_ns = cp_ns src, pd_op = op, pd_ok = (\<not> cp_failed src), pd_flags = sort flags, pd_cmd = raw,
                       pd_shape = shape\<rparr>]\<rparr>)))"

text \<open>One statement of an update or a delete.\<close>

definition convert_update :: "import_env \<Rightarrow> import_opts \<Rightarrow> captured \<Rightarrow> string list \<Rightarrow> bool \<Rightarrow> bool \<Rightarrow> document \<Rightarrow>
    converter \<Rightarrow> converter" where
  "convert_update env opts src dropped inTx split s c =
     (let u = docValue s ''u''; fil = docOr (docValue s ''q'') in
      if \<not> isArray u \<and> (case as_doc u of Some (e # _) \<Rightarrow> \<not> has_prefix ''$'' (fst e) | _ \<Rightarrow> True)
        then unsupported_command ''update (replacement document)'' c
      else
        (let upsert = (docValue s ''upsert'' = GBool True);
             gen = (upsert \<and> (case as_doc fil of Some d \<Rightarrow> \<not> hasKey d ''_id'' | None \<Rightarrow> True))
         in addOp env opts src (if docValue s ''multi'' = GBool True then ''updateMany'' else ''updateOne'')
              [(''filter'', fil), (''update'', u), (''upsert'', GBool upsert)]
              (dropped @ extraOptions s [] [''q'', ''u'', ''multi'', ''upsert'']) inTx gen split c))"

definition convert_delete :: "import_env \<Rightarrow> import_opts \<Rightarrow> captured \<Rightarrow> string list \<Rightarrow> bool \<Rightarrow> bool \<Rightarrow> document \<Rightarrow>
    converter \<Rightarrow> converter" where
  "convert_delete env opts src dropped inTx split s c =
     addOp env opts src (if number_or_0 (docValue s ''limit'') = 1 then ''deleteOne'' else ''deleteMany'')
       [(''filter'', docOr (docValue s ''q''))] (dropped @ extraOptions s [] [''q'', ''limit'']) inTx False split c"

definition statements :: "import_env \<Rightarrow> import_opts \<Rightarrow> captured \<Rightarrow> string \<Rightarrow> gval list \<Rightarrow> string list \<Rightarrow> bool \<Rightarrow>
    converter \<Rightarrow> converter" where
  "statements env opts src verb st dropped inTx c =
     fold (\<lambda>x c. case as_doc x of None \<Rightarrow> skip_entry SkipMalformed c
       | Some s \<Rightarrow> (if verb = ''update'' then convert_update env opts src dropped inTx (length st > 1) s c
                     else convert_delete env opts src dropped inTx (length st > 1) s c)) st c"

definition profileStatement :: "import_env \<Rightarrow> import_opts \<Rightarrow> captured \<Rightarrow> string \<Rightarrow> document \<Rightarrow> converter \<Rightarrow> converter" where
  "profileStatement env opts src verb st c =
     (if snd (cut_dot (cp_ns src)) = [] then skip_entry SkipNoNamespace c
      else statements env opts src verb [GDoc st] [] False c)"

subsection \<open>Commands\<close>

definition set_option :: "document \<Rightarrow> string \<Rightarrow> document" where
  "set_option cmd k = (if docValue cmd k = GNil then [] else [(k, docValue cmd k)])"

definition find_args :: "document \<Rightarrow> document" where
  "find_args cmd =
     (let n = number_or_0 (docValue cmd ''skip''); limit = number_or_0 (docValue cmd ''limit'') in
      [(''filter'', docOr (docValue cmd ''filter''))]
      @ set_option cmd ''projection'' @ set_option cmd ''sort'' @ set_option cmd ''hint''
      @ (if n > 0 then [(''skip'', GInt64 n)] else [])
      @ [(''limit'', GInt64 (if limit < 0 then to_i64 (- limit) else limit)),
         (''batchSize'', GInt64 (number_or_0 (docValue cmd ''batchSize'')))])"

definition change_stream :: "gval list \<Rightarrow> bool" where
  "change_stream pipe =
     (case pipe of st # _ \<Rightarrow> (case as_doc st of Some (e # _) \<Rightarrow> fst e = ''$changeStream'' | _ \<Rightarrow> False) | [] \<Rightarrow> False)"

definition missing_id :: "gval \<Rightarrow> bool" where
  "missing_id d = (case as_doc d of Some dd \<Rightarrow> \<not> hasKey dd ''_id'' | None \<Rightarrow> True)"

definition command_db :: "import_opts \<Rightarrow> captured \<Rightarrow> document \<Rightarrow> string" where
  "command_db opts src cmd =
     (if as_str (docValue cmd ''$db'') \<noteq> [] then as_str (docValue cmd ''$db'')
      else if fst (cut_dot (cp_ns src)) \<noteq> [] then fst (cut_dot (cp_ns src))
      else io_database opts)"

text \<open>The five commands that are converted.\<close>

definition convert_command :: "import_env \<Rightarrow> import_opts \<Rightarrow> captured \<Rightarrow> document \<Rightarrow> string \<Rightarrow> converter \<Rightarrow> converter" where
  "convert_command env opts src cmd verb c =
     (let inTx = (docValue cmd ''autocommit'' = GBool False);
          array = (\<lambda>k. case docValue cmd k of GA xs \<Rightarrow> Some xs | _ \<Rightarrow> None)
      in if verb = ''find'' then
        addOp env opts src ''find'' (find_args cmd)
          (extraOptions cmd ''find'' [''filter'', ''projection'', ''sort'', ''hint'', ''skip'', ''limit'', ''batchSize'']) inTx False False c
      else if verb = ''aggregate'' then
        (if docValue cmd ''explain'' = GBool True then unsupported_command ''aggregate (explain)'' c
         else case array ''pipeline'' of
           None \<Rightarrow> skip_entry SkipMalformed c
         | Some pipe \<Rightarrow>
            (if change_stream pipe then unsupported_command ''aggregate ($changeStream)'' c
             else addOp env opts src ''aggregate'' ((''pipeline'', GA pipe) # set_option cmd ''hint'')
                    (extraOptions cmd ''aggregate'' [''pipeline'', ''hint'', ''explain'']) inTx False False c))
      else if verb = ''insert'' then
        (case array ''documents'' of
           Some (d # ds) \<Rightarrow>
             (if ds = [] then addOp env opts src ''insert'' [(''document'', d)]
                (extraOptions cmd ''insert'' [''documents'']) inTx (missing_id d) False c
              else addOp env opts src ''insertMany'' [(''documents'', GA (d # ds))]
                (extraOptions cmd ''insert'' [''documents'']) inTx (list_ex missing_id (d # ds)) False c)
         | _ \<Rightarrow> skip_entry SkipMalformed c)
      else
        (case array (verb @ ''s'') of
           Some (x # xs) \<Rightarrow> statements env opts src verb (x # xs) (extraOptions cmd verb [verb @ ''s'']) inTx c
         | _ \<Rightarrow> skip_entry SkipMalformed c))"

definition command :: "import_env \<Rightarrow> import_opts \<Rightarrow> captured \<Rightarrow> document \<Rightarrow> converter \<Rightarrow> converter" where
  "command env opts src cmd c =
     (case cmd of [] \<Rightarrow> skip_entry SkipMalformed c
      | (verb, coll) # _ \<Rightarrow>
         (if verb = ''getMore'' then skip_entry SkipGetMore c
          else if verb \<notin> {''find'', ''aggregate'', ''insert'', ''update'', ''delete''} then unsupported_command verb c
          else case coll of
            GStr name \<Rightarrow>
              (if name = [] then skip_entry SkipMalformed c
               else if command_db opts src cmd = [] then skip_entry SkipNoNamespace c
               else convert_command env opts (src\<lparr>cp_ns := command_db opts src cmd @ ''.'' @ name\<rparr>) cmd verb c)
          | _ \<Rightarrow> (if verb = ''aggregate'' then unsupported_command ''aggregate (database level)'' c
                   else skip_entry SkipMalformed c)))"

subsection \<open>The kinds of entries\<close>

definition conn_of :: "nat \<Rightarrow> string \<Rightarrow> string" where
  "conn_of i s = itoa (int i) @ ''|'' @ s"

text \<open>An entry of the log of \<open>mongod\<close>.\<close>

definition log_operation :: "import_env \<Rightarrow> import_opts \<Rightarrow> nat \<Rightarrow> document \<Rightarrow> document \<Rightarrow> converter \<Rightarrow> converter" where
  "log_operation env opts i d attr c =
     (case as_doc (docValue attr ''command'') of
        None \<Rightarrow> not_operation c
      | Some cmd \<Rightarrow>
         (let c1 = from_source SourceMongodLog c in
          if hasKey d ''truncated'' \<or> hasKey attr ''truncated'' \<or> containsKey (GDoc cmd) ''$truncated''
            then skip_entry SkipTruncated c1
          else if as_str (docValue attr ''type'') \<in> {''update'', ''remove'', ''delete''} then skip_entry SkipDuplicateWrite c1
          else command env opts
            \<lparr>cp_ns = as_str (docValue attr ''ns''), cp_conn = conn_of i (as_str (docValue d ''ctx'')),
             cp_ts = startTime env (docValue d ''t'') (docValue attr ''durationMillis''),
             cp_failed = (hasKey attr ''errCode'' \<or> isZero (docValue attr ''ok''))\<rparr> cmd c1))"

text \<open>An entry of the profiler.\<close>

definition profile_operation :: "import_env \<Rightarrow> import_opts \<Rightarrow> nat \<Rightarrow> document \<Rightarrow> converter \<Rightarrow> converter" where
  "profile_operation env opts i d c0 =
     (let c = from_source SourceProfile c0 in
      case (case as_doc (docValue d ''command'') of Some x \<Rightarrow> Some x | None \<Rightarrow> as_doc (docValue d ''query'')) of
        None \<Rightarrow> skip_entry SkipMalformed c
      | Some cmd \<Rightarrow>
         (if containsKey (GDoc cmd) ''$truncated'' then skip_entry SkipTruncated c
          else
            (let src = \<lparr>cp_ns = as_str (docValue d ''ns''), cp_conn = conn_of i (profileConn env d cmd),
                   cp_ts = startTime env (docValue d ''ts'') (docValue d ''millis''),
                   cp_failed = (hasKey d ''errCode'' \<or> isZero (docValue d ''ok''))\<rparr>;
                 op = to_lower (as_str (docValue d ''op''))
             in if op = ''getmore'' then skip_entry SkipGetMore c
                else if op = ''update'' \<and> \<not> hasKey cmd ''update'' then profileStatement env opts src ''update'' cmd c
                else if op \<in> {''remove'', ''delete''} \<and> \<not> hasKey cmd ''delete'' then profileStatement env opts src ''delete'' cmd c
                else command env opts src cmd c)))"

text \<open>A command document.\<close>

definition raw_operation :: "import_env \<Rightarrow> import_opts \<Rightarrow> nat \<Rightarrow> document \<Rightarrow> converter \<Rightarrow> converter" where
  "raw_operation env opts i d c =
     (if d = [] \<or> fst (hd d) \<notin> set knownVerbs then not_operation c
      else let c1 = from_source SourceCommand c in
        if containsKey (GDoc d) ''$truncated'' then skip_entry SkipTruncated c1
        else command env opts \<lparr>cp_ns = [], cp_conn = conn_of i (sessionID env d), cp_ts = None, cp_failed = False\<rparr> d c1)"

definition convert_entry :: "import_env \<Rightarrow> import_opts \<Rightarrow> nat \<Rightarrow> string \<Rightarrow> string \<times> nat \<Rightarrow> converter \<Rightarrow> converter" where
  "convert_entry env opts i name e c0 =
     (let c = c0\<lparr>cv_entries := Suc (cv_entries c0)\<rparr> in
      case ie_parse env (fst e) of
        None \<Rightarrow> warn (name @ '' line '' @ itoa (int (snd e)) @ '': not a JSON document'') (skip_entry SkipUnparseable c)
      | Some d \<Rightarrow>
         (case as_doc (docValue d ''attr'') of
            Some attr \<Rightarrow> log_operation env opts i d attr c
          | None \<Rightarrow>
             (if hasKey d ''op'' \<and> hasKey d ''ns'' then profile_operation env opts i d c
              else raw_operation env opts i d c)))"

subsection \<open>Ordering and workers\<close>

record import_report =
  ip_path :: string
  ip_status :: string
  ip_headerHash :: string
  ip_sources :: "string list"
  ip_files :: "string list"
  ip_entries :: nat
  ip_nonops :: nat
  ip_converted :: nat
  ip_skipped :: nat
  ip_reasons :: "string counters"
  ip_unsupported :: "string counters"
  ip_flagged :: "string counters"
  ip_dropped :: "string counters"
  ip_opsByType :: "string counters"
  ip_namespaces :: "string list"
  ip_connections :: nat
  ip_workers :: int
  ip_folded :: bool
  ip_first :: string
  ip_last :: string
  ip_spanMs :: int
  ip_bytes :: nat
  ip_compression :: string
  ip_warnings :: "string list"

definition base_report :: "import_opts \<Rightarrow> string list \<Rightarrow> converter \<Rightarrow> import_report" where
  "base_report opts files c = \<lparr>ip_path = [], ip_status = [], ip_headerHash = [], ip_sources = sort (remdups (cv_sources c)),
     ip_files = files, ip_entries = cv_entries c, ip_nonops = cv_nonops c, ip_converted = 0, ip_skipped = cv_skipped c,
     ip_reasons = cv_reasons c, ip_unsupported = cv_unsupported c, ip_flagged = cv_flagged c, ip_dropped = cv_dropped c,
     ip_opsByType = Map.empty, ip_namespaces = [], ip_connections = 0, ip_workers = 0, ip_folded = False, ip_first = [],
     ip_last = [], ip_spanMs = 0, ip_bytes = 0, ip_compression = io_compression opts, ip_warnings = cv_warnings c\<rparr>"

definition import_note :: string where
  "import_note = ''mongod logs and system.profile hold only operations slower than slowms (default 100 ms), and only the share sampled by slowOpSampleRate, unless profiling level 2 or slowms 0 was set while capturing; the import replays only what was captured. Offsets are start times estimated as the logged time minus the logged duration.''"

primrec position :: "'a \<Rightarrow> 'a list \<Rightarrow> nat" where
  "position x [] = 0"
| "position x (y # ys) = (if x = y then 0 else Suc (position x ys))"

text \<open>The first and the last start of the operations that have a time.\<close>

definition first_start :: "pending_op list \<Rightarrow> int option" where
  "first_start ops = (case map pd_start (filter pd_hasTS ops) of [] \<Rightarrow> None | t # ts \<Rightarrow> Some (fold min ts t))"

definition last_start :: "pending_op list \<Rightarrow> int option" where
  "last_start ops = (case map pd_start (filter pd_hasTS ops) of [] \<Rightarrow> None | t # ts \<Rightarrow> Some (fold max ts t))"

definition import_order :: "pending_op list \<Rightarrow> pending_op list" where
  "import_order ops = sort_key pd_start ops"

definition connections :: "pending_op list \<Rightarrow> string list" where
  "connections ops = appearance [] (map pd_conn ops)"

definition import_workers :: "import_opts \<Rightarrow> nat \<Rightarrow> int" where
  "import_workers opts conns = (if io_workers opts = 0 then int (min conns MaxWorkers) else io_workers opts)"

definition import_offset :: "int option \<Rightarrow> pending_op \<Rightarrow> int" where
  "import_offset lo p =
     (case lo of Some m \<Rightarrow> if pd_start p > m then to_i64 (to_i64 (pd_start p - m) * 1000) else 0 | None \<Rightarrow> 0)"

definition import_entry :: "string list \<Rightarrow> int \<Rightarrow> int option \<Rightarrow> pending_op \<Rightarrow> entry" where
  "import_entry conns workers lo p =
     \<lparr>en_worker = int (position (pd_conn p) conns) mod workers + 1, en_offset = import_offset lo p, en_ns = pd_ns p,
      en_op = pd_op p, en_path = [], en_ok = pd_ok p, en_existing = False, en_query = None, en_shape = pd_shape p,
      en_command = GBytes (pd_cmd p), en_outcome = None, en_flags = pd_flags p, en_cmd = [], en_iteration = 0\<rparr>"

definition empty_config :: config_summary where
  "empty_config = \<lparr>cs_concurrency = 0, cs_duration = [], cs_documents_count = 0, cs_operation_mix = [], cs_load_profile = [],
     cs_access_pattern = [], cs_think_time_ms = 0, cs_think_jitter_ms = 0, cs_find_batch_size = 0, cs_find_limit = 0,
     cs_insert_batch_size = 0, cs_use_transactions = False\<rparr>"

definition import_header :: "string \<Rightarrow> int \<Rightarrow> string list \<Rightarrow> import_info \<Rightarrow> header" where
  "import_header version workers nss info =
     \<lparr>h_type = [], h_format = [], h_plgm_version = version, h_created_at = [], h_server_version = [], h_topology = [],
      h_random_seed = 0, h_workers = workers, h_collections_hash = [], h_queries_hash = [], h_namespaces = nss,
      h_config = empty_config\<lparr>cs_concurrency := workers\<rparr>, h_failure_policy = [], h_max_bytes = 0, h_backpressure = [],
      h_iterations = 0, h_interval_delay = [], h_outcomes = False, h_result_checksums = False, h_data_fingerprint = None,
      h_import = Some info\<rparr>"

text \<open>\<open>write\<close> up to the recorder: the report, the header, and the entries in the order they are recorded.\<close>

definition write_plan ::
    "import_env \<Rightarrow> string \<Rightarrow> import_opts \<Rightarrow> import_report \<Rightarrow> pending_op list \<Rightarrow> import_report \<times> header \<times> entry list" where
  "write_plan env version opts rep ops0 =
     (let ops = import_order ops0; conns = connections ops; n = length conns;
          nss = sort (appearance [] (map pd_ns ops)); lo = first_start ops; hi = last_start ops;
          workers = import_workers opts n;
          warned = (io_workers opts = 0 \<and> n > MaxWorkers);
          rep1 = rep\<lparr>ip_namespaces := nss, ip_connections := n, ip_workers := workers,
            ip_folded := (if io_workers opts = 0 then n > MaxWorkers else int n > workers),
            ip_warnings := (if warned then add_warning (itoa (int n) @ '' connections share '' @ itoa (int MaxWorkers) @
               '' workers (the maximum); set workers to choose how many'') (ip_warnings rep) else ip_warnings rep),
            ip_first := (case lo of Some m \<Rightarrow> ie_rfc3339 env m | None \<Rightarrow> []),
            ip_last := (case hi of Some m \<Rightarrow> ie_rfc3339 env m | None \<Rightarrow> []),
            ip_spanMs := (case (lo, hi) of (Some a, Some b) \<Rightarrow> go_div (to_i64 (b - a)) 1000 | _ \<Rightarrow> 0)\<rparr>;
          info = \<lparr>im_sources = ip_sources rep, im_files = ip_files rep, im_entries = ip_entries rep,
            im_converted = length ops, im_skipped = ip_skipped rep, im_skipped_by_reason = ip_reasons rep,
            im_flagged = ip_flagged rep, im_connections = int n, im_first_timestamp = ip_first rep1,
            im_last_timestamp = ip_last rep1, im_note = import_note\<rparr>
      in (rep1, import_header version workers nss info, map (import_entry conns workers lo) ops))"

subsection \<open>Converting\<close>

record import_input =
  in_name :: string
  in_error :: "string option"   \<comment> \<open>of the reader\<close>
  in_text :: string

text \<open>One file: its entries up to the first error.\<close>

definition convert_input :: "import_env \<Rightarrow> import_opts \<Rightarrow> nat \<Rightarrow> import_input \<Rightarrow> converter \<Rightarrow> converter \<times> string option" where
  "convert_input env opts i x c =
     (case ForEachEntry env (in_error x) (in_text x) of (es, err) \<Rightarrow>
        (fold (convert_entry env opts i (path_base (in_name x))) es (c\<lparr>cv_lastTS := 0\<rparr>),
         map_option (\<lambda>m. path_base (in_name x) @ '': '' @ m) err))"

primrec convert_inputs :: "import_env \<Rightarrow> import_opts \<Rightarrow> nat \<Rightarrow> import_input list \<Rightarrow> string list \<Rightarrow> converter \<Rightarrow>
    string list \<times> converter \<times> string option" where
  "convert_inputs env opts i [] files c = (files, c, None)"
| "convert_inputs env opts i (x # xs) files c =
     (case convert_input env opts i x c of
        (c', Some m) \<Rightarrow> (files @ [path_base (in_name x)], c', Some m)
      | (c', None) \<Rightarrow> convert_inputs env opts (Suc i) xs (files @ [path_base (in_name x)]) c')"

datatype import_result =
    import_rejected string
  | import_failed import_report string
  | import_ready import_report header "entry list"

definition import_recorder_options :: "import_opts \<Rightarrow> rec_options" where
  "import_recorder_options opts =
     \<lparr>op_max_bytes = 0, op_queue_size = 0, op_backpressure = ''block'', op_compression = io_compression opts\<rparr>"

text \<open>\<open>Convert\<close> up to the recorder.\<close>

definition Convert :: "import_env \<Rightarrow> string \<Rightarrow> import_opts \<Rightarrow> import_input list \<Rightarrow> import_result" where
  "Convert env version opts0 inputs =
     (let opts = (if io_compression opts0 = [] then opts0\<lparr>io_compression := CompressionNone\<rparr> else opts0) in
      if io_workers opts < 0 then import_rejected ''workers must be 0 (one per connection) or a positive number''
      else if \<not> ValidCompression (io_compression opts)
        then import_rejected (''unknown compression '' @ go_quote (io_compression opts) @ '' (none, zstd, or gzip)'')
      else case convert_inputs env opts 0 inputs [] empty_converter of
        (files, c, Some m) \<Rightarrow> import_failed ((base_report opts files c)\<lparr>ip_sources := []\<rparr>) m
      | (files, c, None) \<Rightarrow>
          (if cv_ops c = [] then import_failed ((base_report opts files c)\<lparr>ip_status := ''empty''\<rparr>) ''no operations could be converted''
           else case write_plan env version opts (base_report opts files c) (cv_ops c) of (rep, h, es) \<Rightarrow> import_ready rep h es))"

text \<open>The end of \<open>write\<close>, once every entry has been handed to the recorder: what its result and the scan of the file say.\<close>

definition finish_import :: "string \<Rightarrow> import_report \<Rightarrow> entry list \<Rightarrow> rec_result \<Rightarrow> file_info res \<Rightarrow> import_report \<times> string option" where
  "finish_import path rep es res scan =
     (let rep1 = rep\<lparr>ip_path := path, ip_status := rr_status res, ip_converted := rr_ops res, ip_bytes := rr_bytes res,
            ip_opsByType := fold (\<lambda>e m. bump m (en_op e)) es (ip_opsByType rep)\<rparr> in
      if rr_status res \<noteq> StatusComplete
        then (rep1, Some (''write '' @ path @ '': recording '' @ rr_status res @ '' ('' @ rr_reason res @ '')''))
      else case scan of
        Inl m \<Rightarrow> (rep1, Some (''verify '' @ path @ '': '' @ m))
      | Inr fi \<Rightarrow> (rep1\<lparr>ip_headerHash := fi_header_hash fi\<rparr>, None))"

end
