(* ===== verification/TrafficImportProofs.thy ===== *)
theory TrafficImportProofs
  imports TrafficImport
begin

text \<open>
  What an import does: every entry is accounted for, the operations that are written are ones a replay knows, the recording
  keeps the order of every connection, its file passes the scan, and a replay sends the captured commands.
\<close>

declare usesServerValues.simps [simp del] containsKey.simps [simp del]

subsection \<open>Accounting\<close>

definition total_of :: "'k counters \<Rightarrow> 'k set \<Rightarrow> nat" where
  "total_of m ks = (\<Sum>k \<in> ks. cnt m k)"

definition skip_reasons :: "string set" where
  "skip_reasons = {SkipUnparseable, SkipTruncated, SkipGetMore, SkipUnsupported, SkipDuplicateWrite, SkipSystemNamespace,
     SkipNoNamespace, SkipMalformed, SkipServerGenerated}"

lemma total_of_bump: "finite ks \<Longrightarrow> k \<in> ks \<Longrightarrow> total_of (bump m k) ks = Suc (total_of m ks)"
proof -
  assume ks: "finite ks" "k \<in> ks"
  have "total_of (bump m k) ks = (\<Sum>j \<in> ks. (if j = k then 1 else 0) + cnt m j)"
    unfolding total_of_def by (rule sum.cong) auto
  also have "\<dots> = Suc (total_of m ks)" using ks by (simp add: sum.distrib total_of_def)
  finally show ?thesis .
qed

lemma cnt_fold_bump: "cnt (fold (\<lambda>k m. bump m k) ks m) j = cnt m j + count_list ks j"
  by (induction ks arbitrary: m) auto

definition flagged :: "string \<Rightarrow> pending_op list \<Rightarrow> nat" where
  "flagged f ops = length (filter (\<lambda>p. f \<in> set (pd_flags p)) ops)"

text \<open>An operation that is written.\<close>

definition pending_ok :: "import_opts \<Rightarrow> pending_op \<Rightarrow> bool" where
  "pending_ok opts p \<longleftrightarrow> pd_op p \<in> set knownOps \<and> pd_op p \<noteq> ''transaction'' \<and> pd_ns p \<noteq> [] \<and> \<not> isSystemNamespace (pd_ns p) \<and>
     sorted (pd_flags p) \<and> distinct (pd_flags p) \<and> (io_skipGenerated opts \<longrightarrow> FlagServerGenerated \<notin> set (pd_flags p))"

definition accounts :: "import_opts \<Rightarrow> converter \<Rightarrow> bool" where
  "accounts opts c \<longleftrightarrow> cv_skipped c = total_of (cv_reasons c) skip_reasons \<and>
     (\<forall>f. cnt (cv_flagged c) f = flagged f (cv_ops c)) \<and> list_all (pending_ok opts) (cv_ops c)"

text \<open>How many entries and statements a converter has decided on.\<close>

definition decided :: "converter \<Rightarrow> nat" where
  "decided c = cv_nonops c + cv_skipped c + length (cv_ops c)"

text \<open>A step that keeps the accounts and decides on \<open>n\<close> things.\<close>

definition decides :: "import_opts \<Rightarrow> nat \<Rightarrow> converter \<Rightarrow> converter \<Rightarrow> bool" where
  "decides opts n c c' \<longleftrightarrow> accounts opts c' \<and> decided c' = decided c + n \<and> cv_entries c' = cv_entries c"

lemma skip_reasons_finite: "finite skip_reasons" by (simp add: skip_reasons_def)

lemma skip_decides: "accounts opts c \<Longrightarrow> r \<in> skip_reasons \<Longrightarrow> decides opts (Suc 0) c (skip_entry r c)"
  by (simp add: decides_def accounts_def decided_def skip_entry_def total_of_bump skip_reasons_finite)

lemma reasons [intro]:
  "SkipUnparseable \<in> skip_reasons" "SkipTruncated \<in> skip_reasons" "SkipGetMore \<in> skip_reasons" "SkipUnsupported \<in> skip_reasons"
  "SkipDuplicateWrite \<in> skip_reasons" "SkipSystemNamespace \<in> skip_reasons" "SkipNoNamespace \<in> skip_reasons"
  "SkipMalformed \<in> skip_reasons" "SkipServerGenerated \<in> skip_reasons"
  unfolding skip_reasons_def by blast+

lemma warn_decides: "decides opts n c (warn m c') = decides opts n c c'"
  by (simp add: decides_def accounts_def decided_def warn_def)

lemma unsupported_decides: "accounts opts c \<Longrightarrow> decides opts (Suc 0) c (unsupported_command w c)"
  using skip_decides [of opts c SkipUnsupported] reasons
  by (simp add: decides_def accounts_def decided_def unsupported_command_def)

lemma not_operation_decides: "accounts opts c \<Longrightarrow> decides opts (Suc 0) c (not_operation c)"
  by (simp add: decides_def accounts_def decided_def not_operation_def)

lemma from_source_same: "accounts opts (from_source s c) = accounts opts c" "decides opts n (from_source s c) c' = decides opts n c c'"
  by (simp_all add: decides_def accounts_def decided_def from_source_def)

lemma decides_trans: "decides opts m a b \<Longrightarrow> decides opts n b c \<Longrightarrow> decides opts (m + n) a c"
  by (simp add: decides_def)

lemma decides_accounts: "decides opts n c c' \<Longrightarrow> accounts opts c'"
  by (simp add: decides_def)

definition import_flags :: "string list" where
  "import_flags = [FlagServerGenerated, FlagDroppedOptions, FlagInTransaction, FlagSplitStatement, FlagFailedOnSource, FlagNoTimestamp]"

lemma op_flags_distinct: "distinct (op_flags g d t s f n)"
proof -
  have "distinct import_flags" by code_simp
  moreover have "op_flags g d t s f n = map snd (filter fst (zip [g, d, t, s, f, n] import_flags))"
    by (simp add: op_flags_def import_flags_def)
  moreover have "map snd (zip [g, d, t, s, f, n] import_flags) = import_flags" by (simp add: import_flags_def)
  ultimately show ?thesis using distinct_map_filter [of snd "zip [g, d, t, s, f, n] import_flags" fst] by simp
qed

lemma op_flags_generated: "FlagServerGenerated \<in> set (op_flags g d t s f n) \<Longrightarrow> g"
proof -
  have "FlagServerGenerated \<notin> set [FlagDroppedOptions, FlagInTransaction, FlagSplitStatement, FlagFailedOnSource, FlagNoTimestamp]"
    by code_simp
  then show "FlagServerGenerated \<in> set (op_flags g d t s f n) \<Longrightarrow> g"
    by (auto simp: op_flags_def split: if_splits)
qed

lemma count_list_distinct: "distinct xs \<Longrightarrow> count_list xs x = (if x \<in> set xs then 1 else 0)"
  by (induction xs) auto

lemma addOp_decides:
  assumes "accounts opts c" "op \<in> set knownOps" "op \<noteq> ''transaction''" "cp_ns src \<noteq> []"
  shows "decides opts (Suc 0) c (addOp env opts src op args dropped inTx gen split c)"
proof -
  let ?gen = "gen \<or> usesServerValues (GDoc args)"
  let ?flags = "op_flags ?gen (dropped \<noteq> []) inTx split (cp_failed src) (cp_ts src = None)"
  have fl: "distinct ?flags" "io_skipGenerated opts \<Longrightarrow> \<not> ?gen \<Longrightarrow> FlagServerGenerated \<notin> set ?flags"
    using op_flags_distinct op_flags_generated by blast+
  show ?thesis
  proof (cases "isSystemNamespace (cp_ns src) \<or> (?gen \<and> io_skipGenerated opts)")
    case True
    then show ?thesis using skip_decides [OF assms(1)] reasons by (auto simp: addOp_def Let_def)
  next
    case False
    show ?thesis
    proof (cases "ie_normalize env (cp_ns src) op args")
      case (Inl m)
      with False show ?thesis using skip_decides [OF assms(1) reasons(8)] by (auto simp: addOp_def Let_def warn_decides)
    next
      case (Inr r)
      obtain cmd shape where r: "r = (cmd, shape)" by fastforce
      show ?thesis
      proof (cases "ie_marshal env cmd")
        case (Inl m)
        with Inr r False show ?thesis using skip_decides [OF assms(1) reasons(8)] by (auto simp: addOp_def Let_def)
      next
        case (Inr raw)
        with \<open>ie_normalize env (cp_ns src) op args = Inr r\<close> r False assms fl show ?thesis
          by (auto simp: addOp_def Let_def decides_def accounts_def decided_def pending_ok_def flagged_def cnt_fold_bump
              count_list_distinct)
      qed
    qed
  qed
qed

lemma op_known [simp]: "''find'' \<in> set knownOps" "''aggregate'' \<in> set knownOps" "''insert'' \<in> set knownOps" "''insertMany'' \<in> set knownOps"
  "''updateOne'' \<in> set knownOps" "''updateMany'' \<in> set knownOps" "''deleteOne'' \<in> set knownOps" "''deleteMany'' \<in> set knownOps"
  by (simp_all add: knownOps_def)

lemma convert_update_decides: "accounts opts c \<Longrightarrow> cp_ns src \<noteq> [] \<Longrightarrow> decides opts (Suc 0) c (convert_update env opts src dropped inTx split s c)"
  using unsupported_decides [of opts c] unfolding convert_update_def Let_def by (auto intro!: addOp_decides)

lemma convert_delete_decides: "accounts opts c \<Longrightarrow> cp_ns src \<noteq> [] \<Longrightarrow> decides opts (Suc 0) c (convert_delete env opts src dropped inTx split s c)"
  unfolding convert_delete_def by (auto intro!: addOp_decides)

lemma fold_decides:
  assumes "\<And>x c. accounts opts c \<Longrightarrow> decides opts (Suc 0) c (f x c)" "accounts opts c"
  shows "decides opts (length xs) c (fold f xs c)"
  using assms(2)
proof (induction xs arbitrary: c)
  case (Cons x xs)
  note d = assms(1) [OF Cons.prems, of x]
  show ?case using decides_trans [OF d Cons.IH [OF decides_accounts [OF d]]] by simp
qed (simp add: decides_def)

lemma statements_decides:
  assumes "accounts opts c" "cp_ns src \<noteq> []"
  shows "decides opts (length st) c (statements env opts src verb st dropped inTx c)"
  unfolding statements_def
proof (rule fold_decides [OF _ assms(1)])
  fix x c assume "accounts opts c"
  then show "decides opts (Suc 0) c (case as_doc x of None \<Rightarrow> skip_entry SkipMalformed c
       | Some s \<Rightarrow> (if verb = ''update'' then convert_update env opts src dropped inTx (length st > 1) s c
                     else convert_delete env opts src dropped inTx (length st > 1) s c))"
    using assms(2) skip_decides reasons convert_update_decides convert_delete_decides by (simp split: option.split)
qed

text \<open>Something is decided, at least once.\<close>

definition decides_some :: "import_opts \<Rightarrow> converter \<Rightarrow> converter \<Rightarrow> bool" where
  "decides_some opts c c' \<longleftrightarrow> (\<exists>n. decides opts (Suc n) c c')"

lemma decides_some1: "decides opts (Suc 0) c c' \<Longrightarrow> decides_some opts c c'"
  unfolding decides_some_def by blast

lemma skip_some: "accounts opts c \<Longrightarrow> r \<in> skip_reasons \<Longrightarrow> decides_some opts c (skip_entry r c)"
  by (rule decides_some1) (rule skip_decides)

lemma unsupported_some: "accounts opts c \<Longrightarrow> decides_some opts c (unsupported_command w c)"
  by (rule decides_some1) (rule unsupported_decides)

lemma addOp_some:
  "accounts opts c \<Longrightarrow> op \<in> set knownOps \<Longrightarrow> op \<noteq> ''transaction'' \<Longrightarrow> cp_ns src \<noteq> [] \<Longrightarrow>
   decides_some opts c (addOp env opts src op args dropped inTx gen split c)"
  by (rule decides_some1) (rule addOp_decides)

lemma statements_some:
  "accounts opts c \<Longrightarrow> cp_ns src \<noteq> [] \<Longrightarrow> st \<noteq> [] \<Longrightarrow> decides_some opts c (statements env opts src verb st dropped inTx c)"
  using statements_decides [of opts c src st env verb dropped inTx] by (cases st) (auto simp: decides_some_def)

lemma profileStatement_some: "accounts opts c \<Longrightarrow> decides_some opts c (profileStatement env opts src verb st c)"
  by (auto simp: profileStatement_def cut_dot_def intro!: skip_some statements_some)

lemmas some_intros = skip_some unsupported_some addOp_some statements_some profileStatement_some reasons

lemma convert_command_some:
  assumes "accounts opts c" "cp_ns src \<noteq> []"
  shows "decides_some opts c (convert_command env opts src cmd verb c)"
proof -
  consider (find) "verb = ''find''" | (agg) "verb = ''aggregate''" | (ins) "verb = ''insert''"
    | (writes) "verb \<noteq> ''find''" "verb \<noteq> ''aggregate''" "verb \<noteq> ''insert''" by blast
  then show ?thesis
  proof cases
    case find
    then show ?thesis using assms unfolding convert_command_def Let_def by (simp add: addOp_some)
  next
    case agg
    then show ?thesis using assms unfolding convert_command_def Let_def
      by (auto split: option.split intro!: some_intros)
  next
    case ins
    then show ?thesis using assms unfolding convert_command_def Let_def
      by (auto split: option.split list.split intro!: some_intros)
  next
    case writes
    then show ?thesis using assms unfolding convert_command_def Let_def
      by (auto split: option.split list.split intro!: some_intros)
  qed
qed

lemma command_some: "accounts opts c \<Longrightarrow> decides_some opts c (command env opts src cmd c)"
proof (cases cmd)
  case Nil
  assume "accounts opts c"
  with Nil show ?thesis by (simp add: command_def some_intros)
next
  case (Cons e es)
  assume a: "accounts opts c"
  obtain verb coll where e: "e = (verb, coll)" by fastforce
  show ?thesis
  proof (cases "verb \<in> {''find'', ''aggregate'', ''insert'', ''update'', ''delete''}")
    case True
    then have "verb \<noteq> ''getMore''" by auto
    with True Cons e a show ?thesis unfolding command_def
      by (cases coll) (auto intro!: some_intros convert_command_some simp del: insert_iff split: if_split)
  next
    case False
    then show ?thesis using Cons e a unfolding command_def by (simp add: some_intros del: insert_iff)
  qed
qed

lemma from_source_some: "decides_some opts (from_source x c) c' = decides_some opts c c'"
  by (simp add: decides_some_def from_source_same)

lemma warn_some: "decides_some opts c (warn m c') = decides_some opts c c'"
  by (simp add: decides_some_def warn_decides)

lemma not_operation_some: "accounts opts c \<Longrightarrow> decides_some opts c (not_operation c)"
  by (rule decides_some1) (rule not_operation_decides)

lemma with_source: "accounts opts c \<Longrightarrow> (accounts opts (from_source x c) \<Longrightarrow> decides_some opts (from_source x c) c') \<Longrightarrow> decides_some opts c c'"
  by (simp add: from_source_same from_source_some)

lemma log_operation_some:
  assumes a: "accounts opts c"
  shows "decides_some opts c (log_operation env opts i d attr c)"
proof (cases "as_doc (docValue attr ''command'')")
  case None
  then show ?thesis using not_operation_some [OF a] by (simp add: log_operation_def)
next
  case (Some cmd)
  have b: "accounts opts (from_source SourceMongodLog c)" using a by (simp add: from_source_same)
  have "decides_some opts (from_source SourceMongodLog c) (log_operation env opts i d attr c)"
    unfolding log_operation_def Some Let_def
    by (simp only: option.case split: if_split) (intro conjI impI some_intros command_some b)
  then show ?thesis by (simp add: from_source_some)
qed

lemma profile_operation_some:
  assumes a: "accounts opts c"
  shows "decides_some opts c (profile_operation env opts i d c)"
proof -
  let ?c = "from_source SourceProfile c"
  have b: "accounts opts ?c" using a by (simp add: from_source_same)
  have "decides_some opts ?c (profile_operation env opts i d c)"
    unfolding profile_operation_def Let_def
    by (simp only: split: option.split if_split) (intro conjI allI impI some_intros command_some b)
  then show ?thesis by (simp add: from_source_some)
qed

lemma raw_operation_some:
  assumes a: "accounts opts c"
  shows "decides_some opts c (raw_operation env opts i d c)"
proof (cases "d = [] \<or> fst (hd d) \<notin> set knownVerbs")
  case True
  then show ?thesis using not_operation_some [OF a] by (simp only: raw_operation_def if_True)
next
  case False
  have b: "accounts opts (from_source SourceCommand c)" using a by (simp add: from_source_same)
  have "decides_some opts (from_source SourceCommand c) (raw_operation env opts i d c)"
    using False unfolding raw_operation_def Let_def
    by (simp only: if_False split: if_split) (intro conjI impI some_intros command_some b)
  then show ?thesis by (simp add: from_source_some)
qed

definition entry_inv :: "import_opts \<Rightarrow> converter \<Rightarrow> bool" where
  "entry_inv opts c \<longleftrightarrow> accounts opts c \<and> cv_entries c \<le> decided c"

lemma convert_entry_inv:
  assumes "entry_inv opts c"
  shows "entry_inv opts (convert_entry env opts i name e c) \<and> cv_entries (convert_entry env opts i name e c) = Suc (cv_entries c)"
proof -
  let ?c = "c\<lparr>cv_entries := Suc (cv_entries c)\<rparr>"
  have a: "accounts opts ?c" "decided ?c = decided c" using assms by (simp_all add: entry_inv_def accounts_def decided_def)
  have "decides_some opts ?c (convert_entry env opts i name e c)"
    unfolding convert_entry_def Let_def
    by (simp only: warn_some split: option.split if_split)
      (intro conjI allI impI some_intros a log_operation_some profile_operation_some raw_operation_some)
  then show ?thesis using assms a by (auto simp: decides_some_def decides_def entry_inv_def)
qed

lemma convert_entries_inv:
  "entry_inv opts c \<Longrightarrow> entry_inv opts (fold (convert_entry env opts i name) es c) \<and>
   cv_entries (fold (convert_entry env opts i name) es c) = cv_entries c + length es"
proof (induction es arbitrary: c)
  case (Cons e es)
  note s1 = convert_entry_inv [OF Cons.prems, of env i name e]
  show ?case using Cons.IH [OF conjunct1 [OF s1]] conjunct2 [OF s1] by simp
qed simp

definition input_entries :: "import_env \<Rightarrow> import_input \<Rightarrow> nat" where
  "input_entries env x = length (fst (ForEachEntry env (in_error x) (in_text x)))"

lemma convert_input_inv:
  assumes "entry_inv opts c"
  shows "entry_inv opts (fst (convert_input env opts i x c)) \<and> cv_entries (fst (convert_input env opts i x c)) = cv_entries c + input_entries env x"
proof -
  have "entry_inv opts (c\<lparr>cv_lastTS := 0\<rparr>)" using assms by (simp add: entry_inv_def accounts_def decided_def)
  from convert_entries_inv [OF this] show ?thesis by (simp add: convert_input_def input_entries_def split: prod.split)
qed

lemma convert_inputs_inv:
  "convert_inputs env opts i xs files c = (files', c', None) \<Longrightarrow> entry_inv opts c \<Longrightarrow>
   entry_inv opts c' \<and> cv_entries c' = cv_entries c + sum_list (map (input_entries env) xs) \<and> files' = files @ map (path_base \<circ> in_name) xs"
proof (induction xs arbitrary: i files c)
  case (Cons x xs)
  obtain c1 err where c1: "convert_input env opts i x c = (c1, err)" by fastforce
  note s1 = convert_input_inv [OF Cons.prems(2), of env i x, unfolded c1 fst_conv]
  from Cons.prems(1) c1 have "convert_inputs env opts (Suc i) xs (files @ [path_base (in_name x)]) c1 = (files', c', None)" by (cases err) simp_all
  from Cons.IH [OF this] s1 show ?case by simp
qed simp

lemma empty_converter_inv: "entry_inv opts empty_converter"
  by (simp add: entry_inv_def accounts_def decided_def empty_converter_def total_of_def flagged_def)

subsection \<open>The plan of the recording\<close>

lemma import_entry_sel [simp]:
  "en_op (import_entry conns w lo p) = pd_op p" "en_ns (import_entry conns w lo p) = pd_ns p"
  "en_flags (import_entry conns w lo p) = pd_flags p" "en_command (import_entry conns w lo p) = GBytes (pd_cmd p)"
  "en_offset (import_entry conns w lo p) = import_offset lo p" "en_path (import_entry conns w lo p) = []"
  "en_iteration (import_entry conns w lo p) = 0"
  "en_worker (import_entry conns w lo p) = int (position (pd_conn p) conns) mod w + 1"
  by (simp_all add: import_entry_def)

lemma write_plan_parts:
  assumes "write_plan env version opts rep ops = (rep', h, es)"
  defines "conns \<equiv> connections (import_order ops)"
  shows "es = map (import_entry conns (import_workers opts (length conns)) (first_start (import_order ops))) (import_order ops)"
    "h_workers h = import_workers opts (length conns)" "h_iterations h = 0"
    "\<exists>info. h_import h = Some info \<and> im_converted info = length ops \<and> im_skipped info = ip_skipped rep \<and>
       im_flagged info = ip_flagged rep \<and> im_skipped_by_reason info = ip_reasons rep"
    "ip_entries rep' = ip_entries rep" "ip_nonops rep' = ip_nonops rep" "ip_skipped rep' = ip_skipped rep"
    "ip_reasons rep' = ip_reasons rep" "ip_flagged rep' = ip_flagged rep" "ip_opsByType rep' = ip_opsByType rep"
  using assms(1) by (auto simp: write_plan_def conns_def Let_def import_header_def import_order_def)

lemma import_order_set [simp]: "set (import_order ops) = set ops" "length (import_order ops) = length ops"
  by (simp_all add: import_order_def)

lemma Convert_ready:
  assumes "Convert env version opts0 inputs = import_ready rep h es"
  obtains opts files c rep0 where "io_workers opts = io_workers opts0" "io_skipGenerated opts = io_skipGenerated opts0"
    "0 \<le> io_workers opts" "convert_inputs env opts 0 inputs [] empty_converter = (files, c, None)" "cv_ops c \<noteq> []"
    "rep0 = base_report opts files c" "write_plan env version opts rep0 (cv_ops c) = (rep, h, es)"
    "ValidCompression (io_compression opts)"
    "opts = (if io_compression opts0 = [] then opts0\<lparr>io_compression := CompressionNone\<rparr> else opts0)"
proof -
  define opts where "opts = (if io_compression opts0 = [] then opts0\<lparr>io_compression := CompressionNone\<rparr> else opts0)"
  have o1: "io_workers opts = io_workers opts0" "io_skipGenerated opts = io_skipGenerated opts0" by (simp_all add: opts_def)
  obtain files c err where c: "convert_inputs env opts 0 inputs [] empty_converter = (files, c, err)" by (metis prod_cases3)
  note u = assms [unfolded Convert_def Let_def, folded opts_def, unfolded c prod.case]
  have w: "\<not> io_workers opts < 0" by (rule notI) (use u in simp)
  note u1 = u [unfolded if_not_P [OF w]]
  have v: "ValidCompression (io_compression opts)" by (rule ccontr) (use u1 in simp)
  note u2 = u1 [unfolded not_not if_not_P [OF not_not [THEN iffD2, OF v]]]
  have e: "err = None" using u2 by (cases err) simp_all
  note u3 = u2 [unfolded e option.case]
  have n: "cv_ops c \<noteq> []" by (rule notI) (use u3 in simp)
  obtain rep1 h1 es1 where p: "write_plan env version opts (base_report opts files c) (cv_ops c) = (rep1, h1, es1)" by (metis prod_cases3)
  have "rep1 = rep" "h1 = h" "es1 = es" using u3 [unfolded if_not_P [OF n] p prod.case] by simp_all
  with p w v show thesis by (intro that [OF o1 _ c [unfolded e] n refl _ _ opts_def]) simp_all
qed

text \<open>C27: Nothing captured is dropped silently: every entry of every input is counted; each is counted as no operation, skipped
with one of the stated reasons, or becomes operations of the recording; the flags the report counts are the flags of the
operations; and no operation that is written is unknown to a replay, is on a system namespace, or, when those are to be
skipped, has values the server generates.\<close>

theorem import_accounts_for_entries:
  assumes "Convert env version opts inputs = import_ready rep h es"
  shows "ip_entries rep = sum_list (map (input_entries env) inputs) \<and>
    ip_entries rep \<le> ip_nonops rep + ip_skipped rep + length es \<and>
    ip_skipped rep = total_of (ip_reasons rep) skip_reasons \<and>
    (\<forall>f. cnt (ip_flagged rep) f = length (filter (\<lambda>e. f \<in> set (en_flags e)) es)) \<and>
    list_all (\<lambda>e. en_op e \<in> set knownOps \<and> en_op e \<noteq> ''transaction'' \<and> en_ns e \<noteq> [] \<and> \<not> isSystemNamespace (en_ns e) \<and>
      (io_skipGenerated opts \<longrightarrow> FlagServerGenerated \<notin> set (en_flags e))) es"
proof -
  obtain o1 files c rep0 where c: "io_skipGenerated o1 = io_skipGenerated opts"
      "convert_inputs env o1 0 inputs [] empty_converter = (files, c, None)"
      "rep0 = base_report o1 files c" "write_plan env version o1 rep0 (cv_ops c) = (rep, h, es)"
    using Convert_ready [OF assms] by metis
  note inv = convert_inputs_inv [OF c(2) empty_converter_inv]
  note w = write_plan_parts [OF c(4)]
  have es: "length (filter (\<lambda>e. f \<in> set (en_flags e)) es) = flagged f (cv_ops c)" for f
  proof -
    have "mset (filter (\<lambda>p. f \<in> set (pd_flags p)) (import_order (cv_ops c))) = mset (filter (\<lambda>p. f \<in> set (pd_flags p)) (cv_ops c))"
      by (simp add: import_order_def)
    from mset_eq_length [OF this] show ?thesis by (simp add: w(1) flagged_def comp_def filter_map)
  qed
  have "list_all (pending_ok o1) (import_order (cv_ops c))" using inv by (simp add: entry_inv_def accounts_def list_all_iff)
  then have "list_all (\<lambda>e. en_op e \<in> set knownOps \<and> en_op e \<noteq> ''transaction'' \<and> en_ns e \<noteq> [] \<and> \<not> isSystemNamespace (en_ns e) \<and>
      (io_skipGenerated opts \<longrightarrow> FlagServerGenerated \<notin> set (en_flags e))) es"
    by (auto simp: w(1) list_all_iff pending_ok_def c(1))
  then show ?thesis using inv w(5-9) es
    by (simp add: c(3) base_report_def entry_inv_def accounts_def decided_def w(1)) (simp add: empty_converter_def)
qed

subsection \<open>Order\<close>

definition conn_worker :: "pending_op list \<Rightarrow> int \<Rightarrow> pending_op \<Rightarrow> int" where
  "conn_worker ops workers p = int (position (pd_conn p) (connections (import_order ops))) mod workers + 1"

lemma position_less: "x \<in> set xs \<Longrightarrow> position x xs < length xs"
  by (induction xs) auto

lemma nth_position: "x \<in> set xs \<Longrightarrow> xs ! position x xs = x"
  by (induction xs) auto

lemma position_inj: "x \<in> set xs \<Longrightarrow> y \<in> set xs \<Longrightarrow> position x xs = position y xs \<longleftrightarrow> x = y"
  using nth_position by metis

lemma connections_set: "set (connections (import_order ops)) = pd_conn ` set ops"
  by (simp add: connections_def appearance_set)

lemma fold_min_le: "fold min ts t \<le> (t :: int) \<and> (\<forall>x \<in> set ts. fold min ts t \<le> x) \<and> fold min ts t \<in> insert t (set ts)"
proof (induction ts arbitrary: t)
  case (Cons x ts)
  show ?case using Cons.IH [of "min x t"] by (auto simp: min_def split: if_splits)
qed simp

lemma first_start_member: "first_start ops = Some m \<Longrightarrow> \<exists>p \<in> set ops. pd_hasTS p \<and> pd_start p = m"
proof -
  assume m: "first_start ops = Some m"
  obtain t ts where ts: "map pd_start (filter pd_hasTS ops) = t # ts" "m = fold min ts t"
    using m by (auto simp: first_start_def split: list.splits)
  have "m \<in> set (map pd_start (filter pd_hasTS ops))" unfolding ts using fold_min_le [of ts t] by simp
  then show ?thesis by auto
qed

lemma import_offset_value:
  assumes "first_start ops = Some m" "p \<in> set ops" "\<And>q. q \<in> set ops \<Longrightarrow> pd_start p - pd_start q < 2 ^ 63 div 1000"
  shows "import_offset (Some m) p = 1000 * max 0 (pd_start p - m)"
proof -
  obtain q where "q \<in> set ops" "pd_start q = m" using first_start_member [OF assms(1)] by blast
  with assms(3) have "pd_start p - m < 2 ^ 63 div 1000" by blast
  then show ?thesis by (auto simp: import_offset_def to_i64_id max_def)
qed

definition plan_start :: "pending_op list \<Rightarrow> int \<Rightarrow> int" where
  "plan_start ops d = (case first_start ops of Some m \<Rightarrow> m | None \<Rightarrow> d)"

lemma plan_workers:
  assumes plan: "write_plan env version opts rep ops = (rep', h, es)" and "ops \<noteq> []" and "0 \<le> io_workers opts"
  shows "1 \<le> h_workers h"
proof -
  have "connections (import_order ops) \<noteq> []" using assms(2) connections_set [of ops] by auto
  then show ?thesis using assms(3) by (auto simp: write_plan_parts(2) [OF plan] import_workers_def MaxWorkers_def min_def Suc_le_eq)
qed

text \<open>C28: The recording keeps the captured order: each operation is recorded once, on a worker of the header; offsets start at the
first captured time and never decrease; what a worker records are the operations of its connections by start time, in
captured order for equal times; and as long as there are not more connections than the largest number of workers, a
connection shares its worker with no other.\<close>

theorem import_keeps_order:
  assumes plan: "write_plan env version opts rep ops = (rep', h, es)" and "ops \<noteq> []" and "0 \<le> io_workers opts"
    and span: "\<And>p q. p \<in> set ops \<Longrightarrow> q \<in> set ops \<Longrightarrow> pd_start p - pd_start q < 2 ^ 63 div 1000"
  defines "worker \<equiv> conn_worker ops (h_workers h)"
  shows "length es = length ops \<and> list_all (\<lambda>e. 1 \<le> en_worker e \<and> en_worker e \<le> h_workers h) es \<and>
    map en_offset es = map (\<lambda>p. 1000 * max 0 (pd_start p - plan_start (import_order ops) (pd_start p))) (import_order ops) \<and>
    sorted (map en_offset es) \<and>
    map en_command (filter (\<lambda>e. en_worker e = w) es) = map (GBytes \<circ> pd_cmd) (sort_key pd_start (filter (\<lambda>p. worker p = w) ops)) \<and>
    (io_workers opts = 0 \<and> card (pd_conn ` set ops) \<le> MaxWorkers \<longrightarrow>
      (\<forall>p \<in> set ops. \<forall>q \<in> set ops. worker p = worker q \<longleftrightarrow> pd_conn p = pd_conn q))"
proof -
  let ?ops = "import_order ops"
  let ?conns = "connections ?ops" and ?lo = "first_start ?ops"
  note w = write_plan_parts [OF plan]
  have es: "es = map (import_entry ?conns (h_workers h) ?lo) ?ops" using w(1,2) by simp
  have conns: "distinct ?conns" "set ?conns = pd_conn ` set ops"
    by (simp_all add: connections_def appearance_distinct appearance_set)
  then have n: "length ?conns = card (pd_conn ` set ops)" by (metis distinct_card)
  have pos: "1 \<le> h_workers h" by (rule plan_workers [OF plan assms(2,3)])
  have workers: "list_all (\<lambda>e. 1 \<le> en_worker e \<and> en_worker e \<le> h_workers h) es"
    using pos by (auto simp: es list_all_iff pos_mod_bound zle_iff_zadd [symmetric] add1_zle_eq)
  have offs: "map en_offset es = map (\<lambda>p. 1000 * max 0 (pd_start p - plan_start ?ops (pd_start p))) ?ops"
  proof -
    have "import_offset ?lo p = 1000 * max 0 (pd_start p - plan_start ?ops (pd_start p))" if "p \<in> set ops" for p
    proof (cases ?lo)
      case None
      then show ?thesis by (simp add: import_offset_def plan_start_def)
    next
      case (Some m)
      then show ?thesis using import_offset_value [OF Some, of p] that span by (simp add: plan_start_def)
    qed
    then show ?thesis by (simp add: es)
  qed
  have "sorted (map en_offset es)"
  proof (cases ?lo)
    case None
    then show ?thesis by (simp add: offs plan_start_def map_replicate_const)
  next
    case (Some m)
    have "sorted (map pd_start ?ops)" by (simp add: import_order_def)
    then have "sorted (map (\<lambda>t. 1000 * max 0 (t - m)) (map pd_start ?ops))" by (rule sorted_map_mono) (auto intro!: mono_onI)
    then show ?thesis by (simp add: offs plan_start_def Some comp_def)
  qed
  moreover have "map en_command (filter (\<lambda>e. en_worker e = w) es) = map (GBytes \<circ> pd_cmd) (sort_key pd_start (filter (\<lambda>p. worker p = w) ops))"
    by (simp add: es filter_map comp_def worker_def conn_worker_def import_order_def flip: filter_sort)
  moreover have "worker p = worker q \<longleftrightarrow> pd_conn p = pd_conn q"
    if "io_workers opts = 0" "card (pd_conn ` set ops) \<le> MaxWorkers" "p \<in> set ops" "q \<in> set ops" for p q
  proof -
    have "h_workers h = int (length ?conns)" using that(1,2) by (simp add: w(2) import_workers_def n)
    moreover have "position (pd_conn x) ?conns < length ?conns" if "x \<in> set ops" for x using that conns(2) by (intro position_less) simp
    ultimately show ?thesis using that(3,4) conns(2) position_inj [of "pd_conn p" ?conns "pd_conn q"]
      by (simp add: worker_def conn_worker_def)
  qed
  ultimately show ?thesis using workers offs by (simp add: es)
qed

subsection \<open>Replaying what was imported\<close>

lemma decodeFind_batch: "decodeFind cmd r0 = Inr r \<Longrightarrow> - (2 ^ 31) \<le> rq_findBatch r \<and> rq_findBatch r < 2 ^ 31"
  using to_i32_range by (auto simp: decodeFind_def Let_def split: option.splits if_splits)

lemma decodeStandard_wf:
  assumes d: "decodeStandard op ex args col = Inr r"
  shows "wf_request r"
proof -
  note t = decodeStandard_type [OF d]
  consider "op = ''find''" | "op = ''aggregate''" | "is_update op" | "is_delete op" | "op = ''insert''" | "op = ''insertMany''"
    using d by (auto simp: decodeStandard_def Let_def split: if_splits)
  then show ?thesis
  proof cases
    case 1
    then have "decodeFind args (empty_request op col ex) = Inr r" using d by (simp add: decodeStandard_def Let_def)
    with 1 t decodeFind_batch show ?thesis unfolding wf_request_def by blast
  next
    case 2
    then have "is_array (rq_pipeline r)" using d by (auto simp: decodeStandard_def Let_def is_array_def split: gval.splits)
    with 2 t show ?thesis unfolding wf_request_def by blast
  next
    case 5
    then have "rq_doc r \<noteq> GNil" using d by (auto simp: decodeStandard_def Let_def split: if_splits)
    with 5 t show ?thesis unfolding wf_request_def by blast
  qed (use t in \<open>auto simp only: wf_request_def\<close>)
qed


subsection \<open>The file of an import\<close>

text \<open>The line the recorder writes for an entry, but for its sequence numbers.\<close>

definition sent_line :: "codec \<Rightarrow> entry \<Rightarrow> op_line" where
  "sent_line co e = core (e\<lparr>en_cmd := (case EncodeCommand co (en_command e) of Inr cmd \<Rightarrow> cmd | Inl _ \<Rightarrow> []), en_command := GNil\<rparr>)"

lemma core_worker [simp]: "ol_worker (core e) = en_worker e" "ol_worker (op_core op) = ol_worker op" "ol_worker (sent_line co e) = en_worker e"
  by (simp_all add: core_def op_core_def sent_line_def)

lemma same_by_worker:
  fixes xs ys :: "op_line list"
  assumes "\<And>w. filter (\<lambda>x. ol_worker x = w) xs = filter (\<lambda>x. ol_worker x = w) ys"
  shows "mset xs = mset ys"
proof (rule multiset_eqI)
  fix x
  have "count (mset zs) x = count (mset (filter (\<lambda>y. ol_worker y = ol_worker x) zs)) x" for zs :: "op_line list"
    by (simp del: count_mset)
  then show "count (mset xs) x = count (mset ys) x" using assms by metis
qed

lemma file_by_worker: "in_file w r = filter (\<lambda>x. ol_worker x = w) (map op_core (file_ops (r_lines r)))"
  by (simp add: in_file_def worker_ops_def filter_map comp_def)

lemma op_wf_core: "op_wf (op_core op) = op_wf op"
  by (simp add: op_wf_def op_core_def)

lemma sent_line_wf:
  assumes "1 \<le> en_worker e" "en_op e \<in> set knownOps" "en_ns e \<noteq> []" "en_path e = []" "EncodeCommand co (en_command e) = Inr (CHR 0x7B # cmd)"
  shows "op_wf (sent_line co e)"
  using assms by (simp add: op_wf_def sent_line_def core_def entry_line_def)

lemma Close_lines:
  assumes "Close co cfg None None r = (res, r1)" "r_broken r = None" "co_trailer co (close_trailer co cfg r) = Inr n"
  shows "file_ops (r_lines r1) = file_ops (r_lines r)" "rr_ops res = r_ops r" "rr_status res = tr_status (close_trailer co cfg r)"
  using assms Close_ok [of r co cfg n] by auto

text \<open>C26: An import leaves a file its own check accepts: when the recorder has taken every entry of the plan, in the order of each
worker, and never stopped, closing it without an I/O error leaves a recording that scans as complete, with one operation
per entry, and \<open>Convert\<close> reports success and that number. The encoder writes a document as text in braces; lines are
within the reader's limit.\<close>

theorem imported_recording_scans:
  assumes imp: "Convert env version opts inputs = import_ready rep h es"
    and new: "NewRecorder co ex io now path ropts h = Inr (cfg, r0)"
    and reach: "rec_reach co cfg (h_iterations h) r0 s"
    and sent: "\<And>w. s_sent s w = map (Some \<circ> sent_line co) (filter (\<lambda>e. en_worker e = w) es)"
    and fin: "quiescent s" "r_state (s_rec s) = StateRecording"
    and close: "Close co cfg None None (s_rec s) = (res, r1)"
    and ok: "r_broken (s_rec s) = None" "co_trailer co (close_trailer co cfg (s_rec s)) = Inr tlen"
    and text1: "\<And>e. e \<in> set es \<Longrightarrow> \<exists>cmd. co_extjson co (en_command e) = Inr (CHR 0x7B # cmd)"
    and len: "\<And>l. l \<in> set (r_lines r1) \<Longrightarrow> rl_len l \<le> MaxLineBytes"
  shows "\<exists>info. Scan (saved cfg r1) = Inr info \<and> fi_status info = StatusComplete \<and> fi_ops info = length es \<and>
    snd (finish_import path rep es res (Scan (saved cfg r1))) = None \<and>
    ip_converted (fst (finish_import path rep es res (Scan (saved cfg r1)))) = length es"
proof -
  obtain o1 ops rep0 where o1: "io_skipGenerated o1 = io_skipGenerated opts" "0 \<le> io_workers o1" "ops \<noteq> []"
      "write_plan env version o1 rep0 ops = (rep, h, es)" "list_all (pending_ok o1) ops" "ip_opsByType rep = Map.empty"
  proof (rule Convert_ready [OF imp])
    fix o2 files c rep1
    assume c: "io_workers o2 = io_workers opts" "io_skipGenerated o2 = io_skipGenerated opts" "0 \<le> io_workers o2"
      "convert_inputs env o2 0 inputs [] empty_converter = (files, c, None)" "cv_ops c \<noteq> []" "rep1 = base_report o2 files c"
      "write_plan env version o2 rep1 (cv_ops c) = (rep, h, es)"
    have "list_all (pending_ok o2) (cv_ops c)"
      using convert_inputs_inv [OF c(4) empty_converter_inv] by (simp add: entry_inv_def accounts_def)
    moreover have "ip_opsByType rep = Map.empty" using write_plan_parts(10) [OF c(7)] by (simp add: c(6) base_report_def)
    ultimately show thesis using that c by blast
  qed
  note w = write_plan_parts [OF o1(4)]
  have wf: "op_wf (sent_line co e)" if e: "e \<in> set es" for e
  proof -
    obtain p where p: "p \<in> set ops" "e = import_entry (connections (import_order ops)) (h_workers h) (first_start (import_order ops)) p"
      using e unfolding w(1) w(2) [symmetric] by auto
    have "pending_ok o1 p" using o1(5) p(1) by (auto simp: list_all_iff)
    moreover have "1 \<le> h_workers h" by (rule plan_workers [OF o1(4,3,2)])
    moreover obtain cmd where "co_extjson co (en_command e) = Inr (CHR 0x7B # cmd)" using text1 [OF e] by blast
    ultimately show ?thesis by (intro sent_line_wf [of e co cmd]) (simp_all add: p pending_ok_def EncodeCommand_def)
  qed
  have inv: "recorder_inv cfg (h_iterations h) r0 s" by (rule recorder_inv_reach [OF new reach])
  then have "s_sent s w = map Some (in_file w (s_rec s))" for w
    using fin by (simp add: recorder_inv_def order_inv_def quiescent_def)
  then have "map (sent_line co) (filter (\<lambda>e. en_worker e = w) es) = in_file w (s_rec s)" for w
    using sent [of w] by (simp add: inj_map_eq_map flip: map_map)
  then have "mset (map op_core (file_ops (r_lines (s_rec s)))) = mset (map (sent_line co) es)"
    by (intro same_by_worker) (simp add: in_file_def worker_ops_def filter_map comp_def)
  note sets = mset_eq_setD [OF this] and lens = mset_eq_length [OF this]
  note cl = Close_lines [OF close ok]
  have "op_wf op" if "op \<in> set (file_ops (r_lines r1))" for op
  proof -
    have "op_core op \<in> set (map (sent_line co) es)" using that sets by (auto simp: cl(1))
    with wf have "op_wf (op_core op)" by auto
    then show ?thesis by (simp add: op_wf_core)
  qed
  then obtain info where info: "Scan (saved cfg r1) = Inr info" "fi_status info = rr_status res" "fi_ops info = rr_ops res"
    using file_scans [OF new reach close ok] len by blast
  have "rr_ops res = length es" using inv lens by (simp add: cl(2) recorder_inv_def seq_inv_def Let_def)
  moreover have "rr_status res = StatusComplete" using fin(2) by (simp add: cl(3))
  ultimately show ?thesis using info by (simp add: finish_import_def Let_def)
qed

subsection \<open>Samples\<close>

definition sample_import_env :: import_env where
  "sample_import_env = \<lparr>ie_array = (\<lambda>_. ([''a''], None)), ie_parse = (\<lambda>_. Some [(''find'', GStr ''c''), (''$db'', GStr ''d'')]),
     ie_micros = (\<lambda>_. None), ie_binary = (\<lambda>_. None), ie_normalize = (\<lambda>_ _ args. Inr (args, None)), ie_marshal = (\<lambda>_. Inr ''r''),
     ie_rfc3339 = (\<lambda>_. [])\<rparr>"

definition sample_import_opts :: import_opts where
  "sample_import_opts = \<lparr>io_workers = 0, io_database = [], io_compression = CompressionNone, io_skipGenerated = True\<rparr>"

definition sample_import_input :: import_input where
  "sample_import_input = \<lparr>in_name = ''f'', in_error = None, in_text = ''[''\<rparr>"

definition sample_pending :: pending_op where
  "sample_pending = \<lparr>pd_start = 0, pd_hasTS = False, pd_conn = conn_of 0 [], pd_ns = ''d.c'', pd_op = ''find'', pd_ok = True,
     pd_flags = [FlagNoTimestamp], pd_cmd = ''r'', pd_shape = None\<rparr>"

lemma sample_find_args: "find_args [(''find'', GStr ''c''), (''$db'', GStr ''d'')] = [(''filter'', GDoc []), (''limit'', GInt64 0), (''batchSize'', GInt64 0)]"
  by (simp add: find_args_def number_or_0_def number_def docOr_def set_option_def)

lemma sample_not_generated: "\<not> usesServerValues (GDoc [(''filter'', GDoc []), (''limit'', GInt64 0), (''batchSize'', GInt64 0)])"
  by (simp add: usesServerValues.simps)

lemma sample_not_system: "\<not> isSystemNamespace ''d.c''" by code_simp

lemma sample_addOp:
  "cv_ops (addOp sample_import_env sample_import_opts \<lparr>cp_ns = ''d.c'', cp_conn = conn_of 0 [], cp_ts = None, cp_failed = False\<rparr> ''find''
     [(''filter'', GDoc []), (''limit'', GInt64 0), (''batchSize'', GInt64 0)] [] False False False c) =
   cv_ops c @ [sample_pending\<lparr>pd_start := cv_lastTS c\<rparr>]"
  by (simp add: addOp_def sample_not_system sample_not_generated sample_import_env_def sample_pending_def op_flags_def)

lemma sample_extra: "extraOptions [(''find'', GStr ''c''), (''$db'', GStr ''d'')] ''find'' [''filter'', ''projection'', ''sort'', ''hint'', ''skip'', ''limit'', ''batchSize''] = []"
  by code_simp

lemma sample_entry_ops:
  "cv_ops (convert_entry sample_import_env sample_import_opts 0 name (''a'', n) c) = cv_ops c @ [sample_pending\<lparr>pd_start := cv_lastTS c\<rparr>]"
proof -
  have "ie_parse sample_import_env ''a'' = Some [(''find'', GStr ''c''), (''$db'', GStr ''d'')]" by (simp add: sample_import_env_def)
  moreover have "as_doc (docValue [(''find'', GStr ''c''), (''$db'', GStr ''d'')] ''attr'') = None" by (simp add: as_doc_def)
  moreover have "\<not> containsKey (GDoc [(''find'', GStr ''c''), (''$db'', GStr ''d'')]) ''$truncated''" by (simp add: containsKey.simps)
  moreover have "''find'' \<in> set knownVerbs" by (simp add: knownVerbs_def)
  moreover have "sessionID sample_import_env [(''find'', GStr ''c''), (''$db'', GStr ''d'')] = []" by (simp add: sessionID_def as_doc_def)
  moreover have "command_db sample_import_opts \<lparr>cp_ns = [], cp_conn = conn_of 0 [], cp_ts = None, cp_failed = False\<rparr>
      [(''find'', GStr ''c''), (''$db'', GStr ''d'')] = ''d''" by (simp add: command_db_def as_str_def)
  ultimately show ?thesis
    by (simp add: convert_entry_def raw_operation_def command_def convert_command_def sample_find_args sample_addOp sample_extra from_source_def)
qed

lemma sample_convert:
  obtains rep h where "Convert sample_import_env [] sample_import_opts [sample_import_input] =
    import_ready rep h [import_entry [conn_of 0 []] 1 None sample_pending]" "h_iterations h = 0"
proof -
  have "ForEachEntry sample_import_env None ''['' = ([(''a'', 1)], None)"
    by (simp add: ForEachEntry_def sample_import_env_def space_byte_def is_space_def)
  then obtain c where c: "convert_inputs sample_import_env sample_import_opts 0 [sample_import_input] [] empty_converter = ([''f''], c, None)"
      "cv_ops c = [sample_pending]"
    by (simp add: convert_input_def sample_import_input_def path_base_def sample_entry_ops)
       (simp add: empty_converter_def sample_pending_def)
  obtain rep h es where p: "write_plan sample_import_env [] sample_import_opts (base_report sample_import_opts [''f''] c) [sample_pending] = (rep, h, es)"
    by (metis prod_cases3)
  from write_plan_parts(1) [OF this] have "es = [import_entry [conn_of 0 []] 1 None sample_pending]"
    by (simp add: import_order_def connections_def import_workers_def sample_import_opts_def MaxWorkers_def first_start_def sample_pending_def)
  with p c show thesis
    by (intro that [of rep h, OF _ write_plan_parts(3) [OF p]]) (simp add: Convert_def sample_import_opts_def ValidCompression_def CompressionNone_def)
qed

theorem import_accounts_for_entries_witness:
  "\<exists>rep h es. Convert sample_import_env [] sample_import_opts [sample_import_input] = import_ready rep h es \<and>
     ip_entries rep \<le> ip_nonops rep + ip_skipped rep + length es \<and> es \<noteq> []"
proof -
  obtain rep h where c: "Convert sample_import_env [] sample_import_opts [sample_import_input] =
    import_ready rep h [import_entry [conn_of 0 []] 1 None sample_pending]" by (rule sample_convert)
  show ?thesis using import_accounts_for_entries [OF c] c by blast
qed

theorem import_keeps_order_witness:
  "\<exists>rep h es. write_plan sample_import_env [] sample_import_opts (base_report sample_import_opts [] empty_converter)
     [sample_pending\<lparr>pd_start := 7, pd_hasTS := True\<rparr>, sample_pending\<lparr>pd_start := 5, pd_hasTS := True\<rparr>] = (rep, h, es) \<and>
   sorted (map en_offset es) \<and> length es = 2"
proof -
  let ?ops = "[sample_pending\<lparr>pd_start := 7, pd_hasTS := True\<rparr>, sample_pending\<lparr>pd_start := 5, pd_hasTS := True\<rparr>]"
  obtain rep h es where p: "write_plan sample_import_env [] sample_import_opts (base_report sample_import_opts [] empty_converter) ?ops = (rep, h, es)"
    by (metis prod_cases3)
  have "\<And>p q. p \<in> set ?ops \<Longrightarrow> q \<in> set ?ops \<Longrightarrow> pd_start p - pd_start q < 2 ^ 63 div 1000" by auto
  moreover have "?ops \<noteq> []" "0 \<le> io_workers sample_import_opts" by (simp_all add: sample_import_opts_def)
  ultimately have "sorted (map en_offset es)" "length es = length ?ops" using import_keeps_order [OF p, of 0] by blast+
  with p show ?thesis by auto
qed


text \<open>A recorder that takes one entry and writes it.\<close>

lemma one_entry_run:
  assumes "en_iteration e = 0" "r_state r0 = StateRecording" "r_queue r0 = []" "\<not> rc_multi cfg" "0 < rc_queue_size cfg"
    "EncodeCommand co (en_command e) = Inr cmd"
  defines "e1 \<equiv> e\<lparr>en_cmd := cmd, en_command := GNil\<rparr>"
  shows "rec_reach co cfg its r0 ((init_rsys r0)\<lparr>s_rec := write_entry co cfg None e1 r0, s_sent := (\<lambda>_. [])(en_worker e := [Some (core e1)])\<rparr>)"
proof -
  let ?R = "rec_reach co cfg its r0" and ?i = "init_rsys r0" and ?w = "en_worker e"
  let ?sent = "(\<lambda>_. [])(?w := [Some (core e1)])"
  have q: "r0\<lparr>r_queue := []\<rparr> = r0" using assms(3) by (cases r0) simp
  have "?R (?i\<lparr>s_rec := r0, s_pending := (s_pending ?i)(?w := Some e1), s_sent := (s_sent ?i)(?w := s_sent ?i ?w @ [map_option core (Some e1)])\<rparr>)"
    by (rule rec_reach.step [OF rec_reach.init], rule rec_step.enter [where e = e])
      (simp_all add: init_rsys_def Record_prepare_def assms)
  then have "?R (?i\<lparr>s_pending := (\<lambda>_. None)(?w := Some e1), s_sent := ?sent\<rparr>)" by (simp add: init_rsys_def)
  from rec_reach.step [OF this rec_step.send [where w = ?w and e = e1 and r' = "enqueue e1 r0"]]
  have "?R (?i\<lparr>s_rec := enqueue e1 r0, s_sent := ?sent\<rparr>)"
    using assms(3,5) by (simp add: init_rsys_def Record_send_def queue_full_def enqueue_def)
  from rec_reach.step [OF this rec_step.take [where e = e1 and q = "[]"]]
  have "?R (?i\<lparr>s_rec := r0, s_cur := Some e1, s_sent := ?sent\<rparr>)"
    using assms(2,3) q by (simp add: init_rsys_def enqueue_def Active_def)
  from rec_reach.step [OF this rec_step.put [where e = e1 and io = None]]
  show ?thesis by (simp add: init_rsys_def)
qed

definition sample_recorder_options :: rec_options where
  "sample_recorder_options = \<lparr>op_max_bytes = 0, op_queue_size = 65536, op_backpressure = ''block'', op_compression = ''none''\<rparr>"

theorem imported_recording_scans_witness:
  "\<exists>rep h es cfg r1 info. Convert sample_import_env [] sample_import_opts [sample_import_input] = import_ready rep h es \<and>
     Scan (saved cfg r1) = Inr info \<and> fi_ops info = length es \<and> length es = 1"
proof -
  let ?e = "import_entry [conn_of 0 []] 1 None sample_pending"
  obtain rep h where c: "Convert sample_import_env [] sample_import_opts [sample_import_input] = import_ready rep h [?e]"
    and it: "h_iterations h = 0" by (rule sample_convert)
  define hd1 where "hd1 = record_header sample_recorder_options ''now'' h"
  define cfg where "cfg = rec_config_of ''p'' sample_recorder_options hd1"
  define r0 where "r0 = empty_recorder\<lparr>r_lines := [header_raw 300 ''hh'' hd1], r_bytes := 300\<rparr>"
  define e1 where "e1 = ?e\<lparr>en_cmd := [CHR 0x7B, CHR 0x7D], en_command := GNil\<rparr>"
  have new: "NewRecorder sample_codec Absent None ''now'' ''p'' (import_recorder_options sample_import_opts) h = Inr (cfg, r0)"
    by (simp add: NewRecorder_def normalize_options_def import_recorder_options_def sample_import_opts_def DefaultQueueSize_def
        ValidCompression_def CompressionNone_def checkOverwrite_def checkOverwriteOf_def sample_codec_def r0_def cfg_def hd1_def
        rec_config_of_def sample_recorder_options_def Let_def)
  have cfg: "\<not> rc_multi cfg" "0 < rc_queue_size cfg" "rc_max_bytes cfg = 0"
    by (simp_all add: cfg_def hd1_def rec_config_of_def sample_recorder_options_def record_header_def it Let_def)
  have r0: "r_state r0 = StateRecording" "r_queue r0 = []" "r_broken r0 = None" "r_lines r0 = [header_raw 300 ''hh'' hd1]" "r_ops r0 = 0"
    by (simp_all add: r0_def empty_recorder_def)
  let ?s = "(init_rsys r0)\<lparr>s_rec := write_entry sample_codec cfg None e1 r0, s_sent := (\<lambda>_. [])(en_worker ?e := [Some (core e1)])\<rparr>"
  have enc: "EncodeCommand sample_codec (en_command ?e) = Inr [CHR 0x7B, CHR 0x7D]" by (simp add: EncodeCommand_def sample_codec_def)
  have reach: "rec_reach sample_codec cfg (h_iterations h) r0 ?s"
    unfolding e1_def by (rule one_entry_run [OF _ r0(1,2) cfg(1,2) enc]) simp
  have written: "write_entry sample_codec cfg None e1 r0 = write_commit cfg 100 (entry_line (r_seq r0 + 1) (cnt (r_worker_seq r0) (en_worker e1) + 1) e1) e1
      (r0\<lparr>r_seq := r_seq r0 + 1, r_worker_seq := (r_worker_seq r0)(en_worker e1 \<mapsto> cnt (r_worker_seq r0) (en_worker e1) + 1)\<rparr>)"
    using cfg(3) r0(3) by (simp add: write_entry_def sample_codec_def writer_error_def Let_def)
  have rec: "r_broken (s_rec ?s) = None" "r_state (s_rec ?s) = StateRecording" "r_queue (s_rec ?s) = []"
    "r_lines (s_rec ?s) = [header_raw 300 ''hh'' hd1, op_raw 100 [] (entry_line (r_seq r0 + 1) (cnt (r_worker_seq r0) (en_worker e1) + 1) e1)]"
    by (simp_all add: written r0)
  have tr: "co_trailer sample_codec t = Inr 200" for t by (simp add: sample_codec_def)
  obtain res r1 where cl: "Close sample_codec cfg None None (s_rec ?s) = (res, r1)" by fastforce
  then have lines: "r_lines r1 = r_lines (s_rec ?s) @ [trailer_raw 200 [] (close_trailer sample_codec cfg (s_rec ?s))]"
    using Close_ok [OF rec(1) tr, of cfg] by auto
  have sent: "s_sent ?s w = map (Some \<circ> sent_line sample_codec) (filter (\<lambda>e. en_worker e = w) [?e])" for w
    using enc by (simp add: sent_line_def e1_def)
  have quiet: "quiescent ?s" using rec(3) by (simp add: quiescent_def init_rsys_def)
  have braces: "\<exists>cmd. co_extjson sample_codec (en_command e) = Inr (CHR 0x7B # cmd)" for e by (simp add: sample_codec_def)
  have short: "rl_len l \<le> MaxLineBytes" if "l \<in> set (r_lines r1)" for l
    using that unfolding lines rec(4) by (auto simp: raw_defs MaxLineBytes_def)
  show ?thesis
    using imported_recording_scans [OF c new reach sent quiet rec(2) cl rec(1) tr braces short] c by fastforce
qed

end
