(* ===== verification/ReplayShapes.thy ===== *)
theory ReplayShapes
  imports Execute CompareOps
begin

text \<open>
  What a replay checks and reports besides its operations (\<open>internal/mongo/workload_replay.go\<close>): how the configuration
  differs from the recording, how late operations start, and the shape it writes into outcome files.
\<close>

subsection \<open>Mismatches\<close>

definition workloadNamespaces :: "string option \<Rightarrow> collection_ref list \<Rightarrow> string list" where
  "workloadNamespaces db cs = sort (remdups (map (collectionNamespace db) cs))"

text \<open>\<open>ch\<close> and \<open>qh\<close> are the hashes of the configured definitions, None when they cannot be computed.\<close>

definition replayMismatches :: "header \<Rightarrow> string option \<Rightarrow> collection_ref list \<Rightarrow> string option \<Rightarrow> string option \<Rightarrow> string list" where
  "replayMismatches h db cs ch qh =
     (if h_import h \<noteq> None then []
      else
        (if ch \<noteq> Some (h_collections_hash h) then [''collection definitions differ from the recording (collections_hash)''] else [])
        @ (if qh \<noteq> Some (h_queries_hash h) then [''query definitions differ from the recording (queries_hash)''] else [])
        @ (let got = workloadNamespaces db cs; want = h_namespaces h in
           if join_with '','' got \<noteq> join_with '','' want
           then [''namespaces differ from the recording (recorded '' @ join_with '', '' want @ '', configured '' @ join_with '', '' got @ '')'']
           else []))"

lemma workloadNamespaces_set: "set (workloadNamespaces db cs) = collectionNamespace db ` set cs \<and> sorted (workloadNamespaces db cs) \<and>
    distinct (workloadNamespaces db cs)"
  by (simp add: workloadNamespaces_def)

text \<open>A recording replays without a mismatch on the configuration it was recorded with.\<close>

lemma no_mismatch_on_same_configuration:
  assumes "h_namespaces h = workloadNamespaces db cs" "set cs' = set cs"
  shows "replayMismatches h db cs' (Some (h_collections_hash h)) (Some (h_queries_hash h)) = []"
proof -
  have "workloadNamespaces db cs' = workloadNamespaces db cs"
    using assms(2) by (auto simp: workloadNamespaces_def sorted_list_of_set_sort_remdups [symmetric] simp del: sorted_list_of_set_sort_remdups)
  then show ?thesis using assms(1) by (simp add: replayMismatches_def)
qed

subsection \<open>Lag\<close>

record replay_lag =
  lag_max :: int
  lag_total :: int
  lag_n :: nat

definition lag_add :: "int \<Rightarrow> replay_lag \<Rightarrow> replay_lag" where
  "lag_add d0 l = (let d = (if d0 < 0 then 0 else d0) in
     l\<lparr>lag_max := (if d > lag_max l then d else lag_max l), lag_total := lag_total l + d, lag_n := Suc (lag_n l)\<rparr>)"

text \<open>The largest and the summed lag of all operations, whatever order the workers add them in.\<close>

lemma lag_add_max: "lag_add d l = l\<lparr>lag_max := max (max 0 d) (lag_max l), lag_total := lag_total l + max 0 d, lag_n := Suc (lag_n l)\<rparr>"
  by (simp add: lag_add_def Let_def max_def)

lemma lag_totals:
  "fold lag_add ds l = \<lparr>lag_max = fold max (map (max 0) ds) (lag_max l), lag_total = lag_total l + sum_list (map (max 0) ds),
      lag_n = lag_n l + length ds\<rparr>" for l :: replay_lag
proof (induction ds arbitrary: l)
  case (Cons d ds)
  show ?case unfolding fold_simps Cons.IH by (simp add: lag_add_max)
qed simp

subsection \<open>Shapes of outcome lines\<close>

definition replayShapeKey :: "(string \<Rightarrow> decode_error + document) \<Rightarrow> op_line \<Rightarrow> string" where
  "replayShapeKey dec op =
     (case ol_shape op of
        Some s \<Rightarrow> s_key s
      | None \<Rightarrow>
          (if ol_path op = PathFastInsertBatch then fastInsertShapeKey
           else if ol_op op = ''transaction'' then transactionShapeKey
           else if ol_path op = PathFastFind then
             (case dec (ol_cmd op) of Inl _ \<Rightarrow> []
              | Inr cmd \<Rightarrow> (case decodeFastFind cmd of Inl _ \<Rightarrow> [] | Inr (_, _, limit) \<Rightarrow> fastFindShapeKey limit))
           else []))"

text \<open>The key a comparison gives an operation of a recording is the one its replay writes when the operation has a shape, is a
batch of fast inserts or a transaction. It is another one for every fast find: those are recorded without a shape.\<close>

lemma shape_keys_agree:
  "ol_shape op \<noteq> None \<or> ol_path op = PathFastInsertBatch \<or> (ol_op op = ''transaction'' \<and> ol_path op = []) \<Longrightarrow> recordingShapeKey op = replayShapeKey dec op"
  by (auto simp: recordingShapeKey_def replayShapeKey_def fastInsertShapeKey_def transactionShapeKey_def not_fast(3) [symmetric] split: option.split)

lemma shape_keys_of_fast_finds_differ:
  assumes "ol_shape op = None" "ol_path op = PathFastFind" "ol_op op = ''find''"
  shows "recordingShapeKey op = ''find|fast_find'' \<and> recordingShapeKey op \<noteq> replayShapeKey dec op"
  using assms unfolding recordingShapeKey_def replayShapeKey_def PathFastFind_def PathFastInsertBatch_def fastFindShapeKey_def
  by (simp split: sum.split)

end
