(* ===== verification/IndexAdvice.thy ===== *)
theory IndexAdvice
  imports SchemaInferProofs
begin

text \<open>
  Index advice (\<open>internal/stats/index_advice.go\<close>, the decoding of \<open>internal/webui/indexes.go\<close>): the indexes a collection
  has, what a captured query asks for, the key order proposed for it, and which deployed index already serves it. A Go map
  is the list of its entries in the order of its iteration; a set of names is a list of which only the members count.
\<close>

subsection \<open>Data\<close>

record key_spec =
  ks_field :: string
  ks_dir :: int
  ks_kind :: string
  ks_role :: string

record partial_pred =
  pr_field :: string
  pr_op :: string
  pr_value :: string

record deployed_index =
  di_name :: string
  di_keys :: "key_spec list"
  di_type :: string
  di_unique :: bool
  di_sparse :: bool
  di_hidden :: bool
  di_partial :: bool
  di_partialSummary :: string
  di_collation :: string
  di_multikey :: "bool option"
  di_preds :: "partial_pred list"

record ns_inventory =
  ni_ns :: string
  ni_status :: string
  ni_reason :: string
  ni_source :: string
  ni_indexes :: "deployed_index list"

record inventory_view =
  iv_status :: string
  iv_reason :: string
  iv_requested :: nat
  iv_fetched :: nat
  iv_namespaces :: "ns_inventory list"

record predicate_profile =
  pp_source :: string
  pp_eq :: "string list"
  pp_range :: "string list"
  pp_sort :: "key_spec list"
  pp_sortKnown :: bool
  pp_unsupported :: "string list"
  pp_lookup :: bool
  pp_in :: bool
  pp_eqValue :: "string \<rightharpoonup> string"

record selectivity =
  se_field :: string
  se_count :: "int option"
  se_source :: string

record candidate_plan =
  pl_determined :: bool
  pl_reason :: string
  pl_keys :: "key_spec list"
  pl_eq :: "string list"
  pl_residual :: "string list"
  pl_unsupported :: "string list"
  pl_source :: string

subsection \<open>The inventory\<close>

definition CanonicalPredicateValue :: "gval \<Rightarrow> string option" where
  "CanonicalPredicateValue v =
     (case v of
        GStr s \<Rightarrow> Some (''s:'' @ s)
      | GBool b \<Rightarrow> Some (if b then ''b:true'' else ''b:false'')
      | GInt n \<Rightarrow> Some (''i:'' @ itoa n) | GInt32 n \<Rightarrow> Some (''i:'' @ itoa n) | GInt64 n \<Rightarrow> Some (''i:'' @ itoa n)
      | GFloat x \<Rightarrow> if x = of_int (float_to_int x) then Some (''i:'' @ itoa (float_to_int x)) else None
      | _ \<Rightarrow> None)"

text \<open>An error of the driver: whether it is a deadline or a cancellation, and its text.\<close>

definition has_text :: "string \<Rightarrow> string \<Rightarrow> bool" where
  "has_text sub s \<longleftrightarrow> sublist sub s"

definition ClassifyIndexListFailure :: "(bool \<times> bool \<times> string) option \<Rightarrow> string" where
  "ClassifyIndexListFailure err =
     (case err of
        None \<Rightarrow> []
      | Some (deadline, cancelled, msg0) \<Rightarrow>
          (let msg = to_lower msg0 in
           if deadline then ''timeout''
           else if cancelled then ''context_canceled''
           else if has_text ''not authorized'' msg \<or> has_text ''unauthorized'' msg then ''permission_denied''
           else if has_text ''ns does not exist'' msg \<or> has_text ''namespace not found'' msg \<or> has_text ''namespace does not exist'' msg
             then ''namespace_not_found''
           else ''list_indexes_failed''))"

text \<open>The reason of a context that has ended: its deadline or its cancellation.\<close>

definition contextFailureReason :: "bool \<Rightarrow> string" where
  "contextFailureReason deadline = (if deadline then ''timeout'' else ''context_canceled'')"

definition indexInventoryMaxNamespaces :: nat where "indexInventoryMaxNamespaces = 32"

definition indexListSource :: string where "indexListSource = ''listIndexes''"

definition unknownNamespace :: "string \<Rightarrow> string \<Rightarrow> ns_inventory" where
  "unknownNamespace ns reason = \<lparr>ni_ns = ns, ni_status = ''unknown'', ni_reason = reason, ni_source = indexListSource, ni_indexes = []\<rparr>"

definition dedupeNamespaces :: "string list \<Rightarrow> string list" where
  "dedupeNamespaces nss = appearance [] (filter (\<lambda>s. s \<noteq> []) (map trim_space nss))"

text \<open>One namespace: \<open>failed\<close> is the reason of a context that has ended before the call.\<close>

definition list_namespace :: "(string \<Rightarrow> ns_inventory) \<Rightarrow> (nat \<Rightarrow> string option) \<Rightarrow> nat \<Rightarrow> string \<Rightarrow> ns_inventory" where
  "list_namespace lister failed i ns =
     (case failed i of
        Some reason \<Rightarrow> unknownNamespace ns reason
      | None \<Rightarrow>
         (let v = (lister ns)\<lparr>ni_ns := ns\<rparr>; v = (if ni_source v = [] then v\<lparr>ni_source := indexListSource\<rparr> else v) in
          if ni_status v \<noteq> ''fetched''
          then v\<lparr>ni_status := ''unknown'', ni_reason := (if ni_reason v = [] then ''list_indexes_failed'' else ni_reason v), ni_indexes := []\<rparr>
          else v))"

definition inventory_status :: "ns_inventory list \<Rightarrow> string" where
  "inventory_status nss =
     (let n = length (filter (\<lambda>x. ni_status x = ''fetched'') nss) in
      if n = length nss \<and> nss \<noteq> [] then ''ready'' else if n = 0 then ''unknown'' else ''partial'')"

text \<open>\<open>collectIndexInventory\<close>; \<open>maxNS\<close> 0 is no limit.\<close>

definition collectIndexInventory :: "(string \<Rightarrow> ns_inventory) \<Rightarrow> (nat \<Rightarrow> string option) \<Rightarrow> nat \<Rightarrow> string list \<Rightarrow> inventory_view" where
  "collectIndexInventory lister failed maxNS namespaces =
     (let all1 = dedupeNamespaces namespaces; n = (if 0 < maxNS \<and> maxNS < length all1 then maxNS else length all1);
          nss = map (\<lambda>(i, ns). list_namespace lister failed i ns) (enumerate 0 (take n all1))
            @ map (\<lambda>ns. unknownNamespace ns ''inventory_namespace_budget'') (drop n all1)
      in if all1 = [] then \<lparr>iv_status = ''not_run'', iv_reason = ''no_explained_namespaces'', iv_requested = 0, iv_fetched = 0, iv_namespaces = []\<rparr>
         else \<lparr>iv_status = inventory_status nss, iv_reason = [], iv_requested = length all1,
           iv_fetched = length (filter (\<lambda>x. ni_status x = ''fetched'') nss), iv_namespaces = nss\<rparr>)"

definition UnknownIndexInventory :: "string list \<Rightarrow> string \<Rightarrow> inventory_view" where
  "UnknownIndexInventory nss reason0 =
     (let reason = (if reason0 = [] then ''not_fetched'' else reason0) in
      (collectIndexInventory (\<lambda>_. \<lparr>ni_ns = [], ni_status = ''unknown'', ni_reason = reason, ni_source = [], ni_indexes = []\<rparr>)
         (\<lambda>_. None) indexInventoryMaxNamespaces nss)\<lparr>iv_reason := reason\<rparr>)"

definition SplitNamespace :: "string \<Rightarrow> (string \<times> string) option" where
  "SplitNamespace namespace =
     (let ns = trim_space namespace; d = takeWhile (\<lambda>c. c \<noteq> CHR ''.'') ns; c = tl (dropWhile (\<lambda>c. c \<noteq> CHR ''.'') ns) in
      if d = [] \<or> c = [] then None else Some (d, c))"

subsection \<open>Decoding a listed index\<close>

text \<open>The fields of a document of \<open>listIndexes\<close>, as \<open>bson.Unmarshal\<close> reads them.\<close>

record listed_index =
  li_name :: string
  li_key :: document
  li_unique :: "bool option"
  li_sparse :: "bool option"
  li_hidden :: "bool option"
  li_partial :: "document option"
  li_locale :: string
  li_multikey :: "bool option"

definition dirKey :: "string \<Rightarrow> int \<Rightarrow> key_spec" where
  "dirKey field dir = \<lparr>ks_field = field, ks_dir = dir,
     ks_kind = (if dir = 1 then ''asc'' else if dir = -1 then ''desc'' else ''unknown''), ks_role = []\<rparr>"

definition keyFromRaw :: "string \<times> gval \<Rightarrow> key_spec" where
  "keyFromRaw e =
     (case snd e of GInt32 n \<Rightarrow> dirKey (fst e) n | GInt64 n \<Rightarrow> dirKey (fst e) n | GFloat x \<Rightarrow> dirKey (fst e) (float_to_int x)
      | GStr s \<Rightarrow> \<lparr>ks_field = fst e, ks_dir = 0, ks_kind = s, ks_role = []\<rparr>
      | _ \<Rightarrow> \<lparr>ks_field = fst e, ks_dir = 0, ks_kind = ''unknown'', ks_role = []\<rparr>)"

definition deployedIndexType :: "key_spec list \<Rightarrow> string" where
  "deployedIndexType keys =
     (case filter (\<lambda>k. ks_kind k \<noteq> ''asc'' \<and> ks_kind k \<noteq> ''desc'') keys of
        [] \<Rightarrow> ''btree'' | [k] \<Rightarrow> if length keys = 1 then ks_kind k else ''compound_special'' | _ \<Rightarrow> ''compound_special'')"

definition canonicalRaw :: "gval \<Rightarrow> string option" where
  "canonicalRaw v =
     (case v of GStr _ \<Rightarrow> CanonicalPredicateValue v | GBool _ \<Rightarrow> CanonicalPredicateValue v | GInt32 _ \<Rightarrow> CanonicalPredicateValue v
      | GInt64 _ \<Rightarrow> CanonicalPredicateValue v | GFloat _ \<Rightarrow> CanonicalPredicateValue v | _ \<Rightarrow> None)"

text \<open>The predicates of one element of a partial filter.\<close>

definition partial_element :: "string \<times> gval \<Rightarrow> partial_pred list" where
  "partial_element e =
     (if has_prefix ''$'' (fst e) then []
      else case snd e of
        GDoc sub \<Rightarrow> concat (map (\<lambda>op. if has_prefix ''$'' (fst op)
            then [\<lparr>pr_field = fst e, pr_op = fst op, pr_value = (case canonicalRaw (snd op) of Some t \<Rightarrow> t | None \<Rightarrow> [])\<rparr>] else []) sub)
      | v \<Rightarrow> (case canonicalRaw v of Some t \<Rightarrow> [\<lparr>pr_field = fst e, pr_op = ''eq'', pr_value = t\<rparr>] | None \<Rightarrow> []))"

definition decodePartialFilter :: "document \<Rightarrow> partial_pred list \<times> string" where
  "decodePartialFilter d =
     (let ps = concat (map partial_element d) in
      (ps, join_with '','' (map (\<lambda>p. pr_field p @ '':'' @ (if pr_op p = ''eq'' then ''$eq'' else pr_op p)) ps)))"

definition decodeListedIndex :: "listed_index \<Rightarrow> deployed_index" where
  "decodeListedIndex l =
     (let keys = map keyFromRaw (li_key l); p = (case li_partial l of Some d \<Rightarrow> decodePartialFilter d | None \<Rightarrow> ([], [])) in
      \<lparr>di_name = li_name l, di_keys = keys, di_type = deployedIndexType keys, di_unique = (li_unique l = Some True),
       di_sparse = (li_sparse l = Some True), di_hidden = (li_hidden l = Some True), di_partial = (li_partial l \<noteq> None),
       di_partialSummary = snd p, di_collation = li_locale l, di_multikey = li_multikey l, di_preds = fst p\<rparr>)"

subsection \<open>What a query asks for\<close>

definition empty_profile :: predicate_profile where
  "empty_profile = \<lparr>pp_source = [], pp_eq = [], pp_range = [], pp_sort = [], pp_sortKnown = False, pp_unsupported = [],
     pp_lookup = False, pp_in = False, pp_eqValue = Map.empty\<rparr>"

definition unsupported1 :: "string \<Rightarrow> predicate_profile \<Rightarrow> predicate_profile" where
  "unsupported1 s p = p\<lparr>pp_unsupported := pp_unsupported p @ [s]\<rparr>"

definition equality :: "string \<Rightarrow> string \<Rightarrow> predicate_profile \<Rightarrow> predicate_profile" where
  "equality field token p = p\<lparr>pp_eq := field # pp_eq p, pp_eqValue := (pp_eqValue p)(field \<mapsto> token)\<rparr>"

definition operatorDoc :: "document \<Rightarrow> bool" where
  "operatorDoc m \<longleftrightarrow> m \<noteq> [] \<and> list_all (\<lambda>e. has_prefix ''$'' (fst e)) m"

definition classify_op :: "string \<Rightarrow> string \<times> gval \<Rightarrow> predicate_profile \<Rightarrow> predicate_profile" where
  "classify_op field e p =
     (if fst e = ''$comment'' then p
      else if fst e = ''$eq'' then
        (case CanonicalPredicateValue (snd e) of Some t \<Rightarrow> equality field t p | None \<Rightarrow> unsupported1 ''$eq'' p)
      else if fst e \<in> {''$gt'', ''$gte'', ''$lt'', ''$lte''} then p\<lparr>pp_range := field # pp_range p\<rparr>
      else if fst e = ''$in'' then p\<lparr>pp_in := True, pp_eq := field # pp_eq p\<rparr>
      else unsupported1 (fst e) p)"

definition classifyField :: "string \<Rightarrow> gval \<Rightarrow> predicate_profile \<Rightarrow> predicate_profile" where
  "classifyField field v p =
     (case v of
        GMap m \<Rightarrow> if operatorDoc m then fold (classify_op field) m p else unsupported1 ''embedded_document'' p
      | _ \<Rightarrow> (case CanonicalPredicateValue v of Some t \<Rightarrow> equality field t p | None \<Rightarrow> unsupported1 ''unsupported_value'' p))"

definition classify_member :: "string \<times> gval \<Rightarrow> predicate_profile \<Rightarrow> predicate_profile" where
  "classify_member e p =
     (if fst e = ''$and'' \<or> fst e = ''$comment'' then p
      else if has_prefix ''$'' (fst e) then unsupported1 (fst e) p
      else classifyField (fst e) (snd e) p)"

lemma map_of_size [termination_simp]: "map_of m k = Some v \<Longrightarrow> size v < Suc (size_list (size_prod (\<lambda>_. 0) size) m)"
  by (rule gval_entry_size) (rule map_of_SomeD)

function classifyFilter :: "gval \<Rightarrow> predicate_profile \<Rightarrow> predicate_profile"
  and classify_items :: "gval list \<Rightarrow> predicate_profile \<Rightarrow> predicate_profile" where
  "classifyFilter v p =
     (case v of
        GMap m \<Rightarrow>
          fold classify_member m
            (case map_of m ''$and'' of
               None \<Rightarrow> p | Some (GSlice xs) \<Rightarrow> classify_items xs p | Some _ \<Rightarrow> unsupported1 ''$and'' p)
      | _ \<Rightarrow> p)"
| "classify_items [] p = p"
| "classify_items (x # xs) p = classify_items xs (classifyFilter x p)"
  by pat_completeness auto
termination
  by (relation "measure (case_sum (\<lambda>(v, _). size v) (\<lambda>(xs, _). size_list size xs))") (auto dest: map_of_size)

declare classifyFilter.simps [simp del]

definition scalarDirection :: "gval \<Rightarrow> int option" where
  "scalarDirection v =
     (let unit = (\<lambda>n. if n = 1 \<or> n = -1 then Some n else None) in
      case v of GInt n \<Rightarrow> unit n | GInt32 n \<Rightarrow> unit n | GInt64 n \<Rightarrow> unit n
      | GFloat x \<Rightarrow> if x = 1 then Some 1 else if x = -1 then Some (-1) else None | _ \<Rightarrow> None)"

definition directionKey :: "string \<times> gval \<Rightarrow> key_spec option" where
  "directionKey e = map_option (\<lambda>n. \<lparr>ks_field = fst e, ks_dir = n, ks_kind = (if n < 0 then ''desc'' else ''asc''), ks_role = ''sort''\<rparr>)
     (scalarDirection (snd e))"

fun sequence_opt :: "'a option list \<Rightarrow> 'a list option" where
  "sequence_opt [] = Some []"
| "sequence_opt (x # xs) = (case (x, sequence_opt xs) of (Some a, Some as) \<Rightarrow> Some (a # as) | _ \<Rightarrow> None)"

text \<open>The keys of a sort whose order is defined: an ordered document, or a map of at most one entry.\<close>

definition sortKeysFromValue :: "gval \<Rightarrow> key_spec list option" where
  "sortKeysFromValue v =
     (case v of GDoc d \<Rightarrow> sequence_opt (map directionKey d)
      | GMap m \<Rightarrow> if length m \<le> 1 then sequence_opt (map directionKey m) else None
      | _ \<Rightarrow> None)"

text \<open>One stage; the flag is set once documents have been reduced.\<close>

definition profile_stage :: "gval \<Rightarrow> bool \<times> predicate_profile \<Rightarrow> bool \<times> predicate_profile" where
  "profile_stage st rp =
     (case rp of (reduced, p) \<Rightarrow>
      (case st of
         GMap [(name, body)] \<Rightarrow>
           (if name = ''$match'' then (reduced, if reduced then unsupported1 ''match_after_reduction'' p else classifyFilter body p)
            else if name = ''$sort'' then
              (reduced, if reduced then unsupported1 ''sort_after_reduction'' p
                 else (case sortKeysFromValue body of
                    Some keys \<Rightarrow> p\<lparr>pp_sort := keys, pp_sortKnown := True\<rparr>
                  | None \<Rightarrow> unsupported1 ''sort_key_order_undefined'' (p\<lparr>pp_sort := [], pp_sortKnown := False\<rparr>)))
            else if name \<in> {''$group'', ''$bucket'', ''$bucketAuto'', ''$sortByCount''} then (True, p)
            else if name = ''$facet'' then (True, unsupported1 ''$facet'' p)
            else if name = ''$lookup'' then (reduced, p\<lparr>pp_lookup := True\<rparr>)
            else (reduced, p))
       | _ \<Rightarrow> (reduced, unsupported1 ''unreadable_stage'' p)))"

definition profilePipeline :: "gval list \<Rightarrow> predicate_profile \<Rightarrow> predicate_profile" where
  "profilePipeline pipe p = snd (fold profile_stage pipe (False, p))"

definition finishProfile :: "predicate_profile \<Rightarrow> predicate_profile" where
  "finishProfile p = p\<lparr>pp_eq := sortedKeys (pp_eq p), pp_range := sortedKeys (pp_range p),
     pp_unsupported := sortedKeys (filter (\<lambda>s. s \<noteq> []) (pp_unsupported p))\<rparr>"

text \<open>A captured query: its filter and its pipeline.\<close>

definition ProfileQuery :: "(gval \<times> gval list) option \<Rightarrow> predicate_profile" where
  "ProfileQuery q =
     (let p = empty_profile\<lparr>pp_source := ''captured_query''\<rparr> in
      case q of
        None \<Rightarrow> p\<lparr>pp_unsupported := [''query_not_captured'']\<rparr>
      | Some (filt, pipe) \<Rightarrow> finishProfile (if pipe \<noteq> [] then profilePipeline pipe p else classifyFilter filt p))"

end
