(* ===== verification/IndexPlan.thy ===== *)
theory IndexPlan
  imports IndexAdvice CompareReport
begin

text \<open>
  The key order proposed for a predicate and the match of deployed indexes against it (\<open>internal/stats/index_advice.go\<close>,
  \<open>deriveCandidate\<close> to \<open>compactNotes\<close>). A slice expression is \<open>take\<close> or \<open>drop\<close> under the length test that guards it; the one
  nil pointer the code can follow (\<open>orderEquality\<close>) is None.
\<close>

subsection \<open>The proposed keys\<close>

text \<open>The evidence that counts, its source, and None when two sources meet.\<close>

fun evidence :: "selectivity list \<Rightarrow> string \<Rightarrow> (string \<times> int) list \<Rightarrow> (string \<times> (string \<times> int) list) option" where
  "evidence [] source byField = Some (source, byField)"
| "evidence (s # sel) source byField =
     (case se_count s of
        None \<Rightarrow> evidence sel source byField
      | Some n \<Rightarrow>
          if trim_space (se_source s) = [] then evidence sel source byField
          else (let src = (if source = [] then se_source s else source) in
            if se_source s \<noteq> src then None
            else evidence sel src (filter (\<lambda>e. fst e \<noteq> se_field s) byField @ [(se_field s, n)])))"

text \<open>Whether the counts of the fields differ; None when a field has no evidence, where the code follows a nil pointer.\<close>

fun unique_counts :: "(string \<times> int) list \<Rightarrow> int list \<Rightarrow> string list \<Rightarrow> bool option" where
  "unique_counts byField counts [] = Some True"
| "unique_counts byField counts (f # fs) =
     (case map_of byField f of
        None \<Rightarrow> None
      | Some c \<Rightarrow> if c \<in> set counts then Some False else unique_counts byField (c # counts) fs)"

definition undetermined :: "string list \<times> string \<times> string" where
  "undetermined = ([], ''equality_order_undetermined'', [])"

definition orderEquality :: "string list \<Rightarrow> selectivity list \<Rightarrow> (string list \<times> string \<times> string) option" where
  "orderEquality fs sel =
     (if length fs \<le> 1 then Some (fs, [], [])
      else case evidence sel [] [] of
        None \<Rightarrow> Some undetermined
      | Some (source, byField) \<Rightarrow>
          if length byField \<noteq> length fs then Some undetermined
          else (case unique_counts byField [] fs of
            None \<Rightarrow> None
          | Some ok \<Rightarrow> if \<not> ok then Some undetermined else Some (sort_key (\<lambda>f. the (map_of byField f)) fs, [], source)))"

text \<open>The one range field that is also a sort field: None when there are two.\<close>

fun sorted_range :: "string list \<Rightarrow> string \<Rightarrow> string list \<Rightarrow> string option" where
  "sorted_range sortFields r [] = Some r"
| "sorted_range sortFields r (f # fs) =
     (if f \<in> set sortFields then (if r \<noteq> [] then None else sorted_range sortFields f fs) else sorted_range sortFields r fs)"

text \<open>The range key and the residual ranges, or the residual ranges of the refusal.\<close>

definition range_choice :: "string list \<Rightarrow> string list \<Rightarrow> string list + string \<times> string list" where
  "range_choice sortFields ranges =
     (case ranges of
        [] \<Rightarrow> Inr ([], [])
      | [f] \<Rightarrow> Inr (f, [])
      | _ \<Rightarrow> (case sorted_range sortFields [] ranges of
                None \<Rightarrow> Inl []
              | Some r \<Rightarrow> if r = [] then Inl ranges else Inr (r, filter (\<lambda>f. f \<noteq> r) ranges)))"

definition equality_key :: "string \<Rightarrow> key_spec" where
  "equality_key f = \<lparr>ks_field = f, ks_dir = 1, ks_kind = ''asc'', ks_role = ''equality''\<rparr>"

definition range_key :: "string \<Rightarrow> key_spec" where
  "range_key f = \<lparr>ks_field = f, ks_dir = 1, ks_kind = ''asc'', ks_role = ''range''\<rparr>"

text \<open>A sort key follows unless its field has a key already.\<close>

definition add_sort_key :: "key_spec \<Rightarrow> key_spec list \<Rightarrow> key_spec list" where
  "add_sort_key k keys = (if ks_field k \<in> ks_field ` set keys then keys else keys @ [k\<lparr>ks_role := ''sort''\<rparr>])"

definition plan_keys :: "string list \<Rightarrow> key_spec list \<Rightarrow> string \<Rightarrow> key_spec list" where
  "plan_keys eqOrder sortKeys rangeField =
     (let keys = fold add_sort_key sortKeys (map equality_key eqOrder) in
      keys @ (if rangeField \<noteq> [] \<and> rangeField \<notin> ks_field ` set keys then [range_key rangeField] else []))"

definition deriveCandidate :: "predicate_profile \<Rightarrow> selectivity list \<Rightarrow> candidate_plan option" where
  "deriveCandidate p sel =
     (let eq = sort (pp_eq p);
          refuse = (\<lambda>reason residual unsup. \<lparr>pl_determined = False, pl_reason = reason, pl_keys = [], pl_eq = eq,
            pl_residual = residual, pl_unsupported = unsup, pl_source = []\<rparr>)
      in if pp_unsupported p \<noteq> [] then Some (refuse ''unsupported_pattern'' [] (pp_unsupported p))
         else if pp_sort p \<noteq> [] \<and> \<not> pp_sortKnown p then Some (refuse ''sort_key_order_undefined'' [] [''sort_key_order_undefined''])
         else case range_choice (map ks_field (pp_sort p)) (sort (pp_range p)) of
           Inl residual \<Rightarrow> Some (refuse ''multiple_ranges'' residual [])
         | Inr (rangeField, residual) \<Rightarrow>
             (case orderEquality eq sel of
                None \<Rightarrow> None
              | Some (eqOrder, reason, src) \<Rightarrow>
                  Some (if reason \<noteq> [] then refuse reason residual []
                    else \<lparr>pl_determined = True, pl_reason = (if src \<noteq> [] then ''selectivity'' else ''equality_sort_range''),
                      pl_keys = plan_keys eqOrder (pp_sort p) rangeField, pl_eq = eq, pl_residual = residual, pl_unsupported = [],
                      pl_source = src\<rparr>)))"

definition formatKey :: "key_spec \<Rightarrow> string" where
  "formatKey k =
     ks_field k @ (if ks_kind k = ''asc'' then '':1'' else if ks_kind k = ''desc'' then '':-1''
       else if ks_kind k = [] then (if ks_dir k < 0 then '':-1'' else '':1'') else '':'' @ ks_kind k)"

definition formatKeys :: "key_spec list \<Rightarrow> string" where
  "formatKeys ks = join_with '','' (map formatKey ks)"

subsection \<open>Which index serves a plan\<close>

definition btreeKind :: "string \<Rightarrow> bool" where
  "btreeKind kind \<longleftrightarrow> kind = ''asc'' \<or> kind = ''desc'' \<or> kind = []"

definition flip_key :: "key_spec \<Rightarrow> key_spec" where
  "flip_key k = (if 0 < ks_dir k then k\<lparr>ks_dir := -1, ks_kind := ''desc''\<rparr>
     else if ks_dir k < 0 then k\<lparr>ks_dir := 1, ks_kind := ''asc''\<rparr> else k)"

definition flipKeys :: "key_spec list \<Rightarrow> key_spec list" where "flipKeys = map flip_key"

definition sameFieldNames :: "key_spec list \<Rightarrow> string list \<Rightarrow> bool" where
  "sameFieldNames ks fs \<longleftrightarrow> length ks = length fs \<and> list_all (\<lambda>k. btreeKind (ks_kind k)) ks \<and> sort (map ks_field ks) = sort fs"

definition serveForward :: "key_spec list \<Rightarrow> key_spec list \<Rightarrow> bool" where
  "serveForward index candidate \<longleftrightarrow>
     (let eq = length (takeWhile (\<lambda>k. ks_role k = ''equality'') candidate) in
      (eq = 0 \<or> sameFieldNames (take eq index) (map ks_field (take eq candidate)))
      \<and> list_all (\<lambda>(ik, ck). ks_field ik = ks_field ck \<and> ks_dir ik = ks_dir ck \<and> btreeKind (ks_kind ik) \<and> btreeKind (ks_kind ck))
          (zip (drop eq index) (drop eq candidate)))"

definition keysServe :: "key_spec list \<Rightarrow> key_spec list \<Rightarrow> bool" where
  "keysServe index candidate \<longleftrightarrow>
     candidate \<noteq> [] \<and> length candidate \<le> length index \<and> (serveForward index candidate \<or> serveForward (flipKeys index) candidate)"

definition planTail :: "candidate_plan \<Rightarrow> predicate_profile \<Rightarrow> key_spec list" where
  "planTail p pred =
     (if pl_determined p then filter (\<lambda>k. ks_role k \<noteq> ''equality'') (pl_keys p)
      else map (\<lambda>k. k\<lparr>ks_role := ''sort''\<rparr>) (pp_sort pred))"

definition leadingSetAndTail :: "key_spec list \<Rightarrow> string list \<Rightarrow> key_spec list \<Rightarrow> bool" where
  "leadingSetAndTail index eq tail \<longleftrightarrow>
     length eq + length tail \<le> length index \<and> sameFieldNames (take (length eq) index) eq
     \<and> list_all (\<lambda>(ik, tk). ks_field ik = ks_field tk \<and> ks_dir ik = ks_dir tk \<and> btreeKind (ks_kind ik)) (zip (drop (length eq) index) tail)"

definition hashed_serves :: "deployed_index \<Rightarrow> candidate_plan \<Rightarrow> bool" where
  "hashed_serves idx plan \<longleftrightarrow>
     (case (pl_keys plan, di_keys idx) of
        ([c], [k]) \<Rightarrow> ks_role c = ''equality'' \<and> ks_kind k = ''hashed'' \<and> ks_field k = ks_field c
      | _ \<Rightarrow> False)"

definition indexCouldServe :: "deployed_index \<Rightarrow> candidate_plan \<Rightarrow> predicate_profile \<Rightarrow> bool" where
  "indexCouldServe idx plan pred \<longleftrightarrow>
     (if pl_determined plan then hashed_serves idx plan \<or> keysServe (di_keys idx) (pl_keys plan)
      else pl_reason plan = ''equality_order_undetermined'' \<and> pl_eq plan \<noteq> []
        \<and> (leadingSetAndTail (di_keys idx) (pl_eq plan) (planTail plan pred)
           \<or> leadingSetAndTail (flipKeys (di_keys idx)) (pl_eq plan) (planTail plan pred)))"

definition sharesField :: "deployed_index \<Rightarrow> candidate_plan \<Rightarrow> bool" where
  "sharesField idx plan \<longleftrightarrow> list_ex (\<lambda>k. ks_field k \<in> set (pl_eq plan) \<or> ks_field k \<in> ks_field ` set (pl_keys plan)) (di_keys idx)"

definition specialType :: "deployed_index \<Rightarrow> bool" where
  "specialType idx \<longleftrightarrow>
     list_ex (\<lambda>k. ks_kind k \<noteq> [] \<and> \<not> btreeKind (ks_kind k) \<and> ks_kind k \<noteq> ''hashed'') (di_keys idx)
     \<or> (di_type idx \<noteq> [] \<and> di_type idx \<noteq> ''btree'' \<and> di_type idx \<noteq> ''hashed'')"

definition collationOK :: "string \<Rightarrow> bool" where
  "collationOK locale0 \<longleftrightarrow> (let l = to_lower (trim_space locale0) in l = [] \<or> l = ''simple'')"

definition partialProven :: "deployed_index \<Rightarrow> predicate_profile \<Rightarrow> bool" where
  "partialProven idx pred \<longleftrightarrow>
     \<not> di_partial idx \<or>
     (di_preds idx \<noteq> [] \<and>
      list_all (\<lambda>q. (pr_op q = ''eq'' \<or> pr_op q = ''$eq'') \<and>
        (case pp_eqValue pred (pr_field q) of None \<Rightarrow> False | Some t \<Rightarrow> t \<noteq> [] \<and> t = pr_value q)) (di_preds idx))"

definition multikeyBlocks :: "deployed_index \<Rightarrow> candidate_plan \<Rightarrow> string" where
  "multikeyBlocks idx plan =
     (let hasSort = list_ex (\<lambda>k. ks_role k = ''sort'' \<or> ks_role k = ''range'') (pl_keys plan) in
      if di_multikey idx = Some True
      then (if hasSort then ''multikey_sort'' else if 1 < length (di_keys idx) then ''multikey_compound'' else [])
      else [])"

definition evaluateIndex :: "deployed_index \<Rightarrow> candidate_plan \<Rightarrow> predicate_profile \<Rightarrow> bool \<times> string" where
  "evaluateIndex idx plan pred =
     (if \<not> indexCouldServe idx plan pred then
        (False, if specialType idx \<and> sharesField idx plan then ''unsupported_type''
                else if sharesField idx plan then ''shared_field_only'' else ''not_a_prefix'')
      else if di_hidden idx then (False, ''hidden'')
      else if \<not> collationOK (di_collation idx) then (False, ''collation'')
      else if \<not> partialProven idx pred then (False, ''partial_not_proven'')
      else if multikeyBlocks idx plan \<noteq> [] then (False, multikeyBlocks idx plan)
      else (True, ''suitable''))"

subsection \<open>The notes\<close>

definition indexKindLabel :: "deployed_index \<Rightarrow> string" where
  "indexKindLabel idx =
     (case filter (\<lambda>k. \<not> btreeKind (ks_kind k) \<and> ks_kind k \<noteq> []) (di_keys idx) of [] \<Rightarrow> ''unknown'' | k # _ \<Rightarrow> ks_kind k)"

definition indexRejectNote :: "deployed_index \<Rightarrow> string \<Rightarrow> string" where
  "indexRejectNote idx reason =
     (let n = ''Index '' @ di_name idx in
      if reason = ''hidden'' then n @ '' matches this predicate but is hidden, so the planner will not use it. This report does not suggest unhiding or dropping it.''
      else if reason = ''shared_field_only'' then n @ '' shares a field with this predicate but its key prefix does not cover it. A shared field is not coverage.''
      else if reason = ''collation'' then n @ '' has collation '' @ go_quote (di_collation idx) @ ''. Query collation was not captured, so the index is not treated as suitable.''
      else if reason = ''partial_not_proven'' then n @ '' is partial and this predicate was not shown to imply its filter, so it is not treated as coverage.''
      else if reason = ''multikey_sort'' then n @ '' is multikey and is not treated as providing this sort.''
      else if reason = ''multikey_compound'' then n @ '' is multikey across more than one key and is not treated as coverage.''
      else if reason = ''unsupported_type'' then n @ '' is type '' @ emptyFallback (di_type idx) (indexKindLabel idx) @ '' and is not coverage for this predicate.''
      else [])"

definition compactNotes :: "string list \<Rightarrow> string list" where
  "compactNotes ns = appearance [] (filter (\<lambda>n. n \<noteq> []) ns)"

definition suitable_notes :: "deployed_index \<Rightarrow> string list" where
  "suitable_notes idx =
     (if di_sparse idx then [''Index '' @ di_name idx @ '' is sparse. Documents missing the indexed field are omitted; this equality or range predicate requires the field to be present.''] else [])
     @ (if di_multikey idx = None then [''listIndexes did not report whether '' @ di_name idx @ '' is multikey. That is not a claim that the index is not multikey.''] else [])
     @ (if di_partial idx then [''Index '' @ di_name idx @ '' is partial. The captured equality predicate matches its filter fields; confirm the filter still includes this query.''] else [])"

fun match_indexes :: "deployed_index list \<Rightarrow> candidate_plan \<Rightarrow> predicate_profile \<Rightarrow> deployed_index option \<times> string list" where
  "match_indexes [] plan pred = (None, [])"
| "match_indexes (idx # idxs) plan pred =
     (case evaluateIndex idx plan pred of
        (True, _) \<Rightarrow> (Some idx, suitable_notes idx)
      | (False, reason) \<Rightarrow> (case match_indexes idxs plan pred of (found, notes) \<Rightarrow> (found, indexRejectNote idx reason # notes)))"

definition matchInventory :: "ns_inventory \<Rightarrow> candidate_plan \<Rightarrow> predicate_profile \<Rightarrow> deployed_index option \<times> string list" where
  "matchInventory nsi plan pred = (case match_indexes (ni_indexes nsi) plan pred of (found, notes) \<Rightarrow> (found, compactNotes notes))"

end
