(* ===== verification/Efficiency.thy ===== *)
theory Efficiency
  imports IndexAdvice GoFloat CompareReport
begin

text \<open>
  Scan efficiency (\<open>internal/stats/efficiency.go\<close>) and the parts of an explain (\<open>internal/stats/insights.go\<close>) it reads. A float64
  is the rational it stands for, rounded to 53 bits after each operation (GoFloat.thy); \<open>lg\<close> is \<open>math.Log10\<close>, whose last bit
  Go leaves to the platform.
\<close>

subsection \<open>An explain\<close>

record explain_counter =
  ec_value :: int
  ec_source :: string
  ec_lower :: bool

record plan_metrics =
  pm_layout :: string
  pm_shards :: int
  pm_docs :: "explain_counter option"
  pm_keys :: "explain_counter option"
  pm_returned :: "explain_counter option"
  pm_access :: "explain_counter option"
  pm_matched :: "explain_counter option"
  pm_unsupported :: string
  pm_notes :: "string list"

record plan_diagnostics =
  dg_db :: string
  dg_expected :: bool
  dg_stats :: bool
  dg_indexes :: "string list"
  dg_collscan :: bool
  dg_ixscan :: bool
  dg_fetch :: bool
  dg_group :: bool
  dg_blocking :: bool
  dg_disk :: bool
  dg_docs :: int
  dg_keys :: int
  dg_nreturned :: int
  dg_nmatched :: int
  dg_metrics :: "plan_metrics option"
  dg_diagnosis :: string

record plan_sample =
  ps_role :: string
  ps_status :: string
  ps_reason :: string
  ps_shared :: bool
  ps_diag :: "plan_diagnostics option"

subsection \<open>The assessment\<close>

record eff_dimension =
  ed_name :: string
  ed_applicable :: bool
  ed_value :: "rat option"
  ed_penalty :: "rat option"
  ed_missing :: string
  ed_note :: string
  ed_source :: string

record eff_sample =
  es_role :: string
  es_status :: string
  es_reason :: string
  es_score :: "int option"
  es_upper :: bool
  es_band :: string
  es_limiting :: string
  es_layout :: string
  es_dims :: "eff_dimension list"
  es_obs :: "string list"
  es_evidence :: "string list"
  es_approx :: bool
  es_sharded :: bool
  es_notes :: "string list"

record query_efficiency =
  qe_status :: string
  qe_reason :: string
  qe_score :: "int option"
  qe_upper :: bool
  qe_band :: string
  qe_confidence :: string
  qe_basis :: string
  qe_limiting :: string
  qe_determining :: string
  qe_selected :: nat
  qe_rated :: nat
  qe_partial :: nat
  qe_disagree :: bool
  qe_dims :: "eff_dimension list"
  qe_observations :: "string list"
  qe_samples :: "eff_sample list"
  qe_scope :: string
  qe_limitations :: "string list"

text \<open>The finding of a shape is its diagnosis and its confidence, which is what index advice reads.\<close>

record coverage_shape =
  xs_id :: string
  xs_ns :: string
  xs_operation :: string
  xs_status :: string
  xs_reason :: string
  xs_selectedBy :: string
  xs_evidence :: string
  xs_scope :: string
  xs_samples :: "plan_sample list"
  xs_finding :: "(string \<times> string) option"
  xs_efficiency :: "query_efficiency option"
  xs_predicates :: "predicate_profile option"

definition EfficiencyRated :: string where "EfficiencyRated = ''rated''"

definition EfficiencyPartial :: string where "EfficiencyPartial = ''partial''"

definition EfficiencyUnassessed :: string where "EfficiencyUnassessed = ''unassessed''"

definition EfficiencyNotApplicable :: string where "EfficiencyNotApplicable = ''not_applicable''"

definition efficiencyWorkFloor :: int where "efficiencyWorkFloor = 100"

definition efficiencyCollscanPenalty :: rat where "efficiencyCollscanPenalty = fl (62 / 100)"

definition efficiencyLargeWorkDocs :: int where "efficiencyLargeWorkDocs = 10000"

definition efficiencyEfficientMin :: int where "efficiencyEfficientMin = 75"

definition efficiencyModerateMin :: int where "efficiencyModerateMin = 50"

definition confidenceScore :: "string \<Rightarrow> int" where
  "confidenceScore s = (if to_lower s = ''high'' then 3 else if to_lower s = ''medium'' then 2 else 1)"

text \<open>Earlier identifiers of the current calculation.\<close>

definition CanonicalScoreVersion :: "string \<Rightarrow> string" where
  "CanonicalScoreVersion v = (if v = ''qe-1'' then ''se-1'' else v)"

subsection \<open>Penalties and scores\<close>

definition ratioPenalty :: "(rat \<Rightarrow> rat) \<Rightarrow> rat \<Rightarrow> rat" where
  "ratioPenalty lg r = (if r \<le> 1 then 0 else min 1 (fl (lg r / 3)))"

definition efficiencyScore :: "rat \<Rightarrow> int" where
  "efficiencyScore penalty = math_round (fl (100 * fl (1 - penalty)))"

definition efficiencyBand :: "int \<Rightarrow> string" where
  "efficiencyBand score =
     (if efficiencyEfficientMin \<le> score then ''efficient'' else if efficiencyModerateMin \<le> score then ''moderate'' else ''inefficient'')"

definition upperBoundBand :: "int \<Rightarrow> string" where
  "upperBoundBand bound = (if efficiencyEfficientMin \<le> bound then ''unconfirmed'' else efficiencyBand bound)"

definition roundTo :: "rat \<Rightarrow> nat \<Rightarrow> rat" where
  "roundTo v places = fl (of_int (math_round (fl (v * 10 ^ places))) / 10 ^ places)"

definition isInsertOp :: "string \<Rightarrow> bool" where
  "isInsertOp op \<longleftrightarrow> op \<in> {''insert'', ''insertOne'', ''insertMany''}"

definition isWriteOp :: "string \<Rightarrow> bool" where
  "isWriteOp op \<longleftrightarrow> op \<in> {''updateOne'', ''updateMany'', ''deleteOne'', ''deleteMany''}"

definition resultLabel :: "string \<Rightarrow> string" where
  "resultLabel op = (if isWriteOp op then ''nMatched'' else ''nReturned'')"

definition efficiencyResultCounter :: "plan_metrics \<Rightarrow> string \<Rightarrow> explain_counter option \<times> string" where
  "efficiencyResultCounter m op =
     (if isWriteOp op then (pm_matched m, ''matched_count_not_reported'')
      else if op = ''aggregate'' then (pm_access m, ''access_stage_count_unavailable'')
      else (pm_returned m, ''returned_count_not_reported''))"

text \<open>The dimension's name without \<open>_per_result\<close>, as \<open>strings.TrimSuffix\<close> cuts it.\<close>

definition trim_suffix :: "string \<Rightarrow> string \<Rightarrow> string" where
  "trim_suffix s sfx = (if suffix sfx s then take (length s - length sfx) s else s)"

definition ratioDimension :: "(rat \<Rightarrow> rat) \<Rightarrow> string \<Rightarrow> explain_counter option \<Rightarrow> explain_counter option \<Rightarrow> string \<Rightarrow> string \<Rightarrow> eff_dimension" where
  "ratioDimension lg name examined result lack role =
     (let dm = \<lparr>ed_name = name, ed_applicable = True, ed_value = None, ed_penalty = None, ed_missing = [], ed_note = [], ed_source = []\<rparr> in
      if lack \<noteq> [] then dm\<lparr>ed_missing := lack\<rparr>
      else case examined of
        None \<Rightarrow> dm\<lparr>ed_missing := trim_suffix name ''_per_result'' @ ''_examined_not_reported''\<rparr>
      | Some e \<Rightarrow>
          (case result of
             None \<Rightarrow> dm
           | Some r \<Rightarrow>
               (let ratio = (if ec_value r = 0 then fl (of_int (ec_value e)) else fl (fl (of_int (ec_value e)) / fl (of_int (ec_value r))));
                    low = (ec_value e < efficiencyWorkFloor)
                in dm\<lparr>ed_source := ec_source e @ '' / '' @ ec_source r @ ''@'' @ role, ed_value := Some (roundTo ratio 2),
                     ed_note := (if low then ''below_work_floor'' else if ec_value r = 0 then ''zero_result'' else []),
                     ed_penalty := Some (roundTo (if low then 0 else ratioPenalty lg ratio) 4)\<rparr>)))"

definition counterEvidence :: "string \<Rightarrow> explain_counter option \<Rightarrow> string" where
  "counterEvidence label c =
     (case c of None \<Rightarrow> label @ ''=not_reported''
      | Some x \<Rightarrow> label @ ''='' @ itoa (ec_value x) @ '' ('' @ ec_source x @ '')'' @ (if ec_lower x then '' lower bound'' else []))"

definition appendUnique :: "string list \<Rightarrow> string \<Rightarrow> string list" where
  "appendUnique xs v = (if v \<in> set xs then xs else xs @ [v])"

definition collscan_dimension :: "plan_diagnostics \<Rightarrow> string \<Rightarrow> eff_dimension" where
  "collscan_dimension d role =
     (let dm = \<lparr>ed_name = ''collscan'', ed_applicable = True, ed_value = None, ed_penalty = Some 0, ed_missing = [],
        ed_note = ''no_collection_scan'', ed_source = ''queryPlanner.winningPlan@'' @ role\<rparr> in
      if dg_collscan d \<and> \<not> dg_expected d
      then dm\<lparr>ed_penalty := Some efficiencyCollscanPenalty, ed_note := ''filtered_collection_scan''\<rparr>
      else if dg_collscan d then dm\<lparr>ed_note := ''unfiltered_scan_expected''\<rparr> else dm)"

definition zero_metrics :: plan_metrics where
  "zero_metrics = \<lparr>pm_layout = [], pm_shards = 0, pm_docs = None, pm_keys = None, pm_returned = None, pm_access = None,
     pm_matched = None, pm_unsupported = [], pm_notes = []\<rparr>"

definition sample_metrics_of :: "plan_diagnostics \<Rightarrow> plan_metrics" where
  "sample_metrics_of d = (case dg_metrics d of Some m \<Rightarrow> m | None \<Rightarrow> zero_metrics)"

text \<open>Why the counts of a sample cannot be compared; empty when they can.\<close>

definition ratio_missing :: "plan_diagnostics \<Rightarrow> string \<Rightarrow> string" where
  "ratio_missing d op =
     (let m = sample_metrics_of d; result = efficiencyResultCounter m op in
      if dg_metrics d = None then ''normalized_metrics_unavailable''
      else if \<not> dg_stats d then ''execution_stats_unavailable''
      else if pm_unsupported m \<noteq> [] then pm_unsupported m
      else if fst result = None then snd result else [])"

definition sampleUnassessedReason :: "string \<Rightarrow> string \<Rightarrow> string" where
  "sampleUnassessedReason status reason =
     (if status = ''timed_out'' then ''explain_timeout''
      else if status = ''execution_failed'' then ''explain_failed''
      else if status = ''cancelled'' then ''explain_cancelled''
      else if status = ''not_supported'' then ''unsupported_operation''
      else if status = ''insufficient_metadata'' then ''insufficient_metadata''
      else emptyFallback reason ''explain_unavailable'')"

text \<open>The worst penalty, its dimension, and whether one is missing.\<close>

definition worst_step :: "eff_dimension \<Rightarrow> rat \<times> string \<times> bool \<Rightarrow> rat \<times> string \<times> bool" where
  "worst_step dm w =
     (if \<not> ed_applicable dm then w
      else case (ed_penalty dm, w) of
        (None, (worst, limiting, _)) \<Rightarrow> (worst, limiting, True)
      | (Some p, (worst, limiting, lack)) \<Rightarrow> if worst < p then (p, ed_name dm, lack) else w)"

definition sample_dims :: "(rat \<Rightarrow> rat) \<Rightarrow> plan_diagnostics \<Rightarrow> string \<Rightarrow> string \<Rightarrow> eff_dimension list" where
  "sample_dims lg d role op =
     (let m = sample_metrics_of d; result = fst (efficiencyResultCounter m op); lack = ratio_missing d op in
      [ratioDimension lg ''docs_per_result'' (pm_docs m) result lack role,
       ratioDimension lg ''keys_per_result'' (pm_keys m) result lack role, collscan_dimension d role])"

text \<open>The observations, in the order of the code.\<close>

definition sample_obs :: "plan_diagnostics \<Rightarrow> string \<Rightarrow> eff_dimension list \<Rightarrow> string list" where
  "sample_obs d op dims =
     (let m = sample_metrics_of d; result = fst (efficiencyResultCounter m op); counted = (dg_stats d \<and> ratio_missing d op = [] \<and> result \<noteq> None) in
      (if dg_collscan d \<and> dg_expected d then [''unfiltered_scan_expected''] else [])
      @ (case result of Some r \<Rightarrow> if ec_lower r then [''matched_count_lower_bound''] else [] | None \<Rightarrow> [])
      @ (if counted \<and> map_option ec_value result = Some 0 then [''zero_result''] else [])
      @ (if counted \<and> \<not> isWriteOp op \<and> map_option ec_value (pm_docs m) = Some 0 \<and> pm_keys m \<noteq> None \<and> dg_ixscan d \<and> \<not> dg_fetch d \<and> \<not> dg_collscan d
         then [''covered''] else [])
      @ (if counted \<and> op = ''aggregate'' \<and> (case (pm_returned m, result) of (Some x, Some r) \<Rightarrow> ec_value x < ec_value r | _ \<Rightarrow> False)
         then [''aggregate_reduction''] else [])
      @ (if list_ex (\<lambda>x. ed_note x = ''below_work_floor'') (take 2 dims) then [''below_work_floor''] else [])
      @ (case pm_docs m of Some x \<Rightarrow> if efficiencyLargeWorkDocs < ec_value x then [''large_work''] else [] | None \<Rightarrow> [])
      @ (if dg_blocking d then [''blocking_sort''] else []) @ (if dg_disk d then [''spill''] else []))"

definition sample_evidence :: "plan_diagnostics \<Rightarrow> string \<Rightarrow> string list" where
  "sample_evidence d op =
     (let m = sample_metrics_of d in
      if dg_stats d \<and> ratio_missing d op = []
      then [counterEvidence ''docsExamined'' (pm_docs m), counterEvidence ''keysExamined'' (pm_keys m),
            counterEvidence (resultLabel op) (fst (efficiencyResultCounter m op))]
        @ (if op = ''aggregate'' then [counterEvidence ''final pipeline output'' (pm_returned m)] else [])
      else [])"

definition unassessed_sample :: "string \<Rightarrow> string \<Rightarrow> eff_sample" where
  "unassessed_sample role reason = \<lparr>es_role = role, es_status = EfficiencyUnassessed, es_reason = reason, es_score = None,
     es_upper = False, es_band = [], es_limiting = [], es_layout = [], es_dims = [], es_obs = [], es_evidence = [],
     es_approx = False, es_sharded = False, es_notes = []\<rparr>"

definition scoreEfficiencySample :: "(rat \<Rightarrow> rat) \<Rightarrow> plan_sample \<Rightarrow> string \<Rightarrow> eff_sample" where
  "scoreEfficiencySample lg s op =
     (case (ps_status s = ''explained'', ps_diag s) of
        (True, Some d) \<Rightarrow>
          (let m = sample_metrics_of d; dims = sample_dims lg d (ps_role s) op; result = fst (efficiencyResultCounter m op) in
           case fold worst_step dims (0, [], False) of
             (worst, limiting, lack) \<Rightarrow>
               (let score = efficiencyScore worst in
                \<lparr>es_role = ps_role s, es_status = (if lack then EfficiencyPartial else EfficiencyRated),
                 es_reason = (if lack then ratio_missing d op else []), es_score = Some score, es_upper = lack,
                 es_band = (if lack then upperBoundBand score else efficiencyBand score), es_limiting = limiting,
                 es_layout = pm_layout m, es_dims = dims, es_obs = sample_obs d op dims, es_evidence = sample_evidence d op,
                 es_approx = (case result of Some r \<Rightarrow> ec_lower r | None \<Rightarrow> False), es_sharded = (0 < pm_shards m), es_notes = pm_notes m\<rparr>))
      | _ \<Rightarrow> unassessed_sample (ps_role s) (sampleUnassessedReason (ps_status s) (ps_reason s)))"

subsection \<open>A shape\<close>

definition coverageUnassessedReason :: "coverage_shape \<Rightarrow> string" where
  "coverageUnassessedReason cs =
     (if xs_status cs = ''excluded'' \<or> xs_status cs = ''unavailable'' then emptyFallback (xs_reason cs) ''explain_unavailable''
      else if xs_status cs = ''cancelled'' then ''explain_cancelled''
      else if xs_status cs = ''failed'' then (if has_prefix ''timed_out'' (xs_reason cs) then ''explain_timeout'' else ''explain_failed'')
      else if xs_status cs = ''not_supported'' then ''unsupported_operation''
      else if xs_status cs = ''pending'' then ''explain_pending''
      else emptyFallback (xs_reason cs) ''explain_unavailable'')"

definition firstPartialReason :: "eff_sample list \<Rightarrow> string" where
  "firstPartialReason ss =
     (case filter (\<lambda>s. es_status s = EfficiencyPartial \<and> es_reason s \<noteq> []) ss of s # _ \<Rightarrow> es_reason s | [] \<Rightarrow> ''partial_evidence'')"

text \<open>The sample that decides: the lowest score, on a tie a partial one before a rated one.\<close>

definition determining_step :: "eff_sample \<Rightarrow> eff_sample option \<Rightarrow> eff_sample option" where
  "determining_step es det =
     (case es_score es of
        None \<Rightarrow> det
      | Some n \<Rightarrow>
          (case det of
             None \<Rightarrow> Some es
           | Some d \<Rightarrow>
               if n < the (es_score d) \<or> (n = the (es_score d) \<and> es_status d = EfficiencyRated \<and> es_status es = EfficiencyPartial)
               then Some es else det))"

definition determining :: "eff_sample list \<Rightarrow> eff_sample option" where
  "determining ss = fold determining_step ss None"

definition assessed :: "eff_sample \<Rightarrow> bool" where
  "assessed es \<longleftrightarrow> es_status es = EfficiencyRated \<or> es_status es = EfficiencyPartial"

definition unassessed_efficiency :: "nat \<Rightarrow> string \<Rightarrow> string \<Rightarrow> query_efficiency" where
  "unassessed_efficiency n status reason =
     \<lparr>qe_status = status, qe_reason = reason, qe_score = None, qe_upper = False, qe_band = [], qe_confidence = [], qe_basis = [],
      qe_limiting = [], qe_determining = [], qe_selected = n, qe_rated = 0, qe_partial = 0, qe_disagree = False, qe_dims = [],
      qe_observations = [], qe_samples = [], qe_scope = [], qe_limitations = []\<rparr>"

text \<open>What keeps the confidence of a rated shape from being high.\<close>

definition confidence_basis :: "nat \<Rightarrow> bool \<Rightarrow> bool \<Rightarrow> bool \<Rightarrow> string list" where
  "confidence_basis rated disagree sharded approximate =
     (if rated < 2 then [itoa (int rated) @ '' rated sample''] else [])
     @ (if disagree then [''samples fall in different bands''] else [])
     @ (if sharded then [''sharded explain: shards can choose different plans''] else [])
     @ (if approximate then [''a result count is a lower bound''] else [])"

definition SampleScopeReservoirDropped :: string where "SampleScopeReservoirDropped = ''full_run_reservoir_with_drops''"

definition shape_limitations :: "nat \<Rightarrow> nat \<Rightarrow> bool \<Rightarrow> string \<Rightarrow> string list \<Rightarrow> string list" where
  "shape_limitations unassessed n disagree scope notes1 =
     (if 0 < unassessed then [''Explain did not finish for '' @ itoa (int unassessed) @ '' of '' @ itoa (int n) @ '' sample commands (timeout, failure, or cancellation); the score uses the others.''] else [])
     @ (if disagree then [''The sample commands fall in different bands; the lowest score is shown and each sample's score is kept.''] else [])
     @ (if scope = SampleScopeReservoirDropped then [''Some operations were too large to keep as samples, so the sample commands may not represent the whole shape.''] else [])
     @ (if ''lookup_work_not_scored'' \<in> set notes1 then [''Documents examined by $lookup in the joined collection are not part of this score; see the $lookup measurement.''] else [])"

text \<open>The status, band and confidence, from the number of rated and partial samples and what lowers the confidence.\<close>

definition grade :: "nat \<Rightarrow> nat \<Rightarrow> int \<Rightarrow> string list \<Rightarrow> eff_sample list \<Rightarrow> query_efficiency \<Rightarrow> query_efficiency" where
  "grade rated partial score basis ss q =
     (if 0 < partial
      then q\<lparr>qe_status := EfficiencyPartial, qe_upper := True, qe_band := upperBoundBand score, qe_reason := firstPartialReason ss,
        qe_confidence := ''low'', qe_basis := ''explain returned only some counts, so the score is the highest it could be''\<rparr>
      else if basis = []
      then q\<lparr>qe_status := EfficiencyRated, qe_band := efficiencyBand score, qe_confidence := ''high'',
        qe_basis := itoa (int rated) @ '' explained samples agree''\<rparr>
      else q\<lparr>qe_status := EfficiencyRated, qe_band := efficiencyBand score, qe_confidence := ''medium'', qe_basis := join_with ''; '' basis\<rparr>)"

text \<open>An explained shape with its assessed samples.\<close>

definition rate_shape :: "string \<Rightarrow> eff_sample list \<Rightarrow> query_efficiency" where
  "rate_shape scope ss =
     (let as = filter assessed ss; n = length ss;
          rated = length (filter (\<lambda>s. es_status s = EfficiencyRated) ss); partial = length (filter (\<lambda>s. es_status s = EfficiencyPartial) ss);
          obs = fold (\<lambda>v xs. appendUnique xs v) (concat (map es_obs as)) []; notes1 = fold (\<lambda>v xs. appendUnique xs v) (concat (map es_notes as)) [];
          disagree = (1 < length (remdups (map es_band as)));
          base = (unassessed_efficiency n EfficiencyUnassessed [])\<lparr>qe_rated := rated, qe_partial := partial, qe_observations := obs,
            qe_samples := ss, qe_scope := scope\<rparr>
      in case determining ss of
           None \<Rightarrow> base\<lparr>qe_reason := (case ss of [] \<Rightarrow> ''explain_unavailable'' | s # _ \<Rightarrow> es_reason s)\<rparr>
         | Some det \<Rightarrow>
             grade rated partial (the (es_score det)) (confidence_basis rated disagree (list_ex es_sharded as) (list_ex es_approx as)) ss
               (base\<lparr>qe_score := Some (the (es_score det)), qe_limiting := es_limiting det, qe_determining := es_role det, qe_dims := es_dims det,
                 qe_disagree := disagree,
                 qe_limitations := shape_limitations (length (filter (\<lambda>s. \<not> assessed s) ss)) n disagree scope notes1\<rparr>))"

definition BuildQueryEfficiency :: "(rat \<Rightarrow> rat) \<Rightarrow> coverage_shape \<Rightarrow> query_efficiency" where
  "BuildQueryEfficiency lg cs =
     (if isInsertOp (xs_operation cs) then unassessed_efficiency (length (xs_samples cs)) EfficiencyNotApplicable ''operation_not_explainable''
      else if xs_status cs \<noteq> ''explained''
      then unassessed_efficiency (length (xs_samples cs)) EfficiencyUnassessed (coverageUnassessedReason cs)
      else rate_shape (xs_scope cs) (map (\<lambda>s. scoreEfficiencySample lg s (xs_operation cs)) (xs_samples cs)))"

subsection \<open>The report\<close>

record eff_coverage =
  ev_status :: string
  ev_reason :: string
  ev_total :: nat
  ev_rated :: nat
  ev_partial :: nat
  ev_unassessed :: nat
  ev_notApplicable :: nat
  ev_byBand :: "string counters"
  ev_byReason :: "string counters"
  ev_untracked :: nat

definition NewEfficiencyCoverage :: "string \<Rightarrow> string \<Rightarrow> eff_coverage" where
  "NewEfficiencyCoverage status reason = \<lparr>ev_status = status, ev_reason = reason, ev_total = 0, ev_rated = 0, ev_partial = 0,
     ev_unassessed = 0, ev_notApplicable = 0, ev_byBand = Map.empty, ev_byReason = Map.empty, ev_untracked = 0\<rparr>"

definition count_efficiency :: "query_efficiency \<Rightarrow> eff_coverage \<Rightarrow> eff_coverage" where
  "count_efficiency e ev0 =
     (let ev = ev0\<lparr>ev_total := ev_total ev0 + 1\<rparr> in
      if qe_status e = EfficiencyRated then ev\<lparr>ev_rated := ev_rated ev + 1, ev_byBand := bump (ev_byBand ev) (qe_band e)\<rparr>
      else if qe_status e = EfficiencyPartial then ev\<lparr>ev_partial := ev_partial ev + 1, ev_byBand := bump (ev_byBand ev) (qe_band e)\<rparr>
      else if qe_status e = EfficiencyNotApplicable then ev\<lparr>ev_notApplicable := ev_notApplicable ev + 1\<rparr>
      else ev\<lparr>ev_unassessed := ev_unassessed ev + 1, ev_byReason := bump (ev_byReason ev) (qe_reason e)\<rparr>)"

text \<open>The shapes with their assessments, and the counts over them.\<close>

definition applyQueryEfficiency :: "(rat \<Rightarrow> rat) \<Rightarrow> string \<Rightarrow> string \<Rightarrow> nat \<Rightarrow> coverage_shape list \<Rightarrow> coverage_shape list \<times> eff_coverage" where
  "applyQueryEfficiency lg status reason untracked shapes =
     (if status \<noteq> ''ready'' then (shapes, NewEfficiencyCoverage status reason)
      else (let es = map (BuildQueryEfficiency lg) shapes in
        (map (\<lambda>(cs, e). cs\<lparr>xs_efficiency := Some e\<rparr>) (zip shapes es),
         fold count_efficiency es ((NewEfficiencyCoverage ''ready'' [])\<lparr>ev_untracked := untracked\<rparr>))))"

end
