(* ===== verification/IndexReport.thy ===== *)
theory IndexReport
  imports IndexPlan Efficiency
begin

text \<open>
  The recommendations (\<open>internal/stats/index_advice.go\<close>, \<open>needsAdvice\<close> to \<open>renderAdvice\<close>): which explained query shapes need
  index advice, what each is advised, and how equal advice is merged. The explained shapes and their efficiency are those of
  Efficiency.thy. The prose of metrics, impact and trade-offs is not modelled: it does not influence the advice.
\<close>

subsection \<open>Data\<close>

record insights_report =
  ir_status :: string
  ir_shapes :: "coverage_shape list"
  ir_inventory :: "inventory_view option"

record advice_draft =
  ad_kind :: string
  ad_ns :: string
  ad_plan :: candidate_plan
  ad_pred :: predicate_profile
  ad_suitable :: "deployed_index option"
  ad_notes :: "string list"
  ad_shapes :: "coverage_shape list"
  ad_dedupe :: string

text \<open>The fields of \<open>InsightRecommendation\<close> that this file decides.\<close>

record index_advice =
  ia_priority :: string
  ia_title :: string
  ia_confidence :: string
  ia_ids :: "string list"
  ia_diagnosis :: string
  ia_ns :: string
  ia_kind :: string
  ia_keys :: "string list"
  ia_existing :: string
  ia_inventory :: string
  ia_limitations :: "string list"

subsection \<open>One shape\<close>

definition scanWorkSignalNote :: string where
  "scanWorkSignalNote =
     ''Scan efficiency counts documents and index keys examined per result and filtered collection scans. This shape also sorted in memory (blocking_sort) or spilled to disk (spill); those are reported under Execution overhead, not in the score.''"

definition workSignalNote :: "string list \<Rightarrow> string" where
  "workSignalNote obs = (if list_ex (\<lambda>w. w = ''blocking_sort'' \<or> w = ''spill'') obs then scanWorkSignalNote else [])"

definition needsAdvice :: "coverage_shape \<Rightarrow> bool" where
  "needsAdvice s \<longleftrightarrow>
     (xs_status s = ''explained'' \<or> xs_selectedBy s \<noteq> [])
     \<and> ((case xs_efficiency s of
           None \<Rightarrow> False
         | Some e \<Rightarrow> workSignalNote (qe_observations e) \<noteq> [] \<or> qe_status e = EfficiencyPartial
             \<or> (qe_status e = EfficiencyRated \<and> (case qe_score e of None \<Rightarrow> False | Some n \<Rightarrow> n < efficiencyEfficientMin)))
        \<or> (case xs_finding s of
             None \<Rightarrow> False
           | Some (diagnosis, _) \<Rightarrow> diagnosis \<in> {''collscan_selective_filter'', ''index_low_selectivity'', ''spill_to_disk'',
               ''blocking_sort'', ''collscan_unquantified'', ''index_supported_plan_only''}))"

definition sample_executed :: "plan_sample \<Rightarrow> bool" where
  "sample_executed sm = (case ps_diag sm of None \<Rightarrow> False | Some d \<Rightarrow> dg_stats d)"

definition advicePlannerOnly :: "coverage_shape \<Rightarrow> bool" where
  "advicePlannerOnly s =
     (if xs_evidence s = ''planner_only'' then True
      else if (case xs_efficiency s of None \<Rightarrow> False | Some e \<Rightarrow> qe_status e = EfficiencyPartial)
      then \<not> list_ex sample_executed (xs_samples s)
      else \<not> list_ex (\<lambda>sm. ps_status sm = ''explained'' \<and> sample_executed sm) (xs_samples s))"

definition namespaceInventory :: "insights_report \<Rightarrow> string \<Rightarrow> ns_inventory \<times> bool" where
  "namespaceInventory rep namespace =
     (let unknown = (\<lambda>reason. \<lparr>ni_ns = namespace, ni_status = ''unknown'', ni_reason = reason, ni_source = [], ni_indexes = []\<rparr>) in
      case ir_inventory rep of
        None \<Rightarrow> (unknown ''not_fetched'', False)
      | Some view \<Rightarrow>
          (case find (\<lambda>n. ni_ns n = namespace) (iv_namespaces view) of
             Some n \<Rightarrow> (n, ni_status n = ''fetched'')
           | None \<Rightarrow> (unknown (if iv_reason view = [] then ''not_fetched'' else iv_reason view), False)))"

definition adviceDedupeKey :: "advice_draft \<Rightarrow> string" where
  "adviceDedupeKey d =
     (let base = ad_ns d @ ''|'' @ ad_kind d @ ''|'' @ pl_reason (ad_plan d) in
      case ad_suitable d of
        Some idx \<Rightarrow> base @ ''|idx:'' @ di_name idx
      | None \<Rightarrow>
          if pl_determined (ad_plan d) then base @ ''|'' @ formatKeys (pl_keys (ad_plan d))
          else base @ ''|eq:'' @ join_with '','' (sort (pl_eq (ad_plan d))) @ ''|sort:'' @ formatKeys (pp_sort (ad_pred d)))"

definition zero_profile :: predicate_profile where
  "zero_profile = empty_profile"

definition shape_profile :: "coverage_shape \<Rightarrow> predicate_profile" where
  "shape_profile s =
     (case xs_predicates s of Some p \<Rightarrow> p | None \<Rightarrow> zero_profile\<lparr>pp_unsupported := [''predicates_not_captured'']\<rparr>)"

text \<open>The kind of the advice, the index that serves the predicate, and the notes on the indexes looked at.\<close>

definition advise :: "insights_report \<Rightarrow> coverage_shape \<Rightarrow> candidate_plan \<Rightarrow> predicate_profile \<Rightarrow>
    string \<times> deployed_index option \<times> string list" where
  "advise rep s plan pred =
     (let kind = (if pl_determined plan then ''candidate'' else ''investigate'') in
      if advicePlannerOnly s then (''measure'', None, [])
      else if pl_determined plan \<or> pl_reason plan = ''equality_order_undetermined'' then
        (case namespaceInventory rep (xs_ns s) of
           (nsi, fetched) \<Rightarrow>
             if fetched then
               (case matchInventory nsi plan pred of
                  (Some idx, notes) \<Rightarrow> (''existing_index'', Some idx, notes)
                | (None, notes) \<Rightarrow> (kind, None, notes))
             else (kind, None, []))
      else (''investigate'', None, []))"

definition adviseShape :: "insights_report \<Rightarrow> coverage_shape \<Rightarrow> advice_draft option" where
  "adviseShape rep s =
     map_option (\<lambda>plan.
       case advise rep s plan (shape_profile s) of
         (kind, suitable, notes) \<Rightarrow>
           (let d = \<lparr>ad_kind = kind, ad_ns = xs_ns s, ad_plan = plan, ad_pred = shape_profile s, ad_suitable = suitable,
              ad_notes = notes, ad_shapes = [], ad_dedupe = []\<rparr>
            in d\<lparr>ad_dedupe := adviceDedupeKey d\<rparr>))
       (deriveCandidate (shape_profile s) [])"

definition explainedSampleCount :: "coverage_shape \<Rightarrow> nat" where
  "explainedSampleCount s = length (filter (\<lambda>sm. ps_status sm = ''explained'' \<and> ps_diag sm \<noteq> None) (xs_samples s))"

definition sample_metrics :: "coverage_shape \<Rightarrow> plan_metrics list" where
  "sample_metrics s = List.map_filter (\<lambda>sm. case ps_diag sm of None \<Rightarrow> None | Some d \<Rightarrow> dg_metrics d) (xs_samples s)"

definition shapeQualifiers :: "coverage_shape \<Rightarrow> bool \<times> bool \<times> bool" where
  "shapeQualifiers s =
     (let ms = sample_metrics s in
      (xs_evidence s = ''planner_only'' \<or> (case xs_efficiency s of None \<Rightarrow> False | Some e \<Rightarrow> qe_status e = EfficiencyPartial),
       (case xs_predicates s of None \<Rightarrow> False | Some p \<Rightarrow> pp_lookup p)
         \<or> (case xs_efficiency s of None \<Rightarrow> False | Some e \<Rightarrow> list_ex (contains ''$lookup'') (qe_limitations e))
         \<or> list_ex (\<lambda>m. list_ex (contains ''lookup'') (pm_notes m)) ms,
       (case xs_efficiency s of None \<Rightarrow> False | Some e \<Rightarrow> list_ex (\<lambda>x. has_prefix ''sharded'' (es_layout x)) (qe_samples e))
         \<or> list_ex (\<lambda>m. 0 < pm_shards m \<or> has_prefix ''sharded'' (pm_layout m)) ms))"

definition shapeAdviceConfidence :: "coverage_shape \<Rightarrow> advice_draft \<Rightarrow> string" where
  "shapeAdviceConfidence s d =
     (let ofFinding = (case xs_finding s of Some (_, c) \<Rightarrow> c | None \<Rightarrow> []);
          ofEfficiency = (case xs_efficiency s of Some e \<Rightarrow> qe_confidence e | None \<Rightarrow> []);
          base = (if ofFinding \<noteq> [] then ofFinding else if ofEfficiency \<noteq> [] then ofEfficiency else ''medium'')
      in case shapeQualifiers s of
        (partial, lookup, sharded) \<Rightarrow>
          (let capAt = (if ad_kind d = ''measure'' \<or> partial then ''low''
                 else if \<not> pl_determined (ad_plan d) \<or> lookup \<or> sharded \<or> explainedSampleCount s < 2 \<or> pp_in (ad_pred d) then ''medium''
                 else ''high'')
           in if confidenceScore capAt < confidenceScore base then capAt else base))"

subsection \<open>The groups\<close>

definition new_group :: "advice_draft \<times> coverage_shape \<Rightarrow> advice_draft" where
  "new_group e = fst e"

text \<open>A further shape joins its group; the assignment of the kind is the code's.\<close>

definition add_shape :: "advice_draft \<times> coverage_shape \<Rightarrow> advice_draft \<Rightarrow> advice_draft" where
  "add_shape e g =
     (let g' = g\<lparr>ad_shapes := ad_shapes g @ [snd e]\<rparr> in
      if confidenceScore (shapeAdviceConfidence (snd e) (fst e)) < confidenceScore (shapeAdviceConfidence (snd e) g')
      then g'\<lparr>ad_kind := ad_kind (fst e)\<rparr> else g')"

text \<open>The drafts of the shapes that need advice; None when one of them stops the program.\<close>

definition advised :: "insights_report \<Rightarrow> (advice_draft \<times> coverage_shape) list option" where
  "advised rep = sequence_opt (map (\<lambda>s. map_option (\<lambda>d. (d, s)) (adviseShape rep s)) (filter needsAdvice (ir_shapes rep)))"

definition advice_groups :: "(advice_draft \<times> coverage_shape) list \<Rightarrow> (string \<times> advice_draft) list" where
  "advice_groups es = fold (\<lambda>e. upsert (ad_dedupe (fst e)) (new_group e) (add_shape e)) es []"

subsection \<open>The recommendation of a group\<close>

definition planIgnoredIndex :: "coverage_shape list \<Rightarrow> deployed_index option \<Rightarrow> bool" where
  "planIgnoredIndex shapes idx =
     (case idx of None \<Rightarrow> False
      | Some i \<Rightarrow> list_ex (\<lambda>s. list_ex (\<lambda>sm. ps_status sm = ''explained'' \<and>
          (case ps_diag sm of None \<Rightarrow> False | Some d \<Rightarrow> dg_collscan d \<and> di_name i \<notin> set (dg_indexes d))) (xs_samples s)) shapes)"

text \<open>An index the plans ignored is withdrawn.\<close>

definition withdraw :: "advice_draft \<Rightarrow> advice_draft" where
  "withdraw d =
     (case ad_suitable d of
        Some idx \<Rightarrow>
          if ad_kind d = ''existing_index'' \<and> planIgnoredIndex (ad_shapes d) (Some idx)
          then d\<lparr>ad_kind := ''candidate'', ad_suitable := None, ad_notes := ad_notes d @
            [''Index '' @ di_name idx @ '' matches this predicate shape but an explained plan did not use it, so it is not treated as coverage.'']\<rparr>
          else d
      | None \<Rightarrow> d)"

definition adviceTitle :: "advice_draft \<Rightarrow> string" where
  "adviceTitle d =
     (let ns = emptyFallback (ad_ns d) ''the collection'' in
      if ad_kind d = ''existing_index'' then ''Existing index already serves '' @ ns
      else if ad_kind d = ''candidate'' then ''Candidate index for '' @ ns
      else if ad_kind d = ''measure'' then ''Measure execution statistics before indexing '' @ ns
      else ''Investigate indexing for '' @ ns)"

definition advicePriority :: "string \<Rightarrow> int option \<Rightarrow> string" where
  "advicePriority kind score =
     (if kind = ''existing_index'' then ''low''
      else case score of Some n \<Rightarrow> if n < efficiencyModerateMin then ''high'' else ''medium'' | None \<Rightarrow> ''medium'')"

definition lower_confidence :: "advice_draft \<Rightarrow> coverage_shape \<Rightarrow> string \<Rightarrow> string" where
  "lower_confidence d s conf =
     (let c = shapeAdviceConfidence s d in if confidenceScore c < confidenceScore conf then c else conf)"

definition first_diagnosis :: "coverage_shape list \<Rightarrow> string" where
  "first_diagnosis ss = fold (\<lambda>s d. if d = [] then (case xs_finding s of Some (x, _) \<Rightarrow> x | None \<Rightarrow> d) else d) ss []"

definition lowest_score :: "coverage_shape list \<Rightarrow> int option" where
  "lowest_score ss = fold (\<lambda>s b. case xs_efficiency s of
       None \<Rightarrow> b
     | Some e \<Rightarrow> (case (qe_score e, b) of (None, _) \<Rightarrow> b | (Some n, None) \<Rightarrow> Some n | (Some n, Some m) \<Rightarrow> Some (if n < m then n else m)))
     ss None"

definition shape_observations :: "coverage_shape list \<Rightarrow> string list" where
  "shape_observations ss = concat (map (\<lambda>s. case xs_efficiency s of None \<Rightarrow> [] | Some e \<Rightarrow> qe_observations e) ss)"

text \<open>The limitations, in the order the code appends them.\<close>

definition advice_limits :: "advice_draft \<Rightarrow> string list" where
  "advice_limits d =
     (let qs = map shapeQualifiers (ad_shapes d); note1 = workSignalNote (shape_observations (ad_shapes d)) in
      compactNotes (ad_notes d
        @ (if list_ex fst qs then [''Explain returned only part of the counts, so selectivity was not fully measured and the scan efficiency score is an upper bound.''] else [])
        @ (if list_ex (\<lambda>q. fst (snd q)) qs then [''Qualified: documents examined by $lookup in the joined collection are not part of scan efficiency, and this advice does not cover the joined collection.''] else [])
        @ (if list_ex (\<lambda>q. snd (snd q)) qs then [''Qualified: this explain used a sharded layout. Live mongos, replica sets, and servers older than 8.0 were not validated.''] else [])
        @ (if pp_in (ad_pred d) \<and> pp_sort (ad_pred d) \<noteq> [] then [''A multi-value $in can prevent an index from providing the following sort. Confirm that with explain.''] else [])
        @ (if pl_residual (ad_plan d) \<noteq> [] then [''Range fields not placed in the candidate stay as residual predicates: '' @ join_with '', '' (pl_residual (ad_plan d)) @ ''.''] else [])
        @ (if note1 \<noteq> [] then [note1] else [])))"

definition renderAdvice :: "insights_report \<Rightarrow> advice_draft \<Rightarrow> index_advice" where
  "renderAdvice rep d0 =
     (let d = withdraw d0; nsi = fst (namespaceInventory rep (ad_ns d)); fetched = snd (namespaceInventory rep (ad_ns d));
          d = (if \<not> fetched \<and> ad_kind d = ''candidate''
            then d\<lparr>ad_notes := ad_notes d @ [''Deployed indexes on '' @ emptyFallback (ad_ns d) ''the namespace'' @ '' are unknown ('' @
              emptyFallback (ni_reason nsi) ''not_fetched'' @ ''). This is not evidence that an index is absent.'']\<rparr>
            else d);
          conf = fold (lower_confidence d) (ad_shapes d) ''high''
      in \<lparr>ia_priority = advicePriority (ad_kind d) (lowest_score (ad_shapes d)), ia_title = adviceTitle d,
          ia_confidence = (if fetched then conf else ''low''), ia_ids = map xs_id (ad_shapes d),
          ia_diagnosis = first_diagnosis (ad_shapes d), ia_ns = ad_ns d, ia_kind = ad_kind d,
          ia_keys = (if ad_kind d = ''candidate'' \<and> pl_determined (ad_plan d) then map formatKey (pl_keys (ad_plan d)) else []),
          ia_existing = (case ad_suitable d of Some idx \<Rightarrow> di_name idx @ '' ('' @ formatKeys (di_keys idx) @ '')'' | None \<Rightarrow> []),
          ia_inventory = ni_status nsi, ia_limitations = advice_limits d\<rparr>)"

definition buildIndexAdvice :: "insights_report \<Rightarrow> index_advice list option" where
  "buildIndexAdvice rep =
     (if ir_status rep \<noteq> ''ready'' then Some []
      else map_option (\<lambda>es. map (\<lambda>g. renderAdvice rep (snd g)) (advice_groups es)) (advised rep))"

end
