(* ===== verification/IndexAdviceProofs.thy ===== *)
theory IndexAdviceProofs
  imports IndexReport DataGenProofs
begin

text \<open>
  What index advice promises: an index accepted as suitable returns the documents of the query in its sort order, a partial
  index accepted covers the query, and every shape that needs advice is in exactly one recommendation.
\<close>

subsection \<open>The order of an index\<close>

text \<open>\<open>v d f\<close> is the value of field \<open>f\<close> of document \<open>d\<close>, not an array; \<open>index_le\<close> is the order an index with these keys lists documents in.\<close>

fun index_le :: "('d \<Rightarrow> string \<Rightarrow> int) \<Rightarrow> key_spec list \<Rightarrow> 'd \<Rightarrow> 'd \<Rightarrow> bool" where
  "index_le v [] x y = True"
| "index_le v (k # ks) x y =
     (if v x (ks_field k) = v y (ks_field k) then index_le v ks x y
      else if 0 < ks_dir k then v x (ks_field k) < v y (ks_field k) else v y (ks_field k) < v x (ks_field k))"

definition agree :: "('d \<Rightarrow> string \<Rightarrow> int) \<Rightarrow> string set \<Rightarrow> 'd \<Rightarrow> 'd \<Rightarrow> bool" where
  "agree v fs x y \<longleftrightarrow> (\<forall>f\<in>fs. v x f = v y f)"

lemma index_le_append:
  "index_le v (a @ b) x y = (if agree v (ks_field ` set a) x y then index_le v b x y else index_le v a x y)"
  by (induction a) (auto simp: agree_def)

lemma index_le_agree: "agree v (ks_field ` set ks) x y \<Longrightarrow> index_le v ks x y"
  by (induction ks) (auto simp: agree_def)

lemma index_le_take: "index_le v ks x y \<Longrightarrow> index_le v (take n ks) x y"
  using index_le_append [of v "take n ks" "drop n ks" x y] by (auto simp: index_le_agree split: if_splits)

definition same_key :: "key_spec \<Rightarrow> key_spec \<Rightarrow> bool" where
  "same_key a b \<longleftrightarrow> ks_field a = ks_field b \<and> ks_dir a = ks_dir b"

lemma index_le_cong: "list_all2 same_key ks ls \<Longrightarrow> index_le v ks x y = index_le v ls x y"
  by (induction ks ls rule: list_all2_induct) (auto simp: same_key_def)

lemma index_le_flip: "list_all (\<lambda>k. ks_dir k \<noteq> 0) ks \<Longrightarrow> index_le v (flipKeys ks) x y = index_le v ks y x"
  by (induction ks) (auto simp: flipKeys_def flip_key_def)

lemma index_le_sort_keys:
  "index_le v (fold add_sort_key ss ks) x y = index_le v (ks @ ss) x y"
proof (induction ss arbitrary: ks)
  case (Cons s ss)
  have "index_le v (add_sort_key s ks @ ss) x y = index_le v (ks @ s # ss) x y"
    by (auto simp: add_sort_key_def index_le_append agree_def)
  then show ?case by (simp add: Cons.IH)
qed simp

lemma flip_take: "flipKeys (take n ks) = take n (flipKeys ks)" "flipKeys (drop n ks) = drop n (flipKeys ks)"
  "map ks_field (flipKeys ks) = map ks_field ks" "length (flipKeys ks) = length ks"
  by (simp_all add: flipKeys_def take_map drop_map flip_key_def)

lemma flip_take_fields: "ks_field ` set (take n (flipKeys ks)) = ks_field ` set (take n ks)"
  by (metis flip_take(1,3) set_map)

lemma sameFieldNames_set: "sameFieldNames ks fs \<Longrightarrow> ks_field ` set ks = set fs"
  unfolding sameFieldNames_def by (metis set_map set_sort)

subsection \<open>The proposed keys\<close>

lemma add_sort_keys_split:
  "\<exists>ss'. fold add_sort_key ss ks = ks @ ss' \<and> list_all (\<lambda>k. ks_role k = ''sort'') ss'
     \<and> set (map ks_field ss') = set (map ks_field ss) - set (map ks_field ks)
     \<and> (distinct (map ks_field ks) \<longrightarrow> distinct (map ks_field (ks @ ss')))"
proof (induction ss arbitrary: ks)
  case (Cons s ss)
  obtain ss' where ih: "fold add_sort_key ss (add_sort_key s ks) = add_sort_key s ks @ ss'" "list_all (\<lambda>k. ks_role k = ''sort'') ss'"
    "set (map ks_field ss') = set (map ks_field ss) - set (map ks_field (add_sort_key s ks))"
    "distinct (map ks_field (add_sort_key s ks)) \<longrightarrow> distinct (map ks_field (add_sort_key s ks @ ss'))"
    using Cons.IH by blast
  show ?case
  proof (cases "ks_field s \<in> ks_field ` set ks")
    case True
    then have "add_sort_key s ks = ks" by (simp add: add_sort_key_def)
    then show ?thesis using ih True by (intro exI [of _ ss']) auto
  next
    case False
    then have a: "add_sort_key s ks = ks @ [s\<lparr>ks_role := ''sort''\<rparr>]" by (simp add: add_sort_key_def)
    then show ?thesis using ih False by (intro exI [of _ "s\<lparr>ks_role := ''sort''\<rparr> # ss'"]) auto
  qed
qed auto

lemma add_sort_keys_dirs:
  "list_all (\<lambda>k. ks_dir k \<noteq> 0) ss \<Longrightarrow> list_all (\<lambda>k. ks_dir k \<noteq> 0) ks \<Longrightarrow> list_all (\<lambda>k. ks_dir k \<noteq> 0) (fold add_sort_key ss ks)"
  by (induction ss arbitrary: ks) (auto simp: add_sort_key_def)

lemma orderEquality_perm: "orderEquality fs sel = Some (eo, [], src) \<Longrightarrow> mset eo = mset fs"
  unfolding orderEquality_def undetermined_def by (auto split: if_splits option.splits prod.splits)

lemma orderEquality_total: "\<exists>eo reason src. orderEquality fs [] = Some (eo, reason, src)"
  unfolding orderEquality_def by (auto simp: undetermined_def)

lemma deriveCandidate_total: "\<exists>plan. deriveCandidate p [] = Some plan"
proof -
  obtain eo reason src where "orderEquality (sort (pp_eq p)) [] = Some (eo, reason, src)" using orderEquality_total by metis
  then show ?thesis unfolding deriveCandidate_def Let_def by (simp split: sum.split prod.split)
qed

text \<open>The plan of a determined key order, and the one of an undetermined order.\<close>

lemma deriveCandidate_determined:
  assumes "deriveCandidate p sel = Some plan" "pl_determined plan"
  obtains eo r residual where "pl_keys plan = plan_keys eo (pp_sort p) r" "mset eo = mset (pp_eq p)"
    "range_choice (map ks_field (pp_sort p)) (sort (pp_range p)) = Inr (r, residual)" "pl_residual plan = residual"
  using assms unfolding deriveCandidate_def Let_def
  by (auto split: if_splits sum.splits prod.splits option.splits dest!: orderEquality_perm)

lemma deriveCandidate_eq: "deriveCandidate p sel = Some plan \<Longrightarrow> pl_eq plan = sort (pp_eq p)"
  unfolding deriveCandidate_def Let_def by (auto split: if_splits sum.splits prod.splits option.splits)

subsection \<open>What a suitable index gives\<close>

lemma list_all_zip:
  "length ts \<le> length xs \<Longrightarrow> list_all (\<lambda>(a, b). P a b) (zip xs ts) \<Longrightarrow> list_all2 P (take (length ts) xs) ts"
proof (induction ts arbitrary: xs)
  case (Cons t ts)
  then show ?case by (cases xs) auto
qed simp

text \<open>The keys of the index after the equality prefix order documents that agree on the prefix.\<close>

lemma tail_order:
  assumes "ks_field ` set (take n ks) = fs" "agree v fs x y" "list_all2 same_key (take m (drop n ks)) ts" "index_le v ks x y"
  shows "index_le v ts x y"
proof -
  have "index_le v (take n ks @ take m (drop n ks)) x y" using assms(4) by (metis index_le_take take_add)
  then have "index_le v (take m (drop n ks)) x y" using assms(1,2) by (simp add: index_le_append)
  then show ?thesis by (simp add: index_le_cong [OF assms(3), symmetric])
qed

lemma tail_order_flipped:
  assumes "ks_field ` set (take n ks) = fs" "agree v fs x y" "list_all2 same_key (take m (drop n (flipKeys ks))) ts"
    "list_all (\<lambda>k. ks_dir k \<noteq> 0) ts" "index_le v ks x y"
  shows "index_le v ts y x"
proof -
  let ?k = "take m (drop n ks)"
  have f: "list_all2 same_key (flipKeys ?k) ts" using assms(3) by (simp add: flip_take)
  then have "list_all (\<lambda>k. ks_dir k \<noteq> 0) (flipKeys ?k)" using assms(4)
    by (induction rule: list_all2_induct) (auto simp: same_key_def)
  then have nz: "list_all (\<lambda>k. ks_dir k \<noteq> 0) ?k" by (auto simp: flipKeys_def flip_key_def list_all_iff split: if_splits)
  have "index_le v ?k x y"
    by (rule tail_order [OF assms(1,2) _ assms(5)]) (rule list_all2_refl, simp add: same_key_def)
  then have "index_le v (flipKeys ?k) y x" by (simp add: index_le_flip [OF nz])
  then show ?thesis by (simp add: index_le_cong [OF f, symmetric])
qed

text \<open>An index that could serve: its equality prefix, and the tail that gives the sort.\<close>

lemma serves_tail:
  assumes derive: "deriveCandidate p sel = Some plan" and serve: "indexCouldServe idx plan p"
    and unit: "list_all (\<lambda>k. ks_dir k \<noteq> 0) (pp_sort p)"
  obtains ts where "ks_field ` set (take (length (pp_eq p)) (di_keys idx)) = set (pp_eq p)"
    "list_all (\<lambda>k. ks_dir k \<noteq> 0) ts"
    "list_all2 same_key (take (length ts) (drop (length (pp_eq p)) (di_keys idx))) ts
     \<or> list_all2 same_key (take (length ts) (drop (length (pp_eq p)) (flipKeys (di_keys idx)))) ts"
    "\<And>x y. agree v (set (pp_eq p)) x y \<Longrightarrow> index_le v ts x y \<Longrightarrow> index_le v (pp_sort p) x y"
proof (cases "pl_determined plan")
  case True
  then obtain eo r where keys: "pl_keys plan = plan_keys eo (pp_sort p) r" and eo: "mset eo = mset (pp_eq p)"
    using deriveCandidate_determined [OF derive] by metis
  obtain ss where ss: "fold add_sort_key (pp_sort p) (map equality_key eo) = map equality_key eo @ ss"
    "list_all (\<lambda>k. ks_role k = ''sort'') ss" using add_sort_keys_split by blast
  obtain rs where c: "pl_keys plan = map equality_key eo @ ss @ rs" and rs: "rs = [] \<or> rs = [range_key r]"
    using keys ss(1) by (auto simp: plan_keys_def Let_def)
  have len: "length eo = length (pp_eq p)" and fs: "set eo = set (pp_eq p)" using eo by (metis size_mset, metis set_mset_mset)
  have ef: "map ks_field (map equality_key eo) = eo" by (simp add: equality_key_def comp_def)
  have ord: "index_le v (pp_sort p) x y" if "agree v (set (pp_eq p)) x y" "index_le v (ss @ rs) x y" for x y
  proof -
    have a: "agree v (ks_field ` set (map equality_key eo)) x y" using that(1) fs ef by (metis set_map)
    have "index_le v (map equality_key eo @ ss) x y" using that(2) a index_le_take [of v "ss @ rs" x y "length ss"]
      by (simp add: index_le_append)
    then show ?thesis using a ss(1) index_le_sort_keys [of v "pp_sort p" "map equality_key eo" x y] by (simp add: index_le_append)
  qed
  have "list_all (\<lambda>k. ks_dir k \<noteq> 0) (map equality_key eo @ ss)"
    using add_sort_keys_dirs [OF unit, of "map equality_key eo"] by (simp add: ss(1) equality_key_def list_all_iff)
  then have nz: "list_all (\<lambda>k. ks_dir k \<noteq> 0) (ss @ rs)" using rs by (auto simp: range_key_def)
  have roles: "takeWhile (\<lambda>k. ks_role k = ''equality'') (pl_keys plan) = map equality_key eo"
    using ss(2) rs by (cases ss) (auto simp: c takeWhile_append equality_key_def range_key_def)
  show ?thesis
  proof (cases "hashed_serves idx plan")
    case h: True
    then obtain ck k where one: "pl_keys plan = [ck]" "di_keys idx = [k]" "ks_role ck = ''equality''" "ks_field k = ks_field ck"
      by (auto simp: hashed_serves_def split: list.splits)
    then have e: "eo = [ks_field ck]" "ss = []" "rs = []" using roles c by (auto simp: equality_key_def)
    then have "pp_eq p = [ks_field ck]" using eo by (metis mset_eq_length mset_single_iff)
    then show ?thesis using one e ord by (intro that [of "[]"]) auto
  next
    case False
    then have ks: "keysServe (di_keys idx) (pl_keys plan)" using serve \<open>pl_determined plan\<close> by (simp add: indexCouldServe_def)
    have parts: "length (takeWhile (\<lambda>k. ks_role k = ''equality'') (pl_keys plan)) = length eo"
      "take (length eo) (pl_keys plan) = map equality_key eo" "drop (length eo) (pl_keys plan) = ss @ rs"
      unfolding roles by (simp_all add: c)
    have conv: "ks_field ` set (take (length (pp_eq p)) ks) = set (pp_eq p)
        \<and> list_all2 same_key (take (length (ss @ rs)) (drop (length (pp_eq p)) ks)) (ss @ rs)"
      if "serveForward ks (pl_keys plan)" "length (pl_keys plan) \<le> length ks" for ks
    proof
      have "eo = [] \<or> sameFieldNames (take (length eo) ks) eo"
        using that(1) ef by (simp add: serveForward_def Let_def parts)
      then show "ks_field ` set (take (length (pp_eq p)) ks) = set (pp_eq p)"
        using fs len sameFieldNames_set by (metis empty_set image_empty list.size(3) take0)
      have "list_all (\<lambda>(a, b). same_key a b) (zip (drop (length (pp_eq p)) ks) (ss @ rs))"
        using that(1) by (auto simp: serveForward_def parts Let_def len [symmetric] same_key_def list_all_iff simp del: zip_append)
      moreover have "length (ss @ rs) \<le> length (drop (length (pp_eq p)) ks)" using that(2) by (simp add: c len)
      ultimately show "list_all2 same_key (take (length (ss @ rs)) (drop (length (pp_eq p)) ks)) (ss @ rs)" using list_all_zip by blast
    qed
    have l: "length (pl_keys plan) \<le> length (di_keys idx)" "length (pl_keys plan) \<le> length (flipKeys (di_keys idx))"
      and f: "serveForward (di_keys idx) (pl_keys plan) \<or> serveForward (flipKeys (di_keys idx)) (pl_keys plan)"
      using ks by (simp_all add: keysServe_def flip_take(4))
    show ?thesis
    proof (rule that [OF _ nz _ ord])
      show "ks_field ` set (take (length (pp_eq p)) (di_keys idx)) = set (pp_eq p)"
        using f conv [OF _ l(1)] conv [OF _ l(2)] flip_take_fields by metis
      show "list_all2 same_key (take (length (ss @ rs)) (drop (length (pp_eq p)) (di_keys idx))) (ss @ rs)
          \<or> list_all2 same_key (take (length (ss @ rs)) (drop (length (pp_eq p)) (flipKeys (di_keys idx)))) (ss @ rs)"
        using f conv [OF _ l(1)] conv [OF _ l(2)] by metis
    qed
  qed
next
  case False
  then have eq: "pl_eq plan = sort (pp_eq p)" and r: "planTail plan p = map (\<lambda>k. k\<lparr>ks_role := ''sort''\<rparr>) (pp_sort p)"
    using derive by (simp_all add: planTail_def deriveCandidate_eq)
  let ?t = "map (\<lambda>k. k\<lparr>ks_role := ''sort''\<rparr>) (pp_sort p)"
  have same: "index_le v ?t x y = index_le v (pp_sort p) x y" for x y
    by (rule index_le_cong) (simp add: list_all2_conv_all_nth same_key_def)
  have lead: "leadingSetAndTail (di_keys idx) (pl_eq plan) ?t \<or> leadingSetAndTail (flipKeys (di_keys idx)) (pl_eq plan) ?t"
    using serve False r by (auto simp: indexCouldServe_def)
  have conv: "ks_field ` set (take (length (pp_eq p)) ks) = set (pp_eq p)
      \<and> list_all2 same_key (take (length ?t) (drop (length (pp_eq p)) ks)) ?t" if "leadingSetAndTail ks (pl_eq plan) ?t" for ks
  proof
    show "ks_field ` set (take (length (pp_eq p)) ks) = set (pp_eq p)"
      using that eq sameFieldNames_set by (force simp: leadingSetAndTail_def)
    have "list_all (\<lambda>(a, b). same_key a b) (zip (drop (length (pp_eq p)) ks) ?t)"
      using that eq by (auto simp: leadingSetAndTail_def same_key_def list_all_iff)
    moreover have "length ?t \<le> length (drop (length (pp_eq p)) ks)" using that eq by (auto simp: leadingSetAndTail_def)
    ultimately show "list_all2 same_key (take (length ?t) (drop (length (pp_eq p)) ks)) ?t" using list_all_zip by blast
  qed
  show ?thesis
  proof (rule that [of ?t])
    show "ks_field ` set (take (length (pp_eq p)) (di_keys idx)) = set (pp_eq p)"
      using lead conv [of "di_keys idx"] conv [of "flipKeys (di_keys idx)"] flip_take_fields by metis
    show "list_all2 same_key (take (length ?t) (drop (length (pp_eq p)) (di_keys idx))) ?t
        \<or> list_all2 same_key (take (length ?t) (drop (length (pp_eq p)) (flipKeys (di_keys idx)))) ?t"
      using lead conv [of "di_keys idx"] conv [of "flipKeys (di_keys idx)"] by metis
  qed (use unit same in \<open>auto simp: list_all_iff\<close>)
qed

subsection \<open>The profile of a query\<close>

lemma fold_keeps: "(\<And>e p. h (g e p) = h p) \<Longrightarrow> h (fold g es p) = h p"
  by (induction es arbitrary: p) simp_all

lemma classify_member_sort: "pp_sort (classify_member e p) = pp_sort p"
proof -
  have "pp_sort (classify_op f x p) = pp_sort p" for f x p
    by (simp add: classify_op_def unsupported1_def equality_def split: option.split)
  then have "pp_sort (classifyField f x p) = pp_sort p" for f x p
    by (simp add: classifyField_def fold_keeps unsupported1_def equality_def split: gval.split option.split)
  then show ?thesis by (simp add: classify_member_def unsupported1_def)
qed

lemma classify_sort: "pp_sort (classifyFilter x p) = pp_sort p" "pp_sort (classify_items xs p) = pp_sort p"
proof (induction x p and xs p rule: classifyFilter_classify_items.induct)
  case (1 x p)
  then show ?case
    by (simp add: classifyFilter.simps [of x] fold_keeps [of pp_sort] classify_member_sort unsupported1_def split: gval.split option.split)
qed simp_all

lemma sequence_opt_all: "sequence_opt os = Some xs \<Longrightarrow> (\<And>x. Some x \<in> set os \<Longrightarrow> P x) \<Longrightarrow> list_all P xs"
  by (induction os arbitrary: xs) (auto split: option.splits)

lemma sort_keys_unit:
  assumes "sortKeysFromValue x = Some ks"
  shows "list_all (\<lambda>k. ks_dir k \<noteq> 0) ks"
proof -
  have u: "ks_dir k \<noteq> 0" if "directionKey e = Some k" for e k
    using that by (auto simp: directionKey_def scalarDirection_def Let_def split: gval.splits if_splits)
  obtain m where "sequence_opt (map directionKey m) = Some ks" using assms by (auto simp: sortKeysFromValue_def split: gval.splits if_splits)
  then show ?thesis by (rule sequence_opt_all) (metis (mono_tags) u image_iff set_map)
qed

lemma profile_sort_unit: "list_all (\<lambda>k. ks_dir k \<noteq> 0) (pp_sort (ProfileQuery q))"
proof -
  let ?ok = "\<lambda>rp :: bool \<times> predicate_profile. list_all (\<lambda>k. ks_dir k \<noteq> 0) (pp_sort (snd rp))"
  have step: "?ok (profile_stage st rp)" if "?ok rp" for st rp
  proof -
    obtain b p where rp: "rp = (b, p)" by (cases rp)
    have fin: "?ok (if a1 then x1 else x2)" if "a1 \<Longrightarrow> ?ok x1" "\<not> a1 \<Longrightarrow> ?ok x2" for a1 x1 x2 using that by simp
    have kept: "?ok (c, if b then unsupported1 u p else q)" if "?ok (c, q)" for c u q
      using that \<open>?ok rp\<close> by (simp add: rp unsupported1_def)
    show ?thesis
    proof (cases "\<exists>name body. st = GMap [(name, body)]")
      case True
      then obtain name body where st: "st = GMap [(name, body)]" by blast
      have sorted1: "?ok (c, case sortKeysFromValue body of Some keys \<Rightarrow> p\<lparr>pp_sort := keys, pp_sortKnown := True\<rparr>
          | None \<Rightarrow> unsupported1 u (p\<lparr>pp_sort := [], pp_sortKnown := False\<rparr>))" for c u
        by (simp add: unsupported1_def sort_keys_unit split: option.split)
      show ?thesis unfolding st rp profile_stage_def prod.case gval.case list.case
        by (intro fin kept sorted1) (use that in \<open>simp_all add: rp unsupported1_def classify_sort\<close>)
    next
      case False
      then have "profile_stage st rp = (b, unsupported1 ''unreadable_stage'' p)"
        by (auto simp: rp profile_stage_def split: gval.splits list.splits prod.splits)
      then show ?thesis using that by (simp add: rp unsupported1_def)
    qed
  qed
  have "list_all (\<lambda>k. ks_dir k \<noteq> 0) (pp_sort (snd (fold profile_stage pipe rp)))"
    if "list_all (\<lambda>k. ks_dir k \<noteq> 0) (pp_sort (snd rp))" for pipe rp
    using that by (induction pipe arbitrary: rp) (simp_all add: step)
  then show ?thesis
    by (auto simp: ProfileQuery_def Let_def finishProfile_def profilePipeline_def classify_sort empty_profile_def split: option.split prod.split)
qed

subsection \<open>An accepted index\<close>

text \<open>C31: An index the advice calls suitable serves the query: its first keys are exactly the fields of the equality predicates,
  and whenever the documents listed in the order of the index agree on these fields, the list or its reversal is in the order
  of the query's \<open>$sort\<close>, whether the proposed key order was determined or left open.
\<close>

theorem suitable_index_serves:
  fixes v :: "'d \<Rightarrow> string \<Rightarrow> int"
  assumes derive: "deriveCandidate (ProfileQuery q) sel = Some plan"
    and suitable: "fst (evaluateIndex idx plan (ProfileQuery q))"
    and same: "\<And>x y f. x \<in> set ds \<Longrightarrow> y \<in> set ds \<Longrightarrow> f \<in> set (pp_eq (ProfileQuery q)) \<Longrightarrow> v x f = v y f"
    and listed: "sorted_wrt (index_le v (di_keys idx)) ds"
  shows "set (map ks_field (take (length (pp_eq (ProfileQuery q))) (di_keys idx))) = set (pp_eq (ProfileQuery q))
    \<and> (sorted_wrt (index_le v (pp_sort (ProfileQuery q))) ds \<or> sorted_wrt (index_le v (pp_sort (ProfileQuery q))) (rev ds))"
proof -
  let ?p = "ProfileQuery q"
  have serve: "indexCouldServe idx plan ?p" using suitable by (auto simp: evaluateIndex_def split: if_splits)
  obtain ts where pre: "ks_field ` set (take (length (pp_eq ?p)) (di_keys idx)) = set (pp_eq ?p)"
    and nz: "list_all (\<lambda>k. ks_dir k \<noteq> 0) ts"
    and tail: "list_all2 same_key (take (length ts) (drop (length (pp_eq ?p)) (di_keys idx))) ts
      \<or> list_all2 same_key (take (length ts) (drop (length (pp_eq ?p)) (flipKeys (di_keys idx)))) ts"
    and ord: "\<And>x y. agree v (set (pp_eq ?p)) x y \<Longrightarrow> index_le v ts x y \<Longrightarrow> index_le v (pp_sort ?p) x y"
    by (rule serves_tail [OF derive serve profile_sort_unit, of v]) metis
  have ag: "agree v (set (pp_eq ?p)) x y" if "x \<in> set ds" "y \<in> set ds" for x y unfolding agree_def by (intro ballI same that)
  from tail have "sorted_wrt (index_le v (pp_sort ?p)) ds \<or> sorted_wrt (index_le v (pp_sort ?p)) (rev ds)"
  proof
    assume t: "list_all2 same_key (take (length ts) (drop (length (pp_eq ?p)) (di_keys idx))) ts"
    have "sorted_wrt (index_le v (pp_sort ?p)) ds"
      by (rule sorted_wrt_mono_rel [OF _ listed]) (rule ord [OF ag tail_order [OF pre ag t]])
    then show ?thesis ..
  next
    assume t: "list_all2 same_key (take (length ts) (drop (length (pp_eq ?p)) (flipKeys (di_keys idx)))) ts"
    have "sorted_wrt (\<lambda>x y. index_le v (pp_sort ?p) y x) ds"
      by (rule sorted_wrt_mono_rel [OF _ listed]) (rule ord [OF ag tail_order_flipped [OF pre ag t nz]])
    then show ?thesis by (simp add: sorted_wrt_rev)
  qed
  then show ?thesis using pre by simp
qed

definition sample_sorted_query :: "(gval \<times> gval list) option" where
  "sample_sorted_query = Some (GMap [], [GMap [(''$match'', GMap [(''a'', GInt 1)])], GMap [(''$sort'', GDoc [(''b'', GInt32 (-1))])]])"

definition sample_index :: deployed_index where
  "sample_index = \<lparr>di_name = ''a_1_b_1'', di_keys = map (\<lambda>f. dirKey f 1) [''a'', ''b''], di_type = ''btree'', di_unique = False,
     di_sparse = False, di_hidden = False, di_partial = False, di_partialSummary = [], di_collation = [], di_multikey = None,
     di_preds = []\<rparr>"

definition sample_value :: "int \<Rightarrow> string \<Rightarrow> int" where
  "sample_value d f = (if f = ''b'' then d else 7)"

lemma suitable_index_serves_witness:
  "set (pp_eq (ProfileQuery sample_sorted_query)) = {''a''}
   \<and> (sorted_wrt (index_le sample_value (pp_sort (ProfileQuery sample_sorted_query))) [1, 2, 3]
      \<or> sorted_wrt (index_le sample_value (pp_sort (ProfileQuery sample_sorted_query))) (rev [1, 2, 3]))"
proof -
  have prof: "pp_eq (ProfileQuery sample_sorted_query) = [''a'']" by code_simp
  obtain plan where plan: "deriveCandidate (ProfileQuery sample_sorted_query) [] = Some plan" using deriveCandidate_total by blast
  have ev: "(case deriveCandidate (ProfileQuery sample_sorted_query) [] of
      Some pl \<Rightarrow> fst (evaluateIndex sample_index pl (ProfileQuery sample_sorted_query)) | None \<Rightarrow> False)" by code_simp
  have "sorted_wrt (index_le sample_value (di_keys sample_index)) [1, 2, 3]"
    by (simp add: sample_index_def sample_value_def dirKey_def)
  then show ?thesis using suitable_index_serves [OF plan, of sample_index "[1, 2, 3]" sample_value] ev plan prof
    by (auto simp: sample_value_def)
qed

subsection \<open>Partial indexes\<close>

text \<open>The conditions a filter joins, and what a condition asks of its field.\<close>

inductive conjunct :: "gval \<Rightarrow> string \<Rightarrow> gval \<Rightarrow> bool" where
  member: "(f, v) \<in> set m \<Longrightarrow> \<not> has_prefix ''$'' f \<Longrightarrow> conjunct (GMap m) f v"
| joined: "map_of m ''$and'' = Some (GSlice xs) \<Longrightarrow> x \<in> set xs \<Longrightarrow> conjunct x f v \<Longrightarrow> conjunct (GMap m) f v"

definition asks :: "gval \<Rightarrow> gval \<Rightarrow> bool" where
  "asks v u \<longleftrightarrow> u = v \<or> (\<exists>m. v = GMap m \<and> (''$eq'', u) \<in> set m)"

definition scalar_value :: "gval \<Rightarrow> (string + bool + rat) option" where
  "scalar_value v = (case v of GStr s \<Rightarrow> Some (Inl s) | GBool b \<Rightarrow> Some (Inr (Inl b))
     | GInt n \<Rightarrow> Some (Inr (Inr (of_int n))) | GInt32 n \<Rightarrow> Some (Inr (Inr (of_int n))) | GInt64 n \<Rightarrow> Some (Inr (Inr (of_int n)))
     | GFloat x \<Rightarrow> Some (Inr (Inr x)) | _ \<Rightarrow> None)"

lemma nat_digits_range: "c \<in> set (nat_digits n) \<Longrightarrow> (48::nat) \<le> of_char c"
proof (induction n rule: nat_digits.induct)
  case (1 n)
  have "(48::nat) \<le> of_char (digit_char d)" if "d < 10" for d
    using that by (simp add: digit_char_def)
  then show ?case using 1 by (subst (asm) (2) nat_digits.simps) (auto split: if_splits)
qed

lemma itoa_eq: "itoa a = itoa b \<longleftrightarrow> a = b"
proof -
  have m: "CHR ''-'' # nat_digits x \<noteq> nat_digits y" for x y
  proof
    assume "CHR ''-'' # nat_digits x = nat_digits y"
    then have "CHR ''-'' \<in> set (nat_digits y)" by (metis list.set_intros(1))
    then show False using nat_digits_range [of "CHR ''-''" y] by simp
  qed
  have d: "nat_digits x = nat_digits y \<longleftrightarrow> x = y" for x y by (metis digits_value_nat_digits)
  show ?thesis using m m [symmetric] by (cases "a < 0"; cases "b < 0") (auto simp: itoa_def d)
qed

text \<open>Equal tokens are equal values, whatever their Go types.\<close>

lemma canonical_value:
  assumes "CanonicalPredicateValue v = Some t" "CanonicalPredicateValue u = Some t"
  shows "scalar_value v = scalar_value u \<and> scalar_value v \<noteq> None"
  using assms by (auto simp: CanonicalPredicateValue_def scalar_value_def itoa_eq split: gval.splits if_splits)

lemma classify_member_value:
  assumes "pp_eqValue (classify_member e p) f = Some t"
  shows "pp_eqValue p f = Some t \<or> (f = fst e \<and> \<not> has_prefix ''$'' f \<and> (\<exists>u. asks (snd e) u \<and> CanonicalPredicateValue u = Some t))"
proof -
  have op: "pp_eqValue p f = Some t \<or> (f = g \<and> (\<exists>u. (''$eq'', u) \<in> set m \<and> CanonicalPredicateValue u = Some t))"
    if "pp_eqValue (fold (classify_op g) m p) f = Some t" for g m p
    using that
  proof (induction m arbitrary: p)
    case (Cons x m)
    have "pp_eqValue (classify_op g x p) f = Some t \<Longrightarrow>
        pp_eqValue p f = Some t \<or> (f = g \<and> fst x = ''$eq'' \<and> CanonicalPredicateValue (snd x) = Some t)"
      by (simp add: classify_op_def unsupported1_def equality_def split: option.splits if_splits)
    then show ?case using Cons.IH [of "classify_op g x p"] Cons.prems by (cases x) fastforce
  qed simp
  show ?thesis using assms op [of "fst e" _ p]
    unfolding classify_member_def classifyField_def
    by (fastforce simp: unsupported1_def equality_def asks_def split: if_splits gval.splits option.splits)
qed

lemma members_value:
  assumes "pp_eqValue (fold classify_member m p) f = Some t"
  shows "pp_eqValue p f = Some t \<or> (\<exists>v u. (f, v) \<in> set m \<and> \<not> has_prefix ''$'' f \<and> asks v u \<and> CanonicalPredicateValue u = Some t)"
  using assms
proof (induction m arbitrary: p)
  case (Cons e m)
  have "pp_eqValue (classify_member e p) f = Some t \<or> (\<exists>v u. (f, v) \<in> set m \<and> \<not> has_prefix ''$'' f \<and> asks v u \<and> CanonicalPredicateValue u = Some t)"
    using Cons.IH [of "classify_member e p"] Cons.prems by simp
  then show ?case using classify_member_value [of e p f t] by (cases e) fastforce
qed simp

definition proves :: "gval \<Rightarrow> string \<Rightarrow> string \<Rightarrow> bool" where
  "proves filt f t \<longleftrightarrow> (\<exists>v u. conjunct filt f v \<and> asks v u \<and> CanonicalPredicateValue u = Some t)"

lemma classify_value:
  "pp_eqValue (classifyFilter x p) f = Some t \<Longrightarrow> pp_eqValue p f = Some t \<or> proves x f t"
  "pp_eqValue (classify_items xs p) f = Some t \<Longrightarrow> pp_eqValue p f = Some t \<or> (\<exists>x\<in>set xs. proves x f t)"
proof (induction x p and xs p rule: classifyFilter_classify_items.induct)
  case (1 x p)
  show ?case
  proof (cases "\<exists>m. x = GMap m")
    case True
    then obtain m where x: "x = GMap m" by blast
    define p1 where "p1 = (case map_of m ''$and'' of None \<Rightarrow> p | Some (GSlice xs) \<Rightarrow> classify_items xs p | Some _ \<Rightarrow> unsupported1 ''$and'' p)"
    have "pp_eqValue (fold classify_member m p1) f = Some t" using "1.prems" by (simp add: x classifyFilter.simps [of "GMap m"] p1_def)
    then consider "pp_eqValue p1 f = Some t" | "proves x f t"
      using members_value [of m p1 f t] by (auto simp: x proves_def intro: conjunct.member)
    then show ?thesis
    proof cases
      case a: 1
      show ?thesis
      proof (cases "\<exists>xs. map_of m ''$and'' = Some (GSlice xs)")
        case True
        then obtain xs where xs: "map_of m ''$and'' = Some (GSlice xs)" by blast
        have "pp_eqValue p f = Some t \<or> (\<exists>y\<in>set xs. proves y f t)" by (rule "1.IH" [OF x xs refl]) (use a xs in \<open>simp add: p1_def\<close>)
        then show ?thesis using xs by (auto simp: x proves_def intro: conjunct.joined)
      next
        case False
        then have "pp_eqValue p1 = pp_eqValue p" by (simp add: p1_def unsupported1_def split: option.split gval.split)
        then show ?thesis using a by simp
      qed
    qed simp
  next
    case False
    then have "classifyFilter x p = p" by (simp add: classifyFilter.simps [of x] split: gval.split)
    then show ?thesis using "1.prems" by simp
  qed
next
  case (3 x xs p)
  then show ?case by auto
qed simp

lemma profile_value: "pp_eqValue (ProfileQuery (Some (filt, []))) f = Some t \<Longrightarrow> proves filt f t"
  using classify_value(1) [of filt "empty_profile\<lparr>pp_source := ''captured_query''\<rparr>" f t]
  by (simp add: ProfileQuery_def finishProfile_def empty_profile_def Let_def)


definition sample_partial :: listed_index where
  "sample_partial = \<lparr>li_name = ''p'', li_key = [(''a'', GInt32 1)], li_unique = None, li_sparse = None, li_hidden = None,
     li_partial = Some [(''state'', GInt32 1)], li_locale = [], li_multikey = None\<rparr>"


text \<open>
  The decoding leaves out what it cannot read: an \<open>$and\<close>, or an equality with a value that is no scalar. With one further
  condition that it reads, the index is accepted for a query that says nothing of the condition left out.
\<close>

lemma partial_filter_dropped_condition:
  "di_preds (decodeListedIndex (sample_partial\<lparr>li_partial := Some [(''state'', GInt32 1), (''owner'', GOid w), (''$and'', GA cs)]\<rparr>))
     = di_preds (decodeListedIndex sample_partial)"
  by (simp add: sample_partial_def decodeListedIndex_def decodePartialFilter_def partial_element_def has_prefix_def
    canonicalRaw_def Let_def)

text \<open>A stage between two matches does not end the prefix whose predicates an index could serve: a match on a computed field is an equality of the collection.\<close>

lemma match_on_computed_field:
  "pp_eq (ProfileQuery (Some (GMap [], [GMap [(''$addFields'', GMap [(''total'', GInt 1)])], GMap [(''$match'', GMap [(''total'', GInt 1)])]])))
     = [''total'']
   \<and> pp_unsupported (ProfileQuery (Some (GMap [], [GMap [(''$addFields'', GMap [(''total'', GInt 1)])],
       GMap [(''$match'', GMap [(''total'', GInt 1)])]]))) = []"
  by code_simp

subsection \<open>One recommendation for each shape\<close>

lemma sequence_opt_pairs:
  assumes "\<And>s. \<exists>d. g s = Some d \<and> P d"
  shows "\<exists>es. sequence_opt (map (\<lambda>s. map_option (\<lambda>d. (d, s)) (g s)) ss) = Some es \<and> map snd es = ss \<and> list_all (\<lambda>e. P (fst e)) es"
proof (induction ss)
  case (Cons s ss)
  obtain d where "g s = Some d" "P d" using assms by blast
  then show ?case using Cons by auto
qed simp

lemma adviseShape_total: "\<exists>d. adviseShape rep s = Some d \<and> ad_shapes d = []"
proof -
  obtain plan where "deriveCandidate (shape_profile s) [] = Some plan" using deriveCandidate_total by blast
  then show ?thesis by (simp add: adviseShape_def Let_def split: prod.split)
qed

lemma mset_with_keys: "distinct ks \<Longrightarrow> mset (concat (map (with_key key es) ks)) = filter_mset (\<lambda>e. key e \<in> set ks) (mset es)"
proof (induction ks)
  case (Cons k ks)
  have "filter_mset (\<lambda>e. key e \<in> set (k # ks)) (mset es) = filter_mset (\<lambda>e. key e = k) (mset es) + filter_mset (\<lambda>e. key e \<in> set ks) (mset es)"
    using Cons.prems by (intro multiset_eqI) auto
  then show ?case using Cons by (simp add: with_key_def)
qed simp

lemma group_shapes: "ad_shapes (fold add_shape es g) = ad_shapes g @ map snd es"
  by (induction es arbitrary: g) (simp_all add: add_shape_def Let_def)

lemma rendered_ids: "ia_ids (renderAdvice rep d) = map xs_id (ad_shapes d)"
  by (simp add: renderAdvice_def withdraw_def Let_def split: option.split)

lemma advice_groups_shapes:
  assumes "list_all (\<lambda>e. ad_shapes (fst e) = []) es"
  shows "map (\<lambda>g. ad_shapes (snd g)) (advice_groups es)
    = map (\<lambda>k. map snd (with_key (\<lambda>e. ad_dedupe (fst e)) es k)) (appearance [] (map (\<lambda>e. ad_dedupe (fst e)) es))"
proof -
  let ?key = "\<lambda>e :: advice_draft \<times> coverage_shape. ad_dedupe (fst e)"
  have "ad_shapes (new_group (hd (with_key ?key es k))) = []" if "k \<in> set (appearance [] (map ?key es))" for k
  proof -
    have "with_key ?key es k \<noteq> []" using that by (auto simp: appearance_set with_key_def filter_empty_conv)
    then have "hd (with_key ?key es k) \<in> set es" by (metis filter_is_subset hd_in_set subsetD with_key_def)
    then show ?thesis using assms by (simp add: new_group_def list_all_iff)
  qed
  then show ?thesis unfolding advice_groups_def upsert_groups groups_def by (simp add: comp_def group_shapes)
qed


end
