(* ===== verification/ExplainFindings.thy ===== *)
theory ExplainFindings
  imports Efficiency
begin

text \<open>
  The diagnosis of explained samples and of a shape (\<open>internal/stats/explain_findings.go\<close>). The interpretation, recommendation
  and evidence texts are not modelled: nothing is decided by them.
\<close>

subsection \<open>Diagnoses\<close>

definition diagnosisOrder :: "string list" where
  "diagnosisOrder = [''collscan_selective_filter'', ''index_low_selectivity'', ''spill_to_disk'', ''blocking_sort'',
     ''collscan_unfiltered_expected'', ''collscan_low_selectivity'', ''index_backed_pipeline_cost'', ''collscan_unquantified'',
     ''index_supported_efficient'', ''index_supported_plan_only'', ''plan_signal_unclear'']"

definition DiagUnclear :: string where "DiagUnclear = ''plan_signal_unclear''"

definition diagnosisCap :: "string \<Rightarrow> string" where
  "diagnosisCap d =
     (if d \<in> set (take 3 diagnosisOrder) then ''high''
      else if d \<in> {''blocking_sort'', ''collscan_unfiltered_expected'', ''collscan_low_selectivity'', ''index_backed_pipeline_cost'',
        ''index_supported_efficient''} then ''medium''
      else if d \<in> {''collscan_unquantified'', ''index_supported_plan_only'', ''plan_signal_unclear''} then ''low'' else [])"

fun rank_in :: "string list \<Rightarrow> string \<Rightarrow> nat" where
  "rank_in [] d = 0"
| "rank_in (x # xs) d = (if x = d then 0 else Suc (rank_in xs d))"

definition diagnosisRank :: "string \<Rightarrow> nat" where "diagnosisRank = rank_in diagnosisOrder"

definition resultCount :: "plan_diagnostics \<Rightarrow> string \<Rightarrow> int" where
  "resultCount d op =
     (case dg_metrics d of
        Some m \<Rightarrow>
          (let c = fst (efficiencyResultCounter m op); c = (if c = None \<and> op = ''aggregate'' then pm_returned m else c) in
           case c of None \<Rightarrow> 0 | Some x \<Rightarrow> ec_value x)
      | None \<Rightarrow> if isWriteOp op then dg_nmatched d else dg_nreturned d)"

definition selectiveScanRatio :: int where "selectiveScanRatio = 10"

definition selectiveScanMinDocs :: int where "selectiveScanMinDocs = 1000"

text \<open>The product is an \<open>int64\<close>.\<close>

definition selective :: "int \<Rightarrow> int \<Rightarrow> bool" where
  "selective examined ret \<longleftrightarrow>
     selectiveScanMinDocs \<le> examined \<and> to_i64 ((if ret < 1 then 1 else ret) * selectiveScanRatio) \<le> examined"

definition ClassifyExplainSample :: "plan_diagnostics option \<Rightarrow> string \<Rightarrow> string" where
  "ClassifyExplainSample d0 op =
     (case d0 of
        None \<Rightarrow> DiagUnclear
      | Some d \<Rightarrow>
          (let ret = resultCount d op; scan = dg_collscan d; ix = dg_ixscan d; st = dg_stats d in
           if scan \<and> st \<and> \<not> dg_expected d \<and> selective (dg_docs d) ret then ''collscan_selective_filter''
           else if ix \<and> \<not> scan \<and> st \<and> selective (max (dg_keys d) (dg_docs d)) ret then ''index_low_selectivity''
           else if dg_disk d then ''spill_to_disk''
           else if dg_blocking d then ''blocking_sort''
           else if scan \<and> dg_expected d then ''collscan_unfiltered_expected''
           else if scan \<and> st then ''collscan_low_selectivity''
           else if ix \<and> dg_group d then ''index_backed_pipeline_cost''
           else if scan then ''collscan_unquantified''
           else if ix \<and> st then ''index_supported_efficient''
           else if ix then ''index_supported_plan_only''
           else DiagUnclear))"

text \<open>The diagnosis of a sample is stored in it; its confidence is capped at medium.\<close>

definition DescribeExplainSample :: "plan_diagnostics \<Rightarrow> string \<Rightarrow> plan_diagnostics \<times> string" where
  "DescribeExplainSample d op =
     (let dg = ClassifyExplainSample (Some d) op; conf = diagnosisCap dg in
      (d\<lparr>dg_diagnosis := dg\<rparr>, if confidenceScore ''medium'' < confidenceScore conf then ''medium'' else conf))"

definition diagnosisTitle :: "string \<Rightarrow> string \<Rightarrow> string" where
  "diagnosisTitle dg ns =
     (if dg = ''collscan_selective_filter'' then ''Collection scan on a selective filter in ''
      else if dg = ''index_low_selectivity'' then ''Index used but scans many entries in ''
      else if dg = ''spill_to_disk'' then ''Query stage spills to disk in ''
      else if dg = ''blocking_sort'' then ''In-memory sort in ''
      else if dg = ''collscan_unfiltered_expected'' then ''Unfiltered full scan in ''
      else if dg = ''collscan_low_selectivity'' then ''Collection scan with low selectivity in ''
      else if dg = ''index_backed_pipeline_cost'' then ''Post-match pipeline cost in ''
      else if dg = ''collscan_unquantified'' then ''Collection scan without execution metrics in ''
      else if dg = ''index_supported_efficient'' then ''Efficient plan does not explain latency in ''
      else if dg = ''index_supported_plan_only'' then ''Index-backed plan without execution metrics in ''
      else ''Explain plan inconclusive in '') @ ns"

definition isInconclusiveStatus :: "string \<Rightarrow> bool" where
  "isInconclusiveStatus status \<longleftrightarrow> status = ''timed_out'' \<or> status = ''execution_failed''"

definition needsExecutionStats :: "string \<Rightarrow> bool" where
  "needsExecutionStats dg \<longleftrightarrow> dg \<notin> {''blocking_sort'', ''collscan_unfiltered_expected'', ''index_backed_pipeline_cost''}"

subsection \<open>The finding of a shape\<close>

record explain_finding =
  ef_diagnosis :: string
  ef_title :: string
  ef_namespace :: string
  ef_confidence :: string
  ef_basis :: string
  ef_indexes :: "string list"
  ef_selected :: nat
  ef_explained :: nat
  ef_inconclusive :: nat
  ef_disagree :: bool

record slow_query =
  sq_id :: string
  sq_operation :: string
  sq_collection :: string
  sq_samples :: "plan_sample list"
  sq_status :: string
  sq_reason :: string
  sq_diag :: "plan_diagnostics option"
  sq_finding :: "explain_finding option"

definition explained_diags :: "plan_sample list \<Rightarrow> plan_diagnostics list" where
  "explained_diags ss = List.map_filter (\<lambda>s. if ps_status s = ''explained'' then ps_diag s else None) ss"

definition inconclusive_samples :: "plan_sample list \<Rightarrow> nat" where
  "inconclusive_samples ss =
     length (filter (\<lambda>s. \<not> (ps_status s = ''explained'' \<and> ps_diag s \<noteq> None) \<and> isInconclusiveStatus (ps_status s)) ss)"

text \<open>The most specific diagnosis so far and whether two differ.\<close>

definition primary_step :: "plan_diagnostics \<Rightarrow> plan_diagnostics \<times> bool \<Rightarrow> plan_diagnostics \<times> bool" where
  "primary_step d pd =
     (case pd of (p, disagree) \<Rightarrow>
       (if diagnosisRank (dg_diagnosis d) < diagnosisRank (dg_diagnosis p) then d else p,
        disagree \<or> dg_diagnosis d \<noteq> dg_diagnosis p))"

definition finding_quality :: "bool \<Rightarrow> bool \<Rightarrow> nat \<Rightarrow> nat \<Rightarrow> nat \<Rightarrow> string \<times> string" where
  "finding_quality disagree metricless explained inconclusive selected =
     (if disagree then (''low'', ''explained samples disagree on the diagnosis'')
      else if metricless then (''low'', ''no execution metrics (queryPlanner verbosity)'')
      else if 2 \<le> explained \<and> inconclusive = 0 then (''high'', itoa (int explained) @ '' distinct samples agree'')
      else (''medium'', itoa (int explained) @ '' of '' @ itoa (int selected) @ '' selected samples explained'' @
        (if 0 < inconclusive then ''; '' @ itoa (int inconclusive) @ '' inconclusive'' else [])))"

definition BuildExplainFinding :: "slow_query \<Rightarrow> explain_finding option" where
  "BuildExplainFinding sq =
     (case explained_diags (sq_samples sq) of
        [] \<Rightarrow> None
      | d # ds \<Rightarrow>
          (case fold primary_step (d # ds) (d, False) of
             (primary, disagree) \<Rightarrow>
               (let dg = dg_diagnosis primary; inconclusive = inconclusive_samples (sq_samples sq);
                    db = trim_space (dg_db primary); ns = (if db = [] then sq_collection sq else db @ ''.'' @ sq_collection sq);
                    qb = finding_quality disagree (\<not> list_all dg_stats (d # ds) \<and> needsExecutionStats dg) (length (d # ds)) inconclusive
                      (length (sq_samples sq));
                    cap = diagnosisCap dg; lower = (confidenceScore cap < confidenceScore (fst qb))
                in Some \<lparr>ef_diagnosis = dg, ef_title = diagnosisTitle dg ns, ef_namespace = ns,
                     ef_confidence = (if lower then cap else fst qb),
                     ef_basis = snd qb @ (if lower then ''; diagnosis type caps confidence at '' @ cap else []),
                     ef_indexes = appearance [] (concat (map dg_indexes (d # ds))), ef_selected = length (sq_samples sq),
                     ef_explained = length (d # ds), ef_inconclusive = inconclusive, ef_disagree = disagree\<rparr>)))"

definition explainFindingPriority :: "explain_finding \<Rightarrow> string" where
  "explainFindingPriority f =
     (if ef_diagnosis f \<in> {''collscan_selective_filter'', ''index_low_selectivity'', ''spill_to_disk''}
      then (if ef_confidence f = ''low'' then ''medium'' else ''high'')
      else if ef_diagnosis f \<in> {''blocking_sort'', ''index_backed_pipeline_cost''} then ''medium'' else ''low'')"

text \<open>The explained p95 sample, else an explained one, else the first with diagnostics.\<close>

definition primarySampleDiagnostics :: "plan_sample list \<Rightarrow> plan_diagnostics option" where
  "primarySampleDiagnostics ss =
     (let explained = filter (\<lambda>s. ps_status s = ''explained'' \<and> ps_diag s \<noteq> None) ss in
      case filter (\<lambda>s. contains ''p95'' (ps_role s)) explained of
        s # _ \<Rightarrow> ps_diag s
      | [] \<Rightarrow> (case explained of s # _ \<Rightarrow> ps_diag s
               | [] \<Rightarrow> (case List.map_filter ps_diag ss of d # _ \<Rightarrow> Some d | [] \<Rightarrow> None)))"

definition apply_finding :: "slow_query \<Rightarrow> slow_query" where
  "apply_finding sq =
     (case sq_samples sq of
        [] \<Rightarrow> sq
      | first # _ \<Rightarrow>
          (let f = BuildExplainFinding sq; sq' = sq\<lparr>sq_finding := f, sq_diag := primarySampleDiagnostics (sq_samples sq)\<rparr> in
           case f of
             Some x \<Rightarrow> sq'\<lparr>sq_status := ''explained'', sq_reason := ef_diagnosis x\<rparr>
           | None \<Rightarrow> sq'\<lparr>sq_status := ps_status first, sq_reason := ps_reason first\<rparr>))"

record index_issue =
  xi_status :: string
  xi_reason :: string
  xi_level :: string
  xi_confidence :: string
  xi_diagnosis :: string

definition applyFindingToIssue :: "slow_query option \<Rightarrow> index_issue \<Rightarrow> index_issue" where
  "applyFindingToIssue sq0 issue =
     (case sq0 of
        None \<Rightarrow> issue\<lparr>xi_status := ''explain_unavailable'', xi_reason := ''shape_not_in_top_slow_queries'',
          xi_level := ''heuristic_explain_unavailable'', xi_confidence := ''low''\<rparr>
      | Some sq \<Rightarrow>
          (let i = issue\<lparr>xi_status := sq_status sq, xi_reason := sq_reason sq\<rparr> in
           case sq_finding sq of
             Some f \<Rightarrow> i\<lparr>xi_level := ''explain_'' @ ef_diagnosis f, xi_diagnosis := ef_diagnosis f, xi_confidence := ef_confidence f\<rparr>
           | None \<Rightarrow> i\<lparr>xi_confidence := ''low'', xi_level :=
               (if isInconclusiveStatus (sq_status sq) then ''heuristic_explain_inconclusive''
                else if sq_status sq = ''cancelled'' then ''heuristic_explain_cancelled''
                else if sq_status sq = ''not_supported'' then ''heuristic_not_supported''
                else if sq_status sq = ''insufficient_metadata'' then ''heuristic_insufficient_metadata''
                else ''heuristic_explain_unavailable'')\<rparr>))"

end
