(* ===== verification/EfficiencyProofs.thy ===== *)
theory EfficiencyProofs
  imports ExplainFindings
begin

text \<open>
  What a scan efficiency score and a finding stand for: the score of partial evidence is an upper bound, efficient means
  complete evidence without a filtered collection scan, and the finding of a shape is the most specific diagnosis.
\<close>

subsection \<open>Penalties\<close>

text \<open>All that is used of \<open>math.Log10\<close>: it is not negative from 1 on.\<close>

definition log_ok :: "(rat \<Rightarrow> rat) \<Rightarrow> bool" where
  "log_ok lg \<longleftrightarrow> (\<forall>r. 1 < r \<longrightarrow> 0 \<le> lg r)"

lemma roundTo_unit:
  assumes "0 \<le> x" "x \<le> 1"
  shows "roundTo x 4 \<le> 1"
proof -
  have "fl (x * 10 ^ 4) \<le> of_int 10000" by (rule fl_le_int) (use assms in simp_all)
  moreover have "0 \<le> fl (x * 10 ^ 4)" using assms by (intro fl_nonneg) simp
  ultimately have "0 \<le> math_round (fl (x * 10 ^ 4))" "math_round (fl (x * 10 ^ 4)) \<le> 10000"
    by (simp_all add: math_round_nonneg math_round_le)
  then have "of_int (math_round (fl (x * 10 ^ 4))) / 10 ^ 4 \<le> (of_int 1 :: rat)" "0 \<le> of_int (math_round (fl (x * 10 ^ 4))) / (10 ^ 4 :: rat)"
    by simp_all
  then have "roundTo x 4 \<le> of_int 1" unfolding roundTo_def by (intro fl_le_int) simp_all
  then show ?thesis by simp
qed

lemma ratioPenalty_unit: "log_ok lg \<Longrightarrow> 0 \<le> ratioPenalty lg r \<and> ratioPenalty lg r \<le> 1"
  by (simp add: ratioPenalty_def log_ok_def fl_nonneg)

lemma collscan_penalty: "efficiencyCollscanPenalty \<le> 1" "0 < efficiencyCollscanPenalty" "efficiencyScore efficiencyCollscanPenalty = 38"
  by code_simp+

definition dims_unit :: "eff_dimension list \<Rightarrow> bool" where
  "dims_unit ds \<longleftrightarrow> list_all (\<lambda>d. case ed_penalty d of None \<Rightarrow> True | Some p \<Rightarrow> p \<le> 1) ds"

lemma sample_dims_unit: "log_ok lg \<Longrightarrow> dims_unit (sample_dims lg d role op)"
  by (auto simp: dims_unit_def sample_dims_def Let_def ratioDimension_def collscan_dimension_def collscan_penalty roundTo_unit
    ratioPenalty_unit split: option.split)

lemma score_antimono: "w \<le> w' \<Longrightarrow> w' \<le> 1 \<Longrightarrow> efficiencyScore w' \<le> efficiencyScore w"
  unfolding efficiencyScore_def by (intro math_round_mono fl_mono mult_left_mono) (simp_all add: fl_nonneg)

lemma score_range: "0 \<le> w \<Longrightarrow> w \<le> 1 \<Longrightarrow> 0 \<le> efficiencyScore w \<and> efficiencyScore w \<le> 100"
proof -
  assume w: "0 \<le> w" "w \<le> 1"
  have "efficiencyScore 1 \<le> efficiencyScore w" "efficiencyScore w \<le> efficiencyScore 0" using w by (auto intro: score_antimono)
  moreover have "efficiencyScore 1 = 0" "efficiencyScore 0 = 100" by code_simp+
  ultimately show ?thesis by simp
qed

subsection \<open>The worst dimension\<close>

definition worst_of :: "eff_dimension list \<Rightarrow> rat" where
  "worst_of ds = fst (fold worst_step ds (0, [], False))"

lemma worst_step_cases:
  "fst (worst_step d w) = (if ed_applicable d then (case ed_penalty d of None \<Rightarrow> fst w | Some p \<Rightarrow> max (fst w) p) else fst w)"
  "snd (snd (worst_step d w)) \<longleftrightarrow> snd (snd w) \<or> (ed_applicable d \<and> ed_penalty d = None)"
  by (auto simp: worst_step_def split: option.split prod.split)

lemma fold_worst_ge: "fst w \<le> fst (fold worst_step ds w)"
proof (induction ds arbitrary: w)
  case (Cons d ds)
  have "fst w \<le> fst (worst_step d w)" by (simp add: worst_step_cases split: option.split)
  then show ?case using Cons [of "worst_step d w"] by simp
qed simp

lemma fold_worst_unit: "dims_unit ds \<Longrightarrow> fst w \<le> 1 \<Longrightarrow> fst (fold worst_step ds w) \<le> 1"
proof (induction ds arbitrary: w)
  case (Cons d ds)
  have "fst (worst_step d w) \<le> 1" using Cons.prems by (simp add: worst_step_cases dims_unit_def split: option.splits)
  then show ?case using Cons by (simp add: dims_unit_def)
qed simp

lemma fold_worst_member: "d \<in> set ds \<Longrightarrow> ed_applicable d \<Longrightarrow> ed_penalty d = Some p \<Longrightarrow> p \<le> fst (fold worst_step ds w)"
proof (induction ds arbitrary: w)
  case (Cons x ds)
  show ?case
  proof (cases "d = x")
    case True
    then show ?thesis using Cons.prems fold_worst_ge [of "worst_step x w" ds] by (simp add: worst_step_cases)
  next
    case False
    then show ?thesis using Cons.prems Cons.IH [of "worst_step x w"] by simp
  qed
qed simp

lemma fold_worst_missing: "snd (snd (fold worst_step ds w)) \<longleftrightarrow> snd (snd w) \<or> (\<exists>d\<in>set ds. ed_applicable d \<and> ed_penalty d = None)"
  by (induction ds arbitrary: w) (auto simp: worst_step_cases)

text \<open>One assessment adds to another: a penalty it has is the same, a penalty it lacks may be any.\<close>

definition adds_to :: "eff_dimension \<Rightarrow> eff_dimension \<Rightarrow> bool" where
  "adds_to d d' \<longleftrightarrow> ed_applicable d \<and> ed_applicable d' \<and> (ed_penalty d = None \<or> ed_penalty d' = ed_penalty d)"

lemma fold_worst_adds: "list_all2 adds_to ds ds' \<Longrightarrow> fst w \<le> fst w' \<Longrightarrow> fst (fold worst_step ds w) \<le> fst (fold worst_step ds' w')"
proof (induction ds ds' arbitrary: w w' rule: list_all2_induct)
  case (Cons d ds d' ds')
  have "fst (worst_step d w) \<le> fst (worst_step d' w')"
    using Cons.hyps(1) Cons.prems by (auto simp: worst_step_cases adds_to_def split: option.splits)
  then show ?case using Cons.IH by simp
qed simp

subsection \<open>Completing the evidence\<close>

definition counter_completes :: "explain_counter option \<Rightarrow> explain_counter option \<Rightarrow> bool" where
  "counter_completes c c' \<longleftrightarrow> c = None \<or> c' = c"

definition metrics_complete :: "plan_metrics \<Rightarrow> plan_metrics \<Rightarrow> bool" where
  "metrics_complete m m' \<longleftrightarrow>
     counter_completes (pm_docs m) (pm_docs m') \<and> counter_completes (pm_keys m) (pm_keys m')
     \<and> counter_completes (pm_returned m) (pm_returned m') \<and> counter_completes (pm_access m) (pm_access m')
     \<and> counter_completes (pm_matched m) (pm_matched m') \<and> (pm_unsupported m = [] \<longrightarrow> pm_unsupported m' = [])"

text \<open>The same sample with more of its counters reported; of a sample that was not explained it may be any.\<close>

definition sample_completes :: "plan_sample \<Rightarrow> plan_sample \<Rightarrow> bool" where
  "sample_completes s s' \<longleftrightarrow>
     (ps_status s = ''explained'' \<and> ps_diag s \<noteq> None \<longrightarrow>
        ps_status s' = ''explained'' \<and> (case (ps_diag s, ps_diag s') of
          (Some d, Some d') \<Rightarrow> dg_collscan d' = dg_collscan d \<and> dg_expected d' = dg_expected d \<and> (dg_stats d \<longrightarrow> dg_stats d')
            \<and> (case dg_metrics d of None \<Rightarrow> True | Some m \<Rightarrow> (case dg_metrics d' of None \<Rightarrow> False | Some m' \<Rightarrow> metrics_complete m m'))
        | _ \<Rightarrow> False))"

lemma ratio_missing_empty:
  "ratio_missing d op = [] \<longleftrightarrow> dg_metrics d \<noteq> None \<and> dg_stats d \<and> pm_unsupported (sample_metrics_of d) = []
     \<and> fst (efficiencyResultCounter (sample_metrics_of d) op) \<noteq> None"
  by (auto simp: ratio_missing_def Let_def efficiencyResultCounter_def)

lemma ratioDimension_penalty:
  "ed_applicable (ratioDimension lg name e r lack role)"
  "ed_penalty (ratioDimension lg name e r lack role) \<noteq> None \<longleftrightarrow> lack = [] \<and> e \<noteq> None \<and> r \<noteq> None"
  by (auto simp: ratioDimension_def Let_def split: option.split)

lemma ratioDimension_role: "ed_penalty (ratioDimension lg name e r [] role) = ed_penalty (ratioDimension lg name e r [] role')"
  by (simp add: ratioDimension_def Let_def split: option.split)

lemma sample_dims_add:
  assumes "dg_collscan d' = dg_collscan d" "dg_expected d' = dg_expected d" "dg_stats d \<longrightarrow> dg_stats d'"
    "case dg_metrics d of None \<Rightarrow> True | Some m \<Rightarrow> (case dg_metrics d' of None \<Rightarrow> False | Some m' \<Rightarrow> metrics_complete m m')"
  shows "list_all2 adds_to (sample_dims lg d role op) (sample_dims lg d' role' op)"
proof -
  have c: "adds_to (collscan_dimension d role) (collscan_dimension d' role')"
    using assms(1,2) by (simp add: adds_to_def collscan_dimension_def Let_def)
  show ?thesis
  proof (cases "ratio_missing d op = []")
    case True
    then obtain m m' where m: "dg_metrics d = Some m" "dg_metrics d' = Some m'" "metrics_complete m m'"
      using assms(4) by (auto simp: ratio_missing_empty split: option.splits)
    have r: "fst (efficiencyResultCounter m' op) = fst (efficiencyResultCounter m op)"
      using True m by (auto simp: ratio_missing_empty sample_metrics_of_def efficiencyResultCounter_def metrics_complete_def counter_completes_def split: if_splits)
    have "ratio_missing d' op = []" using True m assms(3) r by (auto simp: ratio_missing_empty sample_metrics_of_def metrics_complete_def)
    moreover have "adds_to (ratioDimension lg name e r [] role) (ratioDimension lg name e' r [] role')" if "counter_completes e e'" for name e e' r
      using that ratioDimension_penalty ratioDimension_role [of lg name e r role role'] unfolding adds_to_def counter_completes_def by metis
    ultimately show ?thesis using True m r c by (simp add: sample_dims_def Let_def sample_metrics_of_def metrics_complete_def)
  next
    case False
    then have "ed_penalty (ratioDimension lg name e r (ratio_missing d op) role) = None" for name e r
      using ratioDimension_penalty(2) by metis
    then show ?thesis using c by (simp add: sample_dims_def Let_def adds_to_def ratioDimension_penalty(1))
  qed
qed

subsection \<open>Samples\<close>

lemma score_of_sample:
  assumes "ps_status s = ''explained''" "ps_diag s = Some d"
  shows "es_score (scoreEfficiencySample lg s op) = Some (efficiencyScore (worst_of (sample_dims lg d (ps_role s) op)))"
    and "es_status (scoreEfficiencySample lg s op) =
      (if \<exists>x\<in>set (sample_dims lg d (ps_role s) op). ed_penalty x = None then EfficiencyPartial else EfficiencyRated)"
proof -
  have app: "ed_applicable x" if "x \<in> set (sample_dims lg d (ps_role s) op)" for x
    using that ratioDimension_penalty(1) by (auto simp: sample_dims_def Let_def collscan_dimension_def)
  show "es_score (scoreEfficiencySample lg s op) = Some (efficiencyScore (worst_of (sample_dims lg d (ps_role s) op)))"
    by (simp add: scoreEfficiencySample_def assms Let_def worst_of_def split: prod.split)
  show "es_status (scoreEfficiencySample lg s op) =
      (if \<exists>x\<in>set (sample_dims lg d (ps_role s) op). ed_penalty x = None then EfficiencyPartial else EfficiencyRated)"
    using fold_worst_missing [of "sample_dims lg d (ps_role s) op" "(0, [], False)"] app
    by (auto simp: scoreEfficiencySample_def assms Let_def split: prod.split)
qed

lemma unscored_sample:
  "\<not> (ps_status s = ''explained'' \<and> ps_diag s \<noteq> None) \<Longrightarrow>
     es_score (scoreEfficiencySample lg s op) = None \<and> es_status (scoreEfficiencySample lg s op) = EfficiencyUnassessed"
  by (auto simp: scoreEfficiencySample_def unassessed_sample_def split: option.split bool.split)

lemma worst_range:
  assumes "log_ok lg"
  shows "0 \<le> worst_of (sample_dims lg d role op)" "worst_of (sample_dims lg d role op) \<le> 1"
  unfolding worst_of_def using fold_worst_ge [of "(0, [], False)"] fold_worst_unit [OF sample_dims_unit [OF assms]] by auto

lemma sample_score_range: "log_ok lg \<Longrightarrow> es_score (scoreEfficiencySample lg s op) = Some n \<Longrightarrow> 0 \<le> n \<and> n \<le> 100"
  using score_of_sample(1) [of s _ lg op] unscored_sample [of s lg op] score_range worst_range
  by (cases "ps_status s = ''explained'' \<and> ps_diag s \<noteq> None") auto

lemma completed_sample_score:
  assumes "log_ok lg" "sample_completes s s'" "es_score (scoreEfficiencySample lg s op) = Some n"
  shows "\<exists>n'\<le>n. es_score (scoreEfficiencySample lg s' op) = Some n'"
proof -
  have ex: "ps_status s = ''explained'' \<and> ps_diag s \<noteq> None" using assms(3) unscored_sample by fastforce
  then obtain d d' where d: "ps_diag s = Some d" "ps_diag s' = Some d'" "ps_status s' = ''explained''"
    and c: "dg_collscan d' = dg_collscan d" "dg_expected d' = dg_expected d" "dg_stats d \<longrightarrow> dg_stats d'"
      "case dg_metrics d of None \<Rightarrow> True | Some m \<Rightarrow> (case dg_metrics d' of None \<Rightarrow> False | Some m' \<Rightarrow> metrics_complete m m')"
    using assms(2) by (auto simp: sample_completes_def split: option.splits)
  have "worst_of (sample_dims lg d (ps_role s) op) \<le> worst_of (sample_dims lg d' (ps_role s') op)"
    unfolding worst_of_def by (rule fold_worst_adds [OF sample_dims_add [OF c]]) simp
  then have "efficiencyScore (worst_of (sample_dims lg d' (ps_role s') op)) \<le> efficiencyScore (worst_of (sample_dims lg d (ps_role s) op))"
    by (rule score_antimono) (rule worst_range [OF assms(1)])
  then show ?thesis using assms(3) ex d by (simp add: score_of_sample(1))
qed

subsection \<open>Shapes\<close>

lemma determining_least:
  "case determining ss of
     None \<Rightarrow> list_all (\<lambda>es. es_score es = None) ss
   | Some d \<Rightarrow> d \<in> set ss \<and> (\<exists>n. es_score d = Some n \<and> list_all (\<lambda>es. case es_score es of None \<Rightarrow> True | Some k \<Rightarrow> n \<le> k) ss)"
proof (induction ss rule: rev_induct)
  case (snoc es ss)
  have step: "determining (ss @ [es]) = determining_step es (determining ss)" by (simp add: determining_def)
  show ?case
  proof (cases "es_score es")
    case None
    then show ?thesis using snoc by (auto simp: step determining_step_def split: option.splits)
  next
    case (Some k)
    then show ?thesis using snoc
      by (cases "determining ss") (force simp: step determining_step_def list_all_iff split: option.splits)+
  qed
qed (simp add: determining_def)

definition shape_samples :: "(rat \<Rightarrow> rat) \<Rightarrow> coverage_shape \<Rightarrow> eff_sample list" where
  "shape_samples lg cs = map (\<lambda>s. scoreEfficiencySample lg s (xs_operation cs)) (xs_samples cs)"

lemma shape_score:
  "qe_score (BuildQueryEfficiency lg cs) =
     (if isInsertOp (xs_operation cs) \<or> xs_status cs \<noteq> ''explained'' then None
      else case determining (shape_samples lg cs) of None \<Rightarrow> None | Some d \<Rightarrow> Some (the (es_score d)))"
  by (simp add: BuildQueryEfficiency_def shape_samples_def unassessed_efficiency_def rate_shape_def grade_def Let_def split: option.split)

lemma shape_score_least:
  assumes "qe_score (BuildQueryEfficiency lg cs) = Some n" "es \<in> set (shape_samples lg cs)" "es_score es = Some k"
  shows "n \<le> k"
  using assms determining_least [of "shape_samples lg cs"] by (fastforce simp: shape_score list_all_iff split: option.splits if_splits)

lemma shape_score_member:
  assumes "qe_score (BuildQueryEfficiency lg cs) = Some n"
  shows "\<exists>es\<in>set (shape_samples lg cs). es_score es = Some n"
  using assms determining_least [of "shape_samples lg cs"] by (auto simp: shape_score split: option.splits if_splits)

lemma shape_has_score:
  assumes "\<not> isInsertOp (xs_operation cs)" "xs_status cs = ''explained''" "es \<in> set (shape_samples lg cs)" "es_score es = Some k"
  obtains n where "qe_score (BuildQueryEfficiency lg cs) = Some n"
  using assms determining_least [of "shape_samples lg cs"] by (fastforce simp: shape_score list_all_iff split: option.splits)

text \<open>C34: The score of partial evidence is an upper bound. If the explain of a shape reports more of the counters it left out and the
  rest is the same, the shape still has a score and it is no higher; every score lies between 0 and 100.
\<close>

theorem partial_score_is_upper_bound:
  assumes log: "log_ok lg" and completes: "list_all2 sample_completes (xs_samples cs) (xs_samples cs')"
    and same: "xs_operation cs' = xs_operation cs" "xs_status cs' = xs_status cs"
    and scored: "qe_score (BuildQueryEfficiency lg cs) = Some n"
  shows "\<exists>n'. qe_score (BuildQueryEfficiency lg cs') = Some n' \<and> 0 \<le> n' \<and> n' \<le> n \<and> n \<le> 100"
proof -
  obtain es where es: "es \<in> set (shape_samples lg cs)" "es_score es = Some n" using shape_score_member [OF scored] by blast
  then obtain i where i: "i < length (xs_samples cs)" "es_score (scoreEfficiencySample lg (xs_samples cs ! i) (xs_operation cs)) = Some n"
    by (auto simp: shape_samples_def in_set_conv_nth)
  have "sample_completes (xs_samples cs ! i) (xs_samples cs' ! i)" "i < length (xs_samples cs')"
    using completes i(1) by (simp_all add: list_all2_conv_all_nth)
  then obtain k where k: "k \<le> n" "es_score (scoreEfficiencySample lg (xs_samples cs' ! i) (xs_operation cs')) = Some k"
    using completed_sample_score [OF log _ i(2)] same(1) by auto
  have mem: "scoreEfficiencySample lg (xs_samples cs' ! i) (xs_operation cs') \<in> set (shape_samples lg cs')"
    using \<open>i < length (xs_samples cs')\<close> by (auto simp: shape_samples_def)
  have "\<not> isInsertOp (xs_operation cs') \<and> xs_status cs' = ''explained''" using scored same by (auto simp: shape_score split: if_splits)
  then obtain n' where n': "qe_score (BuildQueryEfficiency lg cs') = Some n'" using shape_has_score mem k(2) by metis
  moreover have "n' \<le> n" using shape_score_least [OF n' mem k(2)] k(1) by simp
  moreover have "0 \<le> n'" using shape_score_member [OF n'] sample_score_range [OF log] by (auto simp: shape_samples_def)
  moreover have "n \<le> 100" using sample_score_range [OF log i(2)] by simp
  ultimately show ?thesis by blast
qed

definition complete_sample :: plan_sample where
  "complete_sample =
     (let c = (\<lambda>n. Some \<lparr>ec_value = n, ec_source = ''executionStats'', ec_lower = False\<rparr>) in
      \<lparr>ps_role = ''median'', ps_status = ''explained'', ps_reason = [], ps_shared = False,
       ps_diag = Some \<lparr>dg_db = ''db'', dg_expected = False, dg_stats = True, dg_indexes = [], dg_collscan = False, dg_ixscan = True,
         dg_fetch = True, dg_group = False, dg_blocking = False, dg_disk = False, dg_docs = 5000, dg_keys = 5000, dg_nreturned = 5,
         dg_nmatched = 0, dg_metrics = Some (zero_metrics\<lparr>pm_docs := c 5000, pm_keys := c 5000, pm_returned := c 5\<rparr>),
         dg_diagnosis = ''index_low_selectivity''\<rparr>\<rparr>)"

text \<open>The sample without its count of documents.\<close>

definition partial_sample :: plan_sample where
  "partial_sample = complete_sample\<lparr>ps_diag := map_option (\<lambda>d. d\<lparr>dg_metrics := map_option (\<lambda>m. m\<lparr>pm_docs := None, pm_keys := None\<rparr>) (dg_metrics d)\<rparr>)
     (ps_diag complete_sample)\<rparr>"

definition sample_shape :: "plan_sample list \<Rightarrow> coverage_shape" where
  "sample_shape ss = \<lparr>xs_id = ''s1'', xs_ns = ''db.c'', xs_operation = ''find'', xs_status = ''explained'', xs_reason = [], xs_selectedBy = [],
     xs_evidence = [], xs_scope = [], xs_samples = ss, xs_finding = None, xs_efficiency = None, xs_predicates = None\<rparr>"

text \<open>A logarithm of whole decades.\<close>

definition decades :: "rat \<Rightarrow> rat" where
  "decades r = (if r < 10 then 0 else if r < 100 then 1 else if r < 1000 then 2 else 3)"

lemma decades_ok: "log_ok decades"
  by (simp add: log_ok_def decades_def)

lemma partial_score_is_upper_bound_witness:
  "\<exists>n'. qe_score (BuildQueryEfficiency decades (sample_shape [complete_sample])) = Some n' \<and> 0 \<le> n' \<and> n' \<le> 100 \<and> (100 :: int) \<le> 100"
proof (rule partial_score_is_upper_bound [OF decades_ok, of "sample_shape [partial_sample]"])
  show "list_all2 sample_completes (xs_samples (sample_shape [partial_sample])) (xs_samples (sample_shape [complete_sample]))"
    by (simp add: sample_shape_def sample_completes_def partial_sample_def complete_sample_def metrics_complete_def counter_completes_def zero_metrics_def Let_def)
  show "qe_score (BuildQueryEfficiency decades (sample_shape [partial_sample])) = Some 100" by code_simp
qed (simp_all add: sample_shape_def)

text \<open>C35: Efficient is said on complete evidence only: when a shape's band is efficient, every sample that was explained reported the
  documents examined, the keys examined and the results, and none of them scanned the whole collection through a filter.
\<close>

theorem efficient_on_full_evidence:
  assumes log: "log_ok lg" and band: "qe_band (BuildQueryEfficiency lg cs) = ''efficient''"
    and explained: "s \<in> set (xs_samples cs)" "ps_status s = ''explained''" "ps_diag s = Some d"
  shows "\<not> (dg_collscan d \<and> \<not> dg_expected d) \<and> ratio_missing d (xs_operation cs) = []
    \<and> pm_docs (sample_metrics_of d) \<noteq> None \<and> pm_keys (sample_metrics_of d) \<noteq> None"
proof -
  let ?op = "xs_operation cs" and ?es = "scoreEfficiencySample lg s (xs_operation cs)"
  let ?dims = "sample_dims lg d (ps_role s) (xs_operation cs)"
  have mem: "?es \<in> set (shape_samples lg cs)" using explained(1) by (simp add: shape_samples_def)
  have ub: "upperBoundBand n \<noteq> ''efficient''" for n by (simp add: upperBoundBand_def efficiencyBand_def)
  have ok: "\<not> isInsertOp ?op \<and> xs_status cs = ''explained''"
    using band by (auto simp: BuildQueryEfficiency_def unassessed_efficiency_def split: if_splits)
  then have q: "BuildQueryEfficiency lg cs = rate_shape (xs_scope cs) (shape_samples lg cs)"
    by (simp add: BuildQueryEfficiency_def shape_samples_def)
  obtain det where det: "determining (shape_samples lg cs) = Some det"
    using band unfolding q by (cases "determining (shape_samples lg cs)") (simp_all add: rate_shape_def Let_def unassessed_efficiency_def)
  have nopartial: "filter (\<lambda>s. es_status s = EfficiencyPartial) (shape_samples lg cs) = []"
  proof (rule ccontr)
    assume "filter (\<lambda>s. es_status s = EfficiencyPartial) (shape_samples lg cs) \<noteq> []"
    then show False using band ub unfolding q by (simp add: rate_shape_def Let_def det grade_def)
  qed
  have high: "efficiencyEfficientMin \<le> the (es_score det)"
    using band unfolding q by (auto simp: rate_shape_def Let_def det grade_def nopartial efficiencyBand_def split: if_splits)
  have "es_status ?es \<noteq> EfficiencyPartial" using nopartial mem by (auto simp: filter_empty_conv)
  then have full: "ed_penalty x \<noteq> None" if "x \<in> set ?dims" for x
    using that score_of_sample(2) [OF explained(2,3), of lg ?op] by (auto split: if_splits)
  let ?m = "sample_metrics_of d"
  have "ratioDimension lg ''docs_per_result'' (pm_docs ?m) (fst (efficiencyResultCounter ?m ?op)) (ratio_missing d ?op) (ps_role s) \<in> set ?dims"
    "ratioDimension lg ''keys_per_result'' (pm_keys ?m) (fst (efficiencyResultCounter ?m ?op)) (ratio_missing d ?op) (ps_role s) \<in> set ?dims"
    "collscan_dimension d (ps_role s) \<in> set ?dims"
    by (simp_all add: sample_dims_def Let_def)
  note dims = this
  have counts: "ratio_missing d ?op = [] \<and> pm_docs ?m \<noteq> None" "pm_keys ?m \<noteq> None"
    using full [OF dims(1)] full [OF dims(2)] unfolding ratioDimension_penalty(2) by blast+
  have "\<not> (dg_collscan d \<and> \<not> dg_expected d)"
  proof
    assume scan: "dg_collscan d \<and> \<not> dg_expected d"
    then have c: "ed_applicable (collscan_dimension d (ps_role s))" "ed_penalty (collscan_dimension d (ps_role s)) = Some efficiencyCollscanPenalty"
      by (simp_all add: collscan_dimension_def Let_def)
    have "efficiencyCollscanPenalty \<le> worst_of ?dims" unfolding worst_of_def by (rule fold_worst_member [OF dims(3) c])
    then have "efficiencyScore (worst_of ?dims) \<le> 38"
      using score_antimono [OF _ worst_range(2) [OF log]] collscan_penalty(3) by metis
    moreover have "the (es_score det) \<le> efficiencyScore (worst_of ?dims)"
      using shape_score_least [OF _ mem score_of_sample(1) [OF explained(2,3)]] ok det by (simp add: shape_score)
    ultimately show False using high by (simp add: efficiencyEfficientMin_def)
  qed
  then show ?thesis using counts by simp
qed

definition efficient_sample :: plan_sample where
  "efficient_sample = complete_sample\<lparr>ps_diag := map_option (\<lambda>d. d\<lparr>dg_metrics := map_option (\<lambda>m. m\<lparr>pm_returned := pm_docs m\<rparr>) (dg_metrics d)\<rparr>)
     (ps_diag complete_sample)\<rparr>"

lemma rate_single:
  "es_score x = Some n \<Longrightarrow> es_status x = EfficiencyRated \<Longrightarrow> qe_band (rate_shape sc [x]) = efficiencyBand n"
  by (simp add: rate_shape_def Let_def determining_def determining_step_def grade_def EfficiencyRated_def EfficiencyPartial_def)

lemma efficient_sample_score:
  "es_score (scoreEfficiencySample decades efficient_sample ''find'') = Some 100"
  "es_status (scoreEfficiencySample decades efficient_sample ''find'') = EfficiencyRated"
proof -
  obtain d where d: "ps_diag efficient_sample = Some d" by (simp add: efficient_sample_def complete_sample_def Let_def)
  have e: "ps_status efficient_sample = ''explained''" by (simp add: efficient_sample_def complete_sample_def Let_def)
  have "case ps_diag efficient_sample of None \<Rightarrow> False
    | Some d \<Rightarrow> map ed_penalty (sample_dims decades d ''median'' ''find'') = [Some 0, Some 0, Some 0]" by code_simp
  moreover have "ps_role efficient_sample = ''median''" by (simp add: efficient_sample_def complete_sample_def Let_def)
  ultimately have pen: "map ed_penalty (sample_dims decades d (ps_role efficient_sample) ''find'') = [Some 0, Some 0, Some 0]" using d by simp
  then have all: "\<And>x. x \<in> set (sample_dims decades d (ps_role efficient_sample) ''find'') \<Longrightarrow> ed_penalty x = Some 0"
    by (auto simp: map_eq_Cons_conv)
  have "fst (fold worst_step ds w) = fst w" if "\<And>x. x \<in> set ds \<Longrightarrow> ed_penalty x = Some 0" "0 \<le> fst w" for ds w
    using that by (induction ds arbitrary: w) (simp_all add: worst_step_cases)
  then have "worst_of (sample_dims decades d (ps_role efficient_sample) ''find'') = 0" unfolding worst_of_def using all by simp
  moreover have "efficiencyScore 0 = 100" by code_simp
  ultimately show "es_score (scoreEfficiencySample decades efficient_sample ''find'') = Some 100"
    "es_status (scoreEfficiencySample decades efficient_sample ''find'') = EfficiencyRated"
    using all by (auto simp: score_of_sample [OF e d])
qed

lemma efficient_on_full_evidence_witness:
  "\<exists>d. ps_diag efficient_sample = Some d \<and> ratio_missing d ''find'' = [] \<and> pm_docs (sample_metrics_of d) \<noteq> None"
proof -
  obtain d where d: "ps_diag efficient_sample = Some d" by (simp add: efficient_sample_def complete_sample_def Let_def)
  have "\<not> (dg_collscan d \<and> \<not> dg_expected d) \<and> ratio_missing d (xs_operation (sample_shape [efficient_sample])) = []
    \<and> pm_docs (sample_metrics_of d) \<noteq> None \<and> pm_keys (sample_metrics_of d) \<noteq> None"
  proof (rule efficient_on_full_evidence [OF decades_ok])
    show "qe_band (BuildQueryEfficiency decades (sample_shape [efficient_sample])) = ''efficient''"
      using rate_single [OF efficient_sample_score, of "[]"]
      by (simp add: BuildQueryEfficiency_def sample_shape_def isInsertOp_def efficiencyBand_def efficiencyEfficientMin_def)
    show "efficient_sample \<in> set (xs_samples (sample_shape [efficient_sample]))" by (simp add: sample_shape_def)
    show "ps_status efficient_sample = ''explained''" by (simp add: efficient_sample_def complete_sample_def Let_def)
  qed (rule d)
  then show ?thesis using d by (simp add: sample_shape_def)
qed

subsection \<open>Findings\<close>

lemma primary_fold:
  "fst (fold primary_step ds (p, b)) \<in> insert p (set ds)
   \<and> (\<forall>x\<in>insert p (set ds). diagnosisRank (dg_diagnosis (fst (fold primary_step ds (p, b)))) \<le> diagnosisRank (dg_diagnosis x))
   \<and> (snd (fold primary_step ds (p, b)) \<longleftrightarrow> b \<or> (\<exists>x\<in>set ds. dg_diagnosis x \<noteq> dg_diagnosis p))"
proof (induction ds arbitrary: p b)
  case (Cons d ds)
  show ?case
  proof (cases "diagnosisRank (dg_diagnosis d) < diagnosisRank (dg_diagnosis p)")
    case True
    then have "dg_diagnosis d \<noteq> dg_diagnosis p" by auto
    then show ?thesis using True Cons.IH [of d True] by (auto simp: primary_step_def)
  next
    case False
    then show ?thesis using Cons.IH [of p "b \<or> dg_diagnosis d \<noteq> dg_diagnosis p"] by (auto simp: primary_step_def)
  qed
qed simp

lemma confidence_high: "confidenceScore c \<le> 3"
  by (simp add: confidenceScore_def)

lemma cap_high: "3 \<le> confidenceScore (diagnosisCap d) \<Longrightarrow> d \<in> {''collscan_selective_filter'', ''index_low_selectivity'', ''spill_to_disk''}"
  by (rule ccontr) (auto simp: diagnosisCap_def diagnosisOrder_def confidenceScore_def to_lower_def split: if_splits)

lemma finding_cases:
  assumes "BuildExplainFinding sq = Some f"
  obtains d ds p where "explained_diags (sq_samples sq) = d # ds" "p \<in> set (d # ds)" "ef_diagnosis f = dg_diagnosis p"
    "\<And>x. x \<in> set (d # ds) \<Longrightarrow> diagnosisRank (dg_diagnosis p) \<le> diagnosisRank (dg_diagnosis x)"
    "ef_disagree f \<longleftrightarrow> (\<exists>x\<in>set ds. dg_diagnosis x \<noteq> dg_diagnosis d)"
    "ef_confidence f = (let q = fst (finding_quality (ef_disagree f) (\<not> list_all dg_stats (d # ds) \<and> needsExecutionStats (dg_diagnosis p))
       (length (d # ds)) (inconclusive_samples (sq_samples sq)) (length (sq_samples sq)))
     in if confidenceScore (diagnosisCap (dg_diagnosis p)) < confidenceScore q then diagnosisCap (dg_diagnosis p) else q)"
proof (cases "explained_diags (sq_samples sq)")
  case Nil
  then show ?thesis using assms by (simp add: BuildExplainFinding_def)
next
  case (Cons d ds)
  have first: "primary_step d (d, False) = (d, False)" by (simp add: primary_step_def)
  obtain p b where pb: "fold primary_step ds (d, False) = (p, b)" by (cases "fold primary_step ds (d, False)")
  have b: "b \<longleftrightarrow> (\<exists>x\<in>set ds. dg_diagnosis x \<noteq> dg_diagnosis d)" using primary_fold [of ds d False] pb by auto
  have p: "p \<in> set (d # ds)" "\<And>x. x \<in> set (d # ds) \<Longrightarrow> diagnosisRank (dg_diagnosis p) \<le> diagnosisRank (dg_diagnosis x)"
    using primary_fold [of ds d False] pb by auto
  have "ef_diagnosis f = dg_diagnosis p" "ef_disagree f = b"
    "ef_confidence f = (let q = fst (finding_quality b (\<not> list_all dg_stats (d # ds) \<and> needsExecutionStats (dg_diagnosis p))
       (length (d # ds)) (inconclusive_samples (sq_samples sq)) (length (sq_samples sq)))
     in if confidenceScore (diagnosisCap (dg_diagnosis p)) < confidenceScore q then diagnosisCap (dg_diagnosis p) else q)"
    using assms by (auto simp: BuildExplainFinding_def Cons first pb Let_def)
  then show ?thesis using that [OF Cons p(1) _ p(2)] b by simp
qed


definition two_samples :: slow_query where
  "two_samples = \<lparr>sq_id = ''s1'', sq_operation = ''find'', sq_collection = ''c'', sq_samples = [complete_sample, complete_sample\<lparr>ps_shared := True\<rparr>],
     sq_status = [], sq_reason = [], sq_diag = None, sq_finding = None\<rparr>"


text \<open>
  A sample that shares the explain of another one counts like an explain of its own: one explained command is reported as two
  samples that agree.
\<close>

lemma shared_sample_counts:
  "BuildExplainFinding (sq\<lparr>sq_samples := map (\<lambda>s. s\<lparr>ps_shared := b\<rparr>) (sq_samples sq)\<rparr>) = BuildExplainFinding sq"
proof -
  have e: "explained_diags (map (\<lambda>s. s\<lparr>ps_shared := b\<rparr>) ss) = explained_diags ss" for ss
    by (induction ss) (simp_all add: explained_diags_def List.map_filter_simps split: option.split)
  have i: "inconclusive_samples (map (\<lambda>s. s\<lparr>ps_shared := b\<rparr>) ss) = inconclusive_samples ss" for ss
    by (simp add: inconclusive_samples_def filter_map comp_def)
  show ?thesis by (cases "explained_diags (sq_samples sq)") (simp_all add: BuildExplainFinding_def e i Let_def split: prod.split)
qed

end
