(* ===== verification/Multitarget.thy ===== *)
theory Multitarget
  imports ConfigUse CompareReport
begin

text \<open>
  Runs against several targets (\<open>internal/multitarget/multitarget.go\<close>): the settings each target gets, the life of a
  target from preparation to its final status, sequentially or concurrently, and the comparison of every target with the
  first. Connecting, preparing, running and comparing (\<open>Deps\<close>) are what the steps say of them; a step is one action of
  the plan or of the goroutine of one target. The elapsed times, the lag texts and the summary text are not modelled.
\<close>

subsection \<open>The plan\<close>

definition KindReplay :: string where "KindReplay = ''replay''"

definition KindDeterministic :: string where "KindDeterministic = ''deterministic''"

record target =
  tg_Index :: nat
  tg_Label :: string
  tg_OutcomesPath :: string
  tg_Config :: app_config

datatype plan_error = bad_targets config_error | no_targets

definition Enabled :: "app_config \<Rightarrow> bool" where
  "Enabled c \<longleftrightarrow> rc_Targets (ac_rec c) \<noteq> []"

definition plan_kind :: "app_config \<Rightarrow> string" where
  "plan_kind c = (if rc_ReplayEnabled (ac_rec c) then KindReplay else KindDeterministic)"

text \<open>The settings of one target.\<close>

definition target_config :: "app_config \<Rightarrow> replay_target \<Rightarrow> app_config" where
  "target_config base tg =
     (let r = ac_rec base; l = trim_space (tr_RunLabel (ac_trend base)) in
      base\<lparr>ac_run := (ac_run base)\<lparr>rs_URI := rt_URI tg\<rparr>, ac_rec := (if rc_ReplayEnabled r
             then r\<lparr>rc_Targets := [], rc_ReplayOutcomesPath := TargetPath (rc_ReplayOutcomesPath r) (rt_Label tg)\<rparr>
             else r\<lparr>rc_Targets := [], rc_DetOutcomesPath := TargetPath (rc_DetOutcomesPath r) (rt_Label tg)\<rparr>),
           ac_ins := (if is_CSVEnabled (ac_ins base)
             then (ac_ins base)\<lparr>is_CSVPath := TargetPath (is_CSVPath (ac_ins base)) (rt_Label tg)\<rparr> else ac_ins base),
           ac_trend := (ac_trend base)\<lparr>tr_RunLabel := (if l = [] then rt_Label tg else SanitizeTrendRunLabel (l @ ''-'' @ rt_Label tg))\<rparr>\<rparr>)"

definition plan_target :: "app_config \<Rightarrow> nat \<times> replay_target \<Rightarrow> target" where
  "plan_target base e =
     (let c = target_config base (snd e) in
      \<lparr>tg_Index = fst e + 1, tg_Label = rt_Label (snd e),
       tg_OutcomesPath = (if rc_ReplayEnabled (ac_rec base) then rc_ReplayOutcomesPath (ac_rec c) else rc_DetOutcomesPath (ac_rec c)),
       tg_Config = c\<rparr>)"

definition NewPlan :: "app_config \<Rightarrow> plan_error + target list" where
  "NewPlan base =
     (case ValidateWorkloadTargets base of
        Some e \<Rightarrow> Inl (bad_targets e)
      | None \<Rightarrow> if \<not> Enabled base then Inl no_targets
                else Inr (map (plan_target base) (enumerate 0 (rc_Targets (ac_rec base)))))"

subsection \<open>The life of a target\<close>

text \<open>An error, and whether \<open>errors.Is(err, context.Canceled)\<close>.\<close>

datatype run_error = canceled string | other_error string

primrec error_text :: "run_error \<Rightarrow> string" where
  "error_text (canceled s) = s"
| "error_text (other_error s) = s"

primrec wrap_error :: "string \<Rightarrow> run_error \<Rightarrow> run_error" where
  "wrap_error p (canceled s) = canceled (p @ s)"
| "wrap_error p (other_error s) = other_error (p @ s)"

datatype phase = Waiting | Ready | Working | Finished

text \<open>The outcome file of a target: none, one an earlier run left, or the one this run writes.\<close>

datatype outcome_file = no_file | earlier_file | own_file

record target_state =
  tt_phase :: phase
  tt_status :: string
  tt_err :: string
  tt_opened :: nat
  tt_closed :: nat
  tt_file :: outcome_file

definition fail_target :: "run_error \<Rightarrow> target_state \<Rightarrow> target_state" where
  "fail_target e t = t\<lparr>tt_phase := Finished, tt_status := (case e of canceled _ \<Rightarrow> ''cancelled'' | other_error _ \<Rightarrow> ''failed''),
     tt_err := error_text e\<rparr>"

datatype prepare_result = connect_fails run_error | prepare_fails run_error | prepared

definition prepare_target :: "run_error option \<Rightarrow> prepare_result \<Rightarrow> target_state \<Rightarrow> target_state" where
  "prepare_target ctx r t =
     (case ctx of
        Some e \<Rightarrow> fail_target e t
      | None \<Rightarrow>
          (let t = t\<lparr>tt_status := ''preparing'', tt_err := []\<rparr> in
           case r of
             connect_fails e \<Rightarrow> fail_target (wrap_error ''connect: '' e) t
           | prepare_fails e \<Rightarrow> fail_target e (t\<lparr>tt_opened := tt_opened t + 1, tt_closed := tt_closed t + 1\<rparr>)
           | prepared \<Rightarrow> t\<lparr>tt_opened := tt_opened t + 1, tt_phase := Ready\<rparr>))"

definition start_target :: "target_state \<Rightarrow> target_state" where
  "start_target t = t\<lparr>tt_phase := Working, tt_status := ''running'', tt_err := []\<rparr>"

text \<open>What the run reports: its error, the status of a replay, the status of generated traffic.\<close>

record run_result =
  rr_err :: "run_error option"
  rr_replay :: "string option"
  rr_generated :: "string option"

definition final_status :: "run_error option \<Rightarrow> run_result \<Rightarrow> string" where
  "final_status ctx r =
     (let s = (case rr_replay r of Some x \<Rightarrow> x | None \<Rightarrow> ''complete'');
          s = (case rr_generated r of Some g \<Rightarrow> if g \<noteq> ''complete'' then ''incomplete'' else s | None \<Rightarrow> s)
      in if ctx \<noteq> None \<and> s = ''complete'' then ''cancelled'' else s)"

definition finish_target :: "run_error option \<Rightarrow> run_result \<Rightarrow> target_state \<Rightarrow> target_state" where
  "finish_target ctx r t0 =
     (let t = t0\<lparr>tt_closed := tt_closed t0 + 1\<rparr> in
      case rr_err r of
        Some e \<Rightarrow> fail_target e t
      | None \<Rightarrow> t\<lparr>tt_phase := Finished, tt_status := final_status ctx r, tt_err := []\<rparr>)"

text \<open>A panic in a goroutine: the deferred close of \<open>run\<close> and the handler's own both run.\<close>

definition panic_target :: "string \<Rightarrow> target_state \<Rightarrow> target_state" where
  "panic_target m t = fail_target (other_error (''panic: '' @ m)) (t\<lparr>tt_closed := tt_closed t + 2\<rparr>)"

subsection \<open>The run\<close>

record plan_state =
  mp_concurrent :: bool
  mp_ctx :: "run_error option"
  mp_targets :: "target_state list"

definition phase_of :: "plan_state \<Rightarrow> nat \<Rightarrow> phase" where
  "phase_of s i = tt_phase (mp_targets s ! i)"

definition with_target :: "nat \<Rightarrow> (target_state \<Rightarrow> target_state) \<Rightarrow> plan_state \<Rightarrow> plan_state" where
  "with_target i f s = s\<lparr>mp_targets := (mp_targets s)[i := f (mp_targets s ! i)]\<rparr>"

text \<open>Whose turn the preparation is: the first waiting target, which in a sequential run waits for the ones before it to end.\<close>

definition may_prepare :: "plan_state \<Rightarrow> nat \<Rightarrow> bool" where
  "may_prepare s i \<longleftrightarrow> i < length (mp_targets s) \<and> phase_of s i = Waiting
     \<and> (\<forall>j<i. if mp_concurrent s then phase_of s j \<noteq> Waiting else phase_of s j = Finished)"

definition may_start :: "plan_state \<Rightarrow> nat \<Rightarrow> bool" where
  "may_start s i \<longleftrightarrow> i < length (mp_targets s) \<and> phase_of s i = Ready
     \<and> (mp_concurrent s \<longrightarrow> (\<forall>j<length (mp_targets s). phase_of s j \<noteq> Waiting))"

definition working :: "plan_state \<Rightarrow> nat \<Rightarrow> bool" where
  "working s i \<longleftrightarrow> i < length (mp_targets s) \<and> phase_of s i = Working"

text \<open>A panic of a sequential run ends the program and is no step.\<close>

inductive mt_step :: "plan_state \<Rightarrow> plan_state \<Rightarrow> bool" where
  cancel: "mp_ctx s = None \<Longrightarrow> mt_step s (s\<lparr>mp_ctx := Some e\<rparr>)"
| prepare: "may_prepare s i \<Longrightarrow> mt_step s (with_target i (prepare_target (mp_ctx s) r) s)"
| start: "may_start s i \<Longrightarrow> mt_step s (with_target i start_target s)"
| outcomes: "working s i \<Longrightarrow> tt_file (mp_targets s ! i) \<noteq> own_file \<Longrightarrow> mt_step s (with_target i (\<lambda>t. t\<lparr>tt_file := own_file\<rparr>) s)"
| finish: "working s i \<Longrightarrow> mt_step s (with_target i (finish_target (mp_ctx s) r) s)"
| panic: "working s i \<Longrightarrow> mp_concurrent s \<Longrightarrow> mt_step s (with_target i (panic_target m) s)"

definition pending_target :: "outcome_file \<Rightarrow> target_state" where
  "pending_target f = \<lparr>tt_phase = Waiting, tt_status = ''pending'', tt_err = [], tt_opened = 0, tt_closed = 0, tt_file = f\<rparr>"

definition start_plan :: "bool \<Rightarrow> outcome_file list \<Rightarrow> plan_state" where
  "start_plan conc files = \<lparr>mp_concurrent = conc, mp_ctx = None, mp_targets = map pending_target files\<rparr>"

definition plan_over :: "plan_state \<Rightarrow> bool" where
  "plan_over s \<longleftrightarrow> list_all (\<lambda>t. tt_phase t = Finished) (mp_targets s)"

subsection \<open>The comparison\<close>

record comparison =
  cp_reference :: string
  cp_target :: string
  cp_report :: "(nat \<times> string) option"
  cp_error :: string

text \<open>\<open>compareOne\<close>; \<open>cmp\<close> is \<open>replaycompare.Compare\<close> on the two files, reduced to the number of differing operations and the verdict.\<close>

definition compareOne :: "(nat \<Rightarrow> nat \<Rightarrow> string + nat \<times> string) \<Rightarrow> target list \<Rightarrow> target_state list \<Rightarrow> nat \<Rightarrow> comparison" where
  "compareOne cmp ts ss i =
     (let c = \<lparr>cp_reference = tg_Label (ts ! 0), cp_target = tg_Label (ts ! i), cp_report = None, cp_error = []\<rparr> in
      case filter (\<lambda>k. tt_file (ss ! k) = no_file) [0, i] of
        k # _ \<Rightarrow> c\<lparr>cp_error := ''target '' @ tg_Label (ts ! k) @ '' has no outcome file ('' @ tt_status (ss ! k) @ '')''\<rparr>
      | [] \<Rightarrow> (case cmp 0 i of Inl m \<Rightarrow> c\<lparr>cp_error := m\<rparr> | Inr r \<Rightarrow> c\<lparr>cp_report := Some r\<rparr>))"

text \<open>Whether every other target sent the traffic of the reference.\<close>

definition fingerprints_match :: "string list \<Rightarrow> bool" where
  "fingerprints_match fps = list_all (\<lambda>f. hd fps \<noteq> [] \<and> f = hd fps) (tl fps)"

definition plan_comparisons :: "(nat \<Rightarrow> nat \<Rightarrow> string + nat \<times> string) \<Rightarrow> target list \<Rightarrow> target_state list \<Rightarrow> comparison list" where
  "plan_comparisons cmp ts ss = map (compareOne cmp ts ss) [1..<length ts]"

end
