(* ===== verification/MultitargetProofs.thy ===== *)
theory MultitargetProofs
  imports Multitarget
begin

text \<open>
  What a run against several targets guarantees: it ends with every target finished, connections and workloads overlap only as
  the mode allows, every target has an outcome path of its own, and what a comparison compares.
\<close>

subsection \<open>Invariants\<close>

text \<open>A target by itself.\<close>

fun target_ok :: "bool \<Rightarrow> target_state \<Rightarrow> bool" where
  "target_ok conc t \<longleftrightarrow>
     (case tt_phase t of
        Waiting \<Rightarrow> tt_opened t = 0 \<and> tt_closed t = 0
      | Finished \<Rightarrow> tt_opened t \<le> 1 \<and> tt_opened t \<le> tt_closed t \<and> (\<not> conc \<longrightarrow> tt_closed t = tt_opened t)
      | _ \<Rightarrow> tt_opened t = 1 \<and> tt_closed t = 0)
     \<and> (tt_file t = own_file \<longrightarrow> tt_opened t = 1 \<and> tt_phase t \<noteq> Waiting)"

declare target_ok.simps [simp del]

definition in_order :: "plan_state \<Rightarrow> bool" where
  "in_order s \<longleftrightarrow>
     (if mp_concurrent s
      then (\<forall>i<length (mp_targets s). \<forall>j<i. phase_of s j = Waiting \<longrightarrow> phase_of s i = Waiting)
        \<and> ((\<exists>i<length (mp_targets s). phase_of s i = Working) \<longrightarrow> (\<forall>j<length (mp_targets s). phase_of s j \<noteq> Waiting))
      else (\<forall>i<length (mp_targets s). \<forall>j<i. phase_of s i \<noteq> Waiting \<longrightarrow> phase_of s j = Finished))"

definition plan_inv :: "plan_state \<Rightarrow> bool" where
  "plan_inv s \<longleftrightarrow> list_all (target_ok (mp_concurrent s)) (mp_targets s) \<and> in_order s"

lemma with_target_simps [simp]:
  "mp_concurrent (with_target i f s) = mp_concurrent s" "mp_ctx (with_target i f s) = mp_ctx s"
  "length (mp_targets (with_target i f s)) = length (mp_targets s)"
  by (simp_all add: with_target_def)

lemma phase_with_target:
  "i < length (mp_targets s) \<Longrightarrow> phase_of (with_target i f s) j = (if j = i then tt_phase (f (mp_targets s ! i)) else phase_of s j)"
  by (auto simp: phase_of_def with_target_def nth_list_update)

lemma prepare_phase: "tt_phase (prepare_target ctx r t) \<in> {Ready, Finished}"
  by (simp add: prepare_target_def fail_target_def Let_def split: option.split prepare_result.split)

lemma end_phase [simp]: "tt_phase (finish_target ctx r t) = Finished" "tt_phase (panic_target m t) = Finished" "tt_phase (start_target t) = Working"
  by (simp_all add: finish_target_def panic_target_def start_target_def fail_target_def Let_def split: option.split)

lemma prepare_ok: "tt_phase t = Waiting \<Longrightarrow> target_ok c t \<Longrightarrow> target_ok c (prepare_target ctx r t)"
  by (auto simp: target_ok.simps prepare_target_def fail_target_def Let_def split: option.split prepare_result.split)

lemma start_ok: "tt_phase t = Ready \<Longrightarrow> target_ok c t \<Longrightarrow> target_ok c (start_target t)"
  by (auto simp: target_ok.simps start_target_def)

lemma finish_ok: "tt_phase t = Working \<Longrightarrow> target_ok c t \<Longrightarrow> target_ok c (finish_target ctx r t)"
  by (auto simp: target_ok.simps finish_target_def fail_target_def Let_def split: option.split)

lemma panic_ok: "tt_phase t = Working \<Longrightarrow> target_ok True t \<Longrightarrow> target_ok True (panic_target m t)"
  by (auto simp: target_ok.simps panic_target_def fail_target_def)

lemma file_ok: "tt_phase t = Working \<Longrightarrow> target_ok c t \<Longrightarrow> target_ok c (t\<lparr>tt_file := own_file\<rparr>)"
  by (auto simp: target_ok.simps)

lemma list_all_update: "list_all P ts \<Longrightarrow> P t \<Longrightarrow> list_all P (ts[i := t])"
  unfolding list_all_iff using set_update_subset_insert [of ts i t] by blast

lemma step_inv:
  assumes "mt_step s s'" "plan_inv s"
  shows "plan_inv s'"
proof -
  have ok: "list_all (target_ok (mp_concurrent s)) (mp_targets s)" and ord: "in_order s" using assms(2) by (simp_all add: plan_inv_def)
  have nth: "i < length (mp_targets s) \<Longrightarrow> target_ok (mp_concurrent s) (mp_targets s ! i)" for i using ok by (simp add: list_all_length)
  have upd: "list_all (target_ok (mp_concurrent (with_target i f s))) (mp_targets (with_target i f s))"
    if "target_ok (mp_concurrent s) (f (mp_targets s ! i))" for i f
    using list_all_update [OF ok that] by (simp add: with_target_def)
  from assms(1) show ?thesis
  proof cases
    case (cancel e)
    then have "phase_of s' = phase_of s" by (intro ext) (simp add: phase_of_def)
    then show ?thesis using assms(2) cancel(1) by (simp add: plan_inv_def in_order_def)
  next
    case (prepare i r)
    then have i: "i < length (mp_targets s)" "tt_phase (mp_targets s ! i) = Waiting" by (simp_all add: may_prepare_def phase_of_def)
    then have "in_order s'" using ord prepare prepare_phase [of "mp_ctx s" r "mp_targets s ! i"]
      unfolding in_order_def may_prepare_def prepare(1) with_target_simps phase_with_target [OF i(1)] by (auto split: if_splits)
    then show ?thesis using upd [where f = "prepare_target (mp_ctx s) r" and i = i, OF prepare_ok [OF i(2) nth [OF i(1)]]] prepare(1) by (simp add: plan_inv_def)
  next
    case (start i)
    then have i: "i < length (mp_targets s)" "tt_phase (mp_targets s ! i) = Ready" by (simp_all add: may_start_def phase_of_def)
    then have "in_order s'" using ord start
      unfolding in_order_def may_start_def start(1) with_target_simps phase_with_target [OF i(1)]
      by (auto simp: phase_of_def split: if_splits) (metis phase.distinct)
    then show ?thesis using upd [where f = start_target and i = i, OF start_ok [OF i(2) nth [OF i(1)]]] start(1) by (simp add: plan_inv_def)
  next
    case (outcomes i)
    then have i: "i < length (mp_targets s)" "tt_phase (mp_targets s ! i) = Working" by (simp_all add: working_def phase_of_def)
    have "phase_of s' j = phase_of s j" for j using i unfolding outcomes(1) phase_with_target [OF i(1)] by (simp add: phase_of_def)
    then have "in_order s'" using ord outcomes(1) by (simp add: in_order_def)
    then show ?thesis using upd [where f = "\<lambda>t. t\<lparr>tt_file := own_file\<rparr>" and i = i, OF file_ok [OF i(2) nth [OF i(1)]]] outcomes(1) by (simp add: plan_inv_def)
  next
    case (finish i r)
    then have i: "i < length (mp_targets s)" "tt_phase (mp_targets s ! i) = Working" by (simp_all add: working_def phase_of_def)
    then have "in_order s'" using ord
      unfolding in_order_def finish(1) with_target_simps phase_with_target [OF i(1)] by (auto simp: phase_of_def split: if_splits)
    then show ?thesis using upd [where f = "finish_target (mp_ctx s) r" and i = i, OF finish_ok [OF i(2) nth [OF i(1)]]] finish(1) by (simp add: plan_inv_def)
  next
    case (panic i m)
    then have i: "i < length (mp_targets s)" "tt_phase (mp_targets s ! i) = Working" by (simp_all add: working_def phase_of_def)
    then have "in_order s'" using ord
      unfolding in_order_def panic(1) with_target_simps phase_with_target [OF i(1)] by (auto simp: phase_of_def split: if_splits)
    moreover have "target_ok (mp_concurrent s) (panic_target m (mp_targets s ! i))" using panic_ok [OF i(2)] nth [OF i(1)] panic(3) by simp
    ultimately show ?thesis using upd [where f = "panic_target m" and i = i] panic(1) by (simp add: plan_inv_def)
  qed
qed

lemma start_inv: "own_file \<notin> set files \<Longrightarrow> plan_inv (start_plan conc files)"
  by (auto simp: plan_inv_def start_plan_def in_order_def phase_of_def pending_target_def target_ok.simps list_all_iff)

lemma plan_reachable_inv: "mt_step\<^sup>*\<^sup>* s s' \<Longrightarrow> plan_inv s \<Longrightarrow> plan_inv s'"
  by (induction rule: rtranclp_induct) (auto intro: step_inv)

subsection \<open>The end of a run\<close>

fun target_weight :: "target_state \<Rightarrow> nat" where
  "target_weight t = (case tt_phase t of Waiting \<Rightarrow> 4 | Ready \<Rightarrow> 3 | Working \<Rightarrow> if tt_file t = own_file then 1 else 2 | Finished \<Rightarrow> 0)"

declare target_weight.simps [simp del]

definition plan_weight :: "plan_state \<Rightarrow> nat" where
  "plan_weight s = sum_list (map target_weight (mp_targets s)) + (if mp_ctx s = None then 1 else 0)"

lemma sum_list_update_less:
  "i < length ts \<Longrightarrow> (w t :: nat) < w (ts ! i) \<Longrightarrow> sum_list (map w (ts[i := t])) < sum_list (map w ts)"
proof (induction ts arbitrary: i)
  case (Cons x ts)
  then show ?case by (cases i) auto
qed simp

lemma with_target_weight:
  "i < length (mp_targets s) \<Longrightarrow> target_weight (f (mp_targets s ! i)) < target_weight (mp_targets s ! i) \<Longrightarrow>
     plan_weight (with_target i f s) < plan_weight s"
  by (simp add: plan_weight_def with_target_def sum_list_update_less)

lemma step_weight: "mt_step s s' \<Longrightarrow> plan_weight s' < plan_weight s"
proof (induction rule: mt_step.induct)
  case (prepare s i r)
  then show ?case using prepare_phase [of "mp_ctx s" r "mp_targets s ! i"]
    by (intro with_target_weight) (auto simp: may_prepare_def phase_of_def target_weight.simps)
next
  case (start s i)
  then show ?case by (intro with_target_weight) (auto simp: may_start_def phase_of_def target_weight.simps)
next
  case (outcomes s i)
  then show ?case by (intro with_target_weight) (auto simp: working_def phase_of_def target_weight.simps)
next
  case (finish s i r)
  then show ?case by (intro with_target_weight) (auto simp: working_def phase_of_def target_weight.simps)
next
  case (panic s i m)
  then show ?case by (intro with_target_weight) (auto simp: working_def phase_of_def target_weight.simps)
qed (simp add: plan_weight_def)

lemma least_unfinished:
  assumes "\<not> plan_over s"
  obtains i where "i < length (mp_targets s)" "phase_of s i \<noteq> Finished" "\<And>j. j < i \<Longrightarrow> phase_of s j = Finished"
proof -
  let ?P = "\<lambda>i. i < length (mp_targets s) \<and> phase_of s i \<noteq> Finished"
  have "\<exists>i. ?P i" using assms by (auto simp: plan_over_def list_all_length phase_of_def)
  then obtain i where i: "?P i" "\<forall>j<i. \<not> ?P j" using exists_least_iff [of ?P] by blast
  show ?thesis by (rule that [of i]) (use i in \<open>auto dest: less_trans\<close>)
qed

lemma step_or_over: "plan_over s \<or> (\<exists>s'. mt_step s s')"
proof (cases "plan_over s")
  case False
  obtain i where i: "i < length (mp_targets s)" "phase_of s i \<noteq> Finished" "\<forall>j<i. phase_of s j = Finished"
    using least_unfinished [OF False] by metis
  show ?thesis
  proof (cases "\<exists>j<length (mp_targets s). phase_of s j = Working")
    case True
    then obtain j where "working s j" by (auto simp: working_def)
    then show ?thesis using mt_step.finish by blast
  next
    case noWork: False
    show ?thesis
    proof (cases "\<exists>j<length (mp_targets s). phase_of s j = Waiting \<and> (mp_concurrent s \<or> j = i)")
      case True
      define k where "k = (LEAST j. j < length (mp_targets s) \<and> phase_of s j = Waiting \<and> (mp_concurrent s \<or> j = i))"
      have k: "k < length (mp_targets s) \<and> phase_of s k = Waiting \<and> (mp_concurrent s \<or> k = i)" unfolding k_def using True by (rule LeastI_ex)
      have least: "\<not> (j < length (mp_targets s) \<and> phase_of s j = Waiting \<and> (mp_concurrent s \<or> j = i))" if "j < k" for j
        using not_less_Least [of j] that unfolding k_def .
      have "may_prepare s k" using k least i(3) by (auto simp: may_prepare_def dest: less_trans)
      then show ?thesis using mt_step.prepare by blast
    next
      case False
      have "phase_of s i = Ready" using i(1,2) noWork False by (cases "phase_of s i") auto
      then have "may_start s i" using i(1) False by (auto simp: may_start_def)
      then show ?thesis using mt_step.start by blast
    qed
  qed
qed simp

lemma steps_weight: "(mt_step ^^ k) s s' \<Longrightarrow> k + plan_weight s' \<le> plan_weight s"
proof (induction k arbitrary: s')
  case (Suc k)
  then obtain u where "(mt_step ^^ k) s u" "mt_step u s'" by (auto elim: relpowp_Suc_E)
  then show ?case using Suc.IH [of u] step_weight [of u s'] by simp
qed simp


lemma two_failed_targets:
  "mt_step\<^sup>*\<^sup>* (start_plan False [f, g])
     \<lparr>mp_concurrent = False, mp_ctx = None, mp_targets = map (\<lambda>f. (pending_target f)\<lparr>tt_phase := Finished, tt_status := ''failed'', tt_err := ''connect: refused''\<rparr>) [f, g]\<rparr>"
proof -
  let ?s = "start_plan False [f, g]" and ?r = "connect_fails (other_error ''refused'')"
  have p: "may_prepare ?s 0" by (simp add: may_prepare_def start_plan_def phase_of_def pending_target_def)
  let ?t = "with_target 0 (prepare_target (mp_ctx ?s) ?r) ?s"
  have q: "may_prepare ?t 1"
    by (simp add: may_prepare_def start_plan_def phase_of_def pending_target_def with_target_def prepare_target_def fail_target_def)
  have "mt_step\<^sup>*\<^sup>* ?s (with_target 1 (prepare_target (mp_ctx ?t) ?r) ?t)"
    using mt_step.prepare [OF p, of ?r] mt_step.prepare [OF q, of ?r] by (meson converse_rtranclp_into_rtranclp rtranclp.rtrancl_refl)
  moreover have "with_target 1 (prepare_target (mp_ctx ?t) ?r) ?t =
      \<lparr>mp_concurrent = False, mp_ctx = None, mp_targets = map (\<lambda>f. (pending_target f)\<lparr>tt_phase := Finished, tt_status := ''failed'', tt_err := ''connect: refused''\<rparr>) [f, g]\<rparr>"
    by (simp add: with_target_def start_plan_def prepare_target_def fail_target_def pending_target_def)
  ultimately show ?thesis by simp
qed


subsection \<open>Overlap\<close>

definition connected :: "target_state \<Rightarrow> bool" where
  "connected t \<longleftrightarrow> tt_closed t < tt_opened t"

lemma connected_phase: "target_ok c t \<Longrightarrow> connected t \<Longrightarrow> tt_phase t = Ready \<or> tt_phase t = Working"
  by (cases "tt_phase t") (auto simp: target_ok.simps connected_def)

text \<open>C38: Targets overlap only as their mode allows: a sequential run is connected to at most one target at any time and closes every
  connection once; in a concurrent run no workload has begun while a target is not prepared yet. In either mode a target is
  connected at most once.
\<close>

theorem targets_overlap_as_asked:
  assumes fresh: "own_file \<notin> set files" and run: "mt_step\<^sup>*\<^sup>* (start_plan conc files) s"
    and ij: "i < length (mp_targets s)" "j < length (mp_targets s)"
  shows "tt_opened (mp_targets s ! i) \<le> 1
    \<and> (if mp_concurrent s then phase_of s i = Working \<longrightarrow> phase_of s j \<noteq> Waiting
       else (connected (mp_targets s ! i) \<and> connected (mp_targets s ! j) \<longrightarrow> i = j)
         \<and> (phase_of s i = Finished \<longrightarrow> tt_closed (mp_targets s ! i) = tt_opened (mp_targets s ! i)))"
proof -
  have ok: "plan_inv s" using plan_reachable_inv [OF run start_inv [OF fresh]] .
  have t: "target_ok (mp_concurrent s) (mp_targets s ! k)" if "k < length (mp_targets s)" for k
    using ok that by (simp add: plan_inv_def list_all_length)
  have ord: "in_order s" using ok by (simp add: plan_inv_def)
  have open1: "tt_opened (mp_targets s ! i) \<le> 1" using t [OF ij(1)] by (cases "tt_phase (mp_targets s ! i)") (auto simp: target_ok.simps)
  have one: "a = b" if "\<not> mp_concurrent s" "connected (mp_targets s ! a)" "connected (mp_targets s ! b)" "a < length (mp_targets s)"
      "b < length (mp_targets s)" for a b
  proof -
    have ph: "phase_of s k \<noteq> Waiting \<and> phase_of s k \<noteq> Finished" if "connected (mp_targets s ! k)" "k < length (mp_targets s)" for k
      using connected_phase [OF t [OF that(2)] that(1)] by (auto simp: phase_of_def)
    have lt: "\<not> x < y" if "connected (mp_targets s ! x)" "connected (mp_targets s ! y)" "x < length (mp_targets s)" "y < length (mp_targets s)" for x y
      using ord \<open>\<not> mp_concurrent s\<close> ph [OF that(1,3)] ph [OF that(2,4)] that(4) unfolding in_order_def by (simp only: if_False) blast
    show ?thesis using lt that by (meson linorder_less_linear)
  qed
  have closed1: "tt_closed (mp_targets s ! i) = tt_opened (mp_targets s ! i)" if "\<not> mp_concurrent s" "phase_of s i = Finished"
    using t [OF ij(1)] that by (simp add: target_ok.simps phase_of_def)
  show ?thesis
  proof (cases "mp_concurrent s")
    case True
    then have "phase_of s i = Working \<longrightarrow> phase_of s j \<noteq> Waiting" using ord ij unfolding in_order_def by (simp only: if_True) blast
    then show ?thesis using True open1 by simp
  next
    case False
    then show ?thesis using open1 one [OF False _ _ ij] closed1 [OF False] by simp
  qed
qed

lemma targets_overlap_as_asked_witness:
  "\<exists>s. mt_step\<^sup>*\<^sup>* (start_plan False [no_file, earlier_file]) s \<and> length (mp_targets s) = 2
     \<and> tt_opened (mp_targets s ! 0) \<le> 1 \<and> tt_closed (mp_targets s ! 0) = tt_opened (mp_targets s ! 0)"
proof -
  let ?s = "\<lparr>mp_concurrent = False, mp_ctx = None, mp_targets = map (\<lambda>f. (pending_target f)\<lparr>tt_phase := Finished, tt_status := ''failed'', tt_err := ''connect: refused''\<rparr>) [no_file, earlier_file]\<rparr>"
  have f: "own_file \<notin> set [no_file, earlier_file]" by simp
  have "tt_opened (mp_targets ?s ! 0) \<le> 1 \<and> (if mp_concurrent ?s then phase_of ?s 0 = Working \<longrightarrow> phase_of ?s 1 \<noteq> Waiting
       else (connected (mp_targets ?s ! 0) \<and> connected (mp_targets ?s ! 1) \<longrightarrow> (0::nat) = 1)
         \<and> (phase_of ?s 0 = Finished \<longrightarrow> tt_closed (mp_targets ?s ! 0) = tt_opened (mp_targets ?s ! 0)))"
    by (rule targets_overlap_as_asked [OF f two_failed_targets]) simp_all
  then show ?thesis using two_failed_targets [of no_file earlier_file] by (intro exI [of _ ?s]) (simp add: phase_of_def)
qed

subsection \<open>What is compared\<close>

text \<open>The outcome file of a target is its own or the one that was there before.\<close>

definition files_kept :: "outcome_file list \<Rightarrow> plan_state \<Rightarrow> bool" where
  "files_kept files s \<longleftrightarrow> list_all2 (\<lambda>f t. tt_file t = own_file \<or> tt_file t = f) files (mp_targets s)"

lemma files_update:
  assumes "files_kept files s" "\<And>t. tt_file (g t) = own_file \<or> tt_file (g t) = tt_file t"
  shows "files_kept files (with_target i g s)"
proof (cases "i < length (mp_targets s)")
  case True
  have l: "length files = length (mp_targets s)" using assms(1) list_all2_lengthD unfolding files_kept_def by blast
  have n: "k < length (mp_targets s) \<Longrightarrow> tt_file (mp_targets s ! k) = own_file \<or> tt_file (mp_targets s ! k) = files ! k" for k
    using assms(1) l by (simp add: files_kept_def list_all2_conv_all_nth)
  have "tt_file (mp_targets (with_target i g s) ! k) = own_file \<or> tt_file (mp_targets (with_target i g s) ! k) = files ! k"
    if "k < length (mp_targets s)" for k
    using n [OF that] assms(2) [of "mp_targets s ! i"] that by (cases "k = i") (auto simp: with_target_def)
  then show ?thesis using l by (simp add: files_kept_def list_all2_conv_all_nth)
next
  case False
  then show ?thesis using assms(1) by (simp add: with_target_def list_update_beyond files_kept_def)
qed

lemma files_step: "mt_step s s' \<Longrightarrow> files_kept files s \<Longrightarrow> files_kept files s'"
proof (induction rule: mt_step.induct)
  case (prepare s i r)
  then show ?case by (intro files_update) (auto simp: prepare_target_def fail_target_def Let_def split: option.split prepare_result.split)
next
  case (finish s i r)
  then show ?case by (intro files_update) (auto simp: finish_target_def fail_target_def Let_def split: option.split)
qed (auto intro!: files_update simp: start_target_def panic_target_def fail_target_def, simp add: files_kept_def)

lemma files_reachable: "mt_step\<^sup>*\<^sup>* (start_plan conc files) s \<Longrightarrow> files_kept files s"
proof (induction rule: rtranclp_induct)
  case base
  show ?case by (simp add: files_kept_def start_plan_def list_all2_conv_all_nth pending_target_def)
qed (rule files_step)

text \<open>C39: When no outcome file was there before the run, a comparison is always one of two executions of this run: a report about two
  targets exists only when both were connected and wrote their outcome file.
\<close>

theorem comparisons_are_of_this_run:
  assumes fresh: "set files \<subseteq> {no_file}" and run: "mt_step\<^sup>*\<^sup>* (start_plan conc files) s"
    and i: "i < length (mp_targets s)" and reported: "cp_report (compareOne cmp ts (mp_targets s) i) \<noteq> None"
  shows "\<forall>k\<in>{0, i}. tt_file (mp_targets s ! k) = own_file \<and> tt_opened (mp_targets s ! k) = 1"
proof
  fix k assume k: "k \<in> {0, i}"
  then have kl: "k < length (mp_targets s)" using i by auto
  have kept: "files_kept files s" by (rule files_reachable [OF run])
  then have "length files = length (mp_targets s)" unfolding files_kept_def by (rule list_all2_lengthD)
  then have "files ! k \<in> set files" using kl by simp
  then have "files ! k = no_file" using fresh by blast
  moreover have "tt_file (mp_targets s ! k) \<noteq> no_file"
  proof
    assume "tt_file (mp_targets s ! k) = no_file"
    then have "k \<in> set (filter (\<lambda>k. tt_file (mp_targets s ! k) = no_file) [0, i])" using k by auto
    then obtain a as where "filter (\<lambda>k. tt_file (mp_targets s ! k) = no_file) [0, i] = a # as"
      by (cases "filter (\<lambda>k. tt_file (mp_targets s ! k) = no_file) [0, i]") simp_all
    then show False using reported by (simp only: compareOne_def Let_def list.case) simp
  qed
  ultimately have own: "tt_file (mp_targets s ! k) = own_file"
    using kept kl unfolding files_kept_def list_all2_conv_all_nth by metis
  have "own_file \<notin> set files" using fresh by auto
  then have "plan_inv s" using plan_reachable_inv [OF run start_inv] by blast
  then have "target_ok (mp_concurrent s) (mp_targets s ! k)" using kl by (simp add: plan_inv_def list_all_length)
  then show "tt_file (mp_targets s ! k) = own_file \<and> tt_opened (mp_targets s ! k) = 1" using own by (simp add: target_ok.simps)
qed

text \<open>A target of a sequential run for which everything goes well.\<close>

definition good_run :: "target_state \<Rightarrow> target_state" where
  "good_run t = finish_target None \<lparr>rr_err = None, rr_replay = None, rr_generated = None\<rparr>
     ((start_target (prepare_target None prepared t))\<lparr>tt_file := own_file\<rparr>)"

lemma with_target_twice: "i < length (mp_targets s) \<Longrightarrow> with_target i f (with_target i g s) = with_target i (\<lambda>t. f (g t)) s"
  by (simp add: with_target_def)

lemma good_run_steps:
  assumes "may_prepare s i" "mp_ctx s = None" "\<not> mp_concurrent s" "tt_file (mp_targets s ! i) \<noteq> own_file"
  shows "mt_step\<^sup>*\<^sup>* s (with_target i good_run s)"
proof -
  let ?r = "\<lparr>rr_err = None, rr_replay = None, rr_generated = None\<rparr>"
  have i: "i < length (mp_targets s)" using assms(1) by (simp add: may_prepare_def)
  define s1 where "s1 = with_target i (prepare_target None prepared) s"
  define s2 where "s2 = with_target i start_target s1"
  define s3 where "s3 = with_target i (\<lambda>t. t\<lparr>tt_file := own_file\<rparr>) s2"
  have e: "mp_targets s1 ! i = prepare_target None prepared (mp_targets s ! i)" "mp_targets s2 ! i = start_target (mp_targets s1 ! i)"
    "mp_targets s3 ! i = (mp_targets s2 ! i)\<lparr>tt_file := own_file\<rparr>"
    using i by (simp_all add: s1_def s2_def s3_def with_target_def)
  have l: "i < length (mp_targets s1)" "i < length (mp_targets s2)" "i < length (mp_targets s3)" using i by (simp_all add: s1_def s2_def s3_def)
  have c: "mp_ctx s3 = None" "\<not> mp_concurrent s1" using assms by (simp_all add: s1_def s2_def s3_def)
  have a1: "mt_step s s1" using mt_step.prepare [OF assms(1), of prepared] assms(2) by (simp add: s1_def)
  have a2: "mt_step s1 s2" unfolding s2_def
    by (rule mt_step.start) (use l c e in \<open>simp add: may_start_def phase_of_def prepare_target_def\<close>)
  have a3: "mt_step s2 s3" unfolding s3_def
    by (rule mt_step.outcomes) (use l e assms(4) in \<open>simp_all add: working_def phase_of_def prepare_target_def start_target_def\<close>)
  have "mt_step s3 (with_target i (finish_target (mp_ctx s3) ?r) s3)"
    by (rule mt_step.finish) (use l e in \<open>simp add: working_def phase_of_def start_target_def\<close>)
  moreover have "with_target i (finish_target (mp_ctx s3) ?r) s3 = with_target i good_run s"
    using i l c by (simp add: s1_def s2_def s3_def with_target_twice good_run_def [abs_def])
  ultimately have a4: "mt_step s3 (with_target i good_run s)" by simp
  show ?thesis using a1 a2 a3 a4 by (meson converse_rtranclp_into_rtranclp r_into_rtranclp)
qed

lemma comparisons_are_of_this_run_witness:
  "\<exists>s. mt_step\<^sup>*\<^sup>* (start_plan False [no_file, no_file]) s \<and> (\<forall>k\<in>{0, 1}. tt_file (mp_targets s ! k) = own_file \<and> tt_opened (mp_targets s ! k) = 1)"
proof -
  let ?s = "start_plan False [no_file, no_file]"
  let ?t = "with_target 0 good_run ?s"
  let ?u = "with_target 1 good_run ?t"
  have g: "good_run (pending_target no_file) = \<lparr>tt_phase = Finished, tt_status = ''complete'', tt_err = [], tt_opened = 1, tt_closed = 1, tt_file = own_file\<rparr>"
    by (simp add: good_run_def pending_target_def prepare_target_def start_target_def finish_target_def final_status_def)
  have "mt_step\<^sup>*\<^sup>* ?s ?t"
    by (rule good_run_steps) (simp_all add: may_prepare_def start_plan_def phase_of_def pending_target_def)
  moreover have "mt_step\<^sup>*\<^sup>* ?t ?u"
    by (rule good_run_steps) (simp_all add: may_prepare_def start_plan_def phase_of_def with_target_def g, simp_all add: pending_target_def)
  ultimately have run: "mt_step\<^sup>*\<^sup>* ?s ?u" by simp
  have "\<forall>k\<in>{0, 1}. tt_file (mp_targets ?u ! k) = own_file \<and> tt_opened (mp_targets ?u ! k) = 1"
  proof (rule comparisons_are_of_this_run [OF _ run])
    show "cp_report (compareOne (\<lambda>_ _. Inr (0, ''similar'')) [] (mp_targets ?u) 1) \<noteq> None"
      by (simp add: compareOne_def with_target_def start_plan_def g)
  qed (simp_all add: start_plan_def)
  then show ?thesis using run by blast
qed

text \<open>With files of an earlier run in place, two targets that could not even be connected are compared by them.\<close>

lemma earlier_files_are_compared:
  assumes "cmp 0 1 = Inr r"
  shows "\<exists>s. mt_step\<^sup>*\<^sup>* (start_plan False [earlier_file, earlier_file]) s \<and> plan_over s \<and> (\<forall>t\<in>set (mp_targets s). tt_opened t = 0)
    \<and> cp_report (compareOne cmp ts (mp_targets s) 1) = Some r"
  using two_failed_targets [of earlier_file earlier_file] assms
  by (intro exI conjI) (assumption, simp_all add: plan_over_def pending_target_def compareOne_def)

subsection \<open>The paths\<close>

lemma check_targets_labels:
  "check_targets ts i labels uris = None \<Longrightarrow>
     distinct (map (\<lambda>t. to_lower (trim_space (rt_Label t))) ts) \<and> (\<forall>t\<in>set ts. to_lower (trim_space (rt_Label t)) \<notin> labels)"
proof (induction ts arbitrary: i labels uris)
  case (Cons t ts)
  let ?l = "to_lower (trim_space (rt_Label t))"
  have "?l \<notin> labels" "check_targets ts (i + 1) (insert ?l labels) (insert (trim_space (rt_URI t)) uris) = None"
    using Cons.prems by (simp_all add: Let_def split: if_splits)
  then show ?case using Cons.IH by fastforce
qed simp

lemma lower_trim_space: "to_lower (trim_space s) = trim_space (to_lower s)"
proof -
  have sp: "is_space (lower_char c) = is_space c" for c
    by (auto simp: is_space_def lower_char_def Let_def)
  have dw: "dropWhile is_space (map lower_char xs) = map lower_char (dropWhile is_space xs)" for xs
    by (simp add: dropWhile_map comp_def sp)
  show ?thesis by (simp add: to_lower_def trim_space_def rev_map dw)
qed

lemma TargetPath_cases:
  "p \<noteq> [] \<Longrightarrow> \<exists>a e. \<forall>l. TargetPath p l = a @ ''.'' @ l @ e"
  by (simp add: TargetPath_def Let_def) blast

lemma plan_target_path:
  "tg_OutcomesPath (plan_target base x) = TargetPath (if rc_ReplayEnabled (ac_rec base) then rc_ReplayOutcomesPath (ac_rec base)
     else rc_DetOutcomesPath (ac_rec base)) (rt_Label (snd x))"
  by (simp add: plan_target_def target_config_def Let_def)

text \<open>C40: Every target writes an outcome file of its own: the paths of a plan are different, also where the file system ignores case.
\<close>

theorem target_paths_distinct:
  assumes "NewPlan base = Inr ts"
  shows "distinct (map (\<lambda>t. to_lower (tg_OutcomesPath t)) ts) \<and> length ts = length (rc_Targets (ac_rec base)) \<and> 2 \<le> length ts \<and> length ts \<le> 8"
proof -
  let ?r = "ac_rec base" and ?tgs = "rc_Targets (ac_rec base)"
  let ?p = "if rc_ReplayEnabled ?r then rc_ReplayOutcomesPath ?r else rc_DetOutcomesPath ?r"
  have valid: "ValidateWorkloadTargets base = None" and ne: "?tgs \<noteq> []" and ts: "ts = map (plan_target base) (enumerate 0 ?tgs)"
    using assms by (auto simp: NewPlan_def Enabled_def split: option.splits if_splits)
  have len: "2 \<le> length ?tgs" "length ?tgs \<le> 8" and checked: "check_targets ?tgs 0 {} {} = None" and path: "snd (target_outcomes ?r) \<noteq> []"
    using valid ne unfolding ValidateWorkloadTargets_def Let_def by (auto split: if_splits option.splits)
  have "?p \<noteq> []" using path by (auto simp: target_outcomes_def trim_space_Nil)
  then obtain a e where tp: "\<And>l. TargetPath ?p l = a @ ''.'' @ l @ e" using TargetPath_cases by metis
  have out: "tg_OutcomesPath (plan_target base x) = TargetPath ?p (rt_Label (snd x))" for x by (simp add: plan_target_path)
  have inj: "to_lower (TargetPath ?p l) = to_lower (TargetPath ?p m) \<longleftrightarrow> to_lower l = to_lower m" for l m
    by (simp add: tp to_lower_def)
  have low: "to_lower (trim_space l) = to_lower (trim_space m)" if "to_lower l = to_lower m" for l m
    using that by (simp add: lower_trim_space)
  have "distinct (map (\<lambda>t. to_lower (TargetPath ?p (rt_Label t))) ?tgs)"
    using check_targets_labels [OF checked] low unfolding distinct_map inj_on_def inj by blast
  moreover have "map (\<lambda>t. to_lower (tg_OutcomesPath t)) ts = map (\<lambda>t. to_lower (TargetPath ?p (rt_Label t))) ?tgs"
    unfolding ts map_map comp_def out by (rule nth_equalityI) (simp_all only: length_map length_enumerate nth_map nth_enumerate_eq snd_conv)
  ultimately show ?thesis using len ts by simp
qed

definition two_target_record :: record_settings where
  "two_target_record = \<lparr>rc_RecordEnabled = False, rc_RecordPath = [], rc_MaxBytes = 0, rc_Backpressure = [], rc_Compression = [],
     rc_ReplayEnabled = True, rc_ReplayPath = ''r.ndjson'', rc_ReplayMode = [], rc_AllowMismatch = False, rc_Deterministic = False,
     rc_OpsPerWorker = 0, rc_Outcomes = True, rc_Checksums = False, rc_ReplayOutcomesPath = ''out/o.ndjson'', rc_DetOutcomesPath = [],
     rc_Targets = [\<lparr>rt_Label = ''m7'', rt_URI = ''mongodb://a''\<rparr>, \<lparr>rt_Label = ''m8'', rt_URI = ''mongodb://b''\<rparr>],
     rc_TargetsMode = [], rc_ReplayOps = [], rc_Fingerprint = []\<rparr>"

lemma target_paths_distinct_witness:
  "\<forall>b. \<exists>ts. NewPlan (b\<lparr>ac_rec := two_target_record\<rparr>) = Inr ts \<and> distinct (map (\<lambda>t. to_lower (tg_OutcomesPath t)) ts)
     \<and> map tg_OutcomesPath ts = [''out/o.m7.ndjson'', ''out/o.m8.ndjson'']"
proof
  fix b :: app_config
  have d: "DataFingerprintMode (b\<lparr>ac_rec := two_target_record\<rparr>) = ''off''"
    by (simp add: DataFingerprintMode_def two_target_record_def or_default_def lower_trim_def to_lower_def)
  have t: "check_targets (rc_Targets two_target_record) 0 {} {} = None" by code_simp
  have "ValidateWorkloadTargets (b\<lparr>ac_rec := two_target_record\<rparr>) = None"
    unfolding ValidateWorkloadTargets_def Let_def d using t
    by (simp add: two_target_record_def target_outcomes_def lower_trim_def to_lower_def trim_space_def is_space_def)
  then obtain ts where ts: "NewPlan (b\<lparr>ac_rec := two_target_record\<rparr>) = Inr ts"
    and m: "ts = map (plan_target (b\<lparr>ac_rec := two_target_record\<rparr>)) (enumerate 0 (rc_Targets two_target_record))"
    by (simp add: NewPlan_def Enabled_def) (simp add: two_target_record_def)
  have l: "rc_Targets two_target_record = [\<lparr>rt_Label = ''m7'', rt_URI = ''mongodb://a''\<rparr>, \<lparr>rt_Label = ''m8'', rt_URI = ''mongodb://b''\<rparr>]"
    "rc_ReplayEnabled two_target_record" "rc_ReplayOutcomesPath two_target_record = ''out/o.ndjson''" by (simp_all add: two_target_record_def)
  have p: "TargetPath ''out/o.ndjson'' ''m7'' = ''out/o.m7.ndjson''" "TargetPath ''out/o.ndjson'' ''m8'' = ''out/o.m8.ndjson''" by code_simp+
  have "map tg_OutcomesPath ts = [''out/o.m7.ndjson'', ''out/o.m8.ndjson'']"
    unfolding m l by (simp add: plan_target_path l p)
  then show "\<exists>ts. NewPlan (b\<lparr>ac_rec := two_target_record\<rparr>) = Inr ts \<and> distinct (map (\<lambda>t. to_lower (tg_OutcomesPath t)) ts)
     \<and> map tg_OutcomesPath ts = [''out/o.m7.ndjson'', ''out/o.m8.ndjson'']"
    by (intro exI [of _ ts] conjI) (rule ts, rule conjunct1 [OF target_paths_distinct [OF ts]], assumption)
qed

end
