(* ===== verification/Spec2Isabelle.thy ===== *)
theory Spec2Isabelle
  imports RecorderRun CompareCorrect TrafficFingerprint Replay Execute Placeholders LoadProfile Queries ConfigUse LoadGate Worker DetGenProofs TrafficImportProofs ReplayShapes IndexAdviceProofs EfficiencyProofs MultitargetProofs
begin

text \<open>
  Percona load generator for MongoDB (plgm), a Go program that drives a MongoDB server with generated, recorded or imported traffic
  and reports what it measured: a model of its core logic, and the theorems that make it correct. Paths are relative to \<open>src/\<close>.

  \<^bold>\<open>The program.\<close> A configuration (\<open>internal/config\<close>) names collections, queries, an operation mix and a load profile. A run
  (\<open>internal/mongo/runner.go\<close>) starts workers that draw operations, fill in placeholders, send them and register what the server
  answered in a pool of known records. A run can be recorded to a file (\<open>internal/workloadrec\<close>), its outcomes can be written beside it,
  a recording can be replayed (\<open>internal/mongo/workload_replay.go\<close>), also against several targets (\<open>internal/multitarget\<close>), and two
  outcome files can be compared (\<open>internal/replaycompare\<close>). Deterministic runs (\<open>internal/mongo/workload_deterministic.go\<close>) derive every
  operation from a seed. Query logs become a workload (\<open>internal/schemainfer\<close>) or a recording (\<open>internal/trafficimport\<close>). Explained
  samples are rated, diagnosed and turned into index advice (\<open>internal/stats\<close>).

  \<^bold>\<open>Foundations.\<close> \<open>Prelude\<close> has the string functions, results that can fail, counters and fixed-width conversions; \<open>GoValues\<close> the dynamic
  values (\<open>gval\<close>) and \<open>Canonical\<close>; \<open>GoFloat\<close> double precision as rationals rounded to 53 bits; \<open>Durations\<close> the \<open>time\<close> package's
  durations; \<open>Rand\<close> and \<open>SplitMix\<close> the random sources. Go's maps are entry lists in the order of an iteration: where the order must not
  matter, the theorems quantify over it. Nil pointers and panics are \<open>None\<close>, errors are the left of a sum or an error datatype.

  \<^bold>\<open>Recordings and outcomes.\<close> \<open>WorkloadFormat\<close> (format.go, fingerprint.go), \<open>Reader\<close> (reader.go), \<open>Recorder\<close> and \<open>RecorderRun\<close> (writer.go)
  and \<open>Outcomes\<close> (outcome.go). The recorder and the outcome writer are step relations over all interleavings of the workers with the
  writer goroutine. \<open>recording_keeps_prefix\<close>, \<open>recorder_file_scans\<close> and \<open>outcomes_complete\<close> say what the files hold in every interleaving.

  \<^bold>\<open>Comparison.\<close> \<open>CompareLatency\<close>, \<open>CompareOps\<close>, \<open>ReplayCompare\<close>, \<open>CompareTop\<close>, \<open>CompareProofs\<close>, \<open>CompareSpec\<close>, \<open>CompareReport\<close> and \<open>CompareCorrect\<close>
  (compare.go, plans.go): the streaming comparer refines the comparison of two maps from operation keys to results
  (\<open>compare_differences\<close>), and \<open>Compare\<close> as a whole is described by \<open>Compare_report\<close> and \<open>Compare_identity\<close>.

  \<^bold>\<open>Operations.\<close> \<open>Commands\<close> has the recorded form of an operation, its decoding and the targets it writes; \<open>Shapes\<close> the key under which it is
  reported; \<open>Execute\<close> the call to the driver and what the reply changes; \<open>OutcomeCapture\<close> the outcome it yields; \<open>RecordPool\<close>,
  \<open>AccessPattern\<close> and \<open>Placeholders\<close> the records a query is bound to. The round trips \<open>replay_sends_recorded_command\<close> and
  \<open>replay_makes_recorded_call\<close> connect them.

  \<^bold>\<open>Replay and targets.\<close> \<open>Replay\<close> and \<open>ReplayShapes\<close> (workload_replay.go) are a step relation of dispatcher, bounded queue and workers, with
  order, completeness and termination; \<open>Multitarget\<close> and \<open>MultitargetProofs\<close> one of the targets of a plan.

  \<^bold>\<open>Generated traffic.\<close> \<open>OpSelect\<close>, \<open>BatchBytes\<close>, \<open>Worker\<close> and \<open>LoadGate\<close> (runner.go), \<open>LoadProfile\<close> (loadprofile.go), \<open>DataGen\<close> and \<open>DataGenProofs\<close>
  (internal/datagen, internal/workloads), \<open>DetGen\<close>, \<open>DetGenProofs\<close> and \<open>TrafficFingerprint\<close> (workload_deterministic.go): a plan depends only on
  its seed, its worker and its number, and two runs with one configuration have one fingerprint.

  \<^bold>\<open>Configuration.\<close> \<open>Collections\<close>, \<open>SortSpecs\<close>, \<open>Queries\<close>, \<open>Percentages\<close>, \<open>Config\<close> and \<open>ConfigUse\<close> (internal/config): decoding, defaults,
  environment, normalization and validation, with what an accepted configuration guarantees.

  \<^bold>\<open>Logs.\<close> \<open>SchemaInfer\<close> and \<open>SchemaInferProofs\<close> (schemainfer.go), \<open>TrafficImport\<close> and \<open>TrafficImportProofs\<close> (trafficimport.go): what is inferred is
  what a look at the whole log gives, nothing captured is dropped silently, an import passes the reader's scan and a replay sends it.

  \<^bold>\<open>Explain evidence.\<close> \<open>Efficiency\<close>, \<open>ExplainFindings\<close> and \<open>EfficiencyProofs\<close> (efficiency.go, explain_findings.go), \<open>IndexAdvice\<close>, \<open>IndexPlan\<close>,
  \<open>IndexReport\<close> and \<open>IndexAdviceProofs\<close> (index_advice.go, internal/webui/indexes.go): a score of partial evidence is an upper bound, a
  finding is earned, and an index called suitable gives the documents in the order of the sort.

  \<^bold>\<open>Interfaces.\<close> Where a component relies on another one, the interface is a locale: \<open>rng_source\<close>, \<open>rand_source\<close> and
  \<open>faker_source\<close> are the random generators, interpreted on SplitMix64 with the algorithms of \<open>math/rand\<close>; \<open>index_selector\<close> is what the
  record pool relies on to choose a record, interpreted on the compiled access patterns; \<open>op_stream\<close> is the reading of a file
  operation by operation, interpreted on the recording reader and on the outcome reader.

  \<^bold>\<open>Parameters.\<close> Code that is not under \<open>src/\<close> is an argument: SHA-256 and encoders of the driver and of \<open>encoding/json\<close>, relaxed extended JSON,
  \<open>gofakeit\<close>, \<open>net/url\<close>, the server's replies, \<open>math.Sin\<close> and \<open>math.Log10\<close>, the clock and the scheduler. What a theorem needs of them is a
  premise, and its witness instantiates it.

  \<^bold>\<open>Bounds and fuel.\<close> Integers have the width of the source where it matters (64-bit words in SplitMix, \<open>to_i32\<close> and \<open>to_i64\<close> elsewhere).
  Loops that draw until a value is accepted return an option; that they return is proved for every generator that keeps the
  contract of \<open>math/rand\<close>. The runs that are step relations have measures, so their bounds hold for every schedule.

  \<^bold>\<open>Not modelled.\<close> The command line, the benchmark driver, the database connection and setup, logging, the HTML of reports and the web
  interface are I/O around the components above. Of \<open>internal/stats\<close> the collector, the sampling of queries, the wording of the insights
  report and the trends over stored runs are left out; of \<open>internal/multitarget\<close> and \<open>internal/stats/index_advice.go\<close> the texts of
  summaries, metrics and trade-offs. Overflow, subnormals and the sign of zero of float64 are not represented, and strings are bytes
  where the source works on runes of ASCII names.
\<close>

end
